(* ===== verification/Prelude.thy ===== *)
theory Prelude
  imports Main "HOL-Library.AList" "HOL-Library.Log_Nat"
begin

text \<open>
  What the components share: Python values, exceptions and results, dictionaries as
  association lists, and the lemma collections the component proofs use.

  A dictionary is an association list read with \<open>map_of\<close> and written with
  \<open>AList.update\<close>: the list order stands for the (unspecified) iteration order of a
  Python 2 dictionary, and an update keeps the position of a key that is present. A call
  that may raise returns \<open>exn + 'a\<close>, \<open>Inl\<close> for the exception.
\<close>

named_theorems result_simps \<open>equations that evaluate a result\<close>
named_theorems dict_simps \<open>reading a dictionary after a write\<close>
named_theorems state_frame \<open>fields that an operation leaves unchanged\<close>

section \<open>Python values\<close>

text \<open>
  The values that travel in request bodies, database rows, RPC arguments and JSON
  columns. A datetime is its wall-clock text and whether it carries a time zone.
  Floating-point values are not among them; where the code computes with floats the
  rounding is written out instead.
\<close>

datatype pyval =
    PNone
  | PBool bool
  | PInt int
  | PStr string
  | PDate string bool
  | PList "pyval list"
  | PDict "(string \<times> pyval) list"

type_synonym pydict = "(string \<times> pyval) list"

fun truthy :: "pyval \<Rightarrow> bool" where
  "truthy PNone = False"
| "truthy (PBool b) = b"
| "truthy (PInt n) = (n \<noteq> 0)"
| "truthy (PStr s) = (s \<noteq> [])"
| "truthy (PDate s tz) = True"
| "truthy (PList xs) = (xs \<noteq> [])"
| "truthy (PDict d) = (d \<noteq> [])"

section \<open>Exceptions and results\<close>

text \<open>
  The exception classes of \<^verbatim>\<open>nova/exception.py\<close> the modelled code raises or
  catches. \<open>nova_parent\<close> is the class statement's base class, so that an
  \<^verbatim>\<open>except\<close> clause is the test \<open>is_a\<close>.
\<close>

datatype nova_class =
    NovaException | Forbidden | AdminRequired | PolicyNotAuthorized | Unauthorized
  | Invalid | InvalidInput | InvalidAPIVersionString | VersionNotFoundForAPIMethod
  | InvalidGlobalAPIVersion | ApiVersionsIntersect | ValidationError
  | InvalidQuotaValue | InvalidQuotaMethodUsage | InvalidReservationExpiration
  | QuotaUsageRefreshNotAllowed
  | NotFound | CaseNotFound | HostNotFound | ComputeHostNotFound
  | QuotaNotFound | QuotaExists | QuotaResourceUnknown | ProjectUserQuotaNotFound
  | ProjectQuotaNotFound | QuotaClassNotFound | QuotaUsageNotFound | OverQuota
  | ServiceTopicExists | ServiceBinaryExists | ServiceNotFound | HostBinaryNotFound
  | ServiceTooOld | MarkerNotFound
  | ObjectActionError | OrphanedObjectError | MalformedRequestBody | InvalidContentType

fun nova_parent :: "nova_class \<Rightarrow> nova_class option" where
  "nova_parent NovaException = None"
| "nova_parent AdminRequired = Some Forbidden"
| "nova_parent PolicyNotAuthorized = Some Forbidden"
| "nova_parent InvalidInput = Some Invalid"
| "nova_parent InvalidAPIVersionString = Some Invalid"
| "nova_parent VersionNotFoundForAPIMethod = Some Invalid"
| "nova_parent InvalidGlobalAPIVersion = Some Invalid"
| "nova_parent ApiVersionsIntersect = Some Invalid"
| "nova_parent InvalidQuotaValue = Some Invalid"
| "nova_parent InvalidQuotaMethodUsage = Some Invalid"
| "nova_parent InvalidReservationExpiration = Some Invalid"
| "nova_parent QuotaUsageRefreshNotAllowed = Some Invalid"
| "nova_parent ValidationError = Some Invalid"
| "nova_parent CaseNotFound = Some NotFound"
| "nova_parent HostNotFound = Some NotFound"
| "nova_parent ComputeHostNotFound = Some HostNotFound"
| "nova_parent QuotaNotFound = Some NotFound"
| "nova_parent QuotaResourceUnknown = Some QuotaNotFound"
| "nova_parent ProjectUserQuotaNotFound = Some QuotaNotFound"
| "nova_parent ProjectQuotaNotFound = Some QuotaNotFound"
| "nova_parent QuotaClassNotFound = Some QuotaNotFound"
| "nova_parent QuotaUsageNotFound = Some QuotaNotFound"
| "nova_parent ServiceNotFound = Some NotFound"
| "nova_parent HostBinaryNotFound = Some NotFound"
| "nova_parent ServiceTooOld = Some Invalid"
| "nova_parent MarkerNotFound = Some NotFound"
| "nova_parent MalformedRequestBody = Some NovaException"
| "nova_parent InvalidContentType = Some Invalid"
| "nova_parent _ = Some NovaException"

text \<open>The class and its ancestors, nearest first; no chain is longer than four.\<close>

fun nova_mro_upto :: "nat \<Rightarrow> nova_class \<Rightarrow> nova_class list" where
  "nova_mro_upto 0 c = [c]"
| "nova_mro_upto (Suc n) c =
     (case nova_parent c of None \<Rightarrow> [c] | Some p \<Rightarrow> c # nova_mro_upto n p)"

definition nova_mro :: "nova_class \<Rightarrow> nova_class list" where
  "nova_mro c = nova_mro_upto 4 c"

definition is_a :: "nova_class \<Rightarrow> nova_class \<Rightarrow> bool" where
  "is_a c d \<longleftrightarrow> d \<in> set (nova_mro c)"

lemma nova_mro_complete: "last (nova_mro c) = NovaException"
  by (cases c) (simp_all add: nova_mro_def numeral_eq_Suc)

datatype exn =
    KeyError string
  | TypeError
  | ValueError
  | AttributeError
  | IndexError
  | ZeroDivisionError
  | RuntimeError
  | NotImplementedErr
  | HTTPError int string
  | Nova nova_class string
  | MessagingTimeout
  | OtherError string

type_synonym 'a result = "exn + 'a"

text \<open>Sequencing: the rest of the code runs on the value, or the exception propagates.\<close>

fun bind_r :: "'e + 'a \<Rightarrow> ('a \<Rightarrow> 'e + 'b) \<Rightarrow> 'e + 'b" where
  "bind_r (Inl e) f = Inl e"
| "bind_r (Inr x) f = f x"

lemma bind_r_Inr_iff [result_simps]:
  "bind_r r f = Inr y \<longleftrightarrow> (\<exists>x. r = Inr x \<and> f x = Inr y)"
  by (cases r) auto

lemma bind_r_Inl_iff [result_simps]:
  "bind_r r f = Inl e \<longleftrightarrow> r = Inl e \<or> (\<exists>x. r = Inr x \<and> f x = Inl e)"
  by (cases r) auto

text \<open>A loop that may raise: the results in order, or the first exception.\<close>

fun map_r :: "('a \<Rightarrow> 'e + 'b) \<Rightarrow> 'a list \<Rightarrow> 'e + 'b list" where
  "map_r f [] = Inr []"
| "map_r f (x # xs) = bind_r (f x) (\<lambda>y. bind_r (map_r f xs) (\<lambda>ys. Inr (y # ys)))"

fun fold_r :: "('a \<Rightarrow> 's \<Rightarrow> 'e + 's) \<Rightarrow> 'a list \<Rightarrow> 's \<Rightarrow> 'e + 's" where
  "fold_r f [] s = Inr s"
| "fold_r f (x # xs) s = bind_r (f x s) (fold_r f xs)"

lemma map_r_length: "map_r f xs = Inr ys \<Longrightarrow> length ys = length xs"
  by (induction xs arbitrary: ys) (auto simp: result_simps)

lemma fold_r_invariant:
  assumes "fold_r f xs s = Inr t" "P s"
    and "\<And>x s t. x \<in> set xs \<Longrightarrow> P s \<Longrightarrow> f x s = Inr t \<Longrightarrow> P t"
  shows "P t"
  using assms
proof (induction xs arbitrary: s)
  case Nil
  then show ?case by simp
next
  case (Cons x xs)
  from Cons.prems(1) obtain u where u: "f x s = Inr u" "fold_r f xs u = Inr t"
    by (auto simp: result_simps)
  have "P u" by (rule Cons.prems(3) [OF _ Cons.prems(2) u(1)]) simp
  then show ?case by (rule Cons.IH [OF u(2)]) (auto intro: Cons.prems(3))
qed

section \<open>Dictionaries\<close>

abbreviation dget :: "('k \<times> 'v) list \<Rightarrow> 'k \<Rightarrow> 'v option" where
  "dget \<equiv> map_of"

abbreviation dset :: "'k \<Rightarrow> 'v \<Rightarrow> ('k \<times> 'v) list \<Rightarrow> ('k \<times> 'v) list" where
  "dset \<equiv> AList.update"

definition dhas :: "('k \<times> 'v) list \<Rightarrow> 'k \<Rightarrow> bool" where
  "dhas d k \<longleftrightarrow> dget d k \<noteq> None"

definition dgetd :: "('k \<times> 'v) list \<Rightarrow> 'k \<Rightarrow> 'v \<Rightarrow> 'v" where
  "dgetd d k v = (case dget d k of None \<Rightarrow> v | Some w \<Rightarrow> w)"

text \<open>\<^verbatim>\<open>d[k]\<close>: a missing key raises \<^verbatim>\<open>KeyError\<close>.\<close>

definition ditem :: "(string \<times> 'v) list \<Rightarrow> string \<Rightarrow> 'v result" where
  "ditem d k = (case dget d k of None \<Rightarrow> Inl (KeyError k) | Some v \<Rightarrow> Inr v)"

text \<open>A Python dictionary has each key once.\<close>

abbreviation dict_ok :: "('k \<times> 'v) list \<Rightarrow> bool" where
  "dict_ok d \<equiv> distinct (map fst d)"

lemma dget_dset [dict_simps, simp]: "dget (dset k v d) = (dget d)(k \<mapsto> v)"
  by (rule update_conv')

lemma dict_ok_dset [dict_simps, simp]: "dict_ok d \<Longrightarrow> dict_ok (dset k v d)"
  by (rule distinct_update)

lemma dhas_dset [dict_simps, simp]: "dhas (dset k v d) j \<longleftrightarrow> j = k \<or> dhas d j"
  by (simp add: dhas_def)

lemma dgetd_dset [dict_simps, simp]:
  "dgetd (dset k v d) j w = (if j = k then v else dgetd d j w)"
  by (simp add: dgetd_def)

lemma ditem_dset [dict_simps, simp]:
  "ditem (dset k v d) j = (if j = k then Inr v else ditem d j)"
  by (simp add: ditem_def)

lemma ditem_Inr_iff [result_simps]: "ditem d k = Inr v \<longleftrightarrow> dget d k = Some v"
  by (auto simp: ditem_def split: option.splits)

lemma dget_delete [dict_simps, simp]:
  "dget (AList.delete k d) j = (if j = k then None else dget d j)"
  by (simp add: AList.delete_conv')

text \<open>\<^verbatim>\<open>d.update(e)\<close>: the pairs of \<open>e\<close> are stored one after the other.\<close>

definition dupdate :: "('k \<times> 'v) list \<Rightarrow> ('k \<times> 'v) list \<Rightarrow> ('k \<times> 'v) list" where
  "dupdate d e = fold (\<lambda>(k, v). dset k v) e d"

lemma dget_dupdate [dict_simps]:
  "dget (dupdate d e) k = (case dget (rev e) k of None \<Rightarrow> dget d k | Some v \<Rightarrow> Some v)"
  unfolding dupdate_def
  by (induction e arbitrary: d) (auto simp: map_add_def split: option.splits)

lemma dict_ok_dupdate [dict_simps, simp]: "dict_ok d \<Longrightarrow> dict_ok (dupdate d e)"
  unfolding dupdate_def by (induction e arbitrary: d) auto

lemma dget_rev_dict_ok: "dict_ok e \<Longrightarrow> dget (rev e) k = dget e k"
proof -
  assume d: "dict_ok e"
  then have "dict_ok (rev e)" by (simp flip: rev_map)
  with d have "map_of (rev e) = map_of e" by (intro map_of_eqI) (auto simp: map_of_eq_Some_iff)
  then show ?thesis by simp
qed

lemma dset_new: "k \<notin> fst ` set d \<Longrightarrow> dset k v d = d @ [(k, v)]"
  by (induction d) auto

lemma dupdate_append: "dict_ok (d @ e) \<Longrightarrow> dupdate d e = d @ e"
  unfolding dupdate_def by (induction e arbitrary: d) (auto simp: dset_new)

lemma dupdate_Nil: "dict_ok e \<Longrightarrow> dupdate [] e = e"
  using dupdate_append [of "[]" e] by simp

lemma set_dset: "e \<in> set (dset k v d) \<Longrightarrow> e = (k, v) \<or> e \<in> set d"
  by (induction d) (auto split: if_splits)

lemma set_dupdate: "e \<in> set (dupdate d f) \<Longrightarrow> e \<in> set d \<or> e \<in> set f"
  unfolding dupdate_def by (induction f arbitrary: d) (auto dest: set_dset)

text \<open>\<^verbatim>\<open>container[k] = v\<close> and \<^verbatim>\<open>container[k]\<close> with a string index: only a dictionary takes it.\<close>

fun set_item :: "string \<Rightarrow> pyval \<Rightarrow> pyval \<Rightarrow> pyval result" where
  "set_item k v (PDict d) = Inr (PDict (dset k v d))"
| "set_item k v _ = Inl TypeError"

fun get_item :: "string \<Rightarrow> pyval \<Rightarrow> pyval result" where
  "get_item k (PDict d) = ditem d k"
| "get_item k _ = Inl TypeError"

lemma find_SomeD: "find p xs = Some x \<Longrightarrow> x \<in> set xs \<and> p x"
  by (induction xs) (auto split: if_splits)

lemma find_exists: "x \<in> set xs \<Longrightarrow> p x \<Longrightarrow> \<exists>y. find p xs = Some y"
  by (induction xs) auto

end
