(* ===== verification/QuotaDb.thy ===== *)
theory QuotaDb
  imports Prelude "HOL-Library.List_Lexorder" "HOL-Library.Char_ord"
begin

text \<open>
  The quota tables and their operations in \<^verbatim>\<open>nova/db/sqlalchemy/api.py\<close>: limits per
  project, user and class; usage records; reservations with their reserve, commit,
  rollback and expiry; and the refresh of a usage from the actual counts.

  A row is a record with the columns the code uses and whether it is visible (not
  soft-deleted); a table is a list in id order. The code keeps references to usage rows
  in dictionaries and writes through them: here a dictionary maps a resource to the id of
  a row, and the rows stay in the table. The counting functions of
  \<^verbatim>\<open>QUOTA_SYNC_FUNCTIONS\<close>, the clock, the generated uuids and the \<^verbatim>\<open>total\<close> attribute of
  a usage row (its model class is not in the repository) are parameters.
\<close>

section \<open>Rows\<close>

record limit_row =
  l_project :: string
  l_user :: "string option"
  l_resource :: string
  hard_limit :: int
  l_live :: bool

record class_row =
  c_class :: string
  c_resource :: string
  c_limit :: int
  c_live :: bool

record usage =
  uid :: int
  u_project :: string
  u_user :: "string option"
  u_resource :: string
  in_use :: int
  reserved :: int
  until_refresh :: "int option"
  updated :: int
  u_live :: bool

record reservation =
  r_uuid :: string
  r_usage :: int
  r_project :: string
  r_user :: string
  r_resource :: string
  r_delta :: int
  r_expire :: int
  r_live :: bool

record quota_db =
  proj_limits :: "limit_row list"
  user_limits :: "limit_row list"
  class_limits :: "class_row list"
  usages :: "usage list"
  reservations :: "reservation list"
  next_usage :: int

record qctx =
  ctx_project :: string
  ctx_user :: string
  ctx_class :: "string option"
  ctx_deleted :: string

text \<open>\<^verbatim>\<open>model_query\<close> over rows of any table.\<close>

definition query_rows :: "string \<Rightarrow> ('a \<Rightarrow> bool) \<Rightarrow> 'a list \<Rightarrow> 'a list result" where
  "query_rows read_deleted live rs =
     (if read_deleted = ''no'' then Inr (filter live rs)
      else if read_deleted = ''only'' then Inr (filter (\<lambda>r. \<not> live r) rs)
      else if read_deleted = ''yes'' then Inr rs
      else Inl ValueError)"

text \<open>
  \<^verbatim>\<open>main_context_manager.writer\<close>: a transaction; a body that raises leaves nothing behind
  (\<^verbatim>\<open>oslo_db/sqlalchemy/enginefacade.py\<close>).
\<close>

definition writer :: "('s \<Rightarrow> 'a result \<times> 's) \<Rightarrow> 's \<Rightarrow> 'a result \<times> 's" where
  "writer body s = (case body s of (Inl e, s1) \<Rightarrow> (Inl e, s) | (Inr x, s1) \<Rightarrow> (Inr x, s1))"

definition given :: "string option \<Rightarrow> bool" where
  "given u = (case u of None \<Rightarrow> False | Some s \<Rightarrow> s \<noteq> [])"

definition per_project_quotas :: "string list" where
  "per_project_quotas = [''fixed_ips'', ''floating_ips'', ''networks'']"

section \<open>Limits\<close>

definition user_quota_not_found :: exn where
  "user_quota_not_found = Nova ProjectUserQuotaNotFound ''Quota for user in project could not be found.''"

definition project_quota_not_found :: exn where
  "project_quota_not_found = Nova ProjectQuotaNotFound ''Quota for project could not be found.''"

definition quota_get :: "qctx \<Rightarrow> string \<Rightarrow> string \<Rightarrow> string option \<Rightarrow> quota_db \<Rightarrow> limit_row result" where
  "quota_get c project resource user d =
     bind_r (query_rows (ctx_deleted c) l_live (if given user then user_limits d else proj_limits d)) (\<lambda>rs.
       case find (\<lambda>r. l_project r = project \<and> l_resource r = resource \<and>
                      (given user \<longrightarrow> l_user r = user)) rs of
         Some r \<Rightarrow> Inr r
       | None \<Rightarrow> Inl (if given user then user_quota_not_found else project_quota_not_found))"

text \<open>Dictionaries of limits; later rows overwrite earlier ones.\<close>

definition limits_dict :: "limit_row list \<Rightarrow> (string \<times> int) list" where
  "limits_dict rs = fold (\<lambda>r. dset (l_resource r) (hard_limit r)) rs []"

definition quota_get_all_by_project_and_user ::
  "qctx \<Rightarrow> string \<Rightarrow> string \<Rightarrow> quota_db \<Rightarrow> (string \<times> int) list result" where
  "quota_get_all_by_project_and_user c project user d =
     bind_r (query_rows (ctx_deleted c) l_live (user_limits d)) (\<lambda>rs.
       Inr (limits_dict (filter (\<lambda>r. l_project r = project \<and> l_user r = Some user) rs)))"

definition quota_get_all_by_project :: "string \<Rightarrow> quota_db \<Rightarrow> (string \<times> int) list" where
  "quota_get_all_by_project project d =
     limits_dict (filter (\<lambda>r. l_live r \<and> l_project r = project) (proj_limits d))"

definition quota_get_all :: "qctx \<Rightarrow> string \<Rightarrow> quota_db \<Rightarrow> limit_row list result" where
  "quota_get_all c project d =
     bind_r (query_rows (ctx_deleted c) l_live (user_limits d)) (\<lambda>rs.
       Inr (filter (\<lambda>r. l_project r = project) rs))"

definition per_user_limit :: "string option \<Rightarrow> string \<Rightarrow> bool" where
  "per_user_limit user resource \<longleftrightarrow> given user \<and> resource \<notin> set per_project_quotas"

text \<open>\<open>refused\<close> is the table's unique constraint, which the schema declares.\<close>

definition quota_create ::
  "(limit_row list \<Rightarrow> limit_row \<Rightarrow> bool) \<Rightarrow> string \<Rightarrow> string \<Rightarrow> int \<Rightarrow> string option \<Rightarrow>
   quota_db \<Rightarrow> limit_row result \<times> quota_db" where
  "quota_create refused project resource limit user =
     writer (\<lambda>d.
       let pu = per_user_limit user resource;
           r = \<lparr>l_project = project, l_user = (if pu then user else None), l_resource = resource,
                hard_limit = limit, l_live = True\<rparr>;
           t = (if pu then user_limits d else proj_limits d)
       in if refused t r then (Inl (Nova QuotaExists ''Quota exists for project and resource''), d)
          else (Inr r, if pu then d\<lparr>user_limits := t @ [r]\<rparr> else d\<lparr>proj_limits := t @ [r]\<rparr>))"

definition limit_matches :: "bool \<Rightarrow> string \<Rightarrow> string \<Rightarrow> string option \<Rightarrow> limit_row \<Rightarrow> bool" where
  "limit_matches pu project resource user r \<longleftrightarrow>
     l_project r = project \<and> l_resource r = resource \<and> (pu \<longrightarrow> l_user r = user)"

definition quota_update ::
  "qctx \<Rightarrow> string \<Rightarrow> string \<Rightarrow> int \<Rightarrow> string option \<Rightarrow> quota_db \<Rightarrow> unit result \<times> quota_db" where
  "quota_update c project resource limit user =
     writer (\<lambda>d.
       let pu = per_user_limit user resource;
           t = (if pu then user_limits d else proj_limits d)
       in (case query_rows (ctx_deleted c) l_live t of
             Inl e \<Rightarrow> (Inl e, d)
           | Inr rs \<Rightarrow>
               (let hit = (\<lambda>r. r \<in> set rs \<and> limit_matches pu project resource user r);
                    t' = map (\<lambda>r. if hit r then r\<lparr>hard_limit := limit\<rparr> else r) t
                in if filter hit t = []
                   then (Inl (if pu then user_quota_not_found else project_quota_not_found), d)
                   else (Inr (), if pu then d\<lparr>user_limits := t'\<rparr> else d\<lparr>proj_limits := t'\<rparr>))))"

definition default_quota_name :: string where
  "default_quota_name = ''default''"

definition class_not_found :: exn where
  "class_not_found = Nova QuotaClassNotFound ''Quota class could not be found.''"

definition quota_class_get :: "string \<Rightarrow> string \<Rightarrow> quota_db \<Rightarrow> class_row result" where
  "quota_class_get cls resource d =
     (case find (\<lambda>r. c_live r \<and> c_class r = cls \<and> c_resource r = resource) (class_limits d) of
        Some r \<Rightarrow> Inr r | None \<Rightarrow> Inl class_not_found)"

definition quota_class_get_all_by_name :: "string \<Rightarrow> quota_db \<Rightarrow> (string \<times> int) list" where
  "quota_class_get_all_by_name cls d =
     fold (\<lambda>r. dset (c_resource r) (c_limit r))
       (filter (\<lambda>r. c_live r \<and> c_class r = cls) (class_limits d)) []"

definition quota_class_get_default :: "quota_db \<Rightarrow> (string \<times> int) list" where
  "quota_class_get_default d = quota_class_get_all_by_name default_quota_name d"

definition quota_class_create :: "string \<Rightarrow> string \<Rightarrow> int \<Rightarrow> quota_db \<Rightarrow> class_row \<times> quota_db" where
  "quota_class_create cls resource limit d =
     (let r = \<lparr>c_class = cls, c_resource = resource, c_limit = limit, c_live = True\<rparr>
      in (r, d\<lparr>class_limits := class_limits d @ [r]\<rparr>))"

definition quota_class_update :: "string \<Rightarrow> string \<Rightarrow> int \<Rightarrow> quota_db \<Rightarrow> unit result \<times> quota_db" where
  "quota_class_update cls resource limit =
     writer (\<lambda>d.
       let hit = (\<lambda>r. c_live r \<and> c_class r = cls \<and> c_resource r = resource)
       in if filter hit (class_limits d) = [] then (Inl class_not_found, d)
          else (Inr (), d\<lparr>class_limits := map (\<lambda>r. if hit r then r\<lparr>c_limit := limit\<rparr> else r)
                            (class_limits d)\<rparr>))"

section \<open>Usages\<close>

definition usage_not_found :: exn where
  "usage_not_found = Nova QuotaUsageNotFound ''Quota usage for project could not be found.''"

definition quota_usage_get :: "string \<Rightarrow> string \<Rightarrow> string option \<Rightarrow> quota_db \<Rightarrow> usage result" where
  "quota_usage_get project resource user d =
     (case find (\<lambda>u. u_live u \<and> u_project u = project \<and> u_resource u = resource \<and>
              (given user \<longrightarrow>
                 u_user u = (if resource \<notin> set per_project_quotas then user else None))) (usages d) of
        Some u \<Rightarrow> Inr u | None \<Rightarrow> Inl usage_not_found)"

text \<open>
  The result of \<^verbatim>\<open>_quota_usage_get_all\<close> without its two identifying entries: per resource,
  the sums of what is in use and what is reserved.
\<close>

definition add_usage :: "usage \<Rightarrow> (string \<times> (int \<times> int)) list \<Rightarrow> (string \<times> (int \<times> int)) list" where
  "add_usage u d =
     (case dget d (u_resource u) of
        Some (i, r) \<Rightarrow> dset (u_resource u) (i + in_use u, r + reserved u) d
      | None \<Rightarrow> dset (u_resource u) (in_use u, reserved u) d)"

definition quota_usage_get_all :: "string \<Rightarrow> string option \<Rightarrow> quota_db \<Rightarrow> (string \<times> (int \<times> int)) list" where
  "quota_usage_get_all project user d =
     fold add_usage
       (filter (\<lambda>u. u_live u \<and> u_project u = project \<and>
                    (given user \<longrightarrow> u_user u = user \<or> u_user u = None)) (usages d)) []"

definition set_usage :: "int \<Rightarrow> (usage \<Rightarrow> usage) \<Rightarrow> quota_db \<Rightarrow> quota_db" where
  "set_usage i f d = d\<lparr>usages := map (\<lambda>u. if uid u = i then f u else u) (usages d)\<rparr>"

definition get_usage :: "int \<Rightarrow> quota_db \<Rightarrow> usage" where
  "get_usage i d = the (find (\<lambda>u. uid u = i) (usages d))"

definition quota_usage_create ::
  "int \<Rightarrow> string \<Rightarrow> string option \<Rightarrow> string \<Rightarrow> int \<Rightarrow> int \<Rightarrow> int option \<Rightarrow> quota_db \<Rightarrow> int \<times> quota_db" where
  "quota_usage_create now project user resource used held until d =
     (next_usage d,
      d\<lparr>usages := usages d @ [\<lparr>uid = next_usage d, u_project = project, u_user = user,
          u_resource = resource, in_use = used, reserved = held, until_refresh = until,
          updated = now, u_live = True\<rparr>],
        next_usage := next_usage d + 1\<rparr>)"

text \<open>The values to update are given or not, as the keyword arguments of the code.\<close>

definition quota_usage_update ::
  "int \<Rightarrow> string \<Rightarrow> string option \<Rightarrow> string \<Rightarrow> int option \<Rightarrow> int option \<Rightarrow> int option option \<Rightarrow>
   quota_db \<Rightarrow> unit result \<times> quota_db" where
  "quota_usage_update now project user resource new_in_use new_reserved new_until =
     writer (\<lambda>d.
       let hit = (\<lambda>u. u_live u \<and> u_project u = project \<and> u_resource u = resource \<and>
                       (u_user u = user \<or> u_user u = None));
           write = (\<lambda>u. u\<lparr>in_use := (case new_in_use of None \<Rightarrow> in_use u | Some v \<Rightarrow> v),
                          reserved := (case new_reserved of None \<Rightarrow> reserved u | Some v \<Rightarrow> v),
                          until_refresh := (case new_until of None \<Rightarrow> until_refresh u | Some v \<Rightarrow> v),
                          updated := now\<rparr>)
       in if filter hit (usages d) = [] then (Inl usage_not_found, d)
          else (Inr (), d\<lparr>usages := map (\<lambda>u. if hit u then write u else u) (usages d)\<rparr>))"

section \<open>Usages of a project and a user, and their refresh\<close>

record proj_usage =
  pu_in_use :: int
  pu_reserved :: int
  pu_total :: int

type_synonym user_usages = "(string \<times> int) list"

definition setdefault :: "'k \<Rightarrow> 'v \<Rightarrow> ('k \<times> 'v) list \<Rightarrow> ('k \<times> 'v) list" where
  "setdefault k v d = (if dhas d k then d else dset k v d)"

definition add_proj_usage :: "usage \<Rightarrow> (string \<times> proj_usage) list \<Rightarrow> (string \<times> proj_usage) list" where
  "add_proj_usage u d0 =
     (let d = setdefault (u_resource u) \<lparr>pu_in_use = 0, pu_reserved = 0, pu_total = 0\<rparr> d0;
          p = the (dget d (u_resource u))
      in dset (u_resource u)
           \<lparr>pu_in_use = pu_in_use p + in_use u, pu_reserved = pu_reserved p + reserved u,
            pu_total = pu_total p + (in_use u + reserved u)\<rparr> d)"

definition project_rows :: "string option \<Rightarrow> quota_db \<Rightarrow> usage list" where
  "project_rows project d = filter (\<lambda>u. u_live u \<and> Some (u_project u) = project) (usages d)"

definition get_project_user_quota_usages ::
  "string option \<Rightarrow> string option \<Rightarrow> quota_db \<Rightarrow> (string \<times> proj_usage) list \<times> user_usages" where
  "get_project_user_quota_usages project user d =
     (fold add_proj_usage (project_rows project d) [],
      fold (\<lambda>u m. if u_user u = None \<or> u_user u = user then dset (u_resource u) (uid u) m else m)
        (project_rows project d) [])"

definition nonzero :: "int option \<Rightarrow> int option" where
  "nonzero x = (if x = Some 0 then None else x)"

definition create_quota_usage_if_missing ::
  "int \<Rightarrow> string \<Rightarrow> int option \<Rightarrow> string \<Rightarrow> string \<Rightarrow> user_usages \<times> quota_db \<Rightarrow>
   bool \<times> (user_usages \<times> quota_db)" where
  "create_quota_usage_if_missing now resource until project user st =
     (case st of (m, d) \<Rightarrow>
        if dhas m resource then (False, st)
        else (case quota_usage_create now project
                     (if resource \<in> set per_project_quotas then None else Some user)
                     resource 0 0 (nonzero until) d of
                (i, d1) \<Rightarrow> (True, (dset resource i m, d1))))"

text \<open>
  \<^verbatim>\<open>timedelta.seconds\<close> is the part of the difference below a day. The countdown is
  written to the row.
\<close>

definition is_quota_refresh_needed :: "int \<Rightarrow> int \<Rightarrow> usage \<Rightarrow> bool \<times> usage" where
  "is_quota_refresh_needed now max_age u =
     (if in_use u < 0 then (True, u)
      else (case until_refresh u of
              Some n \<Rightarrow> (n - 1 \<le> 0, u\<lparr>until_refresh := Some (n - 1)\<rparr>)
            | None \<Rightarrow> (max_age \<noteq> 0 \<and> (now - updated u) mod 86400 \<ge> max_age, u)))"

definition refresh_quota_usages :: "int option \<Rightarrow> int \<Rightarrow> usage \<Rightarrow> usage" where
  "refresh_quota_usages until used u = u\<lparr>in_use := used, until_refresh := nonzero until\<rparr>"

definition refresh_synced ::
  "int \<Rightarrow> int option \<Rightarrow> string \<Rightarrow> string \<Rightarrow> (string \<times> int) list \<Rightarrow>
   user_usages \<times> quota_db \<Rightarrow> user_usages \<times> quota_db" where
  "refresh_synced now until project user counts st =
     fold (\<lambda>(res, used) s.
       case create_quota_usage_if_missing now res until project user s of
         (_, (m, d)) \<Rightarrow>
           (m, set_usage (the (dget m res)) (refresh_quota_usages until used) d)) counts st"

text \<open>Whether the resource at hand is refreshed, and the state after its usage was looked at.\<close>

definition check_refresh ::
  "int \<Rightarrow> int \<Rightarrow> bool \<Rightarrow> string \<Rightarrow> int option \<Rightarrow> string \<Rightarrow> string \<Rightarrow> user_usages \<times> quota_db \<Rightarrow>
   bool \<times> (user_usages \<times> quota_db)" where
  "check_refresh now max_age force resource until project user st =
     (case create_quota_usage_if_missing now resource until project user st of
        (created, (m, d)) \<Rightarrow>
          if force \<or> created then (True, (m, d))
          else (case is_quota_refresh_needed now max_age (get_usage (the (dget m resource)) d) of
                  (needed, u) \<Rightarrow> (needed, (m, set_usage (the (dget m resource)) (\<lambda>_. u) d))))"

text \<open>
  The loop over the work set. \<open>sync\<close> stands for the counting function registered for a
  resource; its result may name further resources, which leave the work set too.
\<close>

function refresh_loop ::
  "int \<Rightarrow> int \<Rightarrow> bool \<Rightarrow> (string \<Rightarrow> (string \<times> int) list result) \<Rightarrow> int option \<Rightarrow> string \<Rightarrow> string \<Rightarrow>
   string list \<Rightarrow> user_usages \<times> quota_db \<Rightarrow> (user_usages \<times> quota_db) result" where
  "refresh_loop now max_age force sync until project user [] st = Inr st"
| "refresh_loop now max_age force sync until project user (res # work) st =
     (case check_refresh now max_age force res until project user st of
        (refresh, st1) \<Rightarrow>
          if \<not> refresh then refresh_loop now max_age force sync until project user work st1
          else (case sync res of
                  Inl e \<Rightarrow> Inl e
                | Inr counts \<Rightarrow>
                    refresh_loop now max_age force sync until project user
                      (filter (\<lambda>w. w \<notin> set (map fst counts)) work)
                      (refresh_synced now until project user counts st1)))"
  by pat_completeness auto
termination
  by (relation "measure (\<lambda>(_, _, _, _, _, _, _, work, _). length work)")
    (auto simp: less_Suc_eq_le)

definition refresh_quota_usages_if_needed ::
  "int \<Rightarrow> (string \<Rightarrow> (string \<times> int) list result) \<Rightarrow> string list \<Rightarrow> string \<Rightarrow> string \<Rightarrow> int option \<Rightarrow>
   int \<Rightarrow> bool \<Rightarrow> user_usages \<times> quota_db \<Rightarrow> (user_usages \<times> quota_db) result" where
  "refresh_quota_usages_if_needed now sync keys project user until max_age force st =
     refresh_loop now max_age force sync until project user (remdups keys) st"

text \<open>At the end of a transaction the changed rows are written, with their update time.\<close>

definition flush :: "int \<Rightarrow> usage list \<Rightarrow> usage list \<Rightarrow> usage list" where
  "flush now old us =
     map (\<lambda>u. case find (\<lambda>o1. uid o1 = uid u) old of
                Some o1 \<Rightarrow> if o1 = u then u else u\<lparr>updated := now\<rparr>
              | None \<Rightarrow> u) us"

definition flushed :: "int \<Rightarrow> quota_db \<Rightarrow> quota_db \<Rightarrow> quota_db" where
  "flushed now d0 d = d\<lparr>usages := flush now (usages d0) (usages d)\<rparr>"

definition quota_usage_refresh ::
  "int \<Rightarrow> qctx \<Rightarrow> (string \<Rightarrow> (string \<times> int) list result) \<Rightarrow> string list \<Rightarrow> int option \<Rightarrow> int \<Rightarrow>
   string option \<Rightarrow> string option \<Rightarrow> quota_db \<Rightarrow> unit result \<times> quota_db" where
  "quota_usage_refresh now c sync keys until max_age project_id user_id =
     writer (\<lambda>d.
       let project = (case project_id of None \<Rightarrow> ctx_project c | Some p \<Rightarrow> p);
           user = (case user_id of None \<Rightarrow> ctx_user c | Some u \<Rightarrow> u)
       in (case refresh_quota_usages_if_needed now sync keys project user until max_age True
                  (snd (get_project_user_quota_usages (Some project) (Some user) d), d) of
             Inl e \<Rightarrow> (Inl e, d)
           | Inr (m, d1) \<Rightarrow> (Inr (), flushed now d d1)))"

end
