(* ===== verification/Reservations.thy ===== *)
theory Reservations
  imports QuotaDb
begin

text \<open>
  Reserving quota (\<^verbatim>\<open>quota_reserve\<close> in \<^verbatim>\<open>nova/db/sqlalchemy/api.py\<close>) and ending a
  reservation by commit, rollback or expiry, with the invariant they keep: what a usage
  row shows as reserved is the sum of the pending positive reservations on it.

  An \<open>OverQuota\<close> carries the sorted resource names as its text.
\<close>

section \<open>Reserving\<close>

text \<open>
  The over-quota check. \<open>usage_total\<close> is the \<^verbatim>\<open>total\<close> attribute of a usage row; a
  project's usage is its sum over rows, or a row copied from the user's when the sum had none.
\<close>

definition over_limit :: "int \<Rightarrow> int \<Rightarrow> bool" where
  "over_limit limit wanted \<longleftrightarrow> 0 \<le> limit \<and> limit < wanted"

definition check_delta ::
  "(string \<times> int) list \<Rightarrow> (string \<times> int) list \<Rightarrow> (string \<Rightarrow> int) \<Rightarrow> (string \<Rightarrow> int) \<Rightarrow>
   string \<times> int \<Rightarrow> string list \<Rightarrow> string list result" where
  "check_delta pq uq ptotal utotal rd overs =
     (case rd of (res, delta) \<Rightarrow>
        if delta < 0 then Inr overs
        else bind_r (ditem pq res) (\<lambda>pl.
          if over_limit pl (delta + ptotal res) then Inr (overs @ [res])
          else bind_r (ditem uq res) (\<lambda>ul.
            if over_limit ul (delta + utotal res) then Inr (overs @ [res]) else Inr overs)))"

definition calculate_overquota ::
  "(string \<times> int) list \<Rightarrow> (string \<times> int) list \<Rightarrow> (string \<times> int) list \<Rightarrow>
   (string \<Rightarrow> int) \<Rightarrow> (string \<Rightarrow> int) \<Rightarrow> string list result" where
  "calculate_overquota pq uq deltas ptotal utotal =
     fold_r (check_delta pq uq ptotal utotal) deltas []"

definition user_total :: "(usage \<Rightarrow> int) \<Rightarrow> user_usages \<times> quota_db \<Rightarrow> string \<Rightarrow> int" where
  "user_total usage_total st res =
     (case st of (m, d) \<Rightarrow> usage_total (get_usage (the (dget m res)) d))"

definition project_total ::
  "(usage \<Rightarrow> int) \<Rightarrow> (string \<times> proj_usage) list \<Rightarrow> user_usages \<times> quota_db \<Rightarrow> string \<Rightarrow> int" where
  "project_total usage_total pu st res =
     (case dget pu res of Some p \<Rightarrow> pu_total p | None \<Rightarrow> user_total usage_total st res)"

definition reservation_create ::
  "string \<Rightarrow> int \<Rightarrow> string \<Rightarrow> string \<Rightarrow> string \<Rightarrow> int \<Rightarrow> int \<Rightarrow> quota_db \<Rightarrow> quota_db" where
  "reservation_create uuid usage_id project user resource delta expire d =
     d\<lparr>reservations := reservations d @ [\<lparr>r_uuid = uuid, r_usage = usage_id, r_project = project,
         r_user = user, r_resource = resource, r_delta = delta, r_expire = expire, r_live = True\<rparr>]\<rparr>"

definition reserve_one ::
  "string \<Rightarrow> string \<Rightarrow> int \<Rightarrow> user_usages \<Rightarrow> string \<times> (string \<times> int) \<Rightarrow> quota_db \<Rightarrow> quota_db" where
  "reserve_one project user expire m e d =
     (case e of (uuid, res, delta) \<Rightarrow>
        (let d1 = reservation_create uuid (the (dget m res)) project user res delta expire d
         in if delta > 0
            then set_usage (the (dget m res)) (\<lambda>u. u\<lparr>reserved := reserved u + delta\<rparr>) d1
            else d1))"

text \<open>The uuids generated are \<open>fresh 0\<close>, \<open>fresh 1\<close>, ...\<close>

definition with_uuids :: "(nat \<Rightarrow> string) \<Rightarrow> 'a list \<Rightarrow> (string \<times> 'a) list" where
  "with_uuids fresh xs = zip (map fresh [0..<length xs]) xs"

definition quota_reserve_body ::
  "int \<Rightarrow> (nat \<Rightarrow> string) \<Rightarrow> (usage \<Rightarrow> int) \<Rightarrow> (string \<Rightarrow> (string \<times> int) list result) \<Rightarrow>
   (string \<times> int) list \<Rightarrow> (string \<times> int) list \<Rightarrow> (string \<times> int) list \<Rightarrow> int \<Rightarrow> int option \<Rightarrow> int \<Rightarrow>
   string \<Rightarrow> string \<Rightarrow> quota_db \<Rightarrow> string list result \<times> quota_db" where
  "quota_reserve_body now fresh usage_total sync pq uq deltas expire until max_age project user d =
     (case get_project_user_quota_usages (Some project) (Some user) d of
        (pu, m0) \<Rightarrow>
          (case refresh_quota_usages_if_needed now sync (map fst deltas) project user until max_age
                  False (m0, d) of
             Inl e \<Rightarrow> (Inl e, d)
           | Inr (m, d1) \<Rightarrow>
               (case calculate_overquota pq uq deltas (project_total usage_total pu (m, d1))
                       (user_total usage_total (m, d1)) of
                  Inl e \<Rightarrow> (Inl e, d)
                | Inr overs \<Rightarrow>
                    if overs = []
                    then (Inr (map fst (with_uuids fresh deltas)),
                          flushed now d (fold (reserve_one project user expire m) (with_uuids fresh deltas) d1))
                    else (Inl (Nova OverQuota (concat (map (\<lambda>r. r @ [CHR '' '']) (sort overs)))), flushed now d d1))))"

definition quota_reserve ::
  "int \<Rightarrow> qctx \<Rightarrow> (nat \<Rightarrow> string) \<Rightarrow> (usage \<Rightarrow> int) \<Rightarrow> (string \<Rightarrow> (string \<times> int) list result) \<Rightarrow>
   (string \<times> int) list \<Rightarrow> (string \<times> int) list \<Rightarrow> (string \<times> int) list \<Rightarrow> int \<Rightarrow> int option \<Rightarrow> int \<Rightarrow>
   string option \<Rightarrow> string option \<Rightarrow> quota_db \<Rightarrow> string list result \<times> quota_db" where
  "quota_reserve now c fresh usage_total sync pq uq deltas expire until max_age project_id user_id =
     writer (quota_reserve_body now fresh usage_total sync pq uq deltas expire until max_age
       (case project_id of None \<Rightarrow> ctx_project c | Some p \<Rightarrow> p)
       (case user_id of None \<Rightarrow> ctx_user c | Some u \<Rightarrow> u))"

section \<open>Ending a reservation\<close>

definition quota_reservations_query :: "string list \<Rightarrow> quota_db \<Rightarrow> reservation list" where
  "quota_reservations_query uuids d =
     filter (\<lambda>r. r_live r \<and> r_uuid r \<in> set uuids) (reservations d)"

definition soft_delete_reservations :: "(reservation \<Rightarrow> bool) \<Rightarrow> quota_db \<Rightarrow> quota_db" where
  "soft_delete_reservations p d =
     d\<lparr>reservations := map (\<lambda>r. if r_live r \<and> p r then r\<lparr>r_live := False\<rparr> else r) (reservations d)\<rparr>"

definition commit_usage :: "int \<Rightarrow> usage \<Rightarrow> usage" where
  "commit_usage delta u =
     u\<lparr>reserved := (if delta \<ge> 0 then reserved u - delta else reserved u), in_use := in_use u + delta\<rparr>"

definition release_usage :: "int \<Rightarrow> usage \<Rightarrow> usage" where
  "release_usage delta u = u\<lparr>reserved := (if delta \<ge> 0 then reserved u - delta else reserved u)\<rparr>"

text \<open>Both end the listed reservations; the usage is looked up by the resource name.\<close>

definition end_reservation ::
  "(int \<Rightarrow> usage \<Rightarrow> usage) \<Rightarrow> user_usages \<Rightarrow> reservation \<Rightarrow> quota_db \<Rightarrow> quota_db result" where
  "end_reservation change m r d =
     bind_r (ditem m (r_resource r)) (\<lambda>i. Inr (set_usage i (change (r_delta r)) d))"

definition end_reservations ::
  "(int \<Rightarrow> usage \<Rightarrow> usage) \<Rightarrow> int \<Rightarrow> string list \<Rightarrow> string option \<Rightarrow> string option \<Rightarrow>
   quota_db \<Rightarrow> unit result \<times> quota_db" where
  "end_reservations change now uuids project user =
     writer (\<lambda>d.
       case fold_r (end_reservation change (snd (get_project_user_quota_usages project user d)))
              (quota_reservations_query uuids d) d of
         Inl e \<Rightarrow> (Inl e, d)
       | Inr d1 \<Rightarrow> (Inr (), flushed now d (soft_delete_reservations (\<lambda>r. r_uuid r \<in> set uuids) d1)))"

definition reservation_commit ::
  "int \<Rightarrow> string list \<Rightarrow> string option \<Rightarrow> string option \<Rightarrow> quota_db \<Rightarrow> unit result \<times> quota_db" where
  "reservation_commit = end_reservations commit_usage"

definition reservation_rollback ::
  "int \<Rightarrow> string list \<Rightarrow> string option \<Rightarrow> string option \<Rightarrow> quota_db \<Rightarrow> unit result \<times> quota_db" where
  "reservation_rollback = end_reservations release_usage"

text \<open>
  Expiry goes through the reservation's own usage row; the join leaves out a reservation
  without one, which is soft-deleted all the same.
\<close>

definition reservation_expire :: "int \<Rightarrow> quota_db \<Rightarrow> quota_db" where
  "reservation_expire now d =
     flushed now d (soft_delete_reservations (\<lambda>r. r_expire r < now)
       (fold (\<lambda>r. set_usage (r_usage r) (release_usage (r_delta r)))
          (filter (\<lambda>r. r_live r \<and> r_expire r < now \<and> (\<exists>u \<in> set (usages d). uid u = r_usage r))
             (reservations d)) d))"

definition quota_destroy_all_by_project_and_user :: "string \<Rightarrow> string \<Rightarrow> quota_db \<Rightarrow> quota_db" where
  "quota_destroy_all_by_project_and_user project user d =
     soft_delete_reservations (\<lambda>r. r_project r = project \<and> r_user r = user)
       (d\<lparr>user_limits := map (\<lambda>l. if l_live l \<and> l_project l = project \<and> l_user l = Some user
                                  then l\<lparr>l_live := False\<rparr> else l) (user_limits d),
          usages := map (\<lambda>u. if u_live u \<and> u_project u = project \<and> u_user u = Some user
                             then u\<lparr>u_live := False\<rparr> else u) (usages d)\<rparr>)"

definition quota_destroy_all_by_project :: "string \<Rightarrow> quota_db \<Rightarrow> quota_db" where
  "quota_destroy_all_by_project project d =
     soft_delete_reservations (\<lambda>r. r_project r = project)
       (d\<lparr>proj_limits := map (\<lambda>l. if l_live l \<and> l_project l = project then l\<lparr>l_live := False\<rparr> else l)
                           (proj_limits d),
          user_limits := map (\<lambda>l. if l_live l \<and> l_project l = project then l\<lparr>l_live := False\<rparr> else l)
                           (user_limits d),
          usages := map (\<lambda>u. if u_live u \<and> u_project u = project then u\<lparr>u_live := False\<rparr> else u)
                      (usages d)\<rparr>)"

section \<open>The reservation invariant\<close>

definition pending :: "quota_db \<Rightarrow> int \<Rightarrow> int" where
  "pending d i = sum_list (map r_delta
     (filter (\<lambda>r. r_live r \<and> r_usage r = i \<and> 0 \<le> r_delta r) (reservations d)))"

text \<open>
  \<open>usage_key\<close> is what identifies a usage row: its project, its user (none for the
  per-project resources) and its resource.
\<close>

definition usage_key :: "string \<Rightarrow> string \<Rightarrow> string \<Rightarrow> string \<times> string option \<times> string" where
  "usage_key project user resource =
     (project, if resource \<in> set per_project_quotas then None else Some user, resource)"

definition key_of :: "usage \<Rightarrow> string \<times> string option \<times> string" where
  "key_of u = (u_project u, u_user u, u_resource u)"

definition quota_ok :: "quota_db \<Rightarrow> bool" where
  "quota_ok d \<longleftrightarrow>
     distinct (map uid (usages d)) \<and> (\<forall>u \<in> set (usages d). uid u < next_usage d) \<and>
     distinct (map key_of (filter u_live (usages d))) \<and>
     (\<forall>u \<in> set (usages d). u_live u \<longrightarrow>
        (u_user u = None \<longleftrightarrow> u_resource u \<in> set per_project_quotas)) \<and>
     (\<forall>r \<in> set (reservations d). r_live r \<longrightarrow>
        (\<exists>u \<in> set (usages d). u_live u \<and> uid u = r_usage r \<and>
           key_of u = usage_key (r_project r) (r_user r) (r_resource r))) \<and>
     distinct (map r_uuid (reservations d)) \<and>
     (\<forall>u \<in> set (usages d). u_live u \<longrightarrow> reserved u = pending d (uid u))"

section \<open>Reading and writing usage rows\<close>

text \<open>A write that keeps what identifies a row and what is reserved on it.\<close>

definition keeps_key :: "(usage \<Rightarrow> usage) \<Rightarrow> bool" where
  "keeps_key f \<longleftrightarrow> (\<forall>u. uid (f u) = uid u \<and> key_of (f u) = key_of u \<and> u_live (f u) = u_live u)"

text \<open>What a table is when reservations are left aside.\<close>

definition usages_ok :: "quota_db \<Rightarrow> bool" where
  "usages_ok d \<longleftrightarrow>
     distinct (map uid (usages d)) \<and> (\<forall>u \<in> set (usages d). uid u < next_usage d) \<and>
     distinct (map key_of (filter u_live (usages d))) \<and>
     (\<forall>u \<in> set (usages d). u_live u \<longrightarrow>
        (u_user u = None \<longleftrightarrow> u_resource u \<in> set per_project_quotas))"

definition reservations_ok :: "quota_db \<Rightarrow> bool" where
  "reservations_ok d \<longleftrightarrow>
     (\<forall>r \<in> set (reservations d). r_live r \<longrightarrow>
        (\<exists>u \<in> set (usages d). u_live u \<and> uid u = r_usage r \<and>
           key_of u = usage_key (r_project r) (r_user r) (r_resource r))) \<and>
     distinct (map r_uuid (reservations d))"

definition held_ok :: "quota_db \<Rightarrow> bool" where
  "held_ok d \<longleftrightarrow> (\<forall>u \<in> set (usages d). u_live u \<longrightarrow> reserved u = pending d (uid u))"

lemma quota_ok_split: "quota_ok d \<longleftrightarrow> usages_ok d \<and> reservations_ok d \<and> held_ok d"
  unfolding quota_ok_def usages_ok_def reservations_ok_def held_ok_def by blast

lemma usages_set_usage:
  "usages (set_usage i f d) = map (\<lambda>u. if uid u = i then f u else u) (usages d)"
  by (simp add: set_usage_def)

lemma set_usage_frame [state_frame, simp]:
  "reservations (set_usage i f d) = reservations d" "next_usage (set_usage i f d) = next_usage d"
  by (simp_all add: set_usage_def)

lemma pending_cong [simp]:
  "pending (d\<lparr>usages := us\<rparr>) i = pending d i"
  "pending (d\<lparr>usages := us, next_usage := n\<rparr>) i = pending d i"
  "pending (set_usage j f d) i = pending d i"
  by (simp_all add: pending_def set_usage_def)

lemma keeps_key_map:
  assumes "\<And>u. u \<in> set us \<Longrightarrow> uid (f u) = uid u \<and> key_of (f u) = key_of u \<and> u_live (f u) = u_live u"
  shows "map uid (map f us) = map uid us"
    and "map key_of (filter u_live (map f us)) = map key_of (filter u_live us)"
  using assms by (induction us) auto

lemma key_of_simp: "key_of u = (p, w, r) \<longleftrightarrow> u_project u = p \<and> u_user u = w \<and> u_resource u = r"
  by (auto simp: key_of_def)

lemma usages_ok_map:
  assumes "usages_ok d"
    and f: "\<And>u. u \<in> set (usages d) \<Longrightarrow> uid (f u) = uid u \<and> key_of (f u) = key_of u \<and> u_live (f u) = u_live u"
  shows "usages_ok (d\<lparr>usages := map f (usages d)\<rparr>)"
proof -
  have "\<forall>u \<in> set (usages d). u_live (f u) \<longrightarrow>
      (u_user (f u) = None \<longleftrightarrow> u_resource (f u) \<in> set per_project_quotas)"
    using assms(1) f by (auto simp: usages_ok_def key_of_def)
  moreover have "\<forall>u \<in> set (usages d). uid (f u) < next_usage d"
    using assms(1) f by (auto simp: usages_ok_def)
  ultimately show ?thesis
    using assms(1) keeps_key_map [of "usages d" f, OF f]
    by (simp add: usages_ok_def del: map_map filter_map)
qed

lemma reservations_ok_map:
  assumes "reservations_ok d"
    and f: "\<And>u. u \<in> set (usages d) \<Longrightarrow> uid (f u) = uid u \<and> key_of (f u) = key_of u \<and> u_live (f u) = u_live u"
  shows "reservations_ok (d\<lparr>usages := map f (usages d)\<rparr>)"
  using assms by (fastforce simp: reservations_ok_def)

text \<open>A rewrite of the rows that keeps keys and reserved counts keeps the invariant.\<close>

lemma quota_ok_map:
  assumes "quota_ok d"
    and f: "\<And>u. u \<in> set (usages d) \<Longrightarrow> uid (f u) = uid u \<and> key_of (f u) = key_of u \<and>
      u_live (f u) = u_live u \<and> reserved (f u) = reserved u"
  shows "quota_ok (d\<lparr>usages := map f (usages d)\<rparr>)"
  using assms usages_ok_map [of d f] reservations_ok_map [of d f]
  by (auto simp: quota_ok_split held_ok_def)

lemma flush_map: "flush now old us = map (\<lambda>u. case find (\<lambda>o1. uid o1 = uid u) old of
    Some o1 \<Rightarrow> if o1 = u then u else u\<lparr>updated := now\<rparr> | None \<Rightarrow> u) us"
  by (simp add: flush_def)

lemma flushed_ok: "quota_ok d \<Longrightarrow> quota_ok (flushed now d0 d)"
  unfolding flushed_def flush_map
  by (rule quota_ok_map) (auto simp: key_of_def split: option.splits)

text \<open>A write to a row through its id, and the row it reads.\<close>

lemma set_usage_ok:
  assumes "quota_ok d"
    and "\<And>u. uid (f u) = uid u \<and> key_of (f u) = key_of u \<and> u_live (f u) = u_live u \<and> reserved (f u) = reserved u"
  shows "quota_ok (set_usage i f d)"
  unfolding set_usage_def by (rule quota_ok_map [OF assms(1)]) (use assms(2) in auto)

lemma get_usage_eq: "distinct (map uid us) \<Longrightarrow> u \<in> set us \<Longrightarrow> find (\<lambda>v. uid v = uid u) us = Some u"
  by (induction us) auto

lemma get_usage_in:
  "usages_ok d \<Longrightarrow> u \<in> set (usages d) \<Longrightarrow> get_usage (uid u) d = u"
  by (simp add: get_usage_def usages_ok_def get_usage_eq)

section \<open>The dictionary of a user's usages\<close>

text \<open>It names, for each resource, the one visible row with that key.\<close>

definition names_rows :: "string \<Rightarrow> string \<Rightarrow> user_usages \<Rightarrow> quota_db \<Rightarrow> bool" where
  "names_rows project user m d \<longleftrightarrow>
     (\<forall>res i. dget m res = Some i \<longleftrightarrow>
        (\<exists>u \<in> set (usages d). u_live u \<and> uid u = i \<and> key_of u = usage_key project user res))"

lemma fold_dset_get:
  assumes "distinct (map f (filter p xs))" "\<forall>x \<in> set xs. p x \<longrightarrow> \<not> dhas m (f x)"
  shows "dget (fold (\<lambda>x m. if p x then dset (f x) (g x) m else m) xs m) k = Some v \<longleftrightarrow>
    dget m k = Some v \<or> (\<exists>x \<in> set xs. p x \<and> f x = k \<and> g x = v)"
  using assms
proof (induction xs arbitrary: m)
  case (Cons x xs)
  show ?case
  proof (cases "p x")
    case True
    have "dget (fold (\<lambda>x m. if p x then dset (f x) (g x) m else m) xs (dset (f x) (g x) m)) k = Some v \<longleftrightarrow>
        dget (dset (f x) (g x) m) k = Some v \<or> (\<exists>y \<in> set xs. p y \<and> f y = k \<and> g y = v)"
      using Cons.prems True by (intro Cons.IH) (auto simp: image_iff)
    with True Cons.prems(2) show ?thesis by (auto simp: dhas_def)
  next
    case False
    with Cons show ?thesis by simp
  qed
qed simp

lemma names_rows_get:
  assumes "usages_ok d"
  shows "names_rows project user (snd (get_project_user_quota_usages (Some project) (Some user) d)) d"
proof -
  let ?rows = "project_rows (Some project) d" and ?p = "\<lambda>u. u_user u = None \<or> u_user u = Some user"
  have key: "key_of u = usage_key project user res \<longleftrightarrow> u_project u = project \<and> ?p u \<and> u_resource u = res"
    if "u \<in> set (usages d)" "u_live u" for u res
    using assms that by (auto simp: usages_ok_def key_of_def usage_key_def)
  have "filter ?p ?rows = filter (\<lambda>u. u_project u = project \<and> ?p u) (filter u_live (usages d))"
    by (auto simp: project_rows_def intro!: filter_cong)
  then have d: "distinct (map key_of (filter ?p ?rows))"
    using assms by (simp add: usages_ok_def distinct_map inj_on_def)
  have k: "key_of u = usage_key project user (u_resource u)" if "u \<in> set (filter ?p ?rows)" for u
    using that key by (auto simp: project_rows_def)
  have "inj_on u_resource (set (filter ?p ?rows))"
  proof (rule inj_onI)
    fix u v
    assume uv: "u \<in> set (filter ?p ?rows)" "v \<in> set (filter ?p ?rows)" "u_resource u = u_resource v"
    then have "key_of u = key_of v" by (simp only: k)
    with d uv(1,2) show "u = v" unfolding distinct_map by (blast dest: inj_onD)
  qed
  with d have "distinct (map u_resource (filter ?p ?rows))" by (simp only: distinct_map)
  then have "dget (snd (get_project_user_quota_usages (Some project) (Some user) d)) res = Some i \<longleftrightarrow>
      (\<exists>u \<in> set ?rows. ?p u \<and> u_resource u = res \<and> uid u = i)" for res i
    using fold_dset_get [of u_resource ?p ?rows "[]" uid res i]
    by (simp add: get_project_user_quota_usages_def dhas_def)
  with key show ?thesis by (auto simp: names_rows_def project_rows_def)
qed

lemma names_rows_cong:
  assumes "names_rows project user m d"
    and "\<And>i k. (\<exists>u \<in> set (usages d'). u_live u \<and> uid u = i \<and> key_of u = k) \<longleftrightarrow>
      (\<exists>u \<in> set (usages d). u_live u \<and> uid u = i \<and> key_of u = k)"
  shows "names_rows project user m d'"
  using assms by (simp add: names_rows_def)

lemma same_keys_image:
  assumes "\<And>u. uid (g u) = uid u \<and> key_of (g u) = key_of u \<and> u_live (g u) = u_live u"
  shows "(\<exists>u \<in> g ` S. u_live u \<and> uid u = j \<and> key_of u = k) \<longleftrightarrow>
    (\<exists>u \<in> S. u_live u \<and> uid u = j \<and> key_of u = k)"
  using assms by auto

lemma names_rows_set:
  assumes "names_rows project user m d"
    and f: "\<And>u. uid (f u) = uid u \<and> key_of (f u) = key_of u \<and> u_live (f u) = u_live u"
  shows "names_rows project user m (set_usage i f d)"
  by (rule names_rows_cong [OF assms(1)])
    (simp only: usages_set_usage set_map, rule same_keys_image, use f in simp)

section \<open>Refreshing keeps the invariant\<close>

text \<open>
  What holds while a request works on the usages: the tables are well formed, the
  dictionary names the user's rows, and the reservations are those of the start.
\<close>

definition working :: "string \<Rightarrow> string \<Rightarrow> reservation list \<Rightarrow> user_usages \<times> quota_db \<Rightarrow> bool" where
  "working project user rs st \<longleftrightarrow>
     quota_ok (snd st) \<and> names_rows project user (fst st) (snd st) \<and> reservations (snd st) = rs"

definition covers :: "user_usages \<times> quota_db \<Rightarrow> string set" where
  "covers st = {res. dhas (fst st) res}"

lemma pending_new: "usages_ok d \<Longrightarrow> reservations_ok d \<Longrightarrow> pending d (next_usage d) = 0"
proof -
  assume ok: "usages_ok d" "reservations_ok d"
  then have "\<forall>r \<in> set (reservations d). r_live r \<longrightarrow> r_usage r \<noteq> next_usage d"
    by (fastforce simp: usages_ok_def reservations_ok_def)
  then have "filter (\<lambda>r. r_live r \<and> r_usage r = next_usage d \<and> 0 \<le> r_delta r) (reservations d) = []"
    by (auto simp: filter_empty_conv)
  then show ?thesis by (simp add: pending_def)
qed

lemma quota_ok_new_usage:
  assumes ok: "quota_ok d" and new: "\<forall>u \<in> set (usages d). u_live u \<longrightarrow> key_of u \<noteq> key_of n"
    and n: "uid n = next_usage d" "u_live n" "reserved n = 0"
      "u_user n = None \<longleftrightarrow> u_resource n \<in> set per_project_quotas"
  shows "quota_ok (d\<lparr>usages := usages d @ [n], next_usage := next_usage d + 1\<rparr>)"
proof -
  have "usages_ok d" "reservations_ok d" "held_ok d" using ok by (simp_all add: quota_ok_split)
  then have p: "pending d (next_usage d) = 0" by (intro pending_new)
  have ids: "\<forall>u \<in> set (usages d). uid u < next_usage d" using \<open>usages_ok d\<close> by (simp add: usages_ok_def)
  then have "uid n \<notin> uid ` set (usages d)" using n(1) by auto
  moreover have "key_of n \<notin> key_of ` {u \<in> set (usages d). u_live u}" using new by auto
  ultimately have "usages_ok (d\<lparr>usages := usages d @ [n], next_usage := next_usage d + 1\<rparr>)"
    using \<open>usages_ok d\<close> ids n by (force simp: usages_ok_def)
  moreover have "reservations_ok (d\<lparr>usages := usages d @ [n], next_usage := next_usage d + 1\<rparr>)"
    using \<open>reservations_ok d\<close> by (auto simp: reservations_ok_def)
  moreover have "held_ok (d\<lparr>usages := usages d @ [n], next_usage := next_usage d + 1\<rparr>)"
    using \<open>held_ok d\<close> n p by (auto simp: held_ok_def)
  ultimately show ?thesis by (simp add: quota_ok_split)
qed

lemma create_if_missing_working:
  assumes "working project user rs st"
    and "create_quota_usage_if_missing now res until project user st = (created, st1)"
  shows "working project user rs st1 \<and> covers st1 = insert res (covers st)"
proof (cases "dhas (fst st) res")
  case True
  with assms show ?thesis
    by (cases st) (auto simp: create_quota_usage_if_missing_def covers_def)
next
  case False
  obtain m d where st: "st = (m, d)" by fastforce
  define n where "n = \<lparr>uid = next_usage d, u_project = project,
    u_user = (if res \<in> set per_project_quotas then None else Some user), u_resource = res,
    in_use = 0, reserved = 0, until_refresh = nonzero until, updated = now, u_live = True\<rparr>"
  have st1: "st1 = (dset res (uid n) m, d\<lparr>usages := usages d @ [n], next_usage := next_usage d + 1\<rparr>)"
    using assms(2) False
    by (auto simp: st create_quota_usage_if_missing_def quota_usage_create_def n_def)
  have k: "key_of n = usage_key project user res" by (simp add: n_def key_of_def usage_key_def)
  have nr: "names_rows project user m d" and ok: "quota_ok d" and rs: "reservations d = rs"
    using assms(1) by (simp_all add: working_def st)
  have new: "\<forall>u \<in> set (usages d). u_live u \<longrightarrow> key_of u \<noteq> key_of n"
  proof (intro ballI impI notI)
    fix u assume u: "u \<in> set (usages d)" "u_live u" "key_of u = key_of n"
    then have "\<exists>v \<in> set (usages d). u_live v \<and> uid v = uid u \<and> key_of v = usage_key project user res"
      using k by metis
    then have "dget m res = Some (uid u)" using nr by (simp add: names_rows_def)
    with False st show False by (simp add: dhas_def)
  qed
  have "quota_ok (snd st1)"
    unfolding st1 snd_conv by (rule quota_ok_new_usage [OF ok new]) (simp_all add: n_def)
  moreover have "names_rows project user (fst st1) (snd st1)"
  proof -
    have "key_of n = usage_key project user r \<longleftrightarrow> r = res" for r
      using k by (auto simp: usage_key_def)
    moreover have "\<not> (\<exists>u \<in> set (usages d). u_live u \<and> uid u = i \<and> key_of u = usage_key project user res)" for i
      using new k by auto
    ultimately show ?thesis
      using nr by (auto simp: st1 names_rows_def n_def)
  qed
  ultimately show ?thesis using rs by (auto simp: working_def st1 covers_def st)
qed

lemma set_usage_working:
  assumes "working project user rs (m, d)"
    and f: "\<And>u. uid (f u) = uid u \<and> key_of (f u) = key_of u \<and> u_live (f u) = u_live u \<and> reserved (f u) = reserved u"
  shows "working project user rs (m, set_usage i f d)"
  using assms set_usage_ok [of d f i] names_rows_set [of project user m d f i]
  by (simp add: working_def)

lemma refresh_synced_working:
  assumes "working project user rs st"
  shows "working project user rs (refresh_synced now until project user counts st) \<and>
    covers (refresh_synced now until project user counts st) = set (map fst counts) \<union> covers st"
  using assms
proof (induction counts arbitrary: st)
  case Nil
  then show ?case by (simp add: refresh_synced_def)
next
  case (Cons c counts)
  obtain res used where c: "c = (res, used)" by fastforce
  obtain b m d where s1: "create_quota_usage_if_missing now res until project user st = (b, (m, d))"
    by (metis prod.collapse)
  note w = create_if_missing_working [OF Cons.prems s1]
  let ?st2 = "(m, set_usage (the (dget m res)) (refresh_quota_usages until used) d)"
  have "working project user rs ?st2"
    by (rule set_usage_working) (use w in \<open>simp_all add: refresh_quota_usages_def key_of_def\<close>)
  from Cons.IH [OF this] w show ?case
    by (auto simp: refresh_synced_def c s1 covers_def)
qed

text \<open>The row a countdown is written to has the identity of the row it was read from.\<close>

lemma refresh_needed_same_row:
  "is_quota_refresh_needed now max_age u = (needed, v) \<Longrightarrow>
   uid v = uid u \<and> key_of v = key_of u \<and> u_live v = u_live u \<and> reserved v = reserved u"
  by (auto simp: is_quota_refresh_needed_def key_of_def split: if_splits option.splits)

lemma set_usage_row:
  assumes "usages_ok d" "u \<in> set (usages d)"
  shows "set_usage (uid u) (\<lambda>_. v) d = set_usage (uid u) (\<lambda>w. if w = u then v else w) d"
proof -
  have "w = u" if "w \<in> set (usages d)" "uid w = uid u" for w
    using assms that by (auto simp: usages_ok_def distinct_map inj_on_def)
  then show ?thesis by (auto simp: set_usage_def)
qed

lemma working_row:
  assumes "working project user rs (m, d)" "dget m res = Some i"
  obtains u where "u \<in> set (usages d)" "u_live u" "uid u = i" "get_usage i d = u"
    "key_of u = usage_key project user res"
proof -
  have ok: "usages_ok d" and n: "names_rows project user m d"
    using assms(1) by (simp_all add: working_def quota_ok_split)
  obtain u where u: "u \<in> set (usages d)" "u_live u" "uid u = i" "key_of u = usage_key project user res"
    using n assms(2) by (auto simp: names_rows_def)
  with get_usage_in [OF ok u(1)] show thesis by (intro that) simp_all
qed

lemma check_refresh_working:
  assumes "working project user rs st"
    and "check_refresh now max_age force res until project user st = (refresh, st1)"
  shows "working project user rs st1 \<and> covers st1 = insert res (covers st)"
proof -
  obtain created m d where s1: "create_quota_usage_if_missing now res until project user st = (created, (m, d))"
    by (metis prod.collapse)
  note w = create_if_missing_working [OF assms(1) s1]
  show ?thesis
  proof (cases "force \<or> created")
    case True
    with assms(2) w show ?thesis by (auto simp: check_refresh_def s1)
  next
    case False
    from w have "dhas m res" by (auto simp: covers_def)
    then obtain i where i: "dget m res = Some i" by (auto simp: dhas_def)
    obtain u where u: "u \<in> set (usages d)" "uid u = i" "get_usage i d = u"
      using working_row [OF conjunct1 [OF w] i] by blast
    obtain needed v where v: "is_quota_refresh_needed now max_age u = (needed, v)" by fastforce
    note same = refresh_needed_same_row [OF v]
    have "usages_ok d" using w by (simp add: working_def quota_ok_split)
    have st1: "st1 = (m, set_usage i (\<lambda>w. if w = u then v else w) d)"
      using assms(2) False set_usage_row [OF \<open>usages_ok d\<close> u(1), of v]
      by (auto simp: check_refresh_def s1 i u v)
    have "working project user rs st1"
      unfolding st1 by (rule set_usage_working) (use w same in auto)
    with w show ?thesis by (simp add: st1 covers_def)
  qed
qed

lemma refresh_loop_working:
  assumes "refresh_loop now max_age force sync until project user work st = Inr st1"
    and "working project user rs st"
  shows "working project user rs st1 \<and> set work \<union> covers st \<subseteq> covers st1"
  using assms
proof (induction now max_age force sync until project user work st rule: refresh_loop.induct)
  case (2 now max_age force sync until project user res work st)
  obtain refresh s2 where s2: "check_refresh now max_age force res until project user st = (refresh, s2)"
    by (metis prod.collapse)
  note w = check_refresh_working [OF 2(4) s2]
  show ?case
  proof (cases refresh)
    case False
    with 2(1) [OF s2 [symmetric]] 2(3) w show ?thesis by (auto simp: s2)
  next
    case True
    with 2(3) obtain counts where c: "sync res = Inr counts"
      by (auto simp: s2 split: sum.splits)
    note v = refresh_synced_working [OF conjunct1 [OF w], of now until counts]
    from 2(2) [OF s2 [symmetric] _ c] True 2(3) v
    have "working project user rs st1 \<and>
        set (filter (\<lambda>w. w \<notin> set (map fst counts)) work) \<union>
          covers (refresh_synced now until project user counts s2) \<subseteq> covers st1"
      by (simp add: s2 c)
    then have "working project user rs st1" "\<forall>x \<in> set work. x \<notin> set (map fst counts) \<longrightarrow> x \<in> covers st1"
        "covers (refresh_synced now until project user counts s2) \<subseteq> covers st1"
      by auto
    note fin = this
    have "x \<in> covers st1" if "x \<in> set work" for x
      using fin(2,3) conjunct2 [OF v] that by (cases "x \<in> set (map fst counts)") auto
    moreover have "covers st \<subseteq> covers st1" "res \<in> covers st1"
      using fin(3) conjunct2 [OF v] conjunct2 [OF w] by auto
    ultimately show ?thesis using fin(1) by auto
  qed
qed simp

text \<open>After the refresh every requested resource has a row.\<close>

lemma refresh_working:
  assumes "refresh_quota_usages_if_needed now sync keys project user until max_age force
      (snd (get_project_user_quota_usages (Some project) (Some user) d), d) = Inr (m, d1)"
    and "quota_ok d"
  shows "working project user (reservations d) (m, d1) \<and> (\<forall>res \<in> set keys. dhas m res)"
proof -
  have "working project user (reservations d)
      (snd (get_project_user_quota_usages (Some project) (Some user) d), d)"
    using assms(2) names_rows_get [of d project user] by (simp add: working_def quota_ok_split)
  from refresh_loop_working [OF assms(1) [unfolded refresh_quota_usages_if_needed_def] this]
  show ?thesis by (auto simp: covers_def)
qed

section \<open>What a reservation writes\<close>

definition reservation_of ::
  "string \<Rightarrow> string \<Rightarrow> int \<Rightarrow> user_usages \<Rightarrow> string \<times> (string \<times> int) \<Rightarrow> reservation" where
  "reservation_of project user expire m e =
     (case e of (uuid, res, delta) \<Rightarrow>
        \<lparr>r_uuid = uuid, r_usage = the (dget m res), r_project = project, r_user = user,
         r_resource = res, r_delta = delta, r_expire = expire, r_live = True\<rparr>)"

text \<open>The positive deltas that go to the row of a given id.\<close>

definition contribution :: "user_usages \<Rightarrow> (string \<times> (string \<times> int)) list \<Rightarrow> int \<Rightarrow> int" where
  "contribution m es i =
     sum_list (map (\<lambda>(_, res, delta). if the (dget m res) = i then max 0 delta else 0) es)"

lemma reserve_one_eq:
  "reserve_one project user expire m e d =
     d\<lparr>usages := map (\<lambda>u. u\<lparr>reserved := reserved u + contribution m [e] (uid u)\<rparr>) (usages d),
       reservations := reservations d @ [reservation_of project user expire m e]\<rparr>"
proof -
  obtain uuid res delta where e: "e = (uuid, res, delta)" by (metis prod.collapse)
  show ?thesis
  proof (cases "0 < delta")
    case True
    then have eq: "map (\<lambda>u. if uid u = the (dget m res) then u\<lparr>reserved := reserved u + delta\<rparr> else u) us =
        map (\<lambda>u. u\<lparr>reserved := reserved u + contribution m [(uuid, res, delta)] (uid u)\<rparr>) us" for us
      by (simp add: contribution_def)
    show ?thesis using True
      by (simp add: reserve_one_def reservation_create_def reservation_of_def set_usage_def e Let_def eq)
  next
    case False
    then have "map (\<lambda>u. u\<lparr>reserved := reserved u + contribution m [e] (uid u)\<rparr>) (usages d) = usages d"
      by (intro map_idI) (simp add: contribution_def e)
    with False show ?thesis
      by (simp add: reserve_one_def reservation_create_def reservation_of_def e Let_def)
  qed
qed

lemma fold_reserve_eq:
  "fold (reserve_one project user expire m) es d =
     d\<lparr>usages := map (\<lambda>u. u\<lparr>reserved := reserved u + contribution m es (uid u)\<rparr>) (usages d),
       reservations := reservations d @ map (reservation_of project user expire m) es\<rparr>"
proof (induction es arbitrary: d)
  case (Cons e es)
  have "contribution m (e # es) i = contribution m [e] i + contribution m es i" for i
    by (simp add: contribution_def)
  with Cons show ?case by (simp add: reserve_one_eq add.assoc)
qed (simp add: contribution_def)

lemma pending_append:
  "pending (d\<lparr>usages := us, reservations := reservations d @ map (reservation_of project user expire m) es\<rparr>) i =
   pending d i + contribution m es i"
proof -
  have "sum_list (map r_delta (filter (\<lambda>r. r_live r \<and> r_usage r = i \<and> 0 \<le> r_delta r)
      (map (reservation_of project user expire m) es))) = contribution m es i"
    by (induction es) (auto simp: contribution_def reservation_of_def)
  then show ?thesis by (simp add: pending_def)
qed

lemma fold_reserve_ok:
  assumes ok: "quota_ok d" and nr: "names_rows project user m d"
    and cov: "\<And>e. e \<in> set es \<Longrightarrow> dhas m (fst (snd e))"
    and uu: "distinct (map fst es)" "set (map fst es) \<inter> r_uuid ` set (reservations d) = {}"
  shows "quota_ok (fold (reserve_one project user expire m) es d)"
proof -
  let ?f = "\<lambda>u. u\<lparr>reserved := reserved u + contribution m es (uid u)\<rparr>"
  have o: "usages_ok d" "reservations_ok d" "held_ok d" using ok by (simp_all add: quota_ok_split)
  have f: "uid (?f u) = uid u \<and> key_of (?f u) = key_of u \<and> u_live (?f u) = u_live u" for u
    by (simp add: key_of_def)
  have point: "\<exists>u \<in> set (usages d). u_live u \<and> uid u = the (dget m (fst (snd e))) \<and>
      key_of u = usage_key project user (fst (snd e))" if "e \<in> set es" for e
  proof -
    from cov [OF that] obtain i where i: "dget m (fst (snd e)) = Some i" by (auto simp: dhas_def)
    with nr have "\<exists>u \<in> set (usages d). u_live u \<and> uid u = i \<and>
        key_of u = usage_key project user (fst (snd e))"
      unfolding names_rows_def by blast
    then show ?thesis unfolding i option.sel .
  qed
  have new: "\<exists>u \<in> set (usages d). u_live u \<and> uid u = r_usage r \<and>
      key_of u = usage_key (r_project r) (r_user r) (r_resource r)"
    if "r \<in> set (map (reservation_of project user expire m) es)" for r
    using that point by (auto simp: reservation_of_def)
  let ?d = "d\<lparr>usages := map ?f (usages d), reservations := reservations d @ map (reservation_of project user expire m) es\<rparr>"
  have uuids: "map r_uuid (map (reservation_of project user expire m) es) = map fst es"
    by (auto simp: reservation_of_def split: prod.splits)
  have "usages_ok ?d" using usages_ok_map [OF o(1), of ?f] f by (simp add: usages_ok_def)
  moreover have "reservations_ok ?d"
  proof -
    have "distinct (map r_uuid (reservations d @ map (reservation_of project user expire m) es))"
      using o(2) uu unfolding map_append uuids distinct_append
      by (simp add: reservations_ok_def Int_commute)
    moreover have "\<exists>u \<in> ?f ` set (usages d). u_live u \<and> uid u = r_usage r \<and>
        key_of u = usage_key (r_project r) (r_user r) (r_resource r)"
      if "r \<in> set (reservations d @ map (reservation_of project user expire m) es)" "r_live r" for r
      unfolding same_keys_image [of ?f, OF f] using that o(2) new by (auto simp: reservations_ok_def)
    ultimately show ?thesis by (simp add: reservations_ok_def)
  qed
  moreover have "held_ok ?d" using o(3) by (auto simp: held_ok_def pending_append)
  ultimately show ?thesis unfolding fold_reserve_eq by (simp add: quota_ok_split)
qed

lemma with_uuids_props:
  "map snd (with_uuids fresh xs) = xs" "map fst (with_uuids fresh xs) = map fresh [0..<length xs]"
  by (simp_all add: with_uuids_def)

text \<open>A successful reserve: the refreshed tables, and what was reserved on top.\<close>

lemma reserve_success:
  assumes "quota_reserve_body now fresh usage_total sync pq uq deltas expire until max_age project user d = (Inr uuids, d2)"
    and "quota_ok d"
  obtains m d1 where "working project user (reservations d) (m, d1)"
    "\<forall>res \<in> set (map fst deltas). dhas m res"
    "calculate_overquota pq uq deltas
       (project_total usage_total (fst (get_project_user_quota_usages (Some project) (Some user) d)) (m, d1))
       (user_total usage_total (m, d1)) = Inr []"
    "uuids = map fresh [0..<length deltas]"
    "d2 = flushed now d (fold (reserve_one project user expire m) (with_uuids fresh deltas) d1)"
proof -
  obtain pu m0 where g: "get_project_user_quota_usages (Some project) (Some user) d = (pu, m0)" by fastforce
  from assms(1) obtain m d1 where r: "refresh_quota_usages_if_needed now sync (map fst deltas) project user until
      max_age False (m0, d) = Inr (m, d1)"
    "calculate_overquota pq uq deltas (project_total usage_total pu (m, d1)) (user_total usage_total (m, d1)) = Inr []"
    "uuids = map fst (with_uuids fresh deltas)"
    "d2 = flushed now d (fold (reserve_one project user expire m) (with_uuids fresh deltas) d1)"
    by (auto simp: quota_reserve_body_def g split: sum.splits if_splits)
  have "refresh_quota_usages_if_needed now sync (map fst deltas) project user until max_age False
      (snd (get_project_user_quota_usages (Some project) (Some user) d), d) = Inr (m, d1)"
    using r(1) by (simp add: g)
  note w = refresh_working [OF this assms(2)]
  show thesis
    by (rule that [of m d1]) (use w r(2-) in \<open>simp_all add: g with_uuids_props\<close>)
qed

lemma reserve_body_ok:
  assumes "quota_reserve_body now fresh usage_total sync pq uq deltas expire until max_age project user d = (Inr uuids, d2)"
    and "quota_ok d" "distinct uuids" "set uuids \<inter> r_uuid ` set (reservations d) = {}"
  shows "quota_ok d2"
  using assms(1,2)
proof (rule reserve_success)
  fix m d1
  assume m: "working project user (reservations d) (m, d1)" "\<forall>res \<in> set (map fst deltas). dhas m res"
    and u: "uuids = map fresh [0..<length deltas]"
    and d2: "d2 = flushed now d (fold (reserve_one project user expire m) (with_uuids fresh deltas) d1)"
  have "map fst (with_uuids fresh deltas) = uuids" by (simp add: u with_uuids_props)
  moreover have "dhas m (fst (snd e))" if "e \<in> set (with_uuids fresh deltas)" for e
  proof -
    from that have "snd e \<in> set (map snd (with_uuids fresh deltas))" by simp
    then have "fst (snd e) \<in> set (map fst deltas)" by (simp only: with_uuids_props) simp
    with m(2) show ?thesis by blast
  qed
  ultimately have "quota_ok (fold (reserve_one project user expire m) (with_uuids fresh deltas) d1)"
    using m assms(3,4) by (intro fold_reserve_ok) (simp_all add: working_def)
  then show ?thesis unfolding d2 by (rule flushed_ok)
qed

section \<open>What ending a reservation writes\<close>

definition released :: "reservation list \<Rightarrow> int \<Rightarrow> int" where
  "released rs i = sum_list (map (\<lambda>r. if r_usage r = i then max 0 (r_delta r) else 0) rs)"

definition committed :: "reservation list \<Rightarrow> int \<Rightarrow> int" where
  "committed rs i = sum_list (map (\<lambda>r. if r_usage r = i then r_delta r else 0) rs)"

text \<open>The rows after the reservations \<open>rs\<close> end, with (commit) or without (rollback) use.\<close>

definition settled :: "bool \<Rightarrow> reservation list \<Rightarrow> usage \<Rightarrow> usage" where
  "settled commit rs u =
     u\<lparr>reserved := reserved u - released rs (uid u),
       in_use := in_use u + (if commit then committed rs (uid u) else 0)\<rparr>"

definition change_of :: "bool \<Rightarrow> int \<Rightarrow> usage \<Rightarrow> usage" where
  "change_of commit = (if commit then commit_usage else release_usage)"

lemma settled_Nil: "map (settled commit []) us = us"
  by (rule map_idI) (simp add: settled_def released_def committed_def)

lemma settled_Cons:
  "settled commit rs (if uid u = r_usage r then change_of commit (r_delta r) u else u) = settled commit (r # rs) u"
  by (auto simp: settled_def change_of_def commit_usage_def release_usage_def released_def committed_def)

lemma fold_settle:
  "fold (\<lambda>r. set_usage (r_usage r) (change_of commit (r_delta r))) rs d =
     d\<lparr>usages := map (settled commit rs) (usages d)\<rparr>"
proof (induction rs arbitrary: d)
  case (Cons r rs)
  have "map (settled commit rs) (map (\<lambda>u. if uid u = r_usage r then change_of commit (r_delta r) u else u) us) =
      map (settled commit (r # rs)) us" for us
    unfolding map_map comp_def settled_Cons ..
  with Cons show ?case by (simp add: set_usage_def del: map_map)
qed (simp add: settled_Nil)

lemma pending_soft_delete:
  "pending (soft_delete_reservations p (d\<lparr>usages := us\<rparr>)) i =
   pending d i - released (filter (\<lambda>r. r_live r \<and> p r) (reservations d)) i"
proof -
  have "sum_list (map r_delta (filter (\<lambda>r. r_live r \<and> r_usage r = i \<and> 0 \<le> r_delta r)
          (map (\<lambda>r. if r_live r \<and> p r then r\<lparr>r_live := False\<rparr> else r) rs))) =
        sum_list (map r_delta (filter (\<lambda>r. r_live r \<and> r_usage r = i \<and> 0 \<le> r_delta r) rs)) -
        released (filter (\<lambda>r. r_live r \<and> p r) rs) i" for rs
    by (induction rs) (auto simp: released_def)
  then show ?thesis by (simp add: pending_def soft_delete_reservations_def)
qed

lemma settle_ok:
  assumes "quota_ok d"
  shows "quota_ok (soft_delete_reservations p
    (d\<lparr>usages := map (settled commit (filter (\<lambda>r. r_live r \<and> p r) (reservations d))) (usages d)\<rparr>))"
    (is "quota_ok (soft_delete_reservations p (d\<lparr>usages := map ?f (usages d)\<rparr>))")
proof -
  have o: "usages_ok d" "reservations_ok d" "held_ok d" using assms by (simp_all add: quota_ok_split)
  have f: "uid (?f u) = uid u \<and> key_of (?f u) = key_of u \<and> u_live (?f u) = u_live u" for u
    by (simp add: settled_def key_of_def)
  let ?d = "d\<lparr>usages := map ?f (usages d)\<rparr>"
  have u: "usages_ok (soft_delete_reservations p ?d)"
    using usages_ok_map [OF o(1), of ?f] f by (simp add: usages_ok_def soft_delete_reservations_def)
  have r: "reservations_ok (soft_delete_reservations p ?d)"
  proof -
    have "reservations_ok ?d" using reservations_ok_map [OF o(2), of ?f] f by simp
    moreover have "map r_uuid (map (\<lambda>r. if r_live r \<and> p r then r\<lparr>r_live := False\<rparr> else r) rs) = map r_uuid rs" for rs
      by (induction rs) auto
    ultimately show ?thesis
      unfolding reservations_ok_def soft_delete_reservations_def
      by (simp del: map_map) (auto split: if_splits)
  qed
  have "held_ok (soft_delete_reservations p ?d)"
    unfolding held_ok_def pending_soft_delete
    using o(3) by (auto simp: soft_delete_reservations_def held_ok_def settled_def)
  with u r show ?thesis by (simp add: quota_ok_split)
qed

lemma names_rows_reservation:
  assumes "quota_ok d" "names_rows project user m d" "r \<in> set (reservations d)" "r_live r"
    "r_project r = project" "r_user r = user"
  shows "dget m (r_resource r) = Some (r_usage r)"
  using assms by (auto simp: quota_ok_split reservations_ok_def names_rows_def)

lemma end_reservations_eq:
  assumes ok: "quota_ok d" and nr: "names_rows project user m d"
    and mine: "\<And>r. r \<in> set rs \<Longrightarrow> r \<in> set (reservations d) \<and> r_live r \<and> r_project r = project \<and> r_user r = user"
  shows "fold_r (end_reservation change m) rs e = Inr (fold (\<lambda>r. set_usage (r_usage r) (change (r_delta r))) rs e)"
  using mine
proof (induction rs arbitrary: e)
  case (Cons r rs)
  have "dget m (r_resource r) = Some (r_usage r)"
    using Cons.prems [of r] by (intro names_rows_reservation [OF ok nr]) simp_all
  with Cons show ?case by (simp add: end_reservation_def ditem_def)
qed simp

text \<open>Ending one's own reservations succeeds, and what it does to every row.\<close>

lemma end_reservations_result:
  assumes ok: "quota_ok d"
    and mine: "\<forall>r \<in> set (quota_reservations_query uuids d). r_project r = project \<and> r_user r = user"
  shows "end_reservations (change_of commit) now uuids (Some project) (Some user) d =
    (Inr (), flushed now d (soft_delete_reservations (\<lambda>r. r_uuid r \<in> set uuids)
       (d\<lparr>usages := map (settled commit (quota_reservations_query uuids d)) (usages d)\<rparr>)))"
proof -
  have "usages_ok d" using ok by (simp add: quota_ok_split)
  note nr = names_rows_get [OF this, of project user]
  have "fold_r (end_reservation (change_of commit)
        (snd (get_project_user_quota_usages (Some project) (Some user) d)))
      (quota_reservations_query uuids d) d =
    Inr (fold (\<lambda>r. set_usage (r_usage r) (change_of commit (r_delta r))) (quota_reservations_query uuids d) d)"
    using mine by (intro end_reservations_eq [OF ok nr]) (auto simp: quota_reservations_query_def)
  then show ?thesis
    by (simp add: end_reservations_def writer_def fold_settle)
qed

lemma commit_rollback_change:
  "reservation_commit = end_reservations (change_of True)"
  "reservation_rollback = end_reservations (change_of False)"
  by (simp_all add: reservation_commit_def reservation_rollback_def change_of_def)

lemma expired_joined:
  "quota_ok d \<Longrightarrow> filter (\<lambda>r. r_live r \<and> r_expire r < now \<and> (\<exists>u \<in> set (usages d). uid u = r_usage r)) (reservations d)
    = filter (\<lambda>r. r_live r \<and> r_expire r < now) (reservations d)"
  by (rule filter_cong) (auto simp: quota_ok_split reservations_ok_def)

text \<open>The rows of a flushed table, field by field.\<close>

lemma flushed_rows:
  "u \<in> set (usages (flushed now d0 d)) \<Longrightarrow>
   \<exists>v \<in> set (usages d). uid v = uid u \<and> key_of v = key_of u \<and> u_live v = u_live u \<and>
     in_use v = in_use u \<and> reserved v = reserved u \<and> until_refresh v = until_refresh u"
  by (auto simp: flushed_def flush_def key_of_def split: option.splits)

lemma rows_flushed:
  "v \<in> set (usages d) \<Longrightarrow>
   \<exists>u \<in> set (usages (flushed now d0 d)). uid v = uid u \<and> key_of v = key_of u \<and> u_live v = u_live u \<and>
     in_use v = in_use u \<and> reserved v = reserved u \<and> until_refresh v = until_refresh u"
  by (force simp: flushed_def flush_def key_of_def split: option.splits)

section \<open>Within the limits\<close>

lemma check_delta_grows: "check_delta pq uq pt ut rd overs = Inr overs' \<Longrightarrow> overs' = [] \<Longrightarrow> overs = []"
  by (cases rd) (auto simp: check_delta_def result_simps split: if_splits)

lemma no_overs:
  assumes "fold_r (check_delta pq uq pt ut) deltas overs = Inr []"
  shows "overs = [] \<and> (\<forall>(res, delta) \<in> set deltas. 0 \<le> delta \<longrightarrow>
    (\<exists>pl ul. dget pq res = Some pl \<and> dget uq res = Some ul \<and>
       \<not> over_limit pl (delta + pt res) \<and> \<not> over_limit ul (delta + ut res)))"
  using assms
proof (induction deltas arbitrary: overs)
  case (Cons rd deltas)
  from Cons.prems obtain o1 where o: "check_delta pq uq pt ut rd overs = Inr o1"
      "fold_r (check_delta pq uq pt ut) deltas o1 = Inr []"
    by (auto simp: result_simps)
  note ih = Cons.IH [OF o(2)]
  with check_delta_grows [OF o(1)] have "overs = []" by simp
  moreover have "case rd of (res, delta) \<Rightarrow> 0 \<le> delta \<longrightarrow>
      (\<exists>pl ul. dget pq res = Some pl \<and> dget uq res = Some ul \<and>
         \<not> over_limit pl (delta + pt res) \<and> \<not> over_limit ul (delta + ut res))"
    using o(1) ih by (cases rd) (auto simp: check_delta_def result_simps split: if_splits)
  ultimately show ?case using ih by auto
qed simp

lemma usage_key_inj: "usage_key p w r = usage_key p w r' \<Longrightarrow> r = r'"
  by (simp add: usage_key_def)

text \<open>Each requested resource is reserved on its own row.\<close>

lemma contribution_single:
  assumes nr: "names_rows project user m d" and ids: "usages_ok d"
    and dm: "\<And>e. e \<in> set es \<Longrightarrow> dhas m (fst (snd e))"
    and dist: "distinct (map (\<lambda>e. fst (snd e)) es)" and e: "(uuid, res, delta) \<in> set es"
  shows "contribution m es (the (dget m res)) = max 0 delta"
proof -
  have inj: "r = r'" if r: "dhas m r" "dhas m r'" "the (dget m r) = the (dget m r')" for r r'
  proof -
    obtain i where i: "dget m r = Some i" "dget m r' = Some i" using r by (auto simp: dhas_def)
    obtain u v where uv: "u \<in> set (usages d)" "uid u = i" "key_of u = usage_key project user r"
      "v \<in> set (usages d)" "uid v = i" "key_of v = usage_key project user r'"
      using i nr by (auto simp: names_rows_def)
    then have "u = v" using ids by (auto simp: usages_ok_def distinct_map inj_on_def)
    with uv show "r = r'" by (auto dest: usage_key_inj)
  qed
  have dmr: "dhas m res" using dm [OF e] by simp
  have other: "contribution m fs (the (dget m res)) = 0"
    if fs: "set fs \<subseteq> set es" "res \<notin> (\<lambda>e. fst (snd e)) ` set fs" for fs
    using fs
  proof (induction fs)
    case (Cons f fs)
    obtain a b c where f: "f = (a, b, c)" by (metis prod.collapse)
    have "the (dget m b) \<noteq> the (dget m res)"
      using inj [OF _ dmr, of b] dm [of f] Cons.prems by (auto simp: f)
    with Cons show ?case by (simp add: contribution_def f)
  qed (simp add: contribution_def)
  from e obtain xs ys where es: "es = xs @ (uuid, res, delta) # ys" by (meson split_list)
  have "contribution m es i = contribution m xs i + contribution m [(uuid, res, delta)] i + contribution m ys i" for i
    by (simp add: contribution_def es)
  moreover have "contribution m xs (the (dget m res)) = 0" "contribution m ys (the (dget m res)) = 0"
    using dist by (auto simp: es intro!: other)
  ultimately show ?thesis by (simp add: contribution_def)
qed

lemma reserve_within:
  assumes "quota_reserve_body now fresh (\<lambda>u. in_use u + reserved u) sync pq uq deltas expire until max_age project user d = (Inr uuids, d2)"
    and ok: "quota_ok d" and deltas: "dict_ok deltas" "(res, delta) \<in> set deltas" "0 < delta"
  shows "\<exists>u \<in> set (usages d2). u_live u \<and> key_of u = usage_key project user res \<and>
    (\<exists>limit. dget uq res = Some limit \<and> (0 \<le> limit \<longrightarrow> in_use u + reserved u \<le> limit))"
  using assms(1,2)
proof (rule reserve_success)
  fix m d1
  assume m: "working project user (reservations d) (m, d1)" "\<forall>res \<in> set (map fst deltas). dhas m res"
    and calc: "calculate_overquota pq uq deltas
      (project_total (\<lambda>u. in_use u + reserved u) (fst (get_project_user_quota_usages (Some project) (Some user) d)) (m, d1))
      (user_total (\<lambda>u. in_use u + reserved u) (m, d1)) = Inr []"
    and d2: "d2 = flushed now d (fold (reserve_one project user expire m) (with_uuids fresh deltas) d1)"
  have "dhas m res" using m(2) deltas(2) by force
  then obtain i where i: "dget m res = Some i" by (auto simp: dhas_def)
  obtain u where u: "u \<in> set (usages d1)" "u_live u" "uid u = i" "get_usage i d1 = u"
      "key_of u = usage_key project user res"
    by (rule working_row [OF m(1) i])
  obtain limit where l: "dget uq res = Some limit" "\<not> over_limit limit (delta + (in_use u + reserved u))"
    using no_overs [OF calc [unfolded calculate_overquota_def]] deltas(2,3)
    by (fastforce simp: user_total_def i u(4))
  have snd_es: "map snd (with_uuids fresh deltas) = deltas" by (rule with_uuids_props)
  have "(res, delta) \<in> snd ` set (with_uuids fresh deltas)"
    using deltas(2) snd_es by (metis list.set_map)
  then obtain uuid where e: "(uuid, res, delta) \<in> set (with_uuids fresh deltas)" by auto
  have dist: "distinct (map (\<lambda>e. fst (snd e)) (with_uuids fresh deltas))"
    using deltas(1) snd_es by (metis (no_types, lifting) list.map_comp comp_def map_cong)
  have dm: "dhas m (fst (snd f))" if "f \<in> set (with_uuids fresh deltas)" for f
  proof -
    have "snd f \<in> set deltas" using that snd_es by (metis imageI list.set_map)
    then show ?thesis using m(2) by simp
  qed
  have w: "names_rows project user m d1" "usages_ok d1" using m(1) by (simp_all add: working_def quota_ok_split)
  have c: "contribution m (with_uuids fresh deltas) i = delta"
    using contribution_single [OF w dm dist e] deltas(3) i by simp
  let ?v = "u\<lparr>reserved := reserved u + contribution m (with_uuids fresh deltas) (uid u)\<rparr>"
  have "?v \<in> set (usages (fold (reserve_one project user expire m) (with_uuids fresh deltas) d1))"
    using u(1) by (simp add: fold_reserve_eq)
  from rows_flushed [OF this, of now d]
  obtain v where v: "v \<in> set (usages d2)" "key_of v = key_of u" "u_live v" "in_use v = in_use u"
      "reserved v = reserved u + delta"
    using u(2,3) c by (auto simp: d2 key_of_def)
  have "0 \<le> limit \<longrightarrow> in_use v + reserved v \<le> limit" using l(2) v(4,5) by (auto simp: over_limit_def)
  with v u(5) l(1) show ?thesis by auto
qed

text \<open>A reserve followed by the rollback of what it returned.\<close>

lemma reserved_query:
  assumes "reservations d1 = reservations d @ map (reservation_of project user expire m) es"
    and "uuids = map fst es" "set uuids \<inter> r_uuid ` set (reservations d) = {}"
  shows "quota_reservations_query uuids d1 = map (reservation_of project user expire m) es"
proof -
  have "filter (\<lambda>r. r_live r \<and> r_uuid r \<in> set uuids) (reservations d) = []"
    using assms(3) by (auto simp: filter_empty_conv)
  moreover have "filter (\<lambda>r. r_live r \<and> r_uuid r \<in> set uuids) (map (reservation_of project user expire m) es)
      = map (reservation_of project user expire m) es"
    by (auto simp: filter_id_conv assms(2) reservation_of_def split: prod.splits intro: rev_image_eqI)
  ultimately show ?thesis by (simp add: quota_reservations_query_def assms(1))
qed

lemma released_reservations: "released (map (reservation_of project user expire m) es) i = contribution m es i"
  by (induction es) (auto simp: released_def contribution_def reservation_of_def)

lemma flushed_frame [state_frame, simp]:
  "reservations (flushed now d0 d) = reservations d" "pending (flushed now d0 d) i = pending d i"
  by (simp_all add: flushed_def)

lemma reserve_then_rollback:
  assumes "quota_reserve_body now fresh usage_total sync pq uq deltas expire until max_age project user d = (Inr uuids, d1)"
    and ok: "quota_ok d" "distinct uuids" "set uuids \<inter> r_uuid ` set (reservations d) = {}"
  shows "\<exists>d2. reservation_rollback now2 uuids (Some project) (Some user) d1 = (Inr (), d2) \<and> quota_ok d2 \<and>
    (\<forall>i. pending d2 i = pending d i)"
  using assms(1,2)
proof (rule reserve_success)
  fix m e1
  assume m: "working project user (reservations d) (m, e1)"
    and u: "uuids = map fresh [0..<length deltas]"
    and d1: "d1 = flushed now d (fold (reserve_one project user expire m) (with_uuids fresh deltas) e1)"
  let ?es = "with_uuids fresh deltas"
  have r1: "reservations d1 = reservations d @ map (reservation_of project user expire m) ?es"
    using m by (simp add: d1 fold_reserve_eq working_def)
  have uu: "uuids = map fst ?es" by (simp add: u with_uuids_props)
  note q = reserved_query [OF r1 uu ok(3)]
  have ok1: "quota_ok d1" by (rule reserve_body_ok [OF assms(1) ok])
  have mine: "\<forall>r \<in> set (quota_reservations_query uuids d1). r_project r = project \<and> r_user r = user"
    unfolding q by (auto simp: reservation_of_def)
  let ?d2 = "soft_delete_reservations (\<lambda>r. r_uuid r \<in> set uuids)
     (d1\<lparr>usages := map (settled False (quota_reservations_query uuids d1)) (usages d1)\<rparr>)"
  have "quota_ok ?d2"
    using settle_ok [OF ok1, of "\<lambda>r. r_uuid r \<in> set uuids" False] by (simp add: quota_reservations_query_def)
  moreover have "pending ?d2 i = pending d i" for i
  proof -
    have "pending d1 i = pending d i + contribution m ?es i"
      using m by (simp add: d1 fold_reserve_eq pending_append) (simp add: pending_def working_def)
    moreover have "pending ?d2 i = pending d1 i - released (quota_reservations_query uuids d1) i"
      by (simp add: pending_soft_delete quota_reservations_query_def)
    ultimately show ?thesis by (simp add: q released_reservations)
  qed
  ultimately show ?thesis
    using end_reservations_result [OF ok1 mine, of False now2]
    by (intro exI [of _ "flushed now2 d1 ?d2"]) (simp add: commit_rollback_change flushed_ok)
qed

section \<open>A concrete run\<close>

definition empty_quota :: quota_db where
  "empty_quota = \<lparr>proj_limits = [], user_limits = [], class_limits = [], usages = [], reservations = [],
     next_usage = 1\<rparr>"

definition sample_ctx :: qctx where
  "sample_ctx = \<lparr>ctx_project = ''p'', ctx_user = ''u'', ctx_class = None, ctx_deleted = ''no''\<rparr>"

definition sample_fresh :: "nat \<Rightarrow> string" where
  "sample_fresh n = replicate n CHR ''r''"

definition total_of :: "usage \<Rightarrow> int" where
  "total_of u = in_use u + reserved u"

lemma empty_quota_ok: "quota_ok empty_quota"
  by (simp add: quota_ok_def empty_quota_def)

text \<open>Two of ten cores are reserved; the refresh finds three in use.\<close>

definition sample_reserve :: "(string \<times> int) list \<Rightarrow> quota_db \<Rightarrow> string list result \<times> quota_db" where
  "sample_reserve deltas = quota_reserve 100 sample_ctx sample_fresh total_of
     (\<lambda>res. Inr [(res, 3)]) [(''cores'', 10), (''networks'', 10)] [(''cores'', 10), (''networks'', 10)]
     deltas 200 None 0 None None"

definition sample_quota :: quota_db where
  "sample_quota = snd (sample_reserve [(''cores'', 2), (''networks'', 1)] empty_quota)"

lemma sample_reserve_ok:
  "sample_reserve [(''cores'', 2), (''networks'', 1)] empty_quota = (Inr [[], ''r''], sample_quota)"
  by (rule prod_eqI) (simp_all add: sample_quota_def, code_simp)

lemma sample_quota_ok: "quota_ok sample_quota"
proof -
  have "sample_fresh 0 \<noteq> sample_fresh (Suc 0)" by (simp add: sample_fresh_def)
  then show ?thesis
    using reserve_body_ok [of 100 sample_fresh total_of "\<lambda>res. Inr [(res, 3)]"
        "[(''cores'', 10), (''networks'', 10)]" "[(''cores'', 10), (''networks'', 10)]"
        "[(''cores'', 2), (''networks'', 1)]" 200 None 0 "''p''" "''u''" empty_quota "[[], ''r'']" sample_quota]
      sample_reserve_ok empty_quota_ok
    by (auto simp: sample_reserve_def quota_reserve_def writer_def sample_ctx_def empty_quota_def
        split: prod.splits sum.splits)
qed

section \<open>Properties\<close>

text \<open>
  C8: reserving keeps the quota tables consistent, whatever is requested. After
  \<^verbatim>\<open>quota_reserve\<close> every usage row still shows as reserved exactly the sum of its pending
  positive reservations, rows are unique per project, user and resource, and every
  reservation has its row. A call that raises leaves the tables as they were: the usage
  refresh it made is lost with the transaction, an over-quota answer included.
\<close>

theorem quota_reserve_invariant:
  assumes "quota_reserve now c fresh usage_total sync pq uq deltas expire until max_age pid usr d = (r, d1)"
    and "quota_ok d" "distinct (map fresh [0..<length deltas])"
    and "set (map fresh [0..<length deltas]) \<inter> r_uuid ` set (reservations d) = {}"
  shows "quota_ok d1 \<and>
    (case r of Inl e \<Rightarrow> d1 = d | Inr uuids \<Rightarrow> uuids = map fresh [0..<length deltas])"
proof (cases r)
  case (Inl e)
  with assms(1,2) show ?thesis by (auto simp: quota_reserve_def writer_def split: prod.splits sum.splits)
next
  case (Inr uuids)
  with assms(1) have run: "quota_reserve_body now fresh usage_total sync pq uq deltas expire until max_age
      (case pid of None \<Rightarrow> ctx_project c | Some p \<Rightarrow> p) (case usr of None \<Rightarrow> ctx_user c | Some u \<Rightarrow> u) d = (Inr uuids, d1)"
    by (auto simp: quota_reserve_def writer_def split: prod.splits sum.splits)
  have u: "uuids = map fresh [0..<length deltas]"
    by (rule reserve_success [OF run assms(2)])
  with Inr reserve_body_ok [OF run assms(2)] assms(3,4) show ?thesis by simp
qed

theorem quota_reserve_invariant_witness: "quota_ok sample_quota"
proof -
  have "sample_fresh 0 \<noteq> sample_fresh (Suc 0)" by (simp add: sample_fresh_def)
  then show ?thesis
    using quota_reserve_invariant [OF sample_reserve_ok [unfolded sample_reserve_def] empty_quota_ok]
    by (simp add: empty_quota_def)
qed

text \<open>
  C31: a reservation that is granted respects the user's limits. For each positive delta the
  user's row shows, after the reserve, at most the limit in use and reserved together
  (unless the limit is negative, which means unlimited). The total of a usage row is the
  sum of the two, as the project's total in the code.
\<close>

theorem quota_reserve_within_limits:
  assumes "quota_reserve now c fresh total_of sync pq uq deltas expire until max_age (Some p) (Some usr) d = (Inr uuids, d1)"
    and "quota_ok d" "dict_ok deltas" "(res, delta) \<in> set deltas" "0 < delta"
  shows "\<exists>u \<in> set (usages d1). u_live u \<and> key_of u = usage_key p usr res \<and>
    (\<exists>limit. dget uq res = Some limit \<and> (0 \<le> limit \<longrightarrow> in_use u + reserved u \<le> limit))"
proof -
  have t: "total_of = (\<lambda>u. in_use u + reserved u)" by (simp add: fun_eq_iff total_of_def)
  from assms(1) have "quota_reserve_body now fresh (\<lambda>u. in_use u + reserved u) sync pq uq deltas expire until max_age p usr d = (Inr uuids, d1)"
    by (auto simp: quota_reserve_def writer_def t split: prod.splits sum.splits)
  from reserve_within [OF this assms(2-5)] show ?thesis .
qed

theorem quota_reserve_within_limits_witness:
  "\<exists>u \<in> set (usages (snd (quota_reserve 100 sample_ctx sample_fresh total_of (\<lambda>res. Inr [(res, 3)])
      [(''cores'', 10)] [(''cores'', 10)] [(''cores'', 7)] 200 None 0 (Some ''p'') (Some ''u'') empty_quota))).
    u_live u \<and> in_use u + reserved u \<le> 10"
proof -
  let ?run = "quota_reserve 100 sample_ctx sample_fresh total_of (\<lambda>res. Inr [(res, 3)])
      [(''cores'', 10)] [(''cores'', 10)] [(''cores'', 7)] 200 None 0 (Some ''p'') (Some ''u'') empty_quota"
  have "?run = (Inr [[]], snd ?run)" by (rule prod_eqI) (simp_all, code_simp)
  from quota_reserve_within_limits [OF this empty_quota_ok, of "''cores''" 7] show ?thesis by auto
qed

text \<open>
  A rollback undoes a reserve. Rolling back the uuids a reserve returned, under the same
  project and user, succeeds; the tables are consistent and every row's pending amount is
  what it was before the reserve.
\<close>

theorem quota_reserve_rollback:
  assumes "quota_reserve now c fresh usage_total sync pq uq deltas expire until max_age (Some p) (Some usr) d = (Inr uuids, d1)"
    and "quota_ok d" "distinct uuids" "set uuids \<inter> r_uuid ` set (reservations d) = {}"
  shows "\<exists>d2. reservation_rollback now2 uuids (Some p) (Some usr) d1 = (Inr (), d2) \<and> quota_ok d2 \<and>
    (\<forall>i. pending d2 i = pending d i)"
proof -
  from assms(1) have "quota_reserve_body now fresh usage_total sync pq uq deltas expire until max_age p usr d = (Inr uuids, d1)"
    by (auto simp: quota_reserve_def writer_def split: prod.splits sum.splits)
  from reserve_then_rollback [OF this assms(2-4)] show ?thesis .
qed

theorem quota_reserve_rollback_witness:
  "\<exists>d2. reservation_rollback 150 [[]] (Some ''p'') (Some ''u'')
     (snd (quota_reserve 100 sample_ctx sample_fresh total_of (\<lambda>res. Inr [(res, 3)])
      [(''cores'', 10)] [(''cores'', 10)] [(''cores'', 7)] 200 None 0 (Some ''p'') (Some ''u'') empty_quota)) = (Inr (), d2) \<and>
     quota_ok d2 \<and> pending d2 1 = 0"
proof -
  let ?run = "quota_reserve 100 sample_ctx sample_fresh total_of (\<lambda>res. Inr [(res, 3)])
      [(''cores'', 10)] [(''cores'', 10)] [(''cores'', 7)] 200 None 0 (Some ''p'') (Some ''u'') empty_quota"
  have "?run = (Inr [[]], snd ?run)" by (rule prod_eqI) (simp_all, code_simp)
  from quota_reserve_rollback [OF this empty_quota_ok, of 150] show ?thesis
    by (auto simp: empty_quota_def pending_def)
qed

text \<open>
  A commit turns what was reserved into use. For reservations of the given project and
  user the call succeeds, the tables stay consistent, and every usage row has in use the
  sum of the listed deltas more and reserved the sum of the positive ones less; the listed
  reservations are pending no longer and the others are as they were.
\<close>

theorem reservation_commit_effect:
  assumes "quota_ok d"
    and "\<forall>r \<in> set (quota_reservations_query uuids d). r_project r = p \<and> r_user r = usr"
  shows "\<exists>d1. reservation_commit now uuids (Some p) (Some usr) d = (Inr (), d1) \<and> quota_ok d1 \<and>
    quota_reservations_query uuids d1 = [] \<and>
    filter (\<lambda>r. r_uuid r \<notin> set uuids) (reservations d1) = filter (\<lambda>r. r_uuid r \<notin> set uuids) (reservations d) \<and>
    (\<forall>u \<in> set (usages d1). \<exists>v \<in> set (usages d). uid v = uid u \<and> key_of v = key_of u \<and>
       in_use u = in_use v + committed (quota_reservations_query uuids d) (uid u) \<and>
       reserved u = reserved v - released (quota_reservations_query uuids d) (uid u))"
proof -
  let ?q = "quota_reservations_query uuids d"
  let ?e = "soft_delete_reservations (\<lambda>r. r_uuid r \<in> set uuids) (d\<lparr>usages := map (settled True ?q) (usages d)\<rparr>)"
  have run: "reservation_commit now uuids (Some p) (Some usr) d = (Inr (), flushed now d ?e)"
    using end_reservations_result [OF assms, of True now] by (simp add: commit_rollback_change)
  have ok: "quota_ok (flushed now d ?e)"
    using flushed_ok [OF settle_ok [OF assms(1), of "\<lambda>r. r_uuid r \<in> set uuids" True]]
    by (simp add: quota_reservations_query_def)
  have gone: "quota_reservations_query uuids (flushed now d ?e) = []"
    by (auto simp: quota_reservations_query_def soft_delete_reservations_def filter_empty_conv)
  have "filter (\<lambda>r. r_uuid r \<notin> set uuids) (map (\<lambda>r. if r_live r \<and> r_uuid r \<in> set uuids then r\<lparr>r_live := False\<rparr> else r) rs)
      = filter (\<lambda>r. r_uuid r \<notin> set uuids) rs" for rs
    by (induction rs) auto
  then have others: "filter (\<lambda>r. r_uuid r \<notin> set uuids) (reservations (flushed now d ?e))
      = filter (\<lambda>r. r_uuid r \<notin> set uuids) (reservations d)"
    by (simp add: soft_delete_reservations_def)
  have rows: "\<exists>v \<in> set (usages d). uid v = uid u \<and> key_of v = key_of u \<and>
      in_use u = in_use v + committed ?q (uid u) \<and> reserved u = reserved v - released ?q (uid u)"
    if u: "u \<in> set (usages (flushed now d ?e))" for u
  proof -
    obtain w where w: "w \<in> set (usages ?e)" "uid w = uid u" "key_of w = key_of u" "in_use w = in_use u"
        "reserved w = reserved u"
      using flushed_rows [OF u] by auto
    then obtain v where v: "v \<in> set (usages d)" "w = settled True ?q v"
      by (auto simp: soft_delete_reservations_def)
    then show ?thesis using w by (intro bexI [of _ v]) (simp_all add: settled_def key_of_def)
  qed
  show ?thesis using run ok gone others rows by blast
qed

theorem reservation_commit_effect_witness:
  "\<exists>d1. reservation_commit 150 [[]] (Some ''p'') (Some ''u'') sample_quota = (Inr (), d1) \<and> quota_ok d1"
proof -
  have "\<forall>r \<in> set (quota_reservations_query [[]] sample_quota). r_project r = ''p'' \<and> r_user r = ''u''"
    by code_simp
  then show ?thesis using reservation_commit_effect [OF sample_quota_ok] by blast
qed

text \<open>
  Expiry ends exactly the reservations whose time has passed, gives back what they held
  on their own rows, and keeps the tables consistent.
\<close>

theorem reservation_expire_effect:
  assumes "quota_ok d"
  shows "quota_ok (reservation_expire now d) \<and>
    filter r_live (reservations (reservation_expire now d)) =
      filter (\<lambda>r. r_live r \<and> now \<le> r_expire r) (reservations d) \<and>
    (\<forall>i. pending (reservation_expire now d) i =
       pending d i - released (filter (\<lambda>r. r_live r \<and> r_expire r < now) (reservations d)) i)"
proof -
  let ?q = "filter (\<lambda>r. r_live r \<and> r_expire r < now) (reservations d)"
  have e: "reservation_expire now d = flushed now d (soft_delete_reservations (\<lambda>r. r_expire r < now)
      (d\<lparr>usages := map (settled False ?q) (usages d)\<rparr>))"
    using fold_settle [of False ?q d]
    by (simp add: reservation_expire_def expired_joined [OF assms] change_of_def)
  have "filter r_live (map (\<lambda>r. if r_live r \<and> r_expire r < now then r\<lparr>r_live := False\<rparr> else r) rs)
      = filter (\<lambda>r. r_live r \<and> now \<le> r_expire r) rs" for rs
    by (induction rs) auto
  moreover have "quota_ok (reservation_expire now d)"
    unfolding e by (rule flushed_ok [OF settle_ok [OF assms]])
  ultimately show ?thesis
    by (simp add: e pending_soft_delete) (simp add: soft_delete_reservations_def)
qed

theorem reservation_expire_effect_witness:
  "filter r_live (reservations (reservation_expire 5 empty_quota)) = []"
  using reservation_expire_effect [OF empty_quota_ok, of 5] by (simp add: empty_quota_def)

text \<open>
  Deleting a user's quota data leaks what the user had reserved on rows shared by the
  project (the per-project resources): the reservations go, the shared row stays and still
  counts them as reserved, on top of what the remaining reservations account for.
\<close>

theorem destroy_user_leaks:
  assumes "quota_ok d" "u \<in> set (usages d)" "u_live u" "u_user u = None" "u_project u = p"
  shows "u \<in> set (usages (quota_destroy_all_by_project_and_user p usr d)) \<and>
    reserved u = pending (quota_destroy_all_by_project_and_user p usr d) (uid u) +
      released (filter (\<lambda>r. r_live r \<and> r_project r = p \<and> r_user r = usr) (reservations d)) (uid u)"
proof -
  have held: "reserved u = pending d (uid u)"
    using assms(1-3) by (simp add: quota_ok_def)
  have "pending (quota_destroy_all_by_project_and_user p usr d) (uid u) =
      pending d (uid u) - released (filter (\<lambda>r. r_live r \<and> r_project r = p \<and> r_user r = usr) (reservations d)) (uid u)"
    using pending_soft_delete [of "\<lambda>r. r_project r = p \<and> r_user r = usr"
        "map (\<lambda>u. if u_live u \<and> u_project u = p \<and> u_user u = Some usr then u\<lparr>u_live := False\<rparr> else u) (usages d)"
        "d\<lparr>user_limits := map (\<lambda>l. if l_live l \<and> l_project l = p \<and> l_user l = Some usr
                                  then l\<lparr>l_live := False\<rparr> else l) (user_limits d)\<rparr>"]
    by (simp add: quota_destroy_all_by_project_and_user_def) (simp add: pending_def)
  moreover have "u \<in> set (usages (quota_destroy_all_by_project_and_user p usr d))"
    using assms by (force simp: quota_destroy_all_by_project_and_user_def soft_delete_reservations_def)
  ultimately show ?thesis using held by simp
qed

theorem destroy_user_leaks_witness:
  "\<exists>u \<in> set (usages (quota_destroy_all_by_project_and_user ''p'' ''u'' sample_quota)).
    reserved u = pending (quota_destroy_all_by_project_and_user ''p'' ''u'' sample_quota) (uid u) + 1"
proof -
  have u: "usages sample_quota ! 1 \<in> set (usages sample_quota)" "u_live (usages sample_quota ! 1)"
      "u_user (usages sample_quota ! 1) = None" "u_project (usages sample_quota ! 1) = ''p''"
    by code_simp+
  have "released (filter (\<lambda>r. r_live r \<and> r_project r = ''p'' \<and> r_user r = ''u'') (reservations sample_quota))
      (uid (usages sample_quota ! 1)) = 1"
    by code_simp
  with destroy_user_leaks [OF sample_quota_ok u, of "''u''"] show ?thesis by fastforce
qed

text \<open>
  The age check looks at the seconds part of the elapsed time only. A row without a
  countdown that was last written a whole number of days ago counts as fresh whatever the
  maximum age is, and no maximum age of a day or more is ever reached.
\<close>

theorem refresh_age_wraps:
  assumes "0 \<le> in_use u" "until_refresh u = None" "0 < max_age"
    and "now - updated u = 86400 * n \<or> 86400 \<le> max_age"
  shows "is_quota_refresh_needed now max_age u = (False, u)"
proof -
  have "(now - updated u) mod 86400 < 86400" by simp
  with assms show ?thesis by (auto simp: is_quota_refresh_needed_def)
qed

theorem refresh_age_wraps_witness:
  "fst (is_quota_refresh_needed 864000 60 \<lparr>uid = 1, u_project = ''p'', u_user = None, u_resource = ''r'',
     in_use = 0, reserved = 0, until_refresh = None, updated = 0, u_live = True\<rparr>) = False"
  using refresh_age_wraps [of "\<lparr>uid = 1, u_project = ''p'', u_user = None, u_resource = ''r'',
     in_use = 0, reserved = 0, until_refresh = None, updated = 0, u_live = True\<rparr>" 60 864000 10]
  by simp

end
