(* ===== verification/QuotaDriver.thy ===== *)
theory QuotaDriver
  imports Reservations
begin

text \<open>
  \<^verbatim>\<open>nova/quota.py\<close>: the resources, the database quota driver, the no-op driver and the
  engine in front of them. The driver interface is the locale \<open>quota_driver\<close>; both
  drivers interpret it. A dictionary of limits leaves out the two identifying entries
  (project and user id) the database call adds; no resource has such a name.
\<close>

section \<open>Resources\<close>

text \<open>
  \<open>Reservable\<close> carries the name of its counting function, \<open>Countable\<close> counts on its own.
  \<open>rdefault\<close> is the value of the configuration option of the resource's flag, -1 without one.
\<close>

datatype resource_kind = Base | Reservable string | Absolute | Countable

record resource =
  rname :: string
  rkind :: resource_kind
  rdefault :: int

type_synonym registry = "(string \<times> resource) list"

fun valid_method :: "resource_kind \<Rightarrow> string option" where
  "valid_method Base = None"
| "valid_method (Reservable sync) = Some ''reserve''"
| "valid_method Absolute = Some ''check''"
| "valid_method Countable = Some ''check''"

fun has_sync :: "resource_kind \<Rightarrow> bool" where
  "has_sync (Reservable sync) = True"
| "has_sync _ = False"

definition register_resource :: "resource \<Rightarrow> registry \<Rightarrow> registry" where
  "register_resource r reg = dset (rname r) r reg"

definition register_resources :: "resource list \<Rightarrow> registry \<Rightarrow> registry" where
  "register_resources rs reg = fold register_resource rs reg"

text \<open>The recognized resources of the module, given the configuration.\<close>

definition nova_resources :: "(string \<Rightarrow> int) \<Rightarrow> resource list" where
  "nova_resources conf =
     (let res = (\<lambda>n k f. \<lparr>rname = n, rkind = k, rdefault = conf f\<rparr>) in
      [res ''instances'' (Reservable ''_sync_instances'') ''quota_instances'',
       res ''cores'' (Reservable ''_sync_instances'') ''quota_cores'',
       res ''ram'' (Reservable ''_sync_instances'') ''quota_ram'',
       res ''security_groups'' (Reservable ''_sync_security_groups'') ''quota_security_groups'',
       res ''floating_ips'' (Reservable ''_sync_floating_ips'') ''quota_floating_ips'',
       res ''fixed_ips'' (Reservable ''_sync_fixed_ips'') ''quota_fixed_ips'',
       res ''metadata_items'' Absolute ''quota_metadata_items'',
       res ''injected_files'' Absolute ''quota_injected_files'',
       res ''injected_file_content_bytes'' Absolute ''quota_injected_file_content_bytes'',
       res ''injected_file_path_bytes'' Absolute ''quota_injected_file_path_length'',
       res ''security_group_rules'' Countable ''quota_security_group_rules'',
       res ''key_pairs'' Countable ''quota_key_pairs'',
       res ''server_groups'' (Reservable ''_sync_server_groups'') ''quota_server_groups'',
       res ''server_group_members'' Countable ''quota_server_group_members''])"

text \<open>
  \<open>BaseResource.quota\<close>: the project's limit, else the class's, else the default. The
  arguments default to the context's project and class.
\<close>

definition resource_quota ::
  "(string \<Rightarrow> string \<Rightarrow> int result) \<Rightarrow> (string \<Rightarrow> string \<Rightarrow> int result) \<Rightarrow>
   string option \<Rightarrow> string option \<Rightarrow> resource \<Rightarrow> int result" where
  "resource_quota by_project by_class project cls r =
     (let from_class =
        (if given cls
         then (case by_class (the cls) (rname r) of
                 Inl (Nova c m) \<Rightarrow> if is_a c QuotaClassNotFound then Inr (rdefault r) else Inl (Nova c m)
               | x \<Rightarrow> x)
         else Inr (rdefault r))
      in if given project
         then (case by_project (the project) (rname r) of
                 Inl (Nova c m) \<Rightarrow> if is_a c ProjectQuotaNotFound then from_class else Inl (Nova c m)
               | x \<Rightarrow> x)
         else from_class)"

definition invalid_method :: "string \<Rightarrow> exn" where
  "invalid_method name = Nova InvalidQuotaMethodUsage name"

definition valid_method_call_check_resource :: "registry \<Rightarrow> string \<Rightarrow> string \<Rightarrow> unit result" where
  "valid_method_call_check_resource reg name meth =
     (case dget reg name of
        None \<Rightarrow> Inl (invalid_method name)
      | Some r \<Rightarrow>
          (case valid_method (rkind r) of
             None \<Rightarrow> Inl AttributeError
           | Some v \<Rightarrow> if v = meth then Inr () else Inl (invalid_method name)))"

definition valid_method_call_check_resources :: "registry \<Rightarrow> string list \<Rightarrow> string \<Rightarrow> unit result" where
  "valid_method_call_check_resources reg names meth =
     fold_r (\<lambda>n _. valid_method_call_check_resource reg n meth) names ()"

section \<open>Looking limits up\<close>

definition get_defaults :: "registry \<Rightarrow> quota_db \<Rightarrow> (string \<times> int) list" where
  "get_defaults reg d =
     fold (\<lambda>(k, r). dset (rname r) (dgetd (quota_class_get_default d) (rname r) (rdefault r))) reg []"

definition get_class_quotas :: "registry \<Rightarrow> string \<Rightarrow> bool \<Rightarrow> quota_db \<Rightarrow> (string \<times> int) list" where
  "get_class_quotas reg cls defaults d =
     (let cq = quota_class_get_all_by_name cls d in
      fold (\<lambda>(k, r) q. if defaults \<or> dhas cq (rname r)
                       then dset (rname r) (dgetd cq (rname r) (rdefault r)) q else q) reg [])"

record quota_info =
  limit :: int
  used :: "(int \<times> int) option"
  remains :: "int option"

text \<open>
  One resource of \<^verbatim>\<open>_process_quotas\<close>: the explicit limit, else the class's, else the
  default. The usages, when asked for, are never an empty dictionary, because of the
  identifying entry.
\<close>

definition process_resource ::
  "(string \<times> int) list \<Rightarrow> (string \<times> int) list \<Rightarrow> (string \<times> int) list \<Rightarrow>
   (string \<times> (int \<times> int)) list option \<Rightarrow> bool \<Rightarrow> resource \<Rightarrow> quota_info" where
  "process_resource quotas cls_quotas defaults us with_remains r =
     (let l = dgetd quotas (rname r) (dgetd cls_quotas (rname r) (dgetd defaults (rname r) 0)) in
      \<lparr>limit = l,
       used = (case us of None \<Rightarrow> None | Some m \<Rightarrow> Some (dgetd m (rname r) (0, 0))),
       remains = (if with_remains then Some l else None)\<rparr>)"

definition subtract_limit :: "limit_row \<Rightarrow> (string \<times> quota_info) list \<Rightarrow> (string \<times> quota_info) list" where
  "subtract_limit q m =
     (case dget m (l_resource q) of
        None \<Rightarrow> m
      | Some i \<Rightarrow> dset (l_resource q) (i\<lparr>remains := map_option (\<lambda>x. x - hard_limit q) (remains i)\<rparr>) m)"

definition process_quotas ::
  "qctx \<Rightarrow> registry \<Rightarrow> string \<Rightarrow> (string \<times> int) list \<Rightarrow> string option \<Rightarrow> bool \<Rightarrow>
   (string \<times> (int \<times> int)) list option \<Rightarrow> bool \<Rightarrow> quota_db \<Rightarrow> (string \<times> quota_info) list result" where
  "process_quotas c reg project quotas quota_class defaults us with_remains d =
     (let cls = (if project = ctx_project c then ctx_class c else quota_class);
          cls_quotas = (if given cls then quota_class_get_all_by_name (the cls) d else []);
          dflt = get_defaults reg d;
          m = fold (\<lambda>(k, r) q. if \<not> defaults \<and> \<not> dhas quotas (rname r) then q
                     else dset (rname r) (process_resource quotas cls_quotas dflt us with_remains r) q) reg []
      in if with_remains
         then bind_r (quota_get_all c project d) (\<lambda>rows. Inr (fold subtract_limit rows m))
         else Inr m)"

text \<open>The project's limits serve where the user has none.\<close>

definition merge_missing :: "(string \<times> int) list \<Rightarrow> (string \<times> int) list \<Rightarrow> (string \<times> int) list" where
  "merge_missing uq pq = fold (\<lambda>(k, v) q. if dhas q k then q else dset k v q) pq uq"

definition get_user_quotas ::
  "qctx \<Rightarrow> registry \<Rightarrow> string \<Rightarrow> string \<Rightarrow> string option \<Rightarrow> bool \<Rightarrow> bool \<Rightarrow>
   (string \<times> int) list option \<Rightarrow> (string \<times> int) list option \<Rightarrow> quota_db \<Rightarrow>
   (string \<times> quota_info) list result" where
  "get_user_quotas c reg project user quota_class defaults with_usages pquotas uquotas d =
     bind_r (case uquotas of Some q \<Rightarrow> Inr q | None \<Rightarrow> quota_get_all_by_project_and_user c project user d) (\<lambda>uq.
       process_quotas c reg project
         (merge_missing uq (case pquotas of Some q \<Rightarrow> q | None \<Rightarrow> quota_get_all_by_project project d))
         quota_class defaults
         (if with_usages then Some (quota_usage_get_all project (Some user) d) else None) False d)"

definition get_project_quotas ::
  "qctx \<Rightarrow> registry \<Rightarrow> string \<Rightarrow> string option \<Rightarrow> bool \<Rightarrow> bool \<Rightarrow> bool \<Rightarrow>
   (string \<times> int) list option \<Rightarrow> quota_db \<Rightarrow> (string \<times> quota_info) list result" where
  "get_project_quotas c reg project quota_class defaults with_usages with_remains pquotas d =
     process_quotas c reg project
       (case pquotas of Some q \<Rightarrow> q | None \<Rightarrow> quota_get_all_by_project project d)
       quota_class defaults
       (if with_usages then Some (quota_usage_get_all project None d) else None) with_remains d"

section \<open>What may be set\<close>

definition is_unlimited_value :: "int \<Rightarrow> bool" where
  "is_unlimited_value v \<longleftrightarrow> v \<le> -1"

definition sum_quota_values :: "int \<Rightarrow> int \<Rightarrow> int" where
  "sum_quota_values v1 v2 =
     (if is_unlimited_value v1 \<or> is_unlimited_value v2 then -1 else v1 + v2)"

definition sub_quota_values :: "int \<Rightarrow> int \<Rightarrow> int" where
  "sub_quota_values v1 v2 =
     (if is_unlimited_value v1 \<or> is_unlimited_value v2 then -1 else v1 - v2)"

definition used_sum :: "quota_info \<Rightarrow> int" where
  "used_sum i = (case used i of Some (a, b) \<Rightarrow> a + b | None \<Rightarrow> 0)"

text \<open>Each resource with the smallest and the largest value a quota of it may get.\<close>

definition user_settable ::
  "(string \<times> quota_info) list \<Rightarrow> (string \<times> int) list \<Rightarrow> string \<times> quota_info \<Rightarrow>
   (string \<times> (int \<times> int)) result" where
  "user_settable pquotas setted ki =
     (case ki of (k, i) \<Rightarrow>
        bind_r (ditem pquotas k) (\<lambda>p.
          Inr (k, (used_sum i, sum_quota_values (the (remains p)) (dgetd setted k 0)))))"

definition project_settable :: "string \<times> quota_info \<Rightarrow> string \<times> (int \<times> int)" where
  "project_settable ki =
     (case ki of (k, i) \<Rightarrow>
        (k, (max (sub_quota_values (limit i) (the (remains i))) (used_sum i), -1)))"

definition get_settable_quotas ::
  "qctx \<Rightarrow> registry \<Rightarrow> string \<Rightarrow> string option \<Rightarrow> quota_db \<Rightarrow> (string \<times> (int \<times> int)) list result" where
  "get_settable_quotas c reg project user d =
     (let dbq = quota_get_all_by_project project d in
      bind_r (get_project_quotas c reg project None True True True (Some dbq) d) (\<lambda>pquotas.
        if given user
        then bind_r (quota_get_all_by_project_and_user c project (the user) d) (\<lambda>setted.
             bind_r (get_user_quotas c reg project (the user) None True True (Some dbq) (Some setted) d)
               (map_r (user_settable pquotas setted)))
        else Inr (map project_settable pquotas)))"

definition get_syncable_resources :: "registry \<Rightarrow> string option \<Rightarrow> string list" where
  "get_syncable_resources reg user =
     map fst (filter (\<lambda>(k, r). has_sync (rkind r) \<and>
       (user = None \<longleftrightarrow> k \<in> set per_project_quotas)) reg)"

section \<open>The database driver's operations\<close>

definition resource_unknown :: "string list \<Rightarrow> exn" where
  "resource_unknown names = Nova QuotaResourceUnknown (concat (map (\<lambda>n. n @ [CHR '' '']) (sort names)))"

definition get_quotas ::
  "qctx \<Rightarrow> registry \<Rightarrow> string list \<Rightarrow> bool \<Rightarrow> string \<Rightarrow> string option \<Rightarrow> (string \<times> int) list \<Rightarrow>
   quota_db \<Rightarrow> (string \<times> int) list result" where
  "get_quotas c reg keys sync project user pquotas d =
     (let sub = filter (\<lambda>(k, r). k \<in> set keys \<and> has_sync (rkind r) = sync) reg in
      if length keys \<noteq> length sub
      then Inl (resource_unknown (remdups (filter (\<lambda>k. k \<notin> set (map fst sub)) keys)))
      else bind_r (if given user
                   then get_user_quotas c sub project (the user) (ctx_class c) True False (Some pquotas) None d
                   else get_project_quotas c sub project (ctx_class c) True False False (Some pquotas) d)
             (\<lambda>m. Inr (map (\<lambda>(k, i). (k, limit i)) m)))"

definition ctx_project_id :: "qctx \<Rightarrow> string option \<Rightarrow> string" where
  "ctx_project_id c p = (case p of None \<Rightarrow> ctx_project c | Some x \<Rightarrow> x)"

definition ctx_user_id :: "qctx \<Rightarrow> string option \<Rightarrow> string" where
  "ctx_user_id c u = (case u of None \<Rightarrow> ctx_user c | Some x \<Rightarrow> x)"

definition over_names :: "string list \<Rightarrow> exn" where
  "over_names names = Nova OverQuota (concat (map (\<lambda>n. n @ [CHR '' '']) (sort names)))"

definition limit_check ::
  "qctx \<Rightarrow> registry \<Rightarrow> (string \<times> int) list \<Rightarrow> string option \<Rightarrow> string option \<Rightarrow> quota_db \<Rightarrow> unit result" where
  "limit_check c reg vals pid usr d =
     bind_r (valid_method_call_check_resources reg (map fst vals) ''check'') (\<lambda>_.
     (let unders = map fst (filter (\<lambda>(k, v). v < 0) vals) in
      if unders \<noteq> [] then Inl (Nova InvalidQuotaValue (concat (map (\<lambda>n. n @ [CHR '' '']) (sort unders))))
      else
        (let project = ctx_project_id c pid; user = ctx_user_id c usr;
             pquotas = quota_get_all_by_project project d in
         bind_r (get_quotas c reg (map fst vals) False project None pquotas d) (\<lambda>q.
         bind_r (get_quotas c reg (map fst vals) False project (Some user) pquotas d) (\<lambda>uq.
         (let overs = map fst (filter (\<lambda>(k, v).
                 over_limit (dgetd q k 0) v \<or> over_limit (dgetd uq k 0) v) vals)
          in if overs \<noteq> [] then Inl (over_names overs) else Inr ()))))))"

text \<open>The expiration argument: nothing, a number of seconds, a duration, a time, or none of them.\<close>

datatype expire_arg = ENone | ESeconds int | EDelta int | ETime int | EOther

definition expire_time :: "int \<Rightarrow> int \<Rightarrow> expire_arg \<Rightarrow> int result" where
  "expire_time now reservation_expire_conf e =
     (case e of
        ENone \<Rightarrow> Inr (now + reservation_expire_conf)
      | ESeconds n \<Rightarrow> Inr (now + n)
      | EDelta n \<Rightarrow> Inr (now + n)
      | ETime t \<Rightarrow> Inr t
      | EOther \<Rightarrow> Inl (Nova InvalidReservationExpiration ''Invalid reservation expiration.''))"

text \<open>
  What a driver gets from outside: the context, the clock, the configuration, the uuids,
  the \<^verbatim>\<open>total\<close> of a usage row and the counting functions by name. A resource that is not
  registered cannot be counted.
\<close>

record driver_env =
  dctx :: qctx
  dnow :: int
  conf_expire :: int
  conf_until :: "int option"
  conf_max_age :: int
  dfresh :: "nat \<Rightarrow> string"
  dtotal :: "usage \<Rightarrow> int"
  dcount :: "string \<Rightarrow> string \<Rightarrow> string \<Rightarrow> (string \<times> int) list result"

definition sync_resource ::
  "driver_env \<Rightarrow> registry \<Rightarrow> string \<Rightarrow> string \<Rightarrow> string \<Rightarrow> (string \<times> int) list result" where
  "sync_resource D reg project user res =
     bind_r (ditem reg res) (\<lambda>r.
       case rkind r of Reservable f \<Rightarrow> dcount D f project user | _ \<Rightarrow> Inl AttributeError)"

definition db_reserve ::
  "driver_env \<Rightarrow> registry \<Rightarrow> (string \<times> int) list \<Rightarrow> expire_arg \<Rightarrow> string option \<Rightarrow> string option \<Rightarrow>
   quota_db \<Rightarrow> string list result \<times> quota_db" where
  "db_reserve D reg deltas e pid usr d =
     (let c = dctx D; project = ctx_project_id c pid; user = ctx_user_id c usr;
          pquotas = quota_get_all_by_project project d in
      case bind_r (valid_method_call_check_resources reg (map fst deltas) ''reserve'') (\<lambda>_.
           bind_r (expire_time (dnow D) (conf_expire D) e) (\<lambda>t.
           bind_r (get_quotas c reg (map fst deltas) True project None pquotas d) (\<lambda>q.
           bind_r (get_quotas c reg (map fst deltas) True project (Some user) pquotas d) (\<lambda>uq.
             Inr (t, q, uq))))) of
        Inl x \<Rightarrow> (Inl x, d)
      | Inr (t, q, uq) \<Rightarrow>
          quota_reserve (dnow D) c (dfresh D) (dtotal D) (sync_resource D reg project user) q uq deltas t
            (conf_until D) (conf_max_age D) (Some project) (Some user) d)"

definition db_commit ::
  "driver_env \<Rightarrow> string list \<Rightarrow> string option \<Rightarrow> string option \<Rightarrow> quota_db \<Rightarrow> unit result \<times> quota_db" where
  "db_commit D uuids pid usr =
     reservation_commit (dnow D) uuids (Some (ctx_project_id (dctx D) pid)) (Some (ctx_user_id (dctx D) usr))"

definition db_rollback ::
  "driver_env \<Rightarrow> string list \<Rightarrow> string option \<Rightarrow> string option \<Rightarrow> quota_db \<Rightarrow> unit result \<times> quota_db" where
  "db_rollback D uuids pid usr =
     reservation_rollback (dnow D) uuids (Some (ctx_project_id (dctx D) pid)) (Some (ctx_user_id (dctx D) usr))"

text \<open>A missing usage row is no error for a reset: it will be counted anyway.\<close>

definition usage_reset_one :: "driver_env \<Rightarrow> string \<Rightarrow> quota_db \<Rightarrow> quota_db result" where
  "usage_reset_one D res d =
     (case quota_usage_update (dnow D) (ctx_project (dctx D)) (Some (ctx_user (dctx D))) res
             (Some (-1)) None None d of
        (Inl (Nova cl m), d1) \<Rightarrow> if is_a cl QuotaUsageNotFound then Inr d1 else Inl (Nova cl m)
      | (Inl e, d1) \<Rightarrow> Inl e
      | (Inr x, d1) \<Rightarrow> Inr d1)"

definition db_usage_reset :: "driver_env \<Rightarrow> string list \<Rightarrow> quota_db \<Rightarrow> quota_db result" where
  "db_usage_reset D names d = fold_r (usage_reset_one D) names d"

definition refresh_not_allowed :: "string \<Rightarrow> exn" where
  "refresh_not_allowed name = Nova QuotaUsageRefreshNotAllowed name"

definition db_usage_refresh ::
  "driver_env \<Rightarrow> registry \<Rightarrow> string option \<Rightarrow> string option \<Rightarrow> string list \<Rightarrow>
   quota_db \<Rightarrow> unit result \<times> quota_db" where
  "db_usage_refresh D reg pid usr names d =
     (let c = dctx D; project = ctx_project_id c pid; user = ctx_user_id c usr;
          syncable = get_syncable_resources reg (Some user) in
      case find (\<lambda>n. n \<notin> set syncable) names of
        Some n \<Rightarrow> (Inl (refresh_not_allowed n), d)
      | None \<Rightarrow>
          quota_usage_refresh (dnow D) c (sync_resource D reg project user)
            (if names = [] then syncable else names) (conf_until D) (conf_max_age D)
            (Some project) (Some user) d)"

section \<open>The no-op driver\<close>

definition noop_get_defaults :: "registry \<Rightarrow> (string \<times> int) list" where
  "noop_get_defaults reg = fold (\<lambda>(k, r). dset (rname r) (-1)) reg []"

definition get_noop_quotas :: "registry \<Rightarrow> bool \<Rightarrow> bool \<Rightarrow> (string \<times> quota_info) list" where
  "get_noop_quotas reg with_usages with_remains =
     fold (\<lambda>(k, r). dset (rname r)
       \<lparr>limit = -1, used = (if with_usages then Some (-1, -1) else None),
        remains = (if with_remains then Some (-1) else None)\<rparr>) reg []"

definition noop_get_settable_quotas :: "registry \<Rightarrow> (string \<times> (int \<times> int)) list" where
  "noop_get_settable_quotas reg = fold (\<lambda>(k, r). dset (rname r) (0, -1)) reg []"

definition noop_reserve ::
  "(string \<times> int) list \<Rightarrow> expire_arg \<Rightarrow> string option \<Rightarrow> string option \<Rightarrow> 's \<Rightarrow> string list result \<times> 's" where
  "noop_reserve deltas e pid usr s = (Inr [], s)"

definition noop_commit :: "string list \<Rightarrow> string option \<Rightarrow> string option \<Rightarrow> 's \<Rightarrow> unit result \<times> 's" where
  "noop_commit uuids pid usr s = (Inr (), s)"

definition noop_rollback :: "string list \<Rightarrow> string option \<Rightarrow> string option \<Rightarrow> 's \<Rightarrow> unit result \<times> 's" where
  "noop_rollback uuids pid usr s = (Inr (), s)"

section \<open>The engine\<close>

text \<open>
  The engine hands each call to its driver. Commit and rollback swallow what the driver
  raises: the refresh of usages and the expiry of reservations are relied on instead.
\<close>

definition engine_reserve ::
  "((string \<times> int) list \<Rightarrow> expire_arg \<Rightarrow> string option \<Rightarrow> string option \<Rightarrow> 's \<Rightarrow> string list result \<times> 's) \<Rightarrow>
   (string \<times> int) list \<Rightarrow> expire_arg \<Rightarrow> string option \<Rightarrow> string option \<Rightarrow> 's \<Rightarrow> string list result \<times> 's" where
  "engine_reserve drv deltas e pid usr s = drv deltas e pid usr s"

definition engine_commit ::
  "(string list \<Rightarrow> string option \<Rightarrow> string option \<Rightarrow> 's \<Rightarrow> unit result \<times> 's) \<Rightarrow>
   string list \<Rightarrow> string option \<Rightarrow> string option \<Rightarrow> 's \<Rightarrow> unit \<times> 's" where
  "engine_commit drv uuids pid usr s = (case drv uuids pid usr s of (r, s1) \<Rightarrow> ((), s1))"

definition engine_rollback ::
  "(string list \<Rightarrow> string option \<Rightarrow> string option \<Rightarrow> 's \<Rightarrow> unit result \<times> 's) \<Rightarrow>
   string list \<Rightarrow> string option \<Rightarrow> string option \<Rightarrow> 's \<Rightarrow> unit \<times> 's" where
  "engine_rollback drv uuids pid usr s = (case drv uuids pid usr s of (r, s1) \<Rightarrow> ((), s1))"

text \<open>\<^verbatim>\<open>count\<close> of a resource that is not countable, or not there, is refused.\<close>

definition engine_count :: "(string \<Rightarrow> int result) \<Rightarrow> registry \<Rightarrow> string \<Rightarrow> int result" where
  "engine_count counter reg name =
     (case dget reg name of
        Some r \<Rightarrow> if rkind r = Countable then counter name else Inl (resource_unknown [name])
      | None \<Rightarrow> Inl (resource_unknown [name]))"

definition engine_resources :: "registry \<Rightarrow> string list" where
  "engine_resources reg = sort (map fst reg)"

section \<open>The driver interface\<close>

text \<open>
  What the engine's clients rely on. \<open>ok\<close> is the consistency of the quota store,
  \<open>usable\<close> that the uuids a reserve will generate are new, \<open>owned\<close> that the listed
  reservations belong to the project and user, \<open>held\<close> the amounts reserved.
\<close>

locale quota_driver =
  fixes reserve :: "(string \<times> int) list \<Rightarrow> expire_arg \<Rightarrow> string option \<Rightarrow> string option \<Rightarrow> 's \<Rightarrow> string list result \<times> 's"
    and commit :: "string list \<Rightarrow> string option \<Rightarrow> string option \<Rightarrow> 's \<Rightarrow> unit result \<times> 's"
    and rollback :: "string list \<Rightarrow> string option \<Rightarrow> string option \<Rightarrow> 's \<Rightarrow> unit result \<times> 's"
    and ok :: "'s \<Rightarrow> bool"
    and usable :: "(string \<times> int) list \<Rightarrow> 's \<Rightarrow> bool"
    and owned :: "string list \<Rightarrow> string option \<Rightarrow> string option \<Rightarrow> 's \<Rightarrow> bool"
    and held :: "'s \<Rightarrow> int \<Rightarrow> int"
  assumes reserve_ok: "ok s \<Longrightarrow> usable deltas s \<Longrightarrow> reserve deltas e pid usr s = (r, s1) \<Longrightarrow> ok s1"
    and reserve_fail: "reserve deltas e pid usr s = (Inl x, s1) \<Longrightarrow> s1 = s"
    and reserve_rollback: "ok s \<Longrightarrow> usable deltas s \<Longrightarrow> reserve deltas e pid usr s = (Inr uuids, s1) \<Longrightarrow>
      \<exists>s2. rollback uuids pid usr s1 = (Inr (), s2) \<and> ok s2 \<and> held s2 = held s"
    and commit_ok: "ok s \<Longrightarrow> owned uuids pid usr s \<Longrightarrow>
      \<exists>s1. commit uuids pid usr s = (Inr (), s1) \<and> ok s1"
    and rollback_ok: "ok s \<Longrightarrow> owned uuids pid usr s \<Longrightarrow>
      \<exists>s1. rollback uuids pid usr s = (Inr (), s1) \<and> ok s1"
begin

text \<open>The client's pattern: reserve, do the work, then commit or roll back.\<close>

lemma reserve_work_rollback:
  assumes "ok s" "usable deltas s"
  shows "case engine_reserve reserve deltas e pid usr s of
     (Inl x, s1) \<Rightarrow> s1 = s
   | (Inr uuids, s1) \<Rightarrow> ok s1 \<and> ok (snd (engine_rollback rollback uuids pid usr s1)) \<and>
       held (snd (engine_rollback rollback uuids pid usr s1)) = held s"
proof -
  obtain r s1 where run: "reserve deltas e pid usr s = (r, s1)" by fastforce
  show ?thesis
  proof (cases r)
    case (Inl x)
    with run reserve_fail show ?thesis by (auto simp: engine_reserve_def)
  next
    case (Inr uuids)
    obtain s2 where "rollback uuids pid usr s1 = (Inr (), s2)" "ok s2" "held s2 = held s"
      using reserve_rollback [OF assms] run Inr by blast
    with Inr run reserve_ok [OF assms run] show ?thesis
      by (simp add: engine_reserve_def engine_rollback_def)
  qed
qed

lemma engine_end_ok:
  "ok s \<Longrightarrow> owned uuids pid usr s \<Longrightarrow>
   ok (snd (engine_commit commit uuids pid usr s)) \<and> ok (snd (engine_rollback rollback uuids pid usr s))"
  using commit_ok [of s uuids pid usr] rollback_ok [of s uuids pid usr]
  by (auto simp: engine_commit_def engine_rollback_def)

end

section \<open>Both drivers implement it\<close>

definition db_usable :: "driver_env \<Rightarrow> (string \<times> int) list \<Rightarrow> quota_db \<Rightarrow> bool" where
  "db_usable D deltas d \<longleftrightarrow> distinct (map (dfresh D) [0..<length deltas]) \<and>
     set (map (dfresh D) [0..<length deltas]) \<inter> r_uuid ` set (reservations d) = {}"

definition db_owned :: "driver_env \<Rightarrow> string list \<Rightarrow> string option \<Rightarrow> string option \<Rightarrow> quota_db \<Rightarrow> bool" where
  "db_owned D uuids pid usr d \<longleftrightarrow> (\<forall>r \<in> set (quota_reservations_query uuids d).
     r_project r = ctx_project_id (dctx D) pid \<and> r_user r = ctx_user_id (dctx D) usr)"

lemma quota_reserve_cases:
  assumes "quota_reserve now c fresh tot sync pq uq deltas t until age (Some p) (Some u) d = (r, d1)"
  shows "(\<exists>x. r = Inl x \<and> d1 = d) \<or> (\<exists>uuids. r = Inr uuids \<and>
    quota_reserve_body now fresh tot sync pq uq deltas t until age p u d = (Inr uuids, d1))"
  using assms by (auto simp: quota_reserve_def writer_def split: prod.splits sum.splits)

lemma db_reserve_cases:
  assumes "db_reserve D reg deltas e pid usr d = (r, d1)"
  shows "(\<exists>x. r = Inl x \<and> d1 = d) \<or> (\<exists>uuids q uq t. r = Inr uuids \<and>
    quota_reserve_body (dnow D) (dfresh D) (dtotal D)
      (sync_resource D reg (ctx_project_id (dctx D) pid) (ctx_user_id (dctx D) usr)) q uq deltas t
      (conf_until D) (conf_max_age D) (ctx_project_id (dctx D) pid) (ctx_user_id (dctx D) usr) d = (Inr uuids, d1))"
  using assms unfolding db_reserve_def Let_def
  by (auto split: sum.splits dest!: quota_reserve_cases)

lemma reserve_body_uuids:
  "quota_reserve_body now fresh tot sync pq uq deltas t until age p u d = (Inr uuids, d1) \<Longrightarrow> quota_ok d \<Longrightarrow>
   uuids = map fresh [0..<length deltas]"
  by (erule reserve_success)

lemma db_end_ok:
  assumes "quota_ok d" "db_owned D uuids pid usr d"
  shows "\<exists>d1. end_reservations (change_of b) (dnow D) uuids (Some (ctx_project_id (dctx D) pid))
      (Some (ctx_user_id (dctx D) usr)) d = (Inr (), d1) \<and> quota_ok d1"
  using end_reservations_result [OF assms(1), of uuids "ctx_project_id (dctx D) pid" "ctx_user_id (dctx D) usr" b "dnow D"]
    assms(2) flushed_ok [OF settle_ok [OF assms(1), of "\<lambda>r. r_uuid r \<in> set uuids" b]]
  by (auto simp: db_owned_def quota_reservations_query_def)

interpretation db_driver: quota_driver "db_reserve D reg" "db_commit D" "db_rollback D" quota_ok
  "db_usable D" "db_owned D" pending
proof (unfold_locales, goal_cases)
  case (1 s deltas e pid usr r s1)
  from db_reserve_cases [OF 1(3)] show ?case
  proof (elim disjE exE conjE)
    fix uuids q uq t
    assume run: "quota_reserve_body (dnow D) (dfresh D) (dtotal D)
      (sync_resource D reg (ctx_project_id (dctx D) pid) (ctx_user_id (dctx D) usr)) q uq deltas t
      (conf_until D) (conf_max_age D) (ctx_project_id (dctx D) pid) (ctx_user_id (dctx D) usr) s = (Inr uuids, s1)"
    from reserve_body_ok [OF run 1(1)] reserve_body_uuids [OF run 1(1)] 1(2) show ?thesis
      by (simp add: db_usable_def)
  qed (use 1(1) in simp)
next
  case (2 deltas e pid usr s x s1)
  from db_reserve_cases [OF 2] show ?case by auto
next
  case (3 s deltas e pid usr uuids s1)
  from db_reserve_cases [OF 3(3)] obtain q uq t where
    run: "quota_reserve_body (dnow D) (dfresh D) (dtotal D)
      (sync_resource D reg (ctx_project_id (dctx D) pid) (ctx_user_id (dctx D) usr)) q uq deltas t
      (conf_until D) (conf_max_age D) (ctx_project_id (dctx D) pid) (ctx_user_id (dctx D) usr) s = (Inr uuids, s1)"
    by auto
  from reserve_then_rollback [OF run 3(1), of "dnow D"] reserve_body_uuids [OF run 3(1)] 3(2) show ?case
    by (auto simp: db_usable_def db_rollback_def fun_eq_iff)
next
  case (4 s uuids pid usr)
  from db_end_ok [OF 4, of True] show ?case by (simp add: db_commit_def commit_rollback_change)
next
  case (5 s uuids pid usr)
  from db_end_ok [OF 5, of False] show ?case by (simp add: db_rollback_def commit_rollback_change)
qed

interpretation noop_driver: quota_driver noop_reserve noop_commit noop_rollback quota_ok
  "\<lambda>deltas d. True" "\<lambda>uuids pid usr d. True" pending
  by unfold_locales (simp_all add: noop_reserve_def noop_commit_def noop_rollback_def)

section \<open>Which limit applies\<close>

lemma dget_merge_missing:
  "dget (merge_missing uq pq) k = (case dget uq k of Some v \<Rightarrow> Some v | None \<Rightarrow> dget pq k)"
  unfolding merge_missing_def
proof (induction pq arbitrary: uq)
  case (Cons e pq)
  obtain a b where e: "e = (a, b)" by fastforce
  show ?case
  proof (cases "dget uq a")
    case None
    then have "\<not> dhas uq a" by (simp add: dhas_def)
    with None show ?thesis by (simp add: e Cons.IH split: option.splits)
  next
    case (Some v)
    then have "dhas uq a" by (simp add: dhas_def)
    with Some show ?thesis by (simp add: e Cons.IH split: option.splits)
  qed
qed (simp split: option.splits)

definition registry_ok :: "registry \<Rightarrow> bool" where
  "registry_ok reg \<longleftrightarrow> dict_ok reg \<and> (\<forall>(k, r) \<in> set reg. rname r = k)"

lemma registry_fold_get:
  assumes "registry_ok reg" "dget reg k = Some r"
  shows "dget (fold (\<lambda>(k, r) q. if p r then q else dset (rname r) (f r) q) reg q0) k =
    (if p r then dget q0 k else Some (f r))"
  using assms
proof (induction reg arbitrary: q0)
  case (Cons kr reg)
  obtain k1 r1 where kr: "kr = (k1, r1)" by fastforce
  have ok: "registry_ok reg" "rname r1 = k1" "k1 \<notin> fst ` set reg"
    using Cons.prems(1) by (auto simp: registry_ok_def kr)
  have absent: "dget (fold (\<lambda>(k, r) q. if p r then q else dset (rname r) (f r) q) rs q) k1 = dget q k1"
    if "registry_ok rs" "k1 \<notin> fst ` set rs" for rs q
    using that
  proof (induction rs arbitrary: q)
    case (Cons e rs)
    then show ?case by (cases e) (auto simp: registry_ok_def)
  qed simp
  show ?case
  proof (cases "k = k1")
    case True
    with Cons.prems(2) have "r = r1" by (simp add: kr)
    with True show ?thesis by (simp add: kr absent [OF ok(1,3)] ok(2))
  next
    case False
    with Cons.prems(2) have "dget reg k = Some r" by (simp add: kr)
    from Cons.IH [OF ok(1) this] False ok(2) show ?thesis by (simp add: kr)
  qed
qed simp

lemma get_defaults_get:
  "registry_ok reg \<Longrightarrow> dget reg k = Some r \<Longrightarrow>
   dget (get_defaults reg d) k = Some (dgetd (quota_class_get_default d) k (rdefault r))"
proof -
  assume a: "registry_ok reg" "dget reg k = Some r"
  from a have "rname r = k" by (auto simp: registry_ok_def dest: map_of_SomeD)
  with registry_fold_get [OF a, of "\<lambda>_. False" "\<lambda>r. dgetd (quota_class_get_default d) (rname r) (rdefault r)" "[]"]
  show ?thesis by (simp add: get_defaults_def)
qed

definition class_limit :: "qctx \<Rightarrow> string \<Rightarrow> string option \<Rightarrow> quota_db \<Rightarrow> string \<Rightarrow> int option" where
  "class_limit c project quota_class d k =
     (let cls = (if project = ctx_project c then ctx_class c else quota_class)
      in if given cls then dget (quota_class_get_all_by_name (the cls) d) k else None)"

text \<open>The first of the given limits, in order, and the default at the end.\<close>

fun first_limit :: "int option list \<Rightarrow> int \<Rightarrow> int" where
  "first_limit [] dflt = dflt"
| "first_limit (Some v # xs) dflt = v"
| "first_limit (None # xs) dflt = first_limit xs dflt"

lemma process_quotas_limit:
  assumes "registry_ok reg" "dget reg k = Some r"
    and "process_quotas c reg project quotas cls True us False d = Inr m"
  shows "\<exists>i. dget m k = Some i \<and> limit i = first_limit [dget quotas k, class_limit c project cls d k,
    dget (quota_class_get_default d) k] (rdefault r)"
proof -
  have rn: "rname r = k" using assms(1,2) by (auto simp: registry_ok_def dest: map_of_SomeD)
  have "dget m k = Some (process_resource quotas
      (let cl = (if project = ctx_project c then ctx_class c else cls)
       in if given cl then quota_class_get_all_by_name (the cl) d else []) (get_defaults reg d) us False r)"
    using assms(3) registry_fold_get [OF assms(1,2), of "\<lambda>_. False" _ "[]"]
    by (auto simp: process_quotas_def Let_def)
  then show ?thesis
    by (auto simp: process_resource_def rn class_limit_def Let_def dgetd_def
        get_defaults_get [OF assms(1,2)] split: option.splits)
qed

section \<open>Properties\<close>

text \<open>
  The limit that applies to a user. For every registered resource the database driver
  reports the user's own limit in the project, else the project's, else that of the quota
  class (the context's for the context's own project), else that of the default class,
  else the configured default.
\<close>

theorem user_limit_precedence:
  assumes "registry_ok reg" "dget reg k = Some r"
    and "get_user_quotas c reg project user cls True with_usages None None d = Inr m"
  shows "\<exists>i uq. quota_get_all_by_project_and_user c project user d = Inr uq \<and> dget m k = Some i \<and>
    limit i = first_limit [dget uq k, dget (quota_get_all_by_project project d) k,
      class_limit c project cls d k, dget (quota_class_get_default d) k] (rdefault r)"
proof -
  from assms(3) obtain uq where uq: "quota_get_all_by_project_and_user c project user d = Inr uq"
    and m: "process_quotas c reg project (merge_missing uq (quota_get_all_by_project project d)) cls True
      (if with_usages then Some (quota_usage_get_all project (Some user) d) else None) False d = Inr m"
    by (auto simp: get_user_quotas_def result_simps)
  from process_quotas_limit [OF assms(1,2) m] uq show ?thesis
    by (auto simp: dget_merge_missing split: option.splits)
qed

definition sample_registry :: registry where
  "sample_registry = register_resources (nova_resources (\<lambda>f. 10)) []"

definition limits_db :: quota_db where
  "limits_db = empty_quota\<lparr>
     proj_limits := [\<lparr>l_project = ''p'', l_user = None, l_resource = ''cores'', hard_limit = 5, l_live = True\<rparr>],
     user_limits := [\<lparr>l_project = ''p'', l_user = Some ''a'', l_resource = ''cores'', hard_limit = 4, l_live = True\<rparr>,
       \<lparr>l_project = ''p'', l_user = Some ''b'', l_resource = ''cores'', hard_limit = 4, l_live = True\<rparr>]\<rparr>"

theorem user_limit_precedence_witness:
  "\<exists>m i. get_user_quotas sample_ctx sample_registry ''p'' ''a'' None True False None None limits_db = Inr m \<and>
    dget m ''cores'' = Some i \<and> limit i = 4"
proof -
  let ?run = "get_user_quotas sample_ctx sample_registry ''p'' ''a'' None True False None None limits_db"
  have reg: "registry_ok sample_registry" unfolding registry_ok_def by code_simp
  have r: "dget sample_registry ''cores'' = Some \<lparr>rname = ''cores'', rkind = Reservable ''_sync_instances'', rdefault = 10\<rparr>"
    by code_simp
  have run: "?run = Inr (projr ?run)" by code_simp
  have "quota_get_all_by_project_and_user sample_ctx ''p'' ''a'' limits_db = Inr [(''cores'', 4)]" by code_simp
  with user_limit_precedence [OF reg r run] run show ?thesis by auto
qed

text \<open>
  Through the engine and the database driver, a reserve that fails changes nothing, and
  a reserve followed by a rollback leaves the tables consistent and every row holding what
  it held before; the rollback never raises.
\<close>

theorem engine_reserve_rollback:
  assumes "quota_ok d" "db_usable D deltas d"
  shows "case engine_reserve (db_reserve D reg) deltas e pid usr d of
     (Inl x, d1) \<Rightarrow> d1 = d
   | (Inr uuids, d1) \<Rightarrow> quota_ok d1 \<and> quota_ok (snd (engine_rollback (db_rollback D) uuids pid usr d1)) \<and>
       pending (snd (engine_rollback (db_rollback D) uuids pid usr d1)) = pending d"
  by (rule db_driver.reserve_work_rollback [OF assms])

definition sample_driver :: driver_env where
  "sample_driver = \<lparr>dctx = sample_ctx, dnow = 100, conf_expire = 60, conf_until = None, conf_max_age = 0,
     dfresh = sample_fresh, dtotal = total_of, dcount = (\<lambda>f p u. Inr [(''cores'', 3)])\<rparr>"

theorem engine_reserve_rollback_witness:
  "\<exists>d1. engine_reserve (db_reserve sample_driver sample_registry) [(''cores'', 2)] ENone None None empty_quota =
     (Inr [[]], d1) \<and>
     pending (snd (engine_rollback (db_rollback sample_driver) [[]] None None d1)) = pending empty_quota"
proof -
  let ?run = "engine_reserve (db_reserve sample_driver sample_registry) [(''cores'', 2)] ENone None None empty_quota"
  have run: "?run = (Inr [[]], snd ?run)" by (rule prod_eqI) (simp_all, code_simp)
  have "db_usable sample_driver [(''cores'', 2)] empty_quota"
    by (simp add: db_usable_def sample_driver_def empty_quota_def)
  from engine_reserve_rollback [where e = ENone and pid = None and usr = None, OF empty_quota_ok this, of sample_registry]
    run show ?thesis
    by (auto split: prod.splits)
qed

text \<open>
  A user's settable maximum is unlimited when the project is over-committed. With a
  project limit of 5 cores and two users who were given 4 each, what remains of the project
  is -3; the driver takes any value below zero for unlimited and reports -1 as the maximum
  either user may be given.
\<close>

theorem settable_overcommitted:
  "(case get_project_quotas sample_ctx sample_registry ''p'' None True True True None limits_db of
      Inr m \<Rightarrow> map_option remains (dget m ''cores'') | Inl e \<Rightarrow> None) = Some (Some (-3)) \<and>
   (case get_settable_quotas sample_ctx sample_registry ''p'' (Some ''a'') limits_db of
      Inr m \<Rightarrow> dget m ''cores'' | Inl e \<Rightarrow> None) = Some (0, -1)"
  by code_simp

text \<open>
  A limit check that passes has checked everything: each value belongs to a resource
  with simple limits, is not negative, and is within the project's and the user's limit
  unless that limit is negative.
\<close>

theorem limit_check_sound:
  assumes "limit_check c reg vals pid usr d = Inr ()"
  shows "\<exists>q uq. get_quotas c reg (map fst vals) False (ctx_project_id c pid) None
      (quota_get_all_by_project (ctx_project_id c pid) d) d = Inr q \<and>
    get_quotas c reg (map fst vals) False (ctx_project_id c pid) (Some (ctx_user_id c usr))
      (quota_get_all_by_project (ctx_project_id c pid) d) d = Inr uq \<and>
    (\<forall>(k, v) \<in> set vals. 0 \<le> v \<and> (\<exists>r. dget reg k = Some r \<and> valid_method (rkind r) = Some ''check'') \<and>
       (dgetd q k 0 < 0 \<or> v \<le> dgetd q k 0) \<and> (dgetd uq k 0 < 0 \<or> v \<le> dgetd uq k 0))"
proof -
  have valid: "valid_method_call_check_resources reg names meth = Inr () \<Longrightarrow>
      \<forall>n \<in> set names. \<exists>r. dget reg n = Some r \<and> valid_method (rkind r) = Some meth" for names meth
    unfolding valid_method_call_check_resources_def
    by (induction names)
      (auto simp: result_simps valid_method_call_check_resource_def split: option.splits if_splits)
  from assms obtain q uq where c: "valid_method_call_check_resources reg (map fst vals) ''check'' = Inr ()"
    "map fst (filter (\<lambda>(k, v). v < 0) vals) = []"
    "get_quotas c reg (map fst vals) False (ctx_project_id c pid) None
      (quota_get_all_by_project (ctx_project_id c pid) d) d = Inr q"
    "get_quotas c reg (map fst vals) False (ctx_project_id c pid) (Some (ctx_user_id c usr))
      (quota_get_all_by_project (ctx_project_id c pid) d) d = Inr uq"
    "map fst (filter (\<lambda>(k, v). over_limit (dgetd q k 0) v \<or> over_limit (dgetd uq k 0) v) vals) = []"
    by (auto simp: limit_check_def result_simps Let_def split: if_splits)
  have "0 \<le> v" "dgetd q k 0 < 0 \<or> v \<le> dgetd q k 0" "dgetd uq k 0 < 0 \<or> v \<le> dgetd uq k 0"
    "\<exists>r. dget reg k = Some r \<and> valid_method (rkind r) = Some ''check''" if "(k, v) \<in> set vals" for k v
    using that c(2,5) valid [OF c(1)] by (force simp: filter_empty_conv over_limit_def)+
  with c(3,4) show ?thesis by blast
qed

theorem limit_check_sound_witness:
  "limit_check sample_ctx sample_registry [(''metadata_items'', 7)] None None limits_db = Inr () \<and>
   valid_method (rkind (the (dget sample_registry ''metadata_items''))) = Some ''check''"
proof -
  have run: "limit_check sample_ctx sample_registry [(''metadata_items'', 7)] None None limits_db = Inr ()"
    by code_simp
  from limit_check_sound [OF run] run show ?thesis by auto
qed

end
