(* ===== verification/PyStr.thy ===== *)
theory PyStr
  imports Prelude "HOL-Library.Sublist"
begin

text \<open>
  The string methods of the Python standard library that the modelled code calls, on
  \<open>string\<close> (one \<open>char\<close> per code point up to 255): stripping, splitting, joining,
  prefix and suffix tests, case mapping, and the decimal conversions \<^verbatim>\<open>int(s)\<close>
  and \<^verbatim>\<open>str(n)\<close>. The lemmas are the laws the components rely on: splitting and
  joining are inverse, the parts hold no separator, printing and parsing an integer are
  inverse.
\<close>

section \<open>Characters\<close>

definition is_digit :: "char \<Rightarrow> bool" where
  "is_digit c \<longleftrightarrow> (let n = (of_char c :: nat) in 48 \<le> n \<and> n \<le> 57)"

definition digit_val :: "char \<Rightarrow> nat" where
  "digit_val c = of_char c - 48"

definition digit_char :: "nat \<Rightarrow> char" where
  "digit_char d = char_of (d + 48)"

text \<open>White space of \<^verbatim>\<open>unicode.strip\<close> within Latin-1.\<close>

definition is_space :: "char \<Rightarrow> bool" where
  "is_space c \<longleftrightarrow> (let n = (of_char c :: nat) in
     9 \<le> n \<and> n \<le> 13 \<or> 28 \<le> n \<and> n \<le> 32 \<or> n = 133 \<or> n = 160)"

definition is_upper :: "char \<Rightarrow> bool" where
  "is_upper c \<longleftrightarrow> (let n = (of_char c :: nat) in 65 \<le> n \<and> n \<le> 90)"

definition lower_char :: "char \<Rightarrow> char" where
  "lower_char c = (if is_upper c then char_of ((of_char c :: nat) + 32) else c)"

definition lower :: "string \<Rightarrow> string" where
  "lower s = map lower_char s"

lemma digit_char_props:
  assumes "d < 10"
  shows "is_digit (digit_char d)" "digit_val (digit_char d) = d"
    "\<not> is_space (digit_char d)" "digit_char d \<noteq> CHR ''-''" "digit_char d \<noteq> CHR ''+''"
proof -
  have n: "(of_char (digit_char d) :: nat) = d + 48"
    using assms by (simp add: digit_char_def of_char_of take_bit_eq_mod)
  then show "is_digit (digit_char d)" "digit_val (digit_char d) = d"
      "\<not> is_space (digit_char d)"
    using assms by (simp_all add: is_digit_def digit_val_def is_space_def)
  show "digit_char d \<noteq> CHR ''-''" "digit_char d \<noteq> CHR ''+''"
    using n by auto
qed

section \<open>Stripping\<close>

definition strip_by :: "(char \<Rightarrow> bool) \<Rightarrow> string \<Rightarrow> string" where
  "strip_by p s = rev (dropWhile p (rev (dropWhile p s)))"

abbreviation strip :: "string \<Rightarrow> string" where
  "strip \<equiv> strip_by is_space"

abbreviation strip_char :: "char \<Rightarrow> string \<Rightarrow> string" where
  "strip_char c \<equiv> strip_by (\<lambda>x. x = c)"

definition rstrip_char :: "char \<Rightarrow> string \<Rightarrow> string" where
  "rstrip_char c s = rev (dropWhile (\<lambda>x. x = c) (rev s))"

lemma strip_by_id: "list_all (\<lambda>c. \<not> p c) s \<Longrightarrow> strip_by p s = s"
proof -
  assume a: "list_all (\<lambda>c. \<not> p c) s"
  then have 1: "dropWhile p s = s" by (cases s) auto
  from a have "list_all (\<lambda>c. \<not> p c) (rev s)" by simp
  then have "dropWhile p (rev s) = rev s" by (cases "rev s") auto
  with 1 show ?thesis by (simp add: strip_by_def)
qed

lemma strip_by_ends:
  "strip_by p s \<noteq> [] \<Longrightarrow> \<not> p (hd (strip_by p s)) \<and> \<not> p (last (strip_by p s))"
proof -
  let ?u = "dropWhile p s" and ?r = "dropWhile p (rev (dropWhile p s))"
  assume "strip_by p s \<noteq> []"
  then have ne: "?r \<noteq> []" by (simp add: strip_by_def)
  then have l: "\<not> p (hd ?r)" by (rule hd_dropWhile)
  have u: "?u \<noteq> []" using ne by (metis dropWhile.simps(1) rev.simps(1))
  then have "\<not> p (hd ?u)" by (rule hd_dropWhile)
  moreover have "last ?r = hd ?u"
  proof -
    have "last (rev ?u) = last ?r" using ne by (metis append_is_Nil_conv last_appendR takeWhile_dropWhile_id)
    with u show ?thesis by (simp add: last_rev)
  qed
  ultimately show ?thesis using l ne by (simp add: strip_by_def hd_rev last_rev)
qed

section \<open>Splitting and joining\<close>

text \<open>\<^verbatim>\<open>s.split(c)\<close> for a one-character separator: at least one part.\<close>

fun split_on :: "char \<Rightarrow> string \<Rightarrow> string list" where
  "split_on c [] = [[]]"
| "split_on c (x # xs) =
     (if x = c then [] # split_on c xs
      else (case split_on c xs of [] \<Rightarrow> [[x]] | p # ps \<Rightarrow> (x # p) # ps))"

fun join_with :: "string \<Rightarrow> string list \<Rightarrow> string" where
  "join_with sep [] = []"
| "join_with sep [p] = p"
| "join_with sep (p # q # ps) = p @ sep @ join_with sep (q # ps)"

text \<open>\<^verbatim>\<open>s.split(c, 1)\<close>: cut at the first separator, when there is one.\<close>

definition split_first :: "char \<Rightarrow> string \<Rightarrow> (string \<times> string) option" where
  "split_first c s =
     (if c \<in> set s then Some (takeWhile (\<lambda>x. x \<noteq> c) s, tl (dropWhile (\<lambda>x. x \<noteq> c) s))
      else None)"

text \<open>\<^verbatim>\<open>s.rsplit(c, 1)\<close>: cut at the last separator.\<close>

definition split_last :: "char \<Rightarrow> string \<Rightarrow> (string \<times> string) option" where
  "split_last c s =
     (case split_first c (rev s) of None \<Rightarrow> None | Some (b, a) \<Rightarrow> Some (rev a, rev b))"

definition starts_with :: "string \<Rightarrow> string \<Rightarrow> bool" where
  "starts_with p s \<longleftrightarrow> take (length p) s = p"

definition ends_with :: "string \<Rightarrow> string \<Rightarrow> bool" where
  "ends_with p s \<longleftrightarrow> starts_with (rev p) (rev s)"

lemma split_on_ne [simp]: "split_on c s \<noteq> []"
  by (induction s) (auto split: list.splits)

lemma join_split: "join_with [c] (split_on c s) = s"
proof (induction s)
  case (Cons x xs)
  obtain p ps where "split_on c xs = p # ps" by (cases "split_on c xs") auto
  with Cons show ?case by (cases ps) auto
qed simp

lemma split_on_no_sep: "p \<in> set (split_on c s) \<Longrightarrow> c \<notin> set p"
  by (induction s arbitrary: p) (auto split: list.splits if_splits)

lemma split_on_covers: "x \<in> set s \<Longrightarrow> x = c \<or> (\<exists>p \<in> set (split_on c s). x \<in> set p)"
  by (induction s) (auto split: list.splits)

lemma split_on_single: "c \<notin> set s \<Longrightarrow> split_on c s = [s]"
  by (induction s) auto

lemma split_on_append: "c \<notin> set p \<Longrightarrow> split_on c (p @ c # s) = p # split_on c s"
  by (induction p) auto

lemma split_join:
  "ps \<noteq> [] \<Longrightarrow> list_all (\<lambda>p. c \<notin> set p) ps \<Longrightarrow> split_on c (join_with [c] ps) = ps"
proof (induction ps)
  case (Cons p qs)
  then show ?case by (cases qs) (auto simp: split_on_single split_on_append)
qed simp

lemma length_split_on: "length (split_on c s) = Suc (count_list s c)"
  by (induction s) (auto split: list.splits)

lemma split_first_Some:
  "split_first c s = Some (a, b) \<longleftrightarrow> s = a @ c # b \<and> c \<notin> set a"
proof
  assume "split_first c s = Some (a, b)"
  then have c: "c \<in> set s" and ab: "a = takeWhile (\<lambda>x. x \<noteq> c) s"
    "b = tl (dropWhile (\<lambda>x. x \<noteq> c) s)"
    by (auto simp: split_first_def split: if_splits)
  obtain d where d: "dropWhile (\<lambda>x. x \<noteq> c) s = c # d"
    using c by (metis (mono_tags, lifting) dropWhile_eq_Nil_conv hd_dropWhile list.collapse)
  have "s = a @ dropWhile (\<lambda>x. x \<noteq> c) s" by (simp add: ab)
  with d ab show "s = a @ c # b \<and> c \<notin> set a" by (auto dest: set_takeWhileD)
next
  assume "s = a @ c # b \<and> c \<notin> set a"
  then show "split_first c s = Some (a, b)"
    by (auto simp: split_first_def takeWhile_append dropWhile_append)
qed

lemma split_first_None: "split_first c s = None \<longleftrightarrow> c \<notin> set s"
  by (simp add: split_first_def)

lemma split_last_Some:
  "split_last c s = Some (a, b) \<longleftrightarrow> s = a @ c # b \<and> c \<notin> set b"
proof -
  have "split_last c s = Some (a, b) \<longleftrightarrow> split_first c (rev s) = Some (rev b, rev a)"
    by (auto simp: split_last_def split: option.splits)
  also have "\<dots> \<longleftrightarrow> rev s = rev (a @ c # b) \<and> c \<notin> set b"
    by (simp add: split_first_Some)
  finally show ?thesis by (simp only: rev_is_rev_conv)
qed

lemma split_last_None: "split_last c s = None \<longleftrightarrow> c \<notin> set s"
  using split_first_None [of c "rev s"] by (auto simp: split_last_def split: option.splits)

lemma starts_with_iff: "starts_with p s \<longleftrightarrow> (\<exists>t. s = p @ t)"
  unfolding starts_with_def by (metis append_eq_conv_conj)

lemma ends_with_iff: "ends_with p s \<longleftrightarrow> (\<exists>t. s = t @ p)"
  unfolding ends_with_def starts_with_iff by (metis rev_append rev_rev_ident)

section \<open>Integers\<close>

text \<open>\<^verbatim>\<open>int(s)\<close>: white space around, one optional sign, then digits.\<close>

fun digits_val :: "nat \<Rightarrow> string \<Rightarrow> nat option" where
  "digits_val n [] = Some n"
| "digits_val n (c # cs) = (if is_digit c then digits_val (10 * n + digit_val c) cs else None)"

definition nat_of_string :: "string \<Rightarrow> nat option" where
  "nat_of_string s = (if s = [] then None else digits_val 0 s)"

definition int_of_string :: "string \<Rightarrow> int option" where
  "int_of_string s = (case strip s of
       [] \<Rightarrow> None
     | c # cs \<Rightarrow>
         (if c = CHR ''-'' then map_option (\<lambda>n. - int n) (nat_of_string cs)
          else if c = CHR ''+'' then map_option int (nat_of_string cs)
          else map_option int (nat_of_string (c # cs))))"

fun string_of_nat :: "nat \<Rightarrow> string" where
  "string_of_nat n =
     (if n < 10 then [digit_char n] else string_of_nat (n div 10) @ [digit_char (n mod 10)])"

declare string_of_nat.simps [simp del]

definition string_of_int :: "int \<Rightarrow> string" where
  "string_of_int i = (if i < 0 then CHR ''-'' # string_of_nat (nat (- i)) else string_of_nat (nat i))"

lemma digits_val_append:
  "digits_val n (s @ t) = (case digits_val n s of None \<Rightarrow> None | Some m \<Rightarrow> digits_val m t)"
  by (induction n s rule: digits_val.induct) auto

lemma digits_val_string_of_nat: "digits_val 0 (string_of_nat n) = Some n"
proof (induction n rule: string_of_nat.induct)
  case (1 n)
  show ?case
  proof (cases "n < 10")
    case True
    then show ?thesis by (subst string_of_nat.simps) (simp add: digit_char_props)
  next
    case False
    with 1 have "digits_val 0 (string_of_nat (n div 10)) = Some (n div 10)" by simp
    with False show ?thesis
      by (subst string_of_nat.simps) (simp add: digits_val_append digit_char_props)
  qed
qed

lemma string_of_nat_ne [simp]: "string_of_nat n \<noteq> []"
  by (subst string_of_nat.simps) simp

lemma string_of_nat_digits: "list_all is_digit (string_of_nat n)"
proof (induction n rule: string_of_nat.induct)
  case (1 n)
  then show ?case
    by (cases "n < 10") (subst string_of_nat.simps, simp add: digit_char_props)+
qed

lemma is_digit_not_space: "is_digit c \<Longrightarrow> \<not> is_space c \<and> c \<noteq> CHR ''-'' \<and> c \<noteq> CHR ''+''"
  by (auto simp: is_digit_def is_space_def Let_def)

lemma string_of_nat_no_space: "list_all (\<lambda>c. \<not> is_space c) (string_of_nat n)"
  using string_of_nat_digits [of n] by (auto simp: list_all_iff dest: is_digit_not_space)

lemma nat_of_string_of_nat: "nat_of_string (string_of_nat n) = Some n"
  by (simp add: nat_of_string_def digits_val_string_of_nat)

lemma int_of_string_of_nat: "int_of_string (string_of_nat n) = Some (int n)"
proof -
  obtain c cs where s: "string_of_nat n = c # cs" by (cases "string_of_nat n") auto
  with string_of_nat_digits [of n] have "is_digit c" by simp
  then show ?thesis
    using nat_of_string_of_nat [of n] string_of_nat_no_space [of n] s
    by (simp add: int_of_string_def strip_by_id is_digit_not_space)
qed

lemma int_of_string_of_int: "int_of_string (string_of_int i) = Some i"
proof (cases "i < 0")
  case True
  have "list_all (\<lambda>c. \<not> is_space c) (CHR ''-'' # string_of_nat (nat (- i)))"
    using string_of_nat_no_space by (simp add: is_space_def)
  with True show ?thesis
    by (simp add: int_of_string_def string_of_int_def strip_by_id nat_of_string_of_nat)
next
  case False
  then show ?thesis by (simp add: string_of_int_def int_of_string_of_nat)
qed

lemma string_of_nat_hd_zero: "hd (string_of_nat n) = CHR ''0'' \<Longrightarrow> n = 0"
proof (induction n rule: string_of_nat.induct)
  case (1 n)
  show ?case
  proof (cases "n < 10")
    case True
    with "1.prems" have "digit_val (digit_char n) = digit_val CHR ''0''"
      by (subst (asm) string_of_nat.simps) simp
    with True show ?thesis by (simp add: digit_char_props) (simp add: digit_val_def)
  next
    case False
    with "1.prems" have "hd (string_of_nat (n div 10)) = CHR ''0''"
      by (subst (asm) string_of_nat.simps) simp
    with 1 False show ?thesis by simp
  qed
qed

end
