(* ===== verification/VObjects.thy ===== *)
theory VObjects
  imports PyStr
begin

text \<open>
  \<^verbatim>\<open>oslo_versionedobjects/base.py\<close> and \<^verbatim>\<open>fields.py\<close>: a versioned object is its set
  attributes and the names of the changed ones; a class is its table of fields. Field
  coercion, the property getter and setter, change tracking, and the change dictionary a
  save sends to the database.

  Fields that hold other objects, the primitive form of an object and its older versions
  are in \<open>WireObjects\<close>. What the code gets from outside are parameters, in the record
  \<open>ovo_env\<close>: the parsers of time texts (the \<^verbatim>\<open>iso8601\<close> package and \<^verbatim>\<open>strptime\<close>; the
  result is the wall-clock text and whether it has a zone) and the text \<^verbatim>\<open>str(x)\<close> of a
  value that is not a string, number or boolean.
\<close>

section \<open>Field types and coercion\<close>

record ovo_env =
  iso_parse :: "string \<Rightarrow> (string \<times> bool) option"
  strtime_parse :: "string \<Rightarrow> string option"
  obj_str :: "pyval \<Rightarrow> string"

datatype field_type =
    FString
  | FEnum "string list"
  | FUUID
  | FInteger
  | FNonNegativeInteger
  | FBoolean
  | FMACAddress
  | FDateTime bool

record field =
  ftype :: field_type
  nullable :: bool
  fdefault :: "pyval option"
  read_only :: bool

definition py_bool_str :: "bool \<Rightarrow> string" where
  "py_bool_str b = (if b then ''True'' else ''False'')"

fun py_str :: "ovo_env \<Rightarrow> pyval \<Rightarrow> string" where
  "py_str E (PStr s) = s"
| "py_str E (PInt n) = string_of_int n"
| "py_str E (PBool b) = py_bool_str b"
| "py_str E v = obj_str E v"

text \<open>\<^verbatim>\<open>int(value)\<close>; a boolean is an integer in Python.\<close>

fun py_int :: "pyval \<Rightarrow> int result" where
  "py_int (PInt n) = Inr n"
| "py_int (PBool b) = Inr (if b then 1 else 0)"
| "py_int (PStr s) = (case int_of_string s of None \<Rightarrow> Inl ValueError | Some n \<Rightarrow> Inr n)"
| "py_int _ = Inl TypeError"

fun string_coerce :: "ovo_env \<Rightarrow> pyval \<Rightarrow> pyval result" where
  "string_coerce E (PInt n) = Inr (PStr (string_of_int n))"
| "string_coerce E (PBool b) = Inr (PStr (py_bool_str b))"
| "string_coerce E (PStr s) = Inr (PStr s)"
| "string_coerce E (PDate t z) = Inr (PStr (obj_str E (PDate t z)))"
| "string_coerce E _ = Inl ValueError"

definition is_lower_hex :: "char \<Rightarrow> bool" where
  "is_lower_hex c \<longleftrightarrow> is_digit c \<or> (let n = (of_char c :: nat) in 97 \<le> n \<and> n \<le> 102)"

definition mac_match :: "string \<Rightarrow> bool" where
  "mac_match s \<longleftrightarrow>
     (let ps = split_on CHR '':'' s in
      length ps = 6 \<and> list_all (\<lambda>p. length p = 2 \<and> list_all is_lower_hex p) ps)"

fun mac_coerce :: "pyval \<Rightarrow> pyval result" where
  "mac_coerce (PStr s) =
     (let l = map (\<lambda>c. if c = CHR ''-'' then CHR '':'' else c) (lower s)
      in if mac_match l then Inr (PStr l) else Inl ValueError)"
| "mac_coerce _ = Inl ValueError"

fun datetime_coerce :: "ovo_env \<Rightarrow> bool \<Rightarrow> pyval \<Rightarrow> pyval result" where
  "datetime_coerce E aware (PDate t z) = Inr (PDate t aware)"
| "datetime_coerce E aware (PStr s) =
     (case iso_parse E s of None \<Rightarrow> Inl ValueError | Some (t, z) \<Rightarrow> Inr (PDate t aware))"
| "datetime_coerce E aware _ = Inl ValueError"

definition enum_coerce :: "ovo_env \<Rightarrow> string list \<Rightarrow> pyval \<Rightarrow> pyval result" where
  "enum_coerce E vs v = (if v \<in> PStr ` set vs then string_coerce E v else Inl ValueError)"

definition uuid_coerce :: "ovo_env \<Rightarrow> pyval \<Rightarrow> pyval result" where
  "uuid_coerce E v = Inr (PStr (py_str E v))"

definition integer_coerce :: "pyval \<Rightarrow> pyval result" where
  "integer_coerce v = bind_r (py_int v) (\<lambda>n. Inr (PInt n))"

definition nonnegative_coerce :: "pyval \<Rightarrow> pyval result" where
  "nonnegative_coerce v =
     bind_r (py_int v) (\<lambda>n. if n < 0 then Inl ValueError else Inr (PInt n))"

definition boolean_coerce :: "pyval \<Rightarrow> pyval result" where
  "boolean_coerce v = Inr (PBool (truthy v))"

lemmas coerce_defs = enum_coerce_def uuid_coerce_def integer_coerce_def nonnegative_coerce_def
  boolean_coerce_def

fun type_coerce :: "ovo_env \<Rightarrow> field_type \<Rightarrow> pyval \<Rightarrow> pyval result" where
  "type_coerce E FString v = string_coerce E v"
| "type_coerce E (FEnum vs) v = enum_coerce E vs v"
| "type_coerce E FUUID v = uuid_coerce E v"
| "type_coerce E FInteger v = integer_coerce v"
| "type_coerce E FNonNegativeInteger v = nonnegative_coerce v"
| "type_coerce E FBoolean v = boolean_coerce v"
| "type_coerce E FMACAddress v = mac_coerce v"
| "type_coerce E (FDateTime aware) v = datetime_coerce E aware v"

definition field_null :: "ovo_env \<Rightarrow> field \<Rightarrow> pyval result" where
  "field_null E f =
     (if nullable f then Inr PNone
      else (case fdefault f of Some d \<Rightarrow> type_coerce E (ftype f) d | None \<Rightarrow> Inl ValueError))"

definition field_coerce :: "ovo_env \<Rightarrow> field \<Rightarrow> pyval \<Rightarrow> pyval result" where
  "field_coerce E f v = (if v = PNone then field_null E f else type_coerce E (ftype f) v)"

text \<open>
  Well-typed values of a field: what an attribute of this field can hold.
\<close>

fun has_type :: "field_type \<Rightarrow> pyval \<Rightarrow> bool" where
  "has_type FString (PStr s) = True"
| "has_type (FEnum vs) (PStr s) = (s \<in> set vs)"
| "has_type FUUID (PStr s) = True"
| "has_type FInteger (PInt n) = True"
| "has_type FNonNegativeInteger (PInt n) = (0 \<le> n)"
| "has_type FBoolean (PBool b) = True"
| "has_type FMACAddress (PStr s) = mac_match s"
| "has_type (FDateTime aware) (PDate t z) = (z = aware)"
| "has_type _ _ = False"

definition field_value_ok :: "field \<Rightarrow> pyval \<Rightarrow> bool" where
  "field_value_ok f v \<longleftrightarrow> (v = PNone \<and> nullable f) \<or> has_type (ftype f) v"

lemma string_coerce_typed: "string_coerce E v = Inr w \<Longrightarrow> \<exists>s. w = PStr s"
  by (cases v) auto

lemma mac_coerce_typed: "mac_coerce v = Inr w \<Longrightarrow> \<exists>s. w = PStr s \<and> mac_match s"
  by (cases v) (auto simp: Let_def split: if_splits)

lemma datetime_coerce_typed: "datetime_coerce E a v = Inr w \<Longrightarrow> \<exists>t. w = PDate t a"
  by (cases v) (auto split: option.splits)

lemma type_coerce_typed: "type_coerce E t v = Inr w \<Longrightarrow> has_type t w"
  by (cases t) (auto simp: result_simps coerce_defs split: if_splits
      dest: string_coerce_typed mac_coerce_typed datetime_coerce_typed)

lemma field_coerce_ok: "field_coerce E f v = Inr w \<Longrightarrow> field_value_ok f w"
  by (auto simp: field_coerce_def field_null_def field_value_ok_def
      dest: type_coerce_typed split: if_splits option.splits)

text \<open>Coercing a well-typed value again does not change it.\<close>

lemma mac_match_lower: 
  assumes "mac_match s"
  shows "map (\<lambda>c. if c = CHR ''-'' then CHR '':'' else c) (lower s) = s"
proof -
  have hex: "\<And>c. is_lower_hex c \<Longrightarrow> lower_char c = c \<and> c \<noteq> CHR ''-''"
    by (auto simp: is_lower_hex_def is_digit_def lower_char_def is_upper_def Let_def)
  have colon: "lower_char CHR '':'' = CHR '':''" by (simp add: lower_char_def is_upper_def)
  have set_s: "\<And>c. c \<in> set s \<Longrightarrow> is_lower_hex c \<or> c = CHR '':''"
  proof -
    fix c assume "c \<in> set s"
    then have "c = CHR '':'' \<or> (\<exists>p \<in> set (split_on CHR '':'' s). c \<in> set p)"
      by (rule split_on_covers)
    then show "is_lower_hex c \<or> c = CHR '':''"
      using assms by (auto simp: mac_match_def Let_def list_all_iff)
  qed
  have "(if lower_char c = CHR ''-'' then CHR '':'' else lower_char c) = c" if "c \<in> set s" for c
    using set_s [OF that] hex [of c] colon by auto
  then show ?thesis unfolding lower_def by (simp add: map_idI)
qed

lemma mac_coerce_idem: "mac_match s \<Longrightarrow> mac_coerce (PStr s) = Inr (PStr s)"
  by (simp add: mac_match_lower)

lemma type_coerce_idem: "has_type t v \<Longrightarrow> v \<noteq> PNone \<and> type_coerce E t v = Inr v"
  by (cases t; cases v) (simp_all add: mac_coerce_idem image_iff coerce_defs del: mac_coerce.simps)

lemma field_coerce_idem: "field_value_ok f v \<Longrightarrow> field_coerce E f v = Inr v"
  by (auto simp: field_value_ok_def field_coerce_def field_null_def dest: type_coerce_idem)

section \<open>Objects\<close>

type_synonym schema = "(string \<times> field) list"

record vobj =
  attrs :: pydict
  changed :: "string list"
  has_context :: bool

definition new_vobj :: "bool \<Rightarrow> vobj" where
  "new_vobj ctxt = \<lparr>attrs = [], changed = [], has_context = ctxt\<rparr>"

definition obj_attr_is_set :: "schema \<Rightarrow> vobj \<Rightarrow> string \<Rightarrow> bool result" where
  "obj_attr_is_set S o1 name =
     (if dhas S name then Inr (dhas (attrs o1) name) else Inl AttributeError)"

text \<open>
  The property setter. A read-only attribute that is set keeps its value: writing the
  same value is silently accepted and does not mark the field, another value raises.
\<close>

definition obj_set :: "ovo_env \<Rightarrow> schema \<Rightarrow> string \<Rightarrow> pyval \<Rightarrow> vobj \<Rightarrow> vobj result" where
  "obj_set E S name v o1 =
     (case dget S name of
        None \<Rightarrow> Inl AttributeError
      | Some f \<Rightarrow>
          bind_r (field_coerce E f v) (\<lambda>w.
            if read_only f \<and> dhas (attrs o1) name then
              (if dget (attrs o1) name \<noteq> Some w then Inl (OtherError ''ReadOnlyFieldError'')
               else Inr o1)
            else Inr (o1\<lparr>attrs := dset name w (attrs o1),
                         changed := List.insert name (changed o1)\<rparr>)))"

text \<open>
  The property getter; an unset attribute is loaded with \<^verbatim>\<open>obj_load_attr\<close>, which
  raises in the base class.
\<close>

definition obj_get :: "schema \<Rightarrow> string \<Rightarrow> vobj \<Rightarrow> pyval result" where
  "obj_get S name o1 =
     (case dget S name of
        None \<Rightarrow> Inl AttributeError
      | Some f \<Rightarrow>
          (case dget (attrs o1) name of
             Some v \<Rightarrow> Inr v
           | None \<Rightarrow> Inl NotImplementedErr))"

definition obj_what_changed :: "schema \<Rightarrow> vobj \<Rightarrow> string list" where
  "obj_what_changed S o1 = filter (dhas S) (changed o1)"

definition obj_get_changes :: "schema \<Rightarrow> vobj \<Rightarrow> pydict result" where
  "obj_get_changes S o1 =
     map_r (\<lambda>k. bind_r (obj_get S k o1) (\<lambda>v. Inr (k, v))) (obj_what_changed S o1)"

definition obj_reset_changes :: "string list \<Rightarrow> vobj \<Rightarrow> vobj" where
  "obj_reset_changes fs o1 =
     o1\<lparr>changed := (if fs \<noteq> [] then filter (\<lambda>k. k \<notin> set fs) (changed o1) else [])\<rparr>"

text \<open>
  \<^verbatim>\<open>_from_db_object\<close> of the persistent classes: every field is assigned from the row,
  then the change set is cleared.
\<close>

definition from_db_object :: "ovo_env \<Rightarrow> schema \<Rightarrow> pydict \<Rightarrow> vobj \<Rightarrow> vobj result" where
  "from_db_object E S row o1 =
     bind_r (fold_r (\<lambda>k o2. bind_r (ditem row k) (\<lambda>v. obj_set E S k v o2)) (map fst S) o1)
       (\<lambda>o2. Inr (obj_reset_changes [] o2))"

text \<open>The remotable-method guard: an object without a context is orphaned.\<close>

definition remotable :: "vobj \<Rightarrow> (unit \<Rightarrow> 'a result) \<Rightarrow> 'a result" where
  "remotable o1 body =
     (if has_context o1 then body () else Inl (Nova OrphanedObjectError []))"

section \<open>The object invariant\<close>

text \<open>
  Every set attribute is a field of the class and holds a value its field allows; every
  changed name is a set attribute.
\<close>

definition vobj_ok :: "schema \<Rightarrow> vobj \<Rightarrow> bool" where
  "vobj_ok S o1 \<longleftrightarrow>
     dict_ok (attrs o1) \<and> distinct (changed o1) \<and>
     (\<forall>(k, v) \<in> set (attrs o1). \<exists>f. dget S k = Some f \<and> field_value_ok f v) \<and>
     (\<forall>k \<in> set (changed o1). dhas (attrs o1) k)"

lemma vobj_ok_new: "vobj_ok S (new_vobj c)"
  by (simp add: vobj_ok_def new_vobj_def)

lemma obj_set_cases:
  assumes "obj_set E S k v o1 = Inr o2"
  obtains f w where "dget S k = Some f" "field_coerce E f v = Inr w"
    "(o2 = o1 \<and> read_only f) \<or> o2 = o1\<lparr>attrs := dset k w (attrs o1), changed := List.insert k (changed o1)\<rparr>"
  using assms by (auto simp: obj_set_def result_simps split: option.splits if_splits)

lemma vobj_ok_write:
  assumes "vobj_ok S o1" "dget S k = Some f" "field_value_ok f w"
  shows "vobj_ok S (o1\<lparr>attrs := dset k w (attrs o1), changed := List.insert k (changed o1)\<rparr>)"
proof -
  have "\<exists>g. dget S j = Some g \<and> field_value_ok g u" if "(j, u) \<in> set (dset k w (attrs o1))" for j u
  proof (cases "(j, u) = (k, w)")
    case True
    with assms show ?thesis by simp
  next
    case False
    with set_dset [OF that] have "(j, u) \<in> set (attrs o1)" by blast
    with assms(1) show ?thesis by (auto simp: vobj_ok_def)
  qed
  with assms(1) show ?thesis by (auto simp: vobj_ok_def)
qed

lemma obj_set_ok: "obj_set E S k v o1 = Inr o2 \<Longrightarrow> vobj_ok S o1 \<Longrightarrow> vobj_ok S o2"
  by (erule obj_set_cases) (metis field_coerce_ok vobj_ok_write)

lemma vobj_ok_attr:
  "vobj_ok S o1 \<Longrightarrow> dget (attrs o1) k = Some v \<Longrightarrow> \<exists>f. dget S k = Some f \<and> field_value_ok f v"
  by (drule map_of_SomeD) (auto simp: vobj_ok_def)

lemma obj_reset_ok: "vobj_ok S o1 \<Longrightarrow> vobj_ok S (obj_reset_changes fs o1)"
  by (auto simp: obj_reset_changes_def vobj_ok_def)

lemma obj_set_get:
  assumes "obj_set E S k v o1 = Inr o2" "dget S k = Some f"
  shows "\<exists>w. field_coerce E f v = Inr w \<and> obj_get S k o2 = Inr w"
  using assms by (auto simp: obj_set_def obj_get_def result_simps dhas_def split: if_splits)

lemma obj_set_other:
  "obj_set E S k v o1 = Inr o2 \<Longrightarrow> j \<noteq> k \<Longrightarrow>
   dget (attrs o2) j = dget (attrs o1) j \<and> (j \<in> set (changed o2) \<longleftrightarrow> j \<in> set (changed o1))"
  by (auto simp: obj_set_def result_simps split: option.splits if_splits)

lemma obj_set_context [state_frame]: "obj_set E S k v o1 = Inr o2 \<Longrightarrow> has_context o2 = has_context o1"
  by (auto simp: obj_set_def result_simps split: option.splits if_splits)

lemma map_r_total: "(\<And>x. x \<in> set xs \<Longrightarrow> f x = Inr (g x)) \<Longrightarrow> map_r f xs = Inr (map g xs)"
  by (induction xs) auto

text \<open>The changes of a well-formed object: exactly the changed attributes and their values.\<close>

lemma obj_get_changes_eq:
  assumes "vobj_ok S o1"
  shows "obj_get_changes S o1 = Inr (map (\<lambda>k. (k, the (dget (attrs o1) k))) (changed o1))"
proof -
  have in_S: "dhas S k" and set_k: "dget (attrs o1) k = Some (the (dget (attrs o1) k))"
    if "k \<in> set (changed o1)" for k
  proof -
    from that assms obtain v where v: "dget (attrs o1) k = Some v"
      by (auto simp: vobj_ok_def dhas_def)
    from vobj_ok_attr [OF assms v] show "dhas S k" by (auto simp: dhas_def)
    from v show "dget (attrs o1) k = Some (the (dget (attrs o1) k))" by simp
  qed
  have w: "obj_what_changed S o1 = changed o1"
    using in_S by (simp add: obj_what_changed_def filter_id_conv)
  have g: "obj_get S k o1 = Inr (the (dget (attrs o1) k))" if "k \<in> set (changed o1)" for k
    using in_S [OF that] set_k [OF that]
    by (cases "dget (attrs o1) k") (auto simp: obj_get_def dhas_def)
  show ?thesis
    unfolding obj_get_changes_def w by (rule map_r_total) (simp add: g)
qed

section \<open>Filling an object from a row\<close>

text \<open>What an assignment leaves in the attribute: the coerced value, set or already there.\<close>

lemma obj_set_attr:
  "obj_set E S k v o1 = Inr o2 \<Longrightarrow>
   \<exists>f w. dget S k = Some f \<and> field_coerce E f v = Inr w \<and> dget (attrs o2) k = Some w"
  by (auto simp: obj_set_def result_simps split: option.splits if_splits)

lemma obj_set_fresh:
  "dget S k = Some f \<Longrightarrow> field_coerce E f v = Inr w \<Longrightarrow> \<not> dhas (attrs o1) k \<Longrightarrow>
   obj_set E S k v o1 =
     Inr (o1\<lparr>attrs := dset k w (attrs o1), changed := List.insert k (changed o1)\<rparr>)"
  by (simp add: obj_set_def)

lemma fill_other:
  "fold_r (\<lambda>k o2. bind_r (ditem row k) (\<lambda>v. obj_set E S k v o2)) ks o1 = Inr o2 \<Longrightarrow>
   j \<notin> set ks \<Longrightarrow> dget (attrs o2) j = dget (attrs o1) j"
  by (induction ks arbitrary: o1) (auto simp: result_simps dest: obj_set_other)

lemma fill_attrs:
  assumes "fold_r (\<lambda>k o2. bind_r (ditem row k) (\<lambda>v. obj_set E S k v o2)) ks o1 = Inr o2"
    "distinct ks" "k \<in> set ks"
  shows "\<exists>v f w. dget row k = Some v \<and> dget S k = Some f \<and> field_coerce E f v = Inr w \<and>
    dget (attrs o2) k = Some w"
  using assms
proof (induction ks arbitrary: o1)
  case (Cons j ks)
  from Cons.prems(1) obtain v u where u: "dget row j = Some v" "obj_set E S j v o1 = Inr u"
      "fold_r (\<lambda>k o2. bind_r (ditem row k) (\<lambda>v. obj_set E S k v o2)) ks u = Inr o2"
    by (auto simp: result_simps)
  show ?case
  proof (cases "k = j")
    case True
    with Cons.prems(2) fill_other [OF u(3)] have "dget (attrs o2) k = dget (attrs u) k" by simp
    with True u(1) obj_set_attr [OF u(2)] show ?thesis by auto
  next
    case False
    with Cons.prems Cons.IH [OF u(3)] show ?thesis by simp
  qed
qed simp

lemma fill_fresh:
  assumes "\<And>k. k \<in> set ks \<Longrightarrow> \<exists>v f w. dget row k = Some v \<and> dget S k = Some f \<and>
      field_coerce E f v = Inr w"
    "distinct ks" "\<And>k. k \<in> set ks \<Longrightarrow> \<not> dhas (attrs o1) k"
  shows "\<exists>o2. fold_r (\<lambda>k o2. bind_r (ditem row k) (\<lambda>v. obj_set E S k v o2)) ks o1 = Inr o2"
  using assms
proof (induction ks arbitrary: o1)
  case (Cons k ks)
  obtain v f w where k: "dget row k = Some v" "dget S k = Some f" "field_coerce E f v = Inr w"
    using Cons.prems(1) [of k] by auto
  have set: "obj_set E S k v o1 =
      Inr (o1\<lparr>attrs := dset k w (attrs o1), changed := List.insert k (changed o1)\<rparr>)"
    using k Cons.prems(3) [of k] by (intro obj_set_fresh) auto
  show ?case
    using Cons.prems Cons.IH [of "o1\<lparr>attrs := dset k w (attrs o1), changed := List.insert k (changed o1)\<rparr>"]
    by (auto simp: ditem_def k set)
qed simp

text \<open>
  Loading a row gives every field its coerced column value and clears the change set; a
  row that loads once loads again, into the same attributes.
\<close>

lemma from_db_object_attrs:
  assumes "from_db_object E S row o1 = Inr o2" "dict_ok S" "dget S k = Some f"
  shows "\<exists>v w. dget row k = Some v \<and> field_coerce E f v = Inr w \<and> dget (attrs o2) k = Some w"
proof -
  from assms(1) obtain u where
    u: "fold_r (\<lambda>k o2. bind_r (ditem row k) (\<lambda>v. obj_set E S k v o2)) (map fst S) o1 = Inr u"
      "o2 = obj_reset_changes [] u"
    by (auto simp: from_db_object_def result_simps)
  from assms(3) have "k \<in> set (map fst S)" by (force dest: map_of_SomeD)
  from fill_attrs [OF u(1) assms(2) this] assms(3) show ?thesis
    by (auto simp: u(2) obj_reset_changes_def)
qed

lemma from_db_object_changed: "from_db_object E S row o1 = Inr o2 \<Longrightarrow> changed o2 = []"
  by (auto simp: from_db_object_def result_simps obj_reset_changes_def)

lemma from_db_object_ok:
  assumes "from_db_object E S row o1 = Inr o2" "vobj_ok S o1"
  shows "vobj_ok S o2"
proof -
  from assms(1) obtain u where
    u: "fold_r (\<lambda>k o2. bind_r (ditem row k) (\<lambda>v. obj_set E S k v o2)) (map fst S) o1 = Inr u"
      "o2 = obj_reset_changes [] u"
    by (auto simp: from_db_object_def result_simps)
  have "vobj_ok S u"
    by (rule fold_r_invariant [where P = "vobj_ok S", OF u(1) assms(2)])
      (auto simp: result_simps dest: obj_set_ok)
  then show ?thesis by (simp add: u(2) obj_reset_ok)
qed

lemma from_db_object_again:
  assumes "from_db_object E S row o1 = Inr o2" "dict_ok S"
  shows "\<exists>o3. from_db_object E S row (new_vobj c) = Inr o3 \<and>
    (\<forall>k. dhas S k \<longrightarrow> dget (attrs o3) k = dget (attrs o2) k)"
proof -
  have ks: "\<exists>v f w. dget row k = Some v \<and> dget S k = Some f \<and> field_coerce E f v = Inr w"
    if k: "k \<in> set (map fst S)" for k
  proof -
    obtain f where f: "dget S k = Some f" using k assms(2) by (auto simp: map_of_eq_Some_iff)
    from from_db_object_attrs [OF assms f] f show ?thesis by auto
  qed
  obtain u where
    u: "fold_r (\<lambda>k o2. bind_r (ditem row k) (\<lambda>v. obj_set E S k v o2)) (map fst S) (new_vobj c) = Inr u"
    using fill_fresh [OF ks assms(2), of "new_vobj c"] by (auto simp: new_vobj_def dhas_def)
  let ?o = "obj_reset_changes [] u"
  have o: "from_db_object E S row (new_vobj c) = Inr ?o" using u by (simp add: from_db_object_def)
  have "dget (attrs ?o) k = dget (attrs o2) k" if "dget S k = Some f" for k f
    using from_db_object_attrs [OF o assms(2) that] from_db_object_attrs [OF assms that] by auto
  with o show ?thesis by (auto simp: dhas_def)
qed

section \<open>A concrete environment\<close>

text \<open>Used to evaluate the model: \<^verbatim>\<open>iso8601\<close> reads one fixed text.\<close>

definition sample_ovo :: ovo_env where
  "sample_ovo = \<lparr>iso_parse = (\<lambda>s. if s = ''2016-01-01T00:00:00Z'' then Some (''t0'', True) else None),
     strtime_parse = (\<lambda>s. None), obj_str = (\<lambda>v. ''?'')\<rparr>"

section \<open>Properties\<close>

text \<open>A sequence of attribute assignments, as a method body makes them.\<close>

definition obj_assign :: "ovo_env \<Rightarrow> schema \<Rightarrow> (string \<times> pyval) list \<Rightarrow> vobj \<Rightarrow> vobj result" where
  "obj_assign E S kvs o1 = fold_r (\<lambda>(k, v) o2. obj_set E S k v o2) kvs o1"

text \<open>A read-only attribute that is set: it holds what it has.\<close>

definition held :: "schema \<Rightarrow> vobj \<Rightarrow> string \<Rightarrow> bool" where
  "held S o1 k \<longleftrightarrow> (case dget S k of Some f \<Rightarrow> read_only f \<and> dhas (attrs o1) k | None \<Rightarrow> False)"

lemma obj_set_eq:
  assumes "obj_set E S k v o1 = Inr o2"
  obtains f w where "dget S k = Some f" "held S o1 k \<Longrightarrow> o2 = o1"
    "\<not> held S o1 k \<Longrightarrow> o2 = o1\<lparr>attrs := dset k w (attrs o1), changed := List.insert k (changed o1)\<rparr>"
  using assms by (auto simp: obj_set_def held_def result_simps split: option.splits if_splits)

lemma obj_set_effect:
  assumes "obj_set E S k v o1 = Inr o2"
  shows "set (changed o2) = set (changed o1) \<union> (if held S o1 k then {} else {k})"
    and "held S o1 j \<Longrightarrow> held S o2 j \<and> dget (attrs o2) j = dget (attrs o1) j"
    and "j \<noteq> k \<Longrightarrow> held S o2 j = held S o1 j"
  by (rule obj_set_eq [OF assms]; cases "held S o1 k"; auto simp: held_def dhas_def split: option.splits)+

lemma obj_assign_Cons:
  "obj_assign E S ((k, v) # kvs) o1 = Inr o2 \<longleftrightarrow>
     (\<exists>u. obj_set E S k v o1 = Inr u \<and> obj_assign E S kvs u = Inr o2)"
  by (simp add: obj_assign_def bind_r_Inr_iff)

lemma obj_assign_changed:
  "obj_assign E S kvs o1 = Inr o2 \<Longrightarrow>
   set (changed o2) = set (changed o1) \<union> {k \<in> fst ` set kvs. \<not> held S o1 k}"
proof (induction kvs arbitrary: o1)
  case (Cons kv kvs)
  obtain k v where kv: "kv = (k, v)" by fastforce
  with Cons.prems obtain u where u: "obj_set E S k v o1 = Inr u" "obj_assign E S kvs u = Inr o2"
    by (auto simp: obj_assign_Cons)
  have h: "held S u j = held S o1 j" if "j \<noteq> k \<or> held S o1 k" for j
    using that obj_set_effect(3) [OF u(1)] obj_set_effect(2) [OF u(1)] by (cases "j = k") auto
  show ?case
  proof (cases "held S o1 k")
    case True
    with h show ?thesis using obj_set_effect(1) [OF u(1)] Cons.IH [OF u(2)] by (auto simp: kv)
  next
    case False
    have "j \<in> set (changed o2) \<longleftrightarrow> j \<in> set (changed o1) \<or> j \<in> fst ` set (kv # kvs) \<and> \<not> held S o1 j" for j
      using obj_set_effect(1) [OF u(1)] Cons.IH [OF u(2)] False h [of j] by (cases "j = k") (auto simp: kv)
    then show ?thesis by blast
  qed
qed (simp add: obj_assign_def)

lemma obj_assign_held:
  "obj_assign E S kvs o1 = Inr o2 \<Longrightarrow> held S o1 j \<Longrightarrow> dget (attrs o2) j = dget (attrs o1) j"
proof (induction kvs arbitrary: o1)
  case (Cons kv kvs)
  obtain k v where kv: "kv = (k, v)" by fastforce
  with Cons.prems(1) obtain u where u: "obj_set E S k v o1 = Inr u" "obj_assign E S kvs u = Inr o2"
    by (auto simp: obj_assign_Cons)
  from obj_set_effect(2) [OF u(1) Cons.prems(2)] Cons.IH [OF u(2)] show ?case by simp
qed (simp add: obj_assign_def)

text \<open>The last assignment to an attribute decides what it holds.\<close>

lemma obj_assign_value:
  "obj_assign E S kvs o1 = Inr o2 \<Longrightarrow>
   (case dget (rev kvs) j of
      None \<Rightarrow> dget (attrs o2) j = dget (attrs o1) j
    | Some v \<Rightarrow> \<exists>f w. dget S j = Some f \<and> field_coerce E f v = Inr w \<and> dget (attrs o2) j = Some w)"
proof (induction kvs arbitrary: o1)
  case (Cons kv kvs)
  obtain k v where kv: "kv = (k, v)" by fastforce
  with Cons.prems obtain u where u: "obj_set E S k v o1 = Inr u" "obj_assign E S kvs u = Inr o2"
    by (auto simp: obj_assign_Cons)
  note ih = Cons.IH [OF u(2)]
  show ?case
  proof (cases "dget (rev kvs) j")
    case None
    with ih have "dget (attrs o2) j = dget (attrs u) j" by simp
    with None obj_set_attr [OF u(1)] obj_set_other [OF u(1), of j] show ?thesis
      by (auto simp: kv map_add_def)
  qed (use ih in \<open>simp add: map_add_def\<close>)
qed (simp add: obj_assign_def)

lemma obj_assign_ok: "obj_assign E S kvs o1 = Inr o2 \<Longrightarrow> vobj_ok S o1 \<Longrightarrow> vobj_ok S o2"
  unfolding obj_assign_def
  by (erule fold_r_invariant [where P = "vobj_ok S"]) (auto dest: obj_set_ok)

text \<open>
  C40: change tracking is exact. Whatever is assigned to a well-formed object, it stays well
  formed, and every attribute holds what its field makes of the last value assigned to it, or
  what it held. The next change dictionary, which is what a save sends, has exactly the names
  assigned since the last reset, except the read-only ones that were set before (these keep
  their values), with the values they now hold; a reset empties it.
\<close>

theorem obj_changes_exact:
  assumes "vobj_ok S o1" "changed o1 = []" and "obj_assign E S kvs o1 = Inr o2"
  shows "\<exists>u. obj_get_changes S o2 = Inr u \<and> vobj_ok S o2 \<and>
    fst ` set u = {k \<in> fst ` set kvs. \<not> held S o1 k} \<and> (\<forall>(k, v) \<in> set u. obj_get S k o2 = Inr v) \<and>
    (\<forall>k. held S o1 k \<longrightarrow> dget (attrs o2) k = dget (attrs o1) k) \<and>
    (\<forall>k. case dget (rev kvs) k of
       None \<Rightarrow> dget (attrs o2) k = dget (attrs o1) k
     | Some v \<Rightarrow> \<exists>f w. dget S k = Some f \<and> field_coerce E f v = Inr w \<and> dget (attrs o2) k = Some w) \<and>
    obj_get_changes S (obj_reset_changes [] o2) = Inr []"
proof -
  have ok: "vobj_ok S o2" by (rule obj_assign_ok [OF assms(3,1)])
  have c: "set (changed o2) = {k \<in> fst ` set kvs. \<not> held S o1 k}" using obj_assign_changed [OF assms(3)] assms(2) by simp
  have g: "obj_get S k o2 = Inr (the (dget (attrs o2) k))" if "k \<in> set (changed o2)" for k
  proof -
    from that ok obtain v where v: "dget (attrs o2) k = Some v" by (auto simp: vobj_ok_def dhas_def)
    with vobj_ok_attr [OF ok v] show ?thesis by (auto simp: obj_get_def)
  qed
  have r: "obj_get_changes S (obj_reset_changes [] o2) = Inr []"
    by (simp add: obj_get_changes_def obj_what_changed_def obj_reset_changes_def)
  let ?u = "map (\<lambda>k. (k, the (dget (attrs o2) k))) (changed o2)"
  have u: "obj_get_changes S o2 = Inr ?u" by (rule obj_get_changes_eq [OF ok])
  have n: "fst ` set ?u = {k \<in> fst ` set kvs. \<not> held S o1 k}" using c by (simp add: image_comp comp_def)
  have v: "\<forall>(k, v) \<in> set ?u. obj_get S k o2 = Inr v" using g by auto
  show ?thesis
    by (intro exI [of _ ?u] conjI allI impI u ok n v r)
      (use obj_assign_held [OF assms(3)] obj_assign_value [OF assms(3)] in blast)+
qed

theorem obj_changes_exact_witness:
  "\<exists>u. obj_get_changes [(''id'', \<lparr>ftype = FInteger, nullable = False, fdefault = None, read_only = True\<rparr>),
        (''a'', \<lparr>ftype = FInteger, nullable = False, fdefault = None, read_only = False\<rparr>)]
      (projr (obj_assign sample_ovo [(''id'', \<lparr>ftype = FInteger, nullable = False, fdefault = None, read_only = True\<rparr>),
          (''a'', \<lparr>ftype = FInteger, nullable = False, fdefault = None, read_only = False\<rparr>)]
         [(''a'', PStr ''7''), (''id'', PInt 4)] \<lparr>attrs = [(''id'', PInt 4)], changed = [], has_context = True\<rparr>)) = Inr u \<and>
     fst ` set u = {''a''}"
proof -
  let ?S = "[(''id'', \<lparr>ftype = FInteger, nullable = False, fdefault = None, read_only = True\<rparr>),
        (''a'', \<lparr>ftype = FInteger, nullable = False, fdefault = None, read_only = False\<rparr>)]"
  let ?o = "\<lparr>attrs = [(''id'', PInt 4)], changed = [], has_context = True\<rparr>"
  let ?r = "obj_assign sample_ovo ?S [(''a'', PStr ''7''), (''id'', PInt 4)] ?o"
  have run: "?r = Inr (projr ?r)" by code_simp
  have ok: "vobj_ok ?S ?o" "changed ?o = []" by (simp_all add: vobj_ok_def field_value_ok_def)
  have "{k \<in> fst ` set [(''a'', PStr ''7''), (''id'', PInt 4)]. \<not> held ?S ?o k} = {''a''}"
    by (auto simp: held_def dhas_def)
  with obj_changes_exact [OF ok run] show ?thesis by metis
qed

text \<open>
  A read-only attribute never changes once it is set: an assignment of the same value
  leaves the object as it is, an assignment of any other value raises.
\<close>

theorem read_only_stable:
  assumes "dget S k = Some f" "read_only f" "dget (attrs o1) k = Some w"
  shows "obj_set E S k v o1 =
    (case field_coerce E f v of
       Inl e \<Rightarrow> Inl e
     | Inr u \<Rightarrow> if u = w then Inr o1 else Inl (OtherError ''ReadOnlyFieldError''))"
  using assms by (auto simp: obj_set_def dhas_def split: sum.splits)

theorem read_only_stable_witness:
  "obj_set sample_ovo [(''id'', \<lparr>ftype = FInteger, nullable = False, fdefault = None, read_only = True\<rparr>)]
     ''id'' (PStr ''5'') \<lparr>attrs = [(''id'', PInt 4)], changed = [], has_context = True\<rparr> =
   Inl (OtherError ''ReadOnlyFieldError'')"
proof -
  have "field_coerce sample_ovo \<lparr>ftype = FInteger, nullable = False, fdefault = None, read_only = True\<rparr>
      (PStr ''5'') = Inr (PInt 5)" by code_simp
  then show ?thesis
    using read_only_stable [of "[(''id'', \<lparr>ftype = FInteger, nullable = False, fdefault = None,
      read_only = True\<rparr>)]" "''id''" _ "\<lparr>attrs = [(''id'', PInt 4)], changed = [], has_context = True\<rparr>"
      "PInt 4" sample_ovo "PStr ''5''"] by simp
qed

text \<open>
  What a field accepts it keeps: a coerced value is of the field's type, and coercing
  it again, as every load from the database does, gives the same value.
\<close>

theorem field_coerce_stable:
  assumes "field_coerce E f v = Inr w"
  shows "field_value_ok f w \<and> field_coerce E f w = Inr w"
  using field_coerce_ok [OF assms] field_coerce_idem by simp

theorem field_coerce_stable_witness:
  "field_value_ok \<lparr>ftype = FMACAddress, nullable = False, fdefault = None, read_only = False\<rparr>
     (PStr ''0a:0b:0c:0d:0e:0f'')"
proof -
  have "field_coerce sample_ovo \<lparr>ftype = FMACAddress, nullable = False, fdefault = None, read_only = False\<rparr>
      (PStr ''0A-0B-0C-0D-0E-0F'') = Inr (PStr ''0a:0b:0c:0d:0e:0f'')" by code_simp
  from field_coerce_stable [OF this] show ?thesis by simp
qed

end
