(* ===== verification/Exceptions.thy ===== *)
theory Exceptions
  imports VObjects
begin

text \<open>
  \<^verbatim>\<open>nova/exception.py\<close>: the class table, in the order of the file, and the constructor that
  formats a message. A class statement is a row; an attribute the class does not set is
  looked up in its base class, which the file defines before it.
\<close>

section \<open>The class table\<close>

datatype exc_class =
  Exc (exc_name: string) (exc_parent: string) (exc_own_code: "int option")
      (exc_own_safe: "bool option") (exc_own_msg: "string option")

definition exc_classes_1 :: "exc_class list" where
  "exc_classes_1 = [
     Exc ''NovaException'' ''Exception'' (Some 500) (Some False)
       (Some ''An unknown exception occurred.''),
     Exc ''EncryptionFailure'' ''NovaException'' None None
       (Some ''Failed to encrypt text: %(reason)s''),
     Exc ''DecryptionFailure'' ''NovaException'' None None
       (Some ''Failed to decrypt text: %(reason)s''),
     Exc ''RevokeCertFailure'' ''NovaException'' None None
       (Some ''Failed to revoke certificate for %(project_id)s''),
     Exc ''VirtualInterfaceCreateException'' ''NovaException'' None None
       (Some ''Virtual Interface creation failed''),
     Exc ''VirtualInterfaceMacAddressException'' ''NovaException'' None None
       (Some ''Creation of virtual interface with unique mac address failed''),
     Exc ''VirtualInterfacePlugException'' ''NovaException'' None None
       (Some ''Virtual interface plugin failed''),
     Exc ''VirtualInterfaceUnplugException'' ''NovaException'' None None
       (Some ''Failed to unplug virtual interface: %(reason)s''),
     Exc ''GlanceConnectionFailed'' ''NovaException'' None None
       (Some ''Connection to glance host %(server)s failed: %(reason)s''),
     Exc ''CinderConnectionFailed'' ''NovaException'' None None
       (Some ''Connection to cinder host failed: %(reason)s''),
     Exc ''Forbidden'' ''NovaException'' (Some 403) None
       (Some ''Forbidden''),
     Exc ''AdminRequired'' ''Forbidden'' None None
       (Some ''User does not have admin privileges''),
     Exc ''PolicyNotAuthorized'' ''Forbidden'' None None
       (Some ''Policy doesn't allow %(action)s to be performed.''),
     Exc ''VolumeLimitExceeded'' ''Forbidden'' None None
       (Some ''Volume resource quota exceeded''),
     Exc ''ImageNotActive'' ''NovaException'' None None
       (Some ''Image %(image_id)s is not active.''),
     Exc ''ImageNotAuthorized'' ''NovaException'' None None
       (Some ''Not authorized for image %(image_id)s.''),
     Exc ''Invalid'' ''NovaException'' (Some 400) None
       (Some ''Bad Request - Invalid Parameters''),
     Exc ''InvalidBDM'' ''Invalid'' None None
       (Some ''Block Device Mapping is Invalid.''),
     Exc ''InvalidBDMSnapshot'' ''InvalidBDM'' None None
       (Some ''Block Device Mapping is Invalid: failed to get snapshot %(id)s.''),
     Exc ''InvalidBDMVolume'' ''InvalidBDM'' None None
       (Some ''Block Device Mapping is Invalid: failed to get volume %(id)s.''),
     Exc ''UnsupportedBDMVolumeAuthMethod'' ''InvalidBDM'' None None
       (Some ''Block Device Mapping is Invalid: %(auth_method)s is unsupported.''),
     Exc ''InvalidBDMImage'' ''InvalidBDM'' None None
       (Some ''Block Device Mapping is Invalid: failed to get image %(id)s.''),
     Exc ''InvalidBDMBootSequence'' ''InvalidBDM'' None None
       (Some ''Block Device Mapping is Invalid: Boot sequence for the instance and image/block device mapping combination is not valid.'')]"

definition exc_classes_2 :: "exc_class list" where
  "exc_classes_2 = [
     Exc ''InvalidBDMLocalsLimit'' ''InvalidBDM'' None None
       (Some ''Block Device Mapping is Invalid: You specified more local devices than the limit allows''),
     Exc ''InvalidBDMEphemeralSize'' ''InvalidBDM'' None None
       (Some ''Ephemeral disks requested are larger than the instance type allows. If no size is given in one block device mapping, flavor ephemeral size will be used.''),
     Exc ''InvalidBDMSwapSize'' ''InvalidBDM'' None None
       (Some ''Swap drive requested is larger than instance type allows.''),
     Exc ''InvalidBDMFormat'' ''InvalidBDM'' None None
       (Some ''Block Device Mapping is Invalid: %(details)s''),
     Exc ''InvalidBDMForLegacy'' ''InvalidBDM'' None None
       (Some ''Block Device Mapping cannot be converted to legacy format. ''),
     Exc ''InvalidBDMVolumeNotBootable'' ''InvalidBDM'' None None
       (Some ''Block Device %(id)s is not bootable.''),
     Exc ''InvalidAttribute'' ''Invalid'' None None
       (Some ''Attribute not supported: %(attr)s''),
     Exc ''ValidationError'' ''Invalid'' None None
       (Some ''%(detail)s''),
     Exc ''VolumeAttachFailed'' ''Invalid'' None None
       (Some ''Volume %(volume_id)s could not be attached. Reason: %(reason)s''),
     Exc ''VolumeUnattached'' ''Invalid'' None None
       (Some ''Volume %(volume_id)s is not attached to anything''),
     Exc ''VolumeNotCreated'' ''NovaException'' None None
       (Some ''Volume %(volume_id)s did not finish being created even after we waited %(seconds)s seconds or %(attempts)s attempts. And its status is %(volume_status)s.''),
     Exc ''VolumeEncryptionNotSupported'' ''Invalid'' None None
       (Some ''Volume encryption is not supported for %(volume_type)s volume %(volume_id)s''),
     Exc ''InvalidKeypair'' ''Invalid'' None None
       (Some ''Keypair data is invalid: %(reason)s''),
     Exc ''InvalidRequest'' ''Invalid'' None None
       (Some ''The request is invalid.''),
     Exc ''InvalidInput'' ''Invalid'' None None
       (Some ''Invalid input received: %(reason)s''),
     Exc ''InvalidVolume'' ''Invalid'' None None
       (Some ''Invalid volume: %(reason)s''),
     Exc ''InvalidVolumeAccessMode'' ''Invalid'' None None
       (Some ''Invalid volume access mode: %(access_mode)s''),
     Exc ''InvalidMetadata'' ''Invalid'' None None
       (Some ''Invalid metadata: %(reason)s''),
     Exc ''InvalidMetadataSize'' ''Invalid'' None None
       (Some ''Invalid metadata size: %(reason)s''),
     Exc ''InvalidPortRange'' ''Invalid'' None None
       (Some ''Invalid port range %(from_port)s:%(to_port)s. %(msg)s''),
     Exc ''InvalidIpProtocol'' ''Invalid'' None None
       (Some ''Invalid IP protocol %(protocol)s.''),
     Exc ''InvalidContentType'' ''Invalid'' None None
       (Some ''Invalid content type %(content_type)s.''),
     Exc ''InvalidAPIVersionString'' ''Invalid'' None None
       (Some ''API Version String %(version)s is of invalid format. Must be of format MajorNum.MinorNum.''),
     Exc ''VersionNotFoundForAPIMethod'' ''Invalid'' None None
       (Some ''API version %(version)s is not supported on this method.''),
     Exc ''InvalidGlobalAPIVersion'' ''Invalid'' None None
       (Some ''Version %(req_ver)s is not supported by the API. Minimum is %(min_ver)s and maximum is %(max_ver)s.''),
     Exc ''ApiVersionsIntersect'' ''Invalid'' None None
       (Some ''Version of %(name)s %(min_ver)s %(max_ver)s intersects with another versions.''),
     Exc ''InvalidParameterValue'' ''Invalid'' None None
       (Some ''%(err)s''),
     Exc ''InvalidAggregateAction'' ''Invalid'' (Some 400) None
       (Some ''Unacceptable parameters.''),
     Exc ''InvalidAggregateActionAdd'' ''InvalidAggregateAction'' None None
       (Some ''Cannot add host to aggregate %(aggregate_id)s. Reason: %(reason)s.''),
     Exc ''InvalidAggregateActionDelete'' ''InvalidAggregateAction'' None None
       (Some ''Cannot remove host from aggregate %(aggregate_id)s. Reason: %(reason)s.''),
     Exc ''InvalidAggregateActionUpdate'' ''InvalidAggregateAction'' None None
       (Some ''Cannot update aggregate %(aggregate_id)s. Reason: %(reason)s.''),
     Exc ''InvalidAggregateActionUpdateMeta'' ''InvalidAggregateAction'' None None
       (Some ''Cannot update metadata of aggregate %(aggregate_id)s. Reason: %(reason)s.'')]"

definition exc_classes_3 :: "exc_class list" where
  "exc_classes_3 = [
     Exc ''InvalidGroup'' ''Invalid'' None None
       (Some ''Group not valid. Reason: %(reason)s''),
     Exc ''InvalidSortKey'' ''Invalid'' None None
       (Some ''Sort key supplied was not valid.''),
     Exc ''InvalidStrTime'' ''Invalid'' None None
       (Some ''Invalid datetime string: %(reason)s''),
     Exc ''InvalidNUMANodesNumber'' ''Invalid'' None None
       (Some ''The property 'numa_nodes' cannot be '%(nodes)s'. It must be a number greater than 0''),
     Exc ''InvalidName'' ''Invalid'' None None
       (Some ''An invalid 'name' value was provided. The name must be: %(reason)s''),
     Exc ''InstanceInvalidState'' ''Invalid'' None None
       (Some ''Instance %(instance_uuid)s in %(attr)s %(state)s. Cannot %(method)s while the instance is in this state.''),
     Exc ''InstanceNotRunning'' ''Invalid'' None None
       (Some ''Instance %(instance_id)s is not running.''),
     Exc ''InstanceNotInRescueMode'' ''Invalid'' None None
       (Some ''Instance %(instance_id)s is not in rescue mode''),
     Exc ''InstanceNotRescuable'' ''Invalid'' None None
       (Some ''Instance %(instance_id)s cannot be rescued: %(reason)s''),
     Exc ''InstanceNotReady'' ''Invalid'' None None
       (Some ''Instance %(instance_id)s is not ready''),
     Exc ''InstanceSuspendFailure'' ''Invalid'' None None
       (Some ''Failed to suspend instance: %(reason)s''),
     Exc ''InstanceResumeFailure'' ''Invalid'' None None
       (Some ''Failed to resume instance: %(reason)s''),
     Exc ''InstancePowerOnFailure'' ''Invalid'' None None
       (Some ''Failed to power on instance: %(reason)s''),
     Exc ''InstancePowerOffFailure'' ''Invalid'' None None
       (Some ''Failed to power off instance: %(reason)s''),
     Exc ''InstanceRebootFailure'' ''Invalid'' None None
       (Some ''Failed to reboot instance: %(reason)s''),
     Exc ''InstanceTerminationFailure'' ''Invalid'' None None
       (Some ''Failed to terminate instance: %(reason)s''),
     Exc ''InstanceDeployFailure'' ''Invalid'' None None
       (Some ''Failed to deploy instance: %(reason)s''),
     Exc ''MultiplePortsNotApplicable'' ''Invalid'' None None
       (Some ''Failed to launch instances: %(reason)s''),
     Exc ''InvalidFixedIpAndMaxCountRequest'' ''Invalid'' None None
       (Some ''Failed to launch instances: %(reason)s''),
     Exc ''ServiceUnavailable'' ''Invalid'' None None
       (Some ''Service is unavailable at this time.''),
     Exc ''ComputeResourcesUnavailable'' ''ServiceUnavailable'' None None
       (Some ''Insufficient compute resources: %(reason)s.''),
     Exc ''HypervisorUnavailable'' ''NovaException'' None None
       (Some ''Connection to the hypervisor is broken on host: %(host)s''),
     Exc ''ComputeServiceUnavailable'' ''ServiceUnavailable'' None None
       (Some ''Compute service of %(host)s is unavailable at this time.''),
     Exc ''ComputeServiceInUse'' ''NovaException'' None None
       (Some ''Compute service of %(host)s is still in use.''),
     Exc ''UnableToMigrateToSelf'' ''Invalid'' None None
       (Some ''Unable to migrate instance (%(instance_id)s) to current host (%(host)s).''),
     Exc ''InvalidHypervisorType'' ''Invalid'' None None
       (Some ''The supplied hypervisor type of is invalid.''),
     Exc ''HypervisorTooOld'' ''Invalid'' None None
       (Some ''This compute node's hypervisor is older than the minimum supported version: %(version)s.''),
     Exc ''DestinationHypervisorTooOld'' ''Invalid'' None None
       (Some ''The instance requires a newer hypervisor version than has been provided.''),
     Exc ''ServiceTooOld'' ''Invalid'' None None
       (Some ''This service is older (v%(thisver)i) than the minimum (v%(minver)i) version of the rest of the deployment. Unable to continue.''),
     Exc ''DestinationDiskExists'' ''Invalid'' None None
       (Some ''The supplied disk path (%(path)s) already exists, it is expected not to exist.''),
     Exc ''InvalidDevicePath'' ''Invalid'' None None
       (Some ''The supplied device path (%(path)s) is invalid.''),
     Exc ''DevicePathInUse'' ''Invalid'' (Some 409) None
       (Some ''The supplied device path (%(path)s) is in use.''),
     Exc ''DeviceIsBusy'' ''Invalid'' None None
       (Some ''The supplied device (%(device)s) is busy.''),
     Exc ''InvalidCPUInfo'' ''Invalid'' None None
       (Some ''Unacceptable CPU info: %(reason)s''),
     Exc ''InvalidIpAddressError'' ''Invalid'' None None
       (Some ''%(address)s is not a valid IP v4/6 address.'')]"

definition exc_classes_4 :: "exc_class list" where
  "exc_classes_4 = [
     Exc ''InvalidVLANTag'' ''Invalid'' None None
       (Some ''VLAN tag is not appropriate for the port group %(bridge)s. Expected VLAN tag is %(tag)s, but the one associated with the port group is %(pgroup)s.''),
     Exc ''InvalidVLANPortGroup'' ''Invalid'' None None
       (Some ''vSwitch which contains the port group %(bridge)s is not associated with the desired physical adapter. Expected vSwitch is %(expected)s, but the one associated is %(actual)s.''),
     Exc ''InvalidDiskFormat'' ''Invalid'' None None
       (Some ''Disk format %(disk_format)s is not acceptable''),
     Exc ''InvalidDiskInfo'' ''Invalid'' None None
       (Some ''Disk info file is invalid: %(reason)s''),
     Exc ''DiskInfoReadWriteFail'' ''Invalid'' None None
       (Some ''Failed to read or write disk info file: %(reason)s''),
     Exc ''ImageUnacceptable'' ''Invalid'' None None
       (Some ''Image %(image_id)s is unacceptable: %(reason)s''),
     Exc ''ImageBadRequest'' ''Invalid'' None None
       (Some ''Request of image %(image_id)s got BadRequest response: %(response)s''),
     Exc ''InstanceUnacceptable'' ''Invalid'' None None
       (Some ''Instance %(instance_id)s is unacceptable: %(reason)s''),
     Exc ''InvalidEc2Id'' ''Invalid'' None None
       (Some ''Ec2 id %(ec2_id)s is unacceptable.''),
     Exc ''InvalidUUID'' ''Invalid'' None None
       (Some ''Expected a uuid but received %(uuid)s.''),
     Exc ''InvalidID'' ''Invalid'' None None
       (Some ''Invalid ID received %(id)s.''),
     Exc ''ConstraintNotMet'' ''NovaException'' (Some 412) None
       (Some ''Constraint not met.''),
     Exc ''NotFound'' ''NovaException'' (Some 404) None
       (Some ''Resource could not be found.''),
     Exc ''AgentBuildNotFound'' ''NotFound'' None None
       (Some ''No agent-build associated with id %(id)s.''),
     Exc ''AgentBuildExists'' ''NovaException'' None None
       (Some ''Agent-build with hypervisor %(hypervisor)s os %(os)s architecture %(architecture)s exists.''),
     Exc ''VolumeNotFound'' ''NotFound'' None None
       (Some ''Volume %(volume_id)s could not be found.''),
     Exc ''UndefinedRootBDM'' ''NovaException'' None None
       (Some ''Undefined Block Device Mapping root: BlockDeviceMappingList contains Block Device Mappings from multiple instances.''),
     Exc ''BDMNotFound'' ''NotFound'' None None
       (Some ''No Block Device Mapping with id %(id)s.''),
     Exc ''VolumeBDMNotFound'' ''NotFound'' None None
       (Some ''No volume Block Device Mapping with id %(volume_id)s.''),
     Exc ''VolumeBDMIsMultiAttach'' ''Invalid'' None None
       (Some ''Block Device Mapping %(volume_id)s is a multi-attach volume and is not valid for this operation.''),
     Exc ''VolumeBDMPathNotFound'' ''VolumeBDMNotFound'' None None
       (Some ''No volume Block Device Mapping at path: %(path)s''),
     Exc ''DeviceDetachFailed'' ''NovaException'' None None
       (Some ''Device detach failed for %(device)s: %(reason)s''),
     Exc ''DeviceNotFound'' ''NotFound'' None None
       (Some ''Device '%(device)s' not found.''),
     Exc ''SnapshotNotFound'' ''NotFound'' None None
       (Some ''Snapshot %(snapshot_id)s could not be found.''),
     Exc ''DiskNotFound'' ''NotFound'' None None
       (Some ''No disk at %(location)s''),
     Exc ''VolumeDriverNotFound'' ''NotFound'' None None
       (Some ''Could not find a handler for %(driver_type)s volume.''),
     Exc ''InvalidImageRef'' ''Invalid'' None None
       (Some ''Invalid image href %(image_href)s.''),
     Exc ''AutoDiskConfigDisabledByImage'' ''Invalid'' None None
       (Some ''Requested image %(image)s has automatic disk resize disabled.''),
     Exc ''ImageNotFound'' ''NotFound'' None None
       (Some ''Image %(image_id)s could not be found.''),
     Exc ''PreserveEphemeralNotSupported'' ''Invalid'' None None
       (Some ''The current driver does not support preserving ephemeral partitions.''),
     Exc ''ProjectNotFound'' ''NotFound'' None None
       (Some ''Project %(project_id)s could not be found.''),
     Exc ''StorageRepositoryNotFound'' ''NotFound'' None None
       (Some ''Cannot find SR to read/write VDI.''),
     Exc ''InstanceMappingNotFound'' ''NotFound'' None None
       (Some ''Instance %(uuid)s has no mapping to a cell.''),
     Exc ''NetworkDuplicated'' ''Invalid'' None None
       (Some ''Network %(network_id)s is duplicated.'')]"

definition exc_classes_5 :: "exc_class list" where
  "exc_classes_5 = [
     Exc ''NetworkDhcpReleaseFailed'' ''NovaException'' None None
       (Some ''Failed to release IP %(address)s with MAC %(mac_address)s''),
     Exc ''NetworkInUse'' ''NovaException'' None None
       (Some ''Network %(network_id)s is still in use.''),
     Exc ''NetworkSetHostFailed'' ''NovaException'' None None
       (Some ''Network set host failed for network %(network_id)s.''),
     Exc ''NetworkNotCreated'' ''Invalid'' None None
       (Some ''%(req)s is required to create a network.''),
     Exc ''LabelTooLong'' ''Invalid'' None None
       (Some ''Maximum allowed length for 'label' is 255.''),
     Exc ''InvalidIntValue'' ''Invalid'' None None
       (Some ''%(key)s must be an integer.''),
     Exc ''InvalidCidr'' ''Invalid'' None None
       (Some ''%(cidr)s is not a valid IP network.''),
     Exc ''InvalidAddress'' ''Invalid'' None None
       (Some ''%(address)s is not a valid IP address.''),
     Exc ''AddressOutOfRange'' ''Invalid'' None None
       (Some ''%(address)s is not within %(cidr)s.''),
     Exc ''DuplicateVlan'' ''NovaException'' (Some 409) None
       (Some ''Detected existing vlan with id %(vlan)d''),
     Exc ''CidrConflict'' ''NovaException'' (Some 409) None
       (Some ''Requested cidr (%(cidr)s) conflicts with existing cidr (%(other)s)''),
     Exc ''NetworkHasProject'' ''NetworkInUse'' None None
       (Some ''Network must be disassociated from project %(project_id)s before it can be deleted.''),
     Exc ''NetworkNotFound'' ''NotFound'' None None
       (Some ''Network %(network_id)s could not be found.''),
     Exc ''PortNotFound'' ''NotFound'' None None
       (Some ''Port id %(port_id)s could not be found.''),
     Exc ''NetworkNotFoundForBridge'' ''NetworkNotFound'' None None
       (Some ''Network could not be found for bridge %(bridge)s''),
     Exc ''NetworkNotFoundForUUID'' ''NetworkNotFound'' None None
       (Some ''Network could not be found for uuid %(uuid)s''),
     Exc ''NetworkNotFoundForCidr'' ''NetworkNotFound'' None None
       (Some ''Network could not be found with cidr %(cidr)s.''),
     Exc ''NetworkNotFoundForInstance'' ''NetworkNotFound'' None None
       (Some ''Network could not be found for instance %(instance_id)s.''),
     Exc ''NoNetworksFound'' ''NotFound'' None None
       (Some ''No networks defined.''),
     Exc ''NoMoreNetworks'' ''NovaException'' None None
       (Some ''No more available networks.''),
     Exc ''NetworkNotFoundForProject'' ''NetworkNotFound'' None None
       (Some ''Either network uuid %(network_uuid)s is not present or is not assigned to the project %(project_id)s.''),
     Exc ''NetworkAmbiguous'' ''Invalid'' None None
       (Some ''More than one possible network found. Specify network ID(s) to select which one(s) to connect to.''),
     Exc ''UnableToAutoAllocateNetwork'' ''Invalid'' None None
       (Some ''Unable to automatically allocate a network for project %(project_id)s''),
     Exc ''NetworkRequiresSubnet'' ''Invalid'' None None
       (Some ''Network %(network_uuid)s requires a subnet in order to boot instances on.''),
     Exc ''ExternalNetworkAttachForbidden'' ''Forbidden'' None None
       (Some ''It is not allowed to create an interface on external network %(network_uuid)s''),
     Exc ''NetworkMissingPhysicalNetwork'' ''NovaException'' None None
       (Some ''Physical network is missing for network %(network_uuid)s''),
     Exc ''VifDetailsMissingVhostuserSockPath'' ''Invalid'' None None
       (Some ''vhostuser_sock_path not present in vif_details for vif %(vif_id)s''),
     Exc ''VifDetailsMissingMacvtapParameters'' ''Invalid'' None None
       (Some ''Parameters %(missing_params)s not present in vif_details for vif %(vif_id)s. Check your Neutron configuration to validate that the macvtap parameters are correct.''),
     Exc ''OvsConfigurationFailure'' ''NovaException'' None None
       (Some ''OVS configuration failed with: %(inner_exception)s.''),
     Exc ''DatastoreNotFound'' ''NotFound'' None None
       (Some ''Could not find the datastore reference(s) which the VM uses.''),
     Exc ''PortInUse'' ''Invalid'' None None
       (Some ''Port %(port_id)s is still in use.''),
     Exc ''PortRequiresFixedIP'' ''Invalid'' None None
       (Some ''Port %(port_id)s requires a FixedIP in order to be used.''),
     Exc ''PortNotUsable'' ''Invalid'' None None
       (Some ''Port %(port_id)s not usable for instance %(instance)s.''),
     Exc ''PortNotUsableDNS'' ''Invalid'' None None
       (Some ''Port %(port_id)s not usable for instance %(instance)s. Value %(value)s assigned to dns_name attribute does not match instance's hostname %(hostname)s'')]"

definition exc_classes_6 :: "exc_class list" where
  "exc_classes_6 = [
     Exc ''PortNotFree'' ''Invalid'' None None
       (Some ''No free port available for instance %(instance)s.''),
     Exc ''PortBindingFailed'' ''Invalid'' None None
       (Some ''Binding failed for port %(port_id)s, please check neutron logs for more information.''),
     Exc ''PortUpdateFailed'' ''Invalid'' None None
       (Some ''Port update failed for port %(port_id)s: %(reason)s''),
     Exc ''FixedIpExists'' ''NovaException'' None None
       (Some ''Fixed IP %(address)s already exists.''),
     Exc ''FixedIpNotFound'' ''NotFound'' None None
       (Some ''No fixed IP associated with id %(id)s.''),
     Exc ''FixedIpNotFoundForAddress'' ''FixedIpNotFound'' None None
       (Some ''Fixed IP not found for address %(address)s.''),
     Exc ''FixedIpNotFoundForInstance'' ''FixedIpNotFound'' None None
       (Some ''Instance %(instance_uuid)s has zero fixed IPs.''),
     Exc ''FixedIpNotFoundForNetworkHost'' ''FixedIpNotFound'' None None
       (Some ''Network host %(host)s has zero fixed IPs in network %(network_id)s.''),
     Exc ''FixedIpNotFoundForSpecificInstance'' ''FixedIpNotFound'' None None
       (Some ''Instance %(instance_uuid)s doesn't have fixed IP '%(ip)s'.''),
     Exc ''FixedIpNotFoundForNetwork'' ''FixedIpNotFound'' None None
       (Some ''Fixed IP address (%(address)s) does not exist in network (%(network_uuid)s).''),
     Exc ''FixedIpAssociateFailed'' ''NovaException'' None None
       (Some ''Fixed IP associate failed for network: %(net)s.''),
     Exc ''FixedIpAlreadyInUse'' ''NovaException'' None None
       (Some ''Fixed IP address %(address)s is already in use on instance %(instance_uuid)s.''),
     Exc ''FixedIpAssociatedWithMultipleInstances'' ''NovaException'' None None
       (Some ''More than one instance is associated with fixed IP address '%(address)s'.''),
     Exc ''FixedIpInvalid'' ''Invalid'' None None
       (Some ''Fixed IP address %(address)s is invalid.''),
     Exc ''FixedIpInvalidOnHost'' ''Invalid'' None None
       (Some ''The fixed IP associated with port %(port_id)s is not compatible with the host.''),
     Exc ''NoMoreFixedIps'' ''NovaException'' None None
       (Some ''No fixed IP addresses available for network: %(net)s''),
     Exc ''NoFixedIpsDefined'' ''NotFound'' None None
       (Some ''Zero fixed IPs could be found.''),
     Exc ''FloatingIpExists'' ''NovaException'' None None
       (Some ''Floating IP %(address)s already exists.''),
     Exc ''FloatingIpNotFound'' ''NotFound'' None None
       (Some ''Floating IP not found for ID %(id)s.''),
     Exc ''FloatingIpDNSExists'' ''Invalid'' None None
       (Some ''The DNS entry %(name)s already exists in domain %(domain)s.''),
     Exc ''FloatingIpNotFoundForAddress'' ''FloatingIpNotFound'' None None
       (Some ''Floating IP not found for address %(address)s.''),
     Exc ''FloatingIpNotFoundForHost'' ''FloatingIpNotFound'' None None
       (Some ''Floating IP not found for host %(host)s.''),
     Exc ''FloatingIpMultipleFoundForAddress'' ''NovaException'' None None
       (Some ''Multiple floating IPs are found for address %(address)s.''),
     Exc ''FloatingIpPoolNotFound'' ''NotFound'' None (Some True)
       (Some ''Floating IP pool not found.''),
     Exc ''NoMoreFloatingIps'' ''FloatingIpNotFound'' None (Some True)
       (Some ''Zero floating IPs available.''),
     Exc ''FloatingIpAssociated'' ''NovaException'' None None
       (Some ''Floating IP %(address)s is associated.''),
     Exc ''FloatingIpNotAssociated'' ''NovaException'' None None
       (Some ''Floating IP %(address)s is not associated.''),
     Exc ''NoFloatingIpsDefined'' ''NotFound'' None None
       (Some ''Zero floating IPs exist.''),
     Exc ''NoFloatingIpInterface'' ''NotFound'' None None
       (Some ''Interface %(interface)s not found.''),
     Exc ''FloatingIpAllocateFailed'' ''NovaException'' None None
       (Some ''Floating IP allocate failed.''),
     Exc ''FloatingIpAssociateFailed'' ''NovaException'' None None
       (Some ''Floating IP %(address)s association has failed.''),
     Exc ''FloatingIpBadRequest'' ''Invalid'' None None
       (Some ''The floating IP request failed with a BadRequest''),
     Exc ''CannotDisassociateAutoAssignedFloatingIP'' ''NovaException'' None None
       (Some ''Cannot disassociate auto assigned floating IP''),
     Exc ''KeypairNotFound'' ''NotFound'' None None
       (Some ''Keypair %(name)s not found for user %(user_id)s''),
     Exc ''ServiceNotFound'' ''NotFound'' None None
       (Some ''Service %(service_id)s could not be found.''),
     Exc ''CaseNotFound'' ''NotFound'' None None
       (Some ''Testcase %(testcase_id)s could not be found.'')]"

definition exc_classes_7 :: "exc_class list" where
  "exc_classes_7 = [
     Exc ''ServiceBinaryExists'' ''NovaException'' None None
       (Some ''Service with host %(host)s binary %(binary)s exists.''),
     Exc ''ServiceTopicExists'' ''NovaException'' None None
       (Some ''Service with host %(host)s topic %(topic)s exists.''),
     Exc ''HostNotFound'' ''NotFound'' None None
       (Some ''Host %(host)s could not be found.''),
     Exc ''ComputeHostNotFound'' ''HostNotFound'' None None
       (Some ''Compute host %(host)s could not be found.''),
     Exc ''ComputeHostNotCreated'' ''HostNotFound'' None None
       (Some ''Compute host %(name)s needs to be created first before updating.''),
     Exc ''HostBinaryNotFound'' ''NotFound'' None None
       (Some ''Could not find binary %(binary)s on host %(host)s.''),
     Exc ''InvalidReservationExpiration'' ''Invalid'' None None
       (Some ''Invalid reservation expiration %(expire)s.''),
     Exc ''InvalidQuotaValue'' ''Invalid'' None None
       (Some ''Change would make usage less than 0 for the following resources: %(unders)s''),
     Exc ''InvalidQuotaMethodUsage'' ''Invalid'' None None
       (Some ''Wrong quota method %(method)s used on resource %(res)s''),
     Exc ''QuotaNotFound'' ''NotFound'' None None
       (Some ''Quota could not be found''),
     Exc ''QuotaExists'' ''NovaException'' None None
       (Some ''Quota exists for project %(project_id)s, resource %(resource)s''),
     Exc ''QuotaResourceUnknown'' ''QuotaNotFound'' None None
       (Some ''Unknown quota resources %(unknown)s.''),
     Exc ''ProjectUserQuotaNotFound'' ''QuotaNotFound'' None None
       (Some ''Quota for user %(user_id)s in project %(project_id)s could not be found.''),
     Exc ''ProjectQuotaNotFound'' ''QuotaNotFound'' None None
       (Some ''Quota for project %(project_id)s could not be found.''),
     Exc ''QuotaClassNotFound'' ''QuotaNotFound'' None None
       (Some ''Quota class %(class_name)s could not be found.''),
     Exc ''QuotaUsageNotFound'' ''QuotaNotFound'' None None
       (Some ''Quota usage for project %(project_id)s could not be found.''),
     Exc ''QuotaUsageRefreshNotAllowed'' ''Invalid'' None None
       (Some ''Quota usage refresh of resource %(resource)s for project %(project_id)s, user %(user_id)s, is not allowed. The allowed resources are %(syncable)s.''),
     Exc ''ReservationNotFound'' ''QuotaNotFound'' None None
       (Some ''Quota reservation %(uuid)s could not be found.''),
     Exc ''OverQuota'' ''NovaException'' None None
       (Some ''Quota exceeded for resources: %(overs)s''),
     Exc ''SecurityGroupNotFound'' ''NotFound'' None None
       (Some ''Security group %(security_group_id)s not found.''),
     Exc ''SecurityGroupNotFoundForProject'' ''SecurityGroupNotFound'' None None
       (Some ''Security group %(security_group_id)s not found for project %(project_id)s.''),
     Exc ''SecurityGroupNotFoundForRule'' ''SecurityGroupNotFound'' None None
       (Some ''Security group with rule %(rule_id)s not found.''),
     Exc ''SecurityGroupExists'' ''Invalid'' None None
       (Some ''Security group %(security_group_name)s already exists for project %(project_id)s.''),
     Exc ''SecurityGroupExistsForInstance'' ''Invalid'' None None
       (Some ''Security group %(security_group_id)s is already associated with the instance %(instance_id)s''),
     Exc ''SecurityGroupNotExistsForInstance'' ''Invalid'' None None
       (Some ''Security group %(security_group_id)s is not associated with the instance %(instance_id)s''),
     Exc ''SecurityGroupDefaultRuleNotFound'' ''Invalid'' None None
       (Some ''Security group default rule (%rule_id)s not found.''),
     Exc ''SecurityGroupCannotBeApplied'' ''Invalid'' None None
       (Some ''Network requires port_security_enabled and subnet associated in order to apply security groups.''),
     Exc ''SecurityGroupRuleExists'' ''Invalid'' None None
       (Some ''Rule already exists in group: %(rule)s''),
     Exc ''NoUniqueMatch'' ''NovaException'' (Some 409) None
       (Some ''No Unique Match Found.''),
     Exc ''NoActiveMigrationForInstance'' ''NotFound'' None None
       (Some ''Active live migration for instance %(instance_id)s not found''),
     Exc ''MigrationNotFound'' ''NotFound'' None None
       (Some ''Migration %(migration_id)s could not be found.''),
     Exc ''MigrationNotFoundByStatus'' ''MigrationNotFound'' None None
       (Some ''Migration not found for instance %(instance_id)s with status %(status)s.''),
     Exc ''MigrationNotFoundForInstance'' ''MigrationNotFound'' None None
       (Some ''Migration %(migration_id)s not found for instance %(instance_id)s''),
     Exc ''InvalidMigrationState'' ''Invalid'' None None
       (Some ''Migration %(migration_id)s state of instance %(instance_uuid)s is %(state)s. Cannot %(method)s while the migration is in this state.'')]"

definition exc_classes_8 :: "exc_class list" where
  "exc_classes_8 = [
     Exc ''ConsoleLogOutputException'' ''NovaException'' None None
       (Some ''Console log output could not be retrieved for instance %(instance_id)s. Reason: %(reason)s''),
     Exc ''ConsolePoolNotFound'' ''NotFound'' None None
       (Some ''Console pool %(pool_id)s could not be found.''),
     Exc ''ConsolePoolExists'' ''NovaException'' None None
       (Some ''Console pool with host %(host)s, console_type %(console_type)s and compute_host %(compute_host)s already exists.''),
     Exc ''ConsolePoolNotFoundForHostType'' ''NotFound'' None None
       (Some ''Console pool of type %(console_type)s for compute host %(compute_host)s on proxy host %(host)s not found.''),
     Exc ''ConsoleNotFound'' ''NotFound'' None None
       (Some ''Console %(console_id)s could not be found.''),
     Exc ''ConsoleNotFoundForInstance'' ''ConsoleNotFound'' None None
       (Some ''Console for instance %(instance_uuid)s could not be found.''),
     Exc ''ConsoleNotAvailable'' ''NotFound'' None None
       (Some ''Guest does not have a console available.''),
     Exc ''ConsoleNotFoundInPoolForInstance'' ''ConsoleNotFound'' None None
       (Some ''Console for instance %(instance_uuid)s in pool %(pool_id)s could not be found.''),
     Exc ''ConsoleTypeInvalid'' ''Invalid'' None None
       (Some ''Invalid console type %(console_type)s''),
     Exc ''ConsoleTypeUnavailable'' ''Invalid'' None None
       (Some ''Unavailable console type %(console_type)s.''),
     Exc ''ConsolePortRangeExhausted'' ''NovaException'' None None
       (Some ''The console port range %(min_port)d-%(max_port)d is exhausted.''),
     Exc ''FlavorNotFound'' ''NotFound'' None None
       (Some ''Flavor %(flavor_id)s could not be found.''),
     Exc ''FlavorNotFoundByName'' ''FlavorNotFound'' None None
       (Some ''Flavor with name %(flavor_name)s could not be found.''),
     Exc ''FlavorAccessNotFound'' ''NotFound'' None None
       (Some ''Flavor access not found for %(flavor_id)s / %(project_id)s combination.''),
     Exc ''FlavorExtraSpecUpdateCreateFailed'' ''NovaException'' None None
       (Some ''Flavor %(id)s extra spec cannot be updated or created after %(retries)d retries.''),
     Exc ''CellNotFound'' ''NotFound'' None None
       (Some ''Cell %(cell_name)s doesn't exist.''),
     Exc ''CellExists'' ''NovaException'' None None
       (Some ''Cell with name %(name)s already exists.''),
     Exc ''CellRoutingInconsistency'' ''NovaException'' None None
       (Some ''Inconsistency in cell routing: %(reason)s''),
     Exc ''CellServiceAPIMethodNotFound'' ''NotFound'' None None
       (Some ''Service API method not found: %(detail)s''),
     Exc ''CellTimeout'' ''NotFound'' None None
       (Some ''Timeout waiting for response from cell''),
     Exc ''CellMaxHopCountReached'' ''NovaException'' None None
       (Some ''Cell message has reached maximum hop count: %(hop_count)s''),
     Exc ''NoCellsAvailable'' ''NovaException'' None None
       (Some ''No cells available matching scheduling criteria.''),
     Exc ''CellsUpdateUnsupported'' ''NovaException'' None None
       (Some ''Cannot update cells configuration file.''),
     Exc ''InstanceUnknownCell'' ''NotFound'' None None
       (Some ''Cell is not known for instance %(instance_uuid)s''),
     Exc ''SchedulerHostFilterNotFound'' ''NotFound'' None None
       (Some ''Scheduler Host Filter %(filter_name)s could not be found.''),
     Exc ''FlavorExtraSpecsNotFound'' ''NotFound'' None None
       (Some ''Flavor %(flavor_id)s has no extra specs with key %(extra_specs_key)s.''),
     Exc ''ComputeHostMetricNotFound'' ''NotFound'' None None
       (Some ''Metric %(name)s could not be found on the compute host node %(host)s.%(node)s.''),
     Exc ''FileNotFound'' ''NotFound'' None None
       (Some ''File %(file_path)s could not be found.''),
     Exc ''SwitchNotFoundForNetworkAdapter'' ''NotFound'' None None
       (Some ''Virtual switch associated with the network adapter %(adapter)s not found.''),
     Exc ''NetworkAdapterNotFound'' ''NotFound'' None None
       (Some ''Network adapter %(adapter)s could not be found.''),
     Exc ''ClassNotFound'' ''NotFound'' None None
       (Some ''Class %(class_name)s could not be found: %(exception)s''),
     Exc ''InstanceTagNotFound'' ''NotFound'' None None
       (Some (''Instance %(instance_id)s has no tag '%(tag)s'' @ [CHR 0x27])),
     Exc ''RotationRequiredForBackup'' ''NovaException'' None None
       (Some ''Rotation param is required for backup image_type''),
     Exc ''KeyPairExists'' ''NovaException'' None None
       (Some ''Key pair '%(key_name)s' already exists.''),
     Exc ''InstanceExists'' ''NovaException'' None None
       (Some ''Instance %(name)s already exists.'')]"

definition exc_classes_9 :: "exc_class list" where
  "exc_classes_9 = [
     Exc ''FlavorExists'' ''NovaException'' None None
       (Some ''Flavor with name %(name)s already exists.''),
     Exc ''FlavorIdExists'' ''NovaException'' None None
       (Some ''Flavor with ID %(flavor_id)s already exists.''),
     Exc ''FlavorAccessExists'' ''NovaException'' None None
       (Some ''Flavor access already exists for flavor %(flavor_id)s and project %(project_id)s combination.''),
     Exc ''InvalidSharedStorage'' ''NovaException'' None None
       (Some ''%(path)s is not on shared storage: %(reason)s''),
     Exc ''InvalidLocalStorage'' ''NovaException'' None None
       (Some ''%(path)s is not on local storage: %(reason)s''),
     Exc ''StorageError'' ''NovaException'' None None
       (Some ''Storage error: %(reason)s''),
     Exc ''MigrationError'' ''NovaException'' None None
       (Some ''Migration error: %(reason)s''),
     Exc ''MigrationPreCheckError'' ''MigrationError'' None None
       (Some ''Migration pre-check error: %(reason)s''),
     Exc ''MigrationPreCheckClientException'' ''MigrationError'' None None
       (Some ''Client exception during Migration Pre check: %(reason)s''),
     Exc ''MigrationSchedulerRPCError'' ''MigrationError'' None None
       (Some ''Migration select destinations error: %(reason)s''),
     Exc ''RPCPinnedToOldVersion'' ''NovaException'' None None
       (Some ''RPC is pinned to old version''),
     Exc ''MalformedRequestBody'' ''NovaException'' None None
       (Some ''Malformed message body: %(reason)s''),
     Exc ''ConfigNotFound'' ''NovaException'' None None
       (Some ''Could not find config at %(path)s''),
     Exc ''PasteAppNotFound'' ''NovaException'' None None
       (Some ''Could not load paste app '%(name)s' from %(path)s''),
     Exc ''CannotResizeToSameFlavor'' ''NovaException'' None None
       (Some ''When resizing, instances must change flavor!''),
     Exc ''ResizeError'' ''NovaException'' None None
       (Some ''Resize error: %(reason)s''),
     Exc ''CannotResizeDisk'' ''NovaException'' None None
       (Some ''Server disk was unable to be resized because: %(reason)s''),
     Exc ''FlavorMemoryTooSmall'' ''NovaException'' None None
       (Some ''Flavor's memory is too small for requested image.''),
     Exc ''FlavorDiskTooSmall'' ''NovaException'' None None
       (Some ''The created instance's disk would be too small.''),
     Exc ''FlavorDiskSmallerThanImage'' ''FlavorDiskTooSmall'' None None
       (Some ''Flavor's disk is too small for requested image. Flavor disk is %(flavor_size)i bytes, image is %(image_size)i bytes.''),
     Exc ''FlavorDiskSmallerThanMinDisk'' ''FlavorDiskTooSmall'' None None
       (Some ''Flavor's disk is smaller than the minimum size specified in image metadata. Flavor disk is %(flavor_size)i bytes, minimum size is %(image_min_disk)i bytes.''),
     Exc ''VolumeSmallerThanMinDisk'' ''FlavorDiskTooSmall'' None None
       (Some ''Volume is smaller than the minimum size specified in image metadata. Volume size is %(volume_size)i bytes, minimum size is %(image_min_disk)i bytes.''),
     Exc ''InsufficientFreeMemory'' ''NovaException'' None None
       (Some ''Insufficient free memory on compute node to start %(uuid)s.''),
     Exc ''NoValidHost'' ''NovaException'' None None
       (Some ''No valid host was found. %(reason)s''),
     Exc ''MaxRetriesExceeded'' ''NoValidHost'' None None
       (Some ''Exceeded maximum number of retries. %(reason)s''),
     Exc ''QuotaError'' ''NovaException'' (Some 413) (Some True)
       (Some ''Quota exceeded: code=%(code)s''),
     Exc ''TooManyInstances'' ''QuotaError'' None None
       (Some ''Quota exceeded for %(overs)s: Requested %(req)s, but already used %(used)s of %(allowed)s %(overs)s''),
     Exc ''FloatingIpLimitExceeded'' ''QuotaError'' None None
       (Some ''Maximum number of floating IPs exceeded''),
     Exc ''FixedIpLimitExceeded'' ''QuotaError'' None None
       (Some ''Maximum number of fixed IPs exceeded''),
     Exc ''MetadataLimitExceeded'' ''QuotaError'' None None
       (Some ''Maximum number of metadata items exceeds %(allowed)d''),
     Exc ''OnsetFileLimitExceeded'' ''QuotaError'' None None
       (Some ''Personality file limit exceeded''),
     Exc ''OnsetFilePathLimitExceeded'' ''OnsetFileLimitExceeded'' None None
       (Some ''Personality file path too long''),
     Exc ''OnsetFileContentLimitExceeded'' ''OnsetFileLimitExceeded'' None None
       (Some ''Personality file content too long''),
     Exc ''KeypairLimitExceeded'' ''QuotaError'' None None
       (Some ''Maximum number of key pairs exceeded'')]"

definition exc_classes_10 :: "exc_class list" where
  "exc_classes_10 = [
     Exc ''SecurityGroupLimitExceeded'' ''QuotaError'' None None
       (Some ''Maximum number of security groups or rules exceeded''),
     Exc ''PortLimitExceeded'' ''QuotaError'' None None
       (Some ''Maximum number of ports exceeded''),
     Exc ''AggregateError'' ''NovaException'' None None
       (Some ''Aggregate %(aggregate_id)s: action '%(action)s' caused an error: %(reason)s.''),
     Exc ''AggregateNotFound'' ''NotFound'' None None
       (Some ''Aggregate %(aggregate_id)s could not be found.''),
     Exc ''AggregateNameExists'' ''NovaException'' None None
       (Some ''Aggregate %(aggregate_name)s already exists.''),
     Exc ''AggregateHostNotFound'' ''NotFound'' None None
       (Some ''Aggregate %(aggregate_id)s has no host %(host)s.''),
     Exc ''AggregateMetadataNotFound'' ''NotFound'' None None
       (Some ''Aggregate %(aggregate_id)s has no metadata with key %(metadata_key)s.''),
     Exc ''AggregateHostExists'' ''NovaException'' None None
       (Some ''Aggregate %(aggregate_id)s already has host %(host)s.''),
     Exc ''InstancePasswordSetFailed'' ''NovaException'' None (Some True)
       (Some ''Failed to set admin password on %(instance)s because %(reason)s''),
     Exc ''InstanceNotFound'' ''NotFound'' None None
       (Some ''Instance %(instance_id)s could not be found.''),
     Exc ''InstanceInfoCacheNotFound'' ''NotFound'' None None
       (Some ''Info cache for instance %(instance_uuid)s could not be found.''),
     Exc ''InvalidAssociation'' ''NotFound'' None None
       (Some ''Invalid association.''),
     Exc ''MarkerNotFound'' ''NotFound'' None None
       (Some ''Marker %(marker)s could not be found.''),
     Exc ''InvalidInstanceIDMalformed'' ''Invalid'' None None
       (Some ''Invalid id: %(instance_id)s (expecting \"i-...\")''),
     Exc ''InvalidVolumeIDMalformed'' ''Invalid'' None None
       (Some ''Invalid id: %(volume_id)s (expecting \"i-...\")''),
     Exc ''CouldNotFetchImage'' ''NovaException'' None None
       (Some ''Could not fetch image %(image_id)s''),
     Exc ''CouldNotUploadImage'' ''NovaException'' None None
       (Some ''Could not upload image %(image_id)s''),
     Exc ''TaskAlreadyRunning'' ''NovaException'' None None
       (Some ''Task %(task_name)s is already running on host %(host)s''),
     Exc ''TaskNotRunning'' ''NovaException'' None None
       (Some ''Task %(task_name)s is not running on host %(host)s''),
     Exc ''InstanceIsLocked'' ''InstanceInvalidState'' None None
       (Some ''Instance %(instance_uuid)s is locked''),
     Exc ''ConfigDriveInvalidValue'' ''Invalid'' None None
       (Some ''Invalid value for config Drive option: %(option)s''),
     Exc ''ConfigDriveUnsupportedFormat'' ''Invalid'' None None
       (Some ''config drive format '%(format)s' is not supported.''),
     Exc ''ConfigDriveMountFailed'' ''NovaException'' None None
       (Some ''Could not mount vfat config drive. %(operation)s failed. Error: %(error)s''),
     Exc ''ConfigDriveUnknownFormat'' ''NovaException'' None None
       (Some ''Unknown config drive format %(format)s. Select one of iso9660 or vfat.''),
     Exc ''ConfigDriveNotFound'' ''NotFound'' None None
       (Some ''Instance %(instance_uuid)s requires config drive, but it does not exist.''),
     Exc ''InterfaceAttachFailed'' ''Invalid'' None None
       (Some ''Failed to attach network adapter device to %(instance_uuid)s''),
     Exc ''InterfaceAttachFailedNoNetwork'' ''InterfaceAttachFailed'' None None
       (Some ''No specific network was requested and none are available for project '%(project_id)s'.''),
     Exc ''InterfaceDetachFailed'' ''Invalid'' None None
       (Some ''Failed to detach network adapter device from %(instance_uuid)s''),
     Exc ''InstanceUserDataTooLarge'' ''NovaException'' None None
       (Some ''User data too large. User data must be no larger than %(maxsize)s bytes once base64 encoded. Your data is %(length)d bytes''),
     Exc ''InstanceUserDataMalformed'' ''NovaException'' None None
       (Some ''User data needs to be valid base 64.''),
     Exc ''InstanceUpdateConflict'' ''NovaException'' None None
       (Some ''Conflict updating instance %(instance_uuid)s. Expected: %(expected)s. Actual: %(actual)s''),
     Exc ''UnknownInstanceUpdateConflict'' ''InstanceUpdateConflict'' None None
       (Some ''Conflict updating instance %(instance_uuid)s, but we were unable to determine the cause''),
     Exc ''UnexpectedTaskStateError'' ''InstanceUpdateConflict'' None None
       None,
     Exc ''UnexpectedDeletingTaskStateError'' ''UnexpectedTaskStateError'' None None
       None]"

definition exc_classes_11 :: "exc_class list" where
  "exc_classes_11 = [
     Exc ''InstanceActionNotFound'' ''NovaException'' None None
       (Some ''Action for request_id %(request_id)s on instance %(instance_uuid)s not found''),
     Exc ''InstanceActionEventNotFound'' ''NovaException'' None None
       (Some ''Event %(event)s not found for action id %(action_id)s''),
     Exc ''CryptoCAFileNotFound'' ''FileNotFound'' None None
       (Some ''The CA file for %(project)s could not be found''),
     Exc ''CryptoCRLFileNotFound'' ''FileNotFound'' None None
       (Some ''The CRL file for %(project)s could not be found''),
     Exc ''InstanceRecreateNotSupported'' ''Invalid'' None None
       (Some ''Instance recreate is not supported.''),
     Exc ''DBNotAllowed'' ''NovaException'' None None
       (Some ''%(binary)s attempted direct database access which is not allowed by policy''),
     Exc ''UnsupportedVirtType'' ''Invalid'' None None
       (Some ''Virtualization type '%(virt)s' is not supported by this compute driver''),
     Exc ''UnsupportedHardware'' ''Invalid'' None None
       (Some ''Requested hardware '%(model)s' is not supported by the '%(virt)s' virt driver''),
     Exc ''Base64Exception'' ''NovaException'' None None
       (Some ''Invalid Base 64 data for file %(path)s''),
     Exc ''BuildAbortException'' ''NovaException'' None None
       (Some ''Build of instance %(instance_uuid)s aborted: %(reason)s''),
     Exc ''RescheduledException'' ''NovaException'' None None
       (Some ''Build of instance %(instance_uuid)s was re-scheduled: %(reason)s''),
     Exc ''ShadowTableExists'' ''NovaException'' None None
       (Some ''Shadow table with name %(name)s already exists.''),
     Exc ''InstanceFaultRollback'' ''NovaException'' None None
       None,
     Exc ''OrphanedObjectError'' ''NovaException'' None None
       (Some ''Cannot call %(method)s on orphaned %(objtype)s object''),
     Exc ''ObjectActionError'' ''NovaException'' None None
       (Some ''Object action %(action)s failed because: %(reason)s''),
     Exc ''CoreAPIMissing'' ''NovaException'' None None
       (Some ''Core API extensions are missing: %(missing_apis)s''),
     Exc ''AgentError'' ''NovaException'' None None
       (Some ''Error during following call to agent: %(method)s''),
     Exc ''AgentTimeout'' ''AgentError'' None None
       (Some ''Unable to contact guest agent. The following call timed out: %(method)s''),
     Exc ''AgentNotImplemented'' ''AgentError'' None None
       (Some ''Agent does not support the call: %(method)s''),
     Exc ''InstanceGroupNotFound'' ''NotFound'' None None
       (Some ''Instance group %(group_uuid)s could not be found.''),
     Exc ''InstanceGroupIdExists'' ''NovaException'' None None
       (Some ''Instance group %(group_uuid)s already exists.''),
     Exc ''InstanceGroupMemberNotFound'' ''NotFound'' None None
       (Some ''Instance group %(group_uuid)s has no member with id %(instance_id)s.''),
     Exc ''InstanceGroupPolicyNotFound'' ''NotFound'' None None
       (Some ''Instance group %(group_uuid)s has no policy %(policy)s.''),
     Exc ''InstanceGroupSaveException'' ''NovaException'' None None
       (Some ''%(field)s should not be part of the updates.''),
     Exc ''PluginRetriesExceeded'' ''NovaException'' None None
       (Some ''Number of retries to plugin (%(num_retries)d) exceeded.''),
     Exc ''ImageDownloadModuleError'' ''NovaException'' None None
       (Some ''There was an error with the download module %(module)s. %(reason)s''),
     Exc ''ImageDownloadModuleMetaDataError'' ''ImageDownloadModuleError'' None None
       (Some ''The metadata for this location will not work with this module %(module)s.  %(reason)s.''),
     Exc ''ImageDownloadModuleNotImplementedError'' ''ImageDownloadModuleError'' None None
       (Some ''The method %(method_name)s is not implemented.''),
     Exc ''ImageDownloadModuleConfigurationError'' ''ImageDownloadModuleError'' None None
       (Some ''The module %(module)s is misconfigured: %(reason)s.''),
     Exc ''SignatureVerificationError'' ''NovaException'' None None
       (Some ''Signature verification for the image failed: %(reason)s.''),
     Exc ''ResourceMonitorError'' ''NovaException'' None None
       (Some ''Error when creating resource monitor: %(monitor)s''),
     Exc ''PciDeviceWrongAddressFormat'' ''NovaException'' None None
       (Some ''The PCI address %(address)s has an incorrect format.''),
     Exc ''PciDeviceInvalidAddressField'' ''NovaException'' None None
       (Some ''Invalid PCI Whitelist: The PCI address %(address)s has an invalid %(field)s.''),
     Exc ''PciDeviceInvalidDeviceName'' ''NovaException'' None None
       (Some ''Invalid PCI Whitelist: The PCI whitelist can specify devname or address, but not both'')]"

definition exc_classes_12 :: "exc_class list" where
  "exc_classes_12 = [
     Exc ''PciDeviceNotFoundById'' ''NotFound'' None None
       (Some ''PCI device %(id)s not found''),
     Exc ''PciDeviceNotFound'' ''NotFound'' None None
       (Some ''PCI Device %(node_id)s:%(address)s not found.''),
     Exc ''PciDeviceInvalidStatus'' ''Invalid'' None None
       (Some ''PCI device %(compute_node_id)s:%(address)s is %(status)s instead of %(hopestatus)s''),
     Exc ''PciDeviceVFInvalidStatus'' ''Invalid'' None None
       (Some ''Not all Virtual Functions of PF %(compute_node_id)s:%(address)s are free.''),
     Exc ''PciDevicePFInvalidStatus'' ''Invalid'' None None
       (Some ''Physical Function %(compute_node_id)s:%(address)s, related to VF %(compute_node_id)s:%(vf_address)s is %(status)s instead of %(hopestatus)s''),
     Exc ''PciDeviceInvalidOwner'' ''Invalid'' None None
       (Some ''PCI device %(compute_node_id)s:%(address)s is owned by %(owner)s instead of %(hopeowner)s''),
     Exc ''PciDeviceRequestFailed'' ''NovaException'' None None
       (Some ''PCI device request %(requests)s failed''),
     Exc ''PciDevicePoolEmpty'' ''NovaException'' None None
       (Some ''Attempt to consume PCI device %(compute_node_id)s:%(address)s from empty pool''),
     Exc ''PciInvalidAlias'' ''Invalid'' None None
       (Some ''Invalid PCI alias definition: %(reason)s''),
     Exc ''PciRequestAliasNotDefined'' ''NovaException'' None None
       (Some ''PCI alias %(alias)s is not defined''),
     Exc ''MissingParameter'' ''NovaException'' (Some 400) None
       (Some ''Not enough parameters: %(reason)s''),
     Exc ''PciConfigInvalidWhitelist'' ''Invalid'' None None
       (Some ''Invalid PCI devices Whitelist config %(reason)s''),
     Exc ''InternalError'' ''NovaException'' None None
       (Some ''%(err)s''),
     Exc ''PciDevicePrepareFailed'' ''NovaException'' None None
       (Some ''Failed to prepare PCI device %(id)s for instance %(instance_uuid)s: %(reason)s''),
     Exc ''PciDeviceDetachFailed'' ''NovaException'' None None
       (Some ''Failed to detach PCI device %(dev)s: %(reason)s''),
     Exc ''PciDeviceUnsupportedHypervisor'' ''NovaException'' None None
       (Some ''%(type)s hypervisor does not support PCI devices''),
     Exc ''KeyManagerError'' ''NovaException'' None None
       (Some ''Key manager error: %(reason)s''),
     Exc ''VolumesNotRemoved'' ''Invalid'' None None
       (Some ''Failed to remove volume(s): (%(reason)s)''),
     Exc ''VolumeRebaseFailed'' ''NovaException'' None None
       (Some ''Volume rebase failed: %(reason)s''),
     Exc ''InvalidVideoMode'' ''Invalid'' None None
       (Some ''Provided video model (%(model)s) is not supported.''),
     Exc ''RngDeviceNotExist'' ''Invalid'' None None
       (Some ''The provided RNG device path: (%(path)s) is not present on the host.''),
     Exc ''RequestedVRamTooHigh'' ''NovaException'' None None
       (Some ''The requested amount of video memory %(req_vram)d is higher than the maximum allowed by flavor %(max_vram)d.''),
     Exc ''InvalidWatchdogAction'' ''Invalid'' None None
       (Some ''Provided watchdog action (%(action)s) is not supported.''),
     Exc ''NoLiveMigrationForConfigDriveInLibVirt'' ''NovaException'' None None
       (Some ''Live migration of instances with config drives is not supported in libvirt unless libvirt instance path and drive data is shared across compute nodes.''),
     Exc ''LiveMigrationWithOldNovaNotSupported'' ''NovaException'' None None
       (Some ''Live migration with API v2.25 requires all the Mitaka upgrade to be complete before it is available.''),
     Exc ''LiveMigrationURINotAvailable'' ''NovaException'' None None
       (Some ''No live migration URI configured and no default available for \"%(virt_type)s\" hypervisor virtualization type.''),
     Exc ''UnshelveException'' ''NovaException'' None None
       (Some ''Error during unshelve instance %(instance_id)s: %(reason)s''),
     Exc ''ImageVCPULimitsRangeExceeded'' ''Invalid'' None None
       (Some ''Image vCPU limits %(sockets)d:%(cores)d:%(threads)d exceeds permitted %(maxsockets)d:%(maxcores)d:%(maxthreads)d''),
     Exc ''ImageVCPUTopologyRangeExceeded'' ''Invalid'' None None
       (Some ''Image vCPU topology %(sockets)d:%(cores)d:%(threads)d exceeds permitted %(maxsockets)d:%(maxcores)d:%(maxthreads)d''),
     Exc ''ImageVCPULimitsRangeImpossible'' ''Invalid'' None None
       (Some ''Requested vCPU limits %(sockets)d:%(cores)d:%(threads)d are impossible to satisfy for vcpus count %(vcpus)d''),
     Exc ''InvalidArchitectureName'' ''Invalid'' None None
       (Some ''Architecture name '%(arch)s' is not recognised'')]"

definition exc_classes_13 :: "exc_class list" where
  "exc_classes_13 = [
     Exc ''ImageNUMATopologyIncomplete'' ''Invalid'' None None
       (Some ''CPU and memory allocation must be provided for all NUMA nodes''),
     Exc ''ImageNUMATopologyForbidden'' ''Forbidden'' None None
       (Some ''Image property '%(name)s' is not permitted to override NUMA configuration set against the flavor''),
     Exc ''ImageNUMATopologyAsymmetric'' ''Invalid'' None None
       (Some ''Asymmetric NUMA topologies require explicit assignment of CPUs and memory to nodes in image or flavor''),
     Exc ''ImageNUMATopologyCPUOutOfRange'' ''Invalid'' None None
       (Some ''CPU number %(cpunum)d is larger than max %(cpumax)d''),
     Exc ''ImageNUMATopologyCPUDuplicates'' ''Invalid'' None None
       (Some ''CPU number %(cpunum)d is assigned to two nodes''),
     Exc ''ImageNUMATopologyCPUsUnassigned'' ''Invalid'' None None
       (Some ''CPU number %(cpuset)s is not assigned to any node''),
     Exc ''ImageNUMATopologyMemoryOutOfRange'' ''Invalid'' None None
       (Some ''%(memsize)d MB of memory assigned, but expected %(memtotal)d MB''),
     Exc ''InvalidHostname'' ''Invalid'' None None
       (Some (''Invalid characters in hostname '%(hostname)s'' @ [CHR 0x27])),
     Exc ''NumaTopologyNotFound'' ''NotFound'' None None
       (Some ''Instance %(instance_uuid)s does not specify a NUMA topology''),
     Exc ''MigrationContextNotFound'' ''NotFound'' None None
       (Some ''Instance %(instance_uuid)s does not specify a migration context.''),
     Exc ''SocketPortRangeExhaustedException'' ''NovaException'' None None
       (Some ''Not able to acquire a free port for %(host)s''),
     Exc ''SocketPortInUseException'' ''NovaException'' None None
       (Some ''Not able to bind %(host)s:%(port)d, %(error)s''),
     Exc ''ImageSerialPortNumberInvalid'' ''Invalid'' None None
       (Some ''Number of serial ports '%(num_ports)s' specified in '%(property)s' isn't valid.''),
     Exc ''ImageSerialPortNumberExceedFlavorValue'' ''Invalid'' None None
       (Some ''Forbidden to exceed flavor value of number of serial ports passed in image meta.''),
     Exc ''SerialPortNumberLimitExceeded'' ''Invalid'' None None
       (Some ''Maximum number of serial port exceeds %(allowed)d for %(virt_type)s''),
     Exc ''InvalidImageConfigDrive'' ''Invalid'' None None
       (Some ''Image's config drive option '%(config_drive)s' is invalid''),
     Exc ''InvalidHypervisorVirtType'' ''Invalid'' None None
       (Some ''Hypervisor virtualization type '%(hv_type)s' is not recognised''),
     Exc ''InvalidVirtualMachineMode'' ''Invalid'' None None
       (Some ''Virtual machine mode '%(vmmode)s' is not recognised''),
     Exc ''InvalidToken'' ''Invalid'' None None
       (Some ''The token '%(token)s' is invalid or has expired''),
     Exc ''InvalidConnectionInfo'' ''Invalid'' None None
       (Some ''Invalid Connection Info''),
     Exc ''InstanceQuiesceNotSupported'' ''Invalid'' None None
       (Some ''Quiescing is not supported in instance %(instance_id)s''),
     Exc ''InstanceAgentNotEnabled'' ''Invalid'' None (Some True)
       (Some ''Guest agent is not enabled for the instance''),
     Exc ''QemuGuestAgentNotEnabled'' ''InstanceAgentNotEnabled'' None None
       (Some ''QEMU guest agent is not enabled''),
     Exc ''SetAdminPasswdNotSupported'' ''Invalid'' None (Some True)
       (Some ''Set admin password is not supported''),
     Exc ''MemoryPageSizeInvalid'' ''Invalid'' None None
       (Some (''Invalid memory page size '%(pagesize)s'' @ [CHR 0x27])),
     Exc ''MemoryPageSizeForbidden'' ''Invalid'' None None
       (Some (''Page size %(pagesize)s forbidden against '%(against)s'' @ [CHR 0x27])),
     Exc ''MemoryPageSizeNotSupported'' ''Invalid'' None None
       (Some ''Page size %(pagesize)s is not supported by the host.''),
     Exc ''CPUPinningNotSupported'' ''Invalid'' None None
       (Some ''CPU pinning is not supported by the host: %(reason)s''),
     Exc ''CPUPinningInvalid'' ''Invalid'' None None
       (Some ''CPU set to pin %(requested)s must be a subset of free CPU set %(free)s''),
     Exc ''CPUUnpinningInvalid'' ''Invalid'' None None
       (Some ''CPU set to unpin %(requested)s must be a subset of pinned CPU set %(pinned)s''),
     Exc ''CPUPinningUnknown'' ''Invalid'' None None
       (Some ''CPU set to pin %(requested)s must be a subset of known CPU set %(cpuset)s''),
     Exc ''CPUUnpinningUnknown'' ''Invalid'' None None
       (Some ''CPU set to unpin %(requested)s must be a subset of known CPU set %(cpuset)s''),
     Exc ''ImageCPUPinningForbidden'' ''Forbidden'' None None
       (Some ''Image property 'hw_cpu_policy' is not permitted to override CPU pinning policy set against the flavor'')]"

definition exc_classes_14 :: "exc_class list" where
  "exc_classes_14 = [
     Exc ''ImageCPUThreadPolicyForbidden'' ''Forbidden'' None None
       (Some ''Image property 'hw_cpu_thread_policy' is not permitted to override CPU thread pinning policy set against the flavor''),
     Exc ''UnsupportedPolicyException'' ''Invalid'' None None
       (Some ''ServerGroup policy is not supported: %(reason)s''),
     Exc ''CellMappingNotFound'' ''NotFound'' None None
       (Some ''Cell %(uuid)s has no mapping.''),
     Exc ''NUMATopologyUnsupported'' ''Invalid'' None None
       (Some ''Host does not support guests with NUMA topology set''),
     Exc ''MemoryPagesUnsupported'' ''Invalid'' None None
       (Some ''Host does not support guests with custom memory page sizes''),
     Exc ''EnumFieldInvalid'' ''Invalid'' None None
       (Some ''%(typename)s in %(fieldname)s is not an instance of Enum''),
     Exc ''EnumFieldUnset'' ''Invalid'' None None
       (Some ''%(fieldname)s missing field type''),
     Exc ''InvalidImageFormat'' ''Invalid'' None None
       (Some (''Invalid image format '%(format)s'' @ [CHR 0x27])),
     Exc ''UnsupportedImageModel'' ''Invalid'' None None
       (Some ''Image model '%(image)s' is not supported''),
     Exc ''HostMappingNotFound'' ''Invalid'' None None
       (Some ''Host '%(name)s' is not mapped to any cell''),
     Exc ''RealtimeConfigurationInvalid'' ''Invalid'' None None
       (Some ''Cannot set realtime policy in a non dedicated cpu pinning policy''),
     Exc ''CPUThreadPolicyConfigurationInvalid'' ''Invalid'' None None
       (Some ''Cannot set cpu thread pinning policy in a non dedicated cpu pinning policy''),
     Exc ''RequestSpecNotFound'' ''NotFound'' None None
       (Some ''RequestSpec not found for instance %(instance_uuid)s''),
     Exc ''UEFINotSupported'' ''Invalid'' None None
       (Some ''UEFI is not supported''),
     Exc ''TriggerCrashDumpNotSupported'' ''Invalid'' None None
       (Some ''Triggering crash dump is not supported''),
     Exc ''UnsupportedHostCPUControlPolicy'' ''Invalid'' None None
       (Some ''Requested CPU control policy not supported by host''),
     Exc ''LibguestfsCannotReadKernel'' ''Invalid'' None None
       (Some ''Libguestfs does not have permission to read host kernel.''),
     Exc ''RealtimePolicyNotSupported'' ''Invalid'' None None
       (Some ''Realtime policy not supported by hypervisor''),
     Exc ''RealtimeMaskNotFoundOrInvalid'' ''Invalid'' None None
       (Some ''Realtime policy needs vCPU(s) mask configured with at least 1 RT vCPU and 1 ordinary vCPU. See hw:cpu_realtime_mask or hw_cpu_realtime_mask''),
     Exc ''OsInfoNotFound'' ''NotFound'' None None
       (Some ''No configuration information found for operating system %(os_name)s''),
     Exc ''BuildRequestNotFound'' ''NotFound'' None None
       (Some ''BuildRequest not found for instance %(uuid)s''),
     Exc ''AttachInterfaceNotSupported'' ''Invalid'' None None
       (Some ''Attaching interfaces is not supported for instance %(instance)s.''),
     Exc ''InvalidReservedMemoryPagesOption'' ''Invalid'' None None
       (Some ''The format of the option 'reserved_huge_pages' is invalid. (found '%(conf)s') Please refer to the nova config-reference.''),
     Exc ''ConcurrentUpdateDetected'' ''NovaException'' None None
       (Some ''Another thread concurrently updated the data. Please retry your update''),
     Exc ''ResourceProviderInUse'' ''NovaException'' None None
       (Some ''Resource provider has allocations.''),
     Exc ''InvalidInventory'' ''Invalid'' None None
       (Some ''Inventory for '%(resource_class)s' on resource provider '%(resource_provider)s' invalid.''),
     Exc ''InventoryInUse'' ''InvalidInventory'' None None
       (Some ''Inventory for '%(resource_classes)s' on resource provider '%(resource_provider)s' in use.''),
     Exc ''InvalidInventoryCapacity'' ''InvalidInventory'' None None
       (Some ''Invalid inventory for '%(resource_class)s' on resource provider '%(resource_provider)s'. The reserved value is greater than or equal to total.''),
     Exc ''InvalidAllocationCapacityExceeded'' ''InvalidInventory'' None None
       (Some ''Unable to create allocation for '%(resource_class)s' on resource provider '%(resource_provider)s'. The requested amount would exceed the capacity.''),
     Exc ''InvalidAllocationConstraintsViolated'' ''InvalidInventory'' None None
       (Some ''Unable to create allocation for '%(resource_class)s' on resource provider '%(resource_provider)s'. The requested amount would violate inventory constraints.''),
     Exc ''UnsupportedPointerModelRequested'' ''Invalid'' None None
       (Some ''Pointer model '%(model)s' requested is not supported by host.''),
     Exc ''NotSupportedWithOption'' ''Invalid'' None None
       (Some ''%(operation)s is not supported in conjunction with the current %(option)s setting.  Please refer to the nova config-reference.'')]"

definition exc_classes_15 :: "exc_class list" where
  "exc_classes_15 = [
     Exc ''Unauthorized'' ''NovaException'' (Some 401) None
       (Some ''Not authorized.''),
     Exc ''NeutronAdminCredentialConfigurationInvalid'' ''Invalid'' None None
       (Some ''Networking client is experiencing an unauthorized exception.'')]"

definition exc_classes :: "exc_class list" where
  "exc_classes = concat [exc_classes_1, exc_classes_2, exc_classes_3, exc_classes_4, exc_classes_5,
     exc_classes_6, exc_classes_7, exc_classes_8, exc_classes_9, exc_classes_10, exc_classes_11,
     exc_classes_12, exc_classes_13, exc_classes_14, exc_classes_15]"

text \<open>
  Attribute lookup along the bases, last class first: what is left of the list after a
  class was found holds its base class.
\<close>

fun attr_in :: "(exc_class \<Rightarrow> 'a option) \<Rightarrow> exc_class list \<Rightarrow> string \<Rightarrow> 'a option" where
  "attr_in f [] c = None"
| "attr_in f (r # rs) c =
     (if exc_name r = c then (case f r of Some x \<Rightarrow> Some x | None \<Rightarrow> attr_in f rs (exc_parent r))
      else attr_in f rs c)"

fun mro_in :: "exc_class list \<Rightarrow> string \<Rightarrow> string list" where
  "mro_in [] c = []"
| "mro_in (r # rs) c = (if exc_name r = c then c # mro_in rs (exc_parent r) else mro_in rs c)"

definition exc_code :: "string \<Rightarrow> int option" where
  "exc_code c = attr_in exc_own_code (rev exc_classes) c"

definition exc_safe :: "string \<Rightarrow> bool option" where
  "exc_safe c = attr_in exc_own_safe (rev exc_classes) c"

definition exc_msg_fmt :: "string \<Rightarrow> string option" where
  "exc_msg_fmt c = attr_in exc_own_msg (rev exc_classes) c"

definition exc_mro :: "string \<Rightarrow> string list" where
  "exc_mro c = mro_in (rev exc_classes) c"

section \<open>Messages\<close>

text \<open>
  Python's \<^verbatim>\<open>msg_fmt % kwargs\<close> with a dictionary: a conversion with a parenthesised key
  takes that key's value, one without takes the dictionary itself. The table uses no
  flags, widths or precisions.
\<close>

datatype fmt_seg = Lit char | Keyed string char | Whole char

datatype fmt_state = Plain | Percent | Name string | Conv string

fun fmt_scan :: "fmt_state \<Rightarrow> string \<Rightarrow> fmt_seg list result" where
  "fmt_scan Plain [] = Inr []"
| "fmt_scan _ [] = Inl ValueError"
| "fmt_scan Plain (c # s) =
     (if c = CHR ''%'' then fmt_scan Percent s else bind_r (fmt_scan Plain s) (\<lambda>r. Inr (Lit c # r)))"
| "fmt_scan Percent (c # s) =
     (if c = CHR ''('' then fmt_scan (Name []) s
      else if c = CHR ''%'' then bind_r (fmt_scan Plain s) (\<lambda>r. Inr (Lit c # r))
      else bind_r (fmt_scan Plain s) (\<lambda>r. Inr (Whole c # r)))"
| "fmt_scan (Name n) (c # s) =
     (if c = CHR '')'' then fmt_scan (Conv n) s else fmt_scan (Name (n @ [c])) s)"
| "fmt_scan (Conv n) (c # s) = bind_r (fmt_scan Plain s) (\<lambda>r. Inr (Keyed n c # r))"

text \<open>\<open>dict_repr\<close> is Python's text of a dictionary, which depends on the order of a hash table.\<close>

fun conv_text :: "ovo_env \<Rightarrow> char \<Rightarrow> pyval \<Rightarrow> string result" where
  "conv_text E c v =
     (if c = CHR ''s'' then Inr (py_str E v)
      else if c = CHR ''d'' \<or> c = CHR ''i'' then
        (case v of PInt n \<Rightarrow> Inr (string_of_int n) | PBool b \<Rightarrow> Inr (if b then ''1'' else ''0'') | _ \<Rightarrow> Inl TypeError)
      else Inl ValueError)"

fun seg_text :: "ovo_env \<Rightarrow> (pydict \<Rightarrow> string) \<Rightarrow> pydict \<Rightarrow> fmt_seg \<Rightarrow> string result" where
  "seg_text E dict_repr kw (Lit c) = Inr [c]"
| "seg_text E dict_repr kw (Keyed n c) = bind_r (ditem kw n) (conv_text E c)"
| "seg_text E dict_repr kw (Whole c) =
     (if c = CHR ''r'' \<or> c = CHR ''s'' then Inr (dict_repr kw)
      else if c = CHR ''d'' \<or> c = CHR ''i'' then Inl TypeError else Inl ValueError)"

definition py_format :: "ovo_env \<Rightarrow> (pydict \<Rightarrow> string) \<Rightarrow> string \<Rightarrow> pydict \<Rightarrow> string result" where
  "py_format E dict_repr fmt kw =
     bind_r (fmt_scan Plain fmt) (\<lambda>segs. bind_r (map_r (seg_text E dict_repr kw) segs) (\<lambda>ts. Inr (concat ts)))"

section \<open>The constructors\<close>

text \<open>
  \<^verbatim>\<open>NovaException.__init__\<close>: the message and the keyword arguments of the new exception.
  \<open>fatal\<close> is the configuration's \<^verbatim>\<open>fatal_exception_format_errors\<close>.
\<close>

definition NovaException_init ::
  "ovo_env \<Rightarrow> (pydict \<Rightarrow> string) \<Rightarrow> bool \<Rightarrow> string \<Rightarrow> pyval \<Rightarrow> pydict \<Rightarrow> (pyval \<times> pydict) result" where
  "NovaException_init E dict_repr fatal c message kwargs =
     (let kw = (if dhas kwargs ''code'' then kwargs
                else case exc_code c of Some k \<Rightarrow> dset ''code'' (PInt k) kwargs | None \<Rightarrow> kwargs);
          fmt = (case exc_msg_fmt c of Some m \<Rightarrow> m | None \<Rightarrow> [])
      in if truthy message then Inr (message, kw)
         else (case py_format E dict_repr fmt kw of
                 Inr m \<Rightarrow> Inr (PStr m, kw)
               | Inl e \<Rightarrow> if fatal then Inl e else Inr (PStr fmt, kw)))"

definition InstanceFaultRollback_init ::
  "ovo_env \<Rightarrow> (pydict \<Rightarrow> string) \<Rightarrow> bool \<Rightarrow> pyval \<Rightarrow> (pyval \<times> pydict) result" where
  "InstanceFaultRollback_init E dict_repr fatal inner_exception =
     NovaException_init E dict_repr fatal ''InstanceFaultRollback''
       (PStr (''Instance rollback performed due to: '' @ py_str E inner_exception)) []"

section \<open>Well-formedness of the table\<close>

text \<open>Every class statement names a base class that is already defined.\<close>

fun closed :: "string list \<Rightarrow> exc_class list \<Rightarrow> bool" where
  "closed known [] \<longleftrightarrow> True"
| "closed known (r # rs) \<longleftrightarrow> exc_parent r \<in> set known \<and> closed (known @ [exc_name r]) rs"

fun rooted :: "exc_class list \<Rightarrow> bool" where
  "rooted [] \<longleftrightarrow> True"
| "rooted (r # rs) \<longleftrightarrow>
     (exc_parent r \<in> exc_name ` set rs \<or>
      exc_name r = ''NovaException'' \<and> exc_own_code r \<noteq> None \<and> exc_own_msg r \<noteq> None \<and> mro_in rs (exc_parent r) = []) \<and> rooted rs"

lemma rooted_mro:
  "rooted rs \<Longrightarrow> c \<in> exc_name ` set rs \<Longrightarrow>
   mro_in rs c \<noteq> [] \<and> last (mro_in rs c) = ''NovaException'' \<and> (\<exists>k. attr_in exc_own_code rs c = Some k) \<and>
   (\<exists>m. attr_in exc_own_msg rs c = Some m)"
proof (induction rs arbitrary: c)
  case (Cons r rs)
  show ?case
  proof (cases "exc_name r = c")
    case True
    then show ?thesis using Cons.IH [of "exc_parent r"] Cons.prems(1) by (auto split: option.splits)
  next
    case False
    then show ?thesis using Cons.IH [of c] Cons.prems by auto
  qed
qed simp

lemma rooted_closed:
  "closed known rs \<Longrightarrow> set known \<subseteq> exc_name ` set ys \<Longrightarrow> rooted ys \<Longrightarrow> rooted (rev rs @ ys)"
proof (induction rs arbitrary: known ys)
  case (Cons r rs)
  have "rooted (rev rs @ (r # ys))"
    by (rule Cons.IH [of "known @ [exc_name r]"]) (use Cons.prems in auto)
  then show ?case by simp
qed simp

lemma rooted_group:
  "rooted ys \<Longrightarrow> set known \<subseteq> exc_name ` set ys \<Longrightarrow> list_all (closed known) cs \<Longrightarrow>
   rooted (rev (concat cs) @ ys)"
proof (induction cs arbitrary: ys)
  case (Cons c cs)
  have "rooted (rev (concat cs) @ (rev c @ ys))"
    by (rule Cons.IH) (use Cons.prems rooted_closed [of known c ys] in auto)
  then show ?case by simp
qed simp

lemma chunks_closed:
  "closed [''NovaException''] (tl exc_classes_1)"
  "list_all (closed [''Invalid'', ''NovaException'', ''InvalidBDM'', ''Forbidden''])
     [exc_classes_2, exc_classes_3, exc_classes_4]"
  "list_all (closed [''NotFound'', ''NovaException'', ''Invalid'', ''Forbidden'', ''InstanceInvalidState''])
     [exc_classes_5, exc_classes_6, exc_classes_7, exc_classes_8, exc_classes_9]"
  "list_all (closed [''NotFound'', ''NovaException'', ''Invalid'', ''Forbidden'', ''InstanceInvalidState'',
       ''FileNotFound'', ''QuotaError''])
     [exc_classes_10, exc_classes_11, exc_classes_12, exc_classes_13, exc_classes_14, exc_classes_15]"
  by (code_simp, (simp only: list.pred_inject, intro conjI TrueI; code_simp)+)

lemma exc_first: "exc_classes_1 = Exc ''NovaException'' ''Exception'' (Some 500) (Some False)
    (Some ''An unknown exception occurred.'') # tl exc_classes_1"
  by (simp add: exc_classes_1_def)

lemma base_names:
  "{''NovaException'', ''Invalid'', ''Forbidden'', ''InvalidBDM''} \<subseteq> exc_name ` set exc_classes_1"
  "''InstanceInvalidState'' \<in> exc_name ` set exc_classes_3" "''NotFound'' \<in> exc_name ` set exc_classes_4"
  "''FileNotFound'' \<in> exc_name ` set exc_classes_8" "''QuotaError'' \<in> exc_name ` set exc_classes_9"
  by (simp_all add: exc_classes_1_def exc_classes_3_def exc_classes_4_def exc_classes_8_def exc_classes_9_def)

lemma exc_rooted: "rooted (rev exc_classes)"
proof -
  let ?b = "concat [exc_classes_2, exc_classes_3, exc_classes_4]"
  let ?c = "concat [exc_classes_5, exc_classes_6, exc_classes_7, exc_classes_8, exc_classes_9]"
  let ?d = "concat [exc_classes_10, exc_classes_11, exc_classes_12, exc_classes_13, exc_classes_14, exc_classes_15]"
  have "rooted (rev exc_classes_1)"
    using rooted_closed [OF chunks_closed(1), of "[hd exc_classes_1]"]
    by (subst exc_first) (simp add: exc_first [THEN arg_cong [where f = hd]] del: list.sel(3))
  then have "rooted (rev ?b @ rev exc_classes_1)"
    by (rule rooted_group [OF _ _ chunks_closed(2)]) (use base_names in auto)
  then have "rooted (rev ?c @ rev ?b @ rev exc_classes_1)"
    by (rule rooted_group [OF _ _ chunks_closed(3)]) (use base_names in auto)
  then have "rooted (rev ?d @ rev ?c @ rev ?b @ rev exc_classes_1)"
    by (rule rooted_group [OF _ _ chunks_closed(4)]) (use base_names in auto)
  moreover have "rev exc_classes = rev ?d @ rev ?c @ rev ?b @ rev exc_classes_1"
    by (simp add: exc_classes_def)
  ultimately show ?thesis by simp
qed

text \<open>The rows that set a code of their own; all other classes inherit theirs.\<close>

definition own_code_rows :: "(string \<times> string \<times> int) list" where
  "own_code_rows = [
     (''NovaException'', ''Exception'', 500), (''Forbidden'', ''NovaException'', 403),
     (''Invalid'', ''NovaException'', 400), (''InvalidAggregateAction'', ''Invalid'', 400),
     (''DevicePathInUse'', ''Invalid'', 409), (''ConstraintNotMet'', ''NovaException'', 412),
     (''NotFound'', ''NovaException'', 404), (''DuplicateVlan'', ''NovaException'', 409),
     (''CidrConflict'', ''NovaException'', 409), (''NoUniqueMatch'', ''NovaException'', 409),
     (''QuotaError'', ''NovaException'', 413), (''MissingParameter'', ''NovaException'', 400),
     (''Unauthorized'', ''NovaException'', 401)]"

fun own_code_ok :: "exc_class \<Rightarrow> bool" where
  "own_code_ok (Exc n p None s m) \<longleftrightarrow>
     n \<notin> set [''Exception'', ''NovaException'', ''Invalid'', ''NotFound'', ''Forbidden'', ''QuotaError'', ''Unauthorized'']"
| "own_code_ok (Exc n p (Some k) s m) \<longleftrightarrow> (n, p, k) \<in> set own_code_rows"

lemma own_codes: "list_all own_code_ok exc_classes"
  unfolding exc_classes_def concat.simps list_all_append append_Nil2
  by (intro conjI; code_simp)

lemma own_code_rowD:
  "r \<in> set exc_classes \<Longrightarrow> exc_own_code r = Some k \<Longrightarrow> (exc_name r, exc_parent r, k) \<in> set own_code_rows"
  "r \<in> set exc_classes \<Longrightarrow> exc_own_code r = None \<Longrightarrow> exc_name r \<notin>
     {''Exception'', ''NovaException'', ''Invalid'', ''NotFound'', ''Forbidden'', ''QuotaError'', ''Unauthorized''}"
  using own_codes by (cases r; auto simp: list_all_iff dest!: bspec)+

text \<open>A branch of the hierarchy answers with the code its root sets.\<close>

lemma mro_upwards:
  "(\<forall>r \<in> set rs. exc_name r \<in> S \<longrightarrow> exc_parent r \<in> S) \<Longrightarrow> p \<in> S \<Longrightarrow> set (mro_in rs p) \<subseteq> S"
  by (induction rs arbitrary: p) auto

lemma branch_code:
  assumes "\<forall>r \<in> set rs. exc_name r \<in> S \<longrightarrow> exc_parent r \<in> S" "d \<notin> S"
    and "\<forall>r \<in> set rs. \<forall>k. exc_own_code r = Some k \<longrightarrow> k \<in> K \<or> exc_name r \<noteq> d \<and> exc_parent r \<in> S"
    and "\<forall>r \<in> set rs. exc_name r = d \<longrightarrow> exc_own_code r \<noteq> None"
    and "d \<in> set (mro_in rs c)"
  shows "\<exists>k \<in> K. attr_in exc_own_code rs c = Some k"
  using assms
proof (induction rs arbitrary: c)
  case (Cons r rs)
  then have up: "set (mro_in rs p) \<subseteq> S" if "p \<in> S" for p using mro_upwards [of rs S p] that by simp
  show ?case
  proof (cases "exc_name r = c")
    case True
    show ?thesis
    proof (cases "exc_own_code r")
      case None
      then show ?thesis using Cons True by auto
    next
      case (Some k)
      then show ?thesis using Cons.prems True up [of "exc_parent r"] by auto
    qed
  qed (use Cons in auto)
qed simp

lemma exc_branch:
  assumes "(d, K, S) \<in> {
    (''NotFound'', {404}, {''NovaException'', ''Exception'', ''Invalid''}),
    (''Forbidden'', {403}, {''NovaException'', ''Exception'', ''Invalid''}),
    (''QuotaError'', {413}, {''NovaException'', ''Exception'', ''Invalid''}),
    (''Unauthorized'', {401}, {''NovaException'', ''Exception'', ''Invalid''}),
    (''Invalid'', {400, 409}, {''NovaException'', ''Exception''})}"
    and "d \<in> set (exc_mro c)"
  shows "\<exists>k \<in> K. exc_code c = Some k"
  unfolding exc_code_def
proof (rule branch_code [where S = S and d = d])
  have own: "\<forall>r \<in> set (rev exc_classes). \<forall>k. exc_own_code r = Some k \<longrightarrow>
      (exc_name r, exc_parent r, k) \<in> set own_code_rows" using own_code_rowD(1) by simp
  have none: "\<forall>r \<in> set (rev exc_classes). exc_own_code r = None \<longrightarrow> exc_name r \<notin>
     {''Exception'', ''NovaException'', ''Invalid'', ''NotFound'', ''Forbidden'', ''QuotaError'', ''Unauthorized''}"
    using own_code_rowD(2) by simp
  show "\<forall>r \<in> set (rev exc_classes). exc_name r \<in> S \<longrightarrow> exc_parent r \<in> S"
  proof (intro ballI impI)
    fix r assume r: "r \<in> set (rev exc_classes)" "exc_name r \<in> S"
    then obtain k where "exc_own_code r = Some k" using none assms(1) by (cases "exc_own_code r") auto
    with own r have "(exc_name r, exc_parent r, k) \<in> set own_code_rows" by blast
    then show "exc_parent r \<in> S" using r(2) assms(1) by (auto simp: own_code_rows_def)
  qed
  show "d \<notin> S" using assms(1) by auto
  show "\<forall>r \<in> set (rev exc_classes). \<forall>k. exc_own_code r = Some k \<longrightarrow>
      k \<in> K \<or> exc_name r \<noteq> d \<and> exc_parent r \<in> S"
  proof (intro ballI allI impI)
    fix r k assume "r \<in> set (rev exc_classes)" "exc_own_code r = Some k"
    with own have "(exc_name r, exc_parent r, k) \<in> set own_code_rows" by blast
    then show "k \<in> K \<or> exc_name r \<noteq> d \<and> exc_parent r \<in> S" using assms(1) by (auto simp: own_code_rows_def)
  qed
  show "\<forall>r \<in> set (rev exc_classes). exc_name r = d \<longrightarrow> exc_own_code r \<noteq> None"
    using none assms(1) by fastforce
  show "d \<in> set (mro_in (rev exc_classes) c)" using assms(2) by (simp add: exc_mro_def)
qed


section \<open>Well-formedness of the messages\<close>

text \<open>A conversion of the table is one of \<^verbatim>\<open>%s\<close>, \<^verbatim>\<open>%d\<close> and \<^verbatim>\<open>%i\<close>, or the stray \<^verbatim>\<open>%r\<close> of one message.\<close>

fun seg_wf :: "fmt_seg \<Rightarrow> bool" where
  "seg_wf (Lit c) = True"
| "seg_wf (Keyed n c) = (c = CHR ''s'' \<or> c = CHR ''d'' \<or> c = CHR ''i'')"
| "seg_wf (Whole c) = (c = CHR ''r'')"

fun msg_wf :: "exc_class \<Rightarrow> bool" where
  "msg_wf (Exc n p k s None) = True"
| "msg_wf (Exc n p k s (Some m)) = (case fmt_scan Plain m of Inl e \<Rightarrow> False | Inr segs \<Rightarrow> list_all seg_wf segs)"

lemma messages_wf: "list_all msg_wf exc_classes"
  unfolding exc_classes_def concat.simps list_all_append append_Nil2
  by (intro conjI; code_simp)

lemma attr_in_row: "attr_in f rs c = Some x \<Longrightarrow> \<exists>r \<in> set rs. f r = Some x"
  by (induction rs arbitrary: c) (auto split: if_splits option.splits)

lemma msg_wfD: "msg_wf r \<Longrightarrow> exc_own_msg r = Some m \<Longrightarrow> \<exists>segs. fmt_scan Plain m = Inr segs \<and> list_all seg_wf segs"
  by (cases r) (auto split: sum.splits)

lemma mro_head: "c \<in> exc_name ` set rs \<Longrightarrow> c \<in> set (mro_in rs c)"
  by (induction rs) auto

lemma exc_template:
  assumes "c \<in> exc_name ` set exc_classes"
  obtains m segs where "exc_msg_fmt c = Some m" "fmt_scan Plain m = Inr segs" "list_all seg_wf segs"
proof -
  obtain m where m: "exc_msg_fmt c = Some m"
    using rooted_mro [OF exc_rooted, of c] assms unfolding exc_msg_fmt_def by auto
  then obtain r where "r \<in> set exc_classes" "exc_own_msg r = Some m"
    using attr_in_row [of exc_own_msg "rev exc_classes" c m] by (auto simp: exc_msg_fmt_def)
  moreover have "\<forall>r \<in> set exc_classes. msg_wf r" using messages_wf by (simp add: list_all_iff)
  ultimately show thesis using m that msg_wfD by blast
qed

text \<open>What a conversion needs of the keyword arguments, and what it then yields.\<close>

fun fillable :: "pydict \<Rightarrow> fmt_seg \<Rightarrow> bool" where
  "fillable kw (Keyed n c) = (case dget kw n of
     None \<Rightarrow> False
   | Some v \<Rightarrow> c = CHR ''s'' \<or> (case v of PInt i \<Rightarrow> True | PBool b \<Rightarrow> True | _ \<Rightarrow> False))"
| "fillable kw _ = True"

fun filled :: "ovo_env \<Rightarrow> (pydict \<Rightarrow> string) \<Rightarrow> pydict \<Rightarrow> fmt_seg \<Rightarrow> string" where
  "filled E dict_repr kw (Lit c) = [c]"
| "filled E dict_repr kw (Whole c) = dict_repr kw"
| "filled E dict_repr kw (Keyed n c) =
     (case dget kw n of
        Some (PInt i) \<Rightarrow> string_of_int i
      | Some (PBool b) \<Rightarrow> if c = CHR ''s'' then py_str E (PBool b) else if b then ''1'' else ''0''
      | Some v \<Rightarrow> py_str E v
      | None \<Rightarrow> [])"

lemma seg_text_filled:
  "seg_wf s \<Longrightarrow> fillable kw s \<Longrightarrow> seg_text E dict_repr kw s = Inr (filled E dict_repr kw s)"
  "seg_wf s \<Longrightarrow> \<not> fillable kw s \<Longrightarrow> \<exists>e. seg_text E dict_repr kw s = Inl e"
  by (cases s; auto simp: ditem_def split: option.splits pyval.splits)+

lemma map_r_filled:
  "list_all seg_wf segs \<Longrightarrow> list_all (fillable kw) segs \<Longrightarrow>
   map_r (seg_text E dict_repr kw) segs = Inr (map (filled E dict_repr kw) segs)"
  by (induction segs) (auto simp: seg_text_filled)

lemma map_r_unfilled:
  "list_all seg_wf segs \<Longrightarrow> \<not> list_all (fillable kw) segs \<Longrightarrow> \<exists>e. map_r (seg_text E dict_repr kw) segs = Inl e"
proof (induction segs)
  case (Cons s segs)
  show ?case
  proof (cases "fillable kw s")
    case True
    with Cons obtain e where "map_r (seg_text E dict_repr kw) segs = Inl e" by auto
    then show ?thesis using Cons.prems True by (simp add: seg_text_filled)
  qed (use Cons.prems seg_text_filled(2) [of s kw E dict_repr] in auto)
qed simp

text \<open>The template of a missing default security-group rule has no conversion for its id.\<close>

lemma default_rule_template:
  "\<exists>segs. fmt_scan Plain ''Security group default rule (%rule_id)s not found.'' = Inr segs \<and>
     Whole (CHR ''r'') \<in> set segs \<and> (\<forall>n c. Keyed n c \<notin> set segs)"
  by simp

section \<open>Properties\<close>

text \<open>
  The HTTP code of an exception. Every class of the table has a code and descends from
  \<^verbatim>\<open>NovaException\<close>, and a branch of the hierarchy answers as its root does, with the one
  exception of the invalid device path, which is a conflict.
\<close>

theorem exc_codes_by_branch:
  "(c \<in> exc_name ` set exc_classes \<longrightarrow> last (exc_mro c) = ''NovaException'' \<and> exc_code c \<noteq> None) \<and>
   (''NotFound'' \<in> set (exc_mro c) \<longrightarrow> exc_code c = Some 404) \<and>
   (''Forbidden'' \<in> set (exc_mro c) \<longrightarrow> exc_code c = Some 403) \<and>
   (''QuotaError'' \<in> set (exc_mro c) \<longrightarrow> exc_code c = Some 413) \<and>
   (''Unauthorized'' \<in> set (exc_mro c) \<longrightarrow> exc_code c = Some 401) \<and>
   (''Invalid'' \<in> set (exc_mro c) \<longrightarrow> exc_code c = Some 400 \<or> exc_code c = Some 409)"
proof (intro conjI impI)
  assume "c \<in> exc_name ` set exc_classes"
  then have "last (exc_mro c) = ''NovaException'' \<and> exc_code c \<noteq> None"
    using rooted_mro [OF exc_rooted, of c] by (auto simp: exc_mro_def exc_code_def)
  then show "last (exc_mro c) = ''NovaException''" "exc_code c \<noteq> None" by blast+
next
  assume "''NotFound'' \<in> set (exc_mro c)"
  then show "exc_code c = Some 404" using exc_branch [of "''NotFound''" "{404}" _ c] by simp
next
  assume "''Forbidden'' \<in> set (exc_mro c)"
  then show "exc_code c = Some 403" using exc_branch [of "''Forbidden''" "{403}" _ c] by simp
next
  assume "''QuotaError'' \<in> set (exc_mro c)"
  then show "exc_code c = Some 413" using exc_branch [of "''QuotaError''" "{413}" _ c] by simp
next
  assume "''Unauthorized'' \<in> set (exc_mro c)"
  then show "exc_code c = Some 401" using exc_branch [of "''Unauthorized''" "{401}" _ c] by simp
next
  assume "''Invalid'' \<in> set (exc_mro c)"
  then show "exc_code c = Some 400 \<or> exc_code c = Some 409"
    using exc_branch [of "''Invalid''" "{400, 409}" _ c] by simp
qed

theorem exc_codes_by_branch_witness: "exc_code ''OsInfoNotFound'' = Some 404"
proof -
  have r: "rev exc_classes = rev exc_classes_15 @ rev exc_classes_14 @ rev (concat
      [exc_classes_1, exc_classes_2, exc_classes_3, exc_classes_4, exc_classes_5, exc_classes_6, exc_classes_7,
       exc_classes_8, exc_classes_9, exc_classes_10, exc_classes_11, exc_classes_12, exc_classes_13])" (is "_ = _ @ _ @ ?rs")
    by (simp add: exc_classes_def)
  have skip: "mro_in (xs @ ys) c = mro_in ys c" if "list_all (\<lambda>r. exc_name r \<noteq> c) xs" for xs ys c
    using that by (induction xs) auto
  have "''NotFound'' \<in> set (mro_in ?rs ''NotFound'')"
    by (rule mro_head) (use base_names(3) in auto)
  moreover have "mro_in (rev exc_classes_14 @ ?rs) ''OsInfoNotFound'' = ''OsInfoNotFound'' # mro_in ?rs ''NotFound''"
    by (simp add: exc_classes_14_def)
  ultimately have "''NotFound'' \<in> set (exc_mro ''OsInfoNotFound'')"
    unfolding exc_mro_def r by (subst skip) (simp_all add: exc_classes_15_def)
  then show ?thesis using exc_codes_by_branch [of "''OsInfoNotFound''"] by blast
qed

text \<open>
  The message of an exception made without one. Every class has a template that can be
  scanned; with every named value present (a number where the template prints a number) the
  message is the template with the values filled in; otherwise the exception still carries
  the raw template, unless format errors are configured to be fatal.
\<close>

theorem exception_message:
  assumes "c \<in> exc_name ` set exc_classes" "\<not> truthy message"
  shows "\<exists>fmt segs k. exc_msg_fmt c = Some fmt \<and> fmt_scan Plain fmt = Inr segs \<and> exc_code c = Some k \<and>
    (let kw = (if dhas kwargs ''code'' then kwargs else dset ''code'' (PInt k) kwargs) in
     if list_all (fillable kw) segs
     then NovaException_init E dict_repr fatal c message kwargs =
            Inr (PStr (concat (map (filled E dict_repr kw) segs)), kw)
     else if fatal then \<exists>e. NovaException_init E dict_repr fatal c message kwargs = Inl e
     else NovaException_init E dict_repr fatal c message kwargs = Inr (PStr fmt, kw))"
proof -
  obtain m segs where m: "exc_msg_fmt c = Some m" "fmt_scan Plain m = Inr segs" "list_all seg_wf segs"
    using exc_template [OF assms(1)] .
  obtain k where k: "exc_code c = Some k"
    using rooted_mro [OF exc_rooted, of c] assms(1) unfolding exc_code_def by auto
  define kw where "kw = (if dhas kwargs ''code'' then kwargs else dset ''code'' (PInt k) kwargs)"
  have i: "NovaException_init E dict_repr fatal c message kwargs =
      (case py_format E dict_repr m kw of
         Inr x \<Rightarrow> Inr (PStr x, kw) | Inl e \<Rightarrow> if fatal then Inl e else Inr (PStr m, kw))"
    using assms(2) unfolding NovaException_init_def Let_def m(1) k option.case kw_def by simp
  have res: "if list_all (fillable kw) segs
     then NovaException_init E dict_repr fatal c message kwargs =
            Inr (PStr (concat (map (filled E dict_repr kw) segs)), kw)
     else if fatal then \<exists>e. NovaException_init E dict_repr fatal c message kwargs = Inl e
     else NovaException_init E dict_repr fatal c message kwargs = Inr (PStr m, kw)"
  proof (cases "list_all (fillable kw) segs")
    case True
    then show ?thesis using i m map_r_filled [of segs kw E dict_repr] by (simp add: py_format_def)
  next
    case False
    then obtain e where "py_format E dict_repr m kw = Inl e"
      using m map_r_unfilled [of segs kw E dict_repr] by (auto simp: py_format_def)
    then show ?thesis using i False by (cases fatal) simp_all
  qed
  show ?thesis unfolding Let_def
    by (intro exI conjI, rule m(1), rule m(2), rule k, rule res [unfolded kw_def])
qed

text \<open>A class without placeholders.\<close>

theorem exception_message_witness:
  "NovaException_init sample_ovo (\<lambda>d. ''{...}'') False ''Unauthorized'' PNone [(''code'', PInt 401)] =
     Inr (PStr ''Not authorized.'', [(''code'', PInt 401)])"
proof -
  have c: "''Unauthorized'' \<in> exc_name ` set exc_classes"
    by (simp add: exc_classes_def exc_classes_15_def)
  have f: "exc_msg_fmt ''Unauthorized'' = Some ''Not authorized.''"
    by (simp add: exc_msg_fmt_def exc_classes_def exc_classes_15_def)
  have s: "fmt_scan Plain ''Not authorized.'' = Inr (map Lit ''Not authorized.'')" by simp
  have "\<not> truthy PNone" by simp
  from exception_message [OF c this, of "[(''code'', PInt 401)]" sample_ovo "\<lambda>d. ''{...}''" False]
  obtain fmt segs where e: "fmt = ''Not authorized.''" "fmt_scan Plain fmt = Inr segs" and
    p: "if list_all (fillable [(''code'', PInt 401)]) segs
        then NovaException_init sample_ovo (\<lambda>d. ''{...}'') False ''Unauthorized'' PNone [(''code'', PInt 401)] =
          Inr (PStr (concat (map (filled sample_ovo (\<lambda>d. ''{...}'') [(''code'', PInt 401)]) segs)), [(''code'', PInt 401)])
        else NovaException_init sample_ovo (\<lambda>d. ''{...}'') False ''Unauthorized'' PNone [(''code'', PInt 401)] =
          Inr (PStr fmt, [(''code'', PInt 401)])"
    unfolding f Let_def by (auto simp: dhas_def)
  from e s have "segs = map Lit ''Not authorized.''" by (simp del: list.map)
  with p show ?thesis by simp
qed

end
