(* ===== verification/Versions.thy ===== *)
theory Versions
  imports PyStr "HOL-Library.Multiset"
begin

text \<open>
  Microversions of the REST API: \<^verbatim>\<open>nova/api/openstack/api_version_request.py\<close>, and of
  \<^verbatim>\<open>wsgi.py\<close> the registration of versioned methods, their selection for a request, and
  the reading of the version headers.
\<close>

section \<open>Version numbers\<close>

datatype api_version = APIVersion (ver_major: nat) (ver_minor: nat)

text \<open>The rich comparisons of the class: the order of the pairs.\<close>

definition version_le :: "api_version \<Rightarrow> api_version \<Rightarrow> bool" where
  "version_le v w \<longleftrightarrow>
     ver_major v < ver_major w \<or> ver_major v = ver_major w \<and> ver_minor v \<le> ver_minor w"

definition version_lt :: "api_version \<Rightarrow> api_version \<Rightarrow> bool" where
  "version_lt v w \<longleftrightarrow>
     ver_major v < ver_major w \<or> ver_major v = ver_major w \<and> ver_minor v < ver_minor w"

instantiation api_version :: linorder
begin

definition less_eq_api_version :: "api_version \<Rightarrow> api_version \<Rightarrow> bool" where
  "less_eq_api_version = version_le"

definition less_api_version :: "api_version \<Rightarrow> api_version \<Rightarrow> bool" where
  "less_api_version = version_lt"

instance
  by standard (auto simp: less_eq_api_version_def less_api_version_def version_le_def version_lt_def
      intro: api_version.expand)

end

lemmas version_order = less_eq_api_version_def less_api_version_def version_le_def version_lt_def

definition null_version :: api_version where
  "null_version = APIVersion 0 0"

definition is_null :: "api_version \<Rightarrow> bool" where
  "is_null v \<longleftrightarrow> ver_major v = 0 \<and> ver_minor v = 0"

text \<open>
  The pattern \<^verbatim>\<open>^([1-9]\d*)\.([1-9]\d*|0)$\<close>; the dollar also matches before a final newline.
\<close>

definition strip_final_newline :: "string \<Rightarrow> string" where
  "strip_final_newline s = (if s \<noteq> [] \<and> last s = CHR 0x0A then butlast s else s)"

definition positive_numeral :: "string \<Rightarrow> bool" where
  "positive_numeral s \<longleftrightarrow> s \<noteq> [] \<and> hd s \<noteq> CHR ''0'' \<and> list_all is_digit s"

definition match_version :: "string \<Rightarrow> (string \<times> string) option" where
  "match_version s =
     (case split_first CHR ''.'' (strip_final_newline s) of
        None \<Rightarrow> None
      | Some (a, b) \<Rightarrow>
          if positive_numeral a \<and> (positive_numeral b \<or> b = ''0'') then Some (a, b) else None)"

definition numeral_value :: "string \<Rightarrow> nat" where
  "numeral_value s = (case digits_val 0 s of Some n \<Rightarrow> n | None \<Rightarrow> 0)"

definition invalid_version_text :: "string \<Rightarrow> string" where
  "invalid_version_text s =
     ''API Version String '' @ s @ '' is of invalid format. Must be of format MajorNum.MinorNum.''"

fun APIVersionRequest :: "string option \<Rightarrow> api_version result" where
  "APIVersionRequest None = Inr null_version"
| "APIVersionRequest (Some s) =
     (case match_version s of
        Some (a, b) \<Rightarrow> Inr (APIVersion (numeral_value a) (numeral_value b))
      | None \<Rightarrow> Inl (Nova InvalidAPIVersionString (invalid_version_text s)))"

definition get_string :: "api_version \<Rightarrow> string result" where
  "get_string v =
     (if is_null v then Inl ValueError
      else Inr (string_of_nat (ver_major v) @ ''.'' @ string_of_nat (ver_minor v)))"

definition version_matches :: "api_version \<Rightarrow> api_version \<Rightarrow> api_version \<Rightarrow> bool result" where
  "version_matches v min_version max_version =
     (if is_null v then Inl ValueError
      else if is_null max_version \<and> is_null min_version then Inr True
      else if is_null max_version then Inr (min_version \<le> v)
      else if is_null min_version then Inr (v \<le> max_version)
      else Inr (min_version \<le> v \<and> v \<le> max_version))"

definition min_api_version :: "api_version result" where
  "min_api_version = APIVersionRequest (Some ''2.1'')"

definition max_api_version :: "api_version result" where
  "max_api_version = APIVersionRequest (Some ''2.38'')"

definition is_supported :: "api_version \<Rightarrow> string \<Rightarrow> string \<Rightarrow> bool result" where
  "is_supported v min_version max_version =
     bind_r (APIVersionRequest (Some max_version)) (\<lambda>hi.
       if hi \<ge> v then bind_r (APIVersionRequest (Some min_version)) (\<lambda>lo. Inr (v \<ge> lo)) else Inr False)"

section \<open>The version of a request\<close>

definition global_version_text :: "string \<Rightarrow> string" where
  "global_version_text req_ver =
     ''Version '' @ req_ver @ '' is not supported by the API. Minimum is 2.1 and maximum is 2.38.''"

text \<open>
  \<^verbatim>\<open>Request.set_api_version_request\<close>: \<open>hdr\<close> is what the header parser found, if anything.
\<close>

definition set_api_version_request :: "string option \<Rightarrow> api_version result" where
  "set_api_version_request hdr =
     (case hdr of
        None \<Rightarrow> APIVersionRequest (Some ''2.1'')
      | Some h \<Rightarrow>
          if h = ''latest'' then max_api_version
          else bind_r (APIVersionRequest (Some h)) (\<lambda>v.
               bind_r min_api_version (\<lambda>lo. bind_r max_api_version (\<lambda>hi.
               bind_r (version_matches v lo hi) (\<lambda>ok.
                 if ok then Inr v
                 else bind_r (get_string v) (\<lambda>s. Inl (Nova InvalidGlobalAPIVersion (global_version_text s))))))))"

section \<open>Versioned methods\<close>

text \<open>A versioned method, with whatever implements it; no upper bound is the null version.\<close>

record 'f ver_method =
  vm_name :: string
  start_version :: api_version
  end_version :: api_version
  vm_func :: 'f

text \<open>
  \<^verbatim>\<open>check_for_versions_intersection\<close>: the events of all ranges in the order of their versions,
  and a counter that may not exceed one.
\<close>

fun version_events :: "'f ver_method list \<Rightarrow> (api_version \<times> int) list" where
  "version_events [] = []"
| "version_events (f # fs) = (start_version f, 1) # (end_version f, - 1) # version_events fs"

fun exceeds_one :: "int \<Rightarrow> (api_version \<times> int) list \<Rightarrow> bool" where
  "exceeds_one counter [] \<longleftrightarrow> False"
| "exceeds_one counter (p # ps) \<longleftrightarrow> counter + snd p > 1 \<or> exceeds_one (counter + snd p) ps"

definition check_for_versions_intersection :: "'f ver_method list \<Rightarrow> bool" where
  "check_for_versions_intersection fs = exceeds_one 0 (sort_key fst (version_events fs))"

text \<open>\<^verbatim>\<open>sort(key=..., reverse=True)\<close> keeps equal elements in their order.\<close>

definition sort_desc :: "('a \<Rightarrow> 'b :: linorder) \<Rightarrow> 'a list \<Rightarrow> 'a list" where
  "sort_desc k xs = rev (sort_key k (rev xs))"

type_synonym 'f method_table = "(string \<times> 'f ver_method list) list"

text \<open>
  The decorator \<^verbatim>\<open>api_version\<close>: the method joins the list of its name before the check, so a
  rejected method stays in it, unsorted.
\<close>

definition api_version_decorator ::
  "string \<Rightarrow> string option \<Rightarrow> string \<Rightarrow> 'f \<Rightarrow> 'f method_table \<Rightarrow> unit result \<times> 'f method_table" where
  "api_version_decorator min_ver max_ver name f tbl =
     (case APIVersionRequest (Some min_ver) of
        Inl e \<Rightarrow> (Inl e, tbl)
      | Inr lo \<Rightarrow>
          (case APIVersionRequest (case max_ver of None \<Rightarrow> None | Some m \<Rightarrow> if m = [] then None else Some m) of
             Inl e \<Rightarrow> (Inl e, tbl)
           | Inr hi \<Rightarrow>
               (let m = \<lparr>vm_name = name, start_version = lo, end_version = hi, vm_func = f\<rparr>;
                    ms = dgetd tbl name [] @ [m]
                in if check_for_versions_intersection ms
                   then (Inl (Nova ApiVersionsIntersect name), dset name ms tbl)
                   else (Inr (), dset name (sort_desc start_version ms) tbl))))"

text \<open>\<^verbatim>\<open>version_select\<close>: the first method of the list that matches.\<close>

definition version_not_found_text :: "api_version \<Rightarrow> string" where
  "version_not_found_text v =
     ''API version API Version Request Major: '' @ string_of_nat (ver_major v) @ '', Minor: '' @
     string_of_nat (ver_minor v) @ '' is not supported on this method.''"

fun select_method :: "api_version \<Rightarrow> 'f ver_method list \<Rightarrow> 'f ver_method result" where
  "select_method v [] = Inl (Nova VersionNotFoundForAPIMethod (version_not_found_text v))"
| "select_method v (m # ms) =
     bind_r (version_matches v (start_version m) (end_version m)) (\<lambda>ok.
       if ok then Inr m else select_method v ms)"

text \<open>
  \<^verbatim>\<open>Controller.__getattribute__\<close>, called with a request of version \<open>v\<close>; \<open>plain\<close> are the
  attributes without versions.
\<close>

definition version_select :: "'f method_table \<Rightarrow> (string \<Rightarrow> 'f option) \<Rightarrow> string \<Rightarrow> api_version \<Rightarrow> 'f result" where
  "version_select tbl plain key v =
     (case dget tbl key of
        None \<Rightarrow> (case plain key of None \<Rightarrow> Inl AttributeError | Some f \<Rightarrow> Inr f)
      | Some ms \<Rightarrow> bind_r (select_method v ms) (\<lambda>m. Inr (vm_func m)))"


section \<open>Lemmas on numerals\<close>

lemma digit_char_val: "is_digit c \<Longrightarrow> digit_char (digit_val c) = c \<and> digit_val c < 10"
  by (auto simp: is_digit_def digit_val_def digit_char_def Let_def)

lemma digits_val_snoc:
  "digits_val k (s @ [c]) = Some n \<longleftrightarrow> is_digit c \<and> (\<exists>m. digits_val k s = Some m \<and> n = 10 * m + digit_val c)"
  by (auto simp: digits_val_append split: option.splits)

lemma digits_val_Some: "list_all is_digit s \<Longrightarrow> \<exists>n. digits_val k s = Some n"
  by (induction s arbitrary: k) auto

lemma digits_val_ge: "digits_val k s = Some n \<Longrightarrow> k \<le> n"
  by (induction k s rule: digits_val.induct) (auto split: if_splits)

lemma string_of_digits_val:
  "s \<noteq> [] \<Longrightarrow> hd s \<noteq> CHR ''0'' \<or> length s = 1 \<Longrightarrow> digits_val 0 s = Some n \<Longrightarrow> string_of_nat n = s"
proof (induction s arbitrary: n rule: rev_induct)
  case (snoc c s)
  from snoc.prems(3) obtain m where m: "digits_val 0 s = Some m" "is_digit c" "n = 10 * m + digit_val c"
    by (auto simp: digits_val_snoc)
  note d = digit_char_val [OF m(2)]
  show ?case
  proof (cases s)
    case Nil
    then show ?thesis using m d by (subst string_of_nat.simps) simp
  next
    case (Cons x xs)
    with snoc.prems have x: "x \<noteq> CHR ''0''" by simp
    have "is_digit x" and v: "digits_val (digit_val x) xs = Some m"
      using m(1) Cons by (auto split: if_splits)
    with x have "0 < digit_val x" 
    proof -
      have "digit_char 0 = CHR ''0''" by code_simp
      with x \<open>is_digit x\<close> show ?thesis using digit_char_val [of x] by (metis gr0I)
    qed
    then have "0 < m" using digits_val_ge [OF v] by simp
    moreover have "string_of_nat m = s" using snoc.IH m(1) Cons x by simp
    ultimately show ?thesis using m d by (subst string_of_nat.simps) (simp add: div_add1_eq)
  qed
qed simp

section \<open>The intersection check\<close>

lemma sorted_split:
  "sorted (map f xs) \<Longrightarrow>
   xs = filter (\<lambda>x. f x < v) xs @ filter (\<lambda>x. f x = v) xs @ filter (\<lambda>x. v < f x) xs"
  for f :: "'a \<Rightarrow> 'b :: linorder"
proof (induction xs)
  case (Cons x xs)
  show ?case
  proof (cases "f x < v")
    case True
    then show ?thesis using Cons by auto
  next
    case False
    with Cons.prems have "filter (\<lambda>x. f x < v) xs = []" by (auto simp: filter_empty_conv)
    moreover have "filter (\<lambda>x. f x = v) xs = []" if "f x \<noteq> v"
      using Cons.prems False that by (auto simp: filter_empty_conv)
    ultimately show ?thesis using Cons False by (cases "f x = v") auto
  qed
qed simp

lemma exceeds_one_prefix:
  "exceeds_one c L \<longleftrightarrow> (\<exists>n. 0 < n \<and> n \<le> length L \<and> c + sum_list (map snd (take n L)) > 1)"
proof (induction L arbitrary: c)
  case (Cons p L)
  show ?case
  proof
    assume "exceeds_one c (p # L)"
    then consider "c + snd p > 1" | "exceeds_one (c + snd p) L" by auto
    then show "\<exists>n. 0 < n \<and> n \<le> length (p # L) \<and> c + sum_list (map snd (take n (p # L))) > 1"
    proof cases
      case 1
      then show ?thesis by (intro exI [of _ 1]) simp
    next
      case 2
      then obtain n where "0 < n" "n \<le> length L" "c + snd p + sum_list (map snd (take n L)) > 1"
        using Cons.IH by blast
      then show ?thesis by (intro exI [of _ "Suc n"]) (simp add: algebra_simps)
    qed
  next
    assume "\<exists>n. 0 < n \<and> n \<le> length (p # L) \<and> c + sum_list (map snd (take n (p # L))) > 1"
    then obtain n where n: "n \<le> length L" "c + snd p + sum_list (map snd (take n L)) > 1"
      by (metis (no_types, lifting) add.assoc gr0_implies_Suc length_Cons list.simps(9) not_less_eq_eq
          sum_list.Cons take_Suc_Cons)
    show "exceeds_one c (p # L)"
    proof (cases n)
      case (Suc m)
      then show ?thesis using n Cons.IH [of "c + snd p"] by auto
    qed (use n in simp)
  qed
qed simp

text \<open>The counter at the cut after the events below \<open>v\<close> and \<open>j\<close> of the events at \<open>v\<close>.\<close>

definition cut_sum :: "api_version \<Rightarrow> nat \<Rightarrow> (api_version \<times> int) list \<Rightarrow> int" where
  "cut_sum v j evs =
     sum_list (map snd (filter (\<lambda>x. fst x < v) evs)) + sum_list (map snd (take j (filter (\<lambda>x. fst x = v) evs)))"

lemma exceeds_one_cut:
  "exceeds_one 0 (sort_key fst evs) \<longleftrightarrow>
   (\<exists>v j. 0 < j \<and> j \<le> length (filter (\<lambda>x. fst x = v) evs) \<and> cut_sum v j evs > 1)"
proof -
  let ?L = "sort_key fst evs"
  have s: "sorted (map fst ?L)" by simp
  have split: "?L = filter (\<lambda>x. fst x < v) ?L @ filter (\<lambda>x. fst x = v) ?L @ filter (\<lambda>x. v < fst x) ?L" for v
    using sorted_split [OF s] .
  have below: "sum_list (map snd (filter (\<lambda>x. fst x < v) ?L)) = sum_list (map snd (filter (\<lambda>x. fst x < v) evs))" for v
  proof -
    have "mset (map snd (filter (\<lambda>x. fst x < v) ?L)) = mset (map snd (filter (\<lambda>x. fst x < v) evs))" by simp
    then show ?thesis by (metis sum_mset_sum_list)
  qed
  have at: "filter (\<lambda>x. fst x = v) ?L = filter (\<lambda>x. fst x = v) evs" for v
    by (rule sort_key_stable)
  show ?thesis
  proof
    assume "exceeds_one 0 ?L"
    then obtain n where n: "0 < n" "n \<le> length ?L" "sum_list (map snd (take n ?L)) > 1"
      by (auto simp: exceeds_one_prefix)
    define v where "v = fst (?L ! (n - 1))"
    let ?A = "filter (\<lambda>x. fst x < v) ?L" and ?B = "filter (\<lambda>x. fst x = v) ?L" and ?C = "filter (\<lambda>x. v < fst x) ?L"
    have len: "length ?L = length ?A + length ?B + length ?C"
      using arg_cong [OF split [of v], of length] by simp
    have nth: "?L ! (n - 1) = (?A @ ?B @ ?C) ! (n - 1)" using split [of v] by simp
    have lo: "length ?A < n"
    proof (rule ccontr)
      assume "\<not> length ?A < n"
      then have i: "n - 1 < length ?A" using n(1) by simp
      then have "?L ! (n - 1) = ?A ! (n - 1)" unfolding nth by (simp only: nth_append if_True)
      then have "?L ! (n - 1) \<in> set ?A" using nth_mem [OF i] by metis
      then show False by (simp add: v_def)
    qed
    have hi: "n \<le> length ?A + length ?B"
    proof (rule ccontr)
      assume "\<not> n \<le> length ?A + length ?B"
      then have i: "n - 1 - length ?A - length ?B < length ?C" "\<not> n - 1 < length ?A"
          "\<not> n - 1 - length ?A < length ?B" using n len by auto
      have "?L ! (n - 1) = ?C ! (n - 1 - length ?A - length ?B)"
        unfolding nth using i(2,3) by (simp only: nth_append if_False)
      then have "?L ! (n - 1) \<in> set ?C" using nth_mem [OF i(1)] by metis
      then show False by (simp add: v_def)
    qed
    have "take n ?L = ?A @ take (n - length ?A) ?B"
      using lo hi by (subst split [of v]) simp
    then have "cut_sum v (n - length ?A) evs > 1"
      using n(3) below [of v] by (simp add: cut_sum_def at)
    then show "\<exists>v j. 0 < j \<and> j \<le> length (filter (\<lambda>x. fst x = v) evs) \<and> cut_sum v j evs > 1"
      using lo hi at [of v] by (intro exI [of _ v] exI [of _ "n - length ?A"]) simp
  next
    assume "\<exists>v j. 0 < j \<and> j \<le> length (filter (\<lambda>x. fst x = v) evs) \<and> cut_sum v j evs > 1"
    then obtain v j where j: "0 < j" "j \<le> length (filter (\<lambda>x. fst x = v) ?L)" "cut_sum v j evs > 1"
      using at by metis
    let ?A = "filter (\<lambda>x. fst x < v) ?L" and ?B = "filter (\<lambda>x. fst x = v) ?L"
    have "take (length ?A + j) ?L = ?A @ take j ?B"
      using j(2) by (subst split [of v]) simp
    then have "sum_list (map snd (take (length ?A + j) ?L)) > 1"
      using j(3) below [of v] by (simp add: cut_sum_def at)
    moreover have "length ?A + j \<le> length ?L"
      using j(2) arg_cong [OF split [of v], of length] by simp
    ultimately show "exceeds_one 0 ?L" using j(1) by (auto simp: exceeds_one_prefix)
  qed
qed

text \<open>One range's share of a cut: between nothing and one, decided by where the cut runs.\<close>

definition cut_share :: "api_version \<Rightarrow> nat \<Rightarrow> 'f ver_method \<Rightarrow> int" where
  "cut_share v j f =
     of_bool (start_version f < v) - of_bool (end_version f < v) + of_bool (start_version f = v \<and> 0 < j) -
     of_bool (end_version f = v \<and> of_bool (start_version f = v) < j)"

definition cut_rest :: "api_version \<Rightarrow> nat \<Rightarrow> 'f ver_method \<Rightarrow> nat" where
  "cut_rest v j f = j - of_bool (start_version f = v) - of_bool (end_version f = v)"

lemma cut_sum_Cons:
  "cut_sum v j (version_events (f # fs)) = cut_share v j f + cut_sum v (cut_rest v j f) (version_events fs)"
  by (auto simp: cut_sum_def cut_share_def cut_rest_def take_Cons' numeral_2_eq_2)

lemma cut_share_bounds:
  assumes "start_version f \<le> end_version f"
  shows "0 \<le> cut_share v j f" "cut_share v j f \<le> of_bool (start_version f \<le> v \<and> v \<le> end_version f)"
    "start_version f < v \<Longrightarrow> v < end_version f \<Longrightarrow> cut_share v j f = 1"
    "start_version f \<le> v \<Longrightarrow> v < end_version f \<Longrightarrow> 0 < j \<Longrightarrow> cut_share v j f = 1"
    "start_version f = v \<Longrightarrow> cut_share v 1 f = 1"
  using assms by (auto simp: cut_share_def)

lemma cut_upper:
  "\<forall>f \<in> set fs. start_version f \<le> end_version f \<Longrightarrow>
   cut_sum v j (version_events fs) \<le> int (length (filter (\<lambda>f. start_version f \<le> v \<and> v \<le> end_version f) fs))"
proof (induction fs arbitrary: j)
  case (Cons f fs)
  have "cut_sum v (cut_rest v j f) (version_events fs)
      \<le> int (length (filter (\<lambda>f. start_version f \<le> v \<and> v \<le> end_version f) fs))" using Cons by simp
  then show ?case
    using cut_share_bounds(2) [of f v j] Cons.prems by (auto simp: cut_sum_Cons simp del: version_events.simps)
qed (simp add: cut_sum_def)

lemma cut_lower:
  "\<forall>f \<in> set fs. start_version f \<le> end_version f \<Longrightarrow>
   int (length (filter (\<lambda>f. start_version f < v \<and> v < end_version f) fs)) \<le> cut_sum v j (version_events fs)"
proof (induction fs arbitrary: j)
  case (Cons f fs)
  have "int (length (filter (\<lambda>f. start_version f < v \<and> v < end_version f) fs))
      \<le> cut_sum v (cut_rest v j f) (version_events fs)" using Cons by simp
  then show ?case
    using cut_share_bounds(1,3) [of f v j] Cons.prems by (auto simp: cut_sum_Cons simp del: version_events.simps)
qed (simp add: cut_sum_def)

text \<open>A whole block: every range that covers \<open>v\<close> and goes on counts.\<close>

lemma cut_lower_block:
  "\<forall>f \<in> set fs. start_version f \<le> end_version f \<Longrightarrow>
   length (filter (\<lambda>x. fst x = v) (version_events fs)) \<le> j \<Longrightarrow>
   int (length (filter (\<lambda>f. start_version f \<le> v \<and> v < end_version f) fs)) \<le> cut_sum v j (version_events fs)"
proof (induction fs arbitrary: j)
  case (Cons f fs)
  have "length (filter (\<lambda>x. fst x = v) (version_events fs)) \<le> cut_rest v j f"
    using Cons.prems(2) by (auto simp: cut_rest_def split: if_splits)
  then have "int (length (filter (\<lambda>f. start_version f \<le> v \<and> v < end_version f) fs))
      \<le> cut_sum v (cut_rest v j f) (version_events fs)" using Cons by simp
  moreover have "start_version f = v \<Longrightarrow> 0 < j" using Cons.prems(2) by auto
  ultimately show ?case
    using cut_share_bounds(1,3,4) [of f v j] Cons.prems(1) by (cases "start_version f = v") (auto simp: cut_sum_Cons simp del: version_events.simps)
qed (simp add: cut_sum_def)

lemma cut_append:
  "cut_sum v (length (filter (\<lambda>x. fst x = v) (version_events xs)) + j) (version_events (xs @ ys)) =
   cut_sum v (length (filter (\<lambda>x. fst x = v) (version_events xs))) (version_events xs) +
   cut_sum v j (version_events ys)"
proof -
  have e: "version_events (xs @ ys) = version_events xs @ version_events ys" by (induction xs) auto
  show ?thesis by (simp add: cut_sum_def e)
qed


lemma two_of_filter:
  assumes "2 \<le> length (filter P xs)"
  obtains i j where "i < j" "j < length xs" "P (xs ! i)" "P (xs ! j)"
proof -
  have "card {i. i < length xs \<and> P (xs ! i)} \<ge> 2" using assms by (simp add: length_filter_conv_card)
  then obtain i j where "i \<in> {i. i < length xs \<and> P (xs ! i)}" "j \<in> {i. i < length xs \<and> P (xs ! i)}" "i \<noteq> j"
    by (metis (no_types, lifting) One_nat_def Suc_1 card_le_Suc0_iff_eq not_less_eq_eq finite_Collect_conjI
        finite_Collect_less_nat card.infinite zero_le)
  then show thesis using that by (cases i j rule: linorder_cases) auto
qed

lemma filter_of_two:
  "i < j \<Longrightarrow> j < length xs \<Longrightarrow> P (xs ! i) \<Longrightarrow> P (xs ! j) \<Longrightarrow> 2 \<le> length (filter P xs)"
proof -
  assume a: "i < j" "j < length xs" "P (xs ! i)" "P (xs ! j)"
  then have "{i, j} \<subseteq> {i. i < length xs \<and> P (xs ! i)}" by auto
  from card_mono [OF _ this] a show ?thesis by (simp add: length_filter_conv_card)
qed

text \<open>The range with the later start, and another that starts before it and ends after.\<close>

lemma nested_start_detected:
  assumes "\<forall>f \<in> set (xs @ f # ys). start_version f \<le> end_version f"
    and "g \<in> set xs \<union> set ys" "start_version g < start_version f" "start_version f < end_version g"
  shows "check_for_versions_intersection (xs @ f # ys)"
proof -
  let ?v = "start_version f"
  let ?n = "length (filter (\<lambda>x. fst x = ?v) (version_events xs))"
  let ?P = "\<lambda>f. start_version f < ?v \<and> ?v < end_version f"
  have "cut_sum ?v (?n + 1) (version_events (xs @ f # ys)) =
      cut_sum ?v ?n (version_events xs) + (1 + cut_sum ?v (cut_rest ?v 1 f) (version_events ys))"
    unfolding cut_append cut_sum_Cons using cut_share_bounds(5) [of f ?v] assms(1) by simp
  moreover have "int (length (filter ?P xs)) \<le> cut_sum ?v ?n (version_events xs)"
    "int (length (filter ?P ys)) \<le> cut_sum ?v (cut_rest ?v 1 f) (version_events ys)"
    by (rule cut_lower; use assms(1) in simp)+
  moreover have "0 < length (filter ?P xs) + length (filter ?P ys)"
    using assms(2-4) by (auto simp: filter_empty_conv)
  ultimately have "1 < cut_sum ?v (?n + 1) (version_events (xs @ f # ys))" by linarith
  moreover have e: "version_events (xs @ ys) = version_events xs @ version_events ys" for xs ys :: "'a ver_method list"
    by (induction xs) auto
  have "?n + 1 \<le> length (filter (\<lambda>x. fst x = ?v) (version_events (xs @ f # ys)))"
    by (simp add: e)
  ultimately show ?thesis
    unfolding check_for_versions_intersection_def exceeds_one_cut by (intro exI conjI) auto
qed

lemma overlap_detected:
  assumes ok: "\<forall>f \<in> set fs. start_version f \<le> end_version f" and ij: "i < length fs" "j < length fs" "i \<noteq> j"
    and le: "start_version (fs ! j) \<le> start_version (fs ! i)"
    and o1: "start_version (fs ! i) < end_version (fs ! j)" and o2: "start_version (fs ! j) < end_version (fs ! i)"
  shows "check_for_versions_intersection fs"
proof (cases "start_version (fs ! j) = start_version (fs ! i)")
  case True
  let ?v = "start_version (fs ! i)"
  let ?P = "\<lambda>f. start_version f \<le> ?v \<and> ?v < end_version f"
  let ?n = "length (filter (\<lambda>x. fst x = ?v) (version_events fs))"
  have P: "?P (fs ! i)" "?P (fs ! j)" using True o1 o2 by auto
  have "2 \<le> length (filter ?P fs)"
    using ij P filter_of_two [of i j fs ?P] filter_of_two [of j i fs ?P] by (cases "i < j") auto
  then have "1 < cut_sum ?v ?n (version_events fs)"
    using cut_lower_block [OF ok order_refl, of ?v] by linarith
  moreover have "0 < ?n"
  proof -
    have "(?v, 1) \<in> set (version_events fs)" using ij(1) by (induction fs arbitrary: i) (auto simp: nth_Cons split: nat.splits)
    then show ?thesis by (force simp: filter_empty_conv)
  qed
  ultimately show ?thesis
    unfolding check_for_versions_intersection_def exceeds_one_cut by (intro exI conjI) auto
next
  case False
  let ?xs = "take i fs" and ?ys = "drop (Suc i) fs"
  have fs: "?xs @ fs ! i # ?ys = fs" using ij(1) by (simp add: id_take_nth_drop [symmetric])
  have "fs ! j \<in> set ?xs \<union> set ?ys"
  proof (cases "j < i")
    case True
    then show ?thesis using ij by (metis UnI1 in_set_conv_nth length_take min.absorb4 nth_take)
  next
    case False
    then have "?ys ! (j - Suc i) = fs ! j" "j - Suc i < length ?ys" using ij by auto
    then show ?thesis using nth_mem by (metis UnI2)
  qed
  then show ?thesis
    using nested_start_detected [of ?xs "fs ! i" ?ys "fs ! j"] ok le False o1 fs by simp
qed

section \<open>Version strings\<close>

lemma positive_numeral_value:
  assumes "positive_numeral s"
  shows "string_of_nat (numeral_value s) = s" "0 < numeral_value s"
proof -
  obtain n where n: "digits_val 0 s = Some n" using assms digits_val_Some by (auto simp: positive_numeral_def)
  with assms show s: "string_of_nat (numeral_value s) = s"
    by (simp add: numeral_value_def positive_numeral_def string_of_digits_val)
  have "string_of_nat 0 = ''0''" by code_simp
  with s assms show "0 < numeral_value s" by (metis gr0I list.sel(1) positive_numeral_def)
qed

lemma string_of_nat_positive: "positive_numeral (string_of_nat n) \<longleftrightarrow> 0 < n"
proof -
  have "string_of_nat 0 = ''0''" by code_simp
  then show ?thesis
    using string_of_nat_hd_zero [of n] string_of_nat_digits [of n]
    by (cases "n = 0") (auto simp: positive_numeral_def)
qed

lemma numeral_value_string_of_nat: "numeral_value (string_of_nat n) = n"
  by (simp add: numeral_value_def digits_val_string_of_nat)

lemma match_version_pos: "match_version s = Some (a, b) \<Longrightarrow> 0 < numeral_value a"
  by (auto simp: match_version_def positive_numeral_value split: option.splits if_splits)

lemma match_version_string:
  assumes "match_version s = Some (a, b)"
  shows "string_of_nat (numeral_value a) @ ''.'' @ string_of_nat (numeral_value b) = strip_final_newline s"
proof -
  have z: "string_of_nat (numeral_value ''0'') = ''0''" by code_simp
  from assms have "strip_final_newline s = a @ CHR ''.'' # b" "positive_numeral a" "positive_numeral b \<or> b = ''0''"
    by (auto simp: match_version_def split_first_Some split: option.splits if_splits)
  then show ?thesis using z by (auto simp: positive_numeral_value)
qed

lemma no_newline: "list_all is_digit b \<Longrightarrow> b \<noteq> [] \<Longrightarrow> strip_final_newline (a @ b) = a @ b"
proof -
  assume b: "list_all is_digit b" "b \<noteq> []"
  then have "is_digit (last b)" by (simp add: list_all_iff)
  then have "last b \<noteq> CHR 0x0A" by (auto simp: is_digit_def Let_def)
  with b show ?thesis by (simp add: strip_final_newline_def)
qed

lemma match_version_written:
  "match_version (string_of_nat M @ ''.'' @ string_of_nat m) =
     (if M = 0 then None else Some (string_of_nat M, string_of_nat m))"
proof -
  have "CHR ''.'' \<notin> set (string_of_nat M)"
    using string_of_nat_digits [of M] by (auto simp: list_all_iff is_digit_def Let_def)
  then have "split_first CHR ''.'' (string_of_nat M @ CHR ''.'' # string_of_nat m) = Some (string_of_nat M, string_of_nat m)"
    by (simp add: split_first_Some)
  moreover have "string_of_nat 0 = ''0''" by code_simp
  moreover have "strip_final_newline (string_of_nat M @ CHR ''.'' # string_of_nat m) =
      string_of_nat M @ CHR ''.'' # string_of_nat m"
    using no_newline [of "string_of_nat m" "string_of_nat M @ ''.''"] string_of_nat_digits [of m] by simp
  ultimately show ?thesis
    by (cases "m = 0") (auto simp: match_version_def string_of_nat_positive)
qed

section \<open>Properties\<close>

text \<open>
  C13: the check of version ranges. For ranges with both ends, the sweep over sorted events
  is right in both directions up to touching ends: when it reports, two of the ranges share
  a version, and when two ranges overlap properly, it reports.
\<close>

theorem intersection_check:
  assumes "\<forall>f \<in> set fs. start_version f \<le> end_version f"
  shows "(check_for_versions_intersection fs \<longrightarrow>
      (\<exists>i j v. i < j \<and> j < length fs \<and> start_version (fs ! i) \<le> v \<and> v \<le> end_version (fs ! i) \<and>
         start_version (fs ! j) \<le> v \<and> v \<le> end_version (fs ! j))) \<and>
    ((\<exists>i j. i < j \<and> j < length fs \<and> start_version (fs ! i) < end_version (fs ! j) \<and>
         start_version (fs ! j) < end_version (fs ! i)) \<longrightarrow>
      check_for_versions_intersection fs)"
proof (intro conjI impI)
  assume "check_for_versions_intersection fs"
  then obtain v j where "cut_sum v j (version_events fs) > 1"
    by (auto simp: check_for_versions_intersection_def exceeds_one_cut)
  then have "2 \<le> length (filter (\<lambda>f. start_version f \<le> v \<and> v \<le> end_version f) fs)"
    using cut_upper [OF assms, of v j] by linarith
  then show "\<exists>i j v. i < j \<and> j < length fs \<and> start_version (fs ! i) \<le> v \<and> v \<le> end_version (fs ! i) \<and>
      start_version (fs ! j) \<le> v \<and> v \<le> end_version (fs ! j)"
    by (rule two_of_filter) blast
next
  assume "\<exists>i j. i < j \<and> j < length fs \<and> start_version (fs ! i) < end_version (fs ! j) \<and>
      start_version (fs ! j) < end_version (fs ! i)"
  then obtain i j where "i < j" "j < length fs" "start_version (fs ! i) < end_version (fs ! j)"
      "start_version (fs ! j) < end_version (fs ! i)" by blast
  then show "check_for_versions_intersection fs"
    using overlap_detected [OF assms, of i j] overlap_detected [OF assms, of j i]
    by (cases "start_version (fs ! j) \<le> start_version (fs ! i)") auto
qed


definition sample_method :: "nat \<Rightarrow> nat \<Rightarrow> nat ver_method" where
  "sample_method lo hi = \<lparr>vm_name = ''index'', start_version = APIVersion 2 lo,
     end_version = (if hi = 0 then null_version else APIVersion 2 hi), vm_func = lo\<rparr>"

theorem intersection_check_witness:
  "check_for_versions_intersection [sample_method 1 5, sample_method 4 9]"
proof -
  let ?fs = "[sample_method 1 5, sample_method 4 9]"
  have ok: "\<forall>f \<in> set ?fs. start_version f \<le> end_version f"
    by (simp add: sample_method_def version_order)
  have "0 < (1 :: nat) \<and> 1 < length ?fs \<and> start_version (?fs ! 0) < end_version (?fs ! 1) \<and>
      start_version (?fs ! 1) < end_version (?fs ! 0)"
    by (simp add: sample_method_def version_order)
  with intersection_check [OF ok] show ?thesis by blast
qed

text \<open>
  What the check does not see. An open end is the null version and sorts before every
  start, so any number of open-ended ranges passes, even equal ones; and two ranges that
  touch in one version pass or fail by the order in which they were registered.
\<close>

theorem open_ended_unchecked:
  "(\<forall>f \<in> set fs. is_null (end_version f) \<and> \<not> is_null (start_version f)) \<longrightarrow>
     \<not> check_for_versions_intersection fs"
proof
  assume a: "\<forall>f \<in> set fs. is_null (end_version f) \<and> \<not> is_null (start_version f)"
  have share: "cut_share v j f \<le> 0" if "is_null (end_version f)" "\<not> is_null (start_version f)" for v j and f :: "'a ver_method"
  proof (cases "is_null v")
    case True
    with that have "v = end_version f" "\<not> start_version f \<le> v"
      by (auto simp: is_null_def version_order intro: api_version.expand)
    then show ?thesis by (auto simp: cut_share_def)
  next
    case False
    with that have "end_version f < v" by (auto simp: is_null_def version_order)
    then show ?thesis by (auto simp: cut_share_def)
  qed
  have "cut_sum v j (version_events fs) \<le> 0" for v j
    using a
  proof (induction fs arbitrary: j)
    case (Cons f fs)
    have "cut_sum v (cut_rest v j f) (version_events fs) \<le> 0" using Cons by simp
    moreover have "cut_share v j f \<le> 0" using share Cons.prems by simp
    ultimately show ?case unfolding cut_sum_Cons by linarith
  qed (simp add: cut_sum_def)
  then have "\<not> 1 < cut_sum v j (version_events fs)" for v j by (metis not_less order.trans zero_le_one)
  then show "\<not> check_for_versions_intersection fs"
    by (simp add: check_for_versions_intersection_def exceeds_one_cut)
qed

theorem open_ended_unchecked_witness:
  "\<not> check_for_versions_intersection [sample_method 1 0, sample_method 1 0]"
  using open_ended_unchecked [of "[sample_method 1 0, sample_method 1 0]"]
  by (simp add: sample_method_def is_null_def null_version_def)

lemma touching_by_order:
  "\<not> check_for_versions_intersection [sample_method 1 5, sample_method 5 9] \<and>
   check_for_versions_intersection [sample_method 5 9, sample_method 1 5]"
  by (simp add: check_for_versions_intersection_def sample_method_def version_order)

text \<open>
  Which method answers. After a method was registered, a call of its name with a
  request's version runs a registered method whose range covers the version and starts
  latest among those that do; only when none covers it the method counts as not found.
\<close>

lemma select_method_cases:
  "\<not> is_null v \<Longrightarrow> sorted (rev (map start_version ms)) \<Longrightarrow>
   (case select_method v ms of
      Inr m \<Rightarrow> m \<in> set ms \<and> version_matches v (start_version m) (end_version m) = Inr True \<and>
        (\<forall>m' \<in> set ms. version_matches v (start_version m') (end_version m') = Inr True \<longrightarrow>
           start_version m' \<le> start_version m)
    | Inl e \<Rightarrow> e = Nova VersionNotFoundForAPIMethod (version_not_found_text v) \<and>
        (\<forall>m' \<in> set ms. version_matches v (start_version m') (end_version m') = Inr False))"
proof (induction ms)
  case (Cons m ms)
  obtain b where b: "version_matches v (start_version m) (end_version m) = Inr b"
    using Cons.prems(1) by (cases "version_matches v (start_version m) (end_version m)")
      (auto simp: version_matches_def split: if_splits)
  show ?case
  proof (cases b)
    case True
    then show ?thesis using Cons.prems(2) b by (auto simp: sorted_append)
  next
    case False
    then show ?thesis using Cons b by (auto simp: sorted_append split: sum.splits)
  qed
qed simp

lemma sort_desc_props: "set (sort_desc k xs) = set xs" "sorted (rev (map k (sort_desc k xs)))"
  by (simp_all add: sort_desc_def rev_map [symmetric])

theorem version_select_latest:
  assumes "api_version_decorator min_ver max_ver name f tbl = (Inr (), tbl1)" "\<not> is_null v"
  shows "\<exists>m. vm_func m = f \<and> APIVersionRequest (Some min_ver) = Inr (start_version m) \<and>
    APIVersionRequest (if max_ver = Some [] then None else max_ver) = Inr (end_version m) \<and>
    (let ms = insert m (set (dgetd tbl name [])) in
     case version_select tbl1 plain name v of
       Inr g \<Rightarrow> \<exists>m \<in> ms. vm_func m = g \<and> version_matches v (start_version m) (end_version m) = Inr True \<and>
         (\<forall>m' \<in> ms. version_matches v (start_version m') (end_version m') = Inr True \<longrightarrow>
            start_version m' \<le> start_version m)
     | Inl e \<Rightarrow> e = Nova VersionNotFoundForAPIMethod (version_not_found_text v) \<and>
         (\<forall>m' \<in> ms. version_matches v (start_version m') (end_version m') = Inr False))"
proof -
  from assms(1) obtain lo hi where lo: "APIVersionRequest (Some min_ver) = Inr lo"
    "APIVersionRequest (if max_ver = Some [] then None else max_ver) = Inr hi" and
    t: "tbl1 = dset name (sort_desc start_version (dgetd tbl name [] @
          [\<lparr>vm_name = name, start_version = lo, end_version = hi, vm_func = f\<rparr>])) tbl"
    by (cases max_ver) (auto simp: api_version_decorator_def Let_def split: sum.splits if_splits)
  let ?m = "\<lparr>vm_name = name, start_version = lo, end_version = hi, vm_func = f\<rparr>"
  let ?ms = "sort_desc start_version (dgetd tbl name [] @ [?m])"
  have s: "version_select tbl1 plain name v = bind_r (select_method v ?ms) (\<lambda>m. Inr (vm_func m))"
    by (simp add: version_select_def t)
  show ?thesis
    using select_method_cases [OF assms(2) sort_desc_props(2) [of start_version "dgetd tbl name [] @ [?m]"]] lo
    unfolding s by (intro exI [of _ ?m]) (cases "select_method v ?ms"; auto simp: sort_desc_props Let_def)
qed

theorem version_select_latest_witness:
  "version_select (snd (api_version_decorator ''2.5'' None ''index'' (5 :: nat)
      [(''index'', [sample_method 1 4])])) (\<lambda>k. None) ''index'' (APIVersion 2 9) = Inr 5"
proof -
  let ?r = "api_version_decorator ''2.5'' None ''index'' (5 :: nat) [(''index'', [sample_method 1 4])]"
  have "fst ?r = Inr ()" by code_simp
  then have r: "?r = (Inr (), snd ?r)" by (metis prod.collapse)
  have v: "\<not> is_null (APIVersion 2 9)" by (simp add: is_null_def)
  have n: "version_matches (APIVersion 2 9) (start_version (sample_method 1 4)) (end_version (sample_method 1 4)) = Inr False"
    by code_simp
  have p: "APIVersionRequest (Some ''2.5'') = Inr (APIVersion 2 5)" by code_simp
  have d: "dgetd [(''index'', [sample_method 1 4])] ''index'' [] = [sample_method 1 4]" by code_simp
  let ?c = "version_select (snd ?r) (\<lambda>k. None) ''index'' (APIVersion 2 9)"
  from version_select_latest [OF r v, of "\<lambda>k. None"] obtain m where
    m: "vm_func m = (5 :: nat)" "start_version m = APIVersion 2 5" "end_version m = null_version" and
    c: "case ?c of
       Inr g \<Rightarrow> \<exists>m' \<in> {m, sample_method 1 4}. vm_func m' = g \<and>
         version_matches (APIVersion 2 9) (start_version m') (end_version m') = Inr True
     | Inl e \<Rightarrow> \<forall>m' \<in> {m, sample_method 1 4}.
         version_matches (APIVersion 2 9) (start_version m') (end_version m') = Inr False"
    unfolding p d Let_def by (fastforce split: sum.splits)
  have "version_matches (APIVersion 2 9) (start_version m) (end_version m) = Inr True"
    unfolding m(2,3) by code_simp
  with c n m(1) show ?thesis by (cases ?c) auto
qed

text \<open>Every version a request gets is one the API supports.\<close>

lemma request_in_range:
  "case set_api_version_request hdr of
     Inr v \<Rightarrow> APIVersion 2 1 \<le> v \<and> v \<le> APIVersion 2 38 \<and> \<not> is_null v
   | Inl e \<Rightarrow> \<exists>s. e = Nova InvalidAPIVersionString s \<or> e = Nova InvalidGlobalAPIVersion s"
proof -
  have mm: "min_api_version = Inr (APIVersion 2 1)" "max_api_version = Inr (APIVersion 2 38)"
    "APIVersionRequest (Some ''2.1'') = Inr (APIVersion 2 1)" by code_simp+
  have c: "\<not> is_null (APIVersion 2 1)" "\<not> is_null (APIVersion 2 38)" "APIVersion 2 1 \<le> APIVersion 2 38" by code_simp+
  show ?thesis
  proof (cases hdr)
    case (Some h)
    show ?thesis
    proof (cases "h = ''latest'' \<or> match_version h = None")
      case True
      then show ?thesis
        by (cases "h = ''latest''") (simp_all add: set_api_version_request_def Some mm c version_order)
    next
      case False
      then obtain a b where ab: "match_version h = Some (a, b)" by fastforce
      let ?v = "APIVersion (numeral_value a) (numeral_value b)"
      have "\<not> is_null ?v" using match_version_pos [OF ab] by (simp add: is_null_def)
      then show ?thesis
        using False c ab
        by (simp add: set_api_version_request_def version_matches_def get_string_def Some mm)
    qed
  next
    case None
    then have "set_api_version_request hdr = Inr (APIVersion 2 1)"
      using mm(3) by (simp only: set_api_version_request_def option.case)
    then show ?thesis using c by (simp add: version_order)
  qed
qed

text \<open>
  Version strings. A string that is read as a version is written back as it was read (up
  to one final newline, which the pattern lets through), and a written version reads back.
\<close>

theorem version_roundtrip:
  "(case APIVersionRequest (Some s) of
      Inr v \<Rightarrow> 0 < ver_major v \<and> get_string v = Inr (strip_final_newline s)
    | Inl e \<Rightarrow> e = Nova InvalidAPIVersionString (invalid_version_text s)) \<and>
   (case get_string w of
      Inr t \<Rightarrow> APIVersionRequest (Some t) = (if ver_major w = 0 then Inl (Nova InvalidAPIVersionString (invalid_version_text t)) else Inr w)
    | Inl e \<Rightarrow> w = null_version)"
proof
  show "case APIVersionRequest (Some s) of
      Inr v \<Rightarrow> 0 < ver_major v \<and> get_string v = Inr (strip_final_newline s)
    | Inl e \<Rightarrow> e = Nova InvalidAPIVersionString (invalid_version_text s)"
    using match_version_pos [of s] match_version_string [of s]
    by (auto simp: get_string_def is_null_def split: option.splits prod.splits)
  show "case get_string w of
      Inr t \<Rightarrow> APIVersionRequest (Some t) = (if ver_major w = 0 then Inl (Nova InvalidAPIVersionString (invalid_version_text t)) else Inr w)
    | Inl e \<Rightarrow> w = null_version"
    using match_version_written [of "ver_major w" "ver_minor w"]
    by (cases w) (auto simp: get_string_def is_null_def null_version_def numeral_value_string_of_nat)
qed

end
