(* ===== verification/Errors.thy ===== *)
theory Errors
  imports Prelude
begin

text \<open>
  \<^verbatim>\<open>nova/api/openstack/extensions.py\<close>: the \<^verbatim>\<open>expected_errors\<close> decorator of every API
  method. A declared HTTP error passes, as do authorisation and validation errors;
  everything else leaves the method as a 500.
\<close>

definition internal_server_error :: exn where
  "internal_server_error = HTTPError 500 ''Unexpected API Error''"

definition expected_exn :: "int list \<Rightarrow> exn \<Rightarrow> exn" where
  "expected_exn errors e =
     (case e of
        HTTPError code expl \<Rightarrow> if code \<in> set errors then e else internal_server_error
      | Nova c m \<Rightarrow>
          if is_a c Forbidden then e
          else if is_a c ValidationError then e
          else if is_a c Unauthorized then e
          else internal_server_error
      | _ \<Rightarrow> internal_server_error)"

definition expected_errors :: "int list \<Rightarrow> 'a result \<Rightarrow> 'a result" where
  "expected_errors errors r = (case r of Inl e \<Rightarrow> Inl (expected_exn errors e) | Inr x \<Rightarrow> Inr x)"

text \<open>The handler body's \<^verbatim>\<open>except exception.Invalid\<close> clause, which answers 400.\<close>

definition invalid_as_bad_request :: "'a result \<Rightarrow> 'a result" where
  "invalid_as_bad_request r =
     (case r of
        Inl (Nova c m) \<Rightarrow> if is_a c Invalid then Inl (HTTPError 400 m) else r
      | _ \<Rightarrow> r)"

text \<open>What a client can see of an API method: a declared code, a 500, or one of the three.\<close>

definition presentable :: "int list \<Rightarrow> exn \<Rightarrow> bool" where
  "presentable errors e \<longleftrightarrow>
     (case e of
        HTTPError code m \<Rightarrow> code \<in> set errors \<or> code = 500
      | Nova c m \<Rightarrow> is_a c Forbidden \<or> is_a c ValidationError \<or> is_a c Unauthorized
      | _ \<Rightarrow> False)"

lemma expected_errors_presentable:
  "expected_errors errors r = Inl e \<Longrightarrow> presentable errors e"
  by (auto simp: expected_errors_def expected_exn_def presentable_def internal_server_error_def
      split: sum.splits exn.splits if_splits)

lemma expected_errors_Inr [simp]: "expected_errors errors r = Inr x \<longleftrightarrow> r = Inr x"
  by (auto simp: expected_errors_def split: sum.splits)

lemma invalid_as_bad_request_Inr [simp]: "invalid_as_bad_request r = Inr x \<longleftrightarrow> r = Inr x"
  by (auto simp: invalid_as_bad_request_def split: sum.splits exn.splits if_splits)

lemma expected_exn_idem: "expected_exn errors (expected_exn errors e) = expected_exn errors e"
  by (auto simp: expected_exn_def internal_server_error_def split: exn.splits if_splits)

end
