(* ===== verification/Json.thy ===== *)
theory Json
  imports PyStr
begin

text \<open>
  \<^verbatim>\<open>json.dumps\<close> and \<^verbatim>\<open>json.loads\<close> of the Python standard library, on the values without
  floats: test plans keep their results and summaries as JSON text, and the API answers
  with it. The printer writes the separators and the ASCII escapes of the default
  encoder; the parser is the recursive descent of the decoder, with fuel. A number with
  a fraction or an exponent, and an escape beyond Latin-1, are outside the model and are
  rejected. The result of the theory is that loading a dumped value gives it back.
\<close>

section \<open>Printing\<close>

definition hex_digit :: "nat \<Rightarrow> char" where
  "hex_digit d = (if d < 10 then digit_char d else char_of (d + 87))"

fun hex_val :: "char \<Rightarrow> nat option" where
  "hex_val c = (let n = (of_char c :: nat) in
     if 48 \<le> n \<and> n \<le> 57 then Some (n - 48)
     else if 97 \<le> n \<and> n \<le> 102 then Some (n - 87)
     else if 65 \<le> n \<and> n \<le> 70 then Some (n - 55)
     else None)"

definition esc_char :: "char \<Rightarrow> string" where
  "esc_char c = (let n = (of_char c :: nat) in
     if n = 34 then [CHR 0x5C, CHR 0x22]
     else if n = 92 then [CHR 0x5C, CHR 0x5C]
     else if n = 10 then [CHR 0x5C, CHR ''n'']
     else if n = 13 then [CHR 0x5C, CHR ''r'']
     else if n = 9 then [CHR 0x5C, CHR ''t'']
     else if n = 12 then [CHR 0x5C, CHR ''f'']
     else if n = 8 then [CHR 0x5C, CHR ''b'']
     else if 32 \<le> n \<and> n \<le> 126 then [c]
     else [CHR 0x5C, CHR ''u'', CHR ''0'', CHR ''0'', hex_digit (n div 16), hex_digit (n mod 16)])"

definition quoted :: "string \<Rightarrow> string" where
  "quoted s = CHR 0x22 # concat (map esc_char s) @ [CHR 0x22]"

fun jtext :: "pyval \<Rightarrow> string"
  and jtext_list :: "pyval list \<Rightarrow> string"
  and jtext_dict :: "(string \<times> pyval) list \<Rightarrow> string" where
  "jtext PNone = ''null''"
| "jtext (PBool b) = (if b then ''true'' else ''false'')"
| "jtext (PInt n) = string_of_int n"
| "jtext (PStr s) = quoted s"
| "jtext (PDate t z) = []"
| "jtext (PList xs) = CHR ''['' # jtext_list xs @ [CHR '']'']"
| "jtext (PDict d) = CHR ''{'' # jtext_dict d @ [CHR ''}'']"
| "jtext_list [] = []"
| "jtext_list [x] = jtext x"
| "jtext_list (x # y # xs) = jtext x @ '', '' @ jtext_list (y # xs)"
| "jtext_dict [] = []"
| "jtext_dict [(k, v)] = quoted k @ '': '' @ jtext v"
| "jtext_dict ((k, v) # e # d) = quoted k @ '': '' @ jtext v @ '', '' @ jtext_dict (e # d)"

fun has_date :: "pyval \<Rightarrow> bool" where
  "has_date (PDate t z) = True"
| "has_date (PList xs) = (\<exists>x \<in> set xs. has_date x)"
| "has_date (PDict d) = (\<exists>e \<in> set d. has_date (snd e))"
| "has_date _ = False"

text \<open>A datetime is not JSON serialisable.\<close>

definition json_dumps :: "pyval \<Rightarrow> string result" where
  "json_dumps v = (if has_date v then Inl TypeError else Inr (jtext v))"

text \<open>
  \<^verbatim>\<open>jsonutils.dumps\<close> (\<^verbatim>\<open>oslo_serialization/jsonutils.py\<close>) writes a datetime as its text; \<open>dt\<close>
  is \<^verbatim>\<open>strftime\<close> with the format it uses.
\<close>

fun to_primitive :: "(string \<Rightarrow> bool \<Rightarrow> string) \<Rightarrow> pyval \<Rightarrow> pyval" where
  "to_primitive dt (PDate t z) = PStr (dt t z)"
| "to_primitive dt (PList xs) = PList (map (to_primitive dt) xs)"
| "to_primitive dt (PDict d) = PDict (map (\<lambda>(k, v). (k, to_primitive dt v)) d)"
| "to_primitive dt v = v"

definition jsonutils_dumps :: "(string \<Rightarrow> bool \<Rightarrow> string) \<Rightarrow> pyval \<Rightarrow> string" where
  "jsonutils_dumps dt v = jtext (to_primitive dt v)"

text \<open>The values a JSON text can denote: no dates, and dictionaries with distinct keys.\<close>

fun json_ok :: "pyval \<Rightarrow> bool" where
  "json_ok (PDate t z) = False"
| "json_ok (PList xs) = (\<forall>x \<in> set xs. json_ok x)"
| "json_ok (PDict d) = (dict_ok d \<and> (\<forall>e \<in> set d. json_ok (snd e)))"
| "json_ok _ = True"

lemma json_ok_no_date: "json_ok v \<Longrightarrow> \<not> has_date v"
  by (induction v rule: json_ok.induct) auto

lemma json_dumps_ok: "json_ok v \<Longrightarrow> json_dumps v = Inr (jtext v)"
  by (simp add: json_dumps_def json_ok_no_date)

lemma to_primitive_ok: "json_ok v \<Longrightarrow> to_primitive dt v = v"
proof (induction v rule: json_ok.induct)
  case (3 d)
  have "map (\<lambda>(k, v). (k, to_primitive dt v)) d = d"
    using 3 by (intro map_idI) (auto split: prod.split)
  then show ?case by simp
qed (auto intro!: map_idI)

lemma jsonutils_dumps_ok: "json_ok v \<Longrightarrow> jsonutils_dumps dt v = jtext v"
  by (simp add: jsonutils_dumps_def to_primitive_ok)

section \<open>Parsing\<close>

definition json_ws :: "char \<Rightarrow> bool" where
  "json_ws c \<longleftrightarrow> c = CHR '' '' \<or> c = CHR 0x09 \<or> c = CHR 0x0A \<or> c = CHR 0x0D"

abbreviation skip :: "string \<Rightarrow> string" where
  "skip \<equiv> dropWhile json_ws"

fun parse_str :: "string \<Rightarrow> (string \<times> string) option" where
  "parse_str [] = None"
| "parse_str (c # r) =
     (let n = (of_char c :: nat) in
      if n = 34 then Some ([], r)
      else if n = 92 then
        (case r of
           [] \<Rightarrow> None
         | e # r1 \<Rightarrow>
             (let simple = (\<lambda>x. map_option (\<lambda>(s, t). (x # s, t)) (parse_str r1)) in
              if e = CHR 0x22 \<or> e = CHR 0x5C \<or> e = CHR ''/'' then simple e
              else if e = CHR ''n'' then simple (CHR 0x0A)
              else if e = CHR ''r'' then simple (CHR 0x0D)
              else if e = CHR ''t'' then simple (CHR 0x09)
              else if e = CHR ''f'' then simple (CHR 0x0C)
              else if e = CHR ''b'' then simple (CHR 0x08)
              else if e = CHR ''u'' then
                (case r1 of
                   a # b # x # y # r2 \<Rightarrow>
                     (case (hex_val a, hex_val b, hex_val x, hex_val y) of
                        (Some 0, Some 0, Some h, Some l) \<Rightarrow>
                          map_option (\<lambda>(s, t). (char_of (16 * h + l) # s, t)) (parse_str r2)
                      | _ \<Rightarrow> None)
                 | _ \<Rightarrow> None)
              else None))
      else if n < 32 then None
      else map_option (\<lambda>(s, t). (c # s, t)) (parse_str r))"

text \<open>An integer: an optional minus, then \<open>0\<close> or digits that do not begin with \<open>0\<close>.\<close>

definition parse_unsigned :: "bool \<Rightarrow> string \<Rightarrow> (pyval \<times> string) option" where
  "parse_unsigned neg u =
     (let ds = takeWhile is_digit u;
          ds' = (if ds \<noteq> [] \<and> hd ds = CHR ''0'' then [CHR ''0''] else ds);
          r = drop (length ds') u
      in if ds' = [] then None
         else if r \<noteq> [] \<and> (hd r = CHR ''.'' \<or> hd r = CHR ''e'' \<or> hd r = CHR ''E'') then None
         else (case digits_val 0 ds' of
                 None \<Rightarrow> None
               | Some n \<Rightarrow> Some (PInt (if neg then - int n else int n), r)))"

fun parse_num :: "string \<Rightarrow> (pyval \<times> string) option" where
  "parse_num [] = None"
| "parse_num (c # s) = (if c = CHR ''-'' then parse_unsigned True s else parse_unsigned False (c # s))"

fun parse_value :: "nat \<Rightarrow> string \<Rightarrow> (pyval \<times> string) option"
  and parse_items :: "nat \<Rightarrow> string \<Rightarrow> (pyval list \<times> string) option"
  and parse_members :: "nat \<Rightarrow> string \<Rightarrow> ((string \<times> pyval) list \<times> string) option" where
  "parse_value 0 s = None"
| "parse_value (Suc n) [] = None"
| "parse_value (Suc n) (c # r) =
     (if c = CHR 0x22 then map_option (\<lambda>(s, t). (PStr s, t)) (parse_str r)
      else if c = CHR ''{'' then
        (case skip r of
           [] \<Rightarrow> None
         | e # t \<Rightarrow>
             if e = CHR ''}'' then Some (PDict [], t)
             else map_option (\<lambda>(d, u). (PDict (dupdate [] d), u)) (parse_members n (e # t)))
      else if c = CHR ''['' then
        (case skip r of
           [] \<Rightarrow> None
         | e # t \<Rightarrow>
             if e = CHR '']'' then Some (PList [], t)
             else map_option (\<lambda>(xs, u). (PList xs, u)) (parse_items n (e # t)))
      else if starts_with ''null'' (c # r) then Some (PNone, drop 4 (c # r))
      else if starts_with ''true'' (c # r) then Some (PBool True, drop 4 (c # r))
      else if starts_with ''false'' (c # r) then Some (PBool False, drop 5 (c # r))
      else parse_num (c # r))"
| "parse_items 0 s = None"
| "parse_items (Suc n) s =
     (case parse_value n s of
        None \<Rightarrow> None
      | Some (x, t) \<Rightarrow>
          (case skip t of
             [] \<Rightarrow> None
           | e # u \<Rightarrow>
               if e = CHR '']'' then Some ([x], u)
               else if e = CHR '','' then
                 map_option (\<lambda>(xs, w). (x # xs, w)) (parse_items n (skip u))
               else None))"
| "parse_members 0 s = None"
| "parse_members (Suc n) s =
     (case s of
        [] \<Rightarrow> None
      | q # r \<Rightarrow>
          if q \<noteq> CHR 0x22 then None
          else (case parse_str r of
             None \<Rightarrow> None
           | Some (k, t) \<Rightarrow>
               (case skip t of
                  [] \<Rightarrow> None
                | e # u \<Rightarrow>
                    if e \<noteq> CHR '':'' then None
                    else (case parse_value n (skip u) of
                       None \<Rightarrow> None
                     | Some (v, w) \<Rightarrow>
                         (case skip w of
                            [] \<Rightarrow> None
                          | f # x \<Rightarrow>
                              if f = CHR ''}'' then Some ([(k, v)], x)
                              else if f = CHR '','' then
                                map_option (\<lambda>(d, y). ((k, v) # d, y)) (parse_members n (skip x))
                              else None)))))"

text \<open>One unit of fuel per character is enough for any text the printer writes.\<close>

definition json_loads :: "string \<Rightarrow> pyval result" where
  "json_loads s =
     (case parse_value (Suc (length s)) (skip s) of
        None \<Rightarrow> Inl ValueError
      | Some (v, r) \<Rightarrow> if skip r = [] then Inr v else Inl ValueError)"

section \<open>Loading what was dumped\<close>

text \<open>
  What may follow a value so that a number ends where the printer ended it: in every text
  the printer writes this is the end, a comma or a closing bracket.
\<close>

definition num_end :: "string \<Rightarrow> bool" where
  "num_end r \<longleftrightarrow> r = [] \<or>
     (\<not> is_digit (hd r) \<and> hd r \<noteq> CHR ''.'' \<and> hd r \<noteq> CHR ''e'' \<and> hd r \<noteq> CHR ''E'')"

lemma hex_digit_val: "d < 16 \<Longrightarrow> hex_val (hex_digit d) = Some d"
proof (cases "d < 10")
  case True
  then have "(of_char (hex_digit d) :: nat) = d + 48"
    by (simp add: hex_digit_def digit_char_def of_char_of take_bit_eq_mod)
  with True show ?thesis by simp
next
  case False
  assume "d < 16"
  with False have "(of_char (hex_digit d) :: nat) = d + 87"
    by (simp add: hex_digit_def of_char_of take_bit_eq_mod)
  with False \<open>d < 16\<close> show ?thesis by simp
qed

lemma char_by_code: "(of_char c :: nat) = n \<Longrightarrow> c = char_of n"
  by auto

lemma parse_esc_char: "parse_str (esc_char c @ r) = map_option (\<lambda>(s, t). (c # s, t)) (parse_str r)"
proof -
  let ?n = "of_char c :: nat"
  consider "?n \<in> {34, 92, 10, 13, 9, 12, 8}"
    | "?n \<notin> {34, 92, 10, 13, 9, 12, 8}" "32 \<le> ?n" "?n \<le> 126"
    | "?n \<notin> {34, 92, 10, 13, 9, 12, 8}" "\<not> (32 \<le> ?n \<and> ?n \<le> 126)"
    by blast
  then show ?thesis
  proof cases
    case 1
    then have "c = CHR 0x22 \<or> c = CHR 0x5C \<or> c = CHR 0x0A \<or> c = CHR 0x0D \<or> c = CHR 0x09
        \<or> c = CHR 0x0C \<or> c = CHR 0x08"
      by (auto dest!: char_by_code simp: char_of_def bit_numeral_rec bit_0)
    then show ?thesis by (auto simp: esc_char_def)
  next
    case 2
    then show ?thesis by (simp add: esc_char_def)
  next
    case 3
    have n: "?n < 256" by (rule nat_of_char_less_256)
    from 3 have e: "esc_char c = [CHR 0x5C, CHR ''u'', CHR ''0'', CHR ''0'',
        hex_digit (?n div 16), hex_digit (?n mod 16)]"
      by (simp add: esc_char_def Let_def)
    have d: "?n div 16 < 16" using n by (intro less_mult_imp_div_less) simp
    have "hex_val (hex_digit (?n div 16)) = Some (?n div 16)"
      "hex_val (hex_digit (?n mod 16)) = Some (?n mod 16)"
      using d by (auto intro!: hex_digit_val simp del: hex_val.simps)
    moreover have "hex_val CHR ''0'' = Some 0" by simp
    ultimately show ?thesis by (simp add: e del: hex_val.simps)
  qed
qed

lemma parse_quoted_body:
  "parse_str (concat (map esc_char s) @ CHR 0x22 # r) = Some (s, r)"
proof (induction s)
  case (Cons c s)
  have "parse_str (concat (map esc_char (c # s)) @ CHR 0x22 # r) =
      parse_str (esc_char c @ concat (map esc_char s) @ CHR 0x22 # r)" by simp
  then show ?case by (simp only: parse_esc_char Cons) simp
qed simp

lemma takeWhile_digits:
  "list_all is_digit s \<Longrightarrow> num_end r \<Longrightarrow> takeWhile is_digit (s @ r) = s"
  by (induction s) (auto simp: num_end_def takeWhile_eq_Nil_iff)

lemma parse_unsigned_nat:
  assumes "num_end r"
  shows "parse_unsigned neg (string_of_nat n @ r) = Some (PInt (if neg then - int n else int n), r)"
proof -
  let ?s = "string_of_nat n"
  have t: "takeWhile is_digit (?s @ r) = ?s" by (rule takeWhile_digits [OF string_of_nat_digits assms])
  have z: "?s = ''0''" if "hd ?s = CHR ''0''"
    using string_of_nat_hd_zero [OF that] by (simp add: string_of_nat.simps [of 0] digit_char_def
        char_of_def bit_numeral_rec bit_0)
  have r: "\<not> (r \<noteq> [] \<and> (hd r = CHR ''.'' \<or> hd r = CHR ''e'' \<or> hd r = CHR ''E''))"
    using assms by (auto simp: num_end_def)
  define ds where "ds = (if ?s \<noteq> [] \<and> hd ?s = CHR ''0'' then ''0'' else ?s)"
  have ds: "ds = ?s" using z by (simp add: ds_def)
  show ?thesis
    unfolding parse_unsigned_def Let_def t ds_def [symmetric] ds
    using r by (simp add: digits_val_string_of_nat)
qed

lemma parse_num_nat:
  assumes "num_end r"
  shows "parse_num (string_of_nat n @ r) = Some (PInt (int n), r)"
proof -
  obtain c cs where s: "string_of_nat n = c # cs" by (cases "string_of_nat n") auto
  with string_of_nat_digits [of n] have "c \<noteq> CHR ''-''" by (auto dest: is_digit_not_space)
  with parse_unsigned_nat [OF assms, of False n] s show ?thesis by simp
qed

lemma parse_num_int: "num_end r \<Longrightarrow> parse_num (string_of_int i @ r) = Some (PInt i, r)"
  by (simp add: string_of_int_def parse_num_nat parse_unsigned_nat)

lemma string_of_int_hd:
  "\<exists>c cs. string_of_int i = c # cs \<and> (is_digit c \<or> c = CHR ''-'')"
proof -
  have "\<exists>c cs. string_of_nat n = c # cs \<and> is_digit c" for n
    using string_of_nat_digits [of n] by (cases "string_of_nat n") auto
  from this [of "nat i"] this [of "nat (- i)"] show ?thesis
    by (cases "i < 0") (auto simp: string_of_int_def)
qed

lemma parse_value_int:
  assumes "num_end r"
  shows "parse_value (Suc n) (string_of_int i @ r) = Some (PInt i, r)"
proof -
  obtain c cs where s: "string_of_int i = c # cs" "is_digit c \<or> c = CHR ''-''"
    using string_of_int_hd by blast
  then have "c \<notin> {CHR 0x22, CHR ''{'', CHR ''['', CHR ''n'', CHR ''t'', CHR ''f''}"
    by (auto simp: is_digit_def)
  with parse_num_int [OF assms, of i] s show ?thesis by (simp add: starts_with_def)
qed

text \<open>A printed value begins with none of the characters the parser looks for first.\<close>

lemma jtext_hd:
  assumes "json_ok v"
  shows "\<exists>c r. jtext v = c # r \<and> \<not> json_ws c \<and> c \<noteq> CHR '']'' \<and> c \<noteq> CHR ''}''"
proof (cases v)
  case (PInt i)
  with string_of_int_hd [of i] show ?thesis by (auto simp: json_ws_def is_digit_def)
qed (use assms in \<open>auto simp: json_ws_def quoted_def\<close>)

lemma jtext_list_hd:
  "xs \<noteq> [] \<Longrightarrow> \<forall>x \<in> set xs. json_ok x \<Longrightarrow>
   \<exists>c r. jtext_list xs = c # r \<and> \<not> json_ws c \<and> c \<noteq> CHR '']''"
  by (cases xs rule: remdups_adj.cases) (auto dest!: jtext_hd)

lemma jtext_dict_hd: "d \<noteq> [] \<Longrightarrow> \<exists>r. jtext_dict d = CHR 0x22 # r"
  by (cases d rule: remdups_adj.cases) (auto simp: quoted_def)

lemma skip_hd: "\<not> json_ws c \<Longrightarrow> skip (c # r) = c # r"
  by simp

lemma num_end_sep [simp]: "num_end (CHR '','' # r)" "num_end (CHR '']'' # r)" "num_end (CHR ''}'' # r)"
  by (simp_all add: num_end_def is_digit_def)

lemma json_ws_sep [simp]: "\<not> json_ws CHR '',''" "\<not> json_ws CHR '']''" "\<not> json_ws CHR ''}''"
  "\<not> json_ws CHR '':''" "json_ws CHR '' ''" "\<not> json_ws CHR 0x22"
  by (simp_all add: json_ws_def)

text \<open>One element, or one key with its value, and what the text goes on with.\<close>

definition loads_back :: "pyval \<Rightarrow> bool" where
  "loads_back v \<longleftrightarrow> (\<forall>n r. length (jtext v) \<le> n \<longrightarrow> num_end r \<longrightarrow>
     parse_value n (jtext v @ r) = Some (v, r))"

lemma parse_items_jtext:
  assumes "xs \<noteq> []" "\<forall>x \<in> set xs. json_ok x" "\<forall>x \<in> set xs. loads_back x"
    and "length (jtext_list xs) < n"
  shows "parse_items n (jtext_list xs @ CHR '']'' # r) = Some (xs, r)"
  using assms
proof (induction xs arbitrary: n)
  case (Cons x xs)
  obtain m where n: "n = Suc m" using Cons.prems(4) by (cases n) auto
  show ?case
  proof (cases xs)
    case Nil
    with Cons.prems n show ?thesis by (simp add: loads_back_def)
  next
    case (Cons y ys)
    have ih: "parse_items m (jtext_list xs @ CHR '']'' # r) = Some (xs, r)"
      using Cons.prems Cons n by (intro Cons.IH) auto
    obtain c t where c: "jtext_list xs = c # t" "\<not> json_ws c"
      using jtext_list_hd [of xs] Cons.prems Cons by auto
    have v: "parse_value m (jtext x @ CHR '','' # CHR '' '' # jtext_list xs @ CHR '']'' # r)
        = Some (x, CHR '','' # CHR '' '' # jtext_list xs @ CHR '']'' # r)"
      using Cons.prems Cons n by (simp add: loads_back_def)
    have s: "skip (CHR '' '' # jtext_list xs @ CHR '']'' # r) = jtext_list xs @ CHR '']'' # r"
      using c by simp
    have "jtext_list (x # xs) = jtext x @ '', '' @ jtext_list xs" using Cons by simp
    with v s ih show ?thesis by (simp add: n del: dropWhile.simps) (simp add: s ih)
  qed
qed simp

lemma parse_members_jtext:
  assumes "d \<noteq> []" "\<forall>e \<in> set d. json_ok (snd e)" "\<forall>e \<in> set d. loads_back (snd e)"
    and "length (jtext_dict d) < n"
  shows "parse_members n (jtext_dict d @ CHR ''}'' # r) = Some (d, r)"
  using assms
proof (induction d arbitrary: n)
  case (Cons e d)
  obtain k v where e: "e = (k, v)" by (cases e)
  obtain m where n: "n = Suc m" using Cons.prems(4) by (cases n) auto
  have q: "parse_str (concat (map esc_char k) @ CHR 0x22 # t) = Some (k, t)" for t
    by (rule parse_quoted_body)
  obtain c t where c: "jtext v = c # t" "\<not> json_ws c"
    using jtext_hd [of v] Cons.prems(2) e by auto
  have s: "skip (CHR '' '' # jtext v @ u) = jtext v @ u" for u using c by simp
  show ?case
  proof (cases d)
    case Nil
    have "parse_value m (jtext v @ CHR ''}'' # r) = Some (v, CHR ''}'' # r)"
      using Cons.prems Nil n e by (simp add: loads_back_def)
    with q s show ?thesis by (simp add: n e Nil quoted_def)
  next
    case (Cons f ds)
    have ih: "parse_members m (jtext_dict d @ CHR ''}'' # r) = Some (d, r)"
      using Cons.prems Cons n e by (intro Cons.IH) (auto simp: quoted_def)
    obtain t' where t': "jtext_dict d = CHR 0x22 # t'"
      using jtext_dict_hd [of d] Cons by auto
    have pv: "parse_value m (jtext v @ CHR '','' # CHR '' '' # jtext_dict d @ CHR ''}'' # r)
        = Some (v, CHR '','' # CHR '' '' # jtext_dict d @ CHR ''}'' # r)"
      using Cons.prems Cons n e by (simp add: loads_back_def quoted_def)
    have sd: "skip (CHR '' '' # jtext_dict d @ CHR ''}'' # r) = jtext_dict d @ CHR ''}'' # r"
      using t' by simp
    have j: "jtext_dict (e # d) = quoted k @ '': '' @ jtext v @ '', '' @ jtext_dict d"
      using Cons e by simp
    show ?thesis
      unfolding j quoted_def n using q s pv sd ih e by simp
  qed
qed simp

lemma loads_back_all: "json_ok v \<Longrightarrow> loads_back v"
proof (induction v)
  case (PInt i)
  have "parse_value n (string_of_int i @ r) = Some (PInt i, r)"
    if "length (string_of_int i) \<le> n" "num_end r" for n r
    using parse_value_int [OF that(2)] string_of_int_hd [of i] that(1) by (cases n) auto
  then show ?case by (simp add: loads_back_def)
next
  case (PList xs)
  have "parse_value n (jtext (PList xs) @ r) = Some (PList xs, r)"
    if n: "length (jtext (PList xs)) \<le> n" for n r
  proof -
    obtain m where m: "n = Suc m" using n by (cases n) auto
    show ?thesis
    proof (cases "xs = []")
      case False
      have p: "parse_items m (jtext_list xs @ CHR '']'' # r) = Some (xs, r)"
        using PList n m False by (intro parse_items_jtext) auto
      obtain c t where "jtext_list xs = c # t" "\<not> json_ws c" "c \<noteq> CHR '']''"
        using jtext_list_hd [OF False] PList.prems by auto
      with p show ?thesis by (simp add: m)
    qed (simp add: m)
  qed
  then show ?case by (simp add: loads_back_def)
next
  case (PDict d)
  have "parse_value n (jtext (PDict d) @ r) = Some (PDict d, r)"
    if n: "length (jtext (PDict d)) \<le> n" for n r
  proof -
    obtain m where m: "n = Suc m" using n by (cases n) auto
    show ?thesis
    proof (cases "d = []")
      case False
      have lb: "\<forall>e \<in> set d. loads_back (snd e)" using PDict by (auto simp: snds.simps)
      have p: "parse_members m (jtext_dict d @ CHR ''}'' # r) = Some (d, r)"
        using PDict.prems n m False lb by (intro parse_members_jtext) auto
      obtain t where "jtext_dict d = CHR 0x22 # t" using jtext_dict_hd [OF False] by blast
      with p PDict.prems show ?thesis by (simp add: m dupdate_Nil)
    qed (simp add: m)
  qed
  then show ?case by (simp add: loads_back_def)
next
  case (PStr s)
  have "parse_value n (jtext (PStr s) @ r) = Some (PStr s, r)" if "length (jtext (PStr s)) \<le> n" for n r
    using that by (cases n) (auto simp: quoted_def parse_quoted_body)
  then show ?case by (simp add: loads_back_def)
next
  case PNone
  have "parse_value n (''null'' @ r) = Some (PNone, r)" if "length ''null'' \<le> n" for n r
    using that by (cases n) (auto simp: starts_with_def)
  then show ?case by (simp add: loads_back_def)
next
  case (PBool b)
  have "parse_value n (''true'' @ r) = Some (PBool True, r)" if "4 \<le> n" for n r
    using that by (cases n) (auto simp: starts_with_def)
  moreover have "parse_value n (''false'' @ r) = Some (PBool False, r)" if "5 \<le> n" for n r
    using that by (cases n) (auto simp: starts_with_def)
  ultimately show ?case by (simp add: loads_back_def)
qed simp

theorem json_loads_dumps: "json_ok v \<Longrightarrow> json_loads (jtext v) = Inr v"
proof -
  assume v: "json_ok v"
  obtain c r where c: "jtext v = c # r" "\<not> json_ws c" using jtext_hd [OF v] by blast
  then have s: "skip (jtext v) = jtext v" by simp
  have "parse_value (Suc (length (jtext v))) (jtext v @ []) = Some (v, [])"
    using loads_back_all [OF v] unfolding loads_back_def num_end_def by simp
  then show ?thesis by (simp add: json_loads_def s)
qed

section \<open>What the parser returns\<close>

text \<open>Every loaded value is one that can be dumped: no dates, distinct keys.\<close>

lemma parse_unsigned_ok: "parse_unsigned b s = Some (v, t) \<Longrightarrow> json_ok v"
  by (auto simp: parse_unsigned_def Let_def split: if_splits option.splits)

lemma parse_num_ok: "parse_num s = Some (v, t) \<Longrightarrow> json_ok v"
  by (cases s) (auto simp: parse_unsigned_def Let_def split: if_splits option.splits)

lemma parse_json_ok:
  "parse_value n s = Some (v, t) \<Longrightarrow> json_ok v"
  "parse_items n s = Some (vs, t) \<Longrightarrow> \<forall>x \<in> set vs. json_ok x"
  "parse_members n s = Some (d, t) \<Longrightarrow> \<forall>e \<in> set d. json_ok (snd e)"
proof (induction n s and n s and n s arbitrary: v t and vs t and d t
    rule: parse_value_parse_items_parse_members.induct)
  case (3 n c r)
  then show ?case
    by (auto split: if_splits list.splits dest: parse_unsigned_ok dest!: set_dupdate) force
next
  case (5 n s)
  then show ?case
    by (auto split: if_splits list.splits option.splits prod.splits)
next
  case (7 n s)
  then show ?case
    by (auto split: if_splits list.splits option.splits prod.splits) force
qed auto

lemma json_loads_ok: "json_loads s = Inr v \<Longrightarrow> json_ok v"
  by (auto simp: json_loads_def split: option.splits if_splits dest: parse_json_ok(1))
end
