(* ===== verification/Utf8.thy ===== *)
theory Utf8
  imports Prelude
begin

text \<open>
  \<^verbatim>\<open>safe_truncate\<close> of \<^verbatim>\<open>nova/utils.py\<close>: cutting the encoding of a text and dropping bytes until
  it decodes again. A text is its code points, an encoding its bytes; the codec is the UTF-8 of
  Python 2.7, whose encoder writes a high surrogate and a low one that follows it as the one
  character they stand for, and any other surrogate like any other code point; the decoder
  takes surrogates and rejects overlong forms. A character is a code point (a wide build).
  The incoming encoding of \<^verbatim>\<open>encodeutils.safe_decode\<close> is UTF-8 or ASCII, which it falls back
  from.
\<close>

section \<open>The codec\<close>

definition code_point :: "nat \<Rightarrow> bool" where
  "code_point c \<longleftrightarrow> c < 1114112"

definition encode_char :: "nat \<Rightarrow> nat list" where
  "encode_char c =
     (if c < 128 then [c]
      else if c < 2048 then [192 + c div 64, 128 + c mod 64]
      else if c < 65536 then [224 + c div 4096, 128 + c div 64 mod 64, 128 + c mod 64]
      else [240 + c div 262144, 128 + c div 4096 mod 64, 128 + c div 64 mod 64, 128 + c mod 64])"

definition high_surrogate :: "nat \<Rightarrow> bool" where
  "high_surrogate c \<longleftrightarrow> 55296 \<le> c \<and> c < 56320"

definition low_surrogate :: "nat \<Rightarrow> bool" where
  "low_surrogate c \<longleftrightarrow> 56320 \<le> c \<and> c < 57344"

text \<open>The characters that the encoder writes, from left to right.\<close>

fun join_surrogates :: "nat list \<Rightarrow> nat list" where
  "join_surrogates [] = []"
| "join_surrogates [c] = [c]"
| "join_surrogates (h # l # cs) =
     (if high_surrogate h \<and> low_surrogate l
      then ((h - 55296) * 1024 + (l - 56320) + 65536) # join_surrogates cs
      else h # join_surrogates (l # cs))"

definition encode_chars :: "nat list \<Rightarrow> nat list" where
  "encode_chars cs = concat (map encode_char cs)"

definition safe_encode :: "nat list \<Rightarrow> nat list" where
  "safe_encode text = encode_chars (join_surrogates text)"

definition continuation :: "nat \<Rightarrow> bool" where
  "continuation b \<longleftrightarrow> 128 \<le> b \<and> b < 192"

text \<open>The first character of some bytes and what follows it; \<open>None\<close> for a decode error.\<close>

definition decode_char :: "nat list \<Rightarrow> (nat \<times> nat list) option" where
  "decode_char bs =
     (case bs of
        [] \<Rightarrow> None
      | b # r \<Rightarrow>
          if b < 128 then Some (b, r)
          else if b < 194 then None
          else if b < 224 then
            (case r of c1 # r1 \<Rightarrow>
               if continuation c1 then Some ((b - 192) * 64 + (c1 - 128), r1) else None
             | _ \<Rightarrow> None)
          else if b < 240 then
            (case r of c1 # c2 # r2 \<Rightarrow>
               (let v = (b - 224) * 4096 + (c1 - 128) * 64 + (c2 - 128) in
                if continuation c1 \<and> continuation c2 \<and> 2048 \<le> v then Some (v, r2) else None)
             | _ \<Rightarrow> None)
          else if b < 245 then
            (case r of c1 # c2 # c3 # r3 \<Rightarrow>
               (let v = (b - 240) * 262144 + (c1 - 128) * 4096 + (c2 - 128) * 64 + (c3 - 128) in
                if continuation c1 \<and> continuation c2 \<and> continuation c3 \<and> 65536 \<le> v \<and> code_point v
                then Some (v, r3) else None)
             | _ \<Rightarrow> None)
          else None)"

lemma decode_char_shorter: "decode_char bs = Some (c, r) \<Longrightarrow> length r < length bs"
  by (auto simp: decode_char_def Let_def split: list.splits if_splits)

function safe_decode :: "nat list \<Rightarrow> nat list option" where
  "safe_decode bs =
     (if bs = [] then Some []
      else case decode_char bs of
          None \<Rightarrow> None
        | Some (c, r) \<Rightarrow> map_option (\<lambda>cs. c # cs) (safe_decode r))"
  by pat_completeness auto
termination
  by (relation "measure length") (auto dest: decode_char_shorter)

declare safe_decode.simps [simp del]

lemma safe_decode_Nil [simp]: "safe_decode [] = Some []"
  by (simp add: safe_decode.simps)

section \<open>Truncation\<close>

text \<open>The loop drops the last byte until the rest decodes; nothing left always does.\<close>

function decode_longest :: "nat list \<Rightarrow> nat list" where
  "decode_longest b = (case safe_decode b of Some u \<Rightarrow> u | None \<Rightarrow> decode_longest (butlast b))"
  by pat_completeness auto
termination
proof (relation "measure length")
  fix b
  assume "safe_decode b = None"
  then have "b \<noteq> []" by auto
  then show "(butlast b, b) \<in> measure length" by simp
qed simp

declare decode_longest.simps [simp del]

definition safe_truncate :: "nat list \<Rightarrow> nat \<Rightarrow> nat list" where
  "safe_truncate v n = decode_longest (take n (safe_encode v))"

section \<open>Decoding what was encoded\<close>

lemma encode_char_length: "1 \<le> length (encode_char c) \<and> length (encode_char c) \<le> 4"
  by (simp add: encode_char_def)

lemma decode_encode_char: "code_point c \<Longrightarrow> decode_char (encode_char c @ r) = Some (c, r)"
proof -
  assume c: "code_point c"
  have d: "c div 64 div 64 = c div 4096" "c div 4096 div 64 = c div 262144" by (simp_all add: div_mult2_eq [symmetric])
  have 1: "c div 64 * 64 + c mod 64 = c" by simp
  have 2: "c div 4096 * 64 + c div 64 mod 64 = c div 64" using d(1) by (metis div_mult_mod_eq)
  have 3: "c div 4096 * 4096 + c div 64 mod 64 * 64 + c mod 64 = c" using 1 2 by linarith
  have "c div 262144 * 64 + c div 4096 mod 64 = c div 4096" using d(2) by (metis div_mult_mod_eq)
  with 3 have 4: "c div 262144 * 262144 + c div 4096 mod 64 * 4096 + c div 64 mod 64 * 64 + c mod 64 = c" by linarith
  have k: "continuation (128 + x mod 64)" for x by (simp add: continuation_def)
  consider "c < 128" | "128 \<le> c" "c < 2048" | "2048 \<le> c" "c < 65536" | "65536 \<le> c" "c < 1114112"
    using c by (auto simp: code_point_def) linarith
  then show ?thesis
  proof cases
    case 1
    then show ?thesis by (simp add: encode_char_def decode_char_def)
  next
    case c2: 2
    then have "2 \<le> c div 64" "c div 64 < 32" by (auto simp: less_mult_imp_div_less div_le_mono [of 128 c 64, simplified])
    with c2 1 show ?thesis using k by (simp add: encode_char_def decode_char_def)
  next
    case c3: 3
    then have "c div 4096 < 16" by (simp add: less_mult_imp_div_less)
    with c3 3 show ?thesis using k by (simp add: encode_char_def decode_char_def Let_def)
  next
    case c4: 4
    then have "c div 262144 < 5" by (simp add: less_mult_imp_div_less)
    with c4 4 c show ?thesis
      using k by (simp add: encode_char_def decode_char_def Let_def)
  qed
qed

lemma decode_cut_char:
  assumes "code_point c" "0 < k" "k < length (encode_char c)"
  shows "decode_char (take k (encode_char c)) = None"
proof -
  have "c div 64 < 32" if "c < 2048" using that by (simp add: less_mult_imp_div_less)
  moreover have "c div 4096 < 16" if "c < 65536" using that by (simp add: less_mult_imp_div_less)
  moreover have "c div 262144 < 5" using assms(1) by (simp add: code_point_def less_mult_imp_div_less)
  moreover have "k = 1 \<or> k = 2 \<or> k = 3" using assms encode_char_length [of c] by linarith
  ultimately show ?thesis
    using assms(3) by (auto simp: encode_char_def decode_char_def Let_def split: if_splits)
qed

lemma safe_decode_encoded:
  assumes "list_all code_point u"
  shows "safe_decode (encode_chars u @ q) = map_option (\<lambda>cs. u @ cs) (safe_decode q)"
  using assms
proof (induction u)
  case (Cons c u)
  have ne: "encode_char c \<noteq> []" using encode_char_length [of c] by auto
  have "safe_decode (encode_char c @ encode_chars u @ q) = map_option (\<lambda>cs. c # cs) (safe_decode (encode_chars u @ q))"
    using Cons.prems ne by (subst safe_decode.simps) (simp add: decode_encode_char)
  with Cons show ?case by (simp add: encode_chars_def option.map_comp comp_def)
qed (cases "safe_decode q"; simp add: encode_chars_def)

section \<open>What truncation returns\<close>

text \<open>The reference: characters are kept as long as their encoding fits.\<close>

fun fitting_prefix :: "nat list \<Rightarrow> nat \<Rightarrow> nat list" where
  "fitting_prefix [] n = []"
| "fitting_prefix (c # cs) n =
     (if length (encode_char c) \<le> n then c # fitting_prefix cs (n - length (encode_char c)) else [])"

lemma take_encoded:
  "\<exists>q. take n (encode_chars v) = encode_chars (fitting_prefix v n) @ q \<and>
     (q = [] \<or> (\<exists>c \<in> set v. \<exists>k < length (encode_char c). 0 < k \<and> q = take k (encode_char c)))"
proof (induction v n rule: fitting_prefix.induct)
  case (2 c cs n)
  show ?case
  proof (cases "length (encode_char c) \<le> n")
    case True
    with 2 show ?thesis by (fastforce simp: encode_chars_def)
  next
    case False
    then have "take n (encode_chars (c # cs)) = take n (encode_char c)" by (simp add: encode_chars_def)
    moreover have "n = 0 \<or> (\<exists>k < length (encode_char c). 0 < k \<and> take n (encode_char c) = take k (encode_char c))"
      using False by (metis linorder_not_le gr0I)
    ultimately show ?thesis using False by (auto simp: encode_chars_def)
  qed
qed (simp add: encode_chars_def)

lemma decode_longest_encoded:
  assumes "list_all code_point u" "code_point c" "k < length (encode_char c)"
  shows "decode_longest (encode_chars u @ take k (encode_char c)) = u"
  using assms(3)
proof (induction k)
  case 0
  show ?case
    using safe_decode_encoded [OF assms(1), of "[]"] by (simp add: decode_longest.simps)
next
  case (Suc k)
  have "decode_char (take (Suc k) (encode_char c)) = None"
    using assms(2) Suc.prems by (intro decode_cut_char) simp_all
  moreover have ne: "take (Suc k) (encode_char c) \<noteq> []" using Suc.prems by auto
  ultimately have "safe_decode (take (Suc k) (encode_char c)) = None"
    by (subst safe_decode.simps) simp
  with safe_decode_encoded [OF assms(1)]
  have "safe_decode (encode_chars u @ take (Suc k) (encode_char c)) = None" by simp
  then have "decode_longest (encode_chars u @ take (Suc k) (encode_char c)) =
      decode_longest (butlast (encode_chars u @ take (Suc k) (encode_char c)))"
    by (subst decode_longest.simps) simp
  also have "butlast (encode_chars u @ take (Suc k) (encode_char c)) = encode_chars u @ take k (encode_char c)"
    using ne Suc.prems by (simp add: butlast_append butlast_take)
  finally show ?case using Suc by simp
qed

lemma fitting_prefix_spec:
  "\<exists>rest. v = fitting_prefix v n @ rest \<and> length (encode_chars (fitting_prefix v n)) \<le> n \<and>
     (rest \<noteq> [] \<longrightarrow> n < length (encode_chars (fitting_prefix v n @ [hd rest])))"
proof (induction v n rule: fitting_prefix.induct)
  case (2 c cs n)
  show ?case
  proof (cases "length (encode_char c) \<le> n")
    case True
    with 2 obtain rest where "cs = fitting_prefix cs (n - length (encode_char c)) @ rest"
      "length (encode_chars (fitting_prefix cs (n - length (encode_char c)))) \<le> n - length (encode_char c)"
      "rest \<noteq> [] \<longrightarrow> n - length (encode_char c) <
        length (encode_chars (fitting_prefix cs (n - length (encode_char c)) @ [hd rest]))"
      by blast
    with True show ?thesis by (intro exI [of _ rest]) (auto simp: encode_chars_def)
  qed (simp add: encode_chars_def)
qed (simp add: encode_chars_def)

text \<open>Texts in which no pair is left to join.\<close>

fun unpaired :: "nat list \<Rightarrow> bool" where
  "unpaired (h # l # cs) \<longleftrightarrow> \<not> (high_surrogate h \<and> low_surrogate l) \<and> unpaired (l # cs)"
| "unpaired _ \<longleftrightarrow> True"

lemma join_unpaired: "unpaired v \<Longrightarrow> join_surrogates v = v"
  by (induction v rule: join_surrogates.induct) auto

lemma unpaired_Cons: "unpaired (c # v) \<longleftrightarrow> (v = [] \<or> \<not> (high_surrogate c \<and> low_surrogate (hd v))) \<and> unpaired v"
  by (cases v) auto

lemma unpaired_append: "unpaired (u @ v) \<Longrightarrow> unpaired u"
  by (induction u) (auto simp: unpaired_Cons hd_append split: if_splits)

lemma joined_pair: "high_surrogate h \<and> low_surrogate l \<Longrightarrow> code_point ((h - 55296) * 1024 + (l - 56320) + 65536)"
  by (auto simp: high_surrogate_def low_surrogate_def code_point_def)

lemma join_code_points: "list_all code_point v \<Longrightarrow> list_all code_point (join_surrogates v)"
  by (induction v rule: join_surrogates.induct) (auto simp: joined_pair)

lemma join_hd: "v \<noteq> [] \<Longrightarrow> join_surrogates v \<noteq> [] \<and> (low_surrogate (hd (join_surrogates v)) \<longrightarrow> low_surrogate (hd v))"
  by (induction v rule: join_surrogates.induct) (auto simp: low_surrogate_def)

lemma unpaired_join: "unpaired (join_surrogates v)"
proof (induction v rule: join_surrogates.induct)
  case (3 h l cs)
  then show ?case
    using join_hd [of "l # cs"] by (auto simp: unpaired_Cons high_surrogate_def)
qed auto

text \<open>
  C34: truncation by encoded length. Cutting the bytes, even in the middle of a character,
  and dropping bytes until the rest decodes ends, and gives the longest prefix of the text's
  characters whose encoding fits. The characters are the text itself, except that a high
  surrogate and a low one that follows it come back as the one character they stand for.
\<close>

theorem safe_truncate_longest:
  assumes "list_all code_point v"
  shows "\<exists>rest. join_surrogates v = safe_truncate v n @ rest \<and> length (safe_encode (safe_truncate v n)) \<le> n \<and>
     (rest \<noteq> [] \<longrightarrow> n < length (safe_encode (safe_truncate v n @ [hd rest]))) \<and>
     (unpaired v \<longrightarrow> join_surrogates v = v)"
proof -
  let ?w = "join_surrogates v"
  let ?u = "fitting_prefix ?w n"
  obtain rest where rest: "?w = ?u @ rest" "length (encode_chars ?u) \<le> n"
    "rest \<noteq> [] \<longrightarrow> n < length (encode_chars (?u @ [hd rest]))"
    using fitting_prefix_spec by blast
  have w: "list_all code_point ?w" by (rule join_code_points [OF assms])
  with rest(1) have u: "list_all code_point ?u" by (metis list_all_append)
  obtain q where q: "take n (encode_chars ?w) = encode_chars ?u @ q"
    "q = [] \<or> (\<exists>c \<in> set ?w. \<exists>k < length (encode_char c). 0 < k \<and> q = take k (encode_char c))"
    using take_encoded by blast
  have "decode_longest (encode_chars ?u @ q) = ?u"
    using q(2)
  proof
    assume "q = []"
    then show ?thesis using decode_longest_encoded [OF u, of 0 0] by (simp add: code_point_def encode_char_def)
  next
    assume "\<exists>c \<in> set ?w. \<exists>k < length (encode_char c). 0 < k \<and> q = take k (encode_char c)"
    then show ?thesis using decode_longest_encoded [OF u] w by (auto simp: list_all_iff)
  qed
  then have res: "safe_truncate v n = ?u" by (simp add: safe_truncate_def safe_encode_def q(1))
  have "unpaired ?u" using unpaired_join [of v] unpaired_append rest(1) by metis
  then have e1: "safe_encode ?u = encode_chars ?u" by (simp add: safe_encode_def join_unpaired)
  have "safe_encode (?u @ [hd rest]) = encode_chars (?u @ [hd rest])" if "rest \<noteq> []"
  proof -
    have "?w = (?u @ [hd rest]) @ tl rest" using rest(1) that by simp
    then have "unpaired (?u @ [hd rest])" using unpaired_join [of v] unpaired_append by metis
    then show ?thesis by (simp add: safe_encode_def join_unpaired)
  qed
  with rest show ?thesis unfolding res by (auto simp: e1 join_unpaired)
qed

theorem safe_truncate_longest_witness:
  "safe_truncate [104, 55296, 56320, 128512] 5 = [104, 65536] \<and>
   (\<exists>rest. join_surrogates [104, 55296, 56320, 128512] = safe_truncate [104, 55296, 56320, 128512] 5 @ rest \<and>
      length (safe_encode (safe_truncate [104, 55296, 56320, 128512] 5)) \<le> 5)"
proof -
  have "list_all code_point [104, 55296, 56320, 128512]" by (simp add: code_point_def)
  moreover have "safe_truncate [104, 55296, 56320, 128512] 5 = [104, 65536]"
    by (simp add: safe_truncate_def safe_encode_def encode_chars_def encode_char_def high_surrogate_def low_surrogate_def
        decode_longest.simps safe_decode.simps decode_char_def continuation_def code_point_def)
  ultimately show ?thesis using safe_truncate_longest [of "[104, 55296, 56320, 128512]" 5] by blast
qed

end
