(* ===== verification/Wsgi.thy ===== *)
theory Wsgi
  imports Versions Errors Exceptions Json Utf8
begin

text \<open>
  The request pipeline of the REST API (\<^verbatim>\<open>nova/api/openstack/wsgi.py\<close> and the outermost
  middleware of \<^verbatim>\<open>nova/api/openstack/__init__.py\<close>): a resource reads the version, finds
  the controller's method, decodes the body, runs the method and its extensions inside the
  exception handler, and encodes the result; whatever still escapes becomes a fault. A body is
  its bytes; in a decoded body a text beyond ASCII stands as the bytes of its encoding.
\<close>

section \<open>Requests and responses\<close>

text \<open>
  A request as the resource sees it. \<open>routing_args\<close> is what the router matched,
  \<open>context_project\<close> the project of the request's context if it has one.
\<close>

record request =
  req_method :: string
  req_url :: string
  content_type_header :: "string option"
  req_body :: string
  content_length :: "int option"
  routing_args :: "pydict option"
  context_project :: "pyval option"
  version_header :: "string option"
  accepted_type :: string
  req_version :: api_version

text \<open>
  A fault is not a response yet: it has a code and an explanation, no headers. A plain string
  is left to webob, which writes it into its own default response.
\<close>

datatype wsgi_response =
    RFault int string
  | RResp int "(string \<times> string) list" "string option"
  | RText string

record response_object =
  ro_obj :: pyval
  ro_default_code :: int
  ro_code :: "int option"
  ro_headers :: "(string \<times> string) list"

text \<open>
  What a method may return: nothing or a dictionary, a response object, or something that is
  taken for the response itself.
\<close>

datatype action_result =
    ADict pyval
  | AObj response_object
  | AResponse wsgi_response

text \<open>
  What the modelled code takes from elsewhere: webob's explanation of a status, the codes
  webob has an error class for, the text of a datetime in JSON, and of a value in a message.
\<close>

record wsgi_env =
  default_explanation :: "int \<Rightarrow> string"
  known_status :: "int \<Rightarrow> bool"
  date_text :: "string \<Rightarrow> bool \<Rightarrow> string"
  value_text :: "pyval \<Rightarrow> string"

text \<open>A method runs in the state \<open>'s\<close> of the program behind the interface.\<close>

record 's api_method =
  mcall :: "request \<Rightarrow> pydict \<Rightarrow> 's \<Rightarrow> action_result result \<times> 's"
  wsgi_code :: "int option"

text \<open>An extension sees the response object and may change it; it may also answer itself.\<close>

type_synonym extension =
  "request \<Rightarrow> pydict \<Rightarrow> response_object \<Rightarrow> wsgi_response option result \<times> response_object"

text \<open>A resource: the attributes of its controller and the registered actions and extensions.\<close>

record 's api_resource =
  attributes :: "string \<Rightarrow> 's api_method option"
  wsgi_actions :: "(string \<times> 's api_method) list"
  wsgi_extensions :: "(string \<times> extension list) list"
  wsgi_action_extensions :: "(string \<times> extension list) list"

section \<open>Registration\<close>

text \<open>Both loops leave what they registered before an error in place.\<close>

fun register_actions ::
  "(string \<Rightarrow> 's api_method option) \<Rightarrow> (string \<times> string) list \<Rightarrow> 's api_resource \<Rightarrow>
   unit result \<times> 's api_resource" where
  "register_actions controller [] r = (Inr (), r)"
| "register_actions controller ((key, method_name) # actions) r =
     (case controller method_name of
        None \<Rightarrow> (Inl AttributeError, r)
      | Some m \<Rightarrow> register_actions controller actions (r\<lparr>wsgi_actions := dset key m (wsgi_actions r)\<rparr>))"

text \<open>An extension of an action is filed under the action, any other under its own name.\<close>

definition file_extension :: "string \<Rightarrow> string option \<Rightarrow> extension \<Rightarrow> 's api_resource \<Rightarrow> 's api_resource" where
  "file_extension method_name action_name x r =
     (if action_name \<noteq> None \<and> action_name \<noteq> Some []
      then (let a = the action_name
            in r\<lparr>wsgi_action_extensions :=
                 dset a (dgetd (wsgi_action_extensions r) a [] @ [x]) (wsgi_action_extensions r)\<rparr>)
      else r\<lparr>wsgi_extensions :=
             dset method_name (dgetd (wsgi_extensions r) method_name [] @ [x]) (wsgi_extensions r)\<rparr>)"

fun register_extensions ::
  "(string \<Rightarrow> extension option) \<Rightarrow> (string \<times> string option) list \<Rightarrow> 's api_resource \<Rightarrow>
   unit result \<times> 's api_resource" where
  "register_extensions controller [] r = (Inr (), r)"
| "register_extensions controller ((method_name, action_name) # extensions) r =
     (case controller method_name of
        None \<Rightarrow> (Inl AttributeError, r)
      | Some x \<Rightarrow> register_extensions controller extensions (file_extension method_name action_name x r))"

section \<open>Finding the method\<close>

definition routes_methods :: "string list" where
  "routes_methods = [''create'', ''delete'', ''show'', ''update'']"

definition py_len :: "pyval \<Rightarrow> nat result" where
  "py_len v = (case v of
     PStr s \<Rightarrow> Inr (length s) | PList xs \<Rightarrow> Inr (length xs) | PDict d \<Rightarrow> Inr (length d) | _ \<Rightarrow> Inl TypeError)"

definition malformed_body :: "string \<Rightarrow> exn" where
  "malformed_body reason = Nova MalformedRequestBody reason"

text \<open>Bytes that decode as UTF-8. \<^verbatim>\<open>UnicodeDecodeError\<close> is a \<^verbatim>\<open>ValueError\<close>.\<close>

definition utf8_text :: "string \<Rightarrow> bool" where
  "utf8_text bytes \<longleftrightarrow> safe_decode (map of_char bytes) \<noteq> None"

definition action_peek :: "string \<Rightarrow> string result" where
  "action_peek body =
     (case (if utf8_text body then json_loads body else Inl ValueError) of
        Inl e \<Rightarrow> Inl (if e = ValueError then malformed_body ''cannot understand JSON'' else e)
      | Inr decoded \<Rightarrow>
          bind_r (py_len decoded) (\<lambda>n.
            if n \<noteq> 1 then Inl (malformed_body ''too many body keys'')
            else case decoded of PDict ((k, v) # _) \<Rightarrow> Inr k | _ \<Rightarrow> Inl AttributeError))"

text \<open>
  \<^verbatim>\<open>_get_method\<close>: the method and where its extension list is kept; a list that is not
  filed is a fresh empty one.
\<close>

datatype ext_slot = Filed string | FiledAction string

definition get_method_1 :: "string option \<Rightarrow> string \<Rightarrow> 's api_resource \<Rightarrow> ('s api_method \<times> ext_slot) result" where
  "get_method_1 action body r =
     (case action of
        None \<Rightarrow> Inl TypeError
      | Some a \<Rightarrow>
          (case attributes r a of
             Some m \<Rightarrow> Inr (m, Filed a)
           | None \<Rightarrow>
               if wsgi_actions r = [] \<or> a \<notin> set (routes_methods @ [''action'']) then Inl AttributeError
               else bind_r (if a = ''action'' then action_peek body else Inr a) (\<lambda>name.
                    bind_r (ditem (wsgi_actions r) name) (\<lambda>m. Inr (m, FiledAction name)))))"

fun slot_get :: "ext_slot \<Rightarrow> 's api_resource \<Rightarrow> extension list" where
  "slot_get (Filed a) r = dgetd (wsgi_extensions r) a []"
| "slot_get (FiledAction a) r = dgetd (wsgi_action_extensions r) a []"

text \<open>\<^verbatim>\<open>list.extend\<close> on the list \<^verbatim>\<open>dict.get\<close> returned: it is the filed list itself, if there is one.\<close>

fun slot_extend :: "ext_slot \<Rightarrow> extension list \<Rightarrow> 's api_resource \<Rightarrow> 's api_resource" where
  "slot_extend (Filed a) xs r =
     (if dhas (wsgi_extensions r) a
      then r\<lparr>wsgi_extensions := dset a (dgetd (wsgi_extensions r) a [] @ xs) (wsgi_extensions r)\<rparr> else r)"
| "slot_extend (FiledAction a) xs r =
     (if dhas (wsgi_action_extensions r) a
      then r\<lparr>wsgi_action_extensions := dset a (dgetd (wsgi_action_extensions r) a [] @ xs) (wsgi_action_extensions r)\<rparr>
      else r)"

text \<open>
  \<^verbatim>\<open>get_method\<close> on a resource and those it inherits from, nearest first. The inherited
  extensions are appended in place, so the resources come back changed.
\<close>

fun get_method ::
  "string option \<Rightarrow> string \<Rightarrow> 's api_resource list \<Rightarrow> ('s api_method \<times> extension list) result \<times> 's api_resource list" where
  "get_method action body [] = (Inl AttributeError, [])"
| "get_method action body (r # rs) =
     (case get_method_1 action body r of
        Inl e \<Rightarrow> (Inl e, r # rs)
      | Inr (m, slot) \<Rightarrow>
          (if rs = [] then (Inr (m, slot_get slot r), [r])
           else case get_method action body rs of
                  (Inl e, rs1) \<Rightarrow> (Inl e, r # rs1)
                | (Inr (m1, parent_ext), rs1) \<Rightarrow>
                    (Inr (m, slot_get slot r @ parent_ext), slot_extend slot parent_ext r # rs1)))"

section \<open>The exception handler\<close>

text \<open>
  \<^verbatim>\<open>ResourceExceptionHandler.__exit__\<close>: the exception that leaves the block. A fault is an
  HTTP error here. For invalid requests the handler names \<^verbatim>\<open>exception.ConvertedException\<close>,
  which \<^verbatim>\<open>nova.exception\<close> does not have.
\<close>

definition handler_exit :: "wsgi_env \<Rightarrow> exn \<Rightarrow> exn" where
  "handler_exit W e =
     (case e of
        Nova c m \<Rightarrow>
          if is_a c Forbidden then HTTPError 403 m
          else if is_a c VersionNotFoundForAPIMethod then e
          else if is_a c Invalid then AttributeError
          else e
      | TypeError \<Rightarrow> HTTPError 400 (default_explanation W 400)
      | _ \<Rightarrow> e)"

definition with_handler :: "wsgi_env \<Rightarrow> 'a result \<Rightarrow> 'a result" where
  "with_handler W r = (case r of Inl e \<Rightarrow> Inl (handler_exit W e) | Inr x \<Rightarrow> Inr x)"

definition unmatched :: "wsgi_env \<Rightarrow> action_result result \<Rightarrow> action_result result" where
  "unmatched W r =
     (case r of
        Inl (Nova c x) \<Rightarrow>
          if is_a c VersionNotFoundForAPIMethod then Inr (AResponse (RFault 404 (default_explanation W 404)))
          else Inl (Nova c x)
      | r \<Rightarrow> r)"

definition dispatch ::
  "wsgi_env \<Rightarrow> 's api_method \<Rightarrow> request \<Rightarrow> pydict \<Rightarrow> 's \<Rightarrow> action_result result \<times> 's" where
  "dispatch W m req args s = (case mcall m req args s of (r, s1) \<Rightarrow> (unmatched W r, s1))"

section \<open>Extensions and serialization\<close>

fun process_extensions ::
  "wsgi_env \<Rightarrow> request \<Rightarrow> pydict \<Rightarrow> extension list \<Rightarrow> response_object \<Rightarrow>
   wsgi_response option result \<times> response_object" where
  "process_extensions W req args [] ro = (Inr None, ro)"
| "process_extensions W req args (x # xs) ro =
     (case x req args ro of
        (r, ro1) \<Rightarrow>
          (case with_handler W r of
             Inl (Nova c m) \<Rightarrow>
               if is_a c VersionNotFoundForAPIMethod then process_extensions W req args xs ro1
               else (Inl (Nova c m), ro1)
           | Inl (HTTPError code m) \<Rightarrow> (Inr (Some (RFault code m)), ro1)
           | Inl e \<Rightarrow> (Inl e, ro1)
           | Inr (Some resp) \<Rightarrow> (Inr (Some resp), ro1)
           | Inr None \<Rightarrow> process_extensions W req args xs ro1))"

definition ro_status :: "response_object \<Rightarrow> int" where
  "ro_status ro = (case ro_code ro of Some c \<Rightarrow> if c \<noteq> 0 then c else ro_default_code ro | None \<Rightarrow> ro_default_code ro)"

definition ro_serialize :: "wsgi_env \<Rightarrow> string \<Rightarrow> response_object \<Rightarrow> wsgi_response" where
  "ro_serialize W content_type ro =
     RResp (ro_status ro) (dset ''Content-Type'' content_type (ro_headers ro))
       (if ro_obj ro = PNone then None else Some (jsonutils_dumps (date_text W) (ro_obj ro)))"

text \<open>The version headers every response of a versioned request carries; \<^verbatim>\<open>Vary\<close> is added twice.\<close>

definition version_headers :: "api_version \<Rightarrow> (string \<times> string) list \<Rightarrow> (string \<times> string) list" where
  "version_headers v h =
     (case get_string v of
        Inl e \<Rightarrow> h
      | Inr s \<Rightarrow>
          dset ''X-OpenStack-Nova-API-Version'' s (dset ''OpenStack-API-Version'' (''compute '' @ s) h) @
          [(''Vary'', ''OpenStack-API-Version''), (''Vary'', ''X-OpenStack-Nova-API-Version'')])"

text \<open>Only what has headers gets them.\<close>

definition finish_response :: "request \<Rightarrow> wsgi_response \<Rightarrow> wsgi_response" where
  "finish_response req resp =
     (case resp of
        RResp st h b \<Rightarrow> RResp st (version_headers (req_version req) h) b
      | RFault c m \<Rightarrow> RFault c m
      | RText t \<Rightarrow> RText t)"

section \<open>The processing stack\<close>

text \<open>
  The body is logged as a text before it is decoded: one that is not UTF-8 raises there,
  outside of every \<^verbatim>\<open>try\<close>.
\<close>

definition json_body :: "request \<Rightarrow> pydict result" where
  "json_body req =
     (if \<not> utf8_text (req_body req) then Inl (OtherError ''UnicodeDecodeError'')
      else if req_method req \<in> set [''POST'', ''PUT'']
      then (if content_length req = Some 0 then Inr [(''body'', PNone)]
            else (case json_loads (req_body req) of
                    Inl e \<Rightarrow> Inl (if e = ValueError then malformed_body ''cannot understand JSON'' else e)
                  | Inr v \<Rightarrow> Inr [(''body'', v)]))
      else Inr [])"

text \<open>The result of the method, as response object or response, with its extensions run.\<close>

definition conclude ::
  "wsgi_env \<Rightarrow> request \<Rightarrow> pydict \<Rightarrow> 's api_method \<Rightarrow> extension list \<Rightarrow> action_result \<Rightarrow> wsgi_response result" where
  "conclude W req args m exts res =
     (let ro = (case res of
                  ADict v \<Rightarrow> Some \<lparr>ro_obj = v, ro_default_code = 200, ro_code = None, ro_headers = []\<rparr>
                | AObj ro \<Rightarrow> Some ro
                | AResponse w \<Rightarrow> None)
      in case ro of
           None \<Rightarrow> (case res of AResponse w \<Rightarrow> Inr w | _ \<Rightarrow> Inl TypeError)
         | Some ro0 \<Rightarrow>
             (let ro1 = (case wsgi_code m of Some c \<Rightarrow> ro0\<lparr>ro_default_code := c\<rparr> | None \<Rightarrow> ro0)
              in case process_extensions W req args exts ro1 of
                   (Inl e, ro2) \<Rightarrow> Inl e
                 | (Inr (Some w), ro2) \<Rightarrow> Inr w
                 | (Inr None, ro2) \<Rightarrow> Inr (ro_serialize W (accepted_type req) ro2)))"

definition fault_of :: "wsgi_env \<Rightarrow> exn \<Rightarrow> wsgi_response result" where
  "fault_of W e =
     (case e of
        AttributeError \<Rightarrow> Inr (RFault 404 (default_explanation W 404))
      | TypeError \<Rightarrow> Inr (RFault 404 (default_explanation W 404))
      | KeyError k \<Rightarrow> Inr (RFault 400 (''There is no such action: '' @ k))
      | Nova c m \<Rightarrow>
          if is_a c MalformedRequestBody then Inr (RFault 400 ''Malformed request body'') else Inl e
      | _ \<Rightarrow> Inl e)"

definition project_mismatch :: "request \<Rightarrow> pyval \<Rightarrow> bool" where
  "project_mismatch req project =
     (case context_project req of None \<Rightarrow> False | Some p \<Rightarrow> truthy project \<and> project \<noteq> p)"

definition mismatch_text :: "wsgi_env \<Rightarrow> request \<Rightarrow> pyval \<Rightarrow> string" where
  "mismatch_text W req project =
     ''Malformed request URL: URL's project_id '' @ [CHR 0x27] @ value_text W project @ [CHR 0x27] @
     '' doesn't match Context's project_id '' @ [CHR 0x27] @
     value_text W (case context_project req of Some p \<Rightarrow> p | None \<Rightarrow> PNone) @ [CHR 0x27]"

definition process_stack ::
  "wsgi_env \<Rightarrow> request \<Rightarrow> string option \<Rightarrow> pydict \<Rightarrow> 's api_resource list \<Rightarrow> 's \<Rightarrow>
   wsgi_response result \<times> 's api_resource list \<times> 's" where
  "process_stack W req action args0 rs s =
     (case get_method action (req_body req) rs of
        (Inl e, rs1) \<Rightarrow> (fault_of W e, rs1, s)
      | (Inr (m, exts), rs1) \<Rightarrow>
          (case json_body req of
             Inl (Nova c x) \<Rightarrow>
               if is_a c MalformedRequestBody then (Inr (RFault 400 ''Malformed request body''), rs1, s)
               else (Inl (Nova c x), rs1, s)
           | Inl e \<Rightarrow> (Inl e, rs1, s)
           | Inr contents \<Rightarrow>
               (let args1 = dupdate args0 contents;
                    project = dgetd args1 ''project_id'' PNone;
                    args = AList.delete ''project_id'' args1
                in if project_mismatch req project
                   then (Inr (RFault 400 (mismatch_text W req project)), rs1, s)
                   else (case dispatch W m req args s of
                      (r, s1) \<Rightarrow>
                        ((case with_handler W r of
                            Inl (HTTPError code x) \<Rightarrow> Inr (RFault code x)
                          | Inl e \<Rightarrow> Inl e
                          | Inr res \<Rightarrow> bind_r (conclude W req args m exts res) (\<lambda>w. Inr (finish_response req w))),
                         rs1, s1)))))"

section \<open>The resource as an application\<close>

definition supported_content_types :: "string list" where
  "supported_content_types = [''application/json'', ''application/vnd.openstack.compute+json'']"

definition get_content_type :: "request \<Rightarrow> string option result" where
  "get_content_type req =
     (case content_type_header req of
        None \<Rightarrow> Inr None
      | Some t \<Rightarrow>
          if t = [] \<or> t = ''text/plain'' then Inr None
          else if t \<notin> set supported_content_types then Inl (Nova InvalidContentType t)
          else Inr (Some t))"

definition get_action_args :: "request \<Rightarrow> pydict" where
  "get_action_args req =
     (case routing_args req of
        None \<Rightarrow> []
      | Some args \<Rightarrow> AList.delete ''format'' (AList.delete ''controller'' args))"

definition resource_call ::
  "wsgi_env \<Rightarrow> bool \<Rightarrow> request \<Rightarrow> 's api_resource list \<Rightarrow> 's \<Rightarrow>
   wsgi_response result \<times> 's api_resource list \<times> 's" where
  "resource_call W versioned req0 rs s =
     (case (if versioned then set_api_version_request (version_header req0) else Inr (req_version req0)) of
        Inl (Nova c m) \<Rightarrow>
          if is_a c InvalidAPIVersionString then (Inr (RFault 400 m), rs, s)
          else if is_a c InvalidGlobalAPIVersion then (Inr (RFault 406 m), rs, s)
          else (Inl (Nova c m), rs, s)
      | Inl e \<Rightarrow> (Inl e, rs, s)
      | Inr v \<Rightarrow>
          (let req = req0\<lparr>req_version := v\<rparr>;
               args = get_action_args req;
               action = (case dget args ''action'' of Some (PStr a) \<Rightarrow> Some a | _ \<Rightarrow> None)
           in case get_content_type req of
                Inl (Nova c m) \<Rightarrow>
                  if is_a c InvalidContentType then (Inr (RFault 415 ''Unsupported Content-Type''), rs, s)
                  else (Inl (Nova c m), rs, s)
              | Inl e \<Rightarrow> (Inl e, rs, s)
              | Inr t \<Rightarrow> process_stack W req action (AList.delete ''action'' args) rs s))"

section \<open>Faults on the wire\<close>

fun fault_name :: "int \<Rightarrow> string" where
  "fault_name c =
     (case map_of [(400, ''badRequest''), (401, ''unauthorized''), (403, ''forbidden''), (404, ''itemNotFound''),
        (405, ''badMethod''), (409, ''conflictingRequest''), (413, ''overLimit''), (415, ''badMediaType''),
        (429, ''overLimit''), (501, ''notImplemented''), (503, ''serviceUnavailable'')] c of
        Some n \<Rightarrow> n | None \<Rightarrow> ''computeFault'')"

text \<open>\<^verbatim>\<open>Fault.__call__\<close>: \<open>retry\<close> is the wrapped exception's \<^verbatim>\<open>Retry-After\<close> header.\<close>

definition fault_response :: "wsgi_env \<Rightarrow> request \<Rightarrow> int \<Rightarrow> string \<Rightarrow> string option \<Rightarrow> wsgi_response" where
  "fault_response W req code explanation retry =
     (let details = [(''code'', PInt code), (''message'', PStr explanation)] @
            (case retry of
               Some t \<Rightarrow> if (code = 413 \<or> code = 429) \<and> t \<noteq> [] then [(''retryAfter'', PStr t)] else []
             | None \<Rightarrow> [])
      in RResp code (version_headers (req_version req) [(''Content-Type'', ''application/json'')])
           (Some (jsonutils_dumps (date_text W) (PDict [(fault_name code, PDict details)]))))"

text \<open>\<^verbatim>\<open>inner.__class__.__name__\<close>.\<close>

fun class_name :: "nova_class \<Rightarrow> string" where
  "class_name NovaException = ''NovaException''"
| "class_name Forbidden = ''Forbidden''"
| "class_name AdminRequired = ''AdminRequired''"
| "class_name PolicyNotAuthorized = ''PolicyNotAuthorized''"
| "class_name Unauthorized = ''Unauthorized''"
| "class_name Invalid = ''Invalid''"
| "class_name InvalidInput = ''InvalidInput''"
| "class_name InvalidAPIVersionString = ''InvalidAPIVersionString''"
| "class_name VersionNotFoundForAPIMethod = ''VersionNotFoundForAPIMethod''"
| "class_name InvalidGlobalAPIVersion = ''InvalidGlobalAPIVersion''"
| "class_name ApiVersionsIntersect = ''ApiVersionsIntersect''"
| "class_name ValidationError = ''ValidationError''"
| "class_name InvalidQuotaValue = ''InvalidQuotaValue''"
| "class_name InvalidQuotaMethodUsage = ''InvalidQuotaMethodUsage''"
| "class_name InvalidReservationExpiration = ''InvalidReservationExpiration''"
| "class_name QuotaUsageRefreshNotAllowed = ''QuotaUsageRefreshNotAllowed''"
| "class_name NotFound = ''NotFound''"
| "class_name CaseNotFound = ''CaseNotFound''"
| "class_name HostNotFound = ''HostNotFound''"
| "class_name ComputeHostNotFound = ''ComputeHostNotFound''"
| "class_name QuotaNotFound = ''QuotaNotFound''"
| "class_name QuotaExists = ''QuotaExists''"
| "class_name QuotaResourceUnknown = ''QuotaResourceUnknown''"
| "class_name ProjectUserQuotaNotFound = ''ProjectUserQuotaNotFound''"
| "class_name ProjectQuotaNotFound = ''ProjectQuotaNotFound''"
| "class_name QuotaClassNotFound = ''QuotaClassNotFound''"
| "class_name QuotaUsageNotFound = ''QuotaUsageNotFound''"
| "class_name OverQuota = ''OverQuota''"
| "class_name ServiceTopicExists = ''ServiceTopicExists''"
| "class_name ServiceBinaryExists = ''ServiceBinaryExists''"
| "class_name ServiceNotFound = ''ServiceNotFound''"
| "class_name HostBinaryNotFound = ''HostBinaryNotFound''"
| "class_name ServiceTooOld = ''ServiceTooOld''"
| "class_name MarkerNotFound = ''MarkerNotFound''"
| "class_name ObjectActionError = ''ObjectActionError''"
| "class_name OrphanedObjectError = ''OrphanedObjectError''"
| "class_name MalformedRequestBody = ''MalformedRequestBody''"
| "class_name InvalidContentType = ''InvalidContentType''"

text \<open>
  \<^verbatim>\<open>FaultWrapper\<close>: an exception that escapes becomes a fault of its code; its message is
  shown only where the class is marked safe. The notification it sends is left out.
\<close>

definition escaped_code :: "exn \<Rightarrow> int" where
  "escaped_code e =
     (case e of
        Nova c m \<Rightarrow> (case exc_code (class_name c) of Some k \<Rightarrow> k | None \<Rightarrow> 500)
      | HTTPError k m \<Rightarrow> k
      | _ \<Rightarrow> 500)"

definition escaped_explanation :: "wsgi_env \<Rightarrow> int \<Rightarrow> exn \<Rightarrow> string" where
  "escaped_explanation W status e =
     (case e of
        Nova c m \<Rightarrow>
          if exc_safe (class_name c) = Some True then class_name c @ '': '' @ m else default_explanation W status
      | _ \<Rightarrow> default_explanation W status)"

definition fault_wrapper ::
  "wsgi_env \<Rightarrow> request \<Rightarrow> wsgi_response result \<Rightarrow> wsgi_response" where
  "fault_wrapper W req r =
     (case r of
        Inr (RFault code m) \<Rightarrow> fault_response W req code m None
      | Inr w \<Rightarrow> w
      | Inl e \<Rightarrow>
          (let status = (let k = escaped_code e in if known_status W k then k else 500)
           in fault_response W req status (escaped_explanation W status e) None))"


section \<open>Lemmas\<close>

lemma with_handler_Inl: "with_handler W (Inl e) = Inl (handler_exit W e)"
  by (simp add: with_handler_def)

lemma dict_add [simp]: "slot_get (Filed a) (r\<lparr>wsgi_extensions := dset a xs d\<rparr>) = xs"
  by (simp add: dgetd_def)

text \<open>A request that reaches its method: routing, body and project are in order.\<close>

definition reaches ::
  "request \<Rightarrow> string option \<Rightarrow> pydict \<Rightarrow> 's api_resource list \<Rightarrow> 's api_method \<Rightarrow> extension list \<Rightarrow> pydict \<Rightarrow> bool" where
  "reaches req action args0 rs m exts args \<longleftrightarrow>
     fst (get_method action (req_body req) rs) = Inr (m, exts) \<and>
     (\<exists>contents. json_body req = Inr contents \<and>
        \<not> project_mismatch req (dgetd (dupdate args0 contents) ''project_id'' PNone) \<and>
        args = AList.delete ''project_id'' (dupdate args0 contents))"

lemma process_stack_reaches:
  assumes "reaches req action args0 rs m exts args"
  shows "fst (process_stack W req action args0 rs s) =
    (case with_handler W (fst (dispatch W m req args s)) of
       Inl (HTTPError code x) \<Rightarrow> Inr (RFault code x)
     | Inl e \<Rightarrow> Inl e
     | Inr res \<Rightarrow> bind_r (conclude W req args m exts res) (\<lambda>w. Inr (finish_response req w)))" (is ?response)
    and "snd (snd (process_stack W req action args0 rs s)) = snd (mcall m req args s)" (is ?state)
proof -
  from assms obtain contents rs1 where "get_method action (req_body req) rs = (Inr (m, exts), rs1)"
    and j: "json_body req = Inr contents"
      "\<not> project_mismatch req (dgetd (dupdate args0 contents) ''project_id'' PNone)"
      "args = AList.delete ''project_id'' (dupdate args0 contents)"
    by (auto simp: reaches_def prod_eq_iff)
  then show ?response ?state
    by (auto simp: process_stack_def Let_def dispatch_def split: sum.splits exn.splits prod.splits)
qed

text \<open>What the pipeline answers to an exception of a method.\<close>

definition answered_status :: "wsgi_env \<Rightarrow> exn \<Rightarrow> int" where
  "answered_status W e =
     (let escaped = (if known_status W (escaped_code e) then escaped_code e else 500) in
      case e of
        HTTPError code m \<Rightarrow> code
      | TypeError \<Rightarrow> 400
      | Nova c m \<Rightarrow>
          if is_a c VersionNotFoundForAPIMethod then 404
          else if is_a c Forbidden then 403
          else if is_a c Invalid then 500
          else escaped
      | _ \<Rightarrow> 500)"

lemma not_found_not_forbidden: "is_a c VersionNotFoundForAPIMethod \<Longrightarrow> \<not> is_a c Forbidden \<and> is_a c Invalid"
  by (cases c) (simp_all add: is_a_def nova_mro_def numeral_eq_Suc)

section \<open>Properties\<close>

text \<open>
  C14: how an API method's exception is answered. A request that reaches its method, whose
  method raises, gets a JSON fault with the method's HTTP code, 400 for a type error, 404
  where no version of the method matches, 403 where access is forbidden. An invalid request,
  whose class asks for 400, is answered by 500: the handler fails on a name that does not
  exist. Everything else that escapes is a fault of the exception's own code.
\<close>

theorem api_error_answer:
  assumes "reaches req action args0 rs m exts args" "mcall m req args s = (Inl e, s1)" "known_status W 500"
  shows "\<exists>expl. fault_wrapper W req (fst (process_stack W req action args0 rs s)) =
    fault_response W req (answered_status W e) expl None"
proof (cases e)
  case (Nova c x)
  show ?thesis
  proof (cases "is_a c VersionNotFoundForAPIMethod")
    case True
    then show ?thesis using assms(2) Nova
      by (auto simp: process_stack_reaches [OF assms(1)] dispatch_def unmatched_def with_handler_def conclude_def
          finish_response_def fault_wrapper_def answered_status_def)
  next
    case False
    then have "fst (dispatch W m req args s) = Inl (Nova c x)" using assms(2) Nova
      by (simp add: dispatch_def unmatched_def)
    then show ?thesis using Nova False assms(3)
      by (auto simp: process_stack_reaches [OF assms(1)] with_handler_def handler_exit_def
          fault_wrapper_def answered_status_def escaped_code_def Let_def)
  qed
next
  case (HTTPError k x)
  then have "fst (dispatch W m req args s) = Inl (HTTPError k x)" using assms(2)
    by (simp add: dispatch_def unmatched_def)
  then show ?thesis using HTTPError
    by (auto simp: process_stack_reaches [OF assms(1)] with_handler_def handler_exit_def fault_wrapper_def
        answered_status_def)
qed (use assms(2,3) in \<open>auto simp: process_stack_reaches [OF assms(1)] dispatch_def unmatched_def with_handler_def
       handler_exit_def fault_wrapper_def answered_status_def escaped_code_def Let_def\<close>)

definition sample_wsgi :: wsgi_env where
  "sample_wsgi = \<lparr>default_explanation = (\<lambda>c. ''''), known_status = (\<lambda>c. c \<in> {400, 403, 404, 500}),
     date_text = (\<lambda>t z. t), value_text = (\<lambda>v. ''?'')\<rparr>"

definition sample_req :: request where
  "sample_req = \<lparr>req_method = ''GET'', req_url = ''/'', content_type_header = None, req_body = [],
     content_length = None, routing_args = Some [(''action'', PStr ''index'')],
     context_project = Some (PStr ''p''), version_header = Some ''2.7'', accepted_type = ''application/json'',
     req_version = APIVersion 2 7\<rparr>"

definition invalid_method :: "unit api_method" where
  "invalid_method = \<lparr>mcall = (\<lambda>r a s. (Inl (Nova InvalidInput ''bad''), s)), wsgi_code = None\<rparr>"

definition sample_resource :: "'s api_method \<Rightarrow> (string \<times> extension list) list \<Rightarrow> 's api_resource" where
  "sample_resource m exts = \<lparr>attributes = (\<lambda>k. if k = ''index'' then Some m else None), wsgi_actions = [],
     wsgi_extensions = exts, wsgi_action_extensions = []\<rparr>"

theorem api_error_answer_witness:
  "\<exists>expl. fault_wrapper sample_wsgi sample_req
     (fst (process_stack sample_wsgi sample_req (Some ''index'') [] [sample_resource invalid_method []] ())) =
   fault_response sample_wsgi sample_req 500 expl None"
proof -
  have r: "reaches sample_req (Some ''index'') [] [sample_resource invalid_method []] invalid_method [] []"
    by (simp add: reaches_def get_method_1_def sample_resource_def sample_req_def json_body_def utf8_text_def
        project_mismatch_def dgetd_def dupdate_def)
  have e: "mcall invalid_method sample_req [] () = (Inl (Nova InvalidInput ''bad''), ())"
    by (simp add: invalid_method_def)
  have s: "answered_status sample_wsgi (Nova InvalidInput ''bad'') = 500"
  proof -
    have "is_a InvalidInput Invalid" "\<not> is_a InvalidInput Forbidden" "\<not> is_a InvalidInput VersionNotFoundForAPIMethod"
      by (simp_all add: is_a_def nova_mro_def numeral_eq_Suc)
    then show ?thesis by (simp add: answered_status_def)
  qed
  show ?thesis using api_error_answer [OF r e, of sample_wsgi] s by (simp add: sample_wsgi_def)
qed

text \<open>
  C24: inherited extensions pile up. Where a resource files extensions for an action and
  inherits from another, every request appends the inherited ones to the filed list: the
  request after \<open>n\<close> others runs them \<open>n + 1\<close> times.
\<close>

theorem inherited_extensions_pile_up:
  assumes "attributes r a = Some m" "attributes p a = Some mp" "dget (wsgi_extensions r) a = Some xs"
  shows "fst (get_method (Some a) body (((\<lambda>rs. snd (get_method (Some a) body rs)) ^^ n) [r, p])) =
    Inr (m, xs @ concat (replicate (Suc n) (dgetd (wsgi_extensions p) a [])))"
proof -
  let ?ys = "dgetd (wsgi_extensions p) a []"
  let ?step = "\<lambda>rs. snd (get_method (Some a) body rs)"
  have one: "get_method (Some a) body [q, p] =
      (Inr (m, zs @ ?ys), [q\<lparr>wsgi_extensions := dset a (zs @ ?ys) (wsgi_extensions q)\<rparr>, p])"
    if "attributes q a = Some m" "dget (wsgi_extensions q) a = Some zs" for q zs
    using that assms(2) by (simp add: get_method_1_def dgetd_def dhas_def)
  have "\<exists>q. (?step ^^ n) [r, p] = [q, p] \<and> attributes q a = Some m \<and>
      dget (wsgi_extensions q) a = Some (xs @ concat (replicate n ?ys))"
  proof (induction n)
    case 0
    then show ?case using assms by simp
  next
    case (Suc n)
    then obtain q where q: "(?step ^^ n) [r, p] = [q, p]" "attributes q a = Some m"
      "dget (wsgi_extensions q) a = Some (xs @ concat (replicate n ?ys))" by blast
    have "concat (replicate n ?ys) @ ?ys = concat (replicate (Suc n) ?ys)"
      by (induction n) simp_all
    then show ?case using q one [OF q(2,3)] by simp
  qed
  then obtain q where q: "(?step ^^ n) [r, p] = [q, p]" "attributes q a = Some m"
      "dget (wsgi_extensions q) a = Some (xs @ concat (replicate n ?ys))" by blast
  have "concat (replicate n ?ys) @ ?ys = concat (replicate (Suc n) ?ys)"
    by (induction n) simp_all
  then show ?thesis unfolding q(1) one [OF q(2,3)] by simp
qed

theorem inherited_extensions_pile_up_witness:
  "\<exists>x :: extension. fst (get_method (Some ''index'') [] (((\<lambda>rs. snd (get_method (Some ''index'') [] rs)) ^^ 2)
     [sample_resource invalid_method [(''index'', [])], sample_resource invalid_method [(''index'', [x])]])) =
   Inr (invalid_method, [x, x, x])"
proof -
  fix x :: extension
  show ?thesis
    using inherited_extensions_pile_up [of "sample_resource invalid_method [(''index'', [])]" "''index''" invalid_method
        "sample_resource invalid_method [(''index'', [x])]" invalid_method "[]" "[]" 2]
    by (intro exI [of _ x]) (simp add: sample_resource_def dgetd_def numeral_eq_Suc)
qed

text \<open>A request's version, by its header.\<close>

lemma request_version_cases:
  "set_api_version_request hdr =
    (case hdr of
       None \<Rightarrow> Inr (APIVersion 2 1)
     | Some h \<Rightarrow>
         if h = ''latest'' then Inr (APIVersion 2 38)
         else (case APIVersionRequest (Some h) of
             Inl e \<Rightarrow> Inl (Nova InvalidAPIVersionString (invalid_version_text h))
           | Inr v \<Rightarrow>
               if APIVersion 2 1 \<le> v \<and> v \<le> APIVersion 2 38 then Inr v
               else (case get_string v of
                   Inl e \<Rightarrow> Inl e | Inr t \<Rightarrow> Inl (Nova InvalidGlobalAPIVersion (global_version_text t)))))"
proof -
  have mm: "min_api_version = Inr (APIVersion 2 1)" "max_api_version = Inr (APIVersion 2 38)"
    "APIVersionRequest (Some ''2.1'') = Inr (APIVersion 2 1)" by code_simp+
  have c: "\<not> is_null (APIVersion 2 1)" "\<not> is_null (APIVersion 2 38)" by code_simp+
  have nn: "\<not> is_null (APIVersion (numeral_value a) (numeral_value b))" if "match_version h = Some (a, b)" for h a b
    using match_version_pos [OF that] by (simp add: is_null_def)
  show ?thesis
  proof (cases hdr)
    case None
    then show ?thesis using mm(3) by (simp only: set_api_version_request_def option.case)
  next
    case (Some h)
    then show ?thesis
      using nn by (cases "match_version h")
        (auto simp: set_api_version_request_def mm(1,2) c c [simplified] version_matches_def get_string_def)
  qed
qed

text \<open>
  C38: the version that was negotiated. A versioned resource answers in the version the request
  asks for: 2.1 when its header names none, 2.38 for \<^verbatim>\<open>latest\<close>, and otherwise the one that is
  named, if it is well formed and from 2.1 to 2.38: a response that has headers (a fault and a
  bare text have none) names that version in them. A malformed version gets 400 and one outside of the range 406, and no method,
  extension or list of extensions is touched.
\<close>

theorem version_negotiated:
  assumes "resource_call W True req rs s = (r, rs1, s1)"
  shows "case (case version_header req of
        None \<Rightarrow> Inr (APIVersion 2 1)
      | Some h \<Rightarrow> if h = ''latest'' then Inr (APIVersion 2 38) else APIVersionRequest (Some h)) of
      Inl e \<Rightarrow> (\<exists>m. r = Inr (RFault 400 m)) \<and> rs1 = rs \<and> s1 = s
    | Inr v \<Rightarrow>
        if APIVersion 2 1 \<le> v \<and> v \<le> APIVersion 2 38
        then (\<forall>st h b. r = Inr (RResp st h b) \<longrightarrow>
          (\<exists>t. get_string v = Inr t \<and> dget h ''OpenStack-API-Version'' = Some (''compute '' @ t)))
        else (\<exists>m. r = Inr (RFault 406 m)) \<and> rs1 = rs \<and> s1 = s"
proof (cases "set_api_version_request (version_header req)")
  case (Inl e)
  have "is_a InvalidAPIVersionString InvalidAPIVersionString" "\<not> is_a InvalidGlobalAPIVersion InvalidAPIVersionString"
    "is_a InvalidGlobalAPIVersion InvalidGlobalAPIVersion"
    by (simp_all add: is_a_def nova_mro_def numeral_eq_Suc)
  moreover have "\<not> is_null (APIVersion (numeral_value a) (numeral_value b))" if "match_version h = Some (a, b)" for h a b
    using match_version_pos [OF that] by (simp add: is_null_def)
  ultimately show ?thesis using assms Inl version_order
    unfolding request_version_cases
    by (auto simp: resource_call_def request_version_cases get_string_def split: option.splits if_splits sum.splits)
next
  case (Inr v)
  have nn: "\<not> is_null v" using request_in_range [of "version_header req"] Inr by simp
  let ?req = "req\<lparr>req_version := v\<rparr>"
  have hdr: "\<exists>t. get_string v = Inr t \<and> dget h ''OpenStack-API-Version'' = Some (''compute '' @ t)"
    if "finish_response ?req w = RResp st h b" for w st h b
    using that nn by (cases w) (auto simp: finish_response_def version_headers_def get_string_def map_add_def)
  have run: "\<exists>w. finish_response ?req w = RResp st h b" if "r = Inr (RResp st h b)" for st h b
    using assms Inr that
    by (auto simp: resource_call_def Let_def process_stack_def fault_of_def bind_r_Inr_iff
        split: sum.splits exn.splits if_splits prod.splits)
  have range: "APIVersion 2 1 \<le> v \<and> v \<le> APIVersion 2 38" using request_in_range [of "version_header req"] Inr by simp
  have "(case version_header req of
        None \<Rightarrow> Inr (APIVersion 2 1)
      | Some h \<Rightarrow> if h = ''latest'' then Inr (APIVersion 2 38) else APIVersionRequest (Some h)) = Inr v"
    using Inr unfolding request_version_cases by (auto split: option.splits if_splits sum.splits)
  then show ?thesis using range run hdr by auto
qed

theorem version_negotiated_witness:
  "\<exists>m. fst (resource_call sample_wsgi True (sample_req\<lparr>version_header := Some ''9.9''\<rparr>) [] ()) = Inr (RFault 406 m)"
proof -
  let ?q = "sample_req\<lparr>version_header := Some ''9.9''\<rparr>"
  have h: "APIVersionRequest (Some ''9.9'') = Inr (APIVersion 9 9)" "\<not> APIVersion 9 9 \<le> APIVersion 2 38" by code_simp+
  obtain r rs1 s1 where c: "resource_call sample_wsgi True ?q [] () = (r, rs1, s1)" by (rule prod_cases3)
  show ?thesis using version_negotiated [OF c] unfolding c using h by simp
qed

end
