(* ===== verification/Loops.thy ===== *)
theory Loops
  imports Prelude Complex_Main
begin

text \<open>
  Loops that wait: the looping calls of \<^verbatim>\<open>oslo_service/loopingcall.py\<close> with their retry
  decorator, and the start-up wait for the conductor (\<^verbatim>\<open>nova/conductor/api.py\<close>). A loop is a
  partial function, so that not returning is the value \<open>None\<close>. A duration is a rational
  number of seconds: the rounding of Python's floats is left out.
\<close>

section \<open>The loop\<close>

text \<open>One call of the looped function: it returns, raises \<^verbatim>\<open>LoopingCallDone\<close>, or raises.\<close>

datatype ('r, 'v) call_outcome = Returned 'r | LoopDone 'v | Raised exn

text \<open>
  \<^verbatim>\<open>_run_loop\<close>: \<open>running\<close> reads the flag that \<^verbatim>\<open>stop\<close> clears, \<open>func\<close> gives the outcome and the
  time it took, \<open>idle_for\<close> the time to sleep with its own state. The result is what \<^verbatim>\<open>wait\<close>
  gets (\<open>None\<close> stands for the \<^verbatim>\<open>True\<close> of a stopped loop) and the sleeps.
\<close>

partial_function (option) run_loop ::
  "('s \<Rightarrow> bool) \<Rightarrow> ('s \<Rightarrow> (('r, 'v) call_outcome \<times> rat) \<times> 's) \<Rightarrow> ('r \<Rightarrow> rat \<Rightarrow> 'i \<Rightarrow> rat result \<times> 'i) \<Rightarrow>
   'i \<Rightarrow> 's \<Rightarrow> ('v option result \<times> rat list \<times> 'i \<times> 's) option" where
  "run_loop running func idle_for i s =
     (if \<not> running s then Some (Inr None, [], i, s)
      else case func s of ((out, elapsed), s1) \<Rightarrow>
        (case out of
           LoopDone v \<Rightarrow> Some (Inr (Some v), [], i, s1)
         | Raised e \<Rightarrow> Some (Inl e, [], i, s1)
         | Returned r \<Rightarrow>
             (if \<not> running s1 then Some (Inr None, [], i, s1)
              else case idle_for r elapsed i of (idle, i1) \<Rightarrow>
                (case idle of
                   Inl e \<Rightarrow> Some (Inl e, [], i1, s1)
                 | Inr d \<Rightarrow>
                     Option.bind (run_loop running func idle_for i1 s1) (\<lambda>(res, ds, i2, s2).
                       Some (res, d # ds, i2, s2))))))"

declare run_loop.simps [code]

text \<open>\<^verbatim>\<open>_safe_wrapper\<close>, used when the loop is not to stop on exceptions.\<close>

definition safe_wrapper :: "'r \<Rightarrow> ('s \<Rightarrow> (('r, 'v) call_outcome \<times> rat) \<times> 's) \<Rightarrow> 's \<Rightarrow> (('r, 'v) call_outcome \<times> rat) \<times> 's" where
  "safe_wrapper zero f s =
     (case f s of ((out, t), s1) \<Rightarrow> (((case out of Raised e \<Rightarrow> Returned zero | x \<Rightarrow> x), t), s1))"

section \<open>Idle times\<close>

definition fixed_idle :: "rat \<Rightarrow> 'r \<Rightarrow> rat \<Rightarrow> unit \<Rightarrow> rat result \<times> unit" where
  "fixed_idle interval r elapsed i =
     (let delay = elapsed - interval in (Inr (if delay < 0 then - delay else 0), i))"

definition dynamic_idle :: "rat option \<Rightarrow> rat option \<Rightarrow> rat \<Rightarrow> unit \<Rightarrow> rat result \<times> unit" where
  "dynamic_idle periodic_interval_max suggested_delay elapsed i =
     ((case suggested_delay of
         None \<Rightarrow> (case periodic_interval_max of Some m \<Rightarrow> Inr m | None \<Rightarrow> Inl RuntimeError)
       | Some d \<Rightarrow> (case periodic_interval_max of Some m \<Rightarrow> Inr (min d m) | None \<Rightarrow> Inr d)), i)"

text \<open>The back-off loop's state; \<open>jitters\<close> are the random numbers still to come.\<close>

record backoff =
  error_time :: rat
  interval :: rat
  jitters :: "nat \<Rightarrow> rat"

record backoff_config =
  starting_interval :: rat
  time_limit :: rat
  max_interval :: rat

definition loop_time_out :: exn where
  "loop_time_out = OtherError ''LoopingCallTimeOut''"

definition backoff_start :: "backoff_config \<Rightarrow> (nat \<Rightarrow> rat) \<Rightarrow> backoff" where
  "backoff_start C js = \<lparr>error_time = 0, interval = starting_interval C, jitters = js\<rparr>"

definition backoff_idle :: "backoff_config \<Rightarrow> bool \<Rightarrow> rat \<Rightarrow> backoff \<Rightarrow> rat result \<times> backoff" where
  "backoff_idle C success elapsed b =
     (let random_jitter = jitters b 0;
          b1 = b\<lparr>jitters := \<lambda>n. jitters b (Suc n)\<rparr>
      in if success
         then (Inr (starting_interval C * random_jitter), b1\<lparr>interval := starting_interval C, error_time := 0\<rparr>)
         else (let idle = min (interval b * 2 * random_jitter) (max_interval C);
                   b2 = b1\<lparr>interval := idle\<rparr>
               in if 0 < time_limit C \<and> time_limit C < error_time b + idle then (Inl loop_time_out, b2)
                  else (Inr idle, b2\<lparr>error_time := error_time b + idle\<rparr>)))"

section \<open>The retry decorator\<close>

record retry_config =
  max_retry_count :: int
  inc_sleep_time :: rat
  max_sleep_time :: rat

text \<open>The counters belong to the decorator object; no call resets them.\<close>

record retry_state =
  retry_count :: int
  sleep_time :: rat

definition new_retry_state :: retry_state where
  "new_retry_state = \<lparr>retry_count = 0, sleep_time = 0\<rparr>"

text \<open>The wrapped function \<^verbatim>\<open>_func\<close>: \<open>suggested\<close> are the exceptions to retry on.\<close>

definition retry_func ::
  "retry_config \<Rightarrow> (exn \<Rightarrow> bool) \<Rightarrow> ('s \<Rightarrow> 'a result \<times> 's) \<Rightarrow> retry_state \<times> 's \<Rightarrow>
   ((rat option, 'a) call_outcome \<times> rat) \<times> (retry_state \<times> 's)" where
  "retry_func C suggested f st =
     (case st of (rs, s) \<Rightarrow>
        (case f s of
           (Inr x, s1) \<Rightarrow> ((LoopDone x, 0), (rs, s1))
         | (Inl e, s1) \<Rightarrow>
             (if \<not> suggested e \<or> max_retry_count C \<noteq> - 1 \<and> max_retry_count C \<le> retry_count rs
              then ((Raised e, 0), (rs, s1))
              else (let rs1 = \<lparr>retry_count = retry_count rs + 1, sleep_time = sleep_time rs + inc_sleep_time C\<rparr>
                    in ((Returned (Some (sleep_time rs1)), 0), (rs1, s1))))))"

definition retry_call ::
  "retry_config \<Rightarrow> (exn \<Rightarrow> bool) \<Rightarrow> ('s \<Rightarrow> 'a result \<times> 's) \<Rightarrow> retry_state \<Rightarrow> 's \<Rightarrow>
   ('a option result \<times> rat list \<times> unit \<times> (retry_state \<times> 's)) option" where
  "retry_call C suggested f rs s =
     run_loop (\<lambda>st. True) (retry_func C suggested f) (dynamic_idle (Some (max_sleep_time C))) () (rs, s)"

section \<open>Waiting for the conductor\<close>

text \<open>
  \<open>ping\<close> is the remote call with its timeout; a messaging timeout is retried without end.
  The result lists the timeouts of the calls made.
\<close>

partial_function (option) wait_loop ::
  "(int option \<Rightarrow> 's \<Rightarrow> unit result \<times> 's) \<Rightarrow> int \<Rightarrow> int \<Rightarrow> int option \<Rightarrow> 's \<Rightarrow>
   (unit result \<times> int option list \<times> 's) option" where
  "wait_loop ping early_attempts attempt timeout s =
     (let timeout1 = (if attempt = early_attempts then None else timeout) in
      case ping timeout1 s of (r, s1) \<Rightarrow>
        (case r of
           Inr u \<Rightarrow> Some (Inr (), [timeout1], s1)
         | Inl e \<Rightarrow>
             (if e = MessagingTimeout
              then Option.bind (wait_loop ping early_attempts (attempt + 1) timeout1 s1) (\<lambda>(res, ts, s2).
                     Some (res, timeout1 # ts, s2))
              else Some (Inl e, [timeout1], s1))))"

declare wait_loop.simps [code]

definition wait_until_ready ::
  "(int option \<Rightarrow> 's \<Rightarrow> unit result \<times> 's) \<Rightarrow> int \<Rightarrow> int \<Rightarrow> 's \<Rightarrow>
   (unit result \<times> int option list \<times> 's) option" where
  "wait_until_ready ping early_timeout early_attempts s = wait_loop ping early_attempts 0 (Some early_timeout) s"


section \<open>Lemmas\<close>

lemma retry_call_step:
  "retry_call C suggested f rs s =
     (case f s of
        (Inr x, s1) \<Rightarrow> Some (Inr (Some x), [], (), (rs, s1))
      | (Inl e, s1) \<Rightarrow>
          (if \<not> suggested e \<or> max_retry_count C \<noteq> - 1 \<and> max_retry_count C \<le> retry_count rs
           then Some (Inl e, [], (), (rs, s1))
           else (let rs1 = \<lparr>retry_count = retry_count rs + 1, sleep_time = sleep_time rs + inc_sleep_time C\<rparr> in
             Option.bind (retry_call C suggested f rs1 s1) (\<lambda>(res, ds, u, st).
               Some (res, min (sleep_time rs1) (max_sleep_time C) # ds, u, st)))))"
  unfolding retry_call_def
  by (subst run_loop.simps)
     (auto simp: retry_func_def dynamic_idle_def Let_def split: prod.splits sum.splits if_splits)

lemma retry_call_bounded:
  assumes "max_retry_count C \<noteq> - 1"
  shows "\<exists>res ds rs2 s2. retry_call C suggested f rs s = Some (res, ds, (), (rs2, s2)) \<and> res \<noteq> Inr None \<and>
    int (length ds) \<le> max 0 (max_retry_count C - retry_count rs) \<and>
    retry_count rs2 = retry_count rs + int (length ds) \<and>
    (\<forall>k < length ds. ds ! k = min (sleep_time rs + of_nat (Suc k) * inc_sleep_time C) (max_sleep_time C)) \<and>
    (\<forall>e. res = Inl e \<longrightarrow> suggested e \<longrightarrow> max_retry_count C \<le> retry_count rs2)"
proof (induction "nat (max_retry_count C - retry_count rs)" arbitrary: rs s rule: less_induct)
  case less
  obtain r s1 where f: "f s = (r, s1)" by fastforce
  show ?case
  proof (cases "\<exists>e. r = Inl e \<and> suggested e \<and> retry_count rs < max_retry_count C")
    case False
    then show ?thesis using f assms
      by (subst retry_call_step) (cases r; auto)
  next
    case True
    then obtain e where e: "r = Inl e" "suggested e" "retry_count rs < max_retry_count C" by blast
    define rs1 where "rs1 = \<lparr>retry_count = retry_count rs + 1, sleep_time = sleep_time rs + inc_sleep_time C\<rparr>"
    have "nat (max_retry_count C - retry_count rs1) < nat (max_retry_count C - retry_count rs)"
      using e(3) by (simp add: rs1_def)
    from less [OF this, of s1] obtain res ds rs2 s2 where
      c: "retry_call C suggested f rs1 s1 = Some (res, ds, (), (rs2, s2))" "res \<noteq> Inr None"
      "int (length ds) \<le> max 0 (max_retry_count C - retry_count rs1)"
      "retry_count rs2 = retry_count rs1 + int (length ds)"
      "\<forall>k < length ds. ds ! k = min (sleep_time rs1 + of_nat (Suc k) * inc_sleep_time C) (max_sleep_time C)"
      "\<forall>e. res = Inl e \<longrightarrow> suggested e \<longrightarrow> max_retry_count C \<le> retry_count rs2"
      by (elim exE conjE) (rule that)
    have "retry_call C suggested f rs s = Some (res, min (sleep_time rs1) (max_sleep_time C) # ds, (), (rs2, s2))"
      using f e c(1) by (subst retry_call_step) (simp add: Let_def rs1_def)
    moreover have "(min (sleep_time rs1) (max_sleep_time C) # ds) ! k =
        min (sleep_time rs + of_nat (Suc k) * inc_sleep_time C) (max_sleep_time C)" if "k < Suc (length ds)" for k
      using that c(5) by (cases k) (auto simp: rs1_def algebra_simps)
    ultimately show ?thesis using c(2-4,6) e(3) by (auto simp: rs1_def)
  qed
qed

section \<open>Properties\<close>

text \<open>
  A bounded retry ends. With a retry count other than -1 every call of the decorated
  function returns: it makes at most as many retries as are left, the \<open>k\<close>-th sleep is \<open>k\<close>
  increments (after those of earlier calls) capped at the maximum, and when it gives up on
  an exception it was to retry, the retries are used up.
\<close>

theorem retry_terminates:
  assumes "max_retry_count C \<noteq> - 1"
  shows "\<exists>res ds rs2 s2. retry_call C suggested f rs s = Some (res, ds, (), (rs2, s2)) \<and> res \<noteq> Inr None \<and>
    int (length ds) \<le> max 0 (max_retry_count C - retry_count rs) \<and>
    retry_count rs2 = retry_count rs + int (length ds) \<and>
    (\<forall>k < length ds. ds ! k = min (sleep_time rs + of_nat (Suc k) * inc_sleep_time C) (max_sleep_time C)) \<and>
    (\<forall>e. res = Inl e \<longrightarrow> suggested e \<longrightarrow> max_retry_count C \<le> retry_count rs2)"
  by (rule retry_call_bounded [OF assms])

definition sample_retry :: retry_config where
  "sample_retry = \<lparr>max_retry_count = 2, inc_sleep_time = 10, max_sleep_time = 15\<rparr>"

theorem retry_terminates_witness:
  "\<exists>res ds rs2 s2. retry_call sample_retry (\<lambda>e. True) (\<lambda>n. (Inl ValueError :: unit result, n + 1)) new_retry_state (0 :: nat) =
     Some (res, ds, (), (rs2, s2)) \<and> length ds \<le> 2"
proof -
  have "max_retry_count sample_retry \<noteq> - 1" by (simp add: sample_retry_def)
  from retry_terminates [OF this, of "\<lambda>e. True" "\<lambda>n. (Inl ValueError :: unit result, n + 1)" new_retry_state "0 :: nat"]
  show ?thesis by (fastforce simp: sample_retry_def new_retry_state_def)
qed

text \<open>
  The retries are the decorator's, not the call's. After a call that gave up on an
  exception it was to retry, every later call of the decorated function runs the function
  exactly once and hands on whatever it raises.
\<close>

theorem retry_budget_shared:
  assumes "max_retry_count C \<noteq> - 1" "suggested e"
    and "retry_call C suggested f rs s = Some (Inl e, ds, (), (rs2, s2))"
  shows "retry_call C suggested g rs2 t =
    Some (case g t of (r, t1) \<Rightarrow> (map_sum id Some r, [], (), (rs2, t1)))"
proof -
  have "max_retry_count C \<le> retry_count rs2"
    using retry_call_bounded [OF assms(1), of suggested f rs s] assms(2,3) by auto
  then show ?thesis using assms(1)
    by (subst retry_call_step) (auto split: prod.splits sum.splits)
qed

theorem retry_budget_shared_witness:
  "\<exists>rs2. retry_call sample_retry (\<lambda>e. True) (\<lambda>n. (Inl ValueError :: unit result, n + 1)) rs2 (0 :: nat) =
     Some (Inl ValueError, [], (), (rs2, 1))"
proof -
  let ?f = "\<lambda>n :: nat. (Inl ValueError :: unit result, n + 1)"
  have m: "max_retry_count sample_retry \<noteq> - 1" by (simp add: sample_retry_def)
  have "retry_call sample_retry (\<lambda>e. True) ?f \<lparr>retry_count = 2, sleep_time = 20\<rparr> 0 =
      Some (Inl ValueError, [], (), (\<lparr>retry_count = 2, sleep_time = 20\<rparr>, 1))"
    by (subst retry_call_step) (simp add: sample_retry_def)
  from retry_budget_shared [OF m _ this, of ?f 0] show ?thesis by auto
qed

text \<open>
  The wait for the conductor ends exactly when it should. It returns as soon as a ping
  does anything but time out, handing on any other error, after the early attempts with the
  early timeout and the rest with the configured one; while every ping times out, it does
  not return.
\<close>

primrec wait_timeout :: "int \<Rightarrow> int \<Rightarrow> int option \<Rightarrow> nat \<Rightarrow> int option" where
  "wait_timeout ea a t 0 = (if a = ea then None else t)"
| "wait_timeout ea a t (Suc k) = wait_timeout ea (a + 1) (if a = ea then None else t) k"

lemma wait_timeout_None: "wait_timeout ea a None k = None"
  by (induction k arbitrary: a) auto

lemma wait_timeout_eq: "a \<le> ea \<Longrightarrow> wait_timeout ea a (Some t) k = (if a + int k < ea then Some t else None)"
  by (induction k arbitrary: a) (auto simp: wait_timeout_None)

lemma wait_loop_ends:
  "(\<forall>k < n. ping (wait_timeout ea a t k) (st k) = (Inl MessagingTimeout, st (Suc k))) \<Longrightarrow>
   ping (wait_timeout ea a t n) (st n) = (r, s1) \<Longrightarrow> r \<noteq> Inl MessagingTimeout \<Longrightarrow>
   wait_loop ping ea a t (st 0) = Some (r, map (wait_timeout ea a t) [0..<Suc n], s1)"
proof (induction n arbitrary: a t st)
  case 0
  then show ?case by (subst wait_loop.simps) (auto simp: Let_def split: sum.splits)
next
  case (Suc n)
  let ?t = "if a = ea then None else t"
  have "\<forall>k < n. ping (wait_timeout ea (a + 1) ?t k) (st (Suc k)) = (Inl MessagingTimeout, st (Suc (Suc k)))"
    using Suc.prems(1) by (metis Suc_less_eq wait_timeout.simps(2))
  then have "wait_loop ping ea (a + 1) ?t (st (Suc 0)) = Some (r, map (wait_timeout ea (a + 1) ?t) [0..<Suc n], s1)"
    using Suc.IH [of "a + 1" ?t "\<lambda>k. st (Suc k)"] Suc.prems(2,3) by (simp del: upt_Suc)
  moreover have "ping ?t (st 0) = (Inl MessagingTimeout, st (Suc 0))" using Suc.prems(1) by force
  moreover have "map (wait_timeout ea a t) [0..<Suc (Suc n)] = ?t # map (wait_timeout ea (a + 1) ?t) [0..<Suc n]"
    by (subst upt_conv_Cons, simp, simp only: list.map wait_timeout.simps map_Suc_upt [symmetric] map_map comp_def)
  ultimately show ?case by (subst wait_loop.simps) (simp add: Let_def del: upt_Suc)
qed

lemma wait_loop_forever:
  assumes "wait_loop ping ea a t s = Some y"
  shows "\<not> (\<exists>st. st 0 = s \<and> (\<forall>k. ping (wait_timeout ea a t k) (st k) = (Inl MessagingTimeout, st (Suc k))))"
proof (rule wait_loop.raw_induct [OF _ assms, where P = "\<lambda>ping ea a t s y.
    \<not> (\<exists>st. st 0 = s \<and> (\<forall>k. ping (wait_timeout ea a t k) (st k) = (Inl MessagingTimeout, st (Suc k))))"])
  fix wl ping ea a t and s :: 'a and y
  assume IH: "\<And>ping ea a t s y. wl ping ea a t s = Some y \<Longrightarrow>
      \<not> (\<exists>st. st 0 = s \<and> (\<forall>k. ping (wait_timeout ea a t k) (st k) = (Inl MessagingTimeout, st (Suc k))))"
    and run: "(let timeout1 = if a = ea then None else t in
      case ping timeout1 s of (r, s1) \<Rightarrow>
        (case r of
           Inl e \<Rightarrow>
             (if e = MessagingTimeout
              then Option.bind (wl ping ea (a + 1) timeout1 s1) (\<lambda>(res, ts, s2). Some (res, timeout1 # ts, s2))
              else Some (Inl e, [timeout1], s1))
         | Inr u \<Rightarrow> Some (Inr (), [timeout1], s1))) = Some y"
  show "\<not> (\<exists>st. st 0 = s \<and> (\<forall>k. ping (wait_timeout ea a t k) (st k) = (Inl MessagingTimeout, st (Suc k))))"
  proof
    assume "\<exists>st. st 0 = s \<and> (\<forall>k. ping (wait_timeout ea a t k) (st k) = (Inl MessagingTimeout, st (Suc k)))"
    then obtain st where st: "st 0 = s" "\<And>k. ping (wait_timeout ea a t k) (st k) = (Inl MessagingTimeout, st (Suc k))"
      by blast
    let ?t = "if a = ea then None else t"
    have "ping ?t s = (Inl MessagingTimeout, st (Suc 0))" using st(2) [of 0] st(1) by simp
    with run obtain z where "wl ping ea (a + 1) ?t (st (Suc 0)) = Some z"
      by (auto simp: Let_def Option.bind_eq_Some_conv simp del: split_paired_Ex)
    from IH [OF this] show False
      using st(2) [of "Suc k" for k] by (auto intro: exI [of _ "\<lambda>k. st (Suc k)"])
  qed
qed

theorem wait_until_ready_live:
  assumes "0 \<le> early_attempts"
    and "t = (\<lambda>k. if int k < early_attempts then Some early_timeout else None)" "st 0 = s"
  shows "(\<forall>n r s1. (\<forall>k < n. ping (t k) (st k) = (Inl MessagingTimeout, st (Suc k))) \<longrightarrow>
      ping (t n) (st n) = (r, s1) \<longrightarrow> r \<noteq> Inl MessagingTimeout \<longrightarrow>
      wait_until_ready ping early_timeout early_attempts s = Some (r, map t [0..<Suc n], s1)) \<and>
    ((\<forall>k. ping (t k) (st k) = (Inl MessagingTimeout, st (Suc k))) \<longrightarrow>
      wait_until_ready ping early_timeout early_attempts s = None)"
proof -
  have t: "t k = wait_timeout early_attempts 0 (Some early_timeout) k" for k
    using assms(1,2) wait_timeout_eq [of 0 early_attempts early_timeout k] by simp
  then have mt: "t = wait_timeout early_attempts 0 (Some early_timeout)" by blast
  show ?thesis
    using wait_loop_ends [of _ ping early_attempts 0 "Some early_timeout" st] assms(3)
      wait_loop_forever [of ping early_attempts 0 "Some early_timeout" s]
    unfolding mt wait_until_ready_def by (metis (no_types, lifting) not_Some_eq)
qed

theorem wait_until_ready_live_witness:
  "wait_until_ready (\<lambda>t n. (if n < 2 then Inl MessagingTimeout else Inr (), n + 1)) 10 1 (0 :: nat) =
     Some (Inr (), [Some 10, None, None], 3)"
proof -
  let ?t = "\<lambda>k. if int k < 1 then Some 10 else None"
  let ?ping = "\<lambda>(t :: int option) n :: nat. (if n < 2 then Inl MessagingTimeout else Inr () :: unit result, n + 1)"
  have "wait_until_ready ?ping 10 1 0 = Some (Inr (), map ?t [0..<Suc 2], 3)"
    by (rule wait_until_ready_live [THEN conjunct1, rule_format, of 1 ?t 10 "\<lambda>k. k"]) auto
  moreover have "map ?t [0..<Suc 2] = [Some 10, None, None]" by (simp add: numeral_eq_Suc)
  ultimately show ?thesis by simp
qed

text \<open>The back-off loop while its function keeps failing.\<close>

lemma backoff_run:
  assumes cfg: "0 < time_limit C" "0 < starting_interval C" "0 < max_interval C"
    and fails: "\<And>s. fst (fst (func s)) \<noteq> Returned True" and live: "\<And>s. running s"
    and d: "d = min (starting_interval C) (max_interval C)"
    and jit: "\<forall>n. 1 / 2 \<le> jitters b n" and iv: "d \<le> interval b" and et: "error_time b \<le> time_limit C"
  shows "\<exists>res ds b2 s2. run_loop running func (backoff_idle C) b s = Some (res, ds, b2, s2) \<and>
    error_time b + sum_list ds \<le> time_limit C \<and> (\<forall>x \<in> set ds. d \<le> x \<and> x \<le> max_interval C)"
proof -
  have dpos: "0 < d" using cfg d by simp
  obtain n where "time_limit C - error_time b < of_nat n * d"
    using ex_less_of_nat_mult [OF dpos] by blast
  then show ?thesis using jit iv et
  proof (induction n arbitrary: b s)
    case (Suc n)
    obtain out el s1 where f: "func s = ((out, el), s1)" by (metis prod.collapse)
    show ?case
    proof (cases out)
      case (Returned ok)
      then have nok: "\<not> ok" using fails [of s] f by simp
      define idle where "idle = min (interval b * 2 * jitters b 0) (max_interval C)"
      have "interval b * 1 \<le> interval b * (2 * jitters b 0)"
        using Suc.prems(2,3) dpos by (intro mult_left_mono) (auto simp: field_simps dest: spec [of _ 0])
      then have idle: "d \<le> idle" "idle \<le> max_interval C"
        using Suc.prems(3) d by (auto simp: idle_def algebra_simps)
      show ?thesis
      proof (cases "time_limit C < error_time b + idle")
        case True
        then show ?thesis using f Returned nok live cfg(1) Suc.prems(4)
          by (subst run_loop.simps) (simp add: backoff_idle_def Let_def idle_def)
      next
        case False
        let ?b1 = "\<lparr>error_time = error_time b + idle, interval = idle, jitters = \<lambda>n. jitters b (Suc n)\<rparr>"
        have "time_limit C - error_time ?b1 < of_nat n * d"
          using Suc.prems(1) idle(1) by (simp add: algebra_simps)
        from Suc.IH [OF this, of s1] obtain res ds b2 s2 where
          c: "run_loop running func (backoff_idle C) ?b1 s1 = Some (res, ds, b2, s2)"
          "error_time ?b1 + sum_list ds \<le> time_limit C" "\<forall>x \<in> set ds. d \<le> x \<and> x \<le> max_interval C"
          using Suc.prems(2) idle(1) False by auto
        have i: "backoff_idle C ok el b = (Inr idle, ?b1)"
          using nok False by (simp add: backoff_idle_def Let_def idle_def)
        have "run_loop running func (backoff_idle C) b s = Some (res, idle # ds, b2, s2)"
          using f Returned live c(1) i by (subst run_loop.simps) simp
        then show ?thesis using c(2,3) idle by auto
      qed
    qed (use f live Suc.prems(4) in \<open>subst run_loop.simps; simp\<close>)+
  qed simp
qed

text \<open>
  The back-off loop keeps its promise. A function that never succeeds makes the loop end,
  with sleeps that add up to no more than the time limit, each between the smaller of the
  starting and the maximal interval and the maximal interval, provided the jitter never goes
  below one half (which is what the class's comment asks for).
\<close>

theorem backoff_ends_in_time:
  assumes "0 < time_limit C" "0 < starting_interval C" "0 < max_interval C"
    and "\<forall>n. 1 / 2 \<le> js n" "\<forall>s. fst (fst (func s)) \<noteq> Returned True" "\<forall>s. running s"
  shows "\<exists>res ds b2 s2. run_loop running func (backoff_idle C) (backoff_start C js) s = Some (res, ds, b2, s2) \<and>
    sum_list ds \<le> time_limit C \<and>
    (\<forall>x \<in> set ds. min (starting_interval C) (max_interval C) \<le> x \<and> x \<le> max_interval C)"
  using backoff_run [of C func running "min (starting_interval C) (max_interval C)" "backoff_start C js" s] assms
  by (simp add: backoff_start_def)

theorem backoff_ends_in_time_witness:
  "\<exists>res ds b2 s2. run_loop (\<lambda>s. True) (\<lambda>n :: nat. ((Returned False :: (bool, unit) call_outcome, 0), n + 1))
      (backoff_idle \<lparr>starting_interval = 1, time_limit = 300, max_interval = 60\<rparr>)
      (backoff_start \<lparr>starting_interval = 1, time_limit = 300, max_interval = 60\<rparr> (\<lambda>n. 3 / 4)) 0 =
    Some (res, ds, b2, s2) \<and> sum_list ds \<le> 300"
  using backoff_ends_in_time [of "\<lparr>starting_interval = 1, time_limit = 300, max_interval = 60\<rparr>" "\<lambda>n. 3 / 4"
      "\<lambda>n :: nat. ((Returned False :: (bool, unit) call_outcome, 0), n + 1)" "\<lambda>s. True" 0]
  by (simp del: split_paired_Ex) blast

end
