(* ===== verification/Tables.thy ===== *)
theory Tables
  imports VObjects
begin

text \<open>
  The database as \<^verbatim>\<open>nova/db/sqlalchemy/api.py\<close> sees it: a table is its rows in
  primary-key order and the next automatic id, a row a dictionary of columns. The
  queries of the code are filters over the rows; \<open>model_query\<close> hides soft-deleted rows
  as the helper of that name does. A unique constraint, declared in \<^verbatim>\<open>models.py\<close>, makes a
  write fail as a whole.

  The locale \<open>row_store\<close> is the contract of a table's create, get and update calls, with
  what every client of such a table may conclude; each table of the system interprets it.
\<close>

type_synonym row = pydict

record table =
  rows :: "row list"
  next_id :: int

definition row_id :: "row \<Rightarrow> pyval option" where
  "row_id r = dget r ''id''"

definition row_live :: "row \<Rightarrow> bool" where
  "row_live r \<longleftrightarrow> dget r ''deleted'' = Some (PInt 0)"

definition model_query :: "string \<Rightarrow> table \<Rightarrow> row list result" where
  "model_query read_deleted t =
     (if read_deleted = ''no'' then Inr (filter row_live (rows t))
      else if read_deleted = ''only'' then Inr (filter (\<lambda>r. \<not> row_live r) (rows t))
      else if read_deleted = ''yes'' then Inr (rows t)
      else Inl ValueError)"

definition has_id :: "int \<Rightarrow> row \<Rightarrow> bool" where
  "has_id i r \<longleftrightarrow> row_id r = Some (PInt i)"

text \<open>\<^verbatim>\<open>filter_by(id=i).first()\<close>, with the exception of the caller when nothing matches.\<close>

definition first_by_id :: "string \<Rightarrow> exn \<Rightarrow> table \<Rightarrow> int \<Rightarrow> row result" where
  "first_by_id rd missing t i =
     bind_r (model_query rd t) (\<lambda>rs.
       case find (has_id i) rs of None \<Rightarrow> Inl missing | Some r \<Rightarrow> Inr r)"

text \<open>A unique constraint over some columns; rows with a null there never clash.\<close>

definition clashes :: "string list \<Rightarrow> row \<Rightarrow> row \<Rightarrow> bool" where
  "clashes cols r s \<longleftrightarrow> cols \<noteq> [] \<and>
     (\<forall>c \<in> set cols. dget r c = dget s c \<and> dget r c \<noteq> None \<and> dget r c \<noteq> Some PNone)"

definition table_insert :: "string list \<Rightarrow> row \<Rightarrow> pydict \<Rightarrow> table \<Rightarrow> (row \<times> table) result" where
  "table_insert uniq defaults values t =
     (let r = dset ''id'' (PInt (next_id t)) (dupdate defaults values)
      in if \<exists>s \<in> set (rows t). clashes uniq r s then Inl (OtherError ''DBDuplicateEntry'')
         else Inr (r, t\<lparr>rows := rows t @ [r], next_id := next_id t + 1\<rparr>))"

text \<open>
  A fetched row is updated in place. A row whose columns keep their values is not written
  at all; otherwise \<open>updated_at\<close> is written by the column's \<^verbatim>\<open>onupdate\<close>, unless the values
  set it.
\<close>

definition row_write :: "pyval \<Rightarrow> pydict \<Rightarrow> row \<Rightarrow> row" where
  "row_write now values r =
     (let r' = dupdate r values in
      if r' = r then r
      else if dhas values ''updated_at'' then r'
      else dupdate r ((''updated_at'', now) # values))"

definition table_update ::
  "string list \<Rightarrow> string \<Rightarrow> exn \<Rightarrow> pyval \<Rightarrow> int \<Rightarrow> pydict \<Rightarrow> table \<Rightarrow> (row \<times> table) result" where
  "table_update uniq rd missing now i values t =
     bind_r (first_by_id rd missing t i) (\<lambda>r.
       let r' = row_write now values r in
       if \<exists>s \<in> set (rows t). \<not> has_id i s \<and> clashes uniq r' s
       then Inl (OtherError ''DBDuplicateEntry'')
       else Inr (r', t\<lparr>rows := map (\<lambda>s. if has_id i s then r' else s) (rows t)\<rparr>))"

text \<open>\<^verbatim>\<open>query.soft_delete()\<close>: marks the matching rows and returns how many there were.\<close>

definition soft_delete_rows :: "pyval \<Rightarrow> (row \<Rightarrow> bool) \<Rightarrow> table \<Rightarrow> nat \<times> table" where
  "soft_delete_rows now p t =
     (length (filter p (rows t)),
      t\<lparr>rows := map (\<lambda>r. if p r then dset ''deleted'' (the (row_id r)) (dset ''deleted_at'' now r)
                          else r) (rows t)\<rparr>)"

text \<open>\<^verbatim>\<open>convert_objects_related_datetimes\<close> with its default keys.\<close>

definition convert_datetime :: "ovo_env \<Rightarrow> string \<Rightarrow> pydict \<Rightarrow> pydict result" where
  "convert_datetime E k values =
     (case dget values k of
        None \<Rightarrow> Inr values
      | Some v \<Rightarrow>
          if \<not> truthy v then Inr values
          else (case v of
            PStr s \<Rightarrow>
              (case strtime_parse E s of
                 Some t \<Rightarrow> Inr (dset k (PDate t False) values)
               | None \<Rightarrow>
                   (case iso_parse E s of
                      Some (t, z) \<Rightarrow> Inr (dset k (PDate t False) values)
                    | None \<Rightarrow> Inl ValueError))
          | PDate t z \<Rightarrow> Inr (dset k (PDate t False) values)
          | _ \<Rightarrow> Inl AttributeError))"

definition convert_objects_related_datetimes :: "ovo_env \<Rightarrow> pydict \<Rightarrow> pydict result" where
  "convert_objects_related_datetimes E values =
     fold_r (convert_datetime E) [''created_at'', ''deleted_at'', ''updated_at''] values"

section \<open>The table invariant\<close>

text \<open>Ids are unique, below the next id, and every row has one; no two rows clash.\<close>

definition table_ok :: "string list \<Rightarrow> table \<Rightarrow> bool" where
  "table_ok uniq t \<longleftrightarrow>
     (\<forall>r \<in> set (rows t). \<exists>i. row_id r = Some (PInt i) \<and> i < next_id t) \<and>
     distinct (map row_id (rows t)) \<and>
     (\<forall>j < length (rows t). \<forall>k < length (rows t).
        j \<noteq> k \<longrightarrow> \<not> clashes uniq (rows t ! j) (rows t ! k))"

definition empty_table :: table where
  "empty_table = \<lparr>rows = [], next_id = 1\<rparr>"

lemma table_ok_empty: "table_ok uniq empty_table"
  by (simp add: table_ok_def empty_table_def)

lemma clashes_sym: "clashes cols r s \<longleftrightarrow> clashes cols s r"
  unfolding clashes_def by metis

lemma table_insert_ok:
  assumes "table_ok uniq t" "table_insert uniq d v t = Inr (r, t')"
  shows "table_ok uniq t'"
proof -
  from assms(2) have r: "row_id r = Some (PInt (next_id t))"
    and c: "\<forall>s \<in> set (rows t). \<not> clashes uniq r s"
    and t': "t' = t\<lparr>rows := rows t @ [r], next_id := next_id t + 1\<rparr>"
    by (auto simp: table_insert_def Let_def row_id_def split: if_splits)
  have ids: "Some (PInt (next_id t)) \<notin> row_id ` set (rows t)"
    using assms(1) by (auto simp: table_ok_def)
  have n: "\<forall>s \<in> set (rows t'). \<exists>i. row_id s = Some (PInt i) \<and> i < next_id t'"
    using assms(1) r by (fastforce simp: table_ok_def t')
  have u: "\<not> clashes uniq (rows t' ! j) (rows t' ! k)"
    if "j < length (rows t')" "k < length (rows t')" "j \<noteq> k" for j k
  proof (cases "j = length (rows t) \<or> k = length (rows t)")
    case True
    with that c show ?thesis by (auto simp: t' nth_append clashes_sym)
  next
    case False
    with that assms(1) show ?thesis by (auto simp: t' nth_append table_ok_def)
  qed
  show ?thesis using n u ids assms(1) r by (auto simp: table_ok_def t')
qed

text \<open>A row is found by its id alone when it is visible.\<close>

lemma distinct_id_find:
  assumes "distinct (map row_id rs)" "r \<in> set rs" "has_id i r"
  shows "find (has_id i) rs = Some r"
  using assms
proof (induction rs)
  case (Cons s rs)
  show ?case
  proof (cases "has_id i s")
    case True
    have "s = r"
    proof (rule ccontr)
      assume "s \<noteq> r"
      with Cons.prems have "row_id r \<in> row_id ` set rs" by auto
      with Cons.prems True show False by (auto simp: has_id_def)
    qed
    with True show ?thesis by simp
  qed (use Cons in auto)
qed simp

lemma distinct_filter_ids: "distinct (map row_id rs) \<Longrightarrow> distinct (map row_id (filter p rs))"
  by (simp add: distinct_map inj_on_def)

lemma first_by_id_Inr:
  assumes "table_ok uniq t"
  shows "first_by_id ''no'' e t i = Inr r \<longleftrightarrow> r \<in> set (rows t) \<and> row_live r \<and> has_id i r"
proof
  assume "first_by_id ''no'' e t i = Inr r"
  then have "find (has_id i) (filter row_live (rows t)) = Some r"
    by (auto simp: first_by_id_def model_query_def split: option.splits)
  then show "r \<in> set (rows t) \<and> row_live r \<and> has_id i r"
    by (auto dest: find_SomeD)
next
  assume r: "r \<in> set (rows t) \<and> row_live r \<and> has_id i r"
  have "find (has_id i) (filter row_live (rows t)) = Some r"
    using assms r by (intro distinct_id_find distinct_filter_ids) (auto simp: table_ok_def)
  then show "first_by_id ''no'' e t i = Inr r"
    by (simp add: first_by_id_def model_query_def)
qed

lemma first_by_id_Inl:
  "first_by_id ''no'' e t i = Inl x \<longleftrightarrow> x = e \<and> (\<forall>r \<in> set (rows t). row_live r \<longrightarrow> \<not> has_id i r)"
proof (cases "find (has_id i) (filter row_live (rows t))")
  case None
  then have "first_by_id ''no'' e t i = Inl e" by (simp add: first_by_id_def model_query_def)
  moreover from None have "\<forall>r \<in> set (rows t). row_live r \<longrightarrow> \<not> has_id i r"
    by (auto simp: find_None_iff)
  ultimately show ?thesis by auto
next
  case (Some r)
  with find_SomeD [OF Some] show ?thesis by (auto simp: first_by_id_def model_query_def)
qed

section \<open>The contract of a table\<close>

text \<open>
  What a client of create, get and update may rely on. \<open>automatic\<close> are the columns the
  store writes by itself, \<open>defaults\<close> the columns of a row no value is given for.
\<close>

locale row_store =
  fixes get :: "'db \<Rightarrow> int \<Rightarrow> row result"
    and create :: "pydict \<Rightarrow> 'db \<Rightarrow> (row \<times> 'db) result"
    and update :: "int \<Rightarrow> pydict \<Rightarrow> 'db \<Rightarrow> (row \<times> 'db) result"
    and inv :: "'db \<Rightarrow> bool"
    and automatic :: "string list"
    and defaults :: row
  assumes create_inv: "inv db \<Longrightarrow> create v db = Inr (r, db') \<Longrightarrow> inv db'"
    and create_get: "inv db \<Longrightarrow> create v db = Inr (r, db') \<Longrightarrow> \<not> dhas v ''deleted'' \<Longrightarrow>
      \<exists>i. row_id r = Some (PInt i) \<and> get db' i = Inr r"
    and create_fresh: "inv db \<Longrightarrow> create v db = Inr (r, db') \<Longrightarrow> row_id r = Some (PInt i) \<Longrightarrow>
      get db i \<noteq> Inr s"
    and create_frame: "inv db \<Longrightarrow> create v db = Inr (r, db') \<Longrightarrow> get db i = Inr s \<Longrightarrow>
      get db' i = Inr s"
    and create_row: "create v db = Inr (r, db') \<Longrightarrow> dict_ok v \<Longrightarrow> k \<notin> set automatic \<Longrightarrow>
      dget r k = (case dget v k of None \<Rightarrow> dget defaults k | Some w \<Rightarrow> Some w)"
    and update_inv: "inv db \<Longrightarrow> update i v db = Inr (r, db') \<Longrightarrow>
      \<not> dhas v ''id'' \<Longrightarrow> inv db'"
    and update_get: "inv db \<Longrightarrow> update i v db = Inr (r, db') \<Longrightarrow>
      \<not> dhas v ''id'' \<Longrightarrow> \<not> dhas v ''deleted'' \<Longrightarrow> get db' i = Inr r"
    and update_frame: "inv db \<Longrightarrow> update i v db = Inr (r, db') \<Longrightarrow>
      \<not> dhas v ''id'' \<Longrightarrow> j \<noteq> i \<Longrightarrow> get db' j = get db j"
    and update_row: "update i v db = Inr (r, db') \<Longrightarrow> dict_ok v \<Longrightarrow>
      \<exists>s. get db i = Inr s \<and>
        (\<forall>k. k \<notin> set automatic \<longrightarrow>
           dget r k = (case dget v k of None \<Rightarrow> dget s k | Some w \<Rightarrow> Some w))"

section \<open>Tables satisfy the contract\<close>

lemma table_insert_cases:
  assumes "table_insert uniq d v t = Inr (r, t')"
  shows "r = dset ''id'' (PInt (next_id t)) (dupdate d v)"
    and "t' = t\<lparr>rows := rows t @ [r], next_id := next_id t + 1\<rparr>"
    and "\<forall>s \<in> set (rows t). \<not> clashes uniq r s"
  using assms by (auto simp: table_insert_def Let_def split: if_splits)

lemma table_insert_get:
  assumes ok: "table_ok uniq t" and ins: "table_insert uniq d v t = Inr (r, t')"
    and "dget d ''deleted'' = Some (PInt 0)" "\<not> dhas v ''deleted''"
  shows "row_id r = Some (PInt (next_id t)) \<and> first_by_id ''no'' e t' (next_id t) = Inr r"
proof -
  note r = table_insert_cases [OF ins]
  have "dget (rev v) ''deleted'' = None"
    using assms(4) by (simp add: dhas_def map_of_eq_None_iff)
  then have "row_live r" using assms(3) by (simp add: row_live_def r(1) dget_dupdate)
  moreover have "row_id r = Some (PInt (next_id t))" by (simp add: row_id_def r(1))
  ultimately show ?thesis
    using first_by_id_Inr [OF table_insert_ok [OF ok ins], of e "next_id t" r]
    by (simp add: has_id_def r(2))
qed

lemma table_insert_fresh:
  "table_ok uniq t \<Longrightarrow> first_by_id ''no'' e t (next_id t) = Inl e"
  by (auto simp: first_by_id_Inl table_ok_def has_id_def)

lemma table_insert_frame:
  assumes ok: "table_ok uniq t" and ins: "table_insert uniq d v t = Inr (r, t')"
    and s: "first_by_id ''no'' e t i = Inr s"
  shows "first_by_id ''no'' e t' i = Inr s"
  using s first_by_id_Inr [OF ok] first_by_id_Inr [OF table_insert_ok [OF ok ins]]
  by (simp add: table_insert_cases(2) [OF ins])

lemma table_update_cases:
  assumes "table_update uniq rd e now i v t = Inr (r, t')"
  obtains s where "first_by_id rd e t i = Inr s" "r = row_write now v s"
    "t' = t\<lparr>rows := map (\<lambda>s. if has_id i s then r else s) (rows t)\<rparr>"
    "\<forall>s \<in> set (rows t). \<not> has_id i s \<longrightarrow> \<not> clashes uniq r s"
  using assms by (auto simp: table_update_def result_simps Let_def split: if_splits)

lemma dget_row_write: "k \<noteq> ''updated_at'' \<Longrightarrow> dget (row_write now v r) k = dget (dupdate r v) k"
proof (cases "dupdate r v = r")
  case False
  then show "k \<noteq> ''updated_at'' \<Longrightarrow> ?thesis"
    by (auto simp: row_write_def Let_def dget_dupdate map_add_def split: option.splits)
qed (simp add: row_write_def Let_def)

lemma row_write_other:
  "dict_ok v \<Longrightarrow> k \<noteq> ''updated_at'' \<Longrightarrow>
   dget (row_write now v r) k = (case dget v k of None \<Rightarrow> dget r k | Some w \<Rightarrow> Some w)"
  by (simp add: dget_row_write dget_dupdate dget_rev_dict_ok)

lemma row_write_absent:
  "\<not> dhas v k \<Longrightarrow> k \<noteq> ''updated_at'' \<Longrightarrow> dget (row_write now v r) k = dget r k"
proof -
  assume "\<not> dhas v k" and k: "k \<noteq> ''updated_at''"
  then have "dget (rev v) k = None" by (simp add: dhas_def map_of_eq_None_iff)
  with k show ?thesis by (simp add: dget_row_write dget_dupdate)
qed

lemma table_update_ok:
  assumes ok: "table_ok uniq t" and up: "table_update uniq rd e now i v t = Inr (r, t')"
    and noid: "\<not> dhas v ''id''"
  shows "table_ok uniq t' \<and> has_id i r"
proof -
  from up obtain s where s: "first_by_id rd e t i = Inr s" and r: "r = row_write now v s"
    and t': "t' = t\<lparr>rows := map (\<lambda>s. if has_id i s then r else s) (rows t)\<rparr>"
    and c: "\<forall>s \<in> set (rows t). \<not> has_id i s \<longrightarrow> \<not> clashes uniq r s"
    by (rule table_update_cases)
  from s have "has_id i s"
    by (auto simp: first_by_id_def result_simps split: option.splits dest: find_SomeD)
  with noid have hr: "has_id i r" by (simp add: has_id_def row_id_def r row_write_absent)
  then have ids: "map row_id (rows t') = map row_id (rows t)"
    by (auto simp: t' has_id_def)
  have 1: "\<forall>s \<in> set (rows t'). \<exists>j. row_id s = Some (PInt j) \<and> j < next_id t'"
    using ok \<open>has_id i r\<close> by (fastforce simp: table_ok_def t' has_id_def)
  have 2: "\<not> clashes uniq (rows t' ! j) (rows t' ! k)"
    if jk: "j < length (rows t')" "k < length (rows t')" "j \<noteq> k" for j k
  proof -
    have l: "j < length (rows t)" "k < length (rows t)" using jk by (simp_all add: t')
    have d: "distinct (map row_id (rows t))" using ok by (simp add: table_ok_def)
    have ne: "\<not> (has_id i (rows t ! j) \<and> has_id i (rows t ! k))"
      using d l jk(3) nth_eq_iff_index_eq [OF d, of j k] by (auto simp: has_id_def)
    have cl: "\<not> clashes uniq r (rows t ! m)" if "m < length (rows t)" "\<not> has_id i (rows t ! m)" for m
      using c that by simp
    have un: "\<not> clashes uniq (rows t ! j) (rows t ! k)" using ok l jk(3) by (simp add: table_ok_def)
    consider "has_id i (rows t ! j)" "\<not> has_id i (rows t ! k)"
      | "\<not> has_id i (rows t ! j)" "has_id i (rows t ! k)"
      | "\<not> has_id i (rows t ! j)" "\<not> has_id i (rows t ! k)"
      using ne by blast
    then show ?thesis
    proof cases
      case 1
      then show ?thesis using cl [OF l(2)] l by (simp add: t')
    next
      case 2
      then show ?thesis using cl [OF l(1)] l by (simp add: t' clashes_sym [of uniq _ r])
    next
      case 3
      then show ?thesis using un l by (simp add: t')
    qed
  qed
  show ?thesis using 1 2 ids ok hr by (simp add: table_ok_def)
qed

lemma table_update_get:
  assumes ok: "table_ok uniq t" and up: "table_update uniq ''no'' e now i v t = Inr (r, t')"
    and no: "\<not> dhas v ''id''" "\<not> dhas v ''deleted''"
  shows "first_by_id ''no'' e' t' i = Inr r"
proof -
  from up obtain s where s: "first_by_id ''no'' e t i = Inr s" and r: "r = row_write now v s"
    and t': "t' = t\<lparr>rows := map (\<lambda>s. if has_id i s then r else s) (rows t)\<rparr>"
    by (rule table_update_cases)
  from s ok have "row_live s" "s \<in> set (rows t)" "has_id i s" by (simp_all add: first_by_id_Inr)
  with no have "row_live r" by (simp add: row_live_def r row_write_absent)
  moreover have "r \<in> set (rows t')" using \<open>s \<in> _\<close> \<open>has_id i s\<close> by (force simp: t')
  ultimately show ?thesis
    using table_update_ok [OF ok up no(1)] first_by_id_Inr [of uniq t' e' i r] by simp
qed

lemma table_update_frame:
  assumes ok: "table_ok uniq t" and up: "table_update uniq ''no'' e now i v t = Inr (r, t')"
    and no: "\<not> dhas v ''id''" and j: "j \<noteq> i"
  shows "first_by_id ''no'' e' t' j = first_by_id ''no'' e' t j"
proof -
  from up obtain s where t': "t' = t\<lparr>rows := map (\<lambda>s. if has_id i s then r else s) (rows t)\<rparr>"
    by (rule table_update_cases)
  have r: "has_id i r" using table_update_ok [OF ok up no] by simp
  have "find (has_id j) (filter row_live (map (\<lambda>s. if has_id i s then r else s) rs))
      = find (has_id j) (filter row_live rs)" for rs
    using r j by (induction rs) (auto simp: has_id_def)
  then show ?thesis by (simp add: first_by_id_def model_query_def t')
qed

end
