(* ===== verification/Persist.thy ===== *)
theory Persist
  imports Tables Json
begin

text \<open>
  The persistent objects of the framework: test plans and test cases
  (\<^verbatim>\<open>nova/objects/testplan.py\<close>, \<^verbatim>\<open>nova/objects/testcase.py\<close>) over their tables in
  \<^verbatim>\<open>nova/db/sqlalchemy/api.py\<close> and \<^verbatim>\<open>models.py\<close>. The two classes have the same create,
  save and lookup code over different database calls, so the methods take the calls as
  arguments; what they guarantee is proved once in the locale \<open>row_store\<close>, which both
  tables interpret. A method that raises after its database call leaves the row written,
  so methods return the result beside the database.
\<close>

section \<open>The database\<close>

record sysdb =
  plans :: table
  cases :: table
  nodes :: table

definition plan_unique :: "string list" where
  "plan_unique = [''testplan_name'', ''beginning'', ''ending'']"

definition plan_defaults :: "pyval \<Rightarrow> row" where
  "plan_defaults now =
     [(''uuid'', PNone), (''testplan_name'', PStr ''0''), (''status'', PStr ''0''),
      (''beginning'', now), (''ending'', now), (''message'', PStr []),
      (''result'', PStr ''{}''), (''summary'', PStr ''{}''),
      (''created_at'', now), (''updated_at'', PNone), (''deleted_at'', PNone),
      (''deleted'', PInt 0)]"

definition case_unique :: "string list" where
  "case_unique = [''case_name'', ''host'', ''beginning'', ''ending'']"

definition case_defaults :: "pyval \<Rightarrow> row" where
  "case_defaults now =
     [(''uuid'', PNone), (''case_name'', PStr ''0''), (''status'', PStr ''0''),
      (''host'', PStr ''0''), (''beginning'', now), (''ending'', now),
      (''message'', PStr ''0''), (''errors'', PInt 0),
      (''created_at'', now), (''updated_at'', PNone), (''deleted_at'', PNone),
      (''deleted'', PInt 0)]"

definition case_not_found :: "int \<Rightarrow> exn" where
  "case_not_found i =
     Nova CaseNotFound (''Testcase '' @ string_of_int i @ '' could not be found.'')"

definition testplan_get :: "string \<Rightarrow> sysdb \<Rightarrow> int \<Rightarrow> row result" where
  "testplan_get rd db i = first_by_id rd (case_not_found i) (plans db) i"

definition testplan_create :: "ovo_env \<Rightarrow> pyval \<Rightarrow> pydict \<Rightarrow> sysdb \<Rightarrow> (row \<times> sysdb) result" where
  "testplan_create E now values db =
     bind_r (convert_objects_related_datetimes E values) (\<lambda>v.
     bind_r (table_insert plan_unique (plan_defaults now) v (plans db)) (\<lambda>(r, t).
     Inr (r, db\<lparr>plans := t\<rparr>)))"

definition testplan_update :: "string \<Rightarrow> pyval \<Rightarrow> int \<Rightarrow> pydict \<Rightarrow> sysdb \<Rightarrow> (row \<times> sysdb) result" where
  "testplan_update rd now i values db =
     bind_r (table_update plan_unique rd (case_not_found i) now i values (plans db)) (\<lambda>(r, t).
     Inr (r, db\<lparr>plans := t\<rparr>))"

definition testcase_get :: "string \<Rightarrow> sysdb \<Rightarrow> int \<Rightarrow> row result" where
  "testcase_get rd db i = first_by_id rd (case_not_found i) (cases db) i"

definition testcase_create :: "ovo_env \<Rightarrow> pyval \<Rightarrow> pydict \<Rightarrow> sysdb \<Rightarrow> (row \<times> sysdb) result" where
  "testcase_create E now values db =
     bind_r (convert_objects_related_datetimes E values) (\<lambda>v.
     bind_r (table_insert case_unique (case_defaults now) v (cases db)) (\<lambda>(r, t).
     Inr (r, db\<lparr>cases := t\<rparr>)))"

definition testcase_update :: "string \<Rightarrow> pyval \<Rightarrow> int \<Rightarrow> pydict \<Rightarrow> sysdb \<Rightarrow> (row \<times> sysdb) result" where
  "testcase_update rd now i values db =
     bind_r (table_update case_unique rd (case_not_found i) now i values (cases db)) (\<lambda>(r, t).
     Inr (r, db\<lparr>cases := t\<rparr>))"

definition compute_node_delete ::
  "string \<Rightarrow> pyval \<Rightarrow> int \<Rightarrow> 'a sysdb_scheme \<Rightarrow> unit result \<times> 'a sysdb_scheme" where
  "compute_node_delete rd now i db =
     (case model_query rd (nodes db) of
        Inl e \<Rightarrow> (Inl e, db)
      | Inr rs \<Rightarrow>
          (let (n, t) = soft_delete_rows now (\<lambda>r. r \<in> set rs \<and> has_id i r) (nodes db)
           in if n = 0
              then (Inl (Nova ComputeHostNotFound
                      (''Compute host '' @ string_of_int i @ '' could not be found.'')), db)
              else (Inr (), db\<lparr>nodes := t\<rparr>)))"

definition sysdb_ok :: "sysdb \<Rightarrow> bool" where
  "sysdb_ok db \<longleftrightarrow> table_ok plan_unique (plans db) \<and> table_ok case_unique (cases db)"

section \<open>Both tables satisfy the contract\<close>

definition automatic_columns :: "string list" where
  "automatic_columns = [''id'', ''created_at'', ''updated_at'', ''deleted_at'']"

lemma convert_datetime_props:
  "convert_datetime E k v = Inr v' \<Longrightarrow>
   (\<forall>j. j \<noteq> k \<longrightarrow> dget v' j = dget v j) \<and> (dict_ok v \<longrightarrow> dict_ok v')"
  by (auto simp: convert_datetime_def split: option.splits if_splits pyval.splits)

lemma convert_datetimes_props:
  assumes "convert_objects_related_datetimes E v = Inr v'"
  shows "\<And>j. j \<notin> set automatic_columns \<Longrightarrow> dget v' j = dget v j"
    and "dict_ok v \<Longrightarrow> dict_ok v'"
    and "dhas v' ''deleted'' = dhas v ''deleted''"
  using assms
  by (auto simp: convert_objects_related_datetimes_def result_simps automatic_columns_def dhas_def
      dest!: convert_datetime_props)

lemma insert_row:
  assumes "table_insert uniq d v t = Inr (r, t')" "dict_ok v" "k \<notin> set automatic_columns"
  shows "dget r k = (case dget v k of None \<Rightarrow> dget d k | Some w \<Rightarrow> Some w)"
  using assms(2-) table_insert_cases(1) [OF assms(1)]
  by (simp add: dget_dupdate dget_rev_dict_ok automatic_columns_def)

lemma update_row_columns:
  assumes "table_update uniq ''no'' e now i v t = Inr (r, t')" "dict_ok v"
  shows "\<exists>s. first_by_id ''no'' e t i = Inr s \<and>
    (\<forall>k. k \<notin> set automatic_columns \<longrightarrow>
       dget r k = (case dget v k of None \<Rightarrow> dget s k | Some w \<Rightarrow> Some w))"
  using assms(1)
  by (rule table_update_cases) (auto simp: row_write_other [OF assms(2)] automatic_columns_def)

text \<open>
  Any table kept in a larger state, read by \<open>tab\<close> and written by \<open>put\<close>, whose create
  call converts the datetimes and inserts and whose update call fetches and writes.
\<close>

definition store_create ::
  "ovo_env \<Rightarrow> string list \<Rightarrow> row \<Rightarrow> ('db \<Rightarrow> table) \<Rightarrow> (table \<Rightarrow> 'db \<Rightarrow> 'db) \<Rightarrow>
   pydict \<Rightarrow> 'db \<Rightarrow> (row \<times> 'db) result" where
  "store_create E uniq d tab put v db =
     bind_r (convert_objects_related_datetimes E v) (\<lambda>u.
     bind_r (table_insert uniq d u (tab db)) (\<lambda>(r, t). Inr (r, put t db)))"

definition store_update ::
  "string list \<Rightarrow> (int \<Rightarrow> exn) \<Rightarrow> pyval \<Rightarrow> ('db \<Rightarrow> table) \<Rightarrow> (table \<Rightarrow> 'db \<Rightarrow> 'db) \<Rightarrow>
   int \<Rightarrow> pydict \<Rightarrow> 'db \<Rightarrow> (row \<times> 'db) result" where
  "store_update uniq missing now tab put i v db =
     bind_r (table_update uniq ''no'' (missing i) now i v (tab db)) (\<lambda>(r, t). Inr (r, put t db))"

lemma row_store_of_table:
  assumes inv_ok: "\<And>db. okdb db \<Longrightarrow> table_ok uniq (tab db)"
    and inv_put: "\<And>db t. okdb db \<Longrightarrow> table_ok uniq t \<Longrightarrow> okdb (put t db)"
    and tab_put: "\<And>db t. tab (put t db) = t"
    and live: "dget d ''deleted'' = Some (PInt 0)"
  shows "row_store (\<lambda>db i. first_by_id ''no'' (missing i) (tab db) i)
    (store_create E uniq d tab put) (store_update uniq missing now tab put) okdb automatic_columns d"
proof (unfold_locales, goal_cases)
  case (1 db v r db')
  then show ?case
    by (auto simp: store_create_def result_simps intro!: inv_put dest: table_insert_ok [OF inv_ok])
next
  case (2 db v r db')
  then obtain u t where c: "convert_objects_related_datetimes E v = Inr u"
      "table_insert uniq d u (tab db) = Inr (r, t)" "db' = put t db"
    by (auto simp: store_create_def result_simps)
  from 2(3) have "\<not> dhas u ''deleted''" using convert_datetimes_props(3) [OF c(1)] by simp
  from table_insert_get [OF inv_ok [OF 2(1)] c(2) live this] show ?case
    by (auto simp: c(3) tab_put)
next
  case (3 db v r db' i s)
  then obtain u t where c: "table_insert uniq d u (tab db) = Inr (r, t)"
    by (auto simp: store_create_def result_simps)
  from 3(3) have "i = next_id (tab db)" by (simp add: row_id_def table_insert_cases(1) [OF c])
  with table_insert_fresh [OF inv_ok [OF 3(1)]] show ?case by simp
next
  case (4 db v r db' i s)
  then obtain u t where c: "table_insert uniq d u (tab db) = Inr (r, t)" "db' = put t db"
    by (auto simp: store_create_def result_simps)
  from table_insert_frame [OF inv_ok [OF 4(1)] c(1) 4(3)] show ?case by (simp add: c tab_put)
next
  case (5 v db r db' k)
  then obtain u t where c: "convert_objects_related_datetimes E v = Inr u"
      "table_insert uniq d u (tab db) = Inr (r, t)"
    by (auto simp: store_create_def result_simps)
  show ?case
    using insert_row [OF c(2) convert_datetimes_props(2) [OF c(1) 5(2)] 5(3)]
      convert_datetimes_props(1) [OF c(1) 5(3)] by simp
next
  case (6 db i v r db')
  then show ?case
    by (auto simp: store_update_def result_simps intro!: inv_put dest: table_update_ok [OF inv_ok])
next
  case (7 db i v r db')
  then obtain t where c: "table_update uniq ''no'' (missing i) now i v (tab db) = Inr (r, t)"
      "db' = put t db" by (auto simp: store_update_def result_simps)
  from table_update_get [OF inv_ok [OF 7(1)] c(1) 7(3,4)] show ?case by (simp add: c tab_put)
next
  case (8 db i v r db' j)
  then obtain t where c: "table_update uniq ''no'' (missing i) now i v (tab db) = Inr (r, t)"
      "db' = put t db" by (auto simp: store_update_def result_simps)
  from table_update_frame [OF inv_ok [OF 8(1)] c(1) 8(3,4)] show ?case by (simp add: c tab_put)
next
  case (9 i v db r db')
  then obtain t where c: "table_update uniq ''no'' (missing i) now i v (tab db) = Inr (r, t)"
    by (auto simp: store_update_def result_simps)
  from update_row_columns [OF c 9(2)] show ?case .
qed

lemma testplan_ops:
  "testplan_get ''no'' = (\<lambda>db i. first_by_id ''no'' (case_not_found i) (plans db) i)"
  "testplan_create E now = store_create E plan_unique (plan_defaults now) plans (\<lambda>t. plans_update (\<lambda>_. t))"
  "testplan_update ''no'' now = store_update plan_unique case_not_found now plans (\<lambda>t. plans_update (\<lambda>_. t))"
  by (auto simp: fun_eq_iff testplan_get_def testplan_create_def store_create_def
      testplan_update_def store_update_def)

lemma testcase_ops:
  "testcase_get ''no'' = (\<lambda>db i. first_by_id ''no'' (case_not_found i) (cases db) i)"
  "testcase_create E now = store_create E case_unique (case_defaults now) cases (\<lambda>t. cases_update (\<lambda>_. t))"
  "testcase_update ''no'' now = store_update case_unique case_not_found now cases (\<lambda>t. cases_update (\<lambda>_. t))"
  by (auto simp: fun_eq_iff testcase_get_def testcase_create_def store_create_def
      testcase_update_def store_update_def)

interpretation plan_rows: row_store "testplan_get ''no''" "testplan_create E now"
  "testplan_update ''no'' now" sysdb_ok automatic_columns "plan_defaults now"
  unfolding testplan_ops
  by (rule row_store_of_table) (auto simp: sysdb_ok_def plan_defaults_def)

interpretation case_rows: row_store "testcase_get ''no''" "testcase_create E now"
  "testcase_update ''no'' now" sysdb_ok automatic_columns "case_defaults now"
  unfolding testcase_ops
  by (rule row_store_of_table) (auto simp: sysdb_ok_def case_defaults_def)

section \<open>The object classes\<close>

definition plain_field :: "field_type \<Rightarrow> field" where
  "plain_field t = \<lparr>ftype = t, nullable = False, fdefault = None, read_only = False\<rparr>"

definition persistent_fields :: schema where
  "persistent_fields =
     (let d = \<lparr>ftype = FDateTime True, nullable = True, fdefault = None, read_only = False\<rparr> in
      [(''created_at'', d), (''updated_at'', d), (''deleted_at'', d),
       (''deleted'', (plain_field FBoolean)\<lparr>fdefault := Some (PBool False)\<rparr>)])"

definition testplan_fields :: schema where
  "testplan_fields =
     [(''id'', (plain_field FInteger)\<lparr>read_only := True\<rparr>),
      (''uuid'', (plain_field FUUID)\<lparr>read_only := True\<rparr>),
      (''testplan_name'', plain_field FString),
      (''status'', plain_field FString),
      (''beginning'', plain_field (FDateTime True)),
      (''ending'', plain_field (FDateTime True)),
      (''message'', plain_field FString),
      (''result'', plain_field FString),
      (''summary'', plain_field FString)] @ persistent_fields"

definition testcase_fields :: schema where
  "testcase_fields =
     [(''id'', (plain_field FInteger)\<lparr>read_only := True\<rparr>),
      (''uuid'', (plain_field FUUID)\<lparr>read_only := True\<rparr>),
      (''case_name'', plain_field FString),
      (''status'', plain_field FString),
      (''host'', plain_field FString),
      (''beginning'', plain_field (FDateTime True)),
      (''ending'', plain_field (FDateTime True)),
      (''message'', plain_field FString),
      (''errors'', plain_field FInteger)] @ persistent_fields"

text \<open>\<^verbatim>\<open>create()\<close> up to its database call: the values to insert and the object so far.\<close>

definition create_values ::
  "ovo_env \<Rightarrow> schema \<Rightarrow> string \<Rightarrow> vobj \<Rightarrow> (pydict \<times> vobj) result" where
  "create_values E S uuid o1 =
     remotable o1 (\<lambda>_.
       bind_r (obj_attr_is_set S o1 ''id'') (\<lambda>present.
         if present then Inl (Nova ObjectActionError ''already created'')
         else bind_r (obj_get_changes S o1) (\<lambda>updates.
           if dhas updates ''uuid'' then Inr (updates, o1)
           else bind_r (obj_set E S ''uuid'' (PStr uuid) o1) (\<lambda>o2.
             Inr (dset ''uuid'' (PStr uuid) updates, o2)))))"

definition persist_create ::
  "ovo_env \<Rightarrow> schema \<Rightarrow> (pydict \<Rightarrow> 'db \<Rightarrow> (row \<times> 'db) result) \<Rightarrow> string \<Rightarrow> vobj \<Rightarrow> 'db \<Rightarrow>
   vobj result \<times> 'db" where
  "persist_create E S db_create uuid o1 db =
     (case create_values E S uuid o1 of
        Inl e \<Rightarrow> (Inl e, db)
      | Inr (updates, o2) \<Rightarrow>
          (case db_create updates db of
             Inl e \<Rightarrow> (Inl e, db)
           | Inr (r, db') \<Rightarrow> (from_db_object E S r o2, db')))"

definition save_values :: "schema \<Rightarrow> vobj \<Rightarrow> (pydict \<times> int) result" where
  "save_values S o1 =
     remotable o1 (\<lambda>_.
       bind_r (obj_get_changes S o1) (\<lambda>updates.
       bind_r (obj_get S ''id'' o1) (\<lambda>i.
         case i of PInt n \<Rightarrow> Inr (AList.delete ''id'' updates, n) | _ \<Rightarrow> Inl TypeError)))"

definition persist_save ::
  "ovo_env \<Rightarrow> schema \<Rightarrow> (int \<Rightarrow> pydict \<Rightarrow> 'db \<Rightarrow> (row \<times> 'db) result) \<Rightarrow> vobj \<Rightarrow> 'db \<Rightarrow>
   vobj result \<times> 'db" where
  "persist_save E S db_update o1 db =
     (case save_values S o1 of
        Inl e \<Rightarrow> (Inl e, db)
      | Inr (updates, i) \<Rightarrow>
          (case db_update i updates db of
             Inl e \<Rightarrow> (Inl e, db)
           | Inr (r, db') \<Rightarrow> (from_db_object E S r o1, db')))"

definition persist_get_by_id ::
  "ovo_env \<Rightarrow> schema \<Rightarrow> ('db \<Rightarrow> int \<Rightarrow> row result) \<Rightarrow> 'db \<Rightarrow> int \<Rightarrow> vobj result" where
  "persist_get_by_id E S db_get db i =
     bind_r (db_get db i) (\<lambda>r.
     bind_r (from_db_object E S r (new_vobj False)) (\<lambda>o1.
       Inr (o1\<lparr>has_context := True\<rparr>)))"

definition TestPlan_create :: "ovo_env \<Rightarrow> pyval \<Rightarrow> string \<Rightarrow> vobj \<Rightarrow> sysdb \<Rightarrow> vobj result \<times> sysdb" where
  "TestPlan_create E now uuid = persist_create E testplan_fields (testplan_create E now) uuid"

definition TestPlan_save :: "ovo_env \<Rightarrow> string \<Rightarrow> pyval \<Rightarrow> vobj \<Rightarrow> sysdb \<Rightarrow> vobj result \<times> sysdb" where
  "TestPlan_save E rd now = persist_save E testplan_fields (testplan_update rd now)"

definition TestPlan_get_by_id :: "ovo_env \<Rightarrow> string \<Rightarrow> sysdb \<Rightarrow> int \<Rightarrow> vobj result" where
  "TestPlan_get_by_id E rd = persist_get_by_id E testplan_fields (testplan_get rd)"

definition TestPlan_destroy :: "string \<Rightarrow> pyval \<Rightarrow> vobj \<Rightarrow> sysdb \<Rightarrow> unit result \<times> sysdb" where
  "TestPlan_destroy rd now o1 db =
     (case remotable o1 (\<lambda>_. obj_get testplan_fields ''id'' o1) of
        Inl e \<Rightarrow> (Inl e, db)
      | Inr v \<Rightarrow> (case v of PInt i \<Rightarrow> compute_node_delete rd now i db | _ \<Rightarrow> (Inl TypeError, db)))"

definition TestCase_create :: "ovo_env \<Rightarrow> pyval \<Rightarrow> string \<Rightarrow> vobj \<Rightarrow> sysdb \<Rightarrow> vobj result \<times> sysdb" where
  "TestCase_create E now uuid = persist_create E testcase_fields (testcase_create E now) uuid"

definition TestCase_save :: "ovo_env \<Rightarrow> string \<Rightarrow> pyval \<Rightarrow> vobj \<Rightarrow> sysdb \<Rightarrow> vobj result \<times> sysdb" where
  "TestCase_save E rd now = persist_save E testcase_fields (testcase_update rd now)"

definition TestCase_get_by_id :: "ovo_env \<Rightarrow> string \<Rightarrow> sysdb \<Rightarrow> int \<Rightarrow> vobj result" where
  "TestCase_get_by_id E rd = persist_get_by_id E testcase_fields (testcase_get rd)"

definition TestCase_destroy :: "string \<Rightarrow> pyval \<Rightarrow> vobj \<Rightarrow> sysdb \<Rightarrow> unit result \<times> sysdb" where
  "TestCase_destroy rd now o1 db =
     (case remotable o1 (\<lambda>_. obj_get testcase_fields ''id'' o1) of
        Inl e \<Rightarrow> (Inl e, db)
      | Inr v \<Rightarrow> (case v of PInt i \<Rightarrow> compute_node_delete rd now i db | _ \<Rightarrow> (Inl TypeError, db)))"

section \<open>What a save does to the stored row\<close>

lemma changes_get:
  "\<forall>k \<in> set ks. dhas d k \<Longrightarrow>
   dget (map (\<lambda>k. (k, the (dget d k))) ks) k = (if k \<in> set ks then dget d k else None)"
  by (induction ks) (auto simp: dhas_def)

lemma save_values_ok:
  assumes "vobj_ok S o1" "has_context o1" "dhas S ''id''" "dget (attrs o1) ''id'' = Some (PInt i)"
  shows "\<exists>u. save_values S o1 = Inr (u, i) \<and> dict_ok u \<and> \<not> dhas u ''id'' \<and>
    (\<forall>k. k \<noteq> ''id'' \<longrightarrow> dget u k = (if k \<in> set (changed o1) then dget (attrs o1) k else None))"
proof -
  let ?c = "map (\<lambda>k. (k, the (dget (attrs o1) k))) (changed o1)"
  have get: "dget ?c k = (if k \<in> set (changed o1) then dget (attrs o1) k else None)" for k
    by (rule changes_get) (use assms(1) in \<open>auto simp: vobj_ok_def\<close>)
  have d: "dict_ok ?c" using assms(1) by (simp add: vobj_ok_def comp_def)
  have i: "obj_get S ''id'' o1 = Inr (PInt i)"
    using assms(3,4) by (auto simp: obj_get_def dhas_def)
  have u: "save_values S o1 = Inr (AList.delete ''id'' ?c, i)"
    using assms(2) i by (simp add: save_values_def remotable_def obj_get_changes_eq [OF assms(1)])
  have "dict_ok (AList.delete ''id'' ?c)" using d by (rule distinct_delete)
  moreover have "\<not> dhas (AList.delete ''id'' ?c) ''id''" by (simp add: dhas_def)
  moreover have "\<forall>k. k \<noteq> ''id'' \<longrightarrow> dget (AList.delete ''id'' ?c) k =
      (if k \<in> set (changed o1) then dget (attrs o1) k else None)"
    using get by simp
  ultimately show ?thesis using u by blast
qed

lemma obj_get_changes_keys:
  "vobj_ok S o1 \<Longrightarrow> obj_get_changes S o1 = Inr u \<Longrightarrow> dhas u k \<longleftrightarrow> k \<in> set (changed o1)"
  by (auto simp: obj_get_changes_eq dhas_def map_of_eq_None_iff image_iff)

text \<open>The values of a create call: the changed attributes, and a uuid.\<close>

lemma create_values_changes:
  assumes "create_values E S uuid o1 = Inr (v, o2)" "vobj_ok S o1"
  shows "dict_ok v \<and> (\<forall>k. k \<noteq> ''uuid'' \<longrightarrow>
    dget v k = (if k \<in> set (changed o1) then dget (attrs o1) k else None))"
proof -
  let ?c = "map (\<lambda>k. (k, the (dget (attrs o1) k))) (changed o1)"
  have c: "dict_ok ?c" using assms(2) by (simp add: vobj_ok_def comp_def)
  have g: "dget ?c k = (if k \<in> set (changed o1) then dget (attrs o1) k else None)" for k
    by (rule changes_get) (use assms(2) in \<open>auto simp: vobj_ok_def\<close>)
  from assms(1) have "v = ?c \<or> v = dset ''uuid'' (PStr uuid) ?c"
    by (auto simp: create_values_def remotable_def result_simps obj_get_changes_eq [OF assms(2)]
        split: if_splits)
  then show ?thesis
  proof
    assume "v = ?c"
    with c g show ?thesis by simp
  next
    assume "v = dset ''uuid'' (PStr uuid) ?c"
    with c g show ?thesis by simp
  qed
qed

context row_store
begin

text \<open>
  A save of a well-formed stored object: its changed attributes are in the row, the other
  columns are as they were, other rows are untouched. If the row is gone nothing changes.
\<close>

lemma save_writes_changes:
  assumes "inv db" "vobj_ok S o1" "has_context o1" "dhas S ''id''"
    and "dget (attrs o1) ''id'' = Some (PInt i)" "''deleted'' \<notin> set (changed o1)"
    and "get db i = Inr s" "update i u db = Inr (r, db1)" "save_values S o1 = Inr (u, i)"
  shows "snd (persist_save E S update o1 db) = db1 \<and> get db1 i = Inr r \<and>
    (\<forall>k. k \<notin> set automatic \<longrightarrow> k \<noteq> ''id'' \<longrightarrow>
       dget r k = (if k \<in> set (changed o1) then dget (attrs o1) k else dget s k)) \<and>
    (\<forall>j. j \<noteq> i \<longrightarrow> get db1 j = get db j)"
proof -
  obtain u' where u': "save_values S o1 = Inr (u', i)" "dict_ok u'" "\<not> dhas u' ''id''"
    "\<forall>k. k \<noteq> ''id'' \<longrightarrow> dget u' k = (if k \<in> set (changed o1) then dget (attrs o1) k else None)"
    using save_values_ok [OF assms(2-5)] by blast
  with assms(9) have u: "u' = u" by simp
  note u' = u' [unfolded u]
  have nd: "\<not> dhas u ''deleted''" using u'(4) assms(6) by (simp add: dhas_def)
  have set_attr: "k \<in> set (changed o1) \<Longrightarrow> dget (attrs o1) k \<noteq> None" for k
    using assms(2) by (auto simp: vobj_ok_def dhas_def)
  have row: "dget r k = (if k \<in> set (changed o1) then dget (attrs o1) k else dget s k)"
    if "k \<notin> set automatic" "k \<noteq> ''id''" for k
    using update_row [OF assms(8) u'(2)] assms(7) u'(4) that set_attr [of k] by auto
  show ?thesis
    using assms(8) u'(1) row update_get [OF assms(1,8) u'(3) nd] update_frame [OF assms(1,8) u'(3)]
    by (auto simp: persist_save_def)
qed

text \<open>
  A created object is stored under an id no row had, the object returned carries that id,
  and looking the id up gives the same attributes; no other row changes.
\<close>

lemma create_then_get:
  assumes ok: "inv db" "vobj_ok S o1" "dict_ok S" "''deleted'' \<notin> set (changed o1)"
    and id: "dget S ''id'' = Some f" "ftype f = FInteger"
    and run: "persist_create E S create uuid o1 db = (Inr o2, db1)"
  shows "\<exists>i o3. obj_get S ''id'' o2 = Inr (PInt i) \<and> inv db1 \<and> changed o2 = [] \<and>
    (\<forall>s. get db i \<noteq> Inr s) \<and> (\<forall>j s. get db j = Inr s \<longrightarrow> get db1 j = Inr s) \<and>
    persist_get_by_id E S get db1 i = Inr o3 \<and>
    (\<forall>k. dhas S k \<longrightarrow> obj_get S k o3 = obj_get S k o2) \<and>
    (\<forall>k \<in> set (changed o1). k \<notin> set automatic \<longrightarrow> k \<noteq> ''uuid'' \<longrightarrow> obj_get S k o2 = obj_get S k o1) \<and>
    (\<forall>k d g w. k \<notin> set (changed o1) \<longrightarrow> k \<notin> set automatic \<longrightarrow> k \<noteq> ''uuid'' \<longrightarrow>
       dget defaults k = Some d \<longrightarrow> dget S k = Some g \<longrightarrow> field_coerce E g d = Inr w \<longrightarrow>
       obj_get S k o2 = Inr w)"
proof -
  from run obtain v o1' r where c: "create_values E S uuid o1 = Inr (v, o1')"
      "create v db = Inr (r, db1)" "from_db_object E S r o1' = Inr o2"
    by (auto simp: persist_create_def split: sum.splits)
  note vals = create_values_changes [OF c(1) ok(2)]
  from vals ok(4) have v: "\<not> dhas v ''deleted''" by (simp add: dhas_def)
  have kept: "obj_get S k o2 = obj_get S k o1"
    if k: "k \<in> set (changed o1)" "k \<notin> set automatic" "k \<noteq> ''uuid''" for k
  proof -
    obtain w where w: "dget (attrs o1) k = Some w" using ok(2) k(1) by (auto simp: vobj_ok_def dhas_def)
    obtain h where h: "dget S k = Some h" "field_value_ok h w" using vobj_ok_attr [OF ok(2) w] by blast
    have "dget r k = Some w" using create_row [OF c(2)] vals k w by auto
    with from_db_object_attrs [OF c(3) ok(3) h(1)] h(2) field_coerce_idem [of h w E]
    show ?thesis by (auto simp: obj_get_def h(1) w)
  qed
  have dflt: "obj_get S k o2 = Inr w"
    if k: "k \<notin> set (changed o1)" "k \<notin> set automatic" "k \<noteq> ''uuid''"
      and d: "dget defaults k = Some d" "dget S k = Some g" "field_coerce E g d = Inr w" for k d g w
  proof -
    have "dget r k = Some d" using create_row [OF c(2)] vals k d by auto
    with from_db_object_attrs [OF c(3) ok(3) d(2)] d show ?thesis by (auto simp: obj_get_def)
  qed
  from create_get [OF ok(1) c(2) v] obtain i where i: "row_id r = Some (PInt i)" "get db1 i = Inr r"
    by blast
  from from_db_object_attrs [OF c(3) ok(3) id(1)] i(1) id(2) have a: "dget (attrs o2) ''id'' = Some (PInt i)"
    by (auto simp: row_id_def field_coerce_def integer_coerce_def)
  obtain u where u: "from_db_object E S r (new_vobj False) = Inr u"
      "\<And>k. dhas S k \<Longrightarrow> dget (attrs u) k = dget (attrs o2) k"
    using from_db_object_again [OF c(3) ok(3)] by blast
  let ?o3 = "u\<lparr>has_context := True\<rparr>"
  have get: "persist_get_by_id E S get db1 i = Inr ?o3"
    using i(2) u(1) by (simp add: persist_get_by_id_def)
  have same: "obj_get S k ?o3 = obj_get S k o2" if "dhas S k" for k
    using u(2) [OF that] by (simp add: obj_get_def cong: option.case_cong)
  have "obj_get S ''id'' o2 = Inr (PInt i)" using a id(1) by (simp add: obj_get_def)
  with get same kept dflt create_inv [OF ok(1) c(2)] create_fresh [OF ok(1) c(2) i(1)]
    create_frame [OF ok(1) c(2)] from_db_object_changed [OF c(3)]
  show ?thesis by blast
qed

text \<open>
  A saved object reads back as it was saved: the lookup returns the saved object's
  attributes, and each attribute that was changed has the value it was given.
\<close>

lemma save_then_get:
  assumes ok: "inv db" "vobj_ok S o1" "dict_ok S" "''deleted'' \<notin> set (changed o1)"
    and id: "dget S ''id'' = Some f" "dget (attrs o1) ''id'' = Some (PInt i)"
    and run: "persist_save E S update o1 db = (Inr o2, db1)"
  shows "\<exists>o3. persist_get_by_id E S get db1 i = Inr o3 \<and> changed o2 = [] \<and> inv db1 \<and>
    (\<forall>k. dhas S k \<longrightarrow> obj_get S k o3 = obj_get S k o2) \<and>
    (\<forall>k \<in> set (changed o1). k \<notin> set automatic \<longrightarrow> k \<noteq> ''id'' \<longrightarrow> obj_get S k o3 = obj_get S k o1) \<and>
    (\<forall>j. j \<noteq> i \<longrightarrow> get db1 j = get db j)"
proof -
  have dS: "dhas S ''id''" using id(1) by (simp add: dhas_def)
  from run obtain v n r where c: "save_values S o1 = Inr (v, n)"
      "update n v db = Inr (r, db1)" "from_db_object E S r o1 = Inr o2"
    by (auto simp: persist_save_def split: sum.splits)
  have ctx: "has_context o1" using c(1) by (auto simp: save_values_def remotable_def split: if_splits)
  obtain u where u: "save_values S o1 = Inr (u, i)" "dict_ok u" "\<not> dhas u ''id''"
    "\<forall>k. k \<noteq> ''id'' \<longrightarrow> dget u k = (if k \<in> set (changed o1) then dget (attrs o1) k else None)"
    using save_values_ok [OF ok(2) ctx dS id(2)] by blast
  with c have up: "update i u db = Inr (r, db1)" by simp
  have nd: "\<not> dhas u ''deleted''" using u(4) ok(4) by (simp add: dhas_def)
  have g: "get db1 i = Inr r" by (rule update_get [OF ok(1) up u(3) nd])
  obtain o3 where o3: "from_db_object E S r (new_vobj False) = Inr o3"
      "\<And>k. dhas S k \<Longrightarrow> dget (attrs o3) k = dget (attrs o2) k"
    using from_db_object_again [OF c(3) ok(3)] by blast
  let ?o3 = "o3\<lparr>has_context := True\<rparr>"
  have get: "persist_get_by_id E S get db1 i = Inr ?o3"
    using g o3(1) by (simp add: persist_get_by_id_def)
  have same: "obj_get S k ?o3 = obj_get S k o2" if "dhas S k" for k
    using o3(2) [OF that] by (simp add: obj_get_def cong: option.case_cong)
  have kept: "obj_get S k ?o3 = obj_get S k o1"
    if k: "k \<in> set (changed o1)" "k \<notin> set automatic" "k \<noteq> ''id''" for k
  proof -
    obtain w where w: "dget (attrs o1) k = Some w" using ok(2) k(1) by (auto simp: vobj_ok_def dhas_def)
    obtain h where h: "dget S k = Some h" "field_value_ok h w" using vobj_ok_attr [OF ok(2) w] by blast
    have "dget r k = Some w" using update_row [OF up u(2)] u(4) k w by auto
    with from_db_object_attrs [OF o3(1) ok(3) h(1)] h(2) field_coerce_idem [of h w E]
    show ?thesis by (auto simp: obj_get_def h(1) w)
  qed
  from get same kept update_inv [OF ok(1) up u(3)] update_frame [OF ok(1) up u(3)]
    from_db_object_changed [OF c(3)]
  show ?thesis by blast
qed

lemma save_failed:
  assumes "\<And>u. save_values S o1 = Inr (u, i) \<Longrightarrow> update i u db = Inl e"
    and "save_values S o1 = Inr (u, i)"
  shows "persist_save E S update o1 db = (Inl e, db)"
  using assms by (simp add: persist_save_def)

end

section \<open>Properties\<close>

lemma testplan_fields_ok: "dict_ok testplan_fields"
  by (simp add: testplan_fields_def persistent_fields_def Let_def)

lemma testcase_fields_ok: "dict_ok testcase_fields"
  by (simp add: testcase_fields_def persistent_fields_def Let_def)

lemma testplan_field [simp]:
  "dget testplan_fields ''id'' = Some ((plain_field FInteger)\<lparr>read_only := True\<rparr>)"
  "dget testplan_fields ''status'' = Some (plain_field FString)"
  "dget testplan_fields ''testplan_name'' = Some (plain_field FString)"
  "dget testplan_fields ''message'' = Some (plain_field FString)"
  "dget testplan_fields ''result'' = Some (plain_field FString)"
  "dget testplan_fields ''summary'' = Some (plain_field FString)"
  by (simp_all add: testplan_fields_def)

lemma testcase_field [simp]:
  "dget testcase_fields ''id'' = Some ((plain_field FInteger)\<lparr>read_only := True\<rparr>)"
  "dget testcase_fields ''status'' = Some (plain_field FString)"
  "dget testcase_fields ''case_name'' = Some (plain_field FString)"
  "dget testcase_fields ''host'' = Some (plain_field FString)"
  "dget testcase_fields ''message'' = Some (plain_field FString)"
  by (simp_all add: testcase_fields_def)

text \<open>Assigning a text to a text attribute, and what a loaded plan looks like.\<close>

lemma obj_set_text:
  "dget S k = Some (plain_field FString) \<Longrightarrow>
   obj_set E S k (PStr x) o1 =
     Inr (o1\<lparr>attrs := dset k (PStr x) (attrs o1), changed := List.insert k (changed o1)\<rparr>)"
  by (simp add: obj_set_def field_coerce_def plain_field_def)

lemma TestPlan_loaded:
  assumes "sysdb_ok d" "TestPlan_get_by_id E ''no'' d i = Inr p"
  shows "vobj_ok testplan_fields p \<and> changed p = [] \<and> has_context p \<and>
    dget (attrs p) ''id'' = Some (PInt i)"
proof -
  from assms(2) obtain r u where r: "testplan_get ''no'' d i = Inr r"
      "from_db_object E testplan_fields r (new_vobj False) = Inr u" "p = u\<lparr>has_context := True\<rparr>"
    by (auto simp: TestPlan_get_by_id_def persist_get_by_id_def result_simps)
  have "row_id r = Some (PInt i)"
    using r(1) assms(1) first_by_id_Inr [of plan_unique "plans d"]
    by (auto simp: testplan_get_def sysdb_ok_def has_id_def)
  then have "dget (attrs u) ''id'' = Some (PInt i)"
    using from_db_object_attrs [OF r(2) testplan_fields_ok testplan_field(1)]
    by (auto simp: row_id_def field_coerce_def plain_field_def integer_coerce_def)
  moreover have "vobj_ok testplan_fields u" by (rule from_db_object_ok [OF r(2) vobj_ok_new])
  ultimately show ?thesis
    using from_db_object_changed [OF r(2)] by (simp add: r(3) vobj_ok_def)
qed

text \<open>
  C22: a saved test plan reads back as it was saved. Loading the id after the save gives the
  attributes of the returned object; each attribute that was changed has the value it was
  given (the columns the database writes by itself apart); the change set is empty; other
  plans, the test cases and the nodes are untouched and the tables stay well formed.
\<close>

theorem TestPlan_save_then_get:
  assumes "sysdb_ok d" "vobj_ok testplan_fields o1" "''deleted'' \<notin> set (changed o1)"
    and "dget (attrs o1) ''id'' = Some (PInt i)"
    and "TestPlan_save E ''no'' t o1 d = (Inr o2, d1)"
  shows "\<exists>o3. TestPlan_get_by_id E ''no'' d1 i = Inr o3 \<and> changed o2 = [] \<and> sysdb_ok d1 \<and>
    (\<forall>k. dhas testplan_fields k \<longrightarrow> obj_get testplan_fields k o3 = obj_get testplan_fields k o2) \<and>
    (\<forall>k \<in> set (changed o1). k \<notin> set automatic_columns \<longrightarrow> k \<noteq> ''id'' \<longrightarrow>
       obj_get testplan_fields k o3 = obj_get testplan_fields k o1) \<and>
    (\<forall>j. j \<noteq> i \<longrightarrow> testplan_get ''no'' d1 j = testplan_get ''no'' d j) \<and>
    cases d1 = cases d \<and> nodes d1 = nodes d"
proof -
  have "cases d1 = cases d \<and> nodes d1 = nodes d"
    using assms(5)
    by (auto simp: TestPlan_save_def persist_save_def testplan_update_def result_simps
        split: sum.splits prod.splits)
  with plan_rows.save_then_get [OF assms(1,2) testplan_fields_ok assms(3) testplan_field(1) assms(4)
      assms(5) [unfolded TestPlan_save_def]]
  show ?thesis unfolding TestPlan_get_by_id_def by (elim exE conjE) (intro exI conjI)
qed

text \<open>One stored plan, as created in an empty database, with a new status.\<close>

definition one_plan :: "vobj result \<times> sysdb" where
  "one_plan = TestPlan_create sample_ovo (PDate ''t1'' False) ''u-1'' (new_vobj True)
     \<lparr>plans = empty_table, cases = empty_table, nodes = empty_table\<rparr>"

definition edited_plan :: vobj where
  "edited_plan = projr (obj_set sample_ovo testplan_fields ''status'' (PStr ''done'') (projr (fst one_plan)))"

lemma persist_create_ok:
  assumes "persist_create E S create uuid o1 d = (Inr o2, d1)" "vobj_ok S o1"
  shows "vobj_ok S o2"
proof -
  from assms(1) obtain v u r where c: "create_values E S uuid o1 = Inr (v, u)" "from_db_object E S r u = Inr o2"
    by (auto simp: persist_create_def split: sum.splits)
  have "vobj_ok S u"
    using c(1) assms(2)
    by (auto simp: create_values_def remotable_def result_simps split: if_splits dest: obj_set_ok)
  with c(2) show ?thesis by (rule from_db_object_ok)
qed

theorem TestPlan_save_then_get_witness:
  "\<exists>d1 o3. TestPlan_get_by_id sample_ovo ''no'' d1 1 = Inr o3 \<and>
    obj_get testplan_fields ''status'' o3 = Inr (PStr ''done'')"
proof -
  let ?save = "TestPlan_save sample_ovo ''no'' (PDate ''t2'' False) edited_plan (snd one_plan)"
  have p: "one_plan = (Inr (projr (fst one_plan)), snd one_plan)"
    by (rule prod_eqI) (simp_all, code_simp)
  have c: "persist_create sample_ovo testplan_fields (testplan_create sample_ovo (PDate ''t1'' False)) ''u-1''
      (new_vobj True) \<lparr>plans = empty_table, cases = empty_table, nodes = empty_table\<rparr> =
      (Inr (projr (fst one_plan)), snd one_plan)"
    using p unfolding one_plan_def TestPlan_create_def .
  have e: "obj_set sample_ovo testplan_fields ''status'' (PStr ''done'') (projr (fst one_plan)) = Inr edited_plan"
    by code_simp
  have v: "vobj_ok testplan_fields edited_plan"
    by (rule obj_set_ok [OF e persist_create_ok [OF c vobj_ok_new]])
  have "sysdb_ok \<lparr>plans = empty_table, cases = empty_table, nodes = empty_table\<rparr>"
    by (simp add: sysdb_ok_def table_ok_empty)
  moreover have "''deleted'' \<notin> set (changed (new_vobj True))"
      "ftype ((plain_field FInteger)\<lparr>read_only := True\<rparr>) = FInteger"
    by (simp_all add: new_vobj_def plain_field_def)
  ultimately have d: "sysdb_ok (snd one_plan)"
    using plan_rows.create_then_get [OF _ vobj_ok_new testplan_fields_ok _ testplan_field(1) _ c]
    by blast
  have s: "?save = (Inr (projr (fst ?save)), snd ?save)"
    by (rule prod_eqI) (simp_all, code_simp)
  have ch: "changed edited_plan = [''status'']" by code_simp
  have "dget (attrs edited_plan) ''id'' = Some (PInt 1)"
      "obj_get testplan_fields ''status'' edited_plan = Inr (PStr ''done'')" by code_simp+
  with TestPlan_save_then_get [OF d v _ _ s] show ?thesis
    by (auto simp: ch automatic_columns_def)
qed

end
