(* ===== verification/Services.thy ===== *)
theory Services
  imports Persist Complex_Main
begin

text \<open>
  The services of the deployment: their table and the queries over it
  (\<^verbatim>\<open>nova/db/sqlalchemy/api.py\<close>, \<^verbatim>\<open>models.py\<close>), the \<^verbatim>\<open>Service\<close> object with the version it
  checks before a save (\<^verbatim>\<open>nova/objects/service.py\<close>), and the start of a service process
  (\<^verbatim>\<open>nova/service.py\<close>). A time is a rational number of seconds.
\<close>

section \<open>The table\<close>

record service =
  s_id :: int
  s_host :: "string option"
  s_binary :: "string option"
  s_topic :: "string option"
  report_count :: int
  disabled :: bool
  disabled_reason :: "string option"
  last_seen_up :: "rat option"
  forced_down :: bool
  version :: "int option"
  s_created_at :: "rat option"
  s_updated_at :: "rat option"
  s_deleted_at :: "rat option"
  s_deleted :: int

record service_db = sysdb +
  services :: "service list"
  next_service :: int

text \<open>
  A dictionary of values is the names it has and a row that holds their values;
  \<open>update_service\<close> is the model's \<^verbatim>\<open>update(values)\<close>.
\<close>

datatype service_attr =
    AId | AHost | ABinary | ATopic | AReportCount | ADisabled | ADisabledReason
  | ALastSeenUp | AForcedDown | AVersion

type_synonym service_values = "service_attr list \<times> service"

fun copy_attr :: "service_attr \<Rightarrow> service \<Rightarrow> service \<Rightarrow> service" where
  "copy_attr AId v r = r\<lparr>s_id := s_id v\<rparr>"
| "copy_attr AHost v r = r\<lparr>s_host := s_host v\<rparr>"
| "copy_attr ABinary v r = r\<lparr>s_binary := s_binary v\<rparr>"
| "copy_attr ATopic v r = r\<lparr>s_topic := s_topic v\<rparr>"
| "copy_attr AReportCount v r = r\<lparr>report_count := report_count v\<rparr>"
| "copy_attr ADisabled v r = r\<lparr>disabled := disabled v\<rparr>"
| "copy_attr ADisabledReason v r = r\<lparr>disabled_reason := disabled_reason v\<rparr>"
| "copy_attr ALastSeenUp v r = r\<lparr>last_seen_up := last_seen_up v\<rparr>"
| "copy_attr AForcedDown v r = r\<lparr>forced_down := forced_down v\<rparr>"
| "copy_attr AVersion v r = r\<lparr>version := version v\<rparr>"

definition update_service :: "service_values \<Rightarrow> service \<Rightarrow> service" where
  "update_service values r = fold (\<lambda>a. copy_attr a (snd values)) (fst values) r"

definition new_service_row :: "rat \<Rightarrow> int \<Rightarrow> service" where
  "new_service_row now i =
     \<lparr>s_id = i, s_host = None, s_binary = None, s_topic = None, report_count = 0,
      disabled = False, disabled_reason = None, last_seen_up = None, forced_down = False,
      version = Some 0, s_created_at = Some now, s_updated_at = None, s_deleted_at = None,
      s_deleted = 0\<rparr>"

text \<open>The two unique constraints: a null column never clashes.\<close>

definition binary_clash :: "service \<Rightarrow> service \<Rightarrow> bool" where
  "binary_clash r s \<longleftrightarrow> s_host r = s_host s \<and> s_host r \<noteq> None \<and>
     s_binary r = s_binary s \<and> s_binary r \<noteq> None \<and> s_deleted r = s_deleted s"

definition topic_clash :: "service \<Rightarrow> service \<Rightarrow> bool" where
  "topic_clash r s \<longleftrightarrow> s_host r = s_host s \<and> s_host r \<noteq> None \<and>
     s_topic r = s_topic s \<and> s_topic r \<noteq> None \<and> s_deleted r = s_deleted s"

section \<open>Queries\<close>

definition service_query :: "string \<Rightarrow> 'a service_db_scheme \<Rightarrow> service list result" where
  "service_query read_deleted db =
     (if read_deleted = ''no'' then Inr (filter (\<lambda>s. s_deleted s = 0) (services db))
      else if read_deleted = ''only'' then Inr (filter (\<lambda>s. s_deleted s \<noteq> 0) (services db))
      else if read_deleted = ''yes'' then Inr (services db)
      else Inl ValueError)"

definition live_services :: "'a service_db_scheme \<Rightarrow> service list" where
  "live_services db = filter (\<lambda>s. s_deleted s = 0) (services db)"

definition none_text :: "string option \<Rightarrow> string" where
  "none_text s = (case s of None \<Rightarrow> ''None'' | Some x \<Rightarrow> x)"

definition service_not_found :: "int \<Rightarrow> exn" where
  "service_not_found i =
     Nova ServiceNotFound (''Service '' @ string_of_int i @ '' could not be found.'')"

definition service_get :: "string \<Rightarrow> 'a service_db_scheme \<Rightarrow> int \<Rightarrow> service result" where
  "service_get rd db i =
     bind_r (service_query rd db) (\<lambda>rs.
       case find (\<lambda>s. s_id s = i) rs of None \<Rightarrow> Inl (service_not_found i) | Some s \<Rightarrow> Inr s)"

text \<open>
  \<^verbatim>\<open>service_get_minimum_version\<close>: the smallest version of each binary asked for, over the
  rows that are neither deleted nor forced down. \<open>MIN\<close> skips nulls, and is null when
  every version is.
\<close>

definition min_options :: "int option list \<Rightarrow> int option" where
  "min_options vs =
     (case List.map_filter (\<lambda>v. v) vs of [] \<Rightarrow> None | x # xs \<Rightarrow> Some (fold min xs x))"

definition counted_services :: "'a service_db_scheme \<Rightarrow> string \<Rightarrow> service list" where
  "counted_services db b =
     filter (\<lambda>s. s_binary s = Some b \<and> s_deleted s = 0 \<and> \<not> forced_down s) (services db)"

definition service_get_minimum_version ::
  "'a service_db_scheme \<Rightarrow> string list \<Rightarrow> (string \<times> int option) list" where
  "service_get_minimum_version db binaries =
     map (\<lambda>b. (b, min_options (map version (counted_services db b))))
       (filter (\<lambda>b. counted_services db b \<noteq> []) (remdups binaries))"

definition service_get_all :: "string \<Rightarrow> bool option \<Rightarrow> 'a service_db_scheme \<Rightarrow> service list result" where
  "service_get_all rd dis db =
     bind_r (service_query rd db) (\<lambda>rs.
       Inr (case dis of None \<Rightarrow> rs | Some d \<Rightarrow> filter (\<lambda>s. disabled s = d) rs))"

definition service_get_all_by_topic :: "string option \<Rightarrow> 'a service_db_scheme \<Rightarrow> service list" where
  "service_get_all_by_topic topic db =
     filter (\<lambda>s. \<not> disabled s \<and> s_topic s = topic) (live_services db)"

definition service_get_by_host_and_topic ::
  "string option \<Rightarrow> string option \<Rightarrow> 'a service_db_scheme \<Rightarrow> service option" where
  "service_get_by_host_and_topic host topic db =
     find (\<lambda>s. \<not> disabled s \<and> s_host s = host \<and> s_topic s = topic) (live_services db)"

definition service_get_all_by_binary ::
  "string option \<Rightarrow> bool \<Rightarrow> 'a service_db_scheme \<Rightarrow> service list" where
  "service_get_all_by_binary binary include_disabled db =
     filter (\<lambda>s. s_binary s = binary \<and> (include_disabled \<or> \<not> disabled s)) (live_services db)"

text \<open>The model class \<^verbatim>\<open>ComputeNode\<close> of this repository has no \<^verbatim>\<open>hypervisor_type\<close> column.\<close>

definition service_get_all_computes_by_hv_type ::
  "string \<Rightarrow> bool \<Rightarrow> 'a service_db_scheme \<Rightarrow> service list result" where
  "service_get_all_computes_by_hv_type hv_type include_disabled db = Inl AttributeError"

definition service_get_by_host_and_binary ::
  "string option \<Rightarrow> string option \<Rightarrow> 'a service_db_scheme \<Rightarrow> service result" where
  "service_get_by_host_and_binary host binary db =
     (case find (\<lambda>s. s_host s = host \<and> s_binary s = binary) (live_services db) of
        None \<Rightarrow> Inl (Nova HostBinaryNotFound (''Could not find binary '' @ none_text binary @
                  '' on host '' @ none_text host @ ''.''))
      | Some s \<Rightarrow> Inr s)"

definition service_get_all_by_host :: "string option \<Rightarrow> 'a service_db_scheme \<Rightarrow> service list" where
  "service_get_all_by_host host db = filter (\<lambda>s. s_host s = host) (live_services db)"

definition service_get_by_compute_host ::
  "string option \<Rightarrow> 'a service_db_scheme \<Rightarrow> service result" where
  "service_get_by_compute_host host db =
     (case find (\<lambda>s. s_host s = host \<and> s_binary s = Some ''nova-compute'') (live_services db) of
        None \<Rightarrow> Inl (Nova ComputeHostNotFound
                  (''Compute host '' @ none_text host @ '' could not be found.''))
      | Some s \<Rightarrow> Inr s)"

section \<open>Writes\<close>

text \<open>
  \<open>enable\<close> is \<^verbatim>\<open>CONF.enable_new_services\<close>. Where both constraints are violated the database
  reports one of them, the binary one when \<open>binary_first\<close>.
\<close>

definition service_create ::
  "bool \<Rightarrow> bool \<Rightarrow> rat \<Rightarrow> service_values \<Rightarrow> 'a service_db_scheme \<Rightarrow>
   (service \<times> 'a service_db_scheme) result" where
  "service_create enable binary_first now values db =
     (let r0 = update_service values (new_service_row now (next_service db));
          r = (if enable then r0
               else r0\<lparr>disabled := True,
                       disabled_reason := Some ''New service disabled due to config option.''\<rparr>);
          host = (if AHost \<in> set (fst values) then s_host (snd values) else None);
          binary = (if ABinary \<in> set (fst values) then s_binary (snd values) else None);
          topic = (if ATopic \<in> set (fst values) then s_topic (snd values) else None);
          b = (\<exists>s \<in> set (services db). binary_clash r s);
          t = (\<exists>s \<in> set (services db). topic_clash r s)
      in if b \<and> (binary_first \<or> \<not> t)
         then Inl (Nova ServiceBinaryExists (''Service with host '' @ none_text host @
                '' binary '' @ none_text binary @ '' exists.''))
         else if t
         then Inl (Nova ServiceTopicExists (''Service with host '' @ none_text host @
                '' topic '' @ none_text topic @ '' exists.''))
         else Inr (r, db\<lparr>services := services db @ [r], next_service := next_service db + 1\<rparr>))"

definition touch_service :: "rat \<Rightarrow> service \<Rightarrow> service \<Rightarrow> service" where
  "touch_service now old r = (if r = old then r else r\<lparr>s_updated_at := Some now\<rparr>)"

definition seen_up :: "rat \<Rightarrow> service_values \<Rightarrow> service \<Rightarrow> service" where
  "seen_up now values r =
     (if AReportCount \<in> set (fst values) \<and> report_count (snd values) > report_count r
      then r\<lparr>last_seen_up := Some now\<rparr> else r)"

definition service_update ::
  "string \<Rightarrow> rat \<Rightarrow> int \<Rightarrow> service_values \<Rightarrow> 'a service_db_scheme \<Rightarrow>
   (service \<times> 'a service_db_scheme) result" where
  "service_update rd now i values db =
     bind_r (service_get rd db i) (\<lambda>old.
       let r = touch_service now old (update_service values (seen_up now values old)) in
       if \<exists>s \<in> set (services db). s_id s \<noteq> i \<and> (binary_clash r s \<or> topic_clash r s)
       then Inl (OtherError ''DBDuplicateEntry'')
       else Inr (r, db\<lparr>services := map (\<lambda>s. if s_id s = i then r else s) (services db)\<rparr>))"

text \<open>A nullable column compared with a value: comparing with \<^verbatim>\<open>None\<close> asks for the nulls.\<close>

definition column_is :: "string \<Rightarrow> pyval \<Rightarrow> row \<Rightarrow> bool" where
  "column_is c v r \<longleftrightarrow> (case dget r c of None \<Rightarrow> v = PNone | Some w \<Rightarrow> w = v)"

definition host_value :: "string option \<Rightarrow> pyval" where
  "host_value h = (case h of None \<Rightarrow> PNone | Some s \<Rightarrow> PStr s)"

definition service_destroy ::
  "string \<Rightarrow> rat \<Rightarrow> pyval \<Rightarrow> int \<Rightarrow> 'a service_db_scheme \<Rightarrow> unit result \<times> 'a service_db_scheme" where
  "service_destroy rd now now_text i db =
     (case service_get rd db i of
        Inl e \<Rightarrow> (Inl e, db)
      | Inr old \<Rightarrow>
          (case (service_query rd db, model_query rd (nodes db)) of
             (Inr vis, Inr ns) \<Rightarrow>
               (Inr (),
                db\<lparr>services := map (\<lambda>s. if s \<in> set vis \<and> s_id s = i
                                         then s\<lparr>s_deleted := s_id s, s_deleted_at := Some now\<rparr> else s)
                                 (services db),
                   nodes := snd (soft_delete_rows now_text
                     (\<lambda>r. r \<in> set ns \<and> (column_is ''service_id'' (PInt i) r \<or>
                                        column_is ''host'' (host_value (s_host old)) r))
                     (nodes db))\<rparr>)
           | (Inl e, _) \<Rightarrow> (Inl e, db)
           | (_, Inl e) \<Rightarrow> (Inl e, db)))"

section \<open>The minimum version\<close>

record svc_state = service_db +
  version_caching :: bool
  min_version_cache :: "(string \<times> int) list"

definition enable_min_version_cache :: "svc_state \<Rightarrow> svc_state" where
  "enable_min_version_cache s = s\<lparr>min_version_cache := [], version_caching := True\<rparr>"

definition clear_min_version_cache :: "svc_state \<Rightarrow> svc_state" where
  "clear_min_version_cache s = s\<lparr>min_version_cache := []\<rparr>"

text \<open>\<^verbatim>\<open>min(d.values())\<close>, 0 for an empty dictionary.\<close>

definition lowest_version :: "(string \<times> int) list \<Rightarrow> int" where
  "lowest_version d = (case map snd d of [] \<Rightarrow> 0 | v # vs \<Rightarrow> fold min vs v)"

definition get_minimum_version_multi :: "string list \<Rightarrow> svc_state \<Rightarrow> int result \<times> svc_state" where
  "get_minimum_version_multi binaries s =
     (if \<not> list_all (starts_with ''nova-'') binaries
      then (Inl (Nova ObjectActionError ''Invalid binary prefix''), s)
      else if \<not> version_caching s \<or> (\<exists>b \<in> set binaries. \<not> dhas (min_version_cache s) b)
      then (let vs = map (\<lambda>(b, v). (b, case v of None \<Rightarrow> 0 | Some n \<Rightarrow> n))
                       (service_get_minimum_version s binaries)
            in (Inr (lowest_version vs),
                if vs = [] then s
                else s\<lparr>min_version_cache := dupdate (min_version_cache s) vs\<rparr>))
      else (Inr (lowest_version (map (\<lambda>b. (b, the (dget (min_version_cache s) b))) (remdups binaries))), s))"

definition get_minimum_version :: "string \<Rightarrow> svc_state \<Rightarrow> int result \<times> svc_state" where
  "get_minimum_version binary = get_minimum_version_multi [binary]"

section \<open>The service object\<close>

definition SERVICE_VERSION :: int where
  "SERVICE_VERSION = 15"

text \<open>
  The values of the object's fields, the fields that are set, and those set since it was
  loaded.
\<close>

record service_obj =
  vals :: service
  attrs_set :: "service_attr list"
  changed_attrs :: "service_attr list"
  with_context :: bool

text \<open>Setting a field to its value in \<open>v\<close>. Only the id is read-only.\<close>

definition set_attr :: "service_attr \<Rightarrow> service \<Rightarrow> service_obj \<Rightarrow> service_obj" where
  "set_attr a v o1 =
     o1\<lparr>vals := copy_attr a v (vals o1), attrs_set := List.insert a (attrs_set o1),
        changed_attrs := List.insert a (changed_attrs o1)\<rparr>"

definition blank_service :: service where
  "blank_service =
     \<lparr>s_id = 0, s_host = None, s_binary = None, s_topic = None, report_count = 0,
      disabled = False, disabled_reason = None, last_seen_up = None, forced_down = False,
      version = None, s_created_at = None, s_updated_at = None, s_deleted_at = None,
      s_deleted = 0\<rparr>"

definition new_service :: "bool \<Rightarrow> service_obj" where
  "new_service ctx =
     set_attr AVersion (blank_service\<lparr>version := Some SERVICE_VERSION\<rparr>)
       \<lparr>vals = blank_service, attrs_set = [], changed_attrs = [], with_context = ctx\<rparr>"

definition all_service_attrs :: "service_attr list" where
  "all_service_attrs =
     [AId, AHost, ABinary, ATopic, AReportCount, ADisabled, ADisabledReason, ALastSeenUp,
      AForcedDown, AVersion]"

text \<open>\<^verbatim>\<open>_from_db_object\<close>: the version field takes no null.\<close>

definition service_from_db :: "service_obj \<Rightarrow> service \<Rightarrow> service_obj result" where
  "service_from_db o1 r =
     (if version r = None then Inl ValueError
      else Inr (o1\<lparr>vals := r, attrs_set := all_service_attrs, changed_attrs := [],
                  with_context := True\<rparr>))"

definition service_changes :: "service_obj \<Rightarrow> service_values" where
  "service_changes o1 = (changed_attrs o1, vals o1)"

definition service_get_by_id :: "string \<Rightarrow> svc_state \<Rightarrow> int \<Rightarrow> service_obj result" where
  "service_get_by_id rd s i =
     bind_r (service_get rd s i) (service_from_db (new_service False))"

text \<open>No service on the host with the topic: \<^verbatim>\<open>None\<close> is indexed.\<close>

definition get_by_host_and_topic ::
  "string option \<Rightarrow> string option \<Rightarrow> svc_state \<Rightarrow> service_obj result" where
  "get_by_host_and_topic host topic s =
     (case service_get_by_host_and_topic host topic s of
        None \<Rightarrow> Inl TypeError
      | Some r \<Rightarrow> service_from_db (new_service False) r)"

definition get_by_host_and_binary ::
  "string option \<Rightarrow> string option \<Rightarrow> svc_state \<Rightarrow> service_obj option result" where
  "get_by_host_and_binary host binary s =
     (case service_get_by_host_and_binary host binary s of
        Inl (Nova c m) \<Rightarrow> if is_a c HostBinaryNotFound then Inr None else Inl (Nova c m)
      | Inl e \<Rightarrow> Inl e
      | Inr r \<Rightarrow> bind_r (service_from_db (new_service False) r) (\<lambda>o1. Inr (Some o1)))"

definition get_by_compute_host :: "string option \<Rightarrow> svc_state \<Rightarrow> service_obj result" where
  "get_by_compute_host host s =
     bind_r (service_get_by_compute_host host s) (service_from_db (new_service False))"

text \<open>Python 2 orders \<^verbatim>\<open>None\<close> before every number; it cannot be formatted with \<^verbatim>\<open>%i\<close>, and the message stays a template.\<close>

definition service_too_old :: "int option \<Rightarrow> int \<Rightarrow> exn" where
  "service_too_old thisver minver =
     Nova ServiceTooOld (case thisver of
         None \<Rightarrow> ''This service is older (v%(thisver)i) than the minimum (v%(minver)i) version of the rest of the deployment. Unable to continue.''
       | Some v \<Rightarrow> ''This service is older (v'' @ string_of_int v @ '') than the minimum (v'' @
           string_of_int minver @ '') version of the rest of the deployment. Unable to continue.'')"

definition check_minimum_version :: "service_obj \<Rightarrow> svc_state \<Rightarrow> unit result \<times> svc_state" where
  "check_minimum_version o1 s =
     (if AVersion \<notin> set (attrs_set o1) then (Inr (), s)
      else if ABinary \<notin> set (attrs_set o1) then (Inr (), s)
      else case s_binary (vals o1) of
          None \<Rightarrow> (Inl AttributeError, s)
        | Some b \<Rightarrow>
            (case get_minimum_version b s of
               (Inl e, s') \<Rightarrow> (Inl e, s')
             | (Inr minver, s') \<Rightarrow>
                 if (case version (vals o1) of None \<Rightarrow> True | Some v \<Rightarrow> minver > v)
                 then (Inl (service_too_old (version (vals o1)) minver), s')
                 else (Inr (), s')))"

definition orphaned_service :: exn where
  "orphaned_service = Nova OrphanedObjectError []"

text \<open>The check of the minimum version in \<^verbatim>\<open>create\<close> is commented out.\<close>

definition Service_create ::
  "bool \<Rightarrow> bool \<Rightarrow> rat \<Rightarrow> service_obj \<Rightarrow> svc_state \<Rightarrow> service_obj result \<times> svc_state" where
  "Service_create enable binary_first now o1 s =
     (if \<not> with_context o1 then (Inl orphaned_service, s)
      else if AId \<in> set (attrs_set o1) then (Inl (Nova ObjectActionError ''already created''), s)
      else case service_create enable binary_first now (service_changes o1) s of
          Inl e \<Rightarrow> (Inl e, s)
        | Inr (r, s') \<Rightarrow> (service_from_db o1 r, s'))"

text \<open>
  \<open>rd\<close> is the read mode of the object's context. The getter of an unset id calls
  \<^verbatim>\<open>obj_load_attr\<close>, whose log message reads the id again: the recursion limit ends it.
\<close>

definition Service_save :: "string \<Rightarrow> rat \<Rightarrow> service_obj \<Rightarrow> svc_state \<Rightarrow> service_obj result \<times> svc_state" where
  "Service_save rd now o1 s =
     (if \<not> with_context o1 then (Inl orphaned_service, s)
      else case check_minimum_version o1 s of
          (Inl e, s1) \<Rightarrow> (Inl e, s1)
        | (Inr _, s1) \<Rightarrow>
            if AId \<notin> set (attrs_set o1) then (Inl RuntimeError, s1)
            else case service_update rd now (s_id (vals o1))
                        (filter (\<lambda>a. a \<noteq> AId) (changed_attrs o1), vals o1) s1 of
                Inl e \<Rightarrow> (Inl e, s1)
              | Inr (r, s2) \<Rightarrow> (service_from_db o1 r, s2))"

text \<open>The updates that publish a status notification.\<close>

definition notifies :: "service_attr list \<Rightarrow> bool" where
  "notifies updates \<longleftrightarrow> (\<exists>a \<in> set updates. a \<in> {ADisabled, ADisabledReason, AForcedDown})"

definition Service_destroy ::
  "string \<Rightarrow> rat \<Rightarrow> pyval \<Rightarrow> service_obj \<Rightarrow> svc_state \<Rightarrow> unit result \<times> svc_state" where
  "Service_destroy rd now now_text o1 s =
     (if \<not> with_context o1 then (Inl orphaned_service, s)
      else if AId \<notin> set (attrs_set o1) then (Inl RuntimeError, s)
      else service_destroy rd now now_text (s_id (vals o1)) s)"

section \<open>Starting a service\<close>

definition create_service_ref ::
  "bool \<Rightarrow> bool \<Rightarrow> rat \<Rightarrow> string \<Rightarrow> string \<Rightarrow> string \<Rightarrow> svc_state \<Rightarrow> service_obj result \<times> svc_state" where
  "create_service_ref enable binary_first now host binary topic s =
     (let v = blank_service\<lparr>s_host := Some host, s_binary := Some binary, s_topic := Some topic\<rparr>
      in Service_create enable binary_first now
           (set_attr AReportCount v (set_attr ATopic v (set_attr ABinary v (set_attr AHost v
             (new_service True))))) s)"

definition update_service_ref :: "rat \<Rightarrow> service_obj \<Rightarrow> svc_state \<Rightarrow> service_obj result \<times> svc_state" where
  "update_service_ref now o1 s =
     (if version (vals o1) \<noteq> Some SERVICE_VERSION
      then Service_save ''no'' now
             (set_attr AVersion ((vals o1)\<lparr>version := Some SERVICE_VERSION\<rparr>) o1) s
      else (Inr o1, s))"

text \<open>
  The part of \<^verbatim>\<open>Service.start\<close> that finds or creates the row. The old version is logged
  with \<^verbatim>\<open>%i\<close>, whose failure the logger handles. \<open>race\<close> is what other workers do between the lookup and
  the insert.
\<close>

definition start_service_ref ::
  "bool \<Rightarrow> bool \<Rightarrow> rat \<Rightarrow> string \<Rightarrow> string \<Rightarrow> string \<Rightarrow> (svc_state \<Rightarrow> svc_state) \<Rightarrow> svc_state \<Rightarrow>
   service_obj option result \<times> svc_state" where
  "start_service_ref enable binary_first now host binary topic race s =
     (case get_by_host_and_binary (Some host) (Some binary) s of
        Inl e \<Rightarrow> (Inl e, s)
      | Inr (Some o1) \<Rightarrow>
          (case update_service_ref now o1 s of
             (Inl e, s') \<Rightarrow> (Inl e, s')
           | (Inr o2, s') \<Rightarrow> (Inr (Some o2), s'))
      | Inr None \<Rightarrow>
          (case create_service_ref enable binary_first now host binary topic (race s) of
             (Inr o2, s') \<Rightarrow> (Inr (Some o2), s')
           | (Inl (Nova c m), s') \<Rightarrow>
               (if is_a c ServiceTopicExists \<or> is_a c ServiceBinaryExists
                then (get_by_host_and_binary (Some host) (Some binary) s', s')
                else (Inl (Nova c m), s'))
           | (Inl e, s') \<Rightarrow> (Inl e, s')))"

section \<open>The table invariant\<close>

text \<open>Ids are distinct and below the next one, and no two rows violate a constraint.\<close>

definition service_clash :: "service \<Rightarrow> service \<Rightarrow> bool" where
  "service_clash r s \<longleftrightarrow> binary_clash r s \<or> topic_clash r s"

definition services_ok :: "'a service_db_scheme \<Rightarrow> bool" where
  "services_ok db \<longleftrightarrow>
     distinct (map s_id (services db)) \<and>
     (\<forall>s \<in> set (services db). s_id s < next_service db \<and> (s_deleted s = 0 \<or> s_deleted s = s_id s)) \<and>
     0 < next_service db \<and> (\<forall>s \<in> set (services db). 0 < s_id s) \<and>
     (\<forall>r \<in> set (services db). \<forall>s \<in> set (services db). s_id r \<noteq> s_id s \<longrightarrow> \<not> service_clash r s)"

lemma service_clash_sym: "service_clash r s \<longleftrightarrow> service_clash s r"
  unfolding service_clash_def binary_clash_def topic_clash_def by metis

lemma copy_attr_fixed [simp]:
  "s_deleted (copy_attr a v r) = s_deleted r" "s_created_at (copy_attr a v r) = s_created_at r"
  by (cases a; simp)+

lemma copy_attr_id [simp]: "a \<noteq> AId \<Longrightarrow> s_id (copy_attr a v r) = s_id r"
  by (cases a) simp_all

lemma update_service_fixed [simp]:
  "s_deleted (update_service v r) = s_deleted r"
  unfolding update_service_def by (induction "fst v" arbitrary: r v rule: rev_induct) auto

lemma fold_copy_id: "AId \<notin> set as \<Longrightarrow> s_id (fold (\<lambda>a. copy_attr a v) as r) = s_id r"
  by (induction as arbitrary: r) auto

lemma update_service_id [simp]: "AId \<notin> set (fst v) \<Longrightarrow> s_id (update_service v r) = s_id r"
  by (simp add: update_service_def fold_copy_id)

lemma touch_service_fields [simp]:
  "s_id (touch_service now old r) = s_id r" "s_deleted (touch_service now old r) = s_deleted r"
  "s_host (touch_service now old r) = s_host r" "s_binary (touch_service now old r) = s_binary r"
  "s_topic (touch_service now old r) = s_topic r" "forced_down (touch_service now old r) = forced_down r"
  "version (touch_service now old r) = version r" "disabled (touch_service now old r) = disabled r"
  "report_count (touch_service now old r) = report_count r"
  "last_seen_up (touch_service now old r) = last_seen_up r"
  by (simp_all add: touch_service_def)

lemma seen_up_fields [simp]:
  "s_id (seen_up now v r) = s_id r" "s_deleted (seen_up now v r) = s_deleted r"
  "s_host (seen_up now v r) = s_host r" "s_binary (seen_up now v r) = s_binary r"
  "s_topic (seen_up now v r) = s_topic r" "forced_down (seen_up now v r) = forced_down r"
  "version (seen_up now v r) = version r" "disabled (seen_up now v r) = disabled r"
  "report_count (seen_up now v r) = report_count r"
  by (simp_all add: seen_up_def)

lemma clash_touch [simp]: "service_clash (touch_service now old r) s = service_clash r s"
  by (simp add: service_clash_def binary_clash_def topic_clash_def)

lemma service_get_Inr:
  assumes "services_ok db"
  shows "service_get ''no'' db i = Inr s \<longleftrightarrow> s \<in> set (services db) \<and> s_deleted s = 0 \<and> s_id s = i"
proof
  assume "service_get ''no'' db i = Inr s"
  then show "s \<in> set (services db) \<and> s_deleted s = 0 \<and> s_id s = i"
    by (auto simp: service_get_def service_query_def split: option.splits dest: find_SomeD)
next
  assume s: "s \<in> set (services db) \<and> s_deleted s = 0 \<and> s_id s = i"
  then obtain r where r: "find (\<lambda>s. s_id s = i) (filter (\<lambda>s. s_deleted s = 0) (services db)) = Some r"
    using find_exists [of s "filter (\<lambda>s. s_deleted s = 0) (services db)" "\<lambda>s. s_id s = i"] by auto
  from find_SomeD [OF r] s assms have "r = s"
    by (auto simp: services_ok_def distinct_map inj_on_def)
  with r show "service_get ''no'' db i = Inr s" by (simp add: service_get_def service_query_def)
qed

lemma service_create_cases:
  assumes "service_create en bf now v db = Inr (r, db')"
  obtains r0 where "r0 = update_service v (new_service_row now (next_service db))"
    "r = (if en then r0 else r0\<lparr>disabled := True,
            disabled_reason := Some ''New service disabled due to config option.''\<rparr>)"
    "\<forall>s \<in> set (services db). \<not> service_clash r s"
    "db' = db\<lparr>services := services db @ [r], next_service := next_service db + 1\<rparr>"
  using assms by (auto simp: service_create_def Let_def service_clash_def split: if_splits)

lemma service_create_ok:
  assumes ok: "services_ok db" and c: "service_create en bf now v db = Inr (r, db')"
    and noid: "AId \<notin> set (fst v)"
  shows "services_ok db' \<and> s_id r = next_service db \<and> s_deleted r = 0"
proof -
  from c obtain r0 where r: "r0 = update_service v (new_service_row now (next_service db))"
    "r = (if en then r0 else r0\<lparr>disabled := True,
            disabled_reason := Some ''New service disabled due to config option.''\<rparr>)"
    "\<forall>s \<in> set (services db). \<not> service_clash r s"
    and db': "db' = db\<lparr>services := services db @ [r], next_service := next_service db + 1\<rparr>"
    by (rule service_create_cases)
  have id: "s_id r = next_service db" and d: "s_deleted r = 0"
    using noid by (simp_all add: r(1,2) new_service_row_def)
  have old: "s_id s < next_service db" if "s \<in> set (services db)" for s
    using ok that by (simp add: services_ok_def)
  have "distinct (map s_id (services db'))"
    using ok by (auto simp: db' services_ok_def id dest: old)
  moreover have "\<forall>a \<in> set (services db'). \<forall>b \<in> set (services db'). s_id a \<noteq> s_id b \<longrightarrow> \<not> service_clash a b"
    using ok r(3) by (auto simp: db' services_ok_def service_clash_sym)
  ultimately show ?thesis
    using ok id d old by (force simp: services_ok_def db')
qed

lemma service_update_cases:
  assumes "service_update rd now i v db = Inr (r, db')"
  obtains old where "service_get rd db i = Inr old"
    "r = touch_service now old (update_service v (seen_up now v old))"
    "\<forall>s \<in> set (services db). s_id s \<noteq> i \<longrightarrow> \<not> service_clash r s"
    "db' = db\<lparr>services := map (\<lambda>s. if s_id s = i then r else s) (services db)\<rparr>"
  using assms by (auto simp: service_update_def result_simps Let_def service_clash_def split: if_splits)

lemma service_update_ok:
  assumes ok: "services_ok db" and u: "service_update ''no'' now i v db = Inr (r, db')"
    and noid: "AId \<notin> set (fst v)"
  shows "services_ok db' \<and> s_id r = i \<and> s_deleted r = 0"
proof -
  from u obtain old where old: "service_get ''no'' db i = Inr old"
    and r: "r = touch_service now old (update_service v (seen_up now v old))"
    and c: "\<forall>s \<in> set (services db). s_id s \<noteq> i \<longrightarrow> \<not> service_clash r s"
    and db': "db' = db\<lparr>services := map (\<lambda>s. if s_id s = i then r else s) (services db)\<rparr>"
    by (rule service_update_cases)
  from old ok have o1: "old \<in> set (services db)" "s_deleted old = 0" "s_id old = i"
    by (simp_all add: service_get_Inr)
  with noid have id: "s_id r = i" and d: "s_deleted r = 0" by (simp_all add: r)
  have "map s_id (services db') = map s_id (services db)" using id by (simp add: db' comp_def if_distrib cong: if_cong)
  then have "distinct (map s_id (services db'))" using ok by (simp only: services_ok_def)
  moreover have "\<forall>a \<in> set (services db'). \<forall>b \<in> set (services db'). s_id a \<noteq> s_id b \<longrightarrow> \<not> service_clash a b"
    using ok c id by (auto simp: db' services_ok_def service_clash_sym)
  moreover have "\<forall>s \<in> set (services db'). s_id s < next_service db' \<and> 0 < s_id s \<and>
      (s_deleted s = 0 \<or> s_deleted s = s_id s)"
    using ok id d o1 by (auto simp: services_ok_def db')
  ultimately show ?thesis using ok id d by (auto simp: services_ok_def db')
qed

lemma service_destroy_ok:
  assumes ok: "services_ok db"
  shows "services_ok (snd (service_destroy ''no'' now nt i db))"
proof (cases "fst (service_destroy ''no'' now nt i db)")
  case (Inl e)
  then show ?thesis
    using ok by (auto simp: service_destroy_def split: sum.splits)
next
  case (Inr u)
  define p where "p s \<longleftrightarrow> s_deleted s = 0 \<and> s_id s = i" for s :: service
  define d where "d s = (if p s then s\<lparr>s_deleted := s_id s, s_deleted_at := Some now\<rparr> else s)" for s :: service
  let ?db = "snd (service_destroy ''no'' now nt i db)"
  from Inr have db': "services ?db = map d (services db)" "next_service ?db = next_service db"
    by (auto simp: service_destroy_def service_query_def d_def p_def split: sum.splits intro: map_cong)
  have d: "s_id (d s) = s_id s" "s_deleted (d s) = (if p s then i else s_deleted s)" "\<not> p s \<Longrightarrow> d s = s" for s
    by (auto simp: d_def p_def)
  have ids: "map s_id (services ?db) = map s_id (services db)" by (simp add: db' comp_def d)
  have rows: "0 < s_id s \<and> s_id s < next_service db \<and> (s_deleted s = 0 \<or> s_deleted s = s_id s)"
    if "s \<in> set (services db)" for s
    using ok that by (auto simp: services_ok_def)
  then have pos: "\<forall>s \<in> set (services ?db). s_id s < next_service ?db \<and> 0 < s_id s \<and>
      (s_deleted s = 0 \<or> s_deleted s = s_id s)"
    by (auto simp: db' d p_def)
  have "\<not> service_clash (d a) (d b)"
    if ab: "a \<in> set (services db)" "b \<in> set (services db)" "s_id a \<noteq> s_id b" for a b
  proof (cases "p a \<or> p b")
    case False
    with ok ab show ?thesis by (simp add: services_ok_def d)
  next
    case True
    with ab rows [of a] rows [of b] have "s_deleted (d a) \<noteq> s_deleted (d b)"
      by (auto simp: d p_def)
    then show ?thesis by (auto simp: service_clash_def binary_clash_def topic_clash_def)
  qed
  then have "\<forall>a \<in> set (services ?db). \<forall>b \<in> set (services ?db). s_id a \<noteq> s_id b \<longrightarrow> \<not> service_clash a b"
    by (auto simp: db' d)
  moreover have "distinct (map s_id (services ?db))" using ok ids by (simp only: services_ok_def)
  ultimately show ?thesis using ok pos by (auto simp: services_ok_def db'(2))
qed

section \<open>The minimum version\<close>

lemma fold_min_le:
  "fold min vs v \<le> v \<and> (\<forall>w \<in> set vs. fold min vs v \<le> w) \<and> fold min vs v \<in> set (v # vs)"
  for v :: "'a::linorder"
proof (induction vs arbitrary: v)
  case (Cons w vs)
  from Cons [of "min w v"] show ?case by (auto simp: min_def split: if_splits)
qed simp

text \<open>
  The reference: the smallest version among the services of the binaries that are neither
  deleted nor forced down, 0 when there is none.
\<close>

definition version_number :: "service \<Rightarrow> int" where
  "version_number s = (case version s of None \<Rightarrow> 0 | Some v \<Rightarrow> v)"

definition deployment_minimum :: "'a service_db_scheme \<Rightarrow> string list \<Rightarrow> int" where
  "deployment_minimum db bs =
     (let ss = concat (map (counted_services db) bs)
      in if ss = [] then 0 else Min (version_number ` set ss))"

definition versioned :: "'a service_db_scheme \<Rightarrow> bool" where
  "versioned db \<longleftrightarrow> (\<forall>s \<in> set (services db). version s \<noteq> None)"

text \<open>A cached version is the current one of a binary that has a service.\<close>

definition cache_current :: "svc_state \<Rightarrow> bool" where
  "cache_current s \<longleftrightarrow>
     (\<forall>b v. dget (min_version_cache s) b = Some v \<longrightarrow>
        counted_services s b \<noteq> [] \<and> v = deployment_minimum s [b])"

lemma fold_min_Min: "fold min vs v = Min (set (v # vs))" for v :: "'a::linorder"
  by (simp only: Min.set_eq_fold)

lemma lowest_version_Min: "lowest_version d = (if d = [] then 0 else Min (snd ` set d))"
  by (cases d) (simp_all add: lowest_version_def fold_min_Min)

lemma min_options_Min:
  assumes "\<forall>s \<in> set ss. version s \<noteq> None" "ss \<noteq> []"
  shows "min_options (map version ss) = Some (Min (version_number ` set ss))"
proof -
  have mf: "List.map_filter (\<lambda>v. v) (map version ss) = map version_number ss"
    using assms(1) by (induction ss) (auto simp: version_number_def map_filter_simps)
  obtain s ss' where "ss = s # ss'" using assms(2) by (cases ss) auto
  then show ?thesis unfolding min_options_def mf by (simp add: fold_min_Min)
qed

lemma counted_versioned: "versioned db \<Longrightarrow> \<forall>s \<in> set (counted_services db b). version s \<noteq> None"
  by (simp add: versioned_def counted_services_def)

lemma minimum_versions_of:
  assumes "versioned db"
  shows "map (\<lambda>(b, v). (b, case v of None \<Rightarrow> 0 | Some n \<Rightarrow> n)) (service_get_minimum_version db bs) =
         map (\<lambda>b. (b, deployment_minimum db [b])) (filter (\<lambda>b. counted_services db b \<noteq> []) (remdups bs))"
  using min_options_Min [OF counted_versioned [OF assms]]
  by (auto simp: service_get_minimum_version_def deployment_minimum_def)

lemma Min_Union_image:
  fixes F :: "'b \<Rightarrow> 'a::linorder set"
  assumes "finite B" "B \<noteq> {}" "\<And>b. b \<in> B \<Longrightarrow> finite (F b) \<and> F b \<noteq> {}"
  shows "Min ((\<lambda>b. Min (F b)) ` B) = Min (\<Union>b \<in> B. F b)"
proof (rule antisym)
  have fin: "finite (\<Union>b \<in> B. F b)" and ne: "(\<Union>b \<in> B. F b) \<noteq> {}" using assms by auto
  from Min_in [OF fin ne] obtain b where b: "b \<in> B" "Min (\<Union>b \<in> B. F b) \<in> F b" by auto
  have "Min ((\<lambda>b. Min (F b)) ` B) \<le> Min (F b)" using b assms(1) by (intro Min_le) auto
  also have "\<dots> \<le> Min (\<Union>b \<in> B. F b)" using b assms(3) by (intro Min_le) auto
  finally show "Min ((\<lambda>b. Min (F b)) ` B) \<le> Min (\<Union>b \<in> B. F b)" .
next
  have fin: "finite (\<Union>b \<in> B. F b)" using assms by auto
  have "Min ((\<lambda>b. Min (F b)) ` B) \<in> (\<lambda>b. Min (F b)) ` B" using assms by (intro Min_in) auto
  then obtain b where b: "b \<in> B" "Min ((\<lambda>b. Min (F b)) ` B) = Min (F b)" by auto
  then have "Min (F b) \<in> (\<Union>b \<in> B. F b)" using assms(3) [of b] by (auto intro: Min_in)
  with fin b show "Min (\<Union>b \<in> B. F b) \<le> Min ((\<lambda>b. Min (F b)) ` B)" by simp
qed

lemma deployment_minimum_lowest:
  "lowest_version (map (\<lambda>b. (b, deployment_minimum db [b]))
     (filter (\<lambda>b. counted_services db b \<noteq> []) (remdups bs))) = deployment_minimum db bs"
proof -
  let ?B = "{b \<in> set bs. counted_services db b \<noteq> []}"
  let ?F = "\<lambda>b. version_number ` set (counted_services db b)"
  have single: "deployment_minimum db [b] = Min (?F b)" if "b \<in> ?B" for b
    using that by (simp add: deployment_minimum_def)
  show ?thesis
  proof (cases "?B = {}")
    case True
    then have "\<forall>b \<in> set bs. counted_services db b = []" by blast
    then show ?thesis by (simp add: lowest_version_Min deployment_minimum_def)
  next
    case False
    have "snd ` set (map (\<lambda>b. (b, deployment_minimum db [b]))
             (filter (\<lambda>b. counted_services db b \<noteq> []) (remdups bs))) = (\<lambda>b. Min (?F b)) ` ?B"
      using single by (force simp: image_iff)
    moreover have "Min ((\<lambda>b. Min (?F b)) ` ?B) = Min (\<Union>b \<in> ?B. ?F b)"
      using False by (intro Min_Union_image) auto
    moreover have "(\<Union>b \<in> ?B. ?F b) = version_number ` set (concat (map (counted_services db) bs))"
      by force
    ultimately show ?thesis
      using False by (auto simp: lowest_version_Min deployment_minimum_def filter_empty_conv)
  qed
qed

text \<open>A look-up leaves the tables alone and keeps the cache current.\<close>

lemma get_minimum_version_multi_frame:
  "get_minimum_version_multi bs s = (r, s') \<Longrightarrow> \<exists>c. s' = s\<lparr>min_version_cache := c\<rparr>"
  by (rule exI [of _ "min_version_cache s'"])
    (auto simp: get_minimum_version_multi_def Let_def split: if_splits)

lemma counted_cache [simp]:
  "counted_services (s\<lparr>min_version_cache := c\<rparr>) b = counted_services s b"
  by (simp add: counted_services_def)

lemma deployment_minimum_cache [simp]:
  "deployment_minimum (s\<lparr>min_version_cache := c\<rparr>) bs = deployment_minimum s bs"
  by (simp add: deployment_minimum_def cong: map_cong)

lemma cache_currentI:
  "(\<And>b v. dget d b = Some v \<Longrightarrow> counted_services s b \<noteq> [] \<and> v = deployment_minimum s [b]) \<Longrightarrow>
   cache_current (s\<lparr>min_version_cache := d\<rparr>)"
  by (simp add: cache_current_def)

lemma minimum_multi_reference:
  assumes v: "versioned s" and nova: "list_all (starts_with ''nova-'') bs" and c: "cache_current s"
  shows "fst (get_minimum_version_multi bs s) = Inr (deployment_minimum s bs) \<and>
         cache_current (snd (get_minimum_version_multi bs s))"
proof (cases "\<not> version_caching s \<or> (\<exists>b \<in> set bs. \<not> dhas (min_version_cache s) b)")
  case True
  let ?vs = "map (\<lambda>b. (b, deployment_minimum s [b]))
      (filter (\<lambda>b. counted_services s b \<noteq> []) (remdups bs))"
  have run: "get_minimum_version_multi bs s = (Inr (deployment_minimum s bs),
      if ?vs = [] then s else s\<lparr>min_version_cache := dupdate (min_version_cache s) ?vs\<rparr>)"
    using nova True deployment_minimum_lowest [of s bs]
    by (simp add: get_minimum_version_multi_def minimum_versions_of [OF v])
  have vs: "dget (rev ?vs) b = Some m \<Longrightarrow> counted_services s b \<noteq> [] \<and> m = deployment_minimum s [b]" for b m
    by (auto dest!: map_of_SomeD)
  have new: "counted_services s b \<noteq> [] \<and> m = deployment_minimum s [b]"
    if "dget (dupdate (min_version_cache s) ?vs) b = Some m" for b m
  proof (cases "dget (rev ?vs) b")
    case None
    with that have "dget (min_version_cache s) b = Some m" by (simp only: dget_dupdate option.case)
    with c show ?thesis unfolding cache_current_def by blast
  next
    case (Some k)
    with that have "k = m" by (simp only: dget_dupdate option.case option.inject)
    with Some vs show ?thesis by blast
  qed
  have "cache_current (s\<lparr>min_version_cache := dupdate (min_version_cache s) ?vs\<rparr>)"
    using new by (rule cache_currentI)
  with c show ?thesis unfolding run by simp
next
  case False
  let ?f = "\<lambda>b. (b, the (dget (min_version_cache s) b))"
  have cached: "counted_services s b \<noteq> [] \<and> the (dget (min_version_cache s) b) = deployment_minimum s [b]"
    if "b \<in> set bs" for b
    using that False c by (auto simp: cache_current_def dhas_def)
  have "filter (\<lambda>b. counted_services s b \<noteq> []) (remdups bs) = remdups bs"
    using cached by (simp add: filter_id_conv)
  moreover have "map ?f (remdups bs) = map (\<lambda>b. (b, deployment_minimum s [b])) (remdups bs)"
    using cached by simp
  ultimately have "map ?f (remdups bs) = map (\<lambda>b. (b, deployment_minimum s [b]))
      (filter (\<lambda>b. counted_services s b \<noteq> []) (remdups bs))"
    by simp
  with nova False c deployment_minimum_lowest [of s bs] show ?thesis
    by (simp add: get_minimum_version_multi_def)
qed

text \<open>
  The minimum version. Whether it is computed by the grouped query or read from the
  cache, the answer for some binaries is the least version of their services that are
  neither deleted nor forced down (0 when there is none), and the look-up leaves a current
  cache current.
\<close>

theorem minimum_version_reference:
  assumes v: "versioned s" and nova: "list_all (starts_with ''nova-'') bs" and c: "cache_current s"
  shows "fst (get_minimum_version_multi bs s) = Inr (deployment_minimum s bs) \<and>
         cache_current (snd (get_minimum_version_multi bs s))"
  using assms by (rule minimum_multi_reference)

section \<open>Saving and starting\<close>

lemma get_minimum_version_one:
  assumes "versioned s" "starts_with ''nova-'' b" "cache_current s"
  obtains c where "get_minimum_version b s = (Inr (deployment_minimum s [b]), s\<lparr>min_version_cache := c\<rparr>)"
    "cache_current (s\<lparr>min_version_cache := c\<rparr>)"
proof -
  obtain c where c: "snd (get_minimum_version_multi [b] s) = s\<lparr>min_version_cache := c\<rparr>"
    using get_minimum_version_multi_frame [OF prod.collapse [symmetric]] by blast
  have "list_all (starts_with ''nova-'') [b]" using assms(2) by simp
  note ref = minimum_multi_reference [OF assms(1) this assms(3)]
  with c have "get_minimum_version_multi [b] s = (Inr (deployment_minimum s [b]), s\<lparr>min_version_cache := c\<rparr>)"
    by (metis prod.collapse)
  moreover from ref c have "cache_current (s\<lparr>min_version_cache := c\<rparr>)" by metis
  ultimately show ?thesis by (intro that) (simp_all only: get_minimum_version_def)
qed

text \<open>
  The minimum of a binary that the process goes by: what the cache has of it, where caching is
  on, and otherwise the table's.
\<close>

definition known_minimum :: "svc_state \<Rightarrow> string \<Rightarrow> int" where
  "known_minimum s b =
     (case dget (min_version_cache s) b of
        Some v \<Rightarrow> if version_caching s then v else deployment_minimum s [b]
      | None \<Rightarrow> deployment_minimum s [b])"

lemma known_minimum_current: "cache_current s \<Longrightarrow> known_minimum s b = deployment_minimum s [b]"
  by (auto simp: known_minimum_def cache_current_def split: option.split)

lemma get_minimum_version_known:
  assumes "versioned s" "starts_with ''nova-'' b"
  obtains c where "get_minimum_version b s = (Inr (known_minimum s b), s\<lparr>min_version_cache := c\<rparr>)"
proof (cases "version_caching s \<and> dhas (min_version_cache s) b")
  case True
  then obtain v where v: "dget (min_version_cache s) b = Some v" by (auto simp: dhas_def)
  have same: "s\<lparr>min_version_cache := min_version_cache s\<rparr> = s" by simp
  from True v have "get_minimum_version b s = (Inr (known_minimum s b), s)"
    by (simp add: get_minimum_version_def get_minimum_version_multi_def assms(2) known_minimum_def lowest_version_def)
  with same show ?thesis by (intro that [of "min_version_cache s"]) simp
next
  case False
  then have k: "known_minimum s b = deployment_minimum s [b]"
    by (auto simp: known_minimum_def dhas_def split: option.split)
  from False have r: "fst (get_minimum_version b s) = Inr (known_minimum s b)"
    using deployment_minimum_lowest [of s "[b]"]
    by (simp add: get_minimum_version_def get_minimum_version_multi_def assms(2) minimum_versions_of [OF assms(1)] k Let_def)
  obtain c where "snd (get_minimum_version_multi [b] s) = s\<lparr>min_version_cache := c\<rparr>"
    using get_minimum_version_multi_frame [OF prod.collapse [symmetric]] by blast
  with r show ?thesis by (intro that [of c]) (simp add: get_minimum_version_def prod_eq_iff)
qed

lemma counted_at_least: "t \<in> set (counted_services s b) \<Longrightarrow> deployment_minimum s [b] \<le> version_number t"
  by (auto simp: deployment_minimum_def Let_def intro: Min_le)

lemma copy_attr_get:
  "version (copy_attr a v r) = (if a = AVersion then version v else version r)"
  "s_binary (copy_attr a v r) = (if a = ABinary then s_binary v else s_binary r)"
  "s_host (copy_attr a v r) = (if a = AHost then s_host v else s_host r)"
  "s_topic (copy_attr a v r) = (if a = ATopic then s_topic v else s_topic r)"
  "report_count (copy_attr a v r) = (if a = AReportCount then report_count v else report_count r)"
  "last_seen_up (copy_attr a v r) = (if a = ALastSeenUp then last_seen_up v else last_seen_up r)"
  "forced_down (copy_attr a v r) = (if a = AForcedDown then forced_down v else forced_down r)"
  "disabled (copy_attr a v r) = (if a = ADisabled then disabled v else disabled r)"
  by (cases a; simp)+

lemma update_service_get:
  "version (update_service v r) = (if AVersion \<in> set (fst v) then version (snd v) else version r)"
  "s_binary (update_service v r) = (if ABinary \<in> set (fst v) then s_binary (snd v) else s_binary r)"
  "s_host (update_service v r) = (if AHost \<in> set (fst v) then s_host (snd v) else s_host r)"
  "s_topic (update_service v r) = (if ATopic \<in> set (fst v) then s_topic (snd v) else s_topic r)"
  "report_count (update_service v r) =
     (if AReportCount \<in> set (fst v) then report_count (snd v) else report_count r)"
  "last_seen_up (update_service v r) =
     (if ALastSeenUp \<in> set (fst v) then last_seen_up (snd v) else last_seen_up r)"
  "forced_down (update_service v r) =
     (if AForcedDown \<in> set (fst v) then forced_down (snd v) else forced_down r)"
  "disabled (update_service v r) = (if ADisabled \<in> set (fst v) then disabled (snd v) else disabled r)"
proof -
  have "version (fold (\<lambda>a. copy_attr a w) as r) = (if AVersion \<in> set as then version w else version r) \<and>
    s_binary (fold (\<lambda>a. copy_attr a w) as r) = (if ABinary \<in> set as then s_binary w else s_binary r) \<and>
    s_host (fold (\<lambda>a. copy_attr a w) as r) = (if AHost \<in> set as then s_host w else s_host r) \<and>
    s_topic (fold (\<lambda>a. copy_attr a w) as r) = (if ATopic \<in> set as then s_topic w else s_topic r) \<and>
    report_count (fold (\<lambda>a. copy_attr a w) as r) =
      (if AReportCount \<in> set as then report_count w else report_count r) \<and>
    last_seen_up (fold (\<lambda>a. copy_attr a w) as r) =
      (if ALastSeenUp \<in> set as then last_seen_up w else last_seen_up r) \<and>
    forced_down (fold (\<lambda>a. copy_attr a w) as r) =
      (if AForcedDown \<in> set as then forced_down w else forced_down r) \<and>
    disabled (fold (\<lambda>a. copy_attr a w) as r) = (if ADisabled \<in> set as then disabled w else disabled r)"
    for as w
    by (induction as arbitrary: r) (simp_all add: copy_attr_get)
  then show
    "version (update_service v r) = (if AVersion \<in> set (fst v) then version (snd v) else version r)"
    "s_binary (update_service v r) = (if ABinary \<in> set (fst v) then s_binary (snd v) else s_binary r)"
    "s_host (update_service v r) = (if AHost \<in> set (fst v) then s_host (snd v) else s_host r)"
    "s_topic (update_service v r) = (if ATopic \<in> set (fst v) then s_topic (snd v) else s_topic r)"
    "report_count (update_service v r) =
       (if AReportCount \<in> set (fst v) then report_count (snd v) else report_count r)"
    "last_seen_up (update_service v r) =
       (if ALastSeenUp \<in> set (fst v) then last_seen_up (snd v) else last_seen_up r)"
    "forced_down (update_service v r) =
       (if AForcedDown \<in> set (fst v) then forced_down (snd v) else forced_down r)"
    "disabled (update_service v r) = (if ADisabled \<in> set (fst v) then disabled (snd v) else disabled r)"
    by (simp_all add: update_service_def)
qed

text \<open>A save that succeeds: the check passed, and the row was updated.\<close>

lemma Service_save_cases:
  assumes "Service_save rd now o1 s = (Inr o2, s')" "versioned s"
    "AVersion \<in> set (attrs_set o1)" "ABinary \<in> set (attrs_set o1)"
  obtains b v c r where "s_binary (vals o1) = Some b" "starts_with ''nova-'' b"
    "version (vals o1) = Some v" "known_minimum s b \<le> v"
    "service_update rd now (s_id (vals o1))
       (filter (\<lambda>a. a \<noteq> AId) (changed_attrs o1), vals o1) (s\<lparr>min_version_cache := c\<rparr>) = Inr (r, s')"
    "service_from_db o1 r = Inr o2"
proof -
  from assms obtain s1 where chk: "check_minimum_version o1 s = (Inr (), s1)"
    by (cases "check_minimum_version o1 s"; cases "fst (check_minimum_version o1 s)")
      (simp_all add: Service_save_def split: if_splits)
  with assms(3,4) obtain b where b: "s_binary (vals o1) = Some b"
    by (auto simp: check_minimum_version_def split: option.splits if_splits)
  have nova: "starts_with ''nova-'' b"
    using chk assms(3,4) b
    by (auto simp: check_minimum_version_def get_minimum_version_def get_minimum_version_multi_def
        split: if_splits)
  obtain c where min: "get_minimum_version b s = (Inr (known_minimum s b), s\<lparr>min_version_cache := c\<rparr>)"
    using get_minimum_version_known [OF assms(2) nova] by blast
  from chk assms(3,4) b min obtain v where v: "version (vals o1) = Some v" "known_minimum s b \<le> v"
    and s1: "s1 = s\<lparr>min_version_cache := c\<rparr>"
    by (auto simp: check_minimum_version_def split: if_splits option.splits)
  let ?u = "service_update rd now (s_id (vals o1)) (filter (\<lambda>a. a \<noteq> AId) (changed_attrs o1), vals o1) s1"
  from assms(1) have "(case ?u of Inl e \<Rightarrow> (Inl e, s1) | Inr (r, s2) \<Rightarrow> (service_from_db o1 r, s2)) = (Inr o2, s')"
    by (simp add: Service_save_def chk split: if_splits)
  then obtain r where "?u = Inr (r, s')" "service_from_db o1 r = Inr o2"
    by (auto split: sum.splits)
  with b nova v s1 that show ?thesis by blast
qed

lemma services_ok_cache [simp]:
  "services_ok (s\<lparr>min_version_cache := c\<rparr>) = services_ok s"
  "versioned (s\<lparr>min_version_cache := c\<rparr>) = versioned s"
  "service_get rd (s\<lparr>min_version_cache := c\<rparr>) i = service_get rd s i"
  by (simp_all add: services_ok_def versioned_def service_get_def service_query_def)

lemma service_from_db_Inr:
  "service_from_db o1 r = Inr o2 \<longleftrightarrow> version r \<noteq> None \<and>
   o2 = o1\<lparr>vals := r, attrs_set := all_service_attrs, changed_attrs := [], with_context := True\<rparr>"
  by (auto simp: service_from_db_def)

text \<open>
  C26: the version check keeps old code out. When a service object that agrees with its row
  on the binary and the version (or has the version among its changes) is saved, a service of
  that binary that counts afterwards is the saved one, at least as new as the minimum the
  process goes by (the cached one, if it has one), or another one that counted before. So
  where the cached minimum is current, or nothing is cached, none is older than the minimum of
  the deployment was before. A cached minimum that the deployment has left behind lets an older
  service in: \<open>stale_minimum_lets_in\<close>.
\<close>

theorem save_keeps_minimum:
  assumes ok: "services_ok s" "versioned s"
    and save: "Service_save ''no'' now o1 s = (Inr o2, s')"
    and set: "AVersion \<in> set (attrs_set o1)" "ABinary \<in> set (attrs_set o1)"
    and row: "service_get ''no'' s (s_id (vals o1)) = Inr old"
    and sync: "s_binary old = s_binary (vals o1)"
      "AVersion \<in> set (changed_attrs o1) \<or> version old = version (vals o1)"
    and t: "t \<in> set (counted_services s' b)" "s_binary (vals o1) = Some b"
  shows "(s_id t = s_id (vals o1) \<and> known_minimum s b \<le> version_number t \<or>
      s_id t \<noteq> s_id (vals o1) \<and> t \<in> set (counted_services s b)) \<and>
    (cache_current s \<or> dget (min_version_cache s) b = None \<longrightarrow> deployment_minimum s [b] \<le> version_number t)"
proof -
  obtain b' v c r where b': "s_binary (vals o1) = Some b'"
    and v: "version (vals o1) = Some v" "known_minimum s b' \<le> v"
    and u: "service_update ''no'' now (s_id (vals o1))
       (filter (\<lambda>a. a \<noteq> AId) (changed_attrs o1), vals o1) (s\<lparr>min_version_cache := c\<rparr>) = Inr (r, s')"
    by (rule Service_save_cases [OF save ok(2) set])
  from b' t(2) have "b' = b" by simp
  from u obtain old' where old': "service_get ''no'' (s\<lparr>min_version_cache := c\<rparr>) (s_id (vals o1)) = Inr old'"
    and r: "r = touch_service now old' (update_service (filter (\<lambda>a. a \<noteq> AId) (changed_attrs o1), vals o1)
        (seen_up now (filter (\<lambda>a. a \<noteq> AId) (changed_attrs o1), vals o1) old'))"
    and s': "services s' = map (\<lambda>x. if s_id x = s_id (vals o1) then r else x) (services s)"
    by (rule service_update_cases) auto
  have "old' = old" using old' row by simp
  with sync(2) v(1) have rv: "version_number r = v"
    by (auto simp: r version_number_def update_service_get)
  have rid: "s_id r = s_id (vals o1)"
    using service_update_ok [OF _ u] ok(1) by simp
  from t(1) have cases: "s_id t = s_id (vals o1) \<and> t = r \<or> s_id t \<noteq> s_id (vals o1) \<and> t \<in> set (counted_services s b)"
    using rid by (auto simp: counted_services_def s' split: if_splits)
  have "known_minimum s b = deployment_minimum s [b]" if "cache_current s \<or> dget (min_version_cache s) b = None"
    using that known_minimum_current by (auto simp: known_minimum_def)
  with cases v(2) rv \<open>b' = b\<close> show ?thesis by (auto intro: counted_at_least)
qed

section \<open>Starting\<close>

lemma start_new_object:
  "service_changes (set_attr AReportCount v (set_attr ATopic v (set_attr ABinary v (set_attr AHost v
     (new_service True))))) =
   ([AReportCount, ATopic, ABinary, AHost, AVersion],
    blank_service\<lparr>s_host := s_host v, s_binary := s_binary v, s_topic := s_topic v,
      report_count := report_count v, version := Some SERVICE_VERSION\<rparr>)"
  by (simp add: service_changes_def set_attr_def new_service_def blank_service_def)

definition fresh_service :: "bool \<Rightarrow> rat \<Rightarrow> int \<Rightarrow> string \<Rightarrow> string \<Rightarrow> string \<Rightarrow> service" where
  "fresh_service enable now i host binary topic =
     (new_service_row now i)\<lparr>s_host := Some host, s_binary := Some binary, s_topic := Some topic,
        version := Some SERVICE_VERSION, disabled := \<not> enable,
        disabled_reason := (if enable then None
          else Some ''New service disabled due to config option.'')\<rparr>"

definition topic_taken :: "string \<Rightarrow> string \<Rightarrow> svc_state \<Rightarrow> bool" where
  "topic_taken host topic s \<longleftrightarrow>
     (\<exists>r \<in> set (services s). s_deleted r = 0 \<and> s_host r = Some host \<and> s_topic r = Some topic)"

lemma create_service_ref_eq:
  assumes free: "find (\<lambda>r. s_host r = Some host \<and> s_binary r = Some binary) (live_services s) = None"
  shows "create_service_ref en bf now host binary topic s =
    (let r = fresh_service en now (next_service s) host binary topic in
     if topic_taken host topic s
     then (Inl (Nova ServiceTopicExists (''Service with host '' @ host @ '' topic '' @ topic @ '' exists.'')), s)
     else (service_from_db (set_attr AReportCount blank_service (new_service True)) r,
           s\<lparr>services := services s @ [r], next_service := next_service s + 1\<rparr>))"
proof -
  let ?v = "blank_service\<lparr>s_host := Some host, s_binary := Some binary, s_topic := Some topic\<rparr>"
  let ?o = "set_attr AReportCount ?v (set_attr ATopic ?v (set_attr ABinary ?v (set_attr AHost ?v (new_service True))))"
  let ?r = "fresh_service en now (next_service s) host binary topic"
  have r: "(if en then update_service (service_changes ?o) (new_service_row now (next_service s))
      else update_service (service_changes ?o) (new_service_row now (next_service s))
        \<lparr>disabled := True, disabled_reason := Some ''New service disabled due to config option.''\<rparr>) = ?r"
    unfolding start_new_object
    by (simp add: update_service_def fresh_service_def new_service_row_def blank_service_def)
  have b: "\<not> binary_clash ?r x" if "x \<in> set (services s)" for x
    using free that by (auto simp: find_None_iff live_services_def binary_clash_def fresh_service_def new_service_row_def)
  have "topic_clash ?r x \<longleftrightarrow> s_deleted x = 0 \<and> s_host x = Some host \<and> s_topic x = Some topic" for x
    by (auto simp: topic_clash_def fresh_service_def new_service_row_def)
  then have t: "(\<exists>x \<in> set (services s). topic_clash ?r x) = topic_taken host topic s"
    by (simp add: topic_taken_def)
  have obj: "service_from_db ?o = service_from_db (set_attr AReportCount blank_service (new_service True))"
    by (intro ext) (simp add: service_from_db_def set_attr_def)
  have guard: "with_context ?o" "AId \<notin> set (attrs_set ?o)"
    by (simp_all add: set_attr_def new_service_def)
  have vals: "AHost \<in> set (fst (service_changes ?o))" "ATopic \<in> set (fst (service_changes ?o))"
    "s_host (snd (service_changes ?o)) = Some host" "s_topic (snd (service_changes ?o)) = Some topic"
    unfolding start_new_object by simp_all
  define w where "w = service_changes ?o"
  have "service_create en bf now w s =
    (if topic_taken host topic s
     then Inl (Nova ServiceTopicExists (''Service with host '' @ host @ '' topic '' @ topic @ '' exists.''))
     else Inr (?r, s\<lparr>services := services s @ [?r], next_service := next_service s + 1\<rparr>))"
    unfolding service_create_def Let_def r [folded w_def] t using b vals [folded w_def]
    by (simp add: none_text_def)
  then show ?thesis
    using guard by (simp add: create_service_ref_def Let_def Service_create_def w_def obj del: service_db.simps)
qed

lemma version_update_ok:
  assumes ok: "services_ok s" "versioned s" "cache_current s" and nova: "starts_with ''nova-'' b"
    and old: "old \<in> set (services s)" "s_deleted old = 0" "s_binary old = Some b"
    and o1: "vals o1 = old" "attrs_set o1 = all_service_attrs" "changed_attrs o1 = []" "with_context o1"
    and new: "version old \<noteq> Some SERVICE_VERSION"
  obtains c where "update_service_ref now o1 s =
    (if SERVICE_VERSION < deployment_minimum s [b]
     then (Inl (service_too_old (Some SERVICE_VERSION) (deployment_minimum s [b])), s\<lparr>min_version_cache := c\<rparr>)
     else (let r = old\<lparr>version := Some SERVICE_VERSION, s_updated_at := Some now\<rparr> in
       (Inr (o1\<lparr>vals := r\<rparr>),
        s\<lparr>min_version_cache := c, services := map (\<lambda>x. if s_id x = s_id old then r else x) (services s)\<rparr>)))"
proof -
  obtain c where min: "get_minimum_version b s = (Inr (deployment_minimum s [b]), s\<lparr>min_version_cache := c\<rparr>)"
    using get_minimum_version_one [OF ok(2) nova ok(3)] by blast
  let ?w = "old\<lparr>version := Some SERVICE_VERSION\<rparr>"
  let ?o = "set_attr AVersion ?w o1"
  let ?r = "old\<lparr>version := Some SERVICE_VERSION, s_updated_at := Some now\<rparr>"
  let ?s = "s\<lparr>min_version_cache := c\<rparr>"
  have w: "vals ?o = ?w" "attrs_set ?o = all_service_attrs" "changed_attrs ?o = [AVersion]" "with_context ?o"
    by (simp_all add: set_attr_def o1 all_service_attrs_def)
  have chk: "check_minimum_version ?o s = (if SERVICE_VERSION < deployment_minimum s [b]
      then (Inl (service_too_old (Some SERVICE_VERSION) (deployment_minimum s [b])), ?s) else (Inr (), ?s))"
    by (simp add: check_minimum_version_def w all_service_attrs_def old min)
  have get: "service_get ''no'' s (s_id old) = Inr old" using ok old by (simp add: service_get_Inr)
  have touched: "touch_service now old (update_service ([AVersion], ?w) (seen_up now ([AVersion], ?w) old)) = ?r"
  proof -
    have "?w \<noteq> old" using new by (metis service.select_convs(10) service.surjective service.update_convs(10))
    then show ?thesis by (simp add: touch_service_def update_service_def seen_up_def)
  qed
  have "\<not> service_clash ?r x" if "x \<in> set (services s)" "s_id x \<noteq> s_id old" for x
  proof -
    have "service_clash ?r x = service_clash old x"
      by (simp add: service_clash_def binary_clash_def topic_clash_def)
    with ok(1) old that show ?thesis by (simp add: services_ok_def)
  qed
  then have upd: "service_update ''no'' now (s_id old) ([AVersion], ?w) ?s =
      Inr (?r, ?s\<lparr>services := map (\<lambda>x. if s_id x = s_id old then ?r else x) (services s)\<rparr>)"
    by (auto simp: service_update_def get Let_def touched service_clash_def)
  have "service_from_db ?o ?r = Inr (o1\<lparr>vals := ?r\<rparr>)"
    using o1 by (simp add: service_from_db_def set_attr_def)
  with new chk upd w show ?thesis
    by (intro that [of c]) (simp add: update_service_ref_def Service_save_def o1 all_service_attrs_def Let_def)
qed

text \<open>
  C15: what starting a service does. A row of its host and binary is taken over, and brought
  to this code's version unless the deployment's minimum is newer, which stops the start.
  Without such a row one is inserted; but if the host's row of another binary has the
  topic, the insert fails and the service runs on without any row.
\<close>

theorem start_service_effect:
  assumes ok: "services_ok s" "versioned s" "cache_current s" and nova: "starts_with ''nova-'' binary"
  shows "case find (\<lambda>r. s_host r = Some host \<and> s_binary r = Some binary) (live_services s) of
      Some old \<Rightarrow>
        (\<exists>o1 c r. vals o1 = r \<and> changed_attrs o1 = [] \<and>
           (if version old = Some SERVICE_VERSION
            then start_service_ref en bf now host binary topic id s = (Inr (Some o1), s) \<and> r = old
            else if SERVICE_VERSION < deployment_minimum s [binary]
            then start_service_ref en bf now host binary topic id s =
              (Inl (service_too_old (Some SERVICE_VERSION) (deployment_minimum s [binary])),
               s\<lparr>min_version_cache := c\<rparr>)
            else start_service_ref en bf now host binary topic id s =
              (Inr (Some o1), s\<lparr>min_version_cache := c,
                 services := map (\<lambda>x. if s_id x = s_id old then r else x) (services s)\<rparr>) \<and>
              r = old\<lparr>version := Some SERVICE_VERSION, s_updated_at := Some now\<rparr>))
    | None \<Rightarrow>
        if topic_taken host topic s
        then start_service_ref en bf now host binary topic id s = (Inr None, s)
        else \<exists>o1. start_service_ref en bf now host binary topic id s =
            (Inr (Some o1), s\<lparr>services := services s @ [vals o1], next_service := next_service s + 1\<rparr>) \<and>
          vals o1 = fresh_service en now (next_service s) host binary topic \<and> changed_attrs o1 = []"
proof (cases "find (\<lambda>r. s_host r = Some host \<and> s_binary r = Some binary) (live_services s)")
  case None
  then have get: "get_by_host_and_binary (Some host) (Some binary) s = Inr None"
    by (simp add: get_by_host_and_binary_def service_get_by_host_and_binary_def is_a_def nova_mro_def numeral_eq_Suc)
  show ?thesis
    using get by (simp add: None start_service_ref_def create_service_ref_eq [OF None] Let_def is_a_def
        nova_mro_def numeral_eq_Suc service_from_db_def fresh_service_def set_attr_def)
next
  case (Some old)
  from find_SomeD [OF Some] have old: "old \<in> set (services s)" "s_deleted old = 0" "s_binary old = Some binary"
    by (auto simp: live_services_def)
  define o1 where "o1 = (new_service False)\<lparr>vals := old, attrs_set := all_service_attrs,
    changed_attrs := [], with_context := True\<rparr>"
  have "version old \<noteq> None" using ok(2) old(1) by (simp add: versioned_def)
  then have get: "get_by_host_and_binary (Some host) (Some binary) s = Inr (Some o1)"
    by (simp add: get_by_host_and_binary_def service_get_by_host_and_binary_def Some service_from_db_def o1_def)
  have o1: "vals o1 = old" "attrs_set o1 = all_service_attrs" "changed_attrs o1 = []" "with_context o1"
    by (simp_all add: o1_def)
  show ?thesis
  proof (cases "version old = Some SERVICE_VERSION")
    case True
    then show ?thesis
      using o1 by (auto simp: Some start_service_ref_def get update_service_ref_def)
  next
    case False
    obtain c where c: "update_service_ref now o1 s =
      (if SERVICE_VERSION < deployment_minimum s [binary]
       then (Inl (service_too_old (Some SERVICE_VERSION) (deployment_minimum s [binary])), s\<lparr>min_version_cache := c\<rparr>)
       else (let r = old\<lparr>version := Some SERVICE_VERSION, s_updated_at := Some now\<rparr> in
         (Inr (o1\<lparr>vals := r\<rparr>),
          s\<lparr>min_version_cache := c, services := map (\<lambda>x. if s_id x = s_id old then r else x) (services s)\<rparr>)))"
      using version_update_ok [OF ok nova old o1 False] by blast
    let ?r = "old\<lparr>version := Some SERVICE_VERSION, s_updated_at := Some now\<rparr>"
    show ?thesis
      unfolding Some option.case
      by (rule exI [of _ "o1\<lparr>vals := ?r\<rparr>"], rule exI [of _ c], rule exI [of _ ?r])
        (simp add: False start_service_ref_def get c Let_def o1)
  qed
qed

section \<open>Samples\<close>

definition sample_service :: service where
  "sample_service = fresh_service True 0 1 ''h'' ''nova-compute'' ''compute''"

definition sample_state :: svc_state where
  "sample_state =
     \<lparr>plans = empty_table, cases = empty_table, nodes = empty_table,
      services = [sample_service], next_service = 2, version_caching = False, min_version_cache = []\<rparr>"

definition sample_object :: service_obj where
  "sample_object =
     \<lparr>vals = sample_service, attrs_set = all_service_attrs, changed_attrs = [], with_context = True\<rparr>"

lemma sample_state_ok: "services_ok sample_state" "versioned sample_state" "cache_current sample_state"
  by (simp_all add: sample_state_def services_ok_def sample_service_def fresh_service_def
      new_service_row_def versioned_def cache_current_def)

lemma sample_minimum: "deployment_minimum sample_state [''nova-compute''] = 15"
  by (simp add: sample_state_def sample_service_def fresh_service_def new_service_row_def
      SERVICE_VERSION_def deployment_minimum_def counted_services_def version_number_def)

theorem minimum_version_reference_witness:
  "fst (get_minimum_version_multi [''nova-compute''] sample_state) = Inr 15"
  using minimum_version_reference [OF sample_state_ok(2) _ sample_state_ok(3), of "[''nova-compute'']"]
  by (simp add: starts_with_def sample_minimum)

theorem start_service_effect_witness:
  "start_service_ref True True 10 ''h'' ''nova-conductor'' ''compute'' id sample_state = (Inr None, sample_state)"
proof -
  have "starts_with ''nova-'' ''nova-conductor''" by (simp add: starts_with_def)
  moreover have "find (\<lambda>r. s_host r = Some ''h'' \<and> s_binary r = Some ''nova-conductor'') (live_services sample_state) = None"
    "topic_taken ''h'' ''compute'' sample_state"
    by (simp_all add: sample_state_def live_services_def sample_service_def fresh_service_def
        new_service_row_def topic_taken_def)
  ultimately show ?thesis
    using start_service_effect [OF sample_state_ok, where binary = "''nova-conductor''" and host = "''h''"
        and topic = "''compute''" and en = True and bf = True and now = 10]
    by simp
qed

text \<open>
  A process that remembers 14 as the minimum saves a service of version 14, although the one
  service that counts has version 15 by now.
\<close>

lemma stale_minimum_lets_in:
  "let s = sample_state\<lparr>version_caching := True, min_version_cache := [(''nova-compute'', 14)],
         services := [sample_service, sample_service\<lparr>s_id := 2, s_host := Some ''h2'', version := Some 14, forced_down := True\<rparr>]\<rparr>;
       o1 = sample_object\<lparr>vals := sample_service\<lparr>s_id := 2, s_host := Some ''h2'', version := Some 14, forced_down := False\<rparr>,
         changed_attrs := [AForcedDown]\<rparr>;
       r = Service_save ''no'' 10 o1 s
   in deployment_minimum s [''nova-compute''] = 15 \<and> \<not> isl (fst r) \<and> deployment_minimum (snd r) [''nova-compute''] = 14"
  by code_simp

theorem save_keeps_minimum_witness:
  "\<exists>o2 s' t. Service_save ''no'' 10 (set_attr ADisabled (sample_service\<lparr>disabled := True\<rparr>) sample_object) sample_state = (Inr o2, s') \<and>
     t \<in> set (counted_services s' ''nova-compute'') \<and> 15 \<le> version_number t"
proof -
  let ?o = "set_attr ADisabled (sample_service\<lparr>disabled := True\<rparr>) sample_object"
  let ?run = "Service_save ''no'' 10 ?o sample_state"
  have "\<not> isl (fst ?run)" "counted_services (snd ?run) ''nova-compute'' \<noteq> []" by code_simp+
  then obtain o2 s' where save: "?run = (Inr o2, s')" and c: "counted_services s' ''nova-compute'' \<noteq> []"
    by (cases ?run; cases "fst ?run") auto
  have "deployment_minimum sample_state [''nova-compute''] \<le> version_number (hd (counted_services s' ''nova-compute''))"
    by (rule save_keeps_minimum [OF sample_state_ok(1,2) save, THEN conjunct2, THEN mp])
      (use c sample_state_ok in \<open>auto simp: set_attr_def sample_object_def all_service_attrs_def service_get_Inr
         sample_state_def sample_service_def fresh_service_def new_service_row_def\<close>)
  with save c show ?thesis unfolding sample_minimum by (meson list.set_sel(1))
qed

end
