(* ===== verification/ServiceGroup.thy ===== *)
theory ServiceGroup
  imports Services
begin

text \<open>
  Which services are alive: the servicegroup API (\<^verbatim>\<open>nova/servicegroup/api.py\<close>) and its
  database driver (\<^verbatim>\<open>drivers/db.py\<close>). A service process reports by saving its row with a
  larger count, and is up while its last report is recent. The life of a process is a step
  relation: its own reports, which may be lost on the way to the conductor, and whatever the
  rest of the deployment does.
\<close>

section \<open>Configuration and joining\<close>

text \<open>\<^verbatim>\<open>int(report_interval * 2.5)\<close> truncates towards zero.\<close>

definition effective_down_time :: "int \<Rightarrow> int \<Rightarrow> int" where
  "effective_down_time report_interval service_down_time =
     (if service_down_time \<le> report_interval
      then (if 0 \<le> report_interval then 5 * report_interval div 2 else - (5 * (- report_interval) div 2))
      else service_down_time)"

lemma effective_down_time_exceeds:
  "0 < report_interval \<Longrightarrow> report_interval < effective_down_time report_interval service_down_time"
  by (auto simp: effective_down_time_def)

definition INITIAL_REPORTING_DELAY :: int where
  "INITIAL_REPORTING_DELAY = 5"

text \<open>The timer that is added: its interval and its initial delay.\<close>

definition join :: "int option option \<Rightarrow> (int \<times> int) option result" where
  "join service =
     (case service of
        None \<Rightarrow> Inl RuntimeError
      | Some report_interval \<Rightarrow>
          (case report_interval of
             Some n \<Rightarrow> if n \<noteq> 0 then Inr (Some (n, INITIAL_REPORTING_DELAY)) else Inr None
           | None \<Rightarrow> Inr None))"

section \<open>Is a service up?\<close>

text \<open>A timestamp of a record, or its text when the record came over RPC.\<close>

datatype stamp = Stamp rat | StampText string

record member =
  m_forced_down :: bool
  m_last_seen_up :: "stamp option"
  m_updated_at :: "stamp option"
  m_created_at :: "stamp option"

fun stamp_or :: "stamp option \<Rightarrow> stamp option \<Rightarrow> stamp option" where
  "stamp_or None y = y"
| "stamp_or (Some (StampText [])) y = y"
| "stamp_or x y = x"

definition last_heartbeat :: "member \<Rightarrow> stamp option" where
  "last_heartbeat m = stamp_or (m_last_seen_up m) (stamp_or (m_updated_at m) (m_created_at m))"

definition recent :: "int \<Rightarrow> rat \<Rightarrow> rat \<Rightarrow> bool" where
  "recent down_time before now \<longleftrightarrow> \<bar>now - before\<bar> \<le> of_int down_time"

text \<open>\<open>parse\<close> is \<^verbatim>\<open>timeutils.parse_strtime\<close>.\<close>

definition is_up :: "(string \<Rightarrow> rat option) \<Rightarrow> int \<Rightarrow> rat \<Rightarrow> member \<Rightarrow> bool result" where
  "is_up parse down_time now m =
     (case last_heartbeat m of
        None \<Rightarrow> Inl AttributeError
      | Some (StampText t) \<Rightarrow>
          (case parse t of None \<Rightarrow> Inl ValueError | Some b \<Rightarrow> Inr (recent down_time b now))
      | Some (Stamp b) \<Rightarrow> Inr (recent down_time b now))"

definition service_is_up :: "(string \<Rightarrow> rat option) \<Rightarrow> int \<Rightarrow> rat \<Rightarrow> member \<Rightarrow> bool result" where
  "service_is_up parse down_time now m =
     (if m_forced_down m then Inr False else is_up parse down_time now m)"

definition member_of :: "service \<Rightarrow> member" where
  "member_of r =
     \<lparr>m_forced_down = forced_down r, m_last_seen_up = map_option Stamp (last_seen_up r),
      m_updated_at = map_option Stamp (s_updated_at r), m_created_at = map_option Stamp (s_created_at r)\<rparr>"

section \<open>Reporting\<close>

record svc_process =
  service_ref :: "service_obj option"
  model_disconnected :: bool

text \<open>
  How the save of a report goes: it runs, the call times out before it reaches the
  conductor, or it runs and the answer is lost.
\<close>

datatype delivery = Delivered | Lost | ReplyLost

definition report_state ::
  "delivery \<Rightarrow> rat \<Rightarrow> svc_process \<Rightarrow> svc_state \<Rightarrow> svc_process \<times> svc_state" where
  "report_state how now p s =
     (case service_ref p of
        None \<Rightarrow> (p\<lparr>model_disconnected := True\<rparr>, s)
      | Some o0 \<Rightarrow>
          if AReportCount \<notin> set (attrs_set o0) then (p\<lparr>model_disconnected := True\<rparr>, s)
          else
            (let o1 = set_attr AReportCount
                        ((vals o0)\<lparr>report_count := report_count (vals o0) + 1\<rparr>) o0;
                 failed = p\<lparr>service_ref := Some o1, model_disconnected := True\<rparr>
             in case how of
                  Lost \<Rightarrow> (failed, s)
                | ReplyLost \<Rightarrow> (failed, snd (Service_save ''no'' now o1 s))
                | Delivered \<Rightarrow>
                    (case Service_save ''no'' now o1 s of
                       (Inl e, s') \<Rightarrow> (failed, s')
                     | (Inr o2, s') \<Rightarrow>
                         (p\<lparr>service_ref := Some o2, model_disconnected := False\<rparr>, s'))))"

text \<open>
  A service whose start found no row never reports: the process has no object, and every
  attempt fails where only the log sees it.
\<close>

lemma report_without_row:
  "service_ref p = None \<Longrightarrow> report_state how now p s = (p\<lparr>model_disconnected := True\<rparr>, s)"
  by (simp add: report_state_def)

section \<open>The life of a service\<close>

datatype hb_event = Beat rat delivery | Other

text \<open>
  \<open>Other\<close> is any change of the rest of the deployment that leaves the row of service \<open>i\<close>
  alone and does not move the minimum of its binary above its version.
\<close>

definition deployment_fits :: "string \<Rightarrow> int \<Rightarrow> svc_state \<Rightarrow> bool" where
  "deployment_fits b v s \<longleftrightarrow>
     services_ok s \<and> versioned s \<and> cache_current s \<and> deployment_minimum s [b] \<le> v"

inductive hb_step ::
  "int \<Rightarrow> string \<Rightarrow> int \<Rightarrow> svc_process \<times> svc_state \<Rightarrow> hb_event \<Rightarrow> svc_process \<times> svc_state \<Rightarrow> bool"
  for i b v where
  beat: "report_state how now p s = st \<Longrightarrow> hb_step i b v (p, s) (Beat now how) st"
| other: "service_get ''no'' s' i = service_get ''no'' s i \<Longrightarrow> deployment_fits b v s' \<Longrightarrow>
    hb_step i b v (p, s) Other (p, s')"

inductive hb_run ::
  "int \<Rightarrow> string \<Rightarrow> int \<Rightarrow> svc_process \<times> svc_state \<Rightarrow> hb_event list \<Rightarrow> svc_process \<times> svc_state \<Rightarrow> bool"
  for i b v where
  stop: "hb_run i b v st [] st"
| step: "hb_run i b v st es st1 \<Longrightarrow> hb_step i b v st1 e st2 \<Longrightarrow> hb_run i b v st (es @ [e]) st2"

text \<open>The time of the last report that reached the database.\<close>

definition last_report :: "hb_event list \<Rightarrow> rat option \<Rightarrow> rat option" where
  "last_report es t =
     fold (\<lambda>e t. case e of Beat now how \<Rightarrow> if how = Lost then t else Some now | Other \<Rightarrow> t) es t"

definition hb_inv :: "int \<Rightarrow> string \<Rightarrow> int \<Rightarrow> rat option \<Rightarrow> svc_process \<times> svc_state \<Rightarrow> bool" where
  "hb_inv i b v seen st \<longleftrightarrow>
     (case st of (p, s) \<Rightarrow>
        deployment_fits b v s \<and> starts_with ''nova-'' b \<and>
        (\<exists>o1 r. service_ref p = Some o1 \<and> with_context o1 \<and> attrs_set o1 = all_service_attrs \<and>
           set (changed_attrs o1) \<subseteq> {AReportCount} \<and> s_id (vals o1) = i \<and>
           s_binary (vals o1) = Some b \<and> version (vals o1) = Some v \<and>
           service_get ''no'' s i = Inr r \<and> s_binary r = Some b \<and> version r = Some v \<and>
           report_count r \<le> report_count (vals o1) \<and> last_seen_up r = seen))"

text \<open>An update that leaves versions, binaries and the two flags alone keeps every minimum.\<close>

lemma minimum_of_map:
  assumes "services s' = map f (services s)"
    "\<And>x. x \<in> set (services s) \<Longrightarrow> version (f x) = version x \<and> s_binary (f x) = s_binary x \<and>
       s_deleted (f x) = s_deleted x \<and> forced_down (f x) = forced_down x"
  shows "deployment_minimum s' bs = deployment_minimum s bs"
    and "counted_services s' b \<noteq> [] \<longleftrightarrow> counted_services s b \<noteq> []" and "versioned s' = versioned s"
proof -
  have c: "counted_services s' b = map f (counted_services s b)" for b
    using assms by (auto simp: counted_services_def filter_map comp_def intro!: arg_cong [of _ _ "map f"] filter_cong)
  have n: "version_number ` f ` set (counted_services s b) = version_number ` set (counted_services s b)" for b
    using assms(2) by (auto simp: counted_services_def version_number_def image_iff)
  show "counted_services s' b \<noteq> [] \<longleftrightarrow> counted_services s b \<noteq> []" by (simp add: c)
  have eq: "map (counted_services s') bs = map (\<lambda>b. map f (counted_services s b)) bs" using c by (intro map_cong) simp_all
  have "concat (map (counted_services s') bs) = map f (concat (map (counted_services s) bs))"
    unfolding eq by (simp add: map_concat comp_def)
  moreover have "version_number ` f ` (\<Union>b \<in> set bs. set (counted_services s b)) =
      version_number ` (\<Union>b \<in> set bs. set (counted_services s b))"
    using n by (simp add: image_UN)
  ultimately show "deployment_minimum s' bs = deployment_minimum s bs"
    by (simp add: deployment_minimum_def Let_def)
  show "versioned s' = versioned s" using assms by (auto simp: versioned_def)
qed

lemma report_save:
  assumes inv: "hb_inv i b v seen (p, s)" and ref: "service_ref p = Some o0"
  defines "o1 \<equiv> set_attr AReportCount ((vals o0)\<lparr>report_count := report_count (vals o0) + 1\<rparr>) o0"
  obtains r s' where "Service_save ''no'' now o1 s =
      (Inr (o1\<lparr>vals := r, attrs_set := all_service_attrs, changed_attrs := [], with_context := True\<rparr>), s')"
    "service_get ''no'' s' i = Inr r" "s_id r = i" "s_binary r = Some b" "version r = Some v"
    "report_count r = report_count (vals o0) + 1" "last_seen_up r = Some now" "deployment_fits b v s'"
proof -
  from inv ref obtain old where fits: "deployment_fits b v s" and nova: "starts_with ''nova-'' b"
    and o0: "with_context o0" "attrs_set o0 = all_service_attrs" "set (changed_attrs o0) \<subseteq> {AReportCount}"
      "s_id (vals o0) = i" "s_binary (vals o0) = Some b" "version (vals o0) = Some v"
    and old: "service_get ''no'' s i = Inr old" "s_binary old = Some b" "version old = Some v"
      "report_count old \<le> report_count (vals o0)"
    by (auto simp: hb_inv_def)
  from fits have ok: "services_ok s" "versioned s" "cache_current s" "deployment_minimum s [b] \<le> v"
    by (simp_all add: deployment_fits_def)
  have o1: "with_context o1" "attrs_set o1 = all_service_attrs" "set (changed_attrs o1) = {AReportCount}"
    "s_id (vals o1) = i" "s_binary (vals o1) = Some b" "version (vals o1) = Some v"
    "report_count (vals o1) = report_count (vals o0) + 1"
    using o0 by (auto simp: o1_def set_attr_def all_service_attrs_def)
  obtain c where min: "get_minimum_version b s = (Inr (deployment_minimum s [b]), s\<lparr>min_version_cache := c\<rparr>)"
    and cur: "cache_current (s\<lparr>min_version_cache := c\<rparr>)"
    using get_minimum_version_one [OF ok(2) nova ok(3)] by blast
  let ?s = "s\<lparr>min_version_cache := c\<rparr>"
  have chk: "check_minimum_version o1 s = (Inr (), ?s)"
    using ok(4) by (simp add: check_minimum_version_def o1 all_service_attrs_def min)
  let ?vs = "(filter (\<lambda>a. a \<noteq> AId) (changed_attrs o1), vals o1)"
  have vs: "set (fst ?vs) = {AReportCount}" using o1(3) by auto
  define r where "r = touch_service now old (update_service ?vs (seen_up now ?vs old))"
  have r: "s_id r = i" "s_binary r = Some b" "version r = Some v" "s_deleted r = s_deleted old"
    "s_host r = s_host old" "s_topic r = s_topic old" "forced_down r = forced_down old"
    "report_count r = report_count (vals o0) + 1" "last_seen_up r = Some now"
    using vs old ok(1) o1(7) by (simp_all add: r_def update_service_get service_get_Inr seen_up_def)
  let ?f = "\<lambda>x. if s_id x = i then r else x"
  let ?t = "?s\<lparr>services := map ?f (services s)\<rparr>"
  from old(1) ok(1) have oldin: "old \<in> set (services s)" "s_deleted old = 0" "s_id old = i"
    by (simp_all add: service_get_Inr)
  have "\<not> service_clash r x" if "x \<in> set (services s)" "s_id x \<noteq> i" for x
  proof -
    have "service_clash r x = service_clash old x"
      by (simp add: service_clash_def binary_clash_def topic_clash_def r old(2))
    with ok(1) oldin that show ?thesis by (simp add: services_ok_def)
  qed
  then have upd: "service_update ''no'' now i ?vs ?s = Inr (r, ?t)"
    by (auto simp: service_update_def old(1) Let_def r_def [symmetric] service_clash_def)
  have run: "Service_save ''no'' now o1 s =
      (Inr (o1\<lparr>vals := r, attrs_set := all_service_attrs, changed_attrs := [], with_context := True\<rparr>), ?t)"
    using chk upd o1 r(3) by (simp add: Service_save_def all_service_attrs_def service_from_db_def)
  have okt: "services_ok ?t" using service_update_ok [OF _ upd] ok(1) vs by auto
  have same: "version (?f x) = version x \<and> s_binary (?f x) = s_binary x \<and>
      s_deleted (?f x) = s_deleted x \<and> forced_down (?f x) = forced_down x" if "x \<in> set (services s)" for x
  proof (cases "s_id x = i")
    case True
    with that oldin ok(1) have "x = old" by (auto simp: services_ok_def distinct_map inj_on_def)
    with True show ?thesis by (simp add: r old)
  qed simp
  have maps: "services ?t = map ?f (services s)" by simp
  note keep = minimum_of_map [OF maps same]
  have "cache_current ?t"
    using cur keep by (simp add: cache_current_def)
  then have "deployment_fits b v ?t" using okt keep ok by (simp add: deployment_fits_def)
  moreover have "service_get ''no'' ?t i = Inr r"
    using okt oldin r by (force simp: service_get_Inr)
  ultimately show ?thesis using that run r by blast
qed

text \<open>Every step keeps the invariant, with the time of the last report that got through.\<close>

lemma hb_step_inv:
  assumes inv: "hb_inv i b v seen st" and st: "hb_step i b v st e st'"
  shows "hb_inv i b v (last_report [e] seen) st'"
proof -
  obtain p s where ps: "st = (p, s)" by (cases st)
  from inv ps obtain o0 where ref: "service_ref p = Some o0"
    and o0: "with_context o0" "attrs_set o0 = all_service_attrs" "set (changed_attrs o0) \<subseteq> {AReportCount}"
      "s_id (vals o0) = i" "s_binary (vals o0) = Some b" "version (vals o0) = Some v"
    by (auto simp: hb_inv_def)
  have nova: "starts_with ''nova-'' b" using inv by (auto simp: hb_inv_def split: prod.splits)
  show ?thesis
    using st [unfolded ps]
  proof (cases rule: hb_step.cases)
    case (beat how now)
    define o1 where "o1 = set_attr AReportCount ((vals o0)\<lparr>report_count := report_count (vals o0) + 1\<rparr>) o0"
    have o1: "with_context o1" "attrs_set o1 = all_service_attrs" "set (changed_attrs o1) \<subseteq> {AReportCount}"
      "s_id (vals o1) = i" "s_binary (vals o1) = Some b" "version (vals o1) = Some v"
      "report_count (vals o1) = report_count (vals o0) + 1"
      using o0 by (auto simp: o1_def set_attr_def all_service_attrs_def)
    obtain r s' where save: "Service_save ''no'' now o1 s =
        (Inr (o1\<lparr>vals := r, attrs_set := all_service_attrs, changed_attrs := [], with_context := True\<rparr>), s')"
      and r: "service_get ''no'' s' i = Inr r" "s_id r = i" "s_binary r = Some b" "version r = Some v"
        "report_count r = report_count (vals o0) + 1" "last_seen_up r = Some now" "deployment_fits b v s'"
      using report_save [OF inv [unfolded ps] ref] unfolding o1_def by blast
    let ?failed = "p\<lparr>service_ref := Some o1, model_disconnected := True\<rparr>"
    have run: "report_state how now p s = (case how of Lost \<Rightarrow> (?failed, s) | ReplyLost \<Rightarrow> (?failed, s')
        | Delivered \<Rightarrow> (p\<lparr>service_ref := Some (o1\<lparr>vals := r, attrs_set := all_service_attrs,
            changed_attrs := [], with_context := True\<rparr>), model_disconnected := False\<rparr>, s'))"
      using ref o0(2) save
      by (simp add: report_state_def Let_def all_service_attrs_def o1_def split: delivery.splits)
    have "hb_inv i b v seen (?failed, s)"
      using inv ps o1 ref by (auto simp: hb_inv_def)
    moreover have "hb_inv i b v (Some now) (?failed, s')"
      using o1 r nova by (simp add: hb_inv_def)
    moreover have "hb_inv i b v (Some now) (p\<lparr>service_ref := Some (o1\<lparr>vals := r, attrs_set := all_service_attrs,
            changed_attrs := [], with_context := True\<rparr>), model_disconnected := False\<rparr>, s')"
      using r nova by (simp add: hb_inv_def)
    ultimately show ?thesis
      using beat run by (cases how) (simp_all add: last_report_def)
  next
    case (other s')
    with inv ps show ?thesis by (auto simp: hb_inv_def last_report_def)
  qed
qed

lemma hb_run_inv:
  "hb_run i b v st es st' \<Longrightarrow> hb_inv i b v seen st \<Longrightarrow> hb_inv i b v (last_report es seen) st'"
proof (induction rule: hb_run.induct)
  case (step st es st1 e st2)
  from hb_step_inv [OF step.IH [OF step.prems] step.hyps(2)] show ?case
    by (simp add: last_report_def)
qed (simp add: last_report_def)

text \<open>
  C6: the heartbeat tells the living from the dead. Take any run of a service that starts
  in step with its row: reports, some of them lost, and changes of the rest of the
  deployment in any order. If the last report that reached the database was at time \<open>t\<close>,
  then at any time the service counts as up exactly when it is not forced down and \<open>t\<close> is
  within the down time. So a service whose reports get through more often than that stays
  up, and one that stops reporting is down one down time later.
\<close>

theorem heartbeat_detects:
  assumes "hb_inv i b v seen st" "hb_run i b v st es (p, s)" "last_report es seen = Some t"
  shows "\<exists>r. service_get ''no'' s i = Inr r \<and>
    (\<forall>now. service_is_up parse down_time now (member_of r) =
       Inr (\<not> forced_down r \<and> \<bar>now - t\<bar> \<le> of_int down_time))"
proof -
  from hb_run_inv [OF assms(2,1)] assms(3) obtain r where
    r: "service_get ''no'' s i = Inr r" "last_seen_up r = Some t"
    by (auto simp: hb_inv_def)
  then have "last_heartbeat (member_of r) = Some (Stamp t)" "m_forced_down (member_of r) = forced_down r"
    by (simp_all add: last_heartbeat_def member_of_def)
  then have "service_is_up parse down_time now (member_of r) =
      Inr (\<not> forced_down r \<and> \<bar>now - t\<bar> \<le> of_int down_time)" for now
    by (simp add: service_is_up_def is_up_def recent_def)
  with r(1) show ?thesis by blast
qed

theorem heartbeat_detects_witness:
  "\<exists>p s r. hb_run 1 ''nova-compute'' 15 (\<lparr>service_ref = Some sample_object, model_disconnected = False\<rparr>, sample_state)
      [Beat 10 Delivered, Beat 20 Lost] (p, s) \<and> service_get ''no'' s 1 = Inr r \<and>
    service_is_up (\<lambda>_. None) 60 70 (member_of r) = Inr True \<and>
    service_is_up (\<lambda>_. None) 60 71 (member_of r) = Inr False"
proof -
  let ?p = "\<lparr>service_ref = Some sample_object, model_disconnected = False\<rparr>"
  let ?st = "(?p, sample_state)"
  let ?es = "[Beat 10 Delivered, Beat 20 Lost]"
  have inv: "hb_inv 1 ''nova-compute'' 15 None ?st"
    using sample_state_ok
    by (simp add: hb_inv_def deployment_fits_def sample_object_def service_get_Inr)
      (simp add: sample_state_def sample_service_def fresh_service_def new_service_row_def starts_with_def
        SERVICE_VERSION_def deployment_minimum_def counted_services_def version_number_def)
  obtain p1 s1 where 1: "report_state Delivered 10 ?p sample_state = (p1, s1)" by fastforce
  obtain p2 s2 where 2: "report_state Lost 20 p1 s1 = (p2, s2)" by fastforce
  have run: "hb_run 1 ''nova-compute'' 15 ?st ([] @ [Beat 10 Delivered] @ [Beat 20 Lost]) (p2, s2)"
    using 1 2 by (metis append_Nil append_assoc hb_run.intros hb_step.beat)
  then have run': "hb_run 1 ''nova-compute'' 15 ?st ?es (p2, s2)" by simp
  have seen: "last_report ?es None = Some 10" by (simp add: last_report_def)
  obtain r where r: "service_get ''no'' s2 1 = Inr r"
    and up: "\<And>now. service_is_up (\<lambda>_. None) 60 now (member_of r) = Inr (\<not> forced_down r \<and> \<bar>now - 10\<bar> \<le> of_int 60)"
    using heartbeat_detects [OF inv run' seen, of "\<lambda>_. None" 60] by blast
  have "\<not> forced_down r"
  proof -
    have "list_all (\<lambda>x. \<not> forced_down x) (services (snd
        (case report_state Delivered 10 ?p sample_state of (p, s) \<Rightarrow> report_state Lost 20 p s)))"
      by code_simp
    then have "\<forall>x \<in> set (services s2). \<not> forced_down x" by (simp only: 1 2 prod.case snd_conv list_all_iff)
    with r show ?thesis by (auto simp: service_get_def service_query_def split: option.splits dest: find_SomeD)
  qed
  with run' r up show ?thesis by fastforce
qed

end
