(* ===== verification/ComputeNodes.thy ===== *)
theory ComputeNodes
  imports Services
begin

text \<open>
  The compute nodes: the queries over their table, with filters, limit and marker
  (\<^verbatim>\<open>nova/db/sqlalchemy/api.py\<close>), and the \<^verbatim>\<open>ComputeNode\<close> object
  (\<^verbatim>\<open>nova/objects/compute_node.py\<close>).
\<close>

section \<open>Selecting nodes\<close>

text \<open>The id as the number \<^verbatim>\<open>order_by\<close> sorts on; every row of a table has one.\<close>

definition int_id :: "row \<Rightarrow> int" where
  "int_id r = (case row_id r of Some (PInt i) \<Rightarrow> i | _ \<Rightarrow> 0)"

definition compute_host_not_found :: "string \<Rightarrow> exn" where
  "compute_host_not_found h = Nova ComputeHostNotFound (''Compute host '' @ h @ '' could not be found.'')"

text \<open>
  The filters \<^verbatim>\<open>_compute_node_select\<close> knows; it ignores the others. The table has no
  \<^verbatim>\<open>hypervisor_hostname\<close> column. Only the read mode ``no'' hides deleted rows here.
\<close>

definition select_where :: "string \<Rightarrow> pydict \<Rightarrow> row \<Rightarrow> bool" where
  "select_where read_deleted filters r \<longleftrightarrow>
     (read_deleted = ''no'' \<longrightarrow> row_live r) \<and>
     (case dget filters ''compute_id'' of None \<Rightarrow> True | Some v \<Rightarrow> column_is ''id'' v r) \<and>
     (case dget filters ''service_id'' of None \<Rightarrow> True | Some v \<Rightarrow> column_is ''service_id'' v r) \<and>
     (case dget filters ''host'' of None \<Rightarrow> True | Some v \<Rightarrow> column_is ''host'' v r)"

definition select_rows :: "string \<Rightarrow> pydict \<Rightarrow> table \<Rightarrow> row list" where
  "select_rows rd filters t = sort_key int_id (filter (select_where rd filters) (rows t))"

definition compute_node_get :: "string \<Rightarrow> table \<Rightarrow> int \<Rightarrow> row result" where
  "compute_node_get rd t i =
     (case select_rows rd [(''compute_id'', PInt i)] t of
        [] \<Rightarrow> Inl (compute_host_not_found (string_of_int i)) | r # _ \<Rightarrow> Inr r)"

definition compute_node_select ::
  "string \<Rightarrow> pydict \<Rightarrow> nat option \<Rightarrow> int option \<Rightarrow> table \<Rightarrow> row list result" where
  "compute_node_select rd filters limit marker t =
     (if dhas filters ''hypervisor_hostname'' then Inl AttributeError
      else
        bind_r (case marker of
            None \<Rightarrow> Inr (select_rows rd filters t)
          | Some i \<Rightarrow>
              (case compute_node_get rd t i of
                 Inl (Nova c m) \<Rightarrow>
                   if is_a c ComputeHostNotFound
                   then Inl (Nova MarkerNotFound (''Marker '' @ string_of_int i @ '' could not be found.''))
                   else Inl (Nova c m)
               | Inl e \<Rightarrow> Inl e
               | Inr _ \<Rightarrow> Inr (filter (\<lambda>r. i < int_id r) (select_rows rd filters t))))
        (\<lambda>rs. Inr (case limit of None \<Rightarrow> rs | Some n \<Rightarrow> take n rs)))"

definition compute_node_get_model :: "string \<Rightarrow> table \<Rightarrow> int \<Rightarrow> row result" where
  "compute_node_get_model rd t i = first_by_id rd (compute_host_not_found (string_of_int i)) t i"

definition compute_nodes_get_by_service_id :: "string \<Rightarrow> table \<Rightarrow> int \<Rightarrow> row list result" where
  "compute_nodes_get_by_service_id rd t i =
     bind_r (compute_node_select rd [(''service_id'', PInt i)] None None t) (\<lambda>rs.
       if rs = [] then Inl (service_not_found i) else Inr rs)"

text \<open>The node type is passed as a filter the select does not know.\<close>

definition compute_node_get_by_host_and_nodename ::
  "string \<Rightarrow> table \<Rightarrow> string option \<Rightarrow> pyval \<Rightarrow> row result" where
  "compute_node_get_by_host_and_nodename rd t host compute_node_type =
     bind_r (compute_node_select rd
         [(''host'', host_value host), (''compute_node_type'', compute_node_type)] None None t) (\<lambda>rs.
       case rs of [] \<Rightarrow> Inl (compute_host_not_found (none_text host)) | r # _ \<Rightarrow> Inr r)"

definition compute_node_get_all_by_host :: "string \<Rightarrow> table \<Rightarrow> string option \<Rightarrow> row list result" where
  "compute_node_get_all_by_host rd t host =
     bind_r (compute_node_select rd [(''host'', host_value host)] None None t) (\<lambda>rs.
       if rs = [] then Inl (compute_host_not_found (none_text host)) else Inr rs)"

definition compute_node_get_all :: "string \<Rightarrow> table \<Rightarrow> row list result" where
  "compute_node_get_all rd t = compute_node_select rd [] None None t"

definition compute_node_get_all_by_pagination ::
  "string \<Rightarrow> table \<Rightarrow> nat option \<Rightarrow> int option \<Rightarrow> row list result" where
  "compute_node_get_all_by_pagination rd t limit marker = compute_node_select rd [] limit marker t"

text \<open>The model class has no such column.\<close>

definition compute_node_search_by_hypervisor :: "string \<Rightarrow> table \<Rightarrow> string \<Rightarrow> row list result" where
  "compute_node_search_by_hypervisor rd t hypervisor_match = Inl AttributeError"

section \<open>Writing nodes\<close>

definition node_unique :: "string list" where
  "node_unique = [''host'', ''deleted'']"

definition node_defaults :: "pyval \<Rightarrow> row" where
  "node_defaults now =
     [(''service_id'', PNone), (''host'', PNone), (''uuid'', PNone), (''compute_node_type'', PNone),
      (''compute_node_method'', PNone),
      (''created_at'', now), (''updated_at'', PNone), (''deleted_at'', PNone), (''deleted'', PInt 0)]"

text \<open>The column of the node type is not nullable.\<close>

definition typed_node :: "row \<Rightarrow> bool" where
  "typed_node r \<longleftrightarrow> dget r ''compute_node_type'' \<noteq> None \<and> dget r ''compute_node_type'' \<noteq> Some PNone"

definition compute_node_create ::
  "ovo_env \<Rightarrow> pyval \<Rightarrow> pydict \<Rightarrow> 'a sysdb_scheme \<Rightarrow> (row \<times> 'a sysdb_scheme) result" where
  "compute_node_create E now values db =
     bind_r (convert_objects_related_datetimes E values) (\<lambda>v.
     bind_r (table_insert node_unique (node_defaults now) v (nodes db)) (\<lambda>(r, t).
       if typed_node r then Inr (r, db\<lparr>nodes := t\<rparr>) else Inl (OtherError ''DBError'')))"

definition compute_node_update ::
  "ovo_env \<Rightarrow> string \<Rightarrow> pyval \<Rightarrow> int \<Rightarrow> pydict \<Rightarrow> 'a sysdb_scheme \<Rightarrow> (row \<times> 'a sysdb_scheme) result" where
  "compute_node_update E rd now i values db =
     bind_r (compute_node_get_model rd (nodes db) i) (\<lambda>_.
     bind_r (convert_objects_related_datetimes E (dset ''updated_at'' now values)) (\<lambda>v.
     bind_r (table_update node_unique rd (compute_host_not_found (string_of_int i)) now i v (nodes db)) (\<lambda>(r, t).
       if typed_node r then Inr (r, db\<lparr>nodes := t\<rparr>) else Inl (OtherError ''DBError''))))"

section \<open>Pages\<close>

lemma sorted_ids: "sorted (map int_id (select_rows rd fs t))"
  by (simp add: select_rows_def)

lemma has_id_int: "has_id i r \<Longrightarrow> int_id r = i"
  by (simp add: has_id_def int_id_def)

lemma distinct_int_ids:
  assumes "table_ok uniq t"
  shows "distinct (map int_id (select_rows rd fs t))"
proof -
  have "inj_on int_id (set (rows t))"
  proof (rule inj_onI)
    fix r s
    assume rs: "r \<in> set (rows t)" "s \<in> set (rows t)" "int_id r = int_id s"
    have "\<forall>r \<in> set (rows t). \<exists>i. row_id r = Some (PInt i)" using assms by (auto simp: table_ok_def)
    with rs obtain i j where "row_id r = Some (PInt i)" "row_id s = Some (PInt j)" by blast
    with rs(3) have "row_id r = row_id s" by (simp add: int_id_def)
    moreover have "inj_on row_id (set (rows t))" using assms by (simp add: table_ok_def distinct_map)
    ultimately show "r = s" using rs(1,2) by (simp add: inj_onD)
  qed
  moreover have "distinct (rows t)" using assms by (simp add: table_ok_def distinct_map)
  ultimately show ?thesis
    by (simp add: select_rows_def distinct_map) (metis (no_types, lifting) inj_on_subset mem_Collect_eq subsetI)
qed

text \<open>In a strictly sorted list, what lies beyond an element's key is what follows it.\<close>

lemma filter_beyond:
  fixes f :: "'b \<Rightarrow> 'c::linorder"
  assumes "sorted (map f xs)" "distinct (map f xs)" "j < length xs"
  shows "filter (\<lambda>x. f (xs ! j) < f x) xs = drop (Suc j) xs"
proof -
  have lt: "f (xs ! a) < f (xs ! b)" if "a < b" "b < length xs" for a b
  proof -
    have "sorted_wrt (<) (map f xs)" using assms(1,2) by (simp add: strict_sorted_iff)
    from sorted_wrt_nth_less [OF this that(1)] that show ?thesis by simp
  qed
  have "\<not> f (xs ! j) < f x" if "x \<in> set (take (Suc j) xs)" for x
  proof -
    from that obtain k where "k \<le> j" "x = xs ! k" by (auto simp: in_set_conv_nth less_Suc_eq_le)
    with lt [of k j] assms(3) show ?thesis by (cases "k = j") (auto dest: less_asym)
  qed
  then have "filter (\<lambda>x. f (xs ! j) < f x) (take (Suc j) xs) = []" by (simp add: filter_empty_conv)
  moreover have "filter (\<lambda>x. f (xs ! j) < f x) (drop (Suc j) xs) = drop (Suc j) xs"
    using lt by (auto simp: filter_id_conv in_set_conv_nth)
  ultimately show ?thesis by (metis append_Nil append_take_drop_id filter_append)
qed

text \<open>
  C36: pages of nodes. A page without a marker is the first nodes by id; the page whose
  marker is the id of the node at position \<open>j\<close> is the nodes after it. So a client that passes
  the last id it has seen visits every node exactly once and in order, whatever the size of
  the pages. A marker that names no visible node is refused.
\<close>

theorem compute_node_pages:
  assumes t: "table_ok uniq t" and all: "compute_node_get_all rd t = Inr ns"
  shows "compute_node_get_all_by_pagination rd t limit None =
           Inr (case limit of None \<Rightarrow> ns | Some n \<Rightarrow> take n ns) \<and>
         (\<forall>j < length ns. compute_node_get_all_by_pagination rd t limit (Some (int_id (ns ! j))) =
           Inr (case limit of None \<Rightarrow> drop (Suc j) ns | Some n \<Rightarrow> take n (drop (Suc j) ns))) \<and>
         (\<forall>i. i \<notin> int_id ` set ns \<longrightarrow>
           (\<exists>m. compute_node_get_all_by_pagination rd t limit (Some i) = Inl (Nova MarkerNotFound m)))"
proof (intro conjI allI impI)
  have ns: "ns = select_rows rd [] t"
    using all by (simp add: compute_node_get_all_def compute_node_select_def dhas_def)
  show "compute_node_get_all_by_pagination rd t limit None =
      Inr (case limit of None \<Rightarrow> ns | Some n \<Rightarrow> take n ns)"
    unfolding ns by (simp add: compute_node_get_all_by_pagination_def compute_node_select_def dhas_def)
  have col: "column_is ''id'' (PInt i) r \<longleftrightarrow> int_id r = i" if "r \<in> set (rows t)" for r i
  proof -
    have "\<forall>r \<in> set (rows t). \<exists>k. row_id r = Some (PInt k)" using t by (auto simp: table_ok_def)
    with that obtain k where "row_id r = Some (PInt k)" by blast
    then show ?thesis by (auto simp: column_is_def int_id_def row_id_def)
  qed
  have sel: "select_where rd [(''compute_id'', PInt i)] r \<longleftrightarrow> select_where rd [] r \<and> int_id r = i"
    if "r \<in> set (rows t)" for r i
    using col [OF that] by (auto simp: select_where_def)
  have get: "select_rows rd [(''compute_id'', PInt i)] t = [] \<longleftrightarrow> i \<notin> int_id ` set ns" for i
  proof -
    have "select_rows rd [(''compute_id'', PInt i)] t = [] \<longleftrightarrow>
        set (filter (select_where rd [(''compute_id'', PInt i)]) (rows t)) = {}"
      unfolding select_rows_def by (metis set_empty set_sort)
    also have "\<dots> \<longleftrightarrow> (\<forall>r \<in> set (rows t). select_where rd [] r \<longrightarrow> int_id r \<noteq> i)"
      using sel by auto
    also have "\<dots> \<longleftrightarrow> i \<notin> int_id ` set ns" by (auto simp: ns select_rows_def)
    finally show ?thesis .
  qed
  have page: "compute_node_get_all_by_pagination rd t limit (Some i) =
      (if i \<in> int_id ` set ns
       then Inr (case limit of None \<Rightarrow> filter (\<lambda>r. i < int_id r) ns
                 | Some n \<Rightarrow> take n (filter (\<lambda>r. i < int_id r) ns))
       else Inl (Nova MarkerNotFound (''Marker '' @ string_of_int i @ '' could not be found.'')))" for i
    using get [of i] unfolding ns
    by (auto simp: compute_node_get_all_by_pagination_def compute_node_select_def dhas_def
        compute_node_get_def compute_host_not_found_def is_a_def nova_mro_def numeral_eq_Suc
        split: list.splits)
  show "compute_node_get_all_by_pagination rd t limit (Some (int_id (ns ! j))) =
      Inr (case limit of None \<Rightarrow> drop (Suc j) ns | Some n \<Rightarrow> take n (drop (Suc j) ns))"
    if "j < length ns" for j
  proof -
    have "filter (\<lambda>r. int_id (ns ! j) < int_id r) ns = drop (Suc j) ns"
      using that filter_beyond [of int_id ns j] sorted_ids [of rd "[]" t] distinct_int_ids [OF t, of rd "[]"] ns
      by simp
    with that show ?thesis by (simp add: page cong: option.case_cong)
  qed
  show "\<exists>m. compute_node_get_all_by_pagination rd t limit (Some i) = Inl (Nova MarkerNotFound m)"
    if "i \<notin> int_id ` set ns" for i
    using that by (simp add: page)
qed

section \<open>The object\<close>

definition compute_node_fields :: schema where
  "compute_node_fields =
     [(''id'', (plain_field FInteger)\<lparr>read_only := True\<rparr>),
      (''uuid'', (plain_field FUUID)\<lparr>read_only := True\<rparr>),
      (''service_id'', (plain_field FInteger)\<lparr>nullable := True\<rparr>),
      (''host'', (plain_field FString)\<lparr>nullable := True\<rparr>),
      (''compute_node_type'', (plain_field FString)\<lparr>nullable := True\<rparr>),
      (''compute_node_method'', plain_field FString)] @ persistent_fields"

text \<open>A column that is copied unless it is null.\<close>

definition set_unless_none :: "ovo_env \<Rightarrow> row \<Rightarrow> string \<Rightarrow> vobj \<Rightarrow> vobj result" where
  "set_unless_none E r k o1 =
     bind_r (ditem r k) (\<lambda>v. if v = PNone then Inr o1 else obj_set E compute_node_fields k v o1)"

text \<open>
  \<^verbatim>\<open>_data_from_db_object\<close>. A row without a host takes it from its service, which is looked up
  with the context of the object; without a context that look-up fails. When the service is
  gone, the rest of the row is not read.
\<close>

definition data_from_db_object ::
  "ovo_env \<Rightarrow> string \<Rightarrow> svc_state \<Rightarrow> row \<Rightarrow> vobj \<Rightarrow> vobj result" where
  "data_from_db_object E rd s r o1 =
     (let set_host = (\<lambda>v. obj_set E compute_node_fields ''host'' v o1);
          rest = (\<lambda>o2. fold_r (set_unless_none E r)
                    [''compute_node_type'', ''compute_node_method'', ''id'', ''uuid''] o2);
          host = dget r ''host'';
          sid = dget r ''service_id''
      in if (host = None \<or> host = Some PNone) \<and> sid \<noteq> None \<and> sid \<noteq> Some PNone
         then (if \<not> has_context o1 then Inl AttributeError
               else case sid of
                   Some (PInt i) \<Rightarrow>
                     (case service_get_by_id rd s i of
                        Inl (Nova c m) \<Rightarrow>
                          if is_a c ServiceNotFound then set_host PNone else Inl (Nova c m)
                      | Inl e \<Rightarrow> Inl e
                      | Inr sv \<Rightarrow> bind_r (set_host (host_value (s_host (vals sv)))) rest)
                 | _ \<Rightarrow> Inl TypeError)
         else if host \<noteq> None \<and> host \<noteq> Some PNone then bind_r (set_host (the host)) rest
         else bind_r (set_host PNone) rest)"

definition node_from_db_object :: "ovo_env \<Rightarrow> string \<Rightarrow> svc_state \<Rightarrow> row \<Rightarrow> vobj \<Rightarrow> vobj result" where
  "node_from_db_object E rd s r o1 =
     bind_r (data_from_db_object E rd s r o1) (\<lambda>o2. Inr (obj_reset_changes [] o2))"

text \<open>The class methods build the object without a context; the wrapper sets it afterwards.\<close>

definition loaded_node :: "ovo_env \<Rightarrow> string \<Rightarrow> svc_state \<Rightarrow> row \<Rightarrow> vobj result" where
  "loaded_node E rd s r =
     bind_r (node_from_db_object E rd s r (new_vobj False)) (\<lambda>o1. Inr (o1\<lparr>has_context := True\<rparr>))"

definition ComputeNode_get_by_id :: "ovo_env \<Rightarrow> string \<Rightarrow> svc_state \<Rightarrow> int \<Rightarrow> vobj result" where
  "ComputeNode_get_by_id E rd s i = bind_r (compute_node_get rd (nodes s) i) (loaded_node E rd s)"

definition ComputeNode_get_by_service_id :: "ovo_env \<Rightarrow> string \<Rightarrow> svc_state \<Rightarrow> int \<Rightarrow> vobj result" where
  "ComputeNode_get_by_service_id E rd s i =
     bind_r (compute_nodes_get_by_service_id rd (nodes s) i) (\<lambda>rs. loaded_node E rd s (hd rs))"

definition ComputeNode_get_by_host_and_nodename ::
  "ovo_env \<Rightarrow> string \<Rightarrow> svc_state \<Rightarrow> string option \<Rightarrow> pyval \<Rightarrow> vobj result" where
  "ComputeNode_get_by_host_and_nodename E rd s host nodename =
     bind_r (compute_node_get_by_host_and_nodename rd (nodes s) host nodename) (loaded_node E rd s)"

text \<open>The items of a list are loaded without a context of their own.\<close>

definition node_list :: "ovo_env \<Rightarrow> string \<Rightarrow> svc_state \<Rightarrow> row list \<Rightarrow> vobj list result" where
  "node_list E rd s rs = map_r (\<lambda>r. node_from_db_object E rd s r (new_vobj False)) rs"

definition ComputeNodeList_get_all :: "ovo_env \<Rightarrow> string \<Rightarrow> svc_state \<Rightarrow> vobj list result" where
  "ComputeNodeList_get_all E rd s = bind_r (compute_node_get_all rd (nodes s)) (node_list E rd s)"

definition ComputeNodeList_get_by_pagination ::
  "ovo_env \<Rightarrow> string \<Rightarrow> svc_state \<Rightarrow> nat option \<Rightarrow> int option \<Rightarrow> vobj list result" where
  "ComputeNodeList_get_by_pagination E rd s limit marker =
     bind_r (compute_node_get_all_by_pagination rd (nodes s) limit marker) (node_list E rd s)"

definition ComputeNodeList_get_by_service ::
  "ovo_env \<Rightarrow> string \<Rightarrow> svc_state \<Rightarrow> int \<Rightarrow> vobj list result" where
  "ComputeNodeList_get_by_service E rd s i =
     (case compute_nodes_get_by_service_id rd (nodes s) i of
        Inl (Nova c m) \<Rightarrow> if is_a c ServiceNotFound then Inr [] else Inl (Nova c m)
      | Inl e \<Rightarrow> Inl e
      | Inr rs \<Rightarrow> node_list E rd s rs)"

definition ComputeNodeList_get_all_by_host ::
  "ovo_env \<Rightarrow> string \<Rightarrow> svc_state \<Rightarrow> string option \<Rightarrow> vobj list result" where
  "ComputeNodeList_get_all_by_host E rd s host =
     bind_r (compute_node_get_all_by_host rd (nodes s) host) (node_list E rd s)"

definition ComputeNode_create ::
  "ovo_env \<Rightarrow> string \<Rightarrow> pyval \<Rightarrow> string \<Rightarrow> vobj \<Rightarrow> svc_state \<Rightarrow> vobj result \<times> svc_state" where
  "ComputeNode_create E rd now uuid o1 s =
     (case create_values E compute_node_fields uuid o1 of
        Inl e \<Rightarrow> (Inl e, s)
      | Inr (updates, o2) \<Rightarrow>
          (case compute_node_create E now updates s of
             Inl e \<Rightarrow> (Inl e, s)
           | Inr (r, s') \<Rightarrow> (node_from_db_object E rd s' r o2, s')))"

definition ComputeNode_save ::
  "ovo_env \<Rightarrow> string \<Rightarrow> pyval \<Rightarrow> vobj \<Rightarrow> svc_state \<Rightarrow> vobj result \<times> svc_state" where
  "ComputeNode_save E rd now o1 s =
     (case save_values compute_node_fields o1 of
        Inl e \<Rightarrow> (Inl e, s)
      | Inr (updates, i) \<Rightarrow>
          (case compute_node_update E rd now i updates s of
             Inl e \<Rightarrow> (Inl e, s)
           | Inr (r, s') \<Rightarrow> (node_from_db_object E rd s' r o1, s')))"

definition ComputeNode_destroy ::
  "string \<Rightarrow> pyval \<Rightarrow> vobj \<Rightarrow> svc_state \<Rightarrow> unit result \<times> svc_state" where
  "ComputeNode_destroy rd now o1 s =
     (case remotable o1 (\<lambda>_. obj_get compute_node_fields ''id'' o1) of
        Inl e \<Rightarrow> (Inl e, s)
      | Inr v \<Rightarrow> (case v of PInt i \<Rightarrow> compute_node_delete rd now i s | _ \<Rightarrow> (Inl TypeError, s)))"

section \<open>What loading gives\<close>

lemma set_unless_none_context: "set_unless_none E r k o1 = Inr o2 \<Longrightarrow> has_context o2 = has_context o1"
  by (auto simp: set_unless_none_def result_simps split: if_splits dest: obj_set_context)

lemma node_from_db_context:
  assumes "node_from_db_object E rd s r o1 = Inr o2"
  shows "has_context o2 = has_context o1"
proof -
  from assms obtain o3 where "data_from_db_object E rd s r o1 = Inr o3" "o2 = obj_reset_changes [] o3"
    by (auto simp: node_from_db_object_def result_simps)
  moreover from this(1) have "has_context o3 = has_context o1"
    unfolding data_from_db_object_def Let_def
    by (simp only: result_simps split: if_splits option.splits pyval.splits sum.splits exn.splits)
      (auto simp: result_simps split: if_splits dest!: set_unless_none_context obj_set_context)
  ultimately show ?thesis by (simp add: obj_reset_changes_def)
qed

text \<open>
  The nodes of a list are orphans. Whatever list query returned them, saving or
  destroying one is refused and changes nothing; and a single row without a host makes the
  whole list fail, because its service cannot be looked up without a context.
\<close>

theorem listed_nodes_orphaned:
  "(node_list E rd s rs = Inr os \<longrightarrow> o1 \<in> set os \<longrightarrow>
      ComputeNode_save E rd now o1 s' = (Inl (Nova OrphanedObjectError []), s') \<and>
      ComputeNode_destroy rd now o1 s' = (Inl (Nova OrphanedObjectError []), s')) \<and>
   (r \<in> set rs \<longrightarrow> dget r ''host'' = Some PNone \<longrightarrow> dget r ''service_id'' = Some (PInt i) \<longrightarrow>
      isl (node_list E rd s rs))"
proof (intro conjI impI)
  assume l: "node_list E rd s rs = Inr os" "o1 \<in> set os"
  have "\<forall>o1 \<in> set os. \<not> has_context o1"
    using l(1)
  proof (induction rs arbitrary: os)
    case (Cons r rs)
    from Cons.prems obtain a as where "node_from_db_object E rd s r (new_vobj False) = Inr a"
      "node_list E rd s rs = Inr as" "os = a # as"
      by (auto simp: node_list_def result_simps)
    with Cons.IH node_from_db_context show ?case by (fastforce simp: new_vobj_def)
  qed (simp add: node_list_def)
  with l(2) have "\<not> has_context o1" by blast
  then show "ComputeNode_save E rd now o1 s' = (Inl (Nova OrphanedObjectError []), s')"
    "ComputeNode_destroy rd now o1 s' = (Inl (Nova OrphanedObjectError []), s')"
    by (simp_all add: ComputeNode_save_def ComputeNode_destroy_def save_values_def remotable_def)
next
  assume r: "r \<in> set rs" "dget r ''host'' = Some PNone" "dget r ''service_id'' = Some (PInt i)"
  then have bad: "node_from_db_object E rd s r (new_vobj False) = Inl AttributeError"
    by (simp add: node_from_db_object_def data_from_db_object_def new_vobj_def)
  from r(1) show "isl (node_list E rd s rs)"
  proof (induction rs)
    case (Cons a rs)
    then show ?case
      using bad by (cases "node_from_db_object E rd s a (new_vobj False)"; cases "node_list E rd s rs")
        (auto simp: node_list_def)
  qed simp
qed

section \<open>Samples\<close>

definition sample_node :: "int \<Rightarrow> pyval \<Rightarrow> row" where
  "sample_node i host =
     [(''id'', PInt i), (''service_id'', PInt 1), (''host'', host), (''uuid'', PNone),
      (''compute_node_type'', PStr ''vm''), (''compute_node_method'', PStr ''ssh''), (''deleted'', PInt 0)]"

definition sample_nodes :: table where
  "sample_nodes = \<lparr>rows = [sample_node 2 (PStr ''b''), sample_node 1 (PStr ''a'')], next_id = 3\<rparr>"

lemma sample_nodes_ok: "table_ok node_unique sample_nodes"
  by (simp add: table_ok_def sample_nodes_def sample_node_def row_id_def clashes_def node_unique_def
      less_Suc_eq nth_Cons split: nat.splits)

theorem compute_node_pages_witness:
  "compute_node_get_all_by_pagination ''no'' sample_nodes (Some 5) (Some 1) = Inr [sample_node 2 (PStr ''b'')]"
proof -
  let ?ns = "[sample_node 1 (PStr ''a''), sample_node 2 (PStr ''b'')]"
  have all: "compute_node_get_all ''no'' sample_nodes = Inr ?ns" by code_simp
  have "int_id (?ns ! 0) = 1" by code_simp
  then show ?thesis
    using compute_node_pages [OF sample_nodes_ok all, of "Some 5"] by (auto dest!: spec [of _ 0])
qed

theorem listed_nodes_orphaned_witness:
  "\<exists>o1. node_list sample_ovo ''no'' sample_state [sample_node 1 (PStr ''a'')] = Inr [o1] \<and>
     ComputeNode_save sample_ovo ''no'' PNone o1 sample_state = (Inl (Nova OrphanedObjectError []), sample_state) \<and>
     isl (node_list sample_ovo ''no'' sample_state [sample_node 2 PNone])"
proof -
  have "\<not> isl (node_list sample_ovo ''no'' sample_state [sample_node 1 (PStr ''a'')])" by code_simp
  then obtain os where os: "node_list sample_ovo ''no'' sample_state [sample_node 1 (PStr ''a'')] = Inr os"
    by (metis sum.collapse(2))
  then have "length os = 1" unfolding node_list_def by (metis length_Cons list.size(3) map_r_length One_nat_def)
  with os obtain o1 where o1: "node_list sample_ovo ''no'' sample_state [sample_node 1 (PStr ''a'')] = Inr [o1]"
    by (auto simp: length_Suc_conv)
  have "sample_node 2 PNone \<in> set [sample_node 2 PNone]" "dget (sample_node 2 PNone) ''host'' = Some PNone"
    "dget (sample_node 2 PNone) ''service_id'' = Some (PInt 1)"
    by (simp_all add: sample_node_def)
  with o1 show ?thesis
    using listed_nodes_orphaned [of sample_ovo "''no''" sample_state "[sample_node 1 (PStr ''a'')]" "[o1]" o1 PNone sample_state]
      listed_nodes_orphaned [of sample_ovo "''no''" sample_state "[sample_node 2 PNone]" "[]" o1 PNone sample_state "sample_node 2 PNone" 1]
    by auto
qed

end
