(* ===== verification/Utils.thy ===== *)
theory Utils
  imports PyStr Utf8 "HOL-Library.Multiset"
begin

text \<open>
  Helpers of \<^verbatim>\<open>nova/utils.py\<close>: generated passwords, host names, resource metadata and its
  filters, image metadata kept with an instance, the undo manager and argument checks.
\<close>

section \<open>Passwords\<close>

text \<open>
  \<open>pick\<close> is \<^verbatim>\<open>r.choice\<close>, told apart by the number of the call, \<open>shuffle1\<close> and \<open>shuffle2\<close>
  the two shuffles. \<open>p[:n]\<close> with a negative \<open>n\<close> leaves out the end.
\<close>

definition slice_to :: "int \<Rightarrow> 'a list \<Rightarrow> 'a list" where
  "slice_to n xs = take (nat (if n < 0 then int (length xs) + n else n)) xs"

definition generate_password ::
  "(nat \<Rightarrow> string \<Rightarrow> char) \<Rightarrow> (string \<Rightarrow> string) \<Rightarrow> (string \<Rightarrow> string) \<Rightarrow> int \<Rightarrow> int option \<Rightarrow>
   string list \<Rightarrow> string result" where
  "generate_password pick shuffle1 shuffle2 configured len symbolgroups =
     (let len = (case len of None \<Rightarrow> configured | Some n \<Rightarrow> n);
          n = length symbolgroups
      in if \<exists>s \<in> set symbolgroups. s = [] then Inl IndexError
         else
           (let password = slice_to len (shuffle1 (map (\<lambda>i. pick i (symbolgroups ! i)) [0..<n]));
                missing = nat (len - int (length password));
                symbols = concat symbolgroups
            in if 0 < missing \<and> symbols = [] then Inl IndexError
               else Inr (shuffle2 (password @ map (\<lambda>i. pick (n + i) symbols) [0..<missing]))))"

section \<open>Host names\<close>

definition word_char :: "char \<Rightarrow> bool" where
  "word_char c \<longleftrightarrow> is_digit c \<or> is_upper c \<or> (let n = (of_char c :: nat) in 97 \<le> n \<and> n \<le> 122) \<or> c = CHR ''_''"

definition truncate_hostname :: "string \<Rightarrow> string" where
  "truncate_hostname name = take 63 name"

definition end_mark :: "char \<Rightarrow> bool" where
  "end_mark c \<longleftrightarrow> c = CHR ''.'' \<or> c = CHR ''-''"

definition sanitize_hostname :: "string \<Rightarrow> string option \<Rightarrow> string" where
  "sanitize_hostname hostname default_name =
     (let h1 = truncate_hostname hostname;
          h2 = map (\<lambda>c. if c = CHR '' '' \<or> c = CHR ''_'' then CHR ''-'' else c) h1;
          h3 = filter (\<lambda>c. word_char c \<or> end_mark c) h2;
          h4 = strip_by end_mark (lower h3)
      in case default_name of
           Some d \<Rightarrow> if h4 = [] then truncate_hostname d else h4
         | None \<Rightarrow> h4)"

section \<open>Metadata\<close>

text \<open>Rows of key, value and whether the row is deleted; later rows win.\<close>

definition metadata_to_dict :: "(string \<times> 'v \<times> bool) list \<Rightarrow> bool \<Rightarrow> (string \<times> 'v) list" where
  "metadata_to_dict metadata include_deleted =
     fold (\<lambda>(k, v, deleted) d. if \<not> include_deleted \<and> deleted then d else dset k v d) metadata []"

definition dict_to_metadata :: "(string \<times> 'v) list \<Rightarrow> (string \<times> 'v \<times> bool) list" where
  "dict_to_metadata d = map (\<lambda>(k, v). (k, v, False)) d"

text \<open>
  A filter block: resource ids, and patterns for keys and values, one or a list.
  \<open>rmatch\<close> is \<^verbatim>\<open>re.match\<close>.
\<close>

datatype patterns = One string | Many "string list"

record search_filt =
  f_ids :: "string list"
  f_keys :: patterns
  f_values :: patterns

fun has_patterns :: "patterns \<Rightarrow> bool" where
  "has_patterns (One p) = (p \<noteq> [])"
| "has_patterns (Many ps) = (ps \<noteq> [])"

fun match_any :: "(string \<Rightarrow> string \<Rightarrow> bool) \<Rightarrow> patterns \<Rightarrow> string \<Rightarrow> bool" where
  "match_any rmatch (One p) s = rmatch p s"
| "match_any rmatch (Many ps) s = (\<exists>p \<in> set ps. rmatch p s)"

definition filter_metadata ::
  "(string \<Rightarrow> string \<Rightarrow> bool) \<Rightarrow> string \<Rightarrow> search_filt \<Rightarrow> (string \<times> string) list \<Rightarrow> (string \<times> string) list" where
  "filter_metadata rmatch rid f input =
     (if f_ids f \<noteq> [] \<and> rid \<notin> set (f_ids f) then []
      else fold (\<lambda>(k, v) out.
             if has_patterns (f_keys f) \<and> has_patterns (f_values f) \<and>
                \<not> match_any rmatch (f_keys f) k \<and> \<not> match_any rmatch (f_values f) v then out
             else if has_patterns (f_keys f) \<and> \<not> match_any rmatch (f_keys f) k \<or>
                     has_patterns (f_values f) \<and> \<not> match_any rmatch (f_values f) v then out
             else dset k v out) input [])"

record resource_md =
  r_uuid :: string
  r_metadata :: "(string \<times> string) list"

text \<open>
  For any resource type but \<open>instance\<close> the metadata variable is never bound. The dictionary
  of an instance is \<^verbatim>\<open>metadata\<close> or the one \<^verbatim>\<open>metadata_type\<close> names; \<open>r_metadata\<close> stands for it.
\<close>

definition filter_and_format_resource_metadata ::
  "(string \<Rightarrow> string \<Rightarrow> bool) \<Rightarrow> string \<Rightarrow> resource_md list \<Rightarrow> search_filt list \<Rightarrow>
   (string \<times> string \<times> string) list result" where
  "filter_and_format_resource_metadata rmatch resource_type resources filts =
     (if resource_type \<noteq> ''instance''
      then (if resources = [] then Inr [] else Inl (OtherError ''UnboundLocalError''))
      else Inr (concat (map (\<lambda>r. map (\<lambda>(k, v). (k, v, r_uuid r))
             (fold (filter_metadata rmatch (r_uuid r)) filts (r_metadata r))) resources)))"

section \<open>Undoing\<close>

text \<open>The functions recorded with \<^verbatim>\<open>undo_with\<close>, and the rollback that runs them backwards.\<close>

definition undo_with :: "('s \<Rightarrow> 's) \<Rightarrow> ('s \<Rightarrow> 's) list \<Rightarrow> ('s \<Rightarrow> 's) list" where
  "undo_with f stack = stack @ [f]"

definition undo_rollback :: "('s \<Rightarrow> 's) list \<Rightarrow> 's \<Rightarrow> 's" where
  "undo_rollback stack s = fold (\<lambda>f. f) (rev stack) s"

section \<open>Checking arguments\<close>

definition validate_integer :: "string \<Rightarrow> int option \<Rightarrow> int option \<Rightarrow> string \<Rightarrow> int result" where
  "validate_integer v min_value max_value name =
     (case int_of_string v of
        None \<Rightarrow> Inl (Nova InvalidInput (name @ '' must be an integer''))
      | Some n \<Rightarrow>
          (case min_value of
             Some lo \<Rightarrow>
               if n < lo then Inl (Nova InvalidInput (name @ '' must be >= '' @ string_of_int lo))
               else (case max_value of
                  Some hi \<Rightarrow> if n > hi then Inl (Nova InvalidInput (name @ '' must be <= '' @ string_of_int hi))
                             else Inr n
                | None \<Rightarrow> Inr n)
           | None \<Rightarrow>
               (case max_value of
                  Some hi \<Rightarrow> if n > hi then Inl (Nova InvalidInput (name @ '' must be <= '' @ string_of_int hi))
                             else Inr n
                | None \<Rightarrow> Inr n)))"

definition check_string_length :: "pyval \<Rightarrow> string option \<Rightarrow> nat \<Rightarrow> nat option \<Rightarrow> unit result" where
  "check_string_length v name min_length max_length =
     (case v of
        PStr s \<Rightarrow>
          (let n = (case name of None \<Rightarrow> s | Some x \<Rightarrow> x) in
           if length s < min_length
           then Inl (Nova InvalidInput (n @ '' has a minimum character requirement of '' @ string_of_nat min_length @ ''.''))
           else (case max_length of
               Some m \<Rightarrow> if m \<noteq> 0 \<and> length s > m
                 then Inl (Nova InvalidInput (n @ '' has more than '' @ string_of_nat m @ '' characters.''))
                 else Inr ()
             | None \<Rightarrow> Inr ()))
      | _ \<Rightarrow> Inl (Nova InvalidInput (case name of
            None \<Rightarrow> ''The input is not a string or unicode''
          | Some x \<Rightarrow> x @ '' is not a string or unicode'')))"

definition is_none_string :: "pyval \<Rightarrow> bool" where
  "is_none_string v = (case v of PStr s \<Rightarrow> lower s = ''none'' | _ \<Rightarrow> False)"

definition is_auto_disk_config_disabled :: "string option \<Rightarrow> bool" where
  "is_auto_disk_config_disabled raw =
     (case raw of None \<Rightarrow> False | Some s \<Rightarrow> lower (strip_by is_space s) = ''disabled'')"

text \<open>\<^verbatim>\<open>validate_args\<close>: the required arguments that neither a position nor a keyword supplies.\<close>

definition validate_args ::
  "string list \<Rightarrow> nat \<Rightarrow> bool \<Rightarrow> nat \<Rightarrow> string list \<Rightarrow> string list result" where
  "validate_args arg_names num_defaults is_method num_args kwargs =
     (let required = take (length arg_names - num_defaults) arg_names
      in if is_method \<and> required = [] then Inl IndexError
         else Inr (drop num_args (filter (\<lambda>a. a \<notin> set kwargs)
                (if is_method then tl required else required))))"

section \<open>What the helpers guarantee\<close>

text \<open>
  A generated password. When every group has a symbol and the length is at least the
  number of groups, the password has exactly that length, consists of the groups' symbols,
  and has at least one of every group, whatever the random choices and shuffles are.
\<close>

theorem generate_password_strong:
  assumes "\<And>i s. s \<noteq> [] \<Longrightarrow> pick i s \<in> set s"
    and perm: "\<And>s. mset (shuffle1 s) = mset s" "\<And>s. mset (shuffle2 s) = mset s"
    and groups: "[] \<notin> set symbolgroups" and len: "int (length symbolgroups) \<le> n" "0 < n" "symbolgroups \<noteq> []"
  shows "\<exists>pw. generate_password pick shuffle1 shuffle2 c (Some n) symbolgroups = Inr pw \<and>
    int (length pw) = n \<and> set pw \<subseteq> set (concat symbolgroups) \<and>
    (\<forall>g \<in> set symbolgroups. \<exists>x \<in> set pw. x \<in> set g)"
proof -
  let ?k = "length symbolgroups"
  let ?init = "map (\<lambda>i. pick i (symbolgroups ! i)) [0..<?k]"
  let ?symbols = "concat symbolgroups"
  let ?fill = "map (\<lambda>i. pick (?k + i) ?symbols) [0..<nat (n - int ?k)]"
  have set_perm: "set (shuffle1 s) = set s" "set (shuffle2 s) = set s" "length (shuffle1 s) = length s"
    "length (shuffle2 s) = length s" for s
    using perm by (metis set_mset_mset, metis set_mset_mset, metis size_mset, metis size_mset)
  have cut: "slice_to n (shuffle1 ?init) = shuffle1 ?init"
    using len by (simp add: slice_to_def set_perm)
  have sym: "?symbols \<noteq> []" using groups len(3) by (cases symbolgroups) auto
  let ?pw = "shuffle2 (shuffle1 ?init @ ?fill)"
  have "generate_password pick shuffle1 shuffle2 c (Some n) symbolgroups = Inr ?pw"
    using groups sym by (auto simp: generate_password_def Let_def cut set_perm(3))
  moreover have "int (length ?pw) = n" using len by (simp add: set_perm)
  moreover have "set ?pw \<subseteq> set ?symbols"
  proof -
    have "set ?fill \<subseteq> set ?symbols" using assms(1) [OF sym] by (auto simp del: set_concat)
    moreover have "pick i (symbolgroups ! i) \<in> set ?symbols" if "i < ?k" for i
      using assms(1) groups nth_mem [OF that] by (metis UN_I set_concat)
    ultimately show ?thesis by (auto simp: set_perm simp del: set_concat)
  qed
  moreover have "\<exists>x \<in> set ?pw. x \<in> set g" if g: "g \<in> set symbolgroups" for g
  proof -
    from g obtain i where i: "i < ?k" "symbolgroups ! i = g" by (auto simp: in_set_conv_nth)
    then have "pick i g \<in> set ?pw" by (auto simp: set_perm image_iff)
    moreover have "pick i g \<in> set g" using assms(1) groups g by metis
    ultimately show ?thesis by blast
  qed
  ultimately show ?thesis by blast
qed

text \<open>The pieces of a sanitized name.\<close>

definition name_char :: "char \<Rightarrow> bool" where
  "name_char c \<longleftrightarrow> (word_char c \<and> \<not> is_upper c \<and> c \<noteq> CHR ''_'') \<or> end_mark c"

lemma lower_name_char: "c \<noteq> CHR ''_'' \<Longrightarrow> c \<noteq> CHR '' '' \<Longrightarrow> word_char c \<or> end_mark c \<Longrightarrow> name_char (lower_char c)"
proof -
  assume c: "c \<noteq> CHR ''_''" "word_char c \<or> end_mark c"
  show ?thesis
  proof (cases "is_upper c")
    case True
    then have n: "65 \<le> (of_char c :: nat)" "(of_char c :: nat) \<le> 90" by (auto simp: is_upper_def Let_def)
    have l: "(of_char (lower_char c) :: nat) = of_char c + 32"
      using n by (simp add: lower_char_def True of_char_of)
    have "lower_char c \<noteq> CHR ''_''" using l n by (auto dest: arg_cong [of _ _ "of_char :: char \<Rightarrow> nat"])
    then show ?thesis using l n by (simp add: name_char_def word_char_def is_upper_def Let_def)
  next
    case False
    with c show ?thesis by (auto simp: name_char_def lower_char_def)
  qed
qed

lemma name_char_kept:
  assumes "name_char c"
  shows "word_char c \<or> end_mark c" "c \<noteq> CHR '' ''" "c \<noteq> CHR ''_''" "lower_char c = c"
  using assms by (auto simp: name_char_def word_char_def end_mark_def is_digit_def is_upper_def lower_char_def Let_def)

lemma set_strip_by: "set (strip_by p s) \<subseteq> set s"
  by (auto simp: strip_by_def dest!: set_dropWhileD)

lemma length_strip_by: "length (strip_by p s) \<le> length s"
proof -
  have "length (dropWhile p xs) \<le> length xs" for xs by (induction xs) auto
  from this [of "rev (dropWhile p s)"] this [of s] show ?thesis by (simp add: strip_by_def)
qed

lemma strip_by_clean:
  "s = [] \<or> (\<not> p (hd s) \<and> \<not> p (last s)) \<Longrightarrow> strip_by p s = s"
proof (cases s rule: rev_cases)
  case (snoc ys y)
  assume "s = [] \<or> (\<not> p (hd s) \<and> \<not> p (last s))"
  with snoc have h: "\<not> p (hd s)" "\<not> p y" by auto
  have "s \<noteq> []" using snoc by simp
  with h(1) have "dropWhile p s = s" by (metis dropWhile.simps(2) list.collapse)
  with h(2) snoc show ?thesis by (simp add: strip_by_def)
qed (simp add: strip_by_def)

definition clean_name :: "string \<Rightarrow> bool" where
  "clean_name s \<longleftrightarrow> list_all name_char s \<and> length s \<le> 63 \<and>
     (s = [] \<or> (\<not> end_mark (hd s) \<and> \<not> end_mark (last s)))"

lemma sanitize_clean: "clean_name s \<Longrightarrow> sanitize_hostname s None = s"
proof -
  assume s: "clean_name s"
  then have k: "c \<noteq> CHR '' '' \<and> c \<noteq> CHR ''_'' \<and> (word_char c \<or> end_mark c) \<and> lower_char c = c" if "c \<in> set s" for c
    using name_char_kept that by (auto simp: clean_name_def list_all_iff)
  have "map (\<lambda>c. if c = CHR '' '' \<or> c = CHR ''_'' then CHR ''-'' else c) s = s"
    using k by (simp add: map_idI)
  moreover have "filter (\<lambda>c. word_char c \<or> end_mark c) s = s" using k by (simp add: filter_id_conv)
  moreover have "lower s = s" using k by (simp add: lower_def map_idI)
  ultimately show ?thesis
    using s strip_by_clean [of s end_mark] by (simp add: sanitize_hostname_def truncate_hostname_def clean_name_def)
qed

text \<open>
  Host names. Whatever the input, the sanitized name has at most 63 characters, all of
  them lower-case letters, digits, dots and dashes (or characters a host name passes
  unchanged), and neither starts nor ends with a dot or a dash; sanitizing it again changes
  nothing. When nothing is left the default is used as it is.
\<close>

theorem sanitize_hostname_clean:
  "clean_name (sanitize_hostname hostname None) \<and>
   sanitize_hostname (sanitize_hostname hostname None) None = sanitize_hostname hostname None \<and>
   sanitize_hostname hostname (Some d) =
     (if sanitize_hostname hostname None = [] then take 63 d else sanitize_hostname hostname None)"
proof -
  define h3 where "h3 = filter (\<lambda>c. word_char c \<or> end_mark c)
      (map (\<lambda>c. if c = CHR '' '' \<or> c = CHR ''_'' then CHR ''-'' else c) (take 63 hostname))"
  have run: "sanitize_hostname hostname None = strip_by end_mark (lower h3)"
    by (simp add: sanitize_hostname_def truncate_hostname_def h3_def Let_def)
  have "name_char c" if "c \<in> set (lower h3)" for c
    using that by (auto simp: lower_def h3_def intro!: lower_name_char split: if_splits)
  then have "list_all name_char (strip_by end_mark (lower h3))"
    using set_strip_by [of end_mark "lower h3"] by (auto simp: list_all_iff)
  moreover have "length (strip_by end_mark (lower h3)) \<le> 63"
  proof -
    have "length (lower h3) \<le> 63"
      unfolding lower_def h3_def by (simp add: le_trans [OF length_filter_le])
    with length_strip_by [of end_mark "lower h3"] show ?thesis by simp
  qed
  ultimately have "clean_name (sanitize_hostname hostname None)"
    using strip_by_ends [of end_mark "lower h3"] by (auto simp: clean_name_def run)
  with sanitize_clean show ?thesis
    by (simp add: sanitize_hostname_def truncate_hostname_def Let_def)
qed

text \<open>A dictionary filtered on its pairs is filtered as a list.\<close>

lemma fold_filter_dset:
  assumes "dict_ok (out @ d)"
  shows "fold (\<lambda>(k, v) out. if P k v then dset k v out else out) d out = out @ filter (\<lambda>(k, v). P k v) d"
  using assms by (induction d arbitrary: out) (auto simp: dset_new)

definition filter_accepts :: "(string \<Rightarrow> string \<Rightarrow> bool) \<Rightarrow> string \<Rightarrow> search_filt \<Rightarrow> string \<times> string \<Rightarrow> bool" where
  "filter_accepts rmatch rid f kv \<longleftrightarrow>
     (f_ids f = [] \<or> rid \<in> set (f_ids f)) \<and>
     (has_patterns (f_keys f) \<longrightarrow> match_any rmatch (f_keys f) (fst kv)) \<and>
     (has_patterns (f_values f) \<longrightarrow> match_any rmatch (f_values f) (snd kv))"

lemma filter_metadata_eq:
  assumes "dict_ok d"
  shows "filter_metadata rmatch rid f d = filter (filter_accepts rmatch rid f) d"
proof (cases "f_ids f \<noteq> [] \<and> rid \<notin> set (f_ids f)")
  case True
  then have "filter (filter_accepts rmatch rid f) d = []" by (simp add: filter_empty_conv filter_accepts_def)
  with True show ?thesis by (simp add: filter_metadata_def)
next
  case False
  let ?P = "\<lambda>k v. filter_accepts rmatch rid f (k, v)"
  have step: "(\<lambda>(k, v) out.
             if has_patterns (f_keys f) \<and> has_patterns (f_values f) \<and>
                \<not> match_any rmatch (f_keys f) k \<and> \<not> match_any rmatch (f_values f) v then out
             else if has_patterns (f_keys f) \<and> \<not> match_any rmatch (f_keys f) k \<or>
                     has_patterns (f_values f) \<and> \<not> match_any rmatch (f_values f) v then out
             else dset k v out) = (\<lambda>(k, v) out. if ?P k v then dset k v out else out)"
    using False by (intro ext) (auto simp: filter_accepts_def)
  have "filter (\<lambda>(k, v). ?P k v) d = filter (filter_accepts rmatch rid f) d"
    by (rule filter_cong) auto
  with fold_filter_dset [of "[]" d ?P] assms False show ?thesis
    unfolding filter_metadata_def step by auto
qed

text \<open>
  Metadata filters. The code's two-branch test, chained over the filter blocks, lists
  exactly the pairs of every resource that satisfy every block: the resource is among its
  ids if it gives any, some key pattern matches the key if it gives any, and some value
  pattern the value.
\<close>

theorem metadata_filters_conjoin:
  assumes "\<And>r. r \<in> set resources \<Longrightarrow> dict_ok (r_metadata r)"
  shows "filter_and_format_resource_metadata rmatch ''instance'' resources filts =
    Inr (concat (map (\<lambda>r. map (\<lambda>(k, v). (k, v, r_uuid r))
      (filter (\<lambda>kv. \<forall>f \<in> set filts. filter_accepts rmatch (r_uuid r) f kv) (r_metadata r))) resources))"
proof -
  have "fold (filter_metadata rmatch rid) fs d = filter (\<lambda>kv. \<forall>f \<in> set fs. filter_accepts rmatch rid f kv) d"
    if "dict_ok d" for rid fs d
    using that
  proof (induction fs arbitrary: d)
    case (Cons f fs)
    have "dict_ok (filter (filter_accepts rmatch rid f) d)"
      using Cons.prems by (simp add: distinct_map inj_on_def)
    with Cons show ?case by (simp add: filter_metadata_eq conj_commute)
  qed simp
  then show ?thesis using assms by (simp add: filter_and_format_resource_metadata_def cong: map_cong)
qed

text \<open>
  Undoing: if every recorded function undoes its action on the states the actions pass
  through, a rollback after any number of actions restores the state before the first.
\<close>

fun perform :: "(('s \<Rightarrow> 's) \<times> ('s \<Rightarrow> 's)) list \<Rightarrow> 's \<Rightarrow> ('s \<Rightarrow> 's) list \<Rightarrow> 's \<times> ('s \<Rightarrow> 's) list" where
  "perform [] s stack = (s, stack)"
| "perform ((act, undo) # as) s stack = perform as (act s) (undo_with undo stack)"

lemma undo_restores:
  assumes "\<And>act undo s. (act, undo) \<in> set as \<Longrightarrow> undo (act s) = s"
  shows "perform as s stack = (s', stack') \<Longrightarrow> undo_rollback stack' s' = undo_rollback stack s"
  using assms
proof (induction as s stack rule: perform.induct)
  case (2 act undo as s stack)
  from 2 have "undo_rollback stack' s' = undo_rollback (undo_with undo stack) (act s)"
    by (metis list.set_intros(2) perform.simps(2))
  also have "\<dots> = undo_rollback stack s"
    using 2(3) [of act undo s] by (simp add: undo_rollback_def undo_with_def)
  finally show ?case .
qed simp

section \<open>Image metadata\<close>

text \<open>
  An image's attributes and its properties, and the instance's system metadata made from
  them. \<open>None\<close> is an attribute that is absent. A property is cut to 255 bytes.
\<close>

definition SM_IMAGE_PROP_PREFIX :: string where
  "SM_IMAGE_PROP_PREFIX = ''image_''"

definition SM_INHERITABLE_KEYS :: "string list" where
  "SM_INHERITABLE_KEYS = [''min_ram'', ''min_disk'', ''disk_format'', ''container_format'']"

definition SM_SKIP_KEYS :: "string list" where
  "SM_SKIP_KEYS = [''mappings'', ''block_device_mapping'', ''img_mappings'', ''img_block_device_mapping'']"

definition truncate_string :: "string \<Rightarrow> nat \<Rightarrow> string" where
  "truncate_string s n = take (length (safe_truncate (map of_char s) n)) s"

record image =
  i_attrs :: "(string \<times> pyval) list"
  i_properties :: "(string \<times> string) list"

text \<open>\<open>root_gb\<close> is the flavour's disk, if a flavour is given.
  Python 2's \<^verbatim>\<open>max\<close> orders a number before everything else.\<close>

definition inherited_value :: "image \<Rightarrow> int option \<Rightarrow> string \<Rightarrow> pyval" where
  "inherited_value img root_gb key =
     (let v = (case dget (i_attrs img) key of None \<Rightarrow> PNone | Some x \<Rightarrow> x) in
      case root_gb of
        None \<Rightarrow> v
      | Some g \<Rightarrow>
          if key = ''min_disk'' then
            (if dget (i_attrs img) ''disk_format'' = Some (PStr ''vhd'') then PInt g
             else if \<not> truthy v then PInt (max 0 g)
             else (case v of PInt n \<Rightarrow> PInt (max n g) | PBool b \<Rightarrow> if 1 < g then PInt g else v | _ \<Rightarrow> v))
          else v)"

definition get_system_metadata_from_image :: "image \<Rightarrow> int option \<Rightarrow> (string \<times> pyval) list" where
  "get_system_metadata_from_image img root_gb =
     (let props = fold (\<lambda>(k, v) d. if k \<in> set SM_SKIP_KEYS then d
                          else dset (SM_IMAGE_PROP_PREFIX @ k) (PStr (truncate_string v 255)) d)
                    (i_properties img) []
      in fold (\<lambda>k d. if inherited_value img root_gb k = PNone then d
                 else dset (SM_IMAGE_PROP_PREFIX @ k) (inherited_value img root_gb k) d)
           SM_INHERITABLE_KEYS props)"

definition image_key :: "string \<Rightarrow> string" where
  "image_key k = (if starts_with SM_IMAGE_PROP_PREFIX k then drop (length SM_IMAGE_PROP_PREFIX) k else k)"

text \<open>The attributes and the properties that are read back.\<close>

definition get_image_from_system_metadata ::
  "(string \<times> pyval) list \<Rightarrow> (string \<times> pyval) list \<times> (string \<times> pyval) list" where
  "get_image_from_system_metadata system_meta =
     fold (\<lambda>(key, v) (attrs, props).
        let k = image_key key in
        if v = PNone then (attrs, props)
        else if k \<in> set SM_SKIP_KEYS then (attrs, props)
        else if k \<in> set SM_INHERITABLE_KEYS then (dset k v attrs, props)
        else (attrs, dset k v props)) system_meta ([], [])"

lemma image_key_prefix [simp]: "image_key (SM_IMAGE_PROP_PREFIX @ k) = k"
  by (simp add: image_key_def starts_with_iff)

lemma read_back:
  assumes "dict_ok d" "\<forall>key \<in> fst ` set d. \<exists>k. key = SM_IMAGE_PROP_PREFIX @ k"
  defines "F \<equiv> \<lambda>(key, v) (attrs, props).
        let k = image_key key in
        if v = PNone then (attrs, props)
        else if k \<in> set SM_SKIP_KEYS then (attrs, props)
        else if k \<in> set SM_INHERITABLE_KEYS then (dset k v attrs, props)
        else (attrs, dset k v props)"
  shows "dget (fst (fold F d (a, p))) k =
      (case dget d (SM_IMAGE_PROP_PREFIX @ k) of
         Some v \<Rightarrow> if v \<noteq> PNone \<and> k \<notin> set SM_SKIP_KEYS \<and> k \<in> set SM_INHERITABLE_KEYS then Some v else dget a k
       | None \<Rightarrow> dget a k) \<and>
    dget (snd (fold F d (a, p))) k =
      (case dget d (SM_IMAGE_PROP_PREFIX @ k) of
         Some v \<Rightarrow> if v \<noteq> PNone \<and> k \<notin> set SM_SKIP_KEYS \<and> k \<notin> set SM_INHERITABLE_KEYS then Some v else dget p k
       | None \<Rightarrow> dget p k)"
  using assms(1,2)
proof (induction d arbitrary: a p)
  case (Cons kv d)
  obtain key v where kv: "kv = (key, v)" by (cases kv)
  with Cons.prems obtain j where j: "key = SM_IMAGE_PROP_PREFIX @ j" by auto
  obtain a1 p1 where F1: "F (key, v) (a, p) = (a1, p1)" by fastforce
  have a1: "dget a1 k = (if v \<noteq> PNone \<and> j \<notin> set SM_SKIP_KEYS \<and> j \<in> set SM_INHERITABLE_KEYS \<and> k = j then Some v else dget a k)"
    "dget p1 k = (if v \<noteq> PNone \<and> j \<notin> set SM_SKIP_KEYS \<and> j \<notin> set SM_INHERITABLE_KEYS \<and> k = j then Some v else dget p k)"
    using F1 by (auto simp: F_def j Let_def split: if_splits)
  have fresh: "k = j \<Longrightarrow> dget d (SM_IMAGE_PROP_PREFIX @ k) = None"
    using Cons.prems by (auto simp: kv j map_of_eq_None_iff)
  have run: "fold F (kv # d) (a, p) = fold F d (a1, p1)" by (simp add: kv F1)
  have look: "dget (kv # d) (SM_IMAGE_PROP_PREFIX @ k) = (if k = j then Some v else dget d (SM_IMAGE_PROP_PREFIX @ k))"
    by (simp add: kv j)
  have d: "dict_ok d" "\<forall>key \<in> fst ` set d. \<exists>k. key = SM_IMAGE_PROP_PREFIX @ k"
    using Cons.prems by (auto simp: kv)
  note ih = Cons.IH [OF d, of a1 p1]
  show ?case
  proof (cases "k = j")
    case True
    with ih fresh have "dget (fst (fold F d (a1, p1))) k = dget a1 k" "dget (snd (fold F d (a1, p1))) k = dget p1 k"
      by (simp_all only: option.case)
    with True a1 show ?thesis unfolding run look by auto
  next
    case False
    with ih show ?thesis unfolding run look a1 by (simp only: False if_False simp_thms)
  qed
qed simp

lemma system_metadata_props:
  "dict_ok ps \<Longrightarrow>
   (\<forall>k. dget (fold (\<lambda>(k, v) d. if k \<in> set SM_SKIP_KEYS then d
       else dset (SM_IMAGE_PROP_PREFIX @ k) (PStr (truncate_string v 255)) d) ps d) (SM_IMAGE_PROP_PREFIX @ k) =
     (case dget ps k of Some v \<Rightarrow> if k \<in> set SM_SKIP_KEYS then dget d (SM_IMAGE_PROP_PREFIX @ k)
         else Some (PStr (truncate_string v 255))
      | None \<Rightarrow> dget d (SM_IMAGE_PROP_PREFIX @ k)))"
proof (induction ps arbitrary: d)
  case (Cons kv ps)
  then have "dget ps (fst kv) = None" by (simp add: map_of_eq_None_iff)
  with Cons show ?case by (cases kv) (auto split: option.splits)
qed simp

lemma fold_dset_keys:
  assumes "\<And>k. k \<in> set ks \<Longrightarrow> \<exists>j. f k = P @ j" "\<forall>key \<in> fst ` set d. \<exists>j. key = P @ j" "dict_ok d"
  shows "dict_ok (fold (\<lambda>k d. if c k then d else dset (f k) (g k) d) ks d) \<and>
    (\<forall>key \<in> fst ` set (fold (\<lambda>k d. if c k then d else dset (f k) (g k) d) ks d). \<exists>j. key = P @ j)"
  using assms
proof (induction ks arbitrary: d)
  case (Cons k ks)
  have "\<forall>key \<in> fst ` set (dset (f k) (g k) d). \<exists>j. key = P @ j"
    using Cons.prems by (auto dest!: set_dset)
  with Cons show ?case by simp
qed simp

lemma fold_image_get:
  "dget (fold (\<lambda>k d. if g k = z then d else dset (P @ k) (g k) d) ks d) (P @ k) =
     (if k \<in> set ks \<and> g k \<noteq> z then Some (g k) else dget d (P @ k))"
  by (induction ks arbitrary: d) auto

text \<open>
  Image metadata survives the instance. What is read back from the system metadata of an
  image (with no flavour) has exactly the image's inheritable attributes that are not null,
  and exactly its properties, cut to 255 bytes, without the structured ones that are
  skipped, provided no property is named like an inheritable attribute.
\<close>

theorem image_metadata_roundtrip:
  assumes ok: "dict_ok (i_properties img)"
    and names: "\<forall>k \<in> fst ` set (i_properties img). k \<notin> set SM_INHERITABLE_KEYS"
  shows "let (attrs, props) = get_image_from_system_metadata (get_system_metadata_from_image img None) in
    (\<forall>k. dget attrs k = (if k \<in> set SM_INHERITABLE_KEYS \<and> dget (i_attrs img) k \<noteq> Some PNone
                          then dget (i_attrs img) k else None)) \<and>
    (\<forall>k. dget props k = (if k \<in> set SM_SKIP_KEYS then None
                          else map_option (\<lambda>v. PStr (truncate_string v 255)) (dget (i_properties img) k)))"
proof -
  let ?P = SM_IMAGE_PROP_PREFIX
  let ?val = "inherited_value img None"
  define ps where "ps = fold (\<lambda>(k, v) d. if k \<in> set SM_SKIP_KEYS then d
      else dset (?P @ k) (PStr (truncate_string v 255)) d) (i_properties img) []"
  define d where "d = fold (\<lambda>k d. if ?val k = PNone then d else dset (?P @ k) (?val k) d) SM_INHERITABLE_KEYS ps"
  have meta: "get_system_metadata_from_image img None = d"
    by (simp add: get_system_metadata_from_image_def ps_def d_def Let_def)
  have "ps = fold (\<lambda>kv d. if fst kv \<in> set SM_SKIP_KEYS then d
      else dset (?P @ fst kv) (PStr (truncate_string (snd kv) 255)) d) (i_properties img) []"
    by (simp only: ps_def case_prod_beta')
  then have "dict_ok ps \<and> (\<forall>key \<in> fst ` set ps. \<exists>j. key = ?P @ j)"
    by (simp only:) (rule fold_dset_keys, blast, simp_all only: list.set image_empty ball_empty list.map distinct.simps)
  then have "dict_ok d \<and> (\<forall>key \<in> fst ` set d. \<exists>j. key = ?P @ j)"
    unfolding d_def by (intro fold_dset_keys) blast+
  then have dok: "dict_ok d" "\<forall>key \<in> fst ` set d. \<exists>j. key = ?P @ j" by (rule conjunct1, rule conjunct2)
  have dps: "dget ps (?P @ k) = (if k \<in> set SM_SKIP_KEYS then None
      else map_option (\<lambda>v. PStr (truncate_string v 255)) (dget (i_properties img) k))" for k
    using system_metadata_props [OF ok, of "[]"] by (simp add: ps_def split: option.splits)
  have val: "?val k = (case dget (i_attrs img) k of None \<Rightarrow> PNone | Some v \<Rightarrow> v)" for k
    by (simp add: inherited_value_def)
  have dd: "dget d (?P @ k) = (if k \<in> set SM_INHERITABLE_KEYS \<and> ?val k \<noteq> PNone then Some (?val k) else dget ps (?P @ k))" for k
    unfolding d_def by (rule fold_image_get)
  have skip: "k \<notin> set SM_SKIP_KEYS" if "k \<in> set SM_INHERITABLE_KEYS" for k
    using that by (auto simp: SM_SKIP_KEYS_def SM_INHERITABLE_KEYS_def)
  have none: "dget (i_properties img) k = None" if "k \<in> set SM_INHERITABLE_KEYS" for k
    using names that by (force simp: map_of_eq_None_iff)
  obtain attrs props where run: "get_image_from_system_metadata d = (attrs, props)" by fastforce
  note rb = read_back [OF dok, of "[]" "[]", unfolded run [unfolded get_image_from_system_metadata_def] fst_conv snd_conv]
  have inh: "dget d (?P @ k) = (if ?val k = PNone then None else Some (?val k))" if "k \<in> set SM_INHERITABLE_KEYS" for k
    using that none [OF that] by (simp add: dd dps)
  have other: "dget d (?P @ k) = dget ps (?P @ k)" if "k \<notin> set SM_INHERITABLE_KEYS" for k
    using that by (simp add: dd)
  have "dget attrs k = (if k \<in> set SM_INHERITABLE_KEYS \<and> dget (i_attrs img) k \<noteq> Some PNone
      then dget (i_attrs img) k else None) \<and>
    dget props k = (if k \<in> set SM_SKIP_KEYS then None
      else map_option (\<lambda>v. PStr (truncate_string v 255)) (dget (i_properties img) k))" for k
  proof (cases "k \<in> set SM_INHERITABLE_KEYS")
    case True
    then show ?thesis
      using rb [of k] skip [OF True] none [OF True]
      by (cases "dget (i_attrs img) k") (auto simp: inh val)
  next
    case False
    then show ?thesis
      using rb [of k] by (cases "dget (i_properties img) k") (auto simp: other dps)
  qed
  then show ?thesis by (simp add: meta run)
qed

section \<open>Samples\<close>

definition sample_image :: image where
  "sample_image = \<lparr>i_attrs = [(''min_ram'', PInt 512), (''name'', PStr ''a'')], i_properties = [(''os'', ''linux'')]\<rparr>"

theorem image_metadata_roundtrip_witness:
  "dget (fst (get_image_from_system_metadata (get_system_metadata_from_image sample_image None))) ''min_ram'' = Some (PInt 512)"
proof -
  have "dict_ok (i_properties sample_image)"
    "\<forall>k \<in> fst ` set (i_properties sample_image). k \<notin> set SM_INHERITABLE_KEYS"
    by (simp_all add: sample_image_def SM_INHERITABLE_KEYS_def)
  note rt = image_metadata_roundtrip [OF this]
  obtain a p where run: "get_image_from_system_metadata (get_system_metadata_from_image sample_image None) = (a, p)"
    by fastforce
  have "dget a ''min_ram'' = (if ''min_ram'' \<in> set SM_INHERITABLE_KEYS \<and> dget (i_attrs sample_image) ''min_ram'' \<noteq> Some PNone
      then dget (i_attrs sample_image) ''min_ram'' else None)"
    using rt unfolding run Let_def prod.case by blast
  then show ?thesis unfolding run by (simp add: sample_image_def SM_INHERITABLE_KEYS_def)
qed

theorem generate_password_strong_witness:
  "\<exists>pw. generate_password (\<lambda>i s. hd s) (\<lambda>s. s) rev 12 (Some 4) [''23'', ''AB''] = Inr pw \<and> int (length pw) = 4"
proof -
  have "\<And>s. mset ((\<lambda>s. s) s) = mset (s :: string)" "\<And>s. mset (rev s) = mset (s :: string)" by simp_all
  from generate_password_strong [of "\<lambda>i s. hd s", OF _ this, of "[''23'', ''AB'']" 4 12]
  show ?thesis by auto
qed

theorem metadata_filters_conjoin_witness:
  "filter_and_format_resource_metadata (=) ''instance'' [\<lparr>r_uuid = ''u'', r_metadata = [(''k'', ''v''), (''x'', ''y'')]\<rparr>]
     [\<lparr>f_ids = [], f_keys = One ''k'', f_values = Many []\<rparr>] = Inr [(''k'', ''v'', ''u'')]"
proof -
  let ?rs = "[\<lparr>r_uuid = ''u'', r_metadata = [(''k'', ''v''), (''x'', ''y'')]\<rparr>]"
  have "dict_ok (r_metadata r)" if "r \<in> set ?rs" for r using that by auto
  from metadata_filters_conjoin [where resources = ?rs and rmatch = "(=)"
      and filts = "[\<lparr>f_ids = [], f_keys = One ''k'', f_values = Many []\<rparr>]", OF this]
  show ?thesis by (simp add: filter_accepts_def)
qed

end
