(* ===== verification/Periodic.thy ===== *)
theory Periodic
  imports Loops
begin

text \<open>
  Periodic tasks (\<^verbatim>\<open>oslo_service/periodic_task.py\<close>): the decorator, the class registry the
  metaclass keeps, and the pass that runs what is due. \<open>now\<close> reads the monotonic clock and
  \<open>random\<close> the random numbers, both from the world a task may change too. Times are rationals:
  the rounding of Python's floats is left out.
\<close>

section \<open>Declaring tasks\<close>

definition DEFAULT_INTERVAL :: rat where
  "DEFAULT_INTERVAL = 60"

record 's ptask =
  periodic_external_ok :: bool
  periodic_enabled :: bool
  periodic_name :: string
  periodic_spacing :: rat
  periodic_last_run :: "rat option"
  task_body :: "'s \<Rightarrow> exn option \<times> 's"

text \<open>The keyword arguments of the decorator.\<close>

record pt_kwargs =
  k_ticks_between_runs :: bool
  k_external_process_ok :: bool
  k_enabled :: bool
  k_name :: "string option"
  k_spacing :: rat
  k_run_immediately :: bool

definition periodic_task :: "rat \<Rightarrow> pt_kwargs \<Rightarrow> string \<Rightarrow> ('s \<Rightarrow> exn option \<times> 's) \<Rightarrow> 's ptask result" where
  "periodic_task current kw fname f =
     (if k_ticks_between_runs kw then Inl (OtherError ''InvalidPeriodicTaskArg'')
      else Inr \<lparr>periodic_external_ok = k_external_process_ok kw, periodic_enabled = k_enabled kw,
             periodic_name = (case k_name kw of None \<Rightarrow> fname | Some n \<Rightarrow> n), periodic_spacing = k_spacing kw,
             periodic_last_run = (if k_run_immediately kw then None else Some current), task_body = f\<rparr>)"

text \<open>What a class keeps: its tasks by name, and their spacings.\<close>

record 's pclass =
  periodic_tasks :: "(string \<times> 's ptask) list"
  spacings :: "(string \<times> rat) list"

definition no_tasks :: "'s pclass" where
  "no_tasks = \<lparr>periodic_tasks = [], spacings = []\<rparr>"

definition class_add_task :: "'s ptask \<Rightarrow> 's pclass \<Rightarrow> bool \<times> 's pclass" where
  "class_add_task task cls =
     (if periodic_spacing task < 0 then (False, cls)
      else if \<not> periodic_enabled task then (False, cls)
      else
        (let task1 = (if periodic_spacing task = 0 then task\<lparr>periodic_spacing := DEFAULT_INTERVAL\<rparr> else task);
             name = periodic_name task
         in (True, \<lparr>periodic_tasks = periodic_tasks cls @ [(name, task1)],
                    spacings = dset name (periodic_spacing task1) (spacings cls)\<rparr>)))"

text \<open>A new class starts from copies of what it inherits.\<close>

definition new_class :: "'s pclass option \<Rightarrow> 's ptask list \<Rightarrow> 's pclass" where
  "new_class parent own =
     fold (\<lambda>task cls. snd (class_add_task task cls)) own (case parent of None \<Rightarrow> no_tasks | Some c \<Rightarrow> c)"

type_synonym last_runs = "(string \<times> rat option) list"

definition init_last_runs :: "'s pclass \<Rightarrow> last_runs" where
  "init_last_runs cls = fold (\<lambda>(name, task) lr. dset name (periodic_last_run task) lr) (periodic_tasks cls) []"

text \<open>Adding through an instance changes its class, and only this instance's last runs.\<close>

definition add_periodic_task :: "'s ptask \<Rightarrow> 's pclass \<times> last_runs \<Rightarrow> 's pclass \<times> last_runs" where
  "add_periodic_task task st =
     (case st of (cls, lr) \<Rightarrow>
        (case class_add_task task cls of (added, cls1) \<Rightarrow>
           (cls1, if added then dset (periodic_name task) (periodic_last_run task) lr else lr)))"

section \<open>Running what is due\<close>

definition rat_mod :: "rat \<Rightarrow> rat \<Rightarrow> rat" where
  "rat_mod a b = a - b * of_int \<lfloor>a / b\<rfloor>"

text \<open>\<^verbatim>\<open>_nearest_boundary\<close>: \<^verbatim>\<open>int()\<close> of a number that is not negative rounds down.\<close>

definition nearest_boundary ::
  "('s \<Rightarrow> rat \<times> 's) \<Rightarrow> ('s \<Rightarrow> rat \<times> 's) \<Rightarrow> rat option \<Rightarrow> rat \<Rightarrow> 's \<Rightarrow> rat \<times> 's" where
  "nearest_boundary now random last_run spacing s =
     (case now s of (current_time, s1) \<Rightarrow>
        (case last_run of
           None \<Rightarrow> (current_time, s1)
         | Some l \<Rightarrow>
             (let offset = rat_mod (current_time - l) spacing in
              case random s1 of (r, s2) \<Rightarrow>
                (current_time - offset + of_int \<lfloor>spacing * (r / 20)\<rfloor>, s2))))"

text \<open>
  The pass over the tasks. \<open>started\<close> is the debug log: the names of the tasks it ran, in
  order. A name without a last run raises.
\<close>

record 's sched =
  last_run :: last_runs
  world :: 's
  started :: "string list"

definition run_task ::
  "('s \<Rightarrow> rat \<times> 's) \<Rightarrow> ('s \<Rightarrow> rat \<times> 's) \<Rightarrow> rat option \<Rightarrow> rat \<Rightarrow> string \<Rightarrow> 's ptask \<Rightarrow> 's sched \<Rightarrow>
   exn option \<times> 's sched" where
  "run_task now random prev spacing name task st =
     (case nearest_boundary now random prev spacing (world st) of (l, s1) \<Rightarrow>
        (case task_body task s1 of (e, s2) \<Rightarrow>
           (e, \<lparr>last_run = dset name (Some l) (last_run st), world = s2, started = started st @ [name]\<rparr>)))"

text \<open>Whether a task is due, reading the clock only when it ran before: the wait that is left, or none.\<close>

definition check_due :: "('s \<Rightarrow> rat \<times> 's) \<Rightarrow> rat option \<Rightarrow> rat \<Rightarrow> 's \<Rightarrow> rat option \<times> 's" where
  "check_due now prev spacing s =
     (case prev of
        None \<Rightarrow> (None, s)
      | Some l \<Rightarrow> (case now s of (t, s1) \<Rightarrow> (if l + spacing - t > 0 then Some (l + spacing - t) else None, s1)))"

fun run_tasks ::
  "('s \<Rightarrow> rat \<times> 's) \<Rightarrow> ('s \<Rightarrow> rat \<times> 's) \<Rightarrow> bool \<Rightarrow> bool \<Rightarrow> (string \<times> rat) list \<Rightarrow>
   (string \<times> 's ptask) list \<Rightarrow> rat \<Rightarrow> 's sched \<Rightarrow> rat result \<times> 's sched" where
  "run_tasks now random external raise_on_error sps [] idle_for st = (Inr idle_for, st)"
| "run_tasks now random external raise_on_error sps ((name, task) # tasks) idle_for st =
     (if periodic_external_ok task \<and> \<not> external
      then run_tasks now random external raise_on_error sps tasks idle_for st
      else case (ditem sps name, ditem (last_run st) name) of
          (Inl e, _) \<Rightarrow> (Inl e, st)
        | (_, Inl e) \<Rightarrow> (Inl e, st)
        | (Inr spacing, Inr prev) \<Rightarrow>
            (case check_due now prev spacing (world st) of
               (Some delta, s1) \<Rightarrow>
                 run_tasks now random external raise_on_error sps tasks (min (min idle_for spacing) delta)
                   (st\<lparr>world := s1\<rparr>)
             | (None, s1) \<Rightarrow>
                 (case run_task now random prev spacing name task (st\<lparr>world := s1\<rparr>) of
                    (Some e, st2) \<Rightarrow>
                      if raise_on_error then (Inl e, st2)
                      else run_tasks now random external raise_on_error sps tasks (min idle_for spacing) st2
                  | (None, st2) \<Rightarrow>
                      run_tasks now random external raise_on_error sps tasks (min idle_for spacing) st2)))"

definition run_periodic_tasks ::
  "('s \<Rightarrow> rat \<times> 's) \<Rightarrow> ('s \<Rightarrow> rat \<times> 's) \<Rightarrow> bool \<Rightarrow> bool \<Rightarrow> 's pclass \<Rightarrow> 's sched \<Rightarrow> rat result \<times> 's sched" where
  "run_periodic_tasks now random external raise_on_error cls =
     run_tasks now random external raise_on_error (spacings cls) (periodic_tasks cls) DEFAULT_INTERVAL"

section \<open>Clocks\<close>

text \<open>\<open>clock\<close> is the time of a world; reading and drawing never turn it back.\<close>

definition clock_ok :: "('s \<Rightarrow> rat \<times> 's) \<Rightarrow> ('s \<Rightarrow> rat \<times> 's) \<Rightarrow> ('s \<Rightarrow> rat) \<Rightarrow> bool" where
  "clock_ok now random clock \<longleftrightarrow>
     (\<forall>s. clock s \<le> fst (now s) \<and> fst (now s) \<le> clock (snd (now s))) \<and>
     (\<forall>s. 0 \<le> fst (random s) \<and> fst (random s) < 1 \<and> clock s \<le> clock (snd (random s)))"

definition tasks_ok :: "('s \<Rightarrow> rat) \<Rightarrow> (string \<times> rat) list \<Rightarrow> (string \<times> 's ptask) list \<Rightarrow> bool" where
  "tasks_ok clock sps tasks \<longleftrightarrow>
     (\<forall>(n, t) \<in> set tasks. (\<exists>sp > 0. dget sps n = Some sp) \<and> (\<forall>s. clock s \<le> clock (snd (task_body t s))))"

lemma class_add_task_ok:
  assumes "tasks_ok clock (spacings cls) (periodic_tasks cls)" "\<forall>s. clock s \<le> clock (snd (task_body task s))"
  shows "tasks_ok clock (spacings (snd (class_add_task task cls))) (periodic_tasks (snd (class_add_task task cls)))"
  using assms by (fastforce simp: class_add_task_def tasks_ok_def Let_def DEFAULT_INTERVAL_def)

lemma new_class_ok:
  assumes "\<forall>c. parent = Some c \<longrightarrow> tasks_ok clock (spacings c) (periodic_tasks c)"
    and "\<forall>t \<in> set own. \<forall>s. clock s \<le> clock (snd (task_body t s))"
  shows "tasks_ok clock (spacings (new_class parent own)) (periodic_tasks (new_class parent own))"
proof -
  have "tasks_ok clock (spacings cls) (periodic_tasks cls) \<Longrightarrow>
      tasks_ok clock (spacings (fold (\<lambda>task cls. snd (class_add_task task cls)) own cls))
        (periodic_tasks (fold (\<lambda>task cls. snd (class_add_task task cls)) own cls))" for cls
    using assms(2) by (induction own arbitrary: cls) (auto intro: class_add_task_ok)
  moreover have "tasks_ok clock (spacings no_tasks) (periodic_tasks no_tasks)"
    by (simp add: tasks_ok_def no_tasks_def)
  ultimately show ?thesis using assms(1) by (cases parent) (simp_all add: new_class_def)
qed

lemma nearest_boundary_next:
  assumes c: "clock_ok now random clock" and sp: "0 < sp" and due: "l + sp \<le> clock s"
    and r: "nearest_boundary now random (Some l) sp s = (l', s')"
  shows "l + sp \<le> l'" "l' \<le> clock s' + sp / 20" "clock s < l' + sp" "clock s \<le> clock s'"
proof -
  obtain t s1 where n: "now s = (t, s1)" by fastforce
  obtain x s2 where x: "random s1 = (x, s2)" by fastforce
  have t: "clock s \<le> t" "t \<le> clock s1" using c n by (auto simp: clock_ok_def) (metis fst_conv, metis fst_conv snd_conv)
  have x1: "0 \<le> x" "x < 1" "clock s1 \<le> clock s2" using c x by (auto simp: clock_ok_def) (metis fst_conv, metis fst_conv, metis snd_conv)
  define k where "k = \<lfloor>(t - l) / sp\<rfloor>"
  define j where "j = \<lfloor>sp * (x / 20)\<rfloor>"
  have l': "l' = l + sp * of_int k + of_int j" "s' = s2"
    using r by (simp_all add: nearest_boundary_def n x k_def j_def rat_mod_def Let_def)
  have "1 \<le> (t - l) / sp" using due t sp by (simp add: field_simps)
  then have "1 \<le> k" by (simp add: k_def le_floor_iff)
  then have k: "sp \<le> sp * of_int k" using sp by simp
  have "of_int k \<le> (t - l) / sp \<and> (t - l) / sp < of_int k + 1" using floor_correct [of "(t - l) / sp"] by (simp add: k_def)
  then have kt: "sp * of_int k \<le> t - l" "t - l < sp * of_int k + sp" using sp by (simp_all add: field_simps)
  have "0 \<le> sp * (x / 20)" using sp x1 by simp
  then have j: "0 \<le> j" "of_int j \<le> sp * (x / 20)" using of_int_floor_le [of "sp * (x / 20)"] by (simp_all add: j_def)
  moreover have "sp * (x / 20) \<le> sp / 20" using sp x1 by (simp add: field_simps)
  ultimately have j1: "(of_int j :: rat) \<le> sp / 20" by linarith
  have j0: "0 \<le> (of_int j :: rat)" using j(1) by simp
  show "l + sp \<le> l'" "l' \<le> clock s' + sp / 20" "clock s < l' + sp" "clock s \<le> clock s'"
    unfolding l' using k kt j1 j0 t x1 by linarith+
qed

section \<open>How often a task runs\<close>

text \<open>
  From one state to a later one: the clock has not gone back, and the last run of \<open>n\<close> has moved by
  a spacing for each start of \<open>n\<close>, never past the clock and the jitter; there is no start before
  the first of them was due, and none that leaves no last run.
\<close>

definition progress :: "('s \<Rightarrow> rat) \<Rightarrow> string \<Rightarrow> rat \<Rightarrow> 's sched \<Rightarrow> 's sched \<Rightarrow> bool" where
  "progress clock n sp st st' \<longleftrightarrow> clock (world st) \<le> clock (world st') \<and>
     (\<forall>l. dget (last_run st) n = Some (Some l) \<longrightarrow>
        (\<exists>l' k. dget (last_run st') n = Some (Some l') \<and>
           count_list (started st') n = count_list (started st) n + k \<and> l + of_nat k * sp \<le> l' \<and>
           (k = 0 \<longrightarrow> l' = l) \<and> (0 < k \<longrightarrow> l' \<le> clock (world st') + sp / 20 \<and> l + sp \<le> clock (world st')))) \<and>
     (dget (last_run st) n = Some None \<longrightarrow>
        dget (last_run st') n = Some None \<and> count_list (started st') n = count_list (started st) n \<or>
        (\<exists>l'. dget (last_run st') n = Some (Some l')) \<and> count_list (started st) n < count_list (started st') n)"

lemma progress_same: "clock (world st) \<le> clock w \<Longrightarrow> progress clock n sp st (st\<lparr>world := w\<rparr>)"
  by (auto simp: progress_def)

lemma progressD:
  assumes "progress clock n sp st st'" "dget (last_run st) n = Some (Some l)"
  shows "\<exists>l' k. dget (last_run st') n = Some (Some l') \<and>
           count_list (started st') n = count_list (started st) n + k \<and> l + of_nat k * sp \<le> l' \<and>
           (k = 0 \<longrightarrow> l' = l) \<and> (0 < k \<longrightarrow> l' \<le> clock (world st') + sp / 20 \<and> l + sp \<le> clock (world st'))"
  using assms by (simp add: progress_def)

lemma progress_later: "progress clock n sp a b \<Longrightarrow> clock (world a) \<le> clock (world b)"
  by (simp add: progress_def)

lemma progress_first:
  assumes "progress clock n sp a b" "dget (last_run a) n = Some None"
  shows "dget (last_run b) n = Some None \<and> count_list (started b) n = count_list (started a) n \<or>
    (\<exists>l'. dget (last_run b) n = Some (Some l')) \<and> count_list (started a) n < count_list (started b) n"
  using assms by (simp add: progress_def)

lemma progress_trans:
  assumes "progress clock n sp a b" "progress clock n sp b c"
  shows "progress clock n sp a c"
  unfolding progress_def
proof (intro conjI allI impI)
  show "clock (world a) \<le> clock (world c)" using progress_later [OF assms(1)] progress_later [OF assms(2)] by (rule order_trans)
  have bc: "clock (world b) \<le> clock (world c)" by (rule progress_later [OF assms(2)])
  show "\<exists>l' k. dget (last_run c) n = Some (Some l') \<and>
      count_list (started c) n = count_list (started a) n + k \<and> l + of_nat k * sp \<le> l' \<and>
      (k = 0 \<longrightarrow> l' = l) \<and> (0 < k \<longrightarrow> l' \<le> clock (world c) + sp / 20 \<and> l + sp \<le> clock (world c))"
    if l: "dget (last_run a) n = Some (Some l)" for l
  proof -
    from progressD [OF assms(1) l] obtain l1 k1 where
      1: "dget (last_run b) n = Some (Some l1)" "count_list (started b) n = count_list (started a) n + k1"
        "l + of_nat k1 * sp \<le> l1" "k1 = 0 \<longrightarrow> l1 = l" "0 < k1 \<longrightarrow> l1 \<le> clock (world b) + sp / 20 \<and> l + sp \<le> clock (world b)"
      by blast
    from progressD [OF assms(2) 1(1)] obtain l2 k2 where
      2: "dget (last_run c) n = Some (Some l2)" "count_list (started c) n = count_list (started b) n + k2"
        "l1 + of_nat k2 * sp \<le> l2" "k2 = 0 \<longrightarrow> l2 = l1" "0 < k2 \<longrightarrow> l2 \<le> clock (world c) + sp / 20 \<and> l1 + sp \<le> clock (world c)"
      by blast
    have "0 < k1 + k2 \<longrightarrow> l2 \<le> clock (world c) + sp / 20" using 1 2 bc by (cases "k2 = 0") auto
    moreover have "0 < k1 + k2 \<longrightarrow> l + sp \<le> clock (world c)" using 1 2 bc by (cases "k1 = 0") auto
    moreover have "l + of_nat (k1 + k2) * sp \<le> l2" using 1(3) 2(3) by (simp add: algebra_simps)
    ultimately show ?thesis using 1 2 by (intro exI [of _ l2] exI [of _ "k1 + k2"]) auto
  qed
  show "dget (last_run c) n = Some None \<and> count_list (started c) n = count_list (started a) n \<or>
      (\<exists>l'. dget (last_run c) n = Some (Some l')) \<and> count_list (started a) n < count_list (started c) n"
    if "dget (last_run a) n = Some None"
    using progress_first [OF assms(1) that]
  proof
    assume "dget (last_run b) n = Some None \<and> count_list (started b) n = count_list (started a) n"
    with progress_first [OF assms(2)] show ?thesis by auto
  next
    assume b: "(\<exists>l'. dget (last_run b) n = Some (Some l')) \<and> count_list (started a) n < count_list (started b) n"
    then obtain l' where "dget (last_run b) n = Some (Some l')" by blast
    from progressD [OF assms(2) this] b show ?thesis by auto
  qed
qed

lemma check_due_clock: "clock_ok now random clock \<Longrightarrow> check_due now prev sp s = (d, s1) \<Longrightarrow> clock s \<le> clock s1"
  by (cases "now s") (auto simp: clock_ok_def check_due_def split: option.splits prod.splits
      intro: order_trans, metis fst_conv order_trans snd_conv)

lemma check_due_now:
  "clock_ok now random clock \<Longrightarrow> check_due now (Some l) sp s = (None, s1) \<Longrightarrow> l + sp \<le> clock s1"
  by (cases "now s") (auto simp: clock_ok_def check_due_def split: if_splits,
      metis (no_types, opaque_lifting) add.commute diff_add_cancel diff_gt_0_iff_gt fst_conv linorder_not_less order_trans snd_conv)

lemma run_task_progress:
  assumes c: "clock_ok now random clock" and b: "\<forall>s. clock s \<le> clock (snd (task_body task s))"
    and sp: "0 < sp" and due: "\<forall>l. prev = Some l \<longrightarrow> l + sp \<le> clock (world st)"
    and prev: "dget (last_run st) name = Some prev" and r: "run_task now random prev sp name task st = (e, st')"
    and n: "n = name \<longrightarrow> spn = sp"
  shows "progress clock n spn st st'"
    and "\<exists>l'. dget (last_run st') name = Some (Some l') \<and> clock (world st) < l' + sp"
proof -
  obtain l1 s1 where nb: "nearest_boundary now random prev sp (world st) = (l1, s1)" by fastforce
  obtain s2 where st': "st' = \<lparr>last_run = dset name (Some l1) (last_run st), world = s2, started = started st @ [name]\<rparr>"
    "task_body task s1 = (e, s2)"
    using r by (auto simp: run_task_def nb split: prod.splits)
  have s2: "clock s1 \<le> clock s2" using b st'(2) by (metis snd_conv)
  have first: "l1 = fst (now (world st)) \<and> s1 = snd (now (world st))" if "prev = None"
    using nb that by (auto simp: nearest_boundary_def split: prod.splits)
  have s1: "clock (world st) \<le> clock s1 \<and> clock (world st) < l1 + sp"
  proof (cases prev)
    case None
    have "clock (world st) \<le> fst (now (world st))" "fst (now (world st)) \<le> clock (snd (now (world st)))"
      using c by (simp_all add: clock_ok_def)
    with first [OF None] sp show ?thesis by simp
  next
    case (Some l)
    with nearest_boundary_next [OF c sp, of l "world st"] due nb show ?thesis by auto
  qed
  then show "\<exists>l'. dget (last_run st') name = Some (Some l') \<and> clock (world st) < l' + sp"
    by (simp add: st'(1))
  show "progress clock n spn st st'"
  proof (cases "n = name")
    case False
    with s1 s2 show ?thesis by (auto simp: progress_def st'(1))
  next
    case True
    have run: "l + sp \<le> l1 \<and> l1 \<le> clock s2 + sp / 20 \<and> l + sp \<le> clock s2" if "prev = Some l" for l
      using nearest_boundary_next [OF c sp, of l "world st"] due nb that s1 s2 by fastforce
    have "clock (world st) \<le> clock s2" using s1 s2 by simp
    then show ?thesis
      using True n prev run by (cases prev) (auto simp: progress_def st'(1) intro!: exI [of _ 1])
  qed
qed

lemma run_tasks_progress:
  assumes c: "clock_ok now random clock" and n: "dget sps n = Some sp"
  shows "tasks_ok clock sps tasks \<Longrightarrow> run_tasks now random external raise sps tasks idle st = (r, st') \<Longrightarrow>
    progress clock n sp st st'"
proof (induction tasks arbitrary: idle st)
  case Nil
  then show ?case by (auto simp: progress_def)
next
  case (Cons nt tasks)
  obtain name task where nt: "nt = (name, task)" by fastforce
  from Cons.prems(1) have ok: "tasks_ok clock sps tasks" "\<forall>s. clock s \<le> clock (snd (task_body task s))"
    by (auto simp: tasks_ok_def nt)
  from Cons.prems(1) obtain sp1 where sp1: "0 < sp1" "dget sps name = Some sp1" by (auto simp: tasks_ok_def nt)
  note ih = Cons.IH [OF ok(1)]
  show ?case
  proof (cases "periodic_external_ok task \<and> \<not> external \<or> dget (last_run st) name = None")
    case True
    then show ?thesis
      using Cons.prems(2) ih sp1 by (auto simp: nt ditem_def progress_def split: if_splits)
  next
    case False
    then obtain prev where prev: "dget (last_run st) name = Some prev" by auto
    from False have on: "(periodic_external_ok task \<and> \<not> external) = False" by blast
    obtain d s1 where d: "check_due now prev sp1 (world st) = (d, s1)" by fastforce
    have step: "progress clock n sp st (st\<lparr>world := s1\<rparr>)"
      by (rule progress_same, rule check_due_clock [OF c d])
    show ?thesis
    proof (cases d)
      case (Some delta)
      with Cons.prems(2) on prev sp1 d
      have "run_tasks now random external raise sps tasks (min (min idle sp1) delta) (st\<lparr>world := s1\<rparr>) = (r, st')"
        by (simp add: nt ditem_def)
      from progress_trans [OF step ih [OF this]] show ?thesis .
    next
      case None
      obtain e st2 where e: "run_task now random prev sp1 name task (st\<lparr>world := s1\<rparr>) = (e, st2)" by fastforce
      have "progress clock n sp (st\<lparr>world := s1\<rparr>) st2"
        by (rule run_task_progress [OF c ok(2) sp1(1) _ _ e]) 
          (use d None check_due_now [OF c] prev n sp1 in auto)
      with step have st2: "progress clock n sp st st2" by (rule progress_trans)
      have "(r, st') = (Inl (the e), st2) \<or> run_tasks now random external raise sps tasks (min idle sp1) st2 = (r, st')"
        using Cons.prems(2) on prev sp1 d None e by (auto simp: nt ditem_def split: option.splits if_splits)
      with st2 ih progress_trans [OF st2] show ?thesis by blast
    qed
  qed
qed

lemma run_tasks_pass:
  assumes c: "clock_ok now random clock"
  shows "tasks_ok clock sps tasks \<Longrightarrow> \<forall>(n, t) \<in> set tasks. dget (last_run st) n \<noteq> None \<Longrightarrow> 0 < idle \<Longrightarrow>
    run_tasks now random external False sps tasks idle st = (r, st') \<Longrightarrow>
    \<exists>i. r = Inr i \<and> 0 < i \<and> i \<le> idle \<and>
      (\<forall>(n, t) \<in> set tasks. (periodic_external_ok t \<longrightarrow> external) \<longrightarrow>
         (\<exists>sp l. dget sps n = Some sp \<and> i \<le> sp \<and> dget (last_run st') n = Some (Some l) \<and> clock (world st) < l + sp))"
proof (induction tasks arbitrary: idle st)
  case (Cons nt tasks)
  obtain name task where nt: "nt = (name, task)" by fastforce
  from Cons.prems(1) have ok: "tasks_ok clock sps tasks" "\<forall>s. clock s \<le> clock (snd (task_body task s))"
    by (auto simp: tasks_ok_def nt)
  from Cons.prems(1) obtain sp where sp: "0 < sp" "dget sps name = Some sp" by (auto simp: tasks_ok_def nt)
  from Cons.prems(2) obtain prev where prev: "dget (last_run st) name = Some prev" by (auto simp: nt)
  show ?case
  proof (cases "periodic_external_ok task \<and> \<not> external")
    case True
    with Cons.prems(4) have "run_tasks now random external False sps tasks idle st = (r, st')" by (simp add: nt)
    with Cons.IH [OF ok(1) _ Cons.prems(3)] Cons.prems(2) True show ?thesis by (auto simp: nt)
  next
    case False
    then have on: "(periodic_external_ok task \<and> \<not> external) = False" by blast
    obtain d s1 where d: "check_due now prev sp (world st) = (d, s1)" by fastforce
    define P where "P = (\<lambda>i st1. run_tasks now random external False sps tasks i st1 = (r, st'))"
    have "\<exists>i1 st1 l. P i1 st1 \<and> 0 < i1 \<and> i1 \<le> idle \<and> i1 \<le> sp \<and> clock (world st) \<le> clock (world st1) \<and>
        (\<forall>n. dget (last_run st) n \<noteq> None \<longrightarrow> dget (last_run st1) n \<noteq> None) \<and>
        dget (last_run st1) name = Some (Some l) \<and> clock (world st) < l + sp"
    proof (cases d)
      case (Some delta)
      with d c obtain l t where l: "prev = Some l" "now (world st) = (t, s1)" "delta = l + sp - t" "0 < delta"
        by (auto simp: check_due_def split: option.splits prod.splits if_splits)
      with c have "clock (world st) \<le> t" "t \<le> clock s1" unfolding clock_ok_def by (metis fst_conv, metis fst_conv snd_conv)
      moreover from Some Cons.prems(4) on prev sp d have "P (min (min idle sp) delta) (st\<lparr>world := s1\<rparr>)"
        by (simp add: P_def nt ditem_def)
      ultimately show ?thesis
        using Cons.prems(3) l sp prev
        by (intro exI [of _ "min (min idle sp) delta"] exI [of _ "st\<lparr>world := s1\<rparr>"] exI [of _ l]) auto
    next
      case None
      obtain e st2 where e: "run_task now random prev sp name task (st\<lparr>world := s1\<rparr>) = (e, st2)" by fastforce
      have due: "\<forall>l. prev = Some l \<longrightarrow> l + sp \<le> clock (world (st\<lparr>world := s1\<rparr>))"
        using d None check_due_now [OF c] by auto
      have pv: "dget (last_run (st\<lparr>world := s1\<rparr>)) name = Some prev" using prev by simp
      note rt = run_task_progress [OF c ok(2) sp(1) due pv e, of name sp]
      have s1: "clock (world st) \<le> clock s1" by (rule check_due_clock [OF c d])
      have "P (min idle sp) st2"
        using Cons.prems(4) on prev sp d None e by (auto simp: P_def nt ditem_def split: option.splits)
      moreover have "clock s1 \<le> clock (world st2)" using rt(1) by (simp add: progress_def)
      moreover have "\<forall>n. dget (last_run st) n \<noteq> None \<longrightarrow> dget (last_run st2) n \<noteq> None"
        using e by (auto simp: run_task_def split: prod.splits)
      moreover obtain l' where "dget (last_run st2) name = Some (Some l')" "clock s1 < l' + sp"
        using rt(2) by auto
      ultimately show ?thesis
        using s1 Cons.prems(3) sp
        by (intro exI [of _ "min idle sp"] exI [of _ st2] exI [of _ l']) auto
    qed
    then obtain i1 st1 l where P: "P i1 st1" "0 < i1" "i1 \<le> idle" "i1 \<le> sp" "clock (world st) \<le> clock (world st1)"
      "\<forall>n. dget (last_run st) n \<noteq> None \<longrightarrow> dget (last_run st1) n \<noteq> None"
      "dget (last_run st1) name = Some (Some l)" "clock (world st) < l + sp" by blast
    have "\<forall>(n, t) \<in> set tasks. dget (last_run st1) n \<noteq> None" using Cons.prems(2) P(6) by (auto simp: nt)
    from Cons.IH [OF ok(1) this P(2)] P(1) obtain i where i: "r = Inr i" "0 < i" "i \<le> i1"
      "\<forall>(n, t) \<in> set tasks. (periodic_external_ok t \<longrightarrow> external) \<longrightarrow>
         (\<exists>sp l. dget sps n = Some sp \<and> i \<le> sp \<and> dget (last_run st') n = Some (Some l) \<and> clock (world st1) < l + sp)"
      unfolding P_def by blast
    have "progress clock name sp st1 st'"
      using run_tasks_progress [OF c sp(2) ok(1)] P(1) unfolding P_def by blast
    from progressD [OF this P(7)] obtain l' k where l': "dget (last_run st') name = Some (Some l')" "l + of_nat k * sp \<le> l'"
      by blast
    moreover have "0 \<le> of_nat k * sp" using sp by simp
    ultimately have head: "clock (world st) < l' + sp" using P(8) by linarith
    show ?thesis
    proof (intro exI conjI ballI)
      show "r = Inr i" "0 < i" by (rule i)+
      show "i \<le> idle" using i(3) P(3) by (rule order_trans)
      fix x
      assume x: "x \<in> set (nt # tasks)"
      show "case x of (n, t) \<Rightarrow> (periodic_external_ok t \<longrightarrow> external) \<longrightarrow>
         (\<exists>sp l. dget sps n = Some sp \<and> i \<le> sp \<and> dget (last_run st') n = Some (Some l) \<and> clock (world st) < l + sp)"
      proof (cases "x = nt")
        case True
        with l' head sp i(3) P(4) show ?thesis by (auto simp: nt)
      next
        case False
        with x i(4) P(5) show ?thesis by (fastforce intro: order_le_less_trans)
      qed
    qed
  qed
qed auto

text \<open>
  C28: a pass. When every task of the class has a last run, a pass that swallows exceptions
  (\<^verbatim>\<open>raise_on_error\<close> is off, as by default) never fails, whatever the tasks raise. It returns a
  positive idle time of at most the default interval and the spacing of every task it may run.
  Of these, it has started each that was due when the pass began, a task that never ran
  included, and none that is not even due when the pass ends; and each has a last run whose
  spacing was not over when the pass began. (A task may fall due again while later ones run:
  the next pass finds it.)
\<close>

theorem periodic_pass:
  assumes c: "clock_ok now random clock" and t: "tasks_ok clock (spacings cls) (periodic_tasks cls)"
    and known: "\<forall>(n, t) \<in> set (periodic_tasks cls). dget (last_run st) n \<noteq> None"
  shows "\<exists>i st'. run_periodic_tasks now random external False cls st = (Inr i, st') \<and> 0 < i \<and> i \<le> 60 \<and>
    (\<forall>(n, t) \<in> set (periodic_tasks cls). (periodic_external_ok t \<longrightarrow> external) \<longrightarrow>
       (\<exists>sp l. dget (spacings cls) n = Some sp \<and> i \<le> sp \<and> dget (last_run st') n = Some (Some l) \<and>
          clock (world st) < l + sp \<and>
          (dget (last_run st) n = Some None \<longrightarrow> count_list (started st) n < count_list (started st') n) \<and>
          (\<forall>l0. dget (last_run st) n = Some (Some l0) \<longrightarrow>
             (l0 + sp \<le> clock (world st) \<longrightarrow> count_list (started st) n < count_list (started st') n) \<and>
             (clock (world st') < l0 + sp \<longrightarrow> count_list (started st') n = count_list (started st) n))))"
proof -
  obtain r st' where run: "run_tasks now random external False (spacings cls) (periodic_tasks cls) DEFAULT_INTERVAL st = (r, st')"
    by fastforce
  have "(0 :: rat) < DEFAULT_INTERVAL" by (simp add: DEFAULT_INTERVAL_def)
  from run_tasks_pass [OF c t known this run] obtain i where i: "r = Inr i" "0 < i" "i \<le> 60"
    "\<forall>(n, t) \<in> set (periodic_tasks cls). (periodic_external_ok t \<longrightarrow> external) \<longrightarrow>
       (\<exists>sp l. dget (spacings cls) n = Some sp \<and> i \<le> sp \<and> dget (last_run st') n = Some (Some l) \<and> clock (world st) < l + sp)"
    by (auto simp: DEFAULT_INTERVAL_def)
  have first: "dget (last_run st) n = Some None \<longrightarrow> count_list (started st) n < count_list (started st') n"
    if sp: "dget (spacings cls) n = Some sp" and l: "dget (last_run st') n = Some (Some l)" for n sp l
    using progress_first [OF run_tasks_progress [OF c sp t run]] l by auto
  have started: "(l0 + sp \<le> clock (world st) \<longrightarrow> count_list (started st) n < count_list (started st') n) \<and>
      (clock (world st') < l0 + sp \<longrightarrow> count_list (started st') n = count_list (started st) n)"
    if sp: "dget (spacings cls) n = Some sp" and l: "dget (last_run st') n = Some (Some l)" "clock (world st) < l + sp"
      and l0: "dget (last_run st) n = Some (Some l0)" for n sp l l0
  proof -
    from progressD [OF run_tasks_progress [OF c sp t run] l0] l obtain k where
      "count_list (started st') n = count_list (started st) n + k" "k = 0 \<longrightarrow> l = l0"
      "0 < k \<longrightarrow> l0 + sp \<le> clock (world st')" by auto
    with l l0 show ?thesis by (cases k) auto
  qed
  have "case x of (n, t) \<Rightarrow> (periodic_external_ok t \<longrightarrow> external) \<longrightarrow>
       (\<exists>sp l. dget (spacings cls) n = Some sp \<and> i \<le> sp \<and> dget (last_run st') n = Some (Some l) \<and>
          clock (world st) < l + sp \<and>
          (dget (last_run st) n = Some None \<longrightarrow> count_list (started st) n < count_list (started st') n) \<and>
          (\<forall>l0. dget (last_run st) n = Some (Some l0) \<longrightarrow>
             (l0 + sp \<le> clock (world st) \<longrightarrow> count_list (started st) n < count_list (started st') n) \<and>
             (clock (world st') < l0 + sp \<longrightarrow> count_list (started st') n = count_list (started st) n)))"
    if "x \<in> set (periodic_tasks cls)" for x
    using bspec [OF i(4) that] started first by (cases x) blast
  with run i(1-3) show ?thesis unfolding run_periodic_tasks_def by blast
qed

text \<open>Passes, successful or not, and whatever else happens to the world between them.\<close>

inductive periodic_run ::
  "('s \<Rightarrow> rat \<times> 's) \<Rightarrow> ('s \<Rightarrow> rat \<times> 's) \<Rightarrow> ('s \<Rightarrow> rat) \<Rightarrow> bool \<Rightarrow> 's pclass \<Rightarrow> 's sched \<Rightarrow> 's sched \<Rightarrow> bool"
  for now random clock external cls where
    start: "periodic_run now random clock external cls st st"
  | pass: "periodic_run now random clock external cls st st1 \<Longrightarrow>
      run_periodic_tasks now random external raise_on_error cls st1 = (r, st2) \<Longrightarrow>
      periodic_run now random clock external cls st st2"
  | elapse: "periodic_run now random clock external cls st st1 \<Longrightarrow> clock (world st1) \<le> clock w \<Longrightarrow>
      periodic_run now random clock external cls st (st1\<lparr>world := w\<rparr>)"

text \<open>
  C17: the rate of a task. Over any number of passes, however late or early they come and
  whatever the jitter is, a task last run at \<open>l\<close> is started at most as often as its spacing
  fits into the time since then, with a twentieth of a spacing for the jitter.
\<close>

theorem periodic_rate:
  assumes run: "periodic_run now random clock external cls st st'"
    and c: "clock_ok now random clock" and t: "tasks_ok clock (spacings cls) (periodic_tasks cls)"
    and n: "dget (spacings cls) n = Some sp" and l: "dget (last_run st) n = Some (Some l)"
  shows "\<exists>k. count_list (started st') n = count_list (started st) n + k \<and>
    (0 < k \<longrightarrow> of_nat k * sp \<le> clock (world st') - l + sp / 20)"
proof -
  from run have "progress clock n sp st st'"
  proof induction
    case (start st)
    then show ?case by (auto simp: progress_def)
  next
    case (pass st st1 raise_on_error r st2)
    then have "run_tasks now random external raise_on_error (spacings cls) (periodic_tasks cls) DEFAULT_INTERVAL st1 = (r, st2)"
      by (simp add: run_periodic_tasks_def)
    from progress_trans [OF pass(3) run_tasks_progress [OF c n t this]] show ?case .
  next
    case (elapse st st1 w)
    from progress_trans [OF elapse(3) progress_same [OF elapse(2)]] show ?case .
  qed
  from progressD [OF this l] show ?thesis by (auto simp: algebra_simps)
qed

text \<open>
  A subclass that overrides a task keeps the inherited one, under the same name and so with
  the same last run. While the inherited task takes no time, the overriding one never starts.
\<close>

lemma overridden_task_skipped:
  assumes "periodic_name old = n" "periodic_name new = n" "0 < periodic_spacing old" "0 < periodic_spacing new"
    and "periodic_enabled old" "periodic_enabled new" "\<not> periodic_external_ok old" "\<not> periodic_external_ok new"
    and "\<And>s. now s = (time s, s)" "\<And>s. time (snd (task_body old s)) = time s"
    and "dget (last_run st) n = Some None"
  shows "started (snd (run_periodic_tasks now random external False
           (new_class (Some (new_class None [old])) [new]) st)) = started st @ [n]"
proof -
  obtain e s1 where b: "task_body old (world st) = (e, s1)" by fastforce
  have t: "time s1 = time (world st)" using assms(10) [of "world st"] by (simp add: b)
  have cls: "new_class (Some (new_class None [old])) [new] =
      \<lparr>periodic_tasks = [(n, old), (n, new)], spacings = [(n, periodic_spacing new)]\<rparr>"
    using assms(1-6) by (simp add: new_class_def class_add_task_def no_tasks_def Let_def)
  have r: "run_task now random None (periodic_spacing new) n old st =
      (e, \<lparr>last_run = dset n (Some (time (world st))) (last_run st), world = s1, started = started st @ [n]\<rparr>)"
    by (simp add: run_task_def nearest_boundary_def assms(9) b)
  have due: "check_due now None sp w = (None, w)" "check_due now (Some (time w)) (periodic_spacing new) w = (Some (periodic_spacing new), w)"
    for sp w using assms(4) by (simp_all add: check_due_def assms(9))
  show ?thesis
    using assms(7,8,11) due(2) [of s1] by (cases e) (simp_all add: cls run_periodic_tasks_def ditem_def due(1) r t)
qed

text \<open>
  A task added through one instance reaches the class, but not the last runs of the other
  instances: their passes fail from then on.
\<close>

lemma added_task_breaks_others:
  assumes "0 < periodic_spacing task" "periodic_enabled task" "\<not> periodic_external_ok task"
    and "dget (last_run st) (periodic_name task) = None" "periodic_tasks cls = []"
  shows "run_periodic_tasks now random external False (fst (add_periodic_task task (cls, lr))) st = (Inl (KeyError (periodic_name task)), st)"
  using assms by (simp add: add_periodic_task_def class_add_task_def run_periodic_tasks_def ditem_def Let_def)

section \<open>Samples\<close>

definition sample_task :: "rat ptask" where
  "sample_task = \<lparr>periodic_external_ok = False, periodic_enabled = True, periodic_name = ''poll'',
     periodic_spacing = 10, periodic_last_run = Some 0, task_body = (\<lambda>s. (Some ValueError, s + 1))\<rparr>"

definition sample_class :: "rat pclass" where
  "sample_class = new_class None [sample_task]"

definition sample_sched :: "rat sched" where
  "sample_sched = \<lparr>last_run = init_last_runs sample_class, world = 35, started = []\<rparr>"

lemma sample_class_simp: "sample_class = \<lparr>periodic_tasks = [(''poll'', sample_task)], spacings = [(''poll'', 10)]\<rparr>"
  by (simp add: sample_class_def new_class_def class_add_task_def sample_task_def no_tasks_def Let_def)

lemma sample_ok: "clock_ok (\<lambda>s. (s, s)) (\<lambda>s. (0, s)) (\<lambda>s. s)"
  "tasks_ok (\<lambda>s. s) (spacings sample_class) (periodic_tasks sample_class)"
  "dget (last_run sample_sched) ''poll'' = Some (Some 0)"
  by (simp_all add: clock_ok_def sample_class_simp tasks_ok_def sample_task_def sample_sched_def init_last_runs_def)

lemma sample_pass:
  "run_periodic_tasks (\<lambda>s. (s, s)) (\<lambda>s. (0, s)) True False sample_class sample_sched =
     (Inr 10, \<lparr>last_run = [(''poll'', Some 30)], world = 36, started = [''poll'']\<rparr>)"
proof -
  have "\<lfloor>(7 :: rat) / 2\<rfloor> = 3" by (simp add: floor_eq_iff)
  then show ?thesis
    by (simp add: run_periodic_tasks_def sample_class_simp sample_sched_def init_last_runs_def sample_task_def
        ditem_def check_due_def run_task_def nearest_boundary_def rat_mod_def Let_def DEFAULT_INTERVAL_def)
qed

theorem periodic_pass_witness:
  "\<exists>i st'. run_periodic_tasks (\<lambda>s. (s, s)) (\<lambda>s. (0, s)) True False sample_class sample_sched = (Inr i, st') \<and> 0 < i \<and>
     started st' = [''poll''] \<and> dget (last_run st') ''poll'' = Some (Some 30)"
proof -
  have "\<forall>(n, t) \<in> set (periodic_tasks sample_class). dget (last_run sample_sched) n \<noteq> None"
    using sample_ok(3) by (simp add: sample_class_simp)
  from periodic_pass [OF sample_ok(1,2) this, of True] obtain i st' where
    run: "run_periodic_tasks (\<lambda>s. (s, s)) (\<lambda>s. (0, s)) True False sample_class sample_sched = (Inr i, st')" "0 < i"
    by blast
  then show ?thesis by (auto simp: sample_pass)
qed

theorem periodic_rate_witness:
  "\<exists>st'. periodic_run (\<lambda>s. (s, s)) (\<lambda>s. (0, s)) (\<lambda>s. s) True sample_class sample_sched st' \<and>
     count_list (started st') ''poll'' = 1 \<and> of_nat 1 * 10 \<le> world st' - 0 + 10 / 20"
proof -
  let ?st' = "\<lparr>last_run = [(''poll'', Some 30)], world = 36, started = [''poll'']\<rparr> :: rat sched"
  have run: "periodic_run (\<lambda>s. (s, s)) (\<lambda>s. (0, s)) (\<lambda>s. s) True sample_class sample_sched ?st'"
    by (rule periodic_run.pass [OF periodic_run.start sample_pass])
  have "dget (spacings sample_class) ''poll'' = Some 10" by (simp add: sample_class_simp)
  from periodic_rate [OF run sample_ok(1,2) this sample_ok(3)] obtain k where
    "count_list (started ?st') ''poll'' = count_list (started sample_sched) ''poll'' + k"
    "0 < k \<longrightarrow> of_nat k * 10 \<le> world ?st' - 0 + 10 / 20" by blast
  moreover have "k = 1" using calculation(1) by (simp add: sample_sched_def)
  ultimately show ?thesis using run by (intro exI [of _ ?st']) simp
qed

end
