(* ===== verification/QuotaObject.thy ===== *)
theory QuotaObject
  imports QuotaDriver
begin

text \<open>
  The \<^verbatim>\<open>Quotas\<close> object (\<^verbatim>\<open>nova/objects/quotas.py\<close>): the handle a caller keeps between reserving
  and committing or rolling back. Its operations go through the engine to a driver; what it
  needs of the driver extends the driver interface.
\<close>

section \<open>The object\<close>

text \<open>\<open>q_context\<close> tells whether the object has a context: a remotable method needs one.\<close>

record quotas =
  q_context :: bool
  q_reservations :: "string list option"
  q_project :: "string option"
  q_user :: "string option"

definition new_quotas :: "bool \<Rightarrow> quotas" where
  "new_quotas ctx = \<lparr>q_context = ctx, q_reservations = Some [], q_project = None, q_user = None\<rparr>"

text \<open>The project and the user of an instance, as far as the context may act for them.\<close>

definition ids_from_instance :: "bool \<Rightarrow> qctx \<Rightarrow> string \<times> string \<Rightarrow> string \<times> string" where
  "ids_from_instance is_admin c inst =
     (case inst of (project_id, user_id) \<Rightarrow>
        (if is_admin \<and> ctx_project c \<noteq> project_id then project_id else ctx_project c,
         if ctx_user c \<noteq> user_id then user_id else ctx_user c))"

definition from_reservations :: "bool \<Rightarrow> qctx \<Rightarrow> string list \<Rightarrow> (string \<times> string) option \<Rightarrow> quotas" where
  "from_reservations is_admin c uuids inst =
     (case inst of
        None \<Rightarrow> \<lparr>q_context = True, q_reservations = Some uuids, q_project = None, q_user = None\<rparr>
      | Some i \<Rightarrow>
          (case ids_from_instance is_admin c i of (p, u) \<Rightarrow>
             \<lparr>q_context = True, q_reservations = Some uuids, q_project = Some p, q_user = Some u\<rparr>))"

definition no_context :: exn where
  "no_context = Nova OrphanedObjectError []"

definition Quotas_reserve ::
  "((string \<times> int) list \<Rightarrow> expire_arg \<Rightarrow> string option \<Rightarrow> string option \<Rightarrow> 's \<Rightarrow> string list result \<times> 's) \<Rightarrow>
   (string \<times> int) list \<Rightarrow> expire_arg \<Rightarrow> string option \<Rightarrow> string option \<Rightarrow> quotas \<times> 's \<Rightarrow>
   unit result \<times> (quotas \<times> 's)" where
  "Quotas_reserve drv deltas e pid usr st =
     (case st of (q, s) \<Rightarrow>
        if \<not> q_context q then (Inl no_context, (q, s))
        else (case engine_reserve drv deltas e pid usr s of
            (Inl x, s1) \<Rightarrow> (Inl x, (q, s1))
          | (Inr uuids, s1) \<Rightarrow>
              (Inr (), (q\<lparr>q_reservations := Some uuids, q_project := pid, q_user := usr\<rparr>, s1))))"

text \<open>Both endings call the engine, which hides the driver's errors.\<close>

definition Quotas_commit ::
  "(string list \<Rightarrow> string option \<Rightarrow> string option \<Rightarrow> 's \<Rightarrow> unit result \<times> 's) \<Rightarrow> quotas \<times> 's \<Rightarrow>
   unit result \<times> (quotas \<times> 's)" where
  "Quotas_commit drv st =
     (case st of (q, s) \<Rightarrow>
        if \<not> q_context q then (Inl no_context, (q, s))
        else (case q_reservations q of
            None \<Rightarrow> (Inr (), (q, s))
          | Some uuids \<Rightarrow>
              if uuids = [] then (Inr (), (q, s))
              else (case engine_commit drv uuids (q_project q) (q_user q) s of (_, s1) \<Rightarrow>
                (Inr (), (q\<lparr>q_reservations := None\<rparr>, s1)))))"

definition Quotas_rollback ::
  "(string list \<Rightarrow> string option \<Rightarrow> string option \<Rightarrow> 's \<Rightarrow> unit result \<times> 's) \<Rightarrow> quotas \<times> 's \<Rightarrow>
   unit result \<times> (quotas \<times> 's)" where
  "Quotas_rollback drv st =
     (case st of (q, s) \<Rightarrow>
        if \<not> q_context q then (Inl no_context, (q, s))
        else (case q_reservations q of
            None \<Rightarrow> (Inr (), (q, s))
          | Some uuids \<Rightarrow>
              if uuids = [] then (Inr (), (q, s))
              else (case engine_rollback drv uuids (q_project q) (q_user q) s of (_, s1) \<Rightarrow>
                (Inr (), (q\<lparr>q_reservations := None\<rparr>, s1)))))"

text \<open>The class methods pass on; creating and updating a limit is committed on its own.\<close>

definition Quotas_limit_check ::
  "qctx \<Rightarrow> registry \<Rightarrow> (string \<times> int) list \<Rightarrow> string option \<Rightarrow> string option \<Rightarrow> quota_db \<Rightarrow> unit result" where
  "Quotas_limit_check c reg vals pid usr d = limit_check c reg vals pid usr d"

definition Quotas_count :: "(string \<Rightarrow> int result) \<Rightarrow> registry \<Rightarrow> string \<Rightarrow> int result" where
  "Quotas_count counter reg name = engine_count counter reg name"

definition Quotas_create_limit ::
  "(limit_row list \<Rightarrow> limit_row \<Rightarrow> bool) \<Rightarrow> string \<Rightarrow> string \<Rightarrow> int \<Rightarrow> string option \<Rightarrow> quota_db \<Rightarrow> unit result \<times> quota_db" where
  "Quotas_create_limit refused project resource n user d =
     (case quota_create refused project resource n user d of (r, d1) \<Rightarrow> (bind_r r (\<lambda>_. Inr ()), d1))"

definition Quotas_update_limit ::
  "qctx \<Rightarrow> string \<Rightarrow> string \<Rightarrow> int \<Rightarrow> string option \<Rightarrow> quota_db \<Rightarrow> unit result \<times> quota_db" where
  "Quotas_update_limit c project resource n user d = quota_update c project resource n user d"

section \<open>What the object needs of a driver\<close>

definition settled_object :: "quotas \<Rightarrow> bool" where
  "settled_object q \<longleftrightarrow> q_reservations q = None \<or> q_reservations q = Some []"

locale quota_ledger = quota_driver +
  assumes reserve_owned: "ok s \<Longrightarrow> usable deltas s \<Longrightarrow> reserve deltas e pid usr s = (Inr uuids, s1) \<Longrightarrow>
      owned uuids pid usr s1"
    and reserve_nothing: "ok s \<Longrightarrow> usable deltas s \<Longrightarrow> reserve deltas e pid usr s = (Inr [], s1) \<Longrightarrow> held s1 = held s"
begin

text \<open>The object's reservations belong to its project and user.\<close>

definition object_ok :: "quotas \<times> 'a \<Rightarrow> bool" where
  "object_ok st \<longleftrightarrow> ok (snd st) \<and>
     (\<forall>uuids. q_reservations (fst st) = Some uuids \<longrightarrow> uuids \<noteq> [] \<longrightarrow>
        owned uuids (q_project (fst st)) (q_user (fst st)) (snd st))"

lemma reserve_object_ok:
  assumes "object_ok (q, s)" "usable deltas s" "Quotas_reserve reserve deltas e pid usr (q, s) = (r, (q1, s1))"
  shows "object_ok (q1, s1)"
proof -
  obtain x s2 where run: "reserve deltas e pid usr s = (x, s2)" by fastforce
  from assms(1) have ok: "ok s" by (simp add: object_ok_def)
  show ?thesis
  proof (cases x)
    case (Inl y)
    with reserve_fail run have "s2 = s" by blast
    with assms run Inl show ?thesis by (auto simp: Quotas_reserve_def engine_reserve_def split: if_splits)
  next
    case (Inr uuids)
    with reserve_ok [OF ok assms(2) run] reserve_owned [OF ok assms(2)] run assms show ?thesis
      by (auto simp: Quotas_reserve_def engine_reserve_def object_ok_def split: if_splits)
  qed
qed

lemma end_object_ok:
  assumes "object_ok (q, s)"
  shows "object_ok (snd (Quotas_commit commit (q, s)))" "object_ok (snd (Quotas_rollback rollback (q, s)))"
  using assms engine_end_ok [of s]
  by (auto simp: object_ok_def Quotas_commit_def Quotas_rollback_def split: option.splits prod.splits)
    (metis snd_conv)+

lemma settled_object_end:
  "settled_object q \<Longrightarrow> q_context q \<Longrightarrow> Quotas_commit commit (q, s) = (Inr (), (q, s)) \<and>
     Quotas_rollback rollback (q, s) = (Inr (), (q, s))"
  by (auto simp: settled_object_def Quotas_commit_def Quotas_rollback_def)

lemma end_settles:
  "Quotas_commit commit (q, s) = (Inr (), (q1, s1)) \<Longrightarrow> settled_object q1"
  "Quotas_rollback rollback (q, s) = (Inr (), (q1, s1)) \<Longrightarrow> settled_object q1"
  by (auto simp: settled_object_def Quotas_commit_def Quotas_rollback_def split: if_splits option.splits prod.splits)

lemma reserve_end:
  assumes "ok s" "usable deltas s" "Quotas_reserve reserve deltas e pid usr (q, s) = (Inr (), (q1, s1))"
  shows "ok s1 \<and> (\<exists>q2 s2. Quotas_rollback rollback (q1, s1) = (Inr (), (q2, s2)) \<and> ok s2 \<and> held s2 = held s \<and>
      Quotas_commit commit (q2, s2) = (Inr (), (q2, s2)) \<and> Quotas_rollback rollback (q2, s2) = (Inr (), (q2, s2)))"
proof -
  from assms(3) obtain uuids where run: "reserve deltas e pid usr s = (Inr uuids, s1)" and ctx: "q_context q"
    and q1: "q1 = q\<lparr>q_reservations := Some uuids, q_project := pid, q_user := usr\<rparr>"
    by (auto simp: Quotas_reserve_def engine_reserve_def split: if_splits prod.splits sum.splits)
  have ok1: "ok s1" by (rule reserve_ok [OF assms(1,2) run])
  have "\<exists>q2 s2. Quotas_rollback rollback (q1, s1) = (Inr (), (q2, s2)) \<and> ok s2 \<and> held s2 = held s \<and> q_context q2"
  proof (cases "uuids = []")
    case True
    with run ok1 reserve_nothing [OF assms(1,2)] ctx show ?thesis by (auto simp: Quotas_rollback_def q1)
  next
    case False
    with reserve_rollback [OF assms(1,2) run] ctx show ?thesis
      by (fastforce simp: Quotas_rollback_def q1 engine_rollback_def)
  qed
  with end_settles(2) settled_object_end ok1 show ?thesis by blast
qed

end

section \<open>Both drivers\<close>

lemma db_reserve_writes:
  assumes "quota_ok d" "db_usable D deltas d" "db_reserve D reg deltas e pid usr d = (Inr uuids, d1)"
  shows "db_owned D uuids pid usr d1" "uuids = [] \<Longrightarrow> pending d1 = pending d"
proof -
  let ?p = "ctx_project_id (dctx D) pid" and ?u = "ctx_user_id (dctx D) usr"
  from db_reserve_cases [OF assms(3)] obtain q uq t where
    run: "quota_reserve_body (dnow D) (dfresh D) (dtotal D) (sync_resource D reg ?p ?u) q uq deltas t
      (conf_until D) (conf_max_age D) ?p ?u d = (Inr uuids, d1)"
    by auto
  from reserve_success [OF run assms(1)] obtain m e1 where
    m: "working ?p ?u (reservations d) (m, e1)" and u: "uuids = map (dfresh D) [0..<length deltas]"
    and d1: "d1 = flushed (dnow D) d (fold (reserve_one ?p ?u t m) (with_uuids (dfresh D) deltas) e1)"
    by blast
  have r1: "reservations d1 = reservations d @ map (reservation_of ?p ?u t m) (with_uuids (dfresh D) deltas)"
    using m by (simp add: d1 fold_reserve_eq working_def)
  show "db_owned D uuids pid usr d1"
    using assms(2) u by (auto simp: db_owned_def db_usable_def quota_reservations_query_def r1 reservation_of_def)
  show "pending d1 = pending d" if "uuids = []"
    using that u r1 by (simp add: pending_def fun_eq_iff with_uuids_def)
qed

interpretation db_ledger: quota_ledger "db_reserve D reg" "db_commit D" "db_rollback D" quota_ok
  "db_usable D" "db_owned D" pending
  by unfold_locales (auto dest: db_reserve_writes)

interpretation noop_ledger: quota_ledger noop_reserve noop_commit noop_rollback quota_ok
  "\<lambda>deltas d. True" "\<lambda>uuids pid usr d. True" pending
  by unfold_locales (simp_all add: noop_reserve_def)

section \<open>The life of the object\<close>

text \<open>
  C9: the life of a quota handle over the database driver. A reserve that fails leaves the tables
  and the handle alone. After one that succeeds, the tables are consistent, a rollback always
  succeeds and gives back exactly what was held, and from then on committing or rolling back
  the handle again does nothing: no order of a caller's endings releases twice.
\<close>

theorem quotas_object_life:
  assumes "quota_ok d" "db_usable D deltas d"
    and "Quotas_reserve (db_reserve D reg) deltas e pid usr (q, d) = (r, (q1, d1))"
  shows "case r of
      Inl x \<Rightarrow> q1 = q \<and> d1 = d
    | Inr _ \<Rightarrow> quota_ok d1 \<and>
        (\<exists>q2 d2. Quotas_rollback (db_rollback D) (q1, d1) = (Inr (), (q2, d2)) \<and> quota_ok d2 \<and> pending d2 = pending d \<and>
          Quotas_commit (db_commit D) (q2, d2) = (Inr (), (q2, d2)) \<and>
          Quotas_rollback (db_rollback D) (q2, d2) = (Inr (), (q2, d2)))"
proof (cases r)
  case (Inl x)
  with assms(3) db_driver.reserve_fail show ?thesis
    by (auto simp: Quotas_reserve_def engine_reserve_def split: if_splits prod.splits sum.splits)
next
  case (Inr y)
  with assms(3) db_ledger.reserve_end [OF assms(1,2)] show ?thesis by simp
qed

text \<open>
  Any sequence of uses of one handle, other callers apart: reserves, with new uuids each
  time, commits and rollbacks.
\<close>

inductive quotas_uses :: "driver_env \<Rightarrow> registry \<Rightarrow> quotas \<times> quota_db \<Rightarrow> quotas \<times> quota_db \<Rightarrow> bool" for D reg where
    unused: "quotas_uses D reg st st"
  | reserves: "quotas_uses D reg st (q, d) \<Longrightarrow> db_usable D deltas d \<Longrightarrow>
      Quotas_reserve (db_reserve D reg) deltas e pid usr (q, d) = (r, st2) \<Longrightarrow> quotas_uses D reg st st2"
  | commits: "quotas_uses D reg st st1 \<Longrightarrow> quotas_uses D reg st (snd (Quotas_commit (db_commit D) st1))"
  | rollbacks: "quotas_uses D reg st st1 \<Longrightarrow> quotas_uses D reg st (snd (Quotas_rollback (db_rollback D) st1))"

text \<open>
  C30: however a handle is used, the quota tables stay consistent: what is reserved on each
  usage row is what its live reservations hold.
\<close>

theorem quotas_uses_consistent:
  assumes "quotas_uses D reg (new_quotas True, d) (q1, d1)" "quota_ok d"
  shows "quota_ok d1"
proof -
  have "db_ledger.object_ok D st \<Longrightarrow> db_ledger.object_ok D st'" if "quotas_uses D reg st st'" for st st'
    using that
  proof induction
    case (reserves st q d deltas e pid usr r st2)
    then show ?case using db_ledger.reserve_object_ok [of D q d deltas reg e pid usr r] by (cases st2) simp
  next
    case (commits st st1)
    then show ?case using db_ledger.end_object_ok(1) by (cases st1) simp
  next
    case (rollbacks st st1)
    then show ?case using db_ledger.end_object_ok(2) by (cases st1) simp
  qed simp
  with assms show ?thesis by (fastforce simp: db_ledger.object_ok_def new_quotas_def)
qed

section \<open>Samples\<close>

lemma sample_usable: "db_usable sample_driver [(''cores'', 2)] empty_quota"
  by (simp add: db_usable_def sample_driver_def empty_quota_def)

lemma sample_reserves:
  "\<exists>d1. Quotas_reserve (db_reserve sample_driver sample_registry) [(''cores'', 2)] ENone None None (new_quotas True, empty_quota) =
     (Inr (), ((new_quotas True)\<lparr>q_reservations := Some [[]]\<rparr>, d1))"
proof -
  let ?run = "db_reserve sample_driver sample_registry [(''cores'', 2)] ENone None None empty_quota"
  have "?run = (Inr [[]], snd ?run)" by (rule prod_eqI) (simp_all, code_simp)
  then obtain d1 where "?run = (Inr [[]], d1)" by blast
  then show ?thesis by (simp add: Quotas_reserve_def engine_reserve_def new_quotas_def)
qed

theorem quotas_object_life_witness:
  "\<exists>q1 d1 q2 d2. Quotas_reserve (db_reserve sample_driver sample_registry) [(''cores'', 2)] ENone None None
       (new_quotas True, empty_quota) = (Inr (), (q1, d1)) \<and>
     Quotas_rollback (db_rollback sample_driver) (q1, d1) = (Inr (), (q2, d2)) \<and> pending d2 = pending empty_quota"
  using quotas_object_life [OF empty_quota_ok sample_usable] sample_reserves by fastforce

theorem quotas_uses_consistent_witness:
  "\<exists>q1 d1. quotas_uses sample_driver sample_registry (new_quotas True, empty_quota) (q1, d1) \<and>
     q_reservations q1 = None \<and> quota_ok d1"
proof -
  from sample_reserves obtain d1 where
    r: "Quotas_reserve (db_reserve sample_driver sample_registry) [(''cores'', 2)] ENone None None (new_quotas True, empty_quota) =
     (Inr (), ((new_quotas True)\<lparr>q_reservations := Some [[]]\<rparr>, d1))" by blast
  let ?st = "((new_quotas True)\<lparr>q_reservations := Some [[]]\<rparr>, d1)"
  have u: "quotas_uses sample_driver sample_registry (new_quotas True, empty_quota) (snd (Quotas_commit (db_commit sample_driver) ?st))"
    by (rule quotas_uses.commits [OF quotas_uses.reserves [OF quotas_uses.unused sample_usable r]])
  obtain q2 d2 where c: "snd (Quotas_commit (db_commit sample_driver) ?st) = (q2, d2)" by fastforce
  moreover have "q_reservations q2 = None"
    using c by (auto simp: Quotas_commit_def new_quotas_def split: prod.splits)
  ultimately show ?thesis using u quotas_uses_consistent [OF _ empty_quota_ok, of sample_driver sample_registry q2 d2] by auto
qed

end
