(* ===== verification/Archive.thy ===== *)
theory Archive
  imports ComputeNodes "HOL-Library.Multiset" "HOL-Library.List_Lexorder" "HOL-Library.Char_ord"
    "HOL-Library.Product_Lexorder"
begin

text \<open>
  Archiving: \<^verbatim>\<open>archive_deleted_rows\<close> of \<^verbatim>\<open>nova/db/sqlalchemy/api.py\<close> moves soft-deleted rows to
  shadow tables. A database is its tables by name; \<open>known\<close> are the tables the model classes
  declare, with their columns; \<open>refd\<close> says whether a foreign key keeps the rows of the given
  keys from being deleted. A statement in a transaction takes effect whole or not at all.
\<close>

section \<open>One table\<close>

type_synonym tables_db = "(string \<times> row list) list"

definition table_rows :: "tables_db \<Rightarrow> string \<Rightarrow> row list" where
  "table_rows db name = dgetd db name []"

definition SHADOW_TABLE_PREFIX :: string where
  "SHADOW_TABLE_PREFIX = ''shadow_''"

definition shadow :: "string \<Rightarrow> string" where
  "shadow name = SHADOW_TABLE_PREFIX @ name"

text \<open>The tables of the model classes.\<close>

definition nova_tables :: "(string \<times> string list) list" where
  "nova_tables =
     (let stamps = [''created_at'', ''updated_at'', ''deleted_at'', ''deleted''] in
      [(''services'', stamps @ [''id'', ''host'', ''binary'', ''topic'', ''report_count'', ''disabled'',
          ''disabled_reason'', ''last_seen_up'', ''forced_down'', ''version'']),
       (''compute_nodes'', stamps @ [''id'', ''service_id'', ''host'', ''uuid'', ''compute_node_type'',
          ''compute_node_method'']),
       (''TestCase'', stamps @ [''id'', ''uuid'', ''case_name'', ''status'', ''host'', ''beginning'', ''ending'',
          ''message'', ''errors'']),
       (''TestPlan'', stamps @ [''id'', ''uuid'', ''testplan_name'', ''status'', ''beginning'', ''ending'',
          ''message'', ''result'', ''summary''])])"

text \<open>\<^verbatim>\<open>deleted != 0\<close>; a null is neither equal nor different.\<close>

definition marked :: "row \<Rightarrow> bool" where
  "marked r = (case dget r ''deleted'' of Some (PInt n) \<Rightarrow> n \<noteq> 0 | _ \<Rightarrow> False)"

definition key_column :: "string \<Rightarrow> string" where
  "key_column name = (if name = ''dns_domains'' then ''domain'' else ''id'')"

definition key_rank :: "string \<Rightarrow> row \<Rightarrow> int \<times> string" where
  "key_rank col r = (case dget r col of Some (PInt n) \<Rightarrow> (n, []) | Some (PStr s) \<Rightarrow> (0, s) | _ \<Rightarrow> (0, []))"

definition select_first :: "(row \<Rightarrow> bool) \<Rightarrow> string \<Rightarrow> int option \<Rightarrow> row list \<Rightarrow> row list" where
  "select_first p col limit rs =
     (let ordered = sort_key (key_rank col) (filter p rs)
      in case limit of None \<Rightarrow> ordered | Some n \<Rightarrow> take (nat n) ordered)"

text \<open>
  The insert into the shadow table and the delete by the selected keys, in one transaction;
  what the insert copies are the columns of the model.
\<close>

definition move_rows ::
  "(tables_db \<Rightarrow> string \<Rightarrow> pyval option list \<Rightarrow> bool) \<Rightarrow> string \<Rightarrow> string list \<Rightarrow> (row \<Rightarrow> bool) \<Rightarrow> string \<Rightarrow>
   int option \<Rightarrow> tables_db \<Rightarrow> int result \<times> tables_db" where
  "move_rows refd name cols p col limit db =
     (let rs = table_rows db name;
          chosen = select_first p col limit rs;
          keys = map (\<lambda>r. dget r col) chosen;
          kept = filter (\<lambda>r. dget r col \<notin> set keys) rs;
          copied = map (filter (\<lambda>(c, v). c \<in> set cols)) chosen
      in if \<not> distinct keys \<or> (\<exists>s \<in> set (table_rows db (shadow name)). dget s col \<in> set keys)
         then (Inl (OtherError ''DBDuplicateEntry''), db)
         else if refd db name keys then (Inr 0, db)
         else (Inr (int (length rs) - int (length kept)),
               dset (shadow name) (table_rows db (shadow name) @ copied) (dset name kept db)))"

text \<open>
  The tables that are soft-deleted here when their instance is: a table of the models must
  be there for it.
\<close>

definition soft_delete_where :: "(row \<Rightarrow> bool) \<Rightarrow> string \<Rightarrow> tables_db \<Rightarrow> tables_db" where
  "soft_delete_where p name db =
     dset name (map (\<lambda>r. if p r then dset ''deleted'' (the (dget r ''id'')) r else r) (table_rows db name)) db"

definition of_deleted_instance :: "tables_db \<Rightarrow> row \<Rightarrow> bool" where
  "of_deleted_instance db r \<longleftrightarrow> dget r ''instance_uuid'' \<noteq> Some PNone \<and>
     (\<exists>i \<in> set (table_rows db ''instances''). marked i \<and> dget i ''uuid'' = dget r ''instance_uuid'')"

definition of_deleted_action :: "tables_db \<Rightarrow> row \<Rightarrow> bool" where
  "of_deleted_action db r \<longleftrightarrow> dget r ''action_id'' \<noteq> Some PNone \<and>
     (\<exists>a \<in> set (table_rows db ''instance_actions''). of_deleted_instance db a \<and> dget a ''id'' = dget r ''action_id'')"

definition mark_deleted :: "(string \<times> string list) list \<Rightarrow> string \<Rightarrow> tables_db \<Rightarrow> tables_db result" where
  "mark_deleted known name db =
     (if name = ''instance_actions'' \<or> name = ''migrations'' then
        bind_r (ditem known ''instances'') (\<lambda>_. Inr (soft_delete_where (of_deleted_instance db) name db))
      else if name = ''instance_actions_events'' then
        bind_r (ditem known ''instances'') (\<lambda>_.
        bind_r (ditem known ''instance_actions'') (\<lambda>_.
          Inr (soft_delete_where (of_deleted_action db) name db)))
      else Inr db)"

definition archive_if_instance_deleted ::
  "(tables_db \<Rightarrow> string \<Rightarrow> pyval option list \<Rightarrow> bool) \<Rightarrow> string \<Rightarrow> string list \<Rightarrow> int option \<Rightarrow> tables_db \<Rightarrow>
   int result \<times> tables_db" where
  "archive_if_instance_deleted refd name cols max_rows db =
     move_rows refd name cols (of_deleted_instance db) ''id'' max_rows db"

definition archive_deleted_rows_for_table ::
  "(string \<times> string list) list \<Rightarrow> (tables_db \<Rightarrow> string \<Rightarrow> pyval option list \<Rightarrow> bool) \<Rightarrow> string \<Rightarrow> int option \<Rightarrow>
   tables_db \<Rightarrow> int result \<times> tables_db" where
  "archive_deleted_rows_for_table known refd name max_rows db =
     (case dget known name of
        None \<Rightarrow> (Inl (KeyError name), db)
      | Some cols \<Rightarrow>
          if \<not> dhas db (shadow name) then (Inr 0, db)
          else (case mark_deleted known name db of
              Inl e \<Rightarrow> (Inl e, db)
            | Inr db1 \<Rightarrow>
                (case move_rows refd name cols marked (key_column name) max_rows db1 of
                   (Inl e, db2) \<Rightarrow> (Inl e, db2)
                 | (Inr n, db2) \<Rightarrow>
                     if (case max_rows of None \<Rightarrow> True | Some m \<Rightarrow> n < m) \<and> ''instance_uuid'' \<in> set cols
                     then (if \<not> dhas known ''instances'' then (Inl (KeyError ''instances''), db2)
                       else (case archive_if_instance_deleted refd name cols (map_option (\<lambda>m. m - n) max_rows) db2 of
                           (Inl e, db3) \<Rightarrow> (Inl e, db3)
                         | (Inr k, db3) \<Rightarrow> (Inr (n + k), db3)))
                     else (Inr n, db2))))"

section \<open>All tables\<close>

text \<open>\<open>names\<close> are the tables of the database, dependent ones first.\<close>

definition skipped_table :: "string \<Rightarrow> bool" where
  "skipped_table name \<longleftrightarrow> name = ''migrate_version'' \<or> starts_with SHADOW_TABLE_PREFIX name"

fun archive_tables ::
  "(string \<times> string list) list \<Rightarrow> (tables_db \<Rightarrow> string \<Rightarrow> pyval option list \<Rightarrow> bool) \<Rightarrow> int \<Rightarrow> string list \<Rightarrow> int \<Rightarrow>
   (string \<times> int) list \<Rightarrow> tables_db \<Rightarrow> (string \<times> int) list result \<times> tables_db" where
  "archive_tables known refd max_rows [] total_rows report db = (Inr report, db)"
| "archive_tables known refd max_rows (name # names) total_rows report db =
     (if skipped_table name then archive_tables known refd max_rows names total_rows report db
      else (case archive_deleted_rows_for_table known refd name (Some (max_rows - total_rows)) db of
          (Inl e, db1) \<Rightarrow> (Inl e, db1)
        | (Inr n, db1) \<Rightarrow>
            (let report1 = (if n \<noteq> 0 then dset name n report else report) in
             if total_rows + n \<ge> max_rows then (Inr report1, db1)
             else archive_tables known refd max_rows names (total_rows + n) report1 db1)))"

text \<open>Without a maximum the first subtraction fails.\<close>

definition archive_deleted_rows ::
  "(string \<times> string list) list \<Rightarrow> (tables_db \<Rightarrow> string \<Rightarrow> pyval option list \<Rightarrow> bool) \<Rightarrow> string list \<Rightarrow> int option \<Rightarrow>
   tables_db \<Rightarrow> (string \<times> int) list result \<times> tables_db" where
  "archive_deleted_rows known refd names max_rows db =
     (case max_rows of
        None \<Rightarrow> (if list_all skipped_table names then Inr [] else Inl TypeError, db)
      | Some m \<Rightarrow> archive_tables known refd m names 0 [] db)"

section \<open>What archiving moves\<close>

text \<open>Keys are unique over a table and its shadow, and the rows have the columns of the model.\<close>

definition table_ok :: "string list \<Rightarrow> string \<Rightarrow> tables_db \<Rightarrow> bool" where
  "table_ok cols n db \<longleftrightarrow>
     distinct (map (\<lambda>r. dget r ''id'') (table_rows db n @ table_rows db (shadow n))) \<and>
     (\<forall>r \<in> set (table_rows db n). fst ` set r \<subseteq> set cols)"

definition moved :: "string \<Rightarrow> row list \<Rightarrow> tables_db \<Rightarrow> tables_db \<Rightarrow> bool" where
  "moved n xs db db' \<longleftrightarrow> distinct xs \<and> set xs \<subseteq> set (filter marked (table_rows db n)) \<and>
     table_rows db' n = filter (\<lambda>r. r \<notin> set xs) (table_rows db n) \<and>
     table_rows db' (shadow n) = table_rows db (shadow n) @ xs"

text \<open>Tables that are archived by their \<open>deleted\<close> column alone.\<close>

definition plain_tables :: "(string \<times> string list) list \<Rightarrow> bool" where
  "plain_tables known \<longleftrightarrow> (\<forall>(n, cols) \<in> set known. \<not> skipped_table n \<and> ''instance_uuid'' \<notin> set cols \<and>
     n \<notin> {''dns_domains'', ''instance_actions'', ''migrations'', ''instance_actions_events''})"

lemma plain_known:
  assumes "plain_tables known" "dget known n = Some cols"
  shows "\<not> skipped_table n" "''instance_uuid'' \<notin> set cols"
    "n \<notin> {''dns_domains'', ''instance_actions'', ''migrations'', ''instance_actions_events''}"
  using bspec [OF assms(1) [unfolded plain_tables_def] map_of_SomeD [OF assms(2)]] by auto

lemma nova_tables_plain: "plain_tables nova_tables" "dict_ok nova_tables"
  by (simp_all add: plain_tables_def nova_tables_def skipped_table_def Let_def starts_with_def SHADOW_TABLE_PREFIX_def)

lemma shadow_neq [simp]: "shadow n \<noteq> n" "n \<noteq> shadow n" "shadow n = shadow k \<longleftrightarrow> n = k"
  by (auto simp: shadow_def SHADOW_TABLE_PREFIX_def dest: arg_cong [of _ _ length])

lemma not_shadow: "\<not> skipped_table n \<Longrightarrow> n \<noteq> shadow k"
  by (auto simp: shadow_def starts_with_iff skipped_table_def)

lemma table_rows_dset [simp]: "table_rows (dset n rs db) k = (if k = n then rs else table_rows db k)"
  by (simp add: table_rows_def)

lemma select_first_props:
  assumes "distinct (map (\<lambda>r. dget r ''id'') rs)"
  shows "distinct (select_first p col limit rs)" "set (select_first p col limit rs) \<subseteq> set (filter p rs)"
    "limit = Some m \<Longrightarrow> 0 \<le> m \<Longrightarrow> int (length (select_first p col limit rs)) \<le> m"
    "limit = Some m \<Longrightarrow> int (length (select_first p col limit rs)) < m \<Longrightarrow> set (select_first p col limit rs) = set (filter p rs)"
proof -
  from assms have d: "distinct rs" by (simp add: distinct_map)
  then show "distinct (select_first p col limit rs)"
    by (auto simp: select_first_def Let_def split: option.split)
  show "set (select_first p col limit rs) \<subseteq> set (filter p rs)"
    by (auto simp: select_first_def Let_def split: option.splits dest: in_set_takeD)
  show "int (length (select_first p col limit rs)) \<le> m" if "limit = Some m" "0 \<le> m"
    using that by (simp add: select_first_def Let_def)
  show "set (select_first p col limit rs) = set (filter p rs)"
    if "limit = Some m" "int (length (select_first p col limit rs)) < m"
    using that by (simp add: select_first_def Let_def min_def split: if_splits)
qed

lemma move_rows_plain:
  assumes ok: "table_ok cols n db" and run: "move_rows refd n cols marked ''id'' limit db = (r, db')"
  shows "\<exists>xs. r = Inr (int (length xs)) \<and> moved n xs db db' \<and> (\<forall>m. limit = Some m \<longrightarrow> 0 \<le> m \<longrightarrow> int (length xs) \<le> m) \<and>
    (\<forall>k. k \<noteq> n \<longrightarrow> k \<noteq> shadow n \<longrightarrow> table_rows db' k = table_rows db k) \<and>
    (\<forall>k. dhas db k \<longrightarrow> dhas db' k) \<and>
    ((\<forall>d k ks. \<not> refd d k ks) \<longrightarrow> (\<forall>m. limit = Some m \<longrightarrow> int (length xs) < m \<longrightarrow> filter marked (table_rows db' n) = []))"
proof -
  let ?id = "\<lambda>r. dget r ''id''"
  let ?rs = "table_rows db n"
  define xs where "xs = select_first marked ''id'' limit ?rs"
  from ok have dk: "distinct (map ?id ?rs)" and fresh: "\<forall>s \<in> set (table_rows db (shadow n)). \<forall>r \<in> set ?rs. ?id s \<noteq> ?id r"
    by (auto simp: table_ok_def)
  note sel = select_first_props [OF dk, where p = marked and col = "''id''" and limit = limit, folded xs_def]
  have inj: "inj_on ?id (set ?rs)" using dk by (simp add: distinct_map)
  have sub: "set xs \<subseteq> set ?rs" using sel(2) by auto
  have "distinct (map ?id xs)" using sel(1) inj sub by (simp add: distinct_map inj_on_subset)
  moreover have "\<not> (\<exists>s \<in> set (table_rows db (shadow n)). ?id s \<in> set (map ?id xs))" using fresh sub by fastforce
  moreover have kept: "filter (\<lambda>r. ?id r \<notin> set (map ?id xs)) ?rs = filter (\<lambda>r. r \<notin> set xs) ?rs"
    by (rule filter_cong [OF refl]) (use inj sub in \<open>auto dest: inj_onD\<close>)
  moreover have copied: "map (filter (\<lambda>(c, v). c \<in> set cols)) xs = xs"
  proof (rule map_idI)
    fix r
    assume "r \<in> set xs"
    with ok sub have "fst ` set r \<subseteq> set cols" unfolding table_ok_def by blast
    then show "filter (\<lambda>(c, v). c \<in> set cols) r = r" by (intro filter_True) fastforce
  qed
  moreover have "(r, db') = (if \<not> distinct (map ?id xs) \<or> (\<exists>s \<in> set (table_rows db (shadow n)). ?id s \<in> set (map ?id xs))
      then (Inl (OtherError ''DBDuplicateEntry''), db)
      else if refd db n (map ?id xs) then (Inr 0, db)
      else (Inr (int (length ?rs) - int (length (filter (\<lambda>r. ?id r \<notin> set (map ?id xs)) ?rs))),
        dset (shadow n) (table_rows db (shadow n) @ map (filter (\<lambda>(c, v). c \<in> set cols)) xs)
          (dset n (filter (\<lambda>r. ?id r \<notin> set (map ?id xs)) ?rs) db)))"
    unfolding run [symmetric] move_rows_def Let_def xs_def by (rule refl)
  ultimately have r: "(r, db') = (if refd db n (map ?id xs) then (Inr 0, db)
      else (Inr (int (length ?rs) - int (length (filter (\<lambda>r. r \<notin> set xs) ?rs))),
        dset (shadow n) (table_rows db (shadow n) @ xs) (dset n (filter (\<lambda>r. r \<notin> set xs) ?rs) db)))"
    by (simp only: not_True_eq_False simp_thms if_False)
  have "length ?rs = length (filter (\<lambda>r. r \<in> set xs) ?rs) + length (filter (\<lambda>r. r \<notin> set xs) ?rs)"
    by (rule sum_length_filter_compl [symmetric])
  moreover have "length (filter (\<lambda>r. r \<in> set xs) ?rs) = length xs"
  proof -
    have "set (filter (\<lambda>r. r \<in> set xs) ?rs) = set xs" using sub by auto
    moreover have "distinct (filter (\<lambda>r. r \<in> set xs) ?rs)" using dk by (simp add: distinct_map)
    ultimately show ?thesis using sel(1) by (metis distinct_card)
  qed
  ultimately have len: "int (length ?rs) - int (length (filter (\<lambda>r. r \<notin> set xs) ?rs)) = int (length xs)" by simp
  show ?thesis
  proof (cases "refd db n (map ?id xs)")
    case True
    with r show ?thesis by (intro exI [of _ "[]"]) (auto simp: moved_def)
  next
    case False
    with r len have "r = Inr (int (length xs))"
      "db' = dset (shadow n) (table_rows db (shadow n) @ xs) (dset n (filter (\<lambda>r. r \<notin> set xs) ?rs) db)" by simp_all
    with sel show ?thesis by (intro exI [of _ xs]) (auto simp: moved_def)
  qed
qed

lemma moved_none [simp]: "moved n [] db db"
  by (simp add: moved_def)

lemma moved_ok:
  assumes "table_ok cols n db" "moved n xs db db'"
  shows "table_ok cols n db'"
    and "mset (table_rows db' n) + mset (table_rows db' (shadow n)) = mset (table_rows db n) + mset (table_rows db (shadow n))"
proof -
  let ?rs = "table_rows db n" and ?kept = "filter (\<lambda>r. r \<notin> set xs) (table_rows db n)"
  have d: "distinct ?rs" using assms(1) by (simp add: table_ok_def distinct_map)
  have xs: "distinct xs" "set xs \<subseteq> set ?rs" using assms(2) by (auto simp: moved_def)
  have "mset ?kept + mset xs = mset ?rs"
  proof -
    have "mset ?kept = mset_set (set ?kept)" by (rule mset_set_set [symmetric]) (rule distinct_filter [OF d])
    then have "mset ?kept + mset xs = mset_set (set ?kept) + mset_set (set xs)" using xs by (simp only: mset_set_set)
    also have "\<dots> = mset_set (set ?kept \<union> set xs)" by (rule mset_set_Union [symmetric]) auto
    also have "set ?kept \<union> set xs = set ?rs" using xs by auto
    finally show ?thesis using d by (simp add: mset_set_set)
  qed
  then show m: "mset (table_rows db' n) + mset (table_rows db' (shadow n)) = mset ?rs + mset (table_rows db (shadow n))"
    using assms(2) by (simp add: moved_def ac_simps)
  then have "mset (table_rows db' n @ table_rows db' (shadow n)) = mset (?rs @ table_rows db (shadow n))" by simp
  then have "distinct (map (\<lambda>r. dget r ''id'') (table_rows db' n @ table_rows db' (shadow n)))"
    using assms(1) unfolding table_ok_def by (metis mset_map mset_eq_imp_distinct_iff)
  moreover have "\<forall>r \<in> set (table_rows db' n). fst ` set r \<subseteq> set cols"
    using assms by (simp add: moved_def table_ok_def)
  ultimately show "table_ok cols n db'" unfolding table_ok_def by blast
qed

text \<open>One table of the plain ones: the others keep their rows.\<close>

lemma archive_table_plain:
  assumes plain: "plain_tables known" and n: "dget known n = Some cols" and ok: "table_ok cols n db"
    and run: "archive_deleted_rows_for_table known refd n (Some m) db = (r, db')"
  shows "\<exists>xs. r = Inr (int (length xs)) \<and> moved n xs db db' \<and> (0 \<le> m \<longrightarrow> int (length xs) \<le> m) \<and>
    (\<forall>k. k \<noteq> n \<longrightarrow> k \<noteq> shadow n \<longrightarrow> table_rows db' k = table_rows db k) \<and>
    (\<forall>k. dhas db k \<longrightarrow> dhas db' k) \<and>
    ((\<forall>d k ks. \<not> refd d k ks) \<longrightarrow> dhas db (shadow n) \<longrightarrow> int (length xs) < m \<longrightarrow> filter marked (table_rows db' n) = [])"
proof (cases "dhas db (shadow n)")
  case False
  with run n show ?thesis by (intro exI [of _ "[]"]) (auto simp: archive_deleted_rows_for_table_def)
next
  case True
  note p = plain_known(2,3) [OF plain n]
  obtain x db2 where mv: "move_rows refd n cols marked ''id'' (Some m) db = (x, db2)" by fastforce
  from move_rows_plain [OF ok mv] obtain xs where xs: "x = Inr (int (length xs))" "moved n xs db db2"
    "0 \<le> m \<longrightarrow> int (length xs) \<le> m" "\<forall>k. k \<noteq> n \<longrightarrow> k \<noteq> shadow n \<longrightarrow> table_rows db2 k = table_rows db k"
    "\<forall>k. dhas db k \<longrightarrow> dhas db2 k"
    "(\<forall>d k ks. \<not> refd d k ks) \<longrightarrow> int (length xs) < m \<longrightarrow> filter marked (table_rows db2 n) = []"
    by auto
  have "mark_deleted known n db = Inr db" using p(2) by (simp add: mark_deleted_def)
  with run True n p mv xs(1) have "r = x" "db' = db2"
    by (auto simp: archive_deleted_rows_for_table_def key_column_def)
  with xs show ?thesis by blast
qed

text \<open>The loop: what it moves of each table, and what it reports.\<close>

definition rows_moved :: "(string \<Rightarrow> row list) \<Rightarrow> string list \<Rightarrow> int" where
  "rows_moved xs names = sum_list (map (\<lambda>n. int (length (xs n))) names)"

lemma rows_moved_nonneg: "0 \<le> rows_moved xs names"
  by (induction names) (simp_all add: rows_moved_def)

definition emptied :: "(string \<times> string list) list \<Rightarrow> string list \<Rightarrow> tables_db \<Rightarrow> tables_db \<Rightarrow> bool" where
  "emptied known names db db' \<longleftrightarrow> (\<forall>n \<in> set names. dget known n \<noteq> None \<longrightarrow> dhas db (shadow n) \<longrightarrow>
     filter marked (table_rows db' n) = [])"

definition archived ::
  "(string \<times> string list) list \<Rightarrow> string list \<Rightarrow> (string \<Rightarrow> row list) \<Rightarrow> tables_db \<Rightarrow> tables_db \<Rightarrow> bool" where
  "archived known names xs db db' \<longleftrightarrow>
     (\<forall>n. if n \<in> set names \<and> dget known n \<noteq> None then True else xs n = []) \<and>
     (\<forall>n. dget known n \<noteq> None \<longrightarrow> moved n (xs n) db db')"

lemma archivedI:
  assumes "\<And>n. n \<notin> set names \<Longrightarrow> xs n = []" "\<And>n. dget known n = None \<Longrightarrow> xs n = []"
    and "\<And>n. dget known n \<noteq> None \<Longrightarrow> moved n (xs n) db db'"
  shows "archived known names xs db db'"
  using assms by (auto simp: archived_def)

lemma archived_none: "archived known names (\<lambda>n. []) db db"
  by (simp add: archived_def)

text \<open>A table first, then the others.\<close>

lemma archived_step:
  assumes n: "n \<notin> set names" "dget known n \<noteq> None" and ys: "moved n ys db db1"
    and same: "\<And>k. k \<noteq> n \<Longrightarrow> dget known k \<noteq> None \<Longrightarrow>
      table_rows db1 k = table_rows db k \<and> table_rows db1 (shadow k) = table_rows db (shadow k)"
    and xs: "archived known names xs db1 db'"
  shows "archived known (n # names) (xs(n := ys)) db db'"
    and "rows_moved (xs(n := ys)) (n # names) = int (length ys) + rows_moved xs names"
    and "(dhas db (shadow n) \<Longrightarrow> filter marked (table_rows db1 n) = []) \<Longrightarrow> emptied known names db1 db' \<Longrightarrow>
      (\<And>k. dhas db k \<Longrightarrow> dhas db1 k) \<Longrightarrow> emptied known (n # names) db db'"
proof -
  have n1: "xs n = []" using xs n by (auto simp: archived_def)
  have mv: "moved n [] db1 db'" using xs n n1 unfolding archived_def by metis
  show "archived known (n # names) (xs(n := ys)) db db'"
  proof (rule archivedI)
    fix k
    show "(xs(n := ys)) k = []" if "k \<notin> set (n # names)" using that xs by (auto simp: archived_def)
    show "(xs(n := ys)) k = []" if "dget known k = None" using that xs n by (auto simp: archived_def)
    show "moved k ((xs(n := ys)) k) db db'" if k: "dget known k \<noteq> None"
    proof (cases "k = n")
      case True
      with mv ys show ?thesis by (simp add: moved_def)
    next
      case False
      from k xs have "moved k (xs k) db1 db'" unfolding archived_def by blast
      with False same [OF False k] show ?thesis by (simp add: moved_def)
    qed
  qed
  show "rows_moved (xs(n := ys)) (n # names) = int (length ys) + rows_moved xs names"
    using n(1) by (auto simp: rows_moved_def intro!: arg_cong [of _ _ sum_list] map_cong)
  assume "dhas db (shadow n) \<Longrightarrow> filter marked (table_rows db1 n) = []" "emptied known names db1 db'" "\<And>k. dhas db k \<Longrightarrow> dhas db1 k"
  with mv show "emptied known (n # names) db db'" by (auto simp: emptied_def moved_def)
qed

lemma archive_tables_plain:
  assumes plain: "plain_tables known"
  shows "distinct names \<Longrightarrow> \<forall>n cols. dget known n = Some cols \<longrightarrow> table_ok cols n db \<Longrightarrow> total_rows \<le> max_rows \<Longrightarrow>
    \<forall>n \<in> set names. \<not> dhas report n \<Longrightarrow>
    archive_tables known refd max_rows names total_rows report db = (r, db') \<Longrightarrow>
    \<exists>xs. archived known names xs db db' \<and>
      (case r of
         Inl e \<Rightarrow> \<exists>n \<in> set names. e = KeyError n \<and> dget known n = None \<and> \<not> skipped_table n
       | Inr report' \<Rightarrow>
           (\<forall>n. dgetd report' n 0 = dgetd report n 0 + int (length (xs n))) \<and>
           total_rows + rows_moved xs names \<le> max_rows \<and>
           ((\<forall>d k ks. \<not> refd d k ks) \<longrightarrow> total_rows + rows_moved xs names < max_rows \<longrightarrow> emptied known names db db'))"
proof (induction names arbitrary: db total_rows report)
  case Nil
  then have "r = Inr report" "db' = db" by simp_all
  moreover have "rows_moved (\<lambda>n. []) [] = 0" by (simp add: rows_moved_def)
  ultimately show ?case using Nil.prems(3) archived_none [of known "[]" db]
    by (intro exI [of _ "\<lambda>n. []"]) (simp add: emptied_def)
next
  case (Cons n names)
  have d: "n \<notin> set names" "distinct names" using Cons.prems(1) by auto
  show ?case
  proof (cases "skipped_table n")
    case True
    then have none: "dget known n = None" using plain_known(1) [OF plain] by (cases "dget known n") blast+
    from Cons.prems True have "\<forall>n \<in> set names. \<not> dhas report n"
      "archive_tables known refd max_rows names total_rows report db = (r, db')" by auto
    from Cons.IH [OF d(2) Cons.prems(2,3) this] obtain xs where xs: "archived known names xs db db'" and
      r: "case r of Inl e \<Rightarrow> \<exists>n \<in> set names. e = KeyError n \<and> dget known n = None \<and> \<not> skipped_table n
       | Inr report' \<Rightarrow>
           (\<forall>n. dgetd report' n 0 = dgetd report n 0 + int (length (xs n))) \<and>
           total_rows + rows_moved xs names \<le> max_rows \<and>
           ((\<forall>d k ks. \<not> refd d k ks) \<longrightarrow> total_rows + rows_moved xs names < max_rows \<longrightarrow> emptied known names db db')"
      by blast
    have "xs n = []" using xs none by (auto simp: archived_def)
    then have "rows_moved xs (n # names) = rows_moved xs names" by (simp add: rows_moved_def)
    moreover have "archived known (n # names) xs db db'" using xs by (auto simp: archived_def split: if_splits)
    moreover have "emptied known (n # names) db db' = emptied known names db db'" using none by (simp add: emptied_def)
    ultimately show ?thesis using r by (intro exI [of _ xs]) (auto split: sum.splits)
  next
    case run: False
    show ?thesis
    proof (cases "dget known n")
      case None
      with Cons.prems(5) run have "r = Inl (KeyError n)" "db' = db"
        by (simp_all add: archive_deleted_rows_for_table_def)
      with None run archived_none [of known "n # names" db] show ?thesis by (intro exI [of _ "\<lambda>n. []"]) simp
    next
      case (Some cols)
      obtain x db1 where t: "archive_deleted_rows_for_table known refd n (Some (max_rows - total_rows)) db = (x, db1)"
        by fastforce
      from Cons.prems(2) Some have "table_ok cols n db" by blast
      from archive_table_plain [OF plain Some this t] obtain ys where
        ys: "x = Inr (int (length ys))" "moved n ys db db1" "0 \<le> max_rows - total_rows \<longrightarrow> int (length ys) \<le> max_rows - total_rows"
          "\<forall>k. k \<noteq> n \<longrightarrow> k \<noteq> shadow n \<longrightarrow> table_rows db1 k = table_rows db k" "\<forall>k. dhas db k \<longrightarrow> dhas db1 k"
          "(\<forall>d k ks. \<not> refd d k ks) \<longrightarrow> dhas db (shadow n) \<longrightarrow> int (length ys) < max_rows - total_rows \<longrightarrow>
             filter marked (table_rows db1 n) = []" by blast
      have fits: "total_rows + int (length ys) \<le> max_rows" using ys(3) Cons.prems(3) by linarith
      have n: "dget known n \<noteq> None" using Some by simp
      have same: "table_rows db1 k = table_rows db k" "table_rows db1 (shadow k) = table_rows db (shadow k)"
        if "k \<noteq> n" "dget known k \<noteq> None" for k
      proof -
        have "\<not> skipped_table k" using that plain_known(1) [OF plain] by blast
        with that run ys(4) show "table_rows db1 k = table_rows db k" "table_rows db1 (shadow k) = table_rows db (shadow k)"
          by (auto dest: not_shadow)
      qed
      define report1 where "report1 = (if int (length ys) \<noteq> 0 then dset n (int (length ys)) report else report)"
      have rep1: "dgetd report1 k 0 = dgetd report k 0 + (if k = n then int (length ys) else 0)" for k
        using Cons.prems(4) by (auto simp: report1_def dgetd_def dhas_def split: option.splits)
      show ?thesis
      proof (cases "max_rows \<le> total_rows + int (length ys)")
        case True
        with Cons.prems(5) run t ys(1) have "r = Inr report1" "db' = db1"
          by (simp_all add: report1_def Let_def split: if_splits)
        moreover have "archived known (n # names) ((\<lambda>k. [])(n := ys)) db db1"
          "rows_moved ((\<lambda>k. [])(n := ys)) (n # names) = int (length ys) + rows_moved (\<lambda>k. []) names"
          using archived_step(1,2) [OF d(1) n ys(2) _ archived_none] same by blast+
        moreover have "rows_moved (\<lambda>k. []) names = 0" by (simp add: rows_moved_def)
        moreover have "dgetd report1 k 0 = dgetd report k 0 + int (length (((\<lambda>k. [])(n := ys)) k))" for k
          using rep1 by simp
        ultimately show ?thesis using True fits
          by (intro exI [of _ "(\<lambda>k. [])(n := ys)"]) (simp del: fun_upd_apply)
      next
        case False
        with Cons.prems(5) run t ys(1)
        have rest: "archive_tables known refd max_rows names (total_rows + int (length ys)) report1 db1 = (r, db')"
          by (simp add: report1_def Let_def)
        have "\<forall>k \<in> set names. \<not> dhas report1 k"
          using Cons.prems(4) d by (auto simp: report1_def)
        moreover have "\<forall>k cols. dget known k = Some cols \<longrightarrow> table_ok cols k db1"
        proof (intro allI impI)
          fix k c
          assume k: "dget known k = Some c"
          with Cons.prems(2) have "table_ok c k db" by blast
          with moved_ok(1) [OF _ ys(2)] same [of k] k show "table_ok c k db1"
            by (cases "k = n") (auto simp: table_ok_def)
        qed
        ultimately obtain xs where xs: "archived known names xs db1 db'" and
          r: "case r of Inl e \<Rightarrow> \<exists>n \<in> set names. e = KeyError n \<and> dget known n = None \<and> \<not> skipped_table n
           | Inr report' \<Rightarrow>
               (\<forall>n. dgetd report' n 0 = dgetd report1 n 0 + int (length (xs n))) \<and>
               total_rows + int (length ys) + rows_moved xs names \<le> max_rows \<and>
               ((\<forall>d k ks. \<not> refd d k ks) \<longrightarrow> total_rows + int (length ys) + rows_moved xs names < max_rows \<longrightarrow>
                  emptied known names db1 db')"
          using Cons.IH [OF d(2) _ fits _ rest] by blast
        note step = archived_step [OF d(1) n ys(2) _ xs]
        have xn: "xs n = []" using xs d(1) by (auto simp: archived_def)
        have 1: "archived known (n # names) (xs(n := ys)) db db'"
          "rows_moved (xs(n := ys)) (n # names) = int (length ys) + rows_moved xs names"
          using step(1,2) same by blast+
        have 2: "emptied known (n # names) db db'"
          if "dhas db (shadow n) \<Longrightarrow> filter marked (table_rows db1 n) = []" "emptied known names db1 db'"
          using that step(3) same ys(5) by blast
        show ?thesis
        proof (intro exI [of _ "xs(n := ys)"] conjI)
          show "archived known (n # names) (xs(n := ys)) db db'" by (rule 1)
          show "case r of Inl e \<Rightarrow> \<exists>k \<in> set (n # names). e = KeyError k \<and> dget known k = None \<and> \<not> skipped_table k
           | Inr report' \<Rightarrow>
               (\<forall>k. dgetd report' k 0 = dgetd report k 0 + int (length ((xs(n := ys)) k))) \<and>
               total_rows + rows_moved (xs(n := ys)) (n # names) \<le> max_rows \<and>
               ((\<forall>d k ks. \<not> refd d k ks) \<longrightarrow> total_rows + rows_moved (xs(n := ys)) (n # names) < max_rows \<longrightarrow>
                  emptied known (n # names) db db')"
          proof (cases r)
            case (Inl e)
            with r show ?thesis by auto
          next
            case (Inr report')
            from Inr r have r1: "\<forall>k. dgetd report' k 0 = dgetd report1 k 0 + int (length (xs k))"
              "total_rows + int (length ys) + rows_moved xs names \<le> max_rows"
              "(\<forall>d k ks. \<not> refd d k ks) \<longrightarrow> total_rows + int (length ys) + rows_moved xs names < max_rows \<longrightarrow>
                  emptied known names db1 db'" by simp_all
            have "0 \<le> rows_moved xs names" by (rule rows_moved_nonneg)
            then have "emptied known (n # names) db db'"
              if "\<forall>d k ks. \<not> refd d k ks" "total_rows + rows_moved (xs(n := ys)) (n # names) < max_rows"
              using that r1(3) ys(6) by (intro 2) (auto simp: 1(2))
            moreover have "dgetd report' k 0 = dgetd report k 0 + int (length ((xs(n := ys)) k))" for k
              using r1(1) rep1 [of k] xn by simp
            ultimately show ?thesis using Inr r1(2) 1(2) by simp
          qed
        qed
      qed
    qed
  qed
qed

text \<open>
  C20: archiving with a maximum. Rows are neither lost nor doubled: of every table of the models,
  some deleted rows have gone to the end of its shadow table, and nothing else has changed in
  either. The call fails only at a table of the database that no model declares, keeping what it
  moved before. Otherwise its report counts the rows moved from each table, together at most the
  maximum, and when they are fewer and no foreign key is in the way, no deleted row is left
  in any table that has a shadow.
\<close>

theorem archive_moves_deleted:
  assumes ok: "\<forall>n cols. dget nova_tables n = Some cols \<longrightarrow> table_ok cols n db" and "0 \<le> m" "distinct names"
    and run: "archive_deleted_rows nova_tables refd names (Some m) db = (r, db')"
  shows "\<exists>xs.
    (\<forall>n cols. dget nova_tables n = Some cols \<longrightarrow> moved n (xs n) db db' \<and> table_ok cols n db' \<and>
       mset (table_rows db' n) + mset (table_rows db' (shadow n)) = mset (table_rows db n) + mset (table_rows db (shadow n))) \<and>
    (case r of
       Inl e \<Rightarrow> \<exists>n \<in> set names. e = KeyError n \<and> dget nova_tables n = None \<and> \<not> skipped_table n
     | Inr report \<Rightarrow>
         (\<forall>n. dgetd report n 0 = int (length (xs n))) \<and> rows_moved xs names \<le> m \<and>
         ((\<forall>d k ks. \<not> refd d k ks) \<longrightarrow> rows_moved xs names < m \<longrightarrow> emptied nova_tables names db db'))"
proof -
  from run have run: "archive_tables nova_tables refd m names 0 [] db = (r, db')" by (simp add: archive_deleted_rows_def)
  have "\<forall>n \<in> set names. \<not> dhas ([] :: (string \<times> int) list) n" by (simp add: dhas_def)
  from archive_tables_plain [OF nova_tables_plain(1) assms(3) ok assms(2) this run] obtain xs where
    xs: "archived nova_tables names xs db db'" and
    r: "case r of Inl e \<Rightarrow> \<exists>n \<in> set names. e = KeyError n \<and> dget nova_tables n = None \<and> \<not> skipped_table n
      | Inr report \<Rightarrow> (\<forall>n. dgetd report n 0 = dgetd [] n 0 + int (length (xs n))) \<and> 0 + rows_moved xs names \<le> m \<and>
         ((\<forall>d k ks. \<not> refd d k ks) \<longrightarrow> 0 + rows_moved xs names < m \<longrightarrow> emptied nova_tables names db db')"
    by blast
  have "moved n (xs n) db db' \<and> table_ok cols n db' \<and>
      mset (table_rows db' n) + mset (table_rows db' (shadow n)) = mset (table_rows db n) + mset (table_rows db (shadow n))"
    if "dget nova_tables n = Some cols" for n cols
    using that xs ok moved_ok [of cols n db "xs n" db'] unfolding archived_def by simp
  with r show ?thesis by (intro exI [of _ xs]) (auto simp: dgetd_def split: sum.splits)
qed

text \<open>Without a maximum, as the signature allows, the call fails before it does anything.\<close>

lemma archive_without_maximum:
  "name \<in> set names \<Longrightarrow> \<not> skipped_table name \<Longrightarrow> archive_deleted_rows known refd names None db = (Inl TypeError, db)"
  by (auto simp: archive_deleted_rows_def list_all_iff)

section \<open>Samples\<close>

definition plan_row :: "int \<Rightarrow> int \<Rightarrow> row" where
  "plan_row i del = [(''id'', PInt i), (''testplan_name'', PStr ''p''), (''deleted'', PInt del)]"

definition plans_db :: tables_db where
  "plans_db = [(''TestPlan'', [plan_row 1 1, plan_row 2 0, plan_row 3 3]), (''shadow_TestPlan'', [])]"

lemma plans_db_rows:
  "table_rows plans_db n = (if n = ''TestPlan'' then [plan_row 1 1, plan_row 2 0, plan_row 3 3] else [])"
  by (simp add: table_rows_def plans_db_def dgetd_def)

theorem archive_moves_deleted_witness:
  "archive_deleted_rows nova_tables (\<lambda>d k ks. False) [''TestPlan'', ''shadow_TestPlan''] (Some 5) plans_db =
     (Inr [(''TestPlan'', 2)], [(''TestPlan'', [plan_row 2 0]), (''shadow_TestPlan'', [plan_row 1 1, plan_row 3 3])]) \<and>
   (\<exists>xs. dgetd [(''TestPlan'', 2)] ''TestPlan'' 0 = int (length (xs ''TestPlan'')) \<and> rows_moved xs [''TestPlan'', ''shadow_TestPlan''] \<le> 5)"
proof -
  have run: "archive_deleted_rows nova_tables (\<lambda>d k ks. False) [''TestPlan'', ''shadow_TestPlan''] (Some 5) plans_db =
     (Inr [(''TestPlan'', 2)], [(''TestPlan'', [plan_row 2 0]), (''shadow_TestPlan'', [plan_row 1 1, plan_row 3 3])])"
    by code_simp
  have "table_ok cols n plans_db" if "dget nova_tables n = Some cols" for n cols
    using that by (auto simp: table_ok_def plans_db_rows plan_row_def nova_tables_def Let_def shadow_def
        SHADOW_TABLE_PREFIX_def split: if_splits)
  then have ok: "\<forall>n cols. dget nova_tables n = Some cols \<longrightarrow> table_ok cols n plans_db" by blast
  have "distinct [''TestPlan'', ''shadow_TestPlan'']" by simp
  from archive_moves_deleted [OF ok _ this run] run show ?thesis by auto
qed

end
