(* ===== verification/ApiCommon.thy ===== *)
theory ApiCommon
  imports Utils QuotaDriver
begin

text \<open>
  What the API controllers share (\<^verbatim>\<open>nova/api/openstack/common.py\<close>): sort and page parameters,
  the links of a response, and checks of a request; with \<^verbatim>\<open>process_sort_params\<close> of
  \<^verbatim>\<open>nova/db/sqlalchemy/api.py\<close>, which completes the sort parameters, and
  \<^verbatim>\<open>bool_from_string\<close> of \<^verbatim>\<open>oslo_utils/strutils.py\<close>.
\<close>

section \<open>Sort parameters\<close>

text \<open>\<open>popped k\<close> are the values of the query parameter \<open>k\<close>, in the order popping gives them.\<close>

definition get_sort_params :: "(string \<Rightarrow> string list) \<Rightarrow> string \<Rightarrow> string \<Rightarrow> string list \<times> string list" where
  "get_sort_params popped default_key default_dir =
     (let keys = map strip (popped ''sort_key''); dirs = map strip (popped ''sort_dir'')
      in (if keys = [] \<and> default_key \<noteq> [] then [default_key] else keys,
          if dirs = [] \<and> default_dir \<noteq> [] then [default_dir] else dirs))"

fun add_default_keys :: "string \<Rightarrow> string list \<Rightarrow> string list \<times> string list \<Rightarrow> string list \<times> string list" where
  "add_default_keys dir [] kd = kd"
| "add_default_keys dir (k # ks) (keys, dirs) =
     add_default_keys dir ks (if k \<in> set keys then (keys, dirs) else (keys @ [k], dirs @ [dir]))"

definition in_quotes :: "string \<Rightarrow> string" where
  "in_quotes s = char_of (39 :: nat) # s @ [char_of (39 :: nat)]"

definition process_sort_params ::
  "string list option \<Rightarrow> string list option \<Rightarrow> string list \<Rightarrow> string \<Rightarrow> (string list \<times> string list) result" where
  "process_sort_params sort_keys sort_dirs default_keys default_dir =
     (let given_dirs = (case sort_dirs of None \<Rightarrow> [] | Some ds \<Rightarrow> ds);
          default_dir_value = (case given_dirs of [] \<Rightarrow> default_dir | d # ds \<Rightarrow> d);
          result_keys = (case sort_keys of None \<Rightarrow> [] | Some ks \<Rightarrow> ks)
      in if \<exists>d \<in> set given_dirs. d \<noteq> ''asc'' \<and> d \<noteq> ''desc''
         then Inl (Nova InvalidInput (''Unknown sort direction, must be '' @ in_quotes ''desc'' @ '' or '' @ in_quotes ''asc''))
         else
           (let result_dirs = (if given_dirs = [] then map (\<lambda>k. default_dir_value) result_keys else given_dirs);
                padded = result_dirs @ replicate (length result_keys - length result_dirs) default_dir_value
            in if length padded > length result_keys
               then Inl (Nova InvalidInput ''Sort direction size exceeds sort key size'')
               else Inr (add_default_keys default_dir_value default_keys (result_keys, padded))))"

section \<open>Pages\<close>

text \<open>\<open>GET\<close> is the query of the request.\<close>

definition get_int_param :: "(string \<Rightarrow> string option) \<Rightarrow> string \<Rightarrow> int option result" where
  "get_int_param GET param =
     (case GET param of
        None \<Rightarrow> Inr None
      | Some v \<Rightarrow>
          (case validate_integer v (Some 0) None param of
             Inl (Nova c m) \<Rightarrow>
               if is_a c InvalidInput then Inl (HTTPError 400 (''Invalid input received: '' @ m)) else Inl (Nova c m)
           | Inl e \<Rightarrow> Inl e
           | Inr n \<Rightarrow> Inr (Some n)))"

record page_params =
  p_limit :: "int option"
  p_page_size :: "int option"
  p_marker :: "string option"
  p_offset :: "int option"

definition get_pagination_params :: "(string \<Rightarrow> string option) \<Rightarrow> page_params result" where
  "get_pagination_params GET =
     bind_r (get_int_param GET ''limit'') (\<lambda>l.
     bind_r (get_int_param GET ''page_size'') (\<lambda>ps.
     bind_r (get_int_param GET ''offset'') (\<lambda>off.
       Inr \<lparr>p_limit = l, p_page_size = ps, p_marker = GET ''marker'', p_offset = off\<rparr>)))"

text \<open>Slicing with bounds that are not negative.\<close>

definition limited :: "int \<Rightarrow> 'a list \<Rightarrow> (string \<Rightarrow> string option) \<Rightarrow> 'a list result" where
  "limited max_limit items GET =
     bind_r (get_pagination_params GET) (\<lambda>p.
       let offset = (case p_offset p of None \<Rightarrow> 0 | Some n \<Rightarrow> n);
           limit = min max_limit (case p_limit p of None \<Rightarrow> max_limit | Some n \<Rightarrow> if n = 0 then max_limit else n)
       in Inr (take (nat limit) (drop (nat offset) items)))"

definition get_limit_and_marker :: "int \<Rightarrow> (string \<Rightarrow> string option) \<Rightarrow> (int \<times> string option) result" where
  "get_limit_and_marker max_limit GET =
     bind_r (get_pagination_params GET) (\<lambda>p.
       Inr (min max_limit (case p_limit p of None \<Rightarrow> max_limit | Some n \<Rightarrow> n), p_marker p))"

section \<open>URLs\<close>

text \<open>\<^verbatim>\<open>urlsplit\<close> and \<^verbatim>\<open>urlunsplit\<close> of Python 2's \<^verbatim>\<open>urlparse\<close>.\<close>

record url =
  u_scheme :: string
  u_netloc :: string
  u_path :: string
  u_query :: string
  u_fragment :: string

definition scheme_char :: "char \<Rightarrow> bool" where
  "scheme_char c \<longleftrightarrow> is_digit c \<or> is_upper c \<or> is_upper (char_of ((of_char c :: nat) - 32)) \<and> 97 \<le> (of_char c :: nat) \<or>
     c = CHR ''+'' \<or> c = CHR ''-'' \<or> c = CHR ''.''"

definition net_end :: "char \<Rightarrow> bool" where
  "net_end c \<longleftrightarrow> c = CHR ''/'' \<or> c = CHR ''?'' \<or> c = CHR ''#''"

definition split_scheme :: "string \<Rightarrow> string \<times> string" where
  "split_scheme u =
     (case split_first (CHR '':'') u of
        None \<Rightarrow> ([], u)
      | Some (s, rest) \<Rightarrow>
          if s = [] then ([], u)
          else if s = ''http'' then (s, rest)
          else if list_all scheme_char s \<and> int_of_string rest = None then (lower s, rest)
          else ([], u))"

definition urlsplit :: "string \<Rightarrow> url result" where
  "urlsplit u0 =
     (case split_scheme u0 of (scheme, u1) \<Rightarrow>
       (case (if starts_with ''//'' u1 then (takeWhile (\<lambda>c. \<not> net_end c) (drop 2 u1), dropWhile (\<lambda>c. \<not> net_end c) (drop 2 u1))
              else ([], u1)) of (netloc, u2) \<Rightarrow>
          if (CHR ''['' \<in> set netloc) \<noteq> (CHR '']'' \<in> set netloc) then Inl ValueError
          else
            (case (case split_first (CHR ''#'') u2 of None \<Rightarrow> (u2, []) | Some p \<Rightarrow> p) of (u3, fragment) \<Rightarrow>
             (case (case split_first (CHR ''?'') u3 of None \<Rightarrow> (u3, []) | Some p \<Rightarrow> p) of (path, query) \<Rightarrow>
                Inr \<lparr>u_scheme = scheme, u_netloc = netloc, u_path = path, u_query = query, u_fragment = fragment\<rparr>))))"

definition uses_netloc :: "string list" where
  "uses_netloc = [''ftp'', ''http'', ''gopher'', ''nntp'', ''telnet'', ''imap'', ''wais'', ''file'', ''mms'', ''https'',
     ''shttp'', ''snews'', ''prospero'', ''rtsp'', ''rtspu'', ''rsync'', [], ''svn'', ''svn+ssh'', ''sftp'', ''nfs'',
     ''git'', ''git+ssh'']"

definition urlunsplit :: "url \<Rightarrow> string" where
  "urlunsplit u =
     (let p0 = u_path u;
          p1 = (if u_netloc u \<noteq> [] \<or> (u_scheme u \<noteq> [] \<and> u_scheme u \<in> set uses_netloc \<and> \<not> starts_with ''//'' p0)
                then ''//'' @ u_netloc u @ (if p0 \<noteq> [] \<and> hd p0 \<noteq> CHR ''/'' then CHR ''/'' # p0 else p0) else p0);
          p2 = (if u_scheme u \<noteq> [] then u_scheme u @ CHR '':'' # p1 else p1);
          p3 = (if u_query u \<noteq> [] then p2 @ CHR ''?'' # u_query u else p2)
      in if u_fragment u \<noteq> [] then p3 @ CHR ''#'' # u_fragment u else p3)"

definition slash :: "char \<Rightarrow> bool" where
  "slash c \<longleftrightarrow> c = CHR ''/''"

definition url_join :: "string list \<Rightarrow> string" where
  "url_join parts0 =
     (let parts = (if parts0 = [] then [[]] else parts0);
          clean_parts = map (strip_by slash) (filter (\<lambda>p. p \<noteq> []) parts)
      in join_with [CHR ''/''] (if last parts = [] then clean_parts @ [[]] else clean_parts))"

definition get_id_from_href :: "string \<Rightarrow> string result" where
  "get_id_from_href href = bind_r (urlsplit href) (\<lambda>u. Inr (last (split_on (CHR ''/'') (u_path u))))"

text \<open>
  The regular expression for a version: digits, or digits, a dot and digits, up to a slash
  or the end, which may be a final newline.
\<close>

definition at_end :: "string \<Rightarrow> bool" where
  "at_end s \<longleftrightarrow> s = [] \<or> s = [char_of (10 :: nat)] \<or> hd s = CHR ''/''"

definition is_version_part :: "string \<Rightarrow> bool" where
  "is_version_part s =
     (case s of
        [] \<Rightarrow> False
      | c # r \<Rightarrow> c = CHR ''v'' \<and>
          (let ds = takeWhile is_digit r; r1 = dropWhile is_digit r
           in ds \<noteq> [] \<and> (at_end r1 \<or>
                (case r1 of
                   [] \<Rightarrow> False
                 | d # r2 \<Rightarrow> d = CHR ''.'' \<and> takeWhile is_digit r2 \<noteq> [] \<and> at_end (dropWhile is_digit r2)))))"

definition remove_trailing_version_from_href :: "string \<Rightarrow> string result" where
  "remove_trailing_version_from_href href =
     bind_r (urlsplit href) (\<lambda>u.
       case (case split_last (CHR ''/'') (u_path u) of None \<Rightarrow> ([], u_path u) | Some (a, b) \<Rightarrow> ([a], b)) of
         (url_parts, popped) \<Rightarrow>
           if \<not> is_version_part popped then Inl ValueError
           else Inr (urlunsplit (u\<lparr>u_path := url_join url_parts\<rparr>)))"

section \<open>Links\<close>

text \<open>
  A request as the view builder sees it; \<open>next_query\<close> is the encoded query with its marker
  replaced.
\<close>

record view_request =
  application_url :: string
  request_url :: string
  request_project :: string
  next_query :: "string \<Rightarrow> string"
  limit_param :: "string option"

definition contains :: "string \<Rightarrow> string \<Rightarrow> bool" where
  "contains s sub \<longleftrightarrow> (\<exists>k \<in> {0..length s}. starts_with sub (drop k s))"

definition get_project_id :: "view_request \<Rightarrow> string" where
  "get_project_id R = (if contains (request_url R) (request_project R) then request_project R else [])"

definition update_link_prefix :: "string \<Rightarrow> string \<Rightarrow> string result" where
  "update_link_prefix orig_url pre =
     (if pre = [] then Inr orig_url
      else bind_r (urlsplit orig_url) (\<lambda>u. bind_r (urlsplit pre) (\<lambda>p.
        Inr (rstrip_char (CHR ''/'')
          (urlunsplit (u\<lparr>u_scheme := u_scheme p, u_netloc := u_netloc p, u_path := u_path p @ u_path u\<rparr>))))))"

definition get_href_link :: "string \<Rightarrow> view_request \<Rightarrow> string \<Rightarrow> string \<Rightarrow> string result" where
  "get_href_link link_prefix R identifier collection_name =
     bind_r (update_link_prefix (application_url R) link_prefix) (\<lambda>pre.
       Inr (url_join [pre, get_project_id R, collection_name, identifier]))"

definition get_bookmark_link :: "string \<Rightarrow> view_request \<Rightarrow> string \<Rightarrow> string \<Rightarrow> string result" where
  "get_bookmark_link link_prefix R identifier collection_name =
     bind_r (remove_trailing_version_from_href (application_url R)) (\<lambda>base_url.
     bind_r (update_link_prefix base_url link_prefix) (\<lambda>base.
       Inr (url_join [base, get_project_id R, collection_name, identifier])))"

definition get_links :: "string \<Rightarrow> view_request \<Rightarrow> string \<Rightarrow> string \<Rightarrow> (string \<times> string) list result" where
  "get_links link_prefix R identifier collection_name =
     bind_r (get_href_link link_prefix R identifier collection_name) (\<lambda>h.
     bind_r (get_bookmark_link link_prefix R identifier collection_name) (\<lambda>b.
       Inr [(''self'', h), (''bookmark'', b)]))"

definition get_next_link :: "string \<Rightarrow> view_request \<Rightarrow> string \<Rightarrow> string \<Rightarrow> string result" where
  "get_next_link link_prefix R identifier collection_name =
     bind_r (update_link_prefix (application_url R) link_prefix) (\<lambda>pre.
       Inr (url_join [pre, get_project_id R, collection_name] @ CHR ''?'' # next_query R identifier))"

text \<open>The items are dictionaries; the last one's id is looked up under three keys.\<close>

definition item_id :: "string \<Rightarrow> (string \<times> string) list \<Rightarrow> string result" where
  "item_id id_key item =
     (if dhas item id_key then ditem item id_key
      else if dhas item ''id'' then ditem item ''id''
      else ditem item ''flavorid'')"

definition get_collection_links ::
  "string \<Rightarrow> int \<Rightarrow> view_request \<Rightarrow> (string \<times> string) list list \<Rightarrow> string \<Rightarrow> string \<Rightarrow> (string \<times> string) list result" where
  "get_collection_links link_prefix max_limit R items collection_name id_key =
     bind_r (case limit_param R of
         None \<Rightarrow> Inr max_limit
       | Some t \<Rightarrow> (case int_of_string t of None \<Rightarrow> Inl ValueError | Some n \<Rightarrow> Inr n)) (\<lambda>n.
       let max_items = min n max_limit in
       if max_items \<noteq> 0 \<and> max_items = int (length items)
       then bind_r (item_id id_key (last items)) (\<lambda>i.
            bind_r (get_next_link link_prefix R i collection_name) (\<lambda>h. Inr [(''next'', h)]))
       else Inr [])"

section \<open>Checks of a request\<close>

definition TRUE_STRINGS :: "string list" where
  "TRUE_STRINGS = [''1'', ''t'', ''true'', ''on'', ''y'', ''yes'']"

definition FALSE_STRINGS :: "string list" where
  "FALSE_STRINGS = [''0'', ''f'', ''false'', ''off'', ''n'', ''no'']"

text \<open>\<open>text\<close> is \<^verbatim>\<open>six.text_type\<close>, needed for what is no string.\<close>

definition bool_from_string :: "(pyval \<Rightarrow> string) \<Rightarrow> pyval \<Rightarrow> bool \<Rightarrow> bool \<Rightarrow> bool result" where
  "bool_from_string text subject strict dflt =
     (case subject of
        PBool b \<Rightarrow> Inr b
      | _ \<Rightarrow>
          (let lowered = lower (strip (case subject of PStr s \<Rightarrow> s | v \<Rightarrow> text v))
           in if lowered \<in> set TRUE_STRINGS then Inr True
              else if lowered \<in> set FALSE_STRINGS then Inr False
              else if strict then Inl ValueError else Inr dflt))"

definition is_all_tenants :: "(pyval \<Rightarrow> string) \<Rightarrow> pydict \<Rightarrow> bool result" where
  "is_all_tenants text search_opts =
     (case dget search_opts ''all_tenants'' of
        None \<Rightarrow> Inr False
      | Some v \<Rightarrow>
          if truthy v
          then (case bool_from_string text v True False of
              Inl ValueError \<Rightarrow> Inl (Nova InvalidInput []) | r \<Rightarrow> r)
          else Inr True)"

definition check_img_metadata_properties_quota ::
  "qctx \<Rightarrow> registry \<Rightarrow> quota_db \<Rightarrow> pyval \<Rightarrow> unit result" where
  "check_img_metadata_properties_quota c reg d metadata =
     (if \<not> truthy metadata then Inr ()
      else
        (let size = (case metadata of PDict m \<Rightarrow> Inr (int (length m)) | PList xs \<Rightarrow> Inr (int (length xs))
                     | PStr s \<Rightarrow> Inr (int (length s)) | _ \<Rightarrow> Inl TypeError) in
         bind_r size (\<lambda>n.
         case limit_check c reg [(''metadata_items'', n)] None None d of
           Inl (Nova cl m) \<Rightarrow>
             if is_a cl OverQuota then Inl (HTTPError 403 ''Image metadata limit exceeded'') else Inl (Nova cl m)
         | Inl e \<Rightarrow> Inl e
         | Inr _ \<Rightarrow>
             (case metadata of
                PDict m \<Rightarrow>
                  (case find (\<lambda>(k, v). k = [] \<or> 255 < length k) m of
                     None \<Rightarrow> Inr ()
                   | Some (k, v) \<Rightarrow>
                       Inl (HTTPError 400 (if k = [] then ''Image metadata key cannot be blank''
                                           else ''Image metadata key too long'')))
              | _ \<Rightarrow> Inl (HTTPError 400 ''Invalid image metadata'')))))"

section \<open>Networks of an instance\<close>

record 'ip vif =
  v_label :: string
  v_address :: string
  v_fixed :: "'ip list"
  v_floating :: "'ip list"

text \<open>Networks in the order their labels first appear; \<open>with_mac\<close> writes the address into an ip.\<close>

definition get_networks_for_instance_from_nw_info ::
  "(string \<Rightarrow> 'ip \<Rightarrow> 'ip) \<Rightarrow> 'ip vif list \<Rightarrow> (string \<times> ('ip list \<times> 'ip list)) list" where
  "get_networks_for_instance_from_nw_info with_mac nw_info =
     fold (\<lambda>v networks.
       (case dgetd networks (v_label v) ([], []) of (ips, floating) \<Rightarrow>
          dset (v_label v) (ips @ map (with_mac (v_address v)) (v_fixed v),
                            floating @ map (with_mac (v_address v)) (v_floating v)) networks)) nw_info []"

section \<open>What they guarantee\<close>

lemma add_default_keys_eq:
  "distinct ks \<Longrightarrow> add_default_keys dir ks (keys, dirs) =
     (keys @ filter (\<lambda>k. k \<notin> set keys) ks, dirs @ replicate (length (filter (\<lambda>k. k \<notin> set keys) ks)) dir)"
proof (induction ks arbitrary: keys dirs)
  case (Cons k ks)
  have "filter (\<lambda>x. x \<notin> set (keys @ [k])) ks = filter (\<lambda>x. x \<notin> set keys) ks"
    using Cons.prems by (intro filter_cong) auto
  with Cons show ?case by simp
qed simp

text \<open>
  Completing sort parameters. A direction other than the two is refused, and so are more
  directions than keys; otherwise the keys are the given ones, then the default ones that are
  missing, and the directions the given ones, then the first of them (or the default one) for
  every key that is left.
\<close>

theorem sort_params_completed:
  assumes "distinct default_keys"
  shows "let ks = (case keys of None \<Rightarrow> [] | Some x \<Rightarrow> x); ds = (case dirs of None \<Rightarrow> [] | Some x \<Rightarrow> x);
      rest = filter (\<lambda>k. k \<notin> set ks) default_keys; d0 = (if ds = [] then default_dir else hd ds) in
    if \<not> set ds \<subseteq> {''asc'', ''desc''} \<or> length ks < length ds
    then \<exists>m. process_sort_params keys dirs default_keys default_dir = Inl (Nova InvalidInput m)
    else process_sort_params keys dirs default_keys default_dir =
      Inr (ks @ rest, ds @ replicate (length ks + length rest - length ds) d0)"
proof -
  let ?ks = "case keys of None \<Rightarrow> [] | Some x \<Rightarrow> x" and ?ds = "case dirs of None \<Rightarrow> [] | Some x \<Rightarrow> x"
  let ?d0 = "if ?ds = [] then default_dir else hd ?ds"
  have d0: "(case ?ds of [] \<Rightarrow> default_dir | d # ds \<Rightarrow> d) = ?d0" by (auto split: list.split)
  have bad: "(\<exists>d \<in> set ?ds. d \<noteq> ''asc'' \<and> d \<noteq> ''desc'') \<longleftrightarrow> \<not> set ?ds \<subseteq> {''asc'', ''desc''}" by blast
  have dirs: "(if ?ds = [] then map (\<lambda>k. ?d0) ?ks else ?ds) @
      replicate (length ?ks - length (if ?ds = [] then map (\<lambda>k. ?d0) ?ks else ?ds)) ?d0 =
      ?ds @ replicate (length ?ks - length ?ds) ?d0"
    by (simp add: map_replicate_const)
  show ?thesis
  proof (cases "set ?ds \<subseteq> {''asc'', ''desc''} \<and> length ?ds \<le> length ?ks")
    case True
    then have "\<not> length (?ds @ replicate (length ?ks - length ?ds) ?d0) > length ?ks" by simp
    with True show ?thesis
      unfolding process_sort_params_def Let_def d0 bad dirs add_default_keys_eq [OF assms]
      by (simp add: replicate_add [symmetric])
  next
    case False
    then have "set ?ds \<subseteq> {''asc'', ''desc''} \<Longrightarrow> length (?ds @ replicate (length ?ks - length ?ds) ?d0) > length ?ks" by simp
    with False show ?thesis
      unfolding process_sort_params_def Let_def d0 bad dirs by auto
  qed
qed

text \<open>The query for one page.\<close>

definition page_query :: "int \<Rightarrow> int \<Rightarrow> string \<Rightarrow> string option" where
  "page_query n offset k =
     (if k = ''limit'' then Some (string_of_int n) else if k = ''offset'' then Some (string_of_int offset) else None)"

lemma page_query_params:
  "0 \<le> l \<Longrightarrow> 0 \<le> k \<Longrightarrow> get_pagination_params (page_query l k) =
     Inr \<lparr>p_limit = Some l, p_page_size = None, p_marker = None, p_offset = Some k\<rparr>"
  by (simp add: get_pagination_params_def get_int_param_def page_query_def validate_integer_def int_of_string_of_int)

lemma limited_page:
  "0 < l \<Longrightarrow> l \<le> max_limit \<Longrightarrow> 0 \<le> k \<Longrightarrow>
   limited max_limit items (page_query l k) = Inr (take (nat l) (drop (nat k) items))"
  by (simp add: limited_def page_query_params min_def)

text \<open>
  Pages by offset. Asking for pages of any size up to the maximum, one after the other,
  gives every item once and in order; a page is never longer than asked for.
\<close>

theorem limited_pages_cover:
  assumes "0 < l" "l \<le> max_limit" "int (length items) \<le> int n * l"
  shows "\<exists>pages. map (\<lambda>k. limited max_limit items (page_query l (int k * l))) [0..<n] = map Inr pages \<and>
    concat pages = items \<and> (\<forall>p \<in> set pages. int (length p) \<le> l)"
proof -
  let ?page = "\<lambda>k. take (nat l) (drop (k * nat l) items)"
  have "concat (map ?page [0..<k]) = take (k * nat l) items" for k
    by (induction k) (simp_all add: take_add [symmetric] add.commute)
  moreover have "length items \<le> n * nat l" using assms by (simp add: nat_le_iff flip: zle_int nat_mult_distrib)
  ultimately have "concat (map ?page [0..<n]) = items" by simp
  moreover have "limited max_limit items (page_query l (int k * l)) = Inr (?page k)" for k
    using limited_page [OF assms(1,2), of "int k * l"] assms(1) by (simp add: nat_mult_distrib)
  moreover have "\<forall>p \<in> set (map ?page [0..<n]). int (length p) \<le> l" using assms(1) by auto
  ultimately show ?thesis by (intro exI [of _ "map ?page [0..<n]"]) simp
qed

text \<open>A limit of zero means the maximum for one reader of the parameters and none for the other.\<close>

lemma zero_limit:
  "0 \<le> max_limit \<Longrightarrow> limited max_limit items (page_query 0 0) = Inr (take (nat max_limit) items)"
  "0 \<le> max_limit \<Longrightarrow> get_limit_and_marker max_limit (page_query 0 0) = Inr (0, None)"
  by (simp_all add: limited_def get_limit_and_marker_def page_query_params)

section \<open>Links without the version\<close>

definition base_chars :: "string \<Rightarrow> bool" where
  "base_chars s \<longleftrightarrow> CHR ''#'' \<notin> set s \<and> CHR ''?'' \<notin> set s"

lemma is_version_no_colon: "is_version_part v \<Longrightarrow> v \<noteq> []"
  by (auto simp: is_version_part_def)

lemma urlsplit_http:
  assumes "list_all (\<lambda>c. \<not> net_end c \<and> c \<noteq> CHR ''['' \<and> c \<noteq> CHR '']'') netloc" "base_chars path"
    and "path = [] \<or> hd path = CHR ''/''"
  shows "urlsplit (''http://'' @ netloc @ path) =
    Inr \<lparr>u_scheme = ''http'', u_netloc = netloc, u_path = path, u_query = [], u_fragment = []\<rparr>"
proof -
  have sch: "split_scheme (''http://'' @ netloc @ path) = (''http'', ''//'' @ netloc @ path)"
    by (simp add: split_scheme_def split_first_def)
  have tw: "takeWhile (\<lambda>c. \<not> net_end c) (netloc @ path) = netloc" "dropWhile (\<lambda>c. \<not> net_end c) (netloc @ path) = path"
    using assms(1,3) by (cases path; auto simp: takeWhile_append dropWhile_append list_all_iff net_end_def)+
  have "CHR ''['' \<notin> set netloc" "CHR '']'' \<notin> set netloc" using assms(1) by (auto simp: list_all_iff)
  moreover have "split_first (CHR ''#'') path = None" "split_first (CHR ''?'') path = None"
    using assms(2) by (auto simp: split_first_None base_chars_def)
  ultimately show ?thesis
    unfolding urlsplit_def sch by (simp add: starts_with_def tw)
qed

lemma strip_slash_ends: "strip_by slash p \<noteq> [] \<Longrightarrow> hd (strip_by slash p) \<noteq> CHR ''/''"
  using strip_by_ends [of slash p] by (simp add: slash_def)

lemma url_join_one: "url_join [p] = strip_by slash p"
  by (simp add: url_join_def Let_def strip_by_def)

lemma remove_version:
  assumes net: "list_all (\<lambda>c. \<not> net_end c \<and> c \<noteq> CHR ''['' \<and> c \<noteq> CHR '']'') netloc"
    and p: "base_chars p" "p = [] \<or> hd p = CHR ''/''" and v: "is_version_part v" "CHR ''/'' \<notin> set v" "base_chars v"
  shows "remove_trailing_version_from_href (''http://'' @ netloc @ p @ CHR ''/'' # v) =
    Inr (''http://'' @ netloc @ (if strip_by slash p = [] then [] else CHR ''/'' # strip_by slash p))"
proof -
  have "base_chars (p @ CHR ''/'' # v)" "p @ CHR ''/'' # v = [] \<or> hd (p @ CHR ''/'' # v) = CHR ''/''"
    using p v(3) by (cases p; auto simp: base_chars_def)+
  note u = urlsplit_http [OF net this]
  have "split_last (CHR ''/'') (p @ CHR ''/'' # v) = Some (p, v)" using v(2) by (simp add: split_last_Some)
  moreover have "take (Suc (Suc 0)) (strip_by slash p) \<noteq> ''//''"
    using strip_slash_ends [of p] by (cases "strip_by slash p") auto
  ultimately show ?thesis using u v(1) strip_slash_ends [of p]
    by (auto simp: remove_trailing_version_from_href_def url_join_one urlunsplit_def Let_def uses_netloc_def starts_with_def)
qed

lemma no_link_prefix [simp]: "update_link_prefix u [] = Inr u"
  by (simp add: update_link_prefix_def)

text \<open>
  The links of a resource. For an API served under a versioned path, the self link leads
  to the resource under that path, and the bookmark to the same place without the version.
\<close>

theorem links_of_resource:
  assumes "list_all (\<lambda>c. \<not> net_end c \<and> c \<noteq> CHR ''['' \<and> c \<noteq> CHR '']'') netloc"
    and "base_chars p" "p = [] \<or> hd p = CHR ''/''" "is_version_part v" "CHR ''/'' \<notin> set v" "base_chars v"
    and "application_url R = ''http://'' @ netloc @ p @ CHR ''/'' # v"
  shows "get_links [] R identifier collection_name =
    Inr [(''self'', url_join [application_url R, get_project_id R, collection_name, identifier]),
         (''bookmark'', url_join [''http://'' @ netloc @ (if strip_by slash p = [] then [] else CHR ''/'' # strip_by slash p),
            get_project_id R, collection_name, identifier])]"
  unfolding get_links_def get_href_link_def get_bookmark_link_def assms(7) remove_version [OF assms(1-6)]
  by simp

text \<open>
  Joining URL parts. The parts of a joined path can be read back: what is split at the
  slashes are the parts that are not empty, in their order.
\<close>

theorem url_join_split:
  assumes "parts \<noteq> []" "last parts \<noteq> []" "list_all (\<lambda>p. CHR ''/'' \<notin> set p) parts"
  shows "split_on (CHR ''/'') (url_join parts) = filter (\<lambda>p. p \<noteq> []) parts"
proof -
  have "strip_by slash p = p" if "p \<in> set parts" for p
    using assms(3) that by (intro strip_by_id) (auto simp: list_all_iff slash_def)
  then have "map (strip_by slash) (filter (\<lambda>p. p \<noteq> []) parts) = filter (\<lambda>p. p \<noteq> []) parts" by (intro map_idI) simp
  then have "url_join parts = join_with [CHR ''/''] (filter (\<lambda>p. p \<noteq> []) parts)"
    using assms(1,2) by (simp add: url_join_def Let_def)
  moreover have "last parts \<in> set (filter (\<lambda>p. p \<noteq> []) parts)" using assms(1,2) by simp
  then have "filter (\<lambda>p. p \<noteq> []) parts \<noteq> []" by (metis empty_iff empty_set)
  ultimately show ?thesis
    using split_join [of "filter (\<lambda>p. p \<noteq> []) parts" "CHR ''/''"] assms(3) by (simp add: list_all_iff)
qed

section \<open>Samples\<close>

definition sample_view :: view_request where
  "sample_view = \<lparr>application_url = ''http://h:8774/v2.1'', request_url = ''http://h:8774/v2.1/p/servers'',
     request_project = ''p'', next_query = (\<lambda>m. ''marker='' @ m), limit_param = None\<rparr>"

theorem sort_params_completed_witness:
  "process_sort_params (Some [''host'', ''id'']) (Some [''desc'']) [''created_at'', ''id''] ''asc'' =
     Inr ([''host'', ''id'', ''created_at''], [''desc'', ''desc'', ''desc''])"
proof -
  have "distinct [''created_at'', ''id'']" by simp
  from sort_params_completed [OF this, of "Some [''host'', ''id'']" "Some [''desc'']" "''asc''"]
  show ?thesis by (simp add: Let_def numeral_2_eq_2)
qed

theorem limited_pages_cover_witness:
  "\<exists>pages. map (\<lambda>k. limited 100 [1 :: nat, 2, 3] (page_query 2 (int k * 2))) [0..<2] = map Inr pages \<and> concat pages = [1, 2, 3]"
  using limited_pages_cover [of 2 100 "[1 :: nat, 2, 3]" 2] by auto

theorem links_of_resource_witness:
  "get_links [] sample_view ''7'' ''servers'' =
     Inr [(''self'', ''http://h:8774/v2.1/p/servers/7''), (''bookmark'', ''http://h:8774/p/servers/7'')]"
proof -
  have a: "list_all (\<lambda>c. \<not> net_end c \<and> c \<noteq> CHR ''['' \<and> c \<noteq> CHR '']'') ''h:8774''" by (simp add: net_end_def)
  have b: "base_chars []" "([] :: string) = [] \<or> hd [] = CHR ''/''" by (simp_all add: base_chars_def)
  have v: "is_version_part ''v2.1''" "CHR ''/'' \<notin> set ''v2.1''" "base_chars ''v2.1''" by code_simp+
  have app: "application_url sample_view = ''http://h:8774/v2.1''" by (simp add: sample_view_def)
  have u: "application_url sample_view = ''http://'' @ ''h:8774'' @ [] @ CHR ''/'' # ''v2.1''" by (simp add: sample_view_def)
  have g: "get_project_id sample_view = ''p''" by code_simp
  have j: "url_join [''http://h:8774/v2.1'', ''p'', ''servers'', ''7''] = ''http://h:8774/v2.1/p/servers/7''"
    "url_join [''http://h:8774'', ''p'', ''servers'', ''7''] = ''http://h:8774/p/servers/7''" by code_simp+
  show ?thesis
    using links_of_resource [OF a b v u, of "''7''" "''servers''"] j by (simp add: g app strip_by_def)
qed

theorem url_join_split_witness:
  "split_on (CHR ''/'') (url_join [''a'', [], ''b'']) = [''a'', ''b'']"
  using url_join_split [of "[''a'', [], ''b'']"] by simp

end
