(* ===== verification/Urlmap.thy ===== *)
theory Urlmap
  imports PyStr
begin

text \<open>
  The composite application (\<^verbatim>\<open>nova/api/openstack/urlmap.py\<close>): which API application answers a
  request, by path, content type or accepted types, and with which media type. The list of
  applications and the path normalisation are \<^verbatim>\<open>paste.urlmap\<close>'s; \<open>to_float\<close> is \<^verbatim>\<open>float\<close> of a text
  (a quality that is \<^verbatim>\<open>nan\<close> is outside the model: qualities are of a linear order).
\<close>

section \<open>Header values\<close>

definition dquote :: char where
  "dquote = char_of (34 :: nat)"

text \<open>Header values are byte strings, whose white space is that of ASCII.\<close>

definition http_space :: "char \<Rightarrow> bool" where
  "http_space c \<longleftrightarrow> (let n = (of_char c :: nat) in 9 \<le> n \<and> n \<le> 13 \<or> n = 32)"

definition unquote_header_value :: "string \<Rightarrow> string" where
  "unquote_header_value v = (if v \<noteq> [] \<and> hd v = dquote \<and> last v = dquote then butlast (tl v) else v)"

text \<open>\<^verbatim>\<open>urllib2.parse_http_list\<close>: \<open>part\<close> is the part being read, with whether it is in quotes or after a backslash.\<close>

fun http_list :: "bool \<Rightarrow> bool \<Rightarrow> string \<Rightarrow> string \<Rightarrow> string list" where
  "http_list esc quot part [] = (if part = [] then [] else [part])"
| "http_list esc quot part (c # cs) =
     (if esc then http_list False quot (part @ [c]) cs
      else if quot then
        (if c = char_of (92 :: nat) then http_list True quot part cs
         else http_list False (c \<noteq> dquote) (part @ [c]) cs)
      else if c = CHR '','' then part # http_list False False [] cs
      else http_list False (c = dquote) (part @ [c]) cs)"

definition parse_http_list :: "string \<Rightarrow> string list" where
  "parse_http_list s = map (strip_by http_space) (http_list False False [] s)"

definition parse_list_header :: "string \<Rightarrow> string list" where
  "parse_list_header v =
     map (\<lambda>item. if item \<noteq> [] \<and> hd item = dquote \<and> last item = dquote
                 then unquote_header_value (butlast (tl item)) else item) (parse_http_list v)"

text \<open>
  The pieces the regular expression finds, each after a semicolon: a key that is not empty, and
  a value that reaches to the next semicolon. A semicolon without a key is passed over; an
  equals sign without a value ends the piece.
\<close>

definition key_char :: "char \<Rightarrow> bool" where
  "key_char c \<longleftrightarrow> \<not> http_space c \<and> c \<noteq> CHR '';'' \<and> c \<noteq> CHR ''=''"

definition piece_value :: "string \<Rightarrow> string option" where
  "piece_value r =
     (case dropWhile http_space r of
        [] \<Rightarrow> None
      | c # r1 \<Rightarrow>
          if c \<noteq> CHR ''='' then None
          else (let field = takeWhile (\<lambda>x. x \<noteq> CHR '';'') r1; v = dropWhile http_space field
                in if field = [] then None else if v = [] then Some [last field] else Some v))"

definition option_piece :: "string \<Rightarrow> (string \<times> string option) option" where
  "option_piece s =
     (let s1 = dropWhile http_space s; key = takeWhile key_char s1
      in if key = [] then None
         else Some (unquote_header_value key, map_option unquote_header_value (piece_value (dropWhile key_char s1))))"

text \<open>Every match ends before the next semicolon, so the matches are those of the split pieces.\<close>

definition option_pieces :: "string \<Rightarrow> (string \<times> string option) list" where
  "option_pieces v = map the (filter (\<lambda>p. p \<noteq> None) (map option_piece (split_on (CHR '';'') v)))"

definition parse_options_header :: "string \<Rightarrow> (string \<times> (string \<times> string option) list) result" where
  "parse_options_header v =
     (if v = [] then Inr ([], [])
      else (case option_pieces v of
          [] \<Rightarrow> Inl (OtherError ''StopIteration'')
        | p # ps \<Rightarrow> Inr (fst p, fold (\<lambda>(k, x) d. dset k x d) ps [])))"

section \<open>The best accepted type\<close>

definition accept_types :: "string \<Rightarrow> (string \<times> (string \<times> string option) list) list result" where
  "accept_types v = map_r parse_options_header (parse_list_header v)"

definition match_mask :: "string \<Rightarrow> string \<Rightarrow> bool" where
  "match_mask pat content_type =
     (if CHR ''*'' \<notin> set pat then content_type = pat
      else if pat = ''*/*'' then True
      else hd (split_on (CHR ''/'') content_type) = take (length pat - 2) pat)"

record 'q best =
  b_quality :: 'q
  b_type :: "string option"
  b_params :: "(string \<times> string option) list"
  b_mask :: string

definition stars :: "string \<Rightarrow> nat" where
  "stars pat = count_list pat (CHR ''*'')"

text \<open>The quality of an accepted type; a \<^verbatim>\<open>q\<close> that is no number is skipped, one without a value fails.\<close>

definition quality :: "(string \<Rightarrow> 'q option) \<Rightarrow> 'q \<Rightarrow> (string \<times> string option) list \<Rightarrow> 'q option result" where
  "quality to_float one params =
     (case dget params ''q'' of
        None \<Rightarrow> Inr (Some one)
      | Some None \<Rightarrow> Inl TypeError
      | Some (Some t) \<Rightarrow> Inr (to_float t))"

definition consider_type ::
  "(string \<Rightarrow> 'q :: linorder option) \<Rightarrow> 'q \<Rightarrow> string \<Rightarrow> string \<times> (string \<times> string option) list \<Rightarrow> 'q best \<Rightarrow> 'q best result" where
  "consider_type to_float one content_type a b =
     (case a of (pat, params) \<Rightarrow>
       bind_r (quality to_float one params) (\<lambda>q.
         Inr (case q of
            None \<Rightarrow> b
          | Some x \<Rightarrow>
              if x < b_quality b then b
              else if b_quality b = x \<and> stars (b_mask b) \<le> stars pat then b
              else if match_mask pat content_type
              then \<lparr>b_quality = x, b_type = Some content_type, b_params = params, b_mask = pat\<rparr>
              else b)))"

definition best_match ::
  "(string \<Rightarrow> 'q :: linorder option) \<Rightarrow> 'q \<Rightarrow> 'q \<Rightarrow> string list \<Rightarrow> (string \<times> (string \<times> string option) list) list \<Rightarrow>
   'q best result" where
  "best_match to_float one minus_one supported accepted =
     fold_r (\<lambda>(t, a). consider_type to_float one t a) (List.product supported accepted)
       \<lparr>b_quality = minus_one, b_type = None, b_params = [], b_mask = ''*/*''\<rparr>"

section \<open>Applications\<close>

record app_entry =
  a_domain :: "string option"
  a_url :: string
  a_app :: string

definition given_domain :: "string option \<Rightarrow> bool" where
  "given_domain d \<longleftrightarrow> (case d of None \<Rightarrow> False | Some x \<Rightarrow> x \<noteq> [])"

definition serves :: "string \<Rightarrow> string \<Rightarrow> string \<Rightarrow> app_entry \<Rightarrow> bool" where
  "serves host port path e \<longleftrightarrow>
     (\<not> given_domain (a_domain e) \<or> a_domain e = Some host \<or> a_domain e = Some (host @ CHR '':'' # port)) \<and>
     (path = a_url e \<or> starts_with (a_url e @ ''/'') path)"

definition match_app :: "app_entry list \<Rightarrow> string \<Rightarrow> string \<Rightarrow> string \<Rightarrow> app_entry option" where
  "match_app apps host port path = find (serves host port path) apps"

text \<open>A request, and what the chosen application gets: the added script name and the path.\<close>

record map_request =
  m_host :: "string option"
  m_server :: string
  m_scheme :: string
  m_path :: string
  m_content_type :: string
  m_accept :: string

record target =
  t_app :: string
  t_script :: string
  t_path :: "string option"

text \<open>\<open>t_path = None\<close> leaves the path as it is.\<close>

definition set_script_name :: "app_entry \<Rightarrow> target" where
  "set_script_name e = \<lparr>t_app = a_app e, t_script = a_url e, t_path = None\<rparr>"

definition munge_path :: "string \<Rightarrow> app_entry \<Rightarrow> target" where
  "munge_path path e = \<lparr>t_app = a_app e, t_script = a_url e, t_path = Some (drop (length (a_url e)) path)\<rparr>"

definition path_strategy ::
  "string list \<Rightarrow> app_entry list \<Rightarrow> string \<Rightarrow> string \<Rightarrow> string \<Rightarrow> string option \<times> app_entry option" where
  "path_strategy supported apps host port path =
     ((case split_last (CHR ''.'') path of
         None \<Rightarrow> None
       | Some (a, ext) \<Rightarrow>
           if ''application/'' @ ext \<in> set supported then Some (''application/'' @ ext) else None),
      (if CHR ''/'' \<in> set path
       then (case match_app apps host port path of None \<Rightarrow> None | Some e \<Rightarrow> if a_url e \<noteq> [] then Some e else None)
       else None))"

definition versioned_app ::
  "app_entry list \<Rightarrow> string \<Rightarrow> string \<Rightarrow> (string \<times> string option) list \<Rightarrow> target option result" where
  "versioned_app apps host port params =
     (case dget params ''version'' of
        None \<Rightarrow> Inr None
      | Some None \<Rightarrow> Inl TypeError
      | Some (Some v) \<Rightarrow> Inr (map_option set_script_name (match_app apps host port (''/v'' @ v))))"

definition content_type_strategy ::
  "app_entry list \<Rightarrow> string \<Rightarrow> string \<Rightarrow> map_request \<Rightarrow> target option result" where
  "content_type_strategy apps host port R =
     bind_r (parse_options_header (m_content_type R)) (\<lambda>(name, params). versioned_app apps host port params)"

definition accept_strategy ::
  "(string \<Rightarrow> 'q :: linorder option) \<Rightarrow> 'q \<Rightarrow> 'q \<Rightarrow> app_entry list \<Rightarrow> string \<Rightarrow> string \<Rightarrow> map_request \<Rightarrow> string list \<Rightarrow>
   (string option \<times> target option) result" where
  "accept_strategy to_float one minus_one apps host port R supported =
     bind_r (accept_types (m_accept R)) (\<lambda>accepted.
     bind_r (best_match to_float one minus_one supported accepted) (\<lambda>b.
     bind_r (versioned_app apps host port (b_params b)) (\<lambda>t. Inr (b_type b, t))))"

definition host_and_port :: "map_request \<Rightarrow> string \<times> string" where
  "host_and_port R =
     (let host = lower (case m_host R of None \<Rightarrow> m_server R | Some h \<Rightarrow> h)
      in case split_first (CHR '':'') host of
           Some hp \<Rightarrow> hp
         | None \<Rightarrow> (host, if m_scheme R = ''http'' then ''80'' else ''443''))"

text \<open>The media type and the application, or none: then the not-found application answers.\<close>

definition urlmap_call ::
  "(string \<Rightarrow> 'q :: linorder option) \<Rightarrow> 'q \<Rightarrow> 'q \<Rightarrow> (string \<Rightarrow> string) \<Rightarrow> string list \<Rightarrow> app_entry list \<Rightarrow> map_request \<Rightarrow>
   (string \<times> target) option result" where
  "urlmap_call to_float one minus_one norm_path supported0 apps R =
     (case host_and_port R of (host, port) \<Rightarrow>
      (let path = norm_path (m_path R) in
       case path_strategy supported0 apps host port path of (mime0, by_path) \<Rightarrow>
         (let supported = (if (case by_path of None \<Rightarrow> False | Some e \<Rightarrow> a_url e @ ''/'' = path) \<or> path = ''/''
                           then supported0 @ [''application/atom+xml''] else supported0)
          in bind_r (case by_path of
                 Some e \<Rightarrow> Inr (Some (munge_path path e))
               | None \<Rightarrow> content_type_strategy apps host port R) (\<lambda>app1.
             bind_r (if mime0 = None \<or> app1 = None
                     then accept_strategy to_float one minus_one apps host port R supported
                     else Inr (None, None)) (\<lambda>(mime2, app2).
             (let mime = (case mime0 of Some t \<Rightarrow> t | None \<Rightarrow> (case mime2 of Some t \<Rightarrow> t | None \<Rightarrow> ''application/json''));
                  app = (case app1 of Some t \<Rightarrow> Some t | None \<Rightarrow>
                          (case app2 of Some t \<Rightarrow> Some t | None \<Rightarrow>
                            map_option (munge_path path) (match_app apps host port path)))
              in Inr (map_option (\<lambda>t. (mime, t)) app)))))))"

section \<open>What is chosen\<close>

text \<open>An accepted type suits a supported one, with a quality and its number of stars.\<close>

definition suits ::
  "(string \<Rightarrow> 'q :: linorder option) \<Rightarrow> 'q \<Rightarrow> string \<Rightarrow> string \<times> (string \<times> string option) list \<Rightarrow> 'q \<Rightarrow> bool" where
  "suits to_float one t a x \<longleftrightarrow> quality to_float one (snd a) = Inr (Some x) \<and> match_mask (fst a) t"

definition no_better :: "'q :: linorder \<times> nat \<Rightarrow> 'q \<times> nat \<Rightarrow> bool" where
  "no_better r s \<longleftrightarrow> fst r < fst s \<or> fst r = fst s \<and> snd s \<le> snd r"

definition b_rank :: "'q best \<Rightarrow> 'q \<times> nat" where
  "b_rank b = (b_quality b, stars (b_mask b))"

lemma no_better_trans: "no_better r s \<Longrightarrow> no_better s t \<Longrightarrow> no_better r t"
  by (auto simp: no_better_def)

lemma no_better_refl [simp]: "no_better r r"
  by (simp add: no_better_def)

lemma consider_type_step:
  assumes "consider_type to_float one t a b = Inr b'"
  shows "no_better (b_rank b) (b_rank b')"
    and "suits to_float one t a x \<Longrightarrow> no_better (x, stars (fst a)) (b_rank b')"
    and "b' = b \<or> (b_type b' = Some t \<and> b_params b' = snd a \<and> b_mask b' = fst a \<and> suits to_float one t a (b_quality b'))"
  using assms
  by (cases a; auto simp: consider_type_def bind_r_Inr_iff no_better_def b_rank_def suits_def not_less not_le
      split: option.splits if_splits)+

lemma consider_all:
  "fold_r (\<lambda>(t, a). consider_type to_float one t a) xs b = Inr b' \<Longrightarrow>
   no_better (b_rank b) (b_rank b') \<and>
   (\<forall>(t, a) \<in> set xs. \<forall>x. suits to_float one t a x \<longrightarrow> no_better (x, stars (fst a)) (b_rank b')) \<and>
   (b' = b \<or> (\<exists>(t, a) \<in> set xs. b_type b' = Some t \<and> b_params b' = snd a \<and> b_mask b' = fst a \<and>
      suits to_float one t a (b_quality b')))"
proof (induction xs arbitrary: b)
  case (Cons ta xs)
  obtain t a where ta: "ta = (t, a)" by (cases ta)
  from Cons.prems obtain b1 where b1: "consider_type to_float one t a b = Inr b1"
    "fold_r (\<lambda>(t, a). consider_type to_float one t a) xs b1 = Inr b'"
    by (auto simp: ta bind_r_Inr_iff)
  note step = consider_type_step [OF b1(1)] and rest = Cons.IH [OF b1(2)]
  have "no_better (x, stars (fst a)) (b_rank b')" if "suits to_float one t a x" for x
    using step(2) [OF that] rest no_better_trans by blast
  moreover have "no_better (b_rank b) (b_rank b')" using step(1) rest no_better_trans by blast
  ultimately show ?case using step(3) rest by (auto simp: ta)
qed simp

text \<open>
  The best accepted type. The type chosen is one that is supported, with the parameters of
  an accepted mask that it matches; no accepted mask that matches any supported type has a
  higher quality, nor the same quality and fewer stars. Nothing is chosen only when no mask
  matches, or those that do have a quality below the lowest.
\<close>

theorem best_match_best:
  assumes "best_match to_float one minus_one supported accepted = Inr b"
  shows "(\<forall>t \<in> set supported. \<forall>a \<in> set accepted. \<forall>x. suits to_float one t a x \<longrightarrow>
      no_better (x, stars (fst a)) (b_quality b, stars (b_mask b))) \<and>
    (case b_type b of
       None \<Rightarrow> b_params b = [] \<and> b_quality b = minus_one
     | Some t \<Rightarrow> t \<in> set supported \<and>
         (\<exists>a \<in> set accepted. b_params b = snd a \<and> b_mask b = fst a \<and> suits to_float one t a (b_quality b)))"
proof -
  from consider_all [OF assms [unfolded best_match_def]] have
    1: "\<forall>(t, a) \<in> set (List.product supported accepted). \<forall>x. suits to_float one t a x \<longrightarrow> no_better (x, stars (fst a)) (b_rank b)" and
    2: "b = \<lparr>b_quality = minus_one, b_type = None, b_params = [], b_mask = ''*/*''\<rparr> \<or>
      (\<exists>(t, a) \<in> set (List.product supported accepted). b_type b = Some t \<and> b_params b = snd a \<and> b_mask b = fst a \<and>
        suits to_float one t a (b_quality b))" by blast+
  from 1 have "\<forall>t \<in> set supported. \<forall>a \<in> set accepted. \<forall>x. suits to_float one t a x \<longrightarrow>
      no_better (x, stars (fst a)) (b_quality b, stars (b_mask b))" by (auto simp: b_rank_def)
  moreover from 2 have "case b_type b of
       None \<Rightarrow> b_params b = [] \<and> b_quality b = minus_one
     | Some t \<Rightarrow> t \<in> set supported \<and>
         (\<exists>a \<in> set accepted. b_params b = snd a \<and> b_mask b = fst a \<and> suits to_float one t a (b_quality b))"
    by (elim disjE) (simp, force)
  ultimately show ?thesis by blast
qed

text \<open>
  C27: routing by path. When the call finds its way and some application is mounted on a prefix of the path, the request
  goes to the one with the longest prefix (the list is kept longest first), whatever the
  headers ask for, and script name and path it is given make up the path of the request.
\<close>

theorem urlmap_longest_prefix:
  assumes "urlmap_call to_float one minus_one norm_path supported apps R = Inr r"
    and "host_and_port R = (host, port)" "path = norm_path (m_path R)" "CHR ''/'' \<in> set path"
    and "match_app apps host port path = Some e" "a_url e \<noteq> []"
    and "sorted_wrt (\<lambda>x y. length (a_url y) \<le> length (a_url x)) apps"
  shows "\<exists>mime t. r = Some (mime, t) \<and> t_app t = a_app e \<and> t_path t = Some (drop (length (t_script t)) path) \<and>
    t_script t @ drop (length (t_script t)) path = path \<and>
    (\<forall>f \<in> set apps. serves host port path f \<longrightarrow> length (a_url f) \<le> length (t_script t))"
proof -
  have by_path: "snd (path_strategy supported apps host port path) = Some e"
    using assms(4-6) by (simp add: path_strategy_def)
  then obtain mime0 where ps: "path_strategy supported apps host port path = (mime0, Some e)" by (cases "path_strategy supported apps host port path") auto
  from assms(1) obtain mime where r: "r = Some (mime, munge_path path e)"
    unfolding urlmap_call_def assms(2) prod.case Let_def assms(3) [symmetric] ps
    by (auto simp: bind_r_Inr_iff)
  from assms(5) have e: "serves host port path e" unfolding match_app_def by (auto dest: find_SomeD)
  then obtain rest where p: "path = a_url e @ rest"
    by (auto simp: serves_def starts_with_iff)
  have longest: "length (a_url f) \<le> length (a_url e)" if "f \<in> set apps" "serves host port path f" for f
    using assms(5,7) that unfolding match_app_def
    by (induction apps) (auto split: if_splits)
  show ?thesis using r p longest by (simp add: munge_path_def)
qed

text \<open>A header can make the whole call fail before any application is asked.\<close>

lemma accept_header_fails:
  "accept_types '';'' = Inl (OtherError ''StopIteration'')"
  "quality to_float one [(''q'', None)] = Inl TypeError"
  by (code_simp, simp add: quality_def)

section \<open>Samples\<close>

definition sample_apps :: "app_entry list" where
  "sample_apps = [\<lparr>a_domain = None, a_url = ''/v2.1'', a_app = ''osapi''\<rparr>, \<lparr>a_domain = None, a_url = [], a_app = ''versions''\<rparr>]"

definition sample_call :: map_request where
  "sample_call = \<lparr>m_host = Some ''H:8774'', m_server = [], m_scheme = ''http'', m_path = ''/v2.1/TestPlan'',
     m_content_type = [], m_accept = ''text/html;q=0.9, application/*;q=0.5''\<rparr>"

definition tenths :: "string \<Rightarrow> nat option" where
  "tenths s = nat_of_string (drop 2 s)"

theorem best_match_best_witness:
  "\<exists>b. best_match tenths 10 0 [''application/json''] [(''text/html'', [(''q'', Some ''0.9'')]), (''application/*'', [(''q'', Some ''0.5'')])] = Inr b \<and>
     b_type b = Some ''application/json'' \<and> suits tenths 10 ''application/json'' (''application/*'', [(''q'', Some ''0.5'')]) (b_quality b)"
proof -
  let ?acc = "[(''text/html'', [(''q'', Some ''0.9'')]), (''application/*'', [(''q'', Some ''0.5'')])]"
  have r: "best_match tenths 10 0 [''application/json''] ?acc =
      Inr \<lparr>b_quality = 5, b_type = Some ''application/json'', b_params = [(''q'', Some ''0.5'')], b_mask = ''application/*''\<rparr>"
    by code_simp
  from best_match_best [OF r] show ?thesis by (auto simp: r suits_def match_mask_def)
qed

theorem urlmap_longest_prefix_witness:
  "\<exists>mime t. urlmap_call tenths 10 0 id [''application/json''] sample_apps sample_call = Inr (Some (mime, t)) \<and>
     t_app t = ''osapi'' \<and> t_script t @ drop (length (t_script t)) ''/v2.1/TestPlan'' = ''/v2.1/TestPlan''"
proof -
  have r: "urlmap_call tenths 10 0 id [''application/json''] sample_apps sample_call =
      Inr (Some (''application/json'', \<lparr>t_app = ''osapi'', t_script = ''/v2.1'', t_path = Some ''/TestPlan''\<rparr>))"
    by code_simp
  have h: "host_and_port sample_call = (''h'', ''8774'')" by code_simp
  have p: "''/v2.1/TestPlan'' = id (m_path sample_call)" by (simp add: sample_call_def)
  have m: "match_app sample_apps ''h'' ''8774'' ''/v2.1/TestPlan'' = Some \<lparr>a_domain = None, a_url = ''/v2.1'', a_app = ''osapi''\<rparr>"
    by code_simp
  have "sorted_wrt (\<lambda>x y. length (a_url y) \<le> length (a_url x)) sample_apps" by (simp add: sample_apps_def)
  from urlmap_longest_prefix [OF r h p _ m _ this] r show ?thesis by auto
qed

end
