(* ===== verification/Rpc.thy ===== *)
theory Rpc
  imports PyStr
begin

text \<open>
  Remote calls: interface versions (\<^verbatim>\<open>oslo_messaging/_utils.py\<close>), targets (\<^verbatim>\<open>target.py\<close>), the
  client's call contexts (\<^verbatim>\<open>rpc/client.py\<close>), the transport's checks (\<^verbatim>\<open>transport.py\<close>), the
  dispatcher (\<^verbatim>\<open>rpc/dispatcher.py\<close>) and the server's handling of one message
  (\<^verbatim>\<open>rpc/server.py\<close>). The driver that carries a message and the endpoint's methods are
  parameters; the driver the services use is in \<open>Amqp\<close>.
\<close>

named_theorems rpc_defs \<open>definitions a call unfolds\<close>

section \<open>Interface versions\<close>

definition int_of_text :: "string \<Rightarrow> int result" where
  "int_of_text s = (case int_of_string s of None \<Rightarrow> Inl ValueError | Some n \<Rightarrow> Inr n)"

definition int_part :: "nat \<Rightarrow> string list \<Rightarrow> int result" where
  "int_part i ps = (if i < length ps then int_of_text (ps ! i) else Inl IndexError)"

text \<open>The revision is optional.\<close>

definition revision :: "string list \<Rightarrow> int result" where
  "revision ps = (if 2 < length ps then int_of_text (ps ! 2) else Inr 0)"

definition version_is_compatible :: "string option \<Rightarrow> string option \<Rightarrow> bool result" where
  "version_is_compatible imp_version version =
     (case imp_version of
        None \<Rightarrow> Inr True
      | Some iv \<Rightarrow>
          (case version of
             None \<Rightarrow> Inr False
           | Some v \<Rightarrow>
               (let vp = split_on (CHR ''.'') v; ip = split_on (CHR ''.'') iv
                in bind_r (int_part 0 vp) (\<lambda>major. bind_r (int_part 0 ip) (\<lambda>imp_major.
                   if major \<noteq> imp_major then Inr False
                   else bind_r (int_part 1 vp) (\<lambda>minor. bind_r (int_part 1 ip) (\<lambda>imp_minor.
                     if minor > imp_minor then Inr False
                     else if minor = imp_minor
                     then bind_r (revision vp) (\<lambda>rev. bind_r (revision ip) (\<lambda>imp_rev. Inr (\<not> rev > imp_rev)))
                     else Inr True)))))))"

section \<open>Targets\<close>

record rpc_target =
  tg_exchange :: "string option"
  tg_topic :: "string option"
  tg_namespace :: "string option"
  tg_version :: "string option"
  tg_server :: "string option"
  tg_fanout :: bool
  accepted_namespaces :: "string option list"

definition Target ::
  "string option \<Rightarrow> string option \<Rightarrow> string option \<Rightarrow> string option \<Rightarrow> string option \<Rightarrow> bool \<Rightarrow>
   string option list \<Rightarrow> rpc_target" where
  "Target exchange topic namespace version server fanout legacy_namespaces =
     \<lparr>tg_exchange = exchange, tg_topic = topic, tg_namespace = namespace, tg_version = version,
      tg_server = server, tg_fanout = fanout, accepted_namespaces = namespace # legacy_namespaces\<rparr>"

definition default_target :: rpc_target where
  "default_target = Target None None None None None False []"

text \<open>What \<^verbatim>\<open>prepare\<close> is given: \<open>None\<close> is the marker of a parameter left out.\<close>

record overrides =
  o_exchange :: "string option option"
  o_topic :: "string option option"
  o_namespace :: "string option option"
  o_version :: "string option option"
  o_server :: "string option option"
  o_fanout :: "bool option"
  o_timeout :: "rat option option"
  o_version_cap :: "string option option"
  o_retry :: "int option option"

definition no_overrides :: overrides where
  "no_overrides = \<lparr>o_exchange = None, o_topic = None, o_namespace = None, o_version = None, o_server = None,
     o_fanout = None, o_timeout = None, o_version_cap = None, o_retry = None\<rparr>"

definition given_or :: "'a option \<Rightarrow> 'a \<Rightarrow> 'a" where
  "given_or x d = (case x of None \<Rightarrow> d | Some y \<Rightarrow> y)"

text \<open>A called target keeps what is not given; the other accepted namespaces are not among it.\<close>

definition target_call :: "overrides \<Rightarrow> rpc_target \<Rightarrow> rpc_target" where
  "target_call w t =
     Target (given_or (o_exchange w) (tg_exchange t)) (given_or (o_topic w) (tg_topic t))
       (given_or (o_namespace w) (tg_namespace t)) (given_or (o_version w) (tg_version t))
       (given_or (o_server w) (tg_server t)) (given_or (o_fanout w) (tg_fanout t)) []"

section \<open>The client\<close>

record 'c serializer =
  serialize_entity :: "'c \<Rightarrow> pyval \<Rightarrow> pyval result"
  deserialize_entity :: "'c \<Rightarrow> pyval \<Rightarrow> pyval result"
  serialize_context :: "'c \<Rightarrow> pydict result"
  deserialize_context :: "pydict \<Rightarrow> 'c result"

record call_context =
  cc_target :: rpc_target
  cc_timeout :: "rat option"
  cc_version_cap :: "string option"
  cc_retry :: "int option"

text \<open>A version that is given must be one that can be compared.\<close>

definition messaging_exception :: exn where
  "messaging_exception = OtherError ''MessagingException''"

definition check_version :: "string option option \<Rightarrow> unit result" where
  "check_version w =
     (case w of
        None \<Rightarrow> Inr ()
      | Some v \<Rightarrow>
          (case version_is_compatible v v of
             Inl IndexError \<Rightarrow> Inl messaging_exception
           | Inl ValueError \<Rightarrow> Inl messaging_exception
           | Inl e \<Rightarrow> Inl e
           | Inr _ \<Rightarrow> Inr ()))"

definition prepare :: "overrides \<Rightarrow> call_context \<Rightarrow> call_context result" where
  "prepare w cc =
     bind_r (check_version (o_version w)) (\<lambda>_.
       Inr \<lparr>cc_target = target_call w (cc_target cc), cc_timeout = given_or (o_timeout w) (cc_timeout cc),
            cc_version_cap = given_or (o_version_cap w) (cc_version_cap cc), cc_retry = given_or (o_retry w) (cc_retry cc)\<rparr>)"

definition map_values :: "('a \<Rightarrow> 'b result) \<Rightarrow> ('k \<times> 'a) list \<Rightarrow> ('k \<times> 'b) list result" where
  "map_values f = map_r (\<lambda>(k, v). bind_r (f v) (\<lambda>w. Inr (k, w)))"

definition opt_entry :: "string \<Rightarrow> string option \<Rightarrow> pydict" where
  "opt_entry k v = (case v of None \<Rightarrow> [] | Some s \<Rightarrow> [(k, PStr s)])"

definition make_message :: "'c serializer \<Rightarrow> rpc_target \<Rightarrow> 'c \<Rightarrow> string \<Rightarrow> pydict \<Rightarrow> pydict result" where
  "make_message S t ctxt meth args =
     bind_r (map_values (serialize_entity S ctxt) args) (\<lambda>xs.
       Inr ([(''method'', PStr meth), (''args'', PDict xs)] @
            opt_entry ''namespace'' (tg_namespace t) @ opt_entry ''version'' (tg_version t)))"

definition RPCVersionCapError :: exn where
  "RPCVersionCapError = OtherError ''RPCVersionCapError''"

definition check_version_cap :: "call_context \<Rightarrow> string option \<Rightarrow> unit result" where
  "check_version_cap cc version =
     bind_r (version_is_compatible (cc_version_cap cc) version) (\<lambda>ok. if ok then Inr () else Inl RPCVersionCapError)"

definition can_send_version :: "call_context \<Rightarrow> string option option \<Rightarrow> bool result" where
  "can_send_version cc version = version_is_compatible (cc_version_cap cc) (given_or version (tg_version (cc_target cc)))"

text \<open>
  \<open>drv\<close> is the driver's \<^verbatim>\<open>send\<close>: target, context, message, whether it waits for a reply and
  how long. Sending without a topic is refused by the transport.
\<close>

type_synonym 's driver = "rpc_target \<Rightarrow> pydict \<Rightarrow> pydict \<Rightarrow> rat option option \<Rightarrow> 's \<Rightarrow> pyval result \<times> 's"

definition invalid_target :: exn where
  "invalid_target = OtherError ''InvalidTarget''"

definition no_topic :: "rpc_target \<Rightarrow> bool" where
  "no_topic t \<longleftrightarrow> tg_topic t = None \<or> tg_topic t = Some []"

definition transport_send :: "'s driver \<Rightarrow> 's driver" where
  "transport_send drv t ctxt msg wait s = (if no_topic t then (Inl invalid_target, s) else drv t ctxt msg wait s)"

definition client_error :: "exn \<Rightarrow> exn" where
  "client_error e = (if e = OtherError ''TransportDriverError'' then OtherError ''ClientSendError'' else e)"

definition as_client_error :: "'a result \<times> 's \<Rightarrow> 'a result \<times> 's" where
  "as_client_error r = (case r of (Inl e, s) \<Rightarrow> (Inl (client_error e), s) | (Inr v, s) \<Rightarrow> (Inr v, s))"

text \<open>What is sent: the message and the context, once the version is within the cap.\<close>

definition outgoing :: "'c serializer \<Rightarrow> call_context \<Rightarrow> 'c \<Rightarrow> string \<Rightarrow> pydict \<Rightarrow> (pydict \<times> pydict) result" where
  "outgoing S cc ctxt meth args =
     bind_r (make_message S (cc_target cc) ctxt meth args) (\<lambda>msg.
     bind_r (serialize_context S ctxt) (\<lambda>mc.
     bind_r (check_version_cap cc (tg_version (cc_target cc))) (\<lambda>_. Inr (mc, msg))))"

definition rpc_cast ::
  "'s driver \<Rightarrow> 'c serializer \<Rightarrow> call_context \<Rightarrow> 'c \<Rightarrow> string \<Rightarrow> pydict \<Rightarrow> 's \<Rightarrow> unit result \<times> 's" where
  "rpc_cast drv S cc ctxt meth args s =
     (case outgoing S cc ctxt meth args of
        Inl e \<Rightarrow> (Inl e, s)
      | Inr (mc, msg) \<Rightarrow>
          (case as_client_error (transport_send drv (cc_target cc) mc msg None s) of
             (Inl e, s1) \<Rightarrow> (Inl e, s1) | (Inr _, s1) \<Rightarrow> (Inr (), s1)))"

text \<open>The configured \<^verbatim>\<open>rpc_response_timeout\<close> stands in for a timeout that is not given.\<close>

definition rpc_call ::
  "'s driver \<Rightarrow> rat \<Rightarrow> 'c serializer \<Rightarrow> call_context \<Rightarrow> 'c \<Rightarrow> string \<Rightarrow> pydict \<Rightarrow> 's \<Rightarrow> pyval result \<times> 's" where
  "rpc_call drv response_timeout S cc ctxt meth args s =
     (if tg_fanout (cc_target cc) then (Inl invalid_target, s)
      else (case outgoing S cc ctxt meth args of
        Inl e \<Rightarrow> (Inl e, s)
      | Inr (mc, msg) \<Rightarrow>
          (case as_client_error (transport_send drv (cc_target cc) mc msg
                  (Some (Some (given_or (cc_timeout cc) response_timeout))) s) of
             (Inl e, s1) \<Rightarrow> (Inl e, s1)
           | (Inr v, s1) \<Rightarrow> (deserialize_entity S ctxt v, s1))))"

section \<open>The dispatcher\<close>

text \<open>
  An endpoint's methods are its attributes, whatever their names. A method gets the context
  and the arguments by name.
\<close>

type_synonym ('c, 's) rpc_method = "'c \<Rightarrow> pydict \<Rightarrow> 's \<Rightarrow> pyval result \<times> 's"

record ('c, 's) endpoint =
  ep_target :: "rpc_target option"
  ep_method :: "string \<Rightarrow> ('c, 's) rpc_method option"

definition endpoint_target :: "('c, 's) endpoint \<Rightarrow> rpc_target" where
  "endpoint_target ep = given_or (ep_target ep) default_target"

definition is_namespace :: "rpc_target \<Rightarrow> pyval \<Rightarrow> bool" where
  "is_namespace t namespace \<longleftrightarrow>
     (case namespace of
        PNone \<Rightarrow> None \<in> set (accepted_namespaces t)
      | PStr n \<Rightarrow> Some n \<in> set (accepted_namespaces t)
      | _ \<Rightarrow> False)"

text \<open>An endpoint without a version, or with an empty one, has version 1.0.\<close>

definition implemented :: "rpc_target \<Rightarrow> string" where
  "implemented t = (case tg_version t of None \<Rightarrow> ''1.0'' | Some v \<Rightarrow> if v = [] then ''1.0'' else v)"

definition is_compatible :: "rpc_target \<Rightarrow> pyval \<Rightarrow> bool result" where
  "is_compatible t version =
     (case version of
        PNone \<Rightarrow> version_is_compatible (Some (implemented t)) None
      | PStr v \<Rightarrow> version_is_compatible (Some (implemented t)) (Some v)
      | _ \<Rightarrow> Inl AttributeError)"

definition accepts :: "('c, 's) endpoint \<Rightarrow> pyval \<Rightarrow> pyval \<Rightarrow> bool result" where
  "accepts ep namespace version =
     (if is_namespace (endpoint_target ep) namespace then is_compatible (endpoint_target ep) version else Inr False)"

definition do_dispatch ::
  "'c serializer \<Rightarrow> ('c, 's) rpc_method \<Rightarrow> pydict \<Rightarrow> pyval \<Rightarrow> 's \<Rightarrow> pyval result \<times> 's" where
  "do_dispatch S h ctxt args s =
     (case bind_r (deserialize_context S ctxt) (\<lambda>c.
             case args of
               PDict xs \<Rightarrow> bind_r (map_values (deserialize_entity S c) xs) (\<lambda>new_args. Inr (c, new_args))
             | _ \<Rightarrow> Inl AttributeError) of
        Inl e \<Rightarrow> (Inl e, s)
      | Inr (c, new_args) \<Rightarrow>
          (case h c new_args s of
             (Inl e, s1) \<Rightarrow> (Inl e, s1)
           | (Inr v, s1) \<Rightarrow> (serialize_entity S c v, s1)))"

definition NoSuchMethod :: exn where
  "NoSuchMethod = OtherError ''NoSuchMethod''"

definition UnsupportedVersion :: exn where
  "UnsupportedVersion = OtherError ''UnsupportedVersion''"

text \<open>\<open>find_method\<close> is the loop over the endpoints, \<open>found\<close> its \<^verbatim>\<open>found_compatible\<close>.\<close>

fun find_method ::
  "pyval \<Rightarrow> pyval \<Rightarrow> pyval \<Rightarrow> bool \<Rightarrow> ('c, 's) endpoint list \<Rightarrow> ('c, 's) rpc_method result" where
  "find_method namespace version meth found [] = Inl (if found then NoSuchMethod else UnsupportedVersion)"
| "find_method namespace version meth found (ep # eps) =
     bind_r (accepts ep namespace version) (\<lambda>ok.
       if \<not> ok then find_method namespace version meth found eps
       else (case meth of
           PStr m \<Rightarrow>
             (case ep_method ep m of
                Some h \<Rightarrow> Inr h
              | None \<Rightarrow> find_method namespace version meth True eps)
         | _ \<Rightarrow> Inl TypeError))"

record incoming =
  in_ctxt :: pydict
  in_message :: pydict

definition rpc_dispatch ::
  "'c serializer \<Rightarrow> ('c, 's) endpoint list \<Rightarrow> incoming \<Rightarrow> 's \<Rightarrow> pyval result \<times> 's" where
  "rpc_dispatch S eps inc s =
     (let m = in_message inc
      in case find_method (dgetd m ''namespace'' PNone) (dgetd m ''version'' (PStr ''1.0''))
                (dgetd m ''method'' PNone) False eps of
           Inl e \<Rightarrow> (Inl e, s)
         | Inr h \<Rightarrow> do_dispatch S h (in_ctxt inc) (dgetd m ''args'' (PDict [])) s)"

section \<open>The server\<close>

text \<open>
  One message: \<open>ack\<close> acknowledges it, and when that fails the message is skipped; its result or
  its exception is then the reply. An exception that the method was declared to raise is
  unwrapped before it is sent, so that both kinds reply alike.
\<close>

definition process_incoming ::
  "'c serializer \<Rightarrow> ('c, 's) endpoint list \<Rightarrow> ('s \<Rightarrow> unit result \<times> 's) \<Rightarrow> (pyval result \<Rightarrow> 's \<Rightarrow> unit result \<times> 's) \<Rightarrow>
   incoming \<Rightarrow> 's \<Rightarrow> 's" where
  "process_incoming S eps ack reply inc s =
     (case ack s of
        (Inl e, s1) \<Rightarrow> s1
      | (Inr _, s1) \<Rightarrow> (case rpc_dispatch S eps inc s1 of (res, s2) \<Rightarrow> snd (reply res s2)))"

section \<open>Versions are ordered\<close>

text \<open>The three numbers of a version that can be compared.\<close>

definition version_triple :: "string \<Rightarrow> (int \<times> int \<times> int) option" where
  "version_triple v =
     (let ps = split_on (CHR ''.'') v
      in case (int_part 0 ps, int_part 1 ps, revision ps) of
           (Inr a, Inr b, Inr c) \<Rightarrow> Some (a, b, c) | _ \<Rightarrow> None)"

fun triple_within :: "int \<times> int \<times> int \<Rightarrow> int \<times> int \<times> int \<Rightarrow> bool" where
  "triple_within (a, b, c) (x, y, z) \<longleftrightarrow> a = x \<and> (b < y \<or> b = y \<and> c \<le> z)"

lemma triple_within_refl [simp]: "triple_within t t"
  by (cases t) simp

lemma triple_within_trans: "triple_within r s \<Longrightarrow> triple_within s t \<Longrightarrow> triple_within r t"
  by (cases r; cases s; cases t) auto

lemma version_tripleE:
  assumes "version_triple v = Some (a, b, c)"
  obtains "int_part 0 (split_on (CHR ''.'') v) = Inr a" "int_part 1 (split_on (CHR ''.'') v) = Inr b"
    "revision (split_on (CHR ''.'') v) = Inr c"
  using assms by (auto simp: version_triple_def Let_def split: sum.splits)

lemma version_compat_triples:
  assumes "version_triple iv = Some t" "version_triple v = Some r"
  shows "version_is_compatible (Some iv) (Some v) = Inr (triple_within r t)"
proof -
  obtain a b c where t: "t = (a, b, c)" by (cases t)
  obtain d e f where r: "r = (d, e, f)" by (cases r)
  from assms show ?thesis unfolding t r
    by (elim version_tripleE) (auto simp: version_is_compatible_def Let_def)
qed

text \<open>A version that is compatible with one that can be compared has its two first numbers.\<close>

lemma version_compat_Inr_True:
  assumes "version_is_compatible (Some iv) (Some v) = Inr True" "version_triple iv = Some (a, b, c)"
  shows "\<exists>e. int_part 0 (split_on (CHR ''.'') v) = Inr a \<and> int_part 1 (split_on (CHR ''.'') v) = Inr e \<and>
    (e < b \<or> e = b \<and> (\<exists>f. revision (split_on (CHR ''.'') v) = Inr f \<and> f \<le> c))"
  using assms by (elim version_tripleE)
    (auto simp: version_is_compatible_def Let_def bind_r_Inr_iff split: if_splits)

text \<open>Compatibility is transitive through a version that can be compared.\<close>

lemma version_compat_trans:
  assumes "version_is_compatible (Some cap) (Some v) = Inr True"
    and "version_is_compatible (Some iv) (Some cap) = Inr True"
    and "version_triple cap = Some t" "version_triple iv = Some u"
  shows "version_is_compatible (Some iv) (Some v) = Inr True"
proof -
  obtain a b c where t: "t = (a, b, c)" by (cases t)
  obtain x y z where u: "u = (x, y, z)" by (cases u)
  from assms(2) version_compat_triples [OF assms(4,3)] have w: "triple_within (a, b, c) (x, y, z)"
    by (simp add: t u)
  from version_compat_Inr_True [OF assms(1) assms(3) [unfolded t]] obtain e where
    v: "int_part 0 (split_on (CHR ''.'') v) = Inr a" "int_part 1 (split_on (CHR ''.'') v) = Inr e"
      "e < b \<or> e = b \<and> (\<exists>f. revision (split_on (CHR ''.'') v) = Inr f \<and> f \<le> c)" by blast
  from assms(4) v w show ?thesis unfolding u
    by (elim version_tripleE) (auto simp: version_is_compatible_def Let_def)
qed

section \<open>What is dispatched\<close>

text \<open>An endpoint that takes the message and has the method.\<close>

definition handles :: "('c, 's) endpoint \<Rightarrow> pyval \<Rightarrow> pyval \<Rightarrow> string \<Rightarrow> bool" where
  "handles ep namespace version m \<longleftrightarrow> accepts ep namespace version = Inr True \<and> ep_method ep m \<noteq> None"

lemma find_method_first:
  assumes "\<forall>ep \<in> set eps. \<exists>b. accepts ep namespace version = Inr b"
  shows "find_method namespace version (PStr m) found eps =
    (case find (\<lambda>ep. handles ep namespace version m) eps of
       Some ep \<Rightarrow> Inr (the (ep_method ep m))
     | None \<Rightarrow> Inl (if found \<or> (\<exists>ep \<in> set eps. accepts ep namespace version = Inr True)
                    then NoSuchMethod else UnsupportedVersion))"
  using assms
proof (induction eps arbitrary: found)
  case (Cons ep eps)
  then obtain b where b: "accepts ep namespace version = Inr b" by auto
  from Cons show ?case by (cases b) (auto simp: b handles_def split: option.split)
qed simp

definition opt_text :: "string option \<Rightarrow> pyval" where
  "opt_text v = (case v of None \<Rightarrow> PNone | Some s \<Rightarrow> PStr s)"

lemma is_namespace_opt: "is_namespace t (opt_text n) \<longleftrightarrow> n \<in> set (accepted_namespaces t)"
  by (simp add: is_namespace_def opt_text_def split: option.split)

text \<open>The entries of a message that was made.\<close>

lemma make_message_entries:
  assumes "make_message S t ctxt meth args = Inr msg"
  shows "\<exists>xs. map_values (serialize_entity S ctxt) args = Inr xs \<and>
    dget msg ''method'' = Some (PStr meth) \<and> dget msg ''args'' = Some (PDict xs) \<and>
    dgetd msg ''namespace'' PNone = opt_text (tg_namespace t) \<and>
    dget msg ''version'' = map_option PStr (tg_version t) \<and> dict_ok msg"
  using assms
  by (cases "tg_namespace t"; cases "tg_version t")
    (auto simp: make_message_def bind_r_Inr_iff opt_entry_def opt_text_def dgetd_def)

lemma outgoing_Inr:
  "outgoing S cc ctxt meth args = Inr (mc, msg) \<longleftrightarrow>
   make_message S (cc_target cc) ctxt meth args = Inr msg \<and> serialize_context S ctxt = Inr mc \<and>
   version_is_compatible (cc_version_cap cc) (tg_version (cc_target cc)) = Inr True"
  by (auto simp: outgoing_def check_version_cap_def bind_r_Inr_iff split: if_splits)

text \<open>A version that \<^verbatim>\<open>prepare\<close> let pass can be compared.\<close>

lemma prepared_version:
  assumes "prepare w cc = Inr cc1" "o_version w = Some (Some v)"
  shows "\<exists>r. version_triple v = Some r \<and> tg_version (cc_target cc1) = Some v"
proof -
  from assms(1) have c: "check_version (o_version w) = Inr ()"
    and v: "tg_version (cc_target cc1) = Some v"
    using assms(2) by (auto simp: prepare_def bind_r_Inr_iff target_call_def Target_def given_or_def)
  have "\<exists>b. version_is_compatible (Some v) (Some v) = Inr b"
    using c by (auto simp: check_version_def assms(2) split: sum.splits exn.splits)
  then have "\<exists>r. version_triple v = Some r"
    by (auto simp: version_is_compatible_def version_triple_def Let_def bind_r_Inr_iff)
  with v show ?thesis by blast
qed

text \<open>
  C18: a message that a client lets through is served. When the version of a message can be
  compared and is within the client's version cap, and some endpoint of its namespace
  implements the cap and has the method, then the dispatcher never answers that the version
  or the method is missing: it runs the method of the first endpoint that takes the message.
\<close>

theorem capped_message_served:
  assumes sent: "outgoing S cc ctxt meth args = Inr (mc, msg)"
    and cap: "cc_version_cap cc = Some cap" "version_triple cap = Some t"
    and v: "tg_version (cc_target cc) = Some v" "version_triple v = Some r"
    and eps: "\<forall>ep \<in> set eps. version_triple (implemented (endpoint_target ep)) \<noteq> None"
    and ep: "ep \<in> set eps" "tg_namespace (cc_target cc) \<in> set (accepted_namespaces (endpoint_target ep))"
      "version_is_compatible (Some (implemented (endpoint_target ep))) (Some cap) = Inr True"
      "ep_method ep meth \<noteq> None"
  shows "\<exists>ep' h xs. find (\<lambda>e. handles e (opt_text (tg_namespace (cc_target cc))) (PStr v) meth) eps = Some ep' \<and>
    ep_method ep' meth = Some h \<and> map_values (serialize_entity S ctxt) args = Inr xs \<and>
    (\<forall>s. rpc_dispatch S eps \<lparr>in_ctxt = mc, in_message = msg\<rparr> s = do_dispatch S h mc (PDict xs) s)"
proof -
  let ?ns = "opt_text (tg_namespace (cc_target cc))"
  from sent have mk: "make_message S (cc_target cc) ctxt meth args = Inr msg"
    and pass: "version_is_compatible (Some cap) (Some v) = Inr True"
    by (auto simp: outgoing_Inr cap v)
  from make_message_entries [OF mk] obtain xs where xs: "map_values (serialize_entity S ctxt) args = Inr xs"
    and e: "dget msg ''method'' = Some (PStr meth)" "dget msg ''args'' = Some (PDict xs)"
      "dgetd msg ''namespace'' PNone = ?ns" "dget msg ''version'' = map_option PStr (Some v)"
    unfolding v(1) by blast
  have m: "dgetd msg ''method'' PNone = PStr meth" "dgetd msg ''args'' (PDict []) = PDict xs"
      "dgetd msg ''version'' (PStr ''1.0'') = PStr v"
    unfolding dgetd_def e(1,2,4) by simp_all
  have total: "\<exists>b. accepts e ?ns (PStr v) = Inr b" if mem: "e \<in> set eps" for e
  proof -
    obtain u where "version_triple (implemented (endpoint_target e)) = Some u" using bspec [OF eps mem] by auto
    from version_compat_triples [OF this v(2)]
    have "accepts e ?ns (PStr v) = Inr (is_namespace (endpoint_target e) ?ns \<and> triple_within r u)"
      by (simp add: accepts_def is_compatible_def)
    then show ?thesis by blast
  qed
  obtain u where u: "version_triple (implemented (endpoint_target ep)) = Some u" using bspec [OF eps ep(1)] by auto
  have "handles ep ?ns (PStr v) meth"
    using version_compat_trans [OF pass ep(3) cap(2) u] ep(2,4)
    by (simp add: handles_def accepts_def is_compatible_def is_namespace_opt)
  from find_exists [of ep eps "\<lambda>e. handles e ?ns (PStr v) meth", OF ep(1) this] obtain ep' where
    f: "find (\<lambda>e. handles e ?ns (PStr v) meth) eps = Some ep'" by blast
  then obtain h where h: "ep_method ep' meth = Some h" by (auto simp: handles_def dest: find_SomeD)
  have "find_method ?ns (PStr v) (PStr meth) False eps = Inr h"
    using total by (simp add: find_method_first f h)
  then have "rpc_dispatch S eps \<lparr>in_ctxt = mc, in_message = msg\<rparr> s = do_dispatch S h mc (PDict xs) s" for s
    by (simp add: rpc_dispatch_def m e(3))
  with f h xs show ?thesis by blast
qed

section \<open>Samples\<close>

definition plain_serializer :: "pydict serializer" where
  "plain_serializer = \<lparr>serialize_entity = (\<lambda>c v. Inr v), deserialize_entity = (\<lambda>c v. Inr v),
     serialize_context = Inr, deserialize_context = Inr\<rparr>"

definition sample_endpoint :: "string \<Rightarrow> string \<Rightarrow> (pydict, int) endpoint" where
  "sample_endpoint namespace version =
     \<lparr>ep_target = Some (Target None None (Some namespace) (Some version) None False []),
      ep_method = (\<lambda>m. if m = ''ping'' then Some (\<lambda>c args n. (Inr (dgetd args ''arg'' PNone), n + 1)) else None)\<rparr>"

definition sample_client :: call_context where
  "sample_client =
     \<lparr>cc_target = Target None (Some ''conductor'') (Some ''baseapi'') (Some ''1.0'') None False [],
      cc_timeout = None, cc_version_cap = Some ''1.1'', cc_retry = None\<rparr>"

definition sample_message :: pydict where
  "sample_message =
     [(''method'', PStr ''ping''), (''args'', PDict [(''arg'', PInt 7)]),
      (''namespace'', PStr ''baseapi''), (''version'', PStr ''1.0'')]"

lemma sample_outgoing:
  "outgoing plain_serializer sample_client [] ''ping'' [(''arg'', PInt 7)] = Inr ([], sample_message)"
  by code_simp

theorem capped_message_served_witness:
  "\<exists>ep' h xs. find (\<lambda>e. handles e (opt_text (Some ''baseapi'')) (PStr ''1.0'') ''ping'')
       [sample_endpoint ''reportapi'' ''1.1'', sample_endpoint ''baseapi'' ''1.1''] = Some ep' \<and>
     ep_method ep' ''ping'' = Some h \<and> map_values (serialize_entity plain_serializer []) [(''arg'', PInt 7)] = Inr xs \<and>
     (\<forall>s. rpc_dispatch plain_serializer [sample_endpoint ''reportapi'' ''1.1'', sample_endpoint ''baseapi'' ''1.1'']
       \<lparr>in_ctxt = [], in_message = sample_message\<rparr> s = do_dispatch plain_serializer h [] (PDict xs) s)"
proof -
  have c: "cc_version_cap sample_client = Some ''1.1''" "tg_version (cc_target sample_client) = Some ''1.0''"
    "tg_namespace (cc_target sample_client) = Some ''baseapi''"
    by (simp_all add: sample_client_def Target_def)
  have t: "version_triple ''1.1'' = Some (1, 1, 0)" "version_triple ''1.0'' = Some (1, 0, 0)" by code_simp+
  have i: "implemented (endpoint_target (sample_endpoint n ''1.1'')) = ''1.1''"
    "accepted_namespaces (endpoint_target (sample_endpoint n v)) = [Some n]"
    "ep_method (sample_endpoint n v) ''ping'' \<noteq> None" for n v
    by (simp_all add: sample_endpoint_def endpoint_target_def given_or_def implemented_def Target_def)
  have k: "version_is_compatible (Some ''1.1'') (Some ''1.1'') = Inr True" by code_simp
  show ?thesis
    using capped_message_served [OF sample_outgoing c(1) t(1) c(2) t(2),
        of "[sample_endpoint ''reportapi'' ''1.1'', sample_endpoint ''baseapi'' ''1.1'']" "sample_endpoint ''baseapi'' ''1.1''"]
    by (simp add: c i t k)
qed

end
