(* ===== verification/Amqp.thy ===== *)
theory Amqp
  imports Rpc Json
begin

text \<open>
  The driver over a message broker (\<^verbatim>\<open>oslo_messaging/_drivers/amqpdriver.py\<close>, \<^verbatim>\<open>amqp.py\<close> and
  \<^verbatim>\<open>common.py\<close>): the envelope of a message, the request context and the ids packed into it,
  the check for messages delivered twice, exceptions that travel as JSON, the reply and the
  wait for it. The broker is a parameter: what it does with a published message, and the
  replies it brings back in time.
\<close>

section \<open>The envelope\<close>

definition envelope_version :: string where
  "envelope_version = ''2.0''"

definition serialize_msg :: "(string \<Rightarrow> bool \<Rightarrow> string) \<Rightarrow> pyval \<Rightarrow> pyval" where
  "serialize_msg dt raw =
     PDict [(''oslo.version'', PStr envelope_version), (''oslo.message'', PStr (jsonutils_dumps dt raw))]"

text \<open>Whatever does not look like an envelope is taken for the message itself.\<close>

definition unsupported_envelope :: exn where
  "unsupported_envelope = OtherError ''UnsupportedRpcEnvelopeVersion''"

fun deserialize_msg :: "pyval \<Rightarrow> pyval result" where
  "deserialize_msg (PDict m) =
     (case (dget m ''oslo.version'', dget m ''oslo.message'') of
        (Some v, Some raw) \<Rightarrow>
          bind_r (case v of
              PNone \<Rightarrow> Inr False
            | PStr t \<Rightarrow> version_is_compatible (Some envelope_version) (Some t)
            | _ \<Rightarrow> Inl AttributeError) (\<lambda>ok.
            if \<not> ok then Inl unsupported_envelope
            else (case raw of PStr t \<Rightarrow> json_loads t | _ \<Rightarrow> Inl TypeError))
      | _ \<Rightarrow> Inr (PDict m))"
| "deserialize_msg v = Inr v"

section \<open>Context and ids\<close>

definition context_prefix :: string where
  "context_prefix = ''_context_''"

definition pack_context :: "pydict \<Rightarrow> pydict \<Rightarrow> pydict" where
  "pack_context msg ctxt = dupdate msg (map (\<lambda>(k, v). (context_prefix @ k, v)) ctxt)"

definition dpop :: "string \<Rightarrow> pydict \<Rightarrow> pyval \<times> pydict" where
  "dpop k d = (dgetd d k PNone, AList.delete k d)"

text \<open>
  The context, the id of the call and the queue of its reply, and what is left of the message.
  The ids replace context entries of the same name, which are lost.
\<close>

definition unpack_context :: "pydict \<Rightarrow> pydict \<times> pyval \<times> pyval \<times> pydict" where
  "unpack_context msg =
     (let is_context = (\<lambda>(k, v :: pyval). starts_with context_prefix k);
          context_dict = dupdate [] (map (\<lambda>(k, v). (drop 9 k, v)) (filter is_context msg));
          (msg_id, m1) = dpop ''_msg_id'' (filter (\<lambda>e. \<not> is_context e) msg);
          (reply_q, m2) = dpop ''_reply_q'' m1
      in (AList.delete ''reply_q'' (AList.delete ''msg_id'' context_dict), msg_id, reply_q, m2))"

section \<open>Messages delivered twice\<close>

definition DUP_MSG_CHECK_SIZE :: nat where
  "DUP_MSG_CHECK_SIZE = 16"

definition duplicate_message :: exn where
  "duplicate_message = OtherError ''DuplicateMessageError''"

text \<open>The id leaves the message; a message without one is never a duplicate.\<close>

definition check_duplicate_message :: "pyval list \<Rightarrow> pydict \<Rightarrow> (pyval \<times> pydict) result" where
  "check_duplicate_message prev_msgids m =
     (case dget m ''_unique_id'' of
        None \<Rightarrow> Inr (PNone, m)
      | Some i \<Rightarrow> if i \<in> set prev_msgids then Inl duplicate_message else Inr (i, AList.delete ''_unique_id'' m))"

text \<open>A full queue drops its oldest id.\<close>

definition cache_add :: "pyval \<Rightarrow> pyval list \<Rightarrow> pyval list" where
  "cache_add i prev_msgids =
     (if truthy i \<and> i \<notin> set prev_msgids
      then (let q = prev_msgids @ [i] in drop (length q - DUP_MSG_CHECK_SIZE) q) else prev_msgids)"

section \<open>Exceptions that travel\<close>

text \<open>
  An exception: its class, the module of the class, its arguments, the \<^verbatim>\<open>kwargs\<close> attribute of
  those that have one, and the text that a swapped-in class answers for it.
\<close>

record pyexc =
  x_class :: string
  x_module :: string
  x_args :: "pyval list"
  x_kwargs :: "pydict option"
  x_override :: "string option"

text \<open>
  What the driver takes from elsewhere: the text of a datetime and of an exception, its
  formatted traceback, the class an import finds with its constructor (\<open>Inl\<close> for any of the
  errors that make it fail), whether Python lets the class of the instance be swapped, the
  exception object behind an exception of the model, and the default exchange.
\<close>

record amqp_env =
  am_date :: "string \<Rightarrow> bool \<Rightarrow> string"
  am_text :: "pyexc \<Rightarrow> string"
  am_traceback :: "pyexc \<Rightarrow> string list"
  am_construct :: "string \<Rightarrow> pyval \<Rightarrow> pyval list \<Rightarrow> pydict \<Rightarrow> pyexc result"
  am_swappable :: "pyexc \<Rightarrow> bool"
  am_raised :: "exn \<Rightarrow> pyexc"
  am_default_exchange :: string

definition exc_text :: "amqp_env \<Rightarrow> pyexc \<Rightarrow> string" where
  "exc_text A x = (case x_override x of Some t \<Rightarrow> t | None \<Rightarrow> am_text A x)"

definition remote_postfix :: string where
  "remote_postfix = ''_Remote''"

definition cut_postfix :: "string \<Rightarrow> string" where
  "cut_postfix s = take (length s - length remote_postfix) s"

text \<open>An exception that came from a remote call goes on under its original class.\<close>

definition original_class :: "pyexc \<Rightarrow> string \<times> string" where
  "original_class x =
     (if ends_with remote_postfix (x_class x) \<and> ends_with remote_postfix (x_module x)
      then (cut_postfix (x_class x), cut_postfix (x_module x)) else (x_class x, x_module x))"

definition exception_data :: "amqp_env \<Rightarrow> pyexc \<Rightarrow> pyval" where
  "exception_data A x =
     (case original_class x of (c, m) \<Rightarrow>
        PDict [(''class'', PStr c), (''module'', PStr m), (''message'', PStr (exc_text A x)),
               (''tb'', PList (map PStr (am_traceback A x))), (''args'', PList (x_args x)),
               (''kwargs'', PDict (given_or (x_kwargs x) []))])"

definition serialize_remote_exception :: "amqp_env \<Rightarrow> pyexc \<Rightarrow> string" where
  "serialize_remote_exception A x = jsonutils_dumps (am_date A) (exception_data A x)"

text \<open>A remote error stands for an exception that is not rebuilt; it keeps what it was told.\<close>

datatype remote_failure =
    RemoteError pyval pyval pyval
  | Revived pyexc

text \<open>What a value that is iterated over gives, as in a star argument.\<close>

fun iterated :: "pyval \<Rightarrow> pyval list result" where
  "iterated (PList vs) = Inr vs"
| "iterated (PStr t) = Inr (map (\<lambda>c. PStr [c]) t)"
| "iterated (PDict d) = Inr (map (\<lambda>(k, v). PStr k) d)"
| "iterated _ = Inl TypeError"

fun all_texts :: "pyval list \<Rightarrow> string list result" where
  "all_texts [] = Inr []"
| "all_texts (PStr s # vs) = bind_r (all_texts vs) (\<lambda>ss. Inr (s # ss))"
| "all_texts (_ # vs) = Inl TypeError"

definition joined_text :: "pyval \<Rightarrow> pyval \<Rightarrow> string result" where
  "joined_text message trace =
     (case message of
        PStr t \<Rightarrow>
          bind_r (bind_r (iterated trace) all_texts) (\<lambda>ss.
            Inr (t @ [char_of (10 :: nat)] @ join_with [char_of (10 :: nat)] ss))
      | _ \<Rightarrow> Inl TypeError)"

text \<open>The errors of the import and the construction that make a remote error.\<close>

definition rebuild_error :: "exn \<Rightarrow> bool" where
  "rebuild_error e \<longleftrightarrow> e \<in> {AttributeError, TypeError, OtherError ''ImportError''}"

definition rebuild :: "amqp_env \<Rightarrow> string \<Rightarrow> pyval \<Rightarrow> pyval \<Rightarrow> pyval \<Rightarrow> pyexc result" where
  "rebuild A m name args kwargs =
     bind_r (iterated args) (\<lambda>xs.
       case kwargs of PDict d \<Rightarrow> am_construct A m name xs d | _ \<Rightarrow> Inl TypeError)"

definition swap_class :: "amqp_env \<Rightarrow> string \<Rightarrow> string \<Rightarrow> pyexc \<Rightarrow> pyexc" where
  "swap_class A m message x =
     (if am_swappable A x
      then x\<lparr>x_class := x_class x @ remote_postfix, x_module := m @ remote_postfix, x_override := Some message\<rparr>
      else x\<lparr>x_args := PStr message # drop 1 (x_args x)\<rparr>)"

definition exceptions_module :: string where
  "exceptions_module = ''exceptions''"

fun revive :: "amqp_env \<Rightarrow> string list \<Rightarrow> pyval \<Rightarrow> remote_failure result" where
  "revive A allowed_remote_exmods (PDict f) =
     bind_r (joined_text (dgetd f ''message'' (PStr [])) (dgetd f ''tb'' (PList []))) (\<lambda>message.
       (let name = dgetd f ''class'' PNone; module = dgetd f ''module'' PNone;
            lost = RemoteError name (dgetd f ''message'' PNone) (dgetd f ''tb'' (PList []))
        in case module of
             PStr m \<Rightarrow>
               if m \<noteq> exceptions_module \<and> m \<notin> set allowed_remote_exmods then Inr lost
               else (case rebuild A m name (dgetd f ''args'' (PList [])) (dgetd f ''kwargs'' (PDict [])) of
                   Inl e \<Rightarrow> if rebuild_error e then Inr lost else Inl e
                 | Inr x \<Rightarrow> Inr (Revived (swap_class A m message x)))
           | _ \<Rightarrow> Inr lost))"
| "revive A allowed_remote_exmods _ = Inl AttributeError"

definition deserialize_remote_exception :: "amqp_env \<Rightarrow> string list \<Rightarrow> string \<Rightarrow> remote_failure result" where
  "deserialize_remote_exception A allowed_remote_exmods data =
     bind_r (json_loads data) (revive A allowed_remote_exmods)"

section \<open>Sending\<close>

datatype destination =
    Fanout string
  | Topic string string

definition text_or :: "string option \<Rightarrow> string \<Rightarrow> string" where
  "text_or v d = (case v of None \<Rightarrow> d | Some t \<Rightarrow> if t = [] then d else t)"

definition route :: "amqp_env \<Rightarrow> rpc_target \<Rightarrow> destination" where
  "route A t =
     (let topic = text_or (tg_topic t) [] in
      if tg_fanout t then Fanout topic
      else Topic (text_or (tg_exchange t) (am_default_exchange A))
        (case tg_server t of
           None \<Rightarrow> topic | Some srv \<Rightarrow> if srv = [] then topic else topic @ ''.'' @ srv))"

text \<open>The ids of one send: of the message, of the call, and the reply queue of the client.\<close>

record send_ids =
  si_unique :: string
  si_msg_id :: string
  si_reply_q :: string

definition published :: "amqp_env \<Rightarrow> send_ids \<Rightarrow> bool \<Rightarrow> pydict \<Rightarrow> pydict \<Rightarrow> pyval" where
  "published A ids waits ctxt msg =
     (let m1 = (if waits then dset ''_reply_q'' (PStr (si_reply_q ids)) (dset ''_msg_id'' (PStr (si_msg_id ids)) msg) else msg)
      in serialize_msg (am_date A) (PDict (pack_context (dset ''_unique_id'' (PStr (si_unique ids)) m1) ctxt)))"

section \<open>Waiting for the reply\<close>

text \<open>
  The calls that wait, each with the replies brought to it so far. A reply for no waiting
  call is dropped.
\<close>

type_synonym waiters = "(pyval \<times> pydict list) list"

definition listen :: "pyval \<Rightarrow> waiters \<Rightarrow> waiters" where
  "listen i W = dset i [] W"

definition unlisten :: "pyval \<Rightarrow> waiters \<Rightarrow> waiters" where
  "unlisten i W = AList.delete i W"

text \<open>
  The payload of a delivered message; the dictionary constructor also takes an empty list or
  text. (It would take a list of pairs too, which no sender makes.)
\<close>

definition rabbit_message :: "pyval \<Rightarrow> pydict result" where
  "rabbit_message payload =
     bind_r (deserialize_msg payload) (\<lambda>v.
       case v of
         PDict d \<Rightarrow> Inr d
       | PList [] \<Rightarrow> Inr []
       | PStr [] \<Rightarrow> Inr []
       | PStr _ \<Rightarrow> Inl ValueError
       | _ \<Rightarrow> Inl TypeError)"

definition reply_arrives :: "pyval \<Rightarrow> waiters \<Rightarrow> waiters" where
  "reply_arrives payload W =
     (case rabbit_message payload of
        Inl e \<Rightarrow> W
      | Inr m \<Rightarrow>
          (case dpop ''_msg_id'' m of (i, rest) \<Rightarrow>
             (case dget W i of None \<Rightarrow> W | Some q \<Rightarrow> dset i (q @ [rest]) W)))"

datatype reply =
    Answer pyval
  | Failure remote_failure

text \<open>Nothing is ever added to the cache of the replies, so that none is a duplicate.\<close>

definition process_reply :: "amqp_env \<Rightarrow> string list \<Rightarrow> pydict \<Rightarrow> (reply \<times> pyval) result" where
  "process_reply A exmods data =
     bind_r (check_duplicate_message [] data) (\<lambda>(_, d).
     bind_r (ditem d ''failure'') (\<lambda>failure.
     bind_r (if truthy failure
             then (case failure of
                 PStr t \<Rightarrow> bind_r (deserialize_remote_exception A exmods t) (\<lambda>f. Inr (Failure f))
               | _ \<Rightarrow> Inl TypeError)
             else Inr (Answer (dgetd d ''result'' PNone))) (\<lambda>r.
       Inr (r, dgetd d ''ending'' (PBool False)))))"

text \<open>
  The replies brought in time, one after the other, up to the one that ends the call; when
  they run out the time is up.
\<close>

fun wait_reply :: "amqp_env \<Rightarrow> string list \<Rightarrow> reply \<Rightarrow> pydict list \<Rightarrow> reply result" where
  "wait_reply A exmods final [] = Inl MessagingTimeout"
| "wait_reply A exmods final (m # ms) =
     bind_r (process_reply A exmods m) (\<lambda>(r, ending).
       let final1 = (if r = Answer PNone then final else r)
       in if truthy ending then Inr final1 else wait_reply A exmods final1 ms)"

text \<open>
  \<open>broker\<close> publishes a payload and brings the replies that reach the client's queue before the
  time is up, or fails; \<open>raised\<close> is the exception a failed reply raises here.
\<close>

type_synonym 's broker = "destination \<Rightarrow> pyval \<Rightarrow> rat option option \<Rightarrow> 's \<Rightarrow> pyval list result \<times> 's"

definition amqp_send ::
  "amqp_env \<Rightarrow> string list \<Rightarrow> (remote_failure \<Rightarrow> exn) \<Rightarrow> 's broker \<Rightarrow> send_ids \<Rightarrow> (waiters \<times> 's) driver" where
  "amqp_send A exmods raised broker ids t ctxt msg wait st =
     (case st of (W, s) \<Rightarrow>
      (let waits = (wait \<noteq> None); i = PStr (si_msg_id ids);
           W1 = (if waits then listen i W else W);
           finally_do = (\<lambda>V. if waits then unlisten i V else V)
       in case broker (route A t) (published A ids waits ctxt msg) wait s of
            (Inl e, s1) \<Rightarrow> (Inl e, (finally_do W1, s1))
          | (Inr ps, s1) \<Rightarrow>
              (let W2 = fold reply_arrives ps W1
               in if \<not> waits then (Inr PNone, (W2, s1))
                  else (case wait_reply A exmods (Answer PNone) (given_or (dget W2 i) []) of
                      Inl e \<Rightarrow> (Inl e, (finally_do W2, s1))
                    | Inr (Answer v) \<Rightarrow> (Inr v, (finally_do W2, s1))
                    | Inr (Failure f) \<Rightarrow> (Inl (raised f), (finally_do W2, s1))))))"

section \<open>Receiving\<close>

record amqp_incoming = incoming +
  ai_unique_id :: pyval
  ai_msg_id :: pyval
  ai_reply_q :: pyval

record listener =
  l_cache :: "pyval list"
  l_incoming :: "amqp_incoming list"

definition listener_call :: "pydict \<Rightarrow> listener \<Rightarrow> listener result" where
  "listener_call message L =
     (case unpack_context message of (ctxt, msg_id, reply_q, m) \<Rightarrow>
        bind_r (check_duplicate_message (l_cache L) m) (\<lambda>(unique_id, m1).
          Inr (L\<lparr>l_incoming := l_incoming L @ [\<lparr>in_ctxt = ctxt, in_message = m1, ai_unique_id = unique_id,
            ai_msg_id = msg_id, ai_reply_q = reply_q\<rparr>]\<rparr>)))"

text \<open>A message that cannot be taken is acknowledged and skipped.\<close>

definition delivered :: "pyval \<Rightarrow> listener \<Rightarrow> listener" where
  "delivered payload L =
     (case bind_r (rabbit_message payload) (\<lambda>m. listener_call m L) of Inl e \<Rightarrow> L | Inr L1 \<Rightarrow> L1)"

definition acknowledge :: "amqp_incoming \<Rightarrow> listener \<Rightarrow> listener" where
  "acknowledge inc L = L\<lparr>l_cache := cache_add (ai_unique_id inc) (l_cache L)\<rparr>"

text \<open>The payload of a reply; a message that is no call gets none.\<close>

definition reply_payload :: "amqp_env \<Rightarrow> string \<Rightarrow> amqp_incoming \<Rightarrow> pyval result \<Rightarrow> pyval option" where
  "reply_payload A uid inc res =
     (if \<not> truthy (ai_msg_id inc) then None
      else (let (result, failure) = (case res of
                Inr v \<Rightarrow> (v, PNone)
              | Inl e \<Rightarrow> (PNone, PStr (serialize_remote_exception A (am_raised A e))))
            in Some (serialize_msg (am_date A) (PDict
                 [(''result'', result), (''failure'', failure), (''ending'', PBool True),
                  (''_msg_id'', ai_msg_id inc), (''_unique_id'', PStr uid)]))))"

text \<open>
  A server with its listener: what it handles next, and the replies it has sent, each with the
  queue it went to.
\<close>

record 's server =
  sv_listener :: listener
  sv_sent :: "(pyval \<times> pyval) list"
  sv_app :: 's

definition on_app :: "('c, 's) rpc_method \<Rightarrow> ('c, 's server) rpc_method" where
  "on_app h c args sv = (case h c args (sv_app sv) of (r, s1) \<Rightarrow> (r, sv\<lparr>sv_app := s1\<rparr>))"

definition app_endpoint :: "('c, 's) endpoint \<Rightarrow> ('c, 's server) endpoint" where
  "app_endpoint ep = \<lparr>ep_target = ep_target ep, ep_method = (\<lambda>m. map_option on_app (ep_method ep m))\<rparr>"

definition serve_next ::
  "amqp_env \<Rightarrow> 'c serializer \<Rightarrow> ('c, 's) endpoint list \<Rightarrow> string \<Rightarrow> 's server \<Rightarrow> 's server" where
  "serve_next A S eps uid sv =
     (case l_incoming (sv_listener sv) of
        [] \<Rightarrow> sv
      | inc # rest \<Rightarrow>
          process_incoming S (map app_endpoint eps)
            (\<lambda>v. (Inr (), v\<lparr>sv_listener := acknowledge inc (sv_listener v)\<rparr>))
            (\<lambda>res v. (Inr (), case reply_payload A uid inc res of
                None \<Rightarrow> v | Some p \<Rightarrow> v\<lparr>sv_sent := sv_sent v @ [(ai_reply_q inc, p)]\<rparr>))
            (incoming.truncate inc)
            (sv\<lparr>sv_listener := (sv_listener sv)\<lparr>l_incoming := rest\<rparr>\<rparr>))"

section \<open>A message over the wire\<close>

text \<open>
  A message and a context that travel unchanged: JSON, no key of the message is one the driver
  adds, and no context entry is named like an id.
\<close>

definition driver_keys :: "string list" where
  "driver_keys = [''_msg_id'', ''_reply_q'', ''_unique_id'']"

definition plain_message :: "pydict \<Rightarrow> bool" where
  "plain_message m \<longleftrightarrow> json_ok (PDict m) \<and> (\<forall>k \<in> fst ` set m. \<not> starts_with context_prefix k \<and> k \<notin> set driver_keys)"

definition plain_context :: "pydict \<Rightarrow> bool" where
  "plain_context c \<longleftrightarrow> json_ok (PDict c) \<and> ''msg_id'' \<notin> fst ` set c \<and> ''reply_q'' \<notin> fst ` set c"

lemma envelope_roundtrip: "json_ok v \<Longrightarrow> deserialize_msg (serialize_msg dt v) = Inr v"
proof -
  assume v: "json_ok v"
  have "version_is_compatible (Some envelope_version) (Some envelope_version) = Inr True" by code_simp
  with v show ?thesis by (simp add: serialize_msg_def jsonutils_dumps_ok json_loads_dumps)
qed

lemma starts_with_prefix [simp]: "starts_with p (p @ k)"
  by (simp add: starts_with_def)

lemma drop_prefix [simp]: "drop 9 (context_prefix @ k) = k"
  by (simp add: context_prefix_def)

lemma no_driver_prefix: "k \<in> set driver_keys \<Longrightarrow> \<not> starts_with context_prefix k"
  by (auto simp: driver_keys_def starts_with_def context_prefix_def)

text \<open>The dictionary that is published: the message, the ids, and the packed context.\<close>

definition id_entries :: "send_ids \<Rightarrow> bool \<Rightarrow> pydict" where
  "id_entries ids waits =
     (if waits then [(''_msg_id'', PStr (si_msg_id ids)), (''_reply_q'', PStr (si_reply_q ids))] else []) @
     [(''_unique_id'', PStr (si_unique ids))]"

definition packed :: "pydict \<Rightarrow> pydict" where
  "packed ctxt = map (\<lambda>(k, v). (context_prefix @ k, v)) ctxt"

lemma dict_ok_packed: "dict_ok ctxt \<Longrightarrow> dict_ok (packed ctxt)"
  by (simp add: packed_def distinct_map inj_on_def split_beta comp_def image_image)

lemma id_entries_props: "dict_ok (id_entries ids w)" "fst ` set (id_entries ids w) \<subseteq> set driver_keys"
  by (auto simp: id_entries_def driver_keys_def)

lemma keys_packed: "k \<in> fst ` set (packed ctxt) \<Longrightarrow> starts_with context_prefix k"
  by (auto simp: packed_def)

lemma published_eq:
  assumes m: "plain_message msg" and c: "plain_context ctxt"
  shows "published A ids w ctxt msg = serialize_msg (am_date A) (PDict (msg @ id_entries ids w @ packed ctxt))"
    and "json_ok (PDict (msg @ id_entries ids w @ packed ctxt))"
proof -
  let ?i = "id_entries ids w"
  have k: "k \<notin> set driver_keys" "\<not> starts_with context_prefix k" if "k \<in> fst ` set msg" for k
    using m that by (auto simp: plain_message_def)
  have new: "''_msg_id'' \<notin> fst ` set msg" "''_reply_q'' \<notin> fst ` set msg" "''_unique_id'' \<notin> fst ` set msg"
    using k(1) by (auto simp: driver_keys_def)
  have "(let m1 = (if w then dset ''_reply_q'' (PStr (si_reply_q ids)) (dset ''_msg_id'' (PStr (si_msg_id ids)) msg) else msg)
      in dset ''_unique_id'' (PStr (si_unique ids)) m1) = msg @ ?i"
    by (cases w) (simp_all add: Let_def id_entries_def dset_new new image_Un del: AList.update.simps)
  moreover have d: "dict_ok ((msg @ ?i) @ packed ctxt)"
  proof -
    have "fst ` set msg \<inter> fst ` set ?i = {}" using k(1) id_entries_props(2) [of ids w] by blast
    moreover have "fst ` set (msg @ ?i) \<inter> fst ` set (packed ctxt) = {}"
    proof -
      have "\<not> starts_with context_prefix x" if x: "x \<in> fst ` set (msg @ ?i)" for x
      proof -
        from x have "x \<in> fst ` set msg \<or> x \<in> fst ` set ?i" by (simp only: set_append image_Un Un_iff)
        then have "x \<in> fst ` set msg \<or> x \<in> set driver_keys" using id_entries_props(2) [of ids w] by blast
        then show ?thesis using k(2) no_driver_prefix by blast
      qed
      with keys_packed show ?thesis by blast
    qed
    ultimately show ?thesis
      using m c id_entries_props(1) [of ids w] dict_ok_packed [of ctxt]
      by (simp add: plain_message_def plain_context_def image_Un) blast
  qed
  ultimately show "published A ids w ctxt msg = serialize_msg (am_date A) (PDict (msg @ ?i @ packed ctxt))"
    by (simp add: published_def Let_def pack_context_def dupdate_append flip: packed_def)
  show "json_ok (PDict (msg @ ?i @ packed ctxt))"
    using d m c by (auto simp: plain_message_def plain_context_def id_entries_def packed_def)
qed

lemma filter_none: "(\<And>x. x \<in> set xs \<Longrightarrow> \<not> P x) \<Longrightarrow> filter P xs = []"
  by (simp add: filter_empty_conv)

lemma filter_all: "(\<And>x. x \<in> set xs \<Longrightarrow> P x) \<Longrightarrow> filter P xs = xs"
  by (simp add: filter_id_conv)

lemma delete_absent: "k \<notin> fst ` set d \<Longrightarrow> AList.delete k d = d"
  by (simp add: delete_id)

lemma delete_append: "AList.delete k (d @ e) = AList.delete k d @ AList.delete k e"
  by (simp add: AList.delete_eq)

text \<open>What the receiver makes of it.\<close>

lemma unpack_published:
  assumes m: "plain_message msg" and c: "plain_context ctxt"
  shows "unpack_context (msg @ id_entries ids w @ packed ctxt) =
    (ctxt, if w then PStr (si_msg_id ids) else PNone, if w then PStr (si_reply_q ids) else PNone,
     msg @ [(''_unique_id'', PStr (si_unique ids))])"
proof -
  let ?i = "id_entries ids w" and ?P = "\<lambda>(k, v :: pyval). starts_with context_prefix k"
  have mk: "k \<notin> set driver_keys" "\<not> starts_with context_prefix k" if "k \<in> fst ` set msg" for k
    using m that by (auto simp: plain_message_def)
  have 1: "filter ?P msg = []" "filter (\<lambda>e. \<not> ?P e) msg = msg"
    by (rule filter_none; use mk(2) in force) (rule filter_all; use mk(2) in force)
  have i: "\<not> ?P e" if "e \<in> set ?i" for e
  proof -
    have "fst e \<in> set driver_keys" using that id_entries_props(2) [of ids w] by blast
    then show ?thesis using no_driver_prefix by (simp add: split_beta)
  qed
  have 2: "filter ?P ?i = []" "filter (\<lambda>e. \<not> ?P e) ?i = ?i"
    using i by (auto intro!: filter_none filter_all)
  have 3: "filter ?P (packed ctxt) = packed ctxt" "filter (\<lambda>e. \<not> ?P e) (packed ctxt) = []"
    by (auto simp: packed_def intro!: filter_none filter_all)
  have 4: "map (\<lambda>(k, v). (drop 9 k, v)) (packed ctxt) = ctxt"
    by (simp add: packed_def comp_def split_beta context_prefix_def)
  have new: "''_msg_id'' \<notin> fst ` set msg" "''_reply_q'' \<notin> fst ` set msg"
    using mk(1) by (auto simp: driver_keys_def)
  have ids: "dpop ''_msg_id'' (msg @ ?i) = (if w then PStr (si_msg_id ids) else PNone,
      msg @ (if w then [(''_reply_q'', PStr (si_reply_q ids))] else []) @ [(''_unique_id'', PStr (si_unique ids))])"
    using new by (simp add: dpop_def dgetd_def delete_append delete_absent id_entries_def map_add_def map_of_eq_None_iff [THEN iffD2])
  have rq: "dpop ''_reply_q'' (msg @ (if w then [(''_reply_q'', PStr (si_reply_q ids))] else []) @ [(''_unique_id'', PStr (si_unique ids))]) =
      (if w then PStr (si_reply_q ids) else PNone, msg @ [(''_unique_id'', PStr (si_unique ids))])"
    using new by (simp add: dpop_def dgetd_def delete_append delete_absent map_add_def map_of_eq_None_iff [THEN iffD2])
  have cd: "dupdate [] ctxt = ctxt" "AList.delete ''msg_id'' ctxt = ctxt" "AList.delete ''reply_q'' ctxt = ctxt"
    using c by (auto simp: plain_context_def dupdate_Nil delete_absent)
  show ?thesis
    unfolding unpack_context_def Let_def filter_append 1 2 3 append_Nil append_Nil2 4 ids rq cd prod.case by simp
qed

definition arrived :: "send_ids \<Rightarrow> bool \<Rightarrow> pydict \<Rightarrow> pydict \<Rightarrow> amqp_incoming" where
  "arrived ids waits ctxt msg =
     \<lparr>in_ctxt = ctxt, in_message = msg, ai_unique_id = PStr (si_unique ids),
      ai_msg_id = (if waits then PStr (si_msg_id ids) else PNone),
      ai_reply_q = (if waits then PStr (si_reply_q ids) else PNone)\<rparr>"

lemma plain_no_unique: "plain_message msg \<Longrightarrow> ''_unique_id'' \<notin> fst ` set msg"
  by (auto simp: plain_message_def driver_keys_def)

lemma delivered_published:
  assumes m: "plain_message msg" and c: "plain_context ctxt"
  shows "delivered (published A ids w ctxt msg) L =
    (if PStr (si_unique ids) \<in> set (l_cache L) then L
     else L\<lparr>l_incoming := l_incoming L @ [arrived ids w ctxt msg]\<rparr>)"
proof -
  have r: "rabbit_message (published A ids w ctxt msg) = Inr (msg @ id_entries ids w @ packed ctxt)"
    using published_eq [OF m c] by (simp add: rabbit_message_def envelope_roundtrip del: json_ok.simps)
  have u: "dget (msg @ [(''_unique_id'', PStr (si_unique ids))]) ''_unique_id'' = Some (PStr (si_unique ids))"
    "AList.delete ''_unique_id'' (msg @ [(''_unique_id'', PStr (si_unique ids))]) = msg"
    using plain_no_unique [OF m] by (simp_all add: delete_append delete_absent map_add_def map_of_eq_None_iff [THEN iffD2])
  show ?thesis
    unfolding delivered_def r bind_r.simps listener_call_def unpack_published [OF m c] prod.case
      check_duplicate_message_def u option.case
    by (simp add: arrived_def)
qed

section \<open>The server's answer\<close>

lemma find_method_app:
  "find_method ns v m found (map app_endpoint eps) =
   bind_r (find_method ns v m found eps) (\<lambda>h. Inr (on_app h))"
proof (induction eps arbitrary: found)
  case (Cons ep eps)
  have a: "accepts (app_endpoint ep) ns v = accepts ep ns v"
    by (simp add: accepts_def app_endpoint_def endpoint_target_def)
  have b: "ep_method (app_endpoint ep) n = map_option on_app (ep_method ep n)" for n
    by (simp add: app_endpoint_def)
  show ?case
  proof (cases "accepts ep ns v")
    case (Inr ok)
    then show ?thesis using Cons
      by (cases ok; cases m) (simp_all add: a b split: option.split)
  qed (simp add: a)
qed simp

lemma dispatch_app:
  "rpc_dispatch S (map app_endpoint eps) inc sv =
   (case rpc_dispatch S eps inc (sv_app sv) of (r, s1) \<Rightarrow> (r, sv\<lparr>sv_app := s1\<rparr>))"
  by (auto simp: rpc_dispatch_def Let_def find_method_app do_dispatch_def on_app_def
      split: sum.split prod.split)

lemma serve_next_arrived:
  assumes "l_incoming (sv_listener sv) = arrived ids True ctxt msg # rest"
    and "rpc_dispatch S eps \<lparr>in_ctxt = ctxt, in_message = msg\<rparr> (sv_app sv) = (res, s1)"
    and "si_msg_id ids \<noteq> []"
  shows "\<exists>p. reply_payload A uid (arrived ids True ctxt msg) res = Some p \<and>
    serve_next A S eps uid sv =
      sv\<lparr>sv_listener := \<lparr>l_cache = cache_add (PStr (si_unique ids)) (l_cache (sv_listener sv)), l_incoming = rest\<rparr>,
         sv_app := s1, sv_sent := sv_sent sv @ [(PStr (si_reply_q ids), p)]\<rparr>"
  using assms
  by (cases sv; cases "sv_listener sv") (simp add: serve_next_def process_incoming_def dispatch_app incoming.truncate_def reply_payload_def
        arrived_def acknowledge_def split_beta)

section \<open>A call over the broker\<close>

lemma rabbit_envelope: "json_ok (PDict d) \<Longrightarrow> rabbit_message (serialize_msg dt (PDict d)) = Inr d"
  unfolding rabbit_message_def by (subst envelope_roundtrip) simp_all

lemma reply_payload_received:
  assumes "reply_payload A uid (arrived ids True ctxt msg) res = Some p"
    and "case res of Inr v \<Rightarrow> json_ok v | Inl e \<Rightarrow> json_ok (exception_data A (am_raised A e))"
  shows "\<exists>result failure. rabbit_message p = Inr [(''result'', result), (''failure'', failure), (''ending'', PBool True),
      (''_msg_id'', PStr (si_msg_id ids)), (''_unique_id'', PStr uid)] \<and>
    (case res of
       Inr v \<Rightarrow> result = v \<and> failure = PNone
     | Inl e \<Rightarrow> result = PNone \<and> failure = PStr (serialize_remote_exception A (am_raised A e)))"
proof -
  let ?d = "\<lambda>r f. [(''result'', r), (''failure'', f), (''ending'', PBool True), (''_msg_id'', PStr (si_msg_id ids)), (''_unique_id'', PStr uid)]"
  have ok: "json_ok r \<Longrightarrow> json_ok f \<Longrightarrow> rabbit_message (serialize_msg dt (PDict (?d r f))) = Inr (?d r f)" for r f dt
    by (rule rabbit_envelope) simp
  show ?thesis
  proof (cases res)
    case (Inl e)
    from assms(1) Inl have "p = serialize_msg (am_date A) (PDict (?d PNone (PStr (serialize_remote_exception A (am_raised A e)))))"
      by (auto simp: reply_payload_def arrived_def split: if_splits)
    with ok Inl show ?thesis by simp
  next
    case (Inr v)
    from assms(1) Inr have "p = serialize_msg (am_date A) (PDict (?d v PNone))"
      by (auto simp: reply_payload_def arrived_def split: if_splits)
    with ok Inr assms(2) show ?thesis by simp
  qed
qed

lemma revive_serialized:
  "json_ok (exception_data A x) \<Longrightarrow>
   deserialize_remote_exception A exmods (serialize_remote_exception A x) = revive A exmods (exception_data A x)"
  by (simp add: deserialize_remote_exception_def serialize_remote_exception_def jsonutils_dumps_ok json_loads_dumps)

lemma serialized_exception_ne: "json_ok (exception_data A x) \<Longrightarrow> serialize_remote_exception A x \<noteq> []"
  by (simp add: serialize_remote_exception_def jsonutils_dumps_ok exception_data_def split_beta)

text \<open>The reply of the one call that waits.\<close>

lemma one_reply:
  assumes "rabbit_message p = Inr [(''result'', result), (''failure'', failure), (''ending'', PBool True),
      (''_msg_id'', i), (''_unique_id'', u)]"
    and "i \<notin> fst ` set W"
  shows "dget (reply_arrives p (listen i W)) i = Some [[(''result'', result), (''failure'', failure), (''ending'', PBool True), (''_unique_id'', u)]]"
    and "unlisten i (reply_arrives p (listen i W)) = W"
  using assms
  by (simp_all add: reply_arrives_def listen_def unlisten_def dpop_def dgetd_def delete_update_same delete_absent)

lemma wait_one_reply:
  "wait_reply A exmods (Answer PNone) [[(''result'', v), (''failure'', PNone), (''ending'', PBool True), (''_unique_id'', u)]] = Inr (Answer v)"
  "t \<noteq> [] \<Longrightarrow> wait_reply A exmods (Answer PNone) [[(''result'', r), (''failure'', PStr t), (''ending'', PBool True), (''_unique_id'', u)]] =
     bind_r (deserialize_remote_exception A exmods t) (\<lambda>f. Inr (Failure f))"
  by (cases "deserialize_remote_exception A exmods t"; simp add: process_reply_def check_duplicate_message_def ditem_def dgetd_def)+

text \<open>A broker with one server behind it, which handles what it is brought at once.\<close>

definition one_server ::
  "amqp_env \<Rightarrow> 'c serializer \<Rightarrow> ('c, 's) endpoint list \<Rightarrow> string \<Rightarrow> 's server broker" where
  "one_server A S eps uid dest payload wait sv =
     (let sv1 = serve_next A S eps uid (sv\<lparr>sv_listener := delivered payload (sv_listener sv)\<rparr>)
      in (Inr (map snd (drop (length (sv_sent sv)) (sv_sent sv1))), sv1))"

text \<open>The answer of the called method, as the caller gets it.\<close>

definition call_answer ::
  "amqp_env \<Rightarrow> string list \<Rightarrow> (remote_failure \<Rightarrow> exn) \<Rightarrow> pyval result \<Rightarrow> pyval result" where
  "call_answer A exmods raised res =
     (case res of
        Inr v \<Rightarrow> Inr v
      | Inl e \<Rightarrow>
          (case revive A exmods (exception_data A (am_raised A e)) of
             Inl e1 \<Rightarrow> Inl e1 | Inr f \<Rightarrow> Inl (raised f)))"

lemma made_message_plain:
  assumes "make_message S t ctxt meth args = Inr msg" "json_ok (PDict msg)"
  shows "plain_message msg"
proof -
  have "fst ` set msg \<subseteq> {''method'', ''args'', ''namespace'', ''version''}"
    using assms(1) by (auto simp: make_message_def bind_r_Inr_iff opt_entry_def split: option.splits)
  moreover have "\<forall>k \<in> {''method'', ''args'', ''namespace'', ''version''}. \<not> starts_with context_prefix k \<and> k \<notin> set driver_keys"
    by (simp add: starts_with_def context_prefix_def driver_keys_def)
  ultimately show ?thesis using assms(2) unfolding plain_message_def by blast
qed

lemma cache_add_last: "truthy i \<Longrightarrow> i \<in> set (cache_add i ids)"
  by (auto simp: cache_add_def Let_def DUP_MSG_CHECK_SIZE_def)

lemma amqp_send_call:
  assumes m: "plain_message msg" and c: "plain_context mc"
    and L: "l_incoming (sv_listener sv) = []" "PStr (si_unique ids) \<notin> set (l_cache (sv_listener sv))"
    and i: "si_msg_id ids \<noteq> []" "PStr (si_msg_id ids) \<notin> fst ` set W"
    and run: "rpc_dispatch S eps \<lparr>in_ctxt = mc, in_message = msg\<rparr> (sv_app sv) = (res, s1)"
    and ok: "case res of Inr v \<Rightarrow> json_ok v | Inl e \<Rightarrow> json_ok (exception_data A (am_raised A e))"
  shows "\<exists>sv1. amqp_send A exmods raised (one_server A S eps uid) ids t mc msg (Some timeout) (W, sv) =
      (call_answer A exmods raised res, (W, sv1)) \<and>
    sv_app sv1 = s1 \<and> sv_listener sv1 = \<lparr>l_cache = cache_add (PStr (si_unique ids)) (l_cache (sv_listener sv)), l_incoming = []\<rparr>"
proof -
  let ?i = "PStr (si_msg_id ids)"
  define sv0 where "sv0 = sv\<lparr>sv_listener := delivered (published A ids True mc msg) (sv_listener sv)\<rparr>"
  have sv0: "l_incoming (sv_listener sv0) = arrived ids True mc msg # []" "sv_app sv0 = sv_app sv"
    "l_cache (sv_listener sv0) = l_cache (sv_listener sv)" "sv_sent sv0 = sv_sent sv"
    by (simp_all add: sv0_def delivered_published [OF m c] L)
  from serve_next_arrived [OF sv0(1) run [folded sv0(2)] i(1), of A uid] obtain p where
    p: "reply_payload A uid (arrived ids True mc msg) res = Some p" and
    sv1: "serve_next A S eps uid sv0 =
      sv0\<lparr>sv_listener := \<lparr>l_cache = cache_add (PStr (si_unique ids)) (l_cache (sv_listener sv0)), l_incoming = []\<rparr>,
         sv_app := s1, sv_sent := sv_sent sv0 @ [(PStr (si_reply_q ids), p)]\<rparr>" by blast
  define sv1' where "sv1' = serve_next A S eps uid sv0"
  have srv: "one_server A S eps uid d (published A ids True mc msg) w sv = (Inr [p], sv1')" for d w
    by (simp add: one_server_def Let_def sv1'_def sv1 sv0 flip: sv0_def)
  have end_state: "sv_app sv1' = s1" "sv_listener sv1' = \<lparr>l_cache = cache_add (PStr (si_unique ids)) (l_cache (sv_listener sv)), l_incoming = []\<rparr>"
    by (simp_all add: sv1'_def sv1 sv0(3))
  from reply_payload_received [OF p ok] obtain result failure where
    r: "rabbit_message p = Inr [(''result'', result), (''failure'', failure), (''ending'', PBool True), (''_msg_id'', ?i), (''_unique_id'', PStr uid)]"
    and rf: "case res of Inr v \<Rightarrow> result = v \<and> failure = PNone
      | Inl e \<Rightarrow> result = PNone \<and> failure = PStr (serialize_remote_exception A (am_raised A e))" by blast
  note q = one_reply [OF r i(2)]
  have w: "wait_reply A exmods (Answer PNone) (given_or (dget (reply_arrives p (listen ?i W)) ?i) []) =
      (case res of
         Inr v \<Rightarrow> Inr (Answer v)
       | Inl e \<Rightarrow> bind_r (revive A exmods (exception_data A (am_raised A e))) (\<lambda>f. Inr (Failure f)))"
    using rf ok serialized_exception_ne [of A]
    by (cases res) (simp_all add: q(1) given_or_def wait_one_reply revive_serialized del: wait_reply.simps)
  have waits: "(Some timeout \<noteq> None) = True" by simp
  have "amqp_send A exmods raised (one_server A S eps uid) ids t mc msg (Some timeout) (W, sv) =
      (call_answer A exmods raised res, (W, sv1'))"
    unfolding amqp_send_def Let_def prod.case waits srv sum.case
    by (cases res; cases "revive A exmods (exception_data A (am_raised A (projl res)))")
      (simp_all add: w q(2) call_answer_def)
  with end_state show ?thesis by blast
qed

lemma rpc_call_one_server:
  assumes sent: "outgoing S cc ctxt meth args = Inr (mc, msg)"
    and target: "\<not> tg_fanout (cc_target cc)" "\<not> no_topic (cc_target cc)"
    and json: "json_ok (PDict msg)" "plain_context mc"
    and L: "l_incoming (sv_listener sv) = []" "PStr (si_unique ids) \<notin> set (l_cache (sv_listener sv))"
    and ids: "si_unique ids \<noteq> []" "si_msg_id ids \<noteq> []" "PStr (si_msg_id ids) \<notin> fst ` set W"
    and run: "rpc_dispatch S eps \<lparr>in_ctxt = mc, in_message = msg\<rparr> (sv_app sv) = (res, s1)"
    and ok: "case res of Inr v \<Rightarrow> json_ok v | Inl e \<Rightarrow> json_ok (exception_data A (am_raised A e))"
  shows "\<exists>sv1. rpc_call (amqp_send A exmods raised (one_server A S eps uid) ids) response_timeout S cc ctxt meth args (W, sv) =
      (case call_answer A exmods raised res of
         Inl e \<Rightarrow> Inl (client_error e) | Inr v \<Rightarrow> deserialize_entity S ctxt v, (W, sv1)) \<and>
    sv_app sv1 = s1 \<and> sv_listener sv1 = \<lparr>l_cache = cache_add (PStr (si_unique ids)) (l_cache (sv_listener sv)), l_incoming = []\<rparr>"
proof -
  from sent have mk: "make_message S (cc_target cc) ctxt meth args = Inr msg" by (simp add: outgoing_Inr)
  obtain sv1 where sv1:
    "amqp_send A exmods raised (one_server A S eps uid) ids (cc_target cc) mc msg
       (Some (Some (given_or (cc_timeout cc) response_timeout))) (W, sv) = (call_answer A exmods raised res, (W, sv1))"
    "sv_app sv1 = s1" "sv_listener sv1 = \<lparr>l_cache = cache_add (PStr (si_unique ids)) (l_cache (sv_listener sv)), l_incoming = []\<rparr>"
    using amqp_send_call [OF made_message_plain [OF mk json(1)] json(2) L ids(2,3) run ok] by blast
  have "rpc_call (amqp_send A exmods raised (one_server A S eps uid) ids) response_timeout S cc ctxt meth args (W, sv) =
      (case call_answer A exmods raised res of
         Inl e \<Rightarrow> Inl (client_error e) | Inr v \<Rightarrow> deserialize_entity S ctxt v, (W, sv1))"
    using target
    by (cases "call_answer A exmods raised res")
      (simp_all add: rpc_call_def sent transport_send_def sv1(1) as_client_error_def)
  with sv1 show ?thesis by blast
qed

text \<open>A cast runs the method too, but nothing comes back.\<close>

lemma rpc_cast_one_server:
  assumes sent: "outgoing S cc ctxt meth args = Inr (mc, msg)"
    and target: "\<not> no_topic (cc_target cc)"
    and json: "json_ok (PDict msg)" "plain_context mc"
    and L: "l_incoming (sv_listener sv) = []" "PStr (si_unique ids) \<notin> set (l_cache (sv_listener sv))"
    and run: "rpc_dispatch S eps \<lparr>in_ctxt = mc, in_message = msg\<rparr> (sv_app sv) = (res, s1)"
  shows "\<exists>sv1. rpc_cast (amqp_send A exmods raised (one_server A S eps uid) ids) S cc ctxt meth args (W, sv) = (Inr (), (W, sv1)) \<and>
    sv_app sv1 = s1 \<and> sv_sent sv1 = sv_sent sv \<and>
    sv_listener sv1 = \<lparr>l_cache = cache_add (PStr (si_unique ids)) (l_cache (sv_listener sv)), l_incoming = []\<rparr>"
proof -
  from sent have mk: "make_message S (cc_target cc) ctxt meth args = Inr msg" by (simp add: outgoing_Inr)
  note m = made_message_plain [OF mk json(1)]
  define sv0 where "sv0 = sv\<lparr>sv_listener := delivered (published A ids False mc msg) (sv_listener sv)\<rparr>"
  have sv0: "l_incoming (sv_listener sv0) = arrived ids False mc msg # []" "sv_app sv0 = sv_app sv"
    "l_cache (sv_listener sv0) = l_cache (sv_listener sv)" "sv_sent sv0 = sv_sent sv"
    by (simp_all add: sv0_def delivered_published [OF m json(2)] L)
  define sv1 where "sv1 = serve_next A S eps uid sv0"
  have sv1: "sv1 = sv0\<lparr>sv_listener := \<lparr>l_cache = cache_add (PStr (si_unique ids)) (l_cache (sv_listener sv0)), l_incoming = []\<rparr>,
         sv_app := s1\<rparr>"
    using sv0(1) run [folded sv0(2)] unfolding sv1_def
    by (cases sv0; cases "sv_listener sv0") (simp add: serve_next_def process_incoming_def dispatch_app
        incoming.truncate_def reply_payload_def arrived_def acknowledge_def)
  have srv: "one_server A S eps uid d (published A ids False mc msg) w sv = (Inr [], sv1)" for d w
    by (simp add: one_server_def Let_def sv0(4) sv1 flip: sv0_def sv1_def)
  have nowait: "(None \<noteq> None) = False" by simp
  have "rpc_cast (amqp_send A exmods raised (one_server A S eps uid) ids) S cc ctxt meth args (W, sv) = (Inr (), (W, sv1))"
    using target
    by (simp add: rpc_cast_def sent transport_send_def amqp_send_def srv as_client_error_def)
  then show ?thesis by (auto simp: sv1 sv0)
qed

text \<open>
  C7: a call over the broker is the call of the method. What the caller gets is the value the
  dispatched method returned, or the exception that stands here for the one it raised; the
  method runs once, on the context and the message that were sent, and leaves the server ready
  for the next call and able to refuse this one if it is delivered again. Other calls that
  wait on the same client are left alone.
\<close>

theorem call_over_broker:
  assumes sent: "outgoing S cc ctxt meth args = Inr (mc, msg)"
    and target: "\<not> tg_fanout (cc_target cc)" "\<not> no_topic (cc_target cc)"
    and json: "json_ok (PDict msg)" "plain_context mc"
    and L: "l_incoming (sv_listener sv) = []" "PStr (si_unique ids) \<notin> set (l_cache (sv_listener sv))"
    and ids: "si_unique ids \<noteq> []" "si_msg_id ids \<noteq> []" "PStr (si_msg_id ids) \<notin> fst ` set W"
    and run: "rpc_dispatch S eps \<lparr>in_ctxt = mc, in_message = msg\<rparr> (sv_app sv) = (res, s1)"
    and ok: "case res of Inr v \<Rightarrow> json_ok v | Inl e \<Rightarrow> json_ok (exception_data A (am_raised A e))"
  shows "\<exists>sv1. rpc_call (amqp_send A exmods raised (one_server A S eps uid) ids) response_timeout S cc ctxt meth args (W, sv) =
      (case call_answer A exmods raised res of
         Inl e \<Rightarrow> Inl (client_error e) | Inr v \<Rightarrow> deserialize_entity S ctxt v, (W, sv1)) \<and>
    sv_app sv1 = s1 \<and> l_incoming (sv_listener sv1) = [] \<and>
    delivered (published A ids True mc msg) (sv_listener sv1) = sv_listener sv1"
proof -
  from sent have mk: "make_message S (cc_target cc) ctxt meth args = Inr msg" by (simp add: outgoing_Inr)
  note m = made_message_plain [OF mk json(1)]
  from rpc_call_one_server [OF assms] obtain sv1 where sv1:
    "rpc_call (amqp_send A exmods raised (one_server A S eps uid) ids) response_timeout S cc ctxt meth args (W, sv) =
      (case call_answer A exmods raised res of
         Inl e \<Rightarrow> Inl (client_error e) | Inr v \<Rightarrow> deserialize_entity S ctxt v, (W, sv1))"
    "sv_app sv1 = s1" "sv_listener sv1 = \<lparr>l_cache = cache_add (PStr (si_unique ids)) (l_cache (sv_listener sv)), l_incoming = []\<rparr>"
    by blast
  have "PStr (si_unique ids) \<in> set (l_cache (sv_listener sv1))"
    using cache_add_last [of "PStr (si_unique ids)"] ids(1) by (simp add: sv1(3))
  then have "delivered (published A ids True mc msg) (sv_listener sv1) = sv_listener sv1"
    by (simp add: delivered_published [OF m json(2)])
  with sv1 show ?thesis by auto
qed

section \<open>Exceptions from elsewhere\<close>

lemma ends_with_postfix [simp]: "ends_with remote_postfix (s @ remote_postfix)" "cut_postfix (s @ remote_postfix) = s"
  by (auto simp: ends_with_iff cut_postfix_def)

lemma revive_Revived:
  assumes "revive A exmods (PDict f) = Inr (Revived x)"
  shows "\<exists>m y shown. dget f ''module'' = Some (PStr m) \<and> (m = exceptions_module \<or> m \<in> set exmods) \<and>
    rebuild A m (dgetd f ''class'' PNone) (dgetd f ''args'' (PList [])) (dgetd f ''kwargs'' (PDict [])) = Inr y \<and>
    x = swap_class A m shown y"
proof -
  from assms obtain m where m: "dgetd f ''module'' PNone = PStr m"
    by (cases "dgetd f ''module'' PNone") (auto simp: bind_r_Inr_iff Let_def)
  then have "dget f ''module'' = Some (PStr m)" by (auto simp: dgetd_def split: option.splits)
  moreover from assms m have "m = exceptions_module \<or> m \<in> set exmods"
    by (auto simp: bind_r_Inr_iff Let_def split: if_splits)
  moreover from assms m obtain y shown where
    "rebuild A m (dgetd f ''class'' PNone) (dgetd f ''args'' (PList [])) (dgetd f ''kwargs'' (PDict [])) = Inr y"
    "x = swap_class A m shown y"
    by (auto simp: bind_r_Inr_iff Let_def split: if_splits sum.splits)
  ultimately show ?thesis by blast
qed

text \<open>
  C29: a reply cannot make the client import what it was not told to trust. An exception is
  rebuilt only from the module of the built-in exceptions or from a listed one; for any other
  module the outcome does not depend on what an import would find. A rebuilt exception that is
  sent on travels under its original class and module.
\<close>

theorem only_listed_modules:
  assumes "dget f ''module'' = Some (PStr m)"
  shows "(m \<noteq> exceptions_module \<and> m \<notin> set exmods \<longrightarrow>
      revive (A\<lparr>am_construct := g\<rparr>) exmods (PDict f) = revive A exmods (PDict f) \<and>
      (\<forall>x. revive A exmods (PDict f) \<noteq> Inr (Revived x))) \<and>
    (\<forall>x. revive A exmods (PDict f) = Inr (Revived x) \<longrightarrow>
      (\<exists>y. (m = exceptions_module \<or> m \<in> set exmods) \<and>
        rebuild A m (dgetd f ''class'' PNone) (dgetd f ''args'' (PList [])) (dgetd f ''kwargs'' (PDict [])) = Inr y \<and>
        (am_swappable A y \<longrightarrow> original_class x = (x_class y, m))))"
proof -
  have "revive (A\<lparr>am_construct := g\<rparr>) exmods (PDict f) = revive A exmods (PDict f)"
    if "m \<noteq> exceptions_module" "m \<notin> set exmods"
    using that assms by (simp add: dgetd_def)
  moreover have "\<exists>y. (m = exceptions_module \<or> m \<in> set exmods) \<and>
      rebuild A m (dgetd f ''class'' PNone) (dgetd f ''args'' (PList [])) (dgetd f ''kwargs'' (PDict [])) = Inr y \<and>
      (am_swappable A y \<longrightarrow> original_class x = (x_class y, m))" if "revive A exmods (PDict f) = Inr (Revived x)" for x
    using revive_Revived [OF that] assms by (auto simp: swap_class_def original_class_def)
  ultimately show ?thesis by blast
qed

section \<open>The window of the duplicate check\<close>

datatype listener_event =
    Brought pydict
  | Handled

text \<open>A message is brought, or the next one is taken and acknowledged.\<close>

fun listener_step :: "listener_event \<Rightarrow> listener \<Rightarrow> listener" where
  "listener_step (Brought m) L = (case listener_call m L of Inl e \<Rightarrow> L | Inr L1 \<Rightarrow> L1)"
| "listener_step Handled L =
     (case l_incoming L of [] \<Rightarrow> L | inc # rest \<Rightarrow> acknowledge inc (L\<lparr>l_incoming := rest\<rparr>))"

definition handled_count :: "listener_event list \<Rightarrow> nat" where
  "handled_count evs = length (filter (\<lambda>e. e = Handled) evs)"

lemma listener_call_cache: "listener_call m L = Inr L1 \<Longrightarrow> l_cache L1 = l_cache L"
  by (auto simp: listener_call_def bind_r_Inr_iff split: prod.splits)

text \<open>How far an id is from being dropped: the ids added after it.\<close>

definition younger :: "pyval \<Rightarrow> pyval list \<Rightarrow> nat \<Rightarrow> bool" where
  "younger u c n \<longleftrightarrow> (\<exists>xs ys. c = xs @ u # ys \<and> length ys \<le> n)"

lemma younger_in: "younger u c n \<Longrightarrow> u \<in> set c"
  by (auto simp: younger_def)

lemma younger_mono: "younger u c n \<Longrightarrow> younger u c (Suc n)"
  unfolding younger_def using le_SucI by blast

lemma younger_add: "younger u c n \<Longrightarrow> n < DUP_MSG_CHECK_SIZE - 1 \<Longrightarrow> younger u (cache_add i c) (Suc n)"
proof -
  assume "younger u c n" and n: "n < DUP_MSG_CHECK_SIZE - 1"
  then obtain xs ys where c: "c = xs @ u # ys" "length ys \<le> n" by (auto simp: younger_def)
  show ?thesis
  proof (cases "truthy i \<and> i \<notin> set c")
    case True
    let ?k = "length (c @ [i]) - DUP_MSG_CHECK_SIZE"
    have "?k \<le> length xs" using c n by (simp add: DUP_MSG_CHECK_SIZE_def)
    then have "cache_add i c = drop ?k xs @ u # (ys @ [i])" using True by (simp add: c cache_add_def Let_def)
    moreover have "length (ys @ [i]) \<le> Suc n" using c(2) by simp
    ultimately show ?thesis unfolding younger_def by blast
  next
    case False
    then have "cache_add i c = c" unfolding cache_add_def by (rule if_not_P)
    then show ?thesis using c le_SucI unfolding younger_def by metis
  qed
qed

lemma younger_run:
  "younger u (l_cache L) n \<Longrightarrow> n + handled_count evs < DUP_MSG_CHECK_SIZE \<Longrightarrow>
   younger u (l_cache (fold listener_step evs L)) (n + handled_count evs)"
proof (induction evs arbitrary: L n)
  case (Cons e evs)
  show ?case
  proof (cases e)
    case (Brought m)
    have "l_cache (listener_step e L) = l_cache L"
      using listener_call_cache by (auto simp: Brought split: sum.split)
    with Cons Brought show ?thesis by (simp add: handled_count_def)
  next
    case Handled
    have n: "n < DUP_MSG_CHECK_SIZE - 1" using Cons.prems(2) by (simp add: Handled handled_count_def)
    have "younger u (l_cache (listener_step e L)) (Suc n)"
      using younger_add [OF Cons.prems(1) n] Cons.prems(1)
      by (auto simp: Handled acknowledge_def dest: younger_mono split: list.split)
    from Cons.IH [OF this] Cons.prems(2) show ?thesis by (simp add: Handled handled_count_def)
  qed
qed (simp add: handled_count_def)

definition cache_ok :: "pyval list \<Rightarrow> bool" where
  "cache_ok c \<longleftrightarrow> distinct c \<and> length c \<le> DUP_MSG_CHECK_SIZE"

lemma cache_add_ok: "cache_ok c \<Longrightarrow> cache_ok (cache_add i c)"
proof -
  assume c: "cache_ok c"
  have "cache_ok (drop (length (c @ [i]) - DUP_MSG_CHECK_SIZE) (c @ [i]))" if "i \<notin> set c"
  proof -
    have "distinct (c @ [i])" using c that by (simp add: cache_ok_def)
    then show ?thesis unfolding cache_ok_def by (intro conjI distinct_drop) simp_all
  qed
  with c show ?thesis unfolding cache_add_def Let_def by simp
qed

lemma cache_run_ok: "cache_ok (l_cache L) \<Longrightarrow> cache_ok (l_cache (fold listener_step evs L))"
proof (induction evs arbitrary: L)
  case (Cons e evs)
  have "cache_ok (l_cache (listener_step e L))"
    using Cons.prems listener_call_cache cache_add_ok
    by (cases e) (auto simp: acknowledge_def split: sum.split list.split)
  from Cons.IH [OF this] show ?case by simp
qed simp

lemma dget_filter_key: "P k \<Longrightarrow> dget (filter (\<lambda>e. P (fst e)) m) k = dget m k"
  by (induction m) auto

lemma unpacked_unique:
  "unpack_context m = (ctxt, i, q, m2) \<Longrightarrow> dget m2 ''_unique_id'' = dget m ''_unique_id''"
proof -
  assume u: "unpack_context m = (ctxt, i, q, m2)"
  have "\<not> starts_with context_prefix ''_unique_id''" by (rule no_driver_prefix) (simp add: driver_keys_def)
  then have "dget (filter (\<lambda>e. \<not> starts_with context_prefix (fst e)) m) ''_unique_id'' = dget m ''_unique_id''"
    by (rule dget_filter_key)
  with u show ?thesis by (auto simp: unpack_context_def Let_def dpop_def split_beta)
qed

lemma brought_again:
  "dget m ''_unique_id'' = Some u \<Longrightarrow> u \<in> set (l_cache L) \<Longrightarrow> listener_call m L = Inl duplicate_message"
  using unpacked_unique [of m]
  by (cases "unpack_context m") (simp add: listener_call_def check_duplicate_message_def)

text \<open>
  The window of the duplicate check. A message that has been handled is refused when the
  broker brings it again, as long as fewer than sixteen further messages have been handled;
  refusing it changes nothing, and the cache never grows beyond its size or holds an id twice.
\<close>

theorem handled_not_again:
  assumes inc: "l_incoming L = inc # rest" "truthy (ai_unique_id inc)" "ai_unique_id inc \<notin> set (l_cache L)"
    and ok: "cache_ok (l_cache L)"
    and evs: "handled_count evs < DUP_MSG_CHECK_SIZE"
    and again: "dget m ''_unique_id'' = Some (ai_unique_id inc)"
  shows "listener_step (Brought m) (fold listener_step evs (listener_step Handled L)) =
      fold listener_step evs (listener_step Handled L) \<and>
    cache_ok (l_cache (fold listener_step evs (listener_step Handled L)))"
proof -
  let ?L1 = "listener_step Handled L" and ?u = "ai_unique_id inc"
  have c: "l_cache ?L1 = cache_add ?u (l_cache L)" by (simp add: inc acknowledge_def)
  have "cache_add ?u (l_cache L) = drop (Suc (length (l_cache L)) - DUP_MSG_CHECK_SIZE) (l_cache L) @ [?u]"
    using inc(2,3) by (simp add: cache_add_def DUP_MSG_CHECK_SIZE_def)
  then have "younger ?u (l_cache ?L1) 0" unfolding c younger_def by auto
  from younger_run [OF this, unfolded add_0, OF evs] have "?u \<in> set (l_cache (fold listener_step evs ?L1))"
    by (rule younger_in)
  from brought_again [OF again this]
  have "listener_step (Brought m) (fold listener_step evs ?L1) = fold listener_step evs ?L1"
    by (simp del: listener_step.simps(2))
  moreover have "cache_ok (l_cache (fold listener_step evs ?L1))"
    by (rule cache_run_ok) (simp only: c cache_add_ok [OF ok])
  ultimately show ?thesis by blast
qed

text \<open>
  Before it has been handled a message is not yet in the cache: brought twice, it is taken
  twice.
\<close>

lemma brought_twice_before_handled:
  "l_incoming (fold listener_step [Brought [(''_unique_id'', PStr u)], Brought [(''_unique_id'', PStr u)]]
     \<lparr>l_cache = [], l_incoming = []\<rparr>) =
   replicate 2 \<lparr>in_ctxt = [], in_message = [], ai_unique_id = PStr u, ai_msg_id = PNone, ai_reply_q = PNone\<rparr>"
  by (simp add: listener_call_def unpack_context_def dpop_def dgetd_def check_duplicate_message_def
      starts_with_def context_prefix_def dupdate_def numeral_2_eq_2)

section \<open>The pause between polls\<close>

text \<open>
  How long the poll waits for the next message: after a timeout twice as long. The maximum is
  meant to be a bound, but the code takes the larger of the two.
\<close>

definition ACK_REQUEUE_EVERY_SECONDS_MIN :: rat where
  "ACK_REQUEUE_EVERY_SECONDS_MIN = 1 / 1000"

definition ACK_REQUEUE_EVERY_SECONDS_MAX :: rat where
  "ACK_REQUEUE_EVERY_SECONDS_MAX = 1"

definition next_poll_timeout :: "bool \<Rightarrow> rat \<Rightarrow> rat" where
  "next_poll_timeout timed_out current =
     (if timed_out then max (current * 2) ACK_REQUEUE_EVERY_SECONDS_MAX else ACK_REQUEUE_EVERY_SECONDS_MIN)"

lemma poll_timeout_grows:
  "(next_poll_timeout True ^^ Suc n) ACK_REQUEUE_EVERY_SECONDS_MIN = 2 ^ n * ACK_REQUEUE_EVERY_SECONDS_MAX"
proof (induction n)
  case (Suc n)
  have "(1 :: rat) \<le> 2 ^ Suc n" by (rule one_le_power) simp
  with Suc show ?case by (simp add: next_poll_timeout_def ACK_REQUEUE_EVERY_SECONDS_MAX_def max_def)
qed (simp add: next_poll_timeout_def ACK_REQUEUE_EVERY_SECONDS_MIN_def ACK_REQUEUE_EVERY_SECONDS_MAX_def)

section \<open>Samples\<close>

definition sample_amqp :: amqp_env where
  "sample_amqp =
     \<lparr>am_date = (\<lambda>t z. t), am_text = x_class, am_traceback = (\<lambda>x. []),
      am_construct = (\<lambda>m n xs d. case n of
          PStr c \<Rightarrow> Inr \<lparr>x_class = c, x_module = m, x_args = xs, x_kwargs = Some d, x_override = None\<rparr>
        | _ \<Rightarrow> Inl TypeError),
      am_swappable = (\<lambda>x. x_module x \<noteq> ''exceptions''),
      am_raised = (\<lambda>e. \<lparr>x_class = ''ValueError'', x_module = ''exceptions'', x_args = [], x_kwargs = None, x_override = None\<rparr>),
      am_default_exchange = ''nova''\<rparr>"

definition sample_ids :: send_ids where
  "sample_ids = \<lparr>si_unique = ''u1'', si_msg_id = ''m1'', si_reply_q = ''reply_1''\<rparr>"

definition sample_bus_server :: "int server" where
  "sample_bus_server = \<lparr>sv_listener = \<lparr>l_cache = [], l_incoming = []\<rparr>, sv_sent = [], sv_app = 0\<rparr>"

theorem call_over_broker_witness:
  "\<exists>sv1. rpc_call (amqp_send sample_amqp [] (\<lambda>f. RuntimeError)
       (one_server sample_amqp plain_serializer [sample_endpoint ''baseapi'' ''1.1''] ''u2'') sample_ids) 60
       plain_serializer sample_client [] ''ping'' [(''arg'', PInt 7)] ([], sample_bus_server) = (Inr (PInt 7), ([], sv1)) \<and>
     sv_app sv1 = 1"
proof -
  have run: "rpc_dispatch plain_serializer [sample_endpoint ''baseapi'' ''1.1''] \<lparr>in_ctxt = [], in_message = sample_message\<rparr>
      (sv_app sample_bus_server) = (Inr (PInt 7), 1)"
    by code_simp
  have "\<not> tg_fanout (cc_target sample_client)" "\<not> no_topic (cc_target sample_client)"
    "json_ok (PDict sample_message)" "plain_context []"
    by (simp_all add: sample_client_def Target_def no_topic_def sample_message_def plain_context_def)
  from call_over_broker [OF sample_outgoing this _ _ _ _ _ run, of sample_ids "[]" sample_amqp "[]" "\<lambda>f. RuntimeError" "''u2''" 60]
  show ?thesis by (auto simp: sample_bus_server_def sample_ids_def call_answer_def plain_serializer_def)
qed

theorem only_listed_modules_witness:
  "(\<forall>x. revive sample_amqp [''nova.exception''] (PDict [(''class'', PStr ''Popen''), (''module'', PStr ''subprocess'')]) \<noteq> Inr (Revived x)) \<and>
   (\<exists>x. revive sample_amqp [''nova.exception''] (PDict [(''class'', PStr ''NotFound''), (''module'', PStr ''nova.exception'')]) = Inr (Revived x) \<and>
      original_class x = (''NotFound'', ''nova.exception''))"
proof -
  have 1: "\<forall>x. revive sample_amqp [''nova.exception''] (PDict [(''class'', PStr ''Popen''), (''module'', PStr ''subprocess'')]) \<noteq> Inr (Revived x)"
    using only_listed_modules [where f = "[(''class'', PStr ''Popen''), (''module'', PStr ''subprocess'')]" and m = "''subprocess''" and exmods = "[''nova.exception'']" and A = sample_amqp]
    by (simp add: exceptions_module_def)
  obtain x where x: "revive sample_amqp [''nova.exception''] (PDict [(''class'', PStr ''NotFound''), (''module'', PStr ''nova.exception'')]) = Inr (Revived x)"
    by (simp add: joined_text_def dgetd_def rebuild_def sample_amqp_def)
  have "original_class x = (''NotFound'', ''nova.exception'')"
    using only_listed_modules [where f = "[(''class'', PStr ''NotFound''), (''module'', PStr ''nova.exception'')]" and m = "''nova.exception''" and exmods = "[''nova.exception'']" and A = sample_amqp] x
    by (auto simp: rebuild_def dgetd_def sample_amqp_def)
  with 1 x show ?thesis by blast
qed

theorem handled_not_again_witness:
  "listener_step (Brought [(''_unique_id'', PStr ''u1'')])
     (listener_step Handled \<lparr>l_cache = [], l_incoming = [arrived sample_ids False [] []]\<rparr>) =
   listener_step Handled \<lparr>l_cache = [], l_incoming = [arrived sample_ids False [] []]\<rparr>"
  using handled_not_again [of "\<lparr>l_cache = [], l_incoming = [arrived sample_ids False [] []]\<rparr>" "arrived sample_ids False [] []" "[]" "[]"
      "[(''_unique_id'', PStr ''u1'')]"]
  by (simp add: arrived_def sample_ids_def cache_ok_def handled_count_def DUP_MSG_CHECK_SIZE_def del: listener_step.simps)

end
