(* ===== verification/AuditPeriods.thy ===== *)
theory AuditPeriods
  imports PyStr "HOL-Library.Product_Lexorder"
begin

text \<open>
  Usage audit periods: \<^verbatim>\<open>last_completed_audit_period\<close> of \<^verbatim>\<open>nova/utils.py\<close>, over the calendar
  of Python's \<^verbatim>\<open>datetime\<close>. The result is compared with what its docstring promises: the
  period that ends at the latest boundary before the given time.
\<close>

section \<open>Dates and times\<close>

datatype datetime = DT (yr: int) (mon: int) (dy: int) (hr: int) (mi: int) (sec: int) (us: int)

fun dt_key :: "datetime \<Rightarrow> int \<times> int \<times> int \<times> int \<times> int \<times> int \<times> int" where
  "dt_key (DT y m d h i s u) = (y, m, d, h, i, s, u)"

lemma dt_key_inj: "dt_key a = dt_key b \<longleftrightarrow> a = b"
  by (cases a; cases b) auto

instantiation datetime :: linorder
begin

definition less_eq_datetime :: "datetime \<Rightarrow> datetime \<Rightarrow> bool" where
  "less_eq_datetime a b \<longleftrightarrow> dt_key a \<le> dt_key b"

definition less_datetime :: "datetime \<Rightarrow> datetime \<Rightarrow> bool" where
  "less_datetime a b \<longleftrightarrow> dt_key a < dt_key b"

instance
proof
  fix x y z :: datetime
  show "(x < y) = (x \<le> y \<and> \<not> y \<le> x)" by (auto simp: less_eq_datetime_def less_datetime_def)
  show "x \<le> x" by (simp add: less_eq_datetime_def)
  show "x \<le> z" if "x \<le> y" "y \<le> z" using that unfolding less_eq_datetime_def by (rule order_trans)
  show "x = y" if "x \<le> y" "y \<le> x" using that by (simp add: less_eq_datetime_def dt_key_inj flip: dt_key_inj)
  show "x \<le> y \<or> y \<le> x" unfolding less_eq_datetime_def by (rule linear)
qed

end

definition leap_year :: "int \<Rightarrow> bool" where
  "leap_year y \<longleftrightarrow> y mod 4 = 0 \<and> (y mod 100 \<noteq> 0 \<or> y mod 400 = 0)"

definition days_in_month :: "int \<Rightarrow> int \<Rightarrow> int" where
  "days_in_month y m =
     (if m = 2 then (if leap_year y then 29 else 28)
      else if m = 4 \<or> m = 6 \<or> m = 9 \<or> m = 11 then 30 else 31)"

fun valid_dt :: "datetime \<Rightarrow> bool" where
  "valid_dt (DT y m d h i s u) \<longleftrightarrow>
     1 \<le> y \<and> y \<le> 9999 \<and> 1 \<le> m \<and> m \<le> 12 \<and> 1 \<le> d \<and> d \<le> days_in_month y m \<and>
     0 \<le> h \<and> h \<le> 23 \<and> 0 \<le> i \<and> i \<le> 59 \<and> 0 \<le> s \<and> s \<le> 59 \<and> 0 \<le> u \<and> u \<le> 999999"

text \<open>The constructor raises on a field out of range.\<close>

definition datetime_new :: "datetime \<Rightarrow> datetime result" where
  "datetime_new t = (if valid_dt t then Inr t else Inl ValueError)"

text \<open>Subtracting one day and one hour; before the first day there is nothing.\<close>

fun minus_day :: "datetime \<Rightarrow> datetime result" where
  "minus_day (DT y m d h i s u) =
     (if 1 < d then Inr (DT y m (d - 1) h i s u)
      else if 1 < m then Inr (DT y (m - 1) (days_in_month y (m - 1)) h i s u)
      else if 1 < y then Inr (DT (y - 1) 12 31 h i s u)
      else Inl (OtherError ''OverflowError''))"

fun minus_hour :: "datetime \<Rightarrow> datetime result" where
  "minus_hour (DT y m d h i s u) =
     (if 0 < h then Inr (DT y m d (h - 1) i s u) else minus_day (DT y m d 23 i s u))"

section \<open>The last completed period\<close>

text \<open>The unit and the offset that may follow it.\<close>

definition parse_unit :: "string \<Rightarrow> (string \<times> int) result" where
  "parse_unit unit =
     (case split_first (CHR ''@'') unit of
        None \<Rightarrow> Inr (unit, 0)
      | Some (u, rest) \<Rightarrow>
          (case int_of_string rest of None \<Rightarrow> Inl ValueError | Some n \<Rightarrow> Inr (u, n)))"

definition previous_month :: "int \<Rightarrow> int \<Rightarrow> int \<times> int" where
  "previous_month y m = (if 1 \<ge> m then (y - 1, 12 + (m - 1)) else (y, m - 1))"

definition month_period :: "int \<Rightarrow> datetime \<Rightarrow> (datetime \<times> datetime) result" where
  "month_period offset rightnow =
     (let offset = (if offset = 0 then 1 else offset) in
      bind_r (datetime_new (DT (yr rightnow) (mon rightnow) offset 0 0 0 0)) (\<lambda>end0.
      bind_r (if end0 \<ge> rightnow
              then (case previous_month (yr rightnow) (mon rightnow) of
                      (y, m) \<Rightarrow> datetime_new (DT y m offset 0 0 0 0))
              else Inr end0) (\<lambda>end1.
      case previous_month (yr end1) (mon end1) of (y, m) \<Rightarrow>
      bind_r (datetime_new (DT y m offset 0 0 0 0)) (\<lambda>begin.
      Inr (begin, end1)))))"

definition year_period :: "int \<Rightarrow> datetime \<Rightarrow> (datetime \<times> datetime) result" where
  "year_period offset rightnow =
     (let offset = (if offset = 0 then 1 else offset);
          first = (\<lambda>y. datetime_new (DT y offset 1 0 0 0 0))
      in bind_r (first (yr rightnow)) (\<lambda>end0.
         if end0 \<ge> rightnow
         then bind_r (first (yr rightnow - 1)) (\<lambda>end1.
              bind_r (first (yr rightnow - 2)) (\<lambda>begin. Inr (begin, end1)))
         else bind_r (first (yr rightnow - 1)) (\<lambda>begin. Inr (begin, end0))))"

definition day_period :: "int \<Rightarrow> datetime \<Rightarrow> (datetime \<times> datetime) result" where
  "day_period offset rightnow =
     bind_r (datetime_new (DT (yr rightnow) (mon rightnow) (dy rightnow) offset 0 0 0)) (\<lambda>end0.
     bind_r (if end0 \<ge> rightnow then minus_day end0 else Inr end0) (\<lambda>end1.
     bind_r (minus_day end1) (\<lambda>begin. Inr (begin, end1))))"

definition hour_period :: "int \<Rightarrow> datetime \<Rightarrow> (datetime \<times> datetime) result" where
  "hour_period offset rightnow =
     bind_r (datetime_new (DT (yr rightnow) (mon rightnow) (dy rightnow) (hr rightnow) offset 0 0)) (\<lambda>end0.
     bind_r (if end0 \<ge> rightnow then minus_hour end0 else Inr end0) (\<lambda>end1.
     bind_r (minus_hour end1) (\<lambda>begin. Inr (begin, end1))))"

text \<open>\<open>configured\<close> is \<^verbatim>\<open>CONF.instance_usage_audit_period\<close>, \<open>utcnow\<close> the clock.\<close>

definition last_completed_audit_period ::
  "string \<Rightarrow> datetime \<Rightarrow> string option \<Rightarrow> datetime option \<Rightarrow> (datetime \<times> datetime) result" where
  "last_completed_audit_period configured utcnow unit before =
     bind_r (parse_unit (case unit of None \<Rightarrow> configured | Some u \<Rightarrow> if u = [] then configured else u)) (\<lambda>(u, offset).
       let rightnow = (case before of None \<Rightarrow> utcnow | Some t \<Rightarrow> t) in
       if u = ''month'' then month_period offset rightnow
       else if u = ''year'' then year_period offset rightnow
       else if u = ''day'' then day_period offset rightnow
       else if u = ''hour'' then hour_period offset rightnow
       else Inl ValueError)"

section \<open>What it computes\<close>

text \<open>The instants at which a period of the unit ends, for an offset that every period has.\<close>

definition boundary :: "string \<Rightarrow> int \<Rightarrow> datetime \<Rightarrow> bool" where
  "boundary unit offset t \<longleftrightarrow> valid_dt t \<and> sec t = 0 \<and> us t = 0 \<and>
     (if unit = ''month'' then dy t = (if offset = 0 then 1 else offset) \<and> hr t = 0 \<and> mi t = 0
      else if unit = ''year'' then mon t = (if offset = 0 then 1 else offset) \<and> dy t = 1 \<and> hr t = 0 \<and> mi t = 0
      else if unit = ''day'' then hr t = offset \<and> mi t = 0
      else mi t = offset)"

definition offset_ok :: "string \<Rightarrow> int \<Rightarrow> bool" where
  "offset_ok unit offset \<longleftrightarrow>
     (unit = ''month'' \<and> 0 \<le> offset \<and> offset \<le> 28) \<or> (unit = ''year'' \<and> 0 \<le> offset \<and> offset \<le> 12) \<or>
     (unit = ''day'' \<and> 0 \<le> offset \<and> offset \<le> 23) \<or> (unit = ''hour'' \<and> 0 \<le> offset \<and> offset \<le> 59)"

definition latest_before :: "(datetime \<Rightarrow> bool) \<Rightarrow> datetime \<Rightarrow> datetime \<Rightarrow> bool" where
  "latest_before P e t \<longleftrightarrow> P e \<and> e < t \<and> (\<forall>x. P x \<longrightarrow> x < t \<longrightarrow> x \<le> e)"

lemma days_in_month_bounds: "28 \<le> days_in_month y m" "days_in_month y m \<le> 31"
  by (auto simp: days_in_month_def)

text \<open>The order by date first, then by the time of the day.\<close>

definition date :: "datetime \<Rightarrow> int \<times> int \<times> int" where
  "date t = (yr t, mon t, dy t)"

definition clock :: "datetime \<Rightarrow> int \<times> int \<times> int \<times> int" where
  "clock t = (hr t, mi t, sec t, us t)"

lemma dt_order: "a < b \<longleftrightarrow> date a < date b \<or> date a = date b \<and> clock a < clock b"
  "a \<le> b \<longleftrightarrow> date a < date b \<or> date a = date b \<and> clock a \<le> clock b"
  by (cases a; cases b; auto simp: less_datetime_def less_eq_datetime_def date_def clock_def)+

definition valid_date :: "int \<times> int \<times> int \<Rightarrow> bool" where
  "valid_date D \<longleftrightarrow> (case D of (y, m, d) \<Rightarrow>
     1 \<le> y \<and> y \<le> 9999 \<and> 1 \<le> m \<and> m \<le> 12 \<and> 1 \<le> d \<and> d \<le> days_in_month y m)"

lemma valid_dt_date: "valid_dt t \<Longrightarrow> valid_date (date t)"
  by (cases t) (simp add: valid_date_def date_def)

text \<open>The day before is the latest date before.\<close>

lemma minus_day_date:
  assumes "minus_day t = Inr b" "valid_date (date t)"
  shows "clock b = clock t" "valid_date (date b)" "date b < date t"
    and "valid_date X \<Longrightarrow> X < date t \<Longrightarrow> X \<le> date b"
proof -
  obtain y m d h i s u where t: "t = DT y m d h i s u" by (cases t)
  note dim = days_in_month_bounds [of y "m - 1"] days_in_month_bounds [of y m]
  show "clock b = clock t" "valid_date (date b)" "date b < date t"
    using assms dim by (auto simp: t date_def clock_def valid_date_def split: if_splits)
      (auto simp: days_in_month_def)
  assume X: "valid_date X" "X < date t"
  obtain a c e where x: "X = (a, c, e)" by (cases X)
  have v: "1 \<le> c" "c \<le> 12" "1 \<le> e" "e \<le> days_in_month a c" "1 \<le> a"
    using X(1) by (auto simp: x valid_date_def)
  consider "1 < d" | "d \<le> 1" "1 < m" | "d \<le> 1" "m \<le> 1" by linarith
  then show "X \<le> date b"
  proof cases
    case 1
    with X assms show ?thesis by (auto simp: t x date_def)
  next
    case 2
    from X(2) v 2 have "a < y \<or> a = y \<and> c < m" by (auto simp: x t date_def)
    then consider "a < y" | "a = y" "c < m - 1" | "a = y" "c = m - 1" by linarith
    then show ?thesis using assms(1) 2 v by cases (auto simp: t x date_def)
  next
    case 3
    from X(2) v 3 have "a < y" by (auto simp: x t date_def)
    moreover have "days_in_month a c \<le> 31" by (rule days_in_month_bounds)
    ultimately show ?thesis using assms(1) 3 v by (auto simp: t x date_def split: if_splits)
  qed
qed

definition valid_clock :: "int \<times> int \<times> int \<times> int \<Rightarrow> bool" where
  "valid_clock c \<longleftrightarrow> (case c of (h, i, s, u) \<Rightarrow>
     0 \<le> h \<and> h \<le> 23 \<and> 0 \<le> i \<and> i \<le> 59 \<and> 0 \<le> s \<and> s \<le> 59 \<and> 0 \<le> u \<and> u \<le> 999999)"

lemma valid_dt_split: "valid_dt t \<longleftrightarrow> valid_date (date t) \<and> valid_clock (clock t)"
  by (cases t) (auto simp: valid_date_def valid_clock_def date_def clock_def)

lemma minus_day_total:
  assumes "1 < yr t"
  obtains b where "minus_day t = Inr b" "yr t - 1 \<le> yr b"
proof -
  have "\<exists>b. minus_day t = Inr b \<and> yr t - 1 \<le> yr b" using assms by (cases t) simp
  with that show ?thesis by blast
qed

text \<open>The step from a time to the period that ended last, whatever the unit.\<close>

lemma latest_from_now:
  assumes B: "B e0" and now: "\<And>x. B x \<Longrightarrow> x < n \<Longrightarrow> x \<le> e0"
    and p: "latest_before B p e0" "p < n"
  shows "latest_before B (if e0 \<ge> n then p else e0) n"
  using assms by (auto simp: latest_before_def not_le dest: order_less_le_trans)

lemma boundary_day: "boundary ''day'' offset t \<longleftrightarrow> valid_dt t \<and> clock t = (offset, 0, 0, 0)"
  by (auto simp: boundary_def clock_def)

lemma boundary_hour: "boundary ''hour'' offset t \<longleftrightarrow> valid_dt t \<and> clock t = (hr t, offset, 0, 0)"
  by (auto simp: boundary_def clock_def)

lemma day_before:
  assumes t: "boundary ''day'' offset t" and b: "minus_day t = Inr b"
  shows "latest_before (boundary ''day'' offset) b t"
proof -
  from t have v: "valid_date (date t)" and c: "clock t = (offset, 0, 0, 0)"
    by (simp_all add: boundary_day valid_dt_split)
  note d = minus_day_date [OF b v]
  have "x \<le> b" if "boundary ''day'' offset x" "x < t" for x
    using that d(1) d(4) [of "date x"] c by (auto simp: boundary_day valid_dt_split dt_order order_le_less)
  with d(1-3) c t show ?thesis
    by (auto simp: latest_before_def boundary_day valid_dt_split dt_order)
qed

lemma hour_before:
  assumes t: "boundary ''hour'' offset t" and b: "minus_hour t = Inr b"
  shows "latest_before (boundary ''hour'' offset) b t"
proof -
  obtain y m d h i s u where th: "t = DT y m d h i s u" by (cases t)
  from t have v: "valid_date (date t)" and vc: "valid_clock (clock t)"
    unfolding boundary_hour valid_dt_split by blast+
  from t have c: "clock t = (h, offset, 0, 0)" by (simp add: boundary_hour th)
  show ?thesis
  proof (cases "0 < h")
    case True
    with b have bt: "date b = date t" "clock b = (h - 1, offset, 0, 0)" "hr b = h - 1"
      using c by (auto simp: th date_def clock_def)
    have "x \<le> b" if "boundary ''hour'' offset x" "x < t" for x
      using that c by (auto simp: boundary_hour dt_order bt)
    with bt True v vc c show ?thesis
      by (auto simp: latest_before_def boundary_hour valid_dt_split dt_order valid_clock_def)
  next
    case False
    with vc c have h: "h = 0" by (auto simp: valid_clock_def)
    with b have b': "minus_day (DT y m d 23 i s u) = Inr b" by (simp add: th)
    have same: "date (DT y m d 23 i s u) = date t" "clock (DT y m d 23 i s u) = (23, offset, 0, 0)"
      using c by (simp_all add: th date_def clock_def)
    note d = minus_day_date [OF b', unfolded same, OF v]
    have hb: "hr b = 23" using d(1) by (cases b) (simp add: clock_def)
    have "x \<le> b" if x: "boundary ''hour'' offset x" "x < t" for x
    proof -
      from x have "date x < date t"
        using c h by (cases x) (auto simp: boundary_hour valid_dt_split dt_order valid_clock_def clock_def)
      with d(4) [of "date x"] x have "date x \<le> date b" by (simp add: boundary_hour valid_dt_split)
      moreover have "hr x \<le> 23" using x by (cases x) (auto simp: boundary_def)
      ultimately show ?thesis using x d(1) by (auto simp: boundary_hour dt_order order_le_less)
    qed
    moreover have "boundary ''hour'' offset b \<and> b < t"
      using d(1-3) hb v vc c by (auto simp: boundary_hour valid_dt_split dt_order valid_clock_def)
    ultimately show ?thesis by (simp add: latest_before_def)
  qed
qed

lemma month_before:
  assumes t: "boundary ''month'' offset t" and off: "0 \<le> offset" "offset \<le> 28" and y: "1 < yr t"
    and pm: "previous_month (yr t) (mon t) = (y', m')"
  shows "latest_before (boundary ''month'' offset) (DT y' m' (if offset = 0 then 1 else offset) 0 0 0 0) t"
proof -
  let ?o = "if offset = 0 then 1 else offset"
  obtain y m d h i s u where th: "t = DT y m d h i s u" by (cases t)
  have o: "1 \<le> ?o" "?o \<le> days_in_month y' m'" using off days_in_month_bounds(1) [of y' m'] by auto
  have b: "boundary ''month'' offset (DT y' m' ?o 0 0 0 0)"
    using t y pm o by (auto simp: boundary_def th previous_month_def split: if_splits)
  have lt: "DT y' m' ?o 0 0 0 0 < t"
    using pm t by (auto simp: th previous_month_def dt_order date_def boundary_def split: if_splits)
  have "x \<le> DT y' m' ?o 0 0 0 0" if x: "boundary ''month'' offset x" "x < t" for x
  proof -
    obtain a c e f g j k where xx: "x = DT a c e f g j k" by (cases x)
    from x t have xs: "x = DT a c ?o 0 0 0 0" "t = DT y m ?o 0 0 0 0"
      by (auto simp: xx th boundary_def split: if_splits)
    with x(2) have "a < y \<or> a = y \<and> c < m" by (auto simp: dt_order date_def clock_def)
    moreover have "1 \<le> c" "c \<le> 12" "1 \<le> m" "m \<le> 12" using x(1) t by (auto simp: xx th boundary_def)
    ultimately have "a < y' \<or> a = y' \<and> c \<le> m'"
      using pm by (auto simp: th previous_month_def split: if_splits)
    then show ?thesis unfolding xs(1) by (auto simp: dt_order date_def clock_def)
  qed
  with b lt show ?thesis by (simp add: latest_before_def)
qed

lemma year_before:
  assumes t: "boundary ''year'' offset t" and y: "1 < yr t"
  shows "latest_before (boundary ''year'' offset) (DT (yr t - 1) (if offset = 0 then 1 else offset) 1 0 0 0 0) t"
proof -
  let ?o = "if offset = 0 then 1 else offset"
  have shape: "x = DT (yr x) ?o 1 0 0 0 0 \<and> 1 \<le> ?o \<and> ?o \<le> 12 \<and> yr x \<le> 9999"
    if "boundary ''year'' offset x" for x
    using that by (cases x) (auto simp: boundary_def split: if_splits)
  have b: "boundary ''year'' offset (DT (yr t - 1) ?o 1 0 0 0 0)"
    using shape [OF t] y days_in_month_bounds(1) [of "yr t - 1" ?o] by (auto simp: boundary_def)
  have key: "DT a ?o 1 0 0 0 0 < DT c ?o 1 0 0 0 0 \<longleftrightarrow> a < c"
    "DT a ?o 1 0 0 0 0 \<le> DT c ?o 1 0 0 0 0 \<longleftrightarrow> a \<le> c" for a c
    by (auto simp: dt_order date_def clock_def)
  have "x \<le> DT (yr t - 1) ?o 1 0 0 0 0" if x: "boundary ''year'' offset x" "x < t" for x
    using x(2) shape [OF t] shape [OF x(1)] key by (metis zle_diff1_eq)
  moreover have "DT (yr t - 1) ?o 1 0 0 0 0 < t" using shape [OF t] key(1) [of "yr t - 1" "yr t"] by simp
  ultimately show ?thesis using b by (simp add: latest_before_def)
qed

lemma day_period_latest:
  assumes n: "valid_dt n" "3 \<le> yr n" and off: "0 \<le> offset" "offset \<le> 23"
  shows "\<exists>b e. day_period offset n = Inr (b, e) \<and>
    latest_before (boundary ''day'' offset) e n \<and> latest_before (boundary ''day'' offset) b e"
proof -
  let ?B = "boundary ''day'' offset"
  let ?e = "DT (yr n) (mon n) (dy n) offset 0 0 0"
  have e: "valid_dt ?e" using n off by (cases n) simp
  then have B: "?B ?e" by (simp add: boundary_def)
  have en: "date ?e = date n" "clock ?e = (offset, 0, 0, 0)" by (simp_all add: date_def clock_def)
  obtain p where p: "minus_day ?e = Inr p" "yr n - 1 \<le> yr p"
    using minus_day_total [of ?e] n by auto
  have "date p < date n"
    using minus_day_date(3) [OF p(1)] e en by (simp add: valid_dt_split)
  then have pn: "p < n" by (simp add: dt_order)
  have "x \<le> ?e" if "?B x" "x < n" for x
    using that en by (auto simp: boundary_day dt_order)
  note latest = latest_from_now [of ?B ?e n p, OF B this day_before [OF B p(1)] pn]
  let ?e1 = "if ?e \<ge> n then p else ?e"
  have "1 < yr ?e1" using n p(2) by auto
  then obtain b where b: "minus_day ?e1 = Inr b" by (rule minus_day_total)
  have "?B ?e1" using latest by (simp add: latest_before_def)
  from day_before [OF this b] latest show ?thesis
    using e p b by (intro exI [of _ b] exI [of _ ?e1]) (auto simp: day_period_def datetime_new_def)
qed

lemma minus_hour_total:
  assumes "1 < yr t"
  obtains b where "minus_hour t = Inr b" "yr t - 1 \<le> yr b"
proof -
  obtain y m d h i s u where t: "t = DT y m d h i s u" by (cases t)
  show ?thesis
  proof (cases "0 < h")
    case False
    with minus_day_total [of "DT y m d 23 i s u"] assms that show ?thesis by (auto simp: t)
  qed (use that t in simp)
qed

lemma hour_period_latest:
  assumes n: "valid_dt n" "3 \<le> yr n" and off: "0 \<le> offset" "offset \<le> 59"
  shows "\<exists>b e. hour_period offset n = Inr (b, e) \<and>
    latest_before (boundary ''hour'' offset) e n \<and> latest_before (boundary ''hour'' offset) b e"
proof -
  let ?B = "boundary ''hour'' offset"
  let ?e = "DT (yr n) (mon n) (dy n) (hr n) offset 0 0"
  have e: "valid_dt ?e" using n off by (cases n) simp
  then have B: "?B ?e" by (simp add: boundary_def)
  have en: "date ?e = date n" "clock ?e = (hr n, offset, 0, 0)" by (simp_all add: date_def clock_def)
  obtain p where p: "minus_hour ?e = Inr p" "yr n - 1 \<le> yr p"
    using minus_hour_total [of ?e] n by auto
  have pn: "p < n"
  proof (cases "0 < hr n")
    case True
    with p(1) have "p = DT (yr n) (mon n) (dy n) (hr n - 1) offset 0 0" by simp
    then show ?thesis by (simp add: dt_order date_def clock_def)
  next
    case False
    with p(1) have "minus_day (DT (yr n) (mon n) (dy n) 23 offset 0 0) = Inr p" by simp
    from minus_day_date(3) [OF this] n have "date p < date n" by (simp add: date_def valid_dt_split)
    then show ?thesis by (simp add: dt_order)
  qed
  have "x \<le> ?e" if "?B x" "x < n" for x
    using that en by (auto simp: boundary_hour dt_order clock_def)
  note latest = latest_from_now [of ?B ?e n p, OF B this hour_before [OF B p(1)] pn]
  let ?e1 = "if ?e \<ge> n then p else ?e"
  have "1 < yr ?e1" using n p(2) by auto
  then obtain b where b: "minus_hour ?e1 = Inr b" by (rule minus_hour_total)
  have "?B ?e1" using latest by (simp add: latest_before_def)
  from hour_before [OF this b] latest show ?thesis
    using e p b by (intro exI [of _ b] exI [of _ ?e1]) (auto simp: hour_period_def datetime_new_def)
qed

lemma month_period_latest:
  assumes n: "valid_dt n" "3 \<le> yr n" and off: "0 \<le> offset" "offset \<le> 28"
  shows "\<exists>b e. month_period offset n = Inr (b, e) \<and>
    latest_before (boundary ''month'' offset) e n \<and> latest_before (boundary ''month'' offset) b e"
proof -
  let ?B = "boundary ''month'' offset"
  let ?o = "if offset = 0 then 1 else offset"
  let ?first = "\<lambda>y m. DT y m ?o 0 0 0 0"
  let ?e = "?first (yr n) (mon n)"
  have o: "1 \<le> ?o" "?o \<le> 28" using off by auto
  have valid: "valid_dt (?first y m)" if "1 \<le> y" "y \<le> 9999" "1 \<le> m" "m \<le> 12" for y m
    using that o days_in_month_bounds(1) [of y m] by simp
  have range: "1 \<le> mon n" "mon n \<le> 12" "yr n \<le> 9999" using n by (cases n; simp)+
  have prev: "1 \<le> m' \<and> m' \<le> 12 \<and> y - 1 \<le> y' \<and> y' \<le> y"
    if "previous_month y m = (y', m')" "1 \<le> m" "m \<le> 12" for y m y' m'
    using that by (auto simp: previous_month_def split: if_splits)
  have B: "?B ?e" using valid range n by (simp add: boundary_def)
  obtain y1 m1 where pm: "previous_month (yr n) (mon n) = (y1, m1)" by fastforce
  note r1 = prev [OF pm range(1,2)]
  let ?p = "?first y1 m1"
  have pe: "latest_before ?B ?p ?e" using month_before [OF B off] n pm by simp
  have pn: "?p < n"
    using pm range by (auto simp: previous_month_def dt_order date_def split: if_splits)
  have "x \<le> ?e" if x: "?B x" "x < n" for x
  proof -
    have "x = ?first (yr x) (mon x)" using x(1) by (cases x) (simp add: boundary_def)
    moreover have "yr x < yr n \<or> yr x = yr n \<and> mon x \<le> mon n"
      using x(2) by (auto simp: dt_order date_def)
    ultimately show ?thesis by (cases "yr x < yr n \<or> mon x < mon n") (auto simp: dt_order date_def clock_def)
  qed
  note latest = latest_from_now [of ?B ?e n ?p, OF B this pe pn]
  let ?e1 = "if ?e \<ge> n then ?p else ?e"
  have e1: "1 < yr ?e1" "yr ?e1 \<le> 9999" "1 \<le> mon ?e1" "mon ?e1 \<le> 12" using r1 n range by auto
  obtain y2 m2 where pm2: "previous_month (yr ?e1) (mon ?e1) = (y2, m2)" by fastforce
  note r2 = prev [OF pm2 e1(3,4)]
  have "?B ?e1" using latest by (simp add: latest_before_def)
  note b = month_before [OF this off e1(1) pm2]
  have ends: "bind_r (datetime_new ?e) (\<lambda>end0. if end0 \<ge> n
      then (case previous_month (yr n) (mon n) of (y, m) \<Rightarrow> datetime_new (?first y m)) else Inr end0) = Inr ?e1"
    using valid r1 n range by (simp add: datetime_new_def pm)
  have "month_period offset n = Inr (?first y2 m2, ?e1)"
  proof -
    have "datetime_new (?first y2 m2) = Inr (?first y2 m2)"
      using valid r2 e1 by (simp add: datetime_new_def)
    moreover have "datetime_new ?e = Inr ?e" using valid n range by (simp add: datetime_new_def)
    ultimately show ?thesis
      using ends pm2 by (simp only: month_period_def Let_def bind_r.simps prod.case)
  qed
  with latest b show ?thesis by blast
qed

lemma year_period_latest:
  assumes n: "valid_dt n" "3 \<le> yr n" and off: "0 \<le> offset" "offset \<le> 12"
  shows "\<exists>b e. year_period offset n = Inr (b, e) \<and>
    latest_before (boundary ''year'' offset) e n \<and> latest_before (boundary ''year'' offset) b e"
proof -
  let ?B = "boundary ''year'' offset"
  let ?o = "if offset = 0 then 1 else offset"
  let ?first = "\<lambda>y. DT y ?o 1 0 0 0 0"
  have o: "1 \<le> ?o" "?o \<le> 12" using off by auto
  have range: "yr n \<le> 9999" using n by (cases n) simp
  have valid: "valid_dt (?first y)" if "1 \<le> y" "y \<le> 9999" for y
    using that o days_in_month_bounds(1) [of y ?o] by simp
  then have B: "?B (?first y)" if "1 \<le> y" "y \<le> 9999" for y
    using that by (simp add: boundary_def)
  have pe: "latest_before ?B (?first (y - 1)) (?first y)" if "2 \<le> y" "y \<le> 9999" for y
    using year_before [OF B [of y]] that by simp
  have pn: "?first (yr n - 1) < n" by (simp add: dt_order date_def)
  have "x \<le> ?first (yr n)" if x: "?B x" "x < n" for x
  proof -
    have "x = ?first (yr x)" using x(1) by (cases x) (simp add: boundary_def)
    moreover have "yr x \<le> yr n" using x(2) by (auto simp: dt_order date_def)
    ultimately show ?thesis by (cases "yr x < yr n") (auto simp: dt_order date_def clock_def)
  qed
  note latest = latest_from_now [of ?B "?first (yr n)" n "?first (yr n - 1)", OF B this pe pn]
  have new: "datetime_new (?first y) = Inr (?first y)" if "1 \<le> y" "y \<le> 9999" for y
    using valid [OF that] by (simp add: datetime_new_def)
  show ?thesis
  proof (cases "?first (yr n) \<ge> n")
    case True
    then show ?thesis
      using latest pe [of "yr n - 1"] n range new [of "yr n"] new [of "yr n - 1"] new [of "yr n - 2"]
      by (intro exI [of _ "?first (yr n - 2)"] exI [of _ "?first (yr n - 1)"]) (simp add: year_period_def Let_def)
  next
    case False
    then show ?thesis
      using latest pe [of "yr n"] n range new [of "yr n"] new [of "yr n - 1"]
      by (intro exI [of _ "?first (yr n - 1)"] exI [of _ "?first (yr n)"]) (simp add: year_period_def Let_def)
  qed
qed

text \<open>
  C37: the audit period. For a time from the year 3 on and an offset that every period of the
  unit has (up to the 28th day of a month, the 12th month of a year, the 23rd hour of a day, the
  59th minute of an hour), the call succeeds, its end is the latest boundary before the given
  time, and its beginning is the latest boundary before that: the most recently completed
  period, as the documentation says.
\<close>

theorem audit_period_completed:
  assumes "valid_dt before" "3 \<le> yr before" "u \<noteq> []"
    and "parse_unit u = Inr (unit, offset)" "offset_ok unit offset"
  shows "\<exists>begin end. last_completed_audit_period configured utcnow (Some u) (Some before) = Inr (begin, end) \<and>
    latest_before (boundary unit offset) end before \<and> latest_before (boundary unit offset) begin end"
proof -
  have run: "last_completed_audit_period configured utcnow (Some u) (Some before) =
      (if unit = ''month'' then month_period offset before else if unit = ''year'' then year_period offset before
       else if unit = ''day'' then day_period offset before
       else if unit = ''hour'' then hour_period offset before else Inl ValueError)"
    using assms(3,4) by (simp add: last_completed_audit_period_def Let_def)
  consider "unit = ''month''" "0 \<le> offset" "offset \<le> 28" | "unit = ''year''" "0 \<le> offset" "offset \<le> 12"
    | "unit = ''day''" "0 \<le> offset" "offset \<le> 23" | "unit = ''hour''" "0 \<le> offset" "offset \<le> 59"
    using assms(5) unfolding offset_ok_def by blast
  then show ?thesis
  proof cases
    case 1
    with month_period_latest [OF assms(1,2) 1(2,3)] show ?thesis by (simp add: run)
  next
    case 2
    with year_period_latest [OF assms(1,2) 2(2,3)] show ?thesis by (simp add: run)
  next
    case 3
    with day_period_latest [OF assms(1,2) 3(2,3)] show ?thesis by (simp add: run)
  next
    case 4
    with hour_period_latest [OF assms(1,2) 4(2,3)] show ?thesis by (simp add: run)
  qed
qed

theorem audit_period_completed_witness:
  "\<exists>begin end. last_completed_audit_period ''month'' (DT 2016 1 1 0 0 0 0) (Some ''day@18'') (Some (DT 2016 3 1 9 0 0 0)) =
     Inr (begin, end) \<and> latest_before (boundary ''day'' 18) end (DT 2016 3 1 9 0 0 0)"
proof -
  have 1: "valid_dt (DT 2016 3 1 9 0 0 0)" "3 \<le> yr (DT 2016 3 1 9 0 0 0)" "''day@18'' \<noteq> []" by code_simp+
  have 2: "parse_unit ''day@18'' = Inr (''day'', 18)" "offset_ok ''day'' 18" by code_simp+
  show ?thesis
    using audit_period_completed [OF 1 2, of "''month''" "DT 2016 1 1 0 0 0 0"] by blast
qed

text \<open>
  An offset that some months lack makes the call fail: on the tenth of May no period of
  \<^verbatim>\<open>month@31\<close> can be given, because April has no such day.
\<close>

lemma audit_period_short_month:
  "last_completed_audit_period ''month'' (DT 2016 5 10 0 0 0 0) (Some ''month@31'') None = Inl ValueError"
  by code_simp

end
