(* ===== verification/Contexts.thy ===== *)
theory Contexts
  imports AuditPeriods
begin

text \<open>
  The request context: \<^verbatim>\<open>nova/context.py\<close> over \<^verbatim>\<open>oslo_context/context.py\<close>. Its attributes are
  values the code passes on without looking at them; \<open>cval\<close> has the kinds they come in (\<open>COther\<close>
  for what else a caller may pass). The
  thread-local store of the last context and the authentication plugin's contents are left out.
\<close>

section \<open>Values and times\<close>

datatype cval =
    CNone | CBool bool | CStr string | CStrs "string list" | CTime datetime
  | CCatalog "(string \<times> string) list list" | COther pyval

fun ctruthy :: "cval \<Rightarrow> bool" where
  "ctruthy CNone = False"
| "ctruthy (CBool b) = b"
| "ctruthy (CStr s) = (s \<noteq> [])"
| "ctruthy (CStrs xs) = (xs \<noteq> [])"
| "ctruthy (CTime t) = True"
| "ctruthy (CCatalog xs) = (xs \<noteq> [])"
| "ctruthy (COther v) = truthy v"

text \<open>\<^verbatim>\<open>strftime("%Y-%m-%dT%H:%M:%S.%f")\<close> and its inverse, for years of four digits.\<close>

definition padded :: "nat \<Rightarrow> int \<Rightarrow> string" where
  "padded width n = (let s = string_of_nat (nat n) in replicate (width - length s) (CHR ''0'') @ s)"

fun strtime :: "datetime \<Rightarrow> string" where
  "strtime (DT y m d h i s u) = padded 4 y @ ''-'' @ padded 2 m @ ''-'' @ padded 2 d @ ''T'' @ padded 2 h @ '':'' @
     padded 2 i @ '':'' @ padded 2 s @ ''.'' @ padded 6 u"

definition int_field :: "nat \<Rightarrow> nat \<Rightarrow> string \<Rightarrow> int option" where
  "int_field least most s =
     (if least \<le> length s \<and> length s \<le> most then map_option int (nat_of_string s) else None)"

text \<open>The fraction is read from its left: missing digits are zeros.\<close>

definition parse_strtime :: "string \<Rightarrow> datetime result" where
  "parse_strtime t =
     (case split_first (CHR ''-'') t of Some (y, t1) \<Rightarrow>
      (case split_first (CHR ''-'') t1 of Some (m, t2) \<Rightarrow>
       (case split_first (CHR ''T'') t2 of Some (d, t3) \<Rightarrow>
        (case split_first (CHR '':'') t3 of Some (h, t4) \<Rightarrow>
         (case split_first (CHR '':'') t4 of Some (i, t5) \<Rightarrow>
          (case split_first (CHR ''.'') t5 of Some (s, f) \<Rightarrow>
           (case (int_field 4 4 y, int_field 1 2 m, int_field 1 2 d, int_field 1 2 h, int_field 1 2 i,
                  int_field 1 2 s, int_field 1 6 f) of
              (Some y', Some m', Some d', Some h', Some i', Some s', Some u') \<Rightarrow>
                datetime_new (DT y' m' d' h' i' s' (u' * 10 ^ (6 - length f)))
            | _ \<Rightarrow> Inl ValueError)
          | None \<Rightarrow> Inl ValueError) | None \<Rightarrow> Inl ValueError) | None \<Rightarrow> Inl ValueError)
        | None \<Rightarrow> Inl ValueError) | None \<Rightarrow> Inl ValueError) | None \<Rightarrow> Inl ValueError)"

section \<open>The context\<close>

record rctx =
  c_auth_token :: cval
  c_user :: cval
  c_tenant :: cval
  c_domain :: cval
  c_user_domain :: cval
  c_project_domain :: cval
  c_is_admin :: cval
  c_is_admin_project :: cval
  c_read_only :: cval
  c_show_deleted :: cval
  c_resource_uuid :: cval
  c_roles :: cval
  c_request_id :: cval
  c_read_deleted :: string
  c_remote_address :: cval
  c_timestamp :: datetime
  c_service_catalog :: "(string \<times> string) list list"
  c_instance_lock_checked :: cval
  c_quota_class :: cval
  c_user_name :: cval
  c_project_name :: cval
  c_auth_plugin :: cval

text \<open>Keyword arguments are a dictionary; what is missing has the default of the signature.\<close>

type_synonym kwargs = "(string \<times> cval) list"

definition catalog_types :: "string list" where
  "catalog_types = [''volume'', ''volumev2'', ''key-manager'', ''placement'']"

definition required_services :: "cval \<Rightarrow> (string \<times> string) list list" where
  "required_services v =
     (case v of
        CCatalog xs \<Rightarrow> filter (\<lambda>s. case dget s ''type'' of None \<Rightarrow> False | Some t \<Rightarrow> t \<in> set catalog_types) xs
      | _ \<Rightarrow> [])"

definition context_timestamp :: "datetime \<Rightarrow> cval \<Rightarrow> datetime result" where
  "context_timestamp utcnow v =
     (if \<not> ctruthy v then Inr utcnow
      else (case v of CTime t \<Rightarrow> Inr t | CStr s \<Rightarrow> parse_strtime s | _ \<Rightarrow> Inl TypeError))"

definition check_read_deleted :: "cval \<Rightarrow> string result" where
  "check_read_deleted v =
     (case v of CStr s \<Rightarrow> if s = ''no'' \<or> s = ''yes'' \<or> s = ''only'' then Inr s else Inl ValueError
      | _ \<Rightarrow> Inl ValueError)"

definition RequestContext_init :: "datetime \<Rightarrow> string \<Rightarrow> kwargs \<Rightarrow> rctx result" where
  "RequestContext_init utcnow fresh_id kw =
     (let arg = (\<lambda>k. dgetd kw k CNone);
          user = (if ctruthy (arg ''user_id'') then arg ''user_id'' else arg ''user'');
          tenant = (if ctruthy (arg ''project_id'') then arg ''project_id'' else arg ''tenant'')
      in bind_r (check_read_deleted (dgetd kw ''read_deleted'' (CStr ''no''))) (\<lambda>rd.
         bind_r (context_timestamp utcnow (arg ''timestamp'')) (\<lambda>ts.
         Inr \<lparr>c_auth_token = arg ''auth_token'', c_user = user, c_tenant = tenant, c_domain = arg ''domain'',
              c_user_domain = arg ''user_domain'', c_project_domain = arg ''project_domain'',
              c_is_admin = arg ''is_admin'', c_is_admin_project = dgetd kw ''is_admin_project'' (CBool True),
              c_read_only = dgetd kw ''read_only'' (CBool False), c_show_deleted = dgetd kw ''show_deleted'' (CBool False),
              c_resource_uuid = arg ''resource_uuid'',
              c_roles = (if ctruthy (arg ''roles'') then arg ''roles'' else CStrs []),
              c_request_id = (if ctruthy (arg ''request_id'') then arg ''request_id'' else CStr fresh_id),
              c_read_deleted = rd, c_remote_address = arg ''remote_address'', c_timestamp = ts,
              c_service_catalog = (if ctruthy (arg ''service_catalog'') then required_services (arg ''service_catalog'') else []),
              c_instance_lock_checked = dgetd kw ''instance_lock_checked'' (CBool False),
              c_quota_class = arg ''quota_class'', c_user_name = arg ''user_name'',
              c_project_name = arg ''project_name'', c_auth_plugin = arg ''user_auth_plugin''\<rparr>)))"

definition or_dash :: "cval \<Rightarrow> string" where
  "or_dash v = (case v of CStr s \<Rightarrow> if s = [] then ''-'' else s | _ \<Rightarrow> ''-'')"

definition user_identity :: "rctx \<Rightarrow> string" where
  "user_identity c = join_with '' '' (map or_dash [c_user c, c_tenant c, c_domain c, c_user_domain c, c_project_domain c])"

definition base_to_dict :: "rctx \<Rightarrow> kwargs" where
  "base_to_dict c =
     [(''user'', c_user c), (''tenant'', c_tenant c), (''domain'', c_domain c), (''user_domain'', c_user_domain c),
      (''project_domain'', c_project_domain c), (''is_admin'', c_is_admin c), (''read_only'', c_read_only c),
      (''show_deleted'', c_show_deleted c), (''auth_token'', c_auth_token c), (''request_id'', c_request_id c),
      (''resource_uuid'', c_resource_uuid c), (''roles'', c_roles c), (''user_identity'', CStr (user_identity c)),
      (''is_admin_project'', c_is_admin_project c)]"

definition to_dict :: "rctx \<Rightarrow> kwargs" where
  "to_dict c = dupdate (dupdate (base_to_dict c)
     [(''user_id'', c_user c), (''project_id'', c_tenant c), (''is_admin'', c_is_admin c),
      (''read_deleted'', CStr (c_read_deleted c)), (''remote_address'', c_remote_address c),
      (''timestamp'', CStr (strtime (c_timestamp c))), (''request_id'', c_request_id c),
      (''quota_class'', c_quota_class c), (''user_name'', c_user_name c),
      (''service_catalog'', CCatalog (c_service_catalog c)), (''project_name'', c_project_name c),
      (''instance_lock_checked'', c_instance_lock_checked c)])
     [(''is_admin_project'', c_is_admin_project c)]"

text \<open>What \<^verbatim>\<open>from_dict\<close> hands to the constructor: only the keys it names.\<close>

definition from_dict :: "datetime \<Rightarrow> string \<Rightarrow> kwargs \<Rightarrow> rctx result" where
  "from_dict utcnow fresh_id values =
     (let get = (\<lambda>k. (k, dgetd values k CNone)) in
      RequestContext_init utcnow fresh_id
        ([get ''user_id'', get ''user'', get ''project_id'', get ''tenant'', get ''is_admin'',
          (''read_deleted'', dgetd values ''read_deleted'' (CStr ''no'')), get ''roles'', get ''remote_address'',
          get ''timestamp'', get ''request_id'', get ''auth_token'', get ''quota_class'', get ''user_name'',
          get ''project_name'', get ''service_catalog'',
          (''instance_lock_checked'', dgetd values ''instance_lock_checked'' (CBool False))]))"

definition elevated :: "rctx \<Rightarrow> cval \<Rightarrow> rctx result" where
  "elevated c read_deleted =
     (let c1 = c\<lparr>c_is_admin := CBool True,
                 c_roles := (case c_roles c of
                     CStrs rs \<Rightarrow> if ''admin'' \<in> set rs then CStrs rs else CStrs (rs @ [''admin'']) | v \<Rightarrow> v)\<rparr>
      in if read_deleted = CNone then Inr c1
         else bind_r (check_read_deleted read_deleted) (\<lambda>rd. Inr (c1\<lparr>c_read_deleted := rd\<rparr>)))"

definition get_admin_context :: "datetime \<Rightarrow> string \<Rightarrow> cval \<Rightarrow> rctx result" where
  "get_admin_context utcnow fresh_id read_deleted =
     RequestContext_init utcnow fresh_id [(''is_admin'', CBool True), (''read_deleted'', read_deleted)]"

section \<open>Authorization\<close>

text \<open>What is left of \<^verbatim>\<open>can\<close>: it computes a target and returns nothing, for every rule.\<close>

definition context_can :: "rctx \<Rightarrow> string \<Rightarrow> kwargs option \<Rightarrow> bool \<Rightarrow> cval result" where
  "context_can c rule target fatal = Inr CNone"

definition is_user_context :: "rctx \<Rightarrow> bool" where
  "is_user_context c \<longleftrightarrow> \<not> ctruthy (c_is_admin c) \<and> ctruthy (c_user c) \<and> ctruthy (c_tenant c)"

definition forbidden :: exn where
  "forbidden = Nova Forbidden ''Forbidden''"

definition require_admin_context :: "rctx \<Rightarrow> unit result" where
  "require_admin_context c =
     (if ctruthy (c_is_admin c) then Inr () else Inl (Nova AdminRequired ''User does not have admin privileges''))"

definition require_context :: "rctx \<Rightarrow> unit result" where
  "require_context c = (if \<not> ctruthy (c_is_admin c) \<and> \<not> is_user_context c then Inl forbidden else Inr ())"

definition authorize_attribute :: "rctx \<Rightarrow> cval \<Rightarrow> cval \<Rightarrow> unit result" where
  "authorize_attribute c mine wanted =
     (if is_user_context c
      then (if \<not> ctruthy mine then Inl forbidden else if mine \<noteq> wanted then Inl forbidden else Inr ())
      else Inr ())"

definition authorize_project_context :: "rctx \<Rightarrow> cval \<Rightarrow> unit result" where
  "authorize_project_context c project_id = authorize_attribute c (c_tenant c) project_id"

definition authorize_user_context :: "rctx \<Rightarrow> cval \<Rightarrow> unit result" where
  "authorize_user_context c user_id = authorize_attribute c (c_user c) user_id"

definition authorize_quota_class_context :: "rctx \<Rightarrow> cval \<Rightarrow> unit result" where
  "authorize_quota_class_context c class_name = authorize_attribute c (c_quota_class c) class_name"

section \<open>Reading back a time\<close>

lemma length_string_of_nat: "n < 10 ^ w \<Longrightarrow> 0 < w \<Longrightarrow> length (string_of_nat n) \<le> w"
proof (induction n arbitrary: w rule: string_of_nat.induct)
  case (1 n)
  show ?case
  proof (cases "n < 10")
    case True
    with 1(3) show ?thesis by (simp add: string_of_nat.simps [of n])
  next
    case False
    with 1(2) have "w \<noteq> 1" by (cases "w = 1") auto
    then obtain v where w: "w = Suc v" "0 < v" using 1(3) by (cases w) auto
    have "n div 10 < 10 ^ v" using 1(2) w by (simp add: less_mult_imp_div_less)
    from 1(1) [OF False this w(2)] False w show ?thesis by (simp add: string_of_nat.simps [of n])
  qed
qed

lemma padded_props:
  assumes "0 \<le> n" "n < 10 ^ w" "0 < w"
  shows "length (padded w n) = w" "nat_of_string (padded w n) = Some (nat n)" "list_all is_digit (padded w n)"
proof -
  have "nat n < 10 ^ w" using assms by (simp add: nat_less_iff)
  then have l: "length (string_of_nat (nat n)) \<le> w" using assms(3) by (rule length_string_of_nat)
  then show "length (padded w n) = w" by (simp add: padded_def Let_def)
  have z: "is_digit (CHR ''0'')" "digit_val (CHR ''0'') = 0" by (simp_all add: is_digit_def digit_val_def)
  have "digits_val 0 (replicate k (CHR ''0'') @ s) = digits_val 0 s" for k s by (induction k) (simp_all add: z)
  then show "nat_of_string (padded w n) = Some (nat n)"
    using nat_of_string_of_nat [of "nat n"] by (simp add: nat_of_string_def padded_def Let_def)
  show "list_all is_digit (padded w n)"
    using string_of_nat_digits [of "nat n"] z by (auto simp: padded_def Let_def list_all_iff)
qed

lemma padded_field:
  assumes "0 \<le> n" "n < 10 ^ w" "0 < w" "k \<le> w" "w \<le> j"
  shows "int_field k j (padded w n) = Some n"
  using padded_props [OF assms(1-3)] assms by (simp add: int_field_def)

lemma padded_split:
  assumes "0 \<le> n" "n < 10 ^ w" "0 < w" "\<not> is_digit c"
  shows "split_first c (padded w n @ c # r) = Some (padded w n, r)"
  using padded_props(3) [OF assms(1-3)] assms(4) by (auto simp: split_first_Some list_all_iff)

lemma parse_strtime_strtime:
  assumes "valid_dt t"
  shows "parse_strtime (strtime t) = Inr t"
proof -
  obtain y m d h i s u where t: "t = DT y m d h i s u" by (cases t)
  note b = assms [unfolded t valid_dt.simps]
  have d: "d \<le> 31" using b days_in_month_bounds(2) [of y m] by linarith
  have sep: "\<not> is_digit (CHR ''-'')" "\<not> is_digit (CHR ''T'')" "\<not> is_digit (CHR '':'')" "\<not> is_digit (CHR ''.'')"
    by (simp_all add: is_digit_def)
  note p = padded_split [where w = 4 and n = y] padded_split [where w = 2 and n = m] padded_split [where w = 2 and n = d]
    padded_split [where w = 2 and n = h] padded_split [where w = 2 and n = i] padded_split [where w = 2 and n = s]
  have "int_field 4 4 (padded 4 y) = Some y" "int_field 1 2 (padded 2 m) = Some m" "int_field 1 2 (padded 2 d) = Some d"
    "int_field 1 2 (padded 2 h) = Some h" "int_field 1 2 (padded 2 i) = Some i" "int_field 1 2 (padded 2 s) = Some s"
    "int_field 1 6 (padded 6 u) = Some u" "length (padded 6 u) = 6"
    using b d by (simp_all add: padded_field padded_props)
  then show ?thesis
    using b d assms sep by (simp add: t parse_strtime_def p datetime_new_def)
qed

section \<open>Contexts that travel\<close>

text \<open>What the constructor guarantees; the fresh request id is not empty.\<close>

definition context_ok :: "rctx \<Rightarrow> bool" where
  "context_ok c \<longleftrightarrow> (ctruthy (c_roles c) \<or> c_roles c = CStrs []) \<and> ctruthy (c_request_id c) \<and>
     c_read_deleted c \<in> {''no'', ''yes'', ''only''} \<and> required_services (CCatalog (c_service_catalog c)) = c_service_catalog c"

lemma required_services_again: "required_services (CCatalog (required_services v)) = required_services v"
  by (simp add: required_services_def split: cval.split)

lemma init_context_ok:
  assumes "RequestContext_init utcnow fresh_id kw = Inr c" "fresh_id \<noteq> []"
  shows "context_ok c"
proof -
  obtain rd ts where rd: "check_read_deleted (dgetd kw ''read_deleted'' (CStr ''no'')) = Inr rd"
    and ts: "context_timestamp utcnow (dgetd kw ''timestamp'' CNone) = Inr ts"
    using assms(1) unfolding RequestContext_init_def Let_def bind_r_Inr_iff by blast
  let ?arg = "\<lambda>k. dgetd kw k CNone"
  have c: "c_roles c = (if ctruthy (?arg ''roles'') then ?arg ''roles'' else CStrs [])"
    "c_request_id c = (if ctruthy (?arg ''request_id'') then ?arg ''request_id'' else CStr fresh_id)"
    "c_read_deleted c = rd"
    "c_service_catalog c = (if ctruthy (?arg ''service_catalog'') then required_services (?arg ''service_catalog'') else [])"
    using assms(1) unfolding RequestContext_init_def Let_def rd ts bind_r.simps by auto
  have "rd \<in> {''no'', ''yes'', ''only''}"
    using rd by (auto simp: check_read_deleted_def split: cval.splits if_splits)
  moreover have "required_services (CCatalog []) = []" by (simp add: required_services_def)
  ultimately show ?thesis using assms(2) required_services_again by (simp add: context_ok_def c)
qed

lemma elevated_context_ok:
  assumes "context_ok c" "elevated c rd = Inr c'"
  shows "context_ok c'"
  using assms by (auto simp: context_ok_def elevated_def Let_def bind_r_Inr_iff check_read_deleted_def
      split: cval.splits if_splits)

text \<open>
  C12: a context that travels as a dictionary. Reading back what was written gives the same user,
  project, roles, administrator flag and the rest, with the same time to the microsecond, except
  that the domains, the resource, the authentication plugin and the read-only and show-deleted
  flags are lost, and that every project comes back as the administrators' project.
\<close>

theorem context_dict_roundtrip:
  assumes "RequestContext_init utcnow fresh_id kw = Inr c" "fresh_id \<noteq> []" "valid_dt (c_timestamp c)"
  shows "from_dict now2 fresh2 (to_dict c) =
    Inr (c\<lparr>c_domain := CNone, c_user_domain := CNone, c_project_domain := CNone, c_resource_uuid := CNone,
           c_auth_plugin := CNone, c_read_only := CBool False, c_show_deleted := CBool False,
           c_is_admin_project := CBool True\<rparr>)"
proof -
  have ok: "context_ok c" by (rule init_context_ok [OF assms(1,2)])
  have v: "dgetd (to_dict c) k x = (case dget (to_dict c) k of None \<Rightarrow> x | Some y \<Rightarrow> y)" for k x
    by (simp add: dgetd_def)
  have get: "dget (to_dict c) ''user_id'' = Some (c_user c)" "dget (to_dict c) ''user'' = Some (c_user c)"
    "dget (to_dict c) ''project_id'' = Some (c_tenant c)" "dget (to_dict c) ''tenant'' = Some (c_tenant c)"
    "dget (to_dict c) ''is_admin'' = Some (c_is_admin c)" "dget (to_dict c) ''read_deleted'' = Some (CStr (c_read_deleted c))"
    "dget (to_dict c) ''roles'' = Some (c_roles c)" "dget (to_dict c) ''remote_address'' = Some (c_remote_address c)"
    "dget (to_dict c) ''timestamp'' = Some (CStr (strtime (c_timestamp c)))"
    "dget (to_dict c) ''request_id'' = Some (c_request_id c)" "dget (to_dict c) ''auth_token'' = Some (c_auth_token c)"
    "dget (to_dict c) ''quota_class'' = Some (c_quota_class c)" "dget (to_dict c) ''user_name'' = Some (c_user_name c)"
    "dget (to_dict c) ''project_name'' = Some (c_project_name c)"
    "dget (to_dict c) ''service_catalog'' = Some (CCatalog (c_service_catalog c))"
    "dget (to_dict c) ''instance_lock_checked'' = Some (c_instance_lock_checked c)"
    by (simp_all add: to_dict_def base_to_dict_def dupdate_def)
  have rd: "check_read_deleted (CStr (c_read_deleted c)) = Inr (c_read_deleted c)"
    using ok by (auto simp: check_read_deleted_def context_ok_def)
  have "strtime (c_timestamp c) \<noteq> []" by (cases "c_timestamp c") simp
  then have ts: "context_timestamp now2 (CStr (strtime (c_timestamp c))) = Inr (c_timestamp c)"
    using parse_strtime_strtime [OF assms(3)] by (simp add: context_timestamp_def)
  have cat: "(if ctruthy (CCatalog (c_service_catalog c)) then required_services (CCatalog (c_service_catalog c)) else []) =
      c_service_catalog c" using ok by (auto simp: context_ok_def)
  have keep: "(if ctruthy (c_roles c) then c_roles c else CStrs []) = c_roles c"
    "(if ctruthy (c_request_id c) then c_request_id c else CStr fresh2) = c_request_id c"
    "(if ctruthy (c_user c) then c_user c else c_user c) = c_user c"
    "(if ctruthy (c_tenant c) then c_tenant c else c_tenant c) = c_tenant c"
    using ok by (auto simp: context_ok_def)
  let ?kw = "[(''user_id'', c_user c), (''user'', c_user c), (''project_id'', c_tenant c), (''tenant'', c_tenant c),
     (''is_admin'', c_is_admin c), (''read_deleted'', CStr (c_read_deleted c)), (''roles'', c_roles c),
     (''remote_address'', c_remote_address c), (''timestamp'', CStr (strtime (c_timestamp c))),
     (''request_id'', c_request_id c), (''auth_token'', c_auth_token c), (''quota_class'', c_quota_class c),
     (''user_name'', c_user_name c), (''project_name'', c_project_name c),
     (''service_catalog'', CCatalog (c_service_catalog c)), (''instance_lock_checked'', c_instance_lock_checked c)]"
  have run: "from_dict now2 fresh2 (to_dict c) = RequestContext_init now2 fresh2 ?kw"
    unfolding from_dict_def Let_def v get by simp
  have args: "dgetd ?kw ''user_id'' CNone = c_user c" "dgetd ?kw ''user'' CNone = c_user c"
    "dgetd ?kw ''project_id'' CNone = c_tenant c" "dgetd ?kw ''tenant'' CNone = c_tenant c"
    "dgetd ?kw ''is_admin'' CNone = c_is_admin c" "dgetd ?kw ''read_deleted'' (CStr ''no'') = CStr (c_read_deleted c)"
    "dgetd ?kw ''roles'' CNone = c_roles c" "dgetd ?kw ''remote_address'' CNone = c_remote_address c"
    "dgetd ?kw ''timestamp'' CNone = CStr (strtime (c_timestamp c))" "dgetd ?kw ''request_id'' CNone = c_request_id c"
    "dgetd ?kw ''auth_token'' CNone = c_auth_token c" "dgetd ?kw ''quota_class'' CNone = c_quota_class c"
    "dgetd ?kw ''user_name'' CNone = c_user_name c" "dgetd ?kw ''project_name'' CNone = c_project_name c"
    "dgetd ?kw ''service_catalog'' CNone = CCatalog (c_service_catalog c)"
    "dgetd ?kw ''instance_lock_checked'' (CBool False) = c_instance_lock_checked c"
    "dgetd ?kw ''domain'' CNone = CNone" "dgetd ?kw ''user_domain'' CNone = CNone" "dgetd ?kw ''project_domain'' CNone = CNone"
    "dgetd ?kw ''is_admin_project'' (CBool True) = CBool True" "dgetd ?kw ''read_only'' (CBool False) = CBool False"
    "dgetd ?kw ''show_deleted'' (CBool False) = CBool False" "dgetd ?kw ''resource_uuid'' CNone = CNone"
    "dgetd ?kw ''user_auth_plugin'' CNone = CNone"
    by (simp_all add: dgetd_def)
  show ?thesis
    unfolding run RequestContext_init_def Let_def args rd ts cat keep bind_r.simps
    by (cases c) simp
qed

section \<open>Who may do what\<close>

text \<open>
  C11: project isolation. A context that passes both the general check and the check for a
  project belongs to an administrator or to a user of that very project, and elevating is the
  only operation here that turns the one into the other; without the general check a context
  with neither user nor project passes for every project.
\<close>

theorem project_isolation:
  "(require_context c = Inr () \<and> authorize_project_context c p = Inr () \<longleftrightarrow>
      ctruthy (c_is_admin c) \<or> is_user_context c \<and> c_tenant c = p) \<and>
   (\<forall>rd c'. elevated c rd = Inr c' \<longrightarrow> require_admin_context c' = Inr () \<and> c_user c' = c_user c \<and> c_tenant c' = c_tenant c) \<and>
   (\<not> ctruthy (c_user c) \<longrightarrow> authorize_project_context c p = Inr ())"
proof (intro conjI allI impI)
  show "require_context c = Inr () \<and> authorize_project_context c p = Inr () \<longleftrightarrow>
      ctruthy (c_is_admin c) \<or> is_user_context c \<and> c_tenant c = p"
    by (auto simp: require_context_def authorize_project_context_def authorize_attribute_def is_user_context_def)
  fix rd c'
  assume "elevated c rd = Inr c'"
  then show "require_admin_context c' = Inr ()" "c_user c' = c_user c" "c_tenant c' = c_tenant c"
    by (auto simp: elevated_def Let_def bind_r_Inr_iff require_admin_context_def split: if_splits)
next
  assume "\<not> ctruthy (c_user c)"
  then show "authorize_project_context c p = Inr ()"
    by (simp add: authorize_project_context_def authorize_attribute_def is_user_context_def)
qed

text \<open>No rule is ever refused, fatal or not: every policy check of the API passes for everyone.\<close>

lemma can_never_refuses: "context_can c rule target fatal = Inr CNone"
  by (simp add: context_can_def)

section \<open>Samples\<close>

definition sample_kwargs :: kwargs where
  "sample_kwargs = [(''user_id'', CStr ''u''), (''project_id'', CStr ''p''), (''is_admin_project'', CBool False)]"

theorem context_dict_roundtrip_witness:
  "\<exists>c c'. RequestContext_init (DT 2016 1 2 3 4 5 6) ''req-1'' sample_kwargs = Inr c \<and> c_is_admin_project c = CBool False \<and>
     from_dict (DT 2017 1 1 0 0 0 0) ''req-2'' (to_dict c) = Inr c' \<and> c_timestamp c' = DT 2016 1 2 3 4 5 6 \<and>
     c_is_admin_project c' = CBool True"
proof -
  obtain c where c: "RequestContext_init (DT 2016 1 2 3 4 5 6) ''req-1'' sample_kwargs = Inr c"
    "c_timestamp c = DT 2016 1 2 3 4 5 6" "c_is_admin_project c = CBool False"
    by (simp add: RequestContext_init_def sample_kwargs_def check_read_deleted_def context_timestamp_def dgetd_def Let_def)
  moreover have "valid_dt (DT 2016 1 2 3 4 5 6)" by code_simp
  ultimately show ?thesis using context_dict_roundtrip [OF c(1), of "DT 2017 1 1 0 0 0 0" "''req-2''"] by simp
qed

theorem project_isolation_witness:
  "\<exists>c. RequestContext_init (DT 2016 1 2 3 4 5 6) ''req-1'' sample_kwargs = Inr c \<and>
     require_context c = Inr () \<and> authorize_project_context c (CStr ''q'') \<noteq> Inr ()"
proof -
  obtain c where c: "RequestContext_init (DT 2016 1 2 3 4 5 6) ''req-1'' sample_kwargs = Inr c"
    "c_is_admin c = CNone" "c_user c = CStr ''u''" "c_tenant c = CStr ''p''"
    by (simp add: RequestContext_init_def sample_kwargs_def check_read_deleted_def context_timestamp_def dgetd_def Let_def)
  then have "require_context c = Inr ()" by (simp add: require_context_def is_user_context_def)
  with c project_isolation [of c "CStr ''q''"] show ?thesis by auto
qed

end
