(* ===== verification/TestPlans.thy ===== *)
theory TestPlans
  imports Persist Errors
begin

text \<open>
  The entry points of the test framework: \<^verbatim>\<open>POST /testplan\<close>, \<^verbatim>\<open>GET /testplan/{id}\<close>,
  \<^verbatim>\<open>POST /testcases\<close> and \<^verbatim>\<open>GET /testcases/{id}\<close>
  (\<^verbatim>\<open>nova/api/openstack/compute/testplan.py\<close>, \<^verbatim>\<open>testcase.py\<close>), with the RPC casts to the
  conductor (\<^verbatim>\<open>nova/conductor/rpcapi.py\<close>) as a log. A handler returns its result and the
  next state, since a handler that raises may already have written a row.
\<close>

record sys =
  db :: sysdb
  casts :: "(string \<times> pydict) list"

record request_env =
  renv :: ovo_env
  rd :: string
  now :: pyval
  fresh_uuid :: string

section \<open>The request body\<close>

definition plan_params :: "string list" where
  "plan_params = [''name'', ''testplan'', ''environment'']"

text \<open>The body is any JSON value; only a dictionary has \<^verbatim>\<open>items()\<close>.\<close>

fun inst_args :: "pyval \<Rightarrow> pydict result" where
  "inst_args (PDict d) = Inr (filter (\<lambda>(k, v). k \<notin> set plan_params) d)"
| "inst_args _ = Inl AttributeError"

fun as_dict :: "pyval \<Rightarrow> pydict" where
  "as_dict (PDict d) = d"
| "as_dict _ = []"

definition inst_testplan_name :: "pydict \<Rightarrow> pyval result" where
  "inst_testplan_name d =
     (case dget d ''name'' of
        None \<Rightarrow> Inl (HTTPError 400 ''No stack name specified'')
      | Some v \<Rightarrow> Inr v)"

definition inst_template :: "pydict \<Rightarrow> pyval result" where
  "inst_template d =
     (case dget d ''testplan'' of
        Some (PDict t) \<Rightarrow> Inr (PDict t)
      | Some _ \<Rightarrow> Inl (HTTPError 400 ''testplan format is not correct'')
      | None \<Rightarrow> Inl (HTTPError 400 ''body has not testplan''))"

definition inst_environment :: "pydict \<Rightarrow> pyval result" where
  "inst_environment d =
     (case dget d ''environment'' of
        Some v \<Rightarrow> Inr v
      | None \<Rightarrow> Inl (HTTPError 400 ''body has not testplan''))"

text \<open>What \<^verbatim>\<open>create\<close> reads from the body before it touches the database.\<close>

definition read_body :: "pyval \<Rightarrow> (pyval \<times> pyval \<times> pyval) result" where
  "read_body body =
     bind_r (inst_args body) (\<lambda>_.
     bind_r (inst_testplan_name (as_dict body)) (\<lambda>name.
     bind_r (inst_template (as_dict body)) (\<lambda>tp.
     bind_r (inst_environment (as_dict body)) (\<lambda>env. Inr (name, tp, env)))))"

section \<open>Casts to the conductor\<close>

definition cast_handle_testplan :: "pyval \<Rightarrow> pyval \<Rightarrow> pyval \<Rightarrow> sys \<Rightarrow> sys" where
  "cast_handle_testplan name env tp s =
     s\<lparr>casts := casts s @ [(''handle_testplan'',
        [(''data'', PDict [(''name'', name), (''environment'', env), (''testplan'', tp)])])]\<rparr>"

definition cast_handle_cases :: "pyval \<Rightarrow> sys \<Rightarrow> sys" where
  "cast_handle_cases data s = s\<lparr>casts := casts s @ [(''handle_cases'', [(''data'', data)])]\<rparr>"

definition cast_report_cases_result :: "pyval \<Rightarrow> pyval \<Rightarrow> pyval \<Rightarrow> sys \<Rightarrow> sys" where
  "cast_report_cases_result caseid output status s =
     s\<lparr>casts := casts s @ [(''report_cases_result'',
        [(''output'', output), (''status'', status), (''Caseid'', caseid)])]\<rparr>"

section \<open>Test plans\<close>

definition new_plan :: "ovo_env \<Rightarrow> pyval \<Rightarrow> vobj result" where
  "new_plan E name =
     bind_r (obj_set E testplan_fields ''status'' (PStr ''initing'') (new_vobj True))
       (obj_set E testplan_fields ''testplan_name'' name)"

definition testplan_create_body :: "request_env \<Rightarrow> pyval \<Rightarrow> sys \<Rightarrow> string result \<times> sys" where
  "testplan_create_body R body s =
     (case read_body body of
        Inl e \<Rightarrow> (Inl e, s)
      | Inr (name, tp, env) \<Rightarrow>
          (case new_plan (renv R) name of
             Inl e \<Rightarrow> (Inl e, s)
           | Inr o1 \<Rightarrow>
               (case TestPlan_create (renv R) (now R) (fresh_uuid R) o1 (db s) of
                  (Inl e, db1) \<Rightarrow> (Inl e, s\<lparr>db := db1\<rparr>)
                | (Inr o2, db1) \<Rightarrow>
                    (case bind_r (obj_get testplan_fields ''id'' o2)
                            (\<lambda>i. bind_r (set_item ''id'' i env) (\<lambda>env'. Inr (i, env'))) of
                       Inl e \<Rightarrow> (Inl e, s\<lparr>db := db1\<rparr>)
                     | Inr (i, env') \<Rightarrow>
                         (json_dumps (PDict [(''TestPlan'', i)]),
                          cast_handle_testplan name env' tp (s\<lparr>db := db1\<rparr>))))))"

definition TestPlanController_create ::
  "request_env \<Rightarrow> pyval \<Rightarrow> sys \<Rightarrow> string result \<times> sys" where
  "TestPlanController_create R body s =
     (case testplan_create_body R body s of
        (r, s1) \<Rightarrow> (expected_errors [400, 403, 409] (invalid_as_bad_request r), s1))"

definition testplan_show_body :: "request_env \<Rightarrow> int \<Rightarrow> sys \<Rightarrow> string result" where
  "testplan_show_body R i s =
     (case bind_r (TestPlan_get_by_id (renv R) (rd R) (db s) i) (\<lambda>plan.
           bind_r (obj_get testplan_fields ''result'' plan) (\<lambda>v.
             case v of PStr txt \<Rightarrow> json_loads txt | _ \<Rightarrow> Inl TypeError)) of
        Inr res \<Rightarrow> json_dumps res
      | Inl (Nova c m) \<Rightarrow>
          if is_a c CaseNotFound
          then json_dumps (PDict [(''message'',
                 PStr (''not find testplan through id = '' @ string_of_int i))])
          else Inl (Nova c m)
      | Inl e \<Rightarrow> Inl e)"

definition TestPlanController_show :: "request_env \<Rightarrow> int \<Rightarrow> sys \<Rightarrow> string result" where
  "TestPlanController_show R i s =
     expected_errors [404] (invalid_as_bad_request (testplan_show_body R i s))"

section \<open>Test cases\<close>

definition new_case :: "ovo_env \<Rightarrow> pydict \<Rightarrow> vobj result" where
  "new_case E data =
     bind_r (ditem data ''host'') (\<lambda>host.
     bind_r (obj_set E testcase_fields ''host'' host (new_vobj True)) (\<lambda>o1.
     bind_r (obj_set E testcase_fields ''status'' (PStr ''initing'') o1) (\<lambda>o2.
     bind_r (ditem data ''method'') (\<lambda>m. obj_set E testcase_fields ''case_name'' m o2))))"

fun new_case_body :: "ovo_env \<Rightarrow> pyval \<Rightarrow> vobj result" where
  "new_case_body E (PDict d) = new_case E d"
| "new_case_body E _ = Inl TypeError"

definition testcase_create_body :: "request_env \<Rightarrow> pyval \<Rightarrow> sys \<Rightarrow> string result \<times> sys" where
  "testcase_create_body R body s =
     (case new_case_body (renv R) body of
        Inl e \<Rightarrow> (Inl e, s)
      | Inr o1 \<Rightarrow>
          (case TestCase_create (renv R) (now R) (fresh_uuid R) o1 (db s) of
             (Inl e, db1) \<Rightarrow> (Inl e, s\<lparr>db := db1\<rparr>)
           | (Inr o2, db1) \<Rightarrow>
               (case bind_r (obj_get testcase_fields ''id'' o2)
                       (\<lambda>i. bind_r (set_item ''id'' i body) (\<lambda>d. Inr (i, d))) of
                  Inl e \<Rightarrow> (Inl e, s\<lparr>db := db1\<rparr>)
                | Inr (i, d) \<Rightarrow>
                    (json_dumps (PDict [(''CaseId'', i)]),
                     cast_handle_cases d (s\<lparr>db := db1\<rparr>)))))"

definition CaseController_create :: "request_env \<Rightarrow> pyval \<Rightarrow> sys \<Rightarrow> string result \<times> sys" where
  "CaseController_create R body s =
     (case testcase_create_body R body s of
        (r, s1) \<Rightarrow> (expected_errors [400, 403, 409] (invalid_as_bad_request r), s1))"

definition testcase_show_body :: "request_env \<Rightarrow> int \<Rightarrow> sys \<Rightarrow> string result" where
  "testcase_show_body R i s =
     (case TestCase_get_by_id (renv R) (rd R) (db s) i of
        Inr o1 \<Rightarrow>
          bind_r (obj_get testcase_fields ''message'' o1) (\<lambda>m.
          bind_r (obj_get testcase_fields ''id'' o1) (\<lambda>j.
          bind_r (obj_get testcase_fields ''status'' o1) (\<lambda>st.
            json_dumps (PDict [(''Message'', m), (''CaseId'', j), (''Status'', st)]))))
      | Inl (Nova c m) \<Rightarrow>
          if is_a c CaseNotFound
          then json_dumps (PDict [(''message'',
                 PStr (''not find testcase through id = '' @ string_of_int i))])
          else Inl (Nova c m)
      | Inl e \<Rightarrow> Inl e)"

definition CaseController_show :: "request_env \<Rightarrow> int \<Rightarrow> sys \<Rightarrow> string result" where
  "CaseController_show R i s =
     expected_errors [404] (invalid_as_bad_request (testcase_show_body R i s))"

section \<open>Lemmas on creation\<close>

lemma TestPlan_create_other_tables:
  "TestPlan_create E n u o1 d = (r, d') \<Longrightarrow> cases d' = cases d \<and> nodes d' = nodes d"
  by (auto simp: TestPlan_create_def persist_create_def testplan_create_def result_simps
      split: sum.splits prod.splits)

lemma TestCase_create_other_tables:
  "TestCase_create E n u o1 d = (r, d') \<Longrightarrow> plans d' = plans d \<and> nodes d' = nodes d"
  by (auto simp: TestCase_create_def persist_create_def testcase_create_def result_simps
      split: sum.splits prod.splits)

text \<open>A new plan holds its initial status and its name, both changed, and nothing else.\<close>

lemma new_plan_props:
  assumes "new_plan E name = Inr o1"
  shows "vobj_ok testplan_fields o1 \<and> set (changed o1) = {''status'', ''testplan_name''} \<and>
    obj_get testplan_fields ''status'' o1 = Inr (PStr ''initing'') \<and>
    (\<exists>w. field_coerce E (plain_field FString) name = Inr w \<and>
       obj_get testplan_fields ''testplan_name'' o1 = Inr w)"
proof -
  from assms obtain o0 where o0: "obj_set E testplan_fields ''status'' (PStr ''initing'') (new_vobj True) = Inr o0"
      "obj_set E testplan_fields ''testplan_name'' name o0 = Inr o1"
    by (auto simp: new_plan_def result_simps)
  have ok: "vobj_ok testplan_fields o1" by (rule obj_set_ok [OF o0(2) obj_set_ok [OF o0(1) vobj_ok_new]])
  from o0 ok show ?thesis
    by (auto simp: obj_set_def result_simps obj_get_def plain_field_def new_vobj_def field_coerce_def)
qed

lemma new_case_props:
  assumes "new_case E d = Inr o1"
  shows "vobj_ok testcase_fields o1 \<and>
    set (changed o1) = {''host'', ''status'', ''case_name''} \<and>
    obj_get testcase_fields ''status'' o1 = Inr (PStr ''initing'')"
proof -
  from assms obtain h m o2 o3 where o: "obj_set E testcase_fields ''host'' h (new_vobj True) = Inr o2"
      "obj_set E testcase_fields ''status'' (PStr ''initing'') o2 = Inr o3"
      "obj_set E testcase_fields ''case_name'' m o3 = Inr o1"
    by (auto simp: new_case_def result_simps)
  have ok: "vobj_ok testcase_fields o1"
    by (rule obj_set_ok [OF o(3) obj_set_ok [OF o(2) obj_set_ok [OF o(1) vobj_ok_new]]])
  from o ok show ?thesis
    by (auto simp: obj_set_def result_simps obj_get_def plain_field_def new_vobj_def field_coerce_def)
qed

lemma id_is_integer: "ftype ((plain_field FInteger)\<lparr>read_only := True\<rparr>) = FInteger"
  by (simp add: plain_field_def)

text \<open>What a successful \<^verbatim>\<open>POST /testplan\<close> leaves behind.\<close>

text \<open>A create that answers adds one row at the end of the table, under the next id.\<close>

lemma TestPlan_create_row:
  assumes "TestPlan_create E t uuid o1 d = (Inr o2, d1)" "obj_get testplan_fields ''id'' o2 = Inr (PInt i)"
  shows "\<exists>r. row_id r = Some (PInt i) \<and> i = next_id (plans d) \<and>
    d1 = d\<lparr>plans := (plans d)\<lparr>rows := rows (plans d) @ [r], next_id := next_id (plans d) + 1\<rparr>\<rparr>"
proof -
  from assms(1) obtain v o1' r where c: "testplan_create E t v d = Inr (r, d1)"
      "from_db_object E testplan_fields r o1' = Inr o2"
    by (auto simp: TestPlan_create_def persist_create_def split: sum.splits)
  then obtain u tab where t: "table_insert plan_unique (plan_defaults t) u (plans d) = Inr (r, tab)"
      "d1 = d\<lparr>plans := tab\<rparr>"
    by (auto simp: testplan_create_def result_simps)
  have r: "row_id r = Some (PInt (next_id (plans d)))"
    by (simp add: row_id_def table_insert_cases(1) [OF t(1)])
  from from_db_object_attrs [OF c(2) testplan_fields_ok testplan_field(1)] r id_is_integer
  have "dget (attrs o2) ''id'' = Some (PInt (next_id (plans d)))"
    by (auto simp: row_id_def field_coerce_def integer_coerce_def)
  with assms(2) have "i = next_id (plans d)" by (simp add: obj_get_def split: option.splits)
  with r t(2) table_insert_cases(2) [OF t(1)] show ?thesis by blast
qed

lemma plan_created:
  assumes "testplan_create_body R body s = (Inr out, s1)" "sysdb_ok (db s)"
  obtains name tp env i o3 where "read_body body = Inr (name, tp, PDict env)"
    and "json_dumps (PDict [(''TestPlan'', PInt i)]) = Inr out"
    and "casts s1 = casts s @ [(''handle_testplan'', [(''data'', PDict [(''name'', name),
      (''environment'', PDict (dset ''id'' (PInt i) env)), (''testplan'', tp)])])]"
    and "sysdb_ok (db s1)" and "cases (db s1) = cases (db s)" and "nodes (db s1) = nodes (db s)"
    and "\<forall>r. testplan_get ''no'' (db s) i \<noteq> Inr r"
    and "\<forall>j r. testplan_get ''no'' (db s) j = Inr r \<longrightarrow> testplan_get ''no'' (db s1) j = Inr r"
    and "TestPlan_get_by_id (renv R) ''no'' (db s1) i = Inr o3"
    and "obj_get testplan_fields ''status'' o3 = Inr (PStr ''initing'')"
    and "obj_get testplan_fields ''result'' o3 = Inr (PStr ''{}'')"
    and "field_coerce (renv R) (plain_field FString) name = obj_get testplan_fields ''testplan_name'' o3"
    and "\<exists>r. row_id r = Some (PInt i) \<and> i = next_id (plans (db s)) \<and> plans (db s1) =
      (plans (db s))\<lparr>rows := rows (plans (db s)) @ [r], next_id := next_id (plans (db s)) + 1\<rparr>"
proof -
  from assms(1) obtain name tp env where b: "read_body body = Inr (name, tp, env)"
    by (auto simp: testplan_create_body_def split: sum.splits)
  with assms(1) obtain o1 where o1: "new_plan (renv R) name = Inr o1"
    by (auto simp: testplan_create_body_def split: sum.splits)
  note p = new_plan_props [OF o1]
  with b o1 assms(1) obtain o2 db1 where c: "TestPlan_create (renv R) (now R) (fresh_uuid R) o1 (db s) = (Inr o2, db1)"
    by (auto simp: testplan_create_body_def split: sum.splits prod.splits)
  have nd: "''deleted'' \<notin> set (changed o1)" using p by simp
  obtain i o3 where w: "obj_get testplan_fields ''id'' o2 = Inr (PInt i)" "sysdb_ok db1"
    "\<forall>s'. testplan_get ''no'' (db s) i \<noteq> Inr s'"
    "\<forall>j s'. testplan_get ''no'' (db s) j = Inr s' \<longrightarrow> testplan_get ''no'' db1 j = Inr s'"
    "TestPlan_get_by_id (renv R) ''no'' db1 i = Inr o3"
    "\<forall>k. dhas testplan_fields k \<longrightarrow> obj_get testplan_fields k o3 = obj_get testplan_fields k o2"
    "\<forall>k \<in> set (changed o1). k \<notin> set automatic_columns \<longrightarrow> k \<noteq> ''uuid'' \<longrightarrow>
       obj_get testplan_fields k o2 = obj_get testplan_fields k o1"
    "\<forall>k d g w. k \<notin> set (changed o1) \<longrightarrow> k \<notin> set automatic_columns \<longrightarrow> k \<noteq> ''uuid'' \<longrightarrow>
       dget (plan_defaults (now R)) k = Some d \<longrightarrow> dget testplan_fields k = Some g \<longrightarrow>
       field_coerce (renv R) g d = Inr w \<longrightarrow> obj_get testplan_fields k o2 = Inr w"
    using plan_rows.create_then_get [OF assms(2) conjunct1 [OF p] testplan_fields_ok nd
        testplan_field(1) id_is_integer c [unfolded TestPlan_create_def]]
    unfolding TestPlan_get_by_id_def by blast
  have res: "obj_get testplan_fields ''result'' o2 = Inr (PStr ''{}'')"
    using w(8) [rule_format, of "''result''" "PStr ''{}''"] p
    by (simp add: automatic_columns_def plan_defaults_def plain_field_def field_coerce_def)
  have kept: "obj_get testplan_fields ''status'' o2 = obj_get testplan_fields ''status'' o1"
      "obj_get testplan_fields ''testplan_name'' o2 = obj_get testplan_fields ''testplan_name'' o1"
    using w(7) p by (auto simp: automatic_columns_def)
  obtain e where e: "env = PDict e" using assms(1) b o1 c w(1)
    by (cases env) (auto simp: testplan_create_body_def)
  have s1: "s1 = cast_handle_testplan name (PDict (dset ''id'' (PInt i) e)) tp (s\<lparr>db := db1\<rparr>)"
    and out: "json_dumps (PDict [(''TestPlan'', PInt i)]) = Inr out"
    using assms(1) b o1 c w(1) by (auto simp: testplan_create_body_def e)
  have g: "obj_get testplan_fields k o3 = obj_get testplan_fields k o2"
    if "dget testplan_fields k = Some f" for k f
    using w(6) that by (simp add: dhas_def)
  have o: "obj_get testplan_fields ''status'' o3 = Inr (PStr ''initing'')"
    using p unfolding g [OF testplan_field(2)] kept(1) by simp
  have o': "obj_get testplan_fields ''result'' o3 = Inr (PStr ''{}'')"
    unfolding g [OF testplan_field(5)] by (rule res)
  have o'': "field_coerce (renv R) (plain_field FString) name = obj_get testplan_fields ''testplan_name'' o3"
    using p unfolding g [OF testplan_field(3)] kept(2) by (elim exE conjE) simp
  have s: "casts s1 = casts s @ [(''handle_testplan'', [(''data'', PDict [(''name'', name),
      (''environment'', PDict (dset ''id'' (PInt i) e)), (''testplan'', tp)])])]" "db s1 = db1"
    by (simp_all add: s1 cast_handle_testplan_def)
  note other = TestPlan_create_other_tables [OF c]
  have row: "\<exists>r. row_id r = Some (PInt i) \<and> i = next_id (plans (db s)) \<and> plans (db s1) =
      (plans (db s))\<lparr>rows := rows (plans (db s)) @ [r], next_id := next_id (plans (db s)) + 1\<rparr>"
    using TestPlan_create_row [OF c w(1)] by (auto simp: s(2))
  show thesis
    by (rule that [OF _ out s(1) _ _ _ _ _ _ _ _ _ row]) (use b e w(2-5) o o' o'' other in \<open>simp_all add: s(2)\<close>)
qed

lemma testplan_made:
  assumes "testplan_create_body R body s = (Inr out, s1)" "sysdb_ok (db s)" "rd R = ''no''"
  obtains name tp env i where "read_body body = Inr (name, tp, PDict env)"
    and "json_dumps (PDict [(''TestPlan'', PInt i)]) = Inr out"
    and "casts s1 = casts s @ [(''handle_testplan'', [(''data'', PDict [(''name'', name),
      (''environment'', PDict (dset ''id'' (PInt i) env)), (''testplan'', tp)])])]"
    and "TestPlanController_show R i s1 = Inr ''{}''"
proof -
  have texts: "json_loads ''{}'' = Inr (PDict [])" "json_dumps (PDict []) = Inr ''{}''"
    by code_simp+
  obtain name tp env i o3 where i: "read_body body = Inr (name, tp, PDict env)"
      "json_dumps (PDict [(''TestPlan'', PInt i)]) = Inr out"
      "casts s1 = casts s @ [(''handle_testplan'', [(''data'', PDict [(''name'', name),
        (''environment'', PDict (dset ''id'' (PInt i) env)), (''testplan'', tp)])])]"
      "TestPlan_get_by_id (renv R) ''no'' (db s1) i = Inr o3"
      "obj_get testplan_fields ''result'' o3 = Inr (PStr ''{}'')"
    by (rule plan_created [OF assms(1,2)]) (rule that)
  have "testplan_show_body R i s1 = Inr ''{}''"
    by (simp add: testplan_show_body_def assms(3) i(4,5) texts)
  then have "TestPlanController_show R i s1 = Inr ''{}''" by (simp add: TestPlanController_show_def)
  with i(1-3) show thesis by (rule that)
qed

lemma testplan_show_created:
  assumes "testplan_create_body R body s = (Inr out, s1)" "sysdb_ok (db s)" "rd R = ''no''"
  shows "\<exists>i. json_dumps (PDict [(''TestPlan'', PInt i)]) = Inr out \<and>
    TestPlanController_show R i s1 = Inr ''{}''"
  by (rule testplan_made [OF assms]) blast

section \<open>A concrete run\<close>

text \<open>
  A small request, used to evaluate the handlers; the tables start empty.
\<close>

definition sample_request :: request_env where
  "sample_request = \<lparr>renv = sample_ovo, rd = ''no'', now = PDate ''t1'' False, fresh_uuid = ''u-1''\<rparr>"

definition empty_state :: sys where
  "empty_state = \<lparr>db = \<lparr>plans = empty_table, cases = empty_table, nodes = empty_table\<rparr>, casts = []\<rparr>"

definition sample_body :: "pyval \<Rightarrow> pyval" where
  "sample_body env = PDict [(''name'', PStr ''p''), (''testplan'', PDict [(''1'', PInt 2)]),
     (''environment'', env)]"

definition sample_created :: sys where
  "sample_created = snd (TestPlanController_create sample_request (sample_body (PDict [])) empty_state)"

lemma empty_state_ok: "sysdb_ok (db empty_state)"
  by (simp add: sysdb_ok_def empty_state_def table_ok_empty)

lemma sample_create:
  "TestPlanController_create sample_request (sample_body (PDict [])) empty_state =
     (Inr (''{'' @ [CHR 0x22] @ ''TestPlan'' @ [CHR 0x22] @ '': 1}''), sample_created)"
  by (rule prod_eqI) (simp_all add: sample_created_def, code_simp)

section \<open>Properties\<close>

text \<open>
  C4: a test plan accepted by \<^verbatim>\<open>POST /testplan\<close> is stored as one new row at the end of the
  table, under the next id, which no plan had; exactly one \<^verbatim>\<open>handle_testplan\<close> cast carries
  the name, the plan and the environment with that id, the response names the id, and the id reads
  back as a plan with this name and status \<^verbatim>\<open>initing\<close>. All rows there were, the test cases
  and the nodes are untouched, and the tables stay well formed.
\<close>

theorem testplan_create_effect:
  assumes "TestPlanController_create R body s = (Inr out, s1)" "sysdb_ok (db s)"
  shows "\<exists>name tp env i o3. read_body body = Inr (name, tp, PDict env) \<and>
    json_dumps (PDict [(''TestPlan'', PInt i)]) = Inr out \<and>
    casts s1 = casts s @ [(''handle_testplan'', [(''data'', PDict [(''name'', name),
      (''environment'', PDict (dset ''id'' (PInt i) env)), (''testplan'', tp)])])] \<and>
    sysdb_ok (db s1) \<and> cases (db s1) = cases (db s) \<and> nodes (db s1) = nodes (db s) \<and>
    (\<exists>r. row_id r = Some (PInt i) \<and> i = next_id (plans (db s)) \<and> plans (db s1) =
       (plans (db s))\<lparr>rows := rows (plans (db s)) @ [r], next_id := next_id (plans (db s)) + 1\<rparr>) \<and>
    (\<forall>r. testplan_get ''no'' (db s) i \<noteq> Inr r) \<and>
    (\<forall>j r. testplan_get ''no'' (db s) j = Inr r \<longrightarrow> testplan_get ''no'' (db s1) j = Inr r) \<and>
    TestPlan_get_by_id (renv R) ''no'' (db s1) i = Inr o3 \<and>
    obj_get testplan_fields ''status'' o3 = Inr (PStr ''initing'') \<and>
    field_coerce (renv R) (plain_field FString) name = obj_get testplan_fields ''testplan_name'' o3"
proof -
  from assms(1) have "testplan_create_body R body s = (Inr out, s1)"
    by (auto simp: TestPlanController_create_def split: prod.splits)
  then show ?thesis
    by (rule plan_created [OF _ assms(2)], elim exE conjE) (intro exI conjI)
qed

theorem testplan_create_effect_witness:
  "\<exists>i o3. testplan_get ''no'' (db sample_created) i \<noteq> testplan_get ''no'' (db empty_state) i \<and>
    TestPlan_get_by_id (renv sample_request) ''no'' (db sample_created) i = Inr o3 \<and>
    obj_get testplan_fields ''status'' o3 = Inr (PStr ''initing'')"
proof -
  obtain i o3 where "\<forall>r. testplan_get ''no'' (db empty_state) i \<noteq> Inr r"
      "TestPlan_get_by_id (renv sample_request) ''no'' (db sample_created) i = Inr o3"
      "obj_get testplan_fields ''status'' o3 = Inr (PStr ''initing'')"
    using testplan_create_effect [OF sample_create empty_state_ok] by (elim exE conjE) (rule that)
  moreover from this(2) obtain r where "testplan_get ''no'' (db sample_created) i = Inr r"
    by (auto simp: TestPlan_get_by_id_def persist_get_by_id_def result_simps)
  ultimately show ?thesis by metis
qed

text \<open>
  A body that is refused while it is read leaves the database and the conductor
  untouched; a dictionary without a usable name, plan or environment is answered with the
  400 of that check, a body that is no dictionary with a 500.
\<close>

theorem testplan_create_refused:
  assumes "read_body body = Inl e"
  shows "TestPlanController_create R body s =
    (Inl (case body of PDict d \<Rightarrow> e | _ \<Rightarrow> internal_server_error), s) \<and>
    (\<forall>d. body = PDict d \<longrightarrow> (\<exists>m. e = HTTPError 400 m))"
proof -
  have "\<exists>m. e = HTTPError 400 m" if "body = PDict d" for d
    using assms that
    by (auto simp: read_body_def result_simps inst_testplan_name_def inst_template_def
        inst_environment_def split: option.splits pyval.splits)
  moreover have "e = AttributeError" if "\<nexists>d. body = PDict d"
    using assms that by (cases body) (auto simp: read_body_def)
  ultimately show ?thesis using assms
    by (cases body)
      (auto simp: TestPlanController_create_def testplan_create_body_def expected_errors_def
        expected_exn_def invalid_as_bad_request_def internal_server_error_def)
qed

theorem testplan_create_refused_witness:
  "snd (TestPlanController_create sample_request (PDict [(''name'', PStr ''p'')]) empty_state) = empty_state"
proof -
  have "read_body (PDict [(''name'', PStr ''p'')]) = Inl (HTTPError 400 ''body has not testplan'')"
    by code_simp
  from testplan_create_refused [OF this] show ?thesis by simp
qed

text \<open>
  Showing the plan a create has just returned succeeds and gives the empty result
  table.
\<close>

theorem testplan_show_after_create:
  assumes "TestPlanController_create R body s = (Inr out, s1)" "sysdb_ok (db s)" "rd R = ''no''"
  shows "\<exists>i. json_dumps (PDict [(''TestPlan'', PInt i)]) = Inr out \<and>
    TestPlanController_show R i s1 = Inr ''{}''"
proof -
  from assms(1) have "testplan_create_body R body s = (Inr out, s1)"
    by (auto simp: TestPlanController_create_def split: prod.splits)
  from testplan_show_created [OF this assms(2,3)] show ?thesis .
qed

theorem testplan_show_after_create_witness:
  "\<exists>i. TestPlanController_show sample_request i sample_created = Inr ''{}''"
  using testplan_show_after_create [OF sample_create empty_state_ok]
  by (auto simp: sample_request_def)

text \<open>
  An accepted body whose environment is not a dictionary is answered with a 500 after
  the row was written: the plan is in the table and no cast was made.
\<close>

theorem testplan_create_orphan:
  assumes "read_body body = Inr (name, tp, env)" "\<nexists>e. env = PDict e" "new_plan (renv R) name = Inr o1"
    and "TestPlan_create (renv R) (now R) (fresh_uuid R) o1 (db s) = (Inr o2, db1)" "sysdb_ok (db s)"
  shows "TestPlanController_create R body s = (Inl internal_server_error, s\<lparr>db := db1\<rparr>) \<and>
    (\<exists>i r. testplan_get ''no'' db1 i = Inr r \<and> testplan_get ''no'' (db s) i \<noteq> Inr r)"
proof -
  note p = new_plan_props [OF assms(3)]
  have nd: "''deleted'' \<notin> set (changed o1)" using p by simp
  obtain i o3 where w: "obj_get testplan_fields ''id'' o2 = Inr (PInt i)"
    "\<forall>s'. testplan_get ''no'' (db s) i \<noteq> Inr s'"
    "persist_get_by_id (renv R) testplan_fields (testplan_get ''no'') db1 i = Inr o3"
    using plan_rows.create_then_get [OF assms(5) conjunct1 [OF p] testplan_fields_ok nd
        testplan_field(1) id_is_integer assms(4) [unfolded TestPlan_create_def]]
    by (elim exE conjE) (rule that)
  have "set_item ''id'' (PInt i) env = Inl TypeError" using assms(2) by (cases env) auto
  with assms w(1) have "testplan_create_body R body s = (Inl TypeError, s\<lparr>db := db1\<rparr>)"
    by (simp add: testplan_create_body_def)
  then have "TestPlanController_create R body s = (Inl internal_server_error, s\<lparr>db := db1\<rparr>)"
    by (simp add: TestPlanController_create_def expected_errors_def expected_exn_def
        invalid_as_bad_request_def)
  moreover from w(3) have "\<exists>r. testplan_get ''no'' db1 i = Inr r"
    by (auto simp: persist_get_by_id_def result_simps)
  ultimately show ?thesis using w(2) by blast
qed

theorem testplan_create_orphan_witness:
  "\<exists>db1 i r. TestPlanController_create sample_request (sample_body (PStr ''x'')) empty_state =
     (Inl internal_server_error, empty_state\<lparr>db := db1\<rparr>) \<and> testplan_get ''no'' db1 i = Inr r"
proof -
  let ?run = "TestPlan_create sample_ovo (PDate ''t1'' False) ''u-1''
    (projr (new_plan sample_ovo (PStr ''p''))) (db empty_state)"
  have run: "?run = (Inr (projr (fst ?run)), snd ?run)"
    by (rule prod_eqI) (simp_all, code_simp)
  have "read_body (sample_body (PStr ''x'')) = Inr (PStr ''p'', PDict [(''1'', PInt 2)], PStr ''x'')"
      "new_plan (renv sample_request) (PStr ''p'') = Inr (projr (new_plan sample_ovo (PStr ''p'')))"
    by code_simp+
  from testplan_create_orphan [OF this(1) _ this(2) _ empty_state_ok, of "projr (fst ?run)" "snd ?run"] run
  show ?thesis by (auto simp: sample_request_def)
qed

text \<open>
  Looking for a plan that does not exist is not a 404: the answer is a success whose
  text says so. (The handler declares 404 and never raises it.)
\<close>

theorem testplan_show_missing:
  assumes "\<forall>r \<in> set (rows (plans (db s))). row_live r \<longrightarrow> \<not> has_id i r" "rd R = ''no''"
  shows "TestPlanController_show R i s =
    json_dumps (PDict [(''message'', PStr (''not find testplan through id = '' @ string_of_int i))]) \<and>
    (\<exists>out. TestPlanController_show R i s = Inr out)"
proof -
  have "testplan_get ''no'' (db s) i = Inl (case_not_found i)"
    using assms(1) by (simp add: testplan_get_def first_by_id_Inl)
  moreover have "is_a CaseNotFound CaseNotFound" by code_simp
  ultimately show ?thesis using assms(2)
    by (simp add: TestPlanController_show_def testplan_show_body_def TestPlan_get_by_id_def
        persist_get_by_id_def case_not_found_def json_dumps_def expected_errors_def
        invalid_as_bad_request_def)
qed

theorem testplan_show_missing_witness:
  "\<exists>out. TestPlanController_show sample_request 7 empty_state = Inr out"
proof -
  have "\<forall>r \<in> set (rows (plans (db empty_state))). row_live r \<longrightarrow> \<not> has_id 7 r"
      "rd sample_request = ''no''"
    by (simp_all add: empty_state_def empty_table_def sample_request_def)
  from testplan_show_missing [OF this] show ?thesis by blast
qed

text \<open>
  Destroying a test plan never touches the plans: the call reaches the compute-node
  table with the plan's id, so the node of that number is soft-deleted, and without one
  the caller gets a \<^verbatim>\<open>ComputeHostNotFound\<close>.
\<close>

theorem testplan_destroy_hits_nodes:
  assumes "has_context o1" "obj_get testplan_fields ''id'' o1 = Inr (PInt i)"
    and "TestPlan_destroy ''no'' t o1 d = (r, d1)"
  shows "plans d1 = plans d \<and> cases d1 = cases d \<and>
    (if \<exists>n \<in> set (rows (nodes d)). row_live n \<and> has_id i n
     then r = Inr () \<and> (\<forall>n \<in> set (rows (nodes d1)). has_id i n \<longrightarrow> \<not> row_live n \<or> i = 0)
     else d1 = d \<and> (\<exists>m. r = Inl (Nova ComputeHostNotFound m)))"
proof -
  have run: "compute_node_delete ''no'' t i d = (r, d1)"
    using assms by (simp add: TestPlan_destroy_def remotable_def)
  show ?thesis
  proof (cases "\<exists>n \<in> set (rows (nodes d)). row_live n \<and> has_id i n")
    case True
    then have "filter (\<lambda>n. n \<in> set (filter row_live (rows (nodes d))) \<and> has_id i n) (rows (nodes d)) \<noteq> []"
      by (auto simp: filter_empty_conv)
    with run have "r = Inr ()" "d1 = d\<lparr>nodes := snd (soft_delete_rows t
        (\<lambda>n. n \<in> set (filter row_live (rows (nodes d))) \<and> has_id i n) (nodes d))\<rparr>"
      by (auto simp: compute_node_delete_def model_query_def soft_delete_rows_def Let_def)
    with True show ?thesis
      by (auto simp: soft_delete_rows_def row_live_def has_id_def row_id_def)
  next
    case False
    then have "filter (\<lambda>n. n \<in> set (filter row_live (rows (nodes d))) \<and> has_id i n) (rows (nodes d)) = []"
      by (auto simp: filter_empty_conv)
    with run False show ?thesis
      by (auto simp: compute_node_delete_def model_query_def soft_delete_rows_def Let_def)
  qed
qed

theorem testplan_destroy_hits_nodes_witness:
  "let d = (snd one_plan)\<lparr>nodes := \<lparr>rows = [[(''id'', PInt 1), (''deleted'', PInt 0)]], next_id = 2\<rparr>\<rparr> in
   let d1 = snd (TestPlan_destroy ''no'' (PDate ''t2'' False) edited_plan d) in
   plans d1 = plans d \<and> (\<forall>n \<in> set (rows (nodes d1)). has_id 1 n \<longrightarrow> \<not> row_live n)"
proof -
  have c: "has_context edited_plan" "obj_get testplan_fields ''id'' edited_plan = Inr (PInt 1)"
    by code_simp+
  show ?thesis
    using testplan_destroy_hits_nodes [OF c prod.collapse [symmetric], of "PDate ''t2'' False"
        "(snd one_plan)\<lparr>nodes := \<lparr>rows = [[(''id'', PInt 1), (''deleted'', PInt 0)]], next_id = 2\<rparr>\<rparr>"]
    by (simp add: Let_def has_id_def row_id_def row_live_def)
qed

end
