(* ===== verification/Floats.thy ===== *)
theory Floats
  imports Complex_Main
begin

text \<open>
  The pass ratio of a test plan's summary (\<^verbatim>\<open>nova/reportrpc.py\<close>) is computed in IEEE
  double precision. The division and the product are written out with their rounding
  (to nearest, ties to even), so that the truncated result is the one the code stores.
\<close>

section \<open>Double-precision quotients\<close>

fun nbits :: "nat \<Rightarrow> nat" where
  "nbits n = (if n = 0 then 0 else Suc (nbits (n div 2)))"

declare nbits.simps [simp del]

definition round_half_even :: "nat \<Rightarrow> nat \<Rightarrow> nat" where
  "round_half_even a b =
     (let q = a div b; r = a mod b
      in if 2 * r < b \<or> (2 * r = b \<and> even q) then q else q + 1)"

text \<open>
  The double nearest to \<open>n / d\<close>, as a 53-bit significand and a negated exponent: the value
  is \<open>m / 2 ^ k\<close>. No subnormal and no overflow can occur for the operands used here.
\<close>

definition float_of :: "nat \<Rightarrow> nat \<Rightarrow> nat \<times> nat" where
  "float_of n d =
     (let k0 = 53 + nbits d - nbits n;
          k = (if n * 2 ^ k0 div d < 2 ^ 53 then k0 else k0 - 1)
      in (round_half_even (n * 2 ^ k) d, k))"

text \<open>\<^verbatim>\<open>int((float(s) / float(t)) * 100)\<close>: two rounded operations and a truncation.\<close>

definition passratio :: "nat \<Rightarrow> nat \<Rightarrow> nat" where
  "passratio s t =
     (if s = 0 then 0
      else (case float_of s t of (m, k) \<Rightarrow>
              (case float_of (100 * m) (2 ^ k) of (m2, k2) \<Rightarrow> m2 div 2 ^ k2)))"

section \<open>Rounding errors\<close>

lemma nbits_bounds: "0 < n \<Longrightarrow> 2 ^ (nbits n - 1) \<le> n \<and> n < 2 ^ nbits n \<and> 0 < nbits n"
proof (induction n rule: nbits.induct)
  case (1 n)
  show ?case
  proof (cases "n div 2 = 0")
    case True
    with 1(2) have "n = 1" by auto
    then show ?thesis by (simp add: nbits.simps)
  next
    case False
    with 1 have ih: "2 ^ (nbits (n div 2) - 1) \<le> n div 2" "n div 2 < 2 ^ nbits (n div 2)"
      "0 < nbits (n div 2)" by auto
    have b: "nbits n = Suc (nbits (n div 2))" using 1(2) by (simp add: nbits.simps)
    obtain m where m: "nbits (n div 2) = Suc m" using ih(3) gr0_conv_Suc by auto
    have "2 * 2 ^ m \<le> n" using ih(1) by (simp add: m)
    moreover have "n < 2 * 2 ^ Suc m" using ih(2) unfolding m by linarith
    ultimately show ?thesis by (simp add: b m)
  qed
qed

lemma nbits_mono: "0 < n \<Longrightarrow> n \<le> d \<Longrightarrow> nbits n \<le> nbits d"
proof (rule ccontr)
  assume "0 < n" "n \<le> d" "\<not> nbits n \<le> nbits d"
  then have "nbits d \<le> nbits n - 1" by simp
  then have "(2::nat) ^ nbits d \<le> 2 ^ (nbits n - 1)" by (rule power_increasing) simp
  with nbits_bounds [of n] nbits_bounds [of d] \<open>0 < n\<close> \<open>n \<le> d\<close> show False by linarith
qed

lemma nbits_unique: "2 ^ k \<le> n \<Longrightarrow> n < 2 ^ Suc k \<Longrightarrow> nbits n = Suc k"
proof -
  assume n: "2 ^ k \<le> n" "n < 2 ^ Suc k"
  have "0 < n" using n(1) by (metis gr0I le_zero_eq power_not_zero zero_neq_numeral)
  note b = nbits_bounds [OF this]
  have "k < nbits n" using b n(1) power_less_imp_less_exp [of "2::nat" k "nbits n"] by linarith
  moreover have "nbits n - 1 < Suc k"
    using b n(2) power_less_imp_less_exp [of "2::nat" "nbits n - 1" "Suc k"] by linarith
  ultimately show ?thesis by simp
qed

lemma round_half_even_error:
  assumes "0 < b"
  shows "\<bar>real (round_half_even a b) - real a / real b\<bar> \<le> 1 / 2"
proof -
  let ?q = "a div b" and ?r = "a mod b"
  have a: "real a = real ?q * real b + real ?r" by (metis div_mult_mod_eq of_nat_add of_nat_mult)
  have r: "real ?r < real b" using assms by simp
  have d: "real a / real b = real ?q + real ?r / real b" using assms by (simp add: a add_divide_distrib)
  show ?thesis
  proof (cases "2 * ?r < b \<or> (2 * ?r = b \<and> even ?q)")
    case True
    then have "2 * real ?r \<le> real b" by linarith
    with True assms show ?thesis by (simp add: round_half_even_def Let_def d field_simps)
  next
    case False
    then have "real b \<le> 2 * real ?r" by linarith
    with False assms r show ?thesis by (simp add: round_half_even_def Let_def d field_simps)
  qed
qed

lemma float_of_props:
  assumes "0 < n" "0 < d" "nbits n \<le> nbits d + 53" "float_of n d = (m, k)"
  shows "52 + nbits d - nbits n \<le> k \<and> k \<le> 53 + nbits d - nbits n \<and>
    \<bar>real m / 2 ^ k - real n / real d\<bar> \<le> 1 / 2 ^ (k + 1)"
proof -
  have k: "k = (if n * 2 ^ (53 + nbits d - nbits n) div d < 2 ^ 53 then 53 + nbits d - nbits n
      else 53 + nbits d - nbits n - 1)" "m = round_half_even (n * 2 ^ k) d"
    using assms(4) by (auto simp: float_of_def Let_def)
  have "\<bar>real m - real n * 2 ^ k / real d\<bar> \<le> 1 / 2"
    using round_half_even_error [OF assms(2), of "n * 2 ^ k"] by (simp add: k(2))
  moreover have "real m - real n * 2 ^ k / real d = (real m / 2 ^ k - real n / real d) * 2 ^ k"
    by (simp add: left_diff_distrib)
  ultimately have "\<bar>(real m / 2 ^ k - real n / real d) * 2 ^ k\<bar> \<le> 1 / 2" by simp
  then have "\<bar>real m / 2 ^ k - real n / real d\<bar> * 2 ^ k \<le> 1 / 2" by (simp add: abs_mult)
  then have "\<bar>real m / 2 ^ k - real n / real d\<bar> \<le> 1 / 2 ^ (k + 1)" by (simp add: field_simps)
  moreover have "52 + nbits d - nbits n \<le> k" "k \<le> 53 + nbits d - nbits n"
    using k(1) assms(3) by (auto split: if_splits)
  ultimately show ?thesis by simp
qed

section \<open>The pass ratio\<close>

lemma passratio_full: "0 < t \<Longrightarrow> passratio t t = 100"
proof -
  assume t: "0 < t"
  have b: "nbits (100 * 2 ^ 52) = Suc 58" "nbits (2 ^ 52) = Suc 52" by (rule nbits_unique; simp)+
  have f: "float_of t t = (2 ^ 52, 52)" using t by (simp add: float_of_def round_half_even_def)
  have g: "float_of (100 * 2 ^ 52) (2 ^ 52) = (100 * 2 ^ 46, 46)"
    unfolding float_of_def b by (simp add: round_half_even_def Let_def)
  show ?thesis using t by (simp add: passratio_def f g [simplified])
qed

lemma passratio_close:
  assumes "0 < s" "s \<le> t" "t < 2 ^ 45"
  shows "passratio s t \<le> 100 * s div t" and "100 * s div t \<le> passratio s t + 1"
    and "100 * s \<le> (passratio s t + 1) * t"
proof -
  obtain m k where f: "float_of s t = (m, k)" by fastforce
  obtain m2 k2 where g: "float_of (100 * m) (2 ^ k) = (m2, k2)" by fastforce
  have t: "0 < t" using assms by simp
  have st: "nbits s \<le> nbits t" using assms by (intro nbits_mono)
  have F: "52 \<le> k" "\<bar>real m / 2 ^ k - real s / real t\<bar> \<le> 1 / 2 ^ (k + 1)"
    using float_of_props [OF assms(1) t _ f] st by auto
  have m: "real m / 2 ^ k \<le> 2"
  proof -
    have "real s / real t \<le> 1" using assms by simp
    moreover have "1 / 2 ^ (k + 1) \<le> (1::real)" using one_le_power [of "2::real" "k + 1"] by simp
    ultimately show ?thesis using F(2) by linarith
  qed
  have m0: "0 < m"
  proof (rule ccontr)
    assume "\<not> 0 < m"
    then have "real s / real t \<le> 1 / 2 ^ (k + 1)" using F(2) by simp
    also have "\<dots> \<le> 1 / 2 ^ 53" using F(1) by (intro divide_left_mono power_increasing) auto
    finally have "real s * 2 ^ 53 \<le> real t" using t by (simp add: field_simps)
    with assms show False by simp
  qed
  have "real m \<le> 2 * 2 ^ k" using m by (simp add: field_simps)
  then have "m \<le> 2 ^ Suc k" by (metis of_nat_le_iff of_nat_numeral of_nat_power power_Suc)
  then have "100 * m \<le> 200 * 2 ^ k" by simp
  also have "\<dots> < 256 * 2 ^ k" by simp
  also have "(256::nat) * 2 ^ k = 2 ^ (k + 8)" by (simp add: power_add)
  finally have "100 * m < 2 ^ (k + 8)" .
  then have nb: "nbits (100 * m) \<le> k + 8"
    using nbits_bounds [of "100 * m"] m0 power_less_imp_less_exp [of "2::nat" "nbits (100 * m) - 1" "k + 8"]
    by linarith
  have nk: "nbits (2 ^ k) = Suc k" by (rule nbits_unique) simp_all
  have G: "45 \<le> k2" "\<bar>real m2 / 2 ^ k2 - real (100 * m) / 2 ^ k\<bar> \<le> 1 / 2 ^ (k2 + 1)"
    using float_of_props [OF _ _ _ g] m0 nb nk by auto
  let ?y = "real m2 / 2 ^ k2" and ?x = "100 * real s / real t"
  have e1: "1 / 2 ^ (k + 1) \<le> 1 / (2::real) ^ 53" using F(1) by (intro divide_left_mono power_increasing) auto
  have e2: "1 / 2 ^ (k2 + 1) \<le> 1 / (2::real) ^ 46" using G(1) by (intro divide_left_mono power_increasing) auto
  have "100 * (real m / 2 ^ k) - ?x = 100 * (real m / 2 ^ k - real s / real t)"
    by (simp add: right_diff_distrib)
  then have "\<bar>100 * (real m / 2 ^ k) - ?x\<bar> = 100 * \<bar>real m / 2 ^ k - real s / real t\<bar>"
    by (simp only: abs_mult abs_numeral)
  also have "\<dots> \<le> 100 * (1 / 2 ^ 53)" by (intro mult_left_mono order_trans [OF F(2) e1]) simp
  finally have x: "\<bar>100 * (real m / 2 ^ k) - ?x\<bar> \<le> 100 / 2 ^ 53" by simp
  have "real (100 * m) / 2 ^ k = 100 * (real m / 2 ^ k)" by simp
  moreover have "\<bar>?y - real (100 * m) / 2 ^ k\<bar> \<le> 1 / 2 ^ 46" by (rule order_trans [OF G(2) e2])
  ultimately have close: "\<bar>?y - ?x\<bar> \<le> 1 / 2 ^ 46 + 100 / 2 ^ 53" using x by arith
  have p: "passratio s t = m2 div 2 ^ k2" using assms(1) by (simp add: passratio_def f g)
  have lo: "real (passratio s t) \<le> ?y"
    using of_nat_div_le_of_nat [of m2 "2 ^ k2", where ?'a = real] by (simp add: p)
  have "m2 < passratio s t * 2 ^ k2 + 2 ^ k2"
  proof -
    have "m2 mod 2 ^ k2 < 2 ^ k2" by simp
    with div_mult_mod_eq [of m2 "2 ^ k2"] show ?thesis unfolding p by linarith
  qed
  then have "real m2 < real (passratio s t * 2 ^ k2 + 2 ^ k2)" using of_nat_less_iff by blast
  then have hi: "?y < real (passratio s t) + 1" by (simp add: field_simps)
  show "passratio s t \<le> 100 * s div t"
  proof -
    have "real (passratio s t) < ?x + 1 / 2 ^ 45"
    proof -
      have "1 / 2 ^ 46 + 100 / 2 ^ 53 < (1::real) / 2 ^ 45" by simp
      with lo close show ?thesis by arith
    qed
    moreover have "1 / 2 ^ 45 \<le> 1 / real t"
      using assms(3) t by (intro divide_left_mono) (auto simp flip: of_nat_less_iff)
    ultimately have "real (passratio s t) < (100 * real s + 1) / real t" by (simp add: add_divide_distrib)
    then have "real (passratio s t * t) < real (100 * s + 1)" using t by (simp add: field_simps)
    then have "passratio s t * t \<le> 100 * s" using of_nat_less_iff by linarith
    then show ?thesis using t by (simp add: less_eq_div_iff_mult_less_eq)
  qed
  show "100 * s div t \<le> passratio s t + 1"
  proof -
    have "real (100 * s div t) \<le> ?x" using of_nat_div_le_of_nat [of "100 * s" t, where ?'a = real] by simp
    then have "real (100 * s div t) < real (passratio s t) + 2"
    proof -
      have "1 / 2 ^ 46 + 100 / 2 ^ 53 < (1::real)" by simp
      with hi close \<open>real (100 * s div t) \<le> ?x\<close> show ?thesis by arith
    qed
    then show ?thesis by linarith
  qed
  show "100 * s \<le> (passratio s t + 1) * t"
  proof -
    have "1 / 2 ^ 46 + 100 / 2 ^ 53 < (1::real) / 2 ^ 45" by simp
    with hi close have "?x < real (passratio s t) + 1 + 1 / 2 ^ 45" by arith
    moreover have "1 / 2 ^ 45 \<le> 1 / real t"
      using assms(3) t by (intro divide_left_mono) (auto simp flip: of_nat_less_iff)
    ultimately have "?x < real (passratio s t) + 1 + 1 / real t" by linarith
    then have "real (100 * s) < real ((passratio s t + 1) * t + 1)" using t by (simp add: field_simps)
    then show ?thesis using of_nat_less_iff by linarith
  qed
qed

section \<open>Evaluation\<close>

text \<open>The same computation on integers, whose arithmetic is binary when it is evaluated.\<close>

fun nbits_int :: "int \<Rightarrow> nat" where
  "nbits_int n = (if n \<le> 0 then 0 else Suc (nbits_int (n div 2)))"

declare nbits_int.simps [simp del]

definition round_int :: "int \<Rightarrow> int \<Rightarrow> int" where
  "round_int a b =
     (let q = a div b; r = a mod b
      in if 2 * r < b \<or> (2 * r = b \<and> even q) then q else q + 1)"

definition float_int :: "int \<Rightarrow> int \<Rightarrow> int \<times> nat" where
  "float_int n d =
     (let k0 = 53 + nbits_int d - nbits_int n;
          k = (if n * 2 ^ k0 div d < 2 ^ 53 then k0 else k0 - 1)
      in (round_int (n * 2 ^ k) d, k))"

lemma nbits_int: "nbits_int (int n) = nbits n"
proof (induction n rule: nbits.induct)
  case (1 n)
  have "int n div 2 = int (n div 2)" by (simp add: zdiv_int)
  with 1 show ?case by (subst nbits_int.simps, subst nbits.simps) simp
qed

lemma round_int: "round_int (int a) (int b) = int (round_half_even a b)"
proof -
  have h: "2 * int (a mod b) < int b \<longleftrightarrow> 2 * (a mod b) < b" "2 * int (a mod b) = int b \<longleftrightarrow> 2 * (a mod b) = b"
    by linarith+
  show ?thesis
    unfolding round_int_def round_half_even_def Let_def
    unfolding zdiv_int [symmetric] zmod_int [symmetric] h by simp
qed

lemma float_int: "float_of n d = (m, k) \<Longrightarrow> float_int (int n) (int d) = (int m, k)"
proof -
  assume f: "float_of n d = (m, k)"
  have p: "int n * 2 ^ j = int (n * 2 ^ j)" for j by simp
  have l: "int x < 2 ^ 53 \<longleftrightarrow> x < 2 ^ 53" for x
    using of_nat_less_iff [of x "2 ^ 53", where ?'a = int] by simp
  show ?thesis
    using f unfolding float_int_def float_of_def nbits_int Let_def p round_int
    unfolding zdiv_int [symmetric] l by (simp only: prod.inject) auto
qed

lemma passratio_code [code]:
  "passratio s t =
     (if s = 0 then 0
      else (case float_int (int s) (int t) of (m, k) \<Rightarrow>
              (case float_int (100 * m) (2 ^ k) of (m2, k2) \<Rightarrow> nat (m2 div 2 ^ k2))))"
proof -
  obtain m k where f: "float_of s t = (m, k)" by fastforce
  obtain m2 k2 where g: "float_of (100 * m) (2 ^ k) = (m2, k2)" by fastforce
  have "float_int (100 * int m) (2 ^ k) = (int m2, k2)" using float_int [OF g] by simp
  then show ?thesis by (simp add: passratio_def f g float_int [OF f] nat_div_distrib nat_power_eq)
qed

end
