(* ===== verification/Report.thy ===== *)
theory Report
  imports TestPlans Floats
begin

text \<open>
  The report service (\<^verbatim>\<open>nova/reportrpc.py\<close>): the conductor opens one server per test case
  and waits until its finish flag has counted down; an agent reports each step with
  \<^verbatim>\<open>RPCClient.result\<close> (\<^verbatim>\<open>nova/compute/rpclient.py\<close>). A report stores the step's status
  in the plan's result table and recomputes the plan's summary.
\<close>

record report_server =
  finish_flag :: int
  plan_id :: int
  case_id :: string
  description :: string

section \<open>The summary of a result table\<close>

text \<open>
  Only a key that \<^verbatim>\<open>int()\<close> reads as a machine integer counts as a test case: a Python 2
  \<^verbatim>\<open>long\<close> is not an instance of \<^verbatim>\<open>int\<close>, and a key that is not a number is skipped.
\<close>

definition counted_key :: "string \<Rightarrow> bool" where
  "counted_key k =
     (case int_of_string k of
        None \<Rightarrow> False
      | Some n \<Rightarrow> - (2 ^ 63) \<le> n \<and> n < 2 ^ 63)"

fun step_failed :: "pyval \<Rightarrow> bool" where
  "step_failed (PDict d) = (\<exists>(k, v) \<in> set d. v = PStr ''FAIL'')"
| "step_failed _ = False"

fun summary :: "pydict \<Rightarrow> nat \<times> nat \<times> nat" where
  "summary [] = (0, 0, 0)"
| "summary ((key, value) # template) =
     (case summary template of
        (n, failure, sucessfully) \<Rightarrow>
          if counted_key key
          then (if step_failed value then (n + 1, failure + 1, sucessfully)
                else (n + 1, failure, sucessfully + 1))
          else (n, failure, sucessfully))"

section \<open>Recording a report\<close>

definition as_text :: "pyval \<Rightarrow> string result" where
  "as_text v = (case v of PStr s \<Rightarrow> Inr s | _ \<Rightarrow> Inl TypeError)"

text \<open>\<^verbatim>\<open>res[CaseId][description] = status\<close>.\<close>

definition record_status :: "report_server \<Rightarrow> pyval \<Rightarrow> pyval \<Rightarrow> pyval result" where
  "record_status sv status res =
     bind_r (get_item (case_id sv) res) (\<lambda>steps.
     bind_r (set_item (description sv) status steps) (\<lambda>steps'.
     set_item (case_id sv) steps' res))"

text \<open>The four entries of the summary; \<^verbatim>\<open>float(0)\<close> as divisor raises.\<close>

fun summarise :: "pyval \<Rightarrow> pyval \<Rightarrow> pyval result" where
  "summarise (PDict res) old =
     (case summary res of
        (n, failure, sucessfully) \<Rightarrow>
          bind_r (set_item ''total'' (PInt (int n)) old) (\<lambda>s1.
          bind_r (set_item ''failure'' (PInt (int failure)) s1) (\<lambda>s2.
          bind_r (set_item ''sucessfully'' (PInt (int sucessfully)) s2) (\<lambda>s3.
          if n = 0 then Inl ZeroDivisionError
          else set_item ''passratio'' (PInt (int (passratio sucessfully n))) s3))))"
| "summarise _ old = Inl AttributeError"

text \<open>What \<^verbatim>\<open>report_result\<close> computes from the loaded plan, up to the save.\<close>

definition report_plan :: "ovo_env \<Rightarrow> report_server \<Rightarrow> pyval \<Rightarrow> pyval \<Rightarrow> vobj \<Rightarrow> vobj result" where
  "report_plan E sv status out plan =
     bind_r (bind_r (obj_get testplan_fields ''result'' plan) as_text) (\<lambda>rt.
     bind_r (json_loads rt) (\<lambda>res0.
     bind_r (record_status sv status res0) (\<lambda>res.
     bind_r (bind_r (obj_get testplan_fields ''message'' plan) as_text) (\<lambda>m.
     bind_r (as_text out) (\<lambda>o1.
     bind_r (obj_set E testplan_fields ''message'' (PStr (m @ o1)) plan) (\<lambda>p1.
     bind_r (bind_r (obj_get testplan_fields ''summary'' p1) as_text) (\<lambda>st.
     bind_r (json_loads st) (\<lambda>sum0.
     bind_r (summarise res sum0) (\<lambda>sum.
     bind_r (json_dumps sum) (\<lambda>sumt.
     bind_r (obj_set E testplan_fields ''summary'' (PStr sumt) p1) (\<lambda>p2.
     bind_r (json_dumps res) (\<lambda>rest.
     obj_set E testplan_fields ''result'' (PStr rest) p2))))))))))))"

definition report_result ::
  "request_env \<Rightarrow> report_server \<Rightarrow> pyval \<Rightarrow> pyval \<Rightarrow> sysdb \<Rightarrow> unit result \<times> sysdb" where
  "report_result R sv status out d =
     (case bind_r (TestPlan_get_by_id (renv R) (rd R) d (plan_id sv)) (report_plan (renv R) sv status out) of
        Inl e \<Rightarrow> (Inl e, d)
      | Inr plan \<Rightarrow>
          (case TestPlan_save (renv R) (rd R) (now R) plan d of
             (Inl e, d1) \<Rightarrow> (Inl e, d1)
           | (Inr p, d1) \<Rightarrow> (Inr (), d1)))"

text \<open>
  The endpoint. The flag counts down first, whatever happens afterwards; a report without
  a status counts but is not stored.
\<close>

definition ReportRPCAPI_result ::
  "request_env \<Rightarrow> pyval \<Rightarrow> report_server \<times> sysdb \<Rightarrow> unit result \<times> (report_server \<times> sysdb)" where
  "ReportRPCAPI_result R arg st =
     (case st of (sv0, d) \<Rightarrow>
        (let sv = sv0\<lparr>finish_flag := finish_flag sv0 - 1\<rparr> in
         case arg of
           PDict a \<Rightarrow>
             (let status = dgetd a ''status'' PNone; out = dgetd a ''out'' PNone in
              if truthy status
              then (case report_result R sv status out d of (r, d1) \<Rightarrow> (r, (sv, d1)))
              else (Inr (), (sv, d)))
         | _ \<Rightarrow> (Inl AttributeError, (sv, d))))"

section \<open>The agent's side\<close>

text \<open>
  \<^verbatim>\<open>RPCClient.result\<close> is a blocking call with a timeout. \<open>link\<close> is the transport: the
  answer of the call it was given, or a messaging timeout, which the client swallows. Any
  other error of the server comes back as a remote exception.
\<close>

definition report_arg :: "string \<Rightarrow> pyval \<Rightarrow> pyval \<Rightarrow> pyval \<Rightarrow> pyval" where
  "report_arg method out status stepid =
     PDict [(''method'', PStr method), (''out'', out), (''status'', status), (''stepid'', stepid)]"

definition RPCClient_result ::
  "(pyval \<Rightarrow> 's \<Rightarrow> unit result \<times> 's) \<Rightarrow> string \<Rightarrow> pyval \<Rightarrow> pyval \<Rightarrow> pyval \<Rightarrow> 's \<Rightarrow> unit result \<times> 's" where
  "RPCClient_result link method out status stepid s =
     (case link (report_arg method out status stepid) s of
        (Inl MessagingTimeout, s1) \<Rightarrow> (Inr (), s1)
      | r \<Rightarrow> r)"

section \<open>Lemmas\<close>

text \<open>The counters of a summary, as counts over the table: they do not depend on its order.\<close>

lemma summary_counts:
  "summary res = (n, f, g) \<Longrightarrow>
   n = length (filter (\<lambda>(k, v). counted_key k) res) \<and>
   f = length (filter (\<lambda>(k, v). counted_key k \<and> step_failed v) res) \<and> n = f + g"
  by (induction res arbitrary: n f g rule: summary.induct) (auto split: prod.splits if_splits)

lemma record_status_Inr:
  assumes "record_status sv status res = Inr res'"
  obtains d steps where "res = PDict d" "dget d (case_id sv) = Some (PDict steps)"
    "res' = PDict (dset (case_id sv) (PDict (dset (description sv) status steps)) d)"
  using assms by (cases res) (auto simp: record_status_def result_simps elim!: set_item.elims)

lemma json_ok_dset: "json_ok (PDict d) \<Longrightarrow> json_ok v \<Longrightarrow> json_ok (PDict (dset k v d))"
  by (auto dest: set_dset)

lemma json_ok_record:
  "json_ok (PDict d) \<Longrightarrow> dget d k = Some (PDict e) \<Longrightarrow> json_ok v \<Longrightarrow>
   json_ok (PDict (dset k (PDict (dset j v e)) d))"
proof -
  assume d: "json_ok (PDict d)" and e: "dget d k = Some (PDict e)" and v: "json_ok v"
  from map_of_SomeD [OF e] d have "json_ok (snd (k, PDict e))" by fastforce
  then have "json_ok (PDict (dset j v e))" using v by (intro json_ok_dset) simp_all
  with d show ?thesis by (rule json_ok_dset)
qed

lemma json_reload: "json_ok v \<Longrightarrow> json_dumps v = Inr t \<Longrightarrow> json_loads t = Inr v"
  by (auto simp: json_dumps_ok json_loads_dumps)

lemma summarise_Inr:
  assumes "summarise (PDict res) old = Inr new"
  obtains d n f g where "old = PDict d" "summary res = (n, f, g)" "0 < n"
    "new = PDict (dset ''passratio'' (PInt (int (passratio g n))) (dset ''sucessfully'' (PInt (int g))
       (dset ''failure'' (PInt (int f)) (dset ''total'' (PInt (int n)) d))))"
  using assms by (cases old) (auto split: prod.splits if_splits)

lemma passratio_bound: "g \<le> n \<Longrightarrow> 0 < n \<Longrightarrow> n < 2 ^ 45 \<Longrightarrow> passratio g n \<le> 100 * g div n"
  by (cases "g = 0") (simp_all add: passratio_def [of 0] passratio_close)

text \<open>The object a report saves: three attributes changed, each from the one before.\<close>

lemma report_plan_Inr:
  assumes "report_plan E sv status out p0 = Inr p1"
  obtains rt0 d0 steps m o1 st0 s0 n f g rt1 st1 where
    "obj_get testplan_fields ''result'' p0 = Inr (PStr rt0)" "json_loads rt0 = Inr (PDict d0)"
    "dget d0 (case_id sv) = Some (PDict steps)"
    "obj_get testplan_fields ''message'' p0 = Inr (PStr m)" "out = PStr o1"
    "obj_get testplan_fields ''summary'' p0 = Inr (PStr st0)" "json_loads st0 = Inr (PDict s0)"
    "summary (dset (case_id sv) (PDict (dset (description sv) status steps)) d0) = (n, f, g)" "0 < n"
    "json_dumps (PDict (dset (case_id sv) (PDict (dset (description sv) status steps)) d0)) = Inr rt1"
    "json_dumps (PDict (dset ''passratio'' (PInt (int (passratio g n))) (dset ''sucessfully'' (PInt (int g))
       (dset ''failure'' (PInt (int f)) (dset ''total'' (PInt (int n)) s0))))) = Inr st1"
    "attrs p1 = dset ''result'' (PStr rt1) (dset ''summary'' (PStr st1)
       (dset ''message'' (PStr (m @ o1)) (attrs p0)))"
    "changed p1 = List.insert ''result'' (List.insert ''summary'' (List.insert ''message'' (changed p0)))"
    "has_context p1 = has_context p0"
proof -
  note fld = testplan_field(4-6)
  have at: "as_text v = Inr s \<longleftrightarrow> v = PStr s" for v s by (cases v) (auto simp: as_text_def)
  let ?p1 = "\<lambda>x. p0\<lparr>attrs := dset ''message'' (PStr x) (attrs p0),
    changed := List.insert ''message'' (changed p0)\<rparr>"
  from assms obtain rt0 res0 res m o1 st0 sum0 sum st1 rt1 where c:
    "obj_get testplan_fields ''result'' p0 = Inr (PStr rt0)" "json_loads rt0 = Inr res0"
    "record_status sv status res0 = Inr res"
    "obj_get testplan_fields ''message'' p0 = Inr (PStr m)" "out = PStr o1"
    "obj_get testplan_fields ''summary'' (?p1 (m @ o1)) = Inr (PStr st0)" "json_loads st0 = Inr sum0"
    "summarise res sum0 = Inr sum" "json_dumps sum = Inr st1" "json_dumps res = Inr rt1"
    "obj_set E testplan_fields ''result'' (PStr rt1) ((?p1 (m @ o1))\<lparr>
       attrs := dset ''summary'' (PStr st1) (attrs (?p1 (m @ o1))),
       changed := List.insert ''summary'' (changed (?p1 (m @ o1)))\<rparr>) = Inr p1"
    unfolding report_plan_def by (auto simp: result_simps at obj_set_text fld)
  obtain d0 steps where r: "res0 = PDict d0" "dget d0 (case_id sv) = Some (PDict steps)"
    "res = PDict (dset (case_id sv) (PDict (dset (description sv) status steps)) d0)"
    using c(3) by (rule record_status_Inr)
  obtain s0 n f g where s: "sum0 = PDict s0"
    "summary (dset (case_id sv) (PDict (dset (description sv) status steps)) d0) = (n, f, g)" "0 < n"
    "sum = PDict (dset ''passratio'' (PInt (int (passratio g n))) (dset ''sucessfully'' (PInt (int g))
       (dset ''failure'' (PInt (int f)) (dset ''total'' (PInt (int n)) s0))))"
    using c(8) [unfolded r(3)] by (rule summarise_Inr)
  have sm: "obj_get testplan_fields ''summary'' p0 = Inr (PStr st0)"
    using c(6) by (auto simp: obj_get_def split: option.splits)
  show thesis
    by (rule that [OF c(1) c(2) [unfolded r(1)] r(2) c(4,5) sm c(7) [unfolded s(1)] s(2,3)
          c(10) [unfolded r(3)] c(9) [unfolded s(4)]])
      (use c(11) in \<open>auto simp: obj_set_text fld\<close>)
qed

text \<open>What a save leaves of the tables: one row is replaced, in the columns that changed.\<close>

lemma TestPlan_save_frame:
  assumes "vobj_ok testplan_fields o1" "dget (attrs o1) ''id'' = Some (PInt i)"
    and "TestPlan_save E ''no'' t o1 d = (Inr o2, d1)"
  shows "\<exists>r0 r1. testplan_get ''no'' d i = Inr r0 \<and>
    d1 = d\<lparr>plans := (plans d)\<lparr>rows := map (\<lambda>s. if has_id i s then r1 else s) (rows (plans d))\<rparr>\<rparr> \<and>
    (\<forall>k. k \<notin> set (changed o1) \<and> k \<noteq> ''updated_at'' \<longrightarrow> dget r1 k = dget r0 k)"
proof -
  have idf: "dhas testplan_fields ''id''" using testplan_field(1) by (simp add: dhas_def)
  from assms(3) have ctx: "has_context o1"
    by (auto simp: TestPlan_save_def persist_save_def save_values_def remotable_def split: if_splits)
  obtain u where u: "save_values testplan_fields o1 = Inr (u, i)" "\<not> dhas u ''id''"
    "\<forall>k. k \<noteq> ''id'' \<longrightarrow> dget u k = (if k \<in> set (changed o1) then dget (attrs o1) k else None)"
    using save_values_ok [OF assms(1) ctx idf assms(2)] by blast
  from assms(3) u(1) obtain r1 t1 where up: "table_update plan_unique ''no'' (case_not_found i) t i u (plans d) = Inr (r1, t1)"
    "d1 = d\<lparr>plans := t1\<rparr>"
    by (auto simp: TestPlan_save_def persist_save_def testplan_update_def result_simps split: sum.splits prod.splits)
  from up(1) obtain r0 where r0: "first_by_id ''no'' (case_not_found i) (plans d) i = Inr r0" "r1 = row_write t u r0"
    "t1 = (plans d)\<lparr>rows := map (\<lambda>s. if has_id i s then r1 else s) (rows (plans d))\<rparr>"
    by (rule table_update_cases)
  have "dget r1 k = dget r0 k" if "k \<notin> set (changed o1) \<and> k \<noteq> ''updated_at''" for k
    unfolding r0(2)
  proof (rule row_write_absent)
    show "\<not> dhas u k" using that u(2,3) by (cases "k = ''id''") (auto simp: dhas_def)
  qed (use that in simp)
  with r0 up(2) show ?thesis by (auto simp: testplan_get_def)
qed

text \<open>A report that runs to its end, from the loaded plan to the saved one.\<close>

lemma report_result_Inr:
  assumes "report_result R sv status out d = (Inr (), d1)" "rd R = ''no''" "sysdb_ok d"
  obtains p0 p1 p2 r0 r1 where "TestPlan_get_by_id (renv R) ''no'' d (plan_id sv) = Inr p0"
    "report_plan (renv R) sv status out p0 = Inr p1"
    "TestPlan_get_by_id (renv R) ''no'' d1 (plan_id sv) = Inr p2" "sysdb_ok d1"
    "\<And>k. k \<in> {''result'', ''summary'', ''message''} \<Longrightarrow>
       obj_get testplan_fields k p2 = obj_get testplan_fields k p1"
    "\<forall>j. j \<noteq> plan_id sv \<longrightarrow> testplan_get ''no'' d1 j = testplan_get ''no'' d j"
    "testplan_get ''no'' d (plan_id sv) = Inr r0"
    "d1 = d\<lparr>plans := (plans d)\<lparr>rows := map (\<lambda>s. if has_id (plan_id sv) s then r1 else s) (rows (plans d))\<rparr>\<rparr>"
    "\<forall>k. k \<notin> {''result'', ''summary'', ''message'', ''updated_at''} \<longrightarrow> dget r1 k = dget r0 k"
proof -
  from assms(1,2) obtain p0 p1 q where c: "TestPlan_get_by_id (renv R) ''no'' d (plan_id sv) = Inr p0"
    "report_plan (renv R) sv status out p0 = Inr p1"
    "TestPlan_save (renv R) ''no'' (now R) p1 d = (Inr q, d1)"
    by (auto simp: report_result_def result_simps split: sum.splits prod.splits)
  note l = TestPlan_loaded [OF assms(3) c(1)]
  from c(2) have a: "vobj_ok testplan_fields p1 \<and> dget (attrs p1) ''id'' = Some (PInt (plan_id sv)) \<and>
      set (changed p1) = {''result'', ''summary'', ''message''}"
  proof (rule report_plan_Inr)
    fix rt1 st1 m o1
    assume at: "attrs p1 = dset ''result'' (PStr rt1) (dset ''summary'' (PStr st1)
        (dset ''message'' (PStr (m @ o1)) (attrs p0)))"
      and ch: "changed p1 = List.insert ''result'' (List.insert ''summary'' (List.insert ''message'' (changed p0)))"
      and cx: "has_context p1 = has_context p0"
    let ?w = "\<lambda>k v o1. o1\<lparr>attrs := dset k (PStr v) (attrs o1), changed := List.insert k (changed o1)\<rparr>"
    have fv: "field_value_ok (plain_field FString) (PStr x)" for x
      by (simp add: field_value_ok_def plain_field_def)
    have "vobj_ok testplan_fields (?w ''result'' rt1 (?w ''summary'' st1 (?w ''message'' (m @ o1) p0)))"
      by (rule vobj_ok_write [OF vobj_ok_write [OF vobj_ok_write [OF _ testplan_field(4) fv]
            testplan_field(6) fv] testplan_field(5) fv]) (simp add: l)
    also have "?w ''result'' rt1 (?w ''summary'' st1 (?w ''message'' (m @ o1) p0)) = p1"
      using at ch cx by simp
    finally show ?thesis using l at ch by simp
  qed
  then have v: "vobj_ok testplan_fields p1" "''deleted'' \<notin> set (changed p1)"
      "dget (attrs p1) ''id'' = Some (PInt (plan_id sv))" by auto
  obtain p2 where r: "TestPlan_get_by_id (renv R) ''no'' d1 (plan_id sv) = Inr p2" "sysdb_ok d1"
    "\<forall>k \<in> set (changed p1). k \<notin> set automatic_columns \<longrightarrow> k \<noteq> ''id'' \<longrightarrow>
       obj_get testplan_fields k p2 = obj_get testplan_fields k p1"
    "\<forall>j. j \<noteq> plan_id sv \<longrightarrow> testplan_get ''no'' d1 j = testplan_get ''no'' d j"
    using plan_rows.save_then_get [OF assms(3) v(1) testplan_fields_ok v(2) testplan_field(1) v(3)
        c(3) [unfolded TestPlan_save_def], folded TestPlan_get_by_id_def]
    by (elim exE conjE) (rule that)
  have same: "obj_get testplan_fields k p2 = obj_get testplan_fields k p1"
    if "k \<in> {''result'', ''summary'', ''message''}" for k
    using r(3) that a by (auto simp: automatic_columns_def)
  obtain r0 r1 where f: "testplan_get ''no'' d (plan_id sv) = Inr r0"
    "d1 = d\<lparr>plans := (plans d)\<lparr>rows := map (\<lambda>s. if has_id (plan_id sv) s then r1 else s) (rows (plans d))\<rparr>\<rparr>"
    "\<forall>k. k \<notin> set (changed p1) \<and> k \<noteq> ''updated_at'' \<longrightarrow> dget r1 k = dget r0 k"
    using TestPlan_save_frame [OF v(1,3) c(3)] by blast
  have "\<forall>k. k \<notin> {''result'', ''summary'', ''message'', ''updated_at''} \<longrightarrow> dget r1 k = dget r0 k"
    using f(3) a by auto
  with f(1,2) show thesis using that [OF c(1,2) r(1,2) same r(4)] by blast
qed

section \<open>Properties\<close>

text \<open>
  C1: a report with a status that is accepted changes exactly what it should. In the plan as
  it reads back afterwards, the result table is the old one with this case's step set to
  the status; the message is the old one followed by the output; the summary counts the
  cases of the new table, with total = failures + successes, and its pass ratio is at most
  the true percentage; the finish flag went down by one. Nothing else changed: the tables are
  those before with the row of the plan replaced, the new row differs from the old one only in these
  three columns and the time of its update, and every other plan reads back as before.
\<close>

theorem report_records:
  assumes "ReportRPCAPI_result R (PDict a) (sv, d) = (Inr (), (sv1, d1))"
    and "dget a ''status'' = Some status" "truthy status" "json_ok status"
    and "rd R = ''no''" "sysdb_ok d"
  shows "\<exists>p0 p1 rt0 rt1 d0 steps m o1 st1 s1 n f g r0 r1.
    TestPlan_get_by_id (renv R) ''no'' d (plan_id sv) = Inr p0 \<and>
    TestPlan_get_by_id (renv R) ''no'' d1 (plan_id sv) = Inr p1 \<and>
    obj_get testplan_fields ''result'' p0 = Inr (PStr rt0) \<and> json_loads rt0 = Inr (PDict d0) \<and>
    dget d0 (case_id sv) = Some (PDict steps) \<and>
    obj_get testplan_fields ''result'' p1 = Inr (PStr rt1) \<and>
    json_loads rt1 =
      Inr (PDict (dset (case_id sv) (PDict (dset (description sv) status steps)) d0)) \<and>
    obj_get testplan_fields ''message'' p0 = Inr (PStr m) \<and> dget a ''out'' = Some (PStr o1) \<and>
    obj_get testplan_fields ''message'' p1 = Inr (PStr (m @ o1)) \<and>
    obj_get testplan_fields ''summary'' p1 = Inr (PStr st1) \<and> json_loads st1 = Inr (PDict s1) \<and>
    summary (dset (case_id sv) (PDict (dset (description sv) status steps)) d0) = (n, f, g) \<and>
    dget s1 ''total'' = Some (PInt (int n)) \<and> dget s1 ''failure'' = Some (PInt (int f)) \<and>
    dget s1 ''sucessfully'' = Some (PInt (int g)) \<and> n = f + g \<and>
    dget s1 ''passratio'' = Some (PInt (int (passratio g n))) \<and>
    sv1 = sv\<lparr>finish_flag := finish_flag sv - 1\<rparr> \<and> sysdb_ok d1 \<and>
    testplan_get ''no'' d (plan_id sv) = Inr r0 \<and>
    d1 = d\<lparr>plans := (plans d)\<lparr>rows := map (\<lambda>s. if has_id (plan_id sv) s then r1 else s) (rows (plans d))\<rparr>\<rparr> \<and>
    (\<forall>k. k \<notin> {''result'', ''summary'', ''message'', ''updated_at''} \<longrightarrow> dget r1 k = dget r0 k) \<and>
    (\<forall>j. j \<noteq> plan_id sv \<longrightarrow> testplan_get ''no'' d1 j = testplan_get ''no'' d j)"
proof -
  let ?sv = "sv\<lparr>finish_flag := finish_flag sv - 1\<rparr>"
  from assms(1-3) have run: "report_result R ?sv status (dgetd a ''out'' PNone) d = (Inr (), d1)"
    and sv1: "sv1 = ?sv"
    by (auto simp: ReportRPCAPI_result_def Let_def dgetd_def [of a "''status''"] split: prod.splits)
  obtain p0 p1 p2 r0 r1 where p: "TestPlan_get_by_id (renv R) ''no'' d (plan_id ?sv) = Inr p0"
    "report_plan (renv R) ?sv status (dgetd a ''out'' PNone) p0 = Inr p1"
    "TestPlan_get_by_id (renv R) ''no'' d1 (plan_id ?sv) = Inr p2" "sysdb_ok d1"
    "\<And>k. k \<in> {''result'', ''summary'', ''message''} \<Longrightarrow>
       obj_get testplan_fields k p2 = obj_get testplan_fields k p1"
    "\<forall>j. j \<noteq> plan_id ?sv \<longrightarrow> testplan_get ''no'' d1 j = testplan_get ''no'' d j"
    "testplan_get ''no'' d (plan_id ?sv) = Inr r0"
    "d1 = d\<lparr>plans := (plans d)\<lparr>rows := map (\<lambda>s. if has_id (plan_id ?sv) s then r1 else s) (rows (plans d))\<rparr>\<rparr>"
    "\<forall>k. k \<notin> {''result'', ''summary'', ''message'', ''updated_at''} \<longrightarrow> dget r1 k = dget r0 k"
    by (rule report_result_Inr [OF run assms(5,6)]) blast
  obtain rt0 d0 steps m o1 st0 s0 n f g rt1 st1 where
    q: "obj_get testplan_fields ''result'' p0 = Inr (PStr rt0)" "json_loads rt0 = Inr (PDict d0)"
    "dget d0 (case_id sv) = Some (PDict steps)"
    "obj_get testplan_fields ''message'' p0 = Inr (PStr m)" "dgetd a ''out'' PNone = PStr o1"
    "json_loads st0 = Inr (PDict s0)"
    "summary (dset (case_id sv) (PDict (dset (description sv) status steps)) d0) = (n, f, g)"
    "json_dumps (PDict (dset (case_id sv) (PDict (dset (description sv) status steps)) d0)) = Inr rt1"
    "json_dumps (PDict (dset ''passratio'' (PInt (int (passratio g n))) (dset ''sucessfully'' (PInt (int g))
       (dset ''failure'' (PInt (int f)) (dset ''total'' (PInt (int n)) s0))))) = Inr st1"
    "attrs p1 = dset ''result'' (PStr rt1) (dset ''summary'' (PStr st1)
       (dset ''message'' (PStr (m @ o1)) (attrs p0)))"
    using p(2) by (rule report_plan_Inr) (rule that, simp_all)
  have new: "obj_get testplan_fields ''result'' p2 = Inr (PStr rt1)"
      "obj_get testplan_fields ''message'' p2 = Inr (PStr (m @ o1))"
      "obj_get testplan_fields ''summary'' p2 = Inr (PStr st1)"
    by (subst p(5); simp add: obj_get_def q(10))+
  have "json_ok (PDict d0)" by (rule json_loads_ok [OF q(2)])
  then have "json_ok (PDict (dset (case_id sv) (PDict (dset (description sv) status steps)) d0))"
    using q(3) assms(4) by (rule json_ok_record)
  then have l1: "json_loads rt1 = Inr (PDict (dset (case_id sv) (PDict (dset (description sv) status steps)) d0))"
    by (rule json_reload [OF _ q(8)])
  have "json_ok (PDict s0)" by (rule json_loads_ok [OF q(6)])
  then have "json_ok (PDict (dset ''passratio'' (PInt (int (passratio g n))) (dset ''sucessfully'' (PInt (int g))
       (dset ''failure'' (PInt (int f)) (dset ''total'' (PInt (int n)) s0)))))"
    by (intro json_ok_dset) simp_all
  from json_reload [OF this q(9)] have l2: "json_loads st1 = Inr (PDict (dset ''passratio'' (PInt (int (passratio g n)))
      (dset ''sucessfully'' (PInt (int g)) (dset ''failure'' (PInt (int f)) (dset ''total'' (PInt (int n)) s0)))))" .
  have o: "dget a ''out'' = Some (PStr o1)" using q(5) by (simp add: dgetd_def split: option.splits)
  have nfg: "n = f + g" using summary_counts [OF q(7)] by simp
  have fr: "testplan_get ''no'' d (plan_id sv) = Inr r0"
    "d1 = d\<lparr>plans := (plans d)\<lparr>rows := map (\<lambda>s. if has_id (plan_id sv) s then r1 else s) (rows (plans d))\<rparr>\<rparr>"
    using p(7,8) by simp_all
  show ?thesis
    by (intro exI conjI, (simp add: nfg; fail | rule p(1) [simplified] p(3) [simplified] q(1-4) new l1 l2 o q(7) nfg sv1 p(4) p(6) [simplified]
          fr p(9))+)
qed

text \<open>A stored plan with one case of one step, whose result is still empty.\<close>

definition quote :: "string \<Rightarrow> string" where
  "quote s = CHR 0x22 # s @ [CHR 0x22]"

definition sample_plan_row :: row where
  "sample_plan_row = dset ''id'' (PInt 1) (dset ''result''
     (PStr (''{'' @ quote ''1'' @ '': {'' @ quote ''s'' @ '': null}}''))
     (dset ''uuid'' (PStr ''u-1'') (plan_defaults (PDate ''t1'' False))))"

definition sample_db :: sysdb where
  "sample_db = \<lparr>plans = \<lparr>rows = [sample_plan_row], next_id = 2\<rparr>, cases = empty_table, nodes = empty_table\<rparr>"

definition sample_server :: report_server where
  "sample_server = \<lparr>finish_flag = 1, plan_id = 1, case_id = ''1'', description = ''s''\<rparr>"

lemma sample_db_ok: "sysdb_ok sample_db"
  by (simp add: sysdb_ok_def sample_db_def table_ok_empty)
     (simp add: table_ok_def sample_plan_row_def row_id_def)

theorem report_records_witness:
  "\<exists>d1 p1 st1 s1. TestPlan_get_by_id sample_ovo ''no'' d1 1 = Inr p1 \<and>
    obj_get testplan_fields ''summary'' p1 = Inr (PStr st1) \<and> json_loads st1 = Inr (PDict s1) \<and>
    dget s1 ''passratio'' = Some (PInt 100)"
proof -
  let ?run = "ReportRPCAPI_result sample_request (PDict [(''status'', PStr ''PASS''), (''out'', PStr ''ok'')])
    (sample_server, sample_db)"
  have run: "?run = (Inr (), (fst (snd ?run), snd (snd ?run)))"
    by (rule prod_eqI) (simp_all, code_simp)
  have r: "rd sample_request = ''no''" "renv sample_request = sample_ovo" "plan_id sample_server = 1"
      "case_id sample_server = ''1''" "description sample_server = ''s''"
    by (simp_all add: sample_request_def sample_server_def)
  from report_records [OF run _ _ _ r(1) sample_db_ok]
  obtain p1 st1 s1 d0 steps n f g where
    w: "TestPlan_get_by_id sample_ovo ''no'' (snd (snd ?run)) 1 = Inr p1"
      "obj_get testplan_fields ''summary'' p1 = Inr (PStr st1)" "json_loads st1 = Inr (PDict s1)"
      "dget s1 ''passratio'' = Some (PInt (int (passratio g n)))"
    unfolding r by fastforce
  have "json_loads (case obj_get testplan_fields ''summary'' (projr (TestPlan_get_by_id sample_ovo ''no'' (snd (snd ?run)) 1))
       of Inr (PStr t) \<Rightarrow> t | _ \<Rightarrow> []) =
     Inr (PDict [(''total'', PInt 1), (''failure'', PInt 0), (''sucessfully'', PInt 1), (''passratio'', PInt 100)])"
    by code_simp
  with w have "s1 = [(''total'', PInt 1), (''failure'', PInt 0), (''sucessfully'', PInt 1), (''passratio'', PInt 100)]"
    by simp
  moreover have "dget [(''total'', PInt 1), (''failure'', PInt 0), (''sucessfully'', PInt 1), (''passratio'', PInt 100)]
      ''passratio'' = Some (PInt 100)" by code_simp
  ultimately have "dget s1 ''passratio'' = Some (PInt 100)" by simp
  with w(1-3) show ?thesis by blast
qed

text \<open>
  The countdown is unconditional. Whatever the report contains and whether or not it
  can be stored, the server's flag goes down by exactly one and its other fields stay; a
  report without a status changes nothing else, and one that fails before the plan is
  saved leaves the database as it was.
\<close>

theorem report_countdown:
  "fst (snd (ReportRPCAPI_result R arg (sv, d))) = sv\<lparr>finish_flag := finish_flag sv - 1\<rparr> \<and>
   (case arg of
      PDict a \<Rightarrow>
        if \<not> truthy (dgetd a ''status'' PNone)
        then fst (ReportRPCAPI_result R arg (sv, d)) = Inr () \<and>
          snd (snd (ReportRPCAPI_result R arg (sv, d))) = d
        else (case bind_r (TestPlan_get_by_id (renv R) (rd R) d (plan_id sv))
                 (report_plan (renv R) (sv\<lparr>finish_flag := finish_flag sv - 1\<rparr>)
                    (dgetd a ''status'' PNone) (dgetd a ''out'' PNone)) of
                Inl e \<Rightarrow> fst (ReportRPCAPI_result R arg (sv, d)) = Inl e \<and>
                  snd (snd (ReportRPCAPI_result R arg (sv, d))) = d
              | Inr p \<Rightarrow> True)
    | _ \<Rightarrow> fst (ReportRPCAPI_result R arg (sv, d)) = Inl AttributeError \<and>
        snd (snd (ReportRPCAPI_result R arg (sv, d))) = d)"
  by (cases arg)
    (auto simp: ReportRPCAPI_result_def report_result_def Let_def split: prod.splits sum.splits)

text \<open>
  C39: below 2^45 counted cases, the stored pass ratio never exceeds the true percentage 100 g / n,
  is at most one below it, and so at most one below its whole part, and is 100 exactly when every
  counted case passed.
\<close>

theorem passratio_faithful:
  assumes "summary res = (n, f, g)" "0 < n" "n < 2 ^ 45"
  shows "passratio g n * n \<le> 100 * g \<and> 100 * g \<le> (passratio g n + 1) * n \<and>
    passratio g n \<le> 100 * g div n \<and> 100 * g div n \<le> passratio g n + 1 \<and>
    (passratio g n = 100 \<longleftrightarrow> (\<forall>(k, v) \<in> set res. counted_key k \<longrightarrow> \<not> step_failed v))"
proof -
  note c = summary_counts [OF assms(1)]
  have gn: "g \<le> n" using conjunct2 [OF conjunct2 [OF c]] by linarith
  have close: "passratio g n \<le> 100 * g div n" "100 * g div n \<le> passratio g n + 1"
    "100 * g \<le> (passratio g n + 1) * n"
    using passratio_close [OF _ gn assms(3)] by (cases "g = 0"; simp add: passratio_def [of 0])+
  have "passratio g n * n \<le> 100 * g"
    using close(1) mult_le_mono1 [of "passratio g n" "100 * g div n" n] div_times_less_eq_dividend [of "100 * g" n]
    by linarith
  have "passratio g n = 100 \<longleftrightarrow> f = 0"
  proof
    assume p: "passratio g n = 100"
    show "f = 0"
    proof (rule ccontr)
      assume "f \<noteq> 0"
      then have "100 * g < 100 * n" using conjunct2 [OF conjunct2 [OF c]] by linarith
      then have "100 * g div n < 100" using assms(2) by (simp add: div_less_iff_less_mult)
      with close(1) p show False by simp
    qed
  next
    assume "f = 0"
    with c have "g = n" by simp
    with passratio_full [OF assms(2)] show "passratio g n = 100" by simp
  qed
  moreover have "f = 0 \<longleftrightarrow> (\<forall>(k, v) \<in> set res. counted_key k \<longrightarrow> \<not> step_failed v)"
    using c by (auto simp: filter_empty_conv)
  ultimately show ?thesis using close \<open>passratio g n * n \<le> 100 * g\<close> by simp
qed

theorem passratio_faithful_witness:
  "passratio 1 2 \<le> 50 \<and> 50 \<le> passratio 1 2 + 1 \<and> passratio 1 2 \<noteq> 100"
proof -
  have "summary [(''1'', PDict [(''s'', PStr ''FAIL'')]), (''2'', PDict []), (''x'', PNone)] = (2, 1, 1)"
    by code_simp
  moreover have "\<not> (\<forall>(k, v) \<in> set [(''1'', PDict [(''s'', PStr ''FAIL'')]), (''2'', PDict []), (''x'', PNone)].
      counted_key k \<longrightarrow> \<not> step_failed v)"
    by code_simp
  ultimately show ?thesis using passratio_faithful [of _ 2 1 1] by fastforce
qed

text \<open>
  The truncation loses a point on some exact percentages: with 29 of 100 cases passed
  the stored ratio is 28.
\<close>

theorem passratio_truncates: "passratio 29 100 = 28 \<and> 100 * 29 div (100 :: nat) = 29"
  by code_simp

end
