(* ===== verification/Agents.thy ===== *)
theory Agents
  imports Report
begin

text \<open>
  The agents that run test steps (\<^verbatim>\<open>nova/compute/manager_http.py\<close>,
  \<^verbatim>\<open>manager_linux_system.py\<close>, \<^verbatim>\<open>manager_docker.py\<close>): each step does its work and reports a
  status with \<^verbatim>\<open>RPCClient.result\<close>. The HTTP client, the shell and the docker client are
  parameters; so is the text an exception carries. A computation on an agent's
  environment returns its result beside the next environment.
\<close>

section \<open>Computations with state\<close>

type_synonym ('s, 'a) act = "'s \<Rightarrow> 'a result \<times> 's"

definition ret_a :: "'a \<Rightarrow> ('s, 'a) act" where
  "ret_a x = (\<lambda>s. (Inr x, s))"

definition fail_a :: "exn \<Rightarrow> ('s, 'a) act" where
  "fail_a e = (\<lambda>s. (Inl e, s))"

definition bind_a :: "('s, 'a) act \<Rightarrow> ('a \<Rightarrow> ('s, 'b) act) \<Rightarrow> ('s, 'b) act" where
  "bind_a m f = (\<lambda>s. case m s of (Inl e, s1) \<Rightarrow> (Inl e, s1) | (Inr x, s1) \<Rightarrow> f x s1)"

definition lift_a :: "('s \<Rightarrow> 'a result) \<Rightarrow> ('s, 'a) act" where
  "lift_a f = (\<lambda>s. (f s, s))"

lemma bind_a_Inr [result_simps]:
  "bind_a m f s = (Inr y, s2) \<longleftrightarrow> (\<exists>x s1. m s = (Inr x, s1) \<and> f x s1 = (Inr y, s2))"
  by (auto simp: bind_a_def split: prod.splits sum.splits)

lemma bind_a_Inl [result_simps]:
  "bind_a m f s = (Inl e, s2) \<longleftrightarrow>
   m s = (Inl e, s2) \<or> (\<exists>x s1. m s = (Inr x, s1) \<and> f x s1 = (Inl e, s2))"
  by (auto simp: bind_a_def split: prod.splits sum.splits)

lemma act_simps [result_simps]:
  "ret_a x s = (r, s1) \<longleftrightarrow> r = Inr x \<and> s1 = s"
  "fail_a e s = (r', s1) \<longleftrightarrow> r' = Inl e \<and> s1 = s"
  "lift_a f s = (r'', s1) \<longleftrightarrow> r'' = f s \<and> s1 = s"
  by (auto simp: ret_a_def fail_a_def lift_a_def)

section \<open>Reporting a step\<close>

text \<open>
  What the handlers make texts of: \<^verbatim>\<open>str(v)\<close> of a value, \<^verbatim>\<open>e.message\<close> of an exception and
  \<^verbatim>\<open>str(e.message)\<close>. In Python 2.7 \<^verbatim>\<open>str\<close> of a text with a character beyond ASCII raises.
\<close>

record py_texts =
  pt_str :: "pyval \<Rightarrow> string result"
  pt_message :: "exn \<Rightarrow> pyval"
  pt_message_str :: "exn \<Rightarrow> string result"

text \<open>
  The handlers' common shape: the work and the report of its outcome are in one \<^verbatim>\<open>try\<close>,
  whose handler reports a failure. So an outcome whose report raises is reported again.
  \<open>emsg\<close> is what the handler makes of the exception; when that raises, nothing is reported.
\<close>

definition report_failure ::
  "(pyval \<Rightarrow> 's \<Rightarrow> unit result \<times> 's) \<Rightarrow> (exn \<Rightarrow> pyval result) \<Rightarrow> string \<Rightarrow> pyval \<Rightarrow> exn \<Rightarrow> 's \<Rightarrow> unit result \<times> 's" where
  "report_failure link emsg meth stepid e s =
     (case emsg e of
        Inl e1 \<Rightarrow> (Inl e1, s)
      | Inr out \<Rightarrow> RPCClient_result link meth out (PStr ''FAIL'') stepid s)"

definition run_and_report ::
  "(pyval \<Rightarrow> 's \<Rightarrow> unit result \<times> 's) \<Rightarrow> (exn \<Rightarrow> pyval result) \<Rightarrow> string \<Rightarrow> pyval \<Rightarrow>
   (pyval \<times> string) result \<Rightarrow> 's \<Rightarrow> unit result \<times> 's" where
  "run_and_report link emsg meth stepid outcome s =
     (case outcome of
        Inl e \<Rightarrow> report_failure link emsg meth stepid e s
      | Inr (out, status) \<Rightarrow>
          (case RPCClient_result link meth out (PStr status) stepid s of
             (Inl e, s1) \<Rightarrow> report_failure link emsg meth stepid e s1
           | (Inr x, s1) \<Rightarrow> (Inr x, s1)))"

section \<open>HTTP\<close>

text \<open>
  A response is its status code and its text. The URL is logged as a text after the request,
  inside the \<^verbatim>\<open>try\<close>: one that \<^verbatim>\<open>str\<close> refuses makes the step fail although the request was
  answered.
\<close>

definition http_outcome :: "py_texts \<Rightarrow> pyval \<Rightarrow> (int \<times> string) result \<Rightarrow> (pyval \<times> string) result" where
  "http_outcome T url r = bind_r r (\<lambda>(code, body). bind_r (pt_str T url) (\<lambda>shown.
     Inr (PStr body, if code = 200 then ''PASS'' else ''FAIL'')))"

definition http_failure :: "py_texts \<Rightarrow> exn \<Rightarrow> pyval result" where
  "http_failure T e = bind_r (pt_message_str T e) (\<lambda>t. Inr (PStr t))"

definition http_get ::
  "(pyval \<Rightarrow> 's \<Rightarrow> unit result \<times> 's) \<Rightarrow> py_texts \<Rightarrow> (pyval \<Rightarrow> (int \<times> string) result) \<Rightarrow>
   pydict \<Rightarrow> 's \<Rightarrow> unit result \<times> 's" where
  "http_get link T requests_get parameters s =
     (case json_dumps (PDict parameters) of
        Inl e \<Rightarrow> (Inl e, s)
      | Inr shown \<Rightarrow>
          (let url = dgetd parameters ''url'' PNone; stepid = dgetd parameters ''stepid'' PNone
           in run_and_report link (http_failure T) ''get'' stepid (http_outcome T url (requests_get url)) s))"

definition http_post ::
  "(pyval \<Rightarrow> 's \<Rightarrow> unit result \<times> 's) \<Rightarrow> py_texts \<Rightarrow> (pyval \<Rightarrow> pyval \<Rightarrow> (int \<times> string) result) \<Rightarrow>
   pydict \<Rightarrow> 's \<Rightarrow> unit result \<times> 's" where
  "http_post link T requests_post parameters s =
     (case json_dumps (PDict parameters) of
        Inl e \<Rightarrow> (Inl e, s)
      | Inr shown \<Rightarrow>
          (let url = dgetd parameters ''url'' PNone; stepid = dgetd parameters ''stepid'' PNone;
               data = dgetd parameters ''data'' PNone
           in run_and_report link (http_failure T) ''get'' stepid (http_outcome T url (requests_post url data)) s))"

section \<open>Linux\<close>

text \<open>
  These handlers call \<^verbatim>\<open>RPCClient.result\<close> with a keyword it does not have; Python raises
  before anything is sent.
\<close>

definition report_with_result_keyword :: "unit result" where
  "report_with_result_keyword = Inl TypeError"

text \<open>
  \<open>shell\<close> is \<^verbatim>\<open>utils.execute\<close> in \<^verbatim>\<open>/root\<close>: standard output and standard error. \<^verbatim>\<open>ping\<close>
  catches its errors, \<^verbatim>\<open>run_shell\<close> does not. The report's dictionary never leaves the
  function, as the call that would carry it fails.
\<close>

definition linux_ping ::
  "ovo_env \<Rightarrow> (pyval list \<Rightarrow> (pyval \<times> pyval) result) \<Rightarrow> pydict \<Rightarrow> pyval \<Rightarrow> unit result" where
  "linux_ping E shell parameters topic =
     (let address = dgetd parameters ''address'' PNone;
          count = PStr (''-c '' @ py_str E (dgetd parameters ''count'' (PInt 4)));
          interval = PStr (''-i '' @ py_str E (dgetd parameters ''interval'' (PInt 1)))
      in if address = PNone then (if truthy topic then report_with_result_keyword else Inr ())
         else (case shell [PStr ''ping'', address, count, interval] of
                 Inl e \<Rightarrow> if truthy topic then report_with_result_keyword else Inr ()
               | Inr (out, err) \<Rightarrow> if truthy topic then report_with_result_keyword else Inr ()))"

definition linux_run_shell ::
  "(pyval list \<Rightarrow> (pyval \<times> pyval) result) \<Rightarrow> pydict \<Rightarrow> pyval \<Rightarrow> unit result" where
  "linux_run_shell shell parameters topic =
     (let cmd = dgetd parameters ''cmd'' PNone; arg = dgetd parameters ''args'' PNone
      in if cmd = PNone then (if truthy topic then report_with_result_keyword else Inr ())
         else bind_r (shell [cmd, if arg = PNone then PStr [] else arg]) (\<lambda>(out, err).
                if truthy topic then report_with_result_keyword else Inr ()))"

section \<open>Docker\<close>

record container =
  cnames :: "string list"
  cstatus :: string

record docker_image =
  repo_tags :: "string list option"

text \<open>The docker client, over the state of the daemon.\<close>

record 'd docker_client =
  dc_containers :: "'d \<Rightarrow> container list result"
  dc_images :: "'d \<Rightarrow> docker_image list result"
  dc_login :: "pydict \<Rightarrow> ('d, unit) act"
  dc_stop :: "pyval \<Rightarrow> pyval \<Rightarrow> ('d, unit) act"
  dc_remove :: "pyval \<Rightarrow> ('d, unit) act"
  dc_host_config :: "pydict \<Rightarrow> pyval result"
  dc_create :: "pydict \<Rightarrow> ('d, unit) act"
  dc_start :: "pyval \<Rightarrow> ('d, unit) act"
  dc_wait :: "pyval \<Rightarrow> ('d, pyval) act"
  dc_logs :: "pyval \<Rightarrow> bool \<Rightarrow> bool \<Rightarrow> ('d, pyval) act"
  dc_running :: "pyval \<Rightarrow> 'd \<Rightarrow> pyval list result"
  dc_exec_create :: "pyval \<Rightarrow> pyval \<Rightarrow> ('d, pyval) act"
  dc_exec_start :: "pyval \<Rightarrow> ('d, pyval) act"

record 'd worker =
  wparams :: pydict
  wchanged :: bool
  wresult :: pydict
  daemon :: 'd

definition param :: "string \<Rightarrow> 'd worker \<Rightarrow> pyval" where
  "param k w = dgetd (wparams w) k PNone"

definition on_daemon :: "('d, 'a) act \<Rightarrow> ('d worker, 'a) act" where
  "on_daemon m = (\<lambda>w. case m (daemon w) of (r, d) \<Rightarrow> (r, w\<lparr>daemon := d\<rparr>))"

definition set_changed :: "('d worker, unit) act" where
  "set_changed = (\<lambda>w. (Inr (), w\<lparr>wchanged := True\<rparr>))"

text \<open>\<^verbatim>\<open>raise ("...")\<close>: a string is no exception in Python 2.7.\<close>

definition raise_string :: "('d worker, 'a) act" where
  "raise_string = fail_a TypeError"

definition check_container :: "ovo_env \<Rightarrow> 'd docker_client \<Rightarrow> ('d worker, container option) act" where
  "check_container E dc = lift_a (\<lambda>w.
     bind_r (dc_containers dc (daemon w)) (\<lambda>cs.
       Inr (find (\<lambda>c. CHR ''/'' # py_str E (param ''name'' w) \<in> set (cnames c)) cs)))"

definition stop_container :: "ovo_env \<Rightarrow> 'd docker_client \<Rightarrow> ('d worker, unit) act" where
  "stop_container E dc = (\<lambda>w.
     (let name = param ''name'' w;
          timeout = (if truthy (param ''graceful_timeout'' w) then param ''graceful_timeout'' w else PInt 10)
      in bind_a (check_container E dc) (\<lambda>c.
           case c of
             None \<Rightarrow> raise_string
           | Some x \<Rightarrow>
               if starts_with ''Exited '' (cstatus x) then ret_a ()
               else bind_a set_changed (\<lambda>_. on_daemon (dc_stop dc name timeout))) w))"

text \<open>A failed removal counts as done when the container is gone.\<close>

definition remove_container :: "ovo_env \<Rightarrow> 'd docker_client \<Rightarrow> ('d worker, unit) act" where
  "remove_container E dc =
     bind_a (check_container E dc) (\<lambda>c.
       case c of
         None \<Rightarrow> ret_a ()
       | Some x \<Rightarrow>
           bind_a set_changed (\<lambda>_ w.
             case on_daemon (dc_remove dc (param ''name'' w)) w of
               (Inl (OtherError m), w1) \<Rightarrow>
                 if m = ''APIError''
                 then bind_a (check_container E dc) (\<lambda>c1.
                        case c1 of Some y \<Rightarrow> fail_a (OtherError m) | None \<Rightarrow> ret_a ()) w1
                 else (Inl (OtherError m), w1)
             | r \<Rightarrow> r))"

text \<open>
  One volume of the list: an empty entry is skipped, a text with a colon is a binding. The
  accumulator is the list of targets and the dictionary of bindings.
\<close>

fun add_volume ::
  "pyval \<Rightarrow> pyval list \<times> (string \<times> (string \<times> string)) list \<Rightarrow>
   (pyval list \<times> (string \<times> (string \<times> string)) list) result" where
  "add_volume (PStr vol) (vl, vd) =
     (if vol = [] then Inr (vl, vd)
      else if CHR '':'' \<notin> set vol then Inr (vl @ [PStr vol], vd)
      else (let ps = split_on CHR '':'' vol;
                qs = (if length ps = 2 \<and> (CHR ''/'' \<notin> set (ps ! 0) \<or> CHR ''/'' \<in> set (ps ! 1))
                      then ps @ [''rw''] else ps)
            in if length qs < 3 then Inl IndexError
               else Inr (vl @ [PStr (qs ! 1)], dset (qs ! 0) (qs ! 1, qs ! 2) vd)))"
| "add_volume (PList xs) (vl, vd) =
     (if xs = [] then Inr (vl, vd)
      else if PStr '':'' \<in> set xs then Inl AttributeError else Inr (vl @ [PList xs], vd))"
| "add_volume (PDict d) (vl, vd) =
     (if d = [] then Inr (vl, vd)
      else if '':'' \<in> fst ` set d then Inl AttributeError else Inr (vl @ [PDict d], vd))"
| "add_volume _ _ = Inl TypeError"

text \<open>What \<^verbatim>\<open>for vol in volumes\<close> runs over.\<close>

fun py_iter :: "pyval \<Rightarrow> pyval list result" where
  "py_iter (PList vs) = Inr vs"
| "py_iter (PStr s) = Inr (map (\<lambda>c. PStr [c]) s)"
| "py_iter (PDict d) = Inr (map (\<lambda>(k, v). PStr k) d)"
| "py_iter _ = Inl TypeError"

text \<open>\<open>None\<close> stands for the pair of \<^verbatim>\<open>None\<close>s returned when there are no volumes.\<close>

definition generate_volumes ::
  "pyval \<Rightarrow> (pyval list \<times> (string \<times> (string \<times> string)) list) option result" where
  "generate_volumes volumes =
     (if \<not> truthy volumes then Inr None
      else bind_r (py_iter volumes) (\<lambda>vs.
           bind_r (fold_r add_volume vs ([], [])) (\<lambda>v. Inr (Some v))))"

definition py_contains :: "string \<Rightarrow> pyval \<Rightarrow> bool result" where
  "py_contains c v = (case v of
       PStr s \<Rightarrow> Inr (\<exists>n \<le> length s. take (length c) (drop n s) = c)
     | PList xs \<Rightarrow> Inr (PStr c \<in> set xs)
     | PDict d \<Rightarrow> Inr (c \<in> fst ` set d)
     | _ \<Rightarrow> Inl TypeError)"

text \<open>The registry is cut off only to look for a tag; the name keeps it.\<close>

definition parse_image :: "string \<Rightarrow> string \<times> string" where
  "parse_image full_image =
     (let img = (case split_first CHR ''/'' full_image of
                   Some (registry, rest) \<Rightarrow> rest | None \<Rightarrow> full_image)
      in if CHR '':'' \<in> set img
         then (case split_last CHR '':'' full_image of
                 Some p \<Rightarrow> p | None \<Rightarrow> (full_image, ''latest''))
         else (full_image, ''latest''))"

text \<open>
  \<^verbatim>\<open>':'.join(self.parse_image())\<close>: an image that is no text raises in \<^verbatim>\<open>in\<close> or \<^verbatim>\<open>join\<close>, a
  container holding a slash or a colon where a method of strings is called on it.
\<close>

definition find_image :: "pyval \<Rightarrow> string result" where
  "find_image v =
     (case v of
        PStr s \<Rightarrow> (case parse_image s of (repo, tag) \<Rightarrow> Inr (repo @ '':'' @ tag))
      | _ \<Rightarrow> bind_r (py_contains ''/'' v) (\<lambda>s. bind_r (py_contains '':'' v) (\<lambda>c.
               Inl (if s \<or> c then AttributeError else TypeError))))"

definition check_image :: "'d docker_client \<Rightarrow> ('d worker, docker_image option) act" where
  "check_image dc = lift_a (\<lambda>w.
     bind_r (find_image (param ''image'' w)) (\<lambda>name.
     bind_r (dc_images dc (daemon w)) (\<lambda>is.
       Inr (find (\<lambda>i. case repo_tags i of None \<Rightarrow> False | Some ts \<Rightarrow> name \<in> set ts) is))))"

text \<open>
  \<^verbatim>\<open>pull_image\<close> asks \<^verbatim>\<open>self.get_image_id()\<close>, which the class does not define: the login
  and the parsing of the image name are all that happens.
\<close>

definition pull_image :: "'d docker_client \<Rightarrow> ('d worker, unit) act" where
  "pull_image dc =
     bind_a (\<lambda>w. if truthy (param ''auth_username'' w)
                 then on_daemon (dc_login dc
                   [(''username'', param ''auth_username'' w), (''password'', param ''auth_password'' w),
                    (''registry'', param ''auth_registry'' w), (''email'', param ''auth_email'' w)]) w
                 else ret_a () w)
       (\<lambda>_. bind_a (lift_a (\<lambda>w. find_image (param ''image'' w))) (\<lambda>_. fail_a AttributeError))"

text \<open>\<^verbatim>\<open>self.params[k] = bool(self.params[k])\<close>.\<close>

definition bool_param :: "string \<Rightarrow> ('d worker, unit) act" where
  "bool_param k = (\<lambda>w. case ditem (wparams w) k of
     Inl e \<Rightarrow> (Inl e, w)
   | Inr v \<Rightarrow> (Inr (), w\<lparr>wparams := dset k (PBool (truthy v)) (wparams w)\<rparr>))"

definition none_param :: "string \<Rightarrow> ('d worker, unit) act" where
  "none_param k = (\<lambda>w. if param k w = PStr ''None''
     then (Inr (), w\<lparr>wparams := dset k PNone (wparams w)\<rparr>) else (Inr (), w))"

definition restart_policies :: "string list" where
  "restart_policies = [''on-failure'', ''always'', ''unless-stopped'']"

definition binds_value :: "(string \<times> (string \<times> string)) list \<Rightarrow> pyval" where
  "binds_value bs = PDict (map (\<lambda>(src, target, mode).
     (src, PDict [(''bind'', PStr target), (''mode'', PStr mode)])) bs)"

definition host_options :: "(string \<times> (string \<times> string)) list \<Rightarrow> 'd worker \<Rightarrow> pydict" where
  "host_options binds w =
     (let base = [(''network_mode'', PStr ''host''), (''ipc_mode'', param ''ipc_mode'' w),
            (''cap_add'', param ''cap_add'' w), (''security_opt'', param ''security_opt'' w),
            (''pid_mode'', param ''pid_mode'' w), (''privileged'', param ''privileged'' w),
            (''volumes_from'', param ''volumes_from'' w)];
          p = param ''restart_policy'' w;
          withp = (if p \<in> PStr ` set restart_policies
            then base @ [(''restart_policy'', PDict ((''Name'', p) #
                   (if p = PStr ''on-failure'' then [(''MaximumRetryCount'', param ''restart_retries'' w)] else [])))]
            else base)
      in if binds = [] then withp else withp @ [(''binds'', binds_value binds)])"

definition build_host_config ::
  "'d docker_client \<Rightarrow> (string \<times> (string \<times> string)) list \<Rightarrow> ('d worker, pyval) act" where
  "build_host_config dc binds =
     bind_a (none_param ''volumes_from'') (\<lambda>_. lift_a (\<lambda>w. dc_host_config dc (host_options binds w)))"

definition build_container_options :: "'d docker_client \<Rightarrow> ('d worker, pydict) act" where
  "build_container_options dc =
     bind_a (lift_a (\<lambda>w. generate_volumes (param ''volumes'' w))) (\<lambda>vb.
     bind_a (bool_param ''tty'') (\<lambda>_. bind_a (bool_param ''detach'') (\<lambda>_.
     bind_a (bool_param ''privileged'') (\<lambda>_. bind_a (bool_param ''remove_on_exit'') (\<lambda>_.
     bind_a (none_param ''command'') (\<lambda>_.
     bind_a (build_host_config dc (case vb of None \<Rightarrow> [] | Some (vs, bs) \<Rightarrow> bs)) (\<lambda>hc.
     lift_a (\<lambda>w. Inr
       [(''command'', param ''command'' w), (''detach'', param ''detach'' w),
        (''environment'', param ''environment'' w), (''host_config'', hc),
        (''labels'', param ''labels'' w), (''image'', param ''image'' w), (''name'', param ''name'' w),
        (''volumes'', case vb of None \<Rightarrow> PNone | Some (vs, bs) \<Rightarrow> PList vs),
        (''tty'', param ''tty'' w)]))))))))"

definition create_container :: "'d docker_client \<Rightarrow> ('d worker, unit) act" where
  "create_container dc =
     bind_a set_changed (\<lambda>_. bind_a (build_container_options dc) (\<lambda>opts. on_daemon (dc_create dc opts)))"

definition set_result :: "string \<Rightarrow> pyval \<Rightarrow> ('d worker, unit) act" where
  "set_result k v = (\<lambda>w. (Inr (), w\<lparr>wresult := dset k v (wresult w)\<rparr>))"

text \<open>The exit code: newer clients return it in a dictionary.\<close>

fun exit_code :: "pyval \<Rightarrow> pyval result" where
  "exit_code (PDict d) = ditem d ''StatusCode''"
| "exit_code v = Inr v"

definition wait_for_exit :: "ovo_env \<Rightarrow> 'd docker_client \<Rightarrow> ('d worker, unit) act" where
  "wait_for_exit E dc = (\<lambda>w0.
     (let name = param ''name'' w0 in
      bind_a (on_daemon (dc_wait dc name)) (\<lambda>rc0.
      bind_a (lift_a (\<lambda>w. exit_code rc0)) (\<lambda>rc.
      bind_a (set_result ''rc'' rc) (\<lambda>_.
      bind_a (on_daemon (dc_logs dc name True False)) (\<lambda>out.
      bind_a (set_result ''stdout'' out) (\<lambda>_.
      bind_a (on_daemon (dc_logs dc name False True)) (\<lambda>err.
      bind_a (set_result ''stderr'' err) (\<lambda>_.
      bind_a (\<lambda>w. if truthy (param ''remove_on_exit'' w)
                  then bind_a (stop_container E dc) (\<lambda>_. remove_container E dc) w else ret_a () w) (\<lambda>_.
      if rc = PInt 0 \<or> rc = PBool False then ret_a () else raise_string)))))))) w0))"

text \<open>
  \<^verbatim>\<open>check_container_differs\<close> is not defined either: a container that is already there is
  never compared, the step fails.
\<close>

definition start_container :: "ovo_env \<Rightarrow> 'd docker_client \<Rightarrow> ('d worker, unit) act" where
  "start_container E dc =
     bind_a (check_image dc) (\<lambda>i.
     bind_a (case i of None \<Rightarrow> pull_image dc | Some x \<Rightarrow> ret_a ()) (\<lambda>_.
     bind_a (check_container E dc) (\<lambda>c.
     bind_a (case c of Some x \<Rightarrow> fail_a AttributeError
             | None \<Rightarrow> bind_a (create_container dc) (\<lambda>_. check_container E dc)) (\<lambda>c1.
     bind_a (case c1 of
               None \<Rightarrow> fail_a TypeError
             | Some x \<Rightarrow>
                 if starts_with ''Up '' (cstatus x) then ret_a ()
                 else bind_a set_changed (\<lambda>_ w. on_daemon (dc_start dc (param ''name'' w)) w)) (\<lambda>_ w.
     if truthy (param ''detach'' w) then ret_a () w else wait_for_exit E dc w)))))"

section \<open>The docker handlers\<close>

text \<open>
  A handler's state is the report link's state and the daemon's. \<open>connect\<close> makes the client
  for an API version.
\<close>

definition worker_of :: "pydict \<Rightarrow> 'd \<Rightarrow> 'd worker" where
  "worker_of parameters d = \<lparr>wparams = parameters, wchanged = False, wresult = [], daemon = d\<rparr>"

definition run_worker ::
  "(pyval \<Rightarrow> 'd docker_client result) \<Rightarrow> ('d docker_client \<Rightarrow> ('d worker, unit) act) \<Rightarrow> pydict \<Rightarrow>
   'd \<Rightarrow> (pyval \<times> string) result \<times> 'd" where
  "run_worker connect body parameters d =
     (case connect (dgetd parameters ''api_version'' PNone) of
        Inl e \<Rightarrow> (Inl e, d)
      | Inr dc \<Rightarrow>
          (case body dc (worker_of parameters d) of
             (Inl e, w) \<Rightarrow> (Inl e, daemon w)
           | (Inr _, w) \<Rightarrow> (Inr (PStr ''start container successfully'', ''PASS''), daemon w)))"

text \<open>The message is reported as it is, after it was logged as a text.\<close>

definition docker_failure :: "py_texts \<Rightarrow> exn \<Rightarrow> pyval result" where
  "docker_failure T e = bind_r (pt_message_str T e) (\<lambda>shown. Inr (pt_message T e))"

definition docker_start_container ::
  "(pyval \<Rightarrow> 's \<Rightarrow> unit result \<times> 's) \<Rightarrow> py_texts \<Rightarrow> ovo_env \<Rightarrow>
   (pyval \<Rightarrow> 'd docker_client result) \<Rightarrow> pydict \<Rightarrow> 's \<times> 'd \<Rightarrow> unit result \<times> ('s \<times> 'd)" where
  "docker_start_container link T E connect parameters st =
     (case json_dumps (PDict parameters) of
        Inl e \<Rightarrow> (Inl e, st)
      | Inr shown \<Rightarrow>
          (case run_worker connect (start_container E) parameters (snd st) of
             (outcome, d1) \<Rightarrow>
               (case run_and_report link (docker_failure T) ''get'' (dgetd parameters ''stepid'' PNone) outcome (fst st) of
                  (r, s1) \<Rightarrow> (r, (s1, d1)))))"

definition docker_remove_container ::
  "(pyval \<Rightarrow> 's \<Rightarrow> unit result \<times> 's) \<Rightarrow> py_texts \<Rightarrow> ovo_env \<Rightarrow>
   (pyval \<Rightarrow> 'd docker_client result) \<Rightarrow> pydict \<Rightarrow> 's \<times> 'd \<Rightarrow> unit result \<times> ('s \<times> 'd)" where
  "docker_remove_container link T E connect parameters st =
     (case json_dumps (PDict parameters) of
        Inl e \<Rightarrow> (Inl e, st)
      | Inr shown \<Rightarrow>
          (case run_worker connect (remove_container E) parameters (snd st) of
             (outcome, d1) \<Rightarrow>
               (case run_and_report link (docker_failure T) ''get'' (dgetd parameters ''stepid'' PNone) outcome (fst st) of
                  (r, s1) \<Rightarrow> (r, (s1, d1)))))"

text \<open>The first running container of the name runs the command.\<close>

definition exec_command ::
  "(pyval \<Rightarrow> 'd docker_client result) \<Rightarrow> pyval \<Rightarrow> pyval \<Rightarrow> ('d, pyval \<times> string) act" where
  "exec_command connect name command =
     bind_a (lift_a (\<lambda>d. connect (PStr ''auto''))) (\<lambda>dc.
     bind_a (lift_a (dc_running dc name)) (\<lambda>con.
     case con of
       [] \<Rightarrow> fail_a TypeError
     | c # _ \<Rightarrow> bind_a (dc_exec_create dc c command) (\<lambda>job.
                bind_a (dc_exec_start dc job) (\<lambda>out. ret_a (out, ''PASS'')))))"

definition docker_command ::
  "(pyval \<Rightarrow> 's \<Rightarrow> unit result \<times> 's) \<Rightarrow> py_texts \<Rightarrow>
   (pyval \<Rightarrow> 'd docker_client result) \<Rightarrow> pydict \<Rightarrow> 's \<times> 'd \<Rightarrow> unit result \<times> ('s \<times> 'd)" where
  "docker_command link T connect parameters st =
     (case exec_command connect (dgetd parameters ''name'' PNone) (dgetd parameters ''command'' PNone) (snd st) of
        (outcome, d1) \<Rightarrow>
          (case run_and_report link (docker_failure T) ''docker_command'' (dgetd parameters ''stepid'' PNone)
                  outcome (fst st) of
             (r, s1) \<Rightarrow> (r, (s1, d1))))"

section \<open>Lemmas\<close>

lemma bind_a_Inr_E:
  assumes "bind_a m f s = (Inr y, s2)"
  obtains x s1 where "m s = (Inr x, s1)" "f x s1 = (Inr y, s2)"
  using assms by (auto simp: bind_a_Inr)

lemma set_changed_daemon: "set_changed w = (r, w1) \<Longrightarrow> daemon w1 = daemon w \<and> wparams w1 = wparams w"
  by (auto simp: set_changed_def)

text \<open>A step ends well for its agent, unless its error has no text.\<close>

lemma run_and_report_no_error:
  assumes "\<And>a s r s1. link a s = (r, s1) \<Longrightarrow> r = Inr () \<or> r = Inl MessagingTimeout"
    and "\<And>e. \<exists>out. emsg e = Inr out"
  shows "fst (run_and_report link emsg meth stepid outcome s) = Inr ()"
proof -
  have c: "fst (RPCClient_result link m o1 st i s') = Inr ()" for m o1 st i s'
    using assms(1) [of "report_arg m o1 st i" s']
    by (cases "link (report_arg m o1 st i) s'") (auto simp: RPCClient_result_def)
  have f: "fst (report_failure link emsg m i e s') = Inr ()" for m i e s'
    using assms(2) [of e] c by (auto simp: report_failure_def)
  show ?thesis
  proof (cases outcome)
    case (Inr p)
    then show ?thesis using c [of meth "fst p" "PStr (snd p)" stepid s]
      by (cases p; cases "RPCClient_result link meth (fst p) (PStr (snd p)) stepid s")
         (auto simp: run_and_report_def)
  qed (simp add: run_and_report_def f)
qed

text \<open>An error whose message is no plain text is not reported at all: the step stays open.\<close>

lemma unprintable_error_unreported:
  assumes "json_ok (PDict parameters)" "requests_get (dgetd parameters ''url'' PNone) = Inl e" "pt_message_str T e = Inl e1"
  shows "http_get link T requests_get parameters s = (Inl e1, s)"
  using assms by (simp add: http_get_def json_dumps_ok Let_def http_outcome_def run_and_report_def report_failure_def http_failure_def
      del: json_ok.simps)

text \<open>The tag is what follows the last colon after the registry; otherwise it is \<^verbatim>\<open>latest\<close>.\<close>

lemma parse_image_cases:
  obtains (tagged) repo tag where "parse_image s = (repo, tag)" "s = repo @ '':'' @ tag" "CHR '':'' \<notin> set tag"
  | (plain) "parse_image s = (s, ''latest'')"
proof (cases "parse_image s = (s, ''latest'')")
  case False
  then obtain repo tag where "split_last CHR '':'' s = Some (repo, tag)" "parse_image s = (repo, tag)"
    by (auto simp: parse_image_def Let_def split: if_splits option.splits)
  then show ?thesis using tagged split_last_Some by fastforce
qed (rule plain)

lemma lift_a_Inr: "lift_a f s = (Inr x, s1) \<longleftrightarrow> f s = Inr x \<and> s1 = s"
  by (auto simp: lift_a_def)

lemma check_container_Inr:
  "check_container E dc w = (Inr c, w1) \<longleftrightarrow>
   w1 = w \<and> (\<exists>cs. dc_containers dc (daemon w) = Inr cs \<and>
     c = find (\<lambda>c. CHR ''/'' # py_str E (param ''name'' w) \<in> set (cnames c)) cs)"
  by (auto simp: check_container_def lift_a_Inr bind_r_Inr_iff)

lemma check_image_Inr:
  "check_image dc w = (Inr i, w1) \<longleftrightarrow>
   w1 = w \<and> (\<exists>name is. find_image (param ''image'' w) = Inr name \<and> dc_images dc (daemon w) = Inr is \<and>
     i = find (\<lambda>i. case repo_tags i of None \<Rightarrow> False | Some ts \<Rightarrow> name \<in> set ts) is)"
  by (auto simp: check_image_def lift_a_Inr bind_r_Inr_iff)

lemma pull_image_fails: "fst (pull_image dc w) \<noteq> Inr ()"
  by (cases "pull_image dc w") (auto simp: pull_image_def result_simps)

text \<open>A start that ends well found the image and no container at its first two looks.\<close>

lemma start_steps:
  assumes "start_container E dc w = (Inr (), w1)"
  obtains i where "check_image dc w = (Inr (Some i), w)" "check_container E dc w = (Inr None, w)"
proof -
  have nf: "\<not> (pull_image dc s = (Inr (), s'))" for s s'
    using pull_image_fails [of dc s] by auto
  from assms show thesis
    unfolding start_container_def
    apply (simp only: bind_a_Inr)
    apply (elim exE conjE)
    subgoal for im sa u sb c sc c1 sd
      using nf that by (cases im; cases c) (auto simp: check_image_Inr check_container_Inr act_simps)
    done
qed

section \<open>Properties\<close>

text \<open>
  What the image name means. A name is read as name and tag at its last colon, or gets
  the tag \<^verbatim>\<open>latest\<close>; the tag has no colon; and a colon that only stands in the registry (a
  port) is never taken for a tag.
\<close>

theorem parse_image_faithful:
  "(case parse_image s of (repo, tag) \<Rightarrow>
      CHR '':'' \<notin> set tag \<and> (s = repo @ '':'' @ tag \<or> (repo = s \<and> tag = ''latest''))) \<and>
   (CHR ''/'' \<notin> set reg \<longrightarrow> CHR '':'' \<notin> set img \<longrightarrow>
      parse_image (reg @ ''/'' @ img) = (reg @ ''/'' @ img, ''latest''))"
proof (intro conjI impI)
  show "case parse_image s of (repo, tag) \<Rightarrow>
      CHR '':'' \<notin> set tag \<and> (s = repo @ '':'' @ tag \<or> (repo = s \<and> tag = ''latest''))"
    by (cases rule: parse_image_cases [of s]) auto
  assume r: "CHR ''/'' \<notin> set reg" and i: "CHR '':'' \<notin> set img"
  have "split_first CHR ''/'' (reg @ ''/'' @ img) = Some (reg, img)"
    using r by (auto simp: split_first_def takeWhile_append dropWhile_append)
  then show "parse_image (reg @ ''/'' @ img) = (reg @ ''/'' @ img, ''latest'')"
    using i by (simp add: parse_image_def)
qed

theorem parse_image_faithful_witness:
  "parse_image ''host:5000/img'' = (''host:5000/img'', ''latest'') \<and>
   parse_image ''host:5000/img:v1'' = (''host:5000/img'', ''v1'')"
  using parse_image_faithful [of "''x''" "''host:5000''" "''img''"]
  by (simp add: parse_image_def split_first_def split_last_def)

text \<open>
  What a successful start means. A container is started only where the image was
  already there and no container of the name existed: pulling an image and comparing an
  existing container both call methods the class does not define, so both fail, and a
  failure of either kind creates nothing.
\<close>

theorem start_container_needs:
  assumes "start_container E dc w = (Inr (), w1)"
  shows "\<exists>name is i ts cs.
    find_image (param ''image'' w) = Inr name \<and> dc_images dc (daemon w) = Inr is \<and>
    i \<in> set is \<and> repo_tags i = Some ts \<and> name \<in> set ts \<and>
    dc_containers dc (daemon w) = Inr cs \<and>
    (\<forall>c \<in> set cs. CHR ''/'' # py_str E (param ''name'' w) \<notin> set (cnames c))"
proof -
  from assms obtain i where "check_image dc w = (Inr (Some i), w)" "check_container E dc w = (Inr None, w)"
    by (rule start_steps)
  then obtain name "is" cs where f: "find_image (param ''image'' w) = Inr name"
    "dc_images dc (daemon w) = Inr is" "dc_containers dc (daemon w) = Inr cs"
    and i: "find (\<lambda>i. case repo_tags i of None \<Rightarrow> False | Some ts \<Rightarrow> name \<in> set ts) is = Some i"
    and c: "find (\<lambda>c. CHR ''/'' # py_str E (param ''name'' w) \<in> set (cnames c)) cs = None"
    unfolding check_image_Inr check_container_Inr by metis
  from find_SomeD [OF i] obtain ts where "i \<in> set is" "repo_tags i = Some ts" "name \<in> set ts"
    by (auto split: option.splits)
  moreover from c have "\<forall>c \<in> set cs. CHR ''/'' # py_str E (param ''name'' w) \<notin> set (cnames c)"
    by (simp add: find_None_iff)
  ultimately show ?thesis using f by blast
qed

text \<open>A daemon with one image, whose state is its containers.\<close>

definition sample_docker :: "container list docker_client" where
  "sample_docker = \<lparr>
     dc_containers = Inr,
     dc_images = (\<lambda>d. Inr [\<lparr>repo_tags = Some [''img:latest'']\<rparr>]),
     dc_login = (\<lambda>a. ret_a ()),
     dc_stop = (\<lambda>n t. ret_a ()),
     dc_remove = (\<lambda>n d. (Inr (), [])),
     dc_host_config = (\<lambda>o1. Inr (PDict o1)),
     dc_create = (\<lambda>o1 d. (Inr (), \<lparr>cnames = [''/c''], cstatus = ''Created''\<rparr> # d)),
     dc_start = (\<lambda>n d. (Inr (), map (\<lambda>c. c\<lparr>cstatus := ''Up 1 second''\<rparr>) d)),
     dc_wait = (\<lambda>n. ret_a (PInt 0)),
     dc_logs = (\<lambda>n o1 e. ret_a (PStr [])),
     dc_running = (\<lambda>n d. Inr []),
     dc_exec_create = (\<lambda>c m. ret_a PNone),
     dc_exec_start = (\<lambda>j. ret_a PNone)\<rparr>"

definition sample_parameters :: pydict where
  "sample_parameters = [(''name'', PStr ''c''), (''image'', PStr ''img''), (''tty'', PInt 0),
     (''detach'', PInt 1), (''privileged'', PInt 0), (''remove_on_exit'', PInt 0)]"

theorem start_container_needs_witness:
  "\<exists>w1 is i ts. start_container sample_ovo sample_docker (worker_of sample_parameters []) = (Inr (), w1) \<and>
     dc_images sample_docker [] = Inr is \<and> i \<in> set is \<and> repo_tags i = Some ts \<and> ''img:latest'' \<in> set ts"
proof -
  let ?w = "worker_of sample_parameters []"
  have "fst (start_container sample_ovo sample_docker ?w) = Inr ()" by code_simp
  then have run: "start_container sample_ovo sample_docker ?w =
      (Inr (), snd (start_container sample_ovo sample_docker ?w))" by (metis prod.collapse)
  have n: "find_image (param ''image'' ?w) = Inr ''img:latest''" "daemon ?w = []"
    by (code_simp, simp add: worker_of_def)
  show ?thesis using start_container_needs [OF run] run n by (metis sum.inject(2))
qed

text \<open>
  An HTTP step counts once, or twice. Against the report endpoint the finish flag goes
  down by one whatever the request did, except where the plan cannot take the report of a
  finished request: its error reaches the agent, which reports a second time.
\<close>

theorem http_get_countdown:
  assumes "http_get (ReportRPCAPI_result R) T requests_get parameters (sv, d) = (r, (sv1, d1))"
    and ok: "json_ok (PDict parameters)" "pt_str T (dgetd parameters ''url'' PNone) = Inr shown"
    and texts: "\<And>e. pt_message_str T e = Inr (msg e)"
  shows "finish_flag sv1 = finish_flag sv -
    (if \<exists>code body e. requests_get (dgetd parameters ''url'' PNone) = Inr (code, body) \<and> e \<noteq> MessagingTimeout \<and>
          fst (report_result R (sv\<lparr>finish_flag := finish_flag sv - 1\<rparr>)
            (PStr (if code = 200 then ''PASS'' else ''FAIL'')) (PStr body) d) = Inl e
     then 2 else 1)"
proof -
  let ?id = "dgetd parameters ''stepid'' PNone"
  have call: "\<exists>s. RPCClient_result (ReportRPCAPI_result R) m o1 (PStr (c # st)) i (v, x) =
      ((case fst (report_result R (v\<lparr>finish_flag := finish_flag v - 1\<rparr>) (PStr (c # st)) o1 x) of
          Inl MessagingTimeout \<Rightarrow> Inr () | r \<Rightarrow> r), (v\<lparr>finish_flag := finish_flag v - 1\<rparr>, s))" for m o1 c st i v x
    by (cases "report_result R (v\<lparr>finish_flag := finish_flag v - 1\<rparr>) (PStr (c # st)) o1 x")
       (auto simp: RPCClient_result_def report_arg_def ReportRPCAPI_result_def Let_def dgetd_def
          split: sum.splits exn.splits)
  have run: "run_and_report (ReportRPCAPI_result R) (http_failure T) ''get'' ?id
      (http_outcome T (dgetd parameters ''url'' PNone) (requests_get (dgetd parameters ''url'' PNone))) (sv, d) = (r, (sv1, d1))"
    using assms(1) by (simp add: http_get_def json_dumps_ok [OF ok(1)] Let_def)
  have failure: "report_failure link (http_failure T) m i e s = RPCClient_result link m (PStr (msg e)) (PStr ''FAIL'') i s"
    for link :: "pyval \<Rightarrow> report_server \<times> sysdb \<Rightarrow> unit result \<times> (report_server \<times> sysdb)" and m i e s
    by (simp add: report_failure_def http_failure_def texts)
  show ?thesis
  proof (cases "requests_get (dgetd parameters ''url'' PNone)")
    case (Inl e)
    then show ?thesis using run call [of "''get''" "PStr (msg e)" "CHR ''F''" "''AIL''" ?id sv d]
      by (auto simp: http_outcome_def run_and_report_def failure)
  next
    case (Inr p)
    obtain code body where p: "p = (code, body)" by fastforce
    obtain c st where st: "(if code = 200 then ''PASS'' else ''FAIL'') = c # st" by (cases "code = 200") auto
    obtain s where s: "RPCClient_result (ReportRPCAPI_result R) ''get'' (PStr body) (PStr (c # st)) ?id (sv, d) =
      ((case fst (report_result R (sv\<lparr>finish_flag := finish_flag sv - 1\<rparr>) (PStr (c # st)) (PStr body) d) of
          Inl MessagingTimeout \<Rightarrow> Inr () | r \<Rightarrow> r), (sv\<lparr>finish_flag := finish_flag sv - 1\<rparr>, s))"
      using call [of "''get''" "PStr body" c st ?id sv d] by blast
    have run: "run_and_report (ReportRPCAPI_result R) (http_failure T) ''get'' ?id (Inr (PStr body, c # st)) (sv, d) = (r, (sv1, d1))"
      using run Inr p st by (simp add: http_outcome_def ok(2))
    show ?thesis
    proof (cases "fst (report_result R (sv\<lparr>finish_flag := finish_flag sv - 1\<rparr>) (PStr (c # st)) (PStr body) d)")
      case (Inr u)
      then show ?thesis using run s p \<open>requests_get _ = Inr p\<close> st by (auto simp: run_and_report_def)
    next
      case (Inl e)
      then show ?thesis
        using run s p \<open>requests_get _ = Inr p\<close> st
          call [of "''get''" "PStr (msg e)" "CHR ''F''" "''AIL''" ?id "sv\<lparr>finish_flag := finish_flag sv - 1\<rparr>" s]
        by (cases "e = MessagingTimeout") (auto simp: run_and_report_def failure split: exn.splits)
    qed
  qed
qed

text \<open>A report the stored plan cannot take: its result table lacks the case.\<close>

definition sample_texts :: py_texts where
  "sample_texts = \<lparr>pt_str = (\<lambda>v. case v of PStr t \<Rightarrow> Inr t | _ \<Rightarrow> Inr ''None''), pt_message = (\<lambda>e. PStr ''error''),
     pt_message_str = (\<lambda>e. Inr ''error'')\<rparr>"

theorem http_get_countdown_witness:
  "finish_flag (fst (snd (http_get (ReportRPCAPI_result sample_request) sample_texts
     (\<lambda>u. Inr (200, ''ok'')) [] (sample_server\<lparr>case_id := ''7''\<rparr>, sample_db)))) = - 1"
proof -
  let ?sv = "sample_server\<lparr>case_id := ''7''\<rparr>"
  let ?run = "http_get (ReportRPCAPI_result sample_request) sample_texts (\<lambda>u. Inr (200, ''ok'')) []
    (?sv, sample_db)"
  have "fst (report_result sample_request (?sv\<lparr>finish_flag := finish_flag ?sv - 1\<rparr>)
      (PStr ''PASS'') (PStr ''ok'') sample_db) = Inl (KeyError ''7'')" by code_simp
  moreover have "finish_flag ?sv = 1" by (simp add: sample_server_def)
  ultimately show ?thesis
    using http_get_countdown [of sample_request sample_texts "\<lambda>u. Inr (200, ''ok'')" "[]" ?sv sample_db
        "fst ?run" "fst (snd ?run)" "snd (snd ?run)" "''None''" "\<lambda>e. ''error''"] by (simp add: sample_texts_def dgetd_def)
qed

text \<open>
  A linux step never reports. With a topic to report to, \<^verbatim>\<open>ping\<close> and \<^verbatim>\<open>run_shell\<close> end in an
  error whatever the command did, so the test case waits for its timeout.
\<close>

theorem linux_steps_never_report:
  assumes "truthy topic"
  shows "linux_ping E shell parameters topic = Inl TypeError \<and>
    (\<exists>e. linux_run_shell shell parameters topic = Inl e \<and>
      (e = TypeError \<or> (\<exists>args. shell args = Inl e)))"
proof
  show "linux_ping E shell parameters topic = Inl TypeError"
    using assms by (auto simp: linux_ping_def Let_def report_with_result_keyword_def split: sum.splits)
  let ?args = "[dgetd parameters ''cmd'' PNone,
    if dgetd parameters ''args'' PNone = PNone then PStr [] else dgetd parameters ''args'' PNone]"
  show "\<exists>e. linux_run_shell shell parameters topic = Inl e \<and>
      (e = TypeError \<or> (\<exists>args. shell args = Inl e))"
    using assms by (cases "shell ?args") (auto simp: linux_run_shell_def Let_def report_with_result_keyword_def)
qed

theorem linux_steps_never_report_witness:
  "linux_ping sample_ovo (\<lambda>a. Inr (PStr ''1 received'', PStr [])) [(''address'', PStr ''h'')] (PStr ''t'') =
     Inl TypeError"
  using linux_steps_never_report [of "PStr ''t''"] by simp

end

