(* ===== verification/RpcApis.thy ===== *)
theory RpcApis
  imports Amqp Contexts Agents Services
begin

text \<open>
  The services' own calls: the request context on the wire and the clients of \<^verbatim>\<open>nova/rpc.py\<close>, the
  report call of an agent (\<^verbatim>\<open>nova/reportrpc.py\<close>), the calls that start a step on an agent and the
  choice of their version cap (\<^verbatim>\<open>nova/compute/rpcapi.py\<close>), the casts to the conductor
  (\<^verbatim>\<open>nova/conductor/rpcapi.py\<close>) and the base interface of every service (\<^verbatim>\<open>nova/baserpc.py\<close>).
\<close>

section \<open>The request context on the wire\<close>

fun cval_json :: "cval \<Rightarrow> pyval" where
  "cval_json CNone = PNone"
| "cval_json (CBool b) = PBool b"
| "cval_json (CStr s) = PStr s"
| "cval_json (CStrs xs) = PList (map PStr xs)"
| "cval_json (CTime t) = PDate (strtime t) False"
| "cval_json (CCatalog xs) = PList (map (\<lambda>d. PDict (map (\<lambda>(k, v). (k, PStr v)) d)) xs)"
| "cval_json (COther v) = v"

definition entry_texts :: "pyval \<Rightarrow> (string \<times> string) list result" where
  "entry_texts v =
     (case v of
        PDict d \<Rightarrow> map_values (\<lambda>w. case w of PStr t \<Rightarrow> Inr t | _ \<Rightarrow> Inl TypeError) d
      | _ \<Rightarrow> Inl TypeError)"

text \<open>Which kind of attribute a value read from JSON is.\<close>

fun json_cval :: "pyval \<Rightarrow> cval" where
  "json_cval PNone = CNone"
| "json_cval (PBool b) = CBool b"
| "json_cval (PStr s) = CStr s"
| "json_cval (PList vs) =
     (case all_texts vs of
        Inr xs \<Rightarrow> CStrs xs
      | Inl _ \<Rightarrow> (case map_r entry_texts vs of Inr ds \<Rightarrow> CCatalog ds | Inl _ \<Rightarrow> COther (PList vs)))"
| "json_cval v = COther v"

definition wire_context :: "rctx \<Rightarrow> pydict" where
  "wire_context c = map (\<lambda>(k, v). (k, cval_json v)) (to_dict c)"

definition context_of_wire :: "datetime \<Rightarrow> string \<Rightarrow> pydict \<Rightarrow> rctx result" where
  "context_of_wire utcnow fresh_id d = from_dict utcnow fresh_id (map (\<lambda>(k, v). (k, json_cval v)) d)"

text \<open>
  \<^verbatim>\<open>NovaObjectSerializer\<close> (\<^verbatim>\<open>nova/objects/base.py\<close>) on values without objects in them: every
  container is rebuilt. A dictionary that stands for an object is left to \<open>process\<close>.
\<close>

fun nova_serialize :: "pyval \<Rightarrow> pyval" where
  "nova_serialize (PList xs) = PList (map nova_serialize xs)"
| "nova_serialize (PDict d) = PDict (map (\<lambda>(k, v). (k, nova_serialize v)) d)"
| "nova_serialize v = v"

fun nova_deserialize :: "(pydict \<Rightarrow> pyval result) \<Rightarrow> pyval \<Rightarrow> pyval result"
  and nova_deserialize_list :: "(pydict \<Rightarrow> pyval result) \<Rightarrow> pyval list \<Rightarrow> pyval list result"
  and nova_deserialize_dict :: "(pydict \<Rightarrow> pyval result) \<Rightarrow> pydict \<Rightarrow> pydict result" where
  "nova_deserialize process (PList xs) = bind_r (nova_deserialize_list process xs) (\<lambda>ys. Inr (PList ys))"
| "nova_deserialize process (PDict d) =
     (if dhas d ''nova_object.name'' then process d
      else bind_r (nova_deserialize_dict process d) (\<lambda>e. Inr (PDict e)))"
| "nova_deserialize process v = Inr v"
| "nova_deserialize_list process [] = Inr []"
| "nova_deserialize_list process (x # xs) =
     bind_r (nova_deserialize process x) (\<lambda>y. bind_r (nova_deserialize_list process xs) (\<lambda>ys. Inr (y # ys)))"
| "nova_deserialize_dict process [] = Inr []"
| "nova_deserialize_dict process ((k, v) # d) =
     bind_r (nova_deserialize process v) (\<lambda>w. bind_r (nova_deserialize_dict process d) (\<lambda>e. Inr ((k, w) # e)))"

text \<open>A base serializer, as far as it is used: what it does to entities.\<close>

type_synonym entity_serializer = "(pyval \<Rightarrow> pyval result) \<times> (pyval \<Rightarrow> pyval result)"

definition NovaObjectSerializer :: "(pydict \<Rightarrow> pyval result) \<Rightarrow> entity_serializer" where
  "NovaObjectSerializer process = (\<lambda>v. Inr (nova_serialize v), nova_deserialize process)"

text \<open>\<^verbatim>\<open>RequestContextSerializer\<close>: entities are left to the base serializer, if there is one.\<close>

definition RequestContextSerializer :: "datetime \<Rightarrow> string \<Rightarrow> entity_serializer option \<Rightarrow> rctx serializer" where
  "RequestContextSerializer utcnow fresh_id base =
     \<lparr>serialize_entity = (\<lambda>c v. case base of None \<Rightarrow> Inr v | Some b \<Rightarrow> fst b v),
      deserialize_entity = (\<lambda>c v. case base of None \<Rightarrow> Inr v | Some b \<Rightarrow> snd b v),
      serialize_context = (\<lambda>c. Inr (wire_context c)),
      deserialize_context = context_of_wire utcnow fresh_id\<rparr>"

definition get_client :: "rpc_target \<Rightarrow> string option \<Rightarrow> call_context" where
  "get_client t cap = \<lparr>cc_target = t, cc_timeout = None, cc_version_cap = cap, cc_retry = None\<rparr>"

definition get_allowed_exmods :: "string list \<Rightarrow> string list" where
  "get_allowed_exmods extra_exmods = [''nova.exception''] @ extra_exmods"

section \<open>Version caps\<close>

text \<open>An upgrade level may be the name of a release; another one is taken as it is.\<close>

definition alias_cap :: "(string \<times> string) list \<Rightarrow> string option \<Rightarrow> string option" where
  "alias_cap aliases level =
     (case level of None \<Rightarrow> None | Some l \<Rightarrow> Some (dgetd aliases l l))"

definition compute_aliases :: "(string \<times> string) list" where
  "compute_aliases =
     [(''icehouse'', ''3.23''), (''juno'', ''3.35''), (''kilo'', ''4.0''), (''liberty'', ''4.5''), (''mitaka'', ''4.11'')]"

definition conductor_aliases :: "(string \<times> string) list" where
  "conductor_aliases =
     [(''grizzly'', ''1.48''), (''havana'', ''1.58''), (''icehouse'', ''2.0''), (''juno'', ''2.0''),
      (''kilo'', ''2.1''), (''liberty'', ''3.0''), (''mitaka'', ''3.0'')]"

definition SERVICE_VERSION_HISTORY :: "string list" where
  "SERVICE_VERSION_HISTORY =
     [''4.0'', ''4.4'', ''4.5'', ''4.6'', ''4.6'', ''4.7'', ''4.8'', ''4.9'', ''4.10'', ''4.11'', ''4.11'',
      ''4.12'', ''4.12'', ''4.13'', ''4.13'', ''4.13'']"

text \<open>Indexing a sequence: a negative index counts from the end.\<close>

definition py_index :: "'a list \<Rightarrow> int \<Rightarrow> 'a result" where
  "py_index xs i =
     (if 0 \<le> i \<and> i < int (length xs) then Inr (xs ! nat i)
      else if i < 0 \<and> - int (length xs) \<le> i then Inr (xs ! nat (int (length xs) + i))
      else Inl IndexError)"

text \<open>
  The cap that follows the oldest compute service; it is remembered (\<open>last_version\<close>, with the
  state of the services), except when there is no such service yet.
\<close>

definition determine_version_cap :: "string option \<times> svc_state \<Rightarrow> string result \<times> (string option \<times> svc_state)" where
  "determine_version_cap st =
     (case st of (last_version, s) \<Rightarrow>
       if last_version \<noteq> None \<and> last_version \<noteq> Some [] then (Inr (the last_version), st)
       else (case get_minimum_version ''nova-compute'' s of
           (Inl e, s1) \<Rightarrow> (Inl e, (last_version, s1))
         | (Inr n, s1) \<Rightarrow>
             if n = 0 then (Inr (dgetd compute_aliases ''mitaka'' []), (last_version, s1))
             else (case py_index SERVICE_VERSION_HISTORY n of
                 Inl e \<Rightarrow> (Inl (service_too_old (Some SERVICE_VERSION) n), (last_version, s1))
               | Inr v \<Rightarrow> (Inr v, (Some v, s1)))))"

definition ComputeAPI_cap ::
  "string option \<Rightarrow> string option \<times> svc_state \<Rightarrow> string option result \<times> (string option \<times> svc_state)" where
  "ComputeAPI_cap upgrade_level st =
     (if upgrade_level = Some ''auto''
      then (case determine_version_cap st of
          (Inl e, st1) \<Rightarrow> (Inl e, st1) | (Inr v, st1) \<Rightarrow> (Inr (Some v), st1))
      else (Inr (alias_cap compute_aliases upgrade_level), st))"

text \<open>The interface for steps has no method to determine the cap.\<close>

definition ComputeCaseAPI :: "string \<Rightarrow> string option \<Rightarrow> string option \<Rightarrow> call_context result" where
  "ComputeCaseAPI compute_topic namespace upgrade_level =
     (if upgrade_level = Some ''auto'' then Inl AttributeError
      else Inr (get_client
        (Target None (Some compute_topic) (Some (given_or namespace ''compute_plan'')) (Some ''4.0'') None False [])
        (alias_cap compute_aliases upgrade_level)))"

section \<open>Calls\<close>

definition version_4_0 :: overrides where
  "version_4_0 = no_overrides\<lparr>o_version := Some (Some ''4.0'')\<rparr>"

text \<open>Starting a step on the agent of a host; the topic is where it reports to.\<close>

definition ComputeCaseAPI_run ::
  "'s driver \<Rightarrow> 'c serializer \<Rightarrow> call_context \<Rightarrow> 'c \<Rightarrow> string \<Rightarrow> string \<Rightarrow> pyval \<Rightarrow> pyval \<Rightarrow> 's \<Rightarrow> unit result \<times> 's" where
  "ComputeCaseAPI_run drv S api ctxt host meth parameters topic s =
     (case prepare (version_4_0\<lparr>o_server := Some (Some host)\<rparr>) api of
        Inl e \<Rightarrow> (Inl e, s)
      | Inr cc \<Rightarrow> rpc_cast drv S cc ctxt meth [(''parameters'', parameters), (''topic'', topic)] s)"

definition ComputeTaskAPI :: "string \<Rightarrow> call_context" where
  "ComputeTaskAPI conductor_topic =
     get_client (Target None (Some conductor_topic) (Some ''compute_task'') (Some ''1.0'') None False []) None"

definition task_cast ::
  "'s driver \<Rightarrow> 'c serializer \<Rightarrow> call_context \<Rightarrow> 'c \<Rightarrow> string \<Rightarrow> pydict \<Rightarrow> 's \<Rightarrow> unit result \<times> 's" where
  "task_cast drv S api ctxt meth args s =
     (case prepare (no_overrides\<lparr>o_version := Some (Some ''1.10'')\<rparr>) api of
        Inl e \<Rightarrow> (Inl e, s) | Inr cc \<Rightarrow> rpc_cast drv S cc ctxt meth args s)"

definition handle_testplan ::
  "'s driver \<Rightarrow> 'c serializer \<Rightarrow> call_context \<Rightarrow> 'c \<Rightarrow> pyval \<Rightarrow> pyval \<Rightarrow> pyval \<Rightarrow> 's \<Rightarrow> unit result \<times> 's" where
  "handle_testplan drv S api ctxt name environment testplan =
     task_cast drv S api ctxt ''handle_testplan''
       [(''data'', PDict [(''name'', name), (''environment'', environment), (''testplan'', testplan)])]"

definition BaseAPI :: "string \<Rightarrow> string option \<Rightarrow> call_context" where
  "BaseAPI topic level = get_client (Target None (Some topic) (Some ''baseapi'') (Some ''1.0'') None False []) (alias_cap [] level)"

definition timed_call ::
  "'s driver \<Rightarrow> rat \<Rightarrow> (string \<Rightarrow> bool \<Rightarrow> string) \<Rightarrow> 'c serializer \<Rightarrow> call_context \<Rightarrow> 'c \<Rightarrow> string \<Rightarrow> pyval \<Rightarrow>
   rat option \<Rightarrow> 's \<Rightarrow> pyval result \<times> 's" where
  "timed_call drv response_timeout dt S api ctxt meth arg timeout s =
     (case prepare (no_overrides\<lparr>o_timeout := Some timeout\<rparr>) api of
        Inl e \<Rightarrow> (Inl e, s)
      | Inr cc \<Rightarrow> rpc_call drv response_timeout S cc ctxt meth [(''arg'', to_primitive dt arg)] s)"

definition BaseAPI_ping ::
  "'s driver \<Rightarrow> rat \<Rightarrow> (string \<Rightarrow> bool \<Rightarrow> string) \<Rightarrow> 'c serializer \<Rightarrow> call_context \<Rightarrow> 'c \<Rightarrow> pyval \<Rightarrow> rat option \<Rightarrow>
   's \<Rightarrow> pyval result \<times> 's" where
  "BaseAPI_ping drv response_timeout dt S api ctxt = timed_call drv response_timeout dt S api ctxt ''ping''"

definition ReportAPI :: "string \<Rightarrow> string option \<Rightarrow> call_context" where
  "ReportAPI topic level =
     get_client (Target None (Some topic) (Some ''reportapi'') (Some ''1.0'') None False []) (alias_cap [] level)"

definition ReportAPI_result ::
  "'s driver \<Rightarrow> rat \<Rightarrow> (string \<Rightarrow> bool \<Rightarrow> string) \<Rightarrow> 'c serializer \<Rightarrow> call_context \<Rightarrow> 'c \<Rightarrow> pyval \<Rightarrow> rat option \<Rightarrow>
   's \<Rightarrow> pyval result \<times> 's" where
  "ReportAPI_result drv response_timeout dt S api ctxt = timed_call drv response_timeout dt S api ctxt ''result''"

section \<open>Endpoints\<close>

text \<open>A method that takes exactly the named arguments.\<close>

definition named_args :: "string list \<Rightarrow> (pydict \<Rightarrow> 's \<Rightarrow> pyval result \<times> 's) \<Rightarrow> pydict \<Rightarrow> 's \<Rightarrow> pyval result \<times> 's" where
  "named_args names f args s =
     (if set (map fst args) = set names then f args s else (Inl TypeError, s))"

definition base_endpoint :: "(string \<Rightarrow> bool \<Rightarrow> string) \<Rightarrow> pyval \<Rightarrow> pyval \<Rightarrow> ('c, 's) endpoint" where
  "base_endpoint dt service_name backdoor_port =
     \<lparr>ep_target = Some (Target None None (Some ''baseapi'') (Some ''1.1'') None False []),
      ep_method = (\<lambda>m.
        if m = ''ping'' then Some (\<lambda>c. named_args [''arg''] (\<lambda>args s.
          (Inr (to_primitive dt (PDict [(''service'', service_name), (''arg'', dgetd args ''arg'' PNone)])), s)))
        else if m = ''get_backdoor_port'' then Some (\<lambda>c. named_args [] (\<lambda>args s. (Inr backdoor_port, s)))
        else None)\<rparr>"

text \<open>
  The report server of the conductor. \<open>env\<close> is what a handler takes from its context: the mode
  of reading and the clock.
\<close>

definition unit_value :: "unit result \<times> 's \<Rightarrow> pyval result \<times> 's" where
  "unit_value r = (case r of (Inl e, s) \<Rightarrow> (Inl e, s) | (Inr _, s) \<Rightarrow> (Inr PNone, s))"

definition report_endpoint :: "('c \<Rightarrow> request_env) \<Rightarrow> ('c, report_server \<times> sysdb) endpoint" where
  "report_endpoint env =
     \<lparr>ep_target = Some (Target None None (Some ''reportapi'') (Some ''1.1'') None False []),
      ep_method = (\<lambda>m.
        if m = ''result'' then Some (\<lambda>c. named_args [''arg''] (\<lambda>args st.
          unit_value (ReportRPCAPI_result (env c) (dgetd args ''arg'' PNone) st)))
        else if m = ''report_result'' then Some (\<lambda>c. named_args [''status'', ''out''] (\<lambda>args st.
          case st of (sv, d) \<Rightarrow>
            (case report_result (env c) sv (dgetd args ''status'' PNone) (dgetd args ''out'' PNone) d of
               (r, d1) \<Rightarrow> unit_value (r, (sv, d1)))))
        else None)\<rparr>"

text \<open>
  The agents' interfaces (\<^verbatim>\<open>nova/compute/manager_http.py\<close>, \<^verbatim>\<open>manager_docker.py\<close>,
  \<^verbatim>\<open>manager_linux_system.py\<close>): a step takes its parameters and the topic to report to. \<open>link\<close> is the
  report call for a context and a topic.
\<close>

definition agent_method :: "('c \<Rightarrow> pyval \<Rightarrow> pydict \<Rightarrow> 's \<Rightarrow> unit result \<times> 's) \<Rightarrow> ('c, 's) rpc_method" where
  "agent_method f c =
     named_args [''parameters'', ''topic''] (\<lambda>args s.
       case dgetd args ''parameters'' PNone of
         PDict ps \<Rightarrow> unit_value (f c (dgetd args ''topic'' PNone) ps s)
       | _ \<Rightarrow> (Inl AttributeError, s))"

definition agent_endpoint :: "string \<Rightarrow> (string \<times> ('c, 's) rpc_method) list \<Rightarrow> ('c, 's) endpoint" where
  "agent_endpoint ns methods =
     \<lparr>ep_target = Some (Target None None (Some ns) (Some ''4.0'') None False []), ep_method = dget methods\<rparr>"

definition ComputeManager_http ::
  "('c \<Rightarrow> pyval \<Rightarrow> pyval \<Rightarrow> 's \<Rightarrow> unit result \<times> 's) \<Rightarrow> py_texts \<Rightarrow> (pyval \<Rightarrow> (int \<times> string) result) \<Rightarrow>
   (pyval \<Rightarrow> pyval \<Rightarrow> (int \<times> string) result) \<Rightarrow> ('c, 's) endpoint" where
  "ComputeManager_http link T requests_get requests_post =
     agent_endpoint ''http''
       [(''get'', agent_method (\<lambda>c topic. http_get (link c topic) T requests_get)),
        (''post'', agent_method (\<lambda>c topic. http_post (link c topic) T requests_post))]"

definition ComputeManager_docker ::
  "('c \<Rightarrow> pyval \<Rightarrow> pyval \<Rightarrow> 's \<Rightarrow> unit result \<times> 's) \<Rightarrow> py_texts \<Rightarrow> ovo_env \<Rightarrow>
   (pyval \<Rightarrow> 'd docker_client result) \<Rightarrow> ('c, 's \<times> 'd) endpoint" where
  "ComputeManager_docker link T E connect =
     agent_endpoint ''docker''
       [(''start_container'', agent_method (\<lambda>c topic. docker_start_container (link c topic) T E connect)),
        (''remove_container'', agent_method (\<lambda>c topic. docker_remove_container (link c topic) T E connect)),
        (''docker_command'', agent_method (\<lambda>c topic. docker_command (link c topic) T connect))]"

definition ComputeManager_linux_system ::
  "ovo_env \<Rightarrow> (pyval list \<Rightarrow> (pyval \<times> pyval) result) \<Rightarrow> ('c, 's) endpoint" where
  "ComputeManager_linux_system E shell =
     agent_endpoint ''linux_system''
       [(''ping'', agent_method (\<lambda>c topic ps s. (linux_ping E shell ps topic, s))),
        (''run_shell'', agent_method (\<lambda>c topic ps s. (linux_run_shell shell ps topic, s)))]"

section \<open>Contexts over the wire\<close>

fun plain_cval :: "cval \<Rightarrow> bool" where
  "plain_cval CNone = True"
| "plain_cval (CBool b) = True"
| "plain_cval (CStr s) = True"
| "plain_cval (CStrs xs) = True"
| "plain_cval _ = False"

text \<open>A context whose attributes are the kinds of value the services give it.\<close>

definition wire_ok :: "rctx \<Rightarrow> bool" where
  "wire_ok c \<longleftrightarrow>
     list_all plain_cval [c_auth_token c, c_user c, c_tenant c, c_domain c, c_user_domain c, c_project_domain c,
       c_is_admin c, c_is_admin_project c, c_read_only c, c_show_deleted c, c_resource_uuid c, c_roles c,
       c_request_id c, c_remote_address c, c_instance_lock_checked c, c_quota_class c, c_user_name c, c_project_name c] \<and>
     list_all dict_ok (c_service_catalog c)"

lemma all_texts_PStr: "all_texts (map PStr xs) = Inr xs"
  by (induction xs) simp_all

lemma entry_texts_dict: "entry_texts (PDict (map (\<lambda>(k, v). (k, PStr v)) d)) = Inr d"
  unfolding entry_texts_def map_values_def by (induction d) auto

lemma json_cval_back: "plain_cval v \<Longrightarrow> json_cval (cval_json v) = v"
  by (cases v) (simp_all add: all_texts_PStr)

lemma json_catalog_back: "json_cval (cval_json (CCatalog xs)) = (if xs = [] then CStrs [] else CCatalog xs)"
proof -
  have m: "map_r entry_texts (map (\<lambda>d. PDict (map (\<lambda>(k, v). (k, PStr v)) d)) xs) = Inr xs"
    by (induction xs) (simp_all add: entry_texts_dict)
  then show ?thesis by (cases xs) simp_all
qed

lemma to_dict_eq:
  "to_dict c =
   [(''user'', c_user c), (''tenant'', c_tenant c), (''domain'', c_domain c), (''user_domain'', c_user_domain c),
    (''project_domain'', c_project_domain c), (''is_admin'', c_is_admin c), (''read_only'', c_read_only c),
    (''show_deleted'', c_show_deleted c), (''auth_token'', c_auth_token c), (''request_id'', c_request_id c),
    (''resource_uuid'', c_resource_uuid c), (''roles'', c_roles c), (''user_identity'', CStr (user_identity c)),
    (''is_admin_project'', c_is_admin_project c), (''user_id'', c_user c), (''project_id'', c_tenant c),
    (''read_deleted'', CStr (c_read_deleted c)), (''remote_address'', c_remote_address c),
    (''timestamp'', CStr (strtime (c_timestamp c))), (''quota_class'', c_quota_class c), (''user_name'', c_user_name c),
    (''service_catalog'', CCatalog (c_service_catalog c)), (''project_name'', c_project_name c),
    (''instance_lock_checked'', c_instance_lock_checked c)]"
  by (simp add: to_dict_def base_to_dict_def dupdate_def)

lemma wire_context_plain: "wire_ok c \<Longrightarrow> plain_context (wire_context c)"
proof -
  assume w: "wire_ok c"
  have j: "json_ok (cval_json v)" if "plain_cval v" for v using that by (cases v) auto
  have "json_ok (cval_json (CCatalog (c_service_catalog c)))"
    using w by (auto simp: wire_ok_def list_all_iff comp_def split_beta)
  with w j show ?thesis by (auto simp: plain_context_def wire_context_def to_dict_eq wire_ok_def)
qed

text \<open>An empty catalog comes back as an empty list of texts, which reads the same.\<close>

lemma init_same:
  assumes "\<And>k x. k \<noteq> ''service_catalog'' \<Longrightarrow> dgetd kw k x = dgetd kw2 k x"
    and "dgetd kw ''service_catalog'' CNone = CCatalog []" "dgetd kw2 ''service_catalog'' CNone = CStrs []"
  shows "RequestContext_init utcnow fresh_id kw = RequestContext_init utcnow fresh_id kw2"
  unfolding RequestContext_init_def Let_def assms(2,3) by (simp add: assms(1))

definition reread :: "kwargs \<Rightarrow> kwargs" where
  "reread = map (\<lambda>(k, v). (k, json_cval (cval_json v)))"

lemma dget_reread: "dget (reread d) k = map_option (\<lambda>v. json_cval (cval_json v)) (dget d k)"
  unfolding reread_def by (induction d) auto

lemma context_back:
  assumes "wire_ok c"
  shows "context_of_wire utcnow fresh_id (wire_context c) = from_dict utcnow fresh_id (to_dict c)"
proof -
  have d: "map (\<lambda>(k, v). (k, json_cval v)) (wire_context c) = reread (to_dict c)"
    by (simp add: wire_context_def reread_def comp_def split_beta)
  have cat: "dget (to_dict c) ''service_catalog'' = Some (CCatalog (c_service_catalog c))" by (simp add: to_dict_eq)
  have plain: "plain_cval v" if "(k, v) \<in> set (to_dict c)" "k \<noteq> ''service_catalog''" for k v
    using that assms by (auto simp: to_dict_eq wire_ok_def)
  have same: "dget (reread (to_dict c)) k = dget (to_dict c) k" if "k \<noteq> ''service_catalog''" for k
    using plain [OF map_of_SomeD that] by (cases "dget (to_dict c) k") (simp_all add: dget_reread json_cval_back)
  show ?thesis
  proof (cases "c_service_catalog c = []")
    case True
    let ?d = "to_dict c" and ?e = "reread (to_dict c)"
    have g: "dgetd ?e k x = dgetd ?d k x" if "k \<noteq> ''service_catalog''" for k x
      unfolding dgetd_def same [OF that] by simp
    have c1: "dgetd ?d ''service_catalog'' CNone = CCatalog []" by (simp add: dgetd_def cat True)
    have c2: "dgetd ?e ''service_catalog'' CNone = CStrs []"
      by (simp add: dgetd_def dget_reread cat json_catalog_back True del: cval_json.simps json_cval.simps)
    show ?thesis
      unfolding context_of_wire_def d from_dict_def Let_def c1 c2
      by (simp add: g) (rule init_same [symmetric]; simp add: dgetd_def)
  next
    case False
    have "dget (reread (to_dict c)) ''service_catalog'' = dget (to_dict c) ''service_catalog''"
      by (simp add: dget_reread cat json_catalog_back False del: cval_json.simps json_cval.simps)
    with same have "dget (reread (to_dict c)) = dget (to_dict c)" by (intro ext) metis
    then show ?thesis unfolding context_of_wire_def d from_dict_def dgetd_def by simp
  qed
qed

section \<open>A report over the wire\<close>

text \<open>The agent's side: a call with a timeout of two minutes, whose timeout is only logged.\<close>

definition report_link ::
  "'s driver \<Rightarrow> rat \<Rightarrow> (string \<Rightarrow> bool \<Rightarrow> string) \<Rightarrow> 'c serializer \<Rightarrow> call_context \<Rightarrow> 'c \<Rightarrow> pyval \<Rightarrow> 's \<Rightarrow> unit result \<times> 's" where
  "report_link drv response_timeout dt S api ctxt arg s =
     (case ReportAPI_result drv response_timeout dt S api ctxt arg (Some 120) s of
        (Inl e, s1) \<Rightarrow> (Inl e, s1) | (Inr _, s1) \<Rightarrow> (Inr (), s1))"

definition agent_report ::
  "'s driver \<Rightarrow> rat \<Rightarrow> (string \<Rightarrow> bool \<Rightarrow> string) \<Rightarrow> 'c serializer \<Rightarrow> call_context \<Rightarrow> 'c \<Rightarrow> string \<Rightarrow> pyval \<Rightarrow> pyval \<Rightarrow> pyval \<Rightarrow>
   's \<Rightarrow> unit result \<times> 's" where
  "agent_report drv response_timeout dt S api ctxt =
     RPCClient_result (report_link drv response_timeout dt S api ctxt)"

definition report_context :: "string \<Rightarrow> string option \<Rightarrow> call_context" where
  "report_context topic level = (ReportAPI topic level)\<lparr>cc_timeout := Some 120\<rparr>"

lemma prepare_report: "prepare (no_overrides\<lparr>o_timeout := Some (Some 120)\<rparr>) (ReportAPI topic level) = Inr (report_context topic level)"
  by (simp add: prepare_def no_overrides_def check_version_def ReportAPI_def get_client_def target_call_def Target_def
      given_or_def report_context_def)

definition report_message :: "pyval \<Rightarrow> pydict" where
  "report_message arg =
     [(''method'', PStr ''result''), (''args'', PDict [(''arg'', arg)]), (''namespace'', PStr ''reportapi''), (''version'', PStr ''1.0'')]"

lemma report_outgoing:
  assumes "version_is_compatible (alias_cap [] level) (Some ''1.0'') = Inr True"
  shows "outgoing (RequestContextSerializer utcnow fresh_id None) (report_context topic level) c ''result'' [(''arg'', arg)] =
    Inr (wire_context c, report_message arg)"
proof -
  have t: "cc_target (report_context topic level) = Target None (Some topic) (Some ''reportapi'') (Some ''1.0'') None False []"
    "cc_version_cap (report_context topic level) = alias_cap [] level"
    by (simp_all add: report_context_def ReportAPI_def get_client_def)
  have "make_message (RequestContextSerializer utcnow fresh_id None) (cc_target (report_context topic level)) c ''result''
      [(''arg'', arg)] = Inr (report_message arg)"
    by (simp add: t Target_def make_message_def map_values_def RequestContextSerializer_def opt_entry_def report_message_def)
  with assms show ?thesis by (simp add: outgoing_Inr t) (simp add: Target_def RequestContextSerializer_def)
qed

lemma report_dispatch:
  assumes "wire_ok c" "from_dict utcnow fresh_id (to_dict c) = Inr c1"
  shows "rpc_dispatch (RequestContextSerializer utcnow fresh_id None) [report_endpoint env]
      \<lparr>in_ctxt = wire_context c, in_message = report_message arg\<rparr> st =
    unit_value (ReportRPCAPI_result (env c1) arg st)"
proof -
  have v: "version_is_compatible (Some ''1.1'') (Some ''1.0'') = Inr True" by code_simp
  have a: "accepts (report_endpoint env) (PStr ''reportapi'') (PStr ''1.0'') = Inr True"
    by (simp add: accepts_def is_namespace_def is_compatible_def implemented_def endpoint_target_def given_or_def
        report_endpoint_def Target_def v)
  have m: "ep_method (report_endpoint env) ''result'' = Some (\<lambda>c. named_args [''arg''] (\<lambda>args st.
      unit_value (ReportRPCAPI_result (env c) (dgetd args ''arg'' PNone) st)))"
    by (simp add: report_endpoint_def)
  show ?thesis
    by (simp add: rpc_dispatch_def report_message_def dgetd_def a m do_dispatch_def RequestContextSerializer_def
        context_back [OF assms(1)] assms(2) map_values_def named_args_def unit_value_def split: prod.split sum.split)
qed

text \<open>
  A report over the wire: when an agent reports a step, the report server of the conductor
  handles exactly that report, under the context read back from the agent's, whatever the
  driver packs around it; a report that was recorded returns nothing to the agent, and one that
  failed comes back as the exception that stands for the failure, or is dropped if that is a
  messaging timeout.
\<close>

lemma agent_report_one_server:
  assumes c: "wire_ok c" "from_dict utcnow fresh_id (to_dict c) = Inr c1"
    and cap: "version_is_compatible (alias_cap [] level) (Some ''1.0'') = Inr True" "topic \<noteq> []"
    and json: "json_ok out" "json_ok status" "json_ok stepid"
    and sv: "l_incoming (sv_listener sv) = []" "PStr (si_unique ids) \<notin> set (l_cache (sv_listener sv))"
    and ids: "si_unique ids \<noteq> []" "si_msg_id ids \<noteq> []" "PStr (si_msg_id ids) \<notin> fst ` set W"
    and run: "ReportRPCAPI_result (env c1) (report_arg meth out status stepid) (sv_app sv) = (r, st1)"
    and failed: "\<And>e. r = Inl e \<Longrightarrow> json_ok (exception_data A (am_raised A e))"
    and S: "S = RequestContextSerializer utcnow fresh_id None"
  shows "\<exists>sv1. agent_report (amqp_send A exmods raised (one_server A S [report_endpoint env] uid) ids) response_timeout dt S
      (ReportAPI topic level) c meth out status stepid (W, sv) =
      (case r of
         Inr _ \<Rightarrow> Inr ()
       | Inl e \<Rightarrow> (case call_answer A exmods raised (Inl e) of
           Inr _ \<Rightarrow> Inr ()
         | Inl e1 \<Rightarrow> if client_error e1 = MessagingTimeout then Inr () else Inl (client_error e1)), (W, sv1)) \<and>
    sv_app sv1 = st1"
proof -
  let ?arg = "report_arg meth out status stepid" and ?cc = "report_context topic level"
  let ?drv = "amqp_send A exmods raised (one_server A S [report_endpoint env] uid) ids"
  have arg: "to_primitive dt ?arg = ?arg" by (rule to_primitive_ok) (simp add: report_arg_def json)
  have t: "\<not> tg_fanout (cc_target ?cc)" "\<not> no_topic (cc_target ?cc)"
    using cap(2) by (simp_all add: report_context_def ReportAPI_def get_client_def Target_def no_topic_def)
  have j: "json_ok (PDict (report_message ?arg))" by (simp add: report_message_def report_arg_def json)
  have d: "rpc_dispatch S [report_endpoint env] \<lparr>in_ctxt = wire_context c, in_message = report_message ?arg\<rparr> (sv_app sv) =
      (case r of Inl e \<Rightarrow> Inl e | Inr _ \<Rightarrow> Inr PNone, st1)"
    unfolding S report_dispatch [OF c] run by (simp add: unit_value_def split: sum.split)
  have ok: "case (case r of Inl e \<Rightarrow> Inl e | Inr _ \<Rightarrow> Inr PNone) of
      Inr v \<Rightarrow> json_ok v | Inl e \<Rightarrow> json_ok (exception_data A (am_raised A e))"
    using failed by (cases r) auto
  from rpc_call_one_server [OF report_outgoing [OF cap(1), of utcnow fresh_id topic c ?arg, folded S] t j
      wire_context_plain [OF c(1)] sv ids d ok, of exmods raised uid response_timeout]
  obtain sv1 where call: "rpc_call ?drv response_timeout S ?cc c ''result'' [(''arg'', ?arg)] (W, sv) =
      (case call_answer A exmods raised (case r of Inl e \<Rightarrow> Inl e | Inr _ \<Rightarrow> Inr PNone) of
         Inl e \<Rightarrow> Inl (client_error e) | Inr v \<Rightarrow> deserialize_entity S c v, (W, sv1))" "sv_app sv1 = st1" by blast
  have id: "deserialize_entity S c v = Inr v" for v by (simp add: S RequestContextSerializer_def)
  have "ReportAPI_result ?drv response_timeout dt S (ReportAPI topic level) c ?arg (Some 120) (W, sv) =
      (case call_answer A exmods raised (case r of Inl e \<Rightarrow> Inl e | Inr _ \<Rightarrow> Inr PNone) of
         Inl e \<Rightarrow> Inl (client_error e) | Inr v \<Rightarrow> Inr v, (W, sv1))"
    by (simp add: ReportAPI_result_def timed_call_def prepare_report arg call(1) id split: sum.split)
  then show ?thesis using call(2)
    by (cases r)
      (auto simp: agent_report_def report_link_def RPCClient_result_def call_answer_def split: exn.splits sum.splits)
qed

section \<open>A step on an agent\<close>

fun no_objects :: "pyval \<Rightarrow> bool" where
  "no_objects (PList xs) = (\<forall>x \<in> set xs. no_objects x)"
| "no_objects (PDict d) = (\<not> dhas d ''nova_object.name'' \<and> (\<forall>e \<in> set d. no_objects (snd e)))"
| "no_objects v = True"

lemma nova_serialize_same: "nova_serialize v = v"
proof (induction v rule: nova_serialize.induct)
  case (2 d)
  have "map (\<lambda>(k, v). (k, nova_serialize v)) d = d" using 2 by (intro map_idI) auto
  then show ?case by simp
qed (auto intro!: map_idI)

lemma nova_deserialize_same:
  "no_objects v \<Longrightarrow> nova_deserialize process v = Inr v"
  "\<forall>x \<in> set xs. no_objects x \<Longrightarrow> nova_deserialize_list process xs = Inr xs"
  "\<forall>e \<in> set d. no_objects (snd e) \<Longrightarrow> nova_deserialize_dict process d = Inr d"
  by (induction process v and process xs and process d rule: nova_deserialize_nova_deserialize_list_nova_deserialize_dict.induct) auto

definition step_message :: "string \<Rightarrow> string \<Rightarrow> pyval \<Rightarrow> pyval \<Rightarrow> pydict" where
  "step_message ns meth parameters topic =
     [(''method'', PStr meth), (''args'', PDict [(''parameters'', parameters), (''topic'', topic)]),
      (''namespace'', PStr ns), (''version'', PStr ''4.0'')]"

lemma step_prepared:
  assumes "ComputeCaseAPI compute_topic (Some ns) level = Inr api"
  shows "\<exists>cc. prepare (version_4_0\<lparr>o_server := Some (Some host)\<rparr>) api = Inr cc \<and>
    cc_target cc = Target None (Some compute_topic) (Some ns) (Some ''4.0'') (Some host) False [] \<and>
    cc_version_cap cc = alias_cap compute_aliases level"
proof -
  have v: "check_version (Some (Some ''4.0'')) = Inr ()" by code_simp
  from assms have "api = get_client (Target None (Some compute_topic) (Some ns) (Some ''4.0'') None False []) (alias_cap compute_aliases level)"
    by (simp add: ComputeCaseAPI_def given_or_def split: if_splits)
  then show ?thesis
    by (simp add: prepare_def version_4_0_def no_overrides_def v get_client_def target_call_def Target_def given_or_def)
qed

lemma step_dispatch:
  assumes "wire_ok c" "from_dict utcnow fresh_id (to_dict c) = Inr c1" "no_objects parameters" "no_objects topic"
    and "\<forall>ep \<in> set eps. \<exists>b. accepts ep (PStr ns) (PStr ''4.0'') = Inr b"
    and "find (\<lambda>e. handles e (PStr ns) (PStr ''4.0'') meth) eps = Some ep" "ep_method ep meth = Some h"
    and "h c1 [(''parameters'', parameters), (''topic'', topic)] st = (res, st1)"
  shows "\<exists>res1. rpc_dispatch (RequestContextSerializer utcnow fresh_id (Some (NovaObjectSerializer process))) eps
      \<lparr>in_ctxt = wire_context c, in_message = step_message ns meth parameters topic\<rparr> st = (res1, st1)"
proof -
  have "find_method (PStr ns) (PStr ''4.0'') (PStr meth) False eps = Inr h"
    using assms(5-7) by (simp add: find_method_first)
  then show ?thesis
    by (simp add: rpc_dispatch_def step_message_def dgetd_def do_dispatch_def RequestContextSerializer_def
        context_back [OF assms(1)] assms(2,8) map_values_def NovaObjectSerializer_def nova_deserialize_same assms(3,4)
        split: sum.split)
qed

text \<open>The cast that starts a step runs the method on the agent, with what was passed.\<close>

lemma step_over_wire:
  assumes api: "ComputeCaseAPI compute_topic (Some ns) level = Inr api" "compute_topic \<noteq> []"
      "version_is_compatible (alias_cap compute_aliases level) (Some ''4.0'') = Inr True"
    and c: "wire_ok c" "from_dict utcnow fresh_id (to_dict c) = Inr c1"
    and plain: "json_ok parameters" "no_objects parameters" "json_ok topic" "no_objects topic"
    and sv: "l_incoming (sv_listener sv) = []" "PStr (si_unique ids) \<notin> set (l_cache (sv_listener sv))"
    and eps: "\<forall>ep \<in> set eps. \<exists>b. accepts ep (PStr ns) (PStr ''4.0'') = Inr b"
      "find (\<lambda>e. handles e (PStr ns) (PStr ''4.0'') meth) eps = Some ep" "ep_method ep meth = Some h"
    and run: "h c1 [(''parameters'', parameters), (''topic'', topic)] (sv_app sv) = (res, st1)"
    and S: "S = RequestContextSerializer utcnow fresh_id (Some (NovaObjectSerializer process))"
  shows "\<exists>sv1. ComputeCaseAPI_run (amqp_send A exmods raised (one_server A S eps uid) ids) S api c host meth parameters topic (W, sv) =
      (Inr (), (W, sv1)) \<and> sv_app sv1 = st1 \<and> l_incoming (sv_listener sv1) = []"
proof -
  obtain cc where cc: "prepare (version_4_0\<lparr>o_server := Some (Some host)\<rparr>) api = Inr cc"
    "cc_target cc = Target None (Some compute_topic) (Some ns) (Some ''4.0'') (Some host) False []"
    "cc_version_cap cc = alias_cap compute_aliases level"
    using step_prepared [OF api(1)] by blast
  have "make_message S (cc_target cc) c meth [(''parameters'', parameters), (''topic'', topic)] =
      Inr (step_message ns meth parameters topic)"
    by (simp add: cc(2) Target_def make_message_def map_values_def S RequestContextSerializer_def NovaObjectSerializer_def
        nova_serialize_same opt_entry_def step_message_def)
  then have out: "outgoing S cc c meth [(''parameters'', parameters), (''topic'', topic)] =
      Inr (wire_context c, step_message ns meth parameters topic)"
    using api(3) by (simp add: outgoing_Inr cc(3)) (simp add: cc(2) Target_def S RequestContextSerializer_def)
  have t: "\<not> no_topic (cc_target cc)" using api(2) by (simp add: cc(2) Target_def no_topic_def)
  have j: "json_ok (PDict (step_message ns meth parameters topic))" by (simp add: step_message_def plain)
  obtain res1 where d: "rpc_dispatch S eps \<lparr>in_ctxt = wire_context c, in_message = step_message ns meth parameters topic\<rparr> (sv_app sv) = (res1, st1)"
    using step_dispatch [OF c plain(2,4) eps run] S by blast
  from rpc_cast_one_server [OF out t j wire_context_plain [OF c(1)] sv d, of A exmods raised uid W]
  show ?thesis by (auto simp: ComputeCaseAPI_run_def cc(1))
qed

section \<open>From the cast to the plan\<close>

text \<open>The report call of a step: the topic is a text, or there is none to send to.\<close>

definition report_to ::
  "'s driver \<Rightarrow> rat \<Rightarrow> (string \<Rightarrow> bool \<Rightarrow> string) \<Rightarrow> 'c serializer \<Rightarrow> string option \<Rightarrow> 'c \<Rightarrow> pyval \<Rightarrow> pyval \<Rightarrow> 's \<Rightarrow>
   unit result \<times> 's" where
  "report_to drv response_timeout dt S level c topic =
     (case topic of
        PStr t \<Rightarrow> report_link drv response_timeout dt S (ReportAPI t level) c
      | _ \<Rightarrow> (\<lambda>arg s. (Inl invalid_target, s)))"

text \<open>The handlers of the HTTP agent by the names of their steps.\<close>

definition http_agent ::
  "('c \<Rightarrow> pyval \<Rightarrow> pyval \<Rightarrow> 's \<Rightarrow> unit result \<times> 's) \<Rightarrow> py_texts \<Rightarrow> (pyval \<Rightarrow> (int \<times> string) result) \<Rightarrow>
   (pyval \<Rightarrow> pyval \<Rightarrow> (int \<times> string) result) \<Rightarrow> (string \<Rightarrow> bool \<Rightarrow> string) \<Rightarrow> pyval \<Rightarrow> ('c, 's) endpoint list" where
  "http_agent link T requests_get requests_post dt service_name =
     [base_endpoint dt service_name PNone, ComputeManager_http link T requests_get requests_post]"

definition http_step ::
  "('c \<Rightarrow> pyval \<Rightarrow> pyval \<Rightarrow> 's \<Rightarrow> unit result \<times> 's) \<Rightarrow> py_texts \<Rightarrow> (pyval \<Rightarrow> (int \<times> string) result) \<Rightarrow>
   (pyval \<Rightarrow> pyval \<Rightarrow> (int \<times> string) result) \<Rightarrow> string \<Rightarrow> ('c, 's) rpc_method" where
  "http_step link T requests_get requests_post meth =
     agent_method (\<lambda>c topic. if meth = ''get'' then http_get (link c topic) T requests_get
       else http_post (link c topic) T requests_post)"

lemma agent_finds_step:
  fixes link :: "'c \<Rightarrow> pyval \<Rightarrow> pyval \<Rightarrow> 's \<Rightarrow> unit result \<times> 's"
  assumes eps: "eps = http_agent link T requests_get requests_post dt name" and meth: "meth \<in> {''get'', ''post''}"
  shows "\<forall>ep \<in> set eps. \<exists>b. accepts ep (PStr ''http'') (PStr ''4.0'') = Inr b"
    and "find (\<lambda>e. handles e (PStr ''http'') (PStr ''4.0'') meth) eps = Some (ComputeManager_http link T requests_get requests_post)"
    and "ep_method (ComputeManager_http link T requests_get requests_post) meth =
      Some (http_step link T requests_get requests_post meth)"
proof -
  have v: "version_is_compatible (Some ''4.0'') (Some ''4.0'') = Inr True" by code_simp
  have a: "accepts (base_endpoint dt name PNone :: ('c, 's) endpoint) (PStr ''http'') (PStr ''4.0'') = Inr False"
    by (simp add: accepts_def base_endpoint_def endpoint_target_def given_or_def is_namespace_def Target_def)
  have b: "accepts (ComputeManager_http link T requests_get requests_post) (PStr ''http'') (PStr ''4.0'') = Inr True"
    by (simp add: accepts_def ComputeManager_http_def agent_endpoint_def endpoint_target_def given_or_def is_namespace_def
        is_compatible_def implemented_def Target_def v)
  show g: "ep_method (ComputeManager_http link T requests_get requests_post) meth =
      Some (http_step link T requests_get requests_post meth)"
    using meth by (auto simp: ComputeManager_http_def agent_endpoint_def http_step_def)
  show "\<forall>ep \<in> set eps. \<exists>b. accepts ep (PStr ''http'') (PStr ''4.0'') = Inr b"
    by (simp add: eps http_agent_def a b ex_bool_eq)
  show "find (\<lambda>e. handles e (PStr ''http'') (PStr ''4.0'') meth) eps = Some (ComputeManager_http link T requests_get requests_post)"
    by (simp add: eps http_agent_def handles_def a b g)
qed

text \<open>What a step reports: the handler runs one report call, with what \<open>http_said\<close> gives.\<close>

definition http_said :: "py_texts \<Rightarrow> pyval \<Rightarrow> (int \<times> string) result \<Rightarrow> string \<Rightarrow> string \<Rightarrow> bool" where
  "http_said T url asked out status \<longleftrightarrow>
     (case http_outcome T url asked of
        Inr (text, st) \<Rightarrow> text = PStr out \<and> st = status
      | Inl e \<Rightarrow> pt_message_str T e = Inr out \<and> status = ''FAIL'')"

lemma http_step_reports:
  assumes ps: "json_ok (PDict ps)" and meth: "meth \<in> {''get'', ''post''}"
    and url: "url = dgetd ps ''url'' PNone"
    and asked: "asked = (if meth = ''get'' then requests_get url else requests_post url (dgetd ps ''data'' PNone))"
    and said: "http_said T url asked out status"
    and report: "RPCClient_result (link c topic) ''get'' (PStr out) (PStr status) (dgetd ps ''stepid'' PNone) s = (Inr (), s1)"
  shows "http_step link T requests_get requests_post meth c [(''parameters'', PDict ps), (''topic'', topic)] s = (Inr PNone, s1)"
proof -
  have "run_and_report (link c topic) (http_failure T) ''get'' (dgetd ps ''stepid'' PNone) (http_outcome T url asked) s = (Inr (), s1)"
    using said report by (auto simp: http_said_def run_and_report_def report_failure_def http_failure_def split: sum.splits)
  then have "(if meth = ''get'' then http_get (link c topic) T requests_get else http_post (link c topic) T requests_post) ps s = (Inr (), s1)"
    using meth by (auto simp: http_get_def http_post_def json_dumps_ok [OF ps] Let_def url asked)
  then show ?thesis by (auto simp: http_step_def agent_method_def named_args_def dgetd_def unit_value_def split: if_splits)
qed

lemma json_ok_value: "json_ok (PDict d) \<Longrightarrow> json_ok (dgetd d k PNone)"
  by (auto simp: dgetd_def dest: map_of_SomeD split: option.split)

text \<open>
  C2: from the cast to the plan. Casting an HTTP step, \<^verbatim>\<open>get\<close> or \<^verbatim>\<open>post\<close>, to an agent makes the
  request, and its outcome arrives as one report at the report server of the conductor. An
  answer is reported as its text, with \<^verbatim>\<open>PASS\<close> for code 200 and \<^verbatim>\<open>FAIL\<close> otherwise; a request that
  raises, and one whose URL has no plain text to be logged, are reported as the text of the
  error, with \<^verbatim>\<open>FAIL\<close>. When the server can record the report, the plan is what recording it
  makes of it, and neither the caller nor the agent is left with a call that waits.
  (An error without a plain text is not reported: \<open>unprintable_error_unreported\<close>.)
\<close>

theorem http_step_recorded:
  assumes api: "ComputeCaseAPI compute_topic (Some ''http'') level = Inr api" "compute_topic \<noteq> []"
      "version_is_compatible (alias_cap compute_aliases level) (Some ''4.0'') = Inr True"
    and report: "version_is_compatible (alias_cap [] base_level) (Some ''1.0'') = Inr True" "topic \<noteq> []"
    and c: "wire_ok c" "from_dict utcnow fresh_id (to_dict c) = Inr c1"
      "wire_ok c1" "from_dict utcnow2 fresh_id2 (to_dict c1) = Inr c2"
    and ps: "json_ok (PDict ps)" "no_objects (PDict ps)"
    and meth: "meth \<in> {''get'', ''post''}" and url: "url = dgetd ps ''url'' PNone"
    and asked: "asked = (if meth = ''get'' then requests_get url else requests_post url (dgetd ps ''data'' PNone))"
    and outcome:
      "(\<exists>code shown. asked = Inr (code, out) \<and> pt_str T url = Inr shown \<and> status = (if code = 200 then ''PASS'' else ''FAIL'')) \<or>
       (\<exists>e. (asked = Inl e \<or> (\<exists>answer. asked = Inr answer \<and> pt_str T url = Inl e)) \<and>
          pt_message_str T e = Inr out \<and> status = ''FAIL'')"
    and agent: "l_incoming (sv_listener sv) = []" "PStr (si_unique ids) \<notin> set (l_cache (sv_listener sv))"
      "sv_app sv = (W2, rb)"
    and conductor: "l_incoming (sv_listener rb) = []" "PStr (si_unique ids2) \<notin> set (l_cache (sv_listener rb))"
      "si_unique ids2 \<noteq> []" "si_msg_id ids2 \<noteq> []" "PStr (si_msg_id ids2) \<notin> fst ` set W2"
    and recorded: "ReportRPCAPI_result (env c2)
        (report_arg ''get'' (PStr out) (PStr status) (dgetd ps ''stepid'' PNone)) (sv_app rb) = (Inr (), st1)"
    and S: "S = RequestContextSerializer utcnow fresh_id (Some (NovaObjectSerializer process))"
      "S2 = RequestContextSerializer utcnow2 fresh_id2 None"
    and link: "link = report_to (amqp_send A exmods raised (one_server A S2 [report_endpoint env] uid2) ids2) response_timeout dt S2 base_level"
  shows "\<exists>sv1 rb1. ComputeCaseAPI_run
      (amqp_send A exmods raised (one_server A S (http_agent link T requests_get requests_post dt name) uid) ids)
      S api c host meth (PDict ps) (PStr topic) (W, sv) = (Inr (), (W, sv1)) \<and>
    sv_app sv1 = (W2, rb1) \<and> sv_app rb1 = st1"
proof -
  let ?id = "dgetd ps ''stepid'' PNone"
  let ?drv = "amqp_send A exmods raised (one_server A S2 [report_endpoint env] uid2) ids2"
  obtain rb1 where rb1: "agent_report ?drv response_timeout dt S2 (ReportAPI topic base_level) c1 ''get'' (PStr out) (PStr status) ?id (W2, rb) =
      (Inr (), (W2, rb1))" "sv_app rb1 = st1"
    using agent_report_one_server [where env = env, OF c(3,4) report _ _ json_ok_value [OF ps(1)] conductor recorded _ S(2)]
    by fastforce
  have said: "http_said T url asked out status"
    using outcome by (auto simp: http_said_def http_outcome_def)
  have run: "http_step link T requests_get requests_post meth c1 [(''parameters'', PDict ps), (''topic'', PStr topic)] (sv_app sv) =
      (Inr PNone, (W2, rb1))"
    unfolding agent(3)
    by (rule http_step_reports [where asked = asked and requests_get = requests_get and requests_post = requests_post])
      (use ps(1) meth url asked said rb1(1) in \<open>simp_all only: link report_to_def agent_report_def pyval.case\<close>)
  obtain sv1 where
    "ComputeCaseAPI_run (amqp_send A exmods raised (one_server A S (http_agent link T requests_get requests_post dt name) uid) ids)
       S api c host meth (PDict ps) (PStr topic) (W, sv) = (Inr (), (W, sv1))" "sv_app sv1 = (W2, rb1)"
    using step_over_wire [OF api c(1,2) ps _ _ agent(1,2) agent_finds_step [OF refl meth] run S(1)] by fastforce
  with rb1(2) show ?thesis by blast
qed

section \<open>The cap suits the deployment\<close>

lemma history_ascending:
  assumes "i \<le> j" "j < length SERVICE_VERSION_HISTORY"
  shows "version_is_compatible (Some (SERVICE_VERSION_HISTORY ! j)) (Some (SERVICE_VERSION_HISTORY ! i)) = Inr True"
proof -
  have "list_all (\<lambda>j. list_all (\<lambda>i. version_is_compatible (Some (SERVICE_VERSION_HISTORY ! j)) (Some (SERVICE_VERSION_HISTORY ! i)) = Inr True)
      [0..<Suc j]) [0..<length SERVICE_VERSION_HISTORY]" by code_simp
  with assms show ?thesis by (auto simp: list_all_iff simp del: upt_Suc)
qed


text \<open>
  C19: the automatic version cap follows the oldest compute service. Of the minimum version that
  the process goes by (the cached one, if it has one): a positive one that this release knows
  gives the cap of its entry in the history, which is remembered; 0 gives 4.11, not remembered;
  one beyond this release raises, and nothing is remembered. Every compute service that counts,
  has at least that minimum and is known to this release implements the cap of a positive
  minimum: no message within it is too new for the service. These are all of the counted ones
  that are known, where the cached minimum is current or nothing is cached.
\<close>

theorem automatic_cap_suits:
  assumes s: "versioned s" and m: "m = known_minimum s ''nova-compute''" "0 \<le> m"
  shows "\<exists>c. determine_version_cap (None, s) =
      (if m = 0 then (Inr ''4.11'', (None, s\<lparr>min_version_cache := c\<rparr>))
       else if m \<le> SERVICE_VERSION
       then (Inr (SERVICE_VERSION_HISTORY ! nat m), (Some (SERVICE_VERSION_HISTORY ! nat m), s\<lparr>min_version_cache := c\<rparr>))
       else (Inl (service_too_old (Some SERVICE_VERSION) m), (None, s\<lparr>min_version_cache := c\<rparr>))) \<and>
    (\<forall>sw \<in> set (counted_services s ''nova-compute'').
       (m \<le> version_number sw \<longrightarrow> version_number sw \<le> SERVICE_VERSION \<longrightarrow>
          version_is_compatible (Some (SERVICE_VERSION_HISTORY ! nat (version_number sw))) (Some (SERVICE_VERSION_HISTORY ! nat m)) = Inr True) \<and>
       (cache_current s \<or> dget (min_version_cache s) ''nova-compute'' = None \<longrightarrow> m \<le> version_number sw))"
proof -
  have nova: "starts_with ''nova-'' ''nova-compute''" by (simp add: starts_with_def)
  obtain c where g: "get_minimum_version ''nova-compute'' s = (Inr m, s\<lparr>min_version_cache := c\<rparr>)"
    using get_minimum_version_known [OF s nova] m(1) by metis
  have len: "length SERVICE_VERSION_HISTORY = 16" by (simp add: SERVICE_VERSION_HISTORY_def)
  have "determine_version_cap (None, s) =
      (if m = 0 then (Inr ''4.11'', (None, s\<lparr>min_version_cache := c\<rparr>))
       else if m \<le> SERVICE_VERSION
       then (Inr (SERVICE_VERSION_HISTORY ! nat m), (Some (SERVICE_VERSION_HISTORY ! nat m), s\<lparr>min_version_cache := c\<rparr>))
       else (Inl (service_too_old (Some SERVICE_VERSION) m), (None, s\<lparr>min_version_cache := c\<rparr>)))"
    using m(2) by (simp add: determine_version_cap_def g py_index_def len SERVICE_VERSION_def compute_aliases_def dgetd_def)
  moreover have "version_is_compatible (Some (SERVICE_VERSION_HISTORY ! nat (version_number sw))) (Some (SERVICE_VERSION_HISTORY ! nat m)) = Inr True"
    if "m \<le> version_number sw" "version_number sw \<le> SERVICE_VERSION" for sw
    using that by (intro history_ascending) (simp_all add: len SERVICE_VERSION_def nat_mono)
  moreover have "m \<le> version_number sw"
    if "sw \<in> set (counted_services s ''nova-compute'')" "cache_current s \<or> dget (min_version_cache s) ''nova-compute'' = None" for sw
    using that(2) known_minimum_current [of s] counted_at_least [OF that(1)] by (auto simp: m(1) known_minimum_def)
  ultimately show ?thesis by blast
qed

text \<open>
  A service whose version is 0 is taken for none at all: the cap is then newer than what that
  service implements.
\<close>

lemma version_zero_cap_too_new:
  assumes "versioned s" "cache_current s" "deployment_minimum s [''nova-compute''] = 0"
  shows "fst (determine_version_cap (None, s)) = Inr ''4.11'' \<and>
    version_is_compatible (Some (SERVICE_VERSION_HISTORY ! 0)) (Some ''4.11'') = Inr False"
proof -
  have nova: "starts_with ''nova-'' ''nova-compute''" by (simp add: starts_with_def)
  obtain c where "get_minimum_version ''nova-compute'' s = (Inr 0, s\<lparr>min_version_cache := c\<rparr>)"
    using get_minimum_version_one [OF assms(1) nova assms(2)] assms(3) by auto
  then have "fst (determine_version_cap (None, s)) = Inr ''4.11''"
    by (simp add: determine_version_cap_def compute_aliases_def dgetd_def)
  moreover have "version_is_compatible (Some (SERVICE_VERSION_HISTORY ! 0)) (Some ''4.11'') = Inr False" by code_simp
  ultimately show ?thesis by blast
qed

text \<open>With the automatic level no step can be started.\<close>

lemma steps_need_a_fixed_level: "ComputeCaseAPI topic namespace (Some ''auto'') = Inl AttributeError"
  by (simp add: ComputeCaseAPI_def)

section \<open>Samples\<close>

theorem automatic_cap_suits_witness:
  "\<exists>st1. determine_version_cap (None, sample_state) = (Inr ''4.13'', (Some ''4.13'', st1)) \<and>
     version_is_compatible (Some ''4.13'') (Some ''4.13'') = Inr True"
proof -
  have c: "counted_services sample_state ''nova-compute'' = [sample_service]" "version_number sample_service = 15"
    "known_minimum sample_state ''nova-compute'' = 15"
    by code_simp+
  show ?thesis
    using automatic_cap_suits [OF sample_state_ok(2) refl]
    by (auto simp: c SERVICE_VERSION_def SERVICE_VERSION_HISTORY_def)
qed

definition sample_context :: rctx where
  "sample_context = projr (RequestContext_init (DT 2016 1 2 3 4 5 6) ''req-1'' sample_kwargs)"

definition sample_report_bus :: "(report_server \<times> sysdb) server" where
  "sample_report_bus =
     \<lparr>sv_listener = \<lparr>l_cache = [], l_incoming = []\<rparr>, sv_sent = [], sv_app = (sample_server, sample_db)\<rparr>"

definition sample_step_api :: call_context where
  "sample_step_api = projr (ComputeCaseAPI ''compute'' (Some ''http'') None)"

definition sample_agent_bus :: "(waiters \<times> (report_server \<times> sysdb) server) server" where
  "sample_agent_bus = \<lparr>sv_listener = \<lparr>l_cache = [], l_incoming = []\<rparr>, sv_sent = [], sv_app = ([], sample_report_bus)\<rparr>"

theorem http_step_recorded_witness:
  "\<exists>sv1 rb1. ComputeCaseAPI_run
      (amqp_send sample_amqp [] (\<lambda>f. RuntimeError)
        (one_server sample_amqp (RequestContextSerializer (DT 2017 1 1 0 0 0 0) ''req-2'' (Some (NovaObjectSerializer (\<lambda>d. Inr PNone))))
          (http_agent (report_to (amqp_send sample_amqp [] (\<lambda>f. RuntimeError)
              (one_server sample_amqp (RequestContextSerializer (DT 2017 1 1 0 0 0 0) ''req-2'' None)
                [report_endpoint (\<lambda>c. sample_request)] ''u2'') sample_ids) 60 (\<lambda>t z. t)
              (RequestContextSerializer (DT 2017 1 1 0 0 0 0) ''req-2'' None) None)
            sample_texts (\<lambda>u. Inr (200, ''ok'')) (\<lambda>u d. Inr (200, ''ok'')) (\<lambda>t z. t) (PStr ''compute'')) ''u3'') sample_ids)
      (RequestContextSerializer (DT 2017 1 1 0 0 0 0) ''req-2'' (Some (NovaObjectSerializer (\<lambda>d. Inr PNone))))
      sample_step_api sample_context ''h'' ''get'' (PDict [(''url'', PStr ''http://h/''), (''stepid'', PInt 3)]) (PStr ''case-1'')
      ([], sample_agent_bus) = (Inr (), ([], sv1)) \<and>
    sv_app sv1 = ([], rb1) \<and> finish_flag (fst (sv_app rb1)) = 0"
proof -
  let ?ps = "[(''url'', PStr ''http://h/''), (''stepid'', PInt 3)]"
  let ?run = "ReportRPCAPI_result sample_request (report_arg ''get'' (PStr ''ok'') (PStr ''PASS'') (PInt 3)) (sample_server, sample_db)"
  let ?reread = "\<lambda>c. from_dict (DT 2017 1 1 0 0 0 0) ''req-2'' (to_dict c)"
  have api: "ComputeCaseAPI ''compute'' (Some ''http'') None = Inr sample_step_api"
    by (simp add: sample_step_api_def ComputeCaseAPI_def)
  have v: "version_is_compatible (alias_cap compute_aliases None) (Some ''4.0'') = Inr True"
    "version_is_compatible (alias_cap [] None) (Some ''1.0'') = Inr True" by code_simp+
  have again: "?reread c = Inr (projr (?reread c))" if "\<not> isl (?reread c)" for c using that by (cases "?reread c") auto
  have w: "wire_ok sample_context" "\<not> isl (?reread sample_context)" "wire_ok (projr (?reread sample_context))"
    "\<not> isl (?reread (projr (?reread sample_context)))" by code_simp+
  have run: "?run = (Inr (), snd ?run)" by (rule prod_eqI) (simp_all, code_simp)
  have flag: "finish_flag (fst (snd ?run)) = 0" by code_simp
  have run': "ReportRPCAPI_result ((\<lambda>c. sample_request) (projr (?reread (projr (?reread sample_context)))))
      (report_arg ''get'' (PStr ''ok'') (PStr ''PASS'') (dgetd ?ps ''stepid'' PNone))
      (sv_app sample_report_bus) = (Inr (), snd ?run)"
    using run by (simp add: sample_report_bus_def dgetd_def)
  have js: "json_ok (PDict ?ps)" "no_objects (PDict ?ps)" by (simp_all add: dhas_def)
  have a: "l_incoming (sv_listener sample_agent_bus) = []" "PStr (si_unique sample_ids) \<notin> set (l_cache (sv_listener sample_agent_bus))"
    "sv_app sample_agent_bus = ([], sample_report_bus)"
    "l_incoming (sv_listener sample_report_bus) = []" "PStr (si_unique sample_ids) \<notin> set (l_cache (sv_listener sample_report_bus))"
    "si_unique sample_ids \<noteq> []" "si_msg_id sample_ids \<noteq> []" "PStr (si_msg_id sample_ids) \<notin> fst ` set ([] :: waiters)"
    by (simp_all add: sample_agent_bus_def sample_report_bus_def sample_ids_def)
  have o1: "(\<exists>code shown. Inr (200, ''ok'') = (Inr (code, ''ok'') :: (int \<times> string) result) \<and>
        pt_str sample_texts (dgetd ?ps ''url'' PNone) = Inr shown \<and> ''PASS'' = (if code = 200 then ''PASS'' else ''FAIL'')) \<or>
      (\<exists>e. (Inr (200, ''ok'') = (Inl e :: (int \<times> string) result) \<or>
          (\<exists>answer. Inr (200, ''ok'') = (Inr answer :: (int \<times> string) result) \<and> pt_str sample_texts (dgetd ?ps ''url'' PNone) = Inl e)) \<and>
        pt_message_str sample_texts e = Inr ''ok'' \<and> ''PASS'' = ''FAIL'')"
    by (simp add: dgetd_def sample_texts_def)
  have o2: "Inr (200, ''ok'') = (if ''get'' = ''get'' then (\<lambda>u. Inr (200, ''ok'') :: (int \<times> string) result) (dgetd ?ps ''url'' PNone)
      else (\<lambda>u d. Inr (200, ''ok'')) (dgetd ?ps ''url'' PNone) (dgetd ?ps ''data'' PNone))" by simp
  have o3: "''get'' \<in> {''get'', ''post''}" by simp
  from http_step_recorded [where env = "\<lambda>c. sample_request" and requests_get = "\<lambda>u. Inr (200, ''ok'')"
      and requests_post = "\<lambda>u d. Inr (200, ''ok'')" and meth = "''get''", OF api _ v _ w(1) again [OF w(2)] w(3) again [OF w(4)] js o3 refl o2 o1 a run' refl refl refl]
  show ?thesis using flag by fastforce
qed

end
