(* ===== verification/Routing.thy ===== *)
theory Routing
  imports Wsgi
begin

text \<open>
  How the API is put together when it starts (\<^verbatim>\<open>nova/api/openstack/__init__.py\<close>,
  \<^verbatim>\<open>extensions.py\<close>, \<^verbatim>\<open>compute/__init__.py\<close>, \<^verbatim>\<open>compute/extension_info.py\<close>): extensions are
  checked and registered, their resources become routes and resource objects, and their
  controller extensions are hung on the resources of others. Resource objects are shared, by
  routes and by resources that inherit from them; so they are kept in a store and referred to
  by their position in it.
\<close>

section \<open>Controllers\<close>

text \<open>A callable member of a controller class, with the marks the decorators left on it.\<close>

record class_member =
  wsgi_action :: "string option"
  wsgi_extends :: "(string \<times> string option) option"

definition is_action :: "class_member \<Rightarrow> bool" where
  "is_action m \<longleftrightarrow> wsgi_action m \<noteq> None \<and> wsgi_action m \<noteq> Some []"

definition class_actions :: "(string \<times> string) list list \<Rightarrow> (string \<times> class_member) list \<Rightarrow> (string \<times> string) list" where
  "class_actions bases members =
     fold (\<lambda>(key, m) actions. if is_action m then dset (the (wsgi_action m)) key actions else actions)
       members (foldl dupdate [] bases)"

definition class_extensions :: "(string \<times> class_member) list \<Rightarrow> (string \<times> string option) list" where
  "class_extensions members =
     List.map_filter (\<lambda>(key, m). if is_action m then None else wsgi_extends m) members"

record 's controller =
  c_methods :: "string \<Rightarrow> 's api_method option"
  c_actions :: "(string \<times> string) list"
  c_handlers :: "string \<Rightarrow> extension option"
  c_extensions :: "(string \<times> string option) list"

section \<open>Routes\<close>

text \<open>
  What the mapper is told: a resource with its path prefix, names, the resource object, the
  additional actions with their HTTP methods, and the parent's member and collection names;
  or a single connected path; or a redirection.
\<close>

record resource_route =
  path_prefix :: "string option"
  r_member :: string
  r_collection :: string
  r_controller :: nat
  r_collection_actions :: "(string \<times> string) list"
  r_member_actions :: "(string \<times> string) list"
  r_parent :: "(string \<times> string) option"

datatype api_route =
    ResourceRoute resource_route
  | PathRoute string string nat string "string list"
  | Redirection string string

definition project_id_token :: "string option \<Rightarrow> string" where
  "project_id_token regex =
     ''{project_id:'' @
     (case regex of
        Some r \<Rightarrow> if r \<noteq> [] then r else ''[0-9a-f'' @ [CHR 0x5C] @ ''-]+''
      | None \<Rightarrow> ''[0-9a-f'' @ [CHR 0x5C] @ ''-]+'') @ ''}''"

definition parent_prefix :: "string \<times> string \<Rightarrow> string" where
  "parent_prefix p = snd p @ ''/:'' @ fst p @ ''_id''"

definition ProjectMapper_resource :: "string option \<Rightarrow> resource_route \<Rightarrow> api_route list" where
  "ProjectMapper_resource regex c =
     (let token = project_id_token regex
      in case r_parent c of
           None \<Rightarrow> [ResourceRoute (c\<lparr>path_prefix := Some (token @ ''/'')\<rparr>),
                    ResourceRoute (c\<lparr>path_prefix := None\<rparr>)]
         | Some p \<Rightarrow> [ResourceRoute (c\<lparr>path_prefix := Some (token @ ''/'' @ parent_prefix p)\<rparr>),
                      ResourceRoute (c\<lparr>path_prefix := Some (parent_prefix p)\<rparr>)])"

definition PlainMapper_resource :: "resource_route \<Rightarrow> api_route list" where
  "PlainMapper_resource c =
     (case r_parent c of
        None \<Rightarrow> [ResourceRoute c]
      | Some p \<Rightarrow> [ResourceRoute (c\<lparr>path_prefix := Some (parent_prefix p)\<rparr>)])"

text \<open>The keyword arguments of a connected path; a format matches only these two words.\<close>

definition APIMapper_connect :: "pydict \<Rightarrow> pydict result" where
  "APIMapper_connect kargs =
     (let kargs1 = (if dhas kargs ''requirements'' then kargs else dset ''requirements'' (PDict []) kargs)
      in case dget kargs1 ''requirements'' of
           Some (PDict d) \<Rightarrow>
             Inr (if truthy (dgetd d ''format'' PNone) then kargs1
                  else dset ''requirements'' (PDict (dset ''format'' (PStr ''json|xml'') d)) kargs1)
         | _ \<Rightarrow> Inl AttributeError)"

section \<open>Extensions\<close>

text \<open>\<^verbatim>\<open>custom_routes_fn\<close> gets the mapper and the resource object, and adds routes.\<close>

record 's resource_extension =
  re_collection :: string
  re_controller :: "'s controller option"
  re_parent :: "(string \<times> string) option"
  re_collection_actions :: "(string \<times> string) list"
  re_member_actions :: "(string \<times> string) list"
  re_custom_routes :: "(nat \<Rightarrow> api_route list) option"
  re_inherits :: "string option"
  re_member_name :: "string option"

definition ResourceExtension :: "string \<Rightarrow> 's controller option \<Rightarrow> 's resource_extension" where
  "ResourceExtension collection c =
     \<lparr>re_collection = collection, re_controller = c, re_parent = None, re_collection_actions = [],
      re_member_actions = [], re_custom_routes = None, re_inherits = None, re_member_name = None\<rparr>"

record 's api_extension =
  e_name :: "string option"
  e_alias :: "string option"
  e_version :: pyval
  e_resources :: "'s resource_extension list"
  e_controllers :: "(string \<times> 's controller) list"

definition is_valid :: "'s api_extension \<Rightarrow> unit result" where
  "is_valid x = (if e_name x = None \<or> e_alias x = None \<or> e_version x = PNone then Inl AttributeError else Inr ())"

definition check_extension :: "'s api_extension \<Rightarrow> bool" where
  "check_extension x = (case is_valid x of Inl e \<Rightarrow> False | Inr u \<Rightarrow> True)"

text \<open>\<^verbatim>\<open>LoadedExtensionInfo\<close>: the accepted extensions under their alias.\<close>

type_synonym 's extension_registry = "(string \<times> 's api_extension) list"

definition register_extension :: "'s api_extension \<Rightarrow> 's extension_registry \<Rightarrow> bool result \<times> 's extension_registry" where
  "register_extension x reg =
     (if \<not> check_extension x then (Inr False, reg)
      else (let alias = the (e_alias x)
            in if dhas reg alias
               then (Inl (Nova NovaException (''Found duplicate extension: '' @ alias)), reg)
               else (Inr True, dset alias x reg)))"

section \<open>The router\<close>

record 's wsgi_resource =
  w_controller :: "'s controller option"
  w_inherits :: "nat option"
  w_resource :: "'s api_resource"

record 's router =
  objects :: "'s wsgi_resource list"
  resources :: "(string \<times> nat) list"
  routes :: "api_route list"

definition empty_router :: "'s router" where
  "empty_router = \<lparr>objects = [], resources = [], routes = []\<rparr>"

text \<open>
  \<^verbatim>\<open>ResourceV21(controller, inherits)\<close>. Without a controller the methods are looked up on the
  resource itself, which has none of the routed names.
\<close>

definition ResourceV21 :: "'s controller option \<Rightarrow> 's api_resource result" where
  "ResourceV21 controller =
     (let r0 = \<lparr>attributes = (case controller of Some c \<Rightarrow> c_methods c | None \<Rightarrow> (\<lambda>_. None)),
                wsgi_actions = [], wsgi_extensions = [], wsgi_action_extensions = []\<rparr>
      in case controller of
           None \<Rightarrow> Inr r0
         | Some c \<Rightarrow>
             (case register_actions (c_methods c) (c_actions c) r0 of
                (Inl e, r) \<Rightarrow> Inl e | (Inr u, r) \<Rightarrow> Inr r))"

definition named :: "string option \<Rightarrow> string option" where
  "named n = (case n of Some s \<Rightarrow> if s \<noteq> [] then Some s else None | None \<Rightarrow> None)"

text \<open>One turn of the loop of \<^verbatim>\<open>_register_resources\<close>.\<close>

definition inherited :: "'s resource_extension \<Rightarrow> 's router \<Rightarrow> nat option" where
  "inherited rx rt = (case named (re_inherits rx) of None \<Rightarrow> None | Some c \<Rightarrow> dget (resources rt) c)"

definition resource_controller :: "'s resource_extension \<Rightarrow> 's router \<Rightarrow> 's controller option result" where
  "resource_controller rx rt =
     (if named (re_inherits rx) \<noteq> None \<and> re_controller rx = None
      then (case inherited rx rt of None \<Rightarrow> Inl AttributeError | Some j \<Rightarrow> Inr (w_controller (objects rt ! j)))
      else Inr (re_controller rx))"

definition route_of :: "'s resource_extension \<Rightarrow> nat \<Rightarrow> resource_route" where
  "route_of rx i =
     \<lparr>path_prefix = None,
      r_member = (case named (re_member_name rx) of Some n \<Rightarrow> n | None \<Rightarrow> re_collection rx),
      r_collection = re_collection rx, r_controller = i,
      r_collection_actions = re_collection_actions rx, r_member_actions = re_member_actions rx,
      r_parent = re_parent rx\<rparr>"

definition register_one_resource :: "string option \<Rightarrow> 's resource_extension \<Rightarrow> 's router \<Rightarrow> 's router result" where
  "register_one_resource regex rx rt =
     bind_r (resource_controller rx rt) (\<lambda>c.
     bind_r (ResourceV21 c) (\<lambda>r.
       (let i = length (objects rt)
        in Inr (rt\<lparr>objects := objects rt @ [\<lparr>w_controller = c, w_inherits = inherited rx rt, w_resource = r\<rparr>],
                   resources := dset (re_collection rx) i (resources rt),
                   routes := routes rt @ ProjectMapper_resource regex (route_of rx i) @
                     (case re_custom_routes rx of Some f \<Rightarrow> f i | None \<Rightarrow> [])\<rparr>))))"

definition register_extension_resources :: "string option \<Rightarrow> 's api_extension \<Rightarrow> 's router \<Rightarrow> 's router result" where
  "register_extension_resources regex x rt = fold_r (register_one_resource regex) (e_resources x) rt"

text \<open>Extensions with an inheriting resource come after all the others.\<close>

definition has_inherits :: "'s api_extension \<Rightarrow> bool" where
  "has_inherits x \<longleftrightarrow> (\<exists>rx \<in> set (e_resources x). named (re_inherits rx) \<noteq> None)"

definition register_resources_check_inherits ::
  "string option \<Rightarrow> 's api_extension list \<Rightarrow> 's router \<Rightarrow> 's router result" where
  "register_resources_check_inherits regex xs rt =
     bind_r (fold_r (register_extension_resources regex) (filter (\<lambda>x. \<not> has_inherits x) xs) rt)
       (fold_r (register_extension_resources regex) (filter has_inherits xs))"

text \<open>\<^verbatim>\<open>_register_controllers\<close>: a collection that no resource has is only logged.\<close>

definition extend_resource :: "nat \<Rightarrow> 's controller \<Rightarrow> 's router \<Rightarrow> unit result \<times> 's router" where
  "extend_resource i c rt =
     (let put = (\<lambda>r. rt\<lparr>objects := (objects rt)[i := (objects rt ! i)\<lparr>w_resource := r\<rparr>]\<rparr>)
      in case register_actions (c_methods c) (c_actions c) (w_resource (objects rt ! i)) of
           (Inl e, r) \<Rightarrow> (Inl e, put r)
         | (Inr u, r) \<Rightarrow>
             (case register_extensions (c_handlers c) (c_extensions c) r of (q, r1) \<Rightarrow> (q, put r1)))"

fun register_controllers :: "(string \<times> 's controller) list \<Rightarrow> 's router \<Rightarrow> unit result \<times> 's router" where
  "register_controllers [] rt = (Inr (), rt)"
| "register_controllers ((collection, c) # cs) rt =
     (case dget (resources rt) collection of
        None \<Rightarrow> register_controllers cs rt
      | Some i \<Rightarrow>
          (case extend_resource i c rt of
             (Inl e, rt1) \<Rightarrow> (Inl e, rt1)
           | (Inr u, rt1) \<Rightarrow> register_controllers cs rt1))"

text \<open>
  The plugin manager of stevedore: \<open>kept\<close> loads the plugins and keeps those its check function
  accepts, \<open>mapped\<close> calls a function on each.
\<close>

record 's plugin_manager =
  kept :: "('s api_extension \<Rightarrow> 's extension_registry \<Rightarrow> bool result \<times> 's extension_registry) \<Rightarrow> 's extension_registry \<Rightarrow>
    's api_extension list \<times> 's extension_registry"
  mapped :: "('s api_extension \<Rightarrow> 's router \<Rightarrow> unit result \<times> 's router) \<Rightarrow> 's api_extension list \<Rightarrow>
    's router \<Rightarrow> 's router"

definition APIRouterV21 :: "string option \<Rightarrow> 's plugin_manager \<Rightarrow> ('s router \<times> 's extension_registry) result" where
  "APIRouterV21 regex M =
     (case kept M register_extension [] of
        (xs, reg) \<Rightarrow>
          if xs = [] then Inr (empty_router, reg)
          else bind_r (register_resources_check_inherits regex xs empty_router)
                 (\<lambda>rt. Inr (mapped M (\<lambda>x. register_controllers (e_controllers x)) xs rt, reg)))"

text \<open>
  What stevedore documents of it: plugins are loaded in turn, one whose check is false or
  fails is left out, and an exception of a mapped function is logged and passed over.
\<close>

fun admitted :: "('s api_extension \<Rightarrow> 's extension_registry \<Rightarrow> bool result \<times> 's extension_registry) \<Rightarrow> 's api_extension list \<Rightarrow>
    's extension_registry \<Rightarrow> 's api_extension list \<times> 's extension_registry" where
  "admitted check [] reg = ([], reg)"
| "admitted check (x # xs) reg =
     (case check x reg of
        (Inr True, reg1) \<Rightarrow> (case admitted check xs reg1 of (ys, reg2) \<Rightarrow> (x # ys, reg2))
      | (_, reg1) \<Rightarrow> admitted check xs reg1)"

definition manages :: "'s plugin_manager \<Rightarrow> 's api_extension list \<Rightarrow> bool" where
  "manages M found \<longleftrightarrow>
     (\<forall>check reg. kept M check reg = admitted check found reg) \<and>
     (\<forall>f xs rt. mapped M f xs rt = foldl (\<lambda>rt x. snd (f x rt)) rt xs)"

text \<open>Of the plugins with one alias the first valid one is kept, and registered under it.\<close>

lemma registered_once:
  assumes "admitted register_extension found reg = (xs, reg1)"
  shows "distinct (map e_alias xs) \<and>
    (\<forall>x \<in> set xs. \<exists>a. e_alias x = Some a \<and> dget reg a = None \<and> dget reg1 a = Some x) \<and>
    (\<forall>a x. dget reg a = Some x \<longrightarrow> dget reg1 a = Some x)"
  using assms
proof (induction found arbitrary: reg xs)
  case (Cons x found)
  show ?case
  proof (cases "check_extension x \<and> \<not> dhas reg (the (e_alias x))")
    case True
    then obtain a where a: "e_alias x = Some a" "dget reg a = None"
      by (auto simp: check_extension_def is_valid_def dhas_def split: if_splits)
    then have "register_extension x reg = (Inr True, dset a x reg)" using True
      by (simp add: register_extension_def Let_def)
    with Cons.prems obtain ys where ys: "xs = x # ys"
      "admitted register_extension found (dset a x reg) = (ys, reg1)"
      by (auto split: prod.splits)
    have ih: "distinct (map e_alias ys)"
      "\<And>y. y \<in> set ys \<Longrightarrow> \<exists>b. e_alias y = Some b \<and> dget (dset a x reg) b = None \<and> dget reg1 b = Some y"
      "\<And>b y. dget (dset a x reg) b = Some y \<Longrightarrow> dget reg1 b = Some y"
      using Cons.IH [OF ys(2)] by blast+
    have "e_alias x \<notin> set (map e_alias ys)" using ih(2) a(1) by fastforce
    moreover have "dget reg1 a = Some x" by (rule ih(3)) simp
    moreover have "dget reg1 b = Some y" if "dget reg b = Some y" for b y
      using that a(2) ih(3) [of b y] by (cases "b = a") auto
    moreover have "\<exists>b. e_alias y = Some b \<and> dget reg b = None \<and> dget reg1 b = Some y" if "y \<in> set ys" for y
      using ih(2) [OF that] by (auto split: if_splits)
    ultimately show ?thesis using ih(1) a by (auto simp: ys(1))
  next
    case False
    then have "register_extension x reg = (Inr False, reg) \<or> (\<exists>e. register_extension x reg = (Inl e, reg))"
      by (auto simp: register_extension_def Let_def)
    then have "admitted register_extension found reg = (xs, reg1)"
      using Cons.prems by auto
    then show ?thesis by (rule Cons.IH)
  qed
qed simp

section \<open>Answering a request\<close>

text \<open>
  The routing library: which route's resource object a request goes to, with the arguments
  from its path; and the page webob answers with when there is none.
\<close>

record routing_lib =
  matching :: "api_route list \<Rightarrow> request \<Rightarrow> (nat \<times> pydict) option"
  not_found_page :: wsgi_response

text \<open>A resource object and those it inherits from, nearest first.\<close>

fun ancestors :: "nat \<Rightarrow> 's wsgi_resource list \<Rightarrow> nat \<Rightarrow> nat list" where
  "ancestors 0 st i = []"
| "ancestors (Suc n) st i = i # (case w_inherits (st ! i) of None \<Rightarrow> [] | Some j \<Rightarrow> ancestors n st j)"

fun put_back :: "nat list \<Rightarrow> 's api_resource list \<Rightarrow> 's wsgi_resource list \<Rightarrow> 's wsgi_resource list" where
  "put_back (i # is) (r # rs) st = put_back is rs (st[i := (st ! i)\<lparr>w_resource := r\<rparr>])"
| "put_back _ _ st = st"

definition Router_dispatch ::
  "routing_lib \<Rightarrow> wsgi_env \<Rightarrow> request \<Rightarrow> 's router \<Rightarrow> 's \<Rightarrow> wsgi_response result \<times> 's router \<times> 's" where
  "Router_dispatch L W req rt s =
     (case matching L (routes rt) req of
        None \<Rightarrow> (Inr (not_found_page L), rt, s)
      | Some (i, args) \<Rightarrow>
          (let is = ancestors (Suc i) (objects rt) i
           in case resource_call W True (req\<lparr>routing_args := Some args\<rparr>)
                (map (\<lambda>j. w_resource (objects rt ! j)) is) s of
                (r, rs, s1) \<Rightarrow> (r, rt\<lparr>objects := put_back is rs (objects rt)\<rparr>, s1)))"

section \<open>The registered routes\<close>

lemma fold_r_append: "fold_r f (xs @ ys) s = bind_r (fold_r f xs s) (fold_r f ys)"
proof (induction xs arbitrary: s)
  case (Cons x xs)
  then show ?case by (cases "f x s") simp_all
qed simp

lemma fold_register_resources:
  "fold_r (register_extension_resources regex) xs rt = fold_r (register_one_resource regex) (concat (map e_resources xs)) rt"
proof (induction xs arbitrary: rt)
  case (Cons x xs)
  then show ?case
    by (cases "register_extension_resources regex x rt") (simp_all add: register_extension_resources_def fold_r_append)
qed simp

text \<open>A route leads to resource \<open>i\<close>; collection \<open>c\<close> is routed to resource \<open>j\<close>.\<close>

definition offered :: "string option \<Rightarrow> 's resource_extension \<Rightarrow> 's router \<Rightarrow> nat \<Rightarrow> bool" where
  "offered regex rx rt i \<longleftrightarrow>
     i < length (objects rt) \<and> set (ProjectMapper_resource regex (route_of rx i)) \<subseteq> set (routes rt)"

definition routed :: "'s router \<Rightarrow> string \<Rightarrow> nat \<Rightarrow> bool" where
  "routed rt c j \<longleftrightarrow>
     j < length (objects rt) \<and>
     (\<exists>r. ResourceRoute r \<in> set (routes rt) \<and> r_collection r = c \<and> r_controller r = j)"

definition linked :: "'s router \<Rightarrow> bool" where
  "linked rt \<longleftrightarrow>
     (\<forall>c j. dget (resources rt) c = Some j \<longrightarrow> routed rt c j) \<and>
     (\<forall>i < length (objects rt). \<forall>j. w_inherits (objects rt ! i) = Some j \<longrightarrow> j < i)"

definition grows :: "'s router \<Rightarrow> 's router \<Rightarrow> bool" where
  "grows rt rt1 \<longleftrightarrow>
     (\<exists>ws. objects rt1 = objects rt @ ws) \<and> (\<exists>rs. routes rt1 = routes rt @ rs) \<and>
     dom (dget (resources rt)) \<subseteq> dom (dget (resources rt1))"

lemma grows_refl: "grows rt rt"
  by (simp add: grows_def)

lemma grows_trans: "grows rt rt1 \<Longrightarrow> grows rt1 rt2 \<Longrightarrow> grows rt rt2"
  by (auto simp: grows_def)

lemma offered_grows: "offered regex rx rt i \<Longrightarrow> grows rt rt1 \<Longrightarrow> offered regex rx rt1 i"
  by (auto simp: offered_def grows_def)

lemma routed_grows: "routed rt c j \<Longrightarrow> grows rt rt1 \<Longrightarrow> routed rt1 c j"
  by (auto simp: routed_def grows_def)

lemma inherits_grows: "i < length (objects rt) \<Longrightarrow> grows rt rt1 \<Longrightarrow> w_inherits (objects rt1 ! i) = w_inherits (objects rt ! i)"
  by (auto simp: grows_def nth_append)

lemma route_of_routed: "\<exists>r. ResourceRoute r \<in> set (ProjectMapper_resource regex (route_of rx i)) \<and>
    r_collection r = re_collection rx \<and> r_controller r = i"
  by (cases "re_parent rx") (force simp: ProjectMapper_resource_def route_of_def Let_def)+

text \<open>What registering one resource does.\<close>

lemma register_resource_step:
  assumes "register_one_resource regex rx rt = Inr rt1" "linked rt"
  shows "linked rt1" "grows rt rt1" "offered regex rx rt1 (length (objects rt))"
    "w_inherits (objects rt1 ! length (objects rt)) = inherited rx rt"
    "dget (resources rt1) (re_collection rx) \<noteq> None"
proof -
  let ?n = "length (objects rt)"
  obtain w new where rt1: "objects rt1 = objects rt @ [w]" "w_inherits w = inherited rx rt"
    "resources rt1 = dset (re_collection rx) ?n (resources rt)"
    "routes rt1 = routes rt @ ProjectMapper_resource regex (route_of rx ?n) @ new"
    using assms(1) by (auto simp: register_one_resource_def Let_def result_simps)
  show g: "grows rt rt1" using rt1 by (auto simp: grows_def)
  show "offered regex rx rt1 ?n" using rt1 by (auto simp: offered_def)
  show "w_inherits (objects rt1 ! ?n) = inherited rx rt" using rt1 by simp
  show "dget (resources rt1) (re_collection rx) \<noteq> None" using rt1 by simp
  have here: "routed rt1 (re_collection rx) ?n"
    using rt1 route_of_routed [of regex rx ?n] by (auto simp: routed_def)
  have old: "routed rt1 c j" if "dget (resources rt) c = Some j" for c j
    using assms(2) that g by (auto simp: linked_def intro: routed_grows)
  have "j < i" if "i < length (objects rt1)" "w_inherits (objects rt1 ! i) = Some j" for i j
  proof (cases "i < ?n")
    case True
    then show ?thesis using that assms(2) inherits_grows [OF True g] by (auto simp: linked_def)
  next
    case False
    then have "i = ?n" using that rt1 by simp
    then have "inherited rx rt = Some j" using that rt1 by simp
    then have "\<exists>c. dget (resources rt) c = Some j" by (auto simp: inherited_def split: option.splits)
    then show ?thesis using assms(2) \<open>i = ?n\<close> by (auto simp: linked_def routed_def)
  qed
  with here old rt1(3) show "linked rt1" by (auto simp: linked_def)
qed

definition resolved :: "string option \<Rightarrow> 's resource_extension \<Rightarrow> 's router \<Rightarrow> nat \<Rightarrow> bool" where
  "resolved regex rx rt i \<longleftrightarrow>
     offered regex rx rt i \<and>
     (case named (re_inherits rx) of
        None \<Rightarrow> w_inherits (objects rt ! i) = None
      | Some c \<Rightarrow> \<exists>j < i. w_inherits (objects rt ! i) = Some j \<and> routed rt c j)"

lemma resolved_grows: "resolved regex rx rt i \<Longrightarrow> grows rt rt1 \<Longrightarrow> resolved regex rx rt1 i"
proof -
  assume a: "resolved regex rx rt i" "grows rt rt1"
  then have i: "offered regex rx rt1 i" "i < length (objects rt)"
    by (auto simp: resolved_def offered_grows) (simp add: offered_def)
  then show ?thesis
    using a inherits_grows [OF i(2) a(2)] routed_grows [OF _ a(2)] by (auto simp: resolved_def split: option.splits)
qed

lemma register_fold:
  assumes "fold_r (register_one_resource regex) rxs rt = Inr rt1" "linked rt"
    "\<forall>rx \<in> set rxs. \<forall>c. named (re_inherits rx) = Some c \<longrightarrow> dget (resources rt) c \<noteq> None"
  shows "linked rt1 \<and> grows rt rt1 \<and>
    (\<forall>rx \<in> set rxs. (\<exists>i. resolved regex rx rt1 i) \<and> dget (resources rt1) (re_collection rx) \<noteq> None)"
  using assms
proof (induction rxs arbitrary: rt)
  case Nil
  then show ?case by (simp add: grows_refl)
next
  case (Cons rx rxs)
  from Cons.prems(1) obtain rt0 where rt0: "register_one_resource regex rx rt = Inr rt0"
    "fold_r (register_one_resource regex) rxs rt0 = Inr rt1" by (auto simp: result_simps)
  note step = register_resource_step [OF rt0(1) Cons.prems(2)]
  let ?n = "length (objects rt)"
  have res: "resolved regex rx rt0 ?n"
  proof (cases "named (re_inherits rx)")
    case None
    then show ?thesis using step by (simp add: resolved_def inherited_def)
  next
    case (Some c)
    then obtain j where j: "dget (resources rt) c = Some j" using Cons.prems(3) by auto
    then have r: "routed rt c j" using Cons.prems(2) by (simp add: linked_def)
    then have "j < ?n" by (simp add: routed_def)
    then show ?thesis using step Some j routed_grows [OF r step(2)] by (simp add: resolved_def inherited_def)
  qed
  have known: "\<forall>x \<in> set rxs. \<forall>c. named (re_inherits x) = Some c \<longrightarrow> dget (resources rt0) c \<noteq> None"
  proof (intro ballI allI impI)
    fix x c
    assume "x \<in> set rxs" "named (re_inherits x) = Some c"
    then have "dget (resources rt) c \<noteq> None" using Cons.prems(3) by (meson list.set_intros(2))
    then show "dget (resources rt0) c \<noteq> None" using step(2) by (auto simp: grows_def dom_def)
  qed
  from Cons.IH [OF rt0(2) step(1) known]
  have rest: "linked rt1" "grows rt0 rt1"
    "\<forall>x \<in> set rxs. (\<exists>i. resolved regex x rt1 i) \<and> dget (resources rt1) (re_collection x) \<noteq> None"
    by blast+
  have "dget (resources rt1) (re_collection rx) \<noteq> None"
    using step(5) rest(2) by (auto simp: grows_def dom_def)
  then show ?case
    using rest grows_trans [OF step(2) rest(2)] resolved_grows [OF res rest(2)] by auto
qed

text \<open>Hanging controller extensions on resources leaves routes and links alone.\<close>

definition same_links :: "'s router \<Rightarrow> 's router \<Rightarrow> bool" where
  "same_links rt rt1 \<longleftrightarrow> routes rt1 = routes rt \<and> resources rt1 = resources rt \<and>
     map w_inherits (objects rt1) = map w_inherits (objects rt)"

lemma extend_resource_links: "extend_resource i c rt = (q, rt1) \<Longrightarrow> same_links rt rt1"
  by (cases "i < length (objects rt)")
    (auto simp: extend_resource_def same_links_def Let_def map_update list_update_beyond
      list_update_same_conv split: prod.splits sum.splits)

lemma register_controllers_links: "same_links rt (snd (register_controllers cs rt))"
proof (induction cs arbitrary: rt)
  case (Cons p cs)
  obtain collection c where p: "p = (collection, c)" by force
  show ?case
  proof (cases "dget (resources rt) collection")
    case None
    then show ?thesis using Cons.IH by (simp add: p)
  next
    case (Some i)
    obtain q rt1 where x: "extend_resource i c rt = (q, rt1)" by force
    then have "same_links rt rt1" by (rule extend_resource_links)
    then show ?thesis using Cons.IH [of rt1] Some x
      by (cases q) (simp_all add: p same_links_def)
  qed
qed (simp add: same_links_def)

lemma mapped_links: "same_links rt (foldl (\<lambda>rt x. snd (register_controllers (e_controllers x) rt)) rt xs)"
proof (induction xs rule: rev_induct)
  case (snoc x xs)
  then show ?case
    using register_controllers_links [of "foldl (\<lambda>rt x. snd (register_controllers (e_controllers x) rt)) rt xs" "e_controllers x"]
    by (simp add: same_links_def)
qed (simp add: same_links_def)

lemma resolved_links: "same_links rt rt1 \<Longrightarrow> resolved regex rx rt i \<Longrightarrow> resolved regex rx rt1 i"
proof -
  assume a: "same_links rt rt1" "resolved regex rx rt i"
  then have m: "map w_inherits (objects rt1) = map w_inherits (objects rt)" by (simp add: same_links_def)
  then have len: "length (objects rt1) = length (objects rt)" by (rule map_eq_imp_length_eq)
  have "w_inherits (objects rt1 ! k) = w_inherits (objects rt ! k)" if "k < length (objects rt)" for k
    using arg_cong [OF m, of "\<lambda>l. l ! k"] that len by simp
  note w = this
  have r: "routes rt1 = routes rt" using a(1) by (simp add: same_links_def)
  show ?thesis
  proof (cases "named (re_inherits rx)")
    case None
    then show ?thesis using a(2) w len r by (simp add: resolved_def offered_def)
  next
    case (Some c)
    then obtain j where "j < i" "w_inherits (objects rt ! i) = Some j" "routed rt c j" "offered regex rx rt i"
      using a(2) by (auto simp: resolved_def)
    then show ?thesis using Some w len r by (auto simp: resolved_def offered_def routed_def)
  qed
qed

lemma linked_links:
  assumes "same_links rt rt1" "linked rt"
  shows "linked rt1"
proof -
  have m: "map w_inherits (objects rt1) = map w_inherits (objects rt)" using assms(1) by (simp add: same_links_def)
  then have len: "length (objects rt1) = length (objects rt)" by (rule map_eq_imp_length_eq)
  have "w_inherits (objects rt1 ! k) = w_inherits (objects rt ! k)" if "k < length (objects rt)" for k
    using arg_cong [OF m, of "\<lambda>l. l ! k"] that len by simp
  then show ?thesis using assms len by (auto simp: linked_def routed_def same_links_def)
qed

text \<open>Links lead to earlier resources, so the number of steps allowed for following them is enough.\<close>

lemma ancestors_end:
  "linked rt \<Longrightarrow> i < length (objects rt) \<Longrightarrow> i < n \<Longrightarrow> ancestors n (objects rt) i = ancestors (Suc i) (objects rt) i"
proof (induction n arbitrary: i rule: less_induct)
  case (less n)
  then obtain k where k: "n = Suc k" by (cases n) auto
  show ?case
  proof (cases "w_inherits (objects rt ! i)")
    case (Some j)
    then have j: "j < i" using less.prems(1,2) by (simp add: linked_def)
    have "ancestors k (objects rt) j = ancestors (Suc j) (objects rt) j" using less k j by simp
    moreover have "ancestors i (objects rt) j = ancestors (Suc j) (objects rt) j"
      using less.IH [of i j] less.prems j by simp
    ultimately show ?thesis by (simp add: k Some)
  qed (simp add: k)
qed

text \<open>
  C23: the routes of the loaded API. When the router has started, every resource of every
  accepted extension has its routes, with the project in the path and without. A resource
  that inherits is linked to an earlier resource of that collection, whatever the order of
  the plugins, provided an extension without inheriting resources offers the collection; so
  following the links from a request's resource ends.
\<close>

theorem inheritance_resolved:
  assumes "manages M found" "kept M register_extension [] = (xs, reg)"
    and "APIRouterV21 regex M = Inr (rt, reg1)"
    and "\<forall>x \<in> set xs. \<forall>rx \<in> set (e_resources x). \<forall>c. named (re_inherits rx) = Some c \<longrightarrow>
      (\<exists>y \<in> set xs. \<not> has_inherits y \<and> (\<exists>ry \<in> set (e_resources y). re_collection ry = c))"
  shows "linked rt \<and> (\<forall>x \<in> set xs. \<forall>rx \<in> set (e_resources x). \<exists>i. resolved regex rx rt i)"
proof (cases "xs = []")
  case False
  let ?ps = "filter (\<lambda>x. \<not> has_inherits x) xs" and ?qs = "filter has_inherits xs"
  have "bind_r (register_resources_check_inherits regex xs empty_router)
      (\<lambda>rt. Inr (mapped M (\<lambda>x. register_controllers (e_controllers x)) xs rt, reg)) = Inr (rt, reg1)"
    using assms(3) False unfolding APIRouterV21_def assms(2) by simp
  then obtain rt2 where r: "register_resources_check_inherits regex xs empty_router = Inr rt2"
    and rt: "rt = mapped M (\<lambda>x. register_controllers (e_controllers x)) xs rt2"
    unfolding bind_r_Inr_iff by blast
  then obtain rt1 where f: "fold_r (register_one_resource regex) (concat (map e_resources ?ps)) empty_router = Inr rt1"
    "fold_r (register_one_resource regex) (concat (map e_resources ?qs)) rt1 = Inr rt2"
    unfolding register_resources_check_inherits_def fold_register_resources bind_r_Inr_iff by blast
  have e: "linked empty_router" by (simp add: linked_def empty_router_def)
  have plain: "\<forall>rx \<in> set (concat (map e_resources ?ps)). \<forall>c. named (re_inherits rx) = Some c \<longrightarrow>
      dget (resources empty_router) c \<noteq> None"
    by (auto simp: has_inherits_def)
  note one = register_fold [OF f(1) e plain]
  have known: "\<forall>rx \<in> set (concat (map e_resources ?qs)). \<forall>c. named (re_inherits rx) = Some c \<longrightarrow>
      dget (resources rt1) c \<noteq> None"
  proof (intro ballI allI impI)
    fix rx c
    assume "rx \<in> set (concat (map e_resources ?qs))" "named (re_inherits rx) = Some c"
    then obtain x where "x \<in> set xs" "rx \<in> set (e_resources x)" "named (re_inherits rx) = Some c" by auto
    then obtain y ry where "y \<in> set xs" "\<not> has_inherits y" "ry \<in> set (e_resources y)" "re_collection ry = c"
      using assms(4) by blast
    moreover from this have "ry \<in> set (concat (map e_resources ?ps))" by auto
    ultimately show "dget (resources rt1) c \<noteq> None" using one by blast
  qed
  note two = register_fold [OF f(2) conjunct1 [OF one] known]
  have all: "\<exists>i. resolved regex rx rt2 i" if "x \<in> set xs" "rx \<in> set (e_resources x)" for x rx
  proof (cases "has_inherits x")
    case True
    then have "rx \<in> set (concat (map e_resources ?qs))" using that by auto
    then show ?thesis using two by blast
  next
    case False
    then have "rx \<in> set (concat (map e_resources ?ps))" using that by auto
    then show ?thesis using one two resolved_grows by blast
  qed
  have "same_links rt2 rt" using assms(1) mapped_links [of rt2 xs] by (simp add: rt manages_def)
  then show ?thesis using all resolved_links linked_links two by blast
next
  case True
  then have "rt = empty_router" using assms(2,3) by (simp add: APIRouterV21_def)
  then show ?thesis using True by (simp add: linked_def empty_router_def)
qed

section \<open>Samples\<close>

text \<open>A plugin that inherits is found before the one it inherits from.\<close>

definition stevedore :: "'s api_extension list \<Rightarrow> 's plugin_manager" where
  "stevedore found =
     \<lparr>kept = (\<lambda>check reg. admitted check found reg),
      mapped = (\<lambda>f xs rt. foldl (\<lambda>rt x. snd (f x rt)) rt xs)\<rparr>"

lemma stevedore_manages: "manages (stevedore found) found"
  by (simp add: manages_def stevedore_def)

definition sample_extension :: "string \<Rightarrow> unit resource_extension list \<Rightarrow> unit api_extension" where
  "sample_extension alias rs =
     \<lparr>e_name = Some alias, e_alias = Some alias, e_version = PInt 1, e_resources = rs, e_controllers = []\<rparr>"

definition sample_controller :: "unit controller" where
  "sample_controller = \<lparr>c_methods = (\<lambda>_. None), c_actions = [], c_handlers = (\<lambda>_. None), c_extensions = []\<rparr>"

definition sample_child :: "unit resource_extension" where
  "sample_child = (ResourceExtension ''child'' None)\<lparr>re_inherits := Some ''base''\<rparr>"

definition sample_found :: "unit api_extension list" where
  "sample_found = [sample_extension ''b'' [sample_child],
     sample_extension ''a'' [ResourceExtension ''base'' (Some sample_controller)]]"

theorem inheritance_resolved_witness:
  "\<exists>rt reg i. APIRouterV21 None (stevedore sample_found) = Inr (rt, reg) \<and>
     resolved None sample_child rt i \<and> (\<exists>j < i. w_inherits (objects rt ! i) = Some j)"
proof -
  let ?M = "stevedore sample_found"
  obtain reg0 where k: "kept ?M register_extension [] = (sample_found, reg0)"
    by (simp add: stevedore_def sample_found_def sample_extension_def register_extension_def check_extension_def
        is_valid_def dhas_def Let_def)
  have "\<not> isl (APIRouterV21 None ?M)"
    unfolding APIRouterV21_def k
    by (simp add: sample_found_def register_resources_check_inherits_def has_inherits_def sample_extension_def
        sample_child_def ResourceExtension_def named_def register_extension_resources_def register_one_resource_def
        resource_controller_def inherited_def empty_router_def ResourceV21_def sample_controller_def Let_def)
  then obtain rt reg where rt: "APIRouterV21 None ?M = Inr (rt, reg)" by (cases "APIRouterV21 None ?M") auto
  have b: "\<forall>x \<in> set sample_found. \<forall>rx \<in> set (e_resources x). \<forall>c. named (re_inherits rx) = Some c \<longrightarrow>
      (\<exists>y \<in> set sample_found. \<not> has_inherits y \<and> (\<exists>ry \<in> set (e_resources y). re_collection ry = c))"
    by (auto simp: sample_found_def sample_extension_def sample_child_def ResourceExtension_def named_def has_inherits_def)
  have "sample_extension ''b'' [sample_child] \<in> set sample_found"
    "sample_child \<in> set (e_resources (sample_extension ''b'' [sample_child]))"
    by (simp_all add: sample_found_def sample_extension_def)
  then obtain i where i: "resolved None sample_child rt i"
    using inheritance_resolved [OF stevedore_manages k rt b] by blast
  moreover have "named (re_inherits sample_child) = Some ''base''" by (simp add: sample_child_def named_def)
  ultimately have "\<exists>j < i. w_inherits (objects rt ! i) = Some j" by (auto simp: resolved_def)
  with rt i show ?thesis by blast
qed

end
