(* ===== verification/Slaves.thy ===== *)
theory Slaves
  imports ComputeNodes Errors
begin

text \<open>
  The list of agents the API shows, \<^verbatim>\<open>GET /slaves\<close>, \<^verbatim>\<open>/slaves/detail\<close> and \<^verbatim>\<open>/slaves/{id}\<close>
  (\<^verbatim>\<open>nova/api/openstack/compute/slaves.py\<close>): what it reads from the compute nodes. A handler
  only reads, so it returns its result alone.
\<close>

section \<open>The handlers\<close>

text \<open>A dictionary under the value of a field; the uuid of a node is a text.\<close>

definition under :: "pyval \<Rightarrow> pydict \<Rightarrow> pydict \<Rightarrow> pydict result" where
  "under key d results = (case key of PStr u \<Rightarrow> Inr (dset u (PDict d) results) | _ \<Rightarrow> Inl TypeError)"

text \<open>\<^verbatim>\<open>jsonutils.loads\<close> of a field; it decodes texts only.\<close>

definition loads_field :: "pyval \<Rightarrow> pyval result" where
  "loads_field v = (case v of PStr t \<Rightarrow> json_loads t | _ \<Rightarrow> Inl TypeError)"

definition index_entry :: "vobj \<Rightarrow> pydict \<Rightarrow> pydict result" where
  "index_entry node results =
     bind_r (obj_get compute_node_fields ''uuid'' node) (\<lambda>u.
     bind_r (obj_get compute_node_fields ''id'' node) (\<lambda>i.
     bind_r (obj_get compute_node_fields ''host'' node) (\<lambda>h.
       under u [(''id'', i), (''host'', h)] results)))"

definition slaves_index_body :: "ovo_env \<Rightarrow> string \<Rightarrow> svc_state \<Rightarrow> pyval result" where
  "slaves_index_body E rd s =
     bind_r (ComputeNodeList_get_all E rd s) (\<lambda>ns.
     bind_r (fold_r index_entry ns []) (\<lambda>results. Inr (PDict results)))"

definition slaves_index :: "ovo_env \<Rightarrow> string \<Rightarrow> svc_state \<Rightarrow> pyval result" where
  "slaves_index E rd s = expected_errors [400] (slaves_index_body E rd s)"

definition detail_entry :: "vobj \<Rightarrow> pydict \<Rightarrow> pydict result" where
  "detail_entry node results =
     bind_r (obj_get compute_node_fields ''uuid'' node) (\<lambda>u.
     bind_r (obj_get compute_node_fields ''compute_node_type'' node) (\<lambda>t.
     bind_r (bind_r (obj_get compute_node_fields ''compute_node_method'' node) loads_field) (\<lambda>m.
     bind_r (obj_get compute_node_fields ''host'' node) (\<lambda>h.
     bind_r (obj_get compute_node_fields ''id'' node) (\<lambda>i.
       under u [(''compute_node_type'', t), (''compute_node_method'', m), (''host'', h), (''id'', i)] results)))))"

definition slaves_detail_body :: "ovo_env \<Rightarrow> string \<Rightarrow> svc_state \<Rightarrow> pyval result" where
  "slaves_detail_body E rd s =
     bind_r (ComputeNodeList_get_all E rd s) (\<lambda>ns.
     bind_r (fold_r detail_entry ns []) (\<lambda>results. Inr (PDict results)))"

definition slaves_detail :: "ovo_env \<Rightarrow> string \<Rightarrow> svc_state \<Rightarrow> pyval result" where
  "slaves_detail E rd s = expected_errors [400] (slaves_detail_body E rd s)"

definition found_node :: "ovo_env \<Rightarrow> string \<Rightarrow> svc_state \<Rightarrow> int \<Rightarrow> vobj result" where
  "found_node E rd s i =
     (case ComputeNode_get_by_id E rd s i of
        Inl (Nova c m) \<Rightarrow> if is_a c NotFound then Inl (HTTPError 404 m) else Inl (Nova c m)
      | r \<Rightarrow> r)"

definition slaves_show_body :: "ovo_env \<Rightarrow> string \<Rightarrow> svc_state \<Rightarrow> int \<Rightarrow> pyval result" where
  "slaves_show_body E rd s i =
     bind_r (found_node E rd s i) (\<lambda>node.
     bind_r (obj_get compute_node_fields ''id'' node) (\<lambda>i.
     bind_r (obj_get compute_node_fields ''uuid'' node) (\<lambda>u.
     bind_r (obj_get compute_node_fields ''host'' node) (\<lambda>h.
     bind_r (obj_get compute_node_fields ''compute_node_type'' node) (\<lambda>t.
     bind_r (bind_r (obj_get compute_node_fields ''compute_node_method'' node) loads_field) (\<lambda>m.
       Inr (PDict [(''id'', i), (''uuid'', u), (''host'', h), (''compute_node_type'', t),
         (''compute_node_method'', m)])))))))"

definition slaves_show :: "ovo_env \<Rightarrow> string \<Rightarrow> svc_state \<Rightarrow> int \<Rightarrow> pyval result" where
  "slaves_show E rd s i = expected_errors [404] (slaves_show_body E rd s i)"

section \<open>What the listing shows\<close>

text \<open>A row as an agent that registered itself completely writes it.\<close>

definition agent_row :: "row \<Rightarrow> int \<Rightarrow> string \<Rightarrow> string \<Rightarrow> string \<Rightarrow> string \<Rightarrow> bool" where
  "agent_row r i u h t m \<longleftrightarrow>
     dget r ''id'' = Some (PInt i) \<and> dget r ''uuid'' = Some (PStr u) \<and> dget r ''host'' = Some (PStr h) \<and>
     dget r ''compute_node_type'' = Some (PStr t) \<and> dget r ''compute_node_method'' = Some (PStr m)"

lemma agent_row_loaded:
  assumes "agent_row r i u h t m"
  shows "\<exists>o1. node_from_db_object E rd s r (new_vobj c) = Inr o1 \<and>
    obj_get compute_node_fields ''id'' o1 = Inr (PInt i) \<and>
    obj_get compute_node_fields ''uuid'' o1 = Inr (PStr u) \<and>
    obj_get compute_node_fields ''host'' o1 = Inr (PStr h) \<and>
    obj_get compute_node_fields ''compute_node_type'' o1 = Inr (PStr t) \<and>
    obj_get compute_node_fields ''compute_node_method'' o1 = Inr (PStr m)"
  using assms
  by (simp add: agent_row_def node_from_db_object_def data_from_db_object_def set_unless_none_def ditem_def
      compute_node_fields_def plain_field_def obj_set_def field_coerce_def new_vobj_def obj_get_def
      obj_reset_changes_def uuid_coerce_def integer_coerce_def dhas_def)

text \<open>The same, read from the row: what is under which uuid.\<close>

definition row_field :: "row \<Rightarrow> string \<Rightarrow> pyval" where
  "row_field r k = the (dget r k)"

fun str_of :: "pyval \<Rightarrow> string" where
  "str_of (PStr t) = t"
| "str_of _ = []"

definition row_uuid :: "row \<Rightarrow> string" where
  "row_uuid r = str_of (row_field r ''uuid'')"

definition brief :: "row \<Rightarrow> pyval" where
  "brief r = PDict [(''id'', row_field r ''id''), (''host'', row_field r ''host'')]"

definition complete :: "row \<Rightarrow> bool" where
  "complete r \<longleftrightarrow> (\<exists>i u h t m. agent_row r i u h t m)"

definition method_of :: "row \<Rightarrow> pyval result" where
  "method_of r = json_loads (str_of (row_field r ''compute_node_method''))"

definition detailed :: "row \<Rightarrow> pyval" where
  "detailed r =
     PDict [(''compute_node_type'', row_field r ''compute_node_type''),
       (''compute_node_method'', (case method_of r of Inr m \<Rightarrow> m | Inl e \<Rightarrow> PNone)),
       (''host'', row_field r ''host''), (''id'', row_field r ''id'')]"

lemma complete_loaded:
  assumes "complete r"
  shows "\<exists>o1. node_from_db_object E rd s r (new_vobj c) = Inr o1 \<and>
    index_entry o1 results = Inr (dset (row_uuid r) (brief r) results) \<and>
    detail_entry o1 results =
      bind_r (method_of r) (\<lambda>m. Inr (dset (row_uuid r) (detailed r) results))"
proof -
  from assms obtain i u h t m where a: "agent_row r i u h t m" by (auto simp: complete_def)
  then have f: "row_field r ''id'' = PInt i" "row_field r ''uuid'' = PStr u" "row_field r ''host'' = PStr h"
    "row_field r ''compute_node_type'' = PStr t" "row_field r ''compute_node_method'' = PStr m"
    by (simp_all add: agent_row_def row_field_def)
  obtain o1 where o1: "node_from_db_object E rd s r (new_vobj c) = Inr o1"
    "obj_get compute_node_fields ''id'' o1 = Inr (PInt i)"
    "obj_get compute_node_fields ''uuid'' o1 = Inr (PStr u)"
    "obj_get compute_node_fields ''host'' o1 = Inr (PStr h)"
    "obj_get compute_node_fields ''compute_node_type'' o1 = Inr (PStr t)"
    "obj_get compute_node_fields ''compute_node_method'' o1 = Inr (PStr m)"
    using agent_row_loaded [OF a] by blast
  show ?thesis
    by (rule exI [of _ o1], cases "json_loads m")
      (simp_all add: o1 f index_entry_def detail_entry_def under_def loads_field_def row_uuid_def brief_def
        detailed_def method_of_def)
qed

lemma entries_fold:
  assumes "map_r (\<lambda>r. node_from_db_object E rd s r (new_vobj False)) rs = Inr ns" "\<forall>r \<in> set rs. complete r"
  shows "fold_r index_entry ns d = Inr (fold (\<lambda>r. dset (row_uuid r) (brief r)) rs d)"
    and "fold_r detail_entry ns d =
      bind_r (map_r method_of rs) (\<lambda>ms. Inr (fold (\<lambda>r. dset (row_uuid r) (detailed r)) rs d))"
  using assms
proof (induction rs arbitrary: ns d)
  case Nil
  { case 1 then show ?case by simp }
  { case 2 then show ?case by simp }
next
  case (Cons r rs)
  { case 1
    then obtain o1 os where "node_from_db_object E rd s r (new_vobj False) = Inr o1" "ns = o1 # os"
      "map_r (\<lambda>r. node_from_db_object E rd s r (new_vobj False)) rs = Inr os"
      by (auto simp: result_simps)
    with 1 Cons.IH(1) [of os] complete_loaded [of r E rd s False d] show ?case by auto }
  { case 2
    then obtain o1 os where "node_from_db_object E rd s r (new_vobj False) = Inr o1" "ns = o1 # os"
      "map_r (\<lambda>r. node_from_db_object E rd s r (new_vobj False)) rs = Inr os"
      by (auto simp: result_simps)
    with 2 Cons.IH(2) [of os] complete_loaded [of r E rd s False d] show ?case
      by (cases "method_of r"; cases "map_r method_of rs") auto }
qed

lemma dget_fold_dset:
  "dget (fold (\<lambda>r. dset (k r) (v r)) rs d) u =
    (case find (\<lambda>r. k r = u) (rev rs) of Some r \<Rightarrow> Some (v r) | None \<Rightarrow> dget d u)"
proof (induction rs rule: rev_induct)
  case (snoc r rs)
  then show ?case by simp
qed simp

lemma find_rev_greatest:
  fixes f :: "'r \<Rightarrow> int"
  assumes "sorted (map f rs)" "distinct (map f rs)" "r \<in> set rs" "P r" "\<forall>q \<in> set rs. P q \<longrightarrow> f q \<le> f r"
  shows "find P (rev rs) = Some r"
  using assms
proof (induction rs rule: rev_induct)
  case (snoc q rs)
  show ?case
  proof (cases "P q")
    case True
    then have "f q \<le> f r" using snoc.prems(5) by simp
    moreover have "f r \<le> f q" using snoc.prems(1,3) by (auto simp: sorted_append)
    ultimately have "f r = f q" by simp
    then have "r = q" using snoc.prems(2,3) by (auto simp: image_iff)
    then show ?thesis using True by simp
  next
    case False
    then have "r \<in> set rs" using snoc.prems(3,4) by auto
    then show ?thesis using snoc False by (simp add: sorted_append)
  qed
qed simp

lemma all_loaded:
  "\<forall>r \<in> set rs. complete r \<Longrightarrow> \<exists>ns. map_r (\<lambda>r. node_from_db_object E rd s r (new_vobj False)) rs = Inr ns"
proof (induction rs)
  case (Cons r rs)
  moreover obtain o1 where "node_from_db_object E rd s r (new_vobj False) = Inr o1"
    using complete_loaded [of r] Cons.prems by (metis list.set_intros(1))
  ultimately show ?case by auto
qed simp

lemma listing_rows:
  assumes "compute_node_get_all rd (nodes s) = Inr rs" "\<forall>r \<in> set rs. complete r"
  shows "slaves_index E rd s = Inr (PDict (fold (\<lambda>r. dset (row_uuid r) (brief r)) rs []))"
    and "slaves_detail_body E rd s =
      bind_r (map_r method_of rs) (\<lambda>ms. Inr (PDict (fold (\<lambda>r. dset (row_uuid r) (detailed r)) rs [])))"
proof -
  obtain ns where ns: "map_r (\<lambda>r. node_from_db_object E rd s r (new_vobj False)) rs = Inr ns"
    using all_loaded [OF assms(2)] by blast
  then have all: "ComputeNodeList_get_all E rd s = Inr ns"
    by (simp add: ComputeNodeList_get_all_def assms(1) node_list_def)
  note f = entries_fold [OF ns assms(2)]
  show "slaves_index E rd s = Inr (PDict (fold (\<lambda>r. dset (row_uuid r) (brief r)) rs []))"
    by (simp add: slaves_index_def slaves_index_body_def all f(1))
  show "slaves_detail_body E rd s =
      bind_r (map_r method_of rs) (\<lambda>ms. Inr (PDict (fold (\<lambda>r. dset (row_uuid r) (detailed r)) rs [])))"
    by (cases "map_r method_of rs") (simp_all add: slaves_detail_body_def all f(2))
qed

lemma map_r_fails: "isl (map_r f xs) \<longleftrightarrow> (\<exists>x \<in> set xs. isl (f x))"
proof (induction xs)
  case (Cons x xs)
  then show ?case by (cases "f x"; cases "map_r f xs") auto
qed simp

lemma method_error: "method_of r = Inl e \<Longrightarrow> e = ValueError"
  by (auto simp: method_of_def json_loads_def split: option.splits prod.splits if_splits)

lemma methods_error: "map_r method_of rs = Inl e \<Longrightarrow> e = ValueError"
proof (induction rs)
  case (Cons r rs)
  then show ?case
    by (cases "method_of r"; cases "map_r method_of rs") (auto dest: method_error)
qed simp

text \<open>
  C16: what the list of agents shows. When every live node registered completely, the list has
  an entry for the uuids of the live nodes and for no other, and the entry of a uuid is the
  id and host of the youngest node that has it. The detailed list is there exactly when the
  method description of every node is JSON, one other description making it fail with 500
  for all; it has type, decoded description, host and id of the same nodes.
\<close>

theorem slaves_listed:
  assumes "table_ok uniq (nodes s)" "compute_node_get_all rd (nodes s) = Inr rs" "\<forall>r \<in> set rs. complete r"
  shows "\<exists>d d1. slaves_index E rd s = Inr (PDict d) \<and>
    slaves_detail E rd s =
      (if \<exists>r \<in> set rs. isl (method_of r) then Inl internal_server_error else Inr (PDict d1)) \<and>
    (\<forall>u. (dget d u \<noteq> None \<longleftrightarrow> u \<in> row_uuid ` set rs) \<and> (dget d1 u \<noteq> None \<longleftrightarrow> u \<in> row_uuid ` set rs)) \<and>
    (\<forall>r \<in> set rs. (\<forall>q \<in> set rs. row_uuid q = row_uuid r \<longrightarrow> int_id q \<le> int_id r) \<longrightarrow>
       dget d (row_uuid r) = Some (brief r) \<and> dget d1 (row_uuid r) = Some (detailed r))"
proof (intro exI conjI)
  let ?d = "fold (\<lambda>r. dset (row_uuid r) (brief r)) rs []"
  let ?d1 = "fold (\<lambda>r. dset (row_uuid r) (detailed r)) rs []"
  note l = listing_rows [OF assms(2,3)]
  show "slaves_index E rd s = Inr (PDict ?d)" by (rule l(1))
  show "slaves_detail E rd s =
      (if \<exists>r \<in> set rs. isl (method_of r) then Inl internal_server_error else Inr (PDict ?d1))"
  proof (cases "map_r method_of rs")
    case (Inl e)
    then have "e = ValueError" by (rule methods_error)
    moreover have "\<exists>r \<in> set rs. isl (method_of r)" using Inl map_r_fails [of method_of rs] by simp
    ultimately show ?thesis
      by (simp add: slaves_detail_def l(2) Inl expected_errors_def expected_exn_def)
  next
    case (Inr ms)
    then have "\<not> (\<exists>r \<in> set rs. isl (method_of r))" using map_r_fails [of method_of rs] by simp
    then show ?thesis by (simp add: slaves_detail_def l(2) Inr)
  qed
  have rs: "sorted (map int_id rs)" "distinct (map int_id rs)"
    using sorted_ids [of rd "[]" "nodes s"] distinct_int_ids [OF assms(1), of rd "[]"] assms(2)
    by (simp_all add: compute_node_get_all_def compute_node_select_def dhas_def)
  have keys: "(case find (\<lambda>r. row_uuid r = u) (rev rs) of Some r \<Rightarrow> Some (v r) | None \<Rightarrow> dget [] u) \<noteq> None
      \<longleftrightarrow> u \<in> row_uuid ` set rs" for v :: "row \<Rightarrow> pyval" and u
    by (auto split: option.splits simp: find_None_iff find_Some_iff)
      (metis length_rev nth_mem set_rev rev_image_eqI)
  show "\<forall>u. (dget ?d u \<noteq> None \<longleftrightarrow> u \<in> row_uuid ` set rs) \<and> (dget ?d1 u \<noteq> None \<longleftrightarrow> u \<in> row_uuid ` set rs)"
    unfolding dget_fold_dset keys by simp
  show "\<forall>r \<in> set rs. (\<forall>q \<in> set rs. row_uuid q = row_uuid r \<longrightarrow> int_id q \<le> int_id r) \<longrightarrow>
       dget ?d (row_uuid r) = Some (brief r) \<and> dget ?d1 (row_uuid r) = Some (detailed r)"
    unfolding dget_fold_dset using find_rev_greatest [OF rs] by auto
qed

section \<open>Samples\<close>

definition sample_agent :: "int \<Rightarrow> string \<Rightarrow> string \<Rightarrow> row" where
  "sample_agent i u m =
     [(''id'', PInt i), (''service_id'', PInt i), (''host'', PStr u), (''uuid'', PStr u),
      (''compute_node_type'', PStr ''http''), (''compute_node_method'', PStr m), (''deleted'', PInt 0)]"

definition sample_agents :: svc_state where
  "sample_agents = sample_state\<lparr>nodes :=
     \<lparr>rows = [sample_agent 2 ''u-2'' ''{}'', sample_agent 1 ''u-1'' ''oops''], next_id = 3\<rparr>\<rparr>"

lemma sample_agent_complete: "complete (sample_agent i u m)"
  by (auto simp: complete_def agent_row_def sample_agent_def)

theorem slaves_listed_witness:
  "(\<exists>d. slaves_index sample_ovo ''no'' sample_agents = Inr (PDict d) \<and> dget d ''u-3'' = None \<and>
      dget d ''u-2'' = Some (PDict [(''id'', PInt 2), (''host'', PStr ''u-2'')])) \<and>
   slaves_detail sample_ovo ''no'' sample_agents = Inl internal_server_error"
proof -
  let ?rs = "[sample_agent 1 ''u-1'' ''oops'', sample_agent 2 ''u-2'' ''{}'']"
  have ok: "table_ok node_unique (nodes sample_agents)"
    by (simp add: table_ok_def sample_agents_def sample_agent_def row_id_def clashes_def node_unique_def
        less_Suc_eq nth_Cons split: nat.splits)
  have all: "compute_node_get_all ''no'' (nodes sample_agents) = Inr ?rs" by code_simp
  have c: "\<forall>r \<in> set ?rs. complete r" by (simp add: sample_agent_complete)
  have v: "row_uuid (sample_agent 1 ''u-1'' ''oops'') = ''u-1''" "row_uuid (sample_agent 2 ''u-2'' ''{}'') = ''u-2''"
    "isl (method_of (sample_agent 1 ''u-1'' ''oops''))"
    "brief (sample_agent 2 ''u-2'' ''{}'') = PDict [(''id'', PInt 2), (''host'', PStr ''u-2'')]"
    by code_simp+
  have k: "row_uuid ` set ?rs = {''u-1'', ''u-2''}" by (simp add: v)
  obtain d where d: "slaves_index sample_ovo ''no'' sample_agents = Inr (PDict d)"
    "slaves_detail sample_ovo ''no'' sample_agents = Inl internal_server_error"
    "dget d ''u-3'' \<noteq> None \<longleftrightarrow> ''u-3'' \<in> row_uuid ` set ?rs"
    "dget d (row_uuid (sample_agent 2 ''u-2'' ''{}'')) = Some (brief (sample_agent 2 ''u-2'' ''{}''))"
  proof -
    have young: "\<forall>q \<in> set ?rs. row_uuid q = row_uuid (sample_agent 2 ''u-2'' ''{}'') \<longrightarrow>
        int_id q \<le> int_id (sample_agent 2 ''u-2'' ''{}'')"
      by (simp add: v)
    have bad: "\<exists>r \<in> set ?rs. isl (method_of r)" using v(3) by simp
    obtain d d1 where "slaves_index sample_ovo ''no'' sample_agents = Inr (PDict d)"
      "slaves_detail sample_ovo ''no'' sample_agents =
        (if \<exists>r \<in> set ?rs. isl (method_of r) then Inl internal_server_error else Inr (PDict d1))"
      "\<forall>u. (dget d u \<noteq> None \<longleftrightarrow> u \<in> row_uuid ` set ?rs) \<and> (dget d1 u \<noteq> None \<longleftrightarrow> u \<in> row_uuid ` set ?rs)"
      "\<forall>r \<in> set ?rs. (\<forall>q \<in> set ?rs. row_uuid q = row_uuid r \<longrightarrow> int_id q \<le> int_id r) \<longrightarrow>
         dget d (row_uuid r) = Some (brief r) \<and> dget d1 (row_uuid r) = Some (detailed r)"
      using slaves_listed [OF ok all c, of sample_ovo] by blast
    note l = this
    have "sample_agent 2 ''u-2'' ''{}'' \<in> set ?rs" by simp
    with l(4) young have "dget d (row_uuid (sample_agent 2 ''u-2'' ''{}'')) = Some (brief (sample_agent 2 ''u-2'' ''{}''))"
      by blast
    then show thesis using that l(1-3) bad by presburger
  qed
  show ?thesis using d unfolding k v by auto
qed

end
