(* ===== verification/VersionViews.thy ===== *)
theory VersionViews
  imports ApiCommon Errors
begin

text \<open>
  The documents that describe the API's versions (\<^verbatim>\<open>nova/api/openstack/compute/versions.py\<close>,
  \<^verbatim>\<open>views/versions.py\<close>) and \<^verbatim>\<open>GET /\<close>, which shows one of them
  (\<^verbatim>\<open>compute/versionsV21.py\<close>).
\<close>

definition describedby :: "string \<Rightarrow> pyval" where
  "describedby href =
     PDict [(''rel'', PStr ''describedby''), (''type'', PStr ''text/html''), (''href'', PStr href)]"

definition media_type :: "string \<Rightarrow> pyval" where
  "media_type v =
     PDict [(''base'', PStr ''application/json''),
            (''type'', PStr (''application/vnd.openstack.compute+json;version='' @ v))]"

definition VERSIONS :: "(string \<times> pydict) list" where
  "VERSIONS =
     [(''v2.0'',
       [(''id'', PStr ''v2.0''), (''status'', PStr ''SUPPORTED''), (''version'', PStr []), (''min_version'', PStr []),
        (''updated'', PStr ''2011-01-21T11:33:21Z''),
        (''links'', PList [describedby ''http://docs.openstack.org/'']),
        (''media-types'', PList [media_type ''2''])]),
      (''v2.1'',
       [(''id'', PStr ''v2.1''), (''status'', PStr ''CURRENT''), (''version'', PStr ''2.38''), (''min_version'', PStr ''2.1''),
        (''updated'', PStr ''2013-07-23T11:33:21Z''),
        (''links'', PList [describedby ''http://docs.openstack.org/'']),
        (''media-types'', PList [media_type ''2.1''])])]"

text \<open>The builder holds the prefix of its links, made when the request comes in.\<close>

definition get_view_builder :: "string \<Rightarrow> string \<Rightarrow> string result" where
  "get_view_builder link_prefix base_url = update_link_prefix base_url link_prefix"

definition generate_href :: "string \<Rightarrow> string \<Rightarrow> string \<Rightarrow> string" where
  "generate_href pre version path =
     url_join [pre, if starts_with ''v2.1'' version then ''v2.1'' else ''v2'', path]"

definition self_link :: "string \<Rightarrow> pyval" where
  "self_link href = PDict [(''rel'', PStr ''self''), (''href'', PStr href)]"

definition insert_link :: "pyval \<Rightarrow> pyval \<Rightarrow> pyval result" where
  "insert_link l links = (case links of PList xs \<Rightarrow> Inr (PList (l # xs)) | _ \<Rightarrow> Inl AttributeError)"

definition build_version :: "string \<Rightarrow> pydict \<Rightarrow> pyval result" where
  "build_version pre version =
     bind_r (ditem version ''links'') (\<lambda>ls.
     bind_r (insert_link (self_link (rstrip_char (CHR ''/'') pre @ ''/'')) ls) (\<lambda>ls1.
       Inr (PDict [(''version'', PDict (dset ''links'' ls1 version))])))"

definition version_id :: "pydict \<Rightarrow> string result" where
  "version_id v = bind_r (ditem v ''id'') (\<lambda>i. case i of PStr s \<Rightarrow> Inr s | _ \<Rightarrow> Inl AttributeError)"

text \<open>Both listings go through the versions in the order of their names.\<close>

definition in_order :: "(string \<times> pydict) list \<Rightarrow> pydict list" where
  "in_order versions = map snd (sort_key (\<lambda>p. map (of_char :: char \<Rightarrow> nat) (fst p)) versions)"

definition version_entry :: "string \<Rightarrow> pydict \<Rightarrow> pyval result" where
  "version_entry pre v =
     bind_r (ditem v ''id'') (\<lambda>i. bind_r (ditem v ''status'') (\<lambda>st. bind_r (ditem v ''version'') (\<lambda>n.
     bind_r (ditem v ''min_version'') (\<lambda>lo. bind_r (ditem v ''updated'') (\<lambda>u. bind_r (version_id v) (\<lambda>name.
       Inr (PDict [(''id'', i), (''status'', st), (''version'', n), (''min_version'', lo), (''updated'', u),
         (''links'', PList [self_link (generate_href pre name [])])])))))))"

definition build_versions :: "string \<Rightarrow> (string \<times> pydict) list \<Rightarrow> pyval result" where
  "build_versions pre versions =
     bind_r (map_r (version_entry pre) (in_order versions)) (\<lambda>vs. Inr (PDict [(''versions'', PList vs)]))"

definition choice_entry :: "string \<Rightarrow> string \<Rightarrow> pydict \<Rightarrow> pyval result" where
  "choice_entry pre path v =
     bind_r (ditem v ''id'') (\<lambda>i. bind_r (ditem v ''status'') (\<lambda>st. bind_r (version_id v) (\<lambda>name.
     bind_r (ditem v ''media-types'') (\<lambda>mt.
       Inr (PDict [(''id'', i), (''status'', st), (''links'', PList [self_link (generate_href pre name path)]),
         (''media-types'', mt)])))))"

definition build_choices :: "string \<Rightarrow> string \<Rightarrow> (string \<times> pydict) list \<Rightarrow> pyval result" where
  "build_choices pre path versions =
     bind_r (map_r (choice_entry pre path) (in_order versions)) (\<lambda>vs. Inr (PDict [(''choices'', PList vs)]))"

text \<open>\<^verbatim>\<open>Versions\<close>, the resource in front of all versions: the root, and any other path.\<close>

definition Versions_action :: "string \<Rightarrow> string" where
  "Versions_action path_info = (if path_info = ''/'' then ''index'' else ''multi'')"

definition Versions_index :: "string \<Rightarrow> string \<Rightarrow> pyval result" where
  "Versions_index link_prefix base_url =
     bind_r (get_view_builder link_prefix base_url) (\<lambda>pre. build_versions pre VERSIONS)"

definition Versions_multi :: "string \<Rightarrow> string \<Rightarrow> string \<Rightarrow> pyval result" where
  "Versions_multi link_prefix base_url path =
     bind_r (get_view_builder link_prefix base_url) (\<lambda>pre. build_choices pre path VERSIONS)"

definition versions_show_body :: "string \<Rightarrow> string \<Rightarrow> bool \<Rightarrow> string \<Rightarrow> pyval result" where
  "versions_show_body link_prefix base_url legacy id0 =
     bind_r (get_view_builder link_prefix base_url) (\<lambda>pre.
       (let i = (if legacy then ''v2.0'' else id0)
        in case dget VERSIONS i of
             None \<Rightarrow> Inl (HTTPError 404 [])
           | Some v \<Rightarrow> build_version pre v))"

definition versions_show :: "string \<Rightarrow> string \<Rightarrow> bool \<Rightarrow> string \<Rightarrow> pyval result" where
  "versions_show link_prefix base_url legacy id0 =
     expected_errors [404] (versions_show_body link_prefix base_url legacy id0)"

lemma versions_show_unknown:
  "update_link_prefix u p = Inr pre \<Longrightarrow> \<not> legacy \<Longrightarrow> dget VERSIONS i = None \<Longrightarrow>
   versions_show p u legacy i = Inl (HTTPError 404 [])"
  by (simp add: versions_show_def versions_show_body_def get_view_builder_def expected_errors_def expected_exn_def)

text \<open>
  The document shown of a version is the one that is listed, with a link to itself put in
  front; a legacy request is shown version 2.0 whatever it asks for.
\<close>

lemma versions_show_document:
  assumes "update_link_prefix u p = Inr pre" "dget VERSIONS (if legacy then ''v2.0'' else i) = Some v"
  shows "\<exists>ls. dget v ''links'' = Some (PList ls) \<and>
    versions_show p u legacy i = Inr (PDict [(''version'',
      PDict (dset ''links'' (PList (self_link (rstrip_char (CHR ''/'') pre @ ''/'') # ls)) v))])"
proof -
  from assms(2) have "v = snd (VERSIONS ! 0) \<or> v = snd (VERSIONS ! 1)"
    by (auto simp: VERSIONS_def split: if_splits)
  then have "dget v ''links'' = Some (PList [describedby ''http://docs.openstack.org/''])"
    by (auto simp: VERSIONS_def)
  with assms show ?thesis
    by (simp add: versions_show_def versions_show_body_def get_view_builder_def build_version_def ditem_def
        insert_link_def expected_errors_def)
qed

end
