(* ===== verification/ApiApp.thy ===== *)
theory ApiApp
  imports Routing Slaves VersionViews TestPlans Contexts
begin

text \<open>
  The REST API as it is deployed (\<^verbatim>\<open>nova/cmd/api-paste.ini\<close>, the entry points of
  \<^verbatim>\<open>nova-14.1.0-py2.7.egg-info\<close>): the four extensions with their controllers
  (\<^verbatim>\<open>nova/api/openstack/compute/testplan.py\<close>, \<^verbatim>\<open>testcase.py\<close>, \<^verbatim>\<open>slaves.py\<close>,
  \<^verbatim>\<open>versionsV21.py\<close>), behind the middleware that gives every request the same context
  (\<^verbatim>\<open>nova/api/openstack/auth.py\<close>). It joins the handlers to the request pipeline, so that
  what a client sends and gets back over HTTP can be stated.
\<close>

section \<open>The state behind the API\<close>

text \<open>One database, with the services and their nodes, and the log of casts.\<close>

record api_state =
  a_db :: svc_state
  a_casts :: "(string \<times> pydict) list"

definition plan_view :: "api_state \<Rightarrow> sys" where
  "plan_view s =
     \<lparr>db = \<lparr>plans = plans (a_db s), cases = cases (a_db s), nodes = nodes (a_db s)\<rparr>, casts = a_casts s\<rparr>"

definition plan_update :: "sys \<Rightarrow> api_state \<Rightarrow> api_state" where
  "plan_update p s =
     s\<lparr>a_db := (a_db s)\<lparr>plans := plans (db p), cases := cases (db p), nodes := nodes (db p)\<rparr>, a_casts := casts p\<rparr>"

lemma plan_view_update [simp]: "plan_view (plan_update p s) = p"
  by (cases p; cases "db p") (simp add: plan_view_def plan_update_def)

section \<open>Controllers\<close>

text \<open>
  The keyword arguments of a call must be those of the method; the check is made inside the
  decorator, so a mismatch is an unexpected error. \<open>url_id\<close> is the number the database takes
  the text of an id for.
\<close>

record app_env =
  aenv :: request_env
  link_prefix :: string
  app_url :: string
  url_id :: "string \<Rightarrow> int"

definition only_arguments :: "string list \<Rightarrow> pydict \<Rightarrow> 'a result \<Rightarrow> 'a result" where
  "only_arguments names args r = (if set (map fst args) = set names then r else Inl internal_server_error)"

definition text_answer :: "string result \<Rightarrow> action_result result" where
  "text_answer r = bind_r r (\<lambda>t. Inr (AResponse (RText t)))"

definition dict_answer :: "pyval result \<Rightarrow> action_result result" where
  "dict_answer r = bind_r r (\<lambda>v. Inr (ADict v))"

definition id_argument :: "app_env \<Rightarrow> pydict \<Rightarrow> int" where
  "id_argument A args = (case dget args ''id'' of Some (PStr t) \<Rightarrow> url_id A t | _ \<Rightarrow> 0)"

definition reading :: "(request \<Rightarrow> pydict \<Rightarrow> 's \<Rightarrow> action_result result) \<Rightarrow> 's api_method" where
  "reading f = \<lparr>mcall = (\<lambda>req args s. (f req args s, s)), wsgi_code = None\<rparr>"

text \<open>\<^verbatim>\<open>create\<close> of the two controllers that write; both are marked to answer with 202.\<close>

definition creating :: "(pyval \<Rightarrow> sys \<Rightarrow> string result \<times> sys) \<Rightarrow> api_state api_method" where
  "creating f =
     \<lparr>mcall = (\<lambda>req args s.
        (if set (map fst args) = {''body''}
         then (case f (dgetd args ''body'' PNone) (plan_view s) of (r, p) \<Rightarrow> (text_answer r, plan_update p s))
         else (Inl internal_server_error, s))),
      wsgi_code = Some 202\<rparr>"

definition plain_controller :: "(string \<times> 's api_method) list \<Rightarrow> 's controller" where
  "plain_controller ms =
     \<lparr>c_methods = dget ms, c_actions = [], c_handlers = (\<lambda>_. None), c_extensions = []\<rparr>"

definition testplan_controller :: "app_env \<Rightarrow> api_state controller" where
  "testplan_controller A = plain_controller
     [(''create'', creating (TestPlanController_create (aenv A))),
      (''show'', reading (\<lambda>req args s. only_arguments [''id''] args
         (text_answer (TestPlanController_show (aenv A) (id_argument A args) (plan_view s)))))]"

definition testcase_controller :: "app_env \<Rightarrow> api_state controller" where
  "testcase_controller A = plain_controller
     [(''show'', reading (\<lambda>req args s. only_arguments [''id''] args
         (text_answer (CaseController_show (aenv A) (id_argument A args) (plan_view s))))),
      (''create'', creating (CaseController_create (aenv A)))]"

definition slaves_controller :: "app_env \<Rightarrow> api_state controller" where
  "slaves_controller A = plain_controller
     [(''index'', reading (\<lambda>req args s. only_arguments [] args
         (dict_answer (slaves_index (renv (aenv A)) (rd (aenv A)) (a_db s))))),
      (''detail'', reading (\<lambda>req args s. only_arguments [] args
         (dict_answer (slaves_detail (renv (aenv A)) (rd (aenv A)) (a_db s))))),
      (''show'', reading (\<lambda>req args s. only_arguments [''id''] args
         (dict_answer (slaves_show (renv (aenv A)) (rd (aenv A)) (a_db s) (id_argument A args)))))]"

definition versions_controller :: "app_env \<Rightarrow> api_state controller" where
  "versions_controller A = plain_controller
     [(''show'', reading (\<lambda>req args s.
         if set (map fst args) \<subseteq> {''id''}
         then dict_answer (versions_show (link_prefix A) (app_url A) False
                (case dget args ''id'' of Some (PStr t) \<Rightarrow> t | _ \<Rightarrow> ''v2.1''))
         else Inl internal_server_error))]"

section \<open>Extensions\<close>

definition api_plugin :: "string \<Rightarrow> string \<Rightarrow> 's resource_extension list \<Rightarrow> 's api_extension" where
  "api_plugin name alias rs =
     \<lparr>e_name = Some name, e_alias = Some alias, e_version = PInt 1, e_resources = rs, e_controllers = []\<rparr>"

definition version_map :: "nat \<Rightarrow> api_route list" where
  "version_map i = [PathRoute ''versions'' ''/'' i ''show'' [''GET''], Redirection [] ''/'']"

definition Versions_extension :: "app_env \<Rightarrow> api_state api_extension" where
  "Versions_extension A = api_plugin ''Versions'' ''versions''
     [(ResourceExtension ''versions'' (Some (versions_controller A)))\<lparr>re_custom_routes := Some version_map\<rparr>]"

definition Testcase_extension :: "app_env \<Rightarrow> api_state api_extension" where
  "Testcase_extension A = api_plugin ''Testcase'' ''testcases''
     [(ResourceExtension ''testcases'' (Some (testcase_controller A)))\<lparr>re_member_name := Some ''Testcase'',
        re_collection_actions := [(''detail'', ''GET'')], re_member_actions := [(''action'', ''POST'')]\<rparr>]"

definition Slaves_extension :: "app_env \<Rightarrow> api_state api_extension" where
  "Slaves_extension A = api_plugin ''Slaves'' ''slaves''
     [(ResourceExtension ''slaves'' (Some (slaves_controller A)))\<lparr>re_member_name := Some ''flavor'',
        re_collection_actions := [(''detail'', ''GET'')], re_member_actions := [(''action'', ''POST'')]\<rparr>]"

definition Testplan_extension :: "app_env \<Rightarrow> api_state api_extension" where
  "Testplan_extension A = api_plugin ''Testplan'' ''testplan''
     [(ResourceExtension ''testplan'' (Some (testplan_controller A)))\<lparr>re_member_name := Some ''Testplan'',
        re_member_actions := [(''action'', ''POST'')]\<rparr>]"

text \<open>The entry points \<^verbatim>\<open>nova.api.v21.extensions\<close>, those that are not commented out.\<close>

definition entry_points :: "app_env \<Rightarrow> api_state api_extension list" where
  "entry_points A = [Versions_extension A, Testcase_extension A, Slaves_extension A, Testplan_extension A]"

section \<open>The middleware and the pipeline\<close>

text \<open>
  \<^verbatim>\<open>NoAuthMiddleware\<close>: whoever sends the request, its context is that of one user, who is no
  administrator. \<open>remote\<close> is the forwarded address where the configuration asks for it.
\<close>

definition noauth_user :: string where
  "noauth_user = ''1213123091238''"

definition noauth_context :: "datetime \<Rightarrow> string \<Rightarrow> string \<Rightarrow> rctx result" where
  "noauth_context utcnow fresh_id remote =
     RequestContext_init utcnow fresh_id
       [(''user_id'', CStr noauth_user), (''project_id'', CStr noauth_user), (''is_admin'', CBool False),
        (''remote_address'', CStr remote)]"

definition cval_text :: "cval \<Rightarrow> pyval" where
  "cval_text v = (case v of CStr t \<Rightarrow> PStr t | _ \<Rightarrow> PNone)"

definition with_context :: "rctx \<Rightarrow> request \<Rightarrow> request" where
  "with_context c req = req\<lparr>context_project := Some (cval_text (c_tenant c))\<rparr>"

text \<open>\<^verbatim>\<open>_load_pipeline\<close>: the filters wrap the application, the first one outermost.\<close>

definition load_pipeline :: "(string \<Rightarrow> 'app \<Rightarrow> 'app) \<Rightarrow> (string \<Rightarrow> 'app) \<Rightarrow> string list \<Rightarrow> 'app" where
  "load_pipeline get_filter get_app pipeline =
     foldl (\<lambda>app f. f app) (get_app (last pipeline)) (rev (map get_filter (butlast pipeline)))"

text \<open>The version a resource has set on the request stays on it.\<close>

definition negotiated :: "request \<Rightarrow> request" where
  "negotiated req =
     (case set_api_version_request (version_header req) of Inr v \<Rightarrow> req\<lparr>req_version := v\<rparr> | Inl e \<Rightarrow> req)"

text \<open>A fault answers for itself; what still escapes reaches the server, as no fault wrapper is deployed.\<close>

definition as_application :: "wsgi_env \<Rightarrow> request \<Rightarrow> wsgi_response result \<Rightarrow> wsgi_response result" where
  "as_application W req r =
     (case r of Inr (RFault code m) \<Rightarrow> Inr (fault_response W (negotiated req) code m None) | _ \<Rightarrow> r)"

definition api_call ::
  "routing_lib \<Rightarrow> wsgi_env \<Rightarrow> rctx \<Rightarrow> request \<Rightarrow> api_state router \<Rightarrow> api_state \<Rightarrow>
   wsgi_response result \<times> api_state router \<times> api_state" where
  "api_call L W c req rt s =
     (case Router_dispatch L W (with_context c req) rt s of
        (r, rt1, s1) \<Rightarrow> (as_application W req r, rt1, s1))"

section \<open>The router of the deployed API\<close>

definition api_object :: "'s controller \<Rightarrow> 's wsgi_resource" where
  "api_object k =
     \<lparr>w_controller = Some k, w_inherits = None,
      w_resource = \<lparr>attributes = c_methods k, wsgi_actions = [], wsgi_extensions = [], wsgi_action_extensions = []\<rparr>\<rparr>"

lemma no_parent [simp]: "w_inherits (api_object k) = None"
  by (simp add: api_object_def)

definition api_controllers :: "app_env \<Rightarrow> api_state controller list" where
  "api_controllers A = [versions_controller A, testcase_controller A, slaves_controller A, testplan_controller A]"

definition api_collections :: "string list" where
  "api_collections = [''versions'', ''testcases'', ''slaves'', ''testplan'']"

lemma all_admitted:
  "\<exists>reg. admitted register_extension (entry_points A) [] = (entry_points A, reg)"
  by (simp add: entry_points_def Versions_extension_def Testcase_extension_def Slaves_extension_def
      Testplan_extension_def api_plugin_def register_extension_def check_extension_def is_valid_def Let_def dhas_def)

lemma plain_resource: "ResourceV21 (Some (plain_controller ms)) = Inr (w_resource (api_object (plain_controller ms)))"
  by (simp add: ResourceV21_def plain_controller_def api_object_def Let_def)

lemmas api_extension_defs = Versions_extension_def Testcase_extension_def Slaves_extension_def Testplan_extension_def
  api_plugin_def ResourceExtension_def

lemma resource_registered:
  assumes "re_controller rx = Some (plain_controller ms)" "re_inherits rx = None"
  shows "register_one_resource regex rx rt =
    Inr (rt\<lparr>objects := objects rt @ [api_object (plain_controller ms)],
            resources := dset (re_collection rx) (length (objects rt)) (resources rt),
            routes := routes rt @ ProjectMapper_resource regex (route_of rx (length (objects rt))) @
              (case re_custom_routes rx of Some f \<Rightarrow> f (length (objects rt)) | None \<Rightarrow> [])\<rparr>)"
proof -
  have "resource_controller rx rt = Inr (Some (plain_controller ms))" "inherited rx rt = None"
    using assms by (simp_all add: resource_controller_def inherited_def named_def)
  then show ?thesis by (simp add: register_one_resource_def plain_resource Let_def api_object_def)
qed

lemma api_router_store:
  assumes "manages M (entry_points A)"
  shows "\<exists>rt reg. APIRouterV21 regex M = Inr (rt, reg) \<and> objects rt = map api_object (api_controllers A) \<and>
    resources rt = zip api_collections [0, 1, 2, 3]"
proof -
  obtain reg where "admitted register_extension (entry_points A) [] = (entry_points A, reg)"
    using all_admitted by blast
  then have k: "kept M register_extension [] = (entry_points A, reg)"
    using assms by (simp add: manages_def)
  have m: "mapped M f xs rt = foldl (\<lambda>rt x. snd (f x rt)) rt xs" for f xs rt
    using assms by (simp add: manages_def)
  have no: "filter has_inherits (entry_points A) = []" "filter (\<lambda>x. \<not> has_inherits x) (entry_points A) = entry_points A"
    by (simp_all add: entry_points_def has_inherits_def api_extension_defs named_def)
  have ne: "entry_points A \<noteq> []" by (simp add: entry_points_def)
  show ?thesis
    unfolding APIRouterV21_def k
    by (simp add: ne m no register_resources_check_inherits_def fold_register_resources)
      (simp add: entry_points_def api_extension_defs resource_registered versions_controller_def
        testcase_controller_def slaves_controller_def testplan_controller_def empty_router_def api_controllers_def
        api_collections_def)
qed

section \<open>A request that reaches a method\<close>

text \<open>
  The request is in order: its version and content type are accepted, its body decodes, and
  its path names no other project.
\<close>

definition well_formed :: "request \<Rightarrow> pydict \<Rightarrow> pydict \<Rightarrow> bool" where
  "well_formed req path_args args \<longleftrightarrow>
     (\<exists>v. set_api_version_request (version_header req) = Inr v) \<and>
     (\<exists>t. get_content_type req = Inr t) \<and>
     (\<exists>contents. json_body req = Inr contents \<and>
        \<not> project_mismatch req (dgetd (dupdate path_args contents) ''project_id'' PNone) \<and>
        args = AList.delete ''project_id'' (dupdate path_args contents))"

definition handled :: "wsgi_env \<Rightarrow> request \<Rightarrow> 's api_method \<Rightarrow> pydict \<Rightarrow> action_result result \<Rightarrow> wsgi_response result" where
  "handled W req m args r =
     (case with_handler W (unmatched W r) of
        Inl (HTTPError code x) \<Rightarrow> Inr (RFault code x)
      | Inl e \<Rightarrow> Inl e
      | Inr res \<Rightarrow> bind_r (conclude W req args m [] res) (\<lambda>w. Inr (finish_response req w)))"

lemma request_fields:
  "json_body (req\<lparr>routing_args := x, req_version := v\<rparr>) = json_body req"
  "get_content_type (req\<lparr>routing_args := x, req_version := v\<rparr>) = get_content_type req"
  "project_mismatch (req\<lparr>routing_args := x, req_version := v\<rparr>) p = project_mismatch req p"
  by (simp_all add: json_body_def get_content_type_def project_mismatch_def cong: option.case_cong)

lemma with_context_fields:
  "json_body (with_context c req) = json_body req" "get_content_type (with_context c req) = get_content_type req"
  "version_header (with_context c req) = version_header req"
  by (simp_all add: with_context_def json_body_def get_content_type_def cong: option.case_cong)

lemma stack_runs_method:
  assumes "attributes r a = Some m" "wsgi_extensions r = []" "json_body req = Inr contents"
    and "\<not> project_mismatch req (dgetd (dupdate args0 contents) ''project_id'' PNone)"
  shows "process_stack W req (Some a) args0 [r] s =
    (let args = AList.delete ''project_id'' (dupdate args0 contents)
     in case mcall m req args s of (q, s1) \<Rightarrow> (handled W req m args q, [r], s1))"
  using assms
  by (simp add: process_stack_def get_method_1_def dgetd_def dispatch_def handled_def Let_def split: prod.splits)

lemma call_reaches_method:
  assumes "matching L (routes rt) req = Some (i, args0)" "i < length (objects rt)"
    and "objects rt ! i = api_object (plain_controller ms)" "dget args0 ''action'' = Some (PStr a)"
    and "dget ms a = Some m" "''controller'' \<notin> fst ` set args0" "''format'' \<notin> fst ` set args0"
    and "well_formed req (AList.delete ''action'' args0) args"
  shows "Router_dispatch L W req rt s =
    (let q = negotiated (req\<lparr>routing_args := Some args0\<rparr>)
     in case mcall m q args s of (r, s1) \<Rightarrow> (handled W q m args r, rt, s1))"
proof -
  from assms(8) obtain v t contents where v: "set_api_version_request (version_header req) = Inr v"
    and t: "get_content_type req = Inr t" and b: "json_body req = Inr contents"
    and ok: "\<not> project_mismatch req (dgetd (dupdate (AList.delete ''action'' args0) contents) ''project_id'' PNone)"
    and args: "args = AList.delete ''project_id'' (dupdate (AList.delete ''action'' args0) contents)"
    by (auto simp: well_formed_def)
  let ?r = "w_resource (api_object (plain_controller ms))"
  let ?q = "req\<lparr>routing_args := Some args0, req_version := v\<rparr>"
  have q: "negotiated (req\<lparr>routing_args := Some args0\<rparr>) = ?q" by (simp add: negotiated_def v)
  have r: "attributes ?r a = Some m" "wsgi_extensions ?r = []"
    using assms(5) by (simp_all add: api_object_def plain_controller_def)
  have up: "ancestors (Suc i) (objects rt) i = [i]" by (simp add: assms(3) api_object_def)
  have ga: "get_action_args ?q = args0"
    using assms(6,7) by (simp add: get_action_args_def AList.delete_id)
  have call: "resource_call W True (req\<lparr>routing_args := Some args0\<rparr>) [?r] s =
      (case mcall m ?q args s of (q, s1) \<Rightarrow> (handled W ?q m args q, [?r], s1))"
    unfolding resource_call_def using v t assms(4)
    by (simp add: Let_def ga request_fields stack_runs_method [OF r, of ?q contents] b ok args)
  have same: "rt\<lparr>objects := put_back [i] [?r] (objects rt)\<rparr> = rt"
    using assms(2,3) by (simp add: list_update_same_conv)
  show ?thesis
    unfolding Router_dispatch_def assms(1) using call same
    by (simp add: up assms(3) q Let_def split: prod.splits)
qed

text \<open>The deployed controllers, by the position of their resource objects.\<close>

lemma api_objects:
  assumes "manages M (entry_points A)" "APIRouterV21 regex M = Inr (rt, reg)"
  shows "length (objects rt) = 4" "objects rt ! 0 = api_object (versions_controller A)"
    "objects rt ! 1 = api_object (testcase_controller A)" "objects rt ! 2 = api_object (slaves_controller A)"
    "objects rt ! 3 = api_object (testplan_controller A)"
  using api_router_store [OF assms(1), of regex] assms(2) by (auto simp: api_controllers_def)

lemma api_project:
  assumes "noauth_context utcnow fresh_id remote = Inr c"
  shows "c_tenant c = CStr noauth_user" "c_is_admin c = CBool False" "c_read_deleted c = ''no''"
  using assms
  by (auto simp: noauth_context_def RequestContext_init_def Let_def dgetd_def noauth_user_def check_read_deleted_def
      context_timestamp_def result_simps)

text \<open>
  Every request has the same project, so a path that names another one is refused with 400
  before its method is run; and an action the controller has no method for, such as the
  list of plans or the action of a case that the routes allow, is a 404.
\<close>

lemma foreign_project_refused:
  assumes "matching L (routes rt) (with_context c req) = Some (i, args0)" "i < length (objects rt)"
    and "objects rt ! i = api_object (plain_controller ms)" "dget args0 ''action'' = Some (PStr a)"
    and "dget ms a = Some m" "''controller'' \<notin> fst ` set args0" "''format'' \<notin> fst ` set args0"
    and "set_api_version_request (version_header req) = Inr v" "get_content_type req = Inr ct"
    and "json_body req = Inr contents" "noauth_context t u ip = Inr c"
    and "dget (dupdate (AList.delete ''action'' args0) contents) ''project_id'' = Some (PStr x)" "x \<noteq> noauth_user" "x \<noteq> []"
  shows "\<exists>expl. api_call L W c req rt s = (Inr (fault_response W (negotiated req) 400 expl None), rt, s)"
proof -
  let ?r = "w_resource (api_object (plain_controller ms))"
  let ?q = "(with_context c req)\<lparr>routing_args := Some args0, req_version := v\<rparr>"
  have r: "attributes ?r a = Some m" "wsgi_extensions ?r = []"
    using assms(5) by (simp_all add: api_object_def plain_controller_def)
  have ga: "get_action_args ?q = args0" using assms(6,7) by (simp add: get_action_args_def AList.delete_id)
  have f: "json_body ?q = Inr contents" "get_content_type ?q = Inr ct" "version_header (with_context c req) = version_header req"
    using assms(9,10) by (simp_all add: request_fields with_context_fields)
  have p: "project_mismatch ?q (PStr x)"
    using assms(13,14) api_project(1) [OF assms(11)] by (simp add: project_mismatch_def with_context_def cval_text_def)
  obtain expl where call: "resource_call W True ((with_context c req)\<lparr>routing_args := Some args0\<rparr>) [?r] s =
      (Inr (RFault 400 expl), [?r], s)"
    using assms(4,8,12) f p r
    by (simp add: resource_call_def Let_def ga process_stack_def get_method_1_def dgetd_def)
  have up: "ancestors (Suc i) (objects rt) i = [i]" by (simp add: assms(3))
  have same: "rt\<lparr>objects := put_back [i] [?r] (objects rt)\<rparr> = rt"
    using assms(2,3) by (simp add: list_update_same_conv)
  show ?thesis
    unfolding api_call_def Router_dispatch_def assms(1) using call same
    by (intro exI [of _ expl]) (simp add: up assms(3) Let_def as_application_def)
qed

lemma unknown_action_not_found:
  assumes "matching L (routes rt) (with_context c req) = Some (i, args0)" "i < length (objects rt)"
    and "objects rt ! i = api_object (plain_controller ms)" "dget args0 ''action'' = Some (PStr a)" "dget ms a = None"
    and "''controller'' \<notin> fst ` set args0" "''format'' \<notin> fst ` set args0"
    and "set_api_version_request (version_header req) = Inr v" "get_content_type req = Inr ct"
  shows "api_call L W c req rt s =
    (Inr (fault_response W (negotiated req) 404 (default_explanation W 404) None), rt, s)"
proof -
  let ?r = "w_resource (api_object (plain_controller ms))"
  let ?q = "(with_context c req)\<lparr>routing_args := Some args0, req_version := v\<rparr>"
  have r: "attributes ?r a = None" "wsgi_actions ?r = []"
    using assms(5) by (simp_all add: api_object_def plain_controller_def)
  have ga: "get_action_args ?q = args0" using assms(6,7) by (simp add: get_action_args_def AList.delete_id)
  have f: "get_content_type ?q = Inr ct" "version_header (with_context c req) = version_header req"
    using assms(9) by (simp_all add: request_fields with_context_fields)
  have call: "resource_call W True ((with_context c req)\<lparr>routing_args := Some args0\<rparr>) [?r] s =
      (Inr (RFault 404 (default_explanation W 404)), [?r], s)"
    using assms(4,8) f r
    by (simp add: resource_call_def Let_def ga process_stack_def get_method_1_def fault_of_def)
  have up: "ancestors (Suc i) (objects rt) i = [i]" by (simp add: assms(3))
  have same: "rt\<lparr>objects := put_back [i] [?r] (objects rt)\<rparr> = rt"
    using assms(2,3) by (simp add: list_update_same_conv)
  show ?thesis
    unfolding api_call_def Router_dispatch_def assms(1) using call same
    by (simp add: up assms(3) Let_def as_application_def)
qed

text \<open>
  C3: a plan that is posted can be fetched. A well-formed \<^verbatim>\<open>POST /testplan\<close> whose handler
  succeeds stores the plan, casts it to the conductor with its new id and answers with that
  id as plain text, not with the 202 its method is marked with; a \<^verbatim>\<open>GET\<close> of the id then
  answers with the plan's empty result. Neither request changes the router (the fourth
  resource object, number 3, is that of the test plans).
\<close>

theorem testplan_over_http:
  assumes "manages M (entry_points A)" "APIRouterV21 regex M = Inr (rt, reg)" "noauth_context t u ip = Inr c"
    and "rd (aenv A) = ''no''" "sysdb_ok (db (plan_view s))"
    and "matching L (routes rt) (with_context c post) = Some (3, [(''action'', PStr ''create'')])"
    and "well_formed (with_context c post) [] [(''body'', body)]"
    and "TestPlanController_create (aenv A) body (plan_view s) = (Inr out, p)"
    and "matching L (routes rt) (with_context c fetch) = Some (3, [(''action'', PStr ''show''), (''id'', PStr i)])"
    and "well_formed (with_context c fetch) [(''id'', PStr i)] [(''id'', PStr i)]"
  shows "\<exists>n name tp env. read_body body = Inr (name, tp, PDict env) \<and>
    json_dumps (PDict [(''TestPlan'', PInt n)]) = Inr out \<and>
    casts p = a_casts s @ [(''handle_testplan'', [(''data'', PDict [(''name'', name),
      (''environment'', PDict (dset ''id'' (PInt n) env)), (''testplan'', tp)])])] \<and>
    api_call L W c post rt s = (Inr (RText out), rt, plan_update p s) \<and>
    (url_id A i = n \<longrightarrow>
       api_call L W c fetch rt (plan_update p s) = (Inr (RText ''{}''), rt, plan_update p s))"
proof -
  note objs = api_objects [OF assms(1,2)]
  obtain r where body: "testplan_create_body (aenv A) body (plan_view s) = (r, p)" "r = Inr out"
    using assms(8) by (auto simp: TestPlanController_create_def split: prod.splits)
  then have b: "testplan_create_body (aenv A) body (plan_view s) = (Inr out, p)" by simp
  obtain name tp env n where made: "read_body body = Inr (name, tp, PDict env)"
    "json_dumps (PDict [(''TestPlan'', PInt n)]) = Inr out"
    "casts p = casts (plan_view s) @ [(''handle_testplan'', [(''data'', PDict [(''name'', name),
      (''environment'', PDict (dset ''id'' (PInt n) env)), (''testplan'', tp)])])]"
    "TestPlanController_show (aenv A) n p = Inr ''{}''"
    by (rule testplan_made [OF b assms(5,4)])
  have ctl: "objects rt ! 3 = api_object (plain_controller
      [(''create'', creating (TestPlanController_create (aenv A))),
       (''show'', reading (\<lambda>req args s. only_arguments [''id''] args
         (text_answer (TestPlanController_show (aenv A) (id_argument A args) (plan_view s)))))])"
    by (simp add: objs testplan_controller_def)
  have create: "api_call L W c post rt s = (Inr (RText out), rt, plan_update p s)"
    using call_reaches_method [OF assms(6) _ ctl _ _ _ _, of "''create''"] assms(7,8)
    by (simp add: api_call_def objs creating_def Let_def dgetd_def text_answer_def handled_def unmatched_def
        with_handler_def conclude_def finish_response_def as_application_def)
  have show_it: "api_call L W c fetch rt (plan_update p s) = (Inr (RText ''{}''), rt, plan_update p s)"
    if "url_id A i = n"
    using call_reaches_method [OF assms(9) _ ctl _ _ _ _, of "''show''"] assms(10) that made(4)
    by (simp add: api_call_def objs reading_def Let_def only_arguments_def id_argument_def text_answer_def handled_def
        unmatched_def with_handler_def conclude_def finish_response_def as_application_def)
  show ?thesis using made create show_it by (auto simp: plan_view_def)
qed

section \<open>Samples\<close>

definition sample_app :: app_env where
  "sample_app = \<lparr>aenv = sample_request, link_prefix = [], app_url = ''http://h/v2.1'', url_id = (\<lambda>_. 1)\<rparr>"

definition empty_api :: api_state where
  "empty_api = \<lparr>a_db = sample_state\<lparr>plans := empty_table, cases := empty_table, nodes := empty_table\<rparr>, a_casts = []\<rparr>"

definition sample_text :: string where
  "sample_text = (case json_dumps (sample_body (PDict [])) of Inr t \<Rightarrow> t | Inl e \<Rightarrow> [])"

definition sample_post :: request where
  "sample_post = sample_req\<lparr>req_method := ''POST'', req_body := sample_text, content_length := Some 9\<rparr>"

definition sample_matching :: routing_lib where
  "sample_matching =
     \<lparr>matching = (\<lambda>rs req. if req_method req = ''POST'' then Some (3, [(''action'', PStr ''create'')])
        else Some (3, [(''action'', PStr ''show''), (''id'', PStr ''1'')])),
      not_found_page = RResp 404 [] None\<rparr>"

theorem testplan_over_http_witness:
  "\<exists>rt reg c p. APIRouterV21 None (stevedore (entry_points sample_app)) = Inr (rt, reg) \<and>
     noauth_context (DT 2017 1 1 0 0 0 0) ''req-1'' ''127.0.0.1'' = Inr c \<and>
     api_call sample_matching sample_wsgi c sample_post rt empty_api =
       (Inr (RText (''{'' @ [CHR 0x22] @ ''TestPlan'' @ [CHR 0x22] @ '': 1}'')), rt, plan_update p empty_api) \<and>
     api_call sample_matching sample_wsgi c sample_req rt (plan_update p empty_api) =
       (Inr (RText ''{}''), rt, plan_update p empty_api)"
proof -
  let ?M = "stevedore (entry_points sample_app)" and ?ip = "''127.0.0.1''"
  have M: "manages ?M (entry_points sample_app)" by (rule stevedore_manages)
  obtain rt reg where rt: "APIRouterV21 None ?M = Inr (rt, reg)" using api_router_store [OF M] by blast
  obtain c where c: "noauth_context (DT 2017 1 1 0 0 0 0) ''req-1'' ?ip = Inr c"
    by (simp add: noauth_context_def RequestContext_init_def Let_def dgetd_def check_read_deleted_def context_timestamp_def)
  have view: "plan_view empty_api = empty_state" by (simp add: plan_view_def empty_api_def empty_state_def)
  have a: "aenv sample_app = sample_request" by (simp add: sample_app_def)
  have ok: "rd (aenv sample_app) = ''no''" "sysdb_ok (db (plan_view empty_api))"
    by (simp_all add: a view empty_state_ok) (simp add: sample_request_def)
  have v: "\<exists>v. set_api_version_request (Some ''2.7'') = Inr v" 
  proof -
    have "\<not> isl (set_api_version_request (Some ''2.7''))" by code_simp
    then show ?thesis by (metis sum.collapse(2))
  qed
  have j: "json_loads sample_text = Inr (sample_body (PDict []))" by code_simp
  have u: "utf8_text sample_text" "utf8_text []" by code_simp+
  have wf: "well_formed (with_context c sample_post) [] [(''body'', sample_body (PDict []))]"
    "well_formed (with_context c sample_req) [(''id'', PStr ''1'')] [(''id'', PStr ''1'')]"
    using v j u by (simp_all add: well_formed_def with_context_def sample_post_def sample_req_def get_content_type_def
        json_body_def dupdate_def project_mismatch_def dgetd_def cong: option.case_cong)
  have made: "TestPlanController_create (aenv sample_app) (sample_body (PDict [])) (plan_view empty_api) =
      (Inr (''{'' @ [CHR 0x22] @ ''TestPlan'' @ [CHR 0x22] @ '': 1}''), sample_created)"
    unfolding view a by (rule sample_create)
  have m: "matching sample_matching (routes rt) (with_context c sample_post) = Some (3, [(''action'', PStr ''create'')])"
    "matching sample_matching (routes rt) (with_context c sample_req) =
       Some (3, [(''action'', PStr ''show''), (''id'', PStr ''1'')])"
    by (simp_all add: sample_matching_def with_context_def sample_post_def sample_req_def)
  obtain n where n: "json_dumps (PDict [(''TestPlan'', PInt n)]) =
        Inr (''{'' @ [CHR 0x22] @ ''TestPlan'' @ [CHR 0x22] @ '': 1}'')"
    "api_call sample_matching sample_wsgi c sample_post rt empty_api =
       (Inr (RText (''{'' @ [CHR 0x22] @ ''TestPlan'' @ [CHR 0x22] @ '': 1}'')), rt, plan_update sample_created empty_api)"
    "url_id sample_app ''1'' = n \<longrightarrow>
     api_call sample_matching sample_wsgi c sample_req rt (plan_update sample_created empty_api) =
       (Inr (RText ''{}''), rt, plan_update sample_created empty_api)"
    using testplan_over_http [OF M rt c ok m(1) wf(1) made m(2) wf(2), of sample_wsgi] by blast
  have "json_loads (''{'' @ [CHR 0x22] @ ''TestPlan'' @ [CHR 0x22] @ '': 1}'') = Inr (PDict [(''TestPlan'', PInt n)])"
    using n(1) json_loads_dumps [of "PDict [(''TestPlan'', PInt n)]"] by (simp add: json_dumps_def split: if_splits)
  moreover have "json_loads (''{'' @ [CHR 0x22] @ ''TestPlan'' @ [CHR 0x22] @ '': 1}'') = Inr (PDict [(''TestPlan'', PInt 1)])"
    by code_simp
  ultimately have "n = 1" by simp
  with n(3) have "api_call sample_matching sample_wsgi c sample_req rt (plan_update sample_created empty_api) =
       (Inr (RText ''{}''), rt, plan_update sample_created empty_api)" by (simp add: sample_app_def)
  with rt c n(2) show ?thesis by blast
qed

end
