(* ===== verification/WireObjects.thy ===== *)
theory WireObjects
  imports VObjects
begin

text \<open>
  Objects on the wire: how a versioned object becomes primitive data and is read back
  (\<^verbatim>\<open>oslo_versionedobjects/base.py\<close>, \<^verbatim>\<open>fields.py\<close>), with fields that hold other objects or lists
  of them, the registry of classes, back-levelling to an older version through the tables of
  relationships or a manifest of versions, and the serializer of \<^verbatim>\<open>nova/objects/base.py\<close>.

  An object carries its class. A class is its name, version, fields and table of relationships;
  \<open>cls_compat\<close> is what its own \<^verbatim>\<open>obj_make_compatible\<close> does to the primitive after calling that of
  the base class. Parameters: the text of a date and its time zone (\<^verbatim>\<open>strftime\<close>, \<^verbatim>\<open>tzname\<close>), the
  text of an object, and the version parser of \<^verbatim>\<open>pkg_resources\<close>.
\<close>

section \<open>Classes and objects\<close>

datatype obj_field =
    PlainField field
  | ObjectField string bool
  | ListOfObjectsField string bool

record ovo_class =
  cls_name :: string
  cls_version :: string
  cls_fields :: "(string \<times> obj_field) list"
  cls_relationships :: "(string \<times> (string \<times> string) list) list"
  cls_compat :: "string \<Rightarrow> (string \<times> string) list option \<Rightarrow> pydict \<Rightarrow> pydict result"
  cls_initial :: pydict
  cls_list :: bool
  child_versions :: "(string \<times> string) list"

datatype robj = RObj (o_class: ovo_class) (o_version: string) (o_attrs: "(string \<times> oval) list")
    (o_changed: "string list") (o_context: bool)
  and oval = OVal pyval | OObj robj | OObjs "robj list"

record wire_env =
  w_ovo :: ovo_env
  strftime :: "string \<Rightarrow> string"
  tzname :: "string \<Rightarrow> string"
  object_str :: "oval \<Rightarrow> string"
  version_head :: "string \<Rightarrow> string"
  version_ge :: "string \<Rightarrow> string \<Rightarrow> bool"

definition field_objname :: "obj_field \<Rightarrow> string option" where
  "field_objname f =
     (case f of PlainField _ \<Rightarrow> None | ObjectField n _ \<Rightarrow> Some n | ListOfObjectsField n _ \<Rightarrow> Some n)"

section \<open>Coercion and assignment\<close>

text \<open>A list of objects is false when it is empty; an object is false when it is an empty list object.\<close>

fun oval_truthy :: "oval \<Rightarrow> bool" where
  "oval_truthy (OVal v) = truthy v"
| "oval_truthy (OObjs os) = (os \<noteq> [])"
| "oval_truthy (OObj (RObj c v ats ch ctx)) =
     (cls_list c \<longrightarrow> (case dget ats ''objects'' of Some (OObjs []) \<Rightarrow> False | _ \<Rightarrow> True))"

definition no_value :: "oval \<Rightarrow> bool" where
  "no_value x = (case x of OVal PNone \<Rightarrow> True | _ \<Rightarrow> False)"

text \<open>A scalar field that is given an object.\<close>

definition scalar_of_object :: "wire_env \<Rightarrow> field_type \<Rightarrow> oval \<Rightarrow> pyval result" where
  "scalar_of_object E t x =
     (case t of
        FUUID \<Rightarrow> Inr (PStr (object_str E x))
      | FBoolean \<Rightarrow> Inr (PBool (oval_truthy x))
      | FInteger \<Rightarrow> Inl TypeError
      | FNonNegativeInteger \<Rightarrow> Inl TypeError
      | _ \<Rightarrow> Inl ValueError)"

definition object_coerce :: "string \<Rightarrow> oval \<Rightarrow> robj result" where
  "object_coerce n x =
     (case x of OObj ob \<Rightarrow> if cls_name (o_class ob) = n then Inr ob else Inl ValueError | _ \<Rightarrow> Inl ValueError)"

text \<open>A field with no value: nothing where it may be null; these fields have no defaults.\<close>

definition wire_coerce :: "wire_env \<Rightarrow> obj_field \<Rightarrow> oval \<Rightarrow> oval result" where
  "wire_coerce E f x =
     (case f of
        PlainField g \<Rightarrow>
          (case x of
             OVal v \<Rightarrow> bind_r (field_coerce (w_ovo E) g v) (\<lambda>w. Inr (OVal w))
           | _ \<Rightarrow> bind_r (scalar_of_object E (ftype g) x) (\<lambda>w. Inr (OVal w)))
      | ObjectField n null \<Rightarrow>
          (if no_value x then (if null then Inr x else Inl ValueError)
           else bind_r (object_coerce n x) (\<lambda>ob. Inr (OObj ob)))
      | ListOfObjectsField n null \<Rightarrow>
          (if no_value x then (if null then Inr x else Inl ValueError)
           else (case x of
                   OObjs os \<Rightarrow> bind_r (map_r (\<lambda>ob. object_coerce n (OObj ob)) os) (\<lambda>os1. Inr (OObjs os1))
                 | OVal (PList []) \<Rightarrow> Inr (OObjs [])
                 | _ \<Rightarrow> Inl ValueError)))"

text \<open>The property setter, with the read-only fields of \<open>obj_set\<close>.\<close>

definition is_read_only :: "obj_field \<Rightarrow> bool" where
  "is_read_only f = (case f of PlainField g \<Rightarrow> read_only g | _ \<Rightarrow> False)"

definition obj_setattr :: "wire_env \<Rightarrow> string \<Rightarrow> oval \<Rightarrow> robj \<Rightarrow> robj result" where
  "obj_setattr E name x ob =
     (case ob of RObj c v ats ch ctx \<Rightarrow>
        (case dget (cls_fields c) name of
           None \<Rightarrow> Inl AttributeError
         | Some f \<Rightarrow>
             bind_r (wire_coerce E f x) (\<lambda>w.
               if is_read_only f \<and> dhas ats name then
                 (if dget ats name \<noteq> Some w then Inl (OtherError ''ReadOnlyFieldError'') else Inr ob)
               else Inr (RObj c v (dset name w ats) (List.insert name ch) ctx))))"

text \<open>
  \<^verbatim>\<open>cls()\<close>: a list class starts with an empty list that does not count as changed; a class may set
  attributes in its \<^verbatim>\<open>__init__\<close> (\<open>cls_initial\<close>).
\<close>

definition initial_attrs :: "ovo_class \<Rightarrow> (string \<times> oval) list" where
  "initial_attrs c =
     (if cls_list c then [(''objects'', OObjs [])] else []) @ map (\<lambda>(k, v). (k, OVal v)) (cls_initial c)"

definition new_object :: "bool \<Rightarrow> ovo_class \<Rightarrow> robj" where
  "new_object ctx c =
     RObj c (cls_version c) (initial_attrs c) (map fst (cls_initial c)) ctx"

section \<open>Change tracking\<close>

definition changed_here :: "ovo_class \<Rightarrow> string list \<Rightarrow> (string \<times> oval) list \<Rightarrow> (string \<times> bool) list \<Rightarrow> string list" where
  "changed_here c ch ats inner =
     (if cls_list c
      then (if dgetd inner ''objects'' False then List.insert ''objects'' ch else ch)
      else fold List.insert
             (filter (\<lambda>k. (case dget ats k of Some (OObj _) \<Rightarrow> dgetd inner k False | _ \<Rightarrow> False)) (map fst (cls_fields c)))
             (filter (dhas (cls_fields c)) ch))"

primrec what_changed :: "robj \<Rightarrow> string list" and value_changed :: "oval \<Rightarrow> bool" where
  "what_changed (RObj c v ats ch ctx) = changed_here c ch ats (map (map_prod id value_changed) ats)"
| "value_changed (OVal v) = False"
| "value_changed (OObj ob) = (what_changed ob \<noteq> [])"
| "value_changed (OObjs os) = list_ex (\<lambda>ks. ks \<noteq> []) (map what_changed os)"

section \<open>Versions\<close>

definition convert_version_to_tuple :: "string \<Rightarrow> int list result" where
  "convert_version_to_tuple s =
     map_r (\<lambda>p. case int_of_string p of None \<Rightarrow> Inl ValueError | Some n \<Rightarrow> Inr n) (split_on CHR ''.'' s)"

fun tuple_less :: "int list \<Rightarrow> int list \<Rightarrow> bool" where
  "tuple_less _ [] = False"
| "tuple_less [] (y # ys) = True"
| "tuple_less (x # xs) (y # ys) = (x < y \<or> x = y \<and> tuple_less xs ys)"

definition versions_compatible :: "wire_env \<Rightarrow> string \<Rightarrow> string \<Rightarrow> bool" where
  "versions_compatible E requested current =
     (if version_head E requested \<noteq> version_head E current then False else version_ge E current requested)"

text \<open>
  \<^verbatim>\<open>_get_subobject_version\<close>: the version the sub-object is taken to, if it is at all. The entries are
  pairs of a version of the parent and one of the sub-object; \<open>previous\<close> is the version of
  the entry before, absent at the first.
\<close>

definition before_subobject :: exn where
  "before_subobject = OtherError ''TargetBeforeSubobjectExistedException''"

fun subobject_version_from :: "int list \<Rightarrow> string option \<Rightarrow> (string \<times> string) list \<Rightarrow> string option result" where
  "subobject_version_from tgt previous [] = Inr None"
| "subobject_version_from tgt previous ((parent, child) # rs) =
     bind_r (convert_version_to_tuple parent) (\<lambda>p.
       if tuple_less tgt p then
         (case previous of None \<Rightarrow> Inl before_subobject | Some v \<Rightarrow> Inr (Some v))
       else if tgt = p then Inr (Some child)
       else subobject_version_from tgt (Some child) rs)"

definition get_subobject_version :: "string \<Rightarrow> (string \<times> string) list \<Rightarrow> string option result" where
  "get_subobject_version tgt_version relationships =
     bind_r (convert_version_to_tuple tgt_version) (\<lambda>tgt. subobject_version_from tgt None relationships)"

section \<open>Primitive data\<close>

abbreviation "name_key \<equiv> ''nova_object.name''"
abbreviation "namespace_key \<equiv> ''nova_object.namespace''"
abbreviation "version_key \<equiv> ''nova_object.version''"
abbreviation "data_key \<equiv> ''nova_object.data''"
abbreviation "changes_key \<equiv> ''nova_object.changes''"

definition isotime :: "wire_env \<Rightarrow> string \<Rightarrow> bool \<Rightarrow> string" where
  "isotime E t aware =
     (let tz = (if aware then tzname E t else ''UTC'')
      in strftime E t @ (if tz = ''UTC'' then ''Z'' else tz))"

definition plain_to_primitive :: "wire_env \<Rightarrow> field \<Rightarrow> pyval \<Rightarrow> pyval" where
  "plain_to_primitive E f v =
     (case (ftype f, v) of (FDateTime _, PDate t z) \<Rightarrow> PStr (isotime E t z) | _ \<Rightarrow> v)"

text \<open>
  An attribute of an object with the primitive forms of the objects in it. A scalar field
  never holds an object, and these fields hold nothing else but \<^verbatim>\<open>None\<close>.
\<close>

datatype prim_parts = NoObject | OnePart "pyval result" | Parts "pyval result list"

definition field_to_primitive :: "wire_env \<Rightarrow> obj_field \<Rightarrow> oval \<Rightarrow> prim_parts \<Rightarrow> pyval result" where
  "field_to_primitive E f x parts =
     (case parts of
        OnePart r \<Rightarrow> r
      | Parts rs \<Rightarrow> bind_r (map_r (\<lambda>r. r) rs) (\<lambda>vs. Inr (PList vs))
      | NoObject \<Rightarrow>
          (case (f, x) of
             (PlainField g, OVal v) \<Rightarrow> Inr (plain_to_primitive E g v)
           | (_, OVal v) \<Rightarrow> Inr v
           | _ \<Rightarrow> Inl TypeError))"

text \<open>The dictionary of a dehydrated object.\<close>

definition wire_form :: "ovo_class \<Rightarrow> string \<Rightarrow> pydict \<Rightarrow> string list \<Rightarrow> pydict" where
  "wire_form c ver primitive what =
     (let changes = filter (dhas primitive) what
      in [(name_key, PStr (cls_name c)), (namespace_key, PStr ''nova''), (version_key, PStr ver),
          (data_key, PDict primitive)]
         @ (if changes = [] then [] else [(changes_key, PList (map PStr changes))]))"

definition primitive_data :: "wire_env \<Rightarrow> ovo_class \<Rightarrow> (string \<times> oval) list \<Rightarrow> (string \<times> prim_parts) list \<Rightarrow> pydict result" where
  "primitive_data E c ats parts =
     map_r (\<lambda>(k, f).
         case dget ats k of
           None \<Rightarrow> Inl AttributeError
         | Some x \<Rightarrow> bind_r (field_to_primitive E f x (dgetd parts k NoObject)) (\<lambda>p. Inr (k, p)))
       (filter (\<lambda>(k, f). dhas ats k) (cls_fields c))"

text \<open>
  \<^verbatim>\<open>obj_to_primitive()\<close> as fields call it, without a target version: the version is read
  as numbers for the comparison with itself.
\<close>

primrec dehydrate :: "wire_env \<Rightarrow> robj \<Rightarrow> pyval result" and dehydrate_value :: "wire_env \<Rightarrow> oval \<Rightarrow> prim_parts" where
  "dehydrate E (RObj c v ats ch ctx) =
     bind_r (convert_version_to_tuple v) (\<lambda>_.
     bind_r (primitive_data E c ats (map (map_prod id (dehydrate_value E)) ats)) (\<lambda>primitive.
       Inr (PDict (wire_form c v primitive (what_changed (RObj c v ats ch ctx))))))"
| "dehydrate_value E (OVal v) = NoObject"
| "dehydrate_value E (OObj ob) = OnePart (dehydrate E ob)"
| "dehydrate_value E (OObjs os) = Parts (map (dehydrate E) os)"

section \<open>Taking an object to an older version\<close>

text \<open>The versions of the objects below, by name, that the receiver asks for.\<close>

type_synonym manifest = "(string \<times> string) list"

type_synonym compat = "string \<Rightarrow> manifest option \<Rightarrow> pydict \<Rightarrow> pydict result"

datatype compat_parts = NoCompat | OneCompat compat | Compats "compat list"

text \<open>
  \<^verbatim>\<open>_obj_relationship_for\<close>: without a manifest the table of the class, which must have an entry;
  with one the version it names, or nothing.
\<close>

definition obj_relationship_for ::
  "ovo_class \<Rightarrow> string \<Rightarrow> obj_field \<Rightarrow> string \<Rightarrow> manifest option \<Rightarrow> (string \<times> string) list option result" where
  "obj_relationship_for c field f target_version man =
     (case man of
        None \<Rightarrow>
          (case dget (cls_relationships c) field of
             None \<Rightarrow> Inl (OtherError ''ObjectActionError'')
           | Some r \<Rightarrow> Inr (Some r))
      | Some m \<Rightarrow>
          (case field_objname f of
             None \<Rightarrow> Inl AttributeError
           | Some n \<Rightarrow> Inr (map_option (\<lambda>v. [(target_version, v)]) (dget m n))))"

text \<open>\<^verbatim>\<open>_do_subobject_backport\<close>; an empty manifest is passed on as none.\<close>

definition passed_on :: "manifest option \<Rightarrow> manifest option" where
  "passed_on man = (if man = Some [] then None else man)"

definition backport_one :: "string \<Rightarrow> manifest option \<Rightarrow> compat \<Rightarrow> pyval \<Rightarrow> pyval result" where
  "backport_one to_version man f prim =
     (case prim of
        PDict d \<Rightarrow>
          bind_r (ditem d data_key) (\<lambda>v.
            (case v of
               PDict data \<Rightarrow>
                 bind_r (f to_version (passed_on man) data) (\<lambda>data1.
                   Inr (PDict (dset version_key (PStr to_version) (dset data_key (PDict data1) d))))
             | _ \<Rightarrow> Inl TypeError))
      | _ \<Rightarrow> Inl TypeError)"

definition do_subobject_backport ::
  "string \<Rightarrow> compat_parts \<Rightarrow> manifest option \<Rightarrow> string \<Rightarrow> pydict \<Rightarrow> pydict result" where
  "do_subobject_backport to_version parts man field primitive =
     (case parts of
        NoCompat \<Rightarrow> Inr primitive
      | OneCompat f \<Rightarrow>
          bind_r (ditem primitive field) (\<lambda>v.
          bind_r (backport_one to_version man f v) (\<lambda>w. Inr (dset field w primitive)))
      | Compats fs \<Rightarrow>
          if fs = [] then Inr primitive
          else bind_r (ditem primitive field) (\<lambda>v.
            (case v of
               PList vs \<Rightarrow>
                 if length vs < length fs then Inl IndexError
                 else bind_r (map_r (\<lambda>(f, x). backport_one to_version man f x) (zip fs vs)) (\<lambda>ws.
                        Inr (dset field (PList (ws @ drop (length fs) vs)) primitive))
             | _ \<Rightarrow> Inl TypeError)))"

text \<open>A field whose sub-object did not exist yet at the target version is deleted.\<close>

definition unless_before :: "string \<Rightarrow> pydict \<Rightarrow> pydict result \<Rightarrow> pydict result" where
  "unless_before field primitive r =
     (case r of
        Inl e \<Rightarrow>
          if e = before_subobject then
            (if dhas primitive field then Inr (AList.delete field primitive) else Inl (KeyError field))
          else Inl e
      | Inr p \<Rightarrow> Inr p)"

definition backport_by ::
  "(string \<times> string) list \<Rightarrow> compat_parts \<Rightarrow> manifest option \<Rightarrow> string \<Rightarrow> string \<Rightarrow> pydict \<Rightarrow> pydict result" where
  "backport_by relationships parts man target_version field primitive =
     unless_before field primitive
       (bind_r (get_subobject_version target_version relationships) (\<lambda>found.
          case found of
            None \<Rightarrow> Inr primitive
          | Some ver \<Rightarrow> do_subobject_backport ver parts man field primitive))"

definition make_obj_compatible ::
  "ovo_class \<Rightarrow> compat_parts \<Rightarrow> manifest option \<Rightarrow> string \<Rightarrow> string \<Rightarrow> obj_field \<Rightarrow> pydict \<Rightarrow> pydict result" where
  "make_obj_compatible c parts man target_version field f primitive =
     bind_r (obj_relationship_for c field f target_version man) (\<lambda>rel.
       case rel of
         None \<Rightarrow> Inr primitive
       | Some [] \<Rightarrow> Inr primitive
       | Some r \<Rightarrow> backport_by r parts man target_version field primitive)"

text \<open>
  A list class follows its own table of child versions, then the relationships of its
  \<^verbatim>\<open>objects\<close>; with neither, its objects are taken to version 1.0.
\<close>

definition list_compatible ::
  "ovo_class \<Rightarrow> (string \<times> compat_parts) list \<Rightarrow> manifest option \<Rightarrow> string \<Rightarrow> pydict \<Rightarrow> pydict result" where
  "list_compatible c parts man target_version primitive =
     (let p = dgetd parts ''objects'' NoCompat in
      bind_r (if child_versions c \<noteq> [] then Inr (child_versions c)
              else case dget (cls_fields c) ''objects'' of
                     None \<Rightarrow> Inl (KeyError ''objects'')
                   | Some f \<Rightarrow>
                       (case obj_relationship_for c ''objects'' f target_version man of
                          Inr (Some r) \<Rightarrow> Inr r
                        | Inr None \<Rightarrow> Inr []
                        | Inl e \<Rightarrow> if e = OtherError ''ObjectActionError'' then Inr [] else Inl e))
        (\<lambda>rel.
          if rel \<noteq> [] then backport_by rel p man target_version ''objects'' primitive
          else unless_before ''objects'' primitive
                 (do_subobject_backport ''1.0'' p man ''objects'' primitive)))"

definition compat_fields ::
  "ovo_class \<Rightarrow> (string \<times> compat_parts) list \<Rightarrow> compat" where
  "compat_fields c parts target_version man primitive =
     bind_r
       (if cls_list c then list_compatible c parts man target_version primitive
        else fold_r (\<lambda>(k, f) p. make_obj_compatible c (dgetd parts k NoCompat) man target_version k f p)
               (filter (\<lambda>(k, f). field_objname f \<noteq> None \<and> dhas parts k) (cls_fields c)) primitive)
       (cls_compat c target_version man)"

primrec make_compatible :: "robj \<Rightarrow> compat" and value_compat :: "oval \<Rightarrow> compat_parts" where
  "make_compatible (RObj c v ats ch ctx) = compat_fields c (map (map_prod id value_compat) ats)"
| "value_compat (OVal v) = NoCompat"
| "value_compat (OObj ob) = OneCompat (make_compatible ob)"
| "value_compat (OObjs os) = Compats (map make_compatible os)"

definition obj_to_primitive :: "wire_env \<Rightarrow> string option \<Rightarrow> manifest option \<Rightarrow> robj \<Rightarrow> pyval result" where
  "obj_to_primitive E target man ob =
     (case ob of RObj c v ats ch ctx \<Rightarrow>
        (let tv = (case target of None \<Rightarrow> v | Some t \<Rightarrow> t) in
         bind_r (convert_version_to_tuple tv) (\<lambda>t.
         bind_r (convert_version_to_tuple v) (\<lambda>own.
           if tuple_less own t then Inl (OtherError ''InvalidTargetVersion'')
           else
             bind_r (primitive_data E c ats (map (map_prod id (dehydrate_value E)) ats)) (\<lambda>primitive.
             bind_r (if tv \<noteq> v \<or> (man \<noteq> None \<and> man \<noteq> Some []) then make_compatible ob tv man primitive
                     else Inr primitive) (\<lambda>p1.
               Inr (PDict (wire_form c tv p1 (what_changed ob)))))))))"

section \<open>The registry of classes\<close>

type_synonym class_registry = "(string \<times> ovo_class list) list"

text \<open>A class has its own fields and those of the classes it inherits from, its own first.\<close>

definition class_fields :: "(string \<times> 'f) list \<Rightarrow> (string \<times> 'f) list list \<Rightarrow> (string \<times> 'f) list" where
  "class_fields own supers =
     fold (\<lambda>sup fs. fs @ filter (\<lambda>(k, f). \<not> dhas fs k) sup) supers own"

text \<open>The classes of a name are kept with the latest version first.\<close>

fun insert_class :: "ovo_class \<Rightarrow> ovo_class list \<Rightarrow> ovo_class list result" where
  "insert_class c [] = Inr [c]"
| "insert_class c (d # ds) =
     (if cls_version c = cls_version d then Inr (c # ds)
      else bind_r (convert_version_to_tuple (cls_version c)) (\<lambda>vc.
           bind_r (convert_version_to_tuple (cls_version d)) (\<lambda>vd.
             if tuple_less vd vc then Inr (c # d # ds)
             else bind_r (insert_class c ds) (\<lambda>es. Inr (d # es)))))"

text \<open>
  The hook of nova's registry: the module \<^verbatim>\<open>nova.objects\<close> has the latest class of every name.
\<close>

definition registration_hook :: "ovo_class \<Rightarrow> (string \<times> ovo_class) list \<Rightarrow> (string \<times> ovo_class) list result" where
  "registration_hook c objs =
     bind_r (convert_version_to_tuple (cls_version c)) (\<lambda>v.
       case dget objs (cls_name c) of
         None \<Rightarrow> Inr (dset (cls_name c) c objs)
       | Some d \<Rightarrow>
           bind_r (convert_version_to_tuple (cls_version d)) (\<lambda>cur.
             Inr (if tuple_less v cur then objs else dset (cls_name c) c objs)))"

definition register_class ::
  "ovo_class \<Rightarrow> class_registry \<times> (string \<times> ovo_class) list \<Rightarrow> (class_registry \<times> (string \<times> ovo_class) list) result" where
  "register_class c = (\<lambda>(reg, objs).
     (let ds = dgetd reg (cls_name c) [] in
      bind_r (registration_hook c objs) (\<lambda>objs1.
      bind_r (insert_class c ds) (\<lambda>es. Inr (dset (cls_name c) es reg, objs1)))))"

text \<open>The class for a name and a version: the very version, or the latest that serves it.\<close>

fun find_class :: "wire_env \<Rightarrow> string \<Rightarrow> ovo_class option \<Rightarrow> ovo_class list \<Rightarrow> ovo_class option" where
  "find_class E objver compatible [] = compatible"
| "find_class E objver compatible (c # cs) =
     (if cls_version c = objver then Some c
      else find_class E objver
             (if compatible = None \<and> versions_compatible E objver (cls_version c) then Some c else compatible) cs)"

definition unsupported_object :: exn where
  "unsupported_object = OtherError ''UnsupportedObjectError''"

definition incompatible_version :: exn where
  "incompatible_version = OtherError ''IncompatibleObjectVersion''"

definition obj_class_from_name :: "wire_env \<Rightarrow> class_registry \<Rightarrow> pyval \<Rightarrow> pyval \<Rightarrow> ovo_class result" where
  "obj_class_from_name E reg objname objver =
     (case objname of
        PList _ \<Rightarrow> Inl TypeError
      | PDict _ \<Rightarrow> Inl TypeError
      | PStr n \<Rightarrow>
          (case dget reg n of
             None \<Rightarrow> Inl unsupported_object
           | Some [] \<Rightarrow> Inl IndexError
           | Some cs \<Rightarrow>
               (case objver of
                  PStr v \<Rightarrow>
                    (case find_class E v None cs of
                       Some c \<Rightarrow> Inr c
                     | None \<Rightarrow> Inl incompatible_version)
                | _ \<Rightarrow> Inl TypeError))
      | _ \<Rightarrow> Inl unsupported_object)"

section \<open>Reading an object back\<close>

text \<open>The objects a value may stand for: itself, and the elements of a list.\<close>

datatype wire_parts = WireParts (as_object: "robj result") (as_objects: "robj option result list")

definition plain_from_primitive :: "wire_env \<Rightarrow> field \<Rightarrow> pyval \<Rightarrow> pyval result" where
  "plain_from_primitive E f v =
     (case ftype f of
        FDateTime aware \<Rightarrow>
          (case v of PStr s \<Rightarrow> datetime_coerce (w_ovo E) aware v | _ \<Rightarrow> Inl ValueError)
      | _ \<Rightarrow> Inr v)"

fun all_objects :: "robj option list \<Rightarrow> robj list result" where
  "all_objects [] = Inr []"
| "all_objects (None # os) = Inl ValueError"
| "all_objects (Some ob # os) = bind_r (all_objects os) (\<lambda>obs. Inr (ob # obs))"

definition field_from_primitive :: "wire_env \<Rightarrow> obj_field \<Rightarrow> pyval \<Rightarrow> wire_parts \<Rightarrow> oval result" where
  "field_from_primitive E f v parts =
     (if v = PNone then Inr (OVal PNone)
      else case f of
        PlainField g \<Rightarrow> bind_r (plain_from_primitive E g v) (\<lambda>w. Inr (OVal w))
      | ObjectField n _ \<Rightarrow> bind_r (as_object parts) (\<lambda>ob. Inr (OObj ob))
      | ListOfObjectsField n _ \<Rightarrow>
          (case v of
             PList vs \<Rightarrow>
               bind_r (map_r (\<lambda>r. r) (as_objects parts)) (\<lambda>os.
               bind_r (all_objects os) (\<lambda>obs. Inr (OObjs obs)))
           | PStr [] \<Rightarrow> Inr (OObjs [])
           | PDict [] \<Rightarrow> Inr (OObjs [])
           | _ \<Rightarrow> Inl TypeError))"

fun listed_changes :: "ovo_class \<Rightarrow> pyval list \<Rightarrow> string list result" where
  "listed_changes c [] = Inr []"
| "listed_changes c (PStr k # vs) =
     bind_r (listed_changes c vs) (\<lambda>ks. Inr (if dhas (cls_fields c) k then List.insert k ks else ks))"
| "listed_changes c (PList _ # vs) = Inl TypeError"
| "listed_changes c (PDict _ # vs) = Inl TypeError"
| "listed_changes c (_ # vs) = listed_changes c vs"

text \<open>The change list is absent, or a list; the data are a dictionary.\<close>

definition read_changes :: "ovo_class \<Rightarrow> pydict \<Rightarrow> string list result" where
  "read_changes c d =
     (case dget d changes_key of
        None \<Rightarrow> Inr []
      | Some (PList vs) \<Rightarrow> listed_changes c vs
      | Some _ \<Rightarrow> Inl TypeError)"

definition read_fields ::
  "wire_env \<Rightarrow> pydict \<Rightarrow> (string \<times> wire_parts) list \<Rightarrow> (string \<times> obj_field) list \<Rightarrow> robj \<Rightarrow> robj result" where
  "read_fields E data parts =
     fold_r (\<lambda>(k, f) ob.
       (case (dget data k, dget parts k) of
          (Some v, Some p) \<Rightarrow> bind_r (field_from_primitive E f v p) (\<lambda>x. obj_setattr E k x ob)
        | _ \<Rightarrow> Inr ob))"

definition with_wire_state :: "string \<Rightarrow> string list \<Rightarrow> robj \<Rightarrow> robj" where
  "with_wire_state ver ch ob = (case ob of RObj c v ats _ ctx \<Rightarrow> RObj c ver ats ch ctx)"

definition object_of_primitive ::
  "wire_env \<Rightarrow> bool \<Rightarrow> ovo_class \<Rightarrow> string \<Rightarrow> pydict \<Rightarrow> (string \<times> wire_parts) list \<Rightarrow> robj result" where
  "object_of_primitive E ctx c objver d parts =
     bind_r (ditem d data_key) (\<lambda>data.
       (case data of
          PDict e \<Rightarrow>
            bind_r (read_fields E e parts (cls_fields c) (new_object ctx c)) (\<lambda>ob.
            bind_r (read_changes c d) (\<lambda>changes.
              Inr (with_wire_state objver changes ob)))
        | _ \<Rightarrow> Inl TypeError))"

text \<open>\<^verbatim>\<open>obj_from_primitive\<close>.\<close>

definition object_of_dict ::
  "wire_env \<Rightarrow> class_registry \<Rightarrow> bool \<Rightarrow> pydict \<Rightarrow> (string \<times> wire_parts) list \<Rightarrow> robj result" where
  "object_of_dict E reg ctx d parts =
     bind_r (ditem d namespace_key) (\<lambda>objns.
     bind_r (ditem d name_key) (\<lambda>objname.
     bind_r (ditem d version_key) (\<lambda>objver.
       if objns \<noteq> PStr ''nova'' then Inl unsupported_object
       else
         bind_r (obj_class_from_name E reg objname objver) (\<lambda>c.
           (case objver of
              PStr v \<Rightarrow> object_of_primitive E ctx c v d parts
            | _ \<Rightarrow> Inl TypeError)))))"

fun hydrate :: "wire_env \<Rightarrow> class_registry \<Rightarrow> bool \<Rightarrow> pyval \<Rightarrow> robj result"
  and data_parts :: "wire_env \<Rightarrow> class_registry \<Rightarrow> bool \<Rightarrow> pydict \<Rightarrow> (string \<times> wire_parts) list"
  and dict_parts :: "wire_env \<Rightarrow> class_registry \<Rightarrow> bool \<Rightarrow> pydict \<Rightarrow> (string \<times> wire_parts) list"
  and list_parts :: "wire_env \<Rightarrow> class_registry \<Rightarrow> bool \<Rightarrow> pyval list \<Rightarrow> robj option result list" where
  "hydrate E reg ctx (PDict d) = object_of_dict E reg ctx d (data_parts E reg ctx d)"
| "hydrate E reg ctx _ = Inl TypeError"
| "data_parts E reg ctx [] = []"
| "data_parts E reg ctx ((k, PDict e) # d) =
     (if k = data_key then dict_parts E reg ctx e else data_parts E reg ctx d)"
| "data_parts E reg ctx ((k, v) # d) = (if k = data_key then [] else data_parts E reg ctx d)"
| "dict_parts E reg ctx [] = []"
| "dict_parts E reg ctx ((k, PList vs) # d) =
     (k, WireParts (Inl TypeError) (list_parts E reg ctx vs)) # dict_parts E reg ctx d"
| "dict_parts E reg ctx ((k, v) # d) = (k, WireParts (hydrate E reg ctx v) []) # dict_parts E reg ctx d"
| "list_parts E reg ctx [] = []"
| "list_parts E reg ctx (v # vs) =
     (if v = PNone then Inr None else bind_r (hydrate E reg ctx v) (\<lambda>ob. Inr (Some ob)))
     # list_parts E reg ctx vs"

section \<open>The versions of the objects below a class\<close>

definition child_names :: "ovo_class \<Rightarrow> string list" where
  "child_names c = List.map_filter (\<lambda>(k, f). field_objname f) (cls_fields c)"

text \<open>Every class below is visited in turn; \<open>None\<close> stands for a recursion too deep.\<close>

fun over_children ::
  "(string \<Rightarrow> manifest \<Rightarrow> manifest result option) \<Rightarrow> string list \<Rightarrow> manifest \<Rightarrow> manifest result option" where
  "over_children visit [] tree = Some (Inr tree)"
| "over_children visit (n # ns) tree =
     (case visit n tree of
        Some (Inr tree1) \<Rightarrow> over_children visit ns tree1
      | r \<Rightarrow> r)"

fun tree_versions :: "nat \<Rightarrow> class_registry \<Rightarrow> string \<Rightarrow> manifest \<Rightarrow> manifest result option" where
  "tree_versions 0 reg objname tree = None"
| "tree_versions (Suc fuel) reg objname tree =
     (if dhas tree objname then Some (Inr tree)
      else case dget reg objname of
             Some (c # cs) \<Rightarrow>
               over_children (tree_versions fuel reg) (child_names c) (dset objname (cls_version c) tree)
           | _ \<Rightarrow> Some (Inl IndexError))"

definition obj_tree_get_versions :: "class_registry \<Rightarrow> string \<Rightarrow> manifest result option" where
  "obj_tree_get_versions reg objname = tree_versions (length reg + 1) reg objname []"

section \<open>The serializer\<close>

text \<open>
  What a caller passes: values, objects, and sequences (lists, tuples and sets all travel
  as lists) and dictionaries of such.
\<close>

datatype entity = EVal pyval | EObj robj | ESeq "entity list" | EDict "(string \<times> entity) list"

primrec ovo_serialize :: "wire_env \<Rightarrow> entity \<Rightarrow> pyval result" where
  "ovo_serialize E (EVal v) = Inr v"
| "ovo_serialize E (EObj ob) = obj_to_primitive E None None ob"
| "ovo_serialize E (ESeq xs) = bind_r (map_r (\<lambda>r. r) (map (ovo_serialize E) xs)) (\<lambda>vs. Inr (PList vs))"
| "ovo_serialize E (EDict d) =
     bind_r (map_r (\<lambda>(k, r). bind_r r (\<lambda>v. Inr (k, v))) (map (map_prod id (ovo_serialize E)) d))
       (\<lambda>e. Inr (PDict e))"

text \<open>
  \<^verbatim>\<open>_process_object\<close>: an incompatible version of three parts is read again without the third; any
  other is sent to the conductor (\<open>backport\<close>) with the versions known here. What is read again has
  two parts (\<open>dots_without_revision\<close>), so the method calls itself once at most.
\<close>

definition dots :: "string \<Rightarrow> nat" where
  "dots s = count_list s (CHR ''.'')"

definition without_revision :: "string \<Rightarrow> string" where
  "without_revision v = join_with ''.'' (take 2 (split_on CHR ''.'' v))"

definition ask_conductor ::
  "class_registry \<Rightarrow> (pydict \<Rightarrow> manifest \<Rightarrow> entity result) \<Rightarrow> pydict \<Rightarrow> entity result" where
  "ask_conductor reg backport d =
     (case dget d name_key of
        Some (PStr n) \<Rightarrow>
          (case obj_tree_get_versions reg n of
             Some (Inr man) \<Rightarrow> if dhas man n then backport d man else Inl incompatible_version
           | Some (Inl e) \<Rightarrow> Inl e
           | None \<Rightarrow> Inl RuntimeError)
      | _ \<Rightarrow> Inl TypeError)"

definition version_text :: "pydict \<Rightarrow> string" where
  "version_text d = (case dget d version_key of Some (PStr v) \<Rightarrow> v | _ \<Rightarrow> [])"

definition process_object ::
  "wire_env \<Rightarrow> class_registry \<Rightarrow> (pydict \<Rightarrow> manifest \<Rightarrow> entity result) \<Rightarrow> bool \<Rightarrow> pydict \<Rightarrow> entity result" where
  "process_object E reg backport ctx d =
     (case hydrate E reg ctx (PDict d) of
        Inr ob \<Rightarrow> Inr (EObj ob)
      | Inl e \<Rightarrow>
          if e \<noteq> incompatible_version then Inl e
          else if dots (version_text d) = 2 then
            (let d1 = dset version_key (PStr (without_revision (version_text d))) d
             in case hydrate E reg ctx (PDict d1) of
                  Inr ob \<Rightarrow> Inr (EObj ob)
                | Inl e1 \<Rightarrow> if e1 \<noteq> incompatible_version then Inl e1 else ask_conductor reg backport d1)
          else ask_conductor reg backport d)"

fun ovo_deserialize ::
  "wire_env \<Rightarrow> class_registry \<Rightarrow> (pydict \<Rightarrow> manifest \<Rightarrow> entity result) \<Rightarrow> bool \<Rightarrow> pyval \<Rightarrow> entity result"
  and deserialize_seq ::
  "wire_env \<Rightarrow> class_registry \<Rightarrow> (pydict \<Rightarrow> manifest \<Rightarrow> entity result) \<Rightarrow> bool \<Rightarrow> pyval list \<Rightarrow> entity list result"
  and deserialize_items ::
  "wire_env \<Rightarrow> class_registry \<Rightarrow> (pydict \<Rightarrow> manifest \<Rightarrow> entity result) \<Rightarrow> bool \<Rightarrow> pydict \<Rightarrow> (string \<times> entity) list result" where
  "ovo_deserialize E reg backport ctx (PDict d) =
     (if dhas d name_key then process_object E reg backport ctx d
      else bind_r (deserialize_items E reg backport ctx d) (\<lambda>e. Inr (EDict e)))"
| "ovo_deserialize E reg backport ctx (PList vs) =
     bind_r (deserialize_seq E reg backport ctx vs) (\<lambda>es. Inr (ESeq es))"
| "ovo_deserialize E reg backport ctx v = Inr (EVal v)"
| "deserialize_seq E reg backport ctx [] = Inr []"
| "deserialize_seq E reg backport ctx (v # vs) =
     bind_r (ovo_deserialize E reg backport ctx v) (\<lambda>e.
     bind_r (deserialize_seq E reg backport ctx vs) (\<lambda>es. Inr (e # es)))"
| "deserialize_items E reg backport ctx [] = Inr []"
| "deserialize_items E reg backport ctx ((k, v) # d) =
     bind_r (ovo_deserialize E reg backport ctx v) (\<lambda>x.
     bind_r (deserialize_items E reg backport ctx d) (\<lambda>e. Inr ((k, x) # e)))"

section \<open>Lemmas on versions\<close>

lemma dots_without_revision: "dots (without_revision v) \<le> 1"
proof -
  let ?ps = "take 2 (split_on CHR ''.'' v)"
  have "split_on CHR ''.'' (join_with ''.'' ?ps) = ?ps"
    by (rule split_join) (auto simp: list_all_iff dest: in_set_takeD split_on_no_sep)
  then have "Suc (dots (without_revision v)) = length ?ps"
    unfolding dots_def without_revision_def by (metis length_split_on)
  then show ?thesis by simp
qed

lemma tuple_less_irrefl: "\<not> tuple_less v v"
  by (induction v) auto

lemma tuple_less_trans: "tuple_less u v \<Longrightarrow> tuple_less v w \<Longrightarrow> tuple_less u w"
  by (induction u v arbitrary: w rule: tuple_less.induct; case_tac w) auto

lemma tuple_less_linear: "tuple_less u v \<or> u = v \<or> tuple_less v u"
  by (induction u v rule: tuple_less.induct) (auto, metis list.exhaust tuple_less.simps(2))

text \<open>
  A table of relationships in the order the base class asks for: versions of the parent
  that are numbers, oldest first.
\<close>

fun ascending :: "int list list \<Rightarrow> bool" where
  "ascending [] = True"
| "ascending (v # vs) = (list_all (tuple_less v) vs \<and> ascending vs)"

text \<open>The specification: the entry of the latest parent version that is not after the target.\<close>

definition serving_version :: "int list \<Rightarrow> (int list \<times> string) list \<Rightarrow> string option" where
  "serving_version tgt es =
     (case filter (\<lambda>(p, child). \<not> tuple_less tgt p) es of [] \<Rightarrow> None | fs \<Rightarrow> Some (snd (last fs)))"

lemma subobject_version_from_spec:
  assumes "map_r (\<lambda>(p, child). bind_r (convert_version_to_tuple p) (\<lambda>t. Inr (t, child))) rs = Inr es"
    and "ascending (map fst es)"
  shows "subobject_version_from tgt previous rs =
    (if list_all (\<lambda>(p, child). tuple_less p tgt) es then Inr None
     else case serving_version tgt es of
            Some v \<Rightarrow> Inr (Some v)
          | None \<Rightarrow> (case previous of Some v \<Rightarrow> Inr (Some v) | None \<Rightarrow> Inl before_subobject))"
  using assms
proof (induction rs arbitrary: es previous)
  case Nil
  then show ?case by simp
next
  case (Cons r rs)
  obtain parent child where r: "r = (parent, child)" by (cases r)
  from Cons.prems(1) r obtain p fs where p: "convert_version_to_tuple parent = Inr p"
    and fs: "map_r (\<lambda>(p, child). bind_r (convert_version_to_tuple p) (\<lambda>t. Inr (t, child))) rs = Inr fs"
    and es: "es = (p, child) # fs"
    by (auto simp: result_simps)
  have later: "list_all (tuple_less p) (map fst fs)" and asc: "ascending (map fst fs)"
    using Cons.prems(2) es by auto
  note ih = Cons.IH [OF fs asc]
  have after: "\<forall>e \<in> set fs. tuple_less tgt (fst e)" if "tuple_less tgt p \<or> tgt = p"
    using that later tuple_less_trans by (auto simp: list_all_iff)
  consider "tuple_less tgt p" | "tgt = p" | "tuple_less p tgt" using tuple_less_linear by blast
  then show ?case
  proof cases
    case 1
    then have none: "filter (\<lambda>(q, v). \<not> tuple_less tgt q) fs = []"
      using after by (auto simp: filter_empty_conv split: prod.splits)
    have "\<not> tuple_less p tgt" using 1 tuple_less_trans tuple_less_irrefl by blast
    with 1 none r p es show ?thesis by (simp add: serving_version_def split: option.splits)
  next
    case 2
    then have none: "filter (\<lambda>(q, v). \<not> tuple_less tgt q) fs = []"
      using after by (auto simp: filter_empty_conv split: prod.splits)
    with 2 r p es show ?thesis by (simp add: serving_version_def tuple_less_irrefl)
  next
    case 3
    then have "\<not> tuple_less tgt p" using tuple_less_trans tuple_less_irrefl by blast
    moreover have "tgt \<noteq> p" using 3 tuple_less_irrefl by blast
    ultimately show ?thesis using 3 r p es ih [of "Some child"]
      by (cases "filter (\<lambda>(q, v). \<not> tuple_less tgt q) fs") (simp_all add: serving_version_def)
  qed
qed

abbreviation read_relationships :: "(string \<times> string) list \<Rightarrow> (int list \<times> string) list result" where
  "read_relationships rs \<equiv> map_r (\<lambda>(p, child). bind_r (convert_version_to_tuple p) (\<lambda>t. Inr (t, child))) rs"

text \<open>
  C35: Which version a sub-object is taken to. With a table of relationships in ascending
  order the search of the code gives the version of the last entry whose parent version is not
  after the target; nothing is done when the target lies after every entry, and the target
  is refused, so that the field is dropped, when it lies before every entry.
\<close>

theorem subobject_version_latest:
  assumes "convert_version_to_tuple tgt_version = Inr tgt"
    and "read_relationships relationships = Inr es"
    and "ascending (map fst es)"
  shows "get_subobject_version tgt_version relationships =
    (if list_all (\<lambda>(p, child). tuple_less p tgt) es then Inr None
     else case serving_version tgt es of
            Some v \<Rightarrow> Inr (Some v)
          | None \<Rightarrow> Inl before_subobject)"
  unfolding get_subobject_version_def
  using assms(1) subobject_version_from_spec [OF assms(2,3), of tgt None] by (simp split: option.splits)

lemma subobject_version_latest_witness:
  "let rs = [(''1.2'', ''1.1''), (''1.4'', ''1.2'')] in
   get_subobject_version ''1.3'' rs = Inr (Some ''1.1'') \<and> get_subobject_version ''1.5'' rs = Inr None
   \<and> get_subobject_version ''1.1'' rs = Inl before_subobject"
proof -
  let ?rs = "[(''1.2'', ''1.1''), (''1.4'', ''1.2'')]"
  let ?es = "[([1, 2], ''1.1''), ([1, 4], ''1.2'')]"
  have t: "convert_version_to_tuple ''1.3'' = Inr [1, 3]" "convert_version_to_tuple ''1.5'' = Inr [1, 5]"
      "convert_version_to_tuple ''1.1'' = Inr [1, 1]" by code_simp+
  have r: "read_relationships ?rs = Inr ?es" by code_simp
  have a: "ascending (map fst ?es)" by simp
  show ?thesis
    using subobject_version_latest [OF t(1) r a] subobject_version_latest [OF t(2) r a]
      subobject_version_latest [OF t(3) r a]
    by (simp add: serving_version_def)
qed

section \<open>The tree of versions\<close>

text \<open>\<open>below reg n m\<close>: objects of class \<open>m\<close> may lie within one of class \<open>n\<close>.\<close>

definition latest_class :: "class_registry \<Rightarrow> string \<Rightarrow> ovo_class option" where
  "latest_class reg n = (case dget reg n of Some (c # cs) \<Rightarrow> Some c | _ \<Rightarrow> None)"

inductive below :: "class_registry \<Rightarrow> string \<Rightarrow> string \<Rightarrow> bool" for reg where
  below_self: "below reg n n"
| below_child: "below reg n m \<Longrightarrow> latest_class reg m = Some c \<Longrightarrow> k \<in> set (child_names c) \<Longrightarrow> below reg n k"

definition registry_closed :: "class_registry \<Rightarrow> bool" where
  "registry_closed reg \<longleftrightarrow>
     (\<forall>n c. latest_class reg n = Some c \<longrightarrow> (\<forall>k \<in> set (child_names c). latest_class reg k \<noteq> None))"

lemma below_trans: "below reg a b \<Longrightarrow> below reg z a \<Longrightarrow> below reg z b"
  by (induction rule: below.induct) (auto intro: below.intros)

text \<open>
  One visit: what was there stays, the name is there, and every new name is the latest of a
  class below, with all its children there too.
\<close>

definition visited :: "class_registry \<Rightarrow> string \<Rightarrow> manifest \<Rightarrow> manifest \<Rightarrow> bool" where
  "visited reg n t t1 \<longleftrightarrow>
     dict_ok t1 \<and> (\<forall>k v. dget t k = Some v \<longrightarrow> dget t1 k = Some v) \<and>
     (\<forall>k v. dget t1 k = Some v \<longrightarrow> dhas t k \<or>
        below reg n k \<and> (\<exists>c. latest_class reg k = Some c \<and> v = cls_version c \<and> (\<forall>j \<in> set (child_names c). dhas t1 j)))"

lemma visited_refl: "dict_ok t \<Longrightarrow> visited reg n t t"
  by (auto simp: visited_def dhas_def)

lemma dhas_dget: "dhas d k \<longleftrightarrow> (\<exists>v. dget d k = Some v)"
  by (auto simp: dhas_def)

lemma visited_keeps: "visited reg n t t1 \<Longrightarrow> dhas t k \<Longrightarrow> dhas t1 k"
  unfolding visited_def dhas_dget by blast

lemma visited_trans:
  assumes "visited reg n t t1" "visited reg n t1 t2"
  shows "visited reg n t t2"
  unfolding visited_def
proof (intro conjI allI impI)
  show "dict_ok t2" using assms(2) by (simp add: visited_def)
  fix k v
  show "dget t k = Some v \<Longrightarrow> dget t2 k = Some v" using assms by (auto simp: visited_def)
  assume k: "dget t2 k = Some v"
  show "dhas t k \<or> below reg n k \<and>
      (\<exists>c. latest_class reg k = Some c \<and> v = cls_version c \<and> (\<forall>j \<in> set (child_names c). dhas t2 j))"
  proof (cases "dhas t1 k")
    case True
    then obtain w where w: "dget t1 k = Some w" by (auto simp: dhas_dget)
    with assms(2) have "dget t2 k = Some w" by (simp add: visited_def)
    with k w have "dget t1 k = Some v" by simp
    with assms(1) visited_keeps [OF assms(2)] show ?thesis unfolding visited_def by blast
  next
    case False
    with assms(2) k show ?thesis unfolding visited_def by blast
  qed
qed

lemma visited_value: "visited reg n t t1 \<Longrightarrow> dget t k = Some v \<Longrightarrow> dget t1 k = Some v"
  unfolding visited_def by blast

lemma visited_new:
  "visited reg n t t1 \<Longrightarrow> dget t1 k = Some v \<Longrightarrow> \<not> dhas t k \<Longrightarrow>
   below reg n k \<and> (\<exists>c. latest_class reg k = Some c \<and> v = cls_version c \<and> (\<forall>j \<in> set (child_names c). dhas t1 j))"
  unfolding visited_def by blast

lemma visited_mono: "visited reg k t t1 \<Longrightarrow> below reg n k \<Longrightarrow> visited reg n t t1"
  unfolding visited_def using below_trans by blast

definition unvisited :: "class_registry \<Rightarrow> manifest \<Rightarrow> nat" where
  "unvisited reg t = card {k \<in> set (map fst reg). \<not> dhas t k}"

lemma unvisited_mono: "visited reg n t t1 \<Longrightarrow> unvisited reg t1 \<le> unvisited reg t"
  unfolding unvisited_def by (rule card_mono) (auto dest: visited_keeps)

lemma unvisited_dset:
  assumes "latest_class reg n = Some c" "\<not> dhas t n"
  shows "unvisited reg (dset n v t) < unvisited reg t"
  unfolding unvisited_def
proof (rule psubset_card_mono)
  have "n \<in> set (map fst reg)"
    using assms(1) by (auto simp: latest_class_def split: option.splits list.splits intro: rev_image_eqI dest: map_of_SomeD)
  then show "{k \<in> set (map fst reg). \<not> dhas (dset n v t) k} \<subset> {k \<in> set (map fst reg). \<not> dhas t k}"
    using assms(2) by auto
qed simp

lemma over_children_visit:
  assumes "\<And>k t. k \<in> set ns \<Longrightarrow> dict_ok t \<Longrightarrow> unvisited reg t < fuel \<Longrightarrow>
      \<exists>t1. visit k t = Some (Inr t1) \<and> visited reg k t t1 \<and> dhas t1 k"
    and "\<forall>k \<in> set ns. below reg n k" "dict_ok t" "unvisited reg t < fuel"
  shows "\<exists>t1. over_children visit ns t = Some (Inr t1) \<and> visited reg n t t1 \<and> (\<forall>k \<in> set ns. dhas t1 k)"
  using assms
proof (induction ns arbitrary: t)
  case Nil
  then show ?case by (simp add: visited_refl)
next
  case (Cons k ns)
  obtain t1 where t1: "visit k t = Some (Inr t1)" "visited reg k t t1" "dhas t1 k"
    using Cons.prems(1) [of k t] Cons.prems(3,4) by auto
  have n1: "visited reg n t t1" using visited_mono [OF t1(2)] Cons.prems(2) by simp
  have ok1: "dict_ok t1" using t1(2) by (simp add: visited_def)
  have "\<exists>t2. over_children visit ns t1 = Some (Inr t2) \<and> visited reg n t1 t2 \<and> (\<forall>k \<in> set ns. dhas t2 k)"
    by (rule Cons.IH) (use Cons.prems ok1 unvisited_mono [OF n1] in \<open>auto intro: le_less_trans\<close>)
  then obtain t2 where t2: "over_children visit ns t1 = Some (Inr t2)" "visited reg n t1 t2" "\<forall>k \<in> set ns. dhas t2 k"
    by blast
  have "over_children visit (k # ns) t = Some (Inr t2)" using t1(1) t2(1) by simp
  moreover have "visited reg n t t2" by (rule visited_trans [OF n1 t2(2)])
  moreover have "\<forall>j \<in> set (k # ns). dhas t2 j" using t2(3) visited_keeps [OF t2(2) t1(3)] by simp
  ultimately show ?case by blast
qed

lemma tree_versions_visit:
  assumes "registry_closed reg" "latest_class reg n \<noteq> None" "dict_ok t" "unvisited reg t < fuel"
  shows "\<exists>t1. tree_versions fuel reg n t = Some (Inr t1) \<and> visited reg n t t1 \<and> dhas t1 n"
  using assms
proof (induction fuel arbitrary: n t)
  case 0
  then show ?case by simp
next
  case (Suc fuel)
  show ?case
  proof (cases "dhas t n")
    case True
    with Suc.prems(3) show ?thesis by (simp add: visited_refl)
  next
    case new: False
    from Suc.prems(2) obtain c where c: "latest_class reg n = Some c" by auto
    then obtain cs where cs: "dget reg n = Some (c # cs)"
      by (auto simp: latest_class_def split: option.splits list.splits)
    let ?t0 = "dset n (cls_version c) t"
    have below: "\<forall>k \<in> set (child_names c). below reg n k"
      using below_child [OF below_self c] by blast
    have "\<exists>t1. over_children (tree_versions fuel reg) (child_names c) ?t0 = Some (Inr t1)
        \<and> visited reg n ?t0 t1 \<and> (\<forall>k \<in> set (child_names c). dhas t1 k)"
    proof (rule over_children_visit [OF _ below])
      fix k u assume "k \<in> set (child_names c)" "dict_ok u" "unvisited reg u < fuel"
      then show "\<exists>t1. tree_versions fuel reg k u = Some (Inr t1) \<and> visited reg k u t1 \<and> dhas t1 k"
        using Suc.IH [OF Suc.prems(1)] Suc.prems(1) c unfolding registry_closed_def by blast
    next
      show "dict_ok ?t0" using Suc.prems(3) by simp
      show "unvisited reg ?t0 < fuel" using unvisited_dset [OF c new] Suc.prems(4) by (meson less_Suc_eq_le order_less_le_trans)
    qed
    then obtain t1 where t1: "over_children (tree_versions fuel reg) (child_names c) ?t0 = Some (Inr t1)"
        "visited reg n ?t0 t1" "\<forall>k \<in> set (child_names c). dhas t1 k" by blast
    have here: "dget t1 n = Some (cls_version c)" using t1(2) by (simp add: visited_def)
    have "visited reg n t t1"
      unfolding visited_def
    proof (intro conjI allI impI)
      show "dict_ok t1" using t1(2) by (simp add: visited_def)
      fix k v
      show "dget t1 k = Some v" if "dget t k = Some v"
      proof (rule visited_value [OF t1(2)])
        have "k \<noteq> n" using that new unfolding dhas_def by force
        with that show "dget ?t0 k = Some v" by simp
      qed
      assume k: "dget t1 k = Some v"
      show "dhas t k \<or> below reg n k \<and>
          (\<exists>c. latest_class reg k = Some c \<and> v = cls_version c \<and> (\<forall>j \<in> set (child_names c). dhas t1 j))"
      proof (cases "k = n")
        case True
        with k here c t1(3) below_self show ?thesis by auto
      next
        case False
        with visited_new [OF t1(2) k] show ?thesis by auto
      qed
    qed
    with t1(1) here new cs show ?thesis by (simp add: dhas_dget)
  qed
qed

lemma unvisited_bound: "unvisited reg t \<le> length reg"
proof -
  have "unvisited reg t \<le> card (set (map fst reg))" unfolding unvisited_def by (rule card_mono) auto
  also have "\<dots> \<le> length reg" using card_length [of "map fst reg"] by simp
  finally show ?thesis .
qed

lemma visited_all_below:
  assumes "visited reg n [] t1" "dhas t1 n" "below reg n m"
  shows "dhas t1 m"
  using assms(3,1,2)
proof (induction rule: below.induct)
  case (below_child n m c k)
  then obtain v where v: "dget t1 m = Some v" by (auto simp: dhas_def)
  have "\<not> dhas [] m" by (simp add: dhas_def)
  with visited_new [OF below_child.prems(1) v] below_child.hyps(2,3) show ?case by auto
qed

text \<open>
  C33: The versions an object tree asks for. Where every class that an object can hold is
  registered, the walk through the fields ends, also when classes hold each other, and the
  result has exactly the classes that can lie within the given one, each with its latest
  registered version.
\<close>

theorem tree_versions_complete:
  assumes "registry_closed reg" "latest_class reg n \<noteq> None"
  shows "\<exists>tree. obj_tree_get_versions reg n = Some (Inr tree) \<and>
    (\<forall>m. dget tree m = (if below reg n m then map_option cls_version (latest_class reg m) else None))"
proof -
  have "unvisited reg [] < length reg + 1" using unvisited_bound [of reg "[]"] by simp
  then obtain tree where tree: "obj_tree_get_versions reg n = Some (Inr tree)" "visited reg n [] tree" "dhas tree n"
    using tree_versions_visit [OF assms, of "[]" "length reg + 1"] unfolding obj_tree_get_versions_def
    by (metis distinct.simps(1) list.map_disc_iff)
  have "dget tree m = (if below reg n m then map_option cls_version (latest_class reg m) else None)" for m
  proof (cases "dget tree m")
    case None
    then have "\<not> below reg n m" using visited_all_below [OF tree(2,3), of m] by (auto simp: dhas_def)
    with None show ?thesis by simp
  next
    case (Some v)
    then have "below reg n m \<and> (\<exists>c. latest_class reg m = Some c \<and> v = cls_version c)"
      using visited_new [OF tree(2)] by (auto simp: dhas_def)
    with Some show ?thesis by auto
  qed
  with tree(1) show ?thesis by blast
qed

text \<open>A registry of two classes that hold each other.\<close>

definition base_compat :: compat where
  "base_compat target man primitive = Inr primitive"

definition ovo_sample_class :: "string \<Rightarrow> string \<Rightarrow> (string \<times> obj_field) list \<Rightarrow> ovo_class" where
  "ovo_sample_class n v fs =
     \<lparr>cls_name = n, cls_version = v, cls_fields = fs, cls_relationships = [], cls_compat = base_compat,
      cls_initial = [], cls_list = False, child_versions = []\<rparr>"

definition ovo_sample_registry :: class_registry where
  "ovo_sample_registry =
     [(''Plan'', [ovo_sample_class ''Plan'' ''1.2'' [(''cases'', ListOfObjectsField ''Case'' False)],
                  ovo_sample_class ''Plan'' ''1.0'' []]),
      (''Case'', [ovo_sample_class ''Case'' ''1.1'' [(''id'', PlainField \<lparr>ftype = FInteger, nullable = False, fdefault = None, read_only = False\<rparr>),
                                         (''plan'', ObjectField ''Plan'' True)]]),
      (''Node'', [ovo_sample_class ''Node'' ''1.16'' []])]"

lemma sample_children:
  "latest_class ovo_sample_registry n = Some c \<Longrightarrow> k \<in> set (child_names c) \<Longrightarrow> k = ''Case'' \<or> k = ''Plan''"
  by (auto simp: latest_class_def ovo_sample_registry_def ovo_sample_class_def child_names_def field_objname_def
      List.map_filter_def split: if_splits)

lemma sample_below_node: "below ovo_sample_registry a b \<Longrightarrow> a = ''Plan'' \<Longrightarrow> b \<noteq> ''Node''"
  by (induction rule: below.induct) (auto dest: sample_children)

lemma tree_versions_complete_witness:
  "\<exists>tree. obj_tree_get_versions ovo_sample_registry ''Plan'' = Some (Inr tree) \<and>
     dget tree ''Plan'' = Some ''1.2'' \<and> dget tree ''Case'' = Some ''1.1'' \<and> dget tree ''Node'' = None"
proof -
  have plan: "latest_class ovo_sample_registry ''Plan'' = Some (hd (the (dget ovo_sample_registry ''Plan'')))"
    by (simp add: latest_class_def ovo_sample_registry_def)
  have cas: "latest_class ovo_sample_registry ''Case'' = Some (hd (the (dget ovo_sample_registry ''Case'')))"
    by (simp add: latest_class_def ovo_sample_registry_def)
  have closed: "registry_closed ovo_sample_registry"
    unfolding registry_closed_def using sample_children plan cas by (metis option.distinct(1))
  have "''Case'' \<in> set (child_names (hd (the (dget ovo_sample_registry ''Plan''))))"
    by (simp add: ovo_sample_registry_def ovo_sample_class_def child_names_def field_objname_def List.map_filter_def)
  then have "below ovo_sample_registry ''Plan'' ''Case''" using below_child [OF below_self plan] by blast
  moreover have "\<not> below ovo_sample_registry ''Plan'' ''Node''" using sample_below_node by blast
  ultimately show ?thesis
    using tree_versions_complete [OF closed, of "''Plan''"] plan cas below_self [of ovo_sample_registry "''Plan''"]
    by (auto simp: ovo_sample_registry_def ovo_sample_class_def)
qed

section \<open>There and back\<close>

text \<open>
  An object as the receiver has it: the attributes in the order of the fields (those that
  a new object has come first), the changes those that are sent, the context that of the receiver.
\<close>

definition attr_names :: "ovo_class \<Rightarrow> string list" where
  "attr_names c =
     (let is = map fst (initial_attrs c) in is @ filter (\<lambda>k. k \<notin> set is) (map fst (cls_fields c)))"

definition arranged :: "ovo_class \<Rightarrow> (string \<times> 'x) list \<Rightarrow> (string \<times> 'x) list" where
  "arranged c ats = map (\<lambda>k. (k, the (dget ats k))) (filter (dhas ats) (attr_names c))"

text \<open>
  A date travels as a text of whole seconds, so what arrives is the date that this text stands
  for: the date that was sent without its microseconds.
\<close>

definition date_over_wire :: "wire_env \<Rightarrow> pyval \<Rightarrow> pyval" where
  "date_over_wire E v =
     (case v of
        PDate t z \<Rightarrow> (case iso_parse (w_ovo E) (isotime E t z) of Some (u, _) \<Rightarrow> PDate u z | None \<Rightarrow> v)
      | _ \<Rightarrow> v)"

lemma date_over_wire_simps [simp]:
  "date_over_wire E PNone = PNone" "date_over_wire E (PBool b) = PBool b" "date_over_wire E (PInt n) = PInt n"
  "date_over_wire E (PStr s) = PStr s" "date_over_wire E (PList vs) = PList vs" "date_over_wire E (PDict d) = PDict d"
  by (simp_all add: date_over_wire_def)

primrec settle :: "wire_env \<Rightarrow> bool \<Rightarrow> robj \<Rightarrow> robj" and settle_value :: "wire_env \<Rightarrow> bool \<Rightarrow> oval \<Rightarrow> oval" where
  "settle E cx (RObj c v ats ch ctx) =
     RObj c v (arranged c (map (map_prod id (settle_value E cx)) ats))
       (filter (dhas ats) (what_changed (RObj c v ats ch ctx))) cx"
| "settle_value E cx (OVal v) = OVal (date_over_wire E v)"
| "settle_value E cx (OObj ob) = OObj (settle E cx ob)"
| "settle_value E cx (OObjs os) = OObjs (map (settle E cx) os)"

text \<open>Objects that can be sent: their class is the registered one of their version, and every
  attribute is a field with a value that fits; the text of a date is one that can be read.\<close>

definition value_fits :: "wire_env \<Rightarrow> obj_field \<Rightarrow> oval \<Rightarrow> bool" where
  "value_fits E f x =
     (case f of
        PlainField g \<Rightarrow>
          (case x of
             OVal v \<Rightarrow> field_value_ok g v \<and>
               (case v of PDate t z \<Rightarrow> iso_parse (w_ovo E) (isotime E t z) \<noteq> None | _ \<Rightarrow> True)
           | _ \<Rightarrow> False)
      | ObjectField n null \<Rightarrow>
          (case x of OVal v \<Rightarrow> v = PNone \<and> null | OObj ob \<Rightarrow> cls_name (o_class ob) = n | _ \<Rightarrow> False)
      | ListOfObjectsField n null \<Rightarrow>
          (case x of OVal v \<Rightarrow> v = PNone \<and> null | OObjs os \<Rightarrow> list_all (\<lambda>ob. cls_name (o_class ob) = n) os | _ \<Rightarrow> False))"

definition registered :: "wire_env \<Rightarrow> class_registry \<Rightarrow> ovo_class \<Rightarrow> string \<Rightarrow> bool" where
  "registered E reg c v \<longleftrightarrow>
     dict_ok (cls_fields c) \<and>
     (case convert_version_to_tuple v of Inl e \<Rightarrow> False | Inr t \<Rightarrow> True) \<and>
     (case dget reg (cls_name c) of None \<Rightarrow> False | Some cs \<Rightarrow> find_class E v None cs = Some c)"

definition object_fits :: "wire_env \<Rightarrow> class_registry \<Rightarrow> ovo_class \<Rightarrow> string \<Rightarrow> (string \<times> oval) list \<Rightarrow> string list \<Rightarrow> bool" where
  "object_fits E reg c v ats ch \<longleftrightarrow>
     registered E reg c v \<and> dict_ok ats \<and> distinct ch \<and>
     list_all (\<lambda>(k, x). case dget (cls_fields c) k of None \<Rightarrow> False | Some f \<Rightarrow> value_fits E f x) ats \<and>
     dict_ok (initial_attrs c) \<and>
     list_all (\<lambda>(k, x). dhas ats k \<and> \<not> is_read_only (the (dget (cls_fields c) k))) (initial_attrs c)"

primrec sendable :: "wire_env \<Rightarrow> class_registry \<Rightarrow> robj \<Rightarrow> bool" and wire_value_ok :: "wire_env \<Rightarrow> class_registry \<Rightarrow> oval \<Rightarrow> bool" where
  "sendable E reg (RObj c v ats ch ctx) =
     (object_fits E reg c v ats ch \<and> list_all snd (map (map_prod id (wire_value_ok E reg)) ats))"
| "wire_value_ok E reg (OVal v) = True"
| "wire_value_ok E reg (OObj ob) = sendable E reg ob"
| "wire_value_ok E reg (OObjs os) = list_all id (map (sendable E reg) os)"

lemma obj_to_primitive_plain: "obj_to_primitive E None None ob = dehydrate E ob"
proof (cases ob)
  case (RObj c v ats ch ctx)
  show ?thesis
    by (cases "convert_version_to_tuple v"; cases "primitive_data E c ats (map (map_prod id (dehydrate_value E)) ats)")
      (simp_all add: RObj obj_to_primitive_def tuple_less_irrefl)
qed

definition part_of :: "wire_env \<Rightarrow> class_registry \<Rightarrow> bool \<Rightarrow> pyval \<Rightarrow> wire_parts" where
  "part_of E reg ctx v =
     (case v of PList vs \<Rightarrow> WireParts (Inl TypeError) (list_parts E reg ctx vs) | _ \<Rightarrow> WireParts (hydrate E reg ctx v) [])"

lemma dict_parts_map: "dict_parts E reg ctx d = map (\<lambda>(k, v). (k, part_of E reg ctx v)) d"
proof (induction d)
  case (Cons e d)
  obtain k v where "e = (k, v)" by (cases e)
  with Cons show ?case by (cases v) (simp_all add: part_of_def)
qed simp

lemma list_parts_map:
  "list_parts E reg ctx vs =
     map (\<lambda>v. if v = PNone then Inr None else bind_r (hydrate E reg ctx v) (\<lambda>ob. Inr (Some ob))) vs"
  by (induction vs) auto

lemma dget_dict_parts: "dget (dict_parts E reg ctx d) k = map_option (part_of E reg ctx) (dget d k)"
  by (induction d) (auto simp: dict_parts_map)

lemma data_parts_wire_form: "data_parts E reg ctx (wire_form c v p ks) = dict_parts E reg ctx p"
  by (simp add: wire_form_def Let_def)

lemma fold_dset:
  assumes "distinct ks" "dict_ok base"
  shows "fold (\<lambda>k. dset k (g k)) ks base =
    map (\<lambda>(k, x). (k, if k \<in> set ks then g k else x)) base
    @ map (\<lambda>k. (k, g k)) (filter (\<lambda>k. k \<notin> fst ` set base) ks)"
  using assms
proof (induction ks arbitrary: base)
  case Nil
  then show ?case by (simp add: map_idI)
next
  case (Cons k ks)
  show ?case
  proof (cases "k \<in> fst ` set base")
    case True
    have keys: "map fst (dset k (g k) base) = map fst base"
      using True by (simp add: update_keys)
    have upd: "dset k (g k) base = map (\<lambda>(j, x). (j, if j = k then g k else x)) base"
      using True Cons.prems(2)
    proof (induction base)
      case (Cons e base)
      show ?case
      proof (cases "fst e = k")
        case True
        with Cons.prems(2) have "k \<notin> fst ` set base" by simp
        then have "\<forall>d \<in> set base. fst d \<noteq> k" by (auto intro: rev_image_eqI)
        then have "map (\<lambda>(j, x). (j, if j = k then g k else x)) base = base" by (intro map_idI) auto
        with True show ?thesis by (cases e) simp
      qed (use Cons in \<open>cases e; auto\<close>)
    qed simp
    have set_keys: "fst ` set (dset k (g k) base) = fst ` set base"
      using arg_cong [OF keys, of set] by simp
    have one: "fold (\<lambda>k. dset k (g k)) ks (dset k (g k) base) =
        map (\<lambda>(j, x). (j, if j \<in> set ks then g j else x)) (dset k (g k) base)
        @ map (\<lambda>j. (j, g j)) (filter (\<lambda>j. j \<notin> fst ` set base) ks)"
      using Cons.IH [of "dset k (g k) base"] Cons.prems unfolding set_keys keys by simp
    have two: "map (\<lambda>(j, x). (j, if j \<in> set ks then g j else x)) (dset k (g k) base)
        = map (\<lambda>(j, x). (j, if j \<in> set (k # ks) then g j else x)) base"
      unfolding upd by (auto simp: Cons.prems)
    from one two True show ?thesis by simp
  next
    case False
    then have "dset k (g k) base = base @ [(k, g k)]" by (rule dset_new)
    with Cons False show ?thesis by (auto intro!: filter_cong map_cong) force
  qed
qed

text \<open>Reading the fields one by one, over an object that has only read-write attributes.\<close>

lemma read_fields_all:
  assumes "dict_ok fs" "\<And>k f. (k, f) \<in> set fs \<Longrightarrow> dget (cls_fields c) k = Some f"
    and "\<And>k f. (k, f) \<in> set fs \<Longrightarrow> there k \<Longrightarrow>
      \<exists>v p. dget data k = Some v \<and> dget parts k = Some p \<and> field_from_primitive E f v p = Inr (g k)
        \<and> wire_coerce E f (g k) = Inr (g k)"
    and "\<And>k f. (k, f) \<in> set fs \<Longrightarrow> \<not> there k \<Longrightarrow> dget data k = None"
    and "\<And>k f. (k, f) \<in> set fs \<Longrightarrow> dhas base k \<Longrightarrow> \<not> is_read_only f"
  shows "\<exists>ch1. read_fields E data parts fs (RObj c v base ch cx) =
    Inr (RObj c v (fold (\<lambda>k. dset k (g k)) (filter there (map fst fs)) base) ch1 cx)"
  using assms
proof (induction fs arbitrary: base ch)
  case Nil
  then show ?case by (simp add: read_fields_def)
next
  case (Cons e fs)
  obtain k f where e: "e = (k, f)" by (cases e)
  show ?case
  proof (cases "there k")
    case True
    obtain w p where w: "dget data k = Some w" "dget parts k = Some p" "field_from_primitive E f w p = Inr (g k)"
        "wire_coerce E f (g k) = Inr (g k)"
      using Cons.prems(3) [of k f] e True by auto
    have f: "dget (cls_fields c) k = Some f" using Cons.prems(2) e by simp
    have "\<exists>ch1. read_fields E data parts fs (RObj c v (dset k (g k) base) (List.insert k ch) cx) =
        Inr (RObj c v (fold (\<lambda>k. dset k (g k)) (filter there (map fst fs)) (dset k (g k) base)) ch1 cx)"
    proof (rule Cons.IH)
      fix j h assume j: "(j, h) \<in> set fs"
      then have "j \<noteq> k" using Cons.prems(1) e by force
      then show "dhas (dset k (g k) base) j \<Longrightarrow> \<not> is_read_only h" using Cons.prems(5) [of j h] j by simp
      show "there j \<Longrightarrow> \<exists>v p. dget data j = Some v \<and> dget parts j = Some p \<and> field_from_primitive E h v p = Inr (g j)
          \<and> wire_coerce E h (g j) = Inr (g j)" by (rule Cons.prems(3) [of j h]) (use j in simp_all)
      show "\<not> there j \<Longrightarrow> dget data j = None" by (rule Cons.prems(4) [of j h]) (use j in simp_all)
      show "dget (cls_fields c) j = Some h" by (rule Cons.prems(2)) (use j in simp)
    qed (use Cons.prems(1) in simp)
    moreover have "\<not> (is_read_only f \<and> dhas base k)" using Cons.prems(5) [of k f] e by auto
    then have "obj_setattr E k (g k) (RObj c v base ch cx) = Inr (RObj c v (dset k (g k) base) (List.insert k ch) cx)"
      using f w(4) by (auto simp: obj_setattr_def)
    ultimately show ?thesis using e True w by (simp add: read_fields_def)
  next
    case False
    have "dget data k = None" using Cons.prems(4) [of k f] e False by simp
    moreover have "\<exists>ch1. read_fields E data parts fs (RObj c v base ch cx) =
        Inr (RObj c v (fold (\<lambda>k. dset k (g k)) (filter there (map fst fs)) base) ch1 cx)"
    proof (rule Cons.IH)
      fix j h assume j: "(j, h) \<in> set fs"
      show "there j \<Longrightarrow> \<exists>v p. dget data j = Some v \<and> dget parts j = Some p \<and> field_from_primitive E h v p = Inr (g j)
          \<and> wire_coerce E h (g j) = Inr (g j)" by (rule Cons.prems(3) [of j h]) (use j in simp_all)
      show "\<not> there j \<Longrightarrow> dget data j = None" by (rule Cons.prems(4) [of j h]) (use j in simp_all)
      show "dget (cls_fields c) j = Some h" by (rule Cons.prems(2)) (use j in simp)
      show "dhas base j \<Longrightarrow> \<not> is_read_only h" by (rule Cons.prems(5) [of j h]) (use j in simp_all)
    qed (use Cons.prems(1) in simp)
    ultimately show ?thesis using e False by (simp add: read_fields_def)
  qed
qed

lemma listed_changes_back:
  "distinct ks \<Longrightarrow> \<forall>k \<in> set ks. dhas (cls_fields c) k \<Longrightarrow> listed_changes c (map PStr ks) = Inr ks"
  by (induction ks) auto

lemma read_changes_back:
  assumes "distinct what" "\<And>k. dhas p k \<Longrightarrow> dhas (cls_fields c) k"
  shows "read_changes c (wire_form c v p what) = Inr (filter (dhas p) what)"
  using assms listed_changes_back [of "filter (dhas p) what" c]
  by (auto simp: read_changes_def wire_form_def Let_def)

lemma settle_class [simp]: "o_class (settle E cx ob) = o_class ob"
  by (cases ob) simp

text \<open>One attribute there and back, given that the objects in it make the way.\<close>

definition travels :: "wire_env \<Rightarrow> class_registry \<Rightarrow> bool \<Rightarrow> robj \<Rightarrow> bool" where
  "travels E reg cx ob \<longleftrightarrow>
     (\<exists>d. dehydrate E ob = Inr (PDict d) \<and> dhas d name_key \<and> hydrate E reg cx (PDict d) = Inr (settle E cx ob))"

definition value_travels :: "wire_env \<Rightarrow> class_registry \<Rightarrow> bool \<Rightarrow> oval \<Rightarrow> bool" where
  "value_travels E reg cx x =
     (case x of OVal v \<Rightarrow> True | OObj ob \<Rightarrow> travels E reg cx ob | OObjs os \<Rightarrow> list_all (travels E reg cx) os)"

lemma all_objects_Some: "all_objects (map Some os) = Inr os"
  by (induction os) auto

lemma objects_travel:
  assumes "list_all (travels E reg cx) os"
  shows "\<exists>vs. map_r (\<lambda>r. r) (map (dehydrate E) os) = Inr vs
    \<and> map_r (\<lambda>r. r) (list_parts E reg cx vs) = Inr (map Some (map (settle E cx) os))"
  using assms
proof (induction os)
  case (Cons ob os)
  obtain vs where vs: "map_r (\<lambda>r. r) (map (dehydrate E) os) = Inr vs"
      "map_r (\<lambda>r. r) (list_parts E reg cx vs) = Inr (map Some (map (settle E cx) os))"
    using Cons.IH Cons.prems by auto
  obtain d where "dehydrate E ob = Inr (PDict d)" "hydrate E reg cx (PDict d) = Inr (settle E cx ob)"
    using Cons.prems by (auto simp: travels_def)
  with vs show ?case by (simp del: hydrate.simps)
qed simp

lemma map_object_coerce:
  "list_all (\<lambda>ob. cls_name (o_class ob) = n) os \<Longrightarrow>
   map_r (\<lambda>ob. object_coerce n (OObj ob)) (map (settle E cx) os) = Inr (map (settle E cx) os)"
  by (induction os) (auto simp: object_coerce_def)

lemma plain_travels:
  assumes "field_value_ok g v"
    and "case v of PDate t z \<Rightarrow> iso_parse (w_ovo E) (isotime E t z) \<noteq> None | _ \<Rightarrow> True"
  shows "(v = PNone \<longleftrightarrow> plain_to_primitive E g v = PNone)
    \<and> (v \<noteq> PNone \<longrightarrow> plain_from_primitive E g (plain_to_primitive E g v) = Inr (date_over_wire E v))
    \<and> field_value_ok g (date_over_wire E v) \<and> (v = PNone \<longleftrightarrow> date_over_wire E v = PNone)"
proof (cases "ftype g")
  case (FDateTime aware)
  show ?thesis
  proof (cases v)
    case (PDate t z)
    with assms(1) FDateTime have "z = aware" by (auto simp: field_value_ok_def)
    with PDate FDateTime assms show ?thesis
      by (auto simp: plain_to_primitive_def plain_from_primitive_def date_over_wire_def field_value_ok_def split: option.splits)
  qed (use assms(1) FDateTime in \<open>auto simp: field_value_ok_def plain_to_primitive_def\<close>)
qed (use assms(1) in \<open>cases v; auto simp: plain_to_primitive_def plain_from_primitive_def field_value_ok_def\<close>)+

lemma field_travels:
  assumes fits: "value_fits E f x" and "value_travels E reg cx x"
  shows "\<exists>p. field_to_primitive E f x (dehydrate_value E x) = Inr p
    \<and> field_from_primitive E f p (part_of E reg cx p) = Inr (settle_value E cx x)
    \<and> wire_coerce E f (settle_value E cx x) = Inr (settle_value E cx x)"
proof (cases f)
  case (PlainField g)
  then obtain v where x: "x = OVal v" and ok: "field_value_ok g v"
    and date: "case v of PDate t z \<Rightarrow> iso_parse (w_ovo E) (isotime E t z) \<noteq> None | _ \<Rightarrow> True"
    using fits by (cases x) (auto simp: value_fits_def)
  from x PlainField plain_travels [OF ok date] field_coerce_idem [of g "date_over_wire E v"] show ?thesis
    by (auto simp: field_to_primitive_def field_from_primitive_def wire_coerce_def)
next
  case (ObjectField n null)
  show ?thesis
  proof (cases x)
    case (OObj ob)
    then obtain d where "dehydrate E ob = Inr (PDict d)" "hydrate E reg cx (PDict d) = Inr (settle E cx ob)"
      using assms(2) by (auto simp: value_travels_def travels_def)
    with OObj ObjectField fits show ?thesis
      by (auto simp: field_to_primitive_def field_from_primitive_def wire_coerce_def part_of_def value_fits_def
          no_value_def object_coerce_def simp del: hydrate.simps)
  qed (use fits ObjectField in \<open>auto simp: value_fits_def field_to_primitive_def field_from_primitive_def
      wire_coerce_def no_value_def\<close>)
next
  case (ListOfObjectsField n null)
  show ?thesis
  proof (cases x)
    case (OObjs os)
    then obtain vs where "map_r (\<lambda>r. r) (map (dehydrate E) os) = Inr vs"
        "map_r (\<lambda>r. r) (list_parts E reg cx vs) = Inr (map Some (map (settle E cx) os))"
      using assms(2) objects_travel [of E reg cx os] by (auto simp: value_travels_def simp del: list.map_comp map_map)
    with OObjs ListOfObjectsField fits map_object_coerce [of n os E cx] show ?thesis
      by (auto simp: field_to_primitive_def field_from_primitive_def wire_coerce_def part_of_def value_fits_def
          no_value_def all_objects_Some id_def simp del: list.map_comp map_map)
  qed (use fits ListOfObjectsField in \<open>auto simp: value_fits_def field_to_primitive_def field_from_primitive_def
      wire_coerce_def no_value_def\<close>)
qed

lemma map_r_all:
  "(\<And>x. x \<in> set xs \<Longrightarrow> f x = Inr (g x)) \<Longrightarrow> map_r f xs = Inr (map g xs)"
  by (induction xs) auto

lemma dgetd_map_values: "dgetd (map (map_prod id h) d) k x = (case dget d k of None \<Rightarrow> x | Some v \<Rightarrow> h v)"
  by (induction d) (auto simp: dgetd_def)

lemma what_changed_distinct:
  assumes "sendable E reg ob"
  shows "distinct (what_changed ob)"
proof (cases ob)
  case (RObj c v ats ch ctx)
  have "distinct (fold List.insert ks base)" if "distinct base" for ks base :: "string list"
    using that by (induction ks arbitrary: base) auto
  with RObj assms show ?thesis by (auto simp: changed_here_def object_fits_def)
qed

lemma wire_form_items:
  "ditem (wire_form c v p ks) name_key = Inr (PStr (cls_name c))"
  "ditem (wire_form c v p ks) namespace_key = Inr (PStr ''nova'')"
  "ditem (wire_form c v p ks) version_key = Inr (PStr v)"
  "ditem (wire_form c v p ks) data_key = Inr (PDict p)"
  by (simp_all add: wire_form_def Let_def ditem_def)

lemma dhas_keys: "dhas d k \<longleftrightarrow> k \<in> fst ` set d"
  unfolding dhas_def using map_of_eq_None_iff by metis

lemma dget_map_filter:
  "dget (map (\<lambda>(k, f). (k, h k f)) (filter (\<lambda>(k, f). P k) fs)) k = (if P k then map_option (h k) (dget fs k) else None)"
  by (induction fs) auto

lemma object_travels:
  assumes fits: "object_fits E reg c v ats ch"
    and inner: "\<And>k x. (k, x) \<in> set ats \<Longrightarrow> value_travels E reg cx x"
    and what: "distinct (what_changed (RObj c v ats ch ctx))"
  shows "travels E reg cx (RObj c v ats ch ctx)"
proof -
  let ?fs = "cls_fields c" and ?g = "\<lambda>k. settle_value E cx (the (dget ats k))"
  let ?parts = "map (map_prod id (dehydrate_value E)) ats"
  have fields: "dict_ok ?fs" and ats: "dict_ok ats" using fits by (simp_all add: object_fits_def registered_def)
  obtain t where t: "convert_version_to_tuple v = Inr t"
    using fits by (auto simp: object_fits_def registered_def split: sum.splits)
  obtain cs where cs: "dget reg (cls_name c) = Some cs" "find_class E v None cs = Some c"
    using fits by (auto simp: object_fits_def registered_def split: option.splits)
  have attr: "\<exists>p. field_to_primitive E f x (dehydrate_value E x) = Inr p
      \<and> field_from_primitive E f p (part_of E reg cx p) = Inr (settle_value E cx x)
      \<and> wire_coerce E f (settle_value E cx x) = Inr (settle_value E cx x)"
    if "dget ats k = Some x" "dget ?fs k = Some f" for k x f
  proof (rule field_travels)
    have "(k, x) \<in> set ats" using that(1) by (rule map_of_SomeD)
    then show "value_travels E reg cx x" by (rule inner)
    show "value_fits E f x" using fits \<open>(k, x) \<in> set ats\<close> that(2) by (auto simp: object_fits_def list_all_iff)
  qed
  have known: "dhas ?fs k" if "dhas ats k" for k
    using fits that by (auto simp: object_fits_def list_all_iff dhas_def dest!: map_of_SomeD split: option.splits)
  define prim where "prim = (\<lambda>(k, f). (k, case dget ats k of None \<Rightarrow> PNone
      | Some x \<Rightarrow> (case field_to_primitive E f x (dehydrate_value E x) of Inl e \<Rightarrow> PNone | Inr p \<Rightarrow> p)))"
  let ?sent = "filter (\<lambda>(k, f). dhas ats k) ?fs"
  let ?p = "map prim ?sent"
  have data: "primitive_data E c ats ?parts = Inr ?p"
    unfolding primitive_data_def
  proof (rule map_r_all)
    fix e assume "e \<in> set ?sent"
    then obtain k f x where e: "e = (k, f)" "dget ats k = Some x" "(k, f) \<in> set ?fs"
      by (auto simp: dhas_def)
    then have "dget ?fs k = Some f" using fields by simp
    from attr [OF e(2) this] obtain p where "field_to_primitive E f x (dehydrate_value E x) = Inr p" by blast
    with e show "(case e of (k, f) \<Rightarrow> case dget ats k of None \<Rightarrow> Inl AttributeError
        | Some x \<Rightarrow> bind_r (field_to_primitive E f x (dgetd ?parts k NoObject)) (\<lambda>p. Inr (k, p))) = Inr (prim e)"
      by (simp add: prim_def dgetd_map_values)
  qed
  have pget: "dget ?p k = (if dhas ats k then map_option (\<lambda>f. snd (prim (k, f))) (dget ?fs k) else None)" for k
    unfolding prim_def dget_map_filter by simp
  let ?base = "initial_attrs c"
  have read: "\<exists>ch1. read_fields E ?p (dict_parts E reg cx ?p) ?fs (RObj c (cls_version c) ?base (map fst (cls_initial c)) cx) =
      Inr (RObj c (cls_version c) (fold (\<lambda>k. dset k (?g k)) (filter (dhas ats) (map fst ?fs)) ?base) ch1 cx)"
  proof (rule read_fields_all)
    fix k f assume kf: "(k, f) \<in> set ?fs"
    then show f: "dget ?fs k = Some f" using fields by simp
    show "\<not> dhas ats k \<Longrightarrow> dget ?p k = None" unfolding pget by simp
    show "\<exists>w p. dget ?p k = Some w \<and> dget (dict_parts E reg cx ?p) k = Some p
        \<and> field_from_primitive E f w p = Inr (?g k) \<and> wire_coerce E f (?g k) = Inr (?g k)" if "dhas ats k"
    proof -
      from that obtain x where x: "dget ats k = Some x" by (auto simp: dhas_def)
      from attr [OF x f] obtain p where "field_to_primitive E f x (dehydrate_value E x) = Inr p"
        "field_from_primitive E f p (part_of E reg cx p) = Inr (settle_value E cx x)"
        "wire_coerce E f (settle_value E cx x) = Inr (settle_value E cx x)" by blast
      with x f that show ?thesis unfolding dget_dict_parts pget by (simp add: prim_def)
    qed
    show "dhas ?base k \<Longrightarrow> \<not> is_read_only f"
      using fits f by (auto simp: object_fits_def list_all_iff dhas_keys)
  qed (rule fields)
  let ?ks = "filter (dhas ats) (map fst ?fs)"
  have arr: "fold (\<lambda>k. dset k (?g k)) ?ks ?base = arranged c (map (map_prod id (settle_value E cx)) ats)"
  proof -
    have ks: "distinct ?ks" using fields by simp
    have get: "dget (map (map_prod id (settle_value E cx)) ats) k = map_option (settle_value E cx) (dget ats k)" for k
      by (induction ats) auto
    have here: "k \<in> set ?ks" if "k \<in> fst ` set ?base" for k
    proof -
      have "dhas ats k" using fits that by (auto simp: object_fits_def list_all_iff)
      with known show ?thesis by (simp add: dhas_keys)
    qed
    have base: "dict_ok ?base" using fits by (simp add: object_fits_def)
    have first: "map (\<lambda>(k, x). (k, if k \<in> set ?ks then ?g k else x)) ?base = map (\<lambda>k. (k, ?g k)) (map fst ?base)"
    proof -
      have there: "fst e \<in> set ?ks" if "e \<in> set ?base" for e using here [of "fst e"] that by blast
      show ?thesis unfolding map_map o_def by (rule map_cong [OF refl]) (use there in \<open>force split: prod.splits\<close>)
    qed
    have all: "filter (dhas (map (map_prod id (settle_value E cx)) ats)) (attr_names c)
        = map fst ?base @ filter (\<lambda>k. k \<notin> fst ` set ?base) ?ks"
    proof -
      have "dhas (map (map_prod id (settle_value E cx)) ats) = dhas ats" by (simp add: fun_eq_iff dhas_def get)
      moreover have "filter (dhas ats) (map fst ?base) = map fst ?base"
        using here by (intro filter_True) auto
      ultimately show ?thesis by (simp add: attr_names_def Let_def conj_commute)
    qed
    have same: "map (\<lambda>k. (k, the (dget (map (map_prod id (settle_value E cx)) ats) k))) ks = map (\<lambda>k. (k, ?g k)) ks"
      if "\<forall>k \<in> set ks. dhas ats k" for ks
      using that by (auto simp: get dhas_def)
    have "\<forall>k \<in> set (map fst ?base @ filter (\<lambda>k. k \<notin> fst ` set ?base) ?ks). dhas ats k"
      using here by auto
    from same [OF this] show ?thesis
      unfolding fold_dset [OF ks base] arranged_def all first by simp
  qed
  have "dehydrate E (RObj c v ats ch ctx) = Inr (PDict (wire_form c v ?p (what_changed (RObj c v ats ch ctx))))"
    using t data by simp
  moreover have "dhas (wire_form c v ?p ks) name_key" for ks by (simp add: wire_form_def Let_def dhas_def)
  moreover have "hydrate E reg cx (PDict (wire_form c v ?p (what_changed (RObj c v ats ch ctx))))
      = Inr (settle E cx (RObj c v ats ch ctx))"
  proof -
    have same: "dhas ?p = dhas ats"
      using known by (auto simp: fun_eq_iff dhas_def [of "?p"] pget) (auto simp: dhas_def)
    have cls: "obj_class_from_name E reg (PStr (cls_name c)) (PStr v) = Inr c"
      using cs by (cases cs) (auto simp: obj_class_from_name_def)
    have chg: "read_changes c (wire_form c v ?p ks) = Inr (filter (dhas ats) ks)" if "distinct ks" for ks
      using read_changes_back [OF that, of ?p c v] known unfolding same by simp
    have new: "new_object cx c = RObj c (cls_version c) ?base (map fst (cls_initial c)) cx" by (simp add: new_object_def)
    show ?thesis
      using read what
      by (auto simp: object_of_dict_def data_parts_wire_form wire_form_items cls object_of_primitive_def new chg arr
          with_wire_state_def simp del: what_changed.simps)
  qed
  ultimately show ?thesis unfolding travels_def by blast
qed

lemma object_wire:
  fixes ob :: robj and x :: oval
  shows "sendable E reg ob \<Longrightarrow> travels E reg cx ob" "wire_value_ok E reg x \<Longrightarrow> value_travels E reg cx x"
proof (induction ob and x)
  case (RObj c v ats ch ctx)
  have fits: "object_fits E reg c v ats ch" and ok: "\<forall>e \<in> set ats. wire_value_ok E reg (snd e)"
    using RObj.prems by (auto simp: list_all_iff)
  show ?case
  proof (rule object_travels [OF fits])
    fix k x assume kx: "(k, x) \<in> set ats"
    have "snd (k, x) = x" by simp
    with kx ok have "wire_value_ok E reg x" by fastforce
    then show "value_travels E reg cx x" using RObj.IH [OF kx] by (simp add: snds.simps)
  qed (rule what_changed_distinct [OF RObj.prems])
next
  case (OObjs os)
  then show ?case by (auto simp: value_travels_def list_all_iff)
qed (auto simp: value_travels_def)

text \<open>What a caller may pass: values that are not collections, objects that can be sent, and
  sequences and dictionaries of them, none of which has the key of an object's name.\<close>

primrec entity_ok :: "wire_env \<Rightarrow> class_registry \<Rightarrow> entity \<Rightarrow> bool" where
  "entity_ok E reg (EVal v) = (case v of PList _ \<Rightarrow> False | PDict _ \<Rightarrow> False | _ \<Rightarrow> True)"
| "entity_ok E reg (EObj ob) = sendable E reg ob"
| "entity_ok E reg (ESeq es) = list_all id (map (entity_ok E reg) es)"
| "entity_ok E reg (EDict d) =
     (\<not> dhas d name_key \<and> list_all snd (map (map_prod id (entity_ok E reg)) d))"

primrec received :: "wire_env \<Rightarrow> bool \<Rightarrow> entity \<Rightarrow> entity" where
  "received E cx (EVal v) = EVal v"
| "received E cx (EObj ob) = EObj (settle E cx ob)"
| "received E cx (ESeq es) = ESeq (map (received E cx) es)"
| "received E cx (EDict d) = EDict (map (map_prod id (received E cx)) d)"

definition entity_travels ::
  "wire_env \<Rightarrow> class_registry \<Rightarrow> (pydict \<Rightarrow> manifest \<Rightarrow> entity result) \<Rightarrow> bool \<Rightarrow> entity \<Rightarrow> bool" where
  "entity_travels E reg backport cx e \<longleftrightarrow>
     (\<exists>v. ovo_serialize E e = Inr v \<and> ovo_deserialize E reg backport cx v = Inr (received E cx e))"

lemma seq_travels:
  "list_all (entity_travels E reg backport cx) es \<Longrightarrow>
   \<exists>vs. map_r (\<lambda>r. r) (map (ovo_serialize E) es) = Inr vs
     \<and> deserialize_seq E reg backport cx vs = Inr (map (received E cx) es)"
proof (induction es)
  case (Cons e es)
  have head: "entity_travels E reg backport cx e" and rest: "list_all (entity_travels E reg backport cx) es"
    using Cons.prems by simp_all
  from head obtain v where "ovo_serialize E e = Inr v" "ovo_deserialize E reg backport cx v = Inr (received E cx e)"
    unfolding entity_travels_def by blast
  moreover from Cons.IH [OF rest] obtain vs where "map_r (\<lambda>r. r) (map (ovo_serialize E) es) = Inr vs"
      "deserialize_seq E reg backport cx vs = Inr (map (received E cx) es)" by blast
  ultimately show ?case by (intro exI [of _ "v # vs"]) (simp add: id_def)
qed simp

lemma items_travel:
  "list_all (entity_travels E reg backport cx) (map snd d) \<Longrightarrow>
   \<exists>vs. map_r (\<lambda>(k, r). bind_r r (\<lambda>v. Inr (k, v))) (map (map_prod id (ovo_serialize E)) d) = Inr vs
     \<and> map fst vs = map fst d
     \<and> deserialize_items E reg backport cx vs = Inr (map (map_prod id (received E cx)) d)"
proof (induction d)
  case (Cons e d)
  obtain k x where e: "e = (k, x)" by (cases e)
  have head: "entity_travels E reg backport cx x" and rest: "list_all (entity_travels E reg backport cx) (map snd d)"
    using Cons.prems e by simp_all
  from head obtain v where "ovo_serialize E x = Inr v" "ovo_deserialize E reg backport cx v = Inr (received E cx x)"
    unfolding entity_travels_def by blast
  moreover from Cons.IH [OF rest] obtain vs where
      "map_r (\<lambda>(k, r). bind_r r (\<lambda>v. Inr (k, v))) (map (map_prod id (ovo_serialize E)) d) = Inr vs"
      "map fst vs = map fst d"
      "deserialize_items E reg backport cx vs = Inr (map (map_prod id (received E cx)) d)" by blast
  ultimately show ?case using e by (intro exI [of _ "(k, v) # vs"]) (simp add: id_def map_prod_def)
qed simp

lemma dhas_same_keys: "map fst d = map fst e \<Longrightarrow> dhas d k = dhas e k"
  unfolding dhas_keys using list.set_map by metis

text \<open>
  C5: Objects over the wire. What a caller passes to a remote call, objects within
  sequences and dictionaries included, is serialized without an error, and the receiver
  that has the same classes reads it as the same: every object with its class, its version,
  the values of its attributes, also of the objects in them, and its changes, under the context of
  the receiver. Only a date in a field loses its microseconds: it arrives as the one that its
  text of whole seconds stands for (this text must be one that the receiver can parse). The
  receiver never asks the conductor. (An object can be sent when its class is the registered one
  of its version and its attributes are fields of the class with values that fit them.)
\<close>

theorem wire_roundtrip:
  assumes "entity_ok E reg e"
  shows "\<exists>v. ovo_serialize E e = Inr v \<and> ovo_deserialize E reg backport cx v = Inr (received E cx e)"
  using assms unfolding entity_travels_def [symmetric]
proof (induction e)
  case (EVal v)
  then show ?case by (cases v) (simp_all add: entity_travels_def)
next
  case (EObj ob)
  then obtain d where "dehydrate E ob = Inr (PDict d)" "dhas d name_key" "hydrate E reg cx (PDict d) = Inr (settle E cx ob)"
    using object_wire(1) [of E reg ob cx] by (auto simp: travels_def)
  then show ?case by (simp add: entity_travels_def obj_to_primitive_plain process_object_def del: hydrate.simps)
next
  case (ESeq es)
  have "list_all (entity_travels E reg backport cx) es" using ESeq by (auto simp: list_all_iff)
  from seq_travels [OF this] show ?case by (auto simp: entity_travels_def)
next
  case (EDict d)
  have "list_all (entity_travels E reg backport cx) (map snd d)"
    unfolding list_all_iff
  proof
    fix x assume "x \<in> set (map snd d)"
    then obtain k where kx: "(k, x) \<in> set d" by auto
    moreover have "snd (k, x) = x" by simp
    ultimately have "entity_ok E reg x" using EDict.prems by (fastforce simp: list_all_iff)
    then show "entity_travels E reg backport cx x" using EDict.IH [OF kx] by (simp add: snds.simps)
  qed
  from items_travel [OF this] obtain vs where vs:
      "map_r (\<lambda>(k, r). bind_r r (\<lambda>v. Inr (k, v))) (map (map_prod id (ovo_serialize E)) d) = Inr vs"
      "map fst vs = map fst d" "deserialize_items E reg backport cx vs = Inr (map (map_prod id (received E cx)) d)" by blast
  have "\<not> dhas vs name_key" using EDict.prems dhas_same_keys [OF vs(2)] by simp
  with vs show ?case by (simp add: entity_travels_def)
qed

definition sample_wire :: wire_env where
  "sample_wire =
     \<lparr>w_ovo = sample_ovo, strftime = id, tzname = (\<lambda>t. ''UTC''), object_str = (\<lambda>x. ''object''),
      version_head = takeWhile (\<lambda>c. c \<noteq> CHR ''.''), 
      version_ge = (\<lambda>v w. case (convert_version_to_tuple v, convert_version_to_tuple w) of
        (Inr a, Inr b) \<Rightarrow> \<not> tuple_less a b | _ \<Rightarrow> False)\<rparr>"

definition sample_plan_class :: ovo_class where
  "sample_plan_class = hd (the (dget ovo_sample_registry ''Plan''))"

definition sample_case_class :: ovo_class where
  "sample_case_class = hd (the (dget ovo_sample_registry ''Case''))"

definition sample_case :: "int \<Rightarrow> robj" where
  "sample_case i = RObj sample_case_class ''1.1'' [(''plan'', OVal PNone), (''id'', OVal (PInt i))] [''id''] True"

definition sample_plan :: robj where
  "sample_plan = RObj sample_plan_class ''1.2'' [(''cases'', OObjs [sample_case 1, sample_case 2])] [''cases''] True"

lemmas sample_wire_defs = sample_wire_def sample_plan_class_def sample_case_class_def ovo_sample_registry_def
  ovo_sample_class_def sample_case_def sample_plan_def

lemma sample_versions: "convert_version_to_tuple ''1.1'' = Inr [1, 1]" "convert_version_to_tuple ''1.2'' = Inr [1, 2]"
  by code_simp+

lemma wire_roundtrip_witness:
  "\<exists>v. ovo_serialize sample_wire (ESeq [EObj sample_plan, EVal (PInt 3)]) = Inr v
     \<and> ovo_deserialize sample_wire ovo_sample_registry (\<lambda>d m. Inl TypeError) True v
       = Inr (ESeq [EObj (settle sample_wire True sample_plan), EVal (PInt 3)])"
proof -
  have "entity_ok sample_wire ovo_sample_registry (ESeq [EObj sample_plan, EVal (PInt 3)])"
    by (simp add: object_fits_def registered_def sample_wire_defs sample_versions value_fits_def initial_attrs_def
        field_value_ok_def)
  from wire_roundtrip [OF this, of "\<lambda>d m. Inl TypeError" True] show ?thesis by simp
qed

text \<open>The receiver's object has the values that were sent.\<close>

lemma settle_values:
  assumes "sendable E reg ob"
  shows "dget (o_attrs (settle E cx ob)) k = map_option (settle_value E cx) (dget (o_attrs ob) k)"
proof (cases ob)
  case (RObj c v ats ch ctx)
  have fits: "object_fits E reg c v ats ch" using assms RObj by simp
  have get: "dget (map (map_prod id (settle_value E cx)) ats) k = map_option (settle_value E cx) (dget ats k)" for k
    by (induction ats) auto
  have known: "k \<in> set (attr_names c)" if "dhas ats k" for k
  proof -
    from that obtain x where "(k, x) \<in> set ats" by (auto simp: dhas_keys)
    with fits obtain f where "dget (cls_fields c) k = Some f"
      by (auto simp: object_fits_def list_all_iff split: option.splits)
    then have "k \<in> fst ` set (cls_fields c)" by (simp add: dhas_keys [symmetric] dhas_def)
    then show ?thesis by (simp add: attr_names_def Let_def)
  qed
  have arr: "dget (map (\<lambda>k. (k, g k)) (filter P ks)) k = (if k \<in> set ks \<and> P k then Some (g k) else None)"
    for g :: "string \<Rightarrow> oval" and P ks by (induction ks) auto
  show ?thesis using known [of k]
    by (cases "dget ats k") (auto simp: RObj arranged_def arr get dhas_def)
qed

text \<open>
  An object of a version \<^verbatim>\<open>x.y.z\<close> that is not known is read as one of version \<^verbatim>\<open>x.y\<close>, without asking.
\<close>

lemma revision_read_without:
  assumes "hydrate E reg ctx (PDict d) = Inl incompatible_version" "dots (version_text d) = 2"
    and "hydrate E reg ctx (PDict (dset version_key (PStr (without_revision (version_text d))) d)) = Inr ob"
  shows "process_object E reg backport ctx d = Inr (EObj ob)"
  using assms by (simp add: process_object_def Let_def del: hydrate.simps)

lemma unknown_class_refused:
  assumes "ditem d namespace_key = Inr (PStr ''nova'')" "ditem d name_key = Inr (PStr n)"
    "ditem d version_key = Inr v" "dget reg n = None"
  shows "process_object E reg backport ctx d = Inl unsupported_object"
  using assms by (simp add: process_object_def object_of_dict_def obj_class_from_name_def unsupported_object_def
      incompatible_version_def)

section \<open>Registration\<close>

text \<open>
  The classes of a name have falling versions and \<^verbatim>\<open>nova.objects\<close> has the first. Versions are
  written in one way: \<open>1.1\<close> and \<open>1.01\<close> do not both occur.
\<close>

definition version_of :: "ovo_class \<Rightarrow> int list" where
  "version_of c = (case convert_version_to_tuple (cls_version c) of Inl e \<Rightarrow> [] | Inr t \<Rightarrow> t)"

fun falling :: "ovo_class list \<Rightarrow> bool" where
  "falling [] = True"
| "falling (c # cs) = (list_all (\<lambda>d. tuple_less (version_of d) (version_of c)) cs \<and> falling cs)"

definition classes_ok :: "class_registry \<times> (string \<times> ovo_class) list \<Rightarrow> bool" where
  "classes_ok = (\<lambda>(reg, objs).
     \<forall>n. (case dget reg n of
             None \<Rightarrow> dget objs n = None
           | Some cs \<Rightarrow> falling cs \<and> cs \<noteq> [] \<and> dget objs n = Some (hd cs)))"

definition one_spelling :: "ovo_class \<Rightarrow> ovo_class list \<Rightarrow> bool" where
  "one_spelling c cs \<longleftrightarrow> list_all (\<lambda>d. version_of d = version_of c \<longrightarrow> cls_version d = cls_version c) cs"

lemma version_of_Inr: "convert_version_to_tuple (cls_version c) = Inr t \<Longrightarrow> version_of c = t"
  by (simp add: version_of_def)

lemma version_of_same: "cls_version c = cls_version d \<Longrightarrow> version_of c = version_of d"
  by (simp add: version_of_def)

lemma insert_class_falling:
  assumes "insert_class c cs = Inr ds" "falling cs" "one_spelling c cs"
  shows "falling ds \<and> ds \<noteq> [] \<and> set ds \<subseteq> insert c (set cs)
    \<and> hd ds = (if cs \<noteq> [] \<and> tuple_less (version_of c) (version_of (hd cs)) then hd cs else c)"
  using assms
proof (induction cs arbitrary: ds)
  case (Cons d cs)
  show ?case
  proof (cases "cls_version c = cls_version d")
    case True
    with Cons.prems version_of_same [OF True] show ?thesis by (auto simp: tuple_less_irrefl)
  next
    case False
    with Cons.prems(1) obtain vc vd where v: "convert_version_to_tuple (cls_version c) = Inr vc"
        "convert_version_to_tuple (cls_version d) = Inr vd"
      by (auto simp: result_simps)
    note vs = version_of_Inr [OF v(1)] version_of_Inr [OF v(2)]
    have ne: "vc \<noteq> vd" using False Cons.prems(3) vs by (auto simp: one_spelling_def)
    show ?thesis
    proof (cases "tuple_less vd vc")
      case True
      with False Cons.prems(1) v have ds: "ds = c # d # cs" by (auto simp: result_simps)
      have "list_all (\<lambda>e. tuple_less (version_of e) vc) cs"
        using Cons.prems(2) vs True by (auto simp: list_all_iff intro: tuple_less_trans)
      moreover have "\<not> tuple_less vc vd" using True tuple_less_trans tuple_less_irrefl by blast
      ultimately show ?thesis using ds Cons.prems(2) vs True by auto
    next
      case less: False
      with ne tuple_less_linear have lt: "tuple_less vc vd" by blast
      from False less Cons.prems(1) v obtain es where es: "insert_class c cs = Inr es" "ds = d # es"
        by (auto simp: result_simps)
      have "falling cs" "one_spelling c cs" using Cons.prems(2,3) by (auto simp: one_spelling_def)
      from Cons.IH [OF es(1) this] have ih: "falling es" "set es \<subseteq> insert c (set cs)" by auto
      then have "list_all (\<lambda>e. tuple_less (version_of e) (version_of d)) es"
        using Cons.prems(2) lt vs by (auto simp: list_all_iff)
      with ih es(2) lt vs show ?thesis by auto
    qed
  qed
qed simp

lemma register_keeps_latest:
  assumes "classes_ok (reg, objs)" "register_class c (reg, objs) = Inr (reg1, objs1)"
    and "one_spelling c (dgetd reg (cls_name c) [])"
  shows "classes_ok (reg1, objs1)"
proof -
  let ?n = "cls_name c" and ?cs = "dgetd reg (cls_name c) []"
  from assms(2) obtain ds where ds: "registration_hook c objs = Inr objs1" "insert_class c ?cs = Inr ds"
      "reg1 = dset ?n ds reg"
    by (auto simp: register_class_def Let_def result_simps)
  have old: "case dget reg n of None \<Rightarrow> dget objs n = None
      | Some cs \<Rightarrow> falling cs \<and> cs \<noteq> [] \<and> dget objs n = Some (hd cs)" for n
    using assms(1) by (simp add: classes_ok_def)
  note here = old [of ?n]
  then have fall: "falling ?cs" by (auto simp: dgetd_def split: option.splits)
  note ins = insert_class_falling [OF ds(2) fall assms(3)]
  from ds(1) obtain v where v: "convert_version_to_tuple (cls_version c) = Inr v"
    by (auto simp: registration_hook_def result_simps)
  have "dget objs1 ?n = Some (hd ds) \<and> (\<forall>m. m \<noteq> ?n \<longrightarrow> dget objs1 m = dget objs m)"
  proof (cases "dget reg ?n")
    case None
    with here v ds(1) ins show ?thesis by (auto simp: registration_hook_def dgetd_def)
  next
    case (Some cs)
    with here have cs: "dget objs ?n = Some (hd cs)" "cs \<noteq> []" by auto
    from ds(1) v cs obtain cur where cur: "convert_version_to_tuple (cls_version (hd cs)) = Inr cur"
      by (auto simp: registration_hook_def result_simps)
    from ds(1) v cs cur ins Some version_of_Inr [OF v] version_of_Inr [OF cur] show ?thesis
      by (auto simp: registration_hook_def dgetd_def split: if_splits)
  qed
  then have "case dget reg1 n of None \<Rightarrow> dget objs1 n = None
      | Some cs \<Rightarrow> falling cs \<and> cs \<noteq> [] \<and> dget objs1 n = Some (hd cs)" for n
    using old [of n] ins ds(3) by (cases "n = ?n") (auto split: option.splits)
  then show ?thesis unfolding classes_ok_def by simp
qed

end
