(* ===== verification/WireClasses.thy ===== *)
theory WireClasses
  imports WireObjects ComputeNodes
begin

text \<open>
  The classes of this program as they go over the wire (\<^verbatim>\<open>nova/objects/testplan.py\<close>,
  \<^verbatim>\<open>testcase.py\<close>, \<^verbatim>\<open>compute_node.py\<close>, \<^verbatim>\<open>service.py\<close>), with what each does to its primitive for
  a peer that knows an older version, and the helpers of \<^verbatim>\<open>nova/objects/base.py\<close> on primitives.
  Parameters: \<open>service_id_of\<close> is the id \<^verbatim>\<open>Service.get_by_compute_host\<close> finds for a host, and
  \<open>first_node\<close> the first node of a host.
\<close>

section \<open>Taking nodes and cases to older versions\<close>

text \<open>\<^verbatim>\<open>if name in primitive: del primitive[name]\<close>.\<close>

definition drop_field :: "string \<Rightarrow> pydict \<Rightarrow> pydict" where
  "drop_field k p = (if dhas p k then AList.delete k p else p)"

definition host_service_id :: "(pyval \<Rightarrow> int result) \<Rightarrow> pydict \<Rightarrow> pydict result" where
  "host_service_id service_id_of p =
     (case bind_r (ditem p ''host'') service_id_of of
        Inr i \<Rightarrow> Inr (dset ''service_id'' (PInt i) p)
      | Inl (KeyError k) \<Rightarrow> Inr (dset ''service_id'' (PInt (- 1)) p)
      | Inl (Nova c m) \<Rightarrow>
          if is_a c ComputeHostNotFound then Inr (dset ''service_id'' (PInt (- 1)) p) else Inl (Nova c m)
      | Inl e \<Rightarrow> Inl e)"

definition node_compat :: "(pyval \<Rightarrow> int result) \<Rightarrow> compat" where
  "node_compat service_id_of target man p =
     bind_r (convert_version_to_tuple target) (\<lambda>t.
       let p1 = (if tuple_less t [1, 16] then drop_field ''disk_allocation_ratio'' p else p);
           p2 = (if tuple_less t [1, 15] then drop_field ''uuid'' p1 else p1);
           p3 = (if tuple_less t [1, 14]
                 then drop_field ''cpu_allocation_ratio'' (drop_field ''ram_allocation_ratio'' p2) else p2)
       in bind_r (if tuple_less t [1, 13] \<and> dgetd p3 ''service_id'' PNone = PNone
                  then host_service_id service_id_of p3 else Inr p3) (\<lambda>p4.
            let p5 = (if tuple_less t [1, 7] then drop_field ''host'' p4 else p4);
                p6 = (if tuple_less t [1, 5] then drop_field ''numa_topology'' p5 else p5);
                p7 = (if tuple_less t [1, 4] then drop_field ''host_ip'' p6 else p6)
            in Inr (if tuple_less t [1, 3] then drop_field ''stats'' p7 else p7)))"

text \<open>
  A service adds its node for peers that do not load it by themselves; whatever goes wrong in
  looking it up, it is left out.
\<close>

definition add_compute_node :: "wire_env \<Rightarrow> (pyval \<Rightarrow> robj result) \<Rightarrow> manifest option \<Rightarrow> pydict \<Rightarrow> pydict result" where
  "add_compute_node E first_node man p =
     (case (case man of None \<Rightarrow> Inl TypeError
                      | Some m \<Rightarrow> bind_r (ditem m ''ComputeNode'') (\<lambda>v.
                          bind_r (bind_r (ditem p ''host'') first_node) (\<lambda>ob. Inr (v, ob)))) of
        Inl e \<Rightarrow> Inr p
      | Inr (v, ob) \<Rightarrow>
          bind_r (obj_to_primitive E (Some v) man ob) (\<lambda>n. Inr (dset ''compute_node'' n p)))"

definition service_compat :: "wire_env \<Rightarrow> (pyval \<Rightarrow> robj result) \<Rightarrow> compat" where
  "service_compat E first_node target man p =
     bind_r (convert_version_to_tuple target) (\<lambda>t.
       let p1 = (if tuple_less t [1, 16] then drop_field ''version'' p else p);
           p2 = (if tuple_less t [1, 14] then drop_field ''forced_down'' p1 else p1);
           p3 = (if tuple_less t [1, 13] then drop_field ''last_seen_up'' p2 else p2)
       in if tuple_less t [1, 10] then add_compute_node E first_node man p3 else Inr p3)"

section \<open>The classes\<close>

definition flat_class :: "string \<Rightarrow> string \<Rightarrow> schema \<Rightarrow> compat \<Rightarrow> ovo_class" where
  "flat_class n v fs cm =
     \<lparr>cls_name = n, cls_version = v, cls_fields = map (\<lambda>(k, f). (k, PlainField f)) fs, cls_relationships = [],
      cls_compat = cm, cls_initial = [], cls_list = False, child_versions = []\<rparr>"

definition testplan_class :: ovo_class where
  "testplan_class = flat_class ''TestPlan'' ''1.16'' testplan_fields base_compat"

definition testcase_class :: "(pyval \<Rightarrow> int result) \<Rightarrow> ovo_class" where
  "testcase_class service_id_of = flat_class ''TestCase'' ''1.16'' testcase_fields (node_compat service_id_of)"

definition compute_node_class :: "(pyval \<Rightarrow> int result) \<Rightarrow> ovo_class" where
  "compute_node_class service_id_of =
     flat_class ''ComputeNode'' ''1.16'' compute_node_fields (node_compat service_id_of)"

definition service_fields :: schema where
  "service_fields =
     (let null = (\<lambda>t. (plain_field t)\<lparr>nullable := True\<rparr>) in
      [(''id'', (plain_field FInteger)\<lparr>read_only := True\<rparr>), (''host'', null FString), (''binary'', null FString),
       (''topic'', null FString), (''report_count'', plain_field FInteger), (''disabled'', plain_field FBoolean),
       (''disabled_reason'', null FString), (''availability_zone'', null FString),
       (''last_seen_up'', null (FDateTime True)), (''forced_down'', plain_field FBoolean),
       (''version'', plain_field FInteger)] @ persistent_fields)"

definition service_class :: "wire_env \<Rightarrow> (pyval \<Rightarrow> robj result) \<Rightarrow> ovo_class" where
  "service_class E first_node =
     \<lparr>cls_name = ''Service'', cls_version = ''1.20'',
      cls_fields = (''compute_node'', ObjectField ''ComputeNode'' False) # map (\<lambda>(k, f). (k, PlainField f)) service_fields,
      cls_relationships = [], cls_compat = service_compat E first_node,
      cls_initial = [(''version'', PInt SERVICE_VERSION)], cls_list = False, child_versions = []\<rparr>"

section \<open>Views\<close>

text \<open>
  \<^verbatim>\<open>obj_to_primitive(obj)\<close> of nova: an object as a dictionary of its set attributes, a list
  object as the list of its objects. Other values stay; the classes here have no extra fields.
\<close>

primrec obj_view :: "robj \<Rightarrow> entity" and value_view :: "oval \<Rightarrow> entity" where
  "obj_view (RObj c v ats ch ctx) =
     (let views = map (map_prod id value_view) ats
      in if cls_list c then dgetd views ''objects'' (ESeq [])
         else EDict (List.map_filter (\<lambda>(k, f). map_option (Pair k) (dget views k)) (cls_fields c)))"
| "value_view (OVal v) = EVal v"
| "value_view (OObj ob) = obj_view ob"
| "value_view (OObjs os) = ESeq (map obj_view os)"

text \<open>\<^verbatim>\<open>_strip\<close> of \<^verbatim>\<open>obj_equal_prims\<close>: the keys are removed at every depth.\<close>

fun strip_keys :: "string list \<Rightarrow> pyval \<Rightarrow> pyval" where
  "strip_keys keys (PDict d) =
     PDict (map (\<lambda>(k, v). (k, strip_keys keys v)) (filter (\<lambda>(k, v). k \<notin> set keys) d))"
| "strip_keys keys (PList vs) = PList (map (strip_keys keys) vs)"
| "strip_keys keys v = v"

section \<open>Lemmas\<close>

lemma dhas_drop_field [simp]: "dhas (drop_field k p) j \<longleftrightarrow> j \<noteq> k \<and> dhas p j"
  by (auto simp: drop_field_def dhas_def)

lemma dget_drop_field [simp]: "dget (drop_field k p) j = (if j = k then None else dget p j)"
  by (auto simp: drop_field_def dhas_def)

text \<open>The service id that a peer gets that demands one: the one of the host, or none that exists.\<close>

definition demanded_service_id :: "(pyval \<Rightarrow> int result) \<Rightarrow> pydict \<Rightarrow> int" where
  "demanded_service_id service_id_of p =
     (case bind_r (ditem p ''host'') service_id_of of Inr i \<Rightarrow> i | Inl e \<Rightarrow> - 1)"

lemma host_service_id_result:
  assumes "host_service_id service_id_of p = Inr q"
  shows "q = dset ''service_id'' (PInt (demanded_service_id service_id_of p)) p"
  using assms unfolding host_service_id_def demanded_service_id_def by (auto split: sum.splits exn.splits if_splits)

text \<open>The fields that a version does not have.\<close>

definition node_lacks :: "int list \<Rightarrow> string \<Rightarrow> bool" where
  "node_lacks t k \<longleftrightarrow>
     k = ''disk_allocation_ratio'' \<and> tuple_less t [1, 16] \<or> k = ''uuid'' \<and> tuple_less t [1, 15] \<or>
     (k = ''ram_allocation_ratio'' \<or> k = ''cpu_allocation_ratio'') \<and> tuple_less t [1, 14] \<or>
     k = ''host'' \<and> tuple_less t [1, 7] \<or> k = ''numa_topology'' \<and> tuple_less t [1, 5] \<or>
     k = ''host_ip'' \<and> tuple_less t [1, 4] \<or> k = ''stats'' \<and> tuple_less t [1, 3]"

text \<open>What a node's primitive is at version \<open>t\<close>, field by field.\<close>

definition node_at :: "(pyval \<Rightarrow> int result) \<Rightarrow> int list \<Rightarrow> pydict \<Rightarrow> string \<Rightarrow> pyval option" where
  "node_at service_id_of t p k =
     (if node_lacks t k then None
      else if k = ''service_id'' \<and> tuple_less t [1, 13] \<and> dgetd p ''service_id'' PNone = PNone
      then Some (PInt (demanded_service_id service_id_of p))
      else dget p k)"

lemma node_compat_result:
  assumes "node_compat service_id_of target man p = Inr q" "convert_version_to_tuple target = Inr t"
  shows "dget q k = node_at service_id_of t p k"
proof -
  define p3 where "p3 = (let p1 = (if tuple_less t [1, 16] then drop_field ''disk_allocation_ratio'' p else p);
           p2 = (if tuple_less t [1, 15] then drop_field ''uuid'' p1 else p1)
       in if tuple_less t [1, 14]
          then drop_field ''cpu_allocation_ratio'' (drop_field ''ram_allocation_ratio'' p2) else p2)"
  define tail4 where "tail4 = (\<lambda>p4. let p5 = (if tuple_less t [1, 7] then drop_field ''host'' p4 else p4);
                p6 = (if tuple_less t [1, 5] then drop_field ''numa_topology'' p5 else p5);
                p7 = (if tuple_less t [1, 4] then drop_field ''host_ip'' p6 else p6)
            in (if tuple_less t [1, 3] then drop_field ''stats'' p7 else p7))"
  have three: "dget p3 j = (if j = ''disk_allocation_ratio'' \<and> tuple_less t [1, 16] \<or> j = ''uuid'' \<and> tuple_less t [1, 15] \<or>
     (j = ''ram_allocation_ratio'' \<or> j = ''cpu_allocation_ratio'') \<and> tuple_less t [1, 14] then None else dget p j)" for j
    by (auto simp: p3_def Let_def)
  have end1: "dget (tail4 p4) j = (if j = ''host'' \<and> tuple_less t [1, 7] \<or> j = ''numa_topology'' \<and> tuple_less t [1, 5] \<or>
     j = ''host_ip'' \<and> tuple_less t [1, 4] \<or> j = ''stats'' \<and> tuple_less t [1, 3] then None else dget p4 j)" for p4 j
    by (auto simp: tail4_def Let_def)
  have "bind_r (if tuple_less t [1, 13] \<and> dgetd p3 ''service_id'' PNone = PNone
        then host_service_id service_id_of p3 else Inr p3) (\<lambda>p4. Inr (tail4 p4)) = Inr q"
    using assms(1) unfolding node_compat_def assms(2) bind_r.simps Let_def p3_def tail4_def .
  then obtain p4 where p4: "(if tuple_less t [1, 13] \<and> dgetd p3 ''service_id'' PNone = PNone
        then host_service_id service_id_of p3 else Inr p3) = Inr p4" "q = tail4 p4"
    unfolding bind_r_Inr_iff by blast
  have sid: "dgetd p3 ''service_id'' PNone = dgetd p ''service_id'' PNone" by (simp add: dgetd_def three)
  have host: "demanded_service_id service_id_of p3 = demanded_service_id service_id_of p"
    by (simp add: demanded_service_id_def ditem_def three)
  have "dget p4 k = (if k = ''service_id'' \<and> tuple_less t [1, 13] \<and> dgetd p ''service_id'' PNone = PNone
      then Some (PInt (demanded_service_id service_id_of p)) else dget p3 k)"
  proof (cases "tuple_less t [1, 13] \<and> dgetd p ''service_id'' PNone = PNone")
    case True
    with p4(1) have "host_service_id service_id_of p3 = Inr p4" by (simp add: sid)
    from host_service_id_result [OF this] True show ?thesis by (simp add: host)
  next
    case False
    with p4(1) have "p4 = p3" by (auto simp: sid split: if_splits)
    with False show ?thesis by auto
  qed
  note mid = this
  define A where "A \<longleftrightarrow> k = ''disk_allocation_ratio'' \<and> tuple_less t [1, 16] \<or> k = ''uuid'' \<and> tuple_less t [1, 15] \<or>
     (k = ''ram_allocation_ratio'' \<or> k = ''cpu_allocation_ratio'') \<and> tuple_less t [1, 14]"
  define B where "B \<longleftrightarrow> k = ''host'' \<and> tuple_less t [1, 7] \<or> k = ''numa_topology'' \<and> tuple_less t [1, 5] \<or>
     k = ''host_ip'' \<and> tuple_less t [1, 4] \<or> k = ''stats'' \<and> tuple_less t [1, 3]"
  have lacks: "node_lacks t k \<longleftrightarrow> A \<or> B" by (simp only: node_lacks_def A_def B_def disj_assoc)
  have other: "\<not> A" if "k = ''service_id''" using that by (simp add: A_def)
  have "dget q k = (if B then None else if k = ''service_id'' \<and> tuple_less t [1, 13] \<and> dgetd p ''service_id'' PNone = PNone
      then Some (PInt (demanded_service_id service_id_of p)) else if A then None else dget p k)"
    unfolding p4(2) end1 mid three A_def B_def by (rule refl)
  with other show ?thesis unfolding node_at_def lacks by presburger
qed

lemma flat_compat: "compat_fields (flat_class n v fs cm) parts target man p = cm target man p"
proof -
  have "filter (\<lambda>(k, f). field_objname f \<noteq> None \<and> dhas parts k) (map (\<lambda>(k, f). (k, PlainField f)) fs) = []"
    by (auto simp: filter_empty_conv field_objname_def)
  then show ?thesis by (simp add: compat_fields_def flat_class_def)
qed

text \<open>
  C25: Nodes for older peers. A compute node that is sent as an older version is sent under that
  version with exactly these fields: those that the version lacks are left out; below 1.13, where
  a service id is demanded, a missing one is the id of the service of the host, or -1 when there
  is none; every other field, \<^verbatim>\<open>uuid\<close>, \<^verbatim>\<open>host\<close> and a service id that is set included, is
  unchanged. No change is listed of a field that is not sent.
\<close>

theorem node_for_older_peer:
  assumes "obj_to_primitive E (Some target) man (RObj (compute_node_class service_id_of) v ats ch ctx) = Inr prim"
    and "convert_version_to_tuple target = Inr t" "target \<noteq> v"
  shows "\<exists>data full ks.
    prim = PDict (wire_form (compute_node_class service_id_of) target data ks)
    \<and> primitive_data E (compute_node_class service_id_of) ats (map (map_prod id (dehydrate_value E)) ats) = Inr full
    \<and> (\<forall>k. dget data k = node_at service_id_of t full k)
    \<and> (\<forall>c. dget (wire_form (compute_node_class service_id_of) target data ks) changes_key = Some (PList c) \<longrightarrow>
          (\<forall>k. PStr k \<in> set c \<longrightarrow> dhas data k))"
proof -
  let ?c = "compute_node_class service_id_of"
  from assms(1-3) obtain full data where full: "primitive_data E ?c ats (map (map_prod id (dehydrate_value E)) ats) = Inr full"
    and data: "make_compatible (RObj ?c v ats ch ctx) target man full = Inr data"
    and prim: "prim = PDict (wire_form ?c target data (what_changed (RObj ?c v ats ch ctx)))"
    by (auto simp: obj_to_primitive_def Let_def result_simps split: if_splits)
  from data have "node_compat service_id_of target man full = Inr data"
    by (simp add: compute_node_class_def flat_compat)
  from node_compat_result [OF this assms(2)] full prim show ?thesis
    by (intro exI [of _ data] exI [of _ full] exI [of _ "what_changed (RObj ?c v ats ch ctx)"])
      (auto simp: wire_form_def Let_def)
qed

definition old_node_host :: "pyval \<Rightarrow> int result" where
  "old_node_host h = (if h = PStr ''h1'' then Inr 7 else Inl (Nova ComputeHostNotFound ''h''))"

definition wire_node :: robj where
  "wire_node = RObj (compute_node_class old_node_host) ''1.16''
     [(''id'', OVal (PInt 4)), (''uuid'', OVal (PStr ''u'')), (''service_id'', OVal PNone), (''host'', OVal (PStr ''h1''))]
     [''uuid'', ''host''] True"

lemma node_versions: "convert_version_to_tuple ''1.12'' = Inr [1, 12]" "convert_version_to_tuple ''1.16'' = Inr [1, 16]"
  by code_simp+

lemma node_for_older_peer_witness:
  "\<exists>data ks. obj_to_primitive sample_wire (Some ''1.12'') None wire_node
       = Inr (PDict (wire_form (compute_node_class old_node_host) ''1.12'' data ks))
     \<and> \<not> dhas data ''uuid'' \<and> dget data ''id'' = Some (PInt 4) \<and> dget data ''service_id'' = Some (PInt 7)
     \<and> dget data ''host'' = Some (PStr ''h1'')"
proof -
  let ?ats = "[(''id'', OVal (PInt 4)), (''uuid'', OVal (PStr ''u'')), (''service_id'', OVal PNone), (''host'', OVal (PStr ''h1''))]"
  have full: "primitive_data sample_wire (compute_node_class old_node_host) ?ats (map (map_prod id (dehydrate_value sample_wire)) ?ats)
      = Inr [(''id'', PInt 4), (''uuid'', PStr ''u''), (''service_id'', PNone), (''host'', PStr ''h1'')]"
    by (simp add: primitive_data_def compute_node_class_def flat_class_def compute_node_fields_def persistent_fields_def
        Let_def dhas_def dgetd_def field_to_primitive_def plain_to_primitive_def plain_field_def)
  have "\<exists>prim. obj_to_primitive sample_wire (Some ''1.12'') None wire_node = Inr prim"
  proof -
    let ?full = "[(''id'', PInt 4), (''uuid'', PStr ''u''), (''service_id'', PNone), (''host'', PStr ''h1'')]"
    have "node_compat old_node_host ''1.12'' None ?full = Inr [(''id'', PInt 4), (''service_id'', PInt 7), (''host'', PStr ''h1'')]"
      by code_simp
    then have "make_compatible wire_node ''1.12'' None ?full = Inr [(''id'', PInt 4), (''service_id'', PInt 7), (''host'', PStr ''h1'')]"
      unfolding wire_node_def make_compatible.simps compute_node_class_def flat_compat .
    moreover have "\<not> tuple_less [1, 16] [1, 12]" "''1.12'' \<noteq> ''1.16''" by simp_all
    ultimately show ?thesis
      unfolding obj_to_primitive_def wire_node_def robj.case option.case Let_def node_versions bind_r.simps full
      by (simp del: make_compatible.simps what_changed.simps)
  qed
  then obtain prim where prim: "obj_to_primitive sample_wire (Some ''1.12'') None wire_node = Inr prim" by blast
  have "''1.12'' \<noteq> ''1.16''" by simp
  from node_for_older_peer [OF prim [unfolded wire_node_def] node_versions(1) this]
  obtain data fulls ks where r: "prim = PDict (wire_form (compute_node_class old_node_host) ''1.12'' data ks)"
      "primitive_data sample_wire (compute_node_class old_node_host) ?ats (map (map_prod id (dehydrate_value sample_wire)) ?ats) = Inr fulls"
      "\<forall>k. dget data k = node_at old_node_host [1, 12] fulls k"
    by blast
  from r(2) full have fulls: "fulls = [(''id'', PInt 4), (''uuid'', PStr ''u''), (''service_id'', PNone), (''host'', PStr ''h1'')]"
    by (metis Inr_inject)
  have "\<not> dhas data ''uuid'' \<and> dget data ''id'' = Some (PInt 4) \<and> dget data ''service_id'' = Some (PInt 7)
      \<and> dget data ''host'' = Some (PStr ''h1'')"
    unfolding dhas_def r(3) [rule_format] fulls
    by (simp add: node_at_def node_lacks_def dgetd_def demanded_service_id_def ditem_def old_node_host_def)
  then show ?thesis using prim r(1) by blast
qed

end
