(* ===== verification/IniFiles.thy ===== *)
theory IniFiles
  imports PyStr
begin

text \<open>
  Option files: the line parser of \<^verbatim>\<open>oslo_config/iniparser.py\<close>, the parser of
  \<^verbatim>\<open>oslo_config/cfg.py\<close> on top of it, which files the values by section and key, and the look-up
  of a value in the files that were read (\<^verbatim>\<open>_Namespace\<close>), newest file first.

  A file is the list of its lines. A parse error carries the number and the text of its line.
\<close>

section \<open>Lines\<close>

text \<open>White space of byte strings.\<close>

definition byte_space :: "char \<Rightarrow> bool" where
  "byte_space c \<longleftrightarrow> (let n = (of_char c :: nat) in 9 \<le> n \<and> n \<le> 13 \<or> n = 32)"

definition rstrip :: "string \<Rightarrow> string" where
  "rstrip s = rev (dropWhile byte_space (rev s))"

definition lstrip :: "string \<Rightarrow> string" where
  "lstrip s = dropWhile byte_space s"

record parse_error =
  pe_msg :: string
  pe_lineno :: nat
  pe_line :: string

definition parse_exc :: "string \<Rightarrow> nat \<Rightarrow> string \<Rightarrow> parse_error" where
  "parse_exc msg n line = \<lparr>pe_msg = msg, pe_lineno = n, pe_line = line\<rparr>"

definition get_section :: "nat \<Rightarrow> string \<Rightarrow> parse_error + string" where
  "get_section n line =
     (if last line \<noteq> CHR '']'' then Inl (parse_exc ''Invalid section (must end with ])'' n line)
      else if length line \<le> 2 then Inl (parse_exc ''Empty section name'' n line)
      else Inr (butlast (tl line)))"

definition dquote1 :: char where "dquote1 = CHR 0x22"
definition squote1 :: char where "squote1 = CHR 0x27"

definition is_quoted :: "string \<Rightarrow> bool" where
  "is_quoted v \<longleftrightarrow> v \<noteq> [] \<and> hd v = last v \<and> (hd v = dquote1 \<or> hd v = squote1)"

definition not_separator :: "char \<Rightarrow> bool" where
  "not_separator c \<longleftrightarrow> c \<noteq> CHR '':'' \<and> c \<noteq> CHR ''=''"

text \<open>The assignment is split at the first colon or equals sign, whichever comes first.\<close>

definition split_key_value :: "nat \<Rightarrow> string \<Rightarrow> parse_error + (string \<times> string list)" where
  "split_key_value n line =
     (if list_all not_separator line then Inl (parse_exc ''No ':' or '=' found in assignment'' n line)
      else (let key = takeWhile not_separator line;
                value = strip_by byte_space (tl (dropWhile not_separator line));
                value1 = (if is_quoted value then butlast (tl value) else value)
            in Inr (strip_by byte_space key, [value1])))"

text \<open>
  \<^verbatim>\<open>parse\<close>: a pending assignment is handed on when a blank line, a section, a comment, another
  assignment or the end comes. The handlers get the number of the line that ends it.
\<close>

record 's handlers =
  on_assignment :: "string \<Rightarrow> string list \<Rightarrow> nat \<Rightarrow> 's \<Rightarrow> parse_error + 's"
  on_section :: "string \<Rightarrow> 's \<Rightarrow> 's"

definition flush_lines :: "'s handlers \<Rightarrow> string option \<Rightarrow> string list \<Rightarrow> nat \<Rightarrow> 's \<Rightarrow> parse_error + 's" where
  "flush_lines H key vals n s = (case key of None \<Rightarrow> Inr s | Some k \<Rightarrow> on_assignment H k vals n s)"

fun ini_parse :: "'s handlers \<Rightarrow> string option \<Rightarrow> string list \<Rightarrow> nat \<Rightarrow> string list \<Rightarrow> 's \<Rightarrow> parse_error + 's" where
  "ini_parse H key vals n [] s = flush_lines H key vals n s"
| "ini_parse H key vals n (raw # rest) s =
     (let line = rstrip raw; m = Suc n in
      if line = [] then bind_r (flush_lines H key vals m s) (ini_parse H None [] m rest)
      else if hd line = CHR '' '' \<or> of_char (hd line) = (9 :: nat) then
        (case key of
           None \<Rightarrow> Inl (parse_exc ''Unexpected continuation line'' m line)
         | Some k \<Rightarrow> ini_parse H key (vals @ [lstrip line]) m rest s)
      else bind_r (flush_lines H key vals m s) (\<lambda>s1.
        if hd line = CHR ''['' then
          bind_r (get_section m line) (\<lambda>sec. ini_parse H None [] m rest (on_section H sec s1))
        else if hd line = CHR ''#'' \<or> hd line = CHR '';'' then ini_parse H None [] m rest s1
        else bind_r (split_key_value m line) (\<lambda>(k, v).
          if k = [] then Inl (parse_exc ''Key cannot be empty'' m line)
          else ini_parse H (Some k) v m rest s1)))"

section \<open>Sections\<close>

type_synonym sections = "(string \<times> (string \<times> string list) list) list"

definition normalize_group_name :: "string \<Rightarrow> string" where
  "normalize_group_name g = (if g = ''DEFAULT'' then g else lower g)"

text \<open>The state of \<^verbatim>\<open>ConfigParser\<close>: the sections as written and under normalized names.\<close>

record config_parser =
  cp_section :: "string option"
  cp_sections :: sections
  cp_normalized :: sections

definition new_parser :: config_parser where
  "new_parser = \<lparr>cp_section = None, cp_sections = [], cp_normalized = []\<rparr>"

definition set_section :: "string \<Rightarrow> sections \<Rightarrow> sections" where
  "set_section sec d = (if dhas d sec then d else dset sec [] d)"

definition new_section :: "string \<Rightarrow> config_parser \<Rightarrow> config_parser" where
  "new_section sec p =
     p\<lparr>cp_section := Some sec, cp_sections := set_section sec (cp_sections p),
       cp_normalized := set_section (normalize_group_name sec) (cp_normalized p)\<rparr>"

definition append_value :: "string \<Rightarrow> string \<Rightarrow> string \<Rightarrow> sections \<Rightarrow> sections" where
  "append_value key v sec d =
     (let keys = dgetd d sec [] in dset sec (dset key (dgetd keys key [] @ [v]) keys) d)"

definition newline :: string where "newline = [CHR 0x0A]"

definition parser_assignment :: "string \<Rightarrow> string list \<Rightarrow> nat \<Rightarrow> config_parser \<Rightarrow> parse_error + config_parser" where
  "parser_assignment key vals n p =
     (case cp_section p of
        None \<Rightarrow> Inl (parse_exc ''Section must be started before assignment'' n [])
      | Some sec \<Rightarrow>
          let v = join_with newline vals in
          Inr (p\<lparr>cp_sections := append_value key v sec (cp_sections p),
                 cp_normalized := append_value key v (normalize_group_name sec) (cp_normalized p)\<rparr>))"

definition config_handlers :: "config_parser handlers" where
  "config_handlers = \<lparr>on_assignment = parser_assignment, on_section = new_section\<rparr>"

definition parse_file :: "string list \<Rightarrow> parse_error + config_parser" where
  "parse_file lines = ini_parse config_handlers None [] 0 lines new_parser"

section \<open>The files that were read\<close>

text \<open>The newest file comes first.\<close>

record namespace =
  ns_parsed :: "sections list"
  ns_normalized :: "sections list"

definition empty_namespace :: namespace where
  "empty_namespace = \<lparr>ns_parsed = [], ns_normalized = []\<rparr>"

definition add_parsed_config_file :: "config_parser \<Rightarrow> namespace \<Rightarrow> namespace" where
  "add_parsed_config_file p ns =
     \<lparr>ns_parsed = cp_sections p # ns_parsed ns, ns_normalized = cp_normalized p # ns_normalized ns\<rparr>"

definition section_value :: "sections \<Rightarrow> string \<times> string \<Rightarrow> string list option" where
  "section_value d = (\<lambda>(sec, name). case dget d sec of None \<Rightarrow> None | Some keys \<Rightarrow> dget keys name)"

text \<open>
  \<^verbatim>\<open>_get_file_value\<close>: one value is that of the newest file that has one of the names, under the first
  such name; many values are gathered from all files.
\<close>

fun first_value :: "sections \<Rightarrow> (string \<times> string) list \<Rightarrow> string list option" where
  "first_value d [] = None"
| "first_value d (n # ns) = (case section_value d n of Some v \<Rightarrow> Some v | None \<Rightarrow> first_value d ns)"

fun single_value :: "sections list \<Rightarrow> (string \<times> string) list \<Rightarrow> string list option" where
  "single_value [] names = None"
| "single_value (d # ds) names = (case first_value d names of Some v \<Rightarrow> Some v | None \<Rightarrow> single_value ds names)"

definition gather :: "sections \<Rightarrow> (string \<times> string) list \<Rightarrow> string list \<Rightarrow> string list" where
  "gather d names rvalue =
     fold (\<lambda>n r. case section_value d n of Some v \<Rightarrow> v @ r | None \<Rightarrow> r) names rvalue"

definition lookup_names :: "bool \<Rightarrow> (string option \<times> string) list \<Rightarrow> (string \<times> string) list" where
  "lookup_names normalized names =
     map (\<lambda>(g, n). let s = (case g of None \<Rightarrow> ''DEFAULT'' | Some x \<Rightarrow> x)
                   in (if normalized then normalize_group_name s else s, n)) names"

definition get_file_value :: "namespace \<Rightarrow> (string option \<times> string) list \<Rightarrow> bool \<Rightarrow> bool \<Rightarrow> string list result" where
  "get_file_value ns names multi normalized =
     (let ds = (if normalized then ns_normalized ns else ns_parsed ns);
          ks = lookup_names normalized names
      in if multi then
           (let r = fold (\<lambda>d rv. gather d ks rv) ds [] in if r \<noteq> [] then Inr r else Inl (KeyError []))
         else (case single_value ds ks of Some v \<Rightarrow> Inr v | None \<Rightarrow> Inl (KeyError [])))"

definition read_files :: "string list list \<Rightarrow> namespace \<Rightarrow> parse_error + namespace" where
  "read_files = fold_r (\<lambda>lines ns. bind_r (parse_file lines) (\<lambda>p. Inr (add_parsed_config_file p ns)))"

section \<open>Lemmas on lines\<close>

definition stripped :: "string \<Rightarrow> bool" where
  "stripped s \<longleftrightarrow> s \<noteq> [] \<and> \<not> byte_space (hd s) \<and> \<not> byte_space (last s)"

lemma dropWhile_prefix: "list_all p a \<Longrightarrow> s \<noteq> [] \<Longrightarrow> \<not> p (hd s) \<Longrightarrow> dropWhile p (a @ s) = s"
  by (induction a) (auto simp: neq_Nil_conv)

lemma strip_around:
  assumes "stripped s" "list_all byte_space a" "list_all byte_space b"
  shows "strip_by byte_space (a @ s @ b) = s"
proof -
  have "dropWhile byte_space (a @ s @ b) = s @ b"
    using assms by (intro dropWhile_prefix) (auto simp: stripped_def)
  moreover have "dropWhile byte_space (rev b @ rev s) = rev s"
    using assms by (intro dropWhile_prefix) (auto simp: stripped_def hd_rev list_all_iff)
  ultimately show ?thesis by (simp add: strip_by_def)
qed

lemma rstrip_id: "s \<noteq> [] \<Longrightarrow> \<not> byte_space (last s) \<Longrightarrow> rstrip s = s"
  using dropWhile_prefix [of byte_space "[]" "rev s"] by (simp add: rstrip_def hd_rev)

lemma rstrip_space: "s \<noteq> [] \<Longrightarrow> \<not> byte_space (last s) \<Longrightarrow> list_all byte_space b \<Longrightarrow> rstrip (s @ b) = s"
  using dropWhile_prefix [of byte_space "rev b" "rev s"] by (simp add: rstrip_def hd_rev list_all_iff)

lemma lstrip_around: "stripped s \<Longrightarrow> list_all byte_space a \<Longrightarrow> lstrip (a @ s) = s"
  unfolding lstrip_def by (rule dropWhile_prefix) (auto simp: stripped_def)

lemma byte_space_chars [simp]: "byte_space CHR '' ''" "\<not> byte_space CHR '']''" "\<not> byte_space CHR ''=''" "\<not> byte_space dquote1"
  by (simp_all add: byte_space_def dquote1_def)

section \<open>Writing option files\<close>

text \<open>
  A file as it is written: sections with assignments, each a key with the lines of its
  value. The first line is put in quotes where the parser would strip or unquote it, as
  \<^verbatim>\<open>quote_trailing_and_leading_space\<close> of \<^verbatim>\<open>types.py\<close> does for white space.
\<close>

type_synonym conf_file = "(string \<times> (string \<times> string list) list) list"

definition quote_value :: "string \<Rightarrow> string" where
  "quote_value v = (if strip_by byte_space v \<noteq> v \<or> is_quoted v then dquote1 # v @ [dquote1] else v)"

definition print_assignment :: "string \<times> string list \<Rightarrow> string list" where
  "print_assignment = (\<lambda>(k, vs).
     (k @ '' = '' @ quote_value (hd vs)) # map (\<lambda>w. ''    '' @ w) (tl vs))"

definition print_section :: "string \<times> (string \<times> string list) list \<Rightarrow> string list" where
  "print_section = (\<lambda>(sec, as). (CHR ''['' # sec @ '']'') # concat (map print_assignment as))"

definition print_file :: "conf_file \<Rightarrow> string list" where
  "print_file f = concat (map print_section f)"

definition key_ok :: "string \<Rightarrow> bool" where
  "key_ok k \<longleftrightarrow> stripped k \<and> list_all not_separator k \<and> hd k \<noteq> CHR ''['' \<and> hd k \<noteq> CHR ''#'' \<and> hd k \<noteq> CHR '';''"

definition assignment_ok :: "string \<times> string list \<Rightarrow> bool" where
  "assignment_ok = (\<lambda>(k, vs). key_ok k \<and> vs \<noteq> [] \<and> list_all stripped (tl vs))"

definition file_ok :: "conf_file \<Rightarrow> bool" where
  "file_ok = list_all (\<lambda>(sec, as). sec \<noteq> [] \<and> list_all assignment_ok as)"

lemma stripped_strip: "strip_by byte_space v = v \<Longrightarrow> v \<noteq> [] \<Longrightarrow> stripped v"
  using strip_by_ends [of byte_space v] by (simp add: stripped_def)

lemma takeWhile_key: "list_all p k \<Longrightarrow> \<not> p c \<Longrightarrow> takeWhile p (k @ c # s) = k \<and> dropWhile p (k @ c # s) = c # s"
  by (induction k) auto

lemma not_separator_chars [simp]: "not_separator CHR '' ''" "\<not> not_separator CHR ''=''"
  by (simp_all add: not_separator_def)

lemma assignment_line:
  assumes "key_ok k"
  shows "\<exists>line. rstrip (k @ '' = '' @ quote_value v) = line \<and> line \<noteq> [] \<and> hd line = hd k \<and> split_key_value n line = Inr (k, [v])"
proof -
  have k: "stripped k" "list_all not_separator k" "k \<noteq> []" using assms by (auto simp: key_ok_def stripped_def)
  have key: "strip_by byte_space (k @ '' '') = k" using strip_around [OF k(1), of "[]" "'' ''"] by simp
  have sep: "list_all not_separator (k @ '' '')" using k(2) by simp
  have split: "split_key_value n (k @ '' ='' @ r) = Inr (k, [if is_quoted (strip_by byte_space r)
      then butlast (tl (strip_by byte_space r)) else strip_by byte_space r])" for r
  proof -
    have "\<not> list_all not_separator (k @ '' ='' @ r)" by simp
    moreover have "takeWhile not_separator (k @ '' ='' @ r) = k @ '' ''" "dropWhile not_separator (k @ '' ='' @ r) = CHR ''='' # r"
      using takeWhile_key [OF sep, of "CHR ''=''" r] by simp_all
    ultimately show ?thesis by (simp add: split_key_value_def Let_def key del: list_all_append)
  qed
  let ?q = "quote_value v"
  show ?thesis
  proof (cases "?q = []")
    case True
    then have "v = []" by (auto simp: quote_value_def split: if_splits)
    moreover have "rstrip (k @ '' = '') = k @ '' =''"
      using rstrip_space [of "k @ '' =''" "'' ''"] by simp
    ultimately show ?thesis using True k split [of "[]"]
      by (simp add: strip_by_def is_quoted_def)
  next
    case False
    have q: "stripped ?q"
    proof (cases "strip_by byte_space v \<noteq> v \<or> is_quoted v")
      case True
      then show ?thesis by (auto simp: quote_value_def stripped_def)
    next
      case other: False
      then have "?q = v" by (simp add: quote_value_def)
      with False other show ?thesis using stripped_strip [of v] by simp
    qed
    have "rstrip (k @ '' = '' @ ?q) = k @ '' = '' @ ?q"
      using q by (intro rstrip_id) (auto simp: stripped_def)
    moreover have "strip_by byte_space ('' '' @ ?q) = ?q" using strip_around [OF q, of "'' ''" "[]"] by simp
    moreover have "(if is_quoted ?q then butlast (tl ?q) else ?q) = v"
      by (auto simp: quote_value_def is_quoted_def dquote1_def)
    ultimately show ?thesis using k split [of "'' '' @ ?q"] by (auto simp: hd_append)
  qed
qed

lemma continuation_lines:
  "list_all stripped ws \<Longrightarrow>
   ini_parse H (Some k) vals n (map (\<lambda>w. ''    '' @ w) ws @ rest) s = ini_parse H (Some k) (vals @ ws) (n + length ws) rest s"
proof (induction ws arbitrary: vals n)
  case (Cons w ws)
  have w: "stripped w" using Cons.prems by simp
  have r: "rstrip (''    '' @ w) = ''    '' @ w"
    using w by (intro rstrip_id) (auto simp: stripped_def)
  have l: "lstrip (''    '' @ w) = w" by (rule lstrip_around [OF w]) simp
  show ?case
    using Cons r l by (simp add: Let_def del: append.simps) (simp add: Let_def)
qed simp

lemma print_assignment_parsed:
  assumes "assignment_ok (k, vs)"
  shows "ini_parse H key vals n (print_assignment (k, vs) @ rest) s =
    bind_r (flush_lines H key vals (Suc n) s) (ini_parse H (Some k) vs (n + length vs) rest)"
proof -
  obtain v ws where vs: "vs = v # ws" and ok: "key_ok k" "list_all stripped ws"
    using assms by (cases vs) (auto simp: assignment_ok_def)
  obtain line where line: "rstrip (k @ '' = '' @ quote_value v) = line" "line \<noteq> []" "hd line = hd k"
      "split_key_value (Suc n) line = Inr (k, [v])"
    using assignment_line [OF ok(1), of v "Suc n"] by blast
  have k: "\<not> byte_space (hd k)" "k \<noteq> []" "hd k \<noteq> CHR ''[''" "hd k \<noteq> CHR ''#''" "hd k \<noteq> CHR '';''"
    using ok(1) by (auto simp: key_ok_def stripped_def)
  then have c: "hd k \<noteq> CHR '' ''" "of_char (hd k) \<noteq> (9 :: nat)" by (auto simp: byte_space_def Let_def)
  define raw where "raw = k @ '' = '' @ quote_value v"
  have "print_assignment (k, vs) = raw # map (\<lambda>w. ''    '' @ w) ws"
    by (simp add: print_assignment_def vs raw_def)
  moreover have "ini_parse H (Some k) [v] (Suc n) (map (\<lambda>w. ''    '' @ w) ws @ rest)
      = ini_parse H (Some k) vs (n + length vs) rest"
    using continuation_lines [OF ok(2), of H k "[v]" "Suc n" rest] by (auto simp: vs fun_eq_iff)
  ultimately show ?thesis
    using k c line [folded raw_def] by (cases "flush_lines H key vals (Suc n) s") (simp_all add: Let_def)
qed

lemma section_line_parsed:
  assumes "sec \<noteq> []"
  shows "ini_parse H key vals n ((CHR ''['' # sec @ '']'') # rest) s =
    bind_r (flush_lines H key vals (Suc n) s) (\<lambda>s1. ini_parse H None [] (Suc n) rest (on_section H sec s1))"
proof -
  have "rstrip (CHR ''['' # sec @ '']'') = CHR ''['' # sec @ '']''" by (rule rstrip_id) auto
  moreover have "get_section (Suc n) (CHR ''['' # sec @ '']'') = Inr sec"
    using assms by (simp add: get_section_def)
  ultimately show ?thesis by (cases "flush_lines H key vals (Suc n) s") (simp_all add: Let_def)
qed

text \<open>What the assignments of a file do to the parser, one after the other.\<close>

definition put_assignment :: "string \<times> string list \<Rightarrow> config_parser \<Rightarrow> config_parser" where
  "put_assignment = (\<lambda>(k, vs) p.
     (case cp_section p of
        None \<Rightarrow> p
      | Some sec \<Rightarrow>
          p\<lparr>cp_sections := append_value k (join_with newline vs) sec (cp_sections p),
            cp_normalized := append_value k (join_with newline vs) (normalize_group_name sec) (cp_normalized p)\<rparr>))"

definition put_section :: "string \<times> (string \<times> string list) list \<Rightarrow> config_parser \<Rightarrow> config_parser" where
  "put_section = (\<lambda>(sec, as) p. fold put_assignment as (new_section sec p))"

definition pending_lines :: "string option \<Rightarrow> string list \<Rightarrow> config_parser \<Rightarrow> config_parser" where
  "pending_lines key vals p = (case key of None \<Rightarrow> p | Some k \<Rightarrow> put_assignment (k, vals) p)"

lemma cp_section_pending [simp]: "cp_section (pending_lines key vals p) = cp_section p"
  by (auto simp: pending_lines_def put_assignment_def split: option.splits)

lemma flush_pending:
  "cp_section p \<noteq> None \<or> key = None \<Longrightarrow> flush_lines config_handlers key vals n p = Inr (pending_lines key vals p)"
  by (auto simp: flush_lines_def config_handlers_def parser_assignment_def pending_lines_def put_assignment_def Let_def
      split: option.splits)

lemma assignments_parsed:
  assumes "list_all assignment_ok as" "cp_section p \<noteq> None"
  shows "\<exists>key1 vals1 m q. ini_parse config_handlers key vals n (concat (map print_assignment as) @ rest) p
      = ini_parse config_handlers key1 vals1 m rest q
    \<and> pending_lines key1 vals1 q = fold put_assignment as (pending_lines key vals p) \<and> cp_section q = cp_section p"
  using assms
proof (induction as arbitrary: key vals n p)
  case Nil
  then show ?case by auto
next
  case (Cons a as)
  obtain k vs where a: "a = (k, vs)" by (cases a)
  let ?p = "pending_lines key vals p"
  have "ini_parse config_handlers key vals n (concat (map print_assignment (a # as)) @ rest) p
      = ini_parse config_handlers (Some k) vs (n + length vs) (concat (map print_assignment as) @ rest) ?p"
    using Cons.prems a print_assignment_parsed [of k vs config_handlers key vals n "concat (map print_assignment as) @ rest" p]
      flush_pending [of p key vals "Suc n"] by simp
  moreover have "cp_section ?p \<noteq> None" using Cons.prems by simp
  with Cons.IH [of ?p "Some k" vs "n + length vs"] Cons.prems(1)
  obtain key1 vals1 m q where "ini_parse config_handlers (Some k) vs (n + length vs) (concat (map print_assignment as) @ rest) ?p
      = ini_parse config_handlers key1 vals1 m rest q"
    "pending_lines key1 vals1 q = fold put_assignment as (pending_lines (Some k) vs ?p)" "cp_section q = cp_section ?p"
    by auto
  moreover have "pending_lines (Some k) vs ?p = put_assignment a ?p" by (simp add: pending_lines_def a)
  ultimately show ?case by auto
qed

lemma file_parsed:
  assumes "file_ok f" "cp_section p \<noteq> None \<or> key = None"
  shows "ini_parse config_handlers key vals n (print_file f) p = Inr (fold put_section f (pending_lines key vals p))"
  using assms
proof (induction f arbitrary: key vals n p)
  case Nil
  then show ?case by (simp add: print_file_def flush_pending)
next
  case (Cons e f)
  obtain sec as where e: "e = (sec, as)" by (cases e)
  have ok: "sec \<noteq> []" "list_all assignment_ok as" "file_ok f" using Cons.prems(1) e by (auto simp: file_ok_def)
  let ?p = "new_section sec (pending_lines key vals p)"
  have "ini_parse config_handlers key vals n (print_file (e # f)) p
      = ini_parse config_handlers None [] (Suc n) (concat (map print_assignment as) @ print_file f) ?p"
    using section_line_parsed [OF ok(1), of config_handlers key vals n "concat (map print_assignment as) @ print_file f" p]
      flush_pending [OF Cons.prems(2)]
    by (simp add: e print_file_def print_section_def config_handlers_def)
  moreover have sec: "cp_section ?p \<noteq> None" by (simp add: new_section_def)
  from assignments_parsed [OF ok(2) sec, of None "[]" "Suc n" "print_file f"]
  obtain key1 vals1 m q where q: "ini_parse config_handlers None [] (Suc n) (concat (map print_assignment as) @ print_file f) ?p
      = ini_parse config_handlers key1 vals1 m (print_file f) q"
    "pending_lines key1 vals1 q = fold put_assignment as (pending_lines None [] ?p)" "cp_section q = cp_section ?p" by blast
  moreover have "ini_parse config_handlers key1 vals1 m (print_file f) q = Inr (fold put_section f (pending_lines key1 vals1 q))"
    by (rule Cons.IH [OF ok(3)]) (use q(3) sec in simp)
  ultimately show ?case by (simp add: e put_section_def pending_lines_def)
qed

section \<open>Values\<close>

definition opt_list :: "string list \<Rightarrow> string list option" where
  "opt_list vs = (if vs = [] then None else Some vs)"

text \<open>The values a file gives a key of a section, in the order they are written.\<close>

definition written :: "string \<times> string \<Rightarrow> conf_file \<Rightarrow> string list" where
  "written n f =
     concat (map (\<lambda>(sec, as). if normalize_group_name sec = fst n
        then map (\<lambda>(k, vs). join_with newline vs) (filter (\<lambda>(k, vs). k = snd n) as) else []) f)"

lemma section_value_set_section [simp]: "section_value (set_section sec d) n = section_value d n"
  by (cases n) (auto simp: set_section_def section_value_def dhas_def split: option.splits)

lemma section_value_append_value:
  "section_value (append_value k v sec d) n =
     (if n = (sec, k) then Some ((case section_value d n of None \<Rightarrow> [] | Some vs \<Rightarrow> vs) @ [v]) else section_value d n)"
  by (cases n) (auto simp: append_value_def section_value_def Let_def dgetd_def split: option.splits)

lemma fold_put_assignment:
  assumes "cp_section p = Some sec" "section_value (cp_normalized p) n = opt_list vs"
  shows "cp_section (fold put_assignment as p) = Some sec \<and>
    section_value (cp_normalized (fold put_assignment as p)) n =
      opt_list (vs @ (if normalize_group_name sec = fst n
        then map (\<lambda>(k, vs). join_with newline vs) (filter (\<lambda>(k, vs). k = snd n) as) else []))"
  using assms
proof (induction as arbitrary: p vs)
  case (Cons a as)
  obtain k ws where a: "a = (k, ws)" by (cases a)
  let ?p = "put_assignment a p"
  let ?new = "if normalize_group_name sec = fst n \<and> k = snd n then [join_with newline ws] else []"
  have "cp_section ?p = Some sec" using Cons.prems a by (simp add: put_assignment_def)
  moreover have "section_value (cp_normalized ?p) n = opt_list (vs @ ?new)"
    using Cons.prems a by (cases n) (auto simp: put_assignment_def section_value_append_value opt_list_def)
  ultimately show ?case using Cons.IH [of ?p "vs @ ?new"] a by auto
qed simp

lemma fold_put_section:
  "section_value (cp_normalized p) n = opt_list vs \<Longrightarrow>
   section_value (cp_normalized (fold put_section f p)) n = opt_list (vs @ written n f)"
proof (induction f arbitrary: p vs)
  case Nil
  then show ?case by (simp add: written_def)
next
  case (Cons e f)
  obtain sec as where e: "e = (sec, as)" by (cases e)
  let ?new = "if normalize_group_name sec = fst n
        then map (\<lambda>(k, vs). join_with newline vs) (filter (\<lambda>(k, vs). k = snd n) as) else []"
  have start: "cp_section (new_section sec p) = Some sec" "section_value (cp_normalized (new_section sec p)) n = opt_list vs"
    using Cons.prems by (simp_all add: new_section_def)
  have "section_value (cp_normalized (put_section e p)) n = opt_list (vs @ ?new)"
    using fold_put_assignment [OF start, of as] e by (simp add: put_section_def)
  from Cons.IH [OF this] show ?case by (simp add: e written_def)
qed

lemma print_file_parsed:
  assumes "file_ok f"
  shows "\<exists>p. parse_file (print_file f) = Inr p \<and> (\<forall>n. section_value (cp_normalized p) n = opt_list (written n f))"
proof (intro exI conjI allI)
  show "parse_file (print_file f) = Inr (fold put_section f new_parser)"
    using file_parsed [OF assms, of new_parser None "[]" 0] by (simp add: parse_file_def pending_lines_def new_parser_def)
  fix n
  have "section_value (cp_normalized new_parser) n = opt_list []"
    by (cases n) (simp add: new_parser_def section_value_def opt_list_def)
  from fold_put_section [OF this] show "section_value (cp_normalized (fold put_section f new_parser)) n = opt_list (written n f)"
    by simp
qed

text \<open>The files that were read, newest first, as a list of what each gives.\<close>

definition holds_files :: "namespace \<Rightarrow> conf_file list \<Rightarrow> bool" where
  "holds_files ns fs \<longleftrightarrow>
     list_all2 (\<lambda>d f. \<forall>n. section_value d n = opt_list (written n f)) (ns_normalized ns) (rev fs)"

lemma read_files_holds:
  "list_all file_ok gs \<Longrightarrow> holds_files ns fs \<Longrightarrow>
   \<exists>ns1. read_files (map print_file gs) ns = Inr ns1 \<and> holds_files ns1 (fs @ gs)"
proof (induction gs arbitrary: ns fs)
  case (Cons g gs)
  obtain p where p: "parse_file (print_file g) = Inr p" "\<forall>n. section_value (cp_normalized p) n = opt_list (written n g)"
    using print_file_parsed [of g] Cons.prems(1) by auto
  have "holds_files (add_parsed_config_file p ns) (fs @ [g])"
    using Cons.prems(2) p(2) by (simp add: holds_files_def add_parsed_config_file_def)
  from Cons.IH [OF _ this] Cons.prems(1) p(1) show ?case by (simp add: read_files_def)
qed (simp add: read_files_def)

lemma gather_one: "gather d [n] r = (case section_value d n of Some v \<Rightarrow> v | None \<Rightarrow> []) @ r"
  by (simp add: gather_def split: option.splits)

lemma gather_all:
  "list_all2 (\<lambda>d f. section_value d n = opt_list (written n f)) ds gs \<Longrightarrow>
   fold (\<lambda>d rv. gather d [n] rv) ds r = concat (map (written n) (rev gs)) @ r"
  by (induction ds gs arbitrary: r rule: list_all2_induct) (auto simp: gather_one opt_list_def)

lemma single_newest:
  "list_all2 (\<lambda>d f. section_value d n = opt_list (written n f)) ds gs \<Longrightarrow>
   (case single_value ds [n] of
      None \<Rightarrow> concat (map (written n) (rev gs)) = []
    | Some v \<Rightarrow> v \<noteq> [] \<and> concat (map (written n) (rev gs)) \<noteq> [] \<and> last v = last (concat (map (written n) (rev gs))))"
proof (induction ds gs rule: list_all2_induct)
  case (Cons d ds f gs)
  then show ?case by (cases "written n f") (auto simp: opt_list_def split: option.splits)
qed simp

text \<open>
  C21: Options in files. Files that were written with sections, keys and values, values of several
  lines and values with quotes or outer spaces included, are read without an error, and what is
  found for a key of a section is what was written: for an option of many values all of
  them in the order of the files, for any other the one written last. Sections are the same
  when their names differ in case only.
\<close>

theorem option_files_read:
  assumes "list_all file_ok files"
  shows "\<exists>ns. read_files (map print_file files) empty_namespace = Inr ns \<and>
    (\<forall>g k. let vs = concat (map (written (normalize_group_name g, k)) files) in
      get_file_value ns [(Some g, k)] True True = (if vs = [] then Inl (KeyError []) else Inr vs) \<and>
      map_sum id last (get_file_value ns [(Some g, k)] False True) = (if vs = [] then Inl (KeyError []) else Inr (last vs)))"
proof -
  have "holds_files empty_namespace []" by (simp add: holds_files_def empty_namespace_def)
  from read_files_holds [OF assms this] obtain ns where ns: "read_files (map print_file files) empty_namespace = Inr ns"
    "holds_files ns files" by auto
  note held = ns(2) [unfolded holds_files_def]
  have "let vs = concat (map (written (normalize_group_name g, k)) files) in
      get_file_value ns [(Some g, k)] True True = (if vs = [] then Inl (KeyError []) else Inr vs) \<and>
      map_sum id last (get_file_value ns [(Some g, k)] False True) = (if vs = [] then Inl (KeyError []) else Inr (last vs))" for g k
  proof -
    let ?n = "(normalize_group_name g, k)"
    have "list_all2 (\<lambda>d f. section_value d ?n = opt_list (written ?n f)) (ns_normalized ns) (rev files)"
      using held by (rule list_all2_mono) blast
    from gather_all [OF this, of "[]"] single_newest [OF this] show ?thesis
      by (auto simp: get_file_value_def lookup_names_def Let_def split: option.splits)
  qed
  with ns(1) show ?thesis by blast
qed

definition sample_files :: "conf_file list" where
  "sample_files =
     [[(''DEFAULT'', [(''host'', [''h1'']), (''host'', ['' h2 '', ''x''])])], [(''default'', [(''host'', [''other''])]), (''DEFAULT'', [(''host'', [''h3''])])]]"

lemma option_files_read_witness:
  "\<exists>ns. read_files (map print_file sample_files) empty_namespace = Inr ns \<and>
    get_file_value ns [(Some ''DEFAULT'', ''host'')] True True = Inr [''h1'', '' h2 '' @ newline @ ''x'', ''h3'']"
proof -
  have "list_all file_ok sample_files" by code_simp
  from option_files_read [OF this] obtain ns where ns: "read_files (map print_file sample_files) empty_namespace = Inr ns"
    "get_file_value ns [(Some ''DEFAULT'', ''host'')] True True
      = (let vs = concat (map (written (normalize_group_name ''DEFAULT'', ''host'')) sample_files)
         in if vs = [] then Inl (KeyError []) else Inr vs)"
    unfolding Let_def by blast
  have "concat (map (written (normalize_group_name ''DEFAULT'', ''host'')) sample_files) = [''h1'', '' h2 '' @ newline @ ''x'', ''h3'']"
    by code_simp
  with ns show ?thesis by auto
qed

end
