(* ===== verification/ConfTypes.thy ===== *)
theory ConfTypes
  imports IniFiles VObjects
begin

text \<open>
  The types of options (\<^verbatim>\<open>oslo_config/types.py\<close>): how the text of a value becomes the value, and
  which texts are refused. Lists and dictionaries are split at commas, and a part that its item
  type refuses is joined with the next. \<open>str1\<close> is Python's \<^verbatim>\<open>str(value)\<close>. Regular expressions,
  floats, addresses and URIs are not modelled.
\<close>

datatype opt_type =
    OString "string list option" bool bool nat
  | OBoolean
  | OInteger "int option" "int option" "int list option"
  | OList opt_type bool
  | ODict opt_type bool
  | OHostname

section \<open>Scalars\<close>

definition unquote :: "string \<Rightarrow> string result" where
  "unquote v =
     (if v \<noteq> [] \<and> (hd v = dquote1 \<or> hd v = squote1) then
        (if last v \<noteq> hd v then Inl ValueError else Inr (butlast (tl v)))
      else Inr v)"

definition string_type :: "string list option \<Rightarrow> bool \<Rightarrow> bool \<Rightarrow> nat \<Rightarrow> string \<Rightarrow> pyval result" where
  "string_type choices quotes ignore_case max_length s =
     bind_r (if quotes then unquote s else Inr s) (\<lambda>v.
       if 0 < max_length \<and> max_length < length v then Inl ValueError
       else case choices of
              None \<Rightarrow> Inr (PStr v)
            | Some cs \<Rightarrow>
                if (if ignore_case then lower v \<in> set (map lower cs) else v \<in> set cs) then Inr (PStr v)
                else Inl ValueError)"

definition TRUE_VALUES :: "string list" where "TRUE_VALUES = [''true'', ''1'', ''on'', ''yes'']"
definition FALSE_VALUES :: "string list" where "FALSE_VALUES = [''false'', ''0'', ''off'', ''no'']"

definition boolean_type :: "pyval \<Rightarrow> pyval result" where
  "boolean_type v =
     (case v of
        PBool b \<Rightarrow> Inr v
      | PStr s \<Rightarrow>
          if lower s \<in> set TRUE_VALUES then Inr (PBool True)
          else if lower s \<in> set FALSE_VALUES then Inr (PBool False)
          else Inl ValueError
      | _ \<Rightarrow> Inl AttributeError)"

text \<open>A number out of the bounds, or not among the choices; a boolean is a number.\<close>

definition in_bounds :: "int option \<Rightarrow> int option \<Rightarrow> int list option \<Rightarrow> int \<Rightarrow> bool" where
  "in_bounds lo hi choices n =
     (case choices of
        None \<Rightarrow> (case lo of None \<Rightarrow> True | Some l \<Rightarrow> l \<le> n) \<and> (case hi of None \<Rightarrow> True | Some h \<Rightarrow> n \<le> h)
      | Some cs \<Rightarrow> n \<in> set cs)"

definition integer_type :: "int option \<Rightarrow> int option \<Rightarrow> int list option \<Rightarrow> pyval \<Rightarrow> pyval result" where
  "integer_type lo hi choices v =
     (case v of
        PInt n \<Rightarrow> if in_bounds lo hi choices n then Inr v else Inl ValueError
      | PBool b \<Rightarrow> if in_bounds lo hi choices (if b then 1 else 0) then Inr v else Inl ValueError
      | PStr s \<Rightarrow>
          if strip_by byte_space s = [] then Inr PNone
          else (case int_of_string s of
                  None \<Rightarrow> Inl ValueError
                | Some n \<Rightarrow> if in_bounds lo hi choices n then Inr (PInt n) else Inl ValueError)
      | _ \<Rightarrow> Inl TypeError)"

text \<open>The constructors refuse bounds that no value meets.\<close>

definition Integer_new :: "int option \<Rightarrow> int option \<Rightarrow> int list option \<Rightarrow> opt_type result" where
  "Integer_new lo hi choices =
     (if (case (lo, hi) of (Some l, Some h) \<Rightarrow> h < l | _ \<Rightarrow> False) then Inl ValueError
      else if list_ex (\<lambda>c. \<not> in_bounds lo hi None c) (case choices of None \<Rightarrow> [] | Some cs \<Rightarrow> cs) then Inl ValueError
      else Inr (OInteger lo hi choices))"

definition PORT_MIN :: int where "PORT_MIN = 0"
definition PORT_MAX :: int where "PORT_MAX = 65535"

definition Port_new :: "int option \<Rightarrow> int option \<Rightarrow> int list option \<Rightarrow> opt_type result" where
  "Port_new lo hi choices =
     (let l = (case lo of None \<Rightarrow> PORT_MIN | Some x \<Rightarrow> x); h = (case hi of None \<Rightarrow> PORT_MAX | Some x \<Rightarrow> x)
      in if l < PORT_MIN then Inl ValueError
         else if PORT_MAX < h then Inl ValueError
         else Integer_new (Some l) (Some h) choices)"

text \<open>
  Segments of letters, digits and hyphens that neither begin nor end with a hyphen. The
  \<^verbatim>\<open>$\<close> of the expression also matches before a final line feed.
\<close>

definition host_char :: "char \<Rightarrow> bool" where
  "host_char c \<longleftrightarrow> is_digit c \<or> c = CHR ''-'' \<or>
     (let n = (of_char c :: nat) in 65 \<le> n \<and> n \<le> 90 \<or> 97 \<le> n \<and> n \<le> 122)"

definition host_segment :: "string \<Rightarrow> bool" where
  "host_segment x \<longleftrightarrow>
     (let y = (if x \<noteq> [] \<and> last x = CHR 0x0A then butlast x else x)
      in y \<noteq> [] \<and> length y \<le> 63 \<and> list_all host_char y \<and> hd y \<noteq> CHR ''-'' \<and> last y \<noteq> CHR ''-'')"

definition hostname_type :: "string \<Rightarrow> string result" where
  "hostname_type v =
     (if v = [] then Inl ValueError
      else if 253 < length v then Inl ValueError
      else (let w = (if last v = CHR ''.'' then butlast v else v)
            in if list_all host_segment (split_on CHR ''.'' w) then Inr w else Inl ValueError))"

section \<open>Lists and dictionaries\<close>

text \<open>
  One item: \<open>part\<close> is what was taken so far, \<open>rest\<close> the parts that are left. Only a
  \<^verbatim>\<open>ValueError\<close> of the item makes it longer.
\<close>

fun take_item :: "(string \<Rightarrow> 'v result) \<Rightarrow> string \<Rightarrow> string list \<Rightarrow> ('v \<times> string list) result" where
  "take_item conv part [] =
     (case conv part of Inr v \<Rightarrow> Inr (v, []) | Inl e \<Rightarrow> Inl e)"
| "take_item conv part (p # rest) =
     (case conv part of
        Inr v \<Rightarrow> Inr (v, p # rest)
      | Inl e \<Rightarrow> if e = ValueError then take_item conv (part @ '','' @ p) rest else Inl e)"

lemma take_item_shorter: "take_item conv part rest = Inr (v, rest1) \<Longrightarrow> length rest1 \<le> length rest"
  by (induction conv part rest rule: take_item.induct) (auto split: sum.splits if_splits)

function take_items :: "(string \<Rightarrow> 'v result) \<Rightarrow> string list \<Rightarrow> 'v list result" where
  "take_items conv [] = Inr []"
| "take_items conv (p # rest) =
     (case take_item conv p rest of
        Inl e \<Rightarrow> Inl e
      | Inr (v, rest1) \<Rightarrow> bind_r (take_items conv rest1) (\<lambda>vs. Inr (v # vs)))"
  by pat_completeness auto
termination
  by (relation "measure (\<lambda>(conv, ps). length ps)") (auto dest: take_item_shorter)

definition between :: "char \<Rightarrow> char \<Rightarrow> bool \<Rightarrow> string \<Rightarrow> string result" where
  "between l r bounds s =
     (if \<not> bounds then Inr s
      else if s = [] \<or> hd s \<noteq> l then Inl ValueError
      else if last s \<noteq> r then Inl ValueError
      else Inr (butlast (tl s)))"

definition comma_items :: "char \<Rightarrow> char \<Rightarrow> bool \<Rightarrow> (string \<Rightarrow> 'v result) \<Rightarrow> string \<Rightarrow> 'v list result" where
  "comma_items l r bounds conv value =
     bind_r (between l r bounds (strip_by byte_space value)) (\<lambda>s.
       if s = [] then Inr [] else take_items conv (split_on CHR '','' s))"

text \<open>A pair is split at its first colon; the text after it must suit the type of the values.\<close>

definition dict_pair :: "(string \<Rightarrow> 'v result) \<Rightarrow> string \<Rightarrow> (string \<times> 'v) result" where
  "dict_pair conv pair =
     (if CHR '':'' \<notin> set pair then Inl ValueError
      else bind_r (conv (strip_by byte_space (tl (dropWhile (\<lambda>c. c \<noteq> CHR '':'') pair)))) (\<lambda>v.
        Inr (strip_by byte_space (takeWhile (\<lambda>c. c \<noteq> CHR '':'') pair), v)))"

text \<open>The pairs go into the dictionary one by one: an empty or a repeated key is refused.\<close>

function take_pairs :: "(string \<Rightarrow> 'v result) \<Rightarrow> string list \<Rightarrow> (string \<times> 'v) list \<Rightarrow> (string \<times> 'v) list result" where
  "take_pairs conv [] d = Inr d"
| "take_pairs conv (p # rest) d =
     (case take_item (dict_pair conv) p rest of
        Inl e \<Rightarrow> Inl e
      | Inr ((k, v), rest1) \<Rightarrow>
          if k = [] \<or> dhas d k then Inl ValueError else take_pairs conv rest1 (dset k v d))"
  by pat_completeness auto
termination
  by (relation "measure (\<lambda>(conv, ps, d). length ps)") (auto dest: take_item_shorter)

fun convert_type :: "(pyval \<Rightarrow> string) \<Rightarrow> opt_type \<Rightarrow> pyval \<Rightarrow> pyval result" where
  "convert_type str1 (OString cs q ic n) v = string_type cs q ic n (str1 v)"
| "convert_type str1 OBoolean v = boolean_type v"
| "convert_type str1 (OInteger lo hi cs) v = integer_type lo hi cs v"
| "convert_type str1 (OList t bounds) v =
     (case v of
        PList vs \<Rightarrow> Inr v
      | PStr s \<Rightarrow>
          bind_r (comma_items CHR ''['' CHR '']'' bounds (\<lambda>x. convert_type str1 t (PStr (strip_by byte_space x))) s)
            (\<lambda>vs. Inr (PList vs))
      | _ \<Rightarrow> Inl AttributeError)"
| "convert_type str1 (ODict t bounds) v =
     (case v of
        PDict d \<Rightarrow> Inr v
      | PStr s \<Rightarrow>
          bind_r (between CHR 0x7B CHR 0x7D bounds (strip_by byte_space s)) (\<lambda>w.
            if w = [] then Inr (PDict [])
            else bind_r (take_pairs (\<lambda>x. convert_type str1 t (PStr x)) (split_on CHR '','' w) [])
                   (\<lambda>d. Inr (PDict d)))
      | _ \<Rightarrow> Inl AttributeError)"
| "convert_type str1 OHostname v =
     (case v of
        PStr s \<Rightarrow> bind_r (hostname_type s) (\<lambda>w. Inr (PStr w))
      | PList [] \<Rightarrow> Inl ValueError
      | PDict [] \<Rightarrow> Inl ValueError
      | PList _ \<Rightarrow> Inl AttributeError
      | PDict _ \<Rightarrow> Inl AttributeError
      | _ \<Rightarrow> Inl TypeError)"

section \<open>Values of a type\<close>

text \<open>What a program may rely on in the value of an option of the type.\<close>

fun typed_value :: "opt_type \<Rightarrow> pyval \<Rightarrow> bool" where
  "typed_value (OString cs q ic n) (PStr s) \<longleftrightarrow> (0 < n \<longrightarrow> length s \<le> n)
     \<and> (case cs of None \<Rightarrow> True | Some xs \<Rightarrow> if ic then lower s \<in> set (map lower xs) else s \<in> set xs)"
| "typed_value OBoolean (PBool b) \<longleftrightarrow> True"
| "typed_value (OInteger lo hi cs) (PInt n) \<longleftrightarrow> in_bounds lo hi cs n"
| "typed_value (OInteger lo hi cs) PNone \<longleftrightarrow> True"
| "typed_value (OList t b) (PList vs) \<longleftrightarrow> list_all (typed_value t) vs"
| "typed_value (ODict t b) (PDict d) \<longleftrightarrow>
     dict_ok d \<and> list_all (\<lambda>(k, v). k \<noteq> [] \<and> typed_value t v) d"
| "typed_value OHostname (PStr s) \<longleftrightarrow> length s \<le> 253 \<and> list_all host_segment (split_on CHR ''.'' s)"
| "typed_value t v \<longleftrightarrow> False"

lemma take_item_converted: "take_item conv part rest = Inr (v, rest1) \<Longrightarrow> \<exists>x. conv x = Inr v"
  by (induction conv part rest rule: take_item.induct) (auto split: sum.splits if_splits)

lemma take_items_converted: "take_items conv ps = Inr vs \<Longrightarrow> v \<in> set vs \<Longrightarrow> \<exists>x. conv x = Inr v"
  by (induction conv ps arbitrary: vs rule: take_items.induct)
    (auto simp: result_simps dest: take_item_converted split: sum.splits prod.splits)

lemma take_pairs_converted:
  assumes "take_pairs conv ps d = Inr e" "dict_ok d" "\<And>k v. (k, v) \<in> set d \<Longrightarrow> k \<noteq> [] \<and> P v"
    "\<And>x v. conv x = Inr v \<Longrightarrow> P v"
  shows "dict_ok e \<and> (\<forall>(k, v) \<in> set e. k \<noteq> [] \<and> P v)"
  using assms
proof (induction conv ps d rule: take_pairs.induct)
  case (2 conv p rest d)
  from 2(2) obtain k v rest1 where t: "take_item (dict_pair conv) p rest = Inr ((k, v), rest1)"
    "k \<noteq> []" "\<not> dhas d k" "take_pairs conv rest1 (dset k v d) = Inr e"
    by (auto split: sum.splits prod.splits if_splits)
  from take_item_converted [OF t(1)] obtain x where "conv x = Inr v"
    by (auto simp: dict_pair_def result_simps split: if_splits)
  then have P: "P v" by (rule 2(5))
  have "dict_ok (dset k v d)" using 2(3) t(3) by (simp add: dict_ok_dset)
  moreover have "k' \<noteq> [] \<and> P v'" if "(k', v') \<in> set (dset k v d)" for k' v'
    using set_dset [OF that] 2(4) t(2) P by auto
  ultimately show ?case using 2(1) [OF t(1) refl refl] t 2(5) by auto
qed auto

text \<open>
  C32: The value that an option takes from the text of a file has its type. A string has at most
  the given length and is one of the choices, a number is in the bounds or missing, the items of
  a list and the values of a dictionary have the item type, at any depth, and a dictionary has no key
  twice and no empty one.
\<close>

theorem option_value_typed:
  "convert_type str1 t (PStr s) = Inr v \<Longrightarrow> (\<And>x. str1 (PStr x) = x) \<Longrightarrow> typed_value t v"
proof (induction t arbitrary: s v)
  case (OString cs q ic n)
  then show ?case by (cases cs) (auto simp: string_type_def result_simps split: option.splits if_splits)
next
  case OBoolean
  then show ?case by (auto simp: boolean_type_def split: if_splits)
next
  case (OInteger lo hi cs)
  then show ?case by (auto simp: integer_type_def split: if_splits option.splits)
next
  case (OList t b)
  have "\<forall>w \<in> set vs. typed_value t w" if "take_items (\<lambda>x. convert_type str1 t (PStr (strip_by byte_space x))) ps = Inr vs" for ps vs
    using take_items_converted [OF that] OList.IH OList.prems(2) by blast
  with OList.prems(1) show ?case by (auto simp: comma_items_def result_simps list_all_iff split: if_splits)
next
  case (ODict t b)
  have typed: "convert_type str1 t (PStr x) = Inr w \<Longrightarrow> typed_value t w" for x w
    using ODict.IH ODict.prems(2) by blast
  have "dict_ok d \<and> (\<forall>(k, v) \<in> set d. k \<noteq> [] \<and> typed_value t v)"
    if "take_pairs (\<lambda>x. convert_type str1 t (PStr x)) ps [] = Inr d" for ps d
    by (rule take_pairs_converted [OF that]) (simp_all add: typed)
  with ODict.prems(1) show ?case by (auto simp: result_simps list_all_iff split: if_splits)
next
  case OHostname
  then show ?case by (auto simp: hostname_type_def result_simps Let_def split: if_splits)
qed

lemma option_value_typed_witness:
  "convert_type (\<lambda>v. case v of PStr x \<Rightarrow> x | _ \<Rightarrow> []) (OList (OInteger (Some 0) None None) False) (PStr ''7, 12'')
     = Inr (PList [PInt 7, PInt 12])
   \<and> typed_value (OList (OInteger (Some 0) None None) False) (PList [PInt 7, PInt 12])"
proof -
  have "convert_type (\<lambda>v. case v of PStr x \<Rightarrow> x | _ \<Rightarrow> []) (OList (OInteger (Some 0) None None) False) (PStr ''7, 12'')
     = Inr (PList [PInt 7, PInt 12])"
    by code_simp
  from option_value_typed [OF this] this show ?thesis by simp
qed

end
