(* ===== verification/ConfOpts.thy ===== *)
theory ConfOpts
  imports ConfTypes
begin

text \<open>
  The options of a program (\<^verbatim>\<open>oslo_config/cfg.py\<close>): registration in groups, overrides and
  defaults, the look-up of a value in the command line and the files, template substitution, the
  conversion to the type of the option, the cache in front of it all, and the reloading of
  files. A look-up may call itself without end, when an option refers to itself: it has a bound
  on its depth, and \<open>None\<close> stands for the recursion error of Python. \<open>str1\<close> is Python's \<^verbatim>\<open>str\<close>.
  Parsing the command line is not modelled; its values are given. Only the options of the
  model's types are; sub-commands are not.
\<close>

section \<open>Options and groups\<close>

record opt =
  o_name :: string
  o_dest :: string
  o_type :: opt_type
  o_default :: pyval
  o_multi :: bool
  o_positional :: bool
  o_required :: bool
  o_mutable :: bool
  o_deprecated :: "(string option \<times> string option) list"

record opt_info =
  i_opt :: opt
  i_override :: "pyval option"
  i_default :: "pyval option"

type_synonym opts = "(string \<times> opt_info) list"

text \<open>What was parsed: the values of the command line by destination, and the files.\<close>

record conf_ns =
  cli_values :: pydict
  file_values :: namespace

record conf =
  c_opts :: opts
  c_groups :: "(string \<times> opts) list"
  c_namespace :: "conf_ns option"
  c_mutable_ns :: "conf_ns option"
  c_validate_defaults :: bool

definition no_such_opt :: exn where "no_such_opt = OtherError ''NoSuchOptError''"
definition no_such_group :: exn where "no_such_group = OtherError ''NoSuchGroupError''"
definition duplicate_opt :: exn where "duplicate_opt = OtherError ''DuplicateOptError''"
definition config_file_value :: exn where "config_file_value = OtherError ''ConfigFileValueError''"
definition template_error :: exn where "template_error = OtherError ''TemplateSubstitutionError''"
definition required_opt :: exn where "required_opt = OtherError ''RequiredOptError''"

definition is_value_error :: "exn \<Rightarrow> bool" where
  "is_value_error e \<longleftrightarrow> e = ValueError \<or> e = config_file_value"

definition new_info :: "opt \<Rightarrow> opt_info" where
  "new_info opt1 = \<lparr>i_opt = opt1, i_override = None, i_default = None\<rparr>"

text \<open>An option may be registered again, but not another one under its destination.\<close>

definition is_opt_registered :: "opts \<Rightarrow> opt \<Rightarrow> bool result" where
  "is_opt_registered os opt1 =
     (case dget os (o_dest opt1) of
        None \<Rightarrow> Inr False
      | Some i \<Rightarrow> if i_opt i \<noteq> opt1 then Inl duplicate_opt else Inr True)"

definition disallow_names :: "string list" where
  "disallow_names = [''project'', ''prog'', ''version'', ''usage'', ''default_config_files'']"

definition add_opt :: "opt \<Rightarrow> opts \<Rightarrow> (bool \<times> opts) result" where
  "add_opt opt1 os =
     bind_r (is_opt_registered os opt1) (\<lambda>there.
       Inr (if there then (False, os) else (True, dset (o_dest opt1) (new_info opt1) os)))"

definition register_opt :: "opt \<Rightarrow> string option \<Rightarrow> conf \<Rightarrow> bool result \<times> conf" where
  "register_opt opt1 grp C =
     (case grp of
        Some g \<Rightarrow>
          (let C1 = (if dhas (c_groups C) g then C else C\<lparr>c_groups := dset g [] (c_groups C)\<rparr>)
           in case add_opt opt1 (dgetd (c_groups C1) g []) of
                Inl e \<Rightarrow> (Inl e, C1)
              | Inr (b, os) \<Rightarrow> (Inr b, C1\<lparr>c_groups := dset g os (c_groups C1)\<rparr>))
      | None \<Rightarrow>
          if o_name opt1 \<in> set disallow_names then (Inl ValueError, C)
          else (case add_opt opt1 (c_opts C) of
                  Inl e \<Rightarrow> (Inl e, C)
                | Inr (b, os) \<Rightarrow> (Inr b, C\<lparr>c_opts := os\<rparr>)))"

definition get_opt_info :: "conf \<Rightarrow> string \<Rightarrow> string option \<Rightarrow> opt_info result" where
  "get_opt_info C name grp =
     (case grp of
        None \<Rightarrow> (case dget (c_opts C) name of None \<Rightarrow> Inl no_such_opt | Some i \<Rightarrow> Inr i)
      | Some g \<Rightarrow>
          (case dget (c_groups C) g of
             None \<Rightarrow> Inl no_such_group
           | Some os \<Rightarrow> (case dget os name of None \<Rightarrow> Inl no_such_opt | Some i \<Rightarrow> Inr i)))"

definition put_opt_info :: "string \<Rightarrow> string option \<Rightarrow> opt_info \<Rightarrow> conf \<Rightarrow> conf" where
  "put_opt_info name grp i C =
     (case grp of
        None \<Rightarrow> C\<lparr>c_opts := dset name i (c_opts C)\<rparr>
      | Some g \<Rightarrow> C\<lparr>c_groups := dset g (dset name i (dgetd (c_groups C) g [])) (c_groups C)\<rparr>)"

section \<open>Conversion\<close>

definition convert_value :: "(pyval \<Rightarrow> string) \<Rightarrow> pyval \<Rightarrow> opt \<Rightarrow> pyval result" where
  "convert_value str1 v opt1 =
     (if o_multi opt1 then
        (case v of
           PList vs \<Rightarrow> bind_r (map_r (convert_type str1 (o_type opt1)) vs) (\<lambda>ws. Inr (PList ws))
         | PStr s \<Rightarrow> bind_r (map_r (\<lambda>c. convert_type str1 (o_type opt1) (PStr [c])) s) (\<lambda>ws. Inr (PList ws))
         | PDict d \<Rightarrow> bind_r (map_r (\<lambda>k. convert_type str1 (o_type opt1) (PStr (fst k))) d) (\<lambda>ws. Inr (PList ws))
         | _ \<Rightarrow> Inl TypeError)
      else convert_type str1 (o_type opt1) v)"

text \<open>\<^verbatim>\<open>set_override\<close> and \<^verbatim>\<open>set_default\<close>.\<close>

definition enforced :: "(pyval \<Rightarrow> string) \<Rightarrow> bool \<Rightarrow> pyval \<Rightarrow> opt \<Rightarrow> pyval result" where
  "enforced str1 enforce_type v opt1 =
     (if enforce_type \<and> v \<noteq> PNone then convert_value str1 v opt1 else Inr v)"

definition set_override ::
  "(pyval \<Rightarrow> string) \<Rightarrow> string \<Rightarrow> pyval \<Rightarrow> string option \<Rightarrow> bool \<Rightarrow> conf \<Rightarrow> conf result" where
  "set_override str1 name v grp enforce_type C =
     bind_r (get_opt_info C name grp) (\<lambda>i.
     bind_r (enforced str1 enforce_type v (i_opt i)) (\<lambda>w.
       Inr (put_opt_info name grp (i\<lparr>i_override := Some w\<rparr>) C)))"

definition set_default ::
  "(pyval \<Rightarrow> string) \<Rightarrow> string \<Rightarrow> pyval \<Rightarrow> string option \<Rightarrow> bool \<Rightarrow> conf \<Rightarrow> conf result" where
  "set_default str1 name v grp enforce_type C =
     bind_r (get_opt_info C name grp) (\<lambda>i.
     bind_r (enforced str1 enforce_type v (i_opt i)) (\<lambda>w.
       Inr (put_opt_info name grp (i\<lparr>i_default := Some w\<rparr>) C)))"

definition clear_override :: "string \<Rightarrow> string option \<Rightarrow> conf \<Rightarrow> conf result" where
  "clear_override name grp C =
     bind_r (get_opt_info C name grp) (\<lambda>i. Inr (put_opt_info name grp (i\<lparr>i_override := None\<rparr>) C))"

definition clear_default :: "string \<Rightarrow> string option \<Rightarrow> conf \<Rightarrow> conf result" where
  "clear_default name grp C =
     bind_r (get_opt_info C name grp) (\<lambda>i. Inr (put_opt_info name grp (i\<lparr>i_default := None\<rparr>) C))"

section \<open>Parsed values\<close>

fun get_cli_value :: "pydict \<Rightarrow> bool \<Rightarrow> (string option \<times> string) list \<Rightarrow> pyval result" where
  "get_cli_value d positional [] = Inl (KeyError [])"
| "get_cli_value d positional ((g, n) # names) =
     (let v = dgetd d (case g of None \<Rightarrow> n | Some x \<Rightarrow> x @ ''_'' @ n) PNone
      in if v \<noteq> PNone \<and> \<not> (positional \<and> \<not> truthy v) then Inr v else get_cli_value d positional names)"

definition get_value :: "conf_ns \<Rightarrow> (string option \<times> string) list \<Rightarrow> bool \<Rightarrow> bool \<Rightarrow> pyval result" where
  "get_value ns names multi positional =
     (case get_cli_value (cli_values ns) positional names of
        Inr v \<Rightarrow> Inr v
      | Inl e \<Rightarrow>
          bind_r (get_file_value (file_values ns) names multi True) (\<lambda>vs.
            Inr (if multi then PList (map PStr vs) else PStr (last vs))))"

definition opt_names :: "opt \<Rightarrow> string option \<Rightarrow> (string option \<times> string) list" where
  "opt_names opt1 group_name =
     (group_name, o_dest opt1)
     # map (\<lambda>(dname, dgroup). (if dgroup \<noteq> None \<and> dgroup \<noteq> Some [] then dgroup else group_name,
                                case dname of Some (c # cs) \<Rightarrow> c # cs | _ \<Rightarrow> o_dest opt1))
         (filter (\<lambda>(dname, dgroup). dname \<noteq> None \<and> dname \<noteq> Some [] \<or> dgroup \<noteq> None \<and> dgroup \<noteq> Some []) (o_deprecated opt1))"

definition get_from_namespace :: "opt \<Rightarrow> conf_ns \<Rightarrow> string option \<Rightarrow> pyval result" where
  "get_from_namespace opt1 ns group_name =
     get_value ns (opt_names opt1 group_name) (o_multi opt1) (o_positional opt1)"

section \<open>Templates\<close>

text \<open>\<^verbatim>\<open>string.Template\<close> with the identifiers of the class: \<open>$name\<close>, \<open>${name}\<close>, \<open>$$\<close>.\<close>

datatype piece = Text string | Ref string

definition id_start :: "char \<Rightarrow> bool" where
  "id_start c \<longleftrightarrow> c = CHR ''_'' \<or> (let n = (of_char c :: nat) in 65 \<le> n \<and> n \<le> 90 \<or> 97 \<le> n \<and> n \<le> 122)"

definition id_char :: "char \<Rightarrow> bool" where
  "id_char c \<longleftrightarrow> id_start c \<or> c = CHR ''.'' \<or> is_digit c"

definition dollar :: char where "dollar = CHR ''$''"

function pieces :: "string \<Rightarrow> piece list" where
  "pieces [] = []"
| "pieces (c # s) =
     (if c \<noteq> dollar then Text [c] # pieces s
      else if s \<noteq> [] \<and> hd s = dollar then Text [dollar] # pieces (tl s)
      else if s \<noteq> [] \<and> id_start (hd s) then Ref (takeWhile id_char s) # pieces (dropWhile id_char s)
      else if s \<noteq> [] \<and> hd s = CHR 0x7B \<and> tl s \<noteq> [] \<and> id_start (hd (tl s))
              \<and> dropWhile id_char (tl s) \<noteq> [] \<and> hd (dropWhile id_char (tl s)) = CHR 0x7D
      then Ref (takeWhile id_char (tl s)) # pieces (tl (dropWhile id_char (tl s)))
      else Text [dollar] # pieces s)"
  by pat_completeness auto
termination
proof (relation "measure length", goal_cases)
  case (4 c s)
  then show ?case using length_dropWhile_le [of id_char s] by simp
next
  case (5 c s)
  then show ?case using length_dropWhile_le [of id_char "tl s"] by (cases s) auto
qed auto

text \<open>A backslash and a dollar sign count as two dollar signs.\<close>

fun escape_dollar :: "string \<Rightarrow> string" where
  "escape_dollar (a # b # s) =
     (if a = CHR 0x5C \<and> b = dollar then dollar # dollar # escape_dollar s else a # escape_dollar (b # s))"
| "escape_dollar s = s"

section \<open>Look-up\<close>

text \<open>
  The cache, and steps that use it: \<open>None\<close> is a recursion too deep, an exception keeps what was
  cached before it.
\<close>

datatype confval = Value pyval | GroupAttr string

type_synonym cache = "((string option \<times> string) \<times> confval) list"

type_synonym 'a cached = "cache \<Rightarrow> ('a result \<times> cache) option"

definition retc :: "'a result \<Rightarrow> 'a cached" where
  "retc r = (\<lambda>c. Some (r, c))"

definition bindc :: "'a cached \<Rightarrow> ('a result \<Rightarrow> 'b cached) \<Rightarrow> 'b cached" where
  "bindc m f = (\<lambda>c. case m c of None \<Rightarrow> None | Some (r, c1) \<Rightarrow> f r c1)"

definition thenc :: "'a cached \<Rightarrow> ('a \<Rightarrow> 'b cached) \<Rightarrow> 'b cached" where
  "thenc m f = bindc m (\<lambda>r. case r of Inl e \<Rightarrow> retc (Inl e) | Inr x \<Rightarrow> f x)"

text \<open>\<^verbatim>\<open>_substitute\<close>, where \<open>look\<close> finds the value of a name in a template.\<close>

fun fill :: "(string \<Rightarrow> string cached) \<Rightarrow> piece list \<Rightarrow> string cached" where
  "fill look [] = retc (Inr [])"
| "fill look (Text t # ps) = thenc (fill look ps) (\<lambda>r. retc (Inr (t @ r)))"
| "fill look (Ref n # ps) = thenc (look n) (\<lambda>t. thenc (fill look ps) (\<lambda>r. retc (Inr (t @ r))))"

fun substitute :: "(string \<Rightarrow> string cached) \<Rightarrow> pyval \<Rightarrow> pyval cached"
  and substitute_list :: "(string \<Rightarrow> string cached) \<Rightarrow> pyval list \<Rightarrow> pyval list cached"
  and substitute_dict :: "(string \<Rightarrow> string cached) \<Rightarrow> pydict \<Rightarrow> pydict \<Rightarrow> pydict cached" where
  "substitute look (PStr s) = thenc (fill look (pieces (escape_dollar s))) (\<lambda>t. retc (Inr (PStr t)))"
| "substitute look (PList vs) = thenc (substitute_list look vs) (\<lambda>ws. retc (Inr (PList ws)))"
| "substitute look (PDict d) = thenc (substitute_dict look d []) (\<lambda>e. retc (Inr (PDict e)))"
| "substitute look v = retc (Inr v)"
| "substitute_list look [] = retc (Inr [])"
| "substitute_list look (v # vs) =
     thenc (substitute look v) (\<lambda>w. thenc (substitute_list look vs) (\<lambda>ws. retc (Inr (w # ws))))"
| "substitute_dict look [] e = retc (Inr e)"
| "substitute_dict look ((k, v) # d) e =
     thenc (fill look (pieces (escape_dollar k))) (\<lambda>j.
     thenc (substitute look v) (\<lambda>w. substitute_dict look d (dset j w e)))"

text \<open>
  \<^verbatim>\<open>StrSubWrapper.__getitem__\<close>: a name with a dot is an option of a group, else of the group at hand;
  an option that is not there is looked for under the whole name.
\<close>

type_synonym lookup = "string \<Rightarrow> string option \<Rightarrow> conf_ns option \<Rightarrow> confval cached"

definition split_reference :: "string option \<Rightarrow> string \<Rightarrow> string option \<times> string" where
  "split_reference grp key =
     (if CHR ''.'' \<in> set key
      then (Some (takeWhile (\<lambda>c. c \<noteq> CHR ''.'') key), tl (dropWhile (\<lambda>c. c \<noteq> CHR ''.'') key))
      else (grp, key))"

definition referenced :: "(pyval \<Rightarrow> string) \<Rightarrow> lookup \<Rightarrow> string option \<Rightarrow> conf_ns option \<Rightarrow> string \<Rightarrow> string cached" where
  "referenced str1 get1 grp ns key =
     (case split_reference grp key of (g, option1) \<Rightarrow>
        thenc (bindc (get1 option1 g ns) (\<lambda>r. if r = Inl no_such_opt then get1 key None ns else retc r))
          (\<lambda>v. case v of GroupAttr _ \<Rightarrow> retc (Inl template_error) | Value w \<Rightarrow> retc (Inr (str1 w))))"

definition convert_found ::
  "(pyval \<Rightarrow> string) \<Rightarrow> lookup \<Rightarrow> string option \<Rightarrow> conf_ns option \<Rightarrow> opt \<Rightarrow> pyval \<Rightarrow> confval cached" where
  "convert_found str1 get1 grp ns opt1 v =
     thenc (substitute (referenced str1 get1 grp ns) v)
       (\<lambda>w. retc (bind_r (convert_value str1 w opt1) (\<lambda>x. Inr (Value x))))"

definition plain_substituted :: "(pyval \<Rightarrow> string) \<Rightarrow> lookup \<Rightarrow> pyval \<Rightarrow> confval cached" where
  "plain_substituted str1 get1 v =
     thenc (substitute (referenced str1 get1 None None) v) (\<lambda>w. retc (Inr (Value w)))"

text \<open>The default of an option, with that set for it before.\<close>

definition from_default ::
  "(pyval \<Rightarrow> string) \<Rightarrow> lookup \<Rightarrow> conf \<Rightarrow> string option \<Rightarrow> conf_ns option \<Rightarrow> opt_info \<Rightarrow> confval cached" where
  "from_default str1 get1 C grp ns i =
     (let d = o_default (i_opt i) in
      case i_default i of
        Some v \<Rightarrow> plain_substituted str1 get1 v
      | None \<Rightarrow>
          thenc (if c_validate_defaults C \<and> d \<noteq> PNone then
                   bindc (convert_found str1 get1 grp ns (i_opt i) d) (\<lambda>r.
                     case r of Inl e \<Rightarrow> retc (Inl (if is_value_error e then config_file_value else e))
                             | Inr _ \<Rightarrow> retc (Inr ()))
                 else retc (Inr ()))
            (\<lambda>_. if d \<noteq> PNone then convert_found str1 get1 grp ns (i_opt i) d else retc (Inr (Value PNone))))"

definition is_key_error :: "exn \<Rightarrow> bool" where
  "is_key_error e = (case e of KeyError _ \<Rightarrow> True | _ \<Rightarrow> False)"

text \<open>Which parse a look-up reads: the one given, for a mutable option the reloaded one, else the first.\<close>

definition effective_ns :: "conf \<Rightarrow> opt \<Rightarrow> conf_ns option \<Rightarrow> conf_ns option" where
  "effective_ns C opt1 ns =
     (let ns1 = (if o_mutable opt1 \<and> ns = None then c_mutable_ns C else ns)
      in if ns1 = None then c_namespace C else ns1)"

text \<open>
  \<^verbatim>\<open>_do_get\<close>: the override, then what was parsed, then the default. A missing value goes on to the
  default, as does any key error of the conversion.
\<close>

definition do_get :: "(pyval \<Rightarrow> string) \<Rightarrow> lookup \<Rightarrow> conf \<Rightarrow> string \<Rightarrow> string option \<Rightarrow> conf_ns option \<Rightarrow> confval cached" where
  "do_get str1 get1 C name grp ns =
     (if grp = None \<and> dhas (c_groups C) name then retc (Inr (GroupAttr name))
      else case get_opt_info C name grp of
        Inl e \<Rightarrow> retc (Inl e)
      | Inr i \<Rightarrow>
          (case i_override i of
             Some v \<Rightarrow> plain_substituted str1 get1 v
           | None \<Rightarrow>
               (case effective_ns C (i_opt i) ns of
                  None \<Rightarrow> from_default str1 get1 C grp None i
                | Some ns2 \<Rightarrow>
                    bindc (thenc (retc (get_from_namespace (i_opt i) ns2 grp))
                             (convert_found str1 get1 grp (Some ns2) (i_opt i)))
                      (\<lambda>r. case r of
                         Inr v \<Rightarrow> retc (Inr v)
                       | Inl e \<Rightarrow>
                           if is_key_error e then from_default str1 get1 C grp (Some ns2) i
                           else retc (Inl (if is_value_error e then config_file_value else e))))))"

text \<open>\<^verbatim>\<open>_get\<close>: the cache is read when no parse is given, and written in any case.\<close>

definition cache_result :: "string option \<times> string \<Rightarrow> confval cached \<Rightarrow> confval cached" where
  "cache_result key m = (\<lambda>c. case m c of
     Some (Inr v, c1) \<Rightarrow> Some (Inr v, dset key v c1)
   | r \<Rightarrow> r)"

fun get_opt :: "(pyval \<Rightarrow> string) \<Rightarrow> conf \<Rightarrow> nat \<Rightarrow> lookup" where
  "get_opt str1 C 0 name grp ns = (\<lambda>c. None)"
| "get_opt str1 C (Suc n) name grp ns = (\<lambda>c.
     case (if ns = None then dget c (grp, name) else None) of
       Some v \<Rightarrow> Some (Inr v, c)
     | None \<Rightarrow> cache_result (grp, name) (do_get str1 (get_opt str1 C n) C name grp ns) c)"

text \<open>\<^verbatim>\<open>__getattr__\<close>: any error but a wrong value is an option that is not there, a recursion too deep as well.\<close>

definition conf_getattr :: "(pyval \<Rightarrow> string) \<Rightarrow> conf \<Rightarrow> nat \<Rightarrow> string \<Rightarrow> cache \<Rightarrow> confval result" where
  "conf_getattr str1 C n name c =
     (case get_opt str1 C n name None None c of
        None \<Rightarrow> Inl no_such_opt
      | Some (Inr v, c1) \<Rightarrow> Inr v
      | Some (Inl e, c1) \<Rightarrow> Inl (if is_value_error e then e else no_such_opt))"

section \<open>Reloading\<close>

text \<open>All options with their group; the required ones must have a value.\<close>

definition all_opt_infos :: "conf \<Rightarrow> (opt_info \<times> string option) list" where
  "all_opt_infos C =
     map (\<lambda>(k, i). (i, None)) (c_opts C)
     @ concat (map (\<lambda>(g, os). map (\<lambda>(k, i). (i, Some g)) os) (c_groups C))"

fun check_required :: "lookup \<Rightarrow> conf_ns option \<Rightarrow> (opt_info \<times> string option) list \<Rightarrow> unit cached" where
  "check_required get1 ns [] = retc (Inr ())"
| "check_required get1 ns ((i, g) # is) =
     (if o_required (i_opt i) \<and> i_default i = None \<and> i_override i = None then
        thenc (get1 (o_dest (i_opt i)) g ns)
          (\<lambda>v. if v = Value PNone then retc (Inl required_opt) else check_required get1 ns is)
      else check_required get1 ns is)"

definition check_required_opts :: "(pyval \<Rightarrow> string) \<Rightarrow> nat \<Rightarrow> conf \<Rightarrow> conf_ns option \<Rightarrow> unit cached" where
  "check_required_opts str1 n C ns = check_required (get_opt str1 C n) ns (all_opt_infos C)"

text \<open>
  \<open>fresh\<close> is what parsing the command line and the files again gives. \<^verbatim>\<open>reload_config_files\<close> clears the
  cache at its end, \<^verbatim>\<open>mutate_config_files\<close> at its start.
\<close>

text \<open>The errors of the module, which reloading turns into its answer; others go on to the caller.\<close>

definition is_conf_error :: "exn \<Rightarrow> bool" where
  "is_conf_error e \<longleftrightarrow>
     e \<in> {no_such_opt, no_such_group, duplicate_opt, config_file_value, template_error, required_opt,
          OtherError ''ConfigFilesNotFoundError'', OtherError ''ConfigFilesPermissionDeniedError'',
          OtherError ''ConfigFileParseError'', OtherError ''SystemExit''}"

definition reload_config_files ::
  "(pyval \<Rightarrow> string) \<Rightarrow> nat \<Rightarrow> conf_ns result \<Rightarrow> conf \<Rightarrow> cache \<Rightarrow> (bool result \<times> conf \<times> cache) option" where
  "reload_config_files str1 n fresh C c =
     (case fresh of
        Inl e \<Rightarrow> Some (if is_conf_error e then (Inr False, C, []) else (Inl e, C, c))
      | Inr ns \<Rightarrow>
          (case check_required_opts str1 n C (Some ns) c of
             None \<Rightarrow> None
           | Some (Inl e, c1) \<Rightarrow> Some (if is_conf_error e then (Inr False, C, []) else (Inl e, C, c1))
           | Some (Inr _, _) \<Rightarrow> Some (Inr True, C\<lparr>c_namespace := Some ns\<rparr>, [])))"

definition found_or_none :: "pyval result \<Rightarrow> pyval result" where
  "found_or_none r = (case r of Inl e \<Rightarrow> if is_key_error e then Inr PNone else Inl e | Inr v \<Rightarrow> Inr v)"

definition diff_ns :: "conf_ns \<Rightarrow> conf_ns \<Rightarrow> conf \<Rightarrow> ((string option \<times> string) \<times> (pyval \<times> pyval)) list result" where
  "diff_ns old_ns new_ns C =
     fold_r (\<lambda>(i, g) diff.
         bind_r (found_or_none (get_from_namespace (i_opt i) old_ns g)) (\<lambda>old.
         bind_r (found_or_none (get_from_namespace (i_opt i) new_ns g)) (\<lambda>new.
           Inr (if old \<noteq> new then dset (g, o_name (i_opt i)) (old, new) diff else diff))))
       (filter (\<lambda>(i, g). o_mutable (i_opt i)) (all_opt_infos C)) []"

definition mutate_config_files ::
  "(pyval \<Rightarrow> string) \<Rightarrow> nat \<Rightarrow> conf_ns result \<Rightarrow> conf \<Rightarrow>
   (((string option \<times> string) \<times> (pyval \<times> pyval)) list result \<times> conf \<times> cache) option" where
  "mutate_config_files str1 n fresh C =
     (case fresh of
        Inl e \<Rightarrow> Some (Inl e, C, [])
      | Inr ns \<Rightarrow>
          (case check_required_opts str1 n C (Some ns) [] of
             None \<Rightarrow> None
           | Some (Inl e, c) \<Rightarrow> Some (Inl e, C, c)
           | Some (Inr _, c) \<Rightarrow>
               Some (if c_namespace C = None \<and> list_ex (\<lambda>(i, g). \<not> o_mutable (i_opt i)) (all_opt_infos C)
                     then Inl AttributeError
                     else (case (case c_mutable_ns C of Some m \<Rightarrow> Some m | None \<Rightarrow> c_namespace C) of
                             Some old \<Rightarrow> diff_ns old ns C
                           | None \<Rightarrow>
                               if list_ex (\<lambda>(i, g). o_mutable (i_opt i)) (all_opt_infos C) then Inl AttributeError
                               else Inr []),
                     C\<lparr>c_mutable_ns := Some ns\<rparr>, c)))"

section \<open>The look-up without a cache\<close>

fun plain_get :: "(pyval \<Rightarrow> string) \<Rightarrow> conf \<Rightarrow> nat \<Rightarrow> lookup" where
  "plain_get str1 C 0 name grp ns = (\<lambda>c. None)"
| "plain_get str1 C (Suc n) name grp ns = do_get str1 (plain_get str1 C n) C name grp ns"

text \<open>A step that neither reads nor writes the cache.\<close>

definition pure_step :: "'a result option \<Rightarrow> 'a cached" where
  "pure_step x = (\<lambda>c. map_option (\<lambda>r. (r, c)) x)"

text \<open>
  \<open>refines V j m M\<close>: over caches with \<open>V\<close>, the step \<open>m\<close> gives what the plain steps \<open>M k\<close> give for
  some depth \<open>k\<close>, keeps \<open>V\<close>, and gives a result where \<open>M j\<close> has one. More depth does not change
  a result.
\<close>

definition refines :: "(cache \<Rightarrow> bool) \<Rightarrow> nat \<Rightarrow> 'a cached \<Rightarrow> (nat \<Rightarrow> 'a cached) \<Rightarrow> bool" where
  "refines V j m M \<longleftrightarrow>
     (\<forall>k. \<exists>x. M k = pure_step x) \<and>
     (\<forall>k r. M k = pure_step (Some r) \<longrightarrow> M (Suc k) = pure_step (Some r)) \<and>
     (\<forall>c r c1. V c \<longrightarrow> m c = Some (r, c1) \<longrightarrow> V c1 \<and> (\<exists>k. M k = pure_step (Some r))) \<and>
     (\<forall>c r. V c \<longrightarrow> M j = pure_step (Some r) \<longrightarrow> (\<exists>c1. m c = Some (r, c1)))"

lemma pure_step_inject [simp]: "pure_step x = pure_step y \<longleftrightarrow> x = y"
proof
  assume "pure_step x = pure_step y"
  from fun_cong [OF this, of "[]"] show "x = y" by (cases x; cases y) (simp_all add: pure_step_def)
qed simp

lemma retc_pure: "retc r = pure_step (Some r)"
  by (simp add: retc_def pure_step_def)

lemma bindc_pure: "bindc (pure_step x) f = (case x of None \<Rightarrow> pure_step None | Some r \<Rightarrow> f r)"
  by (cases x) (simp_all add: bindc_def pure_step_def)

lemma refines_mono:
  assumes "refines V j m M" "M k = pure_step (Some r)" "k \<le> l"
  shows "M l = pure_step (Some r)"
  using assms(3)
proof (induction rule: dec_induct)
  case base
  show ?case by (rule assms(2))
next
  case (step i)
  then show ?case using assms(1) unfolding refines_def by blast
qed

lemma refines_retc: "refines V j (retc r) (\<lambda>k. retc r)"
  unfolding refines_def retc_pure pure_step_inject by (simp add: pure_step_def)

lemma refines_bindc:
  assumes m: "refines V j m M" and f: "\<And>r. refines V j (f r) (F r)"
  shows "refines V j (bindc m f) (\<lambda>k. bindc (M k) (\<lambda>r. F r k))"
  unfolding refines_def
proof (intro conjI allI impI)
  fix k
  obtain x where x: "M k = pure_step x" using m unfolding refines_def by blast
  have F: "\<exists>y. F r k = pure_step y" for r using f [of r] unfolding refines_def by blast
  then show "\<exists>x. bindc (M k) (\<lambda>r. F r k) = pure_step x" unfolding x bindc_pure by (auto split: option.splits)
  fix r assume r: "bindc (M k) (\<lambda>r. F r k) = pure_step (Some r)"
  then obtain y where y: "x = Some y" "F y k = pure_step (Some r)"
    unfolding x bindc_pure by (auto split: option.splits)
  then have "M k = pure_step (Some y)" using x by simp
  then have "M (Suc k) = pure_step (Some y)" by (rule refines_mono [OF m]) simp
  moreover have "F y (Suc k) = pure_step (Some r)" by (rule refines_mono [OF f y(2)]) simp
  ultimately show "bindc (M (Suc k)) (\<lambda>r. F r (Suc k)) = pure_step (Some r)" by (simp add: bindc_pure)
next
  fix c r c1 assume V: "V c" and run: "bindc m f c = Some (r, c1)"
  then obtain y c2 where y: "m c = Some (y, c2)" "f y c2 = Some (r, c1)"
    by (auto simp: bindc_def split: option.splits)
  obtain k1 where k1: "V c2" "M k1 = pure_step (Some y)" using m V y(1) unfolding refines_def by blast
  obtain k2 where k2: "V c1" "F y k2 = pure_step (Some r)" using f [of y] k1(1) y(2) unfolding refines_def by blast
  have "M (max k1 k2) = pure_step (Some y)" by (rule refines_mono [OF m k1(2)]) simp
  moreover have "F y (max k1 k2) = pure_step (Some r)" by (rule refines_mono [OF f k2(2)]) simp
  ultimately have "bindc (M (max k1 k2)) (\<lambda>r. F r (max k1 k2)) = pure_step (Some r)" by (simp add: bindc_pure)
  then show "\<exists>k. bindc (M k) (\<lambda>r. F r k) = pure_step (Some r)" by blast
  show "V c1" by (rule k2(1))
next
  fix c r assume V: "V c" and r: "bindc (M j) (\<lambda>r. F r j) = pure_step (Some r)"
  obtain x where x: "M j = pure_step x" using m unfolding refines_def by blast
  obtain y where y: "x = Some y" "F y j = pure_step (Some r)"
    using r unfolding x bindc_pure by (auto split: option.splits)
  obtain c2 where c2: "m c = Some (y, c2)" using m V x y(1) unfolding refines_def by blast
  have "V c2" using m V c2 unfolding refines_def by blast
  then obtain c1 where "f y c2 = Some (r, c1)" using f [of y] y(2) unfolding refines_def by blast
  with c2 show "\<exists>c1. bindc m f c = Some (r, c1)" by (simp add: bindc_def)
qed

lemma refines_thenc:
  assumes "refines V j m M" "\<And>x. refines V j (f x) (F x)"
  shows "refines V j (thenc m f) (\<lambda>k. thenc (M k) (\<lambda>x. F x k))"
  unfolding thenc_def
proof (rule refines_bindc [OF assms(1)])
  fix r :: "exn + 'a"
  show "refines V j (case r of Inl e \<Rightarrow> retc (Inl e) | Inr x \<Rightarrow> f x) (\<lambda>k. case r of Inl e \<Rightarrow> retc (Inl e) | Inr x \<Rightarrow> F x k)"
    using assms(2) by (cases r) (simp_all add: refines_retc)
qed

lemma refines_fill:
  assumes "\<And>n. refines V j (look n) (L n)"
  shows "refines V j (fill look ps) (\<lambda>k. fill (\<lambda>n. L n k) ps)"
proof (induction ps)
  case Nil
  then show ?case by (simp add: refines_retc)
next
  case (Cons q ps)
  show ?case
  proof (cases q)
    case (Text t)
    show ?thesis unfolding Text fill.simps by (rule refines_thenc [OF Cons refines_retc])
  next
    case (Ref n)
    show ?thesis unfolding Ref fill.simps by (rule refines_thenc [OF assms refines_thenc [OF Cons refines_retc]])
  qed
qed

lemma refines_substitute:
  shows "(\<And>n. refines V j (look n) (L n)) \<Longrightarrow> refines V j (substitute look v) (\<lambda>k. substitute (\<lambda>n. L n k) v)"
    "(\<And>n. refines V j (look n) (L n)) \<Longrightarrow> refines V j (substitute_list look vs) (\<lambda>k. substitute_list (\<lambda>n. L n k) vs)"
    "(\<And>n. refines V j (look n) (L n)) \<Longrightarrow> refines V j (substitute_dict look d e) (\<lambda>k. substitute_dict (\<lambda>n. L n k) d e)"
  by (induction look v and look vs and look d e rule: substitute_substitute_list_substitute_dict.induct)
    (auto simp only: substitute.simps substitute_list.simps substitute_dict.simps
      intro!: refines_retc refines_thenc refines_fill)

text \<open>Look-ups under a group and a parse that the condition \<open>ok\<close> admits.\<close>

lemma refines_referenced:
  assumes "\<And>n g ns. ok ns \<Longrightarrow> refines V j (get1 n g ns) (G n g ns)" "ok ns"
  shows "refines V j (referenced str1 get1 grp ns key) (\<lambda>k. referenced str1 (\<lambda>n g ns. G n g ns k) grp ns key)"
proof (cases "split_reference grp key")
  case (Pair g n)
  have inner: "refines V j (if r = Inl no_such_opt then get1 key None ns else retc r)
      (\<lambda>k. if r = Inl no_such_opt then G key None ns k else retc r)" for r
    using assms by (simp add: refines_retc)
  have last_step: "refines V j (case v of GroupAttr x \<Rightarrow> retc (Inl template_error) | Value w \<Rightarrow> retc (Inr (str1 w)))
      (\<lambda>k. case v of GroupAttr x \<Rightarrow> retc (Inl template_error) | Value w \<Rightarrow> retc (Inr (str1 w)))" for v
    by (cases v) (simp_all add: refines_retc)
  show ?thesis
    unfolding referenced_def Pair prod.case
    by (rule refines_thenc [OF refines_bindc [OF assms(1) [OF assms(2)] inner] last_step])
qed

lemma refines_convert_found:
  assumes "\<And>n g ns. ok ns \<Longrightarrow> refines V j (get1 n g ns) (G n g ns)" "ok ns"
  shows "refines V j (convert_found str1 get1 grp ns opt1 v) (\<lambda>k. convert_found str1 (\<lambda>n g ns. G n g ns k) grp ns opt1 v)"
  unfolding convert_found_def
  by (rule refines_thenc [OF refines_substitute(1) refines_retc]) (rule refines_referenced [of ok, OF assms])

lemma refines_plain_substituted:
  assumes "\<And>n g ns. ok ns \<Longrightarrow> refines V j (get1 n g ns) (G n g ns)" "ok None"
  shows "refines V j (plain_substituted str1 get1 v) (\<lambda>k. plain_substituted str1 (\<lambda>n g ns. G n g ns k) v)"
  unfolding plain_substituted_def
  by (rule refines_thenc [OF refines_substitute(1) refines_retc]) (rule refines_referenced [of ok, OF assms])

lemma refines_from_default:
  assumes "\<And>n g ns. ok ns \<Longrightarrow> refines V j (get1 n g ns) (G n g ns)" "ok None" "ok ns"
  shows "refines V j (from_default str1 get1 C grp ns i) (\<lambda>k. from_default str1 (\<lambda>n g ns. G n g ns k) C grp ns i)"
proof (cases "i_default i")
  case (Some v)
  show ?thesis unfolding from_default_def Some option.case Let_def by (rule refines_plain_substituted [of ok, OF assms(1,2)])
next
  case None
  note conv = refines_convert_found [of ok V j get1 G ns, OF assms(1,3)]
  have check: "refines V j
      (case r of Inl e \<Rightarrow> retc (Inl (if is_value_error e then config_file_value else e)) | Inr _ \<Rightarrow> retc (Inr ()))
      (\<lambda>k. case r of Inl e \<Rightarrow> retc (Inl (if is_value_error e then config_file_value else e)) | Inr _ \<Rightarrow> retc (Inr ()))"
    for r :: "confval result" by (cases r) (simp_all add: refines_retc)
  let ?d = "o_default (i_opt i)"
  have first: "refines V j
      (if c_validate_defaults C \<and> ?d \<noteq> PNone then
         bindc (convert_found str1 get1 grp ns (i_opt i) ?d) (\<lambda>r. case r of
             Inl e \<Rightarrow> retc (Inl (if is_value_error e then config_file_value else e)) | Inr _ \<Rightarrow> retc (Inr ()))
       else retc (Inr ()))
      (\<lambda>k. if c_validate_defaults C \<and> ?d \<noteq> PNone then
         bindc (convert_found str1 (\<lambda>n g ns. G n g ns k) grp ns (i_opt i) ?d) (\<lambda>r. case r of
             Inl e \<Rightarrow> retc (Inl (if is_value_error e then config_file_value else e)) | Inr _ \<Rightarrow> retc (Inr ()))
       else retc (Inr ()))"
  proof (cases "c_validate_defaults C \<and> ?d \<noteq> PNone")
    case True
    show ?thesis unfolding if_P [OF True] by (rule refines_bindc [OF conv check])
  next
    case False
    show ?thesis unfolding if_not_P [OF False] by (rule refines_retc)
  qed
  have second: "refines V j (if ?d \<noteq> PNone then convert_found str1 get1 grp ns (i_opt i) ?d else retc (Inr (Value PNone)))
      (\<lambda>k. if ?d \<noteq> PNone then convert_found str1 (\<lambda>n g ns. G n g ns k) grp ns (i_opt i) ?d else retc (Inr (Value PNone)))"
    by (cases "?d \<noteq> PNone") (simp_all add: refines_retc conv)
  show ?thesis unfolding from_default_def None option.case Let_def by (rule refines_thenc [OF first second])
qed

lemma refines_do_get:
  assumes get: "\<And>n g ns. ok ns \<Longrightarrow> refines V j (get1 n g ns) (G n g ns)" and none: "ok None"
    and eff: "\<And>opt1. ok (effective_ns C opt1 ns)"
  shows "refines V j (do_get str1 get1 C name grp ns) (\<lambda>k. do_get str1 (\<lambda>n g ns. G n g ns k) C name grp ns)"
proof (cases "grp = None \<and> dhas (c_groups C) name")
  case True
  then show ?thesis by (simp add: do_get_def refines_retc)
next
  case False
  show ?thesis
  proof (cases "get_opt_info C name grp")
    case (Inl e)
    then show ?thesis unfolding do_get_def if_not_P [OF False] by (simp add: refines_retc)
  next
    case (Inr i)
    show ?thesis
    proof (cases "i_override i")
      case (Some v)
      show ?thesis unfolding do_get_def if_not_P [OF False] Inr sum.case Some option.case
        by (rule refines_plain_substituted [of ok, OF get none])
    next
      case noo: None
      show ?thesis
      proof (cases "effective_ns C (i_opt i) ns")
        case None
        show ?thesis unfolding do_get_def if_not_P [OF False] Inr sum.case noo option.case None
          by (rule refines_from_default [of ok, OF get none none])
      next
        case (Some ns2)
        have ok2: "ok (Some ns2)" using eff [of "i_opt i"] Some by simp
        note found = refines_thenc [OF refines_retc refines_convert_found [of ok V j get1 G "Some ns2", OF get ok2]]
        have after: "refines V j
            (case r of Inr v \<Rightarrow> retc (Inr v) | Inl e \<Rightarrow>
               if is_key_error e then from_default str1 get1 C grp (Some ns2) i
               else retc (Inl (if is_value_error e then config_file_value else e)))
            (\<lambda>k. case r of Inr v \<Rightarrow> retc (Inr v) | Inl e \<Rightarrow>
               if is_key_error e then from_default str1 (\<lambda>n g ns. G n g ns k) C grp (Some ns2) i
               else retc (Inl (if is_value_error e then config_file_value else e)))" for r
        proof (cases r)
          case (Inl e)
          show ?thesis unfolding Inl sum.case
            by (cases "is_key_error e") (simp_all add: refines_retc refines_from_default [of ok V j get1 G "Some ns2", OF get none ok2])
        qed (simp add: refines_retc)
        show ?thesis unfolding do_get_def if_not_P [OF False] Inr sum.case noo option.case Some
          by (rule refines_bindc [OF found after])
      qed
    qed
  qed
qed

lemma plain_get_pure: "\<exists>x. plain_get str1 C k n g ns = pure_step x"
proof (induction k arbitrary: n g ns)
  case 0
  have "(\<lambda>c. None) = pure_step None" by (simp add: pure_step_def fun_eq_iff)
  then show ?case by auto
next
  case (Suc k)
  have "refines (\<lambda>c. False) 0 m (\<lambda>j. plain_get str1 C k n g ns)" for m n g ns
    using Suc [of n g ns] by (auto simp: refines_def)
  then have "refines (\<lambda>c. False) 0 (do_get str1 (plain_get str1 C k) C n g ns)
      (\<lambda>j. do_get str1 (plain_get str1 C k) C n g ns)"
    by (rule refines_do_get [where ok = "\<lambda>ns. True"]) simp_all
  then show ?case by (simp add: refines_def)
qed

lemma plain_get_mono:
  "plain_get str1 C k n g ns = pure_step (Some r) \<Longrightarrow> plain_get str1 C (Suc k) n g ns = pure_step (Some r)"
proof (induction k arbitrary: n g ns r)
  case 0
  then show ?case by (simp add: pure_step_def fun_eq_iff)
next
  case (Suc k)
  let ?G = "\<lambda>n g ns (j :: nat). if j = 0 then plain_get str1 C k n g ns else plain_get str1 C (Suc k) n g ns"
  have "refines (\<lambda>c. False) 0 m (?G n g ns)" for m n g ns
    unfolding refines_def
  proof (intro conjI allI impI)
    fix j r
    show "\<exists>x. ?G n g ns j = pure_step x" using plain_get_pure [of str1 C k n g ns] plain_get_pure [of str1 C "Suc k" n g ns] by auto
    show "?G n g ns j = pure_step (Some r) \<Longrightarrow> ?G n g ns (Suc j) = pure_step (Some r)"
      using Suc.IH [of n g ns r] by (auto split: if_splits simp del: plain_get.simps)
  qed auto
  then have "refines (\<lambda>c. False) 0 (do_get str1 (plain_get str1 C k) C n g ns)
      (\<lambda>j. do_get str1 (\<lambda>n g ns. ?G n g ns j) C n g ns)"
    by (rule refines_do_get [where ok = "\<lambda>ns. True"]) simp_all
  from refines_mono [OF this, of 0 r 1] Suc.prems show ?case by (simp del: plain_get.simps add: plain_get.simps(2) [symmetric])
qed

lemma plain_get_current:
  assumes "c_mutable_ns C = None" "ns = None \<or> ns = c_namespace C"
  shows "plain_get str1 C k n g ns = plain_get str1 C k n g None"
proof (cases k)
  case (Suc j)
  have "effective_ns C opt1 ns = effective_ns C opt1 None" for opt1
    using assms by (auto simp: effective_ns_def)
  then have "do_get str1 get1 C n g ns = do_get str1 get1 C n g None" for get1
    unfolding do_get_def by metis
  then show ?thesis unfolding Suc plain_get.simps .
qed simp

text \<open>A cache holds what the plain look-up gives.\<close>

definition cache_valid :: "(pyval \<Rightarrow> string) \<Rightarrow> conf \<Rightarrow> cache \<Rightarrow> bool" where
  "cache_valid str1 C c \<longleftrightarrow>
     (\<forall>g n v. dget c (g, n) = Some v \<longrightarrow> (\<exists>k. plain_get str1 C k n g None = pure_step (Some (Inr v))))"

lemma get_opt_refines:
  assumes "c_mutable_ns C = None" "ns = None \<or> ns = c_namespace C"
  shows "refines (cache_valid str1 C) n (get_opt str1 C n name g ns) (\<lambda>k. plain_get str1 C k name g ns)"
  using assms(2)
proof (induction n arbitrary: name g ns)
  case 0
  have "\<not> plain_get str1 C 0 name g ns = pure_step (Some r)" for r by (simp add: pure_step_def fun_eq_iff)
  then show ?case using plain_get_pure plain_get_mono unfolding refines_def by (auto simp del: plain_get.simps)
next
  case (Suc n)
  let ?V = "cache_valid str1 C" and ?m = "do_get str1 (get_opt str1 C n) C name g ns" and ?M = "\<lambda>k. plain_get str1 C k name g ns"
  have "refines ?V n ?m (\<lambda>k. do_get str1 (\<lambda>n g ns. plain_get str1 C k n g ns) C name g ns)"
    by (rule refines_do_get [where ok = "\<lambda>ns. ns = None \<or> ns = c_namespace C"])
      (use Suc assms(1) in \<open>auto simp: effective_ns_def\<close>)
  then have sound: "\<And>c r c1. ?V c \<Longrightarrow> ?m c = Some (r, c1) \<Longrightarrow> ?V c1 \<and> (\<exists>k. ?M (Suc k) = pure_step (Some r))"
    and full: "\<And>c r. ?V c \<Longrightarrow> ?M (Suc n) = pure_step (Some r) \<Longrightarrow> \<exists>c1. ?m c = Some (r, c1)"
    unfolding refines_def plain_get.simps by blast+
  have same: "plain_get str1 C k name g ns = plain_get str1 C k name g None" for k
    by (rule plain_get_current [OF assms(1) Suc.prems])
  have det: "r = s" if "plain_get str1 C k name g ns = pure_step (Some r)" "plain_get str1 C l name g ns = pure_step (Some s)" for k l r s
  proof -
    have up: "plain_get str1 C (k + i) name g ns = pure_step (Some r)" if "plain_get str1 C k name g ns = pure_step (Some r)" for k i r
      using that by (induction i) (simp_all add: plain_get_mono del: plain_get.simps)
    show ?thesis using up [OF that(1), of l] up [OF that(2), of k] by (simp add: add.commute)
  qed
  show ?case
    unfolding refines_def
  proof (intro conjI allI impI)
    fix k r
    show "\<exists>x. ?M k = pure_step x" by (rule plain_get_pure)
    show "?M k = pure_step (Some r) \<Longrightarrow> ?M (Suc k) = pure_step (Some r)" by (rule plain_get_mono)
  next
    fix c r c1 assume V: "?V c" and run: "get_opt str1 C (Suc n) name g ns c = Some (r, c1)"
    have "?V c1 \<and> (\<exists>k. ?M k = pure_step (Some r))"
    proof (cases "if ns = None then dget c (g, name) else None")
      case (Some v)
      with run have "r = Inr v" "c1 = c" "dget c (g, name) = Some v" "ns = None" by (auto split: if_splits)
      with V show ?thesis unfolding cache_valid_def by blast
    next
      case None
      with run have run2: "cache_result (g, name) ?m c = Some (r, c1)" by simp
      show ?thesis
      proof (cases r)
        case (Inl e)
        with run2 have "?m c = Some (r, c1)" by (auto simp: cache_result_def split: option.splits sum.splits)
        with sound [OF V] show ?thesis by blast
      next
        case (Inr v)
        with run2 obtain c2 where c2: "?m c = Some (r, c2)" "c1 = dset (g, name) v c2"
          by (auto simp: cache_result_def split: option.splits sum.splits)
        from sound [OF V c2(1)] obtain k where k: "?V c2" "?M (Suc k) = pure_step (Some r)" by blast
        then have "plain_get str1 C (Suc k) name g None = pure_step (Some (Inr v))" using same [of "Suc k"] Inr by simp
        with k(1) c2(2) have "?V c1" unfolding cache_valid_def dget_dset by (auto simp del: plain_get.simps)
        with k(2) show ?thesis by blast
      qed
    qed
    then show "?V c1" "\<exists>k. ?M k = pure_step (Some r)" by blast+
  next
    fix c r assume V: "?V c" and plain: "?M (Suc n) = pure_step (Some r)"
    show "\<exists>c1. get_opt str1 C (Suc n) name g ns c = Some (r, c1)"
    proof (cases "if ns = None then dget c (g, name) else None")
      case (Some v)
      then have hit: "dget c (g, name) = Some v" "ns = None" by (auto split: if_splits)
      with V obtain k where "plain_get str1 C k name g ns = pure_step (Some (Inr v))" unfolding cache_valid_def by blast
      from det [OF this plain] have "r = Inr v" by simp
      with hit show ?thesis by simp
    next
      case None
      from full [OF V plain] obtain c1 where "?m c = Some (r, c1)" by blast
      with None show ?thesis by (cases r) (simp_all add: cache_result_def)
    qed
  qed
qed

section \<open>The cache in use\<close>

text \<open>\<^verbatim>\<open>__clear_cache\<close>: the cache is emptied after an operation, unless that raised an error.\<close>

definition clear_cache :: "'a result \<times> conf \<Rightarrow> cache \<Rightarrow> 'a result \<times> conf \<times> cache" where
  "clear_cache rc c = (case rc of (Inl e, C) \<Rightarrow> (Inl e, C, c) | (Inr x, C) \<Rightarrow> (Inr x, C, []))"

definition changed_conf :: "conf \<Rightarrow> conf result \<Rightarrow> unit result \<times> conf" where
  "changed_conf C r = (case r of Inl e \<Rightarrow> (Inl e, C) | Inr C1 \<Rightarrow> (Inr (), C1))"

text \<open>
  \<^verbatim>\<open>register_opts\<close> registers one after the other without clearing, and clears at its end. A new group
  is a copy of the given one, with the options it has; registering it clears nothing.
\<close>

fun register_opts :: "opt list \<Rightarrow> string option \<Rightarrow> conf \<Rightarrow> unit result \<times> conf" where
  "register_opts [] g C = (Inr (), C)"
| "register_opts (opt1 # os) g C =
     (case register_opt opt1 g C of (Inl e, C1) \<Rightarrow> (Inl e, C1) | (Inr b, C1) \<Rightarrow> register_opts os g C1)"

definition register_group :: "string \<Rightarrow> opts \<Rightarrow> conf \<Rightarrow> conf" where
  "register_group g os C = (if dhas (c_groups C) g then C else C\<lparr>c_groups := dset g os (c_groups C)\<rparr>)"

text \<open>\<open>parsed\<close>: the arguments were parsed, which forbids unregistering until they are cleared.\<close>

definition unregister_opt :: "bool \<Rightarrow> opt \<Rightarrow> string option \<Rightarrow> conf \<Rightarrow> unit result \<times> conf" where
  "unregister_opt parsed opt1 grp C =
     (if parsed then (Inl (OtherError ''ArgsAlreadyParsedError''), C)
      else case grp of
          None \<Rightarrow> (Inr (), C\<lparr>c_opts := AList.delete (o_dest opt1) (c_opts C)\<rparr>)
        | Some g \<Rightarrow>
            (case dget (c_groups C) g of
               None \<Rightarrow> (Inl no_such_group, C)
             | Some os \<Rightarrow> (Inr (), C\<lparr>c_groups := dset g (AList.delete (o_dest opt1) os) (c_groups C)\<rparr>)))"

text \<open>\<^verbatim>\<open>clear\<close> forgets what was parsed and the options that \<^verbatim>\<open>__call__\<close> added for the files.\<close>

definition clear_parsed :: "opt list \<Rightarrow> conf \<Rightarrow> unit result \<times> conf" where
  "clear_parsed config_opts C =
     (Inr (), C\<lparr>c_namespace := None, c_mutable_ns := None, c_validate_defaults := False,
        c_opts := fold (\<lambda>opt1. AList.delete (o_dest opt1)) config_opts (c_opts C)\<rparr>)"

text \<open>
  What a program does with its options. The third component says whether the cache may be out of
  date. An operation that clears the cache ends that when it succeeds; when it raises after a change
  (the registration of several options), the cache is left as it was and may be out of date from
  then on, and so it is after a new group was registered, after a reload that raises and after a
  mutation: both may leave values in the cache that were looked up in the new files.
\<close>

inductive clearing :: "(pyval \<Rightarrow> string) \<Rightarrow> conf \<Rightarrow> unit result \<times> conf \<Rightarrow> bool" for str1 where
  clearing_register: "register_opt opt1 g C = (r, C1) \<Longrightarrow>
     clearing str1 C (case r of Inl e \<Rightarrow> Inl e | Inr b \<Rightarrow> Inr (), C1)"
| clearing_registers: "clearing str1 C (register_opts os g C)"
| clearing_unregister: "clearing str1 C (unregister_opt parsed opt1 g C)"
| clearing_override: "clearing str1 C (changed_conf C (set_override str1 name v g enf C))"
| clearing_default: "clearing str1 C (changed_conf C (set_default str1 name v g enf C))"
| clearing_no_override: "clearing str1 C (changed_conf C (clear_override name g C))"
| clearing_no_default: "clearing str1 C (changed_conf C (clear_default name g C))"
| clearing_clear: "clearing str1 C (clear_parsed config_opts C)"

inductive conf_step :: "(pyval \<Rightarrow> string) \<Rightarrow> conf \<times> cache \<times> bool \<Rightarrow> conf \<times> cache \<times> bool \<Rightarrow> bool" for str1 where
  conf_look: "get_opt str1 C n name g None c = Some (r, c1) \<Longrightarrow> conf_step str1 (C, c, old) (C, c1, old)"
| conf_clearing: "clearing str1 C rc \<Longrightarrow> clear_cache rc c = (r, C1, c1) \<Longrightarrow>
    conf_step str1 (C, c, old) (C1, c1, isl r \<and> (old \<or> C1 \<noteq> C))"
| conf_group: "conf_step str1 (C, c, old) (register_group g os C, c, old \<or> register_group g os C \<noteq> C)"
| conf_reload: "reload_config_files str1 n fresh C c = Some (r, C1, c1) \<Longrightarrow>
    conf_step str1 (C, c, old) (C1, c1, isl r)"
| conf_mutate: "mutate_config_files str1 n fresh C = Some (r, C1, c1) \<Longrightarrow> conf_step str1 (C, c, old) (C1, c1, True)"

definition conf_fits :: "(pyval \<Rightarrow> string) \<Rightarrow> conf \<times> cache \<times> bool \<Rightarrow> bool" where
  "conf_fits str1 = (\<lambda>(C, c, old). \<not> old \<longrightarrow> c_mutable_ns C = None \<longrightarrow> cache_valid str1 C c)"

lemma cache_valid_empty [simp]: "cache_valid str1 C []"
  by (simp add: cache_valid_def)

text \<open>A reload that raises changes no option, one that answers empties the cache.\<close>

lemma reload_cases:
  assumes "reload_config_files str1 n fresh C c = Some (r, C1, c1)"
  shows "if isl r then C1 = C else c1 = []"
  using assms by (auto simp: reload_config_files_def split: sum.splits option.splits prod.splits if_splits)

lemma conf_step_fits: "conf_step str1 s t \<Longrightarrow> conf_fits str1 s \<Longrightarrow> conf_fits str1 t"
proof (induction rule: conf_step.induct)
  case (conf_look C n name g c r c1 old)
  have "refines (cache_valid str1 C) n (get_opt str1 C n name g None) (\<lambda>k. plain_get str1 C k name g None)"
    if "c_mutable_ns C = None"
    by (rule get_opt_refines [OF that]) simp
  with conf_look show ?case unfolding refines_def conf_fits_def by blast
next
  case (conf_clearing C rc c r C1 c1 old)
  then show ?case by (auto simp: clear_cache_def conf_fits_def split: prod.splits sum.splits)
next
  case (conf_reload n fresh C c r C1 c1 old)
  from reload_cases [OF conf_reload(1)] conf_reload(2) show ?case
    by (auto simp: conf_fits_def split: if_splits)
qed (auto simp: conf_fits_def)

lemma conf_steps_fit: "(conf_step str1)\<^sup>*\<^sup>* s t \<Longrightarrow> conf_fits str1 s \<Longrightarrow> conf_fits str1 t"
  by (induction rule: rtranclp_induct) (blast intro: conf_step_fits)+

text \<open>
  C10: When the cache of options cannot be seen. Look-ups, registrations of options and groups,
  unregistering, overrides, defaults, clearing, reloads and mutations follow each other in any order,
  whether they succeed or raise. Unless the history has marked the cache as out of date (as the
  steps above say, and then only until the next operation succeeds that clears it), and while no
  mutated files are in use, an option has the value, or the error, that a look-up without any cache
  gives for the options, overrides and files as they are then; and a look-up ends with the one
  exactly when it does with the other. The marks are needed: \<open>raising_reload_seen\<close>,
  \<open>new_group_seen\<close> and \<open>mutate_reaches_immutable\<close> are histories after which the cache shows.
\<close>

theorem cached_lookup:
  assumes "(conf_step str1)\<^sup>*\<^sup>* (C0, [], False) (C, c, False)" "c_mutable_ns C = None"
  shows "(\<exists>n c1. get_opt str1 C n name g None c = Some (r, c1))
    \<longleftrightarrow> (\<exists>n. plain_get str1 C n name g None [] = Some (r, []))"
proof -
  have "conf_fits str1 (C, c, False)"
    by (rule conf_steps_fit [OF assms(1)]) (simp add: conf_fits_def)
  with assms(2) have V: "cache_valid str1 C c" by (simp add: conf_fits_def)
  have R: "refines (cache_valid str1 C) n (get_opt str1 C n name g None) (\<lambda>k. plain_get str1 C k name g None)" for n
    by (rule get_opt_refines [OF assms(2)]) simp
  have plain: "plain_get str1 C n name g None [] = Some (r, []) \<longleftrightarrow> plain_get str1 C n name g None = pure_step (Some r)" for n
  proof -
    obtain x where x: "plain_get str1 C n name g None = pure_step x" using plain_get_pure by blast
    show ?thesis unfolding x pure_step_inject by (auto simp: pure_step_def)
  qed
  show ?thesis unfolding plain using R V unfolding refines_def by blast
qed

definition sample_str :: "pyval \<Rightarrow> string" where
  "sample_str v = (case v of PStr s \<Rightarrow> s | _ \<Rightarrow> [])"

definition sample_opt :: "string \<Rightarrow> string \<Rightarrow> opt" where
  "sample_opt n d =
     \<lparr>o_name = n, o_dest = n, o_type = OString None False False 0, o_default = PStr d, o_multi = False,
      o_positional = False, o_required = True, o_mutable = False, o_deprecated = []\<rparr>"

definition sample_conf :: conf where
  "sample_conf =
     \<lparr>c_opts = [(''host'', new_info (sample_opt ''host'' ''a'')), (''url'', new_info (sample_opt ''url'' ''//$host''))],
      c_groups = [], c_namespace = None, c_mutable_ns = None, c_validate_defaults = False\<rparr>"

definition sample_overridden :: conf where
  "sample_overridden = put_opt_info ''host'' None ((new_info (sample_opt ''host'' ''a''))\<lparr>i_override := Some (PStr ''b'')\<rparr>) sample_conf"

text \<open>The address is looked up, and so cached, before the host that it names is overridden.\<close>

lemma cached_lookup_witness:
  "\<exists>n c1. get_opt sample_str sample_overridden n ''url'' None None [] = Some (Inr (Value (PStr ''//b'')), c1)"
proof -
  let ?c = "[((None, ''host''), Value (PStr ''a'')), ((None, ''url''), Value (PStr ''//a''))]"
  have "get_opt sample_str sample_conf 3 ''url'' None None [] = Some (Inr (Value (PStr ''//a'')), ?c)"
    by code_simp
  then have first: "conf_step sample_str (sample_conf, [], False) (sample_conf, ?c, False)"
    by (rule conf_look)
  have "clear_cache (changed_conf sample_conf (set_override sample_str ''host'' (PStr ''b'') None False sample_conf)) ?c
      = (Inr (), sample_overridden, [])"
    by code_simp
  from conf_clearing [OF clearing_override this, of False]
  have "conf_step sample_str (sample_conf, ?c, False) (sample_overridden, [], False)" by simp
  with first have steps: "(conf_step sample_str)\<^sup>*\<^sup>* (sample_conf, [], False) (sample_overridden, [], False)" by auto
  have none: "c_mutable_ns sample_overridden = None" by code_simp
  have "plain_get sample_str sample_overridden 3 ''url'' None None [] = Some (Inr (Value (PStr ''//b'')), [])" by code_simp
  then show ?thesis using cached_lookup [OF steps none] by blast
qed

text \<open>A new group hides an option of its name, but not one that is in the cache.\<close>

lemma new_group_seen:
  defines "c \<equiv> [((None, ''host''), Value (PStr ''a''))]"
  shows "get_opt sample_str sample_conf 3 ''host'' None None [] = Some (Inr (Value (PStr ''a'')), c)
    \<and> get_opt sample_str (register_group ''host'' [] sample_conf) 3 ''host'' None None c = Some (Inr (Value (PStr ''a'')), c)
    \<and> plain_get sample_str (register_group ''host'' [] sample_conf) 3 ''host'' None None [] = Some (Inr (GroupAttr ''host''), [])"
  unfolding c_def by (intro conjI; code_simp)

text \<open>
  \<^verbatim>\<open>mutate_config_files\<close> promises that only mutable options change. It checks the required ones in the
  new files after it cleared the cache, which leaves their new values there: a required option that
  is not mutable changes.
\<close>

definition sample_parse :: "string \<Rightarrow> conf_ns" where
  "sample_parse h =
     \<lparr>cli_values = [], file_values = \<lparr>ns_parsed = [[(''DEFAULT'', [(''host'', [h])])]],
                                     ns_normalized = [[(''DEFAULT'', [(''host'', [h])])]]\<rparr>\<rparr>"

lemma mutate_reaches_immutable:
  defines "C \<equiv> sample_conf\<lparr>c_namespace := Some (sample_parse ''old'')\<rparr>"
  shows "\<exists>C1 c. mutate_config_files sample_str 3 (Inr (sample_parse ''new'')) C = Some (Inr [], C1, c)
    \<and> get_opt sample_str C1 3 ''host'' None None c = Some (Inr (Value (PStr ''new'')), c)
    \<and> plain_get sample_str C1 3 ''host'' None None [] = Some (Inr (Value (PStr ''old'')), [])"
proof -
  let ?C1 = "C\<lparr>c_mutable_ns := Some (sample_parse ''new'')\<rparr>"
  let ?c = "[((None, ''host''), Value (PStr ''new'')), ((None, ''url''), Value (PStr ''//new''))]"
  have "mutate_config_files sample_str 3 (Inr (sample_parse ''new'')) C = Some (Inr [], ?C1, ?c)"
    unfolding C_def by code_simp
  moreover have "get_opt sample_str ?C1 3 ''host'' None None ?c = Some (Inr (Value (PStr ''new'')), ?c)"
    unfolding C_def by code_simp
  moreover have "plain_get sample_str ?C1 3 ''host'' None None [] = Some (Inr (Value (PStr ''old'')), [])"
    unfolding C_def by code_simp
  ultimately show ?thesis by blast
qed

text \<open>
  A reload that ends with an error of a conversion raises, and leaves the value of an option that it
  looked up in the refused files.
\<close>

lemma raising_reload_seen:
  defines "C \<equiv> sample_conf\<lparr>c_namespace := Some (sample_parse ''old''),
     c_opts := c_opts sample_conf @ [(''n'', new_info ((sample_opt ''n'' ''0'')\<lparr>o_multi := True\<rparr>))]\<rparr>"
  shows "\<exists>c. reload_config_files sample_str 3 (Inr ((sample_parse ''new'')\<lparr>cli_values := [(''n'', PInt 1)]\<rparr>)) C [] = Some (Inl TypeError, C, c)
    \<and> get_opt sample_str C 3 ''host'' None None c = Some (Inr (Value (PStr ''new'')), c)
    \<and> plain_get sample_str C 3 ''host'' None None [] = Some (Inr (Value (PStr ''old'')), [])"
proof -
  let ?c = "[((None, ''host''), Value (PStr ''new'')), ((None, ''url''), Value (PStr ''//new''))]"
  have "reload_config_files sample_str 3 (Inr ((sample_parse ''new'')\<lparr>cli_values := [(''n'', PInt 1)]\<rparr>)) C [] = Some (Inl TypeError, C, ?c)"
    unfolding C_def by code_simp
  moreover have "get_opt sample_str C 3 ''host'' None None ?c = Some (Inr (Value (PStr ''new'')), ?c)"
    unfolding C_def by code_simp
  moreover have "plain_get sample_str C 3 ''host'' None None [] = Some (Inr (Value (PStr ''old'')), [])"
    unfolding C_def by code_simp
  ultimately show ?thesis by blast
qed

end
