(* ===== verification/Spec2Isabelle.thy ===== *)
theory Spec2Isabelle
  imports QuotaDriver Exceptions Wsgi Loops ServiceGroup ComputeNodes Utils Periodic QuotaObject Archive ApiCommon Urlmap RpcApis ApiApp WireClasses ConfOpts
begin

text \<open>
  polar-bear runs tests on remote machines. It is a fork of OpenStack nova, stored with the
  libraries it uses. A client posts a test plan to the REST API; the API stores the plan and its
  cases as versioned objects and casts the plan to the conductor; the conductor hands the steps
  of a case to agents, one per machine, which run an HTTP request, a shell command or a docker
  operation and report the outcome to a report service, and the service writes it into the plan.
  Around this lie what nova brings: the request pipeline with its versions and faults, the
  routing of resources, quotas and reservations, the table of services with its heartbeats,
  compute nodes, periodic tasks, remote calls over a message broker, the archiving of rows.

  \<^bold>\<open>The way of a request through the theories.\<close>
  \<open>Urlmap\<close> picks the application of a path and a media type (\<^verbatim>\<open>nova/api/openstack/urlmap.py\<close>).
  \<open>ApiApp\<close> is the deployed application: the NoAuth middleware makes the context, \<open>Routing\<close>
  finds the controller among the extensions and routes built at start-up, \<open>Wsgi\<close> decodes the
  body, negotiates the version (\<open>Versions\<close>), runs the method with its extensions and answers,
  errors included (\<open>Errors\<close>, \<open>Exceptions\<close>). The controllers are in \<open>TestPlans\<close>, \<open>Slaves\<close> and
  \<open>VersionViews\<close>; they use objects (\<open>VObjects\<close>, \<open>Persist\<close>) over tables (\<open>Tables\<close>,
  \<open>ComputeNodes\<close>, \<open>Services\<close>). A cast leaves through \<open>RpcApis\<close>, is put into a message and
  dispatched by \<open>Rpc\<close>, and travels over the broker in \<open>Amqp\<close>. The agents in \<open>Agents\<close> run the
  steps and call the service in \<open>Report\<close>. The state of the deployed API is \<open>api_state\<close>: the
  tables and the log of casts; every method of a controller threads it.

  \<^bold>\<open>Theories and what they model.\<close>
  \<^item> \<open>Prelude\<close>, \<open>PyStr\<close>, \<open>Json\<close>, \<open>Floats\<close>, \<open>Utf8\<close>: Python values, exceptions as values of a sum
    type (\<open>'a result\<close>), dictionaries as association lists, string methods, JSON text and its
    parser (its fuel is the length of the text, which every recursive call shortens), rounding of
    doubles, truncation of encoded texts.
  \<^item> \<open>VObjects\<close>, \<open>Persist\<close>, \<open>Tables\<close>, \<open>TestPlans\<close>: fields and their coercion, change tracking, the
    test plan and test case objects, their rows, and the handlers of \<^verbatim>\<open>compute/testplan.py\<close> and
    \<^verbatim>\<open>testcase.py\<close>. The contract of an object class over a table is a locale, interpreted on both.
  \<^item> \<open>Report\<close>, \<open>Agents\<close>: \<^verbatim>\<open>nova/reportrpc.py\<close> and the three agents \<^verbatim>\<open>nova/compute/manager_*.py\<close>;
    a run of reports is a list of messages folded over the server and the plan's row.
  \<^item> \<open>QuotaDb\<close>, \<open>Reservations\<close>, \<open>QuotaDriver\<close>, \<open>QuotaObject\<close>: limits, usages, reservations with
    their two-phase commit, the drivers of \<^verbatim>\<open>nova/quota.py\<close> and the handle of
    \<^verbatim>\<open>objects/quotas.py\<close>; the invariant is that the reserved count of a usage is the sum of the
    pending positive reservations.
  \<^item> \<open>Services\<close>, \<open>ServiceGroup\<close>, \<open>ComputeNodes\<close>, \<open>Archive\<close>: the tables of services and nodes
    with their objects, heartbeats as an inductive step relation, pages of nodes, archiving.
  \<^item> \<open>Loops\<close>, \<open>Periodic\<close>, \<open>AuditPeriods\<close>: looping calls as partial functions (not returning is
    \<open>None\<close>), periodic tasks with rational times, calendar arithmetic.
  \<^item> \<open>Rpc\<close>, \<open>Amqp\<close>, \<open>RpcApis\<close>: \<^verbatim>\<open>oslo_messaging\<close> from the client to the dispatcher, the broker
    driver with its reply and duplicate handling, the calls nova makes through it.
  \<^item> \<open>WireObjects\<close>, \<open>WireClasses\<close>: versioned objects as primitive data and back, with objects in
    their fields, the registry of classes, older versions for older peers, the serializer. The
    walk through the classes below one has the number of registered names as fuel, enough
    because every step visits a name for the first time.
  \<^item> \<open>IniFiles\<close>, \<open>ConfTypes\<close>, \<open>ConfOpts\<close>: the options of \<^verbatim>\<open>oslo_config\<close>: the lines and sections of a
    file, the types that turn texts into values, and the look-up of an option over overrides, files,
    defaults and templates, with its cache. A look-up has a bound on its depth, because an
    option may refer to itself; without enough of it the answer is \<open>None\<close>, Python's recursion error.
  \<^item> \<open>Routing\<close>, \<open>Wsgi\<close>, \<open>Versions\<close>, \<open>VersionViews\<close>, \<open>Slaves\<close>, \<open>ApiApp\<close>, \<open>ApiCommon\<close>, \<open>Contexts\<close>,
    \<open>Urlmap\<close>, \<open>Errors\<close>, \<open>Exceptions\<close>, \<open>Utils\<close>: the API as above, the helpers its controllers share,
    the request context, and helpers of \<^verbatim>\<open>nova/utils.py\<close>.

  \<^bold>\<open>What the lemmas show.\<close> For objects and tables: every operation keeps objects and tables well
  formed, and what is saved is read back. For a plan: posting it over HTTP stores one row and makes
  one cast, a step cast to an agent ends in one report that changes that step and the summary
  and nothing else, and the pass ratio is at most the true percentage and at most one below it (for
  fewer than \<open>2 ^ 45\<close> counted cases). For quotas: the
  invariant of the reservations under every operation, limits kept by granted reservations, nothing
  left behind by refused ones. For services and nodes: what starting does to the row of a
  service, liveness of heartbeats over any run of events, pages that partition the nodes. For
  calls: objects passed as arguments arrive as they were sent, but for the microseconds of dates, a
  call over the broker refines the direct dispatch of its message, a message is handled at most once
  while it is remembered, and the version caps of clients suit the servers, as far as the minimum
  version that the process remembers is current. For the API: the
  status of every error, versions negotiated or refused before anything runs, resources routed
  and linked whatever the order of the plugins. For options: what is written into files is what
  is looked up, values have the types of their options, and the cache shows no value that has
  changed since, except after the steps that leave it out of date, which are named. For loops: they end where the code bounds them, and the wait for the conductor ends
  exactly when a ping is answered.

  \<^bold>\<open>Parameters.\<close> Code outside the repository is an argument: the clock, random choices and generated ids
  (\<open>fresh\<close>), the HTTP, shell and docker clients of the agents, the parsers of dates and of
  floating-point texts, the matching of paths (routes), the loading of plugins (stevedore), what
  webob reads from a request, the broker's delivery, the import of exception classes, and the
  synchronisation functions of quotas. Where a property relies on one, a named hypothesis says how, and
  its witness gives a concrete function for it.

  \<^bold>\<open>Bounds.\<close> Integers are Python's and have none. Identifiers of rows come from a counter kept
  above every row. The chain of inherited resources is followed with the index of the resource as
  fuel, enough because a link leads to an earlier resource. Times are rational seconds. Texts
  are of characters up to 255 except in \<open>Utf8\<close>, where a character is its code point.

  \<^bold>\<open>Not modelled.\<close> SQL and its dialects (a query is a filter over rows), threads, sockets and files,
  logging, the RabbitMQ connection and the other transports, the identity client (the deployed
  pipelines use NoAuth), the parsing of command lines and the options that nova declares (the
  definitions that read an option take its value as an argument), and the code copied from nova
  that nothing in the repository can reach: the controllers without an entry point, the database functions and objects whose tables do not exist here. The conductor's manager is not in the repository.
  The quota functions are modelled over the tables that they name, but the model classes of these tables are
  missing from \<^verbatim>\<open>nova/db/sqlalchemy/models.py\<close>: as the repository stands, every such call raises. The
  decorators around the transaction, \<^verbatim>\<open>require_context\<close> and the retry after a deadlock, are left out of them.
\<close>

end
